(* ===== verification/AirDAP_Prelude.thy ===== *)
theory AirDAP_Prelude
  imports Main "HOL-Library.Word" "HOL-Library.Monad_Syntax"
begin

text \<open>
  The shared vocabulary of the development.

  \<^item> Machine integers: the fixed-width unsigned types of \<^verbatim>\<open>stdint.h\<close> are words; \<^verbatim>\<open>size_t\<close> is
    \<^typ>\<open>nat\<close>, with \<open>SIZE_MAX\<close> (the 32-bit value of the ESP32-S3 target) where the code
    compares with it.
  \<^item> Buffers: an array in memory is a list of bytes. A read or write outside the list is
    undefined behaviour in C, and is the value \<^const>\<open>None\<close> of the access functions \<open>rd\<close>,
    \<open>wr\<close> and \<open>wr_bytes\<close> here, so that a function that returns \<^const>\<open>Some\<close> has stayed
    inside its buffers. A nullable pointer is an option.
  \<^item> Byte order: the readers and writers of \<^verbatim>\<open>airdap_frame.c\<close> (big endian) and of
    \<^verbatim>\<open>dap_protocol.c\<close> and \<^verbatim>\<open>dap_ota.c\<close> (little endian).
  \<^item> Error codes: the \<^verbatim>\<open>esp_err_t\<close> values the modelled components name.
  \<^item> Collections: \<open>mem_simps\<close> for buffer accesses, \<open>byte_simps\<close> for byte order.
\<close>

unbundle bit_operations_syntax

named_theorems mem_simps "rewrites for bounded buffer accesses"
named_theorems byte_simps "round trips between words and their bytes"

section \<open>Machine types\<close>

type_synonym u8 = "8 word"
type_synonym u16 = "16 word"
type_synonym u32 = "32 word"
type_synonym u64 = "64 word"
type_synonym bytes = "u8 list"

definition SIZE_MAX :: nat where
  "SIZE_MAX = 2 ^ 32 - 1"

definition UINT32_MAX :: u32 where
  "UINT32_MAX = 0xFFFFFFFF"

datatype esp_err =
    ESP_OK
  | ESP_FAIL
  | ESP_ERR_NO_MEM
  | ESP_ERR_INVALID_ARG
  | ESP_ERR_INVALID_STATE
  | ESP_ERR_INVALID_SIZE
  | ESP_ERR_NOT_FOUND
  | ESP_ERR_TIMEOUT
  | ESP_ERR_INVALID_RESPONSE
  | ESP_ERR_INVALID_CRC
  | ESP_ERR_INVALID_VERSION
  | ESP_ERR_NVS_NOT_FOUND
  | ESP_ERR_NVS_NO_FREE_PAGES
  | ESP_ERR_NVS_NEW_VERSION_FOUND
  | ESP_ERR_OTHER nat

lemma unat_u32_less: "unat (x :: u32) < 4294967296"
  by (rule unsigned_less [of x, THEN order_less_le_trans]) simp

section \<open>Buffers\<close>

definition rd :: "bytes \<Rightarrow> nat \<Rightarrow> u8 option" where
  "rd b i = (if i < length b then Some (b ! i) else None)"

definition wr :: "bytes \<Rightarrow> nat \<Rightarrow> u8 \<Rightarrow> bytes option" where
  "wr b i v = (if i < length b then Some (b[i := v]) else None)"

text \<open>\<^verbatim>\<open>memcpy(dst + off, src, n)\<close>: \<open>n\<close> bytes must be readable and writable.\<close>

definition wr_bytes :: "bytes \<Rightarrow> nat \<Rightarrow> bytes \<Rightarrow> nat \<Rightarrow> bytes option" where
  "wr_bytes b off src n =
     (if off + n \<le> length b \<and> n \<le> length src
      then Some (take off b @ take n src @ drop (off + n) b) else None)"

text \<open>The \<open>n\<close> bytes at offset \<open>off\<close>, as a callee that is handed \<^verbatim>\<open>buf + off\<close> reads them.\<close>

definition rd_bytes :: "bytes \<Rightarrow> nat \<Rightarrow> nat \<Rightarrow> bytes option" where
  "rd_bytes b off n = (if off + n \<le> length b then Some (take n (drop off b)) else None)"

lemma rd_Some [mem_simps]: "i < length b \<Longrightarrow> rd b i = Some (b ! i)"
  by (simp add: rd_def)

lemma rd_eq_Some_iff: "rd b i = Some v \<longleftrightarrow> i < length b \<and> v = b ! i"
  by (auto simp: rd_def)

lemma wr_Some [mem_simps]: "i < length b \<Longrightarrow> wr b i v = Some (b[i := v])"
  by (simp add: wr_def)

lemma wr_eq_Some_iff: "wr b i v = Some b' \<longleftrightarrow> i < length b \<and> b' = b[i := v]"
  by (auto simp: wr_def)

lemma wr_bytes_Some [mem_simps]:
  "off + n \<le> length b \<Longrightarrow> n \<le> length src \<Longrightarrow>
   wr_bytes b off src n = Some (take off b @ take n src @ drop (off + n) b)"
  by (simp add: wr_bytes_def)

lemma rd_bytes_Some [mem_simps]:
  "off + n \<le> length b \<Longrightarrow> rd_bytes b off n = Some (take n (drop off b))"
  by (simp add: rd_bytes_def)

lemma wr_length: "wr b i v = Some b' \<Longrightarrow> length b' = length b"
  by (auto simp: wr_def split: if_splits)

lemma wr_bytes_length: "wr_bytes b off src n = Some b' \<Longrightarrow> length b' = length b"
  by (auto simp: wr_bytes_def split: if_splits)

lemma bind_Some_ex: "(\<exists>x. m = Some x) \<Longrightarrow> (\<And>x. m = Some x \<Longrightarrow> \<exists>y. f x = Some y) \<Longrightarrow>
  \<exists>y. m \<bind> f = Some y"
  by auto

section \<open>Byte order\<close>

definition be16 :: "u8 \<Rightarrow> u8 \<Rightarrow> u16" where
  "be16 a b = push_bit 8 (ucast a) OR ucast b"

definition be32 :: "u8 \<Rightarrow> u8 \<Rightarrow> u8 \<Rightarrow> u8 \<Rightarrow> u32" where
  "be32 a b c d =
     push_bit 24 (ucast a) OR push_bit 16 (ucast b) OR push_bit 8 (ucast c) OR ucast d"

text \<open>Byte \<open>i\<close> of a word, the truncating cast \<^verbatim>\<open>(uint8_t) (value >> 8 * i)\<close>.\<close>

definition byte0 :: "'a::len word \<Rightarrow> u8" where
  "byte0 v = ucast v"

definition byte1 :: "'a::len word \<Rightarrow> u8" where
  "byte1 v = ucast (drop_bit 8 v)"

definition byte2 :: "'a::len word \<Rightarrow> u8" where
  "byte2 v = ucast (drop_bit 16 v)"

definition byte3 :: "'a::len word \<Rightarrow> u8" where
  "byte3 v = ucast (drop_bit 24 v)"

lemmas byte_defs = byte0_def byte1_def byte2_def byte3_def

lemma be16_bytes [byte_simps]: "be16 (byte1 v) (byte0 v) = v"
  unfolding be16_def byte_defs by (rule bit_word_eqI) (auto simp: bit_simps)

lemma byte_of_be16 [byte_simps]:
  "byte0 (be16 a b) = b" "byte1 (be16 a b) = a"
  unfolding be16_def byte_defs
  by (rule bit_word_eqI; auto simp: bit_simps dest: bit_imp_le_length)+

lemma be32_bytes [byte_simps]:
  "be32 (byte3 v) (byte2 v) (byte1 v) (byte0 v) = v"
proof (rule bit_word_eqI)
  fix n assume "n < LENGTH(32)"
  then show "bit (be32 (byte3 v) (byte2 v) (byte1 v) (byte0 v)) n = bit v n"
    unfolding be32_def byte_defs
    by (cases "n < 8"; cases "n < 16"; cases "n < 24") (auto simp: bit_simps)
qed

lemma byte_of_be32 [byte_simps]:
  "byte0 (be32 a b c d) = d" "byte1 (be32 a b c d) = c"
  "byte2 (be32 a b c d) = b" "byte3 (be32 a b c d) = a"
  unfolding be32_def byte_defs
  by (rule bit_word_eqI; auto simp: bit_simps dest: bit_imp_le_length)+

text \<open>Readers and writers at an offset of a buffer (\<^verbatim>\<open>read_u16_be(data + off)\<close>).\<close>

definition read_u16_be :: "bytes \<Rightarrow> nat \<Rightarrow> u16 option" where
  "read_u16_be data off = do {
     a \<leftarrow> rd data off; b \<leftarrow> rd data (off + 1);
     Some (be16 a b) }"

definition read_u32_be :: "bytes \<Rightarrow> nat \<Rightarrow> u32 option" where
  "read_u32_be data off = do {
     a \<leftarrow> rd data off; b \<leftarrow> rd data (off + 1);
     c \<leftarrow> rd data (off + 2); d \<leftarrow> rd data (off + 3);
     Some (be32 a b c d) }"

definition write_u16_be :: "bytes \<Rightarrow> nat \<Rightarrow> u16 \<Rightarrow> bytes option" where
  "write_u16_be data off v = do {
     data \<leftarrow> wr data off (byte1 v);
     wr data (off + 1) (byte0 v) }"

definition write_u32_be :: "bytes \<Rightarrow> nat \<Rightarrow> u32 \<Rightarrow> bytes option" where
  "write_u32_be data off v = do {
     data \<leftarrow> wr data off (byte3 v);
     data \<leftarrow> wr data (off + 1) (byte2 v);
     data \<leftarrow> wr data (off + 2) (byte1 v);
     wr data (off + 3) (byte0 v) }"

definition read_u16 :: "bytes \<Rightarrow> nat \<Rightarrow> u16 option" where
  "read_u16 data off = do {
     a \<leftarrow> rd data off; b \<leftarrow> rd data (off + 1);
     Some (be16 b a) }"

definition read_u32 :: "bytes \<Rightarrow> nat \<Rightarrow> u32 option" where
  "read_u32 data off = do {
     a \<leftarrow> rd data off; b \<leftarrow> rd data (off + 1);
     c \<leftarrow> rd data (off + 2); d \<leftarrow> rd data (off + 3);
     Some (be32 d c b a) }"

definition write_u16 :: "bytes \<Rightarrow> nat \<Rightarrow> u16 \<Rightarrow> bytes option" where
  "write_u16 data off v = do {
     data \<leftarrow> wr data off (byte0 v);
     wr data (off + 1) (byte1 v) }"

definition write_u32 :: "bytes \<Rightarrow> nat \<Rightarrow> u32 \<Rightarrow> bytes option" where
  "write_u32 data off v = do {
     data \<leftarrow> wr data off (byte0 v);
     data \<leftarrow> wr data (off + 1) (byte1 v);
     data \<leftarrow> wr data (off + 2) (byte2 v);
     wr data (off + 3) (byte3 v) }"

lemma read_be_Some [mem_simps]:
  "off + 1 < length b \<Longrightarrow> read_u16_be b off = Some (be16 (b ! off) (b ! (off + 1)))"
  "off + 3 < length b \<Longrightarrow> read_u32_be b off =
     Some (be32 (b ! off) (b ! (off + 1)) (b ! (off + 2)) (b ! (off + 3)))"
  by (simp_all add: read_u16_be_def read_u32_be_def rd_def)

lemma read_le_Some [mem_simps]:
  "off + 1 < length b \<Longrightarrow> read_u16 b off = Some (be16 (b ! (off + 1)) (b ! off))"
  "off + 3 < length b \<Longrightarrow> read_u32 b off =
     Some (be32 (b ! (off + 3)) (b ! (off + 2)) (b ! (off + 1)) (b ! off))"
  by (simp_all add: read_u16_def read_u32_def rd_def)

lemma write_be_Some [mem_simps]:
  "off + 1 < length b \<Longrightarrow> write_u16_be b off v = Some (b[off := byte1 v, off + 1 := byte0 v])"
  "off + 3 < length b \<Longrightarrow> write_u32_be b off w =
     Some (b[off := byte3 w, off + 1 := byte2 w, off + 2 := byte1 w, off + 3 := byte0 w])"
  by (simp_all add: write_u16_be_def write_u32_be_def wr_def)

lemma write_le_Some [mem_simps]:
  "off + 1 < length b \<Longrightarrow> write_u16 b off v = Some (b[off := byte0 v, off + 1 := byte1 v])"
  "off + 3 < length b \<Longrightarrow> write_u32 b off w =
     Some (b[off := byte0 w, off + 1 := byte1 w, off + 2 := byte2 w, off + 3 := byte3 w])"
  by (simp_all add: write_u16_def write_u32_def wr_def)

section \<open>Bits of masks and flags\<close>

lemma bit_of_mask: "v = (mask k :: u32) \<Longrightarrow> k \<le> 32 \<Longrightarrow> bit v n \<longleftrightarrow> n < k"
  by (auto simp: bit_mask_iff)

lemma bit_of_flag: "v = (push_bit k 1 :: u32) \<Longrightarrow> k < 32 \<Longrightarrow> bit v n \<longleftrightarrow> n = k"
  by (auto simp: bit_exp_iff)

section \<open>Computations that return\<close>

text \<open>
  \<open>returns P r\<close>: the computation stays inside its buffers and its result satisfies \<open>P\<close>. The rules
  walk through a do-block one access at a time and leave the index bounds as goals.
\<close>

definition returns :: "('a \<Rightarrow> bool) \<Rightarrow> 'a option \<Rightarrow> bool" where
  "returns P r \<longleftrightarrow> (\<exists>x. r = Some x \<and> P x)"

named_theorems returns_rules "how a computation with bounded accesses returns"

lemma returns_Some [returns_rules]: "P x \<Longrightarrow> returns P (Some x)"
  by (simp add: returns_def)

lemma returns_bind: "returns Q m \<Longrightarrow> (\<And>x. Q x \<Longrightarrow> returns P (f x)) \<Longrightarrow> returns P (m \<bind> f)"
  by (auto simp: returns_def)

lemma returns_mono: "returns Q m \<Longrightarrow> (\<And>x. Q x \<Longrightarrow> P x) \<Longrightarrow> returns P m"
  by (auto simp: returns_def)

lemma returns_access [returns_rules]:
  "i < length b \<Longrightarrow> (\<And>b'. length b' = length b \<Longrightarrow> returns P (f b')) \<Longrightarrow> returns P (wr b i v \<bind> f)"
  "i < length b \<Longrightarrow> (\<And>x. x = b ! i \<Longrightarrow> returns P (g x)) \<Longrightarrow> returns P (rd b i \<bind> g)"
  "i + 1 < length b \<Longrightarrow> (\<And>x. returns P (g16 x)) \<Longrightarrow> returns P (read_u16 b i \<bind> g16)"
  "i + 3 < length b \<Longrightarrow> (\<And>x. returns P (g32 x)) \<Longrightarrow> returns P (read_u32 b i \<bind> g32)"
  "i + 1 < length b \<Longrightarrow> (\<And>b'. length b' = length b \<Longrightarrow> returns P (f b')) \<Longrightarrow>
   returns P (write_u16 b i v16 \<bind> f)"
  "i + 3 < length b \<Longrightarrow> (\<And>b'. length b' = length b \<Longrightarrow> returns P (f b')) \<Longrightarrow>
   returns P (write_u32 b i v32 \<bind> f)"
  "i + m \<le> length b \<Longrightarrow> m \<le> length src \<Longrightarrow> (\<And>b'. length b' = length b \<Longrightarrow> returns P (f b')) \<Longrightarrow>
   returns P (wr_bytes b i src m \<bind> f)"
  "i + m \<le> length b \<Longrightarrow> (\<And>s. length s = m \<Longrightarrow> returns P (f s)) \<Longrightarrow> returns P (rd_bytes b i m \<bind> f)"
  by (simp_all add: mem_simps)

lemma returns_if [returns_rules]:
  "(c \<Longrightarrow> returns P x) \<Longrightarrow> (\<not> c \<Longrightarrow> returns P y) \<Longrightarrow> returns P (if c then x else y)"
  by auto

lemma returns_if_bind [returns_rules]:
  "(c \<Longrightarrow> returns P (x \<bind> f)) \<Longrightarrow> (\<not> c \<Longrightarrow> returns P (y \<bind> f)) \<Longrightarrow>
   returns P ((if c then x else y) \<bind> f)"
  by auto

lemma returns_Some_bind [returns_rules]: "returns P (f a) \<Longrightarrow> returns P (Some a \<bind> f)"
  by simp

lemma returns_bind_bind [returns_rules]:
  "returns P (m \<bind> (\<lambda>x. k x \<bind> f)) \<Longrightarrow> returns P ((m \<bind> k) \<bind> f)"
  by simp

lemma returns_case_prod [returns_rules]:
  "(\<And>a b. e = (a, b) \<Longrightarrow> returns P (h a b)) \<Longrightarrow> returns P (case e of (a, b) \<Rightarrow> h a b)"
  by (cases e) simp

lemma returns_case_prod_app [returns_rules]:
  "(\<And>a b. e = (a, b) \<Longrightarrow> returns P (h a b c)) \<Longrightarrow> returns P ((case e of (a, b) \<Rightarrow> h a b) c)"
  by (cases e) simp

lemma returns_case_option [returns_rules]:
  "(e = None \<Longrightarrow> returns P n) \<Longrightarrow> (\<And>x. e = Some x \<Longrightarrow> returns P (s x)) \<Longrightarrow>
   returns P (case e of None \<Rightarrow> n | Some x \<Rightarrow> s x)"
  by (cases e) simp_all

section \<open>Codecs\<close>

text \<open>
  The contract two byte formats of the firmware share (network frames and stored Wi-Fi
  credentials): a partial encoder and a decoder that accepts exactly the encoder's image.
\<close>

locale byte_codec =
  fixes enc :: "'a \<Rightarrow> bytes option"
    and dec :: "bytes \<Rightarrow> 'a option"
  assumes dec_enc: "enc x = Some b \<Longrightarrow> dec b = Some x"
    and enc_dec: "dec b = Some x \<Longrightarrow> enc x = Some b"
begin

lemma enc_inject: "enc x = Some b \<Longrightarrow> enc y = Some b \<Longrightarrow> x = y"
  by (metis dec_enc option.inject)

lemma dec_inject: "dec b = Some x \<Longrightarrow> dec c = Some x \<Longrightarrow> b = c"
  by (metis enc_dec option.inject)

lemma dec_iff_enc: "dec b = Some x \<longleftrightarrow> enc x = Some b"
  by (metis dec_enc enc_dec)

end

end
