(* ===== verification/Airdap_Frame.thy ===== *)
theory Airdap_Frame
  imports AirDAP_Prelude
begin

text \<open>
  The network frame codec, \<^verbatim>\<open>firmware/components/airdap_frame/airdap_frame.c\<close>: header
  validation, decoding and encoding of the 20-byte big-endian header with its payload, the
  16-bit error payload, session and sequence numbering, and the request and response checks.
  An input is a nullable buffer with the size the caller claims for it; \<open>outs\<close> says whether
  every output pointer is non-NULL. The result of a function that touches memory is
  \<^const>\<open>None\<close> exactly when it would leave its buffers.
\<close>

section \<open>Constants and data\<close>

abbreviation (input) AIRDAP_FRAME_MAGIC :: u32 where "AIRDAP_FRAME_MAGIC \<equiv> 0x41444150"
abbreviation (input) AIRDAP_FRAME_HEADER_SIZE :: nat where "AIRDAP_FRAME_HEADER_SIZE \<equiv> 20"
abbreviation (input) AIRDAP_FRAME_PROTOCOL_VERSION :: u8 where "AIRDAP_FRAME_PROTOCOL_VERSION \<equiv> 1"
abbreviation (input) AIRDAP_FRAME_MAX_PAYLOAD_SIZE :: u16 where "AIRDAP_FRAME_MAX_PAYLOAD_SIZE \<equiv> 4096"
abbreviation (input) AIRDAP_FRAME_DAP_REQUEST_MAX_PAYLOAD_SIZE :: u16 where
  "AIRDAP_FRAME_DAP_REQUEST_MAX_PAYLOAD_SIZE \<equiv> 508"
abbreviation (input) AIRDAP_FRAME_INITIAL_SESSION_ID :: u32 where "AIRDAP_FRAME_INITIAL_SESSION_ID \<equiv> 1"
abbreviation (input) AIRDAP_FRAME_INITIAL_SEQUENCE :: u32 where "AIRDAP_FRAME_INITIAL_SEQUENCE \<equiv> 1"
abbreviation (input) AIRDAP_FRAME_ERROR_CODE_SIZE :: nat where "AIRDAP_FRAME_ERROR_CODE_SIZE \<equiv> 2"

abbreviation (input) AIRDAP_FRAME_TYPE_HELLO :: u8 where "AIRDAP_FRAME_TYPE_HELLO \<equiv> 1"
abbreviation (input) AIRDAP_FRAME_TYPE_AUTH :: u8 where "AIRDAP_FRAME_TYPE_AUTH \<equiv> 2"
abbreviation (input) AIRDAP_FRAME_TYPE_DAP_REQUEST :: u8 where "AIRDAP_FRAME_TYPE_DAP_REQUEST \<equiv> 3"
abbreviation (input) AIRDAP_FRAME_TYPE_DAP_RESPONSE :: u8 where "AIRDAP_FRAME_TYPE_DAP_RESPONSE \<equiv> 4"
abbreviation (input) AIRDAP_FRAME_TYPE_CONTROL_REQUEST :: u8 where
  "AIRDAP_FRAME_TYPE_CONTROL_REQUEST \<equiv> 5"
abbreviation (input) AIRDAP_FRAME_TYPE_CONTROL_RESPONSE :: u8 where
  "AIRDAP_FRAME_TYPE_CONTROL_RESPONSE \<equiv> 6"
abbreviation (input) AIRDAP_FRAME_TYPE_KEEPALIVE :: u8 where "AIRDAP_FRAME_TYPE_KEEPALIVE \<equiv> 7"
abbreviation (input) AIRDAP_FRAME_TYPE_ERROR :: u8 where "AIRDAP_FRAME_TYPE_ERROR \<equiv> 8"

text \<open>
  \<open>FRAME_ERROR_UNNAMED\<close> stands for a value of the C enum that is none of its enumerators,
  which a cast from a received 16-bit code can produce.
\<close>

datatype airdap_frame_error_code =
    FRAME_ERROR_NONE
  | FRAME_ERROR_TRUNCATED
  | FRAME_ERROR_PAYLOAD_TOO_LARGE
  | FRAME_ERROR_UNSUPPORTED_VERSION
  | FRAME_ERROR_UNSUPPORTED_TYPE
  | FRAME_ERROR_INVALID_MAGIC
  | FRAME_ERROR_INVALID_FLAGS
  | FRAME_ERROR_INVALID_RESERVED
  | FRAME_ERROR_SESSION_MISMATCH
  | FRAME_ERROR_SEQUENCE_DUPLICATE
  | FRAME_ERROR_SEQUENCE_STALE
  | FRAME_ERROR_SEQUENCE_OUT_OF_ORDER
  | FRAME_ERROR_RESPONSE_MISMATCH
  | FRAME_ERROR_BUSY
  | FRAME_ERROR_UNAUTHENTICATED
  | FRAME_ERROR_TIMEOUT
  | FRAME_ERROR_INVALID_ARGUMENT
  | FRAME_ERROR_INTERNAL
  | FRAME_ERROR_UNNAMED u16

text \<open>The enumerators with the numbers the wire protocol gives them, in the header's order.\<close>

definition frame_error_numbers :: "(u16 \<times> airdap_frame_error_code) list" where
  "frame_error_numbers =
    [(0x0000, FRAME_ERROR_NONE), (0x0001, FRAME_ERROR_TRUNCATED),
     (0x0002, FRAME_ERROR_PAYLOAD_TOO_LARGE), (0x0003, FRAME_ERROR_UNSUPPORTED_VERSION),
     (0x0004, FRAME_ERROR_UNSUPPORTED_TYPE), (0x0005, FRAME_ERROR_INVALID_MAGIC),
     (0x0006, FRAME_ERROR_INVALID_FLAGS), (0x0007, FRAME_ERROR_INVALID_RESERVED),
     (0x0010, FRAME_ERROR_SESSION_MISMATCH), (0x0011, FRAME_ERROR_SEQUENCE_DUPLICATE),
     (0x0012, FRAME_ERROR_SEQUENCE_STALE), (0x0013, FRAME_ERROR_SEQUENCE_OUT_OF_ORDER),
     (0x0014, FRAME_ERROR_RESPONSE_MISMATCH), (0x0020, FRAME_ERROR_BUSY),
     (0x0021, FRAME_ERROR_UNAUTHENTICATED), (0x0022, FRAME_ERROR_TIMEOUT),
     (0x0023, FRAME_ERROR_INVALID_ARGUMENT), (0x00FF, FRAME_ERROR_INTERNAL)]"

definition frame_error_of_number :: "u16 \<Rightarrow> airdap_frame_error_code" where
  "frame_error_of_number n =
     (case map_of frame_error_numbers n of Some e \<Rightarrow> e | None \<Rightarrow> FRAME_ERROR_UNNAMED n)"

fun frame_error_number :: "airdap_frame_error_code \<Rightarrow> u16" where
  "frame_error_number (FRAME_ERROR_UNNAMED n) = n"
| "frame_error_number e =
     (case find (\<lambda>p. snd p = e) frame_error_numbers of Some p \<Rightarrow> fst p | None \<Rightarrow> 0)"

datatype airdap_frame_decode_status =
    FRAME_DECODE_OK
  | FRAME_DECODE_NEED_MORE_DATA
  | FRAME_DECODE_INVALID_FRAME

record airdap_frame_header =
  fh_magic :: u32
  fh_version :: u8
  fh_type :: u8
  fh_flags :: u16
  fh_session_id :: u32
  fh_sequence :: u32
  fh_payload_length :: u16
  fh_reserved :: u16

record airdap_frame_sequence_validator =
  sv_session_id :: u32
  sv_expected_sequence :: u32
  sv_last_sequence :: u32
  sv_has_last_sequence :: bool

text \<open>The output parameters of the decoder; the payload pointer is an offset into the input.\<close>

record frame_decode_out =
  out_header :: airdap_frame_header
  out_payload :: "nat option"
  out_frame_size :: nat
  out_error_code :: airdap_frame_error_code

definition zero_header :: airdap_frame_header where
  "zero_header = \<lparr>fh_magic = 0, fh_version = 0, fh_type = 0, fh_flags = 0, fh_session_id = 0,
     fh_sequence = 0, fh_payload_length = 0, fh_reserved = 0\<rparr>"

section \<open>Operations\<close>

definition valid_message_type :: "u8 \<Rightarrow> bool" where
  "valid_message_type t \<longleftrightarrow> AIRDAP_FRAME_TYPE_HELLO \<le> t \<and> t \<le> AIRDAP_FRAME_TYPE_ERROR"

fun valid_error_code :: "airdap_frame_error_code \<Rightarrow> bool" where
  "valid_error_code FRAME_ERROR_NONE = False"
| "valid_error_code (FRAME_ERROR_UNNAMED n) = False"
| "valid_error_code e = True"

definition request_message_type :: "u8 \<Rightarrow> bool" where
  "request_message_type t \<longleftrightarrow>
     t = AIRDAP_FRAME_TYPE_HELLO \<or> t = AIRDAP_FRAME_TYPE_AUTH \<or>
     t = AIRDAP_FRAME_TYPE_DAP_REQUEST \<or> t = AIRDAP_FRAME_TYPE_CONTROL_REQUEST \<or>
     t = AIRDAP_FRAME_TYPE_KEEPALIVE"

fun validate_header :: "airdap_frame_header option \<Rightarrow> airdap_frame_error_code" where
  "validate_header None = FRAME_ERROR_INTERNAL"
| "validate_header (Some h) =
     (if fh_magic h \<noteq> AIRDAP_FRAME_MAGIC then FRAME_ERROR_INVALID_MAGIC
      else if fh_version h \<noteq> AIRDAP_FRAME_PROTOCOL_VERSION then FRAME_ERROR_UNSUPPORTED_VERSION
      else if \<not> valid_message_type (fh_type h) then FRAME_ERROR_UNSUPPORTED_TYPE
      else if fh_flags h \<noteq> 0 then FRAME_ERROR_INVALID_FLAGS
      else if fh_reserved h \<noteq> 0 then FRAME_ERROR_INVALID_RESERVED
      else if fh_session_id h = 0 then FRAME_ERROR_SESSION_MISMATCH
      else if fh_sequence h = 0 then FRAME_ERROR_SEQUENCE_OUT_OF_ORDER
      else if fh_payload_length h > AIRDAP_FRAME_MAX_PAYLOAD_SIZE then FRAME_ERROR_PAYLOAD_TOO_LARGE
      else if fh_type h = AIRDAP_FRAME_TYPE_DAP_REQUEST \<and>
              fh_payload_length h > AIRDAP_FRAME_DAP_REQUEST_MAX_PAYLOAD_SIZE
           then FRAME_ERROR_PAYLOAD_TOO_LARGE
      else FRAME_ERROR_NONE)"

text \<open>The eight field reads at the head of \<^verbatim>\<open>airdap_frame_decode\<close>.\<close>

definition read_header :: "bytes \<Rightarrow> airdap_frame_header option" where
  "read_header input = do {
     magic \<leftarrow> read_u32_be input 0;
     version \<leftarrow> rd input 4;
     type \<leftarrow> rd input 5;
     flags \<leftarrow> read_u16_be input 6;
     session_id \<leftarrow> read_u32_be input 8;
     sequence \<leftarrow> read_u32_be input 12;
     payload_length \<leftarrow> read_u16_be input 16;
     reserved \<leftarrow> read_u16_be input 18;
     Some \<lparr>fh_magic = magic, fh_version = version, fh_type = type, fh_flags = flags,
       fh_session_id = session_id, fh_sequence = sequence,
       fh_payload_length = payload_length, fh_reserved = reserved\<rparr> }"

definition airdap_frame_decode ::
  "bytes option \<Rightarrow> nat \<Rightarrow> bool \<Rightarrow> (airdap_frame_decode_status \<times> frame_decode_out option) option"
where
  "airdap_frame_decode input input_size outs =
     (if \<not> outs then Some (FRAME_DECODE_INVALID_FRAME, None)
      else let zero = \<lparr>out_header = zero_header, out_payload = None, out_frame_size = 0,
                       out_error_code = FRAME_ERROR_INTERNAL\<rparr> in
      if input = None \<and> input_size > 0 then Some (FRAME_DECODE_INVALID_FRAME, Some zero)
      else if input_size < AIRDAP_FRAME_HEADER_SIZE
      then Some (FRAME_DECODE_NEED_MORE_DATA, Some (zero\<lparr>out_error_code := FRAME_ERROR_TRUNCATED\<rparr>))
      else do {
        buf \<leftarrow> input;
        candidate \<leftarrow> read_header buf;
        let validation_error = validate_header (Some candidate);
        if validation_error \<noteq> FRAME_ERROR_NONE
        then Some (FRAME_DECODE_INVALID_FRAME, Some (zero\<lparr>out_error_code := validation_error\<rparr>))
        else let required_size = AIRDAP_FRAME_HEADER_SIZE + unat (fh_payload_length candidate) in
        if input_size < required_size
        then Some (FRAME_DECODE_NEED_MORE_DATA, Some (zero\<lparr>out_error_code := FRAME_ERROR_TRUNCATED\<rparr>))
        else Some (FRAME_DECODE_OK,
          Some \<lparr>out_header = candidate, out_payload = Some AIRDAP_FRAME_HEADER_SIZE,
                out_frame_size = required_size, out_error_code = FRAME_ERROR_NONE\<rparr>) })"

text \<open>The field writes at the end of \<^verbatim>\<open>airdap_frame_encode\<close>.\<close>

definition write_header :: "bytes \<Rightarrow> airdap_frame_header \<Rightarrow> bytes option" where
  "write_header output h = do {
     output \<leftarrow> write_u32_be output 0 (fh_magic h);
     output \<leftarrow> wr output 4 (fh_version h);
     output \<leftarrow> wr output 5 (fh_type h);
     output \<leftarrow> write_u16_be output 6 (fh_flags h);
     output \<leftarrow> write_u32_be output 8 (fh_session_id h);
     output \<leftarrow> write_u32_be output 12 (fh_sequence h);
     output \<leftarrow> write_u16_be output 16 (fh_payload_length h);
     write_u16_be output 18 (fh_reserved h) }"

text \<open>
  Result: the returned error code, the value of \<^verbatim>\<open>*encoded_size\<close> and the output buffer after
  the call (\<open>size_out\<close> says whether \<^verbatim>\<open>encoded_size\<close> is non-NULL).
\<close>

definition airdap_frame_encode ::
  "airdap_frame_header option \<Rightarrow> bytes option \<Rightarrow> bytes option \<Rightarrow> nat \<Rightarrow> bool \<Rightarrow>
   (airdap_frame_error_code \<times> nat option \<times> bytes option) option"
where
  "airdap_frame_encode header payload output output_capacity size_out =
     (if \<not> size_out then Some (FRAME_ERROR_INTERNAL, None, output)
      else let validation_error = validate_header header in
      if validation_error \<noteq> FRAME_ERROR_NONE then Some (validation_error, Some 0, output)
      else do {
        h \<leftarrow> header;
        if fh_payload_length h > 0 \<and> payload = None then Some (FRAME_ERROR_INTERNAL, Some 0, output)
        else let required_size = AIRDAP_FRAME_HEADER_SIZE + unat (fh_payload_length h) in
        if output_capacity < required_size
        then Some (FRAME_ERROR_TRUNCATED, Some required_size, output)
        else if output = None then Some (FRAME_ERROR_INTERNAL, Some required_size, output)
        else do {
          out \<leftarrow> output;
          out \<leftarrow> write_header out h;
          out \<leftarrow> (if fh_payload_length h > 0 then do {
                    p \<leftarrow> payload;
                    wr_bytes out AIRDAP_FRAME_HEADER_SIZE p (unat (fh_payload_length h)) }
                  else Some out);
          Some (FRAME_ERROR_NONE, Some required_size, Some out) } })"

definition airdap_frame_error_code_encode ::
  "airdap_frame_error_code \<Rightarrow> bytes option \<Rightarrow> nat \<Rightarrow> (bool \<times> bytes option) option"
where
  "airdap_frame_error_code_encode error_code output output_capacity =
     (if \<not> valid_error_code error_code \<or> output = None \<or>
         output_capacity < AIRDAP_FRAME_ERROR_CODE_SIZE
      then Some (False, output)
      else do {
        out \<leftarrow> output;
        out \<leftarrow> write_u16_be out 0 (frame_error_number error_code);
        Some (True, Some out) })"

text \<open>Result: the status, \<^verbatim>\<open>*decoded_error_code\<close> and \<^verbatim>\<open>*parse_error_code\<close>.\<close>

definition airdap_frame_error_code_decode ::
  "bytes option \<Rightarrow> nat \<Rightarrow> bool \<Rightarrow>
   (airdap_frame_decode_status \<times> (airdap_frame_error_code \<times> airdap_frame_error_code) option) option"
where
  "airdap_frame_error_code_decode payload payload_size outs =
     (if \<not> outs then Some (FRAME_DECODE_INVALID_FRAME, None)
      else if payload = None \<and> payload_size > 0
      then Some (FRAME_DECODE_INVALID_FRAME, Some (FRAME_ERROR_NONE, FRAME_ERROR_INTERNAL))
      else if payload_size < AIRDAP_FRAME_ERROR_CODE_SIZE
      then Some (FRAME_DECODE_NEED_MORE_DATA, Some (FRAME_ERROR_NONE, FRAME_ERROR_TRUNCATED))
      else if payload_size > AIRDAP_FRAME_ERROR_CODE_SIZE
      then Some (FRAME_DECODE_INVALID_FRAME, Some (FRAME_ERROR_NONE, FRAME_ERROR_PAYLOAD_TOO_LARGE))
      else do {
        p \<leftarrow> payload;
        v \<leftarrow> read_u16_be p 0;
        let error_code = frame_error_of_number v;
        if \<not> valid_error_code error_code
        then Some (FRAME_DECODE_INVALID_FRAME, Some (FRAME_ERROR_NONE, FRAME_ERROR_UNSUPPORTED_TYPE))
        else Some (FRAME_DECODE_OK, Some (error_code, FRAME_ERROR_NONE)) })"

definition airdap_frame_next_session_id :: "u32 \<Rightarrow> u32" where
  "airdap_frame_next_session_id current_session_id =
     (let next = current_session_id + 1
      in if next = 0 then AIRDAP_FRAME_INITIAL_SESSION_ID else next)"

definition airdap_frame_next_sequence :: "u32 \<Rightarrow> u32" where
  "airdap_frame_next_sequence current_sequence =
     (let next = current_sequence + 1
      in if next = 0 then AIRDAP_FRAME_INITIAL_SEQUENCE else next)"

definition zero_validator :: airdap_frame_sequence_validator where
  "zero_validator = \<lparr>sv_session_id = 0, sv_expected_sequence = 0, sv_last_sequence = 0,
     sv_has_last_sequence = False\<rparr>"

text \<open>\<open>validator\<close> is \<^const>\<open>None\<close> for a NULL pointer; the second component is its new contents.\<close>

definition airdap_frame_sequence_validator_init ::
  "airdap_frame_sequence_validator option \<Rightarrow> u32 \<Rightarrow>
   airdap_frame_error_code \<times> airdap_frame_sequence_validator option"
where
  "airdap_frame_sequence_validator_init validator session_id =
     (case validator of None \<Rightarrow> (FRAME_ERROR_INTERNAL, None)
      | Some _ \<Rightarrow>
        if session_id = 0 then (FRAME_ERROR_SESSION_MISMATCH, Some zero_validator)
        else (FRAME_ERROR_NONE,
              Some (zero_validator\<lparr>sv_session_id := session_id,
                                   sv_expected_sequence := AIRDAP_FRAME_INITIAL_SEQUENCE\<rparr>)))"

text \<open>The 64-bit modular distance that classifies a request that is neither next nor a repeat.\<close>

definition sequence_forward_distance :: "u32 \<Rightarrow> u32 \<Rightarrow> u64" where
  "sequence_forward_distance request_sequence expected_sequence =
     (let sequence_space = ucast UINT32_MAX;
          request_index = ucast request_sequence - 1;
          expected_index = ucast expected_sequence - 1
      in (request_index + sequence_space - expected_index) mod sequence_space)"

definition airdap_frame_validate_request_sequence ::
  "airdap_frame_sequence_validator option \<Rightarrow> airdap_frame_header option \<Rightarrow>
   airdap_frame_error_code \<times> airdap_frame_sequence_validator option"
where
  "airdap_frame_validate_request_sequence validator request =
     (case validator of None \<Rightarrow> (FRAME_ERROR_INTERNAL, None)
      | Some v \<Rightarrow> (case request of None \<Rightarrow> (FRAME_ERROR_INTERNAL, Some v)
      | Some r \<Rightarrow>
        if validate_header (Some r) \<noteq> FRAME_ERROR_NONE then (validate_header (Some r), Some v)
        else if \<not> request_message_type (fh_type r) then (FRAME_ERROR_UNSUPPORTED_TYPE, Some v)
        else if sv_session_id v = 0 \<or> fh_session_id r \<noteq> sv_session_id v
             then (FRAME_ERROR_SESSION_MISMATCH, Some v)
        else if fh_sequence r = sv_expected_sequence v
             then (FRAME_ERROR_NONE,
                   Some (v\<lparr>sv_last_sequence := fh_sequence r, sv_has_last_sequence := True,
                           sv_expected_sequence := airdap_frame_next_sequence (fh_sequence r)\<rparr>))
        else if sv_has_last_sequence v \<and> fh_sequence r = sv_last_sequence v
             then (FRAME_ERROR_SEQUENCE_DUPLICATE, Some v)
        else if \<not> sv_has_last_sequence v then (FRAME_ERROR_SEQUENCE_OUT_OF_ORDER, Some v)
        else (if sequence_forward_distance (fh_sequence r) (sv_expected_sequence v)
                   \<le> ucast UINT32_MAX div 2
              then FRAME_ERROR_SEQUENCE_OUT_OF_ORDER else FRAME_ERROR_SEQUENCE_STALE, Some v)))"

definition expected_response_type :: "u8 \<Rightarrow> u8" where
  "expected_response_type request_type =
     (if request_type = AIRDAP_FRAME_TYPE_HELLO \<or> request_type = AIRDAP_FRAME_TYPE_AUTH \<or>
         request_type = AIRDAP_FRAME_TYPE_KEEPALIVE then request_type
      else if request_type = AIRDAP_FRAME_TYPE_DAP_REQUEST then AIRDAP_FRAME_TYPE_DAP_RESPONSE
      else if request_type = AIRDAP_FRAME_TYPE_CONTROL_REQUEST
           then AIRDAP_FRAME_TYPE_CONTROL_RESPONSE
      else 0)"

definition airdap_frame_validate_response ::
  "airdap_frame_header option \<Rightarrow> airdap_frame_header option \<Rightarrow> airdap_frame_error_code option"
where
  "airdap_frame_validate_response request response =
     (if validate_header request \<noteq> FRAME_ERROR_NONE then Some (validate_header request)
      else if validate_header response \<noteq> FRAME_ERROR_NONE then Some (validate_header response)
      else do {
        req \<leftarrow> request; resp \<leftarrow> response;
        let expected_type = expected_response_type (fh_type req);
        if expected_type = 0 then Some FRAME_ERROR_RESPONSE_MISMATCH
        else if fh_session_id resp \<noteq> fh_session_id req then Some FRAME_ERROR_SESSION_MISMATCH
        else if fh_sequence resp \<noteq> fh_sequence req \<or>
                (fh_type resp \<noteq> expected_type \<and> fh_type resp \<noteq> AIRDAP_FRAME_TYPE_ERROR)
             then Some FRAME_ERROR_RESPONSE_MISMATCH
        else Some FRAME_ERROR_NONE })"

section \<open>Memory safety and the wire format\<close>

text \<open>The 20 header bytes in wire order.\<close>

definition header_bytes :: "airdap_frame_header \<Rightarrow> bytes" where
  "header_bytes h =
     [byte3 (fh_magic h), byte2 (fh_magic h), byte1 (fh_magic h), byte0 (fh_magic h),
      fh_version h, fh_type h, byte1 (fh_flags h), byte0 (fh_flags h),
      byte3 (fh_session_id h), byte2 (fh_session_id h),
      byte1 (fh_session_id h), byte0 (fh_session_id h),
      byte3 (fh_sequence h), byte2 (fh_sequence h),
      byte1 (fh_sequence h), byte0 (fh_sequence h),
      byte1 (fh_payload_length h), byte0 (fh_payload_length h),
      byte1 (fh_reserved h), byte0 (fh_reserved h)]"

lemma header_bytes_length [simp]: "length (header_bytes h) = 20"
  by (simp add: header_bytes_def)

lemma ex_20_bytes:
  assumes "20 \<le> length (b :: 'a list)"
  obtains b0 b1 b2 b3 b4 b5 b6 b7 b8 b9 b10 b11 b12 b13 b14 b15 b16 b17 b18 b19 r where
    "b = b0 # b1 # b2 # b3 # b4 # b5 # b6 # b7 # b8 # b9 # b10 # b11 # b12 # b13 # b14 # b15 #
         b16 # b17 # b18 # b19 # r"
  using assms by (auto simp: Suc_le_length_iff numeral_eq_Suc)

lemma write_header_bytes:
  assumes "20 \<le> length b"
  shows "write_header b h = Some (header_bytes h @ drop 20 b)"
proof -
  obtain b0 b1 b2 b3 b4 b5 b6 b7 b8 b9 b10 b11 b12 b13 b14 b15 b16 b17 b18 b19 r where
    b: "b = b0 # b1 # b2 # b3 # b4 # b5 # b6 # b7 # b8 # b9 # b10 # b11 # b12 # b13 # b14 # b15 #
         b16 # b17 # b18 # b19 # r"
    using ex_20_bytes [OF assms] by metis
  show ?thesis
    unfolding write_header_def b by (simp add: mem_simps header_bytes_def numeral_eq_Suc)
qed

lemma read_header_bytes: "read_header (header_bytes h @ r) = Some h"
  unfolding read_header_def header_bytes_def
  by (simp add: mem_simps byte_simps numeral_eq_Suc)

lemma read_header_Some:
  assumes "20 \<le> length b"
  shows "\<exists>h. read_header b = Some h \<and> header_bytes h = take 20 b"
proof -
  obtain b0 b1 b2 b3 b4 b5 b6 b7 b8 b9 b10 b11 b12 b13 b14 b15 b16 b17 b18 b19 r where
    b: "b = b0 # b1 # b2 # b3 # b4 # b5 # b6 # b7 # b8 # b9 # b10 # b11 # b12 # b13 # b14 # b15 #
         b16 # b17 # b18 # b19 # r"
    using ex_20_bytes [OF assms] by metis
  show ?thesis
    unfolding read_header_def b by (simp add: mem_simps byte_simps header_bytes_def numeral_eq_Suc)
qed

lemma validate_header_None:
  "validate_header (Some h) = FRAME_ERROR_NONE \<longleftrightarrow>
     fh_magic h = AIRDAP_FRAME_MAGIC \<and> fh_version h = AIRDAP_FRAME_PROTOCOL_VERSION \<and>
     valid_message_type (fh_type h) \<and> fh_flags h = 0 \<and> fh_reserved h = 0 \<and>
     fh_session_id h \<noteq> 0 \<and> fh_sequence h \<noteq> 0 \<and>
     fh_payload_length h \<le> AIRDAP_FRAME_MAX_PAYLOAD_SIZE \<and>
     (fh_type h = AIRDAP_FRAME_TYPE_DAP_REQUEST \<longrightarrow>
        fh_payload_length h \<le> AIRDAP_FRAME_DAP_REQUEST_MAX_PAYLOAD_SIZE)"
  by (auto simp: not_less)

declare validate_header.simps(2) [simp del]

text \<open>The headers the validator accepts.\<close>

definition header_ok :: "airdap_frame_header \<Rightarrow> bool" where
  "header_ok h \<longleftrightarrow> validate_header (Some h) = FRAME_ERROR_NONE"

lemma header_okD: "header_ok h \<Longrightarrow> fh_session_id h \<noteq> 0 \<and> fh_sequence h \<noteq> 0"
  by (simp add: header_ok_def validate_header_None)

abbreviation payload_size :: "airdap_frame_header \<Rightarrow> nat" where
  "payload_size h \<equiv> unat (fh_payload_length h)"

lemma airdap_frame_decode_enough:
  assumes "20 \<le> n" "n \<le> length b" "read_header b = Some h"
  shows "airdap_frame_decode (Some b) n True =
    (if \<not> header_ok h then
       Some (FRAME_DECODE_INVALID_FRAME, Some \<lparr>out_header = zero_header, out_payload = None,
         out_frame_size = 0, out_error_code = validate_header (Some h)\<rparr>)
     else if n < 20 + payload_size h then
       Some (FRAME_DECODE_NEED_MORE_DATA, Some \<lparr>out_header = zero_header, out_payload = None,
         out_frame_size = 0, out_error_code = FRAME_ERROR_TRUNCATED\<rparr>)
     else Some (FRAME_DECODE_OK, Some \<lparr>out_header = h, out_payload = Some 20,
         out_frame_size = 20 + payload_size h, out_error_code = FRAME_ERROR_NONE\<rparr>))"
  using assms by (simp add: airdap_frame_decode_def Let_def header_ok_def)

lemma airdap_frame_encode_Some:
  assumes "header_ok h" "payload_size h \<le> length p" "20 + payload_size h \<le> cap" "cap \<le> length b"
  shows "airdap_frame_encode (Some h) (Some p) (Some b) cap True =
    Some (FRAME_ERROR_NONE, Some (20 + payload_size h),
          Some (header_bytes h @ take (payload_size h) p @ drop (20 + payload_size h) b))"
proof (cases "fh_payload_length h = 0")
  case True
  then show ?thesis using assms
    by (simp add: airdap_frame_encode_def Let_def header_ok_def write_header_bytes)
next
  case False
  then have "fh_payload_length h > 0" by (simp add: word_neq_0_conv)
  then show ?thesis using assms
    by (simp add: airdap_frame_encode_def Let_def header_ok_def write_header_bytes mem_simps
        add.commute)
qed

text \<open>C3. The frame decoder is memory safe: whenever the caller's size does not exceed the
  buffer behind the input pointer, decoding returns (for NULL and non-NULL pointers, any bytes
  and any size) and never reads outside the buffer.\<close>

theorem airdap_frame_decode_memory_safe:
  assumes "\<And>b. input = Some b \<Longrightarrow> input_size \<le> length b"
  shows "\<exists>r. airdap_frame_decode input input_size outs = Some r"
proof (cases "outs \<and> 20 \<le> input_size \<and> input \<noteq> None")
  case True
  then obtain b where b: "input = Some b" "20 \<le> input_size" "outs" by auto
  then have n: "input_size \<le> length b" using assms by blast
  then obtain h where "read_header b = Some h"
    using read_header_Some [of b] b by force
  then show ?thesis using airdap_frame_decode_enough [of input_size b h] b n by simp
next
  case False
  then show ?thesis by (auto simp: airdap_frame_decode_def Let_def)
qed

theorem airdap_frame_encode_memory_safe:
  assumes "\<And>b. dst = Some b \<Longrightarrow> capacity \<le> length b"
    and "\<And>h p. header = Some h \<Longrightarrow> payload = Some p \<Longrightarrow> payload_size h \<le> length p"
  shows "\<exists>e n out. airdap_frame_encode header payload dst capacity size_out = Some (e, n, out)
     \<and> map_option length out = map_option length dst"
proof -
  have ok: "length (header_bytes h @ take (payload_size h) p @ drop (20 + payload_size h) b) = length b"
    if "20 + payload_size h \<le> length b" "payload_size h \<le> length p" for h b p
    using that by simp
  show ?thesis
    using assms ok
    by (cases header; cases payload; cases dst)
       (auto simp: airdap_frame_encode_def Let_def write_header_bytes mem_simps word_neq_0_conv add.commute)
qed

text \<open>C2. Frame round trip: for every header the validator accepts and a payload of its
  declared length, encoding into any large enough buffer succeeds, decoding the encoded bytes
  followed by arbitrary further bytes returns the same header, the payload at offset 20 and the
  exact frame size, and the output buffer past the frame is unchanged.\<close>

theorem airdap_frame_roundtrip:
  assumes "header_ok h" "length p = payload_size h"
    and "20 + payload_size h \<le> cap" "cap \<le> length b"
  shows "\<exists>out. airdap_frame_encode (Some h) (Some p) (Some b) cap True =
       Some (FRAME_ERROR_NONE, Some (20 + payload_size h), Some out) \<and>
     airdap_frame_decode (Some (take (20 + payload_size h) out @ rest))
        (20 + payload_size h + length rest) True =
       Some (FRAME_DECODE_OK, Some \<lparr>out_header = h, out_payload = Some 20,
         out_frame_size = 20 + payload_size h, out_error_code = FRAME_ERROR_NONE\<rparr>) \<and>
     take (payload_size h) (drop 20 out) = p \<and>
     drop (20 + payload_size h) out = drop (20 + payload_size h) b"
proof -
  let ?out = "header_bytes h @ p @ drop (20 + payload_size h) b"
  have t: "take (20 + payload_size h) ?out = header_bytes h @ p" using assms by simp
  have "airdap_frame_encode (Some h) (Some p) (Some b) cap True =
       Some (FRAME_ERROR_NONE, Some (20 + payload_size h), Some ?out)"
    using airdap_frame_encode_Some [of h p cap b] assms by simp
  moreover have "airdap_frame_decode (Some (take (20 + payload_size h) ?out @ rest))
        (20 + payload_size h + length rest) True =
       Some (FRAME_DECODE_OK, Some \<lparr>out_header = h, out_payload = Some 20,
         out_frame_size = 20 + payload_size h, out_error_code = FRAME_ERROR_NONE\<rparr>)"
    unfolding t using assms read_header_bytes [of h "p @ rest"]
    by (subst airdap_frame_decode_enough [where h = h]) auto
  moreover have "take (payload_size h) (drop 20 ?out) = p" using assms by simp
  moreover have "drop (20 + payload_size h) ?out = drop (20 + payload_size h) b" using assms by simp
  ultimately show ?thesis by blast
qed

definition sample_header :: airdap_frame_header where
  "sample_header = \<lparr>fh_magic = AIRDAP_FRAME_MAGIC, fh_version = 1, fh_type = 5, fh_flags = 0,
     fh_session_id = 7, fh_sequence = 9, fh_payload_length = 2, fh_reserved = 0\<rparr>"

lemma sample_header_ok [simp]: "header_ok sample_header"
  by (simp add: header_ok_def validate_header_None sample_header_def valid_message_type_def)

theorem airdap_frame_roundtrip_witness:
  "\<exists>out. airdap_frame_encode (Some sample_header) (Some [0x10, 0x20]) (Some (replicate 30 0)) 30 True =
       Some (FRAME_ERROR_NONE, Some 22, Some out) \<and> take 2 (drop 20 out) = [0x10, 0x20]"
proof -
  have n: "payload_size sample_header = 2" by (simp add: sample_header_def)
  show ?thesis
    using airdap_frame_roundtrip [of sample_header "[0x10, 0x20]" 30 "replicate 30 0" "[]"] n
    by auto
qed

theorem airdap_frame_decode_memory_safe_witness:
  "\<exists>r. airdap_frame_decode (Some (header_bytes sample_header)) 20 True = Some r"
  by (rule airdap_frame_decode_memory_safe) simp

text \<open>A successful decode: the first 20 bytes are the wire form of an accepted header.\<close>

lemma airdap_frame_decode_OK_iff:
  assumes "n \<le> length b"
  shows "airdap_frame_decode (Some b) n True = Some (FRAME_DECODE_OK, Some out) \<longleftrightarrow>
    (\<exists>h. header_ok h \<and> 20 + payload_size h \<le> n \<and> take 20 b = header_bytes h \<and>
         out = \<lparr>out_header = h, out_payload = Some 20, out_frame_size = 20 + payload_size h,
                out_error_code = FRAME_ERROR_NONE\<rparr>)"
    (is "?L = ?R")
proof (cases "20 \<le> n")
  case True
  obtain h where h: "read_header b = Some h" "header_bytes h = take 20 b"
    using read_header_Some [of b] True assms by auto
  have inj: "h' = h" if "take 20 b = header_bytes h'" for h'
    using read_header_bytes [of h' "drop 20 b"] h that by (metis append_take_drop_id option.inject)
  show ?thesis
    using airdap_frame_decode_enough [OF True assms h(1)] h(2) inj by (auto split: if_splits)
next
  case False
  then show ?thesis by (auto simp: airdap_frame_decode_def Let_def)
qed

text \<open>Stream decoding is incremental: once the decoder has answered anything but
  NEED_MORE_DATA on the bytes received so far, further bytes never change that answer.\<close>

theorem airdap_frame_decode_extend:
  assumes "airdap_frame_decode (Some b) (length b) True = Some (st, out)"
    and "st \<noteq> FRAME_DECODE_NEED_MORE_DATA"
  shows "airdap_frame_decode (Some (b @ c)) (length (b @ c)) True = Some (st, out)"
proof -
  have n: "20 \<le> length b"
    using assms by (auto simp: airdap_frame_decode_def Let_def split: if_splits)
  obtain h where h: "read_header b = Some h" "header_bytes h = take 20 b"
    using read_header_Some [OF n] by auto
  have "take 20 (b @ c) = header_bytes h" using h n by simp
  then have h': "read_header (b @ c) = Some h"
    using read_header_bytes [of h "drop 20 (b @ c)"] by (metis append_take_drop_id)
  show ?thesis
    using assms airdap_frame_decode_enough [OF n order_refl h(1)]
      airdap_frame_decode_enough [of "length (b @ c)" "b @ c" h] h' n
    by (auto split: if_splits)
qed

theorem airdap_frame_decode_extend_witness:
  "airdap_frame_decode (Some ((header_bytes sample_header @ [1, 2]) @ [3, 4])) 24 True =
     Some (FRAME_DECODE_OK, Some \<lparr>out_header = sample_header, out_payload = Some 20,
       out_frame_size = 22, out_error_code = FRAME_ERROR_NONE\<rparr>)"
proof -
  have n: "payload_size sample_header = 2" by (simp add: sample_header_def)
  have "airdap_frame_decode (Some (header_bytes sample_header @ [1, 2]))
      (length (header_bytes sample_header @ [1, 2])) True =
     Some (FRAME_DECODE_OK, Some \<lparr>out_header = sample_header, out_payload = Some 20,
       out_frame_size = 22, out_error_code = FRAME_ERROR_NONE\<rparr>)"
    using read_header_bytes [of sample_header "[1, 2]"] n
    by (subst airdap_frame_decode_enough [where h = sample_header]) auto
  from airdap_frame_decode_extend [OF this, of "[3, 4]"] show ?thesis by simp
qed

text \<open>
  The encoder and the decoder on whole frames, as the interface \<^const>\<open>byte_codec\<close> wants them:
  the bytes written into a buffer of the required size, and the frame that fills a buffer.
\<close>

definition frame_to_wire :: "airdap_frame_header \<times> bytes \<Rightarrow> bytes option" where
  "frame_to_wire hp =
     (if length (snd hp) \<noteq> payload_size (fst hp) then None
      else case airdap_frame_encode (Some (fst hp)) (Some (snd hp))
             (Some (replicate (20 + payload_size (fst hp)) 0)) (20 + payload_size (fst hp)) True of
        Some (FRAME_ERROR_NONE, _, out) \<Rightarrow> out
      | _ \<Rightarrow> None)"

definition wire_to_frame :: "bytes \<Rightarrow> (airdap_frame_header \<times> bytes) option" where
  "wire_to_frame b =
     (case airdap_frame_decode (Some b) (length b) True of
        Some (FRAME_DECODE_OK, Some out) \<Rightarrow>
          (if out_frame_size out = length b then Some (out_header out, drop 20 b) else None)
      | _ \<Rightarrow> None)"

lemma frame_to_wire_iff:
  "frame_to_wire (h, p) = Some b \<longleftrightarrow>
     header_ok h \<and> length p = payload_size h \<and> b = header_bytes h @ p"
proof (cases "header_ok h \<and> length p = payload_size h")
  case True
  then show ?thesis
    using airdap_frame_encode_Some [of h p "20 + payload_size h" "replicate (20 + payload_size h) 0"]
    by (auto simp: frame_to_wire_def)
next
  case False
  then show ?thesis
    by (auto simp: frame_to_wire_def header_ok_def airdap_frame_encode_def Let_def
        split: airdap_frame_error_code.splits)
qed

lemma wire_to_frame_iff:
  "wire_to_frame b = Some (h, p) \<longleftrightarrow>
     header_ok h \<and> length p = payload_size h \<and> b = header_bytes h @ p"
proof
  assume "wire_to_frame b = Some (h, p)"
  then obtain out where d: "airdap_frame_decode (Some b) (length b) True = Some (FRAME_DECODE_OK, Some out)"
    and o: "out_frame_size out = length b" "h = out_header out" "p = drop 20 b"
    by (auto simp: wire_to_frame_def split: option.splits prod.splits
        airdap_frame_decode_status.splits if_splits)
  from d have "header_ok h \<and> length b = 20 + payload_size h \<and> take 20 b = header_bytes h"
    using o by (subst (asm) airdap_frame_decode_OK_iff) auto
  then show "header_ok h \<and> length p = payload_size h \<and> b = header_bytes h @ p"
    using o by (metis add_diff_cancel_left' append_take_drop_id length_drop)
next
  assume a: "header_ok h \<and> length p = payload_size h \<and> b = header_bytes h @ p"
  then have "airdap_frame_decode (Some b) (length b) True =
    Some (FRAME_DECODE_OK, Some \<lparr>out_header = h, out_payload = Some 20,
      out_frame_size = 20 + payload_size h, out_error_code = FRAME_ERROR_NONE\<rparr>)"
    by (subst airdap_frame_decode_OK_iff) auto
  with a show "wire_to_frame b = Some (h, p)" by (simp add: wire_to_frame_def)
qed

interpretation frame_codec: byte_codec frame_to_wire wire_to_frame
proof
  show "frame_to_wire x = Some b \<Longrightarrow> wire_to_frame b = Some x" for x b
    by (cases x) (simp add: frame_to_wire_iff wire_to_frame_iff)
  show "wire_to_frame b = Some x \<Longrightarrow> frame_to_wire x = Some b" for x b
    by (cases x) (simp add: frame_to_wire_iff wire_to_frame_iff)
qed

lemma frame_wire_unique:
  "wire_to_frame b = Some x \<Longrightarrow> wire_to_frame c = Some x \<Longrightarrow> b = c"
  by (rule frame_codec.dec_inject)

section \<open>Sequence numbering\<close>

text \<open>
  Sequence numbers skip 0, so they form the cycle of length \<open>2 ^ 32 - 1\<close>; \<open>seq_index\<close> is the
  position on it and \<open>seq_distance s e\<close> the forward distance from \<open>e\<close> to \<open>s\<close>.
\<close>

abbreviation sequence_space :: nat where "sequence_space \<equiv> 2 ^ 32 - 1"

definition seq_index :: "u32 \<Rightarrow> nat" where
  "seq_index s = unat s - 1"

definition seq_distance :: "u32 \<Rightarrow> u32 \<Rightarrow> nat" where
  "seq_distance s e = (seq_index s + sequence_space - seq_index e) mod sequence_space"

lemma unat_u32_pos: "(x :: u32) \<noteq> 0 \<Longrightarrow> 0 < unat x"
  by (simp add: unat_gt_0)

lemma seq_index_less: "s \<noteq> 0 \<Longrightarrow> seq_index s < sequence_space"
  using unat_u32_less [of s] unat_u32_pos [of s] by (simp add: seq_index_def)

lemma seq_index_inject: "s \<noteq> 0 \<Longrightarrow> t \<noteq> 0 \<Longrightarrow> seq_index s = seq_index t \<longleftrightarrow> s = t"
  using unat_u32_pos [of s] unat_u32_pos [of t] by (auto simp: seq_index_def word_unat_eq_iff)

lemma next_sequence_nonzero [simp]: "airdap_frame_next_sequence s \<noteq> 0"
  by (simp add: airdap_frame_next_sequence_def Let_def)

lemma next_session_id_nonzero [simp]: "airdap_frame_next_session_id s \<noteq> 0"
  by (simp add: airdap_frame_next_session_id_def Let_def)

lemma unat_inc_u32: "unat (s + 1 :: u32) = (if unat s = 4294967295 then 0 else unat s + 1)"
proof (cases "unat s = 4294967295")
  case True
  then show ?thesis by (simp add: unat_word_ariths)
next
  case False
  then have "unat s + 1 < 4294967296" using unat_u32_less [of s] by simp
  then show ?thesis using False by (simp add: unat_word_ariths)
qed

lemma next_sequence_index:
  assumes "s \<noteq> 0"
  shows "seq_index (airdap_frame_next_sequence s) = (seq_index s + 1) mod sequence_space"
proof (cases "unat s = 4294967295")
  case True
  then have "s + 1 = 0" by (simp add: word_unat_eq_iff unat_inc_u32)
  with True show ?thesis by (simp add: airdap_frame_next_sequence_def seq_index_def)
next
  case False
  then have n: "unat (s + 1) = unat s + 1" by (simp add: unat_inc_u32)
  then have "s + 1 \<noteq> 0" by (metis Suc_eq_plus1 nat.distinct(1) unat_0)
  moreover have "unat s < 4294967295" using False unat_u32_less [of s] by simp
  ultimately show ?thesis using n unat_u32_pos [OF assms]
    by (simp add: airdap_frame_next_sequence_def seq_index_def)
qed

lemma forward_distance_unat:
  assumes "s \<noteq> 0" "e \<noteq> 0"
  shows "unat (sequence_forward_distance s e) = seq_distance s e"
proof -
  have m: "(ucast UINT32_MAX :: u64) = 4294967295" by (simp add: UINT32_MAX_def)
  have ix: "unat (ucast x - 1 :: u64) = seq_index x" if "x \<noteq> 0" for x :: u32
  proof -
    have u: "unat (ucast x :: u64) = unat x"
      using unat_u32_less [of x] by (simp add: unsigned_ucast_eq take_bit_nat_eq_self)
    have "(1 :: u64) \<le> ucast x" using unat_u32_pos [OF that] by (simp add: word_le_nat_alt u)
    then show ?thesis by (simp add: seq_index_def unat_sub u)
  qed
  let ?r = "ucast s - 1 :: u64" and ?x = "ucast e - 1 :: u64"
  have b: "unat ?r < 4294967295" "unat ?x < 4294967295"
    using assms seq_index_less ix by auto
  have "unat (y + 4294967295) = unat y + 4294967295" if "unat y < 4294967295" for y :: u64
    using that by (simp add: unat_word_ariths)
  from this [OF b(1)] have plus: "unat (?r + 4294967295) = unat ?r + 4294967295" .
  then have le: "?x \<le> ?r + 4294967295" using b(2) unfolding word_le_nat_alt by linarith
  show ?thesis
    unfolding sequence_forward_distance_def Let_def m seq_distance_def unat_mod unat_sub [OF le]
      plus ix [OF assms(1)] ix [OF assms(2)] by simp
qed

lemma seq_distance_less: "seq_distance s e < sequence_space"
  by (simp add: seq_distance_def)

lemma seq_distance_0_iff:
  assumes "s \<noteq> 0" "e \<noteq> 0"
  shows "seq_distance s e = 0 \<longleftrightarrow> s = e"
proof -
  have l: "seq_index s < sequence_space" "seq_index e < sequence_space"
    using assms seq_index_less by auto
  have "seq_distance s e =
    (if seq_index e \<le> seq_index s then seq_index s - seq_index e
     else seq_index s + sequence_space - seq_index e)"
  proof (cases "seq_index e \<le> seq_index s")
    case True
    then have "seq_index s + sequence_space - seq_index e = (seq_index s - seq_index e) + sequence_space"
      by simp
    then show ?thesis using True l unfolding seq_distance_def by (simp only: mod_add_self2) simp
  next
    case False
    then show ?thesis using l unfolding seq_distance_def by (simp add: mod_less)
  qed
  then show ?thesis using l seq_index_inject [OF assms] by (auto split: if_splits)
qed

lemma seq_distance_last_iff:
  assumes "s \<noteq> 0" "l \<noteq> 0"
  shows "seq_distance s (airdap_frame_next_sequence l) = sequence_space - 1 \<longleftrightarrow> s = l"
proof -
  have b: "seq_index s < sequence_space" "seq_index l < sequence_space"
    using assms seq_index_less by auto
  have "seq_distance s (airdap_frame_next_sequence l) = sequence_space - 1 \<longleftrightarrow>
        seq_index s = seq_index l"
    unfolding seq_distance_def next_sequence_index [OF assms(2)]
    using b by (auto simp: mod_if)
  then show ?thesis using seq_index_inject [OF assms] by simp
qed

definition validator_ok :: "airdap_frame_sequence_validator \<Rightarrow> bool" where
  "validator_ok v \<longleftrightarrow> sv_session_id v \<noteq> 0 \<and>
     (if sv_has_last_sequence v
      then sv_last_sequence v \<noteq> 0 \<and>
           sv_expected_sequence v = airdap_frame_next_sequence (sv_last_sequence v)
      else sv_expected_sequence v = AIRDAP_FRAME_INITIAL_SEQUENCE)"

definition request_ok :: "airdap_frame_sequence_validator \<Rightarrow> airdap_frame_header \<Rightarrow> bool" where
  "request_ok v r \<longleftrightarrow> header_ok r \<and> request_message_type (fh_type r) \<and>
     fh_session_id r = sv_session_id v"

lemma validator_ok_expected: "validator_ok v \<Longrightarrow> sv_expected_sequence v \<noteq> 0"
  by (auto simp: validator_ok_def split: if_splits)

lemma validator_init_ok:
  "sid \<noteq> 0 \<Longrightarrow> \<exists>v. airdap_frame_sequence_validator_init (Some u) sid = (FRAME_ERROR_NONE, Some v) \<and>
     validator_ok v \<and> sv_session_id v = sid \<and> \<not> sv_has_last_sequence v"
  by (simp add: airdap_frame_sequence_validator_init_def validator_ok_def zero_validator_def)

text \<open>C25. The request check classifies by cyclic distance from the expected sequence number:
  distance 0 is accepted and advances the validator, the immediately preceding number is a
  duplicate, the rest of the forward half is out of order, the rest of the backward half is
  stale, and before the first accepted request everything but the initial number is out of
  order; a rejected request leaves the validator unchanged.\<close>

theorem validate_request_sequence_classifies:
  assumes "validator_ok v" "request_ok v r"
  shows "airdap_frame_validate_request_sequence (Some v) (Some r) =
    (let d = seq_distance (fh_sequence r) (sv_expected_sequence v) in
     if d = 0 then
       (FRAME_ERROR_NONE, Some (v\<lparr>sv_last_sequence := fh_sequence r, sv_has_last_sequence := True,
          sv_expected_sequence := airdap_frame_next_sequence (fh_sequence r)\<rparr>))
     else if \<not> sv_has_last_sequence v then (FRAME_ERROR_SEQUENCE_OUT_OF_ORDER, Some v)
     else if d = sequence_space - 1 then (FRAME_ERROR_SEQUENCE_DUPLICATE, Some v)
     else if d \<le> sequence_space div 2 then (FRAME_ERROR_SEQUENCE_OUT_OF_ORDER, Some v)
     else (FRAME_ERROR_SEQUENCE_STALE, Some v))"
proof -
  let ?s = "fh_sequence r" and ?e = "sv_expected_sequence v"
  have nz: "?s \<noteq> 0" "?e \<noteq> 0"
    using assms validator_ok_expected header_okD by (auto simp: request_ok_def)
  have half: "(ucast UINT32_MAX div 2 :: u64) = 2147483647"
    by (simp add: UINT32_MAX_def)
  have le: "(sequence_forward_distance ?s ?e \<le> ucast UINT32_MAX div 2) =
            (seq_distance ?s ?e \<le> sequence_space div 2)"
    unfolding half word_le_nat_alt forward_distance_unat [OF nz] by simp
  have dup: "sv_has_last_sequence v \<Longrightarrow>
     (seq_distance ?s ?e = sequence_space - 1) = (?s = sv_last_sequence v)"
    using assms nz seq_distance_last_iff [of ?s "sv_last_sequence v"]
    by (auto simp: validator_ok_def)
  show ?thesis
    using assms seq_distance_0_iff [OF nz] le dup
    by (auto simp: airdap_frame_validate_request_sequence_def request_ok_def header_ok_def
        validator_ok_def Let_def)
qed

lemma validate_request_sequence_ok:
  assumes "validator_ok v" "airdap_frame_validate_request_sequence (Some v) (Some r) = (e, Some v')"
  shows "validator_ok v' \<and> sv_session_id v' = sv_session_id v"
  using assms validator_ok_expected [OF assms(1)]
  by (auto simp: airdap_frame_validate_request_sequence_def validator_ok_def split: if_splits)

text \<open>The sequence numbers a validator accepts from a list of requests, in order.\<close>

fun accepted_sequences ::
  "airdap_frame_sequence_validator \<Rightarrow> airdap_frame_header list \<Rightarrow> u32 list" where
  "accepted_sequences v [] = []"
| "accepted_sequences v (r # rs) =
     (case airdap_frame_validate_request_sequence (Some v) (Some r) of
        (FRAME_ERROR_NONE, Some v') \<Rightarrow> fh_sequence r # accepted_sequences v' rs
      | _ \<Rightarrow> accepted_sequences v rs)"

fun sequence_run :: "u32 \<Rightarrow> nat \<Rightarrow> u32 list" where
  "sequence_run s 0 = []"
| "sequence_run s (Suc n) = s # sequence_run (airdap_frame_next_sequence s) n"

lemma validate_request_accepts:
  assumes "airdap_frame_validate_request_sequence (Some v) (Some r) = (FRAME_ERROR_NONE, w)"
  shows "\<exists>v'. w = Some v' \<and> fh_sequence r = sv_expected_sequence v \<and>
     sv_expected_sequence v' = airdap_frame_next_sequence (sv_expected_sequence v)"
  using assms by (auto simp: airdap_frame_validate_request_sequence_def split: if_splits)

lemma accepted_sequences_run:
  "\<exists>n \<le> length rs. accepted_sequences v rs = sequence_run (sv_expected_sequence v) n"
proof (induction rs arbitrary: v)
  case Nil
  then show ?case by simp
next
  case (Cons r rs)
  show ?case
  proof (cases "fst (airdap_frame_validate_request_sequence (Some v) (Some r)) = FRAME_ERROR_NONE")
    case True
    then obtain w where w: "airdap_frame_validate_request_sequence (Some v) (Some r) = (FRAME_ERROR_NONE, w)"
      by (metis prod.collapse)
    from validate_request_accepts [OF w] obtain v' where v': "w = Some v'"
      "fh_sequence r = sv_expected_sequence v"
      "sv_expected_sequence v' = airdap_frame_next_sequence (sv_expected_sequence v)"
      by blast
    obtain n where n: "n \<le> length rs" "accepted_sequences v' rs = sequence_run (sv_expected_sequence v') n"
      using Cons.IH by blast
    have "accepted_sequences v (r # rs) = sequence_run (sv_expected_sequence v) (Suc n)"
      using w v' n by simp
    then show ?thesis using n(1) by (intro exI [of _ "Suc n"]) simp
  next
    case False
    then have "accepted_sequences v (r # rs) = accepted_sequences v rs"
      by (auto split: prod.splits airdap_frame_error_code.splits)
    then show ?thesis using Cons.IH [of v] by (metis le_SucI length_Cons)
  qed
qed

lemma sequence_run_length [simp]: "length (sequence_run s n) = n"
  by (induction n arbitrary: s) auto

lemma sequence_run_nth:
  "s \<noteq> 0 \<Longrightarrow> i < n \<Longrightarrow> sequence_run s n ! i \<noteq> 0 \<and>
     seq_index (sequence_run s n ! i) = (seq_index s + i) mod sequence_space"
proof (induction n arbitrary: s i)
  case 0
  then show ?case by simp
next
  case (Suc n)
  show ?case
  proof (cases i)
    case 0
    then show ?thesis using Suc.prems seq_index_less [of s] by simp
  next
    case (Suc j)
    have "sequence_run (airdap_frame_next_sequence s) n ! j \<noteq> 0 \<and>
       seq_index (sequence_run (airdap_frame_next_sequence s) n ! j) =
         (seq_index (airdap_frame_next_sequence s) + j) mod sequence_space"
      using Suc.IH [of "airdap_frame_next_sequence s" j] Suc.prems Suc by simp
    then show ?thesis using Suc Suc.prems
      by (simp add: next_sequence_index mod_add_left_eq)
  qed
qed

text \<open>No request is accepted twice and none is skipped: after initialisation with a
  session, the requests the validator accepts out of any list carry exactly the numbers
  1, 2, 3, and so on, however duplicates, stale and reordered requests are mixed in.\<close>

theorem accepted_requests_consecutive:
  assumes "sid \<noteq> 0" "airdap_frame_sequence_validator_init (Some u) sid = (FRAME_ERROR_NONE, Some v)"
    and "length rs \<le> sequence_space"
  shows "distinct (accepted_sequences v rs) \<and>
    (\<forall>i < length (accepted_sequences v rs). unat (accepted_sequences v rs ! i) = i + 1)"
proof -
  have e: "sv_expected_sequence v = 1"
    using assms(1,2) by (auto simp: airdap_frame_sequence_validator_init_def)
  obtain n where n: "n \<le> length rs" "accepted_sequences v rs = sequence_run 1 n"
    using accepted_sequences_run [of rs v] e by metis
  have at: "unat (sequence_run 1 n ! i) = i + 1" if "i < n" for i
  proof -
    have "seq_index (sequence_run 1 n ! i) = i"
      using sequence_run_nth [of 1 i n] that n(1) assms(3) by (simp add: seq_index_def)
    moreover have "0 < unat (sequence_run 1 n ! i)"
      using sequence_run_nth [of 1 i n] that unat_u32_pos by simp
    ultimately show ?thesis by (simp add: seq_index_def)
  qed
  have "distinct (sequence_run 1 n)"
    unfolding distinct_conv_nth using at by (metis add_right_cancel sequence_run_length)
  with at n show ?thesis by simp
qed

theorem accepted_requests_consecutive_witness:
  "accepted_sequences
     (zero_validator\<lparr>sv_session_id := 7, sv_expected_sequence := 1\<rparr>)
     [sample_header\<lparr>fh_sequence := 1\<rparr>, sample_header\<lparr>fh_sequence := 1\<rparr>, sample_header\<lparr>fh_sequence := 2\<rparr>] = [1, 2] \<and>
   distinct (accepted_sequences
     (zero_validator\<lparr>sv_session_id := 7, sv_expected_sequence := 1\<rparr>)
     [sample_header\<lparr>fh_sequence := 1\<rparr>, sample_header\<lparr>fh_sequence := 1\<rparr>, sample_header\<lparr>fh_sequence := 2\<rparr>])"
  using accepted_requests_consecutive [of 7 zero_validator "zero_validator\<lparr>sv_session_id := 7, sv_expected_sequence := 1\<rparr>"
     "[sample_header\<lparr>fh_sequence := 1\<rparr>, sample_header\<lparr>fh_sequence := 1\<rparr>, sample_header\<lparr>fh_sequence := 2\<rparr>]"]
  by (simp add: airdap_frame_sequence_validator_init_def sample_header_def zero_validator_def
      airdap_frame_validate_request_sequence_def valid_message_type_def request_message_type_def
      airdap_frame_next_sequence_def validate_header_None)

theorem validate_request_sequence_classifies_witness:
  "airdap_frame_validate_request_sequence
     (Some \<lparr>sv_session_id = 7, sv_expected_sequence = 9, sv_last_sequence = 8, sv_has_last_sequence = True\<rparr>)
     (Some (sample_header\<lparr>fh_sequence := 4\<rparr>)) =
   (FRAME_ERROR_SEQUENCE_STALE,
     Some \<lparr>sv_session_id = 7, sv_expected_sequence = 9, sv_last_sequence = 8, sv_has_last_sequence = True\<rparr>)"
proof -
  let ?v = "\<lparr>sv_session_id = 7, sv_expected_sequence = 9, sv_last_sequence = 8, sv_has_last_sequence = True\<rparr>"
  have "validator_ok ?v" by (simp add: validator_ok_def airdap_frame_next_sequence_def)
  moreover have "request_ok ?v (sample_header\<lparr>fh_sequence := 4\<rparr>)"
    by (simp add: request_ok_def header_ok_def validate_header_None sample_header_def
        valid_message_type_def request_message_type_def)
  moreover have "seq_distance 4 9 = 4294967290" by (simp add: seq_distance_def seq_index_def)
  ultimately show ?thesis using validate_request_sequence_classifies [of ?v "sample_header\<lparr>fh_sequence := 4\<rparr>"]
    by (simp add: Let_def)
qed

lemma expected_response_type_0: "expected_response_type t = 0 \<longleftrightarrow> \<not> request_message_type t"
  by (auto simp: expected_response_type_def request_message_type_def)

text \<open>A response is accepted for a request exactly when both headers are valid, the request
  has a request type, session and sequence agree, and the response has the type that answers
  the request or is an ERROR frame.\<close>

theorem validate_response_iff:
  "airdap_frame_validate_response (Some req) (Some resp) = Some FRAME_ERROR_NONE \<longleftrightarrow>
     header_ok req \<and> header_ok resp \<and> request_message_type (fh_type req) \<and>
     fh_session_id resp = fh_session_id req \<and> fh_sequence resp = fh_sequence req \<and>
     (fh_type resp = expected_response_type (fh_type req) \<or> fh_type resp = AIRDAP_FRAME_TYPE_ERROR)"
  by (cases "header_ok req"; cases "header_ok resp")
     (auto simp: airdap_frame_validate_response_def header_ok_def expected_response_type_0 Let_def)

lemma frame_error_number_inverse: "frame_error_of_number (frame_error_number e) = e"
  if "valid_error_code e"
  using that by (cases e) (simp_all add: frame_error_of_number_def frame_error_numbers_def)

lemma map_of_find_number:
  "distinct (map snd ps) \<Longrightarrow> map_of ps n = Some e \<Longrightarrow> find (\<lambda>p. snd p = e) ps = Some (n, e)"
  by (induction ps) (auto split: if_splits dest!: map_of_SomeD intro: rev_image_eqI)

lemma frame_error_of_number_inverse: "frame_error_number (frame_error_of_number n) = n"
proof (cases "map_of frame_error_numbers n")
  case None
  then show ?thesis by (simp add: frame_error_of_number_def)
next
  case (Some e)
  then have "find (\<lambda>p. snd p = e) frame_error_numbers = Some (n, e)"
    by (intro map_of_find_number) (simp_all add: frame_error_numbers_def)
  moreover have "\<forall>m. e \<noteq> FRAME_ERROR_UNNAMED m"
    using map_of_SomeD [OF Some] by (auto simp: frame_error_numbers_def)
  ultimately show ?thesis using Some by (cases e) (simp_all add: frame_error_of_number_def)
qed

lemma error_code_encode_eq:
  assumes "length b = 2" "valid_error_code e"
  shows "airdap_frame_error_code_encode e (Some b) 2 =
    Some (True, Some [byte1 (frame_error_number e), byte0 (frame_error_number e)])"
proof -
  obtain x y where "b = [x, y]" using assms(1) by (auto simp: length_Suc_conv numeral_2_eq_2)
  then show ?thesis using assms(2) by (simp add: airdap_frame_error_code_encode_def mem_simps)
qed

lemma error_code_decode_eq:
  "airdap_frame_error_code_decode (Some [x, y]) 2 True =
     Some (if valid_error_code (frame_error_of_number (be16 x y))
           then (FRAME_DECODE_OK, Some (frame_error_of_number (be16 x y), FRAME_ERROR_NONE))
           else (FRAME_DECODE_INVALID_FRAME, Some (FRAME_ERROR_NONE, FRAME_ERROR_UNSUPPORTED_TYPE)))"
  by (simp add: airdap_frame_error_code_decode_def mem_simps Let_def)

text \<open>Error payload round trip: every transmittable error code encodes into two bytes, and
  those two bytes are the only ones the decoder maps to that code.\<close>

theorem error_code_roundtrip:
  assumes "length b = 2" "valid_error_code e"
  shows "\<exists>b'. airdap_frame_error_code_encode e (Some b) 2 = Some (True, Some b') \<and>
    (\<forall>c. length c = 2 \<longrightarrow>
       airdap_frame_error_code_decode (Some c) 2 True = Some (FRAME_DECODE_OK, Some (e, FRAME_ERROR_NONE))
       \<longleftrightarrow> c = b')"
proof -
  let ?b = "[byte1 (frame_error_number e), byte0 (frame_error_number e)]"
  have "airdap_frame_error_code_decode (Some c) 2 True = Some (FRAME_DECODE_OK, Some (e, FRAME_ERROR_NONE))
      \<longleftrightarrow> c = ?b" if l: "length c = 2" for c
  proof -
    obtain x y where c: "c = [x, y]" using l by (auto simp: length_Suc_conv numeral_2_eq_2)
    have "frame_error_of_number (be16 x y) = e \<longleftrightarrow> frame_error_number e = be16 x y"
      using frame_error_number_inverse [OF assms(2)] frame_error_of_number_inverse by metis
    also have "\<dots> \<longleftrightarrow> c = ?b"
      unfolding c by (metis be16_bytes byte_of_be16 list.inject)
    finally show ?thesis using assms(2) unfolding c error_code_decode_eq by auto
  qed
  then show ?thesis using error_code_encode_eq [OF assms] by blast
qed

theorem error_code_roundtrip_witness:
  "\<exists>b'. airdap_frame_error_code_encode FRAME_ERROR_BUSY (Some [0, 0]) 2 = Some (True, Some b') \<and>
     airdap_frame_error_code_decode (Some b') 2 True =
       Some (FRAME_DECODE_OK, Some (FRAME_ERROR_BUSY, FRAME_ERROR_NONE)) \<and> b' = [0, 0x20]"
proof -
  have e: "airdap_frame_error_code_encode FRAME_ERROR_BUSY (Some [0, 0]) 2 = Some (True, Some [0, 0x20])"
    by (simp add: airdap_frame_error_code_encode_def mem_simps frame_error_numbers_def byte_defs)
  then show ?thesis
    using error_code_roundtrip [of "[0, 0]" FRAME_ERROR_BUSY] by auto
qed

end
