(* ===== verification/Atomic_Prog.thy ===== *)
theory Atomic_Prog
  imports AirDAP_Prelude
begin

text \<open>
  Lock-free code on C11 atomics. The ownership arbiter and the mode state keep their state in
  \<^verbatim>\<open>atomic_uint\<close> globals and are called from several tasks, so their functions are modelled as
  programs whose steps are the individual atomic accesses and calls into the outside world;
  everything between two steps is local. A program is a well-founded tree: each node is one
  access with a continuation for what the access can return.

  Two semantics: \<open>run\<close> executes a program without interference and without spurious failures of
  the weak compare-exchange, which gives the functional behaviour of an operation; \<open>pstep\<close> is
  one step of one program, and \<open>sys_step\<close> interleaves any number of tasks arbitrarily, with weak
  compare-exchanges free to fail and the outside world free to answer anything.

  A compare-exchange retry loop has a fuel parameter; \<open>Spin\<close> is the program that has exhausted
  it. Every finite execution of the loop is an execution of the fuelled program for enough fuel.
\<close>

section \<open>Programs\<close>

text \<open>The atomic globals of \<^verbatim>\<open>dap_ownership.c\<close> and \<^verbatim>\<open>mode_state.c\<close>.\<close>

datatype avar = Ownership_control | Mode_control | Usb_preemptions_inflight

type_synonym shared = "avar \<Rightarrow> u32"

text \<open>
  Calls that leave the modelled components: the two functions of the ownership backend, a
  physical operation on the debug bus by the holder of an operation, and the NVS calls of
  \<^verbatim>\<open>mode_storage.c\<close> (with the error codes the three NVS calls of a save return, and the error codes
  and the value of the two calls of a load).
\<close>

datatype 'a prog =
    Ret 'a
  | Spin
  | Load avar "u32 \<Rightarrow> 'a prog"
  | Store avar u32 "'a prog"
  | Cas avar bool u32 u32 "bool \<times> u32 \<Rightarrow> 'a prog"
  | Fetch_add avar u32 "'a prog"
  | Line_reset "bool \<Rightarrow> 'a prog"
  | Release_pins "bool \<Rightarrow> 'a prog"
  | Bus "'a prog"
  | Nvs_load "esp_err \<times> esp_err \<times> u8 \<Rightarrow> 'a prog"
  | Nvs_save u8 "esp_err \<times> esp_err \<times> esp_err \<Rightarrow> 'a prog"

text \<open>
  The boolean of \<open>Cas\<close> marks \<^verbatim>\<open>atomic_compare_exchange_weak\<close>; the continuation gets the result
  and the value of \<^verbatim>\<open>expected\<close> after the call (the observed value when it failed).
\<close>

abbreviation cas_strong :: "avar \<Rightarrow> u32 \<Rightarrow> u32 \<Rightarrow> (bool \<times> u32 \<Rightarrow> 'a prog) \<Rightarrow> 'a prog" where
  "cas_strong v e d k \<equiv> Cas v False e d k"

abbreviation cas_weak :: "avar \<Rightarrow> u32 \<Rightarrow> u32 \<Rightarrow> (bool \<times> u32 \<Rightarrow> 'a prog) \<Rightarrow> 'a prog" where
  "cas_weak v e d k \<equiv> Cas v True e d k"

primrec bindp :: "'a prog \<Rightarrow> ('a \<Rightarrow> 'b prog) \<Rightarrow> 'b prog" where
  "bindp (Ret a) f = f a"
| "bindp Spin f = Spin"
| "bindp (Load v k) f = Load v (\<lambda>x. bindp (k x) f)"
| "bindp (Store v x k) f = Store v x (bindp k f)"
| "bindp (Cas v w e d k) f = Cas v w e d (\<lambda>r. bindp (k r) f)"
| "bindp (Fetch_add v x k) f = Fetch_add v x (bindp k f)"
| "bindp (Line_reset k) f = Line_reset (\<lambda>b. bindp (k b) f)"
| "bindp (Release_pins k) f = Release_pins (\<lambda>b. bindp (k b) f)"
| "bindp (Bus k) f = Bus (bindp k f)"
| "bindp (Nvs_load k) f = Nvs_load (\<lambda>r. bindp (k r) f)"
| "bindp (Nvs_save x k) f = Nvs_save x (\<lambda>r. bindp (k r) f)"

lemma bindp_Ret [simp]: "bindp p Ret = p"
  by (induction p) auto

lemma bindp_assoc: "bindp (bindp p f) g = bindp p (\<lambda>a. bindp (f a) g)"
  by (induction p) auto

lemma bindp_if: "bindp (if c then p else q) f = (if c then bindp p f else bindp q f)"
  by simp

section \<open>Execution without interference\<close>

text \<open>The outside world of a sequential run, over a state of its own.\<close>

record 'h env =
  env_line_reset :: "'h \<Rightarrow> bool \<times> 'h"
  env_release_pins :: "'h \<Rightarrow> bool \<times> 'h"
  env_bus :: "'h \<Rightarrow> 'h"
  env_nvs_load :: "'h \<Rightarrow> (esp_err \<times> esp_err \<times> u8) \<times> 'h"
  env_nvs_save :: "u8 \<Rightarrow> 'h \<Rightarrow> (esp_err \<times> esp_err \<times> esp_err) \<times> 'h"

primrec run :: "'h env \<Rightarrow> 'a prog \<Rightarrow> shared \<Rightarrow> 'h \<Rightarrow> ('a \<times> shared \<times> 'h) option" where
  "run E (Ret a) s h = Some (a, s, h)"
| "run E Spin s h = None"
| "run E (Load v k) s h = run E (k (s v)) s h"
| "run E (Store v x k) s h = run E k (s(v := x)) h"
| "run E (Cas v w e d k) s h =
     (if s v = e then run E (k (True, e)) (s(v := d)) h else run E (k (False, s v)) s h)"
| "run E (Fetch_add v x k) s h = run E k (s(v := s v + x)) h"
| "run E (Line_reset k) s h =
     run E (k (fst (env_line_reset E h))) s (snd (env_line_reset E h))"
| "run E (Release_pins k) s h =
     run E (k (fst (env_release_pins E h))) s (snd (env_release_pins E h))"
| "run E (Bus k) s h = run E k s (env_bus E h)"
| "run E (Nvs_load k) s h =
     run E (k (fst (env_nvs_load E h))) s (snd (env_nvs_load E h))"
| "run E (Nvs_save x k) s h =
     run E (k (fst (env_nvs_save E x h))) s (snd (env_nvs_save E x h))"

lemma run_bindp:
  "run E (bindp p f) s h =
     (case run E p s h of None \<Rightarrow> None | Some (a, s', h') \<Rightarrow> run E (f a) s' h')"
  by (induction p arbitrary: s h) (auto split: prod.splits)

section \<open>Interleaving\<close>

inductive pstep :: "'a prog \<Rightarrow> shared \<Rightarrow> 'a prog \<Rightarrow> shared \<Rightarrow> bool" where
  load: "pstep (Load v k) s (k (s v)) s"
| store: "pstep (Store v x k) s k (s(v := x))"
| cas_ok: "s v = e \<Longrightarrow> pstep (Cas v w e d k) s (k (True, e)) (s(v := d))"
| cas_fail: "s v \<noteq> e \<Longrightarrow> pstep (Cas v w e d k) s (k (False, s v)) s"
| cas_spurious: "pstep (Cas v True e d k) s (k (False, s v)) s"
| fetch_add: "pstep (Fetch_add v x k) s k (s(v := s v + x))"
| line_reset: "pstep (Line_reset k) s (k b) s"
| release_pins: "pstep (Release_pins k) s (k b) s"
| bus: "pstep (Bus k) s k s"
| nvs_load: "pstep (Nvs_load k) s (k r) s"
| nvs_save: "pstep (Nvs_save x k) s (k r) s"

inductive_cases pstep_RetE: "pstep (Ret a) s q t"
inductive_cases pstep_SpinE: "pstep Spin s q t"
inductive_cases pstep_LoadE [elim!]: "pstep (Load v k) s q t"
inductive_cases pstep_StoreE [elim!]: "pstep (Store v x k) s q t"
inductive_cases pstep_CasE: "pstep (Cas v w e d k) s q t"
inductive_cases pstep_Fetch_addE [elim!]: "pstep (Fetch_add v x k) s q t"
inductive_cases pstep_Line_resetE [elim!]: "pstep (Line_reset k) s q t"
inductive_cases pstep_Release_pinsE [elim!]: "pstep (Release_pins k) s q t"
inductive_cases pstep_BusE [elim!]: "pstep (Bus k) s q t"
inductive_cases pstep_Nvs_loadE [elim!]: "pstep (Nvs_load k) s q t"
inductive_cases pstep_Nvs_saveE [elim!]: "pstep (Nvs_save x k) s q t"

text \<open>
  Any number of tasks; an idle task (\<open>Ret ()\<close>) may start any program of the set \<open>C\<close> of client
  programs.
\<close>

type_synonym tasks = "nat \<Rightarrow> unit prog"

inductive sys_step :: "unit prog set \<Rightarrow> tasks \<times> shared \<Rightarrow> tasks \<times> shared \<Rightarrow> bool" for C where
  task: "pstep (ts i) s q s' \<Longrightarrow> sys_step C (ts, s) (ts(i := q), s')"
| start: "ts i = Ret () \<Longrightarrow> p \<in> C \<Longrightarrow> sys_step C (ts, s) (ts(i := p), s)"

inductive_cases sys_stepE: "sys_step C (ts, s) (ts', s')"

inductive sys_steps :: "unit prog set \<Rightarrow> tasks \<times> shared \<Rightarrow> tasks \<times> shared \<Rightarrow> bool" for C where
  refl: "sys_steps C c c"
| step: "sys_steps C c c' \<Longrightarrow> sys_step C c' c'' \<Longrightarrow> sys_steps C c c''"

lemma sys_steps_trans: "sys_steps C b c \<Longrightarrow> sys_steps C a b \<Longrightarrow> sys_steps C a c"
  by (induction rule: sys_steps.induct) (auto intro: sys_steps.step)

lemma sys_steps_invariant:
  assumes "sys_steps C c c'" "I c" "\<And>a b. I a \<Longrightarrow> sys_step C a b \<Longrightarrow> I b"
  shows "I c'"
  using assms by (induction rule: sys_steps.induct) auto

text \<open>A sequential run that ends is one of the executions of the program.\<close>

inductive psteps :: "'a prog \<Rightarrow> shared \<Rightarrow> 'a prog \<Rightarrow> shared \<Rightarrow> bool" where
  refl: "psteps p s p s"
| step: "pstep p s q t \<Longrightarrow> psteps q t r u \<Longrightarrow> psteps p s r u"

lemma run_psteps: "run E p s h = Some (a, s', h') \<Longrightarrow> psteps p s (Ret a) s'"
proof (induction p arbitrary: s h)
  case (Line_reset k)
  then show ?case by (metis psteps.step pstep.line_reset rangeI run.simps(7))
next
  case (Release_pins k)
  then show ?case by (metis psteps.step pstep.release_pins rangeI run.simps(8))
next
  case (Nvs_load k)
  then show ?case by (metis psteps.step pstep.nvs_load rangeI run.simps(10))
next
  case (Nvs_save x k)
  then show ?case by (metis psteps.step pstep.nvs_save rangeI run.simps(11))
qed (auto intro: psteps.intros pstep.intros split: if_splits)

section \<open>Invariants of one variable\<close>

text \<open>
  \<open>writes_ok u I p Q\<close>: given that variable \<open>u\<close> satisfies \<open>I\<close> whenever \<open>p\<close> reads it, every write of
  \<open>p\<close> to \<open>u\<close> keeps \<open>I\<close>, and \<open>p\<close> returns a value in \<open>Q\<close>.
\<close>

primrec writes_ok :: "avar \<Rightarrow> (u32 \<Rightarrow> bool) \<Rightarrow> 'a prog \<Rightarrow> ('a \<Rightarrow> bool) \<Rightarrow> bool" where
  "writes_ok u I (Ret a) Q = Q a"
| "writes_ok u I Spin Q = True"
| "writes_ok u I (Load v k) Q = (\<forall>x. (v = u \<longrightarrow> I x) \<longrightarrow> writes_ok u I (k x) Q)"
| "writes_ok u I (Store v x k) Q = ((v = u \<longrightarrow> I x) \<and> writes_ok u I k Q)"
| "writes_ok u I (Cas v w e d k) Q =
     (((v = u \<longrightarrow> I e) \<longrightarrow> (v = u \<longrightarrow> I d) \<and> writes_ok u I (k (True, e)) Q) \<and>
      (\<forall>x. (v = u \<longrightarrow> I x) \<longrightarrow> writes_ok u I (k (False, x)) Q))"
| "writes_ok u I (Fetch_add v x k) Q = ((v = u \<longrightarrow> (\<forall>y. I y \<longrightarrow> I (y + x))) \<and> writes_ok u I k Q)"
| "writes_ok u I (Line_reset k) Q = (\<forall>b. writes_ok u I (k b) Q)"
| "writes_ok u I (Release_pins k) Q = (\<forall>b. writes_ok u I (k b) Q)"
| "writes_ok u I (Bus k) Q = writes_ok u I k Q"
| "writes_ok u I (Nvs_load k) Q = (\<forall>r. writes_ok u I (k r) Q)"
| "writes_ok u I (Nvs_save x k) Q = (\<forall>r. writes_ok u I (k r) Q)"

lemma writes_ok_bindp:
  "writes_ok u I p R \<Longrightarrow> (\<And>a. R a \<Longrightarrow> writes_ok u I (f a) Q) \<Longrightarrow> writes_ok u I (bindp p f) Q"
  by (induction p) auto

lemma pstep_writes_ok:
  "pstep p s q s' \<Longrightarrow> writes_ok u I p Q \<Longrightarrow> I (s u) \<Longrightarrow> writes_ok u I q Q \<and> I (s' u)"
  by (induction rule: pstep.induct) auto

lemma sys_steps_writes_ok:
  assumes "sys_steps C c c'" "\<And>p. p \<in> C \<Longrightarrow> writes_ok u I p (\<lambda>_. True)"
    "\<forall>i. writes_ok u I (fst c i) (\<lambda>_. True)" "I (snd c u)"
  shows "I (snd c' u)"
proof -
  have "(\<forall>i. writes_ok u I (fst c' i) (\<lambda>_. True)) \<and> I (snd c' u)"
    using assms(1)
  proof (rule sys_steps_invariant)
    fix a b assume st: "sys_step C a b" and inv: "(\<forall>i. writes_ok u I (fst a i) (\<lambda>_. True)) \<and> I (snd a u)"
    from st show "(\<forall>i. writes_ok u I (fst b i) (\<lambda>_. True)) \<and> I (snd b u)"
      using inv assms(2) by (induction rule: sys_step.induct) (auto dest: pstep_writes_ok)
  qed (use assms in auto)
  then show ?thesis by simp
qed

section \<open>Driving the pins\<close>

text \<open>The programs whose next action touches the debug pins, and how to run a program up to there.\<close>

fun drives :: "'a prog \<Rightarrow> bool" where
  "drives (Line_reset k) = True"
| "drives (Release_pins k) = True"
| "drives (Bus k) = True"
| "drives p = False"

primrec to_drive :: "'a prog \<Rightarrow> shared \<Rightarrow> ('a prog \<times> shared) option" where
  "to_drive (Ret a) s = None"
| "to_drive Spin s = None"
| "to_drive (Load v k) s = to_drive (k (s v)) s"
| "to_drive (Store v x k) s = to_drive k (s(v := x))"
| "to_drive (Cas v w e d k) s =
     (if s v = e then to_drive (k (True, e)) (s(v := d)) else to_drive (k (False, s v)) s)"
| "to_drive (Fetch_add v x k) s = to_drive k (s(v := s v + x))"
| "to_drive (Line_reset k) s = Some (Line_reset k, s)"
| "to_drive (Release_pins k) s = Some (Release_pins k, s)"
| "to_drive (Bus k) s = Some (Bus k, s)"
| "to_drive (Nvs_load k) s = None"
| "to_drive (Nvs_save x k) s = None"

lemma to_drive_psteps: "to_drive p s = Some (q, s') \<Longrightarrow> psteps p s q s' \<and> drives q"
  by (induction p arbitrary: s) (auto intro: psteps.intros pstep.intros split: if_splits)

end
