(* ===== verification/Dap_Ownership.thy ===== *)
theory Dap_Ownership
  imports Atomic_Prog
begin

text \<open>
  The debug-bus arbiter, \<^verbatim>\<open>firmware/components/dap_ownership/dap_ownership.c\<close>: one atomic word
  holds the state (an owner, or one of the four special states), the bit of an operation in
  progress and a 28-bit generation that tells claims apart. Owners are the numbers of the C enum,
  because the code compares them with the state field of the word; a pointer argument that may
  be NULL is an option. The functions are programs of \<open>Atomic_Prog\<close>, one node per atomic access
  or backend call.
\<close>

section \<open>Data\<close>

abbreviation (input) AIRDAP_DAP_OWNER_NONE :: u32 where "AIRDAP_DAP_OWNER_NONE \<equiv> 0"
abbreviation (input) AIRDAP_DAP_OWNER_USB :: u32 where "AIRDAP_DAP_OWNER_USB \<equiv> 1"
abbreviation (input) AIRDAP_DAP_OWNER_NETWORK :: u32 where "AIRDAP_DAP_OWNER_NETWORK \<equiv> 2"
abbreviation (input) AIRDAP_DAP_OWNER_DIAGNOSTIC :: u32 where "AIRDAP_DAP_OWNER_DIAGNOSTIC \<equiv> 3"

abbreviation (input) OWNERSHIP_STATE_TRANSITION :: u32 where "OWNERSHIP_STATE_TRANSITION \<equiv> 4"
abbreviation (input) OWNERSHIP_STATE_OFFLINE :: u32 where "OWNERSHIP_STATE_OFFLINE \<equiv> 5"
abbreviation (input) OWNERSHIP_STATE_SUSPENDED :: u32 where "OWNERSHIP_STATE_SUSPENDED \<equiv> 6"
abbreviation (input) OWNERSHIP_STATE_UNINITIALIZED :: u32 where "OWNERSHIP_STATE_UNINITIALIZED \<equiv> 7"
abbreviation (input) OWNERSHIP_CONTROL_STATE_MASK :: u32 where "OWNERSHIP_CONTROL_STATE_MASK \<equiv> 7"
abbreviation (input) OWNERSHIP_CONTROL_ACTIVE :: u32 where "OWNERSHIP_CONTROL_ACTIVE \<equiv> 8"
abbreviation (input) OWNERSHIP_CONTROL_GENERATION_MAX :: u32 where
  "OWNERSHIP_CONTROL_GENERATION_MAX \<equiv> 0x0FFFFFFF"

datatype airdap_dap_ownership_result =
    OWNERSHIP_OK
  | OWNERSHIP_ALREADY_OWNER
  | OWNERSHIP_BUSY
  | OWNERSHIP_NOT_OWNER
  | OWNERSHIP_OFFLINE
  | OWNERSHIP_INVALID_ARGUMENT
  | OWNERSHIP_INVALID_STATE

record airdap_dap_ownership_claim =
  claim_owner :: u32
  claim_generation :: u32

record airdap_dap_ownership_operation =
  op_owner :: u32
  op_generation :: u32
  op_active :: bool

definition zero_claim :: airdap_dap_ownership_claim where
  "zero_claim = \<lparr>claim_owner = 0, claim_generation = 0\<rparr>"

definition zero_operation :: airdap_dap_ownership_operation where
  "zero_operation = \<lparr>op_owner = 0, op_generation = 0, op_active = False\<rparr>"

section \<open>The control word\<close>

definition is_owner :: "u32 \<Rightarrow> bool" where
  "is_owner state \<longleftrightarrow> AIRDAP_DAP_OWNER_USB \<le> state \<and> state \<le> AIRDAP_DAP_OWNER_DIAGNOSTIC"

definition control_state :: "u32 \<Rightarrow> u32" where
  "control_state control = control AND OWNERSHIP_CONTROL_STATE_MASK"

definition control_generation :: "u32 \<Rightarrow> u32" where
  "control_generation control = drop_bit 4 control"

definition control_active :: "u32 \<Rightarrow> bool" where
  "control_active control \<longleftrightarrow> control AND OWNERSHIP_CONTROL_ACTIVE \<noteq> 0"

definition make_control :: "u32 \<Rightarrow> u32 \<Rightarrow> u32" where
  "make_control generation state = push_bit 4 generation OR state"

definition valid_claim :: "airdap_dap_ownership_claim option \<Rightarrow> bool" where
  "valid_claim claim \<longleftrightarrow> (case claim of None \<Rightarrow> False
     | Some c \<Rightarrow> is_owner (claim_owner c) \<and> claim_generation c > 0 \<and>
                 claim_generation c \<le> OWNERSHIP_CONTROL_GENERATION_MAX)"

definition claim_failure_result ::
  "u32 \<Rightarrow> airdap_dap_ownership_claim \<Rightarrow> airdap_dap_ownership_result"
where
  "claim_failure_result control claim =
     (let state = control_state control in
      if state = OWNERSHIP_STATE_OFFLINE then OWNERSHIP_OFFLINE
      else if state = OWNERSHIP_STATE_UNINITIALIZED then OWNERSHIP_INVALID_STATE
      else if state = OWNERSHIP_STATE_SUSPENDED then OWNERSHIP_BUSY
      else if state = OWNERSHIP_STATE_TRANSITION \<or>
              (state = claim_owner claim \<and> control_generation control = claim_generation claim \<and>
               control_active control)
           then OWNERSHIP_BUSY
      else OWNERSHIP_NOT_OWNER)"

section \<open>Operations\<close>

definition release_pins :: "u32 \<Rightarrow> u32 \<Rightarrow> airdap_dap_ownership_result prog" where
  "release_pins generation released_state =
     Release_pins (\<lambda>released.
       Store Ownership_control
         (make_control generation (if released then released_state else OWNERSHIP_STATE_OFFLINE))
         (Ret (if released then OWNERSHIP_OK else OWNERSHIP_OFFLINE)))"

text \<open>\<open>backend_valid\<close>: the backend pointer and its two function pointers are non-NULL.\<close>

definition airdap_dap_ownership_initialize :: "bool \<Rightarrow> airdap_dap_ownership_result prog" where
  "airdap_dap_ownership_initialize backend_valid =
     (if \<not> backend_valid then Ret OWNERSHIP_INVALID_ARGUMENT
      else cas_strong Ownership_control OWNERSHIP_STATE_UNINITIALIZED OWNERSHIP_STATE_TRANSITION
        (\<lambda>(ok, expected).
          if \<not> ok then Ret OWNERSHIP_INVALID_STATE
          else Store Ownership_control AIRDAP_DAP_OWNER_NONE (Ret OWNERSHIP_OK)))"

definition airdap_dap_ownership_current :: "u32 prog" where
  "airdap_dap_ownership_current =
     Load Ownership_control (\<lambda>control.
       let state = control_state control
       in Ret (if is_owner state then state else AIRDAP_DAP_OWNER_NONE))"

text \<open>
  Acquire returns the result and the claim it wrote (\<^const>\<open>None\<close> where it wrote nothing because
  the argument check failed). The two halves below are the code after the first load and the
  code after the compare-exchange.
\<close>

definition acquire_observed ::
  "u32 \<Rightarrow> u32 \<Rightarrow> airdap_dap_ownership_result \<times> airdap_dap_ownership_claim option"
where
  "acquire_observed owner expected =
     (let observed_state = control_state expected in
      if observed_state = owner
      then (OWNERSHIP_ALREADY_OWNER,
            Some \<lparr>claim_owner = owner, claim_generation = control_generation expected\<rparr>)
      else if observed_state = OWNERSHIP_STATE_OFFLINE then (OWNERSHIP_OFFLINE, Some zero_claim)
      else if observed_state = OWNERSHIP_STATE_UNINITIALIZED
           then (OWNERSHIP_INVALID_STATE, Some zero_claim)
      else if observed_state = OWNERSHIP_STATE_SUSPENDED then (OWNERSHIP_BUSY, Some zero_claim)
      else (OWNERSHIP_BUSY, Some zero_claim))"

definition acquire_transition ::
  "u32 \<Rightarrow> u32 \<Rightarrow> (airdap_dap_ownership_result \<times> airdap_dap_ownership_claim option) prog"
where
  "acquire_transition owner generation =
     (if generation = OWNERSHIP_CONTROL_GENERATION_MAX
      then Store Ownership_control (make_control generation OWNERSHIP_STATE_OFFLINE)
             (Ret (OWNERSHIP_OFFLINE, Some zero_claim))
      else Line_reset (\<lambda>reset.
        if \<not> reset
        then bindp (release_pins generation AIRDAP_DAP_OWNER_NONE)
               (\<lambda>_. Ret (OWNERSHIP_OFFLINE, Some zero_claim))
        else let next_generation = generation + 1 in
          Store Ownership_control (make_control next_generation owner)
            (Ret (OWNERSHIP_OK,
                  Some \<lparr>claim_owner = owner, claim_generation = next_generation\<rparr>))))"

definition airdap_dap_ownership_acquire ::
  "u32 \<Rightarrow> bool \<Rightarrow> (airdap_dap_ownership_result \<times> airdap_dap_ownership_claim option) prog"
where
  "airdap_dap_ownership_acquire owner claim_present =
     (if \<not> claim_present \<or> \<not> is_owner owner then Ret (OWNERSHIP_INVALID_ARGUMENT, None)
      else Load Ownership_control (\<lambda>expected.
        let state = control_state expected in
        if state = owner
        then Ret (OWNERSHIP_ALREADY_OWNER,
                  Some \<lparr>claim_owner = owner, claim_generation = control_generation expected\<rparr>)
        else if state = OWNERSHIP_STATE_OFFLINE then Ret (OWNERSHIP_OFFLINE, Some zero_claim)
        else if state = OWNERSHIP_STATE_UNINITIALIZED
             then Ret (OWNERSHIP_INVALID_STATE, Some zero_claim)
        else if state = OWNERSHIP_STATE_SUSPENDED then Ret (OWNERSHIP_BUSY, Some zero_claim)
        else if state \<noteq> AIRDAP_DAP_OWNER_NONE \<or> control_active expected
             then Ret (OWNERSHIP_BUSY, Some zero_claim)
        else let generation = control_generation expected in
          cas_strong Ownership_control expected (make_control generation OWNERSHIP_STATE_TRANSITION)
            (\<lambda>(ok, observed). if \<not> ok then Ret (acquire_observed owner observed)
                              else acquire_transition owner generation)))"

definition airdap_dap_ownership_release ::
  "airdap_dap_ownership_claim option \<Rightarrow> airdap_dap_ownership_result prog"
where
  "airdap_dap_ownership_release claim =
     (case claim of None \<Rightarrow> Ret OWNERSHIP_INVALID_ARGUMENT
      | Some c \<Rightarrow>
        if \<not> valid_claim claim then Ret OWNERSHIP_INVALID_ARGUMENT
        else cas_strong Ownership_control (make_control (claim_generation c) (claim_owner c))
          (make_control (claim_generation c) OWNERSHIP_STATE_TRANSITION)
          (\<lambda>(ok, expected). if \<not> ok then Ret (claim_failure_result expected c)
                            else release_pins (claim_generation c) AIRDAP_DAP_OWNER_NONE))"

definition airdap_dap_ownership_operation_begin ::
  "airdap_dap_ownership_claim option \<Rightarrow> airdap_dap_ownership_operation option \<Rightarrow>
   (airdap_dap_ownership_result \<times> airdap_dap_ownership_operation option) prog"
where
  "airdap_dap_ownership_operation_begin claim operation =
     (case claim of None \<Rightarrow> Ret (OWNERSHIP_INVALID_ARGUMENT, operation)
      | Some c \<Rightarrow> (case operation of None \<Rightarrow> Ret (OWNERSHIP_INVALID_ARGUMENT, operation)
      | Some op \<Rightarrow>
        if \<not> valid_claim claim then Ret (OWNERSHIP_INVALID_ARGUMENT, operation)
        else if op_active op then Ret (OWNERSHIP_INVALID_STATE, operation)
        else let expected = make_control (claim_generation c) (claim_owner c) in
          cas_strong Ownership_control expected (expected OR OWNERSHIP_CONTROL_ACTIVE)
            (\<lambda>(ok, observed).
              if \<not> ok then Ret (claim_failure_result observed c, operation)
              else Ret (OWNERSHIP_OK,
                     Some \<lparr>op_owner = claim_owner c, op_generation = claim_generation c,
                           op_active = True\<rparr>))))"

definition airdap_dap_ownership_control_begin ::
  "u32 \<Rightarrow> airdap_dap_ownership_operation option \<Rightarrow>
   (airdap_dap_ownership_result \<times> airdap_dap_ownership_operation option) prog"
where
  "airdap_dap_ownership_control_begin owner operation =
     (case operation of None \<Rightarrow> Ret (OWNERSHIP_INVALID_ARGUMENT, operation)
      | Some op \<Rightarrow>
        if \<not> is_owner owner then Ret (OWNERSHIP_INVALID_ARGUMENT, operation)
        else if op_active op then Ret (OWNERSHIP_INVALID_STATE, operation)
        else Load Ownership_control (\<lambda>current.
          let state = control_state current in
          if state = OWNERSHIP_STATE_OFFLINE then Ret (OWNERSHIP_OFFLINE, operation)
          else if state = OWNERSHIP_STATE_UNINITIALIZED
               then Ret (OWNERSHIP_INVALID_STATE, operation)
          else if (state \<noteq> AIRDAP_DAP_OWNER_NONE \<and> state \<noteq> owner) \<or> control_active current
               then Ret (OWNERSHIP_BUSY, operation)
          else cas_strong Ownership_control current (current OR OWNERSHIP_CONTROL_ACTIVE)
            (\<lambda>(ok, observed).
              if \<not> ok then Ret (OWNERSHIP_BUSY, operation)
              else Ret (OWNERSHIP_OK,
                     Some \<lparr>op_owner = state, op_generation = control_generation current,
                           op_active = True\<rparr>))))"

definition operation_control :: "airdap_dap_ownership_operation \<Rightarrow> u32" where
  "operation_control op =
     make_control (op_generation op) (op_owner op) OR OWNERSHIP_CONTROL_ACTIVE"

definition airdap_dap_ownership_operation_end ::
  "airdap_dap_ownership_operation option \<Rightarrow> airdap_dap_ownership_operation option prog"
where
  "airdap_dap_ownership_operation_end operation =
     (case operation of None \<Rightarrow> Ret operation
      | Some op \<Rightarrow>
        if \<not> op_active op then Ret operation
        else let expected = operation_control op in
          cas_strong Ownership_control expected (expected AND NOT OWNERSHIP_CONTROL_ACTIVE)
            (\<lambda>_. Ret (Some zero_operation)))"

definition revoke_observed :: "u32 \<Rightarrow> airdap_dap_ownership_result" where
  "revoke_observed current =
     (let observed_state = control_state current in
      if observed_state = AIRDAP_DAP_OWNER_NONE then OWNERSHIP_OK
      else if observed_state = OWNERSHIP_STATE_OFFLINE then OWNERSHIP_OFFLINE
      else if observed_state = OWNERSHIP_STATE_UNINITIALIZED then OWNERSHIP_INVALID_STATE
      else OWNERSHIP_BUSY)"

definition airdap_dap_ownership_revoke :: "airdap_dap_ownership_result prog" where
  "airdap_dap_ownership_revoke =
     Load Ownership_control (\<lambda>current.
       let state = control_state current in
       if state = AIRDAP_DAP_OWNER_NONE \<and> \<not> control_active current then Ret OWNERSHIP_OK
       else if state = OWNERSHIP_STATE_OFFLINE then Ret OWNERSHIP_OFFLINE
       else if state = OWNERSHIP_STATE_UNINITIALIZED then Ret OWNERSHIP_INVALID_STATE
       else if \<not> is_owner state \<or> control_active current then Ret OWNERSHIP_BUSY
       else let generation = control_generation current in
         cas_strong Ownership_control current (make_control generation OWNERSHIP_STATE_TRANSITION)
           (\<lambda>(ok, observed). if \<not> ok then Ret (revoke_observed observed)
                             else release_pins generation AIRDAP_DAP_OWNER_NONE))"

definition revoke_owner_observed :: "u32 \<Rightarrow> u32 \<Rightarrow> airdap_dap_ownership_result" where
  "revoke_owner_observed owner current =
     (let observed_state = control_state current in
      if observed_state = OWNERSHIP_STATE_OFFLINE then OWNERSHIP_OFFLINE
      else if observed_state = OWNERSHIP_STATE_UNINITIALIZED then OWNERSHIP_INVALID_STATE
      else if observed_state = owner \<or> observed_state = OWNERSHIP_STATE_TRANSITION \<or>
              observed_state = OWNERSHIP_STATE_SUSPENDED then OWNERSHIP_BUSY
      else OWNERSHIP_NOT_OWNER)"

definition airdap_dap_ownership_revoke_owner :: "u32 \<Rightarrow> airdap_dap_ownership_result prog" where
  "airdap_dap_ownership_revoke_owner owner =
     (if \<not> is_owner owner then Ret OWNERSHIP_INVALID_ARGUMENT
      else Load Ownership_control (\<lambda>current.
        let state = control_state current in
        if state = OWNERSHIP_STATE_OFFLINE then Ret OWNERSHIP_OFFLINE
        else if state = OWNERSHIP_STATE_UNINITIALIZED then Ret OWNERSHIP_INVALID_STATE
        else if state = OWNERSHIP_STATE_TRANSITION \<or> state = OWNERSHIP_STATE_SUSPENDED
             then Ret OWNERSHIP_BUSY
        else if state \<noteq> owner then Ret OWNERSHIP_NOT_OWNER
        else if control_active current then Ret OWNERSHIP_BUSY
        else let generation = control_generation current in
          cas_strong Ownership_control current (make_control generation OWNERSHIP_STATE_TRANSITION)
            (\<lambda>(ok, observed). if \<not> ok then Ret (revoke_owner_observed owner observed)
                              else release_pins generation AIRDAP_DAP_OWNER_NONE)))"

text \<open>The two retry loops; the fuel bounds the compare-exchanges a call may issue.\<close>

fun suspend_loop :: "nat \<Rightarrow> u32 \<Rightarrow> airdap_dap_ownership_result prog" where
  "suspend_loop 0 current = Spin"
| "suspend_loop (Suc fuel) current =
     (let state = control_state current in
      if state = OWNERSHIP_STATE_SUSPENDED then Ret OWNERSHIP_OK
      else if state = OWNERSHIP_STATE_OFFLINE then Ret OWNERSHIP_OFFLINE
      else if state = OWNERSHIP_STATE_UNINITIALIZED then Ret OWNERSHIP_INVALID_STATE
      else if state = OWNERSHIP_STATE_TRANSITION \<or> control_active current then Ret OWNERSHIP_BUSY
      else let generation = control_generation current in
      if state = AIRDAP_DAP_OWNER_NONE
      then cas_weak Ownership_control current (make_control generation OWNERSHIP_STATE_SUSPENDED)
             (\<lambda>(ok, observed). if ok then Ret OWNERSHIP_OK else suspend_loop fuel observed)
      else if \<not> is_owner state then Ret OWNERSHIP_BUSY
      else cas_weak Ownership_control current (make_control generation OWNERSHIP_STATE_TRANSITION)
             (\<lambda>(ok, observed). if \<not> ok then suspend_loop fuel observed
                               else release_pins generation OWNERSHIP_STATE_SUSPENDED))"

definition airdap_dap_ownership_suspend :: "nat \<Rightarrow> airdap_dap_ownership_result prog" where
  "airdap_dap_ownership_suspend fuel = Load Ownership_control (\<lambda>current. suspend_loop fuel current)"

fun resume_loop :: "nat \<Rightarrow> u32 \<Rightarrow> airdap_dap_ownership_result prog" where
  "resume_loop 0 current = Spin"
| "resume_loop (Suc fuel) current =
     (let state = control_state current in
      if state = AIRDAP_DAP_OWNER_NONE then Ret OWNERSHIP_OK
      else if state = OWNERSHIP_STATE_OFFLINE then Ret OWNERSHIP_OFFLINE
      else if state = OWNERSHIP_STATE_UNINITIALIZED then Ret OWNERSHIP_INVALID_STATE
      else if state \<noteq> OWNERSHIP_STATE_SUSPENDED then Ret OWNERSHIP_BUSY
      else let generation = control_generation current in
        cas_weak Ownership_control current (make_control generation AIRDAP_DAP_OWNER_NONE)
          (\<lambda>(ok, observed). if ok then Ret OWNERSHIP_OK else resume_loop fuel observed))"

definition airdap_dap_ownership_resume :: "nat \<Rightarrow> airdap_dap_ownership_result prog" where
  "airdap_dap_ownership_resume fuel = Load Ownership_control (\<lambda>current. resume_loop fuel current)"

section \<open>Decoding the control word\<close>

lemma is_owner_iff: "is_owner st \<longleftrightarrow> st = 1 \<or> st = 2 \<or> st = 3"
proof -
  have "1 \<le> st \<and> st \<le> 3 \<Longrightarrow> st = 1 \<or> st = 2 \<or> st = 3"
    by (auto simp: word_le_nat_alt word_unat_eq_iff)
  then show ?thesis by (auto simp: is_owner_def)
qed

lemma bit_state_mask: "bit (7::u32) n \<longleftrightarrow> n < 3"
  by (rule bit_of_mask) (simp_all add: mask_eq_exp_minus_1)

lemma bit_active: "bit (8::u32) n \<longleftrightarrow> n = 3"
  by (rule bit_of_flag) simp_all

text \<open>How the fields of the word decode what \<open>make_control\<close> and the active bit encode.\<close>

lemmas control_bits = bit_and_iff bit_or_iff bit_not_iff bit_push_bit_iff bit_drop_bit_eq o_def
  bit_state_mask bit_active

lemma control_active_bit: "control_active w \<longleftrightarrow> bit w 3"
proof -
  have "bit (w AND 8) n \<longleftrightarrow> n = 3 \<and> bit w 3" for n by (auto simp only: control_bits)
  then show ?thesis unfolding control_active_def by (metis bit_0_eq bot_apply bit_eqI bot_bool_def)
qed

lemma state_lt_8: "st AND 7 = st \<Longrightarrow> bit (st::u32) n \<Longrightarrow> n < 3"
  by (metis bit_state_mask bit_and_iff)

lemma gen_le_max:
  assumes "g \<le> 0x0FFFFFFF" "bit (g::u32) n" shows "n < 28"
proof -
  have "unat g < 2 ^ 28" using assms(1) by (simp add: word_le_nat_alt)
  moreover have "bit (unat g) n" using assms(2) by (simp add: bit_unsigned_iff bit_imp_le_length)
  then have "2 ^ n \<le> unat g" by (metis bit_iff_odd div_less even_zero not_less)
  ultimately have "2 ^ n < (2 ^ 28 :: nat)" by linarith
  then show ?thesis by (rule power_less_imp_less_exp [rotated]) simp
qed

lemma control_state_eqI: "(\<And>n. n < 3 \<Longrightarrow> bit v n \<longleftrightarrow> bit w n) \<Longrightarrow> control_state v = control_state w"
  unfolding control_state_def by (rule bit_word_eqI) (auto simp only: control_bits)

lemma make_control_state: "st AND 7 = st \<Longrightarrow> control_state (make_control g st) = st"
  unfolding control_state_def make_control_def
  by (rule bit_word_eqI) (auto simp only: control_bits dest: state_lt_8)

lemma make_control_generation:
  "g \<le> 0x0FFFFFFF \<Longrightarrow> st AND 7 = st \<Longrightarrow> control_generation (make_control g st) = g"
  unfolding control_generation_def make_control_def
  by (rule bit_word_eqI) (auto simp: control_bits dest: gen_le_max state_lt_8)

lemma make_control_inactive: "st AND 7 = st \<Longrightarrow> \<not> control_active (make_control g st)"
  unfolding control_active_bit make_control_def by (auto simp: control_bits dest: state_lt_8)

lemma control_or_active:
  "control_state (w OR 8) = control_state w"
  "control_generation (w OR 8) = control_generation w"
  "control_active (w OR 8)"
  unfolding control_active_bit control_generation_def
  by (rule control_state_eqI bit_word_eqI | (auto simp only: control_bits; simp))+

lemma control_and_not_active:
  "control_state (w AND NOT 8) = control_state w"
  "control_generation (w AND NOT 8) = control_generation w"
  "\<not> control_active (w AND NOT 8)"
proof -
  have *: "bit (w AND NOT 8) n \<longleftrightarrow> bit w n \<and> n \<noteq> 3" for n
    by (auto simp only: control_bits possible_bit_word dest: bit_imp_le_length)
  then show "control_state (w AND NOT 8) = control_state w" by (intro control_state_eqI) auto
  show "control_generation (w AND NOT 8) = control_generation w"
    unfolding control_generation_def by (rule bit_word_eqI) (simp only: * bit_drop_bit_eq o_def, simp)
  show "\<not> control_active (w AND NOT 8)" by (simp only: control_active_bit * simp_thms)
qed

lemma control_generation_le: "control_generation w \<le> 0x0FFFFFFF"
proof -
  have "unat (drop_bit 4 w) = unat w div 2 ^ 4" by (metis drop_bit_eq_div unat_drop_bit_eq)
  moreover have "unat w < 2^32" using unsigned_less [of w, where ?'a = nat] by simp
  ultimately show ?thesis by (simp add: control_generation_def word_le_nat_alt)
qed

lemma control_state_mask: "control_state w AND 7 = control_state w"
  by (simp add: control_state_def and.assoc)

lemma control_state_cases:
  "control_state w \<in> {0, 1, 2, 3, 4, 5, 6, 7}"
proof -
  have "control_state w \<le> 7" unfolding control_state_def by (rule word_and_le1)
  then show ?thesis
    by (auto simp: word_le_nat_alt word_unat_eq_iff)
qed

lemma control_rebuild_bits:
  "bit (make_control (control_generation w) (control_state w)) n \<longleftrightarrow> n \<noteq> 3 \<and> bit w n"
  unfolding make_control_def control_generation_def control_state_def 
  by (cases "4 \<le> n") (auto simp only: control_bits possible_bit_word le_add_diff_inverse dest: bit_imp_le_length)

lemma control_rebuild:
  "make_control (control_generation w) (control_state w) OR 8 = w OR 8"
  "\<not> control_active w \<Longrightarrow> make_control (control_generation w) (control_state w) = w"
  unfolding control_active_bit
  by (rule bit_word_eqI; auto simp only: bit_or_iff bit_active control_rebuild_bits)+

lemmas control_simps = make_control_state make_control_generation make_control_inactive
  control_or_active control_and_not_active control_generation_le control_state_mask

section \<open>The arbiter as a state machine\<close>

text \<open>
  The abstract machine the control word implements: who holds the bus, whether an operation is
  running, and how many grants there have been. A grant is the only edge that makes an owner,
  and it takes a new generation; nothing leaves \<open>Offline\<close>.
\<close>

datatype phase = Uninitialized | Idle | Owned u32 | Operating u32 | Changing | Offline | Suspended

type_synonym arbiter = "phase \<times> nat"

definition phase_of :: "u32 \<Rightarrow> bool \<Rightarrow> phase" where
  "phase_of st active =
     (if st = 4 then Changing else if st = 5 then Offline else if st = 6 then Suspended
      else if st = 7 then Uninitialized else if active then Operating st
      else if st = 0 then Idle else Owned st)"

definition arbiter_of :: "u32 \<Rightarrow> arbiter" where
  "arbiter_of w = (phase_of (control_state w) (control_active w), unat (control_generation w))"

inductive arbiter_step :: "arbiter \<Rightarrow> arbiter \<Rightarrow> bool" where
  start: "arbiter_step (Uninitialized, g) (Changing, g)"
| claim: "arbiter_step (Idle, g) (Changing, g)"
| give_up: "is_owner ow \<Longrightarrow> arbiter_step (Owned ow, g) (Changing, g)"
| granted: "is_owner ow \<Longrightarrow> g < 2 ^ 28 - 1 \<Longrightarrow> arbiter_step (Changing, g) (Owned ow, Suc g)"
| released: "p \<in> {Idle, Suspended, Offline} \<Longrightarrow> arbiter_step (Changing, g) (p, g)"
| begin_idle: "arbiter_step (Idle, g) (Operating 0, g)"
| begin_owned: "is_owner ow \<Longrightarrow> arbiter_step (Owned ow, g) (Operating ow, g)"
| end_idle: "arbiter_step (Operating 0, g) (Idle, g)"
| end_owned: "is_owner ow \<Longrightarrow> arbiter_step (Operating ow, g) (Owned ow, g)"
| suspend: "arbiter_step (Idle, g) (Suspended, g)"
| resume: "arbiter_step (Suspended, g) (Idle, g)"

section \<open>The discipline of the arbiter's programs\<close>

text \<open>
  A ghost token per task says what it may do: with \<open>Trans g\<close> the task has moved the word to
  TRANSITION at generation \<open>g\<close> and owes the store that leaves it; with \<open>Active w\<close> it has set the
  active bit of the word \<open>w\<close> and owes the compare-exchange that clears it. \<open>obeys p t Q\<close> says that
  program \<open>p\<close>, started with token \<open>t\<close>, writes the word only as its token allows, touches the pins
  only with a token, and returns with a value and token satisfying \<open>Q\<close>, whatever it reads.
\<close>

datatype tok = Free | Trans u32 | Active u32

definition quiescent :: "u32 \<Rightarrow> bool" where
  "quiescent w \<longleftrightarrow> control_state w \<noteq> 4 \<and> \<not> control_active w"

definition store_ok :: "u32 \<Rightarrow> u32 \<Rightarrow> bool" where
  "store_ok g x \<longleftrightarrow> (\<exists>st\<in>{0, 5, 6}. x = make_control g st) \<or>
     (g < 0x0FFFFFFF \<and> (\<exists>ow. is_owner ow \<and> x = make_control (g + 1) ow))"

definition cas_next :: "u32 \<Rightarrow> u32 \<Rightarrow> tok \<Rightarrow> bool" where
  "cas_next e d t \<longleftrightarrow>
     (\<not> control_active e \<and> control_state e \<in> {0, 1, 2, 3, 7} \<and>
      t = Trans (control_generation e) \<and> d = make_control (control_generation e) 4) \<or>
     (\<not> control_active e \<and> control_state e \<in> {0, 1, 2, 3} \<and> t = Active d \<and> d = e OR 8) \<or>
     (\<not> control_active e \<and> control_state e = 0 \<and> t = Free \<and>
      d = make_control (control_generation e) 6) \<or>
     (control_state e = 6 \<and> t = Free \<and> d = make_control (control_generation e) 0)"

primrec obeys :: "'a prog \<Rightarrow> tok \<Rightarrow> ('a \<Rightarrow> tok \<Rightarrow> bool) \<Rightarrow> bool" where
  "obeys (Ret a) t Q = Q a t"
| "obeys Spin t Q = True"
| "obeys (Load v k) t Q = (\<forall>x. obeys (k x) t Q)"
| "obeys (Store v x k) t Q =
     (if v = Ownership_control then \<exists>g. t = Trans g \<and> store_ok g x \<and> obeys k Free Q
      else obeys k t Q)"
| "obeys (Cas v w e d k) t Q =
     (if v = Ownership_control then
        (case t of
           Free \<Rightarrow> (\<forall>c. obeys (k (False, c)) Free Q) \<and>
                   (\<exists>t'. cas_next e d t' \<and> obeys (k (True, e)) t' Q)
         | Active c \<Rightarrow> \<not> w \<and> e = c \<and> d = c AND NOT 8 \<and> obeys (k (True, e)) Free Q
         | Trans g \<Rightarrow> False)
      else \<forall>r. obeys (k r) t Q)"
| "obeys (Fetch_add v x k) t Q = (v \<noteq> Ownership_control \<and> obeys k t Q)"
| "obeys (Line_reset k) t Q = ((\<exists>g. t = Trans g) \<and> (\<forall>b. obeys (k b) t Q))"
| "obeys (Release_pins k) t Q = ((\<exists>g. t = Trans g) \<and> (\<forall>b. obeys (k b) t Q))"
| "obeys (Bus k) t Q = ((\<exists>w. t = Active w) \<and> obeys k t Q)"
| "obeys (Nvs_load k) t Q = (\<forall>r. obeys (k r) t Q)"
| "obeys (Nvs_save x k) t Q = (\<forall>r. obeys (k r) t Q)"

lemma obeys_bindp: "obeys p t R \<Longrightarrow> (\<And>a t. R a t \<Longrightarrow> obeys (f a) t Q) \<Longrightarrow> obeys (bindp p f) t Q"
proof (induction p arbitrary: t)
  case (Cas v w e d k)
  then show ?case by (fastforce split: tok.splits)
qed auto

lemma obeys_mono: "obeys p t R \<Longrightarrow> (\<And>a t. R a t \<Longrightarrow> Q a t) \<Longrightarrow> obeys p t Q"
  using obeys_bindp [of p t R Ret Q] by auto

abbreviation returns_free :: "'a \<Rightarrow> tok \<Rightarrow> bool" where
  "returns_free \<equiv> \<lambda>a t. t = Free"

lemma store_ok_simps [simp]:
  "store_ok g (make_control g 0)" "store_ok g (make_control g 5)" "store_ok g (make_control g 6)"
  by (auto simp: store_ok_def)

lemma store_ok_grant:
  "is_owner ow \<Longrightarrow> g \<noteq> 0x0FFFFFFF \<Longrightarrow> g \<le> 0x0FFFFFFF \<Longrightarrow> store_ok g (make_control (g + 1) ow)"
  by (auto simp: store_ok_def)

lemma release_pins_obeys: "st \<in> {0, 6} \<Longrightarrow> obeys (release_pins g st) (Trans g) returns_free"
  by (auto simp: release_pins_def)

lemma obeys_transition:
  "control_state e \<in> {0, 1, 2, 3, 7} \<Longrightarrow> \<not> control_active e \<Longrightarrow> control_generation e = g \<Longrightarrow>
   (\<And>c. obeys (k (False, c)) Free Q) \<Longrightarrow> obeys (k (True, e)) (Trans g) Q \<Longrightarrow>
   obeys (Cas Ownership_control w e (make_control g 4) k) Free Q"
  by (auto simp: cas_next_def)

lemma obeys_activation:
  "control_state e \<in> {0, 1, 2, 3} \<Longrightarrow> \<not> control_active e \<Longrightarrow>
   (\<And>c. obeys (k (False, c)) Free Q) \<Longrightarrow> obeys (k (True, e)) (Active (e OR 8)) Q \<Longrightarrow>
   obeys (Cas Ownership_control w e (e OR 8) k) Free Q"
  by (auto simp: cas_next_def)

lemma obeys_suspension:
  "control_state e = 0 \<Longrightarrow> \<not> control_active e \<Longrightarrow>
   (\<And>c. obeys (k (False, c)) Free Q) \<Longrightarrow> obeys (k (True, e)) Free Q \<Longrightarrow>
   obeys (Cas Ownership_control w e (make_control (control_generation e) 6) k) Free Q"
  "control_state e = 6 \<Longrightarrow>
   (\<And>c. obeys (k (False, c)) Free Q) \<Longrightarrow> obeys (k (True, e)) Free Q \<Longrightarrow>
   obeys (Cas Ownership_control w e (make_control (control_generation e) 0) k) Free Q"
  by (auto simp: cas_next_def)

lemma obeys_deactivation:
  "obeys (k (True, c)) Free Q \<Longrightarrow>
   obeys (Cas Ownership_control False c (c AND - 9) k) (Active c) Q"
  by simp

lemmas obeys_cas = obeys_transition obeys_activation obeys_suspension obeys_deactivation

declare obeys.simps(5) [simp del]

lemma initialize_obeys: "obeys (airdap_dap_ownership_initialize b) Free returns_free"
proof -
  have "store_ok 0 0" using store_ok_simps(1) [of 0] by (simp add: make_control_def)
  then have "obeys (cas_strong Ownership_control 7 (make_control 0 4)
      (\<lambda>(ok, e). if \<not> ok then Ret OWNERSHIP_INVALID_STATE
                 else Store Ownership_control 0 (Ret OWNERSHIP_OK))) Free returns_free"
    by (intro obeys_transition)
      (auto simp: control_state_def control_active_def control_generation_def)
  then show ?thesis
    by (simp add: airdap_dap_ownership_initialize_def make_control_def)
qed

lemma acquire_transition_obeys:
  "is_owner ow \<Longrightarrow> g \<le> 0x0FFFFFFF \<Longrightarrow> obeys (acquire_transition ow g) (Trans g) returns_free"
  by (auto simp: acquire_transition_def Let_def store_ok_grant
      intro!: obeys_bindp [OF release_pins_obeys])

lemma acquire_obeys: "obeys (airdap_dap_ownership_acquire ow b) Free returns_free"
  by (auto simp: airdap_dap_ownership_acquire_def Let_def control_simps
      intro!: acquire_transition_obeys obeys_cas)

lemma claim_word:
  assumes "is_owner ow" "g \<le> 0x0FFFFFFF"
  shows "control_state (make_control g ow) = ow" "control_generation (make_control g ow) = g"
    "\<not> control_active (make_control g ow)" "ow \<in> {0, 1, 2, 3}"
proof -
  have "ow AND 7 = ow" using assms by (auto simp: is_owner_iff)
  then show "control_state (make_control g ow) = ow" "control_generation (make_control g ow) = g"
    "\<not> control_active (make_control g ow)" "ow \<in> {0, 1, 2, 3}"
    using assms by (auto simp: control_simps is_owner_iff)
qed

lemma release_obeys: "obeys (airdap_dap_ownership_release c) Free returns_free"
  by (auto simp: airdap_dap_ownership_release_def valid_claim_def claim_word
      split: option.splits
      intro!: release_pins_obeys obeys_cas) (auto simp: is_owner_iff)

lemma revoke_obeys: "obeys airdap_dap_ownership_revoke Free returns_free"
  by (auto simp: airdap_dap_ownership_revoke_def Let_def control_simps is_owner_iff
      intro!: release_pins_obeys obeys_cas)

lemma revoke_owner_obeys: "obeys (airdap_dap_ownership_revoke_owner ow) Free returns_free"
  by (auto simp: airdap_dap_ownership_revoke_owner_def Let_def control_simps is_owner_iff
      intro!: release_pins_obeys obeys_cas)

lemma suspend_obeys: "obeys (airdap_dap_ownership_suspend n) Free returns_free"
proof -
  have "obeys (suspend_loop n c) Free returns_free" for c
  proof (induction n arbitrary: c)
    case (Suc n)
    then show ?case
      by (auto simp: Let_def is_owner_iff
        intro!: release_pins_obeys obeys_cas)
  qed simp
  then show ?thesis by (simp add: airdap_dap_ownership_suspend_def)
qed

lemma resume_obeys: "obeys (airdap_dap_ownership_resume n) Free returns_free"
proof -
  have "obeys (resume_loop n c) Free returns_free" for c
  proof (induction n arbitrary: c)
    case (Suc n)
    then show ?case
      by (auto simp: Let_def intro!: obeys_cas)
  qed simp
  then show ?thesis by (simp add: airdap_dap_ownership_resume_def)
qed

lemma current_obeys: "obeys airdap_dap_ownership_current Free returns_free"
  by (simp add: airdap_dap_ownership_current_def Let_def)

definition holds_operation :: "airdap_dap_ownership_operation option \<Rightarrow> tok \<Rightarrow> bool" where
  "holds_operation operation t \<longleftrightarrow>
     t = (case operation of None \<Rightarrow> Free
          | Some op \<Rightarrow> if op_active op then Active (operation_control op) else Free)"

lemma control_word_or_active:
  "control_state w = st \<Longrightarrow> make_control (control_generation w) st OR 8 = w OR 8"
  using control_rebuild(1) [of w] by simp

lemma operation_begin_obeys:
  "operation \<noteq> None \<Longrightarrow> \<not> op_active (the operation) \<Longrightarrow>
   obeys (airdap_dap_ownership_operation_begin c operation) Free
     (\<lambda>(r, op) t. holds_operation op t \<and> (r = OWNERSHIP_OK \<longleftrightarrow> t \<noteq> Free) \<and>
       r \<noteq> OWNERSHIP_ALREADY_OWNER)"
  by (auto simp: airdap_dap_ownership_operation_begin_def holds_operation_def Let_def valid_claim_def
      claim_word operation_control_def
      intro!: obeys_cas
      split: option.splits)
    (auto simp: is_owner_iff claim_failure_result_def Let_def split: if_splits)

lemma control_begin_obeys:
  "operation \<noteq> None \<Longrightarrow> \<not> op_active (the operation) \<Longrightarrow>
   obeys (airdap_dap_ownership_control_begin ow operation) Free
     (\<lambda>(r, op) t. holds_operation op t \<and> (r = OWNERSHIP_OK \<longleftrightarrow> t \<noteq> Free) \<and>
       r \<noteq> OWNERSHIP_ALREADY_OWNER)"
  by (auto simp: airdap_dap_ownership_control_begin_def holds_operation_def Let_def is_owner_iff
      operation_control_def control_word_or_active
      intro!: obeys_cas
      split: option.splits)

lemma operation_end_obeys:
  "holds_operation operation t \<Longrightarrow>
   obeys (airdap_dap_ownership_operation_end operation) t returns_free"
  by (auto simp: airdap_dap_ownership_operation_end_def holds_operation_def Let_def
      intro!: obeys_cas split: option.splits)

section \<open>Invariant of any interleaving\<close>

text \<open>What the token of a task says of the control word.\<close>

fun tok_ok :: "tok \<Rightarrow> u32 \<Rightarrow> bool" where
  "tok_ok Free c = True"
| "tok_ok (Trans g) c = (g \<le> 0x0FFFFFFF \<and> c = make_control g 4)"
| "tok_ok (Active w) c = (c = w \<and> control_active w \<and> control_state w \<in> {0, 1, 2, 3})"

definition disciplined :: "tasks \<Rightarrow> (nat \<Rightarrow> tok) \<Rightarrow> u32 \<Rightarrow> bool" where
  "disciplined ts tk c \<longleftrightarrow>
     (\<forall>i. obeys (ts i) (tk i) returns_free \<and> tok_ok (tk i) c) \<and>
     (\<forall>i j. tk i \<noteq> Free \<longrightarrow> tk j \<noteq> Free \<longrightarrow> i = j) \<and>
     ((\<forall>i. tk i = Free) \<longrightarrow> quiescent c)"

definition ownership_inv :: "tasks \<times> shared \<Rightarrow> bool" where
  "ownership_inv c \<longleftrightarrow> (\<exists>tk. disciplined (fst c) tk (snd c Ownership_control))"

text \<open>The changes of the control word and of a task's token that the discipline allows.\<close>

inductive edge :: "tok \<Rightarrow> u32 \<Rightarrow> tok \<Rightarrow> u32 \<Rightarrow> bool" where
  cas: "cas_next c d t \<Longrightarrow> edge Free c t d"
| store: "store_ok g x \<Longrightarrow> edge (Trans g) c Free x"
| deactivate: "edge (Active c) c Free (c AND - 9)"

lemma pstep_obeys:
  assumes "pstep p s q s'" "obeys p t Q" "tok_ok t (s Ownership_control)"
  shows "(obeys q t Q \<and> s' Ownership_control = s Ownership_control) \<or>
         (\<exists>t'. obeys q t' Q \<and> edge t (s Ownership_control) t' (s' Ownership_control))"
  using assms
proof (induction rule: pstep.induct)
  case (cas_ok s v e w d k)
  then show ?case
    by (cases t) (auto simp: obeys.simps(5) intro: edge.intros split: if_splits)
next
  case (cas_fail s v e w d k)
  then show ?case by (cases t) (auto simp: obeys.simps(5) split: if_splits)
next
  case (cas_spurious v e d k s)
  then show ?case by (cases t) (auto simp: obeys.simps(5) split: if_splits)
qed (auto intro: edge.intros split: if_splits)


lemma store_ok_word:
  assumes "store_ok g x" "g \<le> 0x0FFFFFFF"
  shows "quiescent x" "control_state x \<in> {0, 1, 2, 3, 5, 6}"
    "control_generation x = g \<and> \<not> is_owner (control_state x) \<or>
     g < 0x0FFFFFFF \<and> control_generation x = g + 1 \<and> is_owner (control_state x)"
proof -
  from assms(1) consider st where "st \<in> {0, 5, 6}" "x = make_control g st"
    | ow where "g < 0x0FFFFFFF" "is_owner ow" "x = make_control (g + 1) ow"
    by (auto simp: store_ok_def)
  then have "quiescent x \<and> control_state x \<in> {0, 1, 2, 3, 5, 6} \<and>
    (control_generation x = g \<and> \<not> is_owner (control_state x) \<or>
     g < 0x0FFFFFFF \<and> control_generation x = g + 1 \<and> is_owner (control_state x))"
  proof cases
    case 1
    then show ?thesis using assms(2) by (auto simp: quiescent_def control_simps is_owner_iff)
  next
    case 2
    then have "g + 1 \<le> 0x0FFFFFFF" by (rule_tac inc_le) simp
    then show ?thesis using 2 claim_word [of ow "g + 1"] by (auto simp: quiescent_def is_owner_iff)
  qed
  then show "quiescent x" "control_state x \<in> {0, 1, 2, 3, 5, 6}"
    "control_generation x = g \<and> \<not> is_owner (control_state x) \<or>
     g < 0x0FFFFFFF \<and> control_generation x = g + 1 \<and> is_owner (control_state x)" by blast+
qed

lemmas and_minus_9 = control_and_not_active [simplified]

lemma edge_tok_ok: "edge t c t' d \<Longrightarrow> tok_ok t c \<Longrightarrow> tok_ok t' d"
  by (induction rule: edge.induct) (auto simp: cas_next_def control_simps)

lemma edge_quiescent: "edge t c t' d \<Longrightarrow> tok_ok t c \<Longrightarrow> t' = Free \<Longrightarrow> quiescent d"
  by (induction rule: edge.induct)
    (auto simp: cas_next_def control_simps quiescent_def and_minus_9 store_ok_word
      dest: store_ok_word(1))

lemma edge_unique: "edge Free c t' d \<Longrightarrow> tok_ok u c \<Longrightarrow> u = Free"
  by (cases u) (auto simp: cas_next_def control_simps elim: edge.cases)

lemma disciplined_step:
  assumes D: "disciplined ts tk (s Ownership_control)" and P: "pstep (ts i) s q s'"
  shows "\<exists>tk'. disciplined (ts(i := q)) tk' (s' Ownership_control)"
proof -
  let ?c = "s Ownership_control"
  have O: "obeys (ts i) (tk i) returns_free" "tok_ok (tk i) ?c" using D by (auto simp: disciplined_def)
  from pstep_obeys [OF P O] show ?thesis
  proof (elim disjE exE conjE)
    assume "obeys q (tk i) returns_free" "s' Ownership_control = ?c"
    then have "disciplined (ts(i := q)) tk (s' Ownership_control)"
      using D by (simp add: disciplined_def)
    then show ?thesis by blast
  next
    fix t assume q: "obeys q t returns_free" and e: "edge (tk i) ?c t (s' Ownership_control)"
    have ob: "obeys (ts j) Free returns_free" if "j \<noteq> i" for j
      using D that e edge_unique by (metis disciplined_def)
    have others: "tk j = Free" if "j \<noteq> i" for j
      using D that e edge_unique by (metis disciplined_def)
    have "disciplined (ts(i := q)) (tk(i := t)) (s' Ownership_control)"
      using q ob others edge_tok_ok [OF e O(2)] edge_quiescent [OF e O(2)]
      by (auto simp: disciplined_def)
    then show ?thesis by blast
  qed
qed

definition client_set :: "unit prog set \<Rightarrow> bool" where
  "client_set C \<longleftrightarrow> (\<forall>p\<in>C. obeys p Free returns_free)"

lemma ownership_inv_step:
  assumes "client_set C" "ownership_inv c" "sys_step C c c'"
  shows "ownership_inv c'"
  using assms(3,1,2)
proof (induction rule: sys_step.induct)
  case (task ts i s q s')
  then show ?case using disciplined_step unfolding ownership_inv_def fst_conv snd_conv by blast
next
  case (start ts i p s)
  then obtain tk where D: "disciplined ts tk (s Ownership_control)" by (auto simp: ownership_inv_def)
  then have "tk i = Free" using start(1) by (auto simp: disciplined_def dest: spec [of _ i])
  then have "disciplined (ts(i := p)) tk (s Ownership_control)"
    using D start(2,3) by (auto simp: disciplined_def client_set_def)
  then show ?case by (auto simp: ownership_inv_def)
qed

lemma ownership_inv_steps: "sys_steps C c c' \<Longrightarrow> client_set C \<Longrightarrow> ownership_inv c \<Longrightarrow> ownership_inv c'"
  by (rule sys_steps_invariant) (auto intro: ownership_inv_step)

definition initial :: "tasks \<times> shared" where
  "initial = (\<lambda>_. Ret (), (\<lambda>_. 0)(Ownership_control := OWNERSHIP_STATE_UNINITIALIZED))"

lemma ownership_inv_initial: "ownership_inv initial"
  unfolding ownership_inv_def initial_def disciplined_def
  by (intro exI [of _ "\<lambda>_. Free"]) (simp add: quiescent_def control_state_def control_active_def)

text \<open>The edges are those of the abstract arbiter.\<close>

lemma phase_simps:
  "is_owner ow \<Longrightarrow> phase_of ow False = Owned ow"
  "is_owner ow \<Longrightarrow> phase_of ow True = Operating ow"
  "phase_of 0 False = Idle" "phase_of 0 True = Operating 0" "phase_of 4 b = Changing"
  "phase_of 5 b = Offline" "phase_of 6 b = Suspended" "phase_of 7 b = Uninitialized"
  by (auto simp: phase_of_def is_owner_iff)

lemma cas_arbiter_step:
  assumes "cas_next c d t"
  shows "arbiter_step (arbiter_of c) (arbiter_of d)"
proof -
  from assms consider
      "\<not> control_active c" "control_state c \<in> {0, 1, 2, 3, 7}" "d = make_control (control_generation c) 4"
    | "\<not> control_active c" "control_state c \<in> {0, 1, 2, 3}" "d = c OR 8"
    | "\<not> control_active c" "control_state c = 0" "d = make_control (control_generation c) 6"
    | "control_state c = 6" "d = make_control (control_generation c) 0"
    by (auto simp: cas_next_def)
  then show ?thesis
  proof cases
    case 1
    then show ?thesis
      by (auto simp: arbiter_of_def control_simps phase_simps phase_of_def is_owner_iff
          intro: arbiter_step.intros)
  next
    case 2
    then show ?thesis
      by (auto simp: arbiter_of_def control_simps phase_simps phase_of_def is_owner_iff
          intro: arbiter_step.intros)
  qed (auto simp: arbiter_of_def control_simps phase_simps intro: arbiter_step.intros)
qed

lemma store_arbiter_step:
  assumes "store_ok g x" "g \<le> 0x0FFFFFFF"
  shows "arbiter_step (arbiter_of (make_control g 4)) (arbiter_of x)"
proof -
  have q: "\<not> control_active x" using store_ok_word(1) [OF assms] by (simp add: quiescent_def)
  have c: "arbiter_of (make_control g 4) = (Changing, unat g)"
    using assms(2) by (simp add: arbiter_of_def control_simps phase_simps)
  from store_ok_word(3) [OF assms] show ?thesis
  proof (elim disjE conjE)
    assume "control_generation x = g" "\<not> is_owner (control_state x)"
    then show ?thesis using store_ok_word(2) [OF assms] c
      by (auto simp: arbiter_of_def is_owner_iff phase_of_def q intro!: arbiter_step.released)
  next
    assume "g < 0x0FFFFFFF" "control_generation x = g + 1" "is_owner (control_state x)"
    moreover from this have "unat (g + 1) = Suc (unat g)" "unat g < 2 ^ 28 - 1"
      by (auto simp: word_less_nat_alt unat_word_ariths)
    ultimately show ?thesis using c
      by (auto simp: arbiter_of_def phase_simps q intro!: arbiter_step.granted)
  qed
qed

lemma edge_arbiter_step: "edge t c t' d \<Longrightarrow> tok_ok t c \<Longrightarrow> arbiter_step (arbiter_of c) (arbiter_of d)"
proof (induction rule: edge.induct)
  case (deactivate c)
  then show ?case
    by (auto simp: arbiter_of_def and_minus_9 phase_of_def is_owner_iff intro: arbiter_step.intros)
qed (auto intro: cas_arbiter_step store_arbiter_step)

section \<open>Clients of the arbiter\<close>

fun bus_accesses :: "nat \<Rightarrow> 'a prog \<Rightarrow> 'a prog" where
  "bus_accesses 0 p = p"
| "bus_accesses (Suc n) p = Bus (bus_accesses n p)"

text \<open>
  How a task uses the bus: begin an operation, access the bus only when that succeeded, end it.
  The contract of a function that begins an operation is a locale, so that the rule for a
  session is proved once; the mode state wraps the two functions of the arbiter in two more.
\<close>

definition bus_session ::
  "'r \<Rightarrow> ('r \<times> airdap_dap_ownership_operation option) prog \<Rightarrow> nat \<Rightarrow> ('r \<Rightarrow> 'a prog) \<Rightarrow> 'a prog"
where
  "bus_session ok begin_op n f =
     bindp begin_op (\<lambda>(r, op). if r = ok
       then bus_accesses n (bindp (airdap_dap_ownership_operation_end op) (\<lambda>_. f r))
       else f r)"

definition begun :: "'r \<Rightarrow> 'r \<times> airdap_dap_ownership_operation option \<Rightarrow> tok \<Rightarrow> bool" where
  "begun ok a t \<longleftrightarrow> holds_operation (snd a) t \<and> (fst a = ok \<longleftrightarrow> t \<noteq> Free)"

lemma bus_accesses_obeys: "obeys p (Active w) Q \<Longrightarrow> obeys (bus_accesses n p) (Active w) Q"
  by (induction n) auto

locale bus_operation =
  fixes begin_op :: "airdap_dap_ownership_operation option \<Rightarrow>
      ('r \<times> airdap_dap_ownership_operation option) prog"
    and ok :: 'r
  assumes begin_obeys: "\<not> op_active op \<Longrightarrow> obeys (begin_op (Some op)) Free (begun ok)"
begin

lemma body_obeys:
  assumes "begun ok (r, op) t" "obeys q Free Q"
  shows "obeys (if r = ok
     then bus_accesses n (bindp (airdap_dap_ownership_operation_end op) (\<lambda>_. q)) else q) t Q"
proof (cases "t = Free")
  case False
  then obtain w where t: "t = Active w" using assms(1)
    by (auto simp: begun_def holds_operation_def split: option.splits if_splits)
  then have "obeys (bindp (airdap_dap_ownership_operation_end op) (\<lambda>_. q)) t Q"
    using assms by (intro obeys_bindp [OF operation_end_obeys]) (auto simp: begun_def)
  then show ?thesis using assms(1) False t by (simp add: bus_accesses_obeys begun_def)
qed (use assms in \<open>auto simp: begun_def\<close>)

lemma session_obeys:
  assumes "\<And>r. obeys (f r) Free Q"
  shows "obeys (bus_session ok (begin_op (Some zero_operation)) n f) Free Q"
  unfolding bus_session_def
proof (rule obeys_bindp [OF begin_obeys])
  fix a t assume "begun ok a t"
  then show "obeys (case a of (r, op) \<Rightarrow> if r = ok
       then bus_accesses n (bindp (airdap_dap_ownership_operation_end op) (\<lambda>_. f r))
       else f r) t Q"
    using body_obeys [of "fst a" "snd a" t "f (fst a)" Q n] assms
    by (cases a) (simp only: prod.case fst_conv snd_conv)
qed (simp add: zero_operation_def)

end

interpretation op_begin: bus_operation "airdap_dap_ownership_operation_begin c" OWNERSHIP_OK for c
  by unfold_locales
    (rule obeys_mono [OF operation_begin_obeys]; auto simp: begun_def)

interpretation control_op: bus_operation "airdap_dap_ownership_control_begin ow" OWNERSHIP_OK for ow
  by unfold_locales
    (rule obeys_mono [OF control_begin_obeys]; auto simp: begun_def)

text \<open>The programs of the arbiter's clients: any sequence of calls, and sessions on the bus.\<close>

inductive_set clients :: "unit prog set" where
  finished: "Ret () \<in> clients"
| initialize: "(\<And>r. f r \<in> clients) \<Longrightarrow> bindp (airdap_dap_ownership_initialize b) f \<in> clients"
| current: "(\<And>r. f r \<in> clients) \<Longrightarrow> bindp airdap_dap_ownership_current f \<in> clients"
| acquire: "(\<And>r. f r \<in> clients) \<Longrightarrow> bindp (airdap_dap_ownership_acquire ow b) f \<in> clients"
| release: "(\<And>r. f r \<in> clients) \<Longrightarrow> bindp (airdap_dap_ownership_release c) f \<in> clients"
| revoke: "(\<And>r. f r \<in> clients) \<Longrightarrow> bindp airdap_dap_ownership_revoke f \<in> clients"
| revoke_owner: "(\<And>r. f r \<in> clients) \<Longrightarrow> bindp (airdap_dap_ownership_revoke_owner ow) f \<in> clients"
| suspend: "(\<And>r. f r \<in> clients) \<Longrightarrow> bindp (airdap_dap_ownership_suspend n) f \<in> clients"
| resume: "(\<And>r. f r \<in> clients) \<Longrightarrow> bindp (airdap_dap_ownership_resume n) f \<in> clients"
| operation: "(\<And>r. f r \<in> clients) \<Longrightarrow>
    bus_session OWNERSHIP_OK (airdap_dap_ownership_operation_begin c (Some zero_operation)) n f \<in> clients"
| control: "(\<And>r. f r \<in> clients) \<Longrightarrow>
    bus_session OWNERSHIP_OK (airdap_dap_ownership_control_begin ow (Some zero_operation)) n f \<in> clients"

lemma clients_obey: "client_set clients"
  unfolding client_set_def
proof
  fix p assume "p \<in> clients"
  then show "obeys p Free returns_free"
    by induction (auto intro: obeys_bindp initialize_obeys current_obeys acquire_obeys release_obeys
      revoke_obeys revoke_owner_obeys suspend_obeys resume_obeys op_begin.session_obeys
      control_op.session_obeys)
qed


section \<open>Theorems on the arbiter\<close>

text \<open>The owner an arbiter state belongs to, and how states may follow one another.\<close>

definition holder :: "u32 \<Rightarrow> u32 option" where
  "holder w = (if is_owner (control_state w) then Some (control_state w) else None)"

definition later :: "u32 \<Rightarrow> u32 \<Rightarrow> bool" where
  "later c d \<longleftrightarrow>
     (control_state c = OWNERSHIP_STATE_OFFLINE \<longrightarrow> d = c) \<and>
     (control_generation c < control_generation d \<or>
      control_generation c = control_generation d \<and> (holder d = None \<or> holder d = holder c))"

lemma later_refl [simp]: "later c c"
  by (simp add: later_def)

lemma later_trans: "later b c \<Longrightarrow> later c d \<Longrightarrow> later b d"
  by (auto simp: later_def)

lemma edge_later:
  assumes "edge t c t' d" "tok_ok t c"
  shows "later c d"
  using assms
proof (induction rule: edge.induct)
  case (cas c d t)
  then show ?case
    by (auto simp: later_def cas_next_def holder_def control_simps is_owner_iff)
next
  case (store g x c)
  then have g: "g \<le> 0x0FFFFFFF" and c: "c = make_control g 4" by auto
  from store_ok_word(3) [OF store(1) g] show ?case
    using g by (auto simp: later_def c holder_def control_simps word_less_nat_alt unat_word_ariths)
next
  case (deactivate c)
  then show ?case by (auto simp: later_def holder_def and_minus_9)
qed

lemma sys_step_word:
  assumes "client_set C" "ownership_inv (ts, s)" "sys_step C (ts, s) (ts', s')"
  shows "s' Ownership_control = s Ownership_control \<or>
    (\<exists>t t'. tok_ok t (s Ownership_control) \<and> edge t (s Ownership_control) t' (s' Ownership_control))"
proof -
  obtain tk where D: "disciplined ts tk (s Ownership_control)"
    using assms(2) by (auto simp: ownership_inv_def)
  from assms(3) consider "s' = s" | i q where "pstep (ts i) s q s'"
    by (elim sys_stepE) auto
  then show ?thesis
  proof cases
    case 2
    have "obeys (ts i) (tk i) returns_free" "tok_ok (tk i) (s Ownership_control)"
      using D by (auto simp: disciplined_def)
    then show ?thesis using pstep_obeys [OF 2] by blast
  qed simp
qed

lemma sys_steps_later:
  assumes "sys_steps C c c'" "client_set C" "ownership_inv c"
  shows "later (snd c Ownership_control) (snd c' Ownership_control)"
  using assms
proof (induction rule: sys_steps.induct)
  case (step c c' c'')
  obtain ts s ts' s' where c: "c' = (ts, s)" "c'' = (ts', s')" by (cases c', cases c'')
  have "ownership_inv (ts, s)" using step ownership_inv_steps c by blast
  then have "later (s Ownership_control) (s' Ownership_control)"
    using sys_step_word [of C ts s ts' s'] step c edge_later by force
  then show ?case using step c later_trans by fastforce
qed simp

lemma drives_token: "drives p \<Longrightarrow> obeys p t Q \<Longrightarrow> t \<noteq> Free"
  by (cases p) auto

lemma reachable_inv: "sys_steps clients initial c \<Longrightarrow> ownership_inv c"
  using ownership_inv_steps clients_obey ownership_inv_initial by blast

lemma drives_exclusive:
  assumes "ownership_inv (ts, s)" "drives (ts i)" "drives (ts j)"
  shows "i = j"
proof -
  obtain tk where D: "disciplined ts tk (s Ownership_control)"
    using assms(1) by (auto simp: ownership_inv_def)
  then have "tk i \<noteq> Free" "tk j \<noteq> Free"
    using assms(2,3) drives_token unfolding disciplined_def by blast+
  then show ?thesis using D by (auto simp: disciplined_def)
qed

text \<open>C1. At most one task at a time is driving the debug pins of the target (a line reset, a release of the pins or a bus access inside an operation), in every interleaving of any number of tasks that use the ownership arbiter, spurious compare-exchange failures and backend failures included.\<close>

theorem ownership_mutual_exclusion:
  assumes "sys_steps clients initial (ts, s)" "drives (ts i)" "drives (ts j)"
  shows "i = j"
  using drives_exclusive [OF reachable_inv [OF assms(1)] assms(2,3)] .

text \<open>C4. Every step of any interleaving of client tasks either leaves the control word of the ownership arbiter as the abstract machine sees it, or performs one edge of that machine: owners change only through TRANSITION, a grant takes the next generation, and operations begin and end only on an idle or owned bus.\<close>

theorem ownership_refines_arbiter:
  assumes "sys_steps clients initial (ts, s)" "sys_step clients (ts, s) (ts', s')"
  shows "arbiter_of (s' Ownership_control) = arbiter_of (s Ownership_control) \<or>
    arbiter_step (arbiter_of (s Ownership_control)) (arbiter_of (s' Ownership_control))"
  using sys_step_word [OF clients_obey reachable_inv [OF assms(1)] assms(2)] edge_arbiter_step
  by auto

lemma claim_failure_not_ok: "claim_failure_result w c \<noteq> OWNERSHIP_OK"
  by (auto simp: claim_failure_result_def Let_def)

text \<open>C21. A claim that the arbiter has moved past stays dead: once the control word has reached the generation of a claim and does not carry it, then after any further steps of any tasks an operation_begin or a release with that claim fails and changes nothing.\<close>

theorem stale_claim_never_valid:
  assumes "sys_steps clients initial (ts, s)" "sys_steps clients (ts, s) (ts', s')"
    "valid_claim (Some c)" "claim_generation c \<le> control_generation (s Ownership_control)"
    "(control_state (s Ownership_control), control_generation (s Ownership_control)) \<noteq>
     (claim_owner c, claim_generation c)"
  shows "(\<exists>r. r \<noteq> OWNERSHIP_OK \<and>
      run E (airdap_dap_ownership_operation_begin (Some c) (Some zero_operation)) s' h =
        Some ((r, Some zero_operation), s', h)) \<and>
    (\<exists>r. r \<noteq> OWNERSHIP_OK \<and>
      run E (airdap_dap_ownership_release (Some c)) s' h = Some (r, s', h))"
proof -
  have v: "is_owner (claim_owner c)" "claim_generation c \<le> 0x0FFFFFFF"
    using assms(3) by (auto simp: valid_claim_def)
  have l: "later (s Ownership_control) (s' Ownership_control)"
    using sys_steps_later [OF assms(2) clients_obey reachable_inv [OF assms(1)]] by simp
  have "s' Ownership_control \<noteq> make_control (claim_generation c) (claim_owner c)"
    using l assms(4,5) v(1) claim_word [OF v] by (auto simp: later_def holder_def split: if_splits)
  then show ?thesis using assms(3)
    by (simp add: airdap_dap_ownership_operation_begin_def airdap_dap_ownership_release_def
        zero_operation_def claim_failure_not_ok Let_def)
qed

text \<open>No interleaving leaves the bus locked: whenever all tasks have returned from their calls, the control word is not in TRANSITION and no operation is marked active.\<close>

theorem idle_system_unlocked:
  assumes "sys_steps clients initial (ts, s)" "\<forall>i. ts i = Ret ()"
  shows "control_state (s Ownership_control) \<noteq> OWNERSHIP_STATE_TRANSITION \<and>
     \<not> control_active (s Ownership_control)"
proof -
  obtain tk where D: "disciplined ts tk (s Ownership_control)"
    using reachable_inv [OF assms(1)] by (auto simp: ownership_inv_def)
  then have "tk i = Free" for i using assms(2) by (auto simp: disciplined_def dest: spec [of _ i])
  then show ?thesis using D by (auto simp: disciplined_def quiescent_def)
qed

text \<open>OFFLINE is permanent: after a failed release of the pins (or generation overflow) took the arbiter offline, no call of any task changes the control word again.\<close>

theorem offline_permanent:
  assumes "sys_steps clients initial (ts, s)" "sys_steps clients (ts, s) (ts', s')"
    "control_state (s Ownership_control) = OWNERSHIP_STATE_OFFLINE"
  shows "s' Ownership_control = s Ownership_control"
  using sys_steps_later [OF assms(2) clients_obey reachable_inv [OF assms(1)]] assms(3)
  by (simp add: later_def)

section \<open>Sequential behaviour\<close>

text \<open>On an idle bus below the last generation, with a working backend, acquire grants a claim with the next generation; every other owner then gets BUSY, the same owner gets ALREADY_OWNER with the same claim, and release with the claim returns the bus to idle at the new generation.\<close>

theorem acquire_release_cycle:
  assumes "s Ownership_control = make_control g AIRDAP_DAP_OWNER_NONE"
    "g < OWNERSHIP_CONTROL_GENERATION_MAX" "is_owner ow"
    "env_line_reset E h = (True, h1)" "env_release_pins E h1 = (True, h2)"
  defines "c \<equiv> \<lparr>claim_owner = ow, claim_generation = g + 1\<rparr>"
  shows "\<exists>s1. run E (airdap_dap_ownership_acquire ow True) s h = Some ((OWNERSHIP_OK, Some c), s1, h1) \<and>
    (\<forall>other. is_owner other \<and> other \<noteq> ow \<longrightarrow>
       run E (airdap_dap_ownership_acquire other True) s1 h1 =
         Some ((OWNERSHIP_BUSY, Some zero_claim), s1, h1)) \<and>
    run E (airdap_dap_ownership_acquire ow True) s1 h1 =
      Some ((OWNERSHIP_ALREADY_OWNER, Some c), s1, h1) \<and>
    run E (airdap_dap_ownership_release (Some c)) s1 h1 =
      Some (OWNERSHIP_OK, s(Ownership_control := make_control (g + 1) AIRDAP_DAP_OWNER_NONE), h2)"
proof -
  have g: "g + 1 \<le> 0x0FFFFFFF" "g \<le> 0x0FFFFFFF" "g \<noteq> 0x0FFFFFFF" using assms(2) by (auto intro: inc_le)
  have g0: "0 < g + 1" using assms(2) by (auto simp: word_less_nat_alt unat_word_ariths)
  have ow: "ow \<in> {1, 2, 3}" "ow \<noteq> 0" using assms(3) by (auto simp: is_owner_iff)
  have w: "control_state (s Ownership_control) = 0" "\<not> control_active (s Ownership_control)"
    "control_generation (s Ownership_control) = g"
    using assms(1) g by (simp_all add: control_simps)
  note w1 = claim_word [OF assms(3) g(1)]
  let ?s1 = "s(Ownership_control := make_control (g + 1) ow)"
  have 1: "run E (airdap_dap_ownership_acquire ow True) s h = Some ((OWNERSHIP_OK, Some c), ?s1, h1)"
    using assms ow w g
    by (simp add: airdap_dap_ownership_acquire_def acquire_transition_def Let_def)
  have 2: "run E (airdap_dap_ownership_acquire other True) ?s1 h1 =
         Some ((OWNERSHIP_BUSY, Some zero_claim), ?s1, h1)" if "is_owner other" "other \<noteq> ow" for other
    using that ow w1
    by (auto simp add: airdap_dap_ownership_acquire_def Let_def)
  have 3: "run E (airdap_dap_ownership_acquire ow True) ?s1 h1 =
      Some ((OWNERSHIP_ALREADY_OWNER, Some c), ?s1, h1)"
    using assms(3) w1 by (simp add: airdap_dap_ownership_acquire_def Let_def c_def)
  have 4: "run E (airdap_dap_ownership_release (Some c)) ?s1 h1 =
      Some (OWNERSHIP_OK, s(Ownership_control := make_control (g + 1) AIRDAP_DAP_OWNER_NONE), h2)"
    using assms(3,5) g g0
    by (simp add: airdap_dap_ownership_release_def valid_claim_def c_def release_pins_def)
  show ?thesis using 1 2 3 4 by blast
qed

section \<open>Effects on the other variables and sequential runs\<close>

lemma ownership_writes:
  assumes "u \<noteq> Ownership_control"
  shows "writes_ok u I (airdap_dap_ownership_initialize b) (\<lambda>_. True)"
    "writes_ok u I airdap_dap_ownership_current (\<lambda>_. True)"
    "writes_ok u I (airdap_dap_ownership_acquire ow b) (\<lambda>_. True)"
    "writes_ok u I (airdap_dap_ownership_release c) (\<lambda>_. True)"
    "writes_ok u I airdap_dap_ownership_revoke (\<lambda>_. True)"
    "writes_ok u I (airdap_dap_ownership_revoke_owner ow) (\<lambda>_. True)"
    "writes_ok u I (airdap_dap_ownership_operation_begin c op) (\<lambda>_. True)"
    "writes_ok u I (airdap_dap_ownership_control_begin ow op) (\<lambda>_. True)"
    "writes_ok u I (airdap_dap_ownership_operation_end op) (\<lambda>_. True)"
  using assms
  by (auto simp: airdap_dap_ownership_initialize_def airdap_dap_ownership_current_def
    airdap_dap_ownership_acquire_def acquire_transition_def release_pins_def airdap_dap_ownership_release_def
    airdap_dap_ownership_revoke_def airdap_dap_ownership_revoke_owner_def
    airdap_dap_ownership_operation_begin_def airdap_dap_ownership_control_begin_def
    airdap_dap_ownership_operation_end_def Let_def split: option.split prod.split)

lemma suspend_writes:
  assumes "u \<noteq> Ownership_control"
  shows "writes_ok u I (airdap_dap_ownership_suspend n) (\<lambda>_. True)"
    "writes_ok u I (airdap_dap_ownership_resume n) (\<lambda>_. True)"
proof -
  have "writes_ok u I (suspend_loop n c) (\<lambda>_. True)" "writes_ok u I (resume_loop n c) (\<lambda>_. True)" for c
    by (induction n arbitrary: c) (use assms in \<open>auto simp: Let_def release_pins_def\<close>)
  then show "writes_ok u I (airdap_dap_ownership_suspend n) (\<lambda>_. True)"
    "writes_ok u I (airdap_dap_ownership_resume n) (\<lambda>_. True)"
    by (auto simp: airdap_dap_ownership_suspend_def airdap_dap_ownership_resume_def)
qed

lemma current_run:
  "run E airdap_dap_ownership_current s h =
     Some (if is_owner (control_state (s Ownership_control)) then control_state (s Ownership_control)
           else AIRDAP_DAP_OWNER_NONE, s, h)"
  by (simp add: airdap_dap_ownership_current_def Let_def)

lemma revoke_owner_run:
  assumes "is_owner ow" "g \<le> 0x0FFFFFFF" "s Ownership_control = make_control g ow"
    "env_release_pins E h = (True, h1)"
  shows "run E (airdap_dap_ownership_revoke_owner ow) s h =
    Some (OWNERSHIP_OK, s(Ownership_control := make_control g AIRDAP_DAP_OWNER_NONE), h1)"
  using assms claim_word [OF assms(1,2)]
  by (auto simp: airdap_dap_ownership_revoke_owner_def Let_def release_pins_def)

lemma acquire_run:
  assumes "is_owner ow" "g < 0x0FFFFFFF" "s Ownership_control = make_control g 0"
    "env_line_reset E h = (True, h1)"
  shows "run E (airdap_dap_ownership_acquire ow True) s h =
    Some ((OWNERSHIP_OK, Some \<lparr>claim_owner = ow, claim_generation = g + 1\<rparr>),
      s(Ownership_control := make_control (g + 1) ow), h1)"
proof -
  have w: "control_state (s Ownership_control) = 0" "\<not> control_active (s Ownership_control)"
    "control_generation (s Ownership_control) = g" "ow \<noteq> 0" "g \<noteq> 0x0FFFFFFF"
    using assms by (auto simp: control_simps is_owner_iff)
  then show ?thesis using assms
    by (simp add: airdap_dap_ownership_acquire_def acquire_transition_def Let_def)
qed

lemma control_begin_idle_run:
  assumes "s Ownership_control = make_control g 0" "g \<le> 0x0FFFFFFF" "is_owner ow"
  shows "run E (airdap_dap_ownership_control_begin ow (Some zero_operation)) s h =
    Some ((OWNERSHIP_OK, Some \<lparr>op_owner = 0, op_generation = g, op_active = True\<rparr>),
      s(Ownership_control := make_control g 0 OR 8), h)"
  using assms
  by (simp add: airdap_dap_ownership_control_begin_def zero_operation_def control_simps Let_def)

lemma operation_end_run:
  assumes "op_active op" "s Ownership_control = make_control (op_generation op) (op_owner op) OR 8"
    "op_owner op AND 7 = op_owner op"
  shows "run E (airdap_dap_ownership_operation_end (Some op)) s h =
    Some (Some zero_operation, s(Ownership_control := make_control (op_generation op) (op_owner op)), h)"
proof -
  let ?w = "make_control (op_generation op) (op_owner op)"
  have "\<not> bit ?w 3" using make_control_inactive [OF assms(3)] by (simp add: control_active_bit)
  then have "(?w OR 8) AND NOT 8 = ?w"
    by (intro bit_word_eqI) (auto simp only: control_bits possible_bit_word)
  then show ?thesis using assms
    by (simp add: airdap_dap_ownership_operation_end_def operation_control_def Let_def)
qed

section \<open>Witnesses\<close>

lemma psteps_sys: "psteps p s q s' \<Longrightarrow> ts i = p \<Longrightarrow> sys_steps C (ts, s) (ts(i := q), s')"
proof (induction arbitrary: ts rule: psteps.induct)
  case (refl p s)
  then show ?case using fun_upd_triv [of ts i] by (metis sys_steps.refl)
next
  case (step p s q t r u)
  then have "sys_step C (ts, s) (ts(i := q), t)" by (auto intro: sys_step.task)
  moreover have "sys_steps C (ts(i := q), t) (ts(i := r), u)"
    using step.IH [of "ts(i := q)"] by (simp only: fun_upd_upd fun_upd_same)
  ultimately show ?case by (meson sys_steps.refl sys_steps.step sys_steps_trans)
qed

lemma client_reaches:
  assumes "p \<in> C" "psteps p s q s'"
  shows "sys_steps C (\<lambda>_. Ret (), s) ((\<lambda>_. Ret ())(i := q), s')"
proof -
  have "sys_step C (\<lambda>_. Ret (), s) ((\<lambda>_. Ret ())(i := p), s)"
    using assms(1) by (auto intro: sys_step.start)
  moreover have "sys_steps C ((\<lambda>_. Ret ())(i := p), s) ((\<lambda>_. Ret ())(i := q), s')"
    using psteps_sys [OF assms(2), of "(\<lambda>_. Ret ())(i := p)" i C] by (simp only: fun_upd_upd fun_upd_same)
  ultimately show ?thesis by (meson sys_steps.refl sys_steps.step sys_steps_trans)
qed

lemma client_run:
  assumes "p \<in> C" "run E p s h = Some ((), s', h')"
  shows "sys_steps C (\<lambda>_. Ret (), s) (\<lambda>_. Ret (), s')"
  using client_reaches [OF assms(1) run_psteps [OF assms(2)], of 0]
  by (simp add: fun_upd_idem)

text \<open>A boot, a granted request of the network and a release.\<close>

definition claim1 :: airdap_dap_ownership_claim where
  "claim1 = \<lparr>claim_owner = AIRDAP_DAP_OWNER_NETWORK, claim_generation = 1\<rparr>"

definition boot_acquire :: "unit prog" where
  "boot_acquire = bindp (airdap_dap_ownership_initialize True)
     (\<lambda>_. bindp (airdap_dap_ownership_acquire AIRDAP_DAP_OWNER_NETWORK True) (\<lambda>_. Ret ()))"

definition release_claim1 :: "unit prog" where
  "release_claim1 = bindp (airdap_dap_ownership_release (Some claim1)) (\<lambda>_. Ret ())"

definition env_const :: "bool \<Rightarrow> unit env" where
  "env_const b = \<lparr>env_line_reset = \<lambda>_. (b, ()), env_release_pins = \<lambda>_. (b, ()), env_bus = \<lambda>_. (),
     env_nvs_load = \<lambda>_. ((ESP_OK, ESP_OK, 0), ()),
     env_nvs_save = \<lambda>_ _. ((ESP_OK, ESP_OK, ESP_OK), ())\<rparr>"

lemmas ownership_defs = airdap_dap_ownership_initialize_def airdap_dap_ownership_acquire_def
  acquire_transition_def airdap_dap_ownership_release_def release_pins_def control_state_def
  control_generation_def control_active_def make_control_def is_owner_def valid_claim_def

lemma demo_clients: "boot_acquire \<in> clients" "release_claim1 \<in> clients"
  unfolding boot_acquire_def release_claim1_def by (intro clients.intros)+

definition word_at :: "u32 \<Rightarrow> shared" where
  "word_at w = (\<lambda>_. 0)(Ownership_control := w)"

lemma demo_acquired: "sys_steps clients initial (\<lambda>_. Ret (), word_at 0x12)"
proof -
  have "run (env_const True) boot_acquire (word_at 7) () = Some ((), word_at 0x12, ())"
    by (simp add: boot_acquire_def ownership_defs env_const_def word_at_def Let_def)
  from client_run [OF demo_clients(1) this] show ?thesis by (simp add: initial_def word_at_def)
qed

lemma demo_released: "sys_steps clients initial (\<lambda>_. Ret (), word_at 0x10)"
proof -
  have "run (env_const True) release_claim1 (word_at 0x12) () = Some ((), word_at 0x10, ())"
    by (simp add: release_claim1_def claim1_def ownership_defs env_const_def word_at_def Let_def)
  from client_run [OF demo_clients(2) this] show ?thesis using demo_acquired sys_steps_trans by blast
qed

lemma demo_offline: "sys_steps clients initial (\<lambda>_. Ret (), word_at 5)"
proof -
  have "run (env_const False) boot_acquire (word_at 7) () = Some ((), word_at 5, ())"
    by (simp add: boot_acquire_def ownership_defs env_const_def word_at_def Let_def)
  from client_run [OF demo_clients(1) this] show ?thesis by (simp add: initial_def word_at_def)
qed

lemma demo_driving: "\<exists>q s. sys_steps clients initial ((\<lambda>_. Ret ())(0 := q), s) \<and> drives q"
proof -
  have "\<exists>q s. to_drive boot_acquire (word_at 7) = Some (q, s)"
    by (simp add: boot_acquire_def ownership_defs word_at_def Let_def)
  then obtain q s where "psteps boot_acquire (word_at 7) q s" "drives q"
    using to_drive_psteps by blast
  then show ?thesis using client_reaches [OF demo_clients(1), of "word_at 7" q s 0]
    by (auto simp: initial_def word_at_def)
qed

theorem ownership_mutual_exclusion_witness:
  "\<exists>ts s. sys_steps clients initial (ts, s) \<and> drives (ts 0) \<and> (\<forall>j. drives (ts j) \<longrightarrow> j = 0)"
proof -
  obtain q s where r: "sys_steps clients initial ((\<lambda>_. Ret ())(0 := q), s)" and "drives q"
    using demo_driving by blast
  then have d: "drives (((\<lambda>_. Ret ())(0 := q)) 0)" by simp
  then show ?thesis using r ownership_mutual_exclusion [OF r _ d] by blast
qed

theorem ownership_refines_arbiter_witness:
  "arbiter_step (arbiter_of OWNERSHIP_STATE_UNINITIALIZED) (arbiter_of OWNERSHIP_STATE_TRANSITION)"
proof -
  let ?ts = "(\<lambda>_. Ret ())(0 := boot_acquire) :: tasks"
  have r: "sys_steps clients initial (?ts, word_at 7)"
    using client_reaches [OF demo_clients(1) psteps.refl, of "word_at 7" 0]
    by (simp add: initial_def word_at_def)
  have "\<exists>q. pstep boot_acquire (word_at 7) q ((word_at 7)(Ownership_control := 4))"
    unfolding boot_acquire_def airdap_dap_ownership_initialize_def
    by (simp only: bindp.simps simp_thms if_False, rule exI, rule pstep.cas_ok)
      (simp add: word_at_def)
  then obtain q where "pstep (?ts 0) (word_at 7) q ((word_at 7)(Ownership_control := 4))" by auto
  from ownership_refines_arbiter [OF r sys_step.task [where ts = ?ts and i = 0, OF this]] show ?thesis
    by (auto simp: word_at_def arbiter_of_def control_state_def phase_of_def)
qed

theorem stale_claim_never_valid_witness:
  "\<exists>r. r \<noteq> OWNERSHIP_OK \<and>
     run (env_const True) (airdap_dap_ownership_release (Some claim1)) (word_at 0x10) () =
       Some (r, word_at 0x10, ())"
proof -
  have "valid_claim (Some claim1)"
    "claim_generation claim1 \<le> control_generation (word_at 0x10 Ownership_control)"
    "(control_state (word_at 0x10 Ownership_control),
      control_generation (word_at 0x10 Ownership_control)) \<noteq>
     (claim_owner claim1, claim_generation claim1)"
    by (simp_all add: claim1_def word_at_def ownership_defs)
  note stale_claim_never_valid [OF demo_released sys_steps.refl this]
  then show ?thesis by (rule conjunct2)
qed

theorem idle_system_unlocked_witness:
  "control_state (word_at 0x12 Ownership_control) \<noteq> OWNERSHIP_STATE_TRANSITION"
  using idle_system_unlocked [OF demo_acquired] by simp

theorem offline_permanent_witness:
  "sys_steps clients (\<lambda>_. Ret (), word_at 5) (\<lambda>_. Ret (), word_at 5) \<and>
   word_at 5 Ownership_control = word_at 5 Ownership_control"
  using offline_permanent [OF demo_offline sys_steps.refl] by (auto simp: sys_steps.refl)

theorem acquire_release_cycle_witness:
  "\<exists>s1. run (env_const True) (airdap_dap_ownership_acquire 1 True) (word_at 0x50) () =
     Some ((OWNERSHIP_OK, Some \<lparr>claim_owner = 1, claim_generation = 6\<rparr>), s1, ())"
  using acquire_release_cycle [of "word_at 0x50" 5 1 "env_const True" "()" "()" "()"]
  by (force simp: word_at_def env_const_def make_control_def is_owner_def)

end
