(* ===== verification/Mode_State.thy ===== *)
theory Mode_State
  imports Dap_Ownership
begin

text \<open>
  The mode state, \<^verbatim>\<open>firmware/components/mode_state\<close> (\<^verbatim>\<open>mode_state.c\<close> and \<^verbatim>\<open>mode_storage.c\<close>): one
  atomic word packs the USB, Wi-Fi, provisioning, OTA and debug-shell state, the selected DAP route
  and three epoch counters; the admission policy reads it, and the route and DAP transactions
  combine it with the ownership arbiter. The enums are the numbers the code packs into the
  word; functions that touch an atomic are programs of \<open>Atomic_Prog\<close>. The compare-exchange loops
  take a fuel argument.
\<close>

section \<open>Data\<close>

datatype airdap_mode_event =
    EVENT_USB_ATTACHED | EVENT_USB_DETACHED
  | EVENT_WIFI_STOPPED | EVENT_WIFI_DISCONNECTED | EVENT_WIFI_CONNECTING | EVENT_WIFI_ONLINE
  | EVENT_PROVISIONING_STARTED | EVENT_PROVISIONING_SUCCEEDED | EVENT_PROVISIONING_TIMED_OUT
  | EVENT_PROVISIONING_RESET
  | EVENT_OTA_STARTED | EVENT_OTA_ABORTED | EVENT_OTA_FAILED | EVENT_OTA_COMMITTED
  | EVENT_OTA_RESET
  | EVENT_DEBUG_SHELL_STARTED | EVENT_DEBUG_SHELL_ENDED
  | EVENT_OUT_OF_RANGE int

text \<open>The number of an enumerator; \<open>EVENT_OUT_OF_RANGE\<close> is any other value of the C type.\<close>

fun event_number :: "airdap_mode_event \<Rightarrow> int" where
  "event_number EVENT_USB_ATTACHED = 0"
| "event_number EVENT_USB_DETACHED = 1"
| "event_number EVENT_WIFI_STOPPED = 2"
| "event_number EVENT_WIFI_DISCONNECTED = 3"
| "event_number EVENT_WIFI_CONNECTING = 4"
| "event_number EVENT_WIFI_ONLINE = 5"
| "event_number EVENT_PROVISIONING_STARTED = 6"
| "event_number EVENT_PROVISIONING_SUCCEEDED = 7"
| "event_number EVENT_PROVISIONING_TIMED_OUT = 8"
| "event_number EVENT_PROVISIONING_RESET = 9"
| "event_number EVENT_OTA_STARTED = 10"
| "event_number EVENT_OTA_ABORTED = 11"
| "event_number EVENT_OTA_FAILED = 12"
| "event_number EVENT_OTA_COMMITTED = 13"
| "event_number EVENT_OTA_RESET = 14"
| "event_number EVENT_DEBUG_SHELL_STARTED = 15"
| "event_number EVENT_DEBUG_SHELL_ENDED = 16"
| "event_number (EVENT_OUT_OF_RANGE n) = n"

datatype airdap_mode_state_result =
    MODE_OK | MODE_INVALID_ARGUMENT | MODE_INVALID_STATE | MODE_INVALID_TRANSITION
  | MODE_STORAGE_ERROR

datatype airdap_mode_dap_result =
    DAP_ALLOWED | DAP_BUSY | DAP_OFFLINE | DAP_UNAUTHENTICATED | DAP_INVALID_ARGUMENT
  | DAP_INVALID_STATE | DAP_STORAGE_ERROR

abbreviation (input) AIRDAP_WIFI_STOPPED :: u32 where "AIRDAP_WIFI_STOPPED \<equiv> 0"
abbreviation (input) AIRDAP_WIFI_DISCONNECTED :: u32 where "AIRDAP_WIFI_DISCONNECTED \<equiv> 1"
abbreviation (input) AIRDAP_WIFI_CONNECTING :: u32 where "AIRDAP_WIFI_CONNECTING \<equiv> 2"
abbreviation (input) AIRDAP_WIFI_ONLINE :: u32 where "AIRDAP_WIFI_ONLINE \<equiv> 3"
abbreviation (input) AIRDAP_PROVISIONING_IDLE :: u32 where "AIRDAP_PROVISIONING_IDLE \<equiv> 0"
abbreviation (input) AIRDAP_PROVISIONING_ACTIVE :: u32 where "AIRDAP_PROVISIONING_ACTIVE \<equiv> 1"
abbreviation (input) AIRDAP_PROVISIONING_SUCCEEDED :: u32 where "AIRDAP_PROVISIONING_SUCCEEDED \<equiv> 2"
abbreviation (input) AIRDAP_PROVISIONING_TIMED_OUT :: u32 where "AIRDAP_PROVISIONING_TIMED_OUT \<equiv> 3"
abbreviation (input) AIRDAP_OTA_IDLE :: u32 where "AIRDAP_OTA_IDLE \<equiv> 0"
abbreviation (input) AIRDAP_OTA_RECEIVING :: u32 where "AIRDAP_OTA_RECEIVING \<equiv> 1"
abbreviation (input) AIRDAP_OTA_READY_TO_REBOOT :: u32 where "AIRDAP_OTA_READY_TO_REBOOT \<equiv> 2"
abbreviation (input) AIRDAP_DAP_ROUTE_AUTO :: u32 where "AIRDAP_DAP_ROUTE_AUTO \<equiv> 0"
abbreviation (input) AIRDAP_DAP_ROUTE_USB :: u32 where "AIRDAP_DAP_ROUTE_USB \<equiv> 1"
abbreviation (input) AIRDAP_DAP_ROUTE_NETWORK :: u32 where "AIRDAP_DAP_ROUTE_NETWORK \<equiv> 2"
abbreviation (input) AIRDAP_DAP_ROUTE_TOGGLE :: u32 where "AIRDAP_DAP_ROUTE_TOGGLE \<equiv> 3"
abbreviation (input) AIRDAP_DAP_ROUTE_NETWORK_AUTO_TOGGLE :: u32 where
  "AIRDAP_DAP_ROUTE_NETWORK_AUTO_TOGGLE \<equiv> 4"

record airdap_mode_snapshot =
  snap_usb_present :: bool
  snap_wifi :: u32
  snap_provisioning :: u32
  snap_ota :: u32
  snap_dap_owner :: u32

abbreviation (input) MODE_USB_PRESENT :: u32 where "MODE_USB_PRESENT \<equiv> 0x1"
abbreviation (input) MODE_WIFI_MASK :: u32 where "MODE_WIFI_MASK \<equiv> 0x6"
abbreviation (input) MODE_PROVISIONING_MASK :: u32 where "MODE_PROVISIONING_MASK \<equiv> 0x18"
abbreviation (input) MODE_OTA_MASK :: u32 where "MODE_OTA_MASK \<equiv> 0x60"
abbreviation (input) MODE_INITIALIZED :: u32 where "MODE_INITIALIZED \<equiv> 0x80"
abbreviation (input) MODE_USB_OTA_EPOCH_MASK :: u32 where "MODE_USB_OTA_EPOCH_MASK \<equiv> 0xFF00"
abbreviation (input) MODE_WIFI_EPOCH_MASK :: u32 where "MODE_WIFI_EPOCH_MASK \<equiv> 0xFF0000"
abbreviation (input) MODE_DEBUG_SHELL_ACTIVE :: u32 where "MODE_DEBUG_SHELL_ACTIVE \<equiv> 0x1000000"
abbreviation (input) MODE_DEBUG_SHELL_EPOCH_MASK :: u32 where
  "MODE_DEBUG_SHELL_EPOCH_MASK \<equiv> 0x3E000000"
abbreviation (input) MODE_DAP_ROUTE_MASK :: u32 where "MODE_DAP_ROUTE_MASK \<equiv> 0xC0000000"
abbreviation (input) MODE_WIFI_SHIFT :: nat where "MODE_WIFI_SHIFT \<equiv> Suc 0"
abbreviation (input) MODE_PROVISIONING_SHIFT :: nat where "MODE_PROVISIONING_SHIFT \<equiv> 3"
abbreviation (input) MODE_OTA_SHIFT :: nat where "MODE_OTA_SHIFT \<equiv> 5"
abbreviation (input) MODE_USB_OTA_EPOCH_SHIFT :: nat where "MODE_USB_OTA_EPOCH_SHIFT \<equiv> 8"
abbreviation (input) MODE_WIFI_EPOCH_SHIFT :: nat where "MODE_WIFI_EPOCH_SHIFT \<equiv> 16"
abbreviation (input) MODE_DEBUG_SHELL_EPOCH_SHIFT :: nat where "MODE_DEBUG_SHELL_EPOCH_SHIFT \<equiv> 25"
abbreviation (input) MODE_DAP_ROUTE_SHIFT :: nat where "MODE_DAP_ROUTE_SHIFT \<equiv> 30"

section \<open>Fields of the control word\<close>

definition replace_field :: "u32 \<Rightarrow> u32 \<Rightarrow> nat \<Rightarrow> u32 \<Rightarrow> u32" where
  "replace_field control msk shift value = (control AND NOT msk) OR push_bit shift value"

definition field_value :: "u32 \<Rightarrow> u32 \<Rightarrow> nat \<Rightarrow> u32" where
  "field_value control msk shift = drop_bit shift (control AND msk)"

definition increment_field :: "u32 \<Rightarrow> u32 \<Rightarrow> nat \<Rightarrow> u32" where
  "increment_field control msk shift =
     replace_field control msk shift ((field_value control msk shift + 1) AND drop_bit shift msk)"

section \<open>Events\<close>

text \<open>The switch of \<^verbatim>\<open>next_control\<close>: the word before the epoch is advanced, or the error.\<close>

definition event_effect :: "u32 \<Rightarrow> airdap_mode_event \<Rightarrow> airdap_mode_state_result + u32" where
  "event_effect current event =
     (let wifi = field_value current MODE_WIFI_MASK MODE_WIFI_SHIFT;
          provisioning = field_value current MODE_PROVISIONING_MASK MODE_PROVISIONING_SHIFT;
          ota = field_value current MODE_OTA_MASK MODE_OTA_SHIFT;
          set_wifi = replace_field current MODE_WIFI_MASK MODE_WIFI_SHIFT;
          set_prov = replace_field current MODE_PROVISIONING_MASK MODE_PROVISIONING_SHIFT;
          set_ota = replace_field current MODE_OTA_MASK MODE_OTA_SHIFT
      in case event of
        EVENT_USB_ATTACHED \<Rightarrow> Inr (current OR MODE_USB_PRESENT)
      | EVENT_USB_DETACHED \<Rightarrow> Inr (current AND NOT MODE_USB_PRESENT)
      | EVENT_DEBUG_SHELL_STARTED \<Rightarrow> Inr (current OR MODE_DEBUG_SHELL_ACTIVE)
      | EVENT_DEBUG_SHELL_ENDED \<Rightarrow> Inr (current AND NOT MODE_DEBUG_SHELL_ACTIVE)
      | EVENT_WIFI_STOPPED \<Rightarrow> Inr (set_wifi AIRDAP_WIFI_STOPPED)
      | EVENT_WIFI_DISCONNECTED \<Rightarrow>
          if wifi = AIRDAP_WIFI_STOPPED then Inl MODE_INVALID_TRANSITION
          else Inr (set_wifi AIRDAP_WIFI_DISCONNECTED)
      | EVENT_WIFI_CONNECTING \<Rightarrow> Inr (set_wifi AIRDAP_WIFI_CONNECTING)
      | EVENT_WIFI_ONLINE \<Rightarrow>
          if wifi \<noteq> AIRDAP_WIFI_CONNECTING then Inl MODE_INVALID_TRANSITION
          else Inr (set_wifi AIRDAP_WIFI_ONLINE)
      | EVENT_PROVISIONING_STARTED \<Rightarrow>
          if provisioning = AIRDAP_PROVISIONING_ACTIVE then Inl MODE_INVALID_TRANSITION
          else Inr (set_prov AIRDAP_PROVISIONING_ACTIVE)
      | EVENT_PROVISIONING_SUCCEEDED \<Rightarrow>
          if provisioning \<noteq> AIRDAP_PROVISIONING_ACTIVE then Inl MODE_INVALID_TRANSITION
          else Inr (set_prov AIRDAP_PROVISIONING_SUCCEEDED)
      | EVENT_PROVISIONING_TIMED_OUT \<Rightarrow>
          if provisioning \<noteq> AIRDAP_PROVISIONING_ACTIVE then Inl MODE_INVALID_TRANSITION
          else Inr (set_prov AIRDAP_PROVISIONING_TIMED_OUT)
      | EVENT_PROVISIONING_RESET \<Rightarrow> Inr (set_prov AIRDAP_PROVISIONING_IDLE)
      | EVENT_OTA_STARTED \<Rightarrow>
          if ota \<noteq> AIRDAP_OTA_IDLE then Inl MODE_INVALID_TRANSITION
          else Inr (set_ota AIRDAP_OTA_RECEIVING)
      | EVENT_OTA_ABORTED \<Rightarrow>
          if ota \<noteq> AIRDAP_OTA_RECEIVING then Inl MODE_INVALID_TRANSITION
          else Inr (set_ota AIRDAP_OTA_IDLE)
      | EVENT_OTA_FAILED \<Rightarrow>
          if ota \<noteq> AIRDAP_OTA_RECEIVING then Inl MODE_INVALID_TRANSITION
          else Inr (set_ota AIRDAP_OTA_IDLE)
      | EVENT_OTA_COMMITTED \<Rightarrow>
          if ota \<noteq> AIRDAP_OTA_RECEIVING then Inl MODE_INVALID_TRANSITION
          else Inr (set_ota AIRDAP_OTA_READY_TO_REBOOT)
      | EVENT_OTA_RESET \<Rightarrow> Inr (set_ota AIRDAP_OTA_IDLE)
      | EVENT_OUT_OF_RANGE _ \<Rightarrow> Inl MODE_INVALID_ARGUMENT)"

definition next_control :: "u32 \<Rightarrow> airdap_mode_event \<Rightarrow> airdap_mode_state_result + u32" where
  "next_control current event =
     (case event_effect current event of
        Inl e \<Rightarrow> Inl e
      | Inr nxt \<Rightarrow>
          Inr (if event = EVENT_USB_ATTACHED \<or> event = EVENT_USB_DETACHED \<or>
                  (event_number event \<ge> event_number EVENT_OTA_STARTED \<and>
                   event_number event \<le> event_number EVENT_OTA_RESET)
               then increment_field nxt MODE_USB_OTA_EPOCH_MASK MODE_USB_OTA_EPOCH_SHIFT
               else if event_number event \<ge> event_number EVENT_WIFI_STOPPED \<and>
                       event_number event \<le> event_number EVENT_WIFI_ONLINE
               then increment_field nxt MODE_WIFI_EPOCH_MASK MODE_WIFI_EPOCH_SHIFT
               else if (current XOR nxt) AND MODE_DEBUG_SHELL_ACTIVE \<noteq> 0
               then increment_field nxt MODE_DEBUG_SHELL_EPOCH_MASK MODE_DEBUG_SHELL_EPOCH_SHIFT
               else nxt))"

definition airdap_mode_state_init :: "unit prog" where
  "airdap_mode_state_init =
     Store Usb_preemptions_inflight 0 (Store Mode_control MODE_INITIALIZED (Ret ()))"

text \<open>\<^verbatim>\<open>if (attaching) atomic_fetch_sub(...)\<close> before a return: subtraction is adding \<open>- 1\<close>.\<close>

definition leave_preemption :: "bool \<Rightarrow> 'a prog \<Rightarrow> 'a prog" where
  "leave_preemption b p = (if b then Fetch_add Usb_preemptions_inflight (- 1) p else p)"

definition enter_preemption :: "bool \<Rightarrow> 'a prog \<Rightarrow> 'a prog" where
  "enter_preemption b p = (if b then Fetch_add Usb_preemptions_inflight 1 p else p)"

fun transition_loop ::
  "nat \<Rightarrow> airdap_mode_event \<Rightarrow> u32 \<Rightarrow> airdap_mode_state_result prog"
where
  "transition_loop 0 event current = Spin"
| "transition_loop (Suc fuel) event current =
     (let attaching = (event = EVENT_USB_ATTACHED) in
      if current AND MODE_INITIALIZED = 0
      then leave_preemption attaching (Ret MODE_INVALID_STATE)
      else case next_control current event of
        Inl result \<Rightarrow> leave_preemption attaching (Ret result)
      | Inr nxt \<Rightarrow>
          cas_weak Mode_control current nxt (\<lambda>(ok, observed).
            if ok then
              (if event = EVENT_USB_ATTACHED \<and>
                  field_value nxt MODE_DAP_ROUTE_MASK MODE_DAP_ROUTE_SHIFT \<noteq>
                    AIRDAP_DAP_ROUTE_NETWORK
               then bindp (airdap_dap_ownership_revoke_owner AIRDAP_DAP_OWNER_NETWORK)
                      (\<lambda>_. leave_preemption attaching (Ret MODE_OK))
               else leave_preemption attaching (Ret MODE_OK))
            else transition_loop fuel event observed))"

definition airdap_mode_state_transition ::
  "nat \<Rightarrow> airdap_mode_event \<Rightarrow> airdap_mode_state_result prog"
where
  "airdap_mode_state_transition fuel event =
     enter_preemption (event = EVENT_USB_ATTACHED)
       (Load Mode_control (\<lambda>current. transition_loop fuel event current))"

definition airdap_mode_state_get ::
  "bool \<Rightarrow> (airdap_mode_state_result \<times> airdap_mode_snapshot option) prog"
where
  "airdap_mode_state_get snapshot_present =
     (if \<not> snapshot_present then Ret (MODE_INVALID_ARGUMENT, None)
      else Load Mode_control (\<lambda>control.
        if control AND MODE_INITIALIZED = 0 then Ret (MODE_INVALID_STATE, None)
        else bindp airdap_dap_ownership_current (\<lambda>owner.
          Ret (MODE_OK, Some
            \<lparr>snap_usb_present = (control AND MODE_USB_PRESENT \<noteq> 0),
             snap_wifi = field_value control MODE_WIFI_MASK MODE_WIFI_SHIFT,
             snap_provisioning = field_value control MODE_PROVISIONING_MASK MODE_PROVISIONING_SHIFT,
             snap_ota = field_value control MODE_OTA_MASK MODE_OTA_SHIFT,
             snap_dap_owner = owner\<rparr>))))"

section \<open>Admission\<close>

text \<open>The policy on the control word alone, and the final look at the current owner.\<close>

definition control_admission :: "u32 \<Rightarrow> u32 \<Rightarrow> bool \<Rightarrow> bool \<Rightarrow> airdap_mode_dap_result" where
  "control_admission control requested_owner authenticated board_control =
     (let route = field_value control MODE_DAP_ROUTE_MASK MODE_DAP_ROUTE_SHIFT in
      if requested_owner \<noteq> AIRDAP_DAP_OWNER_USB \<and> requested_owner \<noteq> AIRDAP_DAP_OWNER_NETWORK \<and>
         requested_owner \<noteq> AIRDAP_DAP_OWNER_DIAGNOSTIC then DAP_INVALID_ARGUMENT
      else if control AND MODE_INITIALIZED = 0 then DAP_INVALID_STATE
      else if requested_owner = AIRDAP_DAP_OWNER_NETWORK \<and> \<not> authenticated
        then DAP_UNAUTHENTICATED
      else if field_value control MODE_OTA_MASK MODE_OTA_SHIFT \<noteq> AIRDAP_OTA_IDLE then DAP_BUSY
      else if requested_owner = AIRDAP_DAP_OWNER_USB then
        (if route = AIRDAP_DAP_ROUTE_NETWORK then DAP_BUSY
         else if control AND MODE_USB_PRESENT = 0 then DAP_OFFLINE
         else DAP_ALLOWED)
      else if requested_owner = AIRDAP_DAP_OWNER_NETWORK then
        (if (if board_control then control AND MODE_DEBUG_SHELL_ACTIVE \<noteq> 0
             else route = AIRDAP_DAP_ROUTE_USB \<or>
                  (route = AIRDAP_DAP_ROUTE_AUTO \<and> control AND MODE_USB_PRESENT \<noteq> 0))
         then DAP_BUSY
         else if field_value control MODE_WIFI_MASK MODE_WIFI_SHIFT \<noteq> AIRDAP_WIFI_ONLINE
         then DAP_OFFLINE
         else DAP_ALLOWED)
      else if control AND MODE_USB_PRESENT = 0 then DAP_OFFLINE
      else DAP_ALLOWED)"

definition dap_admission_for_control ::
  "u32 \<Rightarrow> u32 \<Rightarrow> bool \<Rightarrow> bool \<Rightarrow> airdap_mode_dap_result prog"
where
  "dap_admission_for_control control requested_owner authenticated board_control =
     (case control_admission control requested_owner authenticated board_control of
        DAP_ALLOWED \<Rightarrow>
          bindp airdap_dap_ownership_current (\<lambda>owner.
            Ret (if owner \<noteq> AIRDAP_DAP_OWNER_NONE \<and> owner \<noteq> requested_owner
                 then DAP_BUSY else DAP_ALLOWED))
      | refused \<Rightarrow> Ret refused)"

definition airdap_mode_state_dap_admission :: "u32 \<Rightarrow> bool \<Rightarrow> airdap_mode_dap_result prog" where
  "airdap_mode_state_dap_admission requested_owner authenticated =
     Load Mode_control (\<lambda>control.
       dap_admission_for_control control requested_owner authenticated False)"

fun ownership_result :: "airdap_dap_ownership_result \<Rightarrow> airdap_mode_dap_result" where
  "ownership_result OWNERSHIP_OK = DAP_ALLOWED"
| "ownership_result OWNERSHIP_ALREADY_OWNER = DAP_ALLOWED"
| "ownership_result OWNERSHIP_BUSY = DAP_BUSY"
| "ownership_result OWNERSHIP_OFFLINE = DAP_OFFLINE"
| "ownership_result OWNERSHIP_INVALID_ARGUMENT = DAP_INVALID_ARGUMENT"
| "ownership_result OWNERSHIP_NOT_OWNER = DAP_INVALID_STATE"
| "ownership_result OWNERSHIP_INVALID_STATE = DAP_INVALID_STATE"

definition airdap_mode_state_get_dap_route :: "u32 prog" where
  "airdap_mode_state_get_dap_route =
     Load Mode_control (\<lambda>control. Ret (field_value control MODE_DAP_ROUTE_MASK MODE_DAP_ROUTE_SHIFT))"

definition usb_data_enabled :: "u32 \<Rightarrow> bool" where
  "usb_data_enabled control \<longleftrightarrow> control AND MODE_INITIALIZED \<noteq> 0 \<and>
     field_value control MODE_DAP_ROUTE_MASK MODE_DAP_ROUTE_SHIFT \<noteq> AIRDAP_DAP_ROUTE_NETWORK"

definition airdap_mode_state_usb_data_enabled :: "bool prog" where
  "airdap_mode_state_usb_data_enabled = Load Mode_control (\<lambda>control. Ret (usb_data_enabled control))"

definition network_data_enabled :: "u32 \<Rightarrow> bool" where
  "network_data_enabled control \<longleftrightarrow>
     (let route = field_value control MODE_DAP_ROUTE_MASK MODE_DAP_ROUTE_SHIFT in
      control AND MODE_INITIALIZED \<noteq> 0 \<and>
      (route = AIRDAP_DAP_ROUTE_NETWORK \<or>
       (route = AIRDAP_DAP_ROUTE_AUTO \<and> control AND MODE_USB_PRESENT = 0)))"

definition airdap_mode_state_network_data_enabled :: "bool prog" where
  "airdap_mode_state_network_data_enabled =
     Load Mode_control (\<lambda>control. Ret (network_data_enabled control))"

section \<open>The persistent route\<close>

definition airdap_mode_storage_load :: "u32 option prog" where
  "airdap_mode_storage_load =
     Nvs_load (\<lambda>(open_error, get_error, stored).
       let error = (if open_error = ESP_OK then get_error else open_error);
           value = (if open_error = ESP_OK then stored else ucast AIRDAP_DAP_ROUTE_AUTO);
           (error, value) = (if error = ESP_ERR_NVS_NOT_FOUND
                             then (ESP_OK, ucast AIRDAP_DAP_ROUTE_AUTO) else (error, value));
           error = (if error = ESP_OK \<and> value > ucast AIRDAP_DAP_ROUTE_NETWORK
                    then ESP_ERR_INVALID_ARG else error)
       in if error \<noteq> ESP_OK then Ret None else Ret (Some (ucast value)))"

definition airdap_mode_storage_save :: "u32 \<Rightarrow> bool prog" where
  "airdap_mode_storage_save route =
     (if route > AIRDAP_DAP_ROUTE_NETWORK then Ret False
      else Nvs_save (ucast route) (\<lambda>(open_error, set_error, commit_error).
        let error = (if open_error = ESP_OK
                     then (if set_error = ESP_OK then commit_error else set_error)
                     else open_error)
        in Ret (error = ESP_OK)))"

definition airdap_mode_state_restore_dap_route :: "airdap_mode_state_result prog" where
  "airdap_mode_state_restore_dap_route =
     Load Mode_control (\<lambda>expected.
       if expected AND NOT MODE_USB_OTA_EPOCH_MASK \<noteq> MODE_INITIALIZED then Ret MODE_INVALID_STATE
       else bindp airdap_mode_storage_load (\<lambda>loaded.
         case loaded of None \<Rightarrow> Ret MODE_STORAGE_ERROR
         | Some route \<Rightarrow>
             cas_strong Mode_control expected
               (replace_field expected MODE_DAP_ROUTE_MASK MODE_DAP_ROUTE_SHIFT route)
               (\<lambda>(ok, _). Ret (if ok then MODE_OK else MODE_INVALID_STATE))))"

definition selected_route :: "u32 \<Rightarrow> u32 \<Rightarrow> u32" where
  "selected_route route current =
     (let previous = field_value current MODE_DAP_ROUTE_MASK MODE_DAP_ROUTE_SHIFT in
      if route = AIRDAP_DAP_ROUTE_TOGGLE then
        (let usb = (previous = AIRDAP_DAP_ROUTE_USB \<or>
                    (previous = AIRDAP_DAP_ROUTE_AUTO \<and> current AND MODE_USB_PRESENT \<noteq> 0))
         in if usb then AIRDAP_DAP_ROUTE_NETWORK else AIRDAP_DAP_ROUTE_USB)
      else if route = AIRDAP_DAP_ROUTE_NETWORK_AUTO_TOGGLE then
        (if previous = AIRDAP_DAP_ROUTE_NETWORK then AIRDAP_DAP_ROUTE_AUTO
         else AIRDAP_DAP_ROUTE_NETWORK)
      else route)"

definition routed_control :: "u32 \<Rightarrow> u32 \<Rightarrow> u32" where
  "routed_control current selected =
     increment_field (replace_field current MODE_DAP_ROUTE_MASK MODE_DAP_ROUTE_SHIFT selected)
       MODE_USB_OTA_EPOCH_MASK MODE_USB_OTA_EPOCH_SHIFT"

fun store_route_loop :: "nat \<Rightarrow> u32 \<Rightarrow> u32 \<Rightarrow> airdap_mode_dap_result prog" where
  "store_route_loop 0 selected current = Spin"
| "store_route_loop (Suc fuel) selected current =
     cas_weak Mode_control current (routed_control current selected) (\<lambda>(ok, observed).
       if ok then Ret DAP_ALLOWED else store_route_loop fuel selected observed)"

definition select_route :: "nat \<Rightarrow> u32 \<Rightarrow> airdap_mode_dap_result prog" where
  "select_route fuel route =
     Load Mode_control (\<lambda>current.
       if current AND MODE_INITIALIZED = 0 then Ret DAP_INVALID_STATE
       else if current AND MODE_OTA_MASK \<noteq> 0 then Ret DAP_BUSY
       else Load Usb_preemptions_inflight (\<lambda>inflight.
         if inflight \<noteq> 0 then Ret DAP_BUSY
         else let selected = selected_route route current in
           if selected = field_value current MODE_DAP_ROUTE_MASK MODE_DAP_ROUTE_SHIFT
           then Ret DAP_ALLOWED
           else bindp (airdap_mode_storage_save selected) (\<lambda>saved.
             if \<not> saved then Ret DAP_STORAGE_ERROR
             else store_route_loop fuel selected current)))"

definition airdap_mode_state_set_dap_route :: "nat \<Rightarrow> u32 \<Rightarrow> airdap_mode_dap_result prog" where
  "airdap_mode_state_set_dap_route fuel route =
     (if route > AIRDAP_DAP_ROUTE_NETWORK_AUTO_TOGGLE then Ret DAP_INVALID_ARGUMENT
      else bindp (airdap_dap_ownership_control_begin AIRDAP_DAP_OWNER_DIAGNOSTIC
                    (Some zero_operation)) (\<lambda>(begin_result, operation).
        let result = ownership_result begin_result in
        if result \<noteq> DAP_ALLOWED then Ret result
        else if map_option op_owner operation \<noteq> Some AIRDAP_DAP_OWNER_NONE
        then bindp (airdap_dap_ownership_operation_end operation) (\<lambda>_. Ret DAP_BUSY)
        else bindp (select_route fuel route) (\<lambda>result.
          bindp (airdap_dap_ownership_operation_end operation) (\<lambda>_. Ret result))))"

section \<open>DAP transactions\<close>

definition dap_policy_stamp :: "u32 \<Rightarrow> u32 \<Rightarrow> u32" where
  "dap_policy_stamp control owner =
     (let stamp = control AND (MODE_USB_PRESENT OR MODE_OTA_MASK OR MODE_USB_OTA_EPOCH_MASK OR
                               MODE_DAP_ROUTE_MASK)
      in if owner = AIRDAP_DAP_OWNER_NETWORK
         then stamp OR (control AND (MODE_WIFI_MASK OR MODE_WIFI_EPOCH_MASK)) else stamp)"

text \<open>The admission decision of \<^verbatim>\<open>dap_acquire\<close>, with the preemption of the network by USB.\<close>

definition dap_acquire_admission ::
  "u32 \<Rightarrow> bool \<Rightarrow> (u32 \<times> airdap_mode_dap_result) prog"
where
  "dap_acquire_admission requested_owner authenticated =
     Load Mode_control (\<lambda>before.
       bindp (dap_admission_for_control before requested_owner authenticated False) (\<lambda>result.
         if result = DAP_BUSY \<and> requested_owner = AIRDAP_DAP_OWNER_USB \<and>
            field_value before MODE_DAP_ROUTE_MASK MODE_DAP_ROUTE_SHIFT \<noteq> AIRDAP_DAP_ROUTE_NETWORK
         then bindp airdap_dap_ownership_current (\<lambda>owner.
           if owner = AIRDAP_DAP_OWNER_NETWORK
           then bindp (airdap_dap_ownership_revoke_owner AIRDAP_DAP_OWNER_NETWORK) (\<lambda>revoke_result.
             if revoke_result = OWNERSHIP_OK \<or> revoke_result = OWNERSHIP_NOT_OWNER
             then Load Mode_control (\<lambda>before.
               bindp (dap_admission_for_control before requested_owner authenticated False)
                 (\<lambda>result. Ret (before, result)))
             else Ret (before, ownership_result revoke_result))
           else Ret (before, result))
         else Ret (before, result)))"

definition dap_acquire ::
  "u32 \<Rightarrow> bool \<Rightarrow> bool \<Rightarrow> (airdap_mode_dap_result \<times> airdap_dap_ownership_claim option) prog"
where
  "dap_acquire requested_owner authenticated claim_present =
     (if \<not> claim_present then Ret (DAP_INVALID_ARGUMENT, None)
      else bindp (dap_acquire_admission requested_owner authenticated) (\<lambda>(before, result).
        if result \<noteq> DAP_ALLOWED then Ret (result, Some zero_claim)
        else bindp (airdap_dap_ownership_acquire requested_owner True) (\<lambda>(acquire_result, claim).
          let result = (if requested_owner = AIRDAP_DAP_OWNER_DIAGNOSTIC \<and>
                           acquire_result = OWNERSHIP_ALREADY_OWNER
                        then DAP_BUSY else ownership_result acquire_result) in
          if result \<noteq> DAP_ALLOWED then Ret (result, claim)
          else Load Mode_control (\<lambda>after.
            if dap_policy_stamp before requested_owner \<noteq> dap_policy_stamp after requested_owner
            then bindp (airdap_dap_ownership_release claim) (\<lambda>release_result.
              if release_result \<noteq> OWNERSHIP_OK \<and> release_result \<noteq> OWNERSHIP_NOT_OWNER
              then Ret (ownership_result release_result, claim)
              else bindp (dap_admission_for_control after requested_owner authenticated False)
                (\<lambda>latest. Ret (if latest = DAP_ALLOWED then DAP_BUSY else latest, claim)))
            else Ret (result, claim)))))"

definition airdap_mode_state_dap_acquire ::
  "u32 \<Rightarrow> bool \<Rightarrow> bool \<Rightarrow> (airdap_mode_dap_result \<times> airdap_dap_ownership_claim option) prog"
where
  "airdap_mode_state_dap_acquire requested_owner authenticated claim_present =
     (let usb = (requested_owner = AIRDAP_DAP_OWNER_USB) in
      enter_preemption usb
        (bindp (dap_acquire requested_owner authenticated claim_present)
           (\<lambda>result. leave_preemption usb (Ret result))))"

definition airdap_mode_state_control_operation_begin ::
  "bool \<Rightarrow> airdap_dap_ownership_operation option \<Rightarrow>
   (airdap_mode_dap_result \<times> airdap_dap_ownership_operation option) prog"
where
  "airdap_mode_state_control_operation_begin authenticated operation =
     (if operation = None then Ret (DAP_INVALID_ARGUMENT, operation)
      else Load Mode_control (\<lambda>before.
        bindp (dap_admission_for_control before AIRDAP_DAP_OWNER_NETWORK authenticated True)
          (\<lambda>result.
          if result \<noteq> DAP_ALLOWED then Ret (result, operation)
          else bindp (airdap_dap_ownership_control_begin AIRDAP_DAP_OWNER_NETWORK operation)
            (\<lambda>(begin_result, operation).
            let result = ownership_result begin_result in
            if result \<noteq> DAP_ALLOWED then Ret (result, operation)
            else Load Mode_control (\<lambda>after.
              if dap_policy_stamp before AIRDAP_DAP_OWNER_NETWORK \<noteq>
                   dap_policy_stamp after AIRDAP_DAP_OWNER_NETWORK \<or>
                 (before XOR after) AND
                   (MODE_DEBUG_SHELL_ACTIVE OR MODE_DEBUG_SHELL_EPOCH_MASK) \<noteq> 0
              then bindp (airdap_dap_ownership_operation_end operation) (\<lambda>operation.
                bindp (dap_admission_for_control after AIRDAP_DAP_OWNER_NETWORK authenticated True)
                  (\<lambda>latest. Ret (if latest = DAP_ALLOWED then DAP_BUSY else latest, operation)))
              else Ret (DAP_ALLOWED, operation))))))"

definition airdap_mode_state_dap_operation_begin ::
  "u32 \<Rightarrow> bool \<Rightarrow> airdap_dap_ownership_claim option \<Rightarrow> airdap_dap_ownership_operation option \<Rightarrow>
   (airdap_mode_dap_result \<times> airdap_dap_ownership_operation option) prog"
where
  "airdap_mode_state_dap_operation_begin requested_owner authenticated claim operation =
     (if claim = None \<or> operation = None then Ret (DAP_INVALID_ARGUMENT, operation)
      else Load Mode_control (\<lambda>before.
        bindp (dap_admission_for_control before requested_owner authenticated False) (\<lambda>result.
          if result \<noteq> DAP_ALLOWED then Ret (result, operation)
          else bindp (airdap_dap_ownership_operation_begin claim operation)
            (\<lambda>(begin_result, operation).
            let result = ownership_result begin_result in
            if result \<noteq> DAP_ALLOWED then Ret (result, operation)
            else Load Mode_control (\<lambda>after.
              if dap_policy_stamp before requested_owner \<noteq> dap_policy_stamp after requested_owner
              then bindp (airdap_dap_ownership_operation_end operation) (\<lambda>operation.
                bindp (dap_admission_for_control after requested_owner authenticated False)
                  (\<lambda>latest. Ret (if latest = DAP_ALLOWED then DAP_BUSY else latest, operation)))
              else Ret (DAP_ALLOWED, operation))))))"

section \<open>Bit fields\<close>

text \<open>A field of \<open>width\<close> bits at \<open>shift\<close>: what the three field functions do to every bit.\<close>

locale bit_field =
  fixes msk :: u32 and shift width :: nat
  assumes mask_bits: "bit msk n \<longleftrightarrow> shift \<le> n \<and> n < shift + width"
    and fits: "shift + width \<le> 32"
begin

lemma field_bit: "bit (field_value w msk shift) n \<longleftrightarrow> n < width \<and> bit w (n + shift)"
  by (auto simp only: field_value_def bit_drop_bit_eq o_def bit_and_iff mask_bits ac_simps
      le_add1 add_less_cancel_left)

lemma field_lt: "unat (field_value w msk shift) < 2 ^ width"
proof -
  have "field_value w msk shift = take_bit width (field_value w msk shift)"
    by (rule bit_word_eqI) (auto simp: field_bit bit_take_bit_iff)
  then have "unat (field_value w msk shift) = take_bit width (unat (field_value w msk shift))"
    by (metis unsigned_take_bit_eq)
  then show ?thesis by (metis take_bit_nat_less_exp)
qed

lemma replace_bit:
  assumes "unat v < 2 ^ width"
  shows "bit (replace_field w msk shift v) n \<longleftrightarrow>
    (if shift \<le> n \<and> n < shift + width then bit v (n - shift) else bit w n)"
proof -
  have v: "v = take_bit width v"
    using assms by (simp add: word_unat_eq_iff unsigned_take_bit_eq take_bit_nat_eq_self)
  have hi: "bit v m \<Longrightarrow> m < width" for m using v by (metis bit_take_bit_iff)
  have "bit (replace_field w msk shift v) n \<longleftrightarrow>
      bit w n \<and> n < 32 \<and> \<not> (shift \<le> n \<and> n < shift + width) \<or> n < 32 \<and> shift \<le> n \<and> bit v (n - shift)"
    by (auto simp only: replace_field_def bit_or_iff bit_and_iff bit_not_iff mask_bits
        bit_push_bit_iff possible_bit_word len_of_numeral_defs simp_thms)
  moreover have "bit w n \<Longrightarrow> n < 32" using bit_imp_le_length [of w n] by simp
  ultimately show ?thesis using fits hi [of "n - shift"] by (cases "shift \<le> n") auto
qed

lemma field_replace_same:
  assumes "unat v < 2 ^ width"
  shows "field_value (replace_field w msk shift v) msk shift = v"
proof (rule bit_word_eqI)
  fix n
  have "v = take_bit width v"
    using assms by (simp add: word_unat_eq_iff unsigned_take_bit_eq take_bit_nat_eq_self)
  then have "bit v n \<Longrightarrow> n < width" by (metis bit_take_bit_iff)
  then show "bit (field_value (replace_field w msk shift v) msk shift) n \<longleftrightarrow> bit v n"
    by (auto simp: field_bit replace_bit [OF assms])
qed

lemma increment_value:
  "unat ((field_value w msk shift + 1) AND drop_bit shift msk) =
     (unat (field_value w msk shift) + 1) mod 2 ^ width"
proof -
  have m: "drop_bit shift msk = mask width"
    using fits by (intro bit_word_eqI) (auto simp: bit_drop_bit_eq mask_bits bit_mask_iff)
  have w: "width \<le> 32" using fits by simp
  have "unat (field_value w msk shift + 1) mod 2 ^ width = (unat (field_value w msk shift) + 1) mod 2 ^ width"
  proof -
    have "(2::nat) ^ width dvd 2 ^ 32" using w by (rule le_imp_power_dvd)
    then show ?thesis by (simp add: unat_word_ariths mod_mod_cancel)
  qed
  then have "take_bit width (unat (field_value w msk shift + 1)) =
      (unat (field_value w msk shift) + 1) mod 2 ^ width" by (simp add: take_bit_eq_mod)
  then show ?thesis by (simp only: m unsigned_take_bit_eq flip: take_bit_eq_mask)
qed

lemma increment_lt: "unat ((field_value w msk shift + 1) AND drop_bit shift msk) < 2 ^ width"
  by (simp add: increment_value)

lemma field_increment_same:
  "unat (field_value (increment_field w msk shift) msk shift) =
     (unat (field_value w msk shift) + 1) mod 2 ^ width"
  by (simp add: increment_field_def field_replace_same [OF increment_lt] increment_value)

lemma increment_bit:
  "\<not> (shift \<le> n \<and> n < shift + width) \<Longrightarrow> bit (increment_field w msk shift) n \<longleftrightarrow> bit w n"
  by (simp only: increment_field_def replace_bit [OF increment_lt] if_False)

end

lemma mask_bits_of:
  "v = push_bit sh (mask wd :: u32) \<Longrightarrow> sh + wd \<le> 32 \<Longrightarrow> bit v n \<longleftrightarrow> sh \<le> n \<and> n < sh + wd"
  by (auto simp: bit_push_bit_iff bit_mask_iff)

interpretation usb: bit_field MODE_USB_PRESENT "0" 1
  by (rule bit_field.intro, rule mask_bits_of) (simp_all add: mask_eq_exp_minus_1)

interpretation wifi: bit_field MODE_WIFI_MASK MODE_WIFI_SHIFT 2
  by (rule bit_field.intro, rule mask_bits_of) (simp_all add: mask_eq_exp_minus_1)

interpretation prov: bit_field MODE_PROVISIONING_MASK MODE_PROVISIONING_SHIFT 2
  by (rule bit_field.intro, rule mask_bits_of) (simp_all add: mask_eq_exp_minus_1)

interpretation ota: bit_field MODE_OTA_MASK MODE_OTA_SHIFT 2
  by (rule bit_field.intro, rule mask_bits_of) (simp_all add: mask_eq_exp_minus_1)

interpretation ready: bit_field MODE_INITIALIZED "7" 1
  by (rule bit_field.intro, rule mask_bits_of) (simp_all add: mask_eq_exp_minus_1)

interpretation epoch: bit_field MODE_USB_OTA_EPOCH_MASK MODE_USB_OTA_EPOCH_SHIFT 8
  by (rule bit_field.intro, rule mask_bits_of) (simp_all add: mask_eq_exp_minus_1)

interpretation wepoch: bit_field MODE_WIFI_EPOCH_MASK MODE_WIFI_EPOCH_SHIFT 8
  by (rule bit_field.intro, rule mask_bits_of) (simp_all add: mask_eq_exp_minus_1)

interpretation shell: bit_field MODE_DEBUG_SHELL_ACTIVE "24" 1
  by (rule bit_field.intro, rule mask_bits_of) (simp_all add: mask_eq_exp_minus_1)

interpretation sepoch: bit_field MODE_DEBUG_SHELL_EPOCH_MASK MODE_DEBUG_SHELL_EPOCH_SHIFT 5
  by (rule bit_field.intro, rule mask_bits_of) (simp_all add: mask_eq_exp_minus_1)

interpretation route: bit_field MODE_DAP_ROUTE_MASK MODE_DAP_ROUTE_SHIFT 2
  by (rule bit_field.intro, rule mask_bits_of) (simp_all add: mask_eq_exp_minus_1)

section \<open>The abstract mode\<close>

record mode =
  m_usb :: bool
  m_wifi :: nat
  m_prov :: nat
  m_ota :: nat
  m_ready :: bool
  m_epoch :: nat
  m_wepoch :: nat
  m_shell :: bool
  m_sepoch :: nat
  m_route :: nat

definition mode_of :: "u32 \<Rightarrow> mode" where
  "mode_of w = \<lparr>m_usb = (field_value w MODE_USB_PRESENT 0 \<noteq> 0),
     m_wifi = unat (field_value w MODE_WIFI_MASK MODE_WIFI_SHIFT),
     m_prov = unat (field_value w MODE_PROVISIONING_MASK MODE_PROVISIONING_SHIFT),
     m_ota = unat (field_value w MODE_OTA_MASK MODE_OTA_SHIFT),
     m_ready = (field_value w MODE_INITIALIZED 7 \<noteq> 0),
     m_epoch = unat (field_value w MODE_USB_OTA_EPOCH_MASK MODE_USB_OTA_EPOCH_SHIFT),
     m_wepoch = unat (field_value w MODE_WIFI_EPOCH_MASK MODE_WIFI_EPOCH_SHIFT),
     m_shell = (field_value w MODE_DEBUG_SHELL_ACTIVE 24 \<noteq> 0),
     m_sepoch = unat (field_value w MODE_DEBUG_SHELL_EPOCH_MASK MODE_DEBUG_SHELL_EPOCH_SHIFT),
     m_route = unat (field_value w MODE_DAP_ROUTE_MASK MODE_DAP_ROUTE_SHIFT)\<rparr>"

fun mode_event :: "airdap_mode_event \<Rightarrow> mode \<Rightarrow> mode option" where
  "mode_event EVENT_USB_ATTACHED m = Some (m\<lparr>m_usb := True\<rparr>)"
| "mode_event EVENT_USB_DETACHED m = Some (m\<lparr>m_usb := False\<rparr>)"
| "mode_event EVENT_WIFI_STOPPED m = Some (m\<lparr>m_wifi := 0\<rparr>)"
| "mode_event EVENT_WIFI_DISCONNECTED m = (if m_wifi m = 0 then None else Some (m\<lparr>m_wifi := 1\<rparr>))"
| "mode_event EVENT_WIFI_CONNECTING m = Some (m\<lparr>m_wifi := 2\<rparr>)"
| "mode_event EVENT_WIFI_ONLINE m = (if m_wifi m = 2 then Some (m\<lparr>m_wifi := 3\<rparr>) else None)"
| "mode_event EVENT_PROVISIONING_STARTED m = (if m_prov m = 1 then None else Some (m\<lparr>m_prov := 1\<rparr>))"
| "mode_event EVENT_PROVISIONING_SUCCEEDED m = (if m_prov m = 1 then Some (m\<lparr>m_prov := 2\<rparr>) else None)"
| "mode_event EVENT_PROVISIONING_TIMED_OUT m = (if m_prov m = 1 then Some (m\<lparr>m_prov := 3\<rparr>) else None)"
| "mode_event EVENT_PROVISIONING_RESET m = Some (m\<lparr>m_prov := 0\<rparr>)"
| "mode_event EVENT_OTA_STARTED m = (if m_ota m = 0 then Some (m\<lparr>m_ota := 1\<rparr>) else None)"
| "mode_event EVENT_OTA_ABORTED m = (if m_ota m = 1 then Some (m\<lparr>m_ota := 0\<rparr>) else None)"
| "mode_event EVENT_OTA_FAILED m = (if m_ota m = 1 then Some (m\<lparr>m_ota := 0\<rparr>) else None)"
| "mode_event EVENT_OTA_COMMITTED m = (if m_ota m = 1 then Some (m\<lparr>m_ota := 2\<rparr>) else None)"
| "mode_event EVENT_OTA_RESET m = Some (m\<lparr>m_ota := 0\<rparr>)"
| "mode_event EVENT_DEBUG_SHELL_STARTED m = Some (m\<lparr>m_shell := True\<rparr>)"
| "mode_event EVENT_DEBUG_SHELL_ENDED m = Some (m\<lparr>m_shell := False\<rparr>)"
| "mode_event (EVENT_OUT_OF_RANGE n) m = None"

definition policy_event :: "airdap_mode_event \<Rightarrow> bool" where
  "policy_event e \<longleftrightarrow> e \<in> {EVENT_USB_ATTACHED, EVENT_USB_DETACHED, EVENT_OTA_STARTED,
     EVENT_OTA_ABORTED, EVENT_OTA_FAILED, EVENT_OTA_COMMITTED, EVENT_OTA_RESET}"

definition wifi_event :: "airdap_mode_event \<Rightarrow> bool" where
  "wifi_event e \<longleftrightarrow> e \<in> {EVENT_WIFI_STOPPED, EVENT_WIFI_DISCONNECTED, EVENT_WIFI_CONNECTING,
     EVENT_WIFI_ONLINE}"

definition advance_epochs :: "airdap_mode_event \<Rightarrow> mode \<Rightarrow> mode \<Rightarrow> mode" where
  "advance_epochs e m m' =
     (if policy_event e then m'\<lparr>m_epoch := (m_epoch m + 1) mod 2 ^ 8\<rparr>
      else if wifi_event e then m'\<lparr>m_wepoch := (m_wepoch m + 1) mod 2 ^ 8\<rparr>
      else if m_shell m \<noteq> m_shell m' then m'\<lparr>m_sepoch := (m_sepoch m + 1) mod 2 ^ 5\<rparr>
      else m')"


lemma and_replace_other:
  assumes "m AND m' = 0" "push_bit s v AND m' = 0"
  shows "replace_field w m s v AND m' = w AND m'"
proof (rule bit_word_eqI)
  fix n assume "n < LENGTH(32)"
  have "\<not> (bit m n \<and> bit m' n)" "\<not> (bit (push_bit s v) n \<and> bit m' n)"
    using assms by (metis bit_and_iff bit_0_eq bot_apply bot_bool_def)+
  then show "bit (replace_field w m s v AND m') n \<longleftrightarrow> bit (w AND m') n"
    using \<open>n < LENGTH(32)\<close>
    by (auto simp only: replace_field_def bit_and_iff bit_or_iff bit_not_iff possible_bit_word)
qed

lemma and_increment_other:
  assumes "m AND m' = 0" "push_bit s (drop_bit s m) = m"
  shows "increment_field w m s AND m' = w AND m'"
proof -
  have "push_bit s (x AND drop_bit s m) AND m' = 0" for x
    using assms by (simp add: push_bit_and and.assoc)
  then show ?thesis unfolding increment_field_def by (rule and_replace_other [OF assms(1)])
qed

lemma field_zero_iff:
  assumes "push_bit s (drop_bit s m) = m"
  shows "field_value w m s = 0 \<longleftrightarrow> w AND m = 0"
proof -
  have "bit m n \<Longrightarrow> s \<le> n" for n by (metis assms bit_push_bit_iff)
  then have "push_bit s (drop_bit s (w AND m)) = w AND m"
    by (intro bit_word_eqI) (auto simp: bit_simps)
  then show ?thesis by (metis field_value_def drop_bit_of_0 push_bit_of_0)
qed

lemma flag_as_field:
  "w AND MODE_USB_PRESENT = 0 \<longleftrightarrow> field_value w MODE_USB_PRESENT 0 = 0"
  "w AND MODE_INITIALIZED = 0 \<longleftrightarrow> field_value w MODE_INITIALIZED 7 = 0"
  "w AND MODE_DEBUG_SHELL_ACTIVE = 0 \<longleftrightarrow> field_value w MODE_DEBUG_SHELL_ACTIVE 24 = 0"
  "w AND MODE_OTA_MASK = 0 \<longleftrightarrow> field_value w MODE_OTA_MASK MODE_OTA_SHIFT = 0"
  by (subst field_zero_iff; simp)+

lemma replace_field_set:
  assumes "push_bit s v = m" shows "replace_field w m s v = w OR m"
  unfolding replace_field_def assms
  by (rule bit_word_eqI) (auto simp: bit_simps)

lemma set_flag:
  "w OR MODE_USB_PRESENT = replace_field w MODE_USB_PRESENT 0 1"
  "w AND NOT MODE_USB_PRESENT = replace_field w MODE_USB_PRESENT 0 0"
  "w OR MODE_DEBUG_SHELL_ACTIVE = replace_field w MODE_DEBUG_SHELL_ACTIVE 24 1"
  "w AND NOT MODE_DEBUG_SHELL_ACTIVE = replace_field w MODE_DEBUG_SHELL_ACTIVE 24 0"
proof -
  show "w OR MODE_USB_PRESENT = replace_field w MODE_USB_PRESENT 0 1"
    "w OR MODE_DEBUG_SHELL_ACTIVE = replace_field w MODE_DEBUG_SHELL_ACTIVE 24 1"
    by (rule replace_field_set [symmetric]; simp)+
qed (simp_all only: replace_field_def push_bit_of_0 or.right_neutral)

lemmas field_replace_same = usb.field_replace_same wifi.field_replace_same prov.field_replace_same
  ota.field_replace_same shell.field_replace_same route.field_replace_same

lemma field_other:
  "m AND m' = 0 \<Longrightarrow> push_bit s v AND m' = 0 \<Longrightarrow>
   field_value (replace_field w m s v) m' s' = field_value w m' s'"
  "m AND m' = 0 \<Longrightarrow> push_bit s (drop_bit s m) = m \<Longrightarrow>
   field_value (increment_field w m s) m' s' = field_value w m' s'"
  by (simp_all only: field_value_def and_replace_other and_increment_other)

lemma mode_of_replace:
  "v \<in> {0, 1} \<Longrightarrow> mode_of (replace_field w MODE_USB_PRESENT 0 v) = (mode_of w)\<lparr>m_usb := v \<noteq> 0\<rparr>"
  "v \<in> {0, 1} \<Longrightarrow> mode_of (replace_field w MODE_DEBUG_SHELL_ACTIVE 24 v) = (mode_of w)\<lparr>m_shell := v \<noteq> 0\<rparr>"
  "v \<in> {0, 1, 2, 3} \<Longrightarrow> mode_of (replace_field w MODE_WIFI_MASK MODE_WIFI_SHIFT v) = (mode_of w)\<lparr>m_wifi := unat v\<rparr>"
  "v \<in> {0, 1, 2, 3} \<Longrightarrow> mode_of (replace_field w MODE_PROVISIONING_MASK MODE_PROVISIONING_SHIFT v) =
     (mode_of w)\<lparr>m_prov := unat v\<rparr>"
  "v \<in> {0, 1, 2, 3} \<Longrightarrow> mode_of (replace_field w MODE_OTA_MASK MODE_OTA_SHIFT v) = (mode_of w)\<lparr>m_ota := unat v\<rparr>"
  "v \<in> {0, 1, 2, 3} \<Longrightarrow> mode_of (replace_field w MODE_DAP_ROUTE_MASK MODE_DAP_ROUTE_SHIFT v) =
     (mode_of w)\<lparr>m_route := unat v\<rparr>"
  unfolding mode_of_def
  by (auto simp: field_replace_same field_other)

lemma mode_of_increment:
  "mode_of (increment_field w MODE_USB_OTA_EPOCH_MASK MODE_USB_OTA_EPOCH_SHIFT) =
     (mode_of w)\<lparr>m_epoch := (m_epoch (mode_of w) + 1) mod 2 ^ 8\<rparr>"
  "mode_of (increment_field w MODE_WIFI_EPOCH_MASK MODE_WIFI_EPOCH_SHIFT) =
     (mode_of w)\<lparr>m_wepoch := (m_wepoch (mode_of w) + 1) mod 2 ^ 8\<rparr>"
  "mode_of (increment_field w MODE_DEBUG_SHELL_EPOCH_MASK MODE_DEBUG_SHELL_EPOCH_SHIFT) =
     (mode_of w)\<lparr>m_sepoch := (m_sepoch (mode_of w) + 1) mod 2 ^ 5\<rparr>"
  unfolding mode_of_def
  by (auto simp: epoch.field_increment_same wepoch.field_increment_same sepoch.field_increment_same
    field_other)

lemma shell_changed:
  "(v XOR w) AND MODE_DEBUG_SHELL_ACTIVE = 0 \<longleftrightarrow> m_shell (mode_of v) = m_shell (mode_of w)"
proof -
  have b: "bit MODE_DEBUG_SHELL_ACTIVE n \<longleftrightarrow> n = 24" for n by (rule bit_of_flag) simp_all
  have z: "x AND MODE_DEBUG_SHELL_ACTIVE = 0 \<longleftrightarrow> \<not> bit x 24" for x :: u32
  proof
    assume "x AND MODE_DEBUG_SHELL_ACTIVE = 0"
    then have "\<not> bit (x AND MODE_DEBUG_SHELL_ACTIVE) 24" by (simp only: bit_0_eq bot_apply bot_bool_def simp_thms)
    then show "\<not> bit x 24" by (simp only: bit_and_iff b simp_thms)
  next
    assume "\<not> bit x 24"
    then show "x AND MODE_DEBUG_SHELL_ACTIVE = 0" 
      by (intro bit_word_eqI) (auto simp only: bit_and_iff b bit_0_eq bot_apply bot_bool_def)
  qed
  show ?thesis by (simp add: mode_of_def flag_as_field [symmetric] z bit_xor_iff)
qed

lemma event_effect_refines:
  "map_sum id mode_of (event_effect w e) =
     (case mode_event e (mode_of w) of
        None \<Rightarrow> Inl (if \<exists>n. e = EVENT_OUT_OF_RANGE n then MODE_INVALID_ARGUMENT
                      else MODE_INVALID_TRANSITION)
      | Some m \<Rightarrow> Inr m)"
proof -
  have u: "unat (field_value w m s) = 0 \<longleftrightarrow> field_value w m s = 0"
    "unat (field_value w m s) = Suc 0 \<longleftrightarrow> field_value w m s = 1"
    "unat (field_value w m s) = 2 \<longleftrightarrow> field_value w m s = 2" for m s
    by (auto simp: word_unat_eq_iff)
  show ?thesis
    unfolding event_effect_def set_flag Let_def
    by (cases e) (auto simp: mode_of_replace u, auto simp: mode_of_def u unat_gt_0)
qed

lemma event_number_range:
  "event_effect w e = Inr v \<Longrightarrow>
   (e = EVENT_USB_ATTACHED \<or> e = EVENT_USB_DETACHED \<or>
    (event_number e \<ge> event_number EVENT_OTA_STARTED \<and> event_number e \<le> event_number EVENT_OTA_RESET)) =
   policy_event e"
  "event_effect w e = Inr v \<Longrightarrow>
   (event_number e \<ge> event_number EVENT_WIFI_STOPPED \<and> event_number e \<le> event_number EVENT_WIFI_ONLINE) =
   wifi_event e"
  by (cases e; simp add: policy_event_def wifi_event_def event_effect_def)+

lemma mode_event_epochs:
  "mode_event e m = Some m' \<Longrightarrow> m_epoch m' = m_epoch m \<and> m_wepoch m' = m_wepoch m \<and> m_sepoch m' = m_sepoch m"
  by (cases e) (auto split: if_splits)

lemma next_control_mode:
  "map_sum id mode_of (next_control w e) =
     (case mode_event e (mode_of w) of
        None \<Rightarrow> Inl (if \<exists>n. e = EVENT_OUT_OF_RANGE n then MODE_INVALID_ARGUMENT
                      else MODE_INVALID_TRANSITION)
      | Some m \<Rightarrow> Inr (advance_epochs e (mode_of w) m))"
proof (cases "event_effect w e")
  case (Inl r)
  then show ?thesis using event_effect_refines [of w e]
    by (auto simp: next_control_def split: option.splits)
next
  case (Inr v)
  then have m: "mode_event e (mode_of w) = Some (mode_of v)"
    using event_effect_refines [of w e] by (auto split: option.splits)
  show ?thesis
    unfolding next_control_def Inr event_number_range [OF Inr] sum.case shell_changed
    using mode_event_epochs [OF m] by (simp add: m advance_epochs_def mode_of_increment)
qed

text \<open>C22. next_control implements the abstract mode machine on every control word and event: the packed fields change exactly as the record does, illegal transitions and unknown events are rejected with the right error, and exactly one of the three wrapping epoch counters advances, on the events that can change the policy it guards.\<close>

theorem next_control_refines:
  "map_sum id mode_of (next_control w e) =
     (case mode_event e (mode_of w) of
        None \<Rightarrow> Inl (if \<exists>n. e = EVENT_OUT_OF_RANGE n then MODE_INVALID_ARGUMENT
                      else MODE_INVALID_TRANSITION)
      | Some m \<Rightarrow> Inr (advance_epochs e (mode_of w) m))"
  by (rule next_control_mode)

section \<open>The policy\<close>

definition mode_ok :: "u32 \<Rightarrow> bool" where
  "mode_ok w \<longleftrightarrow> m_route (mode_of w) \<le> 2 \<and> m_ota (mode_of w) \<le> 2"

lemma control_admission_allowed:
  "control_admission w r a y = DAP_ALLOWED \<longleftrightarrow>
     is_owner r \<and> w AND MODE_INITIALIZED \<noteq> 0 \<and>
     field_value w MODE_OTA_MASK MODE_OTA_SHIFT = AIRDAP_OTA_IDLE \<and>
     (r = AIRDAP_DAP_OWNER_USB \<longrightarrow>
        field_value w MODE_DAP_ROUTE_MASK MODE_DAP_ROUTE_SHIFT \<noteq> AIRDAP_DAP_ROUTE_NETWORK \<and>
        w AND MODE_USB_PRESENT \<noteq> 0) \<and>
     (r = AIRDAP_DAP_OWNER_NETWORK \<longrightarrow> a \<and>
        field_value w MODE_WIFI_MASK MODE_WIFI_SHIFT = AIRDAP_WIFI_ONLINE \<and>
        (if y then w AND MODE_DEBUG_SHELL_ACTIVE = 0
         else field_value w MODE_DAP_ROUTE_MASK MODE_DAP_ROUTE_SHIFT \<noteq> AIRDAP_DAP_ROUTE_USB \<and>
              (field_value w MODE_DAP_ROUTE_MASK MODE_DAP_ROUTE_SHIFT = AIRDAP_DAP_ROUTE_AUTO \<longrightarrow>
               w AND MODE_USB_PRESENT = 0))) \<and>
     (r = AIRDAP_DAP_OWNER_DIAGNOSTIC \<longrightarrow> w AND MODE_USB_PRESENT \<noteq> 0)"
  unfolding control_admission_def Let_def
  by (cases "r = 1"; cases "r = 2"; cases "r = 3"; simp add: is_owner_iff; blast?)

text \<open>The DAP policy is exclusive and fail-closed: on one mode word USB and the network are never both admitted to DAP; while an OTA is in progress or the mode state is not initialised nobody is admitted to anything; and the network is admitted only when authenticated and with Wi-Fi online.\<close>

theorem dap_admission_exclusive:
  assumes "mode_ok w"
  shows "\<not> (control_admission w AIRDAP_DAP_OWNER_USB a False = DAP_ALLOWED \<and>
            control_admission w AIRDAP_DAP_OWNER_NETWORK b False = DAP_ALLOWED) \<and>
    (m_ota (mode_of w) \<noteq> 0 \<or> \<not> m_ready (mode_of w) \<longrightarrow>
      (\<forall>r x y. control_admission w r x y \<noteq> DAP_ALLOWED)) \<and>
    (control_admission w AIRDAP_DAP_OWNER_NETWORK b y = DAP_ALLOWED \<longrightarrow>
      b \<and> m_wifi (mode_of w) = 3)"
proof -
  have r: "field_value w MODE_DAP_ROUTE_MASK MODE_DAP_ROUTE_SHIFT \<in> {0, 1, 2}"
    using assms by (auto simp: mode_ok_def mode_of_def word_unat_eq_iff)
  have "m_ota (mode_of w) \<noteq> 0 \<longleftrightarrow> field_value w MODE_OTA_MASK MODE_OTA_SHIFT \<noteq> 0"
    by (auto simp: mode_of_def word_unat_eq_iff)
  moreover have "m_ready (mode_of w) \<longleftrightarrow> w AND MODE_INITIALIZED \<noteq> 0"
    by (simp add: mode_of_def flag_as_field)
  ultimately show ?thesis using r by (simp add: control_admission_allowed) (auto simp: mode_of_def)
qed

lemma and_stamp:
  assumes "v AND m = w AND m" "m AND k = k"
  shows "v AND k = w AND k"
  by (metis assms and.assoc)

lemma stamp_fields:
  assumes "dap_policy_stamp v r = dap_policy_stamp w r"
  shows "v AND MODE_USB_PRESENT = w AND MODE_USB_PRESENT" "v AND MODE_OTA_MASK = w AND MODE_OTA_MASK"
    "v AND MODE_DAP_ROUTE_MASK = w AND MODE_DAP_ROUTE_MASK"
    "r = AIRDAP_DAP_OWNER_NETWORK \<Longrightarrow> v AND MODE_WIFI_MASK = w AND MODE_WIFI_MASK"
proof -
  have n: "dap_policy_stamp x AIRDAP_DAP_OWNER_NETWORK = x AND 0xC0FFFF67" for x
    by (simp add: dap_policy_stamp_def Let_def flip: bit.conj_disj_distrib)
  have o: "r \<noteq> 2 \<Longrightarrow> dap_policy_stamp x r = x AND 0xC000FF61" for x
    by (simp add: dap_policy_stamp_def Let_def)
  show "v AND MODE_USB_PRESENT = w AND MODE_USB_PRESENT" "v AND MODE_OTA_MASK = w AND MODE_OTA_MASK"
    "v AND MODE_DAP_ROUTE_MASK = w AND MODE_DAP_ROUTE_MASK"
    "r = AIRDAP_DAP_OWNER_NETWORK \<Longrightarrow> v AND MODE_WIFI_MASK = w AND MODE_WIFI_MASK"
    using assms n o
    by (cases "r = 2"; auto intro: and_stamp [of v "0xC0FFFF67" w] and_stamp [of v "0xC000FF61" w])+
qed

text \<open>The policy stamp that the transactions compare covers everything the admission policy reads: two initialised mode words with the same stamp for an owner give that owner the same admission decision.\<close>

theorem policy_stamp_covers_admission:
  assumes "dap_policy_stamp v r = dap_policy_stamp w r"
    "v AND MODE_INITIALIZED = w AND MODE_INITIALIZED"
  shows "control_admission v r a False = control_admission w r a False"
  using stamp_fields [OF assms(1)] assms(2)
  by (simp add: control_admission_def Let_def field_value_def)

section \<open>The mode functions keep the arbiter's discipline\<close>

lemma current_keeps: "obeys airdap_dap_ownership_current t (\<lambda>_ t'. t' = t)"
  by (simp add: airdap_dap_ownership_current_def Let_def)

lemma admission_keeps: "obeys (dap_admission_for_control c r a b) t (\<lambda>_ t'. t' = t)"
  unfolding dap_admission_for_control_def
  by (auto split: airdap_mode_dap_result.split intro: obeys_bindp [OF current_keeps])

lemma preemption_keeps:
  "obeys (leave_preemption b p) t Q = obeys p t Q" "obeys (enter_preemption b p) t Q = obeys p t Q"
  by (auto simp: leave_preemption_def enter_preemption_def)

lemma obeys_mode_cas: "(\<And>r. obeys (k r) t Q) \<Longrightarrow> obeys (Cas Mode_control w e d k) t Q"
  by (simp add: obeys.simps(5))

lemma transition_obeys: "obeys (airdap_mode_state_transition n e) Free returns_free"
proof -
  have "obeys (transition_loop n e c) Free returns_free" for c
  proof (induction n arbitrary: c)
    case (Suc n)
    then show ?case
      by (auto simp: Let_def preemption_keeps split: sum.split prod.split
          intro!: obeys_mode_cas obeys_bindp [OF revoke_owner_obeys])
  qed simp
  then show ?thesis by (simp add: airdap_mode_state_transition_def preemption_keeps)
qed

lemma get_obeys: "obeys (airdap_mode_state_get b) Free returns_free"
  by (auto simp: airdap_mode_state_get_def intro: obeys_bindp [OF current_keeps])

lemma init_obeys: "obeys airdap_mode_state_init Free returns_free"
  by (simp add: airdap_mode_state_init_def)

lemma dap_admission_obeys: "obeys (airdap_mode_state_dap_admission r a) Free returns_free"
  by (simp add: airdap_mode_state_dap_admission_def admission_keeps)

lemma restore_obeys: "obeys airdap_mode_state_restore_dap_route Free returns_free"
  by (auto simp: airdap_mode_state_restore_dap_route_def airdap_mode_storage_load_def Let_def
      split: option.split prod.split intro!: obeys_mode_cas)

lemma select_route_keeps: "obeys (select_route n r) t (\<lambda>_ t'. t' = t)"
proof -
  have l: "obeys (store_route_loop n x c) t (\<lambda>_ t'. t' = t)" for x c
    by (induction n arbitrary: c) (auto intro!: obeys_mode_cas)
  show ?thesis
    by (auto simp: select_route_def airdap_mode_storage_save_def Let_def l split: prod.split)
qed

lemma set_route_obeys: "obeys (airdap_mode_state_set_dap_route n r) Free returns_free"
  unfolding airdap_mode_state_set_dap_route_def
  by (auto simp: Let_def zero_operation_def begun_def
      intro!: obeys_bindp [OF control_op.begin_obeys] obeys_bindp [OF operation_end_obeys]
        obeys_bindp [OF select_route_keeps] split: prod.split)

lemma dap_acquire_obeys: "obeys (airdap_mode_state_dap_acquire r a b) Free returns_free"
  unfolding airdap_mode_state_dap_acquire_def dap_acquire_def dap_acquire_admission_def
  by (auto simp: Let_def preemption_keeps split: prod.split
      intro!: obeys_bindp [OF admission_keeps] obeys_bindp [OF current_keeps] obeys_bindp [OF revoke_owner_obeys]
       obeys_bindp [OF acquire_obeys] obeys_bindp [OF release_obeys] obeys_bindp [where R = returns_free])

lemma operation_end_released:
  "holds_operation operation t \<Longrightarrow>
   obeys (airdap_dap_ownership_operation_end operation) t (\<lambda>a t'. t' = Free \<and> holds_operation a Free)"
  by (auto simp: airdap_dap_ownership_operation_end_def holds_operation_def Let_def zero_operation_def
      intro!: obeys_cas split: option.splits)

lemma ownership_allowed:
  "ownership_result r = DAP_ALLOWED \<longleftrightarrow> r = OWNERSHIP_OK \<or> r = OWNERSHIP_ALREADY_OWNER"
  by (cases r) auto

text \<open>
  What follows a successful begin in both wrappers: keep the operation, or end it and report
  something other than ALLOWED.
\<close>

lemma recheck_obeys:
  assumes "holds_operation op t" "(r = OWNERSHIP_OK \<longleftrightarrow> t \<noteq> Free)" "r \<noteq> OWNERSHIP_ALREADY_OWNER"
    and "\<And>c. obeys (adm c) Free (\<lambda>_ t. t = Free)"
  shows "obeys (let result = ownership_result r in
      if result \<noteq> DAP_ALLOWED then Ret (result, op)
      else Load Mode_control (\<lambda>after.
        if stale after
        then bindp (airdap_dap_ownership_operation_end op) (\<lambda>operation.
          bindp (adm after) (\<lambda>latest. Ret (if latest = DAP_ALLOWED then DAP_BUSY else latest, operation)))
        else Ret (DAP_ALLOWED, op))) t (begun DAP_ALLOWED)"
proof -
  have "obeys (bindp (airdap_dap_ownership_operation_end op) (\<lambda>operation.
          bindp (adm c) (\<lambda>latest. Ret (if latest = DAP_ALLOWED then DAP_BUSY else latest, operation)))) t
        (begun DAP_ALLOWED)" for c
  proof (rule obeys_bindp [OF operation_end_released])
    show "holds_operation op t" by fact
    fix a t' assume "t' = Free \<and> holds_operation a Free"
    then show "obeys (bindp (adm c) (\<lambda>latest. Ret (if latest = DAP_ALLOWED then DAP_BUSY else latest, a)))
        t' (begun DAP_ALLOWED)"
      using assms(4) by (auto intro!: obeys_bindp [OF assms(4)] simp: begun_def)
  qed
  then show ?thesis using assms(1-3)
    by (auto simp: Let_def begun_def ownership_allowed)
qed

lemma admission_body_obeys:
  assumes "holds_operation operation Free"
    "obeys p Free (begun DAP_ALLOWED)"
  shows "obeys (bindp (dap_admission_for_control c r a b) (\<lambda>result.
      if result \<noteq> DAP_ALLOWED then Ret (result, operation) else p)) Free (begun DAP_ALLOWED)"
  using assms by (auto intro!: obeys_bindp [OF admission_keeps] simp: begun_def)

interpretation mode_control_op: bus_operation "airdap_mode_state_control_operation_begin a" DAP_ALLOWED for a
proof
  fix op :: airdap_dap_ownership_operation assume "\<not> op_active op"
  then show "obeys (airdap_mode_state_control_operation_begin a (Some op)) Free (begun DAP_ALLOWED)"
    unfolding airdap_mode_state_control_operation_begin_def
    by (auto intro!: admission_body_obeys obeys_bindp [OF control_begin_obeys] recheck_obeys admission_keeps
      simp: holds_operation_def split: prod.split)
qed

interpretation mode_dap_op: bus_operation "airdap_mode_state_dap_operation_begin r a c" DAP_ALLOWED for r a c
proof
  fix op :: airdap_dap_ownership_operation assume "\<not> op_active op"
  then show "obeys (airdap_mode_state_dap_operation_begin r a c (Some op)) Free (begun DAP_ALLOWED)"
    unfolding airdap_mode_state_dap_operation_begin_def
    by (auto intro!: admission_body_obeys obeys_bindp [OF operation_begin_obeys] recheck_obeys admission_keeps
      simp: holds_operation_def begun_def split: prod.split)
qed

lemma next_control_ok: "mode_ok w \<Longrightarrow> next_control w e = Inr v \<Longrightarrow> mode_ok v"
proof -
  assume ok: "mode_ok w" and n: "next_control w e = Inr v"
  obtain m where m: "mode_event e (mode_of w) = Some m" "mode_of v = advance_epochs e (mode_of w) m"
    using next_control_mode [of w e] n by (auto split: option.splits)
  then show ?thesis using ok
    by (cases e) (auto simp: mode_ok_def advance_epochs_def split: if_splits)
qed

lemma routed_control_ok:
  "mode_ok c \<Longrightarrow> v \<in> {0, 1, 2} \<Longrightarrow> mode_of (routed_control c v) =
     (mode_of c)\<lparr>m_route := unat v, m_epoch := (m_epoch (mode_of c) + 1) mod 2 ^ 8\<rparr>"
  unfolding routed_control_def mode_of_increment by (auto simp: mode_of_replace)

lemmas mode_ownership_writes [simp] =
  ownership_writes [of Mode_control, simplified] suspend_writes [of Mode_control, simplified]

lemma admission_writes: "writes_ok Mode_control I (dap_admission_for_control c r a b) (\<lambda>_. True)"
  unfolding dap_admission_for_control_def
  by (auto split: airdap_mode_dap_result.split intro!: writes_ok_bindp [OF ownership_writes(2)])

lemma preemption_writes:
  "writes_ok Mode_control I (leave_preemption b p) Q = writes_ok Mode_control I p Q"
  "writes_ok Mode_control I (enter_preemption b p) Q = writes_ok Mode_control I p Q"
  by (auto simp: leave_preemption_def enter_preemption_def)

lemma selected_route_cases: "route \<le> 4 \<Longrightarrow> selected_route route c \<in> {0, 1, 2}"
proof -
  assume "route \<le> 4"
  then have "route \<in> {0, 1, 2, 3, 4}" by (auto simp: word_le_nat_alt word_unat_eq_iff)
  then show ?thesis by (auto simp: selected_route_def Let_def)
qed

abbreviation mode_writes :: "'a prog \<Rightarrow> bool" where
  "mode_writes p \<equiv> writes_ok Mode_control mode_ok p (\<lambda>_. True)"

lemma mode_of_ready: "mode_of MODE_INITIALIZED = mode_of 0 \<lparr>m_ready := True\<rparr>"
  by (simp add: mode_of_def field_value_def)

lemma mode_ok_initial: "mode_ok 0" "mode_ok MODE_INITIALIZED"
  by (simp_all add: mode_ok_def mode_of_def field_value_def)

lemma transition_writes: "mode_writes (airdap_mode_state_transition n e)"
proof -
  have "mode_ok c \<Longrightarrow> mode_writes (transition_loop n e c)" for c
  proof (induction n arbitrary: c)
    case (Suc n)
    then show ?case
      by (auto simp: Let_def preemption_writes next_control_ok split: sum.split prod.split
          intro!: writes_ok_bindp [OF ownership_writes(6)])
  qed simp
  then show ?thesis by (simp add: airdap_mode_state_transition_def preemption_writes)
qed

lemma storage_load_writes: "writes_ok Mode_control I airdap_mode_storage_load (\<lambda>r. \<forall>v. r = Some v \<longrightarrow> v \<in> {0, 1, 2})"
proof -
  have "x \<le> 2 \<Longrightarrow> ucast (x :: u8) \<in> {0, 1, 2 :: u32}" for x
  proof -
    assume "x \<le> 2"
    then have "x = 0 \<or> x = 1 \<or> x = 2" by (auto simp: word_le_nat_alt word_unat_eq_iff)
    then show ?thesis by auto
  qed
  then show ?thesis
    by (auto simp: airdap_mode_storage_load_def Let_def linorder_not_less split: prod.split)
qed

lemma restore_writes: "mode_writes airdap_mode_state_restore_dap_route"
  unfolding airdap_mode_state_restore_dap_route_def
  by (auto intro!: writes_ok_bindp [OF storage_load_writes] split: option.split
      simp: mode_ok_def mode_of_replace)

lemma select_route_writes: "route \<le> 4 \<Longrightarrow> mode_writes (select_route n route)"
proof -
  assume r: "route \<le> 4"
  have l: "v \<in> {0, 1, 2} \<Longrightarrow> mode_ok c \<Longrightarrow> mode_writes (store_route_loop n v c)" for v c
    by (induction n arbitrary: c) (auto simp: mode_ok_def routed_control_ok split: prod.split)
  show ?thesis
    using l selected_route_cases [OF r]
    by (auto simp: select_route_def airdap_mode_storage_save_def Let_def split: prod.split)
qed

lemma set_route_writes: "mode_writes (airdap_mode_state_set_dap_route n route)"
  unfolding airdap_mode_state_set_dap_route_def
  by (auto simp: Let_def split: prod.split
      intro!: writes_ok_bindp [OF ownership_writes(8)] writes_ok_bindp [OF ownership_writes(9)]
        writes_ok_bindp [OF select_route_writes])

lemma dap_acquire_writes: "mode_writes (airdap_mode_state_dap_acquire r a b)"
  unfolding airdap_mode_state_dap_acquire_def dap_acquire_def dap_acquire_admission_def
  by (auto simp: Let_def preemption_writes split: prod.split
      intro!: writes_ok_bindp [OF admission_writes] writes_ok_bindp [where R = "\<lambda>_. True"])

lemma begin_writes:
  "mode_writes (airdap_mode_state_control_operation_begin a op)"
  "mode_writes (airdap_mode_state_dap_operation_begin r a c op)"
  unfolding airdap_mode_state_control_operation_begin_def airdap_mode_state_dap_operation_begin_def
  by (auto simp: Let_def split: prod.split
      intro!: writes_ok_bindp [OF admission_writes] writes_ok_bindp [where R = "\<lambda>_. True"])

lemma session_writes:
  "writes_ok Mode_control I b (\<lambda>_. True) \<Longrightarrow> (\<And>r. writes_ok Mode_control I (f r) Q) \<Longrightarrow>
   writes_ok Mode_control I (bus_session ok b n f) Q"
proof -
  assume b: "writes_ok Mode_control I b (\<lambda>_. True)" and f: "\<And>r. writes_ok Mode_control I (f r) Q"
  have a: "writes_ok Mode_control I p Q \<Longrightarrow> writes_ok Mode_control I (bus_accesses n p) Q" for p
    by (induction n) auto
  show ?thesis unfolding bus_session_def
    by (rule writes_ok_bindp [OF b])
      (auto simp: f split: prod.split intro!: a writes_ok_bindp [where R = "\<lambda>_. True"])
qed

section \<open>Tasks that use the mode state and the arbiter\<close>

inductive_set mode_clients :: "unit prog set" where
  finished: "Ret () \<in> mode_clients"
| init: "(\<And>r. f r \<in> mode_clients) \<Longrightarrow> bindp airdap_mode_state_init f \<in> mode_clients"
| transition: "(\<And>r. f r \<in> mode_clients) \<Longrightarrow> bindp (airdap_mode_state_transition n e) f \<in> mode_clients"
| get: "(\<And>r. f r \<in> mode_clients) \<Longrightarrow> bindp (airdap_mode_state_get b) f \<in> mode_clients"
| admission: "(\<And>r. f r \<in> mode_clients) \<Longrightarrow> bindp (airdap_mode_state_dap_admission ow a) f \<in> mode_clients"
| restore: "(\<And>r. f r \<in> mode_clients) \<Longrightarrow> bindp airdap_mode_state_restore_dap_route f \<in> mode_clients"
| set_route: "(\<And>r. f r \<in> mode_clients) \<Longrightarrow> bindp (airdap_mode_state_set_dap_route n route) f \<in> mode_clients"
| acquire: "(\<And>r. f r \<in> mode_clients) \<Longrightarrow> bindp (airdap_mode_state_dap_acquire ow a b) f \<in> mode_clients"
| release: "(\<And>r. f r \<in> mode_clients) \<Longrightarrow> bindp (airdap_dap_ownership_release c) f \<in> mode_clients"
| initialize: "(\<And>r. f r \<in> mode_clients) \<Longrightarrow> bindp (airdap_dap_ownership_initialize b) f \<in> mode_clients"
| revoke: "(\<And>r. f r \<in> mode_clients) \<Longrightarrow> bindp airdap_dap_ownership_revoke f \<in> mode_clients"
| suspend: "(\<And>r. f r \<in> mode_clients) \<Longrightarrow> bindp (airdap_dap_ownership_suspend n) f \<in> mode_clients"
| resume: "(\<And>r. f r \<in> mode_clients) \<Longrightarrow> bindp (airdap_dap_ownership_resume n) f \<in> mode_clients"
| dap_session: "(\<And>r. f r \<in> mode_clients) \<Longrightarrow> bus_session DAP_ALLOWED
    (airdap_mode_state_dap_operation_begin ow a c (Some zero_operation)) n f \<in> mode_clients"
| control_session: "(\<And>r. f r \<in> mode_clients) \<Longrightarrow> bus_session DAP_ALLOWED
    (airdap_mode_state_control_operation_begin a (Some zero_operation)) n f \<in> mode_clients"

lemma mode_clients_obey: "client_set mode_clients"
  unfolding client_set_def
proof
  fix p assume "p \<in> mode_clients"
  then show "obeys p Free returns_free"
    by induction (auto intro: obeys_bindp init_obeys transition_obeys get_obeys dap_admission_obeys
      restore_obeys set_route_obeys dap_acquire_obeys release_obeys initialize_obeys revoke_obeys
      suspend_obeys resume_obeys mode_dap_op.session_obeys mode_control_op.session_obeys)
qed

lemma mode_clients_write: "p \<in> mode_clients \<Longrightarrow> mode_writes p"
proof (induction rule: mode_clients.induct)
  case (get f b)
  have "mode_writes (airdap_mode_state_get b)"
    by (auto simp: airdap_mode_state_get_def intro!: writes_ok_bindp [where R = "\<lambda>_. True"])
  then show ?case using get by (auto intro: writes_ok_bindp)
next
  case (init f)
  then show ?case by (simp add: airdap_mode_state_init_def mode_ok_initial)
next
  case (admission f ow a)
  have "mode_writes (airdap_mode_state_dap_admission ow a)"
    by (simp add: airdap_mode_state_dap_admission_def admission_writes)
  then show ?case using admission by (auto intro: writes_ok_bindp)
qed (auto intro: writes_ok_bindp session_writes begin_writes mode_ownership_writes transition_writes
  restore_writes set_route_writes dap_acquire_writes)

text \<open>C23. In every interleaving of tasks using the mode state, the packed word always holds a legal route (AUTO, USB or NETWORK, also after toggles and restores from NVS) and a legal OTA state.\<close>

theorem mode_always_ok:
  assumes "sys_steps mode_clients initial (ts, s)"
  shows "mode_ok (s Mode_control)"
  using sys_steps_writes_ok [OF assms mode_clients_write] mode_ok_initial by (simp add: initial_def)

text \<open>C24. Mutual exclusion on the debug pins holds for tasks that go through the mode state: sessions opened by dap_operation_begin or control_operation_begin, route changes, USB attach events and acquisitions never let two tasks drive the pins at once.\<close>

theorem mode_bus_exclusion:
  assumes "sys_steps mode_clients initial (ts, s)" "drives (ts i)" "drives (ts j)"
  shows "i = j"
  using drives_exclusive [OF ownership_inv_steps [OF assms(1) mode_clients_obey ownership_inv_initial]] assms(2,3) .

section \<open>Sequential behaviour\<close>

definition other_owner :: "u32 \<Rightarrow> u32 \<Rightarrow> bool" where
  "other_owner w r \<longleftrightarrow> is_owner (control_state w) \<and> control_state w \<noteq> r"

lemma admission_run:
  "run E (dap_admission_for_control c r a b) s h =
     Some (if control_admission c r a b = DAP_ALLOWED \<and> other_owner (s Ownership_control) r then DAP_BUSY
           else control_admission c r a b, s, h)"
  unfolding dap_admission_for_control_def
  by (auto simp: run_bindp current_run other_owner_def is_owner_iff split: airdap_mode_dap_result.splits)

lemma preemption_run:
  "run E (leave_preemption b p) s h =
     run E p (if b then s(Usb_preemptions_inflight := s Usb_preemptions_inflight - 1) else s) h"
  "run E (enter_preemption b p) s h =
     run E p (if b then s(Usb_preemptions_inflight := s Usb_preemptions_inflight + 1) else s) h"
  by (simp_all add: leave_preemption_def enter_preemption_def)

text \<open>USB preempts the network: when the policy admits USB and the network holds the idle bus, airdap_mode_state_dap_acquire for USB revokes the network claim and is granted the next generation, leaving the preemption counter as it was.\<close>

theorem usb_preempts_network:
  assumes "control_admission (s Mode_control) AIRDAP_DAP_OWNER_USB a False = DAP_ALLOWED"
    "s Ownership_control = make_control g AIRDAP_DAP_OWNER_NETWORK"
    "g < OWNERSHIP_CONTROL_GENERATION_MAX"
    "env_release_pins E h = (True, h1)" "env_line_reset E h1 = (True, h2)"
  shows "run E (airdap_mode_state_dap_acquire AIRDAP_DAP_OWNER_USB a True) s h =
    Some ((DAP_ALLOWED, Some \<lparr>claim_owner = AIRDAP_DAP_OWNER_USB, claim_generation = g + 1\<rparr>),
      s(Ownership_control := make_control (g + 1) AIRDAP_DAP_OWNER_USB), h2)"
proof -
  have g: "g \<le> 0x0FFFFFFF" using assms(3) by simp
  have own: "is_owner 2" "is_owner 1" by (simp_all add: is_owner_def)
  have r: "field_value (s Mode_control) MODE_DAP_ROUTE_MASK MODE_DAP_ROUTE_SHIFT \<noteq> 2"
    using assms(1) by (simp add: control_admission_allowed)
  have w: "control_state (make_control g 2) = 2" "control_state (make_control g 0) = 0"
    using g by (simp_all add: control_simps)
  have "run E (airdap_mode_state_dap_acquire AIRDAP_DAP_OWNER_USB a True) s h =
    Some ((DAP_ALLOWED, Some \<lparr>claim_owner = AIRDAP_DAP_OWNER_USB, claim_generation = g + 1\<rparr>),
      s(Usb_preemptions_inflight := s Usb_preemptions_inflight + 1,
        Ownership_control := make_control (g + 1) AIRDAP_DAP_OWNER_USB,
        Usb_preemptions_inflight := s Usb_preemptions_inflight), h2)"
    using assms r w own g
    by (simp add: airdap_mode_state_dap_acquire_def dap_acquire_def dap_acquire_admission_def Let_def
        preemption_run run_bindp admission_run current_run other_owner_def is_owner_def
        revoke_owner_run [OF own(1) g _ assms(4)] acquire_run [OF own(2) assms(3) _ assms(5)])
  then show ?thesis by (simp add: fun_upd_twist fun_upd_idem)
qed

lemma store_route_run:
  "run E (store_route_loop (Suc n) v (s Mode_control)) s h =
     Some (DAP_ALLOWED, s(Mode_control := routed_control (s Mode_control) v), h)"
  by simp

lemma select_route_run:
  assumes "route \<le> AIRDAP_DAP_ROUTE_NETWORK_AUTO_TOGGLE"
  defines "sel s \<equiv> selected_route route (s Mode_control)"
  shows "\<exists>r m h'. run E (select_route (Suc n) route) s h = Some (r, s(Mode_control := m), h') \<and>
    (if r = DAP_ALLOWED
     then m_route (mode_of m) = unat (sel s) \<and>
          (m = s Mode_control \<and> h' = h \<or>
           env_nvs_save E (ucast (sel s)) h = ((ESP_OK, ESP_OK, ESP_OK), h') \<and>
           m = routed_control (s Mode_control) (sel s))
     else m = s Mode_control)"
proof -
  have sel: "sel s \<in> {0, 1, 2}" unfolding sel_def by (rule selected_route_cases [OF assms(1)])
  then have le: "\<not> 2 < sel s" by auto
  have m: "m_route (mode_of (routed_control (s Mode_control) (sel s))) = unat (sel s)"
    using sel unfolding routed_control_def mode_of_increment by (auto simp: mode_of_replace)
  obtain e1 e2 e3 h1 where nv: "env_nvs_save E (ucast (sel s)) h = ((e1, e2, e3), h1)"
    by (metis prod_cases3 surj_pair)
  show ?thesis
    using nv m le
    by (simp add: select_route_def run_bindp airdap_mode_storage_save_def Let_def store_route_run
        sel_def [symmetric] fun_upd_idem)
      (auto simp: mode_of_def intro: exI [of _ "s Mode_control"])
qed

text \<open>A route selection on an idle bus ends, leaves the arbiter as it found it, and either reports ALLOWED with the selected route in the mode word (which, when it changed, was saved and committed to NVS first) or leaves the mode word unchanged, as it does when NVS fails.\<close>

theorem set_dap_route_outcomes:
  assumes "s Ownership_control = make_control g AIRDAP_DAP_OWNER_NONE"
    "g \<le> OWNERSHIP_CONTROL_GENERATION_MAX" "route \<le> AIRDAP_DAP_ROUTE_NETWORK_AUTO_TOGGLE"
  shows "\<exists>r m h'. run E (airdap_mode_state_set_dap_route (Suc n) route) s h =
      Some (r, s(Mode_control := m), h') \<and>
    (if r = DAP_ALLOWED
     then m_route (mode_of m) = unat (selected_route route (s Mode_control)) \<and>
          (m = s Mode_control \<and> h' = h \<or>
           env_nvs_save E (ucast (selected_route route (s Mode_control))) h =
             ((ESP_OK, ESP_OK, ESP_OK), h'))
     else m = s Mode_control)"
proof -
  let ?op = "\<lparr>op_owner = 0, op_generation = g, op_active = True\<rparr>"
  let ?s1 = "s(Ownership_control := make_control g 0 OR 8)"
  obtain r m h' where sr: "run E (select_route (Suc n) route) ?s1 h = Some (r, ?s1(Mode_control := m), h')"
    "if r = DAP_ALLOWED
     then m_route (mode_of m) = unat (selected_route route (?s1 Mode_control)) \<and>
          (m = ?s1 Mode_control \<and> h' = h \<or>
           env_nvs_save E (ucast (selected_route route (?s1 Mode_control))) h = ((ESP_OK, ESP_OK, ESP_OK), h') \<and>
           m = routed_control (?s1 Mode_control) (selected_route route (?s1 Mode_control)))
     else m = ?s1 Mode_control"
    using select_route_run [OF assms(3), of E n ?s1 h] by blast
  have "run E (airdap_mode_state_set_dap_route (Suc n) route) s h =
      Some (r, ?s1(Mode_control := m, Ownership_control := make_control g 0), h')"
    using assms(1,2) sr(1) leD [OF assms(3)]
    by (simp add: airdap_mode_state_set_dap_route_def control_begin_idle_run run_bindp Let_def
        is_owner_def operation_end_run [of ?op])
  moreover have "?s1(Mode_control := m, Ownership_control := make_control g 0) = s(Mode_control := m)"
    using assms(1) by (auto simp: fun_eq_iff)
  ultimately show ?thesis using sr(2) by auto
qed

text \<open>dap_operation_begin returns ALLOWED exactly when the policy admits the requested owner and the arbiter carries the presented claim of that owner with no operation running; then the operation is marked active, otherwise nothing changes.\<close>

theorem dap_operation_begin_sound:
  assumes "valid_claim (Some c)"
  shows "\<exists>r. run E (airdap_mode_state_dap_operation_begin ow a (Some c) (Some zero_operation)) s h =
     (if r = DAP_ALLOWED
      then Some ((r, Some \<lparr>op_owner = claim_owner c, op_generation = claim_generation c, op_active = True\<rparr>),
                 s(Ownership_control := s Ownership_control OR OWNERSHIP_CONTROL_ACTIVE), h)
      else Some ((r, Some zero_operation), s, h)) \<and>
    (r = DAP_ALLOWED \<longleftrightarrow>
      control_admission (s Mode_control) ow a False = DAP_ALLOWED \<and> claim_owner c = ow \<and>
      s Ownership_control = make_control (claim_generation c) (claim_owner c))"
proof -
  have v: "is_owner (claim_owner c)" "claim_generation c \<le> 0x0FFFFFFF"
    using assms by (auto simp: valid_claim_def)
  have o: "other_owner (make_control (claim_generation c) (claim_owner c)) ow \<longleftrightarrow> claim_owner c \<noteq> ow"
    using v claim_word [OF v] by (simp add: other_owner_def)
  have nf: "ownership_result (claim_failure_result w c) \<noteq> DAP_ALLOWED" for w
    by (auto simp: claim_failure_result_def Let_def)
  consider "control_admission (s Mode_control) ow a False \<noteq> DAP_ALLOWED"
    | "control_admission (s Mode_control) ow a False = DAP_ALLOWED" "other_owner (s Ownership_control) ow"
    | "control_admission (s Mode_control) ow a False = DAP_ALLOWED" "\<not> other_owner (s Ownership_control) ow"
      "s Ownership_control \<noteq> make_control (claim_generation c) (claim_owner c)"
    | "control_admission (s Mode_control) ow a False = DAP_ALLOWED" "\<not> other_owner (s Ownership_control) ow"
      "s Ownership_control = make_control (claim_generation c) (claim_owner c)"
    by blast
  then show ?thesis
  proof cases
    case 1
    then show ?thesis
      by (intro exI [of _ "control_admission (s Mode_control) ow a False"])
        (simp add: airdap_mode_state_dap_operation_begin_def run_bindp admission_run)
  next
    case 2
    then show ?thesis using o
      by (intro exI [of _ DAP_BUSY])
        (auto simp: airdap_mode_state_dap_operation_begin_def run_bindp admission_run)
  next
    case 3
    then show ?thesis using assms nf
      by (intro exI [of _ "ownership_result (claim_failure_result (s Ownership_control) c)"])
        (simp add: airdap_mode_state_dap_operation_begin_def run_bindp admission_run Let_def
          airdap_dap_ownership_operation_begin_def zero_operation_def)
  next
    case 4
    then have "claim_owner c = ow" using o by simp
    then show ?thesis using 4 assms
      by (intro exI [of _ DAP_ALLOWED])
        (simp add: airdap_mode_state_dap_operation_begin_def run_bindp admission_run Let_def
          airdap_dap_ownership_operation_begin_def zero_operation_def)
  qed
qed

section \<open>Witnesses\<close>

definition boot_usb :: "unit prog" where
  "boot_usb = bindp (airdap_dap_ownership_initialize True) (\<lambda>_. bindp airdap_mode_state_init (\<lambda>_.
     bindp (airdap_mode_state_transition 1 EVENT_USB_ATTACHED) (\<lambda>_.
     bindp (airdap_mode_state_dap_acquire AIRDAP_DAP_OWNER_USB False True) (\<lambda>_. Ret ()))))"

lemma boot_usb_client: "boot_usb \<in> mode_clients"
  unfolding boot_usb_def by (intro mode_clients.intros)

lemmas mode_defs = airdap_mode_state_init_def airdap_mode_state_transition_def
  enter_preemption_def leave_preemption_def next_control_def event_effect_def replace_field_def
  field_value_def increment_field_def airdap_mode_state_dap_acquire_def dap_acquire_def
  dap_acquire_admission_def dap_admission_for_control_def control_admission_def
  airdap_dap_ownership_current_def airdap_dap_ownership_revoke_owner_def dap_policy_stamp_def

lemma boot_usb_run:
  "\<exists>s. run (env_const True) boot_usb (word_at 7) () = Some ((), s, ()) \<and> s Mode_control = 0x181"
  by (simp add: boot_usb_def mode_defs ownership_defs word_at_def Let_def env_const_def)

lemma boot_usb_driving:
  "\<exists>q s. sys_steps mode_clients initial ((\<lambda>_. Ret ())(0 := q), s) \<and> drives q"
proof -
  have "\<exists>q s. to_drive boot_usb (word_at 7) = Some (q, s)"
    by (simp add: boot_usb_def mode_defs ownership_defs word_at_def Let_def)
  then obtain q s where "psteps boot_usb (word_at 7) q s" "drives q"
    using to_drive_psteps by blast
  then show ?thesis using client_reaches [OF boot_usb_client, of "word_at 7" q s 0]
    by (auto simp: initial_def word_at_def)
qed

theorem mode_always_ok_witness: "mode_ok 0x181"
proof -
  obtain s where r: "run (env_const True) boot_usb (word_at 7) () = Some ((), s, ())" "s Mode_control = 0x181"
    using boot_usb_run by blast
  have "sys_steps mode_clients initial (\<lambda>_. Ret (), s)"
    using client_run [OF boot_usb_client r(1)] by (simp add: initial_def word_at_def)
  from mode_always_ok [OF this] show ?thesis by (simp add: r(2))
qed

theorem mode_bus_exclusion_witness:
  "\<exists>ts s. sys_steps mode_clients initial (ts, s) \<and> drives (ts 0) \<and> (\<forall>j. drives (ts j) \<longrightarrow> j = 0)"
proof -
  obtain q s where r: "sys_steps mode_clients initial ((\<lambda>_. Ret ())(0 := q), s)" and "drives q"
    using boot_usb_driving by blast
  then have d: "drives (((\<lambda>_. Ret ())(0 := q)) 0)" by simp
  then show ?thesis using r mode_bus_exclusion [OF r _ d] by blast
qed

theorem dap_admission_exclusive_witness:
  "control_admission 0x87 AIRDAP_DAP_OWNER_USB False False = DAP_ALLOWED \<and>
   control_admission 0x87 AIRDAP_DAP_OWNER_NETWORK True False \<noteq> DAP_ALLOWED"
proof -
  have "mode_ok 0x87" by (simp add: mode_ok_def mode_of_def field_value_def)
  from dap_admission_exclusive [OF this, of False True] show ?thesis
    by (simp add: control_admission_def field_value_def Let_def)
qed

theorem policy_stamp_covers_admission_witness:
  "control_admission 0x81 AIRDAP_DAP_OWNER_USB True False =
   control_admission 0x8F AIRDAP_DAP_OWNER_USB True False"
  by (rule policy_stamp_covers_admission) (simp_all add: dap_policy_stamp_def)

theorem usb_preempts_network_witness:
  "\<exists>s. run (env_const True) (airdap_mode_state_dap_acquire AIRDAP_DAP_OWNER_USB False True)
     ((word_at 0x12)(Mode_control := 0x81)) () =
     Some ((DAP_ALLOWED, Some \<lparr>claim_owner = AIRDAP_DAP_OWNER_USB, claim_generation = 2\<rparr>), s, ())"
  using usb_preempts_network [of "(word_at 0x12)(Mode_control := 0x81)" False 1 "env_const True" "()" "()" "()"]
  by (simp add: control_admission_def field_value_def make_control_def word_at_def env_const_def)

theorem set_dap_route_outcomes_witness:
  "\<exists>r m h'. run (env_const True) (airdap_mode_state_set_dap_route 1 AIRDAP_DAP_ROUTE_NETWORK)
      ((word_at 0x10)(Mode_control := 0x80)) () =
    Some (r, (word_at 0x10)(Mode_control := m), h')"
proof -
  have "((word_at 0x10)(Mode_control := 0x80)) Ownership_control = make_control 1 AIRDAP_DAP_OWNER_NONE"
    by (simp add: word_at_def make_control_def)
  then show ?thesis
    using set_dap_route_outcomes [of "(word_at 0x10)(Mode_control := 0x80)" 1 2 "env_const True" 0 "()"]
    by auto
qed

theorem dap_operation_begin_sound_witness:
  "\<exists>r. run (env_const True) (airdap_mode_state_dap_operation_begin AIRDAP_DAP_OWNER_NETWORK True
       (Some claim1) (Some zero_operation)) (word_at 0x12) () =
     Some ((r, Some zero_operation), word_at 0x12, ())"
proof -
  have "valid_claim (Some claim1)" by (simp add: valid_claim_def claim1_def is_owner_def)
  from dap_operation_begin_sound [OF this, of "env_const True" 2 True "word_at 0x12" "()"] show ?thesis
    by (auto simp: control_admission_def field_value_def word_at_def Let_def)
qed

end
