(* ===== verification/Wifi_Connection.thy ===== *)
theory Wifi_Connection
  imports AirDAP_Prelude
begin

text \<open>
  The parts of \<^verbatim>\<open>firmware/components/wifi_manager\<close> that hold its logic: the connection state
  machine with its retry backoff (\<^verbatim>\<open>wifi_state_machine.c\<close>), the stored form of the credentials
  (\<^verbatim>\<open>wifi_credentials.c\<close>) and the classification of disconnect reasons
  (\<^verbatim>\<open>wifi_disconnect_reason.c\<close>, whose reason codes come from the vendor header and are a
  parameter).
\<close>

section \<open>The connection state machine\<close>

datatype airdap_wifi_sm_state = SM_STOPPED | SM_DISCONNECTED | SM_CONNECTING | SM_ONLINE

datatype airdap_wifi_failure = FAILURE_NONE | FAILURE_AUTHENTICATION | FAILURE_TRANSIENT

datatype airdap_wifi_sm_event =
    SM_STA_STARTED | SM_LINK_CONNECTED | SM_LINK_DISCONNECTED | SM_GOT_IP | SM_LOST_IP
  | SM_AUTHENTICATION_FAILED | SM_TRANSIENT_DISCONNECT | SM_CONNECT_FAILED | SM_RETRY_EXPIRED
  | SM_CONFIGURATION_UPDATED | SM_CONFIGURATION_CLEARED
  | SM_OUT_OF_RANGE int

record airdap_wifi_state_machine =
  sm_state :: airdap_wifi_sm_state
  sm_last_failure :: airdap_wifi_failure
  sm_retry_delay_ms :: u32
  sm_has_configuration :: bool
  sm_link_connected :: bool

record airdap_wifi_sm_effects =
  eff_connect :: bool
  eff_disconnect :: bool
  eff_reconfigure :: bool
  eff_cancel_retry :: bool
  eff_publish_state :: bool
  eff_published_state :: airdap_wifi_sm_state
  eff_retry_after_ms :: u32

abbreviation (input) AIRDAP_WIFI_RETRY_INITIAL_DELAY_MS :: u32 where
  "AIRDAP_WIFI_RETRY_INITIAL_DELAY_MS \<equiv> 1000"
abbreviation (input) AIRDAP_WIFI_RETRY_MAX_DELAY_MS :: u32 where
  "AIRDAP_WIFI_RETRY_MAX_DELAY_MS \<equiv> 60000"

text \<open>The effects after \<^verbatim>\<open>memset\<close>.\<close>

definition no_effects :: airdap_wifi_sm_effects where
  "no_effects = \<lparr>eff_connect = False, eff_disconnect = False, eff_reconfigure = False,
     eff_cancel_retry = False, eff_publish_state = False, eff_published_state = SM_STOPPED,
     eff_retry_after_ms = 0\<rparr>"

definition wifi_publish :: "airdap_wifi_sm_effects \<Rightarrow> airdap_wifi_sm_state \<Rightarrow> airdap_wifi_sm_effects" where
  "wifi_publish effects state = effects\<lparr>eff_publish_state := True, eff_published_state := state\<rparr>"

definition next_retry_delay :: "u32 \<Rightarrow> u32" where
  "next_retry_delay current_delay =
     (if current_delay = 0 then AIRDAP_WIFI_RETRY_INITIAL_DELAY_MS
      else if current_delay \<ge> AIRDAP_WIFI_RETRY_MAX_DELAY_MS div 2
      then AIRDAP_WIFI_RETRY_MAX_DELAY_MS
      else current_delay * 2)"

definition handle_failure ::
  "airdap_wifi_state_machine \<Rightarrow> airdap_wifi_failure \<Rightarrow> airdap_wifi_sm_effects \<Rightarrow>
   airdap_wifi_state_machine \<times> airdap_wifi_sm_effects"
where
  "handle_failure machine failure effects =
     (if \<not> sm_has_configuration machine then (machine, effects)
      else let delay = next_retry_delay (sm_retry_delay_ms machine) in
        (machine\<lparr>sm_state := SM_DISCONNECTED, sm_last_failure := failure,
                 sm_link_connected := False, sm_retry_delay_ms := delay\<rparr>,
         wifi_publish (effects\<lparr>eff_retry_after_ms := delay\<rparr>) SM_DISCONNECTED))"

definition airdap_wifi_state_machine_init :: "bool \<Rightarrow> airdap_wifi_state_machine" where
  "airdap_wifi_state_machine_init has_configuration =
     \<lparr>sm_state = SM_STOPPED, sm_last_failure = FAILURE_NONE, sm_retry_delay_ms = 0,
      sm_has_configuration = has_configuration, sm_link_connected = False\<rparr>"

text \<open>
  One event: the result and the machine and effects after it. The out-of-range event is
  rejected after the effects were cleared.
\<close>

fun airdap_wifi_state_machine_step ::
  "airdap_wifi_state_machine \<Rightarrow> airdap_wifi_sm_event \<Rightarrow>
   bool \<times> airdap_wifi_state_machine \<times> airdap_wifi_sm_effects"
where
  "airdap_wifi_state_machine_step machine SM_STA_STARTED =
     (True,
      if sm_has_configuration machine \<and> sm_state machine = SM_STOPPED
      then (machine\<lparr>sm_state := SM_CONNECTING, sm_link_connected := False\<rparr>,
            wifi_publish (no_effects\<lparr>eff_connect := True\<rparr>) SM_CONNECTING)
      else (machine, no_effects))"
| "airdap_wifi_state_machine_step machine SM_LINK_CONNECTED =
     (True,
      if sm_state machine = SM_CONNECTING
      then (machine\<lparr>sm_link_connected := True\<rparr>, no_effects) else (machine, no_effects))"
| "airdap_wifi_state_machine_step machine SM_LINK_DISCONNECTED =
     (True, machine\<lparr>sm_link_connected := False\<rparr>, no_effects)"
| "airdap_wifi_state_machine_step machine SM_GOT_IP =
     (True,
      if sm_state machine = SM_CONNECTING \<and> sm_link_connected machine
      then (machine\<lparr>sm_state := SM_ONLINE, sm_last_failure := FAILURE_NONE,
                     sm_retry_delay_ms := 0\<rparr>,
            wifi_publish no_effects SM_ONLINE)
      else (machine, no_effects))"
| "airdap_wifi_state_machine_step machine SM_LOST_IP =
     (True,
      if sm_state machine = SM_ONLINE \<and> sm_link_connected machine
      then (machine\<lparr>sm_state := SM_CONNECTING, sm_last_failure := FAILURE_TRANSIENT\<rparr>,
            wifi_publish no_effects SM_CONNECTING)
      else (machine, no_effects))"
| "airdap_wifi_state_machine_step machine SM_AUTHENTICATION_FAILED =
     (True, handle_failure machine FAILURE_AUTHENTICATION no_effects)"
| "airdap_wifi_state_machine_step machine SM_TRANSIENT_DISCONNECT =
     (True, handle_failure machine FAILURE_TRANSIENT no_effects)"
| "airdap_wifi_state_machine_step machine SM_CONNECT_FAILED =
     (True, handle_failure machine FAILURE_TRANSIENT no_effects)"
| "airdap_wifi_state_machine_step machine SM_RETRY_EXPIRED =
     (True,
      if sm_has_configuration machine \<and> sm_state machine = SM_DISCONNECTED
      then (machine\<lparr>sm_state := SM_CONNECTING, sm_link_connected := False\<rparr>,
            wifi_publish (no_effects\<lparr>eff_connect := True\<rparr>) SM_CONNECTING)
      else (machine, no_effects))"
| "airdap_wifi_state_machine_step machine SM_CONFIGURATION_UPDATED =
     (True,
      machine\<lparr>sm_has_configuration := True, sm_state := SM_CONNECTING,
              sm_last_failure := FAILURE_NONE, sm_retry_delay_ms := 0, sm_link_connected := False\<rparr>,
      wifi_publish (no_effects\<lparr>eff_cancel_retry := True, eff_reconfigure := True\<rparr>) SM_CONNECTING)"
| "airdap_wifi_state_machine_step machine SM_CONFIGURATION_CLEARED =
     (True,
      machine\<lparr>sm_has_configuration := False, sm_state := SM_STOPPED,
              sm_last_failure := FAILURE_NONE, sm_retry_delay_ms := 0, sm_link_connected := False\<rparr>,
      wifi_publish (no_effects\<lparr>eff_cancel_retry := True, eff_disconnect := True\<rparr>) SM_STOPPED)"
| "airdap_wifi_state_machine_step machine (SM_OUT_OF_RANGE n) = (False, machine, no_effects)"

section \<open>Disconnect reasons\<close>

record wifi_reason_codes =
  WIFI_REASON_AUTH_EXPIRE :: u8
  WIFI_REASON_4WAY_HANDSHAKE_TIMEOUT :: u8
  WIFI_REASON_802_1X_AUTH_FAILED :: u8
  WIFI_REASON_AUTH_FAIL :: u8
  WIFI_REASON_HANDSHAKE_TIMEOUT :: u8

definition airdap_wifi_disconnect_is_authentication_failure :: "wifi_reason_codes \<Rightarrow> u8 \<Rightarrow> bool" where
  "airdap_wifi_disconnect_is_authentication_failure codes reason \<longleftrightarrow>
     reason = WIFI_REASON_AUTH_EXPIRE codes \<or>
     reason = WIFI_REASON_4WAY_HANDSHAKE_TIMEOUT codes \<or>
     reason = WIFI_REASON_802_1X_AUTH_FAILED codes \<or>
     reason = WIFI_REASON_AUTH_FAIL codes \<or>
     reason = WIFI_REASON_HANDSHAKE_TIMEOUT codes"

section \<open>Stored credentials\<close>

text \<open>The arrays \<^verbatim>\<open>ssid\<close> and \<^verbatim>\<open>password\<close> have 32 and 64 bytes.\<close>

record airdap_wifi_credentials =
  cr_ssid :: bytes
  cr_password :: bytes
  cr_ssid_length :: u8
  cr_password_length :: u8

abbreviation (input) AIRDAP_WIFI_SSID_MAX_LENGTH :: nat where "AIRDAP_WIFI_SSID_MAX_LENGTH \<equiv> 32"
abbreviation (input) AIRDAP_WIFI_PASSWORD_MAX_LENGTH :: nat where
  "AIRDAP_WIFI_PASSWORD_MAX_LENGTH \<equiv> 64"
abbreviation (input) AIRDAP_WIFI_CREDENTIALS_HEADER_SIZE :: nat where
  "AIRDAP_WIFI_CREDENTIALS_HEADER_SIZE \<equiv> 8"

definition credentials_are_valid :: "airdap_wifi_credentials option \<Rightarrow> bool" where
  "credentials_are_valid credentials \<longleftrightarrow> (case credentials of None \<Rightarrow> False
     | Some c \<Rightarrow> cr_ssid_length c > 0 \<and>
                 unat (cr_ssid_length c) \<le> AIRDAP_WIFI_SSID_MAX_LENGTH \<and>
                 unat (cr_password_length c) \<le> AIRDAP_WIFI_PASSWORD_MAX_LENGTH)"

definition airdap_wifi_credentials_clear :: airdap_wifi_credentials where
  "airdap_wifi_credentials_clear =
     \<lparr>cr_ssid = replicate AIRDAP_WIFI_SSID_MAX_LENGTH 0,
      cr_password = replicate AIRDAP_WIFI_PASSWORD_MAX_LENGTH 0,
      cr_ssid_length = 0, cr_password_length = 0\<rparr>"

definition encode_credentials_into :: "airdap_wifi_credentials \<Rightarrow> bytes \<Rightarrow> bytes option" where
  "encode_credentials_into c b = do {
     b \<leftarrow> wr b 0 0x41; b \<leftarrow> wr b 1 0x57; b \<leftarrow> wr b 2 0x46; b \<leftarrow> wr b 3 0x31;
     b \<leftarrow> wr b 4 1; b \<leftarrow> wr b 5 (cr_ssid_length c); b \<leftarrow> wr b 6 (cr_password_length c);
     b \<leftarrow> wr b 7 0;
     b \<leftarrow> wr_bytes b AIRDAP_WIFI_CREDENTIALS_HEADER_SIZE (cr_ssid c) (unat (cr_ssid_length c));
     wr_bytes b (AIRDAP_WIFI_CREDENTIALS_HEADER_SIZE + unat (cr_ssid_length c))
       (cr_password c) (unat (cr_password_length c)) }"

text \<open>
  The result, the size written back (\<^const>\<open>None\<close> for a NULL pointer) and the buffer; the
  outer option is undefined behaviour.
\<close>

definition airdap_wifi_credentials_encode ::
  "airdap_wifi_credentials option \<Rightarrow> bytes option \<Rightarrow> nat option \<Rightarrow>
   (bool \<times> nat option \<times> bytes option) option"
where
  "airdap_wifi_credentials_encode credentials buf inout_size =
     (if \<not> credentials_are_valid credentials \<or> buf = None \<or> inout_size = None
      then Some (False, inout_size, buf)
      else let c = the credentials;
               encoded_size = AIRDAP_WIFI_CREDENTIALS_HEADER_SIZE + unat (cr_ssid_length c) +
                              unat (cr_password_length c)
        in if the inout_size < encoded_size then Some (False, Some encoded_size, buf)
        else do {
          b \<leftarrow> encode_credentials_into c (the buf);
          Some (True, Some encoded_size, Some b) })"

definition credentials_header_ok :: "bytes \<Rightarrow> bool option" where
  "credentials_header_ok encoded = do {
     b0 \<leftarrow> rd encoded 0; b1 \<leftarrow> rd encoded 1; b2 \<leftarrow> rd encoded 2; b3 \<leftarrow> rd encoded 3;
     b4 \<leftarrow> rd encoded 4; b7 \<leftarrow> rd encoded 7;
     Some (b0 = 0x41 \<and> b1 = 0x57 \<and> b2 = 0x46 \<and> b3 = 0x31 \<and> b4 = 1 \<and> b7 = 0) }"

definition airdap_wifi_credentials_decode ::
  "bytes option \<Rightarrow> nat \<Rightarrow> bool \<Rightarrow> (bool \<times> airdap_wifi_credentials option) option"
where
  "airdap_wifi_credentials_decode encoded encoded_size credentials_present =
     (if \<not> credentials_present then Some (False, None)
      else case encoded of
        None \<Rightarrow> Some (False, Some airdap_wifi_credentials_clear)
      | Some e \<Rightarrow>
        if encoded_size < AIRDAP_WIFI_CREDENTIALS_HEADER_SIZE
        then Some (False, Some airdap_wifi_credentials_clear)
        else do {
          header_ok \<leftarrow> credentials_header_ok e;
          if \<not> header_ok then Some (False, Some airdap_wifi_credentials_clear)
          else do {
            ssid_length \<leftarrow> rd e 5;
            password_length \<leftarrow> rd e 6;
            let expected_size = AIRDAP_WIFI_CREDENTIALS_HEADER_SIZE + unat ssid_length +
                                unat password_length;
            if ssid_length = 0 \<or> unat ssid_length > AIRDAP_WIFI_SSID_MAX_LENGTH \<or>
               unat password_length > AIRDAP_WIFI_PASSWORD_MAX_LENGTH \<or>
               encoded_size \<noteq> expected_size
            then Some (False, Some airdap_wifi_credentials_clear)
            else do {
              s \<leftarrow> rd_bytes e AIRDAP_WIFI_CREDENTIALS_HEADER_SIZE (unat ssid_length);
              p \<leftarrow> rd_bytes e (AIRDAP_WIFI_CREDENTIALS_HEADER_SIZE + unat ssid_length)
                     (unat password_length);
              ssid \<leftarrow> wr_bytes (cr_ssid airdap_wifi_credentials_clear) 0 s (unat ssid_length);
              password \<leftarrow> wr_bytes (cr_password airdap_wifi_credentials_clear) 0 p
                            (unat password_length);
              Some (True, Some \<lparr>cr_ssid = ssid, cr_password = password,
                cr_ssid_length = ssid_length, cr_password_length = password_length\<rparr>) } } })"

section \<open>Invariant and backoff\<close>

inductive wifi_reachable :: "airdap_wifi_state_machine \<Rightarrow> bool" where
  start: "wifi_reachable (airdap_wifi_state_machine_init c)"
| event: "wifi_reachable m \<Longrightarrow> airdap_wifi_state_machine_step m e = (ok, m', eff) \<Longrightarrow> wifi_reachable m'"

definition wifi_inv :: "airdap_wifi_state_machine \<Rightarrow> bool" where
  "wifi_inv m \<longleftrightarrow>
     (\<not> sm_has_configuration m \<longrightarrow> sm_state m = SM_STOPPED) \<and>
     (sm_state m = SM_STOPPED \<longrightarrow> sm_retry_delay_ms m = 0 \<and> sm_last_failure m = FAILURE_NONE) \<and>
     (sm_state m = SM_ONLINE \<longrightarrow> sm_retry_delay_ms m = 0 \<and> sm_last_failure m = FAILURE_NONE) \<and>
     (sm_state m = SM_DISCONNECTED \<longrightarrow>
        sm_retry_delay_ms m \<noteq> 0 \<and> sm_last_failure m \<noteq> FAILURE_NONE) \<and>
     (sm_link_connected m \<longrightarrow> sm_state m \<in> {SM_CONNECTING, SM_ONLINE}) \<and>
     (sm_retry_delay_ms m = 0 \<or>
      AIRDAP_WIFI_RETRY_INITIAL_DELAY_MS \<le> sm_retry_delay_ms m \<and>
      sm_retry_delay_ms m \<le> AIRDAP_WIFI_RETRY_MAX_DELAY_MS)"

lemma next_retry_delay_nat:
  "unat d \<le> 60000 \<Longrightarrow> unat (next_retry_delay d) =
     (if unat d = 0 then 1000 else min (2 * unat d) 60000)"
  by (auto simp: next_retry_delay_def word_le_nat_alt word_unat_eq_iff unat_word_ariths unat_div min_def)

lemma next_retry_delay_bounds:
  assumes "d = 0 \<or> 1000 \<le> d \<and> d \<le> 60000"
  shows "1000 \<le> next_retry_delay d \<and> next_retry_delay d \<le> 60000 \<and> next_retry_delay d \<noteq> 0"
proof -
  have d: "unat d = 0 \<or> 1000 \<le> unat d \<and> unat d \<le> 60000"
    using assms by (auto simp: word_le_nat_alt)
  then have "1000 \<le> unat (next_retry_delay d)" "unat (next_retry_delay d) \<le> 60000"
    using next_retry_delay_nat [of d] by (auto simp: min_def)
  then show ?thesis by (auto simp: word_le_nat_alt word_unat_eq_iff)
qed

lemma handle_failure_inv:
  "wifi_inv m \<Longrightarrow> f \<noteq> FAILURE_NONE \<Longrightarrow> wifi_inv (fst (handle_failure m f e))"
  using next_retry_delay_bounds [of "sm_retry_delay_ms m"]
  by (auto simp: wifi_inv_def handle_failure_def Let_def)

lemma wifi_step_inv:
  assumes "wifi_inv m" shows "wifi_inv (fst (snd (airdap_wifi_state_machine_step m e)))"
proof (cases e)
  case SM_AUTHENTICATION_FAILED
  then show ?thesis using handle_failure_inv [OF assms] by simp
next
  case SM_TRANSIENT_DISCONNECT
  then show ?thesis using handle_failure_inv [OF assms] by simp
next
  case SM_CONNECT_FAILED
  then show ?thesis using handle_failure_inv [OF assms] by simp
qed (use assms in \<open>auto simp: wifi_inv_def\<close>)

text \<open>C30. Every reachable state of the Wi-Fi connection machine is consistent: without a stored configuration it is STOPPED; STOPPED and ONLINE carry no failure and no backoff; DISCONNECTED always has a failure and a retry delay; a link is only recorded while CONNECTING or ONLINE; and the retry delay is zero or between 1 and 60 seconds.\<close>

theorem wifi_reachable_inv:
  assumes "wifi_reachable m"
  shows "wifi_inv m"
  using assms
proof (induction rule: wifi_reachable.induct)
  case (start c)
  then show ?case by (simp add: wifi_inv_def airdap_wifi_state_machine_init_def)
next
  case (event m e ok m' eff)
  then show ?case using wifi_step_inv [of m e] by simp
qed


text \<open>The effects of one event match the state it leaves: every state change is published and the published state is the new state; a connect is requested only with a configuration and in CONNECTING, and never together with a disconnect; a retry is scheduled only in DISCONNECTED, for the recorded delay; ONLINE is entered only over a connected link; and only unknown events are refused.\<close>

theorem wifi_effects_sound:
  assumes "airdap_wifi_state_machine_step m e = (ok, m', eff)"
  shows "(eff_publish_state eff \<longrightarrow> eff_published_state eff = sm_state m') \<and>
    (sm_state m' \<noteq> sm_state m \<longrightarrow> eff_publish_state eff) \<and>
    (eff_connect eff \<longrightarrow> sm_has_configuration m' \<and> sm_state m' = SM_CONNECTING \<and>
       \<not> eff_disconnect eff \<and> \<not> eff_reconfigure eff) \<and>
    (eff_retry_after_ms eff \<noteq> 0 \<longrightarrow> sm_state m' = SM_DISCONNECTED \<and> sm_has_configuration m' \<and>
       eff_retry_after_ms eff = sm_retry_delay_ms m') \<and>
    (sm_state m' = SM_ONLINE \<longrightarrow> sm_state m = SM_ONLINE \<or> sm_link_connected m) \<and>
    (ok \<longleftrightarrow> (\<forall>n. e \<noteq> SM_OUT_OF_RANGE n))"
  using assms
  by (cases e) (auto simp: wifi_publish_def no_effects_def handle_failure_def Let_def split: if_splits)

section \<open>Credentials\<close>

definition credentials_bytes :: "bytes \<Rightarrow> bytes \<Rightarrow> bytes" where
  "credentials_bytes s p = [0x41, 0x57, 0x46, 0x31, 1, of_nat (length s), of_nat (length p), 0] @ s @ p"

definition stored_ssid :: "airdap_wifi_credentials \<Rightarrow> bytes" where
  "stored_ssid c = take (unat (cr_ssid_length c)) (cr_ssid c)"

definition stored_password :: "airdap_wifi_credentials \<Rightarrow> bytes" where
  "stored_password c = take (unat (cr_password_length c)) (cr_password c)"

definition well_formed :: "airdap_wifi_credentials \<Rightarrow> bool" where
  "well_formed c \<longleftrightarrow> credentials_are_valid (Some c) \<and> length (cr_ssid c) = 32 \<and> length (cr_password c) = 64"

definition padded :: "bytes \<Rightarrow> bytes \<Rightarrow> airdap_wifi_credentials" where
  "padded s p = \<lparr>cr_ssid = s @ replicate (32 - length s) 0, cr_password = p @ replicate (64 - length p) 0,
     cr_ssid_length = of_nat (length s), cr_password_length = of_nat (length p)\<rparr>"

lemma past_header:
  "drop (8 + n) (a0 # a1 # a2 # a3 # a4 # a5 # a6 # a7 # t) = drop n t"
  "take (8 + n) (a0 # a1 # a2 # a3 # a4 # a5 # a6 # a7 # t) =
     a0 # a1 # a2 # a3 # a4 # a5 # a6 # a7 # take n t"
  by (simp_all add: numeral_eq_Suc)

lemma encode_into_bytes:
  assumes "well_formed c" "8 + length (stored_ssid c) + length (stored_password c) \<le> length b"
  shows "encode_credentials_into c b =
    Some (credentials_bytes (stored_ssid c) (stored_password c) @
          drop (8 + length (stored_ssid c) + length (stored_password c)) b)"
proof -
  let ?n = "unat (cr_ssid_length c)" and ?m = "unat (cr_password_length c)"
  have l: "?n \<le> length (cr_ssid c)" "?m \<le> length (cr_password c)"
    using assms(1) by (auto simp: well_formed_def credentials_are_valid_def)
  then have sz: "length (stored_ssid c) = ?n" "length (stored_password c) = ?m"
    by (simp_all add: stored_ssid_def stored_password_def)
  then have n: "8 + ?n + ?m \<le> length b" using assms(2) by simp
  obtain h t where b: "b = h @ t" "length h = 8" 
    by (metis add_leE append_take_drop_id length_take min.absorb2 n)
  obtain a0 a1 a2 a3 a4 a5 a6 a7 where h: "h = [a0, a1, a2, a3, a4, a5, a6, a7]"
    using b(2) by (auto simp: numeral_eq_Suc length_Suc_conv)
  have t: "?n + ?m \<le> length t" using n b by simp
  show ?thesis
    using l t sz
    by (simp add: encode_credentials_into_def b h wr_def wr_bytes_def credentials_bytes_def
        stored_ssid_def stored_password_def past_header add.assoc)
      (simp add: add.commute)
qed

lemma decode_bytes:
  assumes "length s > 0" "length s \<le> 32" "length p \<le> 64"
  shows "airdap_wifi_credentials_decode (Some (credentials_bytes s p @ rest)) (8 + length s + length p) True =
    Some (True, Some (padded s p))"
proof -
  have u: "unat (of_nat (length s) :: u8) = length s" "unat (of_nat (length p) :: u8) = length p"
    using assms by (simp_all add: unat_of_nat)
  then have z: "(of_nat (length s) :: u8) \<noteq> 0" using assms(1) by (metis less_numeral_extra(3) unat_0)
  show ?thesis using assms z
    by (simp add: airdap_wifi_credentials_decode_def credentials_header_ok_def credentials_bytes_def rd_def
        rd_bytes_def wr_bytes_def u airdap_wifi_credentials_clear_def padded_def nth_append
        past_header)
qed

lemma well_formed_lengths:
  assumes "well_formed c"
  shows "length (stored_ssid c) = unat (cr_ssid_length c)"
    "length (stored_password c) = unat (cr_password_length c)"
    "0 < length (stored_ssid c)" "length (stored_ssid c) \<le> 32" "length (stored_password c) \<le> 64"
  using assms
  by (auto simp: well_formed_def credentials_are_valid_def stored_ssid_def stored_password_def
      word_greater_zero_iff word_less_nat_alt)

lemma encode_then_decode:
  assumes "well_formed c" "cap = 8 + length (stored_ssid c) + length (stored_password c) + extra"
    "length b = cap"
  shows "\<exists>out n. airdap_wifi_credentials_encode (Some c) (Some b) (Some cap) = Some (True, Some n, Some out) \<and>
    n = 8 + length (stored_ssid c) + length (stored_password c) \<and> n \<le> 104 \<and>
    drop n out = drop n b \<and>
    airdap_wifi_credentials_decode (Some (take n out)) n True =
      Some (True, Some (padded (stored_ssid c) (stored_password c)))"
proof -
  note l = well_formed_lengths [OF assms(1)]
  let ?n = "8 + length (stored_ssid c) + length (stored_password c)"
  have v: "credentials_are_valid (Some c)" using assms(1) by (simp add: well_formed_def)
  have len: "length (credentials_bytes (stored_ssid c) (stored_password c)) = ?n"
    by (simp add: credentials_bytes_def)
  have "airdap_wifi_credentials_encode (Some c) (Some b) (Some cap) =
      Some (True, Some ?n, Some (credentials_bytes (stored_ssid c) (stored_password c) @ drop ?n b))"
    using v encode_into_bytes [OF assms(1), of b] assms(2,3) l(1,2)
    by (simp add: airdap_wifi_credentials_encode_def Let_def)
  then show ?thesis
    using len l(3-5) decode_bytes [of "stored_ssid c" "stored_password c" "[]"] by auto
qed

text \<open>Stored credentials round trip: encoding well-formed credentials into a large enough buffer succeeds, uses at most 104 bytes, leaves the rest of the buffer alone, and decoding those bytes returns the same SSID and password with zeroed padding.\<close>

theorem credentials_roundtrip:
  assumes "well_formed c" "cap = 8 + length (stored_ssid c) + length (stored_password c) + extra"
    "length b = cap"
  shows "\<exists>out n. airdap_wifi_credentials_encode (Some c) (Some b) (Some cap) = Some (True, Some n, Some out) \<and>
    n = 8 + length (stored_ssid c) + length (stored_password c) \<and> n \<le> 104 \<and>
    drop n out = drop n b \<and>
    airdap_wifi_credentials_decode (Some (take n out)) n True =
      Some (True, Some (padded (stored_ssid c) (stored_password c)))"
  by (rule encode_then_decode [OF assms])

text \<open>Decoding stored credentials returns for every input (NULL pointers and arbitrary bytes included) and never reads past the given size or writes past the fixed arrays.\<close>

theorem credentials_decode_memory_safe:
  assumes "\<And>e. encoded = Some e \<Longrightarrow> n \<le> length e"
  shows "\<exists>r. airdap_wifi_credentials_decode encoded n present = Some r"
proof (cases "\<exists>e. encoded = Some e \<and> 8 \<le> n \<and> present")
  case True
  then obtain e where e: "encoded = Some e" "8 \<le> n" "present" "n \<le> length e" using assms by auto
  have "0 < length e" using e by linarith
  then obtain k where "credentials_header_ok e = Some k"
    using e by (simp add: credentials_header_ok_def rd_def del: length_greater_0_conv)
  then show ?thesis using e
    by (auto simp: airdap_wifi_credentials_decode_def mem_simps airdap_wifi_credentials_clear_def Let_def)
next
  case False
  then show ?thesis by (auto simp: airdap_wifi_credentials_decode_def split: option.splits)
qed

text \<open>The stored form as a codec on pairs of an SSID and a password.\<close>

definition credentials_to_wire :: "bytes \<times> bytes \<Rightarrow> bytes option" where
  "credentials_to_wire sp =
     (if fst sp = [] \<or> length (fst sp) > 32 \<or> length (snd sp) > 64 then None
      else case airdap_wifi_credentials_encode (Some (padded (fst sp) (snd sp)))
             (Some (replicate (8 + length (fst sp) + length (snd sp)) 0))
             (Some (8 + length (fst sp) + length (snd sp))) of
        Some (True, _, out) \<Rightarrow> out | _ \<Rightarrow> None)"

definition wire_to_credentials :: "bytes \<Rightarrow> (bytes \<times> bytes) option" where
  "wire_to_credentials b = (case airdap_wifi_credentials_decode (Some b) (length b) True of
     Some (True, Some c) \<Rightarrow> Some (stored_ssid c, stored_password c) | _ \<Rightarrow> None)"

lemma padded_stored:
  assumes "s \<noteq> []" "length s \<le> 32" "length p \<le> 64"
  shows "well_formed (padded s p)" "stored_ssid (padded s p) = s" "stored_password (padded s p) = p"
proof -
  have u: "unat (of_nat (length s) :: u8) = length s" "unat (of_nat (length p) :: u8) = length p"
    using assms by (simp_all add: unat_of_nat)
  then have "(of_nat (length s) :: u8) > 0" using assms(1) by (simp add: word_less_nat_alt)
  then show "well_formed (padded s p)" "stored_ssid (padded s p) = s" "stored_password (padded s p) = p"
    using assms u
    by (simp_all add: well_formed_def credentials_are_valid_def padded_def stored_ssid_def stored_password_def)
qed

lemma credentials_to_wire_eq:
  "credentials_to_wire (s, p) =
     (if s = [] \<or> length s > 32 \<or> length p > 64 then None else Some (credentials_bytes s p))"
proof (cases "s = [] \<or> length s > 32 \<or> length p > 64")
  case False
  then have v: "s \<noteq> []" "length s \<le> 32" "length p \<le> 64" by auto
  note ps = padded_stored [OF v]
  obtain out n where "airdap_wifi_credentials_encode (Some (padded s p))
      (Some (replicate (8 + length s + length p) 0)) (Some (8 + length s + length p)) =
      Some (True, Some n, Some out)"
    using encode_then_decode [OF ps(1), of "8 + length s + length p" 0] ps by force
  moreover have "encode_credentials_into (padded s p) (replicate (8 + length s + length p) 0) =
      Some (credentials_bytes s p)"
    using encode_into_bytes [OF ps(1), of "replicate (8 + length s + length p) 0"] ps by simp
  ultimately show ?thesis using False
    by (auto simp: credentials_to_wire_def airdap_wifi_credentials_encode_def Let_def split: if_splits)
qed (auto simp: credentials_to_wire_def)

lemma decode_accepts:
  assumes "airdap_wifi_credentials_decode (Some b) (length b) True = Some (True, Some c)"
  shows "\<exists>s p. s \<noteq> [] \<and> length s \<le> 32 \<and> length p \<le> 64 \<and> b = credentials_bytes s p"
proof -
  have n: "8 \<le> length b" using assms by (auto simp: airdap_wifi_credentials_decode_def split: if_splits)
  obtain h t where b: "b = h @ t" "length h = 8" 
    by (metis append_take_drop_id length_take min.absorb2 n)
  obtain a0 a1 a2 a3 a4 a5 a6 a7 where h: "h = [a0, a1, a2, a3, a4, a5, a6, a7]"
    using b(2) by (auto simp: numeral_eq_Suc length_Suc_conv)
  have a: "a0 = 0x41" "a1 = 0x57" "a2 = 0x46" "a3 = 0x31" "a4 = 1" "a7 = 0" "a5 \<noteq> 0"
    "unat a5 \<le> 32" "unat a6 \<le> 64" "length t = unat a5 + unat a6"
    using assms unfolding b h
    by (simp_all add: airdap_wifi_credentials_decode_def credentials_header_ok_def rd_def split: if_splits)
  have "b = credentials_bytes (take (unat a5) t) (drop (unat a5) t)"
    using a by (simp add: b h credentials_bytes_def)
  moreover have "take (unat a5) t \<noteq> []" using a by (auto simp: unat_eq_0)
  ultimately show ?thesis using a by (intro exI [of _ "take (unat a5) t"] exI [of _ "drop (unat a5) t"]) auto
qed

interpretation credentials_codec: byte_codec credentials_to_wire wire_to_credentials
proof
  fix x b assume e: "credentials_to_wire x = Some b"
  obtain s p where x: "x = (s, p)" by (cases x)
  have v: "s \<noteq> []" "length s \<le> 32" "length p \<le> 64" "b = credentials_bytes s p"
    using e by (auto simp: x credentials_to_wire_eq split: if_splits)
  have "length b = 8 + length s + length p" using v by (simp add: credentials_bytes_def)
  then show "wire_to_credentials b = Some x"
    using decode_bytes [of s p "[]"] v padded_stored [OF v(1-3)]
    by (simp add: wire_to_credentials_def x)
next
  fix b x assume "wire_to_credentials b = Some x"
  then obtain c where d: "airdap_wifi_credentials_decode (Some b) (length b) True = Some (True, Some c)"
    "x = (stored_ssid c, stored_password c)"
    by (auto simp: wire_to_credentials_def split: option.splits bool.splits)
  then obtain s p where v: "s \<noteq> []" "length s \<le> 32" "length p \<le> 64" "b = credentials_bytes s p"
    using decode_accepts by blast
  have "length b = 8 + length s + length p" using v by (simp add: credentials_bytes_def)
  then have "c = padded s p" using d(1) decode_bytes [of s p "[]"] v by simp
  then show "credentials_to_wire x = Some b"
    using d(2) v padded_stored [OF v(1-3)] by (simp add: credentials_to_wire_eq)
qed

text \<open>Stored credentials have one encoding: two byte strings that decode to the same SSID and password are equal.\<close>

theorem credentials_wire_unique:
  assumes "wire_to_credentials b = Some x" "wire_to_credentials c = Some x"
  shows "b = c"
  using assms by (rule credentials_codec.dec_inject)

section \<open>Witnesses\<close>

theorem wifi_reachable_inv_witness:
  "wifi_inv (fst (snd (airdap_wifi_state_machine_step (airdap_wifi_state_machine_init True) SM_CONNECT_FAILED)))"
  by (rule wifi_reachable_inv, rule wifi_reachable.event [OF wifi_reachable.start [of True], of SM_CONNECT_FAILED])
    (simp add: handle_failure_def airdap_wifi_state_machine_init_def Let_def)

theorem wifi_effects_sound_witness:
  "eff_published_state (snd (snd (airdap_wifi_state_machine_step (airdap_wifi_state_machine_init True)
     SM_STA_STARTED))) = SM_CONNECTING"
  using wifi_effects_sound [of "airdap_wifi_state_machine_init True" SM_STA_STARTED True]
  by (simp add: airdap_wifi_state_machine_init_def wifi_publish_def no_effects_def)

theorem credentials_roundtrip_witness:
  "\<exists>out. airdap_wifi_credentials_encode (Some (padded [0x61, 0x70] [0x70, 0x77])) (Some (replicate 20 0)) (Some 20) =
     Some (True, Some 12, Some out) \<and>
   airdap_wifi_credentials_decode (Some (take 12 out)) 12 True = Some (True, Some (padded [0x61, 0x70] [0x70, 0x77]))"
proof -
  note p = padded_stored [of "[0x61, 0x70]" "[0x70, 0x77]", simplified]
  from credentials_roundtrip [OF p(1), of 20 8 "replicate 20 0"] show ?thesis by (auto simp: p)
qed

theorem credentials_decode_memory_safe_witness:
  "\<exists>r. airdap_wifi_credentials_decode (Some (replicate 9 0x41)) 9 True = Some r"
  by (rule credentials_decode_memory_safe) simp

theorem credentials_wire_unique_witness:
  "credentials_bytes [0x61] [] = credentials_bytes [0x61] []"
  by (rule credentials_wire_unique [of _ "([0x61], [])"])
    (simp_all add: credentials_codec.dec_iff_enc credentials_to_wire_eq)
end
