(* ===== verification/Provisioning_Button.thy ===== *)
theory Provisioning_Button
  imports AirDAP_Prelude
begin

text \<open>
  The button of the probe, from \<^verbatim>\<open>firmware/components/ble_provisioning\<close>: the gesture recogniser
  (\<^verbatim>\<open>provisioning_button.c\<close>), the LED pattern it drives (\<^verbatim>\<open>button_indicator.c\<close>) and the gesture
  simulator behind the shell command (\<^verbatim>\<open>button_simulation.c\<close>). Times are the code's 32-bit
  milliseconds. The simulator shares one atomic word with the shell task: the step function takes
  the value its load sees and the value its compare-exchange sees.
\<close>

section \<open>Data\<close>

datatype airdap_provisioning_button_action =
    BUTTON_NONE | BUTTON_TOGGLE_READY | BUTTON_CLEAR_READY | BUTTON_TOGGLE | BUTTON_CLEAR
  | BUTTON_SINGLE_CLICK | BUTTON_DOUBLE_CLICK | BUTTON_HOLD_6_READY | BUTTON_HOLD_6

datatype airdap_provisioning_button_state =
    BTN_IDLE | BTN_PRESS_DEBOUNCE | BTN_PRESSED | BTN_RELEASE_DEBOUNCE | BTN_WAIT_SECOND_PRESS
  | BTN_SECOND_PRESS_DEBOUNCE | BTN_SECOND_PRESSED | BTN_LONG_2S | BTN_LONG_6S | BTN_LONG_10S

record airdap_provisioning_button =
  bt_state :: airdap_provisioning_button_state
  bt_held_ms :: u32
  bt_released_ms :: u32
  bt_wait_ms :: u32
  bt_second_press :: bool

abbreviation (input) PRESS_CONFIRM_MS :: u32 where "PRESS_CONFIRM_MS \<equiv> 40"
abbreviation (input) CLICK_RELEASE_MS :: u32 where "CLICK_RELEASE_MS \<equiv> 40"
abbreviation (input) DOUBLE_CLICK_MS :: u32 where "DOUBLE_CLICK_MS \<equiv> 300"
abbreviation (input) PROVISIONING_TOGGLE_MS :: u32 where "PROVISIONING_TOGGLE_MS \<equiv> 2000"
abbreviation (input) HOLD_6_MS :: u32 where "HOLD_6_MS \<equiv> 6000"
abbreviation (input) PROVISIONING_CLEAR_MS :: u32 where "PROVISIONING_CLEAR_MS \<equiv> 10000"
abbreviation (input) RELEASE_CONFIRM_MS :: u32 where "RELEASE_CONFIRM_MS \<equiv> 200"

section \<open>The recogniser\<close>

definition airdap_provisioning_button_init :: airdap_provisioning_button where
  "airdap_provisioning_button_init =
     \<lparr>bt_state = BTN_IDLE, bt_held_ms = 0, bt_released_ms = 0, bt_wait_ms = 0,
      bt_second_press = False\<rparr>"

definition add_capped :: "u32 \<Rightarrow> u32 \<Rightarrow> u32 \<Rightarrow> u32" where
  "add_capped value elapsed limit =
     value + (if elapsed < limit - value then elapsed else limit - value)"

type_synonym button_result = "airdap_provisioning_button \<times> airdap_provisioning_button_action"

definition button_finish :: "airdap_provisioning_button_action \<Rightarrow> button_result" where
  "button_finish action = (airdap_provisioning_button_init, action)"

definition button_hold :: "airdap_provisioning_button \<Rightarrow> u32 \<Rightarrow> button_result" where
  "button_hold button elapsed_ms =
     (let previous = bt_held_ms button;
          button = button\<lparr>bt_held_ms := add_capped previous elapsed_ms PROVISIONING_CLEAR_MS,
                          bt_released_ms := 0\<rparr>
      in if bt_held_ms button \<ge> PROVISIONING_CLEAR_MS then
           (button\<lparr>bt_state := BTN_LONG_10S\<rparr>,
            if previous < PROVISIONING_CLEAR_MS then BUTTON_CLEAR_READY else BUTTON_NONE)
         else if bt_held_ms button \<ge> HOLD_6_MS then
           (button\<lparr>bt_state := BTN_LONG_6S\<rparr>,
            if previous < HOLD_6_MS then BUTTON_HOLD_6_READY else BUTTON_NONE)
         else if bt_held_ms button \<ge> PROVISIONING_TOGGLE_MS then
           (button\<lparr>bt_state := BTN_LONG_2S\<rparr>,
            if previous < PROVISIONING_TOGGLE_MS then BUTTON_TOGGLE_READY else BUTTON_NONE)
         else if bt_held_ms button \<ge> PRESS_CONFIRM_MS then
           (button\<lparr>bt_state := (if bt_second_press button then BTN_SECOND_PRESSED
                                  else BTN_PRESSED)\<rparr>, BUTTON_NONE)
         else (button, BUTTON_NONE))"

definition wait_for_second :: "airdap_provisioning_button \<Rightarrow> u32 \<Rightarrow> button_result" where
  "wait_for_second button elapsed_ms =
     (let button = button\<lparr>bt_wait_ms := add_capped (bt_wait_ms button) elapsed_ms DOUBLE_CLICK_MS\<rparr>
      in if bt_wait_ms button = DOUBLE_CLICK_MS then button_finish BUTTON_SINGLE_CLICK
         else (button\<lparr>bt_state := BTN_WAIT_SECOND_PRESS\<rparr>, BUTTON_NONE))"

definition button_release :: "airdap_provisioning_button \<Rightarrow> u32 \<Rightarrow> button_result" where
  "button_release button elapsed_ms =
     (let long_hold = (bt_held_ms button \<ge> PROVISIONING_TOGGLE_MS);
          button = button\<lparr>bt_released_ms := add_capped (bt_released_ms button) elapsed_ms
                            (if long_hold then RELEASE_CONFIRM_MS else DOUBLE_CLICK_MS),
                          bt_state := BTN_RELEASE_DEBOUNCE\<rparr>
      in if bt_released_ms button < (if long_hold then RELEASE_CONFIRM_MS else CLICK_RELEASE_MS)
         then (button, BUTTON_NONE)
         else if long_hold then
           button_finish (if bt_held_ms button \<ge> PROVISIONING_CLEAR_MS then BUTTON_CLEAR
                          else if bt_held_ms button \<ge> HOLD_6_MS then BUTTON_HOLD_6
                          else BUTTON_TOGGLE)
         else if bt_second_press button then button_finish BUTTON_DOUBLE_CLICK
         else wait_for_second (button\<lparr>bt_wait_ms := 0\<rparr>) (bt_released_ms button))"

definition airdap_provisioning_button_step ::
  "airdap_provisioning_button \<Rightarrow> bool \<Rightarrow> u32 \<Rightarrow> button_result"
where
  "airdap_provisioning_button_step button pressed elapsed_ms =
     (if elapsed_ms = 0 then (button, BUTTON_NONE)
      else case bt_state button of
        BTN_IDLE \<Rightarrow>
          if \<not> pressed then (button, BUTTON_NONE)
          else button_hold (button\<lparr>bt_state := BTN_PRESS_DEBOUNCE\<rparr>) elapsed_ms
      | BTN_WAIT_SECOND_PRESS \<Rightarrow>
          if \<not> pressed then wait_for_second button elapsed_ms
          else button_hold (button\<lparr>bt_second_press := True, bt_held_ms := 0,
                 bt_state := BTN_SECOND_PRESS_DEBOUNCE,
                 bt_wait_ms := add_capped (bt_wait_ms button) elapsed_ms DOUBLE_CLICK_MS\<rparr>) elapsed_ms
      | BTN_PRESS_DEBOUNCE \<Rightarrow>
          if pressed then button_hold button elapsed_ms else button_finish BUTTON_NONE
      | BTN_SECOND_PRESS_DEBOUNCE \<Rightarrow>
          if \<not> pressed then wait_for_second button elapsed_ms
          else button_hold (button\<lparr>bt_wait_ms :=
                 add_capped (bt_wait_ms button) elapsed_ms DOUBLE_CLICK_MS\<rparr>) elapsed_ms
      | _ \<Rightarrow> if pressed then button_hold button elapsed_ms else button_release button elapsed_ms)"

section \<open>The status LED\<close>

datatype airdap_button_indicator_pattern =
    INDICATOR_OFF | INDICATOR_SINGLE | INDICATOR_DOUBLE | INDICATOR_SLOW | INDICATOR_FAST
  | INDICATOR_VERY_FAST

record airdap_button_indicator =
  ind_pattern :: airdap_button_indicator_pattern
  ind_phase_ms :: u32
  ind_status_on :: bool

abbreviation (input) CLICK_FLASH_MS :: u32 where "CLICK_FLASH_MS \<equiv> 100"
abbreviation (input) SLOW_HALF_PERIOD_MS :: u32 where "SLOW_HALF_PERIOD_MS \<equiv> 500"
abbreviation (input) FAST_HALF_PERIOD_MS :: u32 where "FAST_HALF_PERIOD_MS \<equiv> 200"
abbreviation (input) VERY_FAST_HALF_PERIOD_MS :: u32 where "VERY_FAST_HALF_PERIOD_MS \<equiv> 60"

definition indicator_pattern ::
  "airdap_button_indicator_pattern \<Rightarrow> airdap_provisioning_button_state \<Rightarrow>
   airdap_provisioning_button_action \<Rightarrow> airdap_button_indicator_pattern"
where
  "indicator_pattern pattern state action =
     (if action = BUTTON_SINGLE_CLICK then INDICATOR_SINGLE
      else if action = BUTTON_DOUBLE_CLICK then INDICATOR_DOUBLE
      else case state of
        BTN_IDLE \<Rightarrow> if pattern \<noteq> INDICATOR_SINGLE \<and> pattern \<noteq> INDICATOR_DOUBLE then INDICATOR_OFF
                    else pattern
      | BTN_WAIT_SECOND_PRESS \<Rightarrow> INDICATOR_OFF
      | BTN_PRESSED \<Rightarrow> INDICATOR_OFF
      | BTN_SECOND_PRESSED \<Rightarrow> INDICATOR_OFF
      | BTN_LONG_2S \<Rightarrow> INDICATOR_SLOW
      | BTN_LONG_6S \<Rightarrow> INDICATOR_FAST
      | BTN_LONG_10S \<Rightarrow> INDICATOR_VERY_FAST
      | BTN_PRESS_DEBOUNCE \<Rightarrow> pattern
      | BTN_SECOND_PRESS_DEBOUNCE \<Rightarrow> pattern
      | BTN_RELEASE_DEBOUNCE \<Rightarrow> pattern)"

definition indicator_status :: "airdap_button_indicator_pattern \<Rightarrow> u32 \<Rightarrow> bool" where
  "indicator_status pattern phase \<longleftrightarrow> (case pattern of
     INDICATOR_OFF \<Rightarrow> False
   | INDICATOR_SINGLE \<Rightarrow> True
   | INDICATOR_DOUBLE \<Rightarrow> phase < CLICK_FLASH_MS \<or> phase \<ge> 2 * CLICK_FLASH_MS
   | INDICATOR_SLOW \<Rightarrow> phase < SLOW_HALF_PERIOD_MS
   | INDICATOR_FAST \<Rightarrow> phase < FAST_HALF_PERIOD_MS
   | INDICATOR_VERY_FAST \<Rightarrow> phase < VERY_FAST_HALF_PERIOD_MS)"

definition airdap_button_indicator_step ::
  "airdap_button_indicator \<Rightarrow> airdap_provisioning_button \<Rightarrow> airdap_provisioning_button_action \<Rightarrow>
   u32 \<Rightarrow> airdap_button_indicator"
where
  "airdap_button_indicator_step indicator button action elapsed_ms =
     (let pattern = indicator_pattern (ind_pattern indicator) (bt_state button) action;
          click = (action = BUTTON_SINGLE_CLICK \<or> action = BUTTON_DOUBLE_CLICK);
          period = (if pattern = INDICATOR_SLOW then 2 * SLOW_HALF_PERIOD_MS
                    else if pattern = INDICATOR_FAST then 2 * FAST_HALF_PERIOD_MS
                    else 2 * VERY_FAST_HALF_PERIOD_MS);
          duration = (if pattern = INDICATOR_SINGLE then CLICK_FLASH_MS else 3 * CLICK_FLASH_MS);
          phase = ind_phase_ms indicator;
          (pattern, phase) =
            (if pattern \<noteq> ind_pattern indicator \<or> click then (pattern, 0)
             else if pattern = INDICATOR_SINGLE \<or> pattern = INDICATOR_DOUBLE then
               (let phase = phase + (if elapsed_ms < duration - phase then elapsed_ms
                                     else duration - phase)
                in if phase = duration then (INDICATOR_OFF, 0) else (pattern, phase))
             else (pattern, (phase + elapsed_ms mod period) mod period))
      in \<lparr>ind_pattern = pattern, ind_phase_ms = phase,
          ind_status_on = indicator_status pattern phase\<rparr>)"

section \<open>The gesture simulator\<close>

abbreviation (input) SIM_OFFLINE :: u32 where "SIM_OFFLINE \<equiv> 0"
abbreviation (input) SIM_IDLE :: u32 where "SIM_IDLE \<equiv> 1"
abbreviation (input) SIM_PHYSICAL_BUSY :: u32 where "SIM_PHYSICAL_BUSY \<equiv> 2"
abbreviation (input) SIM_GESTURE_BASE :: u32 where "SIM_GESTURE_BASE \<equiv> 3"
abbreviation (input) AIRDAP_BUTTON_GESTURE_COUNT :: u32 where "AIRDAP_BUTTON_GESTURE_COUNT \<equiv> 5"

record airdap_button_simulator =
  sim_elapsed_ms :: u32
  sim_started :: bool

definition zero_simulator :: airdap_button_simulator where
  "zero_simulator = \<lparr>sim_elapsed_ms = 0, sim_started = False\<rparr>"

text \<open>The word after the call; a negative gesture is a large unsigned one.\<close>

definition airdap_button_simulation_init :: u32 where
  "airdap_button_simulation_init = SIM_IDLE"

definition airdap_button_simulate :: "u32 \<Rightarrow> u32 \<Rightarrow> esp_err \<times> u32" where
  "airdap_button_simulate control gesture =
     (if gesture \<ge> AIRDAP_BUTTON_GESTURE_COUNT then (ESP_ERR_INVALID_ARG, control)
      else if control = SIM_IDLE then (ESP_OK, SIM_GESTURE_BASE + gesture)
      else (ESP_ERR_INVALID_STATE, control))"

definition airdap_button_simulation_get :: "u32 \<Rightarrow> bool \<Rightarrow> esp_err \<times> u32 option" where
  "airdap_button_simulation_get control gesture_present =
     (if \<not> gesture_present then (ESP_ERR_INVALID_ARG, None)
      else if control = SIM_OFFLINE then (ESP_ERR_INVALID_STATE, None)
      else (ESP_OK, Some (if control \<ge> SIM_GESTURE_BASE then control - SIM_GESTURE_BASE
                          else AIRDAP_BUTTON_GESTURE_COUNT)))"

definition gesture_release_at :: "u32 \<Rightarrow> u32" where
  "gesture_release_at gesture =
     (if gesture = 1 then 300 else if gesture = 0 then 100 else if gesture = 2 then 2100
      else if gesture = 3 then 6100 else 10100)"

definition gesture_pressed :: "u32 \<Rightarrow> u32 \<Rightarrow> bool" where
  "gesture_pressed gesture time \<longleftrightarrow>
     (if gesture = 1 then time < 100 \<or> (time \<ge> 200 \<and> time < 300)
      else time < gesture_release_at gesture)"

record simulation_result =
  sr_discard :: bool
  sr_simulator :: airdap_button_simulator
  sr_pressed :: bool
  sr_control :: u32

text \<open>
  \<open>current\<close> is what the load returned, \<open>now\<close> what the word holds at the compare-exchange or
  store that ends the call.
\<close>

definition airdap_button_simulation_step ::
  "airdap_button_simulator \<Rightarrow> u32 \<Rightarrow> u32 \<Rightarrow> bool \<Rightarrow> bool \<Rightarrow> bool \<Rightarrow> u32 \<Rightarrow> simulation_result"
where
  "airdap_button_simulation_step simulator current now physical_pressed input_valid recognizer_idle
     elapsed_ms =
     (if current < SIM_GESTURE_BASE then
        \<lparr>sr_discard = False, sr_simulator = simulator, sr_pressed = False,
         sr_control =
           (if current \<noteq> SIM_OFFLINE \<and> now = current
            then (if input_valid \<and> \<not> physical_pressed \<and> recognizer_idle then SIM_IDLE
                  else SIM_PHYSICAL_BUSY)
            else now)\<rparr>
      else if \<not> sim_started simulator \<and> \<not> recognizer_idle then
        \<lparr>sr_discard = False, sr_simulator = simulator, sr_pressed = False,
         sr_control = SIM_PHYSICAL_BUSY\<rparr>
      else if \<not> input_valid \<or> physical_pressed then
        \<lparr>sr_discard = True, sr_simulator = zero_simulator, sr_pressed = False,
         sr_control = SIM_PHYSICAL_BUSY\<rparr>
      else
        let gesture = current - SIM_GESTURE_BASE;
            time = sim_elapsed_ms simulator;
            release_at = gesture_release_at gesture;
            end_ms = release_at + 400;
            pressed = gesture_pressed gesture time;
            simulator = simulator\<lparr>sim_started := True\<rparr>
        in if time \<ge> end_ms \<and> recognizer_idle then
             \<lparr>sr_discard = False, sr_simulator = zero_simulator, sr_pressed = pressed,
              sr_control = SIM_IDLE\<rparr>
           else if time < end_ms then
             \<lparr>sr_discard = False,
              sr_simulator = simulator\<lparr>sim_elapsed_ms :=
                time + (if elapsed_ms < end_ms - time then elapsed_ms else end_ms - time)\<rparr>,
              sr_pressed = pressed, sr_control = now\<rparr>
           else
             \<lparr>sr_discard = False, sr_simulator = simulator, sr_pressed = pressed,
              sr_control = now\<rparr>)"

section \<open>The recogniser: bounds\<close>

lemma add_capped_nat:
  assumes "v \<le> l"
  shows "unat (add_capped v e l) = min (unat v + unat e) (unat l)"
proof -
  have d: "unat (l - v) = unat l - unat v" using assms by (simp add: unat_sub)
  let ?i = "if e < l - v then e else l - v"
  have i: "unat ?i = min (unat e) (unat l - unat v)" using d by (auto simp: word_less_nat_alt)
  have "unat l < 2 ^ 32" using unsigned_less [of l, where ?'a = nat] by simp
  moreover have vl: "unat v \<le> unat l" using assms by (simp add: word_le_nat_alt)
  ultimately have "unat v + unat ?i < 2 ^ LENGTH(32)" using i by simp
  then have "unat (v + ?i) = unat v + unat ?i" by (simp only: unat_word_ariths mod_less)
  then show ?thesis unfolding add_capped_def using i vl by simp
qed

lemma add_capped_le: "v \<le> l \<Longrightarrow> add_capped v e l \<le> l"
  by (simp add: word_le_nat_alt add_capped_nat)

definition button_inv :: "airdap_provisioning_button \<Rightarrow> bool" where
  "button_inv b \<longleftrightarrow> bt_held_ms b \<le> PROVISIONING_CLEAR_MS \<and> bt_wait_ms b \<le> DOUBLE_CLICK_MS \<and>
     bt_released_ms b \<le> (if bt_held_ms b \<ge> PROVISIONING_TOGGLE_MS then RELEASE_CONFIRM_MS
                          else DOUBLE_CLICK_MS) \<and>
     (bt_state b = BTN_IDLE \<longrightarrow> b = airdap_provisioning_button_init)"

lemma init_inv [simp]: "button_inv airdap_provisioning_button_init"
  by (simp add: button_inv_def airdap_provisioning_button_init_def)

lemma hold_inv:
  "bt_held_ms b \<le> 10000 \<Longrightarrow> bt_wait_ms b \<le> 300 \<Longrightarrow> bt_state b \<noteq> BTN_IDLE \<Longrightarrow>
   button_inv (fst (button_hold b e))"
  using add_capped_le [of "bt_held_ms b" 10000 e]
  by (auto simp: button_hold_def Let_def button_inv_def)

lemma wait_inv: "button_inv b \<Longrightarrow> button_inv (fst (wait_for_second b e))"
  using add_capped_le [of "bt_wait_ms b" 300 e]
  by (cases "add_capped (bt_wait_ms b) e 300 = 300")
    (auto simp: wait_for_second_def Let_def button_finish_def, auto simp: button_inv_def)

lemma release_inv:
  assumes "button_inv b" shows "button_inv (fst (button_release b e))"
proof -
  let ?l = "if bt_held_ms b \<ge> 2000 then 200 else 300 :: u32"
  let ?b = "b\<lparr>bt_released_ms := add_capped (bt_released_ms b) e ?l, bt_state := BTN_RELEASE_DEBOUNCE\<rparr>"
  have "bt_released_ms b \<le> ?l" using assms by (simp add: button_inv_def)
  then have "add_capped (bt_released_ms b) e ?l \<le> ?l" by (rule add_capped_le)
  then have b: "button_inv ?b" "button_inv (?b\<lparr>bt_wait_ms := 0\<rparr>)"
    using assms by (auto simp: button_inv_def)
  then show ?thesis
    using wait_inv [OF b(2), of "add_capped (bt_released_ms b) e ?l"]
    by (auto simp: button_release_def Let_def button_finish_def)
qed

text \<open>The button timers stay bounded for every sample, level and elapsed time up to 2^32-1 ms: the hold counter by 10 s, the release counter by its confirm time, the click window by 300 ms; so the capped additions never wrap around, and IDLE is exactly the reset state.\<close>

theorem button_step_inv:
  assumes "button_inv b" shows "button_inv (fst (airdap_provisioning_button_step b pressed e))"
proof -
  have w: "add_capped (bt_wait_ms b) e 300 \<le> 300"
    using assms by (intro add_capped_le) (simp add: button_inv_def)
  have h: "bt_held_ms b \<le> 10000" "bt_wait_ms b \<le> 300" using assms by (auto simp: button_inv_def)
  show ?thesis
    using h w assms
    by (cases "bt_state b")
      (auto simp: airdap_provisioning_button_step_def button_finish_def
        intro!: hold_inv wait_inv release_inv)
qed

section \<open>The recogniser: gestures\<close>

definition press_state :: "nat \<Rightarrow> bool \<Rightarrow> airdap_provisioning_button_state" where
  "press_state h second =
     (if h \<ge> 10000 then BTN_LONG_10S else if h \<ge> 6000 then BTN_LONG_6S
      else if h \<ge> 2000 then BTN_LONG_2S
      else if h \<ge> 40 then (if second then BTN_SECOND_PRESSED else BTN_PRESSED)
      else if second then BTN_SECOND_PRESS_DEBOUNCE else BTN_PRESS_DEBOUNCE)"

definition held_at :: "airdap_provisioning_button \<Rightarrow> nat \<Rightarrow> bool \<Rightarrow> bool" where
  "held_at b h second \<longleftrightarrow> unat (bt_held_ms b) = min h 10000 \<and> bt_second_press b = second \<and>
     bt_released_ms b = 0 \<and> bt_state b = press_state h second"

definition press :: "u32 \<Rightarrow> airdap_provisioning_button \<Rightarrow> airdap_provisioning_button" where
  "press e b = fst (airdap_provisioning_button_step b True e)"

definition press_all :: "u32 list \<Rightarrow> airdap_provisioning_button \<Rightarrow> airdap_provisioning_button" where
  "press_all es b = fold press es b"

definition total :: "u32 list \<Rightarrow> nat" where
  "total es = sum_list (map unat es)"

lemma hold_held_at:
  assumes "unat (bt_held_ms b) = min h 10000" "bt_second_press b = second"
    "h + unat e < 40 \<longrightarrow> bt_state b = press_state h second" "h < 40 \<or> h + unat e \<ge> 40"
  shows "held_at (fst (button_hold b e)) (h + unat e) second"
proof -
  have "bt_held_ms b \<le> 10000" using assms(1) by (simp add: word_le_nat_alt)
  then have "unat (add_capped (bt_held_ms b) e 10000) = min (h + unat e) 10000"
    using add_capped_nat [of "bt_held_ms b" 10000 e] assms(1) by (simp add: min_def)
  then show ?thesis using assms(2-)
    by (auto simp: held_at_def button_hold_def Let_def press_state_def word_le_nat_alt)
qed

lemma press_first:
  assumes "e \<noteq> 0" shows "held_at (press e airdap_provisioning_button_init) (unat e) False"
  using hold_held_at [of "airdap_provisioning_button_init\<lparr>bt_state := BTN_PRESS_DEBOUNCE\<rparr>" 0 False e] assms
  by (simp add: press_def airdap_provisioning_button_step_def airdap_provisioning_button_init_def press_state_def)

lemma press_second:
  assumes "e \<noteq> 0" "bt_state b = BTN_WAIT_SECOND_PRESS"
  shows "held_at (press e b) (unat e) True"
  using assms hold_held_at [of "b\<lparr>bt_second_press := True, bt_held_ms := 0,
      bt_state := BTN_SECOND_PRESS_DEBOUNCE, bt_wait_ms := add_capped (bt_wait_ms b) e 300\<rparr>" 0 True e]
  by (simp add: press_def airdap_provisioning_button_step_def press_state_def)

lemma press_more:
  assumes "held_at b h second" "e \<noteq> 0" "h > 0"
  shows "held_at (press e b) (h + unat e) second"
proof -
  have b: "unat (bt_held_ms b) = min h 10000" "bt_second_press b = second" "bt_state b = press_state h second"
    using assms(1) by (auto simp: held_at_def)
  have 1: "held_at (fst (button_hold b e)) (h + unat e) second"
    by (rule hold_held_at) (use b in auto)
  have 2: "held_at (fst (button_hold (b\<lparr>bt_wait_ms := x\<rparr>) e)) (h + unat e) second" for x
    by (rule hold_held_at) (use b in auto)
  show ?thesis using b assms(2) 1 2
    by (cases second) (simp_all add: press_def airdap_provisioning_button_step_def press_state_def)
qed

lemma press_all_more:
  "held_at b h second \<Longrightarrow> h > 0 \<Longrightarrow> 0 \<notin> set es \<Longrightarrow> held_at (press_all es b) (h + total es) second"
  unfolding press_all_def total_def
proof (induction es arbitrary: b h)
  case (Cons e es)
  then have "held_at (press e b) (h + unat e) second" using press_more by auto
  then show ?case using Cons.IH [of "press e b" "h + unat e"] Cons.prems by (simp add: ac_simps)
qed simp

lemma press_all_from:
  assumes "es \<noteq> []" "0 \<notin> set es"
  shows "held_at (press_all es airdap_provisioning_button_init) (total es) False"
    "bt_state b = BTN_WAIT_SECOND_PRESS \<Longrightarrow> held_at (press_all es b) (total es) True"
proof -
  obtain e es' where es: "es = e # es'" "e \<noteq> 0" "0 \<notin> set es'" using assms by (cases es) auto
  then have "unat e > 0" by (simp add: unat_gt_0)
  then show "held_at (press_all es airdap_provisioning_button_init) (total es) False"
    "bt_state b = BTN_WAIT_SECOND_PRESS \<Longrightarrow> held_at (press_all es b) (total es) True"
    using press_all_more [OF press_first [OF es(2)] _ es(3)]
      press_all_more [OF press_second [OF es(2)] _ es(3)]
    by (simp_all add: es press_all_def total_def)
qed

lemma release_capped:
  "l \<in> {200, 300} \<Longrightarrow> unat (add_capped 0 r l) = min (unat r) (unat (l :: u32))"
  by (simp add: add_capped_nat)

lemma release_long:
  assumes "held_at b h second" "h \<ge> 2000" "r \<ge> 200"
  shows "airdap_provisioning_button_step b False r = (airdap_provisioning_button_init,
    if h \<ge> 10000 then BUTTON_CLEAR else if h \<ge> 6000 then BUTTON_HOLD_6 else BUTTON_TOGGLE)"
proof -
  have "airdap_provisioning_button_step b False r = button_release b r"
    using assms by (auto simp: held_at_def airdap_provisioning_button_step_def press_state_def)
  moreover have "unat (add_capped 0 r 200) = 200" using assms(3) by (simp add: release_capped word_le_nat_alt)
  moreover have "add_capped 0 r 200 = 200" using calculation(2) by (simp add: word_unat_eq_iff)
  ultimately show ?thesis using assms
    by (auto simp: held_at_def button_release_def Let_def button_finish_def word_le_nat_alt)
qed

lemma release_short:
  assumes "held_at b h second" "40 \<le> h" "h < 2000" "r \<ge> 40"
  shows "airdap_provisioning_button_step b False r =
    (if second then (airdap_provisioning_button_init, BUTTON_DOUBLE_CLICK)
     else if r \<ge> 300 then (airdap_provisioning_button_init, BUTTON_SINGLE_CLICK)
     else (b\<lparr>bt_released_ms := r, bt_wait_ms := r, bt_state := BTN_WAIT_SECOND_PRESS\<rparr>, BUTTON_NONE))"
proof -
  let ?c = "add_capped 0 r 300"
  have c: "unat ?c = min (unat r) 300" by (simp add: release_capped)
  have c40: "\<not> ?c < 40" using c assms(4) by (auto simp: word_less_nat_alt word_le_nat_alt)
  have cc: "unat (add_capped 0 ?c 300) = min (unat r) 300" using c by (simp add: add_capped_nat)
  have "add_capped 0 ?c 300 = 300 \<longleftrightarrow> r \<ge> 300"
    using cc by (auto simp: word_unat_eq_iff word_le_nat_alt)
  moreover have "\<not> r \<ge> 300 \<Longrightarrow> ?c = r \<and> add_capped 0 ?c 300 = r"
    using c cc by (auto simp: word_unat_eq_iff word_le_nat_alt)
  moreover have "airdap_provisioning_button_step b False r = button_release b r"
    using assms by (auto simp: held_at_def airdap_provisioning_button_step_def press_state_def)
  moreover have "\<not> bt_held_ms b \<ge> 2000" "bt_released_ms b = 0" "bt_second_press b = second"
    using assms by (auto simp: held_at_def word_le_nat_alt)
  ultimately show ?thesis using c40
    by (auto simp: button_release_def Let_def button_finish_def wait_for_second_def)
qed

text \<open>A hold is recognised by its total length however it is sampled: for any positive samples of a pressed level adding up to at least 2 s, a confirmed release yields TOGGLE below 6 s, HOLD_6 below 10 s and CLEAR from 10 s on, and the recogniser returns to its initial state.\<close>

theorem hold_gestures:
  assumes "es \<noteq> []" "0 \<notin> set es" "r \<ge> RELEASE_CONFIRM_MS" "total es \<ge> 2000"
  shows "airdap_provisioning_button_step (press_all es airdap_provisioning_button_init) False r =
    (airdap_provisioning_button_init,
     if total es \<ge> 10000 then BUTTON_CLEAR else if total es \<ge> 6000 then BUTTON_HOLD_6
     else BUTTON_TOGGLE)"
  using release_long [OF press_all_from(1) [OF assms(1,2)] assms(4,3)] .

text \<open>Clicks: a press of 40 ms to 2 s, however sampled, followed by a release of at least 300 ms is a single click; with a shorter confirmed release and a second such press it is one double click and no single click is reported in between.\<close>

theorem click_gestures:
  assumes "es \<noteq> []" "0 \<notin> set es" "40 \<le> total es" "total es < 2000" "r \<ge> CLICK_RELEASE_MS"
    "es2 \<noteq> []" "0 \<notin> set es2" "40 \<le> total es2" "total es2 < 2000" "r2 \<ge> CLICK_RELEASE_MS"
  defines "first \<equiv> airdap_provisioning_button_step (press_all es airdap_provisioning_button_init) False r"
  shows "if r \<ge> DOUBLE_CLICK_MS then first = (airdap_provisioning_button_init, BUTTON_SINGLE_CLICK)
    else snd first = BUTTON_NONE \<and>
      airdap_provisioning_button_step (press_all es2 (fst first)) False r2 =
        (airdap_provisioning_button_init, BUTTON_DOUBLE_CLICK)"
proof -
  have f: "first = (if r \<ge> 300 then (airdap_provisioning_button_init, BUTTON_SINGLE_CLICK)
     else ((press_all es airdap_provisioning_button_init)\<lparr>bt_released_ms := r, bt_wait_ms := r,
           bt_state := BTN_WAIT_SECOND_PRESS\<rparr>, BUTTON_NONE))"
    unfolding first_def using release_short [OF press_all_from(1) [OF assms(1,2)] assms(3-5)] by simp
  then have "\<not> r \<ge> 300 \<Longrightarrow> bt_state (fst first) = BTN_WAIT_SECOND_PRESS" by simp
  then have "\<not> r \<ge> 300 \<Longrightarrow> held_at (press_all es2 (fst first)) (total es2) True"
    using press_all_from(2) [OF assms(6,7)] by blast
  then show ?thesis using f release_short [OF _ assms(8-10)] by auto
qed

text \<open>Contact bounce is rejected: a pressed level of less than 40 ms in total followed by a release reports nothing and resets the recogniser.\<close>

theorem bounce_rejected:
  assumes "es \<noteq> []" "0 \<notin> set es" "total es < 40" "r \<noteq> 0"
  shows "airdap_provisioning_button_step (press_all es airdap_provisioning_button_init) False r =
    (airdap_provisioning_button_init, BUTTON_NONE)"
  using press_all_from(1) [OF assms(1,2)] assms(3,4)
  by (simp add: held_at_def press_state_def airdap_provisioning_button_step_def button_finish_def)

section \<open>The indicator and the simulator\<close>

fun indicator_period :: "airdap_button_indicator_pattern \<Rightarrow> u32" where
  "indicator_period INDICATOR_SINGLE = 100"
| "indicator_period INDICATOR_DOUBLE = 300"
| "indicator_period INDICATOR_SLOW = 1000"
| "indicator_period INDICATOR_FAST = 400"
| "indicator_period _ = 120"

definition indicator_inv :: "airdap_button_indicator \<Rightarrow> bool" where
  "indicator_inv i \<longleftrightarrow> ind_phase_ms i < indicator_period (ind_pattern i) \<and>
     ind_status_on i = indicator_status (ind_pattern i) (ind_phase_ms i)"

lemma capped_add_less:
  assumes "phase < dur" "phase + (if e < dur - phase then e else dur - phase) \<noteq> dur"
  shows "phase + (if e < dur - phase then e else dur - phase) < (dur :: u32)"
proof -
  have "unat (add_capped phase e dur) \<le> unat dur"
    using add_capped_nat [of phase dur e] assms(1) by simp
  then have "add_capped phase e dur \<le> dur" by (simp add: word_le_nat_alt)
  then show ?thesis using assms(2) unfolding add_capped_def by simp
qed

text \<open>The status LED phase always stays inside the period of its pattern for every elapsed time (so the unsigned subtraction of a click flash cannot wrap) and the LED output is a function of pattern and phase.\<close>

theorem indicator_step_inv:
  assumes "indicator_inv i"
  shows "indicator_inv (airdap_button_indicator_step i b a e)"
proof -
  let ?p = "indicator_pattern (ind_pattern i) (bt_state b) a"
  have m: "x mod k < k" if "0 < k" for x k :: u32 using that by (simp add: word_mod_less_divisor)
  have per: "0 < indicator_period q" for q by (cases q) auto
  show ?thesis
  proof (cases "?p \<noteq> ind_pattern i \<or> a = BUTTON_SINGLE_CLICK \<or> a = BUTTON_DOUBLE_CLICK")
    case True
    then show ?thesis using per [of ?p]
      by (auto simp: airdap_button_indicator_step_def Let_def indicator_inv_def)
  next
    case False
    then have p: "ind_phase_ms i < indicator_period ?p" using assms by (auto simp: indicator_inv_def)
    show ?thesis
      using False p capped_add_less [of "ind_phase_ms i" "indicator_period ?p" e] m
      by (cases ?p) (auto simp: airdap_button_indicator_step_def Let_def indicator_inv_def)
  qed
qed

text \<open>The gesture simulator never overruns its time line, an idle poll that raced a shell request does not overwrite the request, and physical input or a failed read cancels a running simulation and releases the simulated button.\<close>

theorem simulation_step_safe:
  assumes "sim_elapsed_ms sim \<le> 10500"
    and r_def: "r = airdap_button_simulation_step sim current now phys valid idle e"
  shows "sim_elapsed_ms (sr_simulator r) \<le> 10500 \<and>
    (current < SIM_GESTURE_BASE \<and> SIM_GESTURE_BASE \<le> now \<longrightarrow> sr_control r = now) \<and>
    (SIM_GESTURE_BASE \<le> current \<and> (phys \<or> \<not> valid) \<longrightarrow>
       \<not> sr_pressed r \<and> sr_control r = SIM_PHYSICAL_BUSY \<and>
       (sim_started sim \<or> idle \<longrightarrow> sr_discard r \<and> sr_simulator r = zero_simulator))"
proof -
  let ?limit = "gesture_release_at (current - 3) + 400"
  have e: "?limit \<le> 10500" by (simp add: gesture_release_at_def)
  have "add_capped (sim_elapsed_ms sim) e ?limit \<le> ?limit" if "sim_elapsed_ms sim < ?limit"
    using that by (intro add_capped_le) simp
  then have "sim_elapsed_ms sim < ?limit \<Longrightarrow> add_capped (sim_elapsed_ms sim) e ?limit \<le> 10500"
    using e order_trans by blast
  then show ?thesis using assms(1)
    by (auto simp: r_def airdap_button_simulation_step_def Let_def zero_simulator_def add_capped_def)
qed

section \<open>Witnesses\<close>

theorem button_step_inv_witness:
  "button_inv (fst (airdap_provisioning_button_step airdap_provisioning_button_init True 0xFFFFFFFF))"
  by (rule button_step_inv) simp

theorem hold_gestures_witness:
  "airdap_provisioning_button_step (press_all [1500, 1500] airdap_provisioning_button_init) False 200 =
     (airdap_provisioning_button_init, BUTTON_TOGGLE)"
  using hold_gestures [of "[1500, 1500]" 200] by (simp add: total_def)

theorem click_gestures_witness:
  "snd (airdap_provisioning_button_step (press_all [60] (fst (airdap_provisioning_button_step
     (press_all [50] airdap_provisioning_button_init) False 100))) False 40) = BUTTON_DOUBLE_CLICK"
  using click_gestures [of "[50]" 100 "[60]" 40] by (simp add: total_def)

theorem bounce_rejected_witness:
  "airdap_provisioning_button_step (press_all [20] airdap_provisioning_button_init) False 20 =
     (airdap_provisioning_button_init, BUTTON_NONE)"
  using bounce_rejected [of "[20]" 20] by (simp add: total_def)

theorem indicator_step_inv_witness:
  "indicator_inv (airdap_button_indicator_step
     \<lparr>ind_pattern = INDICATOR_OFF, ind_phase_ms = 0, ind_status_on = False\<rparr>
     airdap_provisioning_button_init BUTTON_SINGLE_CLICK 20)"
  by (rule indicator_step_inv) (simp add: indicator_inv_def indicator_status_def)

theorem simulation_step_safe_witness:
  "sr_control (airdap_button_simulation_step zero_simulator SIM_IDLE 5 False True True 20) = 5"
  using simulation_step_safe [OF _ refl, of zero_simulator SIM_IDLE 5 False True True 20]
  by (simp add: zero_simulator_def)
end
