(* ===== verification/Dap_Protocol.thy ===== *)
theory Dap_Protocol
  imports AirDAP_Prelude
begin

text \<open>
  The CMSIS-DAP command processor, \<^verbatim>\<open>firmware/components/dap_protocol/dap_protocol.c\<close>: request
  framing (\<^verbatim>\<open>airdap_dap_request_size\<close>) and execution (\<^verbatim>\<open>airdap_dap_process_packet\<close>). Requests and
  responses are bounded buffers, so every function is an option whose \<^const>\<open>None\<close> is an access
  outside a buffer. The backend is the struct of callbacks of the code, each of them nullable,
  over an arbitrary context; what a callback does is a parameter.
\<close>

section \<open>Data\<close>

abbreviation (input) AIRDAP_DAP_PACKET_SIZE :: nat where "AIRDAP_DAP_PACKET_SIZE \<equiv> 508"
abbreviation (input) AIRDAP_DAP_PORT_DISABLED :: u8 where "AIRDAP_DAP_PORT_DISABLED \<equiv> 0"
abbreviation (input) AIRDAP_DAP_PORT_SWD :: u8 where "AIRDAP_DAP_PORT_SWD \<equiv> 1"
abbreviation (input) AIRDAP_OTA_WRITE_HEADER_SIZE :: nat where "AIRDAP_OTA_WRITE_HEADER_SIZE \<equiv> 7"
abbreviation (input) AIRDAP_OTA_MAX_WRITE_SIZE :: nat where "AIRDAP_OTA_MAX_WRITE_SIZE \<equiv> 496"
abbreviation (input) DAP_OK :: u8 where "DAP_OK \<equiv> 0"
abbreviation (input) DAP_ERROR :: u8 where "DAP_ERROR \<equiv> 0xFF"
abbreviation (input) ID_DAP_INFO :: u8 where "ID_DAP_INFO \<equiv> 0x00"
abbreviation (input) ID_DAP_HOST_STATUS :: u8 where "ID_DAP_HOST_STATUS \<equiv> 0x01"
abbreviation (input) ID_DAP_CONNECT :: u8 where "ID_DAP_CONNECT \<equiv> 0x02"
abbreviation (input) ID_DAP_DISCONNECT :: u8 where "ID_DAP_DISCONNECT \<equiv> 0x03"
abbreviation (input) ID_DAP_TRANSFER_CONFIGURE :: u8 where "ID_DAP_TRANSFER_CONFIGURE \<equiv> 0x04"
abbreviation (input) ID_DAP_TRANSFER :: u8 where "ID_DAP_TRANSFER \<equiv> 0x05"
abbreviation (input) ID_DAP_TRANSFER_BLOCK :: u8 where "ID_DAP_TRANSFER_BLOCK \<equiv> 0x06"
abbreviation (input) ID_DAP_WRITE_ABORT :: u8 where "ID_DAP_WRITE_ABORT \<equiv> 0x08"
abbreviation (input) ID_DAP_DELAY :: u8 where "ID_DAP_DELAY \<equiv> 0x09"
abbreviation (input) ID_DAP_RESET_TARGET :: u8 where "ID_DAP_RESET_TARGET \<equiv> 0x0A"
abbreviation (input) ID_DAP_SWJ_PINS :: u8 where "ID_DAP_SWJ_PINS \<equiv> 0x10"
abbreviation (input) ID_DAP_SWJ_CLOCK :: u8 where "ID_DAP_SWJ_CLOCK \<equiv> 0x11"
abbreviation (input) ID_DAP_SWJ_SEQUENCE :: u8 where "ID_DAP_SWJ_SEQUENCE \<equiv> 0x12"
abbreviation (input) ID_DAP_SWD_CONFIGURE :: u8 where "ID_DAP_SWD_CONFIGURE \<equiv> 0x13"
abbreviation (input) ID_DAP_SWD_SEQUENCE :: u8 where "ID_DAP_SWD_SEQUENCE \<equiv> 0x1D"
abbreviation (input) ID_AIRDAP_OTA_QUERY :: u8 where "ID_AIRDAP_OTA_QUERY \<equiv> 0x80"
abbreviation (input) ID_AIRDAP_OTA_BEGIN :: u8 where "ID_AIRDAP_OTA_BEGIN \<equiv> 0x81"
abbreviation (input) ID_AIRDAP_OTA_WRITE :: u8 where "ID_AIRDAP_OTA_WRITE \<equiv> 0x82"
abbreviation (input) ID_AIRDAP_OTA_COMMIT :: u8 where "ID_AIRDAP_OTA_COMMIT \<equiv> 0x83"
abbreviation (input) ID_AIRDAP_OTA_ABORT :: u8 where "ID_AIRDAP_OTA_ABORT \<equiv> 0x84"
abbreviation (input) ID_AIRDAP_OTA_REBOOT :: u8 where "ID_AIRDAP_OTA_REBOOT \<equiv> 0x85"
abbreviation (input) ID_DAP_INVALID :: u8 where "ID_DAP_INVALID \<equiv> 0xFF"
abbreviation (input) DAP_TRANSFER_OK :: u8 where "DAP_TRANSFER_OK \<equiv> 1"
abbreviation (input) DAP_TRANSFER_ERROR :: u8 where "DAP_TRANSFER_ERROR \<equiv> 8"
abbreviation (input) DAP_TRANSFER_MISMATCH :: u8 where "DAP_TRANSFER_MISMATCH \<equiv> 16"

text \<open>The flags of a transfer request byte and of a sequence info byte.\<close>

definition tr_ap :: "u8 \<Rightarrow> bool" where "tr_ap r \<longleftrightarrow> r AND 0x01 \<noteq> 0"
definition tr_read :: "u8 \<Rightarrow> bool" where "tr_read r \<longleftrightarrow> r AND 0x02 \<noteq> 0"
definition tr_match_value :: "u8 \<Rightarrow> bool" where "tr_match_value r \<longleftrightarrow> r AND 0x10 \<noteq> 0"
definition tr_match_mask :: "u8 \<Rightarrow> bool" where "tr_match_mask r \<longleftrightarrow> r AND 0x20 \<noteq> 0"
definition tr_timestamp :: "u8 \<Rightarrow> bool" where "tr_timestamp r \<longleftrightarrow> r AND 0x80 \<noteq> 0"
definition seq_input :: "u8 \<Rightarrow> bool" where "seq_input i \<longleftrightarrow> i AND 0x80 \<noteq> 0"

definition seq_bit_count :: "u8 \<Rightarrow> nat" where
  "seq_bit_count info = (if info AND 0x3F = 0 then 64 else unat (info AND 0x3F))"

definition seq_byte_count :: "u8 \<Rightarrow> nat" where
  "seq_byte_count info = (seq_bit_count info + 7) div 8"

record 'c airdap_dap_backend =
  be_connect :: "('c \<Rightarrow> bool \<times> 'c) option"
  be_disconnect :: "('c \<Rightarrow> 'c) option"
  be_set_clock :: "(u32 \<Rightarrow> 'c \<Rightarrow> bool \<times> 'c) option"
  be_configure_transfer :: "(u8 \<Rightarrow> u16 \<Rightarrow> 'c \<Rightarrow> bool \<times> 'c) option"
  be_configure_swd :: "(u8 \<Rightarrow> bool \<Rightarrow> 'c \<Rightarrow> bool \<times> 'c) option"
  be_transfer :: "(bool \<Rightarrow> bool \<Rightarrow> u8 \<Rightarrow> u32 \<Rightarrow> u8 \<Rightarrow> 'c \<Rightarrow> (bool \<times> u32 \<times> u8) \<times> 'c) option"
  be_write_sequence :: "(bytes \<Rightarrow> nat \<Rightarrow> 'c \<Rightarrow> bool \<times> 'c) option"
  be_read_sequence :: "(bytes \<Rightarrow> nat \<Rightarrow> 'c \<Rightarrow> (bool \<times> bytes) \<times> 'c) option"
  be_swj_pins :: "(u8 \<Rightarrow> u8 \<Rightarrow> u32 \<Rightarrow> u8 \<Rightarrow> 'c \<Rightarrow> (bool \<times> u8) \<times> 'c) option"
  be_reset_target :: "('c \<Rightarrow> bool \<times> 'c) option"
  be_delay_us :: "(u16 \<Rightarrow> 'c \<Rightarrow> 'c) option"
  be_host_status :: "(u8 \<Rightarrow> bool \<Rightarrow> 'c \<Rightarrow> 'c) option"
  be_vendor_command :: "(bool \<Rightarrow> bytes \<Rightarrow> nat \<Rightarrow> bytes \<Rightarrow> nat \<Rightarrow> 'c \<Rightarrow> (nat \<times> bytes) \<times> 'c) option"

text \<open>The processor; the C context pointer's target is \<open>pr_context\<close>, strings lack their NUL.\<close>

record 'c airdap_dap_processor =
  pr_backend :: "'c airdap_dap_backend"
  pr_context :: 'c
  pr_serial_number :: bytes
  pr_firmware_version :: bytes
  pr_match_mask :: u32
  pr_match_retries :: u16
  pr_selected_port :: u8

definition null_backend :: "'c airdap_dap_backend" where
  "null_backend = \<lparr>be_connect = None, be_disconnect = None, be_set_clock = None,
     be_configure_transfer = None, be_configure_swd = None, be_transfer = None,
     be_write_sequence = None, be_read_sequence = None, be_swj_pins = None,
     be_reset_target = None, be_delay_us = None, be_host_status = None,
     be_vendor_command = None\<rparr>"

definition airdap_dap_processor_init ::
  "'c airdap_dap_backend option \<Rightarrow> 'c \<Rightarrow> bytes option \<Rightarrow> bytes option \<Rightarrow> 'c airdap_dap_processor"
where
  "airdap_dap_processor_init backend context serial_number firmware_version =
     \<lparr>pr_backend = (case backend of None \<Rightarrow> null_backend | Some b \<Rightarrow> b),
      pr_context = context,
      pr_serial_number = (case serial_number of None \<Rightarrow> [] | Some s \<Rightarrow> s),
      pr_firmware_version = (case firmware_version of None \<Rightarrow> [] | Some s \<Rightarrow> s),
      pr_match_mask = UINT32_MAX, pr_match_retries = 0,
      pr_selected_port = AIRDAP_DAP_PORT_DISABLED\<rparr>"

section \<open>Framing\<close>

text \<open>The two loops of \<^verbatim>\<open>airdap_dap_request_size\<close>; the first argument counts the remaining rounds.\<close>

fun transfer_size_loop :: "nat \<Rightarrow> bytes \<Rightarrow> nat \<Rightarrow> nat \<Rightarrow> nat option" where
  "transfer_size_loop 0 request available_length len = Some len"
| "transfer_size_loop (Suc n) request available_length len =
     (if available_length \<le> len then Some 0
      else do {
        transfer_request \<leftarrow> rd request len;
        let len = len + 1;
        let extra = (\<not> tr_read transfer_request \<or> tr_match_value transfer_request);
        if extra \<and> len > SIZE_MAX - 4 then Some SIZE_MAX
        else let len = (if extra then len + 4 else len) in
          if len > AIRDAP_DAP_PACKET_SIZE then Some SIZE_MAX
          else if available_length < len then Some 0
          else transfer_size_loop n request available_length len })"

fun sequence_size_loop :: "nat \<Rightarrow> bytes \<Rightarrow> nat \<Rightarrow> nat \<Rightarrow> nat option" where
  "sequence_size_loop 0 request available_length len = Some len"
| "sequence_size_loop (Suc n) request available_length len =
     (if available_length \<le> len then Some 0
      else do {
        sequence_info \<leftarrow> rd request len;
        let len = len + 1;
        if \<not> seq_input sequence_info then
          let len = len + seq_byte_count sequence_info in
          if len > AIRDAP_DAP_PACKET_SIZE then Some SIZE_MAX
          else if available_length < len then Some 0
          else sequence_size_loop n request available_length len
        else sequence_size_loop n request available_length len })"

definition fixed_size :: "nat \<Rightarrow> nat \<Rightarrow> nat option" where
  "fixed_size available_length n = Some (if available_length \<ge> n then n else 0)"

definition airdap_dap_request_size :: "bytes option \<Rightarrow> nat \<Rightarrow> nat option" where
  "airdap_dap_request_size request available_length =
     (if request = None \<or> available_length = 0 then Some 0
      else let request = the request in do {
        command \<leftarrow> rd request 0;
        if command \<in> {ID_DAP_INFO, ID_DAP_CONNECT, ID_DAP_SWD_CONFIGURE}
        then fixed_size available_length 2
        else if command \<in> {ID_DAP_HOST_STATUS, ID_DAP_DELAY} then fixed_size available_length 3
        else if command \<in> {ID_DAP_DISCONNECT, ID_DAP_RESET_TARGET, ID_AIRDAP_OTA_QUERY,
                           ID_AIRDAP_OTA_COMMIT, ID_AIRDAP_OTA_ABORT, ID_AIRDAP_OTA_REBOOT}
        then Some 1
        else if command \<in> {ID_DAP_TRANSFER_CONFIGURE, ID_DAP_WRITE_ABORT}
        then fixed_size available_length 6
        else if command = ID_DAP_SWJ_PINS then fixed_size available_length 7
        else if command \<in> {ID_DAP_SWJ_CLOCK, ID_AIRDAP_OTA_BEGIN}
        then fixed_size available_length 5
        else if command = ID_AIRDAP_OTA_WRITE then
          (if available_length < AIRDAP_OTA_WRITE_HEADER_SIZE then Some 0
           else do {
             size \<leftarrow> read_u16 request 5;
             if unat size > AIRDAP_OTA_MAX_WRITE_SIZE then Some SIZE_MAX
             else fixed_size available_length (unat size + AIRDAP_OTA_WRITE_HEADER_SIZE) })
        else if command = ID_DAP_SWJ_SEQUENCE then
          (if available_length < 2 then Some 0
           else do {
             bits \<leftarrow> rd request 1;
             let len = 2 + ((if bits = 0 then 256 else unat bits) + 7) div 8;
             if len > AIRDAP_DAP_PACKET_SIZE then Some SIZE_MAX
             else fixed_size available_length len })
        else if command = ID_DAP_TRANSFER_BLOCK then
          (if available_length < 5 then Some 0
           else do {
             transfer_request \<leftarrow> rd request 4;
             count \<leftarrow> read_u16 request 2;
             if \<not> tr_read transfer_request \<and> unat count > (SIZE_MAX - 5) div 4 then Some SIZE_MAX
             else let len = 5 + (if \<not> tr_read transfer_request then unat count * 4 else 0) in
               if len > AIRDAP_DAP_PACKET_SIZE then Some SIZE_MAX
               else fixed_size available_length len })
        else if command = ID_DAP_TRANSFER then
          (if available_length < 3 then Some 0
           else do {
             count \<leftarrow> rd request 2;
             transfer_size_loop (unat count) request available_length 3 })
        else if command = ID_DAP_SWD_SEQUENCE then
          (if available_length < 2 then Some 0
           else do {
             count \<leftarrow> rd request 1;
             sequence_size_loop (unat count) request available_length 2 })
        else Some 1 })"

section \<open>Responses\<close>

type_synonym 'c dap_result = "(nat \<times> bytes \<times> 'c airdap_dap_processor) option"

definition invalid_response :: "bytes \<Rightarrow> nat \<Rightarrow> 'c airdap_dap_processor \<Rightarrow> 'c dap_result" where
  "invalid_response response response_capacity processor =
     (if response_capacity > 0
      then do { response \<leftarrow> wr response 0 ID_DAP_INVALID; Some (1, response, processor) }
      else Some (0, response, processor))"

definition status_response ::
  "u8 \<Rightarrow> bool \<Rightarrow> bytes \<Rightarrow> nat \<Rightarrow> 'c airdap_dap_processor \<Rightarrow> 'c dap_result"
where
  "status_response command success response response_capacity processor =
     (if response_capacity < 2 then invalid_response response response_capacity processor
      else do {
        response \<leftarrow> wr response 0 command;
        response \<leftarrow> wr response 1 (if success then DAP_OK else DAP_ERROR);
        Some (2, response, processor) })"

text \<open>The data of one DAP_Info request; strings with their terminating NUL.\<close>

definition info_vendor :: bytes where
  "info_vendor = [0x41, 0x69, 0x72, 0x44, 0x41, 0x50, 0]"

definition info_product :: bytes where
  "info_product = [0x41, 0x69, 0x72, 0x44, 0x41, 0x50, 0x20, 0x43, 0x4D, 0x53, 0x49, 0x53, 0x2D,
     0x44, 0x41, 0x50, 0x20, 0x76, 0x32, 0]"

definition info_protocol_version :: bytes where
  "info_protocol_version = [0x32, 0x2E, 0x31, 0x2E, 0x32, 0]"

definition info_data :: "'c airdap_dap_processor \<Rightarrow> u8 \<Rightarrow> bytes" where
  "info_data processor info_id =
     (if info_id = 0x01 then info_vendor
      else if info_id = 0x02 then info_product
      else if info_id = 0x03 then pr_serial_number processor @ [0]
      else if info_id = 0x04 then info_protocol_version
      else if info_id = 0x09 then pr_firmware_version processor @ [0]
      else if info_id = 0xF0 then [1, 1]
      else if info_id = 0xFE then [1]
      else if info_id = 0xFF then [byte0 (of_nat AIRDAP_DAP_PACKET_SIZE :: u16),
                              byte1 (of_nat AIRDAP_DAP_PACKET_SIZE :: u16)]
      else [])"

definition process_info ::
  "'c airdap_dap_processor \<Rightarrow> bytes \<Rightarrow> nat \<Rightarrow> bytes \<Rightarrow> nat \<Rightarrow> 'c dap_result"
where
  "process_info processor request request_length response response_capacity =
     (if request_length < 2 \<or> response_capacity < 2
      then invalid_response response response_capacity processor
      else do {
        info_id \<leftarrow> rd request 1;
        let data = info_data processor info_id;
        let len = length data;
        if len > 255 \<or> response_capacity < 2 + len
        then invalid_response response response_capacity processor
        else do {
          response \<leftarrow> wr response 0 ID_DAP_INFO;
          response \<leftarrow> wr response 1 (of_nat len);
          response \<leftarrow> (if len > 0 then wr_bytes response 2 data len else Some response);
          Some (2 + len, response, processor) } })"

section \<open>Transfers\<close>

text \<open>One transfer: whether it succeeded, the data and status words, and the processor.\<close>

definition transfer_once ::
  "'c airdap_dap_processor \<Rightarrow> u8 \<Rightarrow> u32 \<Rightarrow> u8 \<Rightarrow> bool \<times> u32 \<times> u8 \<times> 'c airdap_dap_processor"
where
  "transfer_once processor transfer_request data status =
     (case be_transfer (pr_backend processor) of
        None \<Rightarrow> (False, data, DAP_TRANSFER_ERROR, processor)
      | Some transfer \<Rightarrow>
          let ((ok, data, status), context) =
                transfer (tr_ap transfer_request) (tr_read transfer_request)
                  (transfer_request AND 0x0C) data status (pr_context processor);
              processor = processor\<lparr>pr_context := context\<rparr>
          in if \<not> ok then (False, data, DAP_TRANSFER_ERROR, processor)
             else (status = DAP_TRANSFER_OK, data, status, processor))"

fun transfer_scan_loop :: "nat \<Rightarrow> bytes \<Rightarrow> nat \<Rightarrow> nat \<Rightarrow> (nat \<times> nat) option" where
  "transfer_scan_loop 0 request scan required = Some (scan, required)"
| "transfer_scan_loop (Suc n) request scan required = do {
     transfer_request \<leftarrow> rd request scan;
     let read = tr_read transfer_request;
     let match_value = tr_match_value transfer_request;
     transfer_scan_loop n request
       (if \<not> read \<or> match_value then scan + 5 else scan + 1)
       (if read \<and> \<not> match_value
        then required + (if tr_timestamp transfer_request then 8 else 4) else required) }"

text \<open>The value-match loop: \<open>attempts\<close> is what is left of \<^verbatim>\<open>match_retries + 1\<close>.\<close>

fun match_loop ::
  "nat \<Rightarrow> u8 \<Rightarrow> u32 \<Rightarrow> u8 \<Rightarrow> 'c airdap_dap_processor \<Rightarrow> bool \<times> u8 \<times> 'c airdap_dap_processor"
where
  "match_loop 0 transfer_request data status processor = (False, status, processor)"
| "match_loop (Suc attempts) transfer_request data status processor =
     (let (ok, actual, status, processor) = transfer_once processor transfer_request 0 status in
      if \<not> ok then (False, status, processor)
      else if actual AND pr_match_mask processor = data AND pr_match_mask processor
      then (True, status, processor)
      else match_loop attempts transfer_request data status processor)"

record 'c transfer_state =
  ts_input :: nat
  ts_output :: nat
  ts_completed :: u8
  ts_status :: u8
  ts_pending_write :: bool
  ts_response :: bytes
  ts_processor :: "'c airdap_dap_processor"

text \<open>
  The loop of \<^verbatim>\<open>process_transfer\<close>; the flag tells whether it left through
  \<^verbatim>\<open>return invalid_response(...)\<close>.
\<close>

fun transfer_loop ::
  "nat \<Rightarrow> bytes \<Rightarrow> nat \<Rightarrow> nat \<Rightarrow> 'c transfer_state \<Rightarrow> (bool \<times> 'c transfer_state) option"
where
  "transfer_loop 0 request request_length response_capacity st = Some (False, st)"
| "transfer_loop (Suc n) request request_length response_capacity st =
     (if ts_input st \<ge> request_length then Some (True, st)
      else do {
        transfer_request \<leftarrow> rd request (ts_input st);
        let st = st\<lparr>ts_input := ts_input st + 1\<rparr>;
        let read = tr_read transfer_request;
        let match_value = tr_match_value transfer_request;
        if tr_match_mask transfer_request then
          (if read \<or> ts_input st + 4 > request_length then Some (True, st)
           else do {
             m \<leftarrow> read_u32 request (ts_input st);
             transfer_loop n request request_length response_capacity
               (st\<lparr>ts_processor := (ts_processor st)\<lparr>pr_match_mask := m\<rparr>,
                   ts_input := ts_input st + 4, ts_completed := ts_completed st + 1\<rparr>) })
        else if (\<not> read \<or> match_value) \<and> ts_input st + 4 > request_length then Some (True, st)
        else do {
          data \<leftarrow> (if \<not> read \<or> match_value then read_u32 request (ts_input st) else Some 0);
          let st = (if \<not> read \<or> match_value then st\<lparr>ts_input := ts_input st + 4\<rparr> else st);
          if match_value then
            (let (matched, status, processor) =
               match_loop (unat (pr_match_retries (ts_processor st)) + 1) transfer_request data
                 (ts_status st) (ts_processor st);
               st = st\<lparr>ts_status := status, ts_processor := processor\<rparr>
             in if \<not> matched
                then Some (False, if status = DAP_TRANSFER_OK
                                  then st\<lparr>ts_status := status OR DAP_TRANSFER_MISMATCH\<rparr> else st)
                else transfer_loop n request request_length response_capacity
                       (st\<lparr>ts_completed := ts_completed st + 1\<rparr>))
          else
            (let (ok, data, status, processor) =
               transfer_once (ts_processor st) transfer_request data (ts_status st);
               st = st\<lparr>ts_status := status, ts_processor := processor\<rparr>
             in if \<not> ok then Some (False, st)
             else let st = st\<lparr>ts_completed := ts_completed st + 1, ts_pending_write := \<not> read\<rparr> in
               if read then
                 (if ts_output st + (if tr_timestamp transfer_request then 8 else 4) > response_capacity
                  then Some (True, st)
                  else do {
                    st \<leftarrow> (if tr_timestamp transfer_request then do {
                             r \<leftarrow> write_u32 (ts_response st) (ts_output st) 0;
                             Some (st\<lparr>ts_response := r, ts_output := ts_output st + 4\<rparr>) }
                           else Some st);
                    r \<leftarrow> write_u32 (ts_response st) (ts_output st) data;
                    transfer_loop n request request_length response_capacity
                      (st\<lparr>ts_response := r, ts_output := ts_output st + 4\<rparr>) })
               else transfer_loop n request request_length response_capacity st) } })"

text \<open>The status of a pending write is read back from RDBUFF.\<close>

definition flush_write :: "bool \<Rightarrow> u8 \<Rightarrow> 'c airdap_dap_processor \<Rightarrow> u8 \<times> 'c airdap_dap_processor" where
  "flush_write pending status processor =
     (if pending \<and> status = DAP_TRANSFER_OK
      then let (ok, ignored, status, processor) = transfer_once processor 0x0E 0 status
           in (status, processor)
      else (status, processor))"

definition process_transfer ::
  "'c airdap_dap_processor \<Rightarrow> bytes \<Rightarrow> nat \<Rightarrow> bytes \<Rightarrow> nat \<Rightarrow> 'c dap_result"
where
  "process_transfer processor request request_length response response_capacity =
     (if request_length < 3 \<or> response_capacity < 3
      then invalid_response response response_capacity processor
      else do {
        framed_length \<leftarrow> airdap_dap_request_size (Some request) request_length;
        if framed_length = 0 \<or> framed_length = SIZE_MAX
        then invalid_response response response_capacity processor
        else do {
          count \<leftarrow> rd request 2;
          (scan, required_response) \<leftarrow> transfer_scan_loop (unat count) request 3 3;
          if required_response > response_capacity \<or> scan \<noteq> framed_length
          then invalid_response response response_capacity processor
          else do {
            response \<leftarrow> wr response 0 ID_DAP_TRANSFER;
            response \<leftarrow> wr response 1 0;
            response \<leftarrow> wr response 2 0;
            if pr_selected_port processor \<noteq> AIRDAP_DAP_PORT_SWD
            then Some (3, response, processor)
            else do {
              (invalid, st) \<leftarrow> transfer_loop (unat count) request request_length response_capacity
                \<lparr>ts_input = 3, ts_output = 3, ts_completed = 0, ts_status = DAP_TRANSFER_OK,
                 ts_pending_write = False, ts_response = response, ts_processor = processor\<rparr>;
              if invalid
              then invalid_response (ts_response st) response_capacity (ts_processor st)
              else do {
                let (status, processor) =
                  flush_write (ts_pending_write st) (ts_status st) (ts_processor st);
                response \<leftarrow> wr (ts_response st) 1 (ts_completed st);
                response \<leftarrow> wr response 2 status;
                Some (ts_output st, response, processor) } } } } })"

record 'c block_state =
  bs_input :: nat
  bs_output :: nat
  bs_completed :: u16
  bs_status :: u8
  bs_response :: bytes
  bs_processor :: "'c airdap_dap_processor"

fun transfer_block_loop ::
  "nat \<Rightarrow> u8 \<Rightarrow> bytes \<Rightarrow> nat \<Rightarrow> nat \<Rightarrow> 'c block_state \<Rightarrow> (bool \<times> 'c block_state) option"
where
  "transfer_block_loop 0 transfer_request request request_length response_capacity st =
     Some (False, st)"
| "transfer_block_loop (Suc n) transfer_request request request_length response_capacity st =
     (let read = tr_read transfer_request in
      if \<not> read \<and> bs_input st + 4 > request_length then Some (True, st)
      else if read \<and> bs_output st + 4 > response_capacity then Some (True, st)
      else do {
        data \<leftarrow> (if \<not> read then read_u32 request (bs_input st) else Some 0);
        let st = (if \<not> read then st\<lparr>bs_input := bs_input st + 4\<rparr> else st);
        let (ok, data, status, processor) =
          transfer_once (bs_processor st) transfer_request data (bs_status st);
        let st = st\<lparr>bs_status := status, bs_processor := processor\<rparr>;
        if \<not> ok then Some (False, st)
        else do {
          let st = st\<lparr>bs_completed := bs_completed st + 1\<rparr>;
          st \<leftarrow> (if read then do {
                   r \<leftarrow> write_u32 (bs_response st) (bs_output st) data;
                   Some (st\<lparr>bs_response := r, bs_output := bs_output st + 4\<rparr>) }
                 else Some st);
          transfer_block_loop n transfer_request request request_length response_capacity st } })"

definition process_transfer_block ::
  "'c airdap_dap_processor \<Rightarrow> bytes \<Rightarrow> nat \<Rightarrow> bytes \<Rightarrow> nat \<Rightarrow> 'c dap_result"
where
  "process_transfer_block processor request request_length response response_capacity =
     (if request_length < 5 \<or> response_capacity < 4
      then invalid_response response response_capacity processor
      else do {
        count \<leftarrow> read_u16 request 2;
        transfer_request \<leftarrow> rd request 4;
        let read = tr_read transfer_request;
        if (read \<and> unat count > (response_capacity - 4) div 4) \<or>
           (\<not> read \<and> unat count > (request_length - 5) div 4)
        then invalid_response response response_capacity processor
        else do {
          response \<leftarrow> wr response 0 ID_DAP_TRANSFER_BLOCK;
          let st = \<lparr>bs_input = 5, bs_output = 4, bs_completed = 0, bs_status = DAP_TRANSFER_OK,
                    bs_response = response, bs_processor = processor\<rparr>;
          (invalid, st) \<leftarrow>
            (if pr_selected_port processor = AIRDAP_DAP_PORT_SWD
             then transfer_block_loop (unat count) transfer_request request request_length
                    response_capacity st
             else Some (False, st\<lparr>bs_status := 0\<rparr>));
          if invalid
          then invalid_response (bs_response st) response_capacity (bs_processor st)
          else do {
            let (status, processor) =
              (if pr_selected_port processor = AIRDAP_DAP_PORT_SWD
               then flush_write (\<not> read \<and> bs_completed st > 0) (bs_status st) (bs_processor st)
               else (bs_status st, bs_processor st));
            response \<leftarrow> write_u16 (bs_response st) 1 (bs_completed st);
            response \<leftarrow> wr response 3 status;
            Some (bs_output st, response, processor) } } })"

section \<open>Sequences\<close>

fun sequence_scan_loop :: "nat \<Rightarrow> bytes \<Rightarrow> nat \<Rightarrow> nat \<Rightarrow> nat \<Rightarrow> nat option option" where
  "sequence_scan_loop 0 request request_length scan required = Some (Some required)"
| "sequence_scan_loop (Suc n) request request_length scan required =
     (if scan \<ge> request_length then Some None
      else do {
        info \<leftarrow> rd request scan;
        if seq_input info
        then sequence_scan_loop n request request_length (scan + 1) (required + seq_byte_count info)
        else if scan + 1 + seq_byte_count info > request_length then Some None
        else sequence_scan_loop n request request_length (scan + 1 + seq_byte_count info) required })"

record 'c sequence_state =
  ss_input :: nat
  ss_output :: nat
  ss_success :: bool
  ss_response :: bytes
  ss_processor :: "'c airdap_dap_processor"

text \<open>A read sequence hands the callback the zeroed bytes of the response it may write.\<close>

definition backend_read_sequence ::
  "'c airdap_dap_processor \<Rightarrow> bytes \<Rightarrow> nat \<Rightarrow> bool \<times> bytes \<times> 'c airdap_dap_processor"
where
  "backend_read_sequence processor buf bit_count =
     (case be_read_sequence (pr_backend processor) of
        None \<Rightarrow> (False, buf, processor)
      | Some f \<Rightarrow> let ((ok, buf), context) = f buf bit_count (pr_context processor)
                  in (ok, buf, processor\<lparr>pr_context := context\<rparr>))"

definition backend_write_sequence ::
  "'c airdap_dap_processor \<Rightarrow> bytes \<Rightarrow> nat \<Rightarrow> bool \<times> 'c airdap_dap_processor"
where
  "backend_write_sequence processor buf bit_count =
     (case be_write_sequence (pr_backend processor) of
        None \<Rightarrow> (False, processor)
      | Some f \<Rightarrow> let (ok, context) = f buf bit_count (pr_context processor)
                  in (ok, processor\<lparr>pr_context := context\<rparr>))"

fun swd_sequence_loop ::
  "nat \<Rightarrow> bytes \<Rightarrow> nat \<Rightarrow> nat \<Rightarrow> 'c sequence_state \<Rightarrow> (bool \<times> 'c sequence_state) option"
where
  "swd_sequence_loop 0 request request_length response_capacity st = Some (False, st)"
| "swd_sequence_loop (Suc n) request request_length response_capacity st =
     (if ss_input st \<ge> request_length then Some (True, st)
      else do {
        info \<leftarrow> rd request (ss_input st);
        let st = st\<lparr>ss_input := ss_input st + 1\<rparr>;
        let bit_count = seq_bit_count info;
        let byte_count = seq_byte_count info;
        if seq_input info then
          (if ss_output st + byte_count > response_capacity then Some (True, st)
           else do {
             response \<leftarrow> wr_bytes (ss_response st) (ss_output st) (replicate byte_count 0) byte_count;
             buf \<leftarrow> rd_bytes response (ss_output st) byte_count;
             let (ok, buf, processor) =
               (if ss_success st then backend_read_sequence (ss_processor st) buf bit_count
                else (False, buf, ss_processor st));
             response \<leftarrow> wr_bytes response (ss_output st) buf byte_count;
             swd_sequence_loop n request request_length response_capacity
               (st\<lparr>ss_response := response, ss_processor := processor, ss_success := ok,
                   ss_output := ss_output st + byte_count\<rparr>) })
        else
          (if ss_input st + byte_count > request_length then Some (True, st)
           else do {
             buf \<leftarrow> rd_bytes request (ss_input st) byte_count;
             let (ok, processor) =
               (if ss_success st then backend_write_sequence (ss_processor st) buf bit_count
                else (False, ss_processor st));
             swd_sequence_loop n request request_length response_capacity
               (st\<lparr>ss_processor := processor, ss_success := ok,
                   ss_input := ss_input st + byte_count\<rparr>) }) })"

definition process_swd_sequence ::
  "'c airdap_dap_processor \<Rightarrow> bytes \<Rightarrow> nat \<Rightarrow> bytes \<Rightarrow> nat \<Rightarrow> 'c dap_result"
where
  "process_swd_sequence processor request request_length response response_capacity =
     (if request_length < 2 \<or> response_capacity < 2
      then invalid_response response response_capacity processor
      else do {
        count \<leftarrow> rd request 1;
        scanned \<leftarrow> sequence_scan_loop (unat count) request request_length 2 2;
        case scanned of
          None \<Rightarrow> invalid_response response response_capacity processor
        | Some required_response \<Rightarrow>
          if required_response > response_capacity
          then invalid_response response response_capacity processor
          else do {
            (invalid, st) \<leftarrow> swd_sequence_loop (unat count) request request_length response_capacity
              \<lparr>ss_input = 2, ss_output = 2,
               ss_success = (pr_selected_port processor = AIRDAP_DAP_PORT_SWD),
               ss_response = response, ss_processor = processor\<rparr>;
            if invalid
            then invalid_response (ss_response st) response_capacity (ss_processor st)
            else do {
              response \<leftarrow> wr (ss_response st) 0 ID_DAP_SWD_SEQUENCE;
              response \<leftarrow> wr response 1 (if ss_success st then DAP_OK else DAP_ERROR);
              Some (ss_output st, response, ss_processor st) } } })"

section \<open>Commands\<close>

text \<open>A callback of result type \<^verbatim>\<open>bool\<close> behind a NULL check.\<close>

definition call_bool ::
  "('c \<Rightarrow> bool \<times> 'c) option \<Rightarrow> 'c airdap_dap_processor \<Rightarrow> bool \<times> 'c airdap_dap_processor"
where
  "call_bool f processor = (case f of None \<Rightarrow> (False, processor)
     | Some f \<Rightarrow> let (ok, context) = f (pr_context processor)
                 in (ok, processor\<lparr>pr_context := context\<rparr>))"

definition call_void ::
  "('c \<Rightarrow> 'c) option \<Rightarrow> 'c airdap_dap_processor \<Rightarrow> 'c airdap_dap_processor"
where
  "call_void f processor = (case f of None \<Rightarrow> processor
     | Some f \<Rightarrow> processor\<lparr>pr_context := f (pr_context processor)\<rparr>)"

definition process_host_status ::
  "'c airdap_dap_processor \<Rightarrow> bytes \<Rightarrow> nat \<Rightarrow> bytes \<Rightarrow> nat \<Rightarrow> 'c dap_result"
where
  "process_host_status processor request request_length response response_capacity =
     (if request_length < 3 then invalid_response response response_capacity processor
      else do {
        command \<leftarrow> rd request 0; status_type \<leftarrow> rd request 1; active \<leftarrow> rd request 2;
        if status_type > 1 then invalid_response response response_capacity processor
        else status_response command True response response_capacity
          (call_void (map_option (\<lambda>f. f status_type (active AND 1 \<noteq> 0))
             (be_host_status (pr_backend processor))) processor) })"

definition process_connect ::
  "'c airdap_dap_processor \<Rightarrow> bytes \<Rightarrow> nat \<Rightarrow> bytes \<Rightarrow> nat \<Rightarrow> 'c dap_result"
where
  "process_connect processor request request_length response response_capacity =
     (if request_length < 2 \<or> response_capacity < 2
      then invalid_response response response_capacity processor
      else do {
        command \<leftarrow> rd request 0; port \<leftarrow> rd request 1;
        let supported_port = (port = 0 \<or> port = AIRDAP_DAP_PORT_SWD);
        let (connected, processor) =
          (if supported_port then call_bool (be_connect (pr_backend processor)) processor
           else (False, processor));
        let processor = (if \<not> connected
                         then call_void (be_disconnect (pr_backend processor)) processor
                         else processor);
        let selected = (if connected then AIRDAP_DAP_PORT_SWD else AIRDAP_DAP_PORT_DISABLED);
        response \<leftarrow> wr response 0 command;
        response \<leftarrow> wr response 1 selected;
        Some (2, response, processor\<lparr>pr_selected_port := selected\<rparr>) })"

definition process_disconnect ::
  "'c airdap_dap_processor \<Rightarrow> bytes \<Rightarrow> bytes \<Rightarrow> nat \<Rightarrow> 'c dap_result"
where
  "process_disconnect processor request response response_capacity = do {
     command \<leftarrow> rd request 0;
     status_response command True response response_capacity
       ((call_void (be_disconnect (pr_backend processor)) processor)
          \<lparr>pr_selected_port := AIRDAP_DAP_PORT_DISABLED\<rparr>) }"

definition process_transfer_configure ::
  "'c airdap_dap_processor \<Rightarrow> bytes \<Rightarrow> nat \<Rightarrow> bytes \<Rightarrow> nat \<Rightarrow> 'c dap_result"
where
  "process_transfer_configure processor request request_length response response_capacity =
     (if request_length < 6 then invalid_response response response_capacity processor
      else do {
        command \<leftarrow> rd request 0; idle_cycles \<leftarrow> rd request 1;
        retries \<leftarrow> read_u16 request 4;
        wait_retries \<leftarrow> read_u16 request 2;
        let (success, processor) =
          call_bool (map_option (\<lambda>f. f idle_cycles wait_retries)
            (be_configure_transfer (pr_backend processor)))
            (processor\<lparr>pr_match_retries := retries\<rparr>);
        status_response command success response response_capacity processor })"

definition process_write_abort ::
  "'c airdap_dap_processor \<Rightarrow> bytes \<Rightarrow> nat \<Rightarrow> bytes \<Rightarrow> nat \<Rightarrow> 'c dap_result"
where
  "process_write_abort processor request request_length response response_capacity =
     (if request_length < 6 then invalid_response response response_capacity processor
      else do {
        command \<leftarrow> rd request 0;
        data \<leftarrow> read_u32 request 2;
        if pr_selected_port processor = AIRDAP_DAP_PORT_SWD
        then let (success, ignored, status, processor) = transfer_once processor 0 data 0
             in status_response command success response response_capacity processor
        else status_response command False response response_capacity processor })"

definition process_delay ::
  "'c airdap_dap_processor \<Rightarrow> bytes \<Rightarrow> nat \<Rightarrow> bytes \<Rightarrow> nat \<Rightarrow> 'c dap_result"
where
  "process_delay processor request request_length response response_capacity =
     (if request_length < 3 then invalid_response response response_capacity processor
      else do {
        command \<leftarrow> rd request 0;
        delay \<leftarrow> read_u16 request 1;
        status_response command True response response_capacity
          (call_void (map_option (\<lambda>f. f delay) (be_delay_us (pr_backend processor))) processor) })"

definition process_reset_target ::
  "'c airdap_dap_processor \<Rightarrow> bytes \<Rightarrow> bytes \<Rightarrow> nat \<Rightarrow> 'c dap_result"
where
  "process_reset_target processor request response response_capacity =
     (if response_capacity < 3 then invalid_response response response_capacity processor
      else do {
        command \<leftarrow> rd request 0;
        let (success, processor) = call_bool (be_reset_target (pr_backend processor)) processor;
        response \<leftarrow> wr response 0 command;
        response \<leftarrow> wr response 1 (if success then DAP_OK else DAP_ERROR);
        response \<leftarrow> wr response 2 0;
        Some (3, response, processor) })"

definition process_swj_pins ::
  "'c airdap_dap_processor \<Rightarrow> bytes \<Rightarrow> nat \<Rightarrow> bytes \<Rightarrow> nat \<Rightarrow> 'c dap_result"
where
  "process_swj_pins processor request request_length response response_capacity =
     (if request_length < 7 \<or> response_capacity < 2
      then invalid_response response response_capacity processor
      else do {
        command \<leftarrow> rd request 0; value \<leftarrow> rd request 1; select \<leftarrow> rd request 2;
        wait \<leftarrow> read_u32 request 3;
        let ((success, pins), processor) =
          (case be_swj_pins (pr_backend processor) of
             None \<Rightarrow> ((False, 0), processor)
           | Some f \<Rightarrow> let (r, context) = f value select wait 0 (pr_context processor)
                       in (r, processor\<lparr>pr_context := context\<rparr>));
        response \<leftarrow> wr response 0 command;
        response \<leftarrow> wr response 1 (if success then pins else 0);
        Some (2, response, processor) })"

definition process_swj_clock ::
  "'c airdap_dap_processor \<Rightarrow> bytes \<Rightarrow> nat \<Rightarrow> bytes \<Rightarrow> nat \<Rightarrow> 'c dap_result"
where
  "process_swj_clock processor request request_length response response_capacity =
     (if request_length < 5 then invalid_response response response_capacity processor
      else do {
        command \<leftarrow> rd request 0;
        clock_hz \<leftarrow> read_u32 request 1;
        let (success, processor) =
          (if clock_hz \<noteq> 0
           then call_bool (map_option (\<lambda>f. f clock_hz) (be_set_clock (pr_backend processor))) processor
           else (False, processor));
        status_response command success response response_capacity processor })"

definition process_swj_sequence ::
  "'c airdap_dap_processor \<Rightarrow> bytes \<Rightarrow> nat \<Rightarrow> bytes \<Rightarrow> nat \<Rightarrow> 'c dap_result"
where
  "process_swj_sequence processor request request_length response response_capacity =
     (if request_length < 2 then invalid_response response response_capacity processor
      else do {
        command \<leftarrow> rd request 0;
        bits \<leftarrow> rd request 1;
        let bit_count = (if bits = 0 then 256 else unat bits);
        let byte_count = (bit_count + 7) div 8;
        if request_length \<ge> 2 + byte_count \<and> pr_selected_port processor = AIRDAP_DAP_PORT_SWD
        then do {
          data \<leftarrow> rd_bytes request 2 byte_count;
          let (success, processor) = backend_write_sequence processor data bit_count;
          status_response command success response response_capacity processor }
        else status_response command False response response_capacity processor })"

definition process_swd_configure ::
  "'c airdap_dap_processor \<Rightarrow> bytes \<Rightarrow> nat \<Rightarrow> bytes \<Rightarrow> nat \<Rightarrow> 'c dap_result"
where
  "process_swd_configure processor request request_length response response_capacity =
     (if request_length < 2 then invalid_response response response_capacity processor
      else do {
        command \<leftarrow> rd request 0;
        config \<leftarrow> rd request 1;
        let (success, processor) =
          call_bool (map_option (\<lambda>f. f ((config AND 0x03) + 1) (config AND 0x04 \<noteq> 0))
            (be_configure_swd (pr_backend processor))) processor;
        status_response command success response response_capacity processor })"

definition process_vendor ::
  "'c airdap_dap_processor \<Rightarrow> bytes \<Rightarrow> nat \<Rightarrow> bytes \<Rightarrow> nat \<Rightarrow> 'c dap_result"
where
  "process_vendor processor request request_length response response_capacity =
     (case be_vendor_command (pr_backend processor) of
        None \<Rightarrow> invalid_response response response_capacity processor
      | Some f \<Rightarrow>
          let ((size, response), context) =
                f (pr_selected_port processor \<noteq> AIRDAP_DAP_PORT_DISABLED) request request_length
                  response response_capacity (pr_context processor)
          in Some (size, response, processor\<lparr>pr_context := context\<rparr>))"

text \<open>
  The dispatcher. NULL pointers and zero lengths give 0. The processor is the caller's own
  object, so it is not nullable here.
\<close>

definition airdap_dap_process_packet ::
  "'c airdap_dap_processor \<Rightarrow> bytes option \<Rightarrow> nat \<Rightarrow> bytes option \<Rightarrow> nat \<Rightarrow>
   (nat \<times> bytes option \<times> 'c airdap_dap_processor) option"
where
  "airdap_dap_process_packet processor request_ptr request_length response_ptr response_capacity =
     (if request_ptr = None \<or> request_length = 0 \<or> response_ptr = None \<or> response_capacity = 0
      then Some (0, response_ptr, processor)
      else do {
        let request = the request_ptr;
        let response = the response_ptr;
        let cap = (if response_capacity > AIRDAP_DAP_PACKET_SIZE then AIRDAP_DAP_PACKET_SIZE
                   else response_capacity);
        command \<leftarrow> rd request 0;
        (size, response, processor) \<leftarrow>
          (if command = ID_DAP_INFO then process_info processor request request_length response cap
           else if command = ID_DAP_HOST_STATUS
           then process_host_status processor request request_length response cap
           else if command = ID_DAP_CONNECT
           then process_connect processor request request_length response cap
           else if command = ID_DAP_DISCONNECT
           then process_disconnect processor request response cap
           else if command = ID_DAP_TRANSFER_CONFIGURE
           then process_transfer_configure processor request request_length response cap
           else if command = ID_DAP_TRANSFER
           then process_transfer processor request request_length response cap
           else if command = ID_DAP_TRANSFER_BLOCK
           then process_transfer_block processor request request_length response cap
           else if command = ID_DAP_WRITE_ABORT
           then process_write_abort processor request request_length response cap
           else if command = ID_DAP_DELAY
           then process_delay processor request request_length response cap
           else if command = ID_DAP_RESET_TARGET
           then process_reset_target processor request response cap
           else if command = ID_DAP_SWJ_PINS
           then process_swj_pins processor request request_length response cap
           else if command = ID_DAP_SWJ_CLOCK
           then process_swj_clock processor request request_length response cap
           else if command = ID_DAP_SWJ_SEQUENCE
           then process_swj_sequence processor request request_length response cap
           else if command = ID_DAP_SWD_CONFIGURE
           then process_swd_configure processor request request_length response cap
           else if command = ID_DAP_SWD_SEQUENCE
           then process_swd_sequence processor request request_length response cap
           else if command \<in> {ID_AIRDAP_OTA_QUERY, ID_AIRDAP_OTA_BEGIN, ID_AIRDAP_OTA_WRITE,
                              ID_AIRDAP_OTA_COMMIT, ID_AIRDAP_OTA_ABORT, ID_AIRDAP_OTA_REBOOT}
           then process_vendor processor request request_length response cap
           else invalid_response response cap processor);
        Some (size, Some response, processor) })"

section \<open>Framing laws\<close>

datatype framing_result = Need_more | Malformed | Frame nat

definition framing_of :: "nat \<Rightarrow> framing_result" where
  "framing_of n = (if n = 0 then Need_more else if n = SIZE_MAX then Malformed else Frame n)"

definition dap_framing :: "bytes \<Rightarrow> framing_result" where
  "dap_framing b = framing_of (the (airdap_dap_request_size (Some b) (length b)))"

lemma size_max_big [simp]: "SIZE_MAX \<noteq> 0" "508 < SIZE_MAX" "n \<le> 508 \<Longrightarrow> n \<noteq> SIZE_MAX"
  by (simp_all add: SIZE_MAX_def)

lemma transfer_size_total:
  "avail \<le> length b \<Longrightarrow> \<exists>r. transfer_size_loop n b avail len = Some r"
  by (induction n arbitrary: len) (auto simp: rd_def Let_def)

lemma sequence_size_total:
  "avail \<le> length b \<Longrightarrow> \<exists>r. sequence_size_loop n b avail len = Some r"
  by (induction n arbitrary: len) (auto simp: rd_def Let_def)

lemma transfer_size_bounds:
  "transfer_size_loop n b avail len = Some r \<Longrightarrow> len \<le> avail \<Longrightarrow> len \<le> 508 \<Longrightarrow>
   r = 0 \<or> r = SIZE_MAX \<or> len \<le> r \<and> r \<le> avail \<and> r \<le> 508"
  by (induction n arbitrary: len)
    (force simp: Let_def bind_eq_Some_conv split: if_splits)+

lemma sequence_size_bounds:
  "sequence_size_loop n b avail len = Some r \<Longrightarrow> len \<le> avail \<Longrightarrow>
   r = 0 \<or> r = SIZE_MAX \<or> len \<le> r \<and> r \<le> avail"
proof (induction n arbitrary: len)
  case (Suc n)
  show ?case
  proof (cases "avail \<le> len")
    case False
    then obtain i where i: "rd b len = Some i" using Suc.prems by (auto simp: bind_eq_Some_conv)
    show ?thesis
      using Suc.prems Suc.IH [of "len + 1"] Suc.IH [of "len + 1 + seq_byte_count i"] False i
      by (auto simp: Let_def split: if_splits)
  qed (use Suc.prems in auto)
qed auto

lemma transfer_size_extend:
  "transfer_size_loop n b (length b) len = Some r \<Longrightarrow> r \<noteq> 0 \<Longrightarrow> len \<le> length b \<Longrightarrow>
   transfer_size_loop n (b @ c) (length b + length c) len = Some r"
  by (induction n arbitrary: len)
    (auto simp: Let_def bind_eq_Some_conv rd_def nth_append split: if_splits)

lemma sequence_size_extend:
  "sequence_size_loop n b (length b) len = Some r \<Longrightarrow> r \<noteq> 0 \<Longrightarrow> len \<le> length b \<Longrightarrow>
   sequence_size_loop n (b @ c) (length b + length c) len = Some r"
  by (induction n arbitrary: len)
    (auto simp: Let_def bind_eq_Some_conv rd_def nth_append split: if_splits)

lemma transfer_size_full:
  "transfer_size_loop n b avail len = Some 0 \<Longrightarrow> 0 < len \<Longrightarrow> len \<le> 508 \<Longrightarrow> avail \<le> 508"
  by (induction n arbitrary: len) (auto simp: Let_def bind_eq_Some_conv split: if_splits)

lemma fixed_size_Some [simp]: "fixed_size a n = Some (if a \<ge> n then n else 0)"
  by (simp add: fixed_size_def)

lemma request_size_total:
  "(\<And>r. request = Some r \<Longrightarrow> avail \<le> length r) \<Longrightarrow> \<exists>n. airdap_dap_request_size request avail = Some n"
proof (cases "request = None \<or> avail = 0")
  case False
  assume "\<And>r. request = Some r \<Longrightarrow> avail \<le> length r"
  then obtain r where r: "request = Some r" "avail \<le> length r" "0 < avail" using False by auto
  then have "rd r 0 = Some (r ! 0)" by (cases r) (simp_all add: rd_def)
  then show ?thesis
    using r transfer_size_total [OF r(2), of _ 3] sequence_size_total [OF r(2), of _ 2]
    by (auto simp: airdap_dap_request_size_def Let_def mem_simps)
qed (auto simp: airdap_dap_request_size_def)

lemma request_size_bounds:
  assumes "airdap_dap_request_size (Some b) avail = Some r" "avail \<le> length b"
  shows "r = 0 \<or> r = SIZE_MAX \<or> 0 < r \<and> r \<le> avail"
proof (cases "avail = 0")
  case False
  then have "rd b 0 = Some (b ! 0)" using assms(2) by (cases b) (simp_all add: rd_def)
  then show ?thesis
    using assms False transfer_size_bounds [of _ b avail 3 r] sequence_size_bounds [of _ b avail 2 r]
    by (auto simp: airdap_dap_request_size_def Let_def bind_eq_Some_conv split: if_splits)
qed (use assms in \<open>auto simp: airdap_dap_request_size_def\<close>)

lemma read_append:
  "off < length b \<Longrightarrow> rd (b @ c) off = rd b off"
  "off + 1 < length b \<Longrightarrow> read_u16 (b @ c) off = read_u16 b off"
  by (simp_all add: rd_def nth_append mem_simps)

text \<open>The commands whose length does not depend on their contents.\<close>

definition fixed_len :: "u8 \<Rightarrow> nat" where
  "fixed_len command =
     (if command \<in> {0x00, 0x02, 0x13} then 2 else if command \<in> {0x01, 0x09} then 3
      else if command \<in> {0x03, 0x0A, 0x80, 0x83, 0x84, 0x85} then 1
      else if command \<in> {0x04, 0x08} then 6 else if command = 0x10 then 7
      else if command \<in> {0x11, 0x81} then 5 else 1)"

lemma request_size_fixed:
  assumes "rd b 0 = Some k" "k \<notin> {0x82, 0x12, 0x06, 0x05, 0x1D}" "0 < avail"
  shows "airdap_dap_request_size (Some b) avail = Some (if fixed_len k \<le> avail then fixed_len k else 0)"
proof -
  have "1 \<le> avail" using assms(3) by simp
  then show ?thesis using assms
    by (simp add: airdap_dap_request_size_def fixed_len_def Let_def)
qed

lemma request_size_extend:
  assumes "airdap_dap_request_size (Some b) (length b) = Some r" "r \<noteq> 0"
  shows "airdap_dap_request_size (Some (b @ c)) (length (b @ c)) = Some r"
proof -
  have "b \<noteq> []" using assms by (auto simp: airdap_dap_request_size_def)
  then have hd: "rd b 0 = Some (b ! 0)" "rd (b @ c) 0 = Some (b ! 0)" by (simp_all add: rd_def nth_append)
  note sizes = airdap_dap_request_size_def Let_def hd
  consider "b ! 0 \<notin> {0x82, 0x12, 0x06, 0x05, 0x1D}" | "b ! 0 = 0x82" | "b ! 0 = 0x12" | "b ! 0 = 0x06"
    | "b ! 0 = 0x05" | "b ! 0 = 0x1D" by blast
  then show ?thesis
  proof cases
    case 1
    then show ?thesis
      using assms \<open>b \<noteq> []\<close> request_size_fixed [OF hd(1) 1, of "length b"]
        request_size_fixed [OF hd(2) 1, of "length (b @ c)"]
      by (simp split: if_splits)
  next
    case 2
    then have n: "7 \<le> length b" using assms \<open>b \<noteq> []\<close> by (simp add: sizes split: if_splits)
    then show ?thesis using assms \<open>b \<noteq> []\<close> 2 n
      by (auto simp: sizes nth_append mem_simps split: if_splits)
  next
    case 3
    then have n: "2 \<le> length b" using assms \<open>b \<noteq> []\<close> by (simp add: sizes split: if_splits)
    then show ?thesis using assms \<open>b \<noteq> []\<close> 3
      by (auto simp: sizes nth_append mem_simps split: if_splits)
  next
    case 4
    then have n: "5 \<le> length b" using assms \<open>b \<noteq> []\<close> by (simp add: sizes split: if_splits)
    then show ?thesis using assms \<open>b \<noteq> []\<close> 4
      by (auto simp: sizes nth_append mem_simps split: if_splits)
  next
    case 5
    then have n: "3 \<le> length b" using assms \<open>b \<noteq> []\<close> by (simp add: sizes split: if_splits)
    then show ?thesis using assms \<open>b \<noteq> []\<close> 5 transfer_size_extend [of "unat (b ! 2)" b 3 r c]
      by (simp add: sizes nth_append mem_simps)
  next
    case 6
    then have n: "2 \<le> length b" using assms \<open>b \<noteq> []\<close> by (simp add: sizes split: if_splits)
    then show ?thesis using assms \<open>b \<noteq> []\<close> 6 sequence_size_extend [of "unat (b ! 1)" b 2 r c]
      by (simp add: sizes nth_append mem_simps)
  qed
qed

text \<open>
  The contract a byte stream needs from a framing function: an empty buffer needs more, a frame
  is a non-empty prefix of the buffer, and more bytes never change an answer.
\<close>

locale framing =
  fixes frame :: "bytes \<Rightarrow> framing_result"
  assumes empty: "frame [] = Need_more"
    and prefix: "frame b = Frame n \<Longrightarrow> 0 < n \<and> n \<le> length b"
    and stable: "frame b \<noteq> Need_more \<Longrightarrow> frame (b @ c) = frame b"
begin

lemma stable_frame: "frame b = Frame n \<Longrightarrow> frame (b @ c) = Frame n"
  using stable [of b c] by simp

lemma need_more_prefix: "frame (b @ c) = Need_more \<Longrightarrow> frame b = Need_more"
  using stable by metis

end

interpretation dap_frames: framing dap_framing
proof
  show "dap_framing [] = Need_more" by (simp add: dap_framing_def airdap_dap_request_size_def framing_of_def)
next
  fix b n assume f: "dap_framing b = Frame n"
  obtain r where r: "airdap_dap_request_size (Some b) (length b) = Some r"
    using request_size_total [of "Some b"] by auto
  then show "0 < n \<and> n \<le> length b"
    using f request_size_bounds [OF r] by (auto simp: dap_framing_def framing_of_def split: if_splits)
next
  fix b c assume f: "dap_framing b \<noteq> Need_more"
  obtain r where r: "airdap_dap_request_size (Some b) (length b) = Some r"
    using request_size_total [of "Some b"] by auto
  then have "r \<noteq> 0" using f by (auto simp: dap_framing_def framing_of_def split: if_splits)
  then show "dap_framing (b @ c) = dap_framing b"
    using request_size_extend [OF r] r by (simp add: dap_framing_def)
qed

text \<open>C27. The framing contract. On any buffer \<^verbatim>\<open>airdap_dap_request_size\<close> returns without reading past the
  available bytes; a positive answer is a non-empty prefix of the buffer; and an answer other than
  "need more" does not change when further bytes arrive behind it.\<close>

theorem request_size_contract:
  "\<exists>r. airdap_dap_request_size (Some b) (length b) = Some r \<and>
     (r \<noteq> 0 \<and> r \<noteq> SIZE_MAX \<longrightarrow> r \<le> length b) \<and>
     (r \<noteq> 0 \<longrightarrow> (\<forall>c. airdap_dap_request_size (Some (b @ c)) (length (b @ c)) = Some r))"
proof -
  obtain r where r: "airdap_dap_request_size (Some b) (length b) = Some r"
    using request_size_total [of "Some b"] by auto
  then show ?thesis using request_size_bounds [OF r] request_size_extend [OF r] by auto
qed

theorem request_size_contract_witness:
  "airdap_dap_request_size (Some [0x05, 0, 1, 0x02]) 4 = Some 4 \<and>
   (\<forall>c. airdap_dap_request_size (Some ([0x05, 0, 1, 0x02] @ c)) (length c + 4) = Some 4)"
proof -
  have "airdap_dap_request_size (Some [0x05, 0, 1, 0x02]) 4 = Some 4"
    by (simp add: airdap_dap_request_size_def Let_def rd_def tr_read_def tr_match_value_def)
  then show ?thesis using request_size_contract [of "[0x05, 0, 1, 0x02]"] by (simp add: eval_nat_numeral)
qed

end
