(* ===== verification/Dap_Execution.thy ===== *)
theory Dap_Execution
  imports Dap_Protocol
begin

text \<open>
  What the execution of a CMSIS-DAP request guarantees: every access stays inside the request and
  the response, a response never exceeds its capacity or the packet size, commands that need the
  target leave it alone while no port is selected, and a block transfer is one transfer per word
  until the first that fails.
\<close>

section \<open>Memory safety\<close>

text \<open>
  What the processor relies on from the two callbacks that write into the response: a read
  sequence keeps the size of the buffer it is given, and a vendor command keeps the size of the
  response and reports at most its capacity.
\<close>

definition backend_ok :: "'c airdap_dap_backend \<Rightarrow> bool" where
  "backend_ok b \<longleftrightarrow>
     (\<forall>f buf n c. be_read_sequence b = Some f \<longrightarrow> length (snd (fst (f buf n c))) = length buf) \<and>
     (\<forall>f d req n resp cap c. be_vendor_command b = Some f \<longrightarrow>
        fst (fst (f d req n resp cap c)) \<le> cap \<and> length (snd (fst (f d req n resp cap c))) = length resp)"

definition fits ::
  "nat \<Rightarrow> nat \<Rightarrow> ('c airdap_dap_processor \<Rightarrow> bool) \<Rightarrow> nat \<times> bytes \<times> 'c airdap_dap_processor \<Rightarrow> bool"
where
  "fits cap L Q = (\<lambda>(n, response, p). n \<le> cap \<and> length response = L \<and> Q p)"

abbreviation (input) keeps_backend :: "'c airdap_dap_processor \<Rightarrow> 'c airdap_dap_processor \<Rightarrow> bool" where
  "keeps_backend p \<equiv> (\<lambda>q. pr_backend q = pr_backend p)"

lemma fits_iff [simp]:
  "fits cap L Q (n, response, p) \<longleftrightarrow> n \<le> cap \<and> length response = L \<and> Q p"
  by (simp add: fits_def)

lemma invalid_fits [returns_rules]:
  "cap \<le> length response \<Longrightarrow> length response = L \<Longrightarrow> Q p \<Longrightarrow>
   returns (fits cap L Q) (invalid_response response cap p)"
  unfolding invalid_response_def by (intro returns_rules) auto

lemma status_fits [returns_rules]:
  "cap \<le> length response \<Longrightarrow> length response = L \<Longrightarrow> Q p \<Longrightarrow>
   returns (fits cap L Q) (status_response c ok response cap p)"
  unfolding status_response_def by (intro returns_rules) auto

lemma call_backend [simp]:
  "pr_backend (call_void f p) = pr_backend p" "pr_backend (snd (call_bool g p)) = pr_backend p"
  by (auto simp: call_void_def call_bool_def split: option.splits prod.splits)

lemma call_bool_backend: "call_bool g p = (ok, q) \<Longrightarrow> pr_backend q = pr_backend p"
  using call_backend(2) [of g p] by simp

lemma transfer_once_backend:
  "transfer_once p r d s = (ok, d', s', q) \<Longrightarrow>
   pr_backend q = pr_backend p \<and> pr_match_retries q = pr_match_retries p"
  by (auto simp: transfer_once_def Let_def split: option.splits prod.splits if_splits)

lemma match_loop_backend: "match_loop n r d s p = (m, s', q) \<Longrightarrow> pr_backend q = pr_backend p"
  by (induction n arbitrary: s p)
    (auto simp: Let_def split: prod.splits if_splits dest!: transfer_once_backend)

lemma flush_write_backend: "flush_write b s p = (s', q) \<Longrightarrow> pr_backend q = pr_backend p"
  by (auto simp: flush_write_def Let_def split: prod.splits if_splits dest: transfer_once_backend)

lemma write_sequence_backend:
  "backend_write_sequence p b n = (ok, q) \<Longrightarrow> pr_backend q = pr_backend p"
  by (auto simp: backend_write_sequence_def split: option.splits prod.splits)

lemma read_sequence_backend:
  "backend_read_sequence p b n = (ok, b', q) \<Longrightarrow> backend_ok (pr_backend p) \<Longrightarrow>
   pr_backend q = pr_backend p \<and> length b' = length b"
  unfolding backend_read_sequence_def backend_ok_def Let_def
  by (cases "be_read_sequence (pr_backend p)"; cases "the (be_read_sequence (pr_backend p)) b n (pr_context p)")
    (auto split: prod.splits, metis fst_conv snd_conv)

lemmas backend_dests = call_bool_backend transfer_once_backend write_sequence_backend

lemma info_fits:
  assumes "request_length \<le> length request" "cap \<le> length response"
  shows "returns (fits cap (length response) (keeps_backend p)) (process_info p request request_length response cap)"
  unfolding process_info_def Let_def
  by (intro returns_rules) (use assms in auto)

lemma command_fits:
  assumes "request_length \<le> length request" "0 < length request" "cap \<le> length response"
  shows "returns (fits cap (length response) (keeps_backend p)) (process_host_status p request request_length response cap)" (is ?host)
    and "returns (fits cap (length response) (keeps_backend p)) (process_connect p request request_length response cap)" (is ?connect)
    and "returns (fits cap (length response) (keeps_backend p)) (process_disconnect p request response cap)" (is ?disconnect)
    and "returns (fits cap (length response) (keeps_backend p)) (process_transfer_configure p request request_length response cap)" (is ?configure)
    and "returns (fits cap (length response) (keeps_backend p)) (process_write_abort p request request_length response cap)" (is ?abort)
    and "returns (fits cap (length response) (keeps_backend p)) (process_delay p request request_length response cap)" (is ?delay)
    and "returns (fits cap (length response) (keeps_backend p)) (process_reset_target p request response cap)" (is ?reset)
    and "returns (fits cap (length response) (keeps_backend p)) (process_swj_pins p request request_length response cap)" (is ?pins)
    and "returns (fits cap (length response) (keeps_backend p)) (process_swj_clock p request request_length response cap)" (is ?clock)
    and "returns (fits cap (length response) (keeps_backend p)) (process_swj_sequence p request request_length response cap)" (is ?swj)
    and "returns (fits cap (length response) (keeps_backend p)) (process_swd_configure p request request_length response cap)" (is ?swd)
proof -
  note [dest] = backend_dests
  show ?host unfolding process_host_status_def Let_def by (intro returns_rules) (use assms in auto)
  show ?connect unfolding process_connect_def Let_def by (intro returns_rules) (use assms in \<open>auto split: if_splits\<close>)
  show ?disconnect unfolding process_disconnect_def Let_def by (intro returns_rules) (use assms in auto)
  show ?configure unfolding process_transfer_configure_def Let_def by (intro returns_rules) (use assms in auto)
  show ?abort unfolding process_write_abort_def Let_def by (intro returns_rules) (use assms in auto)
  show ?delay unfolding process_delay_def Let_def by (intro returns_rules) (use assms in auto)
  show ?reset unfolding process_reset_target_def Let_def by (intro returns_rules) (use assms in auto)
  show ?pins unfolding process_swj_pins_def Let_def by (intro returns_rules) (use assms in \<open>auto split: option.splits prod.splits\<close>)
  show ?clock unfolding process_swj_clock_def Let_def by (intro returns_rules) (use assms in \<open>auto split: if_splits\<close>)
  show ?swj unfolding process_swj_sequence_def Let_def by (intro returns_rules) (use assms in auto)
  show ?swd unfolding process_swd_configure_def Let_def by (intro returns_rules) (use assms in auto)
qed

lemma vendor_fits:
  assumes "backend_ok (pr_backend p)" "cap \<le> length response"
  shows "returns (fits cap (length response) (keeps_backend p)) (process_vendor p request request_length response cap)"
  unfolding process_vendor_def Let_def
  by (intro returns_rules assms refl)
    (use assms(1) in \<open>auto simp: backend_ok_def, (metis fst_conv snd_conv)+\<close>)

lemma transfer_scan_total:
  "transfer_size_loop n b avail len = Some r \<Longrightarrow> r \<noteq> 0 \<Longrightarrow> r \<noteq> SIZE_MAX \<Longrightarrow> 
   \<exists>req. transfer_scan_loop n b len required = Some (r, req)"
proof (induction n arbitrary: len required)
  case (Suc n)
  then obtain t where t: "rd b len = Some t" "\<not> avail \<le> len"
    by (auto simp: bind_eq_Some_conv split: if_splits)
  show ?case using Suc.prems t
    by (auto simp: Let_def add.commute [of 5] split: if_splits intro!: Suc.IH)
qed auto

definition transfer_state_ok ::
  "nat \<Rightarrow> nat \<Rightarrow> 'c airdap_dap_backend \<Rightarrow> 'c transfer_state \<Rightarrow> bool"
where
  "transfer_state_ok cap L be st \<longleftrightarrow>
     3 \<le> ts_output st \<and> ts_output st \<le> cap \<and> length (ts_response st) = L \<and> pr_backend (ts_processor st) = be"

lemma transfer_loop_safe:
  assumes "request_length \<le> length request" "cap \<le> L"
  shows "transfer_state_ok cap L be st \<Longrightarrow>
    returns (\<lambda>(invalid, st'). transfer_state_ok cap L be st')
      (transfer_loop n request request_length cap st)"
proof (induction n arbitrary: st)
  case 0
  then show ?case by (auto simp: returns_def)
next
  case (Suc n)
  note [dest] = match_loop_backend transfer_once_backend
  show ?case unfolding transfer_loop.simps Let_def
    by (intro returns_rules Suc.IH)
      (use Suc.prems assms in \<open>auto simp: transfer_state_ok_def simp del: match_loop.simps\<close>)
qed

definition block_state_ok ::
  "nat \<Rightarrow> nat \<Rightarrow> 'c airdap_dap_backend \<Rightarrow> 'c block_state \<Rightarrow> bool"
where
  "block_state_ok cap L be st \<longleftrightarrow>
     4 \<le> bs_output st \<and> bs_output st \<le> cap \<and> length (bs_response st) = L \<and> pr_backend (bs_processor st) = be"

lemma transfer_block_loop_safe:
  assumes "request_length \<le> length request" "cap \<le> L"
  shows "block_state_ok cap L be st \<Longrightarrow>
    returns (\<lambda>(invalid, st'). block_state_ok cap L be st')
      (transfer_block_loop n t request request_length cap st)"
proof (induction n arbitrary: st)
  case 0
  then show ?case by (auto simp: returns_def)
next
  case (Suc n)
  note [dest] = transfer_once_backend
  show ?case unfolding transfer_block_loop.simps Let_def
    by (intro returns_rules Suc.IH) (use Suc.prems assms in \<open>auto simp: block_state_ok_def\<close>)
qed

definition sequence_state_ok ::
  "nat \<Rightarrow> nat \<Rightarrow> 'c airdap_dap_backend \<Rightarrow> 'c sequence_state \<Rightarrow> bool"
where
  "sequence_state_ok cap L be st \<longleftrightarrow>
     2 \<le> ss_output st \<and> ss_output st \<le> cap \<and> length (ss_response st) = L \<and> pr_backend (ss_processor st) = be"

lemma swd_sequence_loop_safe:
  assumes "request_length \<le> length request" "cap \<le> L" "backend_ok be"
  shows "sequence_state_ok cap L be st \<Longrightarrow>
    returns (\<lambda>(invalid, st'). sequence_state_ok cap L be st')
      (swd_sequence_loop n request request_length cap st)"
proof (induction n arbitrary: st)
  case 0
  then show ?case by (auto simp: returns_def)
next
  case (Suc n)
  note [dest] = write_sequence_backend read_sequence_backend
  show ?case unfolding swd_sequence_loop.simps Let_def
    by (intro returns_rules Suc.IH)
      (use Suc.prems assms in \<open>auto simp: sequence_state_ok_def split: if_splits\<close>)
qed

lemma sequence_scan_total:
  "request_length \<le> length request \<Longrightarrow> returns (\<lambda>r. True) (sequence_scan_loop n request request_length scan req)"
  by (induction n arbitrary: scan req) (auto intro!: returns_rules)

lemma transfer_framed_scan:
  assumes "airdap_dap_request_size (Some request) request_length = Some framed"
    "request_length \<le> length request" "request ! 0 = 0x05" "3 \<le> request_length"
    "framed \<noteq> 0" "framed \<noteq> SIZE_MAX" "count = request ! 2"
  shows "returns (\<lambda>(scan, req). scan = framed) (transfer_scan_loop (unat count) request 3 3)"
proof -
  have "rd request 0 = Some 0x05" "rd request 2 = Some (request ! 2)"
    using assms by (auto simp: rd_def)
  then have "transfer_size_loop (unat (request ! 2)) request request_length 3 = Some framed"
    using assms by (simp add: airdap_dap_request_size_def Let_def)
  then show ?thesis using transfer_scan_total [of _ _ _ _ framed 3] assms(5-) by (fastforce simp: returns_def)
qed

lemma process_transfer_fits:
  assumes "request_length \<le> length request" "cap \<le> length response" "request ! 0 = 0x05"
  shows "returns (fits cap (length response) (keeps_backend p)) (process_transfer p request request_length response cap)"
proof -
  obtain framed where framed: "airdap_dap_request_size (Some request) request_length = Some framed"
    using request_size_total [of "Some request" request_length] assms(1) by auto
  note [dest] = flush_write_backend
  show ?thesis
    unfolding process_transfer_def framed Let_def
    by (intro returns_rules returns_bind [OF transfer_framed_scan [OF framed]]
        returns_bind [OF transfer_loop_safe [where L = "length response" and be = "pr_backend p"]])
      (use assms in \<open>auto simp: transfer_state_ok_def\<close>)
qed

lemma process_transfer_block_fits:
  assumes "request_length \<le> length request" "cap \<le> length response"
  shows "returns (fits cap (length response) (keeps_backend p)) (process_transfer_block p request request_length response cap)"
  unfolding process_transfer_block_def Let_def
  by (intro returns_rules
      returns_bind [OF transfer_block_loop_safe [where L = "length response" and be = "pr_backend p"]])
    (use assms in \<open>auto simp: block_state_ok_def dest: flush_write_backend\<close>)

lemma process_swd_sequence_fits:
  assumes "request_length \<le> length request" "cap \<le> length response" "backend_ok (pr_backend p)"
  shows "returns (fits cap (length response) (keeps_backend p)) (process_swd_sequence p request request_length response cap)"
  unfolding process_swd_sequence_def Let_def
  by (intro returns_rules returns_bind [OF sequence_scan_total]
      returns_bind [OF swd_sequence_loop_safe [where L = "length response" and be = "pr_backend p"]])
    (use assms in \<open>auto simp: sequence_state_ok_def\<close>)

lemma process_packet_fits:
  assumes "request_length \<le> length request" "cap \<le> length response" "backend_ok (pr_backend p)"
  shows "returns (\<lambda>(n, r, p'). n \<le> min cap 508 \<and> (\<exists>response'. r = Some response' \<and>
            length response' = length response) \<and> pr_backend p' = pr_backend p)
          (airdap_dap_process_packet p (Some request) request_length (Some response) cap)"
proof (cases "request_length = 0 \<or> cap = 0")
  case True
  then show ?thesis by (auto simp: airdap_dap_process_packet_def returns_def)
next
  case False
  then have pos: "0 < length request" "0 < request_length" "0 < cap" and hd: "rd request 0 = Some (request ! 0)"
    using assms(1) by (auto simp: rd_def)
  let ?cap = "if cap > 508 then 508 else cap"
  have cap: "?cap \<le> length response" using assms(2) by simp
  note fits = info_fits [OF assms(1) cap] command_fits [OF assms(1) pos(1) cap] vendor_fits [OF assms(3) cap]
    process_transfer_fits [OF assms(1) cap] process_transfer_block_fits [OF assms(1) cap]
    process_swd_sequence_fits [OF assms(1) cap assms(3)] invalid_fits [OF cap refl, of "keeps_backend p" p, OF refl]
  have args: "(Some request = None \<or> request_length = 0 \<or> Some response = None \<or> cap = 0) = False"
    using pos by simp
  show ?thesis
    unfolding airdap_dap_process_packet_def Let_def option.sel args if_False hd bind.simps
    by (intro returns_if_bind fits [THEN returns_bind] returns_case_prod returns_Some)
      (auto split: if_splits)
qed

section \<open>A disabled port is silent\<close>

lemma swd_sequence_silent:
  assumes "request_length \<le> length request" "cap \<le> L"
  shows "sequence_state_ok cap L be st \<Longrightarrow> \<not> ss_success st \<Longrightarrow>
    returns (\<lambda>(invalid, st'). sequence_state_ok cap L be st' \<and> ss_processor st' = ss_processor st)
      (swd_sequence_loop n request request_length cap st)"
proof (induction n arbitrary: st)
  case 0
  then show ?case by (auto simp: returns_def)
next
  case (Suc n)
  note step = returns_mono [OF Suc.IH]
  show ?case unfolding swd_sequence_loop.simps Let_def
    by (intro returns_rules step)
      (use Suc.prems assms in \<open>auto simp: sequence_state_ok_def split: if_splits\<close>)
qed

lemma silent_commands:
  assumes "pr_selected_port p \<noteq> 1" "request_length \<le> length request" "cap \<le> length response"
    "0 < length request"
  shows "request ! 0 = 0x05 \<Longrightarrow> returns (fits cap (length response) ((=) p))
      (process_transfer p request request_length response cap)" (is "?r \<Longrightarrow> ?transfer")
    and "returns (fits cap (length response) ((=) p))
      (process_transfer_block p request request_length response cap)" (is ?block)
    and "returns (fits cap (length response) ((=) p))
      (process_write_abort p request request_length response cap)" (is ?abort)
    and "returns (fits cap (length response) ((=) p))
      (process_swj_sequence p request request_length response cap)" (is ?swj)
    and "returns (fits cap (length response) ((=) p))
      (process_swd_sequence p request request_length response cap)" (is ?swd)
proof -
  obtain framed where framed: "airdap_dap_request_size (Some request) request_length = Some framed"
    using request_size_total [of "Some request" request_length] assms(2) by auto
  show ?transfer if ?r
    unfolding process_transfer_def framed Let_def
    by (intro returns_rules returns_bind [OF transfer_framed_scan [OF framed]]) (use that assms in auto)
  show ?block
    unfolding process_transfer_block_def Let_def by (intro returns_rules) (use assms in auto)
  show ?abort
    unfolding process_write_abort_def Let_def by (intro returns_rules) (use assms in auto)
  show ?swj
    unfolding process_swj_sequence_def Let_def by (intro returns_rules) (use assms in auto)
  show ?swd
    unfolding process_swd_sequence_def Let_def
    by (intro returns_rules returns_bind [OF sequence_scan_total]
        returns_bind [OF swd_sequence_silent [where L = "length response" and be = "pr_backend p"]])
      (use assms in \<open>auto simp: sequence_state_ok_def\<close>)
qed

section \<open>Block transfers\<close>

text \<open>The reference: one transfer per word until the first that fails.\<close>

fun run_transfers ::
  "u8 \<Rightarrow> u32 list \<Rightarrow> u8 \<Rightarrow> 'c airdap_dap_processor \<Rightarrow> u32 list \<times> u8 \<times> 'c airdap_dap_processor"
where
  "run_transfers t [] status p = ([], status, p)"
| "run_transfers t (d # ds) status p =
     (case transfer_once p t d status of (ok, v, status, p) \<Rightarrow>
        if ok then (case run_transfers t ds status p of (vs, r) \<Rightarrow> (v # vs, r)) else ([], status, p))"

definition le_word :: "u32 \<Rightarrow> bytes" where
  "le_word v = [byte0 v, byte1 v, byte2 v, byte3 v]"

fun words_at :: "bytes \<Rightarrow> nat \<Rightarrow> nat \<Rightarrow> u32 list" where
  "words_at b off 0 = []"
| "words_at b off (Suc n) = the (read_u32 b off) # words_at b (off + 4) n"

lemma run_transfers_length:
  "run_transfers t ds s p = (vs, s', p') \<Longrightarrow> length vs \<le> length ds"
  by (induction ds arbitrary: s p vs) (fastforce split: prod.splits if_splits)+

lemma le_words_length [simp]: "length (concat (map le_word vs)) = 4 * length vs"
  by (induction vs) (simp_all add: le_word_def)

lemma write_u32_splice:
  assumes "off + 4 \<le> length b"
  shows "write_u32 b off v = Some (take off b @ le_word v @ drop (off + 4) b)"
proof -
  have "b = take off b @ b ! off # b ! (off+1) # b ! (off+2) # b ! (off+3) # drop (off + 4) b"
    using assms by (simp add: Cons_nth_drop_Suc numeral_eq_Suc)
  then obtain pre a0 a1 a2 a3 post where b: "b = pre @ a0 # a1 # a2 # a3 # post" "length pre = off"
    using assms by (metis add_leD1 length_take min.absorb2)
  have "(pre @ a0 # a1 # a2 # a3 # post)[off := byte0 v, off + 1 := byte1 v, off + 2 := byte2 v, off + 3 := byte3 v]
    = pre @ le_word v @ post"
    using b(2) by (simp add: list_update_append le_word_def)
  then show ?thesis using assms b by (simp add: mem_simps)
qed

lemma le_word_length [simp]: "length (le_word v) = 4"
  by (simp add: le_word_def)

lemma block_loop_read:
  assumes "tr_read t" "run_transfers t (replicate n 0) (bs_status st) (bs_processor st) = (vs, status, p')"
    "bs_output st + 4 * n \<le> cap" "cap \<le> length (bs_response st)"
  shows "transfer_block_loop n t request rl cap st =
    Some (False, st\<lparr>bs_status := status, bs_processor := p', bs_completed := bs_completed st + of_nat (length vs),
      bs_output := bs_output st + 4 * length vs,
      bs_response := take (bs_output st) (bs_response st) @ concat (map le_word vs)
        @ drop (bs_output st + 4 * length vs) (bs_response st)\<rparr>)"
  using assms(2-)
proof (induction n arbitrary: st vs)
  case 0
  then show ?case by simp
next
  case (Suc n)
  obtain ok v s q where once: "transfer_once (bs_processor st) t 0 (bs_status st) = (ok, v, s, q)"
    by (metis prod_cases4)
  show ?case
  proof (cases ok)
    case False
    then show ?thesis using Suc.prems once assms(1) by (simp add: Let_def)
  next
    case True
    then obtain vs' where vs: "run_transfers t (replicate n 0) s q = (vs', status, p')" "vs = v # vs'"
      using Suc.prems once by (auto split: prod.splits)
    let ?st = "st\<lparr>bs_status := s, bs_processor := q, bs_completed := bs_completed st + 1,
       bs_response := take (bs_output st) (bs_response st) @ le_word v @ drop (bs_output st + 4) (bs_response st),
       bs_output := bs_output st + 4\<rparr>"
    have "transfer_block_loop (Suc n) t request rl cap st = transfer_block_loop n t request rl cap ?st"
      using True once assms(1) Suc.prems by (simp add: Let_def write_u32_splice)
    also have "\<dots> = Some (False, ?st\<lparr>bs_status := status, bs_processor := p',
        bs_completed := bs_completed ?st + of_nat (length vs'), bs_output := bs_output ?st + 4 * length vs',
        bs_response := take (bs_output ?st) (bs_response ?st) @ concat (map le_word vs')
          @ drop (bs_output ?st + 4 * length vs') (bs_response ?st)\<rparr>)"
      using Suc.prems vs(1) by (intro Suc.IH) (simp_all add: le_word_def)
    finally show ?thesis
      using Suc.prems vs(2) by (simp add: add.assoc add.commute [of "4 * length vs'"])
  qed
qed

lemma block_loop_write:
  assumes "\<not> tr_read t" "run_transfers t (words_at request (bs_input st) n) (bs_status st) (bs_processor st) = (vs, status, p')"
    "bs_input st + 4 * n \<le> rl" "rl \<le> length request"
  shows "\<exists>input. transfer_block_loop n t request rl cap st =
    Some (False, st\<lparr>bs_status := status, bs_processor := p', bs_completed := bs_completed st + of_nat (length vs),
      bs_input := input\<rparr>)"
  using assms(2-)
proof (induction n arbitrary: st vs)
  case 0
  then show ?case by (auto intro: exI [of _ "bs_input st"])
next
  case (Suc n)
  obtain w where w: "read_u32 request (bs_input st) = Some w" using Suc.prems by (simp add: mem_simps)
  obtain ok v s q where once: "transfer_once (bs_processor st) t w (bs_status st) = (ok, v, s, q)"
    by (metis prod_cases4)
  show ?case
  proof (cases ok)
    case False
    then show ?thesis using Suc.prems once assms(1) w by (auto simp add: Let_def intro: exI [of _ "bs_input st + 4"])
  next
    case True
    then obtain vs' where vs: "run_transfers t (words_at request (bs_input st + 4) n) s q = (vs', status, p')" "vs = v # vs'"
      using Suc.prems once w by (auto split: prod.splits)
    let ?st = "st\<lparr>bs_input := bs_input st + 4, bs_status := s, bs_processor := q,
       bs_completed := bs_completed st + 1\<rparr>"
    have "transfer_block_loop (Suc n) t request rl cap st = transfer_block_loop n t request rl cap ?st"
      using True once assms(1) Suc.prems w by (simp add: Let_def)
    then show ?thesis
      using Suc.IH [of ?st vs'] Suc.prems vs
      by (auto simp add: ac_simps)
  qed
qed

definition block_request :: "u8 \<Rightarrow> u16 \<Rightarrow> u8 \<Rightarrow> bytes \<Rightarrow> bytes" where
  "block_request index count t payload = [0x06, index, byte0 count, byte1 count, t] @ payload"

definition block_words :: "u8 \<Rightarrow> u16 \<Rightarrow> bytes \<Rightarrow> u32 list" where
  "block_words t count payload = (if tr_read t then replicate (unat count) 0 else words_at payload 0 (unat count))"

lemma words_at_append: "off + 4 * n \<le> length b \<Longrightarrow> words_at (a @ b) (length a + off) n = words_at b off n"
  by (induction n arbitrary: off) (simp_all add: mem_simps nth_append add.assoc)

lemma words_at_length [simp]: "length (words_at b off n) = n"
  by (induction n arbitrary: off) simp_all

lemma block_words_length [simp]: "length (block_words t count payload) = unat count"
  by (simp add: block_words_def)

lemma block_loop_result:
  assumes "run_transfers t (block_words t count payload) 1 p = (vs, status, p')"
    "unat count * 4 \<le> (if tr_read t then 504 else length payload)" "508 \<le> length r"
  shows "\<exists>st. transfer_block_loop (unat count) t (block_request index count t payload)
      (5 + length payload) 508 \<lparr>bs_input = 5, bs_output = 4, bs_completed = 0, bs_status = 1,
        bs_response = r, bs_processor = p\<rparr> = Some (False, st) \<and>
    bs_completed st = of_nat (length vs) \<and> bs_status st = status \<and> bs_processor st = p' \<and>
    bs_output st = (if tr_read t then 4 + 4 * length vs else 4) \<and>
    bs_response st = take 4 r @ (if tr_read t then concat (map le_word vs) else []) @ drop (bs_output st) r"
proof (cases "tr_read t")
  case True
  then show ?thesis
    using assms block_loop_read [OF True, of "unat count" "\<lparr>bs_input = 5, bs_output = 4,
        bs_completed = 0, bs_status = 1, bs_response = r, bs_processor = p\<rparr>" vs status p' 508]
    by (simp add: block_words_def)
next
  case False
  have "words_at (block_request index count t payload) 5 (unat count) = block_words t count payload"
    using words_at_append [of 0 "unat count" payload "[0x06, index, byte0 count, byte1 count, t]"]
      assms(2) False by (simp add: block_request_def block_words_def numeral_eq_Suc)
  then show ?thesis
    using False assms block_loop_write [OF False, of "block_request index count t payload" "\<lparr>bs_input = 5,
        bs_output = 4, bs_completed = 0, bs_status = 1, bs_response = r, bs_processor = p\<rparr>"
        "unat count" vs status p' "5 + length payload" 508]
    by (auto simp: block_request_def)
qed

lemma block_loop_cons:
  assumes "run_transfers t (block_words t count payload) 1 p = (vs, status, p')"
    "unat count * 4 \<le> (if tr_read t then 504 else length payload)" "504 \<le> length rest"
  obtains st where "transfer_block_loop (unat count) t (block_request index count t payload)
      (5 + length payload) 508 \<lparr>bs_input = 5, bs_output = 4, bs_completed = 0, bs_status = 1,
        bs_response = 0x06 # b # c # d # rest, bs_processor = p\<rparr> = Some (False, st)"
    "bs_completed st = of_nat (length vs)" "bs_status st = status" "bs_processor st = p'"
    "bs_output st = (if tr_read t then 4 + 4 * length vs else 4)"
    "bs_response st = 0x06 # b # c # d # (if tr_read t then concat (map le_word vs) else [])
       @ drop (if tr_read t then 4 * length vs else 0) rest"
proof -
  have "508 \<le> length (0x06 # b # c # d # rest)" using assms(3) by simp
  note result = block_loop_result [OF assms(1,2) this, of index]
  have "drop (4 + n) (0x06 # b # c # d # rest) = drop n rest" for n
    by (simp add: numeral_eq_Suc)
  with result show thesis
    using that by (cases "tr_read t") auto
qed

definition block_response :: "u8 \<Rightarrow> u32 list \<Rightarrow> u8 \<Rightarrow> bytes" where
  "block_response t vs status =
     [0x06, byte0 (of_nat (length vs) :: u16), byte1 (of_nat (length vs) :: u16), status]
       @ (if tr_read t then concat (map le_word vs) else [])"

text \<open>C28. DAP_TransferBlock equals its reference: with the SWD port selected and room for the data, the
  device performs one transfer per word, in order, until the first that fails, and answers with
  the number of transfers that succeeded, the status (after the read-back that flushes a write)
  and, for reads, exactly the words read, little-endian, leaving the rest of the buffer alone.\<close>

theorem transfer_block_equivalence:
  assumes "pr_selected_port p = 1" "508 \<le> length response"
    "unat count * 4 \<le> (if tr_read t then 504 else length payload)"
    "run_transfers t (block_words t count payload) 1 p = (vs, status, p')"
    "flush_write (\<not> tr_read t \<and> vs \<noteq> []) status p' = (final, p'')"
  shows "airdap_dap_process_packet p (Some (block_request index count t payload))
      (5 + length payload) (Some response) 508 =
    Some (length (block_response t vs final),
      Some (block_response t vs final @ drop (length (block_response t vs final)) response), p'')"
proof -
  have "Suc (Suc (Suc (Suc 0))) \<le> length response" using assms(2) by linarith
  then obtain a b c d rest where r: "response = a # b # c # d # rest"
    by (auto simp: Suc_le_length_iff)
  have "504 \<le> length rest" using r assms(2) by simp
  note loop = block_loop_cons [OF assms(4,3) this, of index b c d]
  have req: "rd (block_request index count t payload) 0 = Some 6"
    "read_u16 (block_request index count t payload) 2 = Some count"
    "rd (block_request index count t payload) 4 = Some t"
    by (simp_all add: block_request_def mem_simps byte_simps)
  have "length vs \<le> unat count" using run_transfers_length [OF assms(4)] by simp
  then have completed: "(0::u16) < of_nat (length vs) \<longleftrightarrow> vs \<noteq> []"
    by (metis le_unat_uoi length_0_conv unat_eq_zero word_neq_0_conv)
  have guard: "(tr_read t \<and> unat count > (508 - 4) div 4 \<or> 
      \<not> tr_read t \<and> unat count > (5 + length payload - 5) div 4) = False"
    using assms(3) by auto
  have "process_transfer_block p (block_request index count t payload) (5 + length payload) response 508
    = Some (length (block_response t vs final),
      block_response t vs final @ drop (length (block_response t vs final)) response, p'')"
    unfolding process_transfer_block_def
    by (rule loop) (use req assms(1,5) completed r guard in \<open>auto simp: wr_def Let_def mem_simps block_response_def\<close>)
  then show ?thesis
    unfolding airdap_dap_process_packet_def using req r by (simp add: Let_def)
qed

lemma replicate_2: "replicate 2 x = [x, x]"
  by (simp add: numeral_2_eq_2)

definition counting_backend :: "u32 airdap_dap_backend" where
  "counting_backend = null_backend\<lparr>be_transfer := Some (\<lambda>ap read a d s c. ((True, c, 1), c + 1)),
     be_read_sequence := Some (\<lambda>buf n c. ((True, map (\<lambda>_. 0xA5) buf), c + 1)),
     be_vendor_command := Some (\<lambda>con req n resp cap c. ((min 1 cap, resp), c + 1))\<rparr>"

definition counting_processor :: "u32 airdap_dap_processor" where
  "counting_processor = (airdap_dap_processor_init (Some counting_backend) 7 None None)
     \<lparr>pr_selected_port := 1\<rparr>"

theorem transfer_block_equivalence_witness:
  "airdap_dap_process_packet counting_processor (Some (block_request 0 2 2 [])) 5
     (Some (replicate 508 0)) 508 =
   Some (12, Some ([6, 2, 0, 1, 7, 0, 0, 0, 8, 0, 0, 0] @ replicate 496 0),
     counting_processor\<lparr>pr_context := 9\<rparr>)"
proof -
  have "run_transfers 2 (block_words 2 2 []) 1 counting_processor =
      ([7, 8], 1, counting_processor\<lparr>pr_context := 9\<rparr>)" "pr_selected_port counting_processor = 1"
    "unat (2::u16) * 4 \<le> (if tr_read 2 then 504 else length ([]::bytes))" "tr_read 2"
    "flush_write (\<not> tr_read 2 \<and> [7, 8] \<noteq> ([]::u32 list)) 1 (counting_processor\<lparr>pr_context := 9\<rparr>) =
       (1, counting_processor\<lparr>pr_context := 9\<rparr>)"
    by (simp_all add: counting_processor_def counting_backend_def airdap_dap_processor_init_def
        block_words_def tr_read_def transfer_once_def flush_write_def replicate_2)
  moreover have "block_response 2 [7, 8] 1 = [6, 2, 0, 1, 7, 0, 0, 0, 8, 0, 0, 0]"
    by code_simp
  ultimately show ?thesis
    using transfer_block_equivalence [of counting_processor "replicate 508 0" 2 2 "[]" "[7, 8]" 1
        "counting_processor\<lparr>pr_context := 9\<rparr>" 1 "counting_processor\<lparr>pr_context := 9\<rparr>" 0]
    by simp
qed

text \<open>C26. Executing any request, well formed or not, against any backend that keeps its own buffer
  contracts, never reads outside the request or writes outside the response, always returns, and
  answers with at most the response capacity and at most one DAP packet.\<close>

theorem process_packet_memory_safe:
  assumes "request_length \<le> length request" "cap \<le> length response" "backend_ok (pr_backend p)"
  shows "\<exists>n response' p'. airdap_dap_process_packet p (Some request) request_length (Some response) cap =
    Some (n, Some response', p') \<and> n \<le> min cap AIRDAP_DAP_PACKET_SIZE \<and>
    length response' = length response \<and> pr_backend p' = pr_backend p"
  using process_packet_fits [OF assms] by (auto simp: returns_def)

lemma counting_backend_ok: "backend_ok counting_backend"
  by (simp add: backend_ok_def counting_backend_def)

theorem process_packet_memory_safe_witness:
  "\<exists>n response' p'. airdap_dap_process_packet counting_processor (Some [0x1D, 1, 0x88]) 3
      (Some [0, 0, 0]) 3 = Some (n, Some response', p') \<and> n \<le> 3 \<and> length response' = 3 \<and>
    pr_backend p' = counting_backend"
  using process_packet_memory_safe [of 3 "[0x1D, 1, 0x88]" 3 "[0, 0, 0]" counting_processor]
    counting_backend_ok
  by (simp add: counting_processor_def airdap_dap_processor_init_def numeral_3_eq_3)

text \<open>While no SWD port is selected, no command that would drive the target does: transfers, block
  transfers, abort writes, SWJ and SWD sequences leave the processor and the backend's context
  exactly as they were, whatever the request says, and still answer within the buffer.\<close>

theorem disabled_port_silent:
  assumes "pr_selected_port p \<noteq> AIRDAP_DAP_PORT_SWD" "request_length \<le> length request"
    "cap \<le> length response" "0 < request_length" "0 < cap"
    "request ! 0 \<in> {ID_DAP_TRANSFER, ID_DAP_TRANSFER_BLOCK, ID_DAP_WRITE_ABORT, ID_DAP_SWJ_SEQUENCE,
       ID_DAP_SWD_SEQUENCE}"
  shows "\<exists>n response'. airdap_dap_process_packet p (Some request) request_length (Some response) cap =
    Some (n, Some response', p) \<and> n \<le> cap \<and> length response' = length response"
proof -
  let ?cap = "if cap > 508 then 508 else cap"
  have pos: "0 < length request" and hd: "rd request 0 = Some (request ! 0)"
    using assms(2,4) by (auto simp: rd_def)
  have cap: "?cap \<le> length response" "?cap \<le> cap" using assms(3) by simp_all
  show ?thesis
    using assms(4-6) hd silent_commands [OF assms(1,2) cap(1) pos] cap(2)
    by (auto simp: airdap_dap_process_packet_def Let_def returns_def simp del: One_nat_def)
qed

theorem disabled_port_silent_witness:
  "\<exists>n response'. airdap_dap_process_packet (counting_processor\<lparr>pr_selected_port := 0\<rparr>)
      (Some [0x05, 0, 1, 2]) 4 (Some [9, 9, 9]) 3 =
    Some (n, Some response', counting_processor\<lparr>pr_selected_port := 0\<rparr>) \<and> n \<le> 3 \<and> length response' = 3"
  using disabled_port_silent [of "counting_processor\<lparr>pr_selected_port := 0\<rparr>" 4 "[0x05, 0, 1, 2]" 3
      "[9, 9, 9]"] by (simp add: numeral_3_eq_3)

end
