(* ===== verification/Dap_Stream.thy ===== *)
theory Dap_Stream
  imports Dap_Protocol
begin

text \<open>
  The reassembly of DAP requests from USB bulk transfers,
  \<^verbatim>\<open>firmware/components/usb_device/dap_stream.c\<close>. The stream keeps the 512 byte buffer of the code; the
  request callback and its context are parameters. The reference is a splitter over any framing
  function that satisfies the laws of locale \<open>framing\<close>; the C loop refines it, and cutting the
  input into chunks differently never changes the requests that are delivered.
\<close>

section \<open>The stream\<close>

datatype airdap_dap_stream_result =
  AIRDAP_DAP_STREAM_OK | AIRDAP_DAP_STREAM_MALFORMED | AIRDAP_DAP_STREAM_OVERFLOW

abbreviation (input) AIRDAP_DAP_STREAM_TIMEOUT_US :: int where
  "AIRDAP_DAP_STREAM_TIMEOUT_US \<equiv> 250000"

text \<open>Only the first \<open>st_length\<close> bytes of the buffer are meaningful.\<close>

record airdap_dap_stream =
  st_data :: bytes
  st_length :: nat
  st_last_activity_us :: int

definition airdap_dap_stream_init :: airdap_dap_stream where
  "airdap_dap_stream_init = \<lparr>st_data = replicate 512 0, st_length = 0, st_last_activity_us = 0\<rparr>"

definition airdap_dap_stream_expire :: "airdap_dap_stream \<Rightarrow> int \<Rightarrow> bool \<times> airdap_dap_stream" where
  "airdap_dap_stream_expire stream now_us =
     (if st_length stream = 0 \<or> now_us < st_last_activity_us stream \<or>
         now_us - st_last_activity_us stream < AIRDAP_DAP_STREAM_TIMEOUT_US
      then (False, stream) else (True, airdap_dap_stream_init))"

text \<open>
  The loop over complete requests; the result tells whether it stopped at a malformed request,
  the offset reached, and the callback's context. It ends because a request is never empty.
\<close>

function (sequential) stream_loop ::
  "bytes \<Rightarrow> nat \<Rightarrow> nat \<Rightarrow> (bytes \<Rightarrow> 'c \<Rightarrow> 'c) \<Rightarrow> 'c \<Rightarrow> (bool \<times> nat \<times> 'c) option"
where
  "stream_loop data len offset request_callback context =
     (if offset < len then
        (case airdap_dap_request_size (Some (drop offset data)) (len - offset) of
           None \<Rightarrow> None
         | Some request_length \<Rightarrow>
             if request_length = 0 then Some (False, offset, context)
             else if request_length = SIZE_MAX \<or> request_length > AIRDAP_DAP_PACKET_SIZE
             then Some (True, offset, context)
             else
               (case rd_bytes data offset request_length of
                  None \<Rightarrow> None
                | Some request \<Rightarrow>
                    stream_loop data len (offset + request_length) request_callback
                      (request_callback request context)))
      else Some (False, offset, context))"
  by pat_completeness auto
termination by (relation "measure (\<lambda>(data, len, offset, cb, c). len - offset)") auto

definition airdap_dap_stream_feed ::
  "airdap_dap_stream \<Rightarrow> bytes option \<Rightarrow> nat \<Rightarrow> int \<Rightarrow> (bytes \<Rightarrow> 'c \<Rightarrow> 'c) option \<Rightarrow> 'c \<Rightarrow>
   (airdap_dap_stream_result \<times> airdap_dap_stream \<times> 'c) option"
where
  "airdap_dap_stream_feed stream data data_length now_us request_callback context =
     (if request_callback = None \<or> (data = None \<and> data_length > 0)
      then Some (AIRDAP_DAP_STREAM_MALFORMED, stream, context)
      else if data_length > length (st_data stream) - st_length stream
      then Some (AIRDAP_DAP_STREAM_OVERFLOW, airdap_dap_stream_init, context)
      else do {
        buf \<leftarrow> (if data_length > 0
               then wr_bytes (st_data stream) (st_length stream) (the data) data_length
               else Some (st_data stream));
        let len = st_length stream + data_length;
        (malformed, offset, context) \<leftarrow> stream_loop buf len 0 (the request_callback) context;
        if malformed then Some (AIRDAP_DAP_STREAM_MALFORMED, airdap_dap_stream_init, context)
        else do {
          rest \<leftarrow> rd_bytes buf offset (len - offset);
          buf \<leftarrow> (if offset > 0 then wr_bytes buf 0 rest (len - offset) else Some buf);
          Some (AIRDAP_DAP_STREAM_OK,
            \<lparr>st_data = buf, st_length = len - offset,
             st_last_activity_us = (if len - offset > 0 then now_us else 0)\<rparr>, context) } })"

section \<open>Framing sees only the available bytes\<close>

lemma transfer_size_take:
  "avail \<le> length b \<Longrightarrow> transfer_size_loop n (take avail b) avail len = transfer_size_loop n b avail len"
  by (induction n arbitrary: len) (auto simp: Let_def rd_def)

lemma sequence_size_take:
  "avail \<le> length b \<Longrightarrow> sequence_size_loop n (take avail b) avail len = sequence_size_loop n b avail len"
  by (induction n arbitrary: len) (auto simp: Let_def rd_def)

lemma request_size_take:
  assumes "avail \<le> length b"
  shows "airdap_dap_request_size (Some b) avail = airdap_dap_request_size (Some (take avail b)) (length (take avail b))"
proof (cases "avail = 0")
  case True
  then show ?thesis by (simp add: airdap_dap_request_size_def)
next
  case False
  then have hd: "rd b 0 = Some (b ! 0)" "rd (take avail b) 0 = Some (b ! 0)"
    using assms by (auto simp: rd_def)
  have rd: "i < avail \<Longrightarrow> rd (take avail b) i = rd b i"
    "i + 1 < avail \<Longrightarrow> read_u16 (take avail b) i = read_u16 b i" for i
    using assms by (simp_all add: rd_def mem_simps)
  show ?thesis
    using False assms
    by (simp add: airdap_dap_request_size_def Let_def hd rd transfer_size_take sequence_size_take)
qed

lemma request_size_framing:
  assumes "avail \<le> length b"
  obtains r where "airdap_dap_request_size (Some b) avail = Some r" "framing_of r = dap_framing (take avail b)"
    "r = 0 \<or> r = SIZE_MAX \<or> 0 < r \<and> r \<le> avail"
  using request_size_total [of "Some b" avail] request_size_take [OF assms] assms request_size_bounds [of b avail]
  by (force simp: dap_framing_def)

section \<open>Splitting\<close>

text \<open>
  The reference: the requests a buffer starts with, and what is left of it, \<^const>\<open>None\<close> when the
  buffer then continues with something malformed or above the limit.
\<close>

function split_frames :: "(bytes \<Rightarrow> framing_result) \<Rightarrow> nat \<Rightarrow> bytes \<Rightarrow> bytes list \<times> bytes option" where
  "split_frames frame limit b =
     (case frame b of
        Need_more \<Rightarrow> ([], Some b)
      | Malformed \<Rightarrow> ([], None)
      | Frame n \<Rightarrow>
          if n = 0 \<or> length b < n \<or> limit < n then ([], None)
          else let (fs, rest) = split_frames frame limit (drop n b) in (take n b # fs, rest))"
  by pat_completeness auto
termination by (relation "measure (\<lambda>(frame, limit, b). length b)") auto

declare split_frames.simps [simp del] stream_loop.simps [simp del]

context framing
begin

lemma frame_shorter: "frame b = Frame n \<Longrightarrow> length (drop n b) < length b"
  using prefix [of b n] by (simp, linarith)

lemma split_append:
  "split_frames frame limit (b @ c) =
     (case split_frames frame limit b of
        (fs, None) \<Rightarrow> (fs, None)
      | (fs, Some rest) \<Rightarrow> let (fs', r') = split_frames frame limit (rest @ c) in (fs @ fs', r'))"
proof (induction "length b" arbitrary: b rule: less_induct)
  case less
  show ?case
  proof (cases "frame b")
    case Need_more
    then show ?thesis by (simp add: split_frames.simps [of frame limit b])
  next
    case Malformed
    then show ?thesis using stable [of b c] by (simp add: split_frames.simps [of frame limit b] split_frames.simps [of frame limit "b @ c"])
  next
    case (Frame n)
    note n = prefix [OF Frame] stable_frame [OF Frame, of c]
    show ?thesis
      using n Frame less [of "drop n b"]
      by (auto simp: split_frames.simps [of frame limit b] split_frames.simps [of frame limit "b @ c"] Let_def
          split: prod.splits option.splits)
  qed
qed

lemma split_rest: "split_frames frame limit b = (fs, Some rest) \<Longrightarrow> frame rest = Need_more \<and> b = concat fs @ rest"
proof (induction "length b" arbitrary: b fs rule: less_induct)
  case less
  show ?case
  proof (cases "frame b")
    case (Frame n)
    note n = prefix [OF Frame]
    note shorter = frame_shorter [OF Frame]
    obtain fs' where fs: "split_frames frame limit (drop n b) = (fs', Some rest)" "fs = take n b # fs'"
      using less.prems n Frame by (auto simp: split_frames.simps [of frame limit b] Let_def split: prod.splits if_splits)
    have "frame rest = Need_more" "drop n b = concat fs' @ rest"
      using less.hyps [OF shorter fs(1)] by simp_all
    then show ?thesis using fs(2) append_take_drop_id [of n b] by simp
  qed (use less.prems in \<open>auto simp: split_frames.simps [of frame limit b]\<close>)
qed

lemma split_limit: "split_frames frame limit b = (fs, r) \<Longrightarrow> f \<in> set fs \<Longrightarrow> f \<noteq> [] \<and> length f \<le> limit"
proof (induction "length b" arbitrary: b fs rule: less_induct)
  case less
  show ?case
  proof (cases "frame b")
    case (Frame n)
    note n = prefix [OF Frame]
    show ?thesis
    proof (cases "n = 0 \<or> length b < n \<or> limit < n")
      case True
      then show ?thesis using less.prems n Frame by (simp add: split_frames.simps [of frame limit b])
    next
      case False
      then obtain fs' where fs: "split_frames frame limit (drop n b) = (fs', r)" "fs = take n b # fs'"
        using less.prems n Frame by (auto simp: split_frames.simps [of frame limit b] Let_def split: prod.splits)
      show ?thesis
        using less.hyps [OF frame_shorter [OF Frame] fs(1)] fs(2) False less.prems(2) n by (cases "f \<in> set fs'") auto
    qed
  qed (use less.prems in \<open>auto simp: split_frames.simps [of frame limit b]\<close>)
qed

end

lemma stream_loop_split:
  assumes "len \<le> length data" "offset \<le> len"
    "split_frames dap_framing 508 (take (len - offset) (drop offset data)) = (fs, rest)"
  shows "\<exists>offset'. stream_loop data len offset cb c = Some (rest = None, offset', fold cb fs c) \<and>
     offset' \<le> len \<and> (rest \<noteq> None \<longrightarrow> rest = Some (take (len - offset') (drop offset' data)))"
  using assms(2,3)
proof (induction "len - offset" arbitrary: offset fs c rule: less_induct)
  case less
  let ?b = "take (len - offset) (drop offset data)"
  show ?case
  proof (cases "offset < len")
    case False
    then show ?thesis using less.prems dap_frames.empty by (auto simp: split_frames.simps stream_loop.simps)
  next
    case True
    have "len - offset \<le> length (drop offset data)" using assms(1) by simp
    then obtain r where r: "airdap_dap_request_size (Some (drop offset data)) (len - offset) = Some r"
      "framing_of r = dap_framing ?b" "r = 0 \<or> r = SIZE_MAX \<or> 0 < r \<and> r \<le> len - offset"
      by (rule request_size_framing)
    have len: "length ?b = len - offset" and fr: "dap_framing ?b = framing_of r"
      using assms(1) r(2) by simp_all
    consider "r = 0" | "r = SIZE_MAX" | "0 < r" "r \<le> len - offset" "r \<noteq> SIZE_MAX" "508 < r"
      | "0 < r" "r \<le> len - offset" "r \<noteq> SIZE_MAX" "r \<le> 508" using r(3) by fastforce
    then show ?thesis
    proof cases
      case 4
      then have fr: "dap_framing ?b = Frame r" using fr by (simp add: framing_of_def)
      have cut: "drop r ?b = take (len - (offset + r)) (drop (offset + r) data)"
        by (simp add: drop_take add.commute)
      obtain fs' where fs: "split_frames dap_framing 508 (drop r ?b) = (fs', rest)" "fs = take r ?b # fs'"
        using less.prems(2) fr 4 len by (auto simp: split_frames.simps [of _ _ ?b] split: prod.splits)
      have "take r ?b = take r (drop offset data)" using 4 by simp
      then show ?thesis
        using less.hyps [of "offset + r" fs' "cb (take r ?b) c"] fs cut 4 True r(1) assms(1)
        by (simp add: stream_loop.simps [of data len offset] mem_simps)
    qed (use True r(1) less.prems len fr in \<open>auto simp: stream_loop.simps [of data len offset]
           split_frames.simps [of _ _ ?b] framing_of_def\<close>)
  qed
qed

section \<open>Refinement\<close>

definition stream_ok :: "airdap_dap_stream \<Rightarrow> bool" where
  "stream_ok st \<longleftrightarrow> length (st_data st) = 512 \<and> st_length st \<le> 512"

definition pending :: "airdap_dap_stream \<Rightarrow> bytes" where
  "pending st = take (st_length st) (st_data st)"

lemma init_stream [simp]: "stream_ok airdap_dap_stream_init" "pending airdap_dap_stream_init = []"
  by (simp_all add: stream_ok_def pending_def airdap_dap_stream_init_def)

lemma feed_overflow:
  assumes "stream_ok st" "512 < length (pending st) + length d"
  shows "airdap_dap_stream_feed st (Some d) (length d) now (Some cb) c =
    Some (AIRDAP_DAP_STREAM_OVERFLOW, airdap_dap_stream_init, c)"
  using assms by (auto simp: airdap_dap_stream_feed_def stream_ok_def pending_def)

lemma feed_split:
  assumes "stream_ok st" "length (pending st) + length d \<le> 512"
    "split_frames dap_framing 508 (pending st @ d) = (fs, rest)"
  shows "case rest of
      None \<Rightarrow> airdap_dap_stream_feed st (Some d) (length d) now (Some cb) c =
        Some (AIRDAP_DAP_STREAM_MALFORMED, airdap_dap_stream_init, fold cb fs c)
    | Some r \<Rightarrow> \<exists>st'. airdap_dap_stream_feed st (Some d) (length d) now (Some cb) c =
        Some (AIRDAP_DAP_STREAM_OK, st', fold cb fs c) \<and> stream_ok st' \<and> pending st' = r \<and>
        st_last_activity_us st' = (if r = [] then 0 else now)"
proof -
  let ?len = "st_length st + length d"
  define buf where "buf = take (st_length st) (st_data st) @ d @ drop ?len (st_data st)"
  have len: "length (st_data st) = 512" "st_length st \<le> 512" "?len \<le> 512"
    using assms(1,2) by (auto simp: stream_ok_def pending_def)
  have copy: "(if length d > 0 then wr_bytes (st_data st) (st_length st) d (length d) else Some (st_data st)) = Some buf"
    using len by (auto simp: mem_simps buf_def)
  have "take ?len buf = pending st @ d" "length buf = 512"
    using len by (simp_all add: pending_def buf_def)
  then obtain offset where loop: "stream_loop buf ?len 0 cb c = Some (rest = None, offset, fold cb fs c)"
    "offset \<le> ?len" "rest \<noteq> None \<longrightarrow> rest = Some (take (?len - offset) (drop offset buf))"
    using stream_loop_split [of ?len buf 0 fs rest cb c] assms(3) len by (auto simp del: append_eq_append_conv)
  note feed = airdap_dap_stream_feed_def Let_def option.sel copy loop(1) bind.simps
  have fits: "\<not> length (st_data st) - st_length st < length d" using len by linarith
  show ?thesis
  proof (cases rest)
    case None
    then show ?thesis unfolding feed using fits by simp
  next
    case (Some r)
    let ?rest = "take (?len - offset) (drop offset buf)"
    have r: "r = ?rest" "length ?rest = ?len - offset" "rd_bytes buf offset (?len - offset) = Some ?rest"
      using Some loop(2,3) len \<open>length buf = 512\<close> by (auto simp: rd_bytes_def)
    have moved: "(if offset > 0 then wr_bytes buf 0 ?rest (?len - offset) else Some buf) =
       Some (?rest @ drop (?len - offset) buf)"
      using r loop(2) len \<open>length buf = 512\<close> by (auto simp: wr_bytes_def)
    define q where "q = ?rest @ drop (?len - offset) buf"
    have q: "length q = 512" "take (?len - offset) q = ?rest"
      using r(2) loop(2) len \<open>length buf = 512\<close> by (simp_all add: q_def)
    have "airdap_dap_stream_feed st (Some d) (length d) now (Some cb) c = Some (AIRDAP_DAP_STREAM_OK,
        \<lparr>st_data = q, st_length = ?len - offset, st_last_activity_us = (if ?len - offset > 0 then now else 0)\<rparr>,
        fold cb fs c)"
      using fits
      by (simp only: feed Some bind.simps prod.case option.distinct simp_thms if_False r(3) moved q_def)
    moreover have "r = [] \<longleftrightarrow> \<not> 0 < ?len - offset" using r(1,2) by (metis length_greater_0_conv)
    ultimately show ?thesis using Some q r(1) len
      by (auto simp: stream_ok_def pending_def)
  qed
qed

text \<open>The bulk transfers of a session, one after the other, until one is refused.\<close>

fun feed_chunks ::
  "(bytes \<Rightarrow> 'c \<Rightarrow> 'c) \<Rightarrow> (bytes \<times> int) list \<Rightarrow> airdap_dap_stream \<Rightarrow> 'c \<Rightarrow>
   (airdap_dap_stream_result \<times> airdap_dap_stream \<times> 'c) option"
where
  "feed_chunks cb [] st c = Some (AIRDAP_DAP_STREAM_OK, st, c)"
| "feed_chunks cb ((d, now) # chunks) st c =
     (case airdap_dap_stream_feed st (Some d) (length d) now (Some cb) c of
        Some (AIRDAP_DAP_STREAM_OK, st, c) \<Rightarrow> feed_chunks cb chunks st c
      | r \<Rightarrow> r)"

lemma feed_chunks_split:
  assumes "feed_chunks cb chunks st c = Some (res, st', c')" "stream_ok st" "res \<noteq> AIRDAP_DAP_STREAM_OVERFLOW"
    "dap_framing (pending st) = Need_more"
  shows "\<exists>fs. split_frames dap_framing 508 (pending st @ concat (map fst chunks)) =
      (fs, if res = AIRDAP_DAP_STREAM_OK then Some (pending st') else None) \<and> c' = fold cb fs c \<and> stream_ok st'"
  using assms
proof (induction chunks arbitrary: st c)
  case Nil
  then show ?case by (auto simp: split_frames.simps [of _ _ "pending st'"])
next
  case (Cons chunk chunks)
  obtain d now where chunk: "chunk = (d, now)" by (cases chunk)
  obtain fs rest where split: "split_frames dap_framing 508 (pending st @ d) = (fs, rest)"
    by (cases "split_frames dap_framing 508 (pending st @ d)")
  have fit: "length (pending st) + length d \<le> 512"
    using feed_overflow [OF Cons.prems(2), of d now cb c] Cons.prems(1,3) chunk by (force split: if_splits)
  note feed = feed_split [OF Cons.prems(2) fit split, of now cb c]
  note app = dap_frames.split_append [of 508 "pending st @ d" "concat (map fst chunks)"]
  show ?case
  proof (cases rest)
    case None
    then show ?thesis using Cons.prems(1) feed chunk app split by auto
  next
    case (Some r)
    then obtain st1 where st1: "airdap_dap_stream_feed st (Some d) (length d) now (Some cb) c =
        Some (AIRDAP_DAP_STREAM_OK, st1, fold cb fs c)" "stream_ok st1" "pending st1 = r" using feed by auto
    then have "dap_framing (pending st1) = Need_more"
      using dap_frames.split_rest split Some by blast
    then show ?thesis
      using Cons.IH [of st1 "fold cb fs c"] Cons.prems(1,3) st1 chunk Some app split by auto
  qed
qed

text \<open>C29. One call of \<^verbatim>\<open>airdap_dap_stream_feed\<close> refines the splitter: it stays inside the 512 byte buffer
  and delivers exactly the complete requests at the front of what was pending followed by the new
  bytes, in order, before keeping the remainder (with its time stamp) or, at a malformed request,
  dropping everything; input that does not fit drops everything and delivers nothing.\<close>

theorem stream_feed_refines:
  assumes "stream_ok st" "split_frames dap_framing AIRDAP_DAP_PACKET_SIZE (pending st @ d) = (fs, rest)"
  shows "\<exists>st' c'. airdap_dap_stream_feed st (Some d) (length d) now (Some cb) c =
      Some (if 512 < length (pending st) + length d then AIRDAP_DAP_STREAM_OVERFLOW
            else if rest = None then AIRDAP_DAP_STREAM_MALFORMED else AIRDAP_DAP_STREAM_OK, st', c') \<and>
    stream_ok st' \<and>
    (if 512 < length (pending st) + length d then pending st' = [] \<and> c' = c
     else c' = fold cb fs c \<and> pending st' = (case rest of None \<Rightarrow> [] | Some r \<Rightarrow> r) \<and>
       st_last_activity_us st' = (if pending st' = [] then 0 else now))"
proof (cases "512 < length (pending st) + length d")
  case True
  then show ?thesis using feed_overflow [OF assms(1) True, of now cb c] by simp
next
  case False
  then show ?thesis
    using feed_split [OF assms(1) _ assms(2), of now cb c]
    by (cases rest) (auto simp: airdap_dap_stream_init_def pending_def stream_ok_def)
qed

theorem stream_feed_refines_witness:
  "\<exists>st' c'. airdap_dap_stream_feed airdap_dap_stream_init (Some [0x03, 0x00]) 2 5 (Some (#)) [] =
      Some (AIRDAP_DAP_STREAM_OK, st', c') \<and> stream_ok st' \<and> c' = [[0x03]] \<and> pending st' = [0x00] \<and>
    st_last_activity_us st' = 5"
proof -
  have frame: "dap_framing [0x03, 0x00] = Frame 1" "dap_framing [0x00] = Need_more"
    by (simp_all add: dap_framing_def framing_of_def airdap_dap_request_size_def Let_def rd_def SIZE_MAX_def)
  have "split_frames dap_framing 508 [0x00] = ([], Some [0x00])"
    using frame by (simp add: split_frames.simps [of _ _ "[0x00]"])
  then have "split_frames dap_framing 508 (pending airdap_dap_stream_init @ [0x03, 0x00]) = ([[0x03]], Some [0x00])"
    using frame by (simp add: split_frames.simps [of _ _ "[0x03, 0x00]"])
  from stream_feed_refines [OF _ this, of 5 "(#)" "[]"] show ?thesis
    by (auto simp: numeral_2_eq_2)
qed

text \<open>The requests a host's byte stream stands for do not depend on how USB cuts it into transfers:
  after any sequence of accepted transfers the callback has seen exactly the requests of the
  concatenated bytes, in order, and the bytes of the last incomplete request are pending; after a
  sequence that ends in a malformed request it has seen exactly the requests before it.\<close>

theorem stream_chunking:
  assumes "feed_chunks cb chunks airdap_dap_stream_init c = Some (res, st', c')"
    "res \<noteq> AIRDAP_DAP_STREAM_OVERFLOW"
  shows "\<exists>fs. split_frames dap_framing AIRDAP_DAP_PACKET_SIZE (concat (map fst chunks)) =
      (fs, if res = AIRDAP_DAP_STREAM_OK then Some (pending st') else None) \<and> c' = fold cb fs c"
  using feed_chunks_split [OF assms(1) _ assms(2)] dap_frames.empty by auto

theorem stream_chunking_witness:
  "\<exists>fs st' c'. feed_chunks (#) [([0x04, 1], 0), ([2, 3, 4, 5, 0x03], 10)] airdap_dap_stream_init [] =
      Some (AIRDAP_DAP_STREAM_OK, st', c') \<and>
    split_frames dap_framing 508 [0x04, 1, 2, 3, 4, 5, 0x03] = (fs, Some (pending st')) \<and> c' = fold (#) fs []"
proof -
  have frames: "dap_framing [0x04, 1] = Need_more" "dap_framing [0x04, 1, 2, 3, 4, 5, 0x03] = Frame 6"
    "dap_framing [0x03] = Frame 1"
    by (simp_all add: dap_framing_def framing_of_def airdap_dap_request_size_def Let_def rd_def SIZE_MAX_def)
  have split: "split_frames dap_framing 508 [0x04, 1] = ([], Some [0x04, 1])"
    "split_frames dap_framing 508 [] = ([], Some [])"
    "split_frames dap_framing 508 [0x03] = ([[0x03]], Some [])"
    "split_frames dap_framing 508 [0x04, 1, 2, 3, 4, 5, 0x03] = ([[0x04, 1, 2, 3, 4, 5], [0x03]], Some [])"
    using frames dap_frames.empty by (simp_all add: split_frames.simps)
  obtain st1 where st1: "airdap_dap_stream_feed airdap_dap_stream_init (Some [0x04, 1]) 2 0 (Some (#)) [] =
      Some (AIRDAP_DAP_STREAM_OK, st1, [])" "stream_ok st1" "pending st1 = [0x04, 1]"
    using feed_split [of airdap_dap_stream_init "[0x04, 1]" "[]" "Some [0x04, 1]" 0 "(#)" "[]"] split(1)
    by (auto simp: numeral_2_eq_2)
  obtain st2 where "airdap_dap_stream_feed st1 (Some [2, 3, 4, 5, 0x03]) 5 10 (Some (#)) [] =
      Some (AIRDAP_DAP_STREAM_OK, st2, [[0x03], [0x04, 1, 2, 3, 4, 5]])"
    using feed_split [of st1 "[2, 3, 4, 5, 0x03]" "[[0x04, 1, 2, 3, 4, 5], [0x03]]" "Some []" 10 "(#)" "[]"]
      split(4) st1 by (auto simp: numeral_eq_Suc)
  then have run: "feed_chunks (#) [([0x04, 1], 0), ([2, 3, 4, 5, 0x03], 10)] airdap_dap_stream_init [] =
      Some (AIRDAP_DAP_STREAM_OK, st2, [[0x03], [0x04, 1, 2, 3, 4, 5]])"
    using st1(1) by (simp add: numeral_eq_Suc)
  from stream_chunking [OF this] show ?thesis using run by simp
qed

end
