(* ===== verification/Swd_Protocol.thy ===== *)
theory Swd_Protocol
  imports AirDAP_Prelude
begin

text \<open>
  The SWD packet protocol, \<^verbatim>\<open>firmware/components/swd_engine/swd_protocol.c\<close>: request encoding, parity,
  one transfer attempt with all its error paths, the WAIT retries and the connection sequence. The
  line callbacks of \<^verbatim>\<open>airdap_swd_io_t\<close> are parameters over an arbitrary context; a function that returns
  an error code and changes the context is a function to \<^typ>\<open>esp_err \<times> 'c\<close>.
\<close>

section \<open>Data\<close>

abbreviation (input) AIRDAP_SWD_PORT_DP :: u32 where "AIRDAP_SWD_PORT_DP \<equiv> 0"
abbreviation (input) AIRDAP_SWD_PORT_AP :: u32 where "AIRDAP_SWD_PORT_AP \<equiv> 1"
abbreviation (input) AIRDAP_SWD_WRITE :: u32 where "AIRDAP_SWD_WRITE \<equiv> 0"
abbreviation (input) AIRDAP_SWD_READ :: u32 where "AIRDAP_SWD_READ \<equiv> 1"
abbreviation (input) AIRDAP_SWD_ACK_NONE :: u32 where "AIRDAP_SWD_ACK_NONE \<equiv> 0"
abbreviation (input) AIRDAP_SWD_ACK_OK :: u32 where "AIRDAP_SWD_ACK_OK \<equiv> 1"
abbreviation (input) AIRDAP_SWD_ACK_WAIT :: u32 where "AIRDAP_SWD_ACK_WAIT \<equiv> 2"
abbreviation (input) AIRDAP_SWD_ACK_FAULT :: u32 where "AIRDAP_SWD_ACK_FAULT \<equiv> 4"
abbreviation (input) AIRDAP_SWD_REQUEST_BITS :: nat where "AIRDAP_SWD_REQUEST_BITS \<equiv> 8"
abbreviation (input) AIRDAP_SWD_ACK_BITS :: nat where "AIRDAP_SWD_ACK_BITS \<equiv> 3"
abbreviation (input) AIRDAP_SWD_DATA_BITS :: nat where "AIRDAP_SWD_DATA_BITS \<equiv> 33"
abbreviation (input) AIRDAP_SWD_WRITE_FRAME_BITS :: nat where "AIRDAP_SWD_WRITE_FRAME_BITS \<equiv> 40"
abbreviation (input) AIRDAP_SWD_WRITE_EMBEDDED_IDLE_CYCLES :: u8 where
  "AIRDAP_SWD_WRITE_EMBEDDED_IDLE_CYCLES \<equiv> 6"
abbreviation (input) AIRDAP_SWD_CONNECT_WAIT_RETRIES :: u32 where
  "AIRDAP_SWD_CONNECT_WAIT_RETRIES \<equiv> 5"

text \<open>The enum fields are unsigned integers, so a caller can store any value in them.\<close>

record airdap_swd_request =
  rq_port :: u32
  rq_direction :: u32
  rq_address :: u8

record 'c airdap_swd_io =
  io_idle_cycles :: u8
  io_data_phase :: bool
  io_set_host_output :: "(bool \<Rightarrow> 'c \<Rightarrow> esp_err \<times> 'c) option"
  io_write_bits :: "(u64 \<Rightarrow> nat \<Rightarrow> 'c \<Rightarrow> esp_err \<times> 'c) option"
  io_read_bits :: "(nat \<Rightarrow> u64 \<Rightarrow> 'c \<Rightarrow> (esp_err \<times> u64) \<times> 'c) option"
  io_turnaround :: "(bool \<Rightarrow> 'c \<Rightarrow> esp_err \<times> 'c) option"

text \<open>\<^verbatim>\<open>error = m; if (error != ESP_OK) { return error; }\<close>\<close>

definition and_then :: "esp_err \<times> 'c \<Rightarrow> ('c \<Rightarrow> esp_err \<times> 'c) \<Rightarrow> esp_err \<times> 'c" where
  "and_then r k = (case r of (error, c) \<Rightarrow> if error \<noteq> ESP_OK then (error, c) else k c)"

section \<open>Encoding\<close>

function parity32_loop :: "u32 \<Rightarrow> u32 \<Rightarrow> u32" where
  "parity32_loop value parity =
     (if value \<noteq> 0 then parity32_loop (drop_bit 1 value) (parity XOR (value AND 1)) else parity)"
  by pat_completeness auto
termination
proof (relation "measure (\<lambda>(value, parity). unat value)", simp_all)
  fix v :: u32 assume "v \<noteq> 0"
  then have "unat v \<noteq> 0" by (simp add: unat_eq_zero)
  then show "unat (drop_bit (Suc 0) v) < unat v" by (simp add: drop_bit_eq_div unat_div)
qed

definition parity32 :: "u32 \<Rightarrow> u32" where
  "parity32 value = parity32_loop value 0"

definition request_is_valid :: "airdap_swd_request option \<Rightarrow> bool" where
  "request_is_valid request \<longleftrightarrow> (case request of None \<Rightarrow> False | Some r \<Rightarrow>
     (rq_port r = AIRDAP_SWD_PORT_DP \<or> rq_port r = AIRDAP_SWD_PORT_AP) \<and>
     (rq_direction r = AIRDAP_SWD_WRITE \<or> rq_direction r = AIRDAP_SWD_READ) \<and>
     rq_address r \<le> 0xC \<and> rq_address r AND 0x3 = 0)"

definition io_is_valid :: "'c airdap_swd_io option \<Rightarrow> bool" where
  "io_is_valid io \<longleftrightarrow> (case io of None \<Rightarrow> False | Some io \<Rightarrow>
     io_set_host_output io \<noteq> None \<and> io_write_bits io \<noteq> None \<and> io_read_bits io \<noteq> None \<and>
     io_turnaround io \<noteq> None)"

definition airdap_swd_encode_request :: "airdap_swd_request \<Rightarrow> u8" where
  "airdap_swd_encode_request request =
     (let address_bit_2 = drop_bit 2 (ucast (rq_address request)) AND (1 :: u32);
          address_bit_3 = drop_bit 3 (ucast (rq_address request)) AND (1 :: u32);
          request_parity = rq_port request XOR rq_direction request XOR address_bit_2 XOR address_bit_3
      in ucast (1 OR push_bit 1 (rq_port request) OR push_bit 2 (rq_direction request) OR
           push_bit 3 address_bit_2 OR push_bit 4 address_bit_3 OR push_bit 5 request_parity OR
           push_bit 7 1))"

section \<open>Transfers\<close>

text \<open>
  Idle clocks in chunks the SPI peripheral can send. \<open>remaining\<close> is a byte; it reaches 0 because a
  chunk is never empty.
\<close>

definition idle_chunk :: "u8 \<Rightarrow> u8" where
  "idle_chunk remaining =
     (if remaining = 65 then 63 else if remaining = 1 then 2
      else if remaining > 64 then 64 else remaining)"

function idle_loop :: "(u64 \<Rightarrow> nat \<Rightarrow> 'c \<Rightarrow> esp_err \<times> 'c) \<Rightarrow> u8 \<Rightarrow> 'c \<Rightarrow> esp_err \<times> 'c" where
  "idle_loop write_bits remaining c =
     (if remaining > 0 then
        (case write_bits 0 (unat (idle_chunk remaining)) c of (error, c) \<Rightarrow>
           if error \<noteq> ESP_OK then (error, c)
           else idle_loop write_bits
                  (if idle_chunk remaining > remaining then 0 else remaining - idle_chunk remaining) c)
      else (ESP_OK, c))"
  by pat_completeness auto
termination
proof (relation "measure (\<lambda>(w, remaining, c). unat remaining)")
  fix w :: "u64 \<Rightarrow> nat \<Rightarrow> 'c \<Rightarrow> esp_err \<times> 'c" and r :: u8 and c x and e :: esp_err and c' :: 'c
  assume r: "0 < r"
  show "((w, if r < idle_chunk r then 0 else r - idle_chunk r, c'), w, r, c)
    \<in> measure (\<lambda>(w, remaining, c). unat remaining)"
  proof (cases "r < idle_chunk r")
    case False
    then have le: "idle_chunk r \<le> r" by (simp add: not_less)
    have "unat (idle_chunk r) \<noteq> 0" using r by (auto simp: idle_chunk_def unat_eq_zero)
    then show ?thesis using le False by (simp add: unat_sub word_le_nat_alt)
  next
    case True
    then show ?thesis using r by (simp add: word_less_nat_alt)
  qed
qed simp

definition write_idle_cycles :: "'c airdap_swd_io \<Rightarrow> u8 \<Rightarrow> 'c \<Rightarrow> esp_err \<times> 'c" where
  "write_idle_cycles io idle_cycles = idle_loop (the (io_write_bits io)) idle_cycles"

definition write_data_phase_and_idle :: "'c airdap_swd_io \<Rightarrow> u64 \<Rightarrow> 'c \<Rightarrow> esp_err \<times> 'c" where
  "write_data_phase_and_idle io data_bits c =
     and_then (the (io_write_bits io) (push_bit 1 data_bits) AIRDAP_SWD_WRITE_FRAME_BITS c)
       (write_idle_cycles io
          (if io_idle_cycles io \<ge> AIRDAP_SWD_WRITE_EMBEDDED_IDLE_CYCLES
           then io_idle_cycles io - AIRDAP_SWD_WRITE_EMBEDDED_IDLE_CYCLES else 0))"

definition restore_host_and_idle :: "'c airdap_swd_io \<Rightarrow> 'c \<Rightarrow> esp_err \<times> 'c" where
  "restore_host_and_idle io c =
     and_then (the (io_turnaround io) True c)
       (write_idle_cycles io (if io_idle_cycles io = 0 then 1 else io_idle_cycles io))"

definition read_then_restore :: "'c airdap_swd_io \<Rightarrow> 'c \<Rightarrow> esp_err \<times> 'c" where
  "read_then_restore io c =
     (case the (io_read_bits io) AIRDAP_SWD_DATA_BITS 0 c of ((error, ignored), c) \<Rightarrow>
        if error \<noteq> ESP_OK then (error, snd (restore_host_and_idle io c))
        else restore_host_and_idle io c)"

definition complete_protocol_error :: "'c airdap_swd_io \<Rightarrow> 'c \<Rightarrow> esp_err \<times> 'c" where
  "complete_protocol_error io c = read_then_restore io c"

definition complete_error_data_phase ::
  "'c airdap_swd_io \<Rightarrow> airdap_swd_request \<Rightarrow> 'c \<Rightarrow> esp_err \<times> 'c"
where
  "complete_error_data_phase io request c =
     (if \<not> io_data_phase io then restore_host_and_idle io c
      else if rq_direction request = AIRDAP_SWD_READ then read_then_restore io c
      else and_then (the (io_turnaround io) True c) (write_data_phase_and_idle io 0))"

text \<open>The data phase of an accepted read: the error, the data word and the context.\<close>

definition read_data :: "'c airdap_swd_io \<Rightarrow> u32 \<Rightarrow> 'c \<Rightarrow> (esp_err \<times> u32) \<times> 'c" where
  "read_data io data c =
     (case the (io_read_bits io) AIRDAP_SWD_DATA_BITS 0 c of ((error, data_bits), c) \<Rightarrow>
        if error \<noteq> ESP_OK then ((error, data), snd (restore_host_and_idle io c))
        else (case restore_host_and_idle io c of (error, c) \<Rightarrow>
          if error \<noteq> ESP_OK then ((error, data), c)
          else let value = ucast data_bits :: u32;
                   received_parity = ucast (drop_bit 32 data_bits AND 1) :: u32
               in if received_parity \<noteq> parity32 value then ((ESP_ERR_INVALID_CRC, data), c)
                  else ((ESP_OK, value), c)))"

definition write_data :: "'c airdap_swd_io \<Rightarrow> u32 \<Rightarrow> 'c \<Rightarrow> esp_err \<times> 'c" where
  "write_data io data c =
     and_then (the (io_turnaround io) True c)
       (write_data_phase_and_idle io (ucast data OR push_bit 32 (ucast (parity32 data))))"

text \<open>One attempt: the error, the data and ACK words the caller sees, and the context.\<close>

definition transfer_attempt ::
  "'c airdap_swd_io \<Rightarrow> airdap_swd_request \<Rightarrow> u32 \<Rightarrow> u32 \<Rightarrow> 'c \<Rightarrow> (esp_err \<times> u32 \<times> u32) \<times> 'c"
where
  "transfer_attempt io request data ack c =
     (case the (io_write_bits io) (ucast (airdap_swd_encode_request request)) AIRDAP_SWD_REQUEST_BITS c
      of (error, c) \<Rightarrow>
        if error \<noteq> ESP_OK then ((error, data, ack), c)
        else case the (io_turnaround io) False c of (error, c) \<Rightarrow>
          if error \<noteq> ESP_OK then ((error, data, ack), c)
          else case the (io_read_bits io) AIRDAP_SWD_ACK_BITS 0 c of ((error, ack_bits), c) \<Rightarrow>
            if error \<noteq> ESP_OK then ((error, data, ack), snd (restore_host_and_idle io c))
            else let ack = ucast ack_bits :: u32 in
              if ack \<noteq> AIRDAP_SWD_ACK_OK \<and> ack \<noteq> AIRDAP_SWD_ACK_WAIT \<and> ack \<noteq> AIRDAP_SWD_ACK_FAULT
              then (case complete_protocol_error io c of (error, c) \<Rightarrow>
                ((if error = ESP_OK then ESP_ERR_INVALID_RESPONSE else error, data, ack), c))
              else if ack \<noteq> AIRDAP_SWD_ACK_OK
              then (case complete_error_data_phase io request c of (error, c) \<Rightarrow> ((error, data, ack), c))
              else if rq_direction request = AIRDAP_SWD_READ
              then (case read_data io data c of ((error, data), c) \<Rightarrow> ((error, data, ack), c))
              else (case write_data io data c of (error, c) \<Rightarrow> ((error, data, ack), c)))"

text \<open>
  The retry loop; \<open>attempt\<close> is the C counter and wraps, so with the largest retry count and a
  target that always answers WAIT the loop does not return (\<^const>\<open>None\<close>).
\<close>

partial_function (option) transfer_retry ::
  "'c airdap_swd_io \<Rightarrow> airdap_swd_request \<Rightarrow> u32 \<Rightarrow> u32 \<Rightarrow> u32 \<Rightarrow> u32 \<Rightarrow> 'c \<Rightarrow>
   ((esp_err \<times> u32 \<times> u32) \<times> 'c) option"
where
  "transfer_retry io request wait_retries attempt data ack c =
     (if attempt \<le> wait_retries then
        (case transfer_attempt io request data ack c of ((error, data, ack), c) \<Rightarrow>
           if error \<noteq> ESP_OK \<or> ack \<noteq> AIRDAP_SWD_ACK_WAIT then Some ((error, data, ack), c)
           else transfer_retry io request wait_retries (attempt + 1) data ack c)
      else Some ((ESP_OK, data, ack), c))"

definition airdap_swd_protocol_transfer ::
  "'c airdap_swd_io option \<Rightarrow> airdap_swd_request option \<Rightarrow> u32 option \<Rightarrow> u32 \<Rightarrow> u32 option \<Rightarrow> 'c \<Rightarrow>
   ((esp_err \<times> u32 option \<times> u32 option) \<times> 'c) option"
where
  "airdap_swd_protocol_transfer io request data wait_retries ack c =
     (if \<not> io_is_valid io \<or> \<not> request_is_valid request \<or> data = None \<or> ack = None
      then Some ((ESP_ERR_INVALID_ARG, data, ack), c)
      else do {
        ((error, data, ack), c) \<leftarrow>
          transfer_retry (the io) (the request) wait_retries 0 (the data) (the ack) c;
        Some ((error, Some data, Some ack), c) })"

definition connect_line_reset :: "'c airdap_swd_io \<Rightarrow> 'c \<Rightarrow> esp_err \<times> 'c" where
  "connect_line_reset io c =
     and_then (the (io_set_host_output io) True c) (\<lambda>c.
     and_then (the (io_write_bits io) (- 1) 64 c) (\<lambda>c.
     and_then (the (io_write_bits io) 0xE79E 16 c) (\<lambda>c.
     and_then (the (io_write_bits io) (push_bit 56 1 - 1) 56 c) (\<lambda>c.
     the (io_write_bits io) 0 8 c))))"

definition connect_request :: airdap_swd_request where
  "connect_request = \<lparr>rq_port = AIRDAP_SWD_PORT_DP, rq_direction = AIRDAP_SWD_READ, rq_address = 0\<rparr>"

definition airdap_swd_protocol_connect ::
  "'c airdap_swd_io option \<Rightarrow> u32 option \<Rightarrow> 'c \<Rightarrow> ((esp_err \<times> u32 option) \<times> 'c) option"
where
  "airdap_swd_protocol_connect io idcode c =
     (if \<not> io_is_valid io \<or> idcode = None then Some ((ESP_ERR_INVALID_ARG, idcode), c)
      else case connect_line_reset (the io) c of (error, c) \<Rightarrow>
        if error \<noteq> ESP_OK then Some ((error, idcode), c)
        else do {
          ((error, idcode, ack), c) \<leftarrow> airdap_swd_protocol_transfer io (Some connect_request) idcode
            AIRDAP_SWD_CONNECT_WAIT_RETRIES (Some AIRDAP_SWD_ACK_NONE) c;
          if error \<noteq> ESP_OK then Some ((error, idcode), c)
          else if ack = Some AIRDAP_SWD_ACK_WAIT then Some ((ESP_ERR_TIMEOUT, idcode), c)
          else if ack \<noteq> Some AIRDAP_SWD_ACK_OK then Some ((ESP_ERR_INVALID_RESPONSE, idcode), c)
          else Some ((ESP_OK, idcode), c) })"

section \<open>The discipline of the half-duplex line\<close>

lemma idle_chunk_bounds: "0 < r \<Longrightarrow> 2 \<le> unat (idle_chunk r) \<and> unat (idle_chunk r) \<le> 64"
  by (auto simp: idle_chunk_def word_unat_eq_iff word_less_nat_alt not_less)

declare idle_loop.simps [simp del]

text \<open>
  What the protocol relies on from the four line callbacks, for a notion of who drives SWDIO
  (\<open>host\<close>), a safety predicate (\<open>ok\<close>) that accesses in the right direction and of a possible size
  preserve, and a note that a direction change failed (\<open>failed\<close>).
\<close>

locale swd_bus =
  fixes io :: "'c airdap_swd_io"
    and host :: "'c \<Rightarrow> bool"
    and ok :: "'c \<Rightarrow> bool"
    and failed :: "'c \<Rightarrow> bool"
  assumes bus_set: "ok c \<Longrightarrow> the (io_set_host_output io) h c = (e, c') \<Longrightarrow>
      ok c' \<and> (if e = ESP_OK then host c' = h else failed c')"
    and bus_write: "ok c \<Longrightarrow> host c \<Longrightarrow> 2 \<le> n \<Longrightarrow> n \<le> 64 \<Longrightarrow>
      the (io_write_bits io) bits n c = (e, c') \<Longrightarrow> ok c' \<and> host c'"
    and bus_read: "ok c \<Longrightarrow> \<not> host c \<Longrightarrow> 0 < n \<Longrightarrow> n \<le> 64 \<Longrightarrow>
      the (io_read_bits io) n v c = ((e, v'), c') \<Longrightarrow> ok c' \<and> \<not> host c'"
    and bus_turn: "ok c \<Longrightarrow> host c \<noteq> h \<Longrightarrow> the (io_turnaround io) h c = (e, c') \<Longrightarrow>
      ok c' \<and> (if e = ESP_OK then host c' = h else failed c')"
begin

definition restored :: "esp_err \<Rightarrow> 'c \<Rightarrow> bool" where
  "restored e c \<longleftrightarrow> ok c \<and> (host c \<or> failed c) \<and> (e = ESP_OK \<longrightarrow> host c)"

lemma idle_keeps:
  "ok c \<Longrightarrow> host c \<Longrightarrow> idle_loop (the (io_write_bits io)) r c = (e, c') \<Longrightarrow> ok c' \<and> host c'"
proof (induction "the (io_write_bits io)" r c rule: idle_loop.induct)
  case (1 r c)
  show ?case
  proof (cases "r > 0")
    case False
    then show ?thesis using 1 by (simp add: idle_loop.simps)
  next
    case True
    obtain e1 c1 where w: "the (io_write_bits io) 0 (unat (idle_chunk r)) c = (e1, c1)" by fastforce
    then have "ok c1 \<and> host c1"
      using bus_write [OF 1(2,3) _ _ w] idle_chunk_bounds [OF True] by auto
    then show ?thesis
      using 1(4) True w 1(1) [OF True w [symmetric]] by (auto simp: idle_loop.simps [of _ r c] split: if_splits)
  qed
qed

lemma write_idle_restored:
  "ok c \<Longrightarrow> host c \<Longrightarrow> write_idle_cycles io n c = (e, c') \<Longrightarrow> restored e c'"
  using idle_keeps [of c n e c'] by (simp add: write_idle_cycles_def restored_def)

lemma and_then_restored:
  "and_then m k = (e, c') \<Longrightarrow> (\<And>e1 c1. m = (e1, c1) \<Longrightarrow> e1 \<noteq> ESP_OK \<Longrightarrow> restored e1 c1) \<Longrightarrow>
   (\<And>c1 e c'. m = (ESP_OK, c1) \<Longrightarrow> k c1 = (e, c') \<Longrightarrow> restored e c') \<Longrightarrow> restored e c'"
  by (auto simp: and_then_def split: prod.splits if_splits)

lemma turn_restored:
  assumes "ok c" "\<not> host c" "\<And>c1 e c'. ok c1 \<Longrightarrow> host c1 \<Longrightarrow> k c1 = (e, c') \<Longrightarrow> restored e c'"
    "and_then (the (io_turnaround io) True c) k = (e, c')"
  shows "restored e c'"
  using assms(4)
proof (rule and_then_restored)
  fix e1 c1 assume "the (io_turnaround io) True c = (e1, c1)" "e1 \<noteq> ESP_OK"
  then show "restored e1 c1" using bus_turn [OF assms(1), of True] assms(2) by (fastforce simp: restored_def)
next
  fix c1 e c' assume "the (io_turnaround io) True c = (ESP_OK, c1)" "k c1 = (e, c')"
  then show "restored e c'" using bus_turn [OF assms(1), of True] assms(2,3) by fastforce
qed

lemma data_phase_restored:
  assumes "ok c" "host c" "write_data_phase_and_idle io d c = (e, c')"
  shows "restored e c'"
proof -
  have w: "ok c1 \<and> host c1" if "the (io_write_bits io) (push_bit 1 d) 40 c = (e1, c1)" for e1 c1
    using bus_write [OF assms(1,2) _ _ that] by simp
  show ?thesis
    using assms(3) unfolding write_data_phase_and_idle_def
    by (rule and_then_restored) (use w write_idle_restored in \<open>auto simp: restored_def\<close>)
qed

lemma restore_restored:
  assumes "ok c" "\<not> host c" "restore_host_and_idle io c = (e, c')"
  shows "restored e c'"
  using turn_restored [OF assms(1,2) _ assms(3) [unfolded restore_host_and_idle_def]]
    write_idle_restored by blast

lemma restore_error: "ok c \<Longrightarrow> \<not> host c \<Longrightarrow> e \<noteq> ESP_OK \<Longrightarrow> restored e (snd (restore_host_and_idle io c))"
  using restore_restored [of c] by (cases "restore_host_and_idle io c") (simp add: restored_def)

lemma read_then_restored:
  assumes "ok c" "\<not> host c" "read_then_restore io c = (e, c')"
  shows "restored e c'"
proof -
  obtain e1 v c1 where r: "the (io_read_bits io) 33 0 c = ((e1, v), c1)" by (metis prod.collapse)
  then have "ok c1" "\<not> host c1" using bus_read [OF assms(1,2) _ _ r] by auto
  then show ?thesis
    using assms(3) r restore_restored restore_error
    by (auto simp: read_then_restore_def split: if_splits)
qed

lemma read_data_restored:
  assumes "ok c" "\<not> host c" "read_data io d c = ((e, d'), c')"
  shows "restored e c'"
proof -
  obtain e1 v c1 where r: "the (io_read_bits io) 33 0 c = ((e1, v), c1)" by (metis prod.collapse)
  then have c1: "ok c1" "\<not> host c1" using bus_read [OF assms(1,2) _ _ r] by auto
  obtain e2 c2 where s: "restore_host_and_idle io c1 = (e2, c2)" by fastforce
  show ?thesis
    using assms(3) r s restore_restored [OF c1 s] restore_error [OF c1]
    by (auto simp: read_data_def Let_def restored_def split: if_splits)
qed

lemma attempt_restored:
  assumes "ok c" "host c" "transfer_attempt io request d a c = ((e, d', a'), c')"
  shows "restored e c'"
proof -
  obtain e1 c1 where w: "the (io_write_bits io) (ucast (airdap_swd_encode_request request)) 8 c = (e1, c1)"
    by fastforce
  obtain e2 c2 where t: "the (io_turnaround io) False c1 = (e2, c2)" by fastforce
  obtain e3 v c3 where r: "the (io_read_bits io) 3 0 c2 = ((e3, v), c3)" by (metis prod.collapse)
  have c1: "ok c1" "host c1" using bus_write [OF assms(1,2) _ _ w] by auto
  have c2: "ok c2" "if e2 = ESP_OK then \<not> host c2 else failed c2" using bus_turn [OF c1(1) _ t] c1(2) by auto
  have c3: "ok c3" "\<not> host c3" if "e2 = ESP_OK" using bus_read [OF c2(1) _ _ _ r] c2(2) that by auto
  consider "e1 \<noteq> ESP_OK" | "e1 = ESP_OK" "e2 \<noteq> ESP_OK" | "e1 = ESP_OK" "e2 = ESP_OK" "e3 \<noteq> ESP_OK"
    | "e1 = ESP_OK" "e2 = ESP_OK" "e3 = ESP_OK" by blast
  then show ?thesis
  proof cases
    case 4
    note c = c3 [OF 4(2)]
    have completed: "restored e5 c5"
      if "and_then (the (io_turnaround io) True c3) (write_data_phase_and_idle io x) = (e5, c5)" for x e5 c5
      by (rule turn_restored [OF c _ that]) (rule data_phase_restored)
    have "restored e5 c5" if "complete_error_data_phase io request c3 = (e5, c5)" for e5 c5
      using that completed restore_restored [OF c] read_then_restored [OF c]
      by (auto simp: complete_error_data_phase_def split: if_splits)
    moreover have "restored ESP_ERR_INVALID_RESPONSE c5" if "read_then_restore io c3 = (ESP_OK, c5)" for c5
      using read_then_restored [OF c that] by (simp add: restored_def)
    ultimately show ?thesis
      using assms(3) w t r 4 completed read_then_restored [OF c] read_data_restored [OF c]
      by (auto simp: transfer_attempt_def Let_def complete_protocol_error_def write_data_def
          split: if_splits prod.splits)
  qed (use assms(3) w t r c1 c2 c3 restore_error in \<open>auto simp: transfer_attempt_def restored_def\<close>)
qed

end

text \<open>Rules for the retry loop.\<close>

lemma transfer_retry_rule:
  assumes "transfer_retry io request retries attempt d a c = Some y" "I d a c"
    and step: "\<And>d a c e d' a' c'. I d a c \<Longrightarrow> transfer_attempt io request d a c = ((e, d', a'), c') \<Longrightarrow>
      if e = ESP_OK \<and> a' = AIRDAP_SWD_ACK_WAIT then I d' a' c' else Q ((e, d', a'), c')"
    and stop: "\<And>d a c. I d a c \<Longrightarrow> retries \<noteq> UINT32_MAX \<Longrightarrow> Q ((ESP_OK, d, a), c)"
  shows "Q y"
proof -
  let ?P = "\<lambda>io' request' retries' attempt d a c y.
    io' = io \<and> request' = request \<and> retries' = retries \<and> I d a c \<longrightarrow> Q y"
  have "?P io request retries attempt d a c y"
  proof (rule transfer_retry.raw_induct [of ?P, OF _ assms(1)], intro impI, elim conjE)
    fix f io' request' retries' attempt d a c y
    assume IH: "\<And>io' request' retries' attempt d a c y.
        f io' request' retries' attempt d a c = Some y \<Longrightarrow> ?P io' request' retries' attempt d a c y"
      and body: "(if attempt \<le> retries' then
          (case transfer_attempt io' request' d a c of ((error, d, a), c) \<Rightarrow>
             if error \<noteq> ESP_OK \<or> a \<noteq> 2 then Some ((error, d, a), c)
             else f io' request' retries' (attempt + 1) d a c)
        else Some ((ESP_OK, d, a), c)) = Some y"
      and eq: "io' = io" "request' = request" "retries' = retries" and I: "I d a c"
    obtain e d1 a1 c1 where at: "transfer_attempt io request d a c = ((e, d1, a1), c1)"
      by (metis prod.collapse)
    have "retries \<noteq> UINT32_MAX" if "\<not> attempt \<le> retries"
      using that by (auto simp: UINT32_MAX_def word_le_nat_alt) (use unat_u32_less [of attempt] in simp)
    then show "Q y"
      using body eq step [OF I at] stop [OF I] at IH [of io request retries "attempt + 1" d1 a1 c1 y]
      by (auto split: if_splits)
  qed
  then show ?thesis using assms(2) by blast
qed

lemma transfer_retry_total:
  assumes "retries \<noteq> UINT32_MAX"
  shows "\<exists>y. transfer_retry io request retries attempt d a c = Some y"
proof (induction "unat retries + 1 - unat attempt" arbitrary: attempt d a c)
  case 0
  then have "\<not> attempt \<le> retries" by (simp add: word_le_nat_alt)
  then show ?case by (simp add: transfer_retry.simps)
next
  case (Suc n)
  obtain e d1 a1 c1 where at: "transfer_attempt io request d a c = ((e, d1, a1), c1)"
    by (metis prod.collapse)
  show ?case
  proof (cases "attempt \<le> retries")
    case True
    have "attempt \<noteq> - 1"
    proof
      assume "attempt = - 1"
      then have "retries = - 1" using True by (metis word_order.extremum_uniqueI)
      then show False using assms by (simp add: UINT32_MAX_def)
    qed
    then have "1 + attempt \<noteq> 0" by (metis add.inverse_unique)
    then have "unat (attempt + 1) = unat attempt + 1" by (simp add: unatSuc add.commute)
    then have "n = unat retries + 1 - unat (attempt + 1)" using Suc.hyps(2) by simp
    from Suc.hyps(1) [OF this] show ?thesis
      by (subst transfer_retry.simps) (simp add: at)
  qed (simp add: transfer_retry.simps)
qed

context swd_bus
begin

lemma retry_restored:
  assumes "ok c" "host c" "transfer_retry io request retries attempt d a c = Some y"
  shows "restored (fst (fst y)) (snd y)"
proof (rule transfer_retry_rule [OF assms(3), where I = "\<lambda>d a c. ok c \<and> host c"])
  fix d a c e d' a' c' assume "ok c \<and> host c" "transfer_attempt io request d a c = ((e, d', a'), c')"
  then have "restored e c'" using attempt_restored by blast
  then show "if e = ESP_OK \<and> a' = AIRDAP_SWD_ACK_WAIT then ok c' \<and> host c'
      else restored (fst (fst ((e, d', a'), c'))) (snd ((e, d', a'), c'))"
    by (simp add: restored_def)
qed (use assms in \<open>simp_all add: restored_def\<close>)

lemma transfer_restored:
  assumes "ok c" "host c" "airdap_swd_protocol_transfer (Some io) request d retries a c = Some ((e, d', a'), c')"
  shows "restored e c'"
  using assms(3) retry_restored [OF assms(1,2)] assms(1,2)
  by (fastforce simp: airdap_swd_protocol_transfer_def bind_eq_Some_conv restored_def split: if_splits)

lemma connect_reset_restored:
  assumes "ok c" "connect_line_reset io c = (e, c')"
  shows "ok c' \<and> (e = ESP_OK \<longrightarrow> host c')"
proof -
  have w: "(ok c1 \<and> host c1 \<and> 2 \<le> n \<and> n \<le> 64) \<and> the (io_write_bits io) b n c1 = (e1, c2) \<Longrightarrow> ok c2 \<and> host c2" for b n c1 e1 c2
    using bus_write by blast
  obtain e1 c1 where s: "the (io_set_host_output io) True c = (e1, c1)" by fastforce
  obtain e2 c2 where w1: "the (io_write_bits io) (- 1) 64 c1 = (e2, c2)" by fastforce
  obtain e3 c3 where w2: "the (io_write_bits io) 0xE79E 16 c2 = (e3, c3)" by fastforce
  obtain e4 c4 where w3: "the (io_write_bits io) (push_bit 56 1 - 1) 56 c3 = (e4, c4)" by fastforce
  obtain e5 c5 where w4: "the (io_write_bits io) 0 8 c4 = (e5, c5)" by fastforce
  have c1: "ok c1 \<and> (e1 = ESP_OK \<longrightarrow> host c1)" using bus_set [OF assms(1) s] by auto
  then have c2: "e1 = ESP_OK \<Longrightarrow> ok c2 \<and> host c2" using bus_write [OF _ _ _ _ w1] by auto
  then have c3: "e1 = ESP_OK \<Longrightarrow> ok c3 \<and> host c3" using bus_write [OF _ _ _ _ w2] by auto
  then have c4: "e1 = ESP_OK \<Longrightarrow> ok c4 \<and> host c4" using bus_write [OF _ _ _ _ w3] by auto
  then have c5: "e1 = ESP_OK \<Longrightarrow> ok c5 \<and> host c5" using bus_write [OF _ _ _ _ w4] by auto
  show ?thesis
    using assms(2) s w1 w2 w3 w4 c1 c2 c3 c4 c5
    by (auto simp: connect_line_reset_def and_then_def split: if_splits)
qed

end

section \<open>A monitor on the line\<close>

text \<open>
  Any line callbacks with a monitor in front: it follows the direction of the successful direction
  changes, notes a failed one, and notes a violation when the host writes while the target owns
  the line, reads while it owns the line itself, asks for a turnaround to the side that already
  owns the line, or asks for a transaction the SPI peripheral cannot do.
\<close>

record 'c monitored =
  mo_line :: 'c
  mo_host :: bool
  mo_ok :: bool
  mo_failed :: bool

definition monitor_direction :: "bool \<Rightarrow> esp_err \<times> 'c \<Rightarrow> 'c monitored \<Rightarrow> esp_err \<times> 'c monitored" where
  "monitor_direction h r m = (case r of (e, c) \<Rightarrow> (e, m\<lparr>mo_line := c,
     mo_host := (if e = ESP_OK then h else mo_host m), mo_failed := (mo_failed m \<or> e \<noteq> ESP_OK)\<rparr>))"

definition monitored_io :: "'c airdap_swd_io \<Rightarrow> 'c monitored airdap_swd_io" where
  "monitored_io io = \<lparr>io_idle_cycles = io_idle_cycles io, io_data_phase = io_data_phase io,
     io_set_host_output = Some (\<lambda>h m.
       monitor_direction h (the (io_set_host_output io) h (mo_line m)) m),
     io_write_bits = Some (\<lambda>b n m. case the (io_write_bits io) b n (mo_line m) of (e, c) \<Rightarrow>
       (e, m\<lparr>mo_line := c, mo_ok := (mo_ok m \<and> mo_host m \<and> 2 \<le> n \<and> n \<le> 64)\<rparr>)),
     io_read_bits = Some (\<lambda>n v m. case the (io_read_bits io) n v (mo_line m) of (r, c) \<Rightarrow>
       (r, m\<lparr>mo_line := c, mo_ok := (mo_ok m \<and> \<not> mo_host m \<and> 0 < n \<and> n \<le> 64)\<rparr>)),
     io_turnaround = Some (\<lambda>h m. monitor_direction h (the (io_turnaround io) h (mo_line m))
       (m\<lparr>mo_ok := (mo_ok m \<and> mo_host m \<noteq> h)\<rparr>))\<rparr>"

interpretation monitored: swd_bus "monitored_io io" mo_host mo_ok mo_failed for io
  by unfold_locales (auto simp: monitored_io_def monitor_direction_def split: prod.splits)


section \<open>Parity and the request byte\<close>

definition odd_parity :: "u32 \<Rightarrow> bool" where
  "odd_parity v \<longleftrightarrow> odd (card {i. bit v i})"

declare parity32_loop.simps [simp del]

lemma finite_bits: "finite {i. bit (v :: u32) i}"
  by (rule finite_subset [of _ "{..<32}"]) (auto dest: bit_imp_le_length)

lemma card_bits_drop: "card {i. bit (v :: u32) i} = (if odd v then 1 else 0) + card {i. bit (drop_bit 1 v) i}"
proof -
  have eq: "{i. bit v i} = (if odd v then {0} else {}) \<union> Suc ` {i. bit (drop_bit 1 v) i}"
    by (auto simp: bit_simps bit_0 image_iff) (metis bit_0 not0_implies_Suc)+
  show ?thesis unfolding eq
    by (subst card_Un_disjoint) (auto simp: card_image finite_bits)
qed

lemma parity32_loop_correct:
  "parity32_loop v p = p XOR (if odd_parity v then 1 else 0)"
proof (induction v p rule: parity32_loop.induct)
  case (1 v p)
  show ?case
  proof (cases "v = 0")
    case True
    then show ?thesis by (simp add: parity32_loop.simps odd_parity_def)
  next
    case False
    have "v AND 1 = (if odd v then 1 else 0)" by (simp add: and_one_eq mod2_eq_if)
    then show ?thesis
      using 1 [OF False] False card_bits_drop [of v]
      by (simp add: parity32_loop.simps [of v p] odd_parity_def ac_simps)
  qed
qed

lemma parity32_correct: "parity32 v = (if odd_parity v then 1 else 0)"
  by (simp add: parity32_def parity32_loop_correct)

lemma valid_address_cases:
  "(a :: u8) \<le> 0xC \<Longrightarrow> a AND 3 = 0 \<Longrightarrow> a \<in> {0, 4, 8, 12}"
proof -
  assume a: "a \<le> 0xC" "a AND 3 = 0"
  then have "unat a \<le> 12" by (simp add: word_le_nat_alt)
  then have "unat a \<in> set [0..<13]" by simp
  then have "a \<in> of_nat ` set [0..<13]" by (metis image_eqI of_nat_unat ucast_id)
  then show ?thesis using a(2) by (auto simp: upt_rec)
qed

definition decode_request :: "u64 \<Rightarrow> airdap_swd_request option" where
  "decode_request b =
     (if bit b 0 \<and> \<not> bit b 6 \<and> bit b 7 \<and> (bit b 5 \<longleftrightarrow> odd (length (filter (bit b) [1, 2, 3, 4])))
      then Some \<lparr>rq_port = (if bit b 1 then 1 else 0), rq_direction = (if bit b 2 then 1 else 0),
        rq_address = (if bit b 3 then 4 else 0) + (if bit b 4 then 8 else 0)\<rparr>
      else None)"

lemma decode_encode_all:
  "\<forall>p\<in>set [0, 1]. \<forall>d\<in>set [0, 1]. \<forall>a\<in>set [0, 4, 8, 12].
     decode_request (ucast (airdap_swd_encode_request \<lparr>rq_port = p, rq_direction = d, rq_address = a\<rparr>)) =
     Some \<lparr>rq_port = p, rq_direction = d, rq_address = a\<rparr>"
  by code_simp

lemma decode_encode_request:
  assumes "request_is_valid (Some r)"
  shows "decode_request (ucast (airdap_swd_encode_request r)) = Some r"
proof -
  have "rq_port r \<in> set [0, 1]" "rq_direction r \<in> set [0, 1]" "rq_address r \<in> set [0, 4, 8, 12]"
    using assms valid_address_cases [of "rq_address r"] by (auto simp: request_is_valid_def)
  from decode_encode_all [rule_format, OF this] show ?thesis by (cases r) simp
qed

section \<open>A target\<close>

text \<open>
  The reference: a debug port that follows the SWD packet format. It answers each request with the
  next acknowledgement of its script and, when the script is empty, with OK. Only a request byte
  with correct framing and parity starts a packet, only a data word with correct parity is
  written, and any access out of turn ends in \<open>Lost\<close>.
\<close>

datatype target_phase =
    Listening
  | Requested airdap_swd_request
  | Answering airdap_swd_request
  | Reading airdap_swd_request
  | Write_turn airdap_swd_request
  | Writing airdap_swd_request
  | Idle_turn
  | Lost

record swd_target =
  tg_phase :: target_phase
  tg_regs :: "u32 \<times> u8 \<Rightarrow> u32"
  tg_acks :: "u32 list"

definition register_of :: "airdap_swd_request \<Rightarrow> u32 \<times> u8" where
  "register_of r = (rq_port r, rq_address r)"

definition target_write :: "u64 \<Rightarrow> nat \<Rightarrow> swd_target \<Rightarrow> esp_err \<times> swd_target" where
  "target_write b n t = (ESP_OK, case tg_phase t of
     Listening \<Rightarrow>
       if b = 0 then t
       else (case decode_request b of
               Some r \<Rightarrow> t\<lparr>tg_phase := (if n = 8 then Requested r else Lost)\<rparr>
             | None \<Rightarrow> t\<lparr>tg_phase := Lost\<rparr>)
   | Writing r \<Rightarrow>
       if n = 40 \<and> (bit b 33 \<longleftrightarrow> odd_parity (ucast (drop_bit 1 b)))
       then t\<lparr>tg_phase := Listening, tg_regs := (tg_regs t)(register_of r := ucast (drop_bit 1 b))\<rparr>
       else t\<lparr>tg_phase := Lost\<rparr>
   | _ \<Rightarrow> t\<lparr>tg_phase := Lost\<rparr>)"

definition target_turn :: "bool \<Rightarrow> swd_target \<Rightarrow> esp_err \<times> swd_target" where
  "target_turn host t = (ESP_OK, t\<lparr>tg_phase := (case (tg_phase t, host) of
     (Requested r, False) \<Rightarrow> Answering r
   | (Write_turn r, True) \<Rightarrow> Writing r
   | (Idle_turn, True) \<Rightarrow> Listening
   | _ \<Rightarrow> Lost)\<rparr>)"

definition word_with_parity :: "u32 \<Rightarrow> u64" where
  "word_with_parity v = ucast v OR push_bit 32 (if odd_parity v then 1 else 0)"

definition target_read :: "nat \<Rightarrow> u64 \<Rightarrow> swd_target \<Rightarrow> (esp_err \<times> u64) \<times> swd_target" where
  "target_read n v t = (case tg_phase t of
     Answering r \<Rightarrow>
       (case tg_acks t of
          [] \<Rightarrow> ((ESP_OK, ucast AIRDAP_SWD_ACK_OK),
             t\<lparr>tg_phase := (if n \<noteq> 3 then Lost else if rq_direction r = AIRDAP_SWD_READ then Reading r
                            else Write_turn r)\<rparr>)
        | a # acks \<Rightarrow> ((ESP_OK, ucast a), t\<lparr>tg_phase := (if n = 3 then Idle_turn else Lost), tg_acks := acks\<rparr>))
   | Reading r \<Rightarrow>
       ((ESP_OK, word_with_parity (tg_regs t (register_of r))),
        t\<lparr>tg_phase := (if n = 33 then Idle_turn else Lost)\<rparr>)
   | _ \<Rightarrow> ((ESP_OK, v), t\<lparr>tg_phase := Lost\<rparr>))"

definition target_io :: "u8 \<Rightarrow> swd_target airdap_swd_io" where
  "target_io idle = \<lparr>io_idle_cycles = idle, io_data_phase = False,
     io_set_host_output = Some (\<lambda>h t. (ESP_OK, t)), io_write_bits = Some target_write,
     io_read_bits = Some target_read, io_turnaround = Some target_turn\<rparr>"

lemma target_io_sel [simp]:
  "io_idle_cycles (target_io i) = i" "\<not> io_data_phase (target_io i)"
  "io_write_bits (target_io i) = Some target_write" "io_read_bits (target_io i) = Some target_read"
  "io_turnaround (target_io i) = Some target_turn" "io_is_valid (Some (target_io i))"
  by (simp_all add: target_io_def io_is_valid_def)

lemma target_idle: "tg_phase t = Listening \<Longrightarrow> idle_loop target_write n t = (ESP_OK, t)"
proof (induction target_write n t rule: idle_loop.induct)
  case (1 r t)
  then show ?case by (simp add: idle_loop.simps [of _ r t] target_write_def)
qed

lemma target_write_idle: "tg_phase t = Listening \<Longrightarrow> write_idle_cycles (target_io i) n t = (ESP_OK, t)"
  by (simp add: write_idle_cycles_def target_idle)

lemma target_restore:
  "tg_phase t = Idle_turn \<Longrightarrow> restore_host_and_idle (target_io i) t = (ESP_OK, t\<lparr>tg_phase := Listening\<rparr>)"
  by (simp add: restore_host_and_idle_def and_then_def target_write_idle target_turn_def)

lemma read_word_parity:
  "(ucast (word_with_parity v) :: u32) = v"
  "(ucast (drop_bit 32 (word_with_parity v) AND 1) :: u32) = parity32 v"
  unfolding word_with_parity_def by (rule bit_word_eqI, auto simp: bit_simps parity32_correct dest: bit_imp_le_length)+

lemma bit_push_bit_1: "bit (push_bit 1 (w :: u64)) (Suc n) \<longleftrightarrow> bit w n \<and> n < 63"
  by (simp only: bit_push_bit_iff) auto

lemma write_word_parity:
  fixes v :: u32
  defines "w \<equiv> ucast v OR push_bit 32 (ucast (parity32 v)) :: u64"
  shows "ucast (drop_bit 1 (push_bit 1 w)) = v" "bit (push_bit 1 w) 33 \<longleftrightarrow> odd_parity v"
proof -
  show "ucast (drop_bit 1 (push_bit 1 w)) = v"
  proof (rule bit_word_eqI)
    fix n assume "n < LENGTH(32)"
    then show "bit (ucast (drop_bit 1 (push_bit 1 w)) :: u32) n = bit v n"
      by (simp only: bit_ucast_iff bit_drop_bit_eq comp_def plus_1_eq_Suc bit_push_bit_1) (auto simp: w_def bit_simps)
  qed
  have suc33: "Suc 32 = 33" by simp
  have "bit (push_bit 1 w) 33 \<longleftrightarrow> bit w 32 \<and> 32 < (63::nat)"
    using bit_push_bit_1 [of w 32] by (simp only: suc33)
  then show "bit (push_bit 1 w) 33 \<longleftrightarrow> odd_parity v"
    by (auto simp: w_def bit_simps parity32_correct dest: bit_imp_le_length [of v])
qed

lemma target_request:
  assumes "request_is_valid (Some r)" "tg_phase t = Listening"
  shows "target_write (ucast (airdap_swd_encode_request r)) 8 t = (ESP_OK, t\<lparr>tg_phase := Requested r\<rparr>)"
proof -
  have "ucast (airdap_swd_encode_request r) \<noteq> (0 :: u64)"
    using decode_encode_request [OF assms(1)] by (auto simp: decode_request_def)
  then show ?thesis using assms(2) decode_encode_request [OF assms(1)] by (simp add: target_write_def)
qed

lemma same_phase: "tg_phase t = p \<Longrightarrow> t\<lparr>tg_phase := p\<rparr> = t"
  by (cases t) simp

lemma target_attempt_wait:
  assumes "request_is_valid (Some r)" "tg_phase t = Listening" "tg_acks t = AIRDAP_SWD_ACK_WAIT # acks"
  shows "transfer_attempt (target_io i) r d a t = ((ESP_OK, d, AIRDAP_SWD_ACK_WAIT), t\<lparr>tg_acks := acks\<rparr>)"
  using assms
  by (simp add: transfer_attempt_def target_request target_turn_def target_read_def complete_error_data_phase_def
      target_restore same_phase)

lemma target_attempt_read:
  assumes "request_is_valid (Some r)" "tg_phase t = Listening" "tg_acks t = []" "rq_direction r = AIRDAP_SWD_READ"
  shows "transfer_attempt (target_io i) r d a t = ((ESP_OK, tg_regs t (register_of r), AIRDAP_SWD_ACK_OK), t)"
  using assms
  by (simp add: transfer_attempt_def target_request target_turn_def target_read_def read_data_def Let_def
      target_restore same_phase read_word_parity)

lemma target_attempt_write:
  assumes "request_is_valid (Some r)" "tg_phase t = Listening" "tg_acks t = []" "rq_direction r = AIRDAP_SWD_WRITE"
  shows "transfer_attempt (target_io i) r d a t =
    ((ESP_OK, d, AIRDAP_SWD_ACK_OK), t\<lparr>tg_regs := (tg_regs t)(register_of r := d)\<rparr>)"
proof -
  have "target_write (push_bit 1 (ucast d OR push_bit 32 (ucast (parity32 d)))) 40 (t\<lparr>tg_phase := Writing r\<rparr>) =
      (ESP_OK, t\<lparr>tg_regs := (tg_regs t)(register_of r := d)\<rparr>)"
    using write_word_parity [of d] assms(2)
    by (cases t) (simp add: target_write_def del: push_bit_of_1)
  then show ?thesis
    using assms
    by (simp add: transfer_attempt_def target_request target_turn_def target_read_def write_data_def
      write_data_phase_and_idle_def and_then_def target_write_idle)
qed

section \<open>Retries\<close>

lemma word_succ_le:
  assumes "unat (x :: u32) + k \<le> unat y" "0 < k"
  shows "unat (x + 1) = unat x + 1" "x \<le> y"
proof -
  have "unat x + 1 < 2 ^ 32" using assms unat_u32_less [of y] by simp
  then show "unat (x + 1) = unat x + 1" by (simp add: unat_word_ariths)
  show "x \<le> y" using assms by (simp add: word_le_nat_alt)
qed

definition served :: "airdap_swd_request \<Rightarrow> u32 \<Rightarrow> swd_target \<Rightarrow> u32 \<times> swd_target" where
  "served r d t =
     (if rq_direction r = AIRDAP_SWD_READ then (tg_regs t (register_of r), t)
      else (d, t\<lparr>tg_regs := (tg_regs t)(register_of r := d)\<rparr>))"

lemma target_attempt_ok:
  assumes "request_is_valid (Some r)" "tg_phase t = Listening" "tg_acks t = []" "served r d t = (d', t')"
  shows "transfer_attempt (target_io i) r d a t = ((ESP_OK, d', AIRDAP_SWD_ACK_OK), t')"
  using assms target_attempt_read [OF assms(1-3)] target_attempt_write [OF assms(1-3)]
  by (auto simp: served_def request_is_valid_def split: if_splits)

lemma target_retry_served:
  assumes "request_is_valid (Some r)"
  shows "tg_phase t = Listening \<Longrightarrow> tg_acks t = replicate k AIRDAP_SWD_ACK_WAIT \<Longrightarrow>
    unat attempt + k \<le> unat retries \<Longrightarrow> served r d (t\<lparr>tg_acks := []\<rparr>) = (d', t') \<Longrightarrow>
    transfer_retry (target_io i) r retries attempt d a t = Some ((ESP_OK, d', AIRDAP_SWD_ACK_OK), t')"
proof (induction k arbitrary: attempt a t)
  case 0
  then have "t\<lparr>tg_acks := []\<rparr> = t" "attempt \<le> retries" by (cases t, auto simp: word_le_nat_alt)
  with 0 have "transfer_attempt (target_io i) r d a t = ((ESP_OK, d', AIRDAP_SWD_ACK_OK), t')"
    by (intro target_attempt_ok assms) auto
  then show ?case using \<open>attempt \<le> retries\<close> by (simp add: transfer_retry.simps [of _ _ _ attempt])
next
  case (Suc k)
  note next_attempt = word_succ_le [OF Suc.prems(3)]
  have "transfer_retry (target_io i) r retries (attempt + 1) d AIRDAP_SWD_ACK_WAIT
      (t\<lparr>tg_acks := replicate k AIRDAP_SWD_ACK_WAIT\<rparr>) = Some ((ESP_OK, d', AIRDAP_SWD_ACK_OK), t')"
    using Suc.prems next_attempt by (intro Suc.IH) auto
  then show ?case
    using Suc.prems next_attempt target_attempt_wait [OF assms Suc.prems(1)]
    by (simp add: transfer_retry.simps [of _ _ _ attempt])
qed

lemma target_retry_gives_up:
  assumes "request_is_valid (Some r)" "retries \<noteq> UINT32_MAX"
  shows "tg_phase t = Listening \<Longrightarrow> tg_acks t = replicate (n + k) AIRDAP_SWD_ACK_WAIT \<Longrightarrow>
    unat attempt + n = unat retries + 1 \<Longrightarrow> 0 < n \<Longrightarrow>
    transfer_retry (target_io i) r retries attempt d a t =
      Some ((ESP_OK, d, AIRDAP_SWD_ACK_WAIT), t\<lparr>tg_acks := replicate k AIRDAP_SWD_ACK_WAIT\<rparr>)"
proof (induction n arbitrary: attempt a t)
  case (Suc n)
  have le: "attempt \<le> retries" using Suc.prems(3) by (simp add: word_le_nat_alt)
  have "unat retries \<noteq> unat UINT32_MAX" using assms(2) by (simp add: word_unat_eq_iff)
  moreover have "unat retries < 2 ^ 32" using unat_u32_less [of retries] by simp
  ultimately have "unat attempt + 1 < 2 ^ 32" using Suc.prems(3) by (simp add: UINT32_MAX_def)
  then have succ: "unat (attempt + 1) = unat attempt + 1" by (simp add: unat_word_ariths)
  show ?case
  proof (cases "n = 0")
    case True
    then have "\<not> attempt + 1 \<le> retries" using Suc.prems(3) succ by (simp add: word_le_nat_alt)
    then show ?thesis
      using True le target_attempt_wait [OF assms(1) Suc.prems(1)] Suc.prems(2)
      by (simp add: transfer_retry.simps [of _ _ _ attempt] transfer_retry.simps [of _ _ _ "attempt + 1"])
  next
    case False
    have "transfer_retry (target_io i) r retries (attempt + 1) d AIRDAP_SWD_ACK_WAIT
        (t\<lparr>tg_acks := replicate (n + k) AIRDAP_SWD_ACK_WAIT\<rparr>) =
      Some ((ESP_OK, d, AIRDAP_SWD_ACK_WAIT), t\<lparr>tg_acks := replicate k AIRDAP_SWD_ACK_WAIT\<rparr>)"
      using Suc.IH [of "t\<lparr>tg_acks := replicate (n + k) AIRDAP_SWD_ACK_WAIT\<rparr>" "attempt + 1"] Suc.prems False succ by simp
    then show ?thesis
      using le target_attempt_wait [OF assms(1) Suc.prems(1)] Suc.prems(2)
      by (simp add: transfer_retry.simps [of _ _ _ attempt])
  qed
qed simp

lemma read_data_keeps: "read_data io d c = ((e, d'), c') \<Longrightarrow> e \<noteq> ESP_OK \<Longrightarrow> d' = d"
  by (auto simp: read_data_def Let_def split: prod.splits if_splits)

lemma attempt_keeps_data:
  assumes "transfer_attempt io r d a c = ((e, d', a'), c')"
    "e \<noteq> ESP_OK \<or> a' \<noteq> AIRDAP_SWD_ACK_OK \<or> rq_direction r = AIRDAP_SWD_WRITE"
  shows "d' = d"
  using assms
  by (auto simp: transfer_attempt_def Let_def dest: read_data_keeps split: prod.splits if_splits)


text \<open>C33. End to end with a target that follows the packet format: a valid request on a line with any
  number of idle cycles is served once the target stops answering WAIT, as long as the retry count
  allows it; a read then returns the register, a write has stored exactly the caller's word, and
  the target is listening for the next request.\<close>

theorem swd_transfer_served:
  assumes "request_is_valid (Some r)" "tg_phase t = Listening"
    "tg_acks t = replicate k AIRDAP_SWD_ACK_WAIT" "k \<le> unat retries"
    "served r d (t\<lparr>tg_acks := []\<rparr>) = (d', t')"
  shows "airdap_swd_protocol_transfer (Some (target_io idle)) (Some r) (Some d) retries (Some a) t =
    Some ((ESP_OK, Some d', Some AIRDAP_SWD_ACK_OK), t')"
  using target_retry_served [OF assms(1-3) _ assms(5), of 0 retries idle a] assms(1,4)
  by (simp add: airdap_swd_protocol_transfer_def)

text \<open>C36. The retry loop ends: for every line and every retry count but \<^verbatim>\<open>UINT_MAX\<close> a transfer returns, and
  a target that keeps answering WAIT is given up after exactly one attempt more than the retry
  count, with ACK WAIT, the caller's word and the target's registers unchanged.\<close>

theorem swd_retries_bounded:
  assumes "retries \<noteq> UINT32_MAX"
  shows "(\<exists>y. airdap_swd_protocol_transfer io request data retries ack c = Some y) \<and>
    (request_is_valid (Some r) \<and> tg_phase t = Listening \<and>
       tg_acks t = replicate (unat retries + 1 + k) AIRDAP_SWD_ACK_WAIT \<longrightarrow>
     airdap_swd_protocol_transfer (Some (target_io idle)) (Some r) (Some d) retries (Some a) t =
       Some ((ESP_OK, Some d, Some AIRDAP_SWD_ACK_WAIT), t\<lparr>tg_acks := replicate k AIRDAP_SWD_ACK_WAIT\<rparr>))"
proof -
  have "\<exists>y. airdap_swd_protocol_transfer io request data retries ack c = Some y"
    using transfer_retry_total [OF assms, of "the io" "the request" 0 "the data" "the ack" c]
    by (auto simp: airdap_swd_protocol_transfer_def)
  moreover have "airdap_swd_protocol_transfer (Some (target_io idle)) (Some r) (Some d) retries (Some a) t =
       Some ((ESP_OK, Some d, Some AIRDAP_SWD_ACK_WAIT), t\<lparr>tg_acks := replicate k AIRDAP_SWD_ACK_WAIT\<rparr>)"
    if "request_is_valid (Some r)" "tg_phase t = Listening"
      "tg_acks t = replicate (unat retries + 1 + k) AIRDAP_SWD_ACK_WAIT"
    using target_retry_gives_up [OF that(1) assms that(2,3), of 0 idle d a] that(1)
    by (simp add: airdap_swd_protocol_transfer_def)
  ultimately show ?thesis by blast
qed

text \<open>
  With the largest retry count the loop condition \<^verbatim>\<open>attempt <= wait_retries\<close> is always true, so
  against a line that always answers WAIT the transfer does not return. The firmware's callers
  pass 16-bit counts or small constants.
\<close>

definition waiting_io :: "unit airdap_swd_io" where
  "waiting_io = \<lparr>io_idle_cycles = 0, io_data_phase = False, io_set_host_output = Some (\<lambda>h c. (ESP_OK, c)),
     io_write_bits = Some (\<lambda>b n c. (ESP_OK, c)), io_read_bits = Some (\<lambda>n v c. ((ESP_OK, 2), c)),
     io_turnaround = Some (\<lambda>h c. (ESP_OK, c))\<rparr>"

lemma waiting_idle: "idle_loop (\<lambda>b n c. (ESP_OK, c)) r (c :: 'c) = (ESP_OK, c)"
proof (induction "\<lambda>(b :: u64) (n :: nat) (c :: 'c). (ESP_OK, c)" r c rule: idle_loop.induct)
  case (1 r c)
  then show ?case by (simp add: idle_loop.simps [of _ r c])
qed

theorem swd_endless_wait:
  assumes "request_is_valid (Some r)"
  shows "airdap_swd_protocol_transfer (Some waiting_io) (Some r) (Some d) UINT32_MAX (Some a) () = None"
proof -
  have attempt: "transfer_attempt waiting_io r d a () = ((ESP_OK, d, 2), ())" for d a
    by (simp add: transfer_attempt_def complete_error_data_phase_def restore_host_and_idle_def and_then_def
        write_idle_cycles_def waiting_io_def waiting_idle)
  have "transfer_retry waiting_io r UINT32_MAX 0 d a () \<noteq> Some y" for y
  proof
    assume "transfer_retry waiting_io r UINT32_MAX 0 d a () = Some y"
    then show False by (rule transfer_retry_rule [where I = "\<lambda>d a c. True"]) (auto simp: attempt)
  qed
  then have "transfer_retry waiting_io r UINT32_MAX 0 d a () = None" by (metis not_None_eq)
  then show ?thesis using assms
    by (simp add: airdap_swd_protocol_transfer_def) (simp add: waiting_io_def io_is_valid_def)
qed

section \<open>Witnesses\<close>

definition sample_target :: swd_target where
  "sample_target = \<lparr>tg_phase = Listening, tg_regs = (\<lambda>_. 0x2BA01477), tg_acks = [2, 2]\<rparr>"

lemma connect_request_valid: "request_is_valid (Some connect_request)"
  by (simp add: request_is_valid_def connect_request_def)

lemma sample_target_sel [simp]:
  "tg_phase sample_target = Listening" "tg_acks sample_target = replicate 2 2"
  by (simp_all add: sample_target_def numeral_2_eq_2)

theorem swd_transfer_served_witness:
  "airdap_swd_protocol_transfer (Some (target_io 8)) (Some connect_request) (Some 0) 5 (Some 0) sample_target =
    Some ((ESP_OK, Some 0x2BA01477, Some 1), sample_target\<lparr>tg_acks := []\<rparr>)"
  by (rule swd_transfer_served [OF connect_request_valid, where k = 2])
    (simp_all add: served_def connect_request_def, simp add: sample_target_def)

theorem swd_retries_bounded_witness:
  "(\<exists>y. airdap_swd_protocol_transfer (Some waiting_io) (Some connect_request) (Some 0) 7 (Some 0) () = Some y) \<and>
    airdap_swd_protocol_transfer (Some (target_io 0)) (Some connect_request) (Some 9) 0 (Some 0) sample_target =
       Some ((ESP_OK, Some 9, Some 2), sample_target\<lparr>tg_acks := [2]\<rparr>)"
proof -
  have "(7 :: u32) \<noteq> UINT32_MAX" "(0 :: u32) \<noteq> UINT32_MAX" by (simp_all add: UINT32_MAX_def)
  note z = this
  have "\<exists>y. airdap_swd_protocol_transfer (Some waiting_io) (Some connect_request) (Some 0) 7 (Some 0) () = Some y"
    by (rule swd_retries_bounded [OF z(1), THEN conjunct1])
  moreover have "airdap_swd_protocol_transfer (Some (target_io 0)) (Some connect_request) (Some 9) 0 (Some 0) sample_target =
       Some ((ESP_OK, Some 9, Some 2), sample_target\<lparr>tg_acks := replicate 1 2\<rparr>)"
    by (rule swd_retries_bounded [OF z(2), THEN conjunct2, rule_format])
      (simp add: connect_request_valid numeral_2_eq_2)
  ultimately show ?thesis by simp
qed



end
