(* ===== verification/Swd_Engine.thy ===== *)
theory Swd_Engine
  imports Swd_Protocol
begin

text \<open>
  The SWD engine, \<^verbatim>\<open>firmware/components/swd_engine/swd_engine.c\<close>: the driver that runs the packet
  protocol over the SPI peripheral and the direction pin. The ESP-IDF calls (GPIO, SPI master,
  delay) are the fields of a record over an arbitrary hardware state; everything the engine itself
  keeps is the record \<open>swd_engine\<close>.
\<close>

section \<open>Data\<close>

datatype swd_pin = PIN_SWDIO_DIR | PIN_TARGET_SWCLK | PIN_TARGET_SWDIO

text \<open>
  The driver calls. \<open>hw_spi_tx\<close> and \<open>hw_spi_rx\<close> are \<^verbatim>\<open>spi_device_polling_transmit\<close> with a transmit or a
  receive transaction of some bits on a device handle; the receive call is given the buffer and
  returns it filled. \<open>hw_add_device\<close> is given and returns the handle variable.
\<close>

record 'h swd_hw =
  hw_gpio_set_level :: "swd_pin \<Rightarrow> bool \<Rightarrow> 'h \<Rightarrow> esp_err \<times> 'h"
  hw_gpio_get_level :: "swd_pin \<Rightarrow> 'h \<Rightarrow> int \<times> 'h"
  hw_gpio_config :: "'h \<Rightarrow> esp_err \<times> 'h"
  hw_gpio_reset_pin :: "swd_pin \<Rightarrow> 'h \<Rightarrow> esp_err \<times> 'h"
  hw_spi_tx :: "nat option \<Rightarrow> bytes \<Rightarrow> nat \<Rightarrow> 'h \<Rightarrow> esp_err \<times> 'h"
  hw_spi_rx :: "nat option \<Rightarrow> bytes \<Rightarrow> nat \<Rightarrow> 'h \<Rightarrow> (esp_err \<times> bytes) \<times> 'h"
  hw_bus_initialize :: "'h \<Rightarrow> esp_err \<times> 'h"
  hw_bus_free :: "'h \<Rightarrow> esp_err \<times> 'h"
  hw_add_device :: "u32 \<Rightarrow> nat option \<Rightarrow> 'h \<Rightarrow> (esp_err \<times> nat option) \<times> 'h"
  hw_remove_device :: "nat option \<Rightarrow> 'h \<Rightarrow> esp_err \<times> 'h"
  hw_delay_us :: "u32 \<Rightarrow> 'h \<Rightarrow> 'h"

record 'h swd_engine =
  en_spi :: "nat option"
  en_wait_retries :: u32
  en_idle_cycles :: u8
  en_turnaround_cycles :: u8
  en_data_phase :: bool
  en_clock_hz :: u32
  en_initialized :: bool
  en_host_output :: bool
  en_manual_pin_values :: u8
  en_tx_buffer :: bytes
  en_rx_buffer :: bytes
  en_hw :: 'h

abbreviation (input) AIRDAP_SWD_MIN_CLOCK_HZ :: u32 where "AIRDAP_SWD_MIN_CLOCK_HZ \<equiv> 100000"
abbreviation (input) AIRDAP_SWD_MAX_CLOCK_HZ :: u32 where "AIRDAP_SWD_MAX_CLOCK_HZ \<equiv> 10000000"
abbreviation (input) AIRDAP_SWJ_PIN_SWCLK :: u8 where "AIRDAP_SWJ_PIN_SWCLK \<equiv> 1"
abbreviation (input) AIRDAP_SWJ_PIN_SWDIO :: u8 where "AIRDAP_SWJ_PIN_SWDIO \<equiv> 2"

definition swd_engine_initial :: "'h \<Rightarrow> 'h swd_engine" where
  "swd_engine_initial h = \<lparr>en_spi = None, en_wait_retries = 100, en_idle_cycles = 8,
     en_turnaround_cycles = 1, en_data_phase = False, en_clock_hz = 0, en_initialized = False,
     en_host_output = False, en_manual_pin_values = AIRDAP_SWJ_PIN_SWDIO,
     en_tx_buffer = replicate 8 0, en_rx_buffer = replicate 8 0, en_hw = h\<rparr>"

text \<open>A driver call without a result besides its error code.\<close>

definition hw_call :: "('h \<Rightarrow> esp_err \<times> 'h) \<Rightarrow> 'h swd_engine \<Rightarrow> esp_err \<times> 'h swd_engine" where
  "hw_call f swd = (case f (en_hw swd) of (error, h) \<Rightarrow> (error, swd\<lparr>en_hw := h\<rparr>))"

text \<open>The bytes of a 64-bit value in memory (little endian), and back.\<close>

definition bytes_of_u64 :: "u64 \<Rightarrow> bytes" where
  "bytes_of_u64 v = map (\<lambda>i. ucast (drop_bit (8 * i) v)) [0..<8]"

definition u64_of_bytes :: "bytes \<Rightarrow> u64" where
  "u64_of_bytes b = foldr (\<lambda>x v. ucast x OR push_bit 8 v) b 0"

section \<open>Line callbacks\<close>

definition clock_is_valid :: "u32 \<Rightarrow> bool" where
  "clock_is_valid clock_hz \<longleftrightarrow> clock_hz \<ge> AIRDAP_SWD_MIN_CLOCK_HZ \<and> clock_hz \<le> AIRDAP_SWD_MAX_CLOCK_HZ"

definition set_host_output :: "'h swd_hw \<Rightarrow> bool \<Rightarrow> 'h swd_engine \<Rightarrow> esp_err \<times> 'h swd_engine" where
  "set_host_output hw enabled swd =
     (case hw_call (hw_gpio_set_level hw PIN_SWDIO_DIR enabled) swd of (error, swd) \<Rightarrow>
        (error, if error = ESP_OK then swd\<lparr>en_host_output := enabled\<rparr> else swd))"

definition write_bits :: "'h swd_hw \<Rightarrow> u64 \<Rightarrow> nat \<Rightarrow> 'h swd_engine \<Rightarrow> esp_err \<times> 'h swd_engine" where
  "write_bits hw bits bit_count swd =
     (if \<not> en_host_output swd \<or> bit_count = 0 \<or> bit_count > 64 then (ESP_ERR_INVALID_STATE, swd)
      else let swd = swd\<lparr>en_tx_buffer := take ((bit_count + 7) div 8) (bytes_of_u64 bits) @
                           replicate (8 - (bit_count + 7) div 8) 0\<rparr>
           in hw_call (hw_spi_tx hw (en_spi swd) (en_tx_buffer swd) bit_count) swd)"

definition read_bits ::
  "'h swd_hw \<Rightarrow> nat \<Rightarrow> u64 \<Rightarrow> 'h swd_engine \<Rightarrow> (esp_err \<times> u64) \<times> 'h swd_engine"
where
  "read_bits hw bit_count bits swd =
     (if en_host_output swd \<or> bit_count = 0 \<or> bit_count > 64 then ((ESP_ERR_INVALID_STATE, bits), swd)
      else case hw_spi_rx hw (en_spi swd) (replicate 8 0) bit_count (en_hw swd) of
        ((error, rx), h) \<Rightarrow>
          let swd = swd\<lparr>en_rx_buffer := rx, en_hw := h\<rparr> in
          if error \<noteq> ESP_OK then ((error, bits), swd)
          else let bits = u64_of_bytes (take ((bit_count + 7) div 8) rx) in
            ((ESP_OK, if bit_count < 64 then bits AND (push_bit bit_count 1 - 1) else bits), swd))"

definition turnaround :: "'h swd_hw \<Rightarrow> bool \<Rightarrow> 'h swd_engine \<Rightarrow> esp_err \<times> 'h swd_engine" where
  "turnaround hw host_output swd =
     (if host_output then
        (if en_host_output swd then (ESP_ERR_INVALID_STATE, swd)
         else case read_bits hw (unat (en_turnaround_cycles swd)) 0 swd of ((error, ignored), swd) \<Rightarrow>
           if error \<noteq> ESP_OK then (error, swd) else set_host_output hw True swd)
      else if \<not> en_host_output swd then (ESP_ERR_INVALID_STATE, swd)
      else case set_host_output hw False swd of (error, swd) \<Rightarrow>
        if error \<noteq> ESP_OK then (error, swd)
        else if en_turnaround_cycles swd = 1 then (ESP_OK, swd)
        else case read_bits hw (unat (en_turnaround_cycles swd - 1)) 0 swd of ((error, ignored), swd) \<Rightarrow>
          (error, swd))"

definition protocol_io :: "'h swd_hw \<Rightarrow> 'h swd_engine \<Rightarrow> 'h swd_engine airdap_swd_io" where
  "protocol_io hw swd = \<lparr>io_idle_cycles = en_idle_cycles swd, io_data_phase = en_data_phase swd,
     io_set_host_output = Some (set_host_output hw), io_write_bits = Some (write_bits hw),
     io_read_bits = Some (read_bits hw), io_turnaround = Some (turnaround hw)\<rparr>"

section \<open>Configuration\<close>

text \<open>Every \<^verbatim>\<open>add_spi_device(clock, &engine.spi)\<close> of the code.\<close>

definition add_spi_device :: "'h swd_hw \<Rightarrow> u32 \<Rightarrow> 'h swd_engine \<Rightarrow> esp_err \<times> 'h swd_engine" where
  "add_spi_device hw clock_hz swd =
     (case hw_add_device hw clock_hz (en_spi swd) (en_hw swd) of ((error, device), h) \<Rightarrow>
        (error, swd\<lparr>en_spi := device, en_hw := h\<rparr>))"

definition initialize_spi_bus :: "'h swd_hw \<Rightarrow> u32 \<Rightarrow> 'h swd_engine \<Rightarrow> esp_err \<times> 'h swd_engine" where
  "initialize_spi_bus hw clock_hz swd =
     (case hw_call (hw_bus_initialize hw) swd of (error, swd) \<Rightarrow>
        if error \<noteq> ESP_OK then (error, swd)
        else case add_spi_device hw clock_hz swd of (error, swd) \<Rightarrow>
          (error, if error \<noteq> ESP_OK then snd (hw_call (hw_bus_free hw) swd) else swd))"

definition airdap_swd_set_clock :: "'h swd_hw \<Rightarrow> u32 \<Rightarrow> 'h swd_engine \<Rightarrow> esp_err \<times> 'h swd_engine" where
  "airdap_swd_set_clock hw clock_hz swd =
     (if \<not> clock_is_valid clock_hz then (ESP_ERR_INVALID_ARG, swd)
      else if \<not> en_initialized swd then (ESP_ERR_INVALID_STATE, swd)
      else if en_clock_hz swd = clock_hz then (ESP_OK, swd)
      else and_then (set_host_output hw False swd) (\<lambda>swd.
        let previous_clock_hz = en_clock_hz swd in
        and_then (hw_call (hw_remove_device hw (en_spi swd)) swd) (\<lambda>swd.
          case add_spi_device hw clock_hz (swd\<lparr>en_spi := None\<rparr>) of (error, swd) \<Rightarrow>
            if error \<noteq> ESP_OK
            then (case add_spi_device hw previous_clock_hz swd of (restore_error, swd) \<Rightarrow>
              (error, if restore_error \<noteq> ESP_OK
                      then (snd (hw_call (hw_bus_free hw) swd))\<lparr>en_initialized := False\<rparr> else swd))
            else (ESP_OK, swd\<lparr>en_clock_hz := clock_hz\<rparr>))))"

definition airdap_swd_init :: "'h swd_hw \<Rightarrow> u32 \<Rightarrow> 'h swd_engine \<Rightarrow> esp_err \<times> 'h swd_engine" where
  "airdap_swd_init hw clock_hz swd =
     (if \<not> clock_is_valid clock_hz then (ESP_ERR_INVALID_ARG, swd)
      else if en_initialized swd then airdap_swd_set_clock hw clock_hz swd
      else and_then (set_host_output hw False swd) (\<lambda>swd.
        and_then (initialize_spi_bus hw clock_hz swd) (\<lambda>swd.
          (ESP_OK, swd\<lparr>en_clock_hz := clock_hz, en_initialized := True\<rparr>))))"

definition airdap_swd_set_wait_retries :: "u32 \<Rightarrow> 'h swd_engine \<Rightarrow> 'h swd_engine" where
  "airdap_swd_set_wait_retries wait_retries swd = swd\<lparr>en_wait_retries := wait_retries\<rparr>"

definition airdap_swd_configure_transfer :: "u8 \<Rightarrow> u32 \<Rightarrow> 'h swd_engine \<Rightarrow> esp_err \<times> 'h swd_engine" where
  "airdap_swd_configure_transfer idle_cycles wait_retries swd =
     (ESP_OK, swd\<lparr>en_idle_cycles := idle_cycles, en_wait_retries := wait_retries\<rparr>)"

definition airdap_swd_configure_bus :: "u8 \<Rightarrow> bool \<Rightarrow> 'h swd_engine \<Rightarrow> esp_err \<times> 'h swd_engine" where
  "airdap_swd_configure_bus turnaround_cycles data_phase swd =
     (if turnaround_cycles < 1 \<or> turnaround_cycles > 4 then (ESP_ERR_INVALID_ARG, swd)
      else (ESP_OK, swd\<lparr>en_turnaround_cycles := turnaround_cycles, en_data_phase := data_phase\<rparr>))"

definition airdap_swd_set_io_state :: "'h swd_hw \<Rightarrow> bool \<Rightarrow> 'h swd_engine \<Rightarrow> esp_err \<times> 'h swd_engine" where
  "airdap_swd_set_io_state hw host_output swd =
     (if \<not> en_initialized swd then (ESP_ERR_INVALID_STATE, swd)
      else if en_host_output swd = host_output then (ESP_OK, swd)
      else set_host_output hw host_output swd)"

section \<open>Sequences\<close>

definition chunk_bits :: "nat \<Rightarrow> nat \<Rightarrow> nat" where
  "chunk_bits bit_count bit_offset =
     (if bit_count - bit_offset > 64 then 64 else bit_count - bit_offset)"

function write_sequence_loop ::
  "'h swd_hw \<Rightarrow> bytes \<Rightarrow> nat \<Rightarrow> nat \<Rightarrow> 'h swd_engine \<Rightarrow> (esp_err \<times> 'h swd_engine) option"
where
  "write_sequence_loop hw data bit_count bit_offset swd =
     (if bit_offset < bit_count then
        (case rd_bytes data (bit_offset div 8) ((chunk_bits bit_count bit_offset + 7) div 8) of
           None \<Rightarrow> None
         | Some chunk \<Rightarrow>
             (case write_bits hw (u64_of_bytes chunk) (chunk_bits bit_count bit_offset) swd of (error, swd) \<Rightarrow>
                if error \<noteq> ESP_OK then Some (error, swd)
                else write_sequence_loop hw data bit_count (bit_offset + chunk_bits bit_count bit_offset) swd))
      else Some (ESP_OK, swd))"
  by pat_completeness auto
termination
  by (relation "measure (\<lambda>(hw, data, n, k, swd). n - k)") (auto simp: chunk_bits_def)

definition airdap_swd_write_sequence ::
  "'h swd_hw \<Rightarrow> bytes option \<Rightarrow> nat \<Rightarrow> 'h swd_engine \<Rightarrow> (esp_err \<times> 'h swd_engine) option"
where
  "airdap_swd_write_sequence hw data bit_count swd =
     (if \<not> en_initialized swd then Some (ESP_ERR_INVALID_STATE, swd)
      else if data = None \<or> bit_count = 0 then Some (ESP_ERR_INVALID_ARG, swd)
      else case airdap_swd_set_io_state hw True swd of (error, swd) \<Rightarrow>
        if error \<noteq> ESP_OK then Some (error, swd)
        else write_sequence_loop hw (the data) bit_count 0 swd)"

function read_sequence_loop ::
  "'h swd_hw \<Rightarrow> bytes \<Rightarrow> nat \<Rightarrow> nat \<Rightarrow> 'h swd_engine \<Rightarrow> ((esp_err \<times> bytes) \<times> 'h swd_engine) option"
where
  "read_sequence_loop hw data bit_count bit_offset swd =
     (if bit_offset < bit_count then
        (case read_bits hw (chunk_bits bit_count bit_offset) 0 swd of ((error, bits), swd) \<Rightarrow>
           if error \<noteq> ESP_OK then Some ((error, data), swd)
           else (case wr_bytes data (bit_offset div 8) (bytes_of_u64 bits)
                        ((chunk_bits bit_count bit_offset + 7) div 8) of
                   None \<Rightarrow> None
                 | Some data \<Rightarrow>
                     read_sequence_loop hw data bit_count (bit_offset + chunk_bits bit_count bit_offset) swd))
      else Some ((ESP_OK, data), swd))"
  by pat_completeness auto
termination
  by (relation "measure (\<lambda>(hw, data, n, k, swd). n - k)") (auto simp: chunk_bits_def)

definition airdap_swd_read_sequence ::
  "'h swd_hw \<Rightarrow> bytes option \<Rightarrow> nat \<Rightarrow> 'h swd_engine \<Rightarrow> ((esp_err \<times> bytes option) \<times> 'h swd_engine) option"
where
  "airdap_swd_read_sequence hw data bit_count swd =
     (if \<not> en_initialized swd then Some ((ESP_ERR_INVALID_STATE, data), swd)
      else if data = None \<or> bit_count = 0 then Some ((ESP_ERR_INVALID_ARG, data), swd)
      else case airdap_swd_set_io_state hw False swd of (error, swd) \<Rightarrow>
        if error \<noteq> ESP_OK then Some ((error, data), swd)
        else do {
          cleared \<leftarrow> wr_bytes (the data) 0 (replicate ((bit_count + 7) div 8) 0) ((bit_count + 7) div 8);
          ((error, buf), swd) \<leftarrow> read_sequence_loop hw cleared bit_count 0 swd;
          Some ((error, Some buf), swd) })"

section \<open>Manual pins\<close>

text \<open>
  The part of \<^verbatim>\<open>airdap_swd_drive_pins\<close> between taking the pins from the SPI peripheral and giving them
  back: the error so far, the sampled pins and the engine.
\<close>

definition drive_and_sample ::
  "'h swd_hw \<Rightarrow> u32 \<Rightarrow> u8 \<Rightarrow> 'h swd_engine \<Rightarrow> (esp_err \<times> u8) \<times> 'h swd_engine"
where
  "drive_and_sample hw wait_us pins swd =
     (let swd = snd (hw_call (hw_gpio_set_level hw PIN_TARGET_SWCLK
                  (en_manual_pin_values swd AND AIRDAP_SWJ_PIN_SWCLK \<noteq> 0)) swd);
          swd = snd (hw_call (hw_gpio_set_level hw PIN_TARGET_SWDIO
                  (en_manual_pin_values swd AND AIRDAP_SWJ_PIN_SWDIO \<noteq> 0)) swd);
          (error, swd) = and_then (hw_call (hw_gpio_config hw) swd) (set_host_output hw True);
          swd = (if error = ESP_OK \<and> wait_us > 0
                 then swd\<lparr>en_hw := hw_delay_us hw (if wait_us > 3000000 then 3000000 else wait_us) (en_hw swd)\<rparr>
                 else swd)
      in if error = ESP_OK then
           (case hw_gpio_get_level hw PIN_TARGET_SWCLK (en_hw swd) of (clk, h) \<Rightarrow>
            case hw_gpio_get_level hw PIN_TARGET_SWDIO h of (dio, h) \<Rightarrow>
              ((ESP_OK, (if clk \<noteq> 0 then AIRDAP_SWJ_PIN_SWCLK else 0) OR
                        (if dio \<noteq> 0 then AIRDAP_SWJ_PIN_SWDIO else 0)), swd\<lparr>en_hw := h\<rparr>))
         else ((error, pins), swd))"

definition airdap_swd_drive_pins ::
  "'h swd_hw \<Rightarrow> u8 \<Rightarrow> u8 \<Rightarrow> u32 \<Rightarrow> u8 option \<Rightarrow> 'h swd_engine \<Rightarrow> (esp_err \<times> u8 option) \<times> 'h swd_engine"
where
  "airdap_swd_drive_pins hw value select wait_us pins swd =
     (if \<not> en_initialized swd then ((ESP_ERR_INVALID_STATE, pins), swd)
      else if pins = None \<or> select AND NOT (AIRDAP_SWJ_PIN_SWCLK OR AIRDAP_SWJ_PIN_SWDIO) \<noteq> 0
      then ((ESP_ERR_INVALID_ARG, pins), swd)
      else let swd = swd\<lparr>en_manual_pin_values :=
                 (en_manual_pin_values swd AND NOT select) OR (value AND select)\<rparr> in
        case and_then (set_host_output hw False swd) (\<lambda>swd.
               and_then (hw_call (hw_remove_device hw (en_spi swd)) swd) (\<lambda>swd.
                 hw_call (hw_bus_free hw) (swd\<lparr>en_spi := None\<rparr>))) of (error, swd) \<Rightarrow>
        if error \<noteq> ESP_OK then ((error, pins), swd)
        else case drive_and_sample hw wait_us (the pins) swd of ((error, pins), swd) \<Rightarrow>
          let swd = snd (set_host_output hw False swd);
              swd = snd (hw_call (hw_gpio_reset_pin hw PIN_TARGET_SWCLK) swd);
              swd = snd (hw_call (hw_gpio_reset_pin hw PIN_TARGET_SWDIO) swd)
          in case initialize_spi_bus hw (en_clock_hz swd) swd of (restore_error, swd) \<Rightarrow>
            if restore_error \<noteq> ESP_OK
            then ((if error = ESP_OK then restore_error else error, Some pins), swd\<lparr>en_initialized := False\<rparr>)
            else case set_host_output hw True swd of (direction_error, swd) \<Rightarrow>
              ((if error \<noteq> ESP_OK then error else direction_error, Some pins), swd))"

section \<open>Transfers\<close>

definition airdap_swd_connect ::
  "'h swd_hw \<Rightarrow> u32 option \<Rightarrow> 'h swd_engine \<Rightarrow> ((esp_err \<times> u32 option) \<times> 'h swd_engine) option"
where
  "airdap_swd_connect hw idcode swd =
     (if \<not> en_initialized swd then Some ((ESP_ERR_INVALID_STATE, idcode), swd)
      else airdap_swd_protocol_connect (Some (protocol_io hw swd)) idcode swd)"

definition airdap_swd_transfer ::
  "'h swd_hw \<Rightarrow> airdap_swd_request option \<Rightarrow> u32 option \<Rightarrow> u32 option \<Rightarrow> 'h swd_engine \<Rightarrow>
   ((esp_err \<times> u32 option \<times> u32 option) \<times> 'h swd_engine) option"
where
  "airdap_swd_transfer hw request data ack swd =
     (if \<not> en_initialized swd then Some ((ESP_ERR_INVALID_STATE, data, ack), swd)
      else case (if \<not> en_host_output swd then set_host_output hw True swd else (ESP_OK, swd)) of
        (error, swd) \<Rightarrow>
          if error \<noteq> ESP_OK then Some ((error, data, ack), swd)
          else airdap_swd_protocol_transfer (Some (protocol_io hw swd)) request data
                 (en_wait_retries swd) ack swd)"

definition airdap_swd_read_dp ::
  "'h swd_hw \<Rightarrow> u8 \<Rightarrow> u32 option \<Rightarrow> u32 option \<Rightarrow> 'h swd_engine \<Rightarrow>
   ((esp_err \<times> u32 option \<times> u32 option) \<times> 'h swd_engine) option"
where
  "airdap_swd_read_dp hw address data ack swd = airdap_swd_transfer hw
     (Some \<lparr>rq_port = AIRDAP_SWD_PORT_DP, rq_direction = AIRDAP_SWD_READ, rq_address = address\<rparr>) data ack swd"

definition airdap_swd_write_dp ::
  "'h swd_hw \<Rightarrow> u8 \<Rightarrow> u32 \<Rightarrow> u32 option \<Rightarrow> 'h swd_engine \<Rightarrow>
   ((esp_err \<times> u32 option) \<times> 'h swd_engine) option"
where
  "airdap_swd_write_dp hw address data ack swd = do {
     ((error, data, ack), swd) \<leftarrow> airdap_swd_transfer hw
       (Some \<lparr>rq_port = AIRDAP_SWD_PORT_DP, rq_direction = AIRDAP_SWD_WRITE, rq_address = address\<rparr>)
       (Some data) ack swd;
     Some ((error, ack), swd) }"

text \<open>\<^verbatim>\<open>*ack\<close> is only read after a transfer that returned \<^const>\<open>ESP_OK\<close>, which rejects a NULL \<^verbatim>\<open>ack\<close>.\<close>

definition airdap_swd_read_ap ::
  "'h swd_hw \<Rightarrow> u8 \<Rightarrow> u32 option \<Rightarrow> u32 option \<Rightarrow> 'h swd_engine \<Rightarrow>
   ((esp_err \<times> u32 option \<times> u32 option) \<times> 'h swd_engine) option"
where
  "airdap_swd_read_ap hw address data ack swd = do {
     ((error, posted_data, ack), swd) \<leftarrow> airdap_swd_transfer hw
       (Some \<lparr>rq_port = AIRDAP_SWD_PORT_AP, rq_direction = AIRDAP_SWD_READ, rq_address = address\<rparr>)
       (Some 0) ack swd;
     if error \<noteq> ESP_OK \<or> ack \<noteq> Some AIRDAP_SWD_ACK_OK then Some ((error, data, ack), swd)
     else airdap_swd_read_dp hw 0xC data ack swd }"

definition airdap_swd_write_ap ::
  "'h swd_hw \<Rightarrow> u8 \<Rightarrow> u32 \<Rightarrow> u32 option \<Rightarrow> 'h swd_engine \<Rightarrow>
   ((esp_err \<times> u32 option) \<times> 'h swd_engine) option"
where
  "airdap_swd_write_ap hw address data ack swd = do {
     ((error, data, ack), swd) \<leftarrow> airdap_swd_transfer hw
       (Some \<lparr>rq_port = AIRDAP_SWD_PORT_AP, rq_direction = AIRDAP_SWD_WRITE, rq_address = address\<rparr>)
       (Some data) ack swd;
     Some ((error, ack), swd) }"

definition airdap_swd_clear_errors ::
  "'h swd_hw \<Rightarrow> u32 option \<Rightarrow> 'h swd_engine \<Rightarrow> ((esp_err \<times> u32 option) \<times> 'h swd_engine) option"
where
  "airdap_swd_clear_errors hw ack swd = airdap_swd_write_dp hw 0x0 0x1E ack swd"

section \<open>The direction of the line\<close>

record 'h line_monitor =
  lm_hw :: 'h
  lm_dir :: bool
  lm_ok :: bool

text \<open>
  Any hardware behind a monitor of the direction pin: \<open>lm_dir\<close> is the level of the last successful
  change, and \<open>lm_ok\<close> falls when a transmission starts while the pin points at the host, a
  reception while it points at the target, or a transaction is empty or above 64 bits.
\<close>

definition through :: "('h \<Rightarrow> 'r \<times> 'h) \<Rightarrow> 'h line_monitor \<Rightarrow> 'r \<times> 'h line_monitor" where
  "through f m = (case f (lm_hw m) of (r, h) \<Rightarrow> (r, m\<lparr>lm_hw := h\<rparr>))"

definition monitored_hw :: "'h swd_hw \<Rightarrow> 'h line_monitor swd_hw" where
  "monitored_hw hw = \<lparr>
     hw_gpio_set_level = (\<lambda>p l m. case through (hw_gpio_set_level hw p l) m of (e, m) \<Rightarrow>
       (e, if p = PIN_SWDIO_DIR \<and> e = ESP_OK then m\<lparr>lm_dir := l\<rparr> else m)),
     hw_gpio_get_level = (\<lambda>p. through (hw_gpio_get_level hw p)),
     hw_gpio_config = through (hw_gpio_config hw),
     hw_gpio_reset_pin = (\<lambda>p. through (hw_gpio_reset_pin hw p)),
     hw_spi_tx = (\<lambda>d b n m. through (hw_spi_tx hw d b n) (m\<lparr>lm_ok := lm_ok m \<and> lm_dir m \<and> 0 < n \<and> n \<le> 64\<rparr>)),
     hw_spi_rx = (\<lambda>d b n m. through (hw_spi_rx hw d b n) (m\<lparr>lm_ok := lm_ok m \<and> \<not> lm_dir m \<and> 0 < n \<and> n \<le> 64\<rparr>)),
     hw_bus_initialize = through (hw_bus_initialize hw),
     hw_bus_free = through (hw_bus_free hw),
     hw_add_device = (\<lambda>f d. through (hw_add_device hw f d)),
     hw_remove_device = (\<lambda>d. through (hw_remove_device hw d)),
     hw_delay_us = (\<lambda>n m. m\<lparr>lm_hw := hw_delay_us hw n (lm_hw m)\<rparr>)\<rparr>"

definition line_inv :: "'h line_monitor swd_engine \<Rightarrow> bool" where
  "line_inv swd \<longleftrightarrow> lm_ok (en_hw swd) \<and> en_host_output swd = lm_dir (en_hw swd) \<and>
     1 \<le> en_turnaround_cycles swd \<and> en_turnaround_cycles swd \<le> 4"

named_theorems line_rules "driver calls keep the line invariant"

text \<open>A computation that returns an engine in the invariant.\<close>

definition keeps_line :: "'r \<times> 'h line_monitor swd_engine \<Rightarrow> bool" where
  "keeps_line r \<longleftrightarrow> line_inv (snd r)"

lemma keeps_pair [line_rules]: "line_inv swd \<Longrightarrow> keeps_line (r, swd)"
  by (simp add: keeps_line_def)

lemma keeps_case_prod [line_rules]:
  "keeps_line m \<Longrightarrow> (\<And>e swd. m = (e, swd) \<Longrightarrow> line_inv swd \<Longrightarrow> keeps_line (k e swd)) \<Longrightarrow>
   keeps_line (case m of (e, swd) \<Rightarrow> k e swd)"
  by (cases m) (auto simp: keeps_line_def)

lemma keeps_split [line_rules]:
  "(\<And>x y. a = (x, y) \<Longrightarrow> keeps_line (k x y)) \<Longrightarrow> keeps_line (case a :: esp_err \<times> u64 of (x, y) \<Rightarrow> k x y)"
  "(\<And>x y. b = (x, y) \<Longrightarrow> keeps_line (l x y)) \<Longrightarrow> keeps_line (case b :: esp_err \<times> u8 of (x, y) \<Rightarrow> l x y)"
  by (cases a, simp) (cases b, simp)

lemma keeps_if [line_rules]:
  "(b \<Longrightarrow> keeps_line x) \<Longrightarrow> (\<not> b \<Longrightarrow> keeps_line y) \<Longrightarrow> keeps_line (if b then x else y)"
  by simp

lemma keeps_and_then [line_rules]:
  "keeps_line m \<Longrightarrow> (\<And>swd. m = (ESP_OK, swd) \<Longrightarrow> line_inv swd \<Longrightarrow> keeps_line (k swd)) \<Longrightarrow> keeps_line (and_then m k)"
  by (auto simp: and_then_def keeps_line_def split: prod.splits)

lemma keeps_hw_call [line_rules]:
  assumes "line_inv swd"
  shows "keeps_line (hw_call (hw_gpio_config (monitored_hw hw)) swd)"
    "keeps_line (hw_call (hw_gpio_reset_pin (monitored_hw hw) p) swd)"
    "keeps_line (hw_call (hw_bus_initialize (monitored_hw hw)) swd)"
    "keeps_line (hw_call (hw_bus_free (monitored_hw hw)) swd)"
    "keeps_line (hw_call (hw_remove_device (monitored_hw hw) d) swd)"
    "p \<noteq> PIN_SWDIO_DIR \<Longrightarrow> keeps_line (hw_call (hw_gpio_set_level (monitored_hw hw) p l) swd)"
  using assms
  by (auto simp: keeps_line_def hw_call_def monitored_hw_def through_def line_inv_def split: prod.splits)

lemma keeps_snd [line_rules]: "keeps_line m \<Longrightarrow> line_inv (snd m)"
  by (simp add: keeps_line_def)

lemma keeps_set_host [line_rules]:
  "line_inv swd \<Longrightarrow> keeps_line (set_host_output (monitored_hw hw) h swd)"
  by (auto simp: keeps_line_def set_host_output_def hw_call_def monitored_hw_def through_def line_inv_def
      split: prod.splits)

lemma keeps_add_device [line_rules]:
  "line_inv swd \<Longrightarrow> keeps_line (add_spi_device (monitored_hw hw) f swd)"
  by (auto simp: keeps_line_def add_spi_device_def monitored_hw_def through_def line_inv_def split: prod.splits)

lemma line_inv_fields [line_rules]:
  "line_inv swd \<Longrightarrow> line_inv (swd\<lparr>en_initialized := b\<rparr>)"
  "line_inv swd \<Longrightarrow> line_inv (swd\<lparr>en_spi := d\<rparr>)"
  "line_inv swd \<Longrightarrow> line_inv (swd\<lparr>en_clock_hz := f\<rparr>)"
  "line_inv swd \<Longrightarrow> line_inv (swd\<lparr>en_manual_pin_values := v\<rparr>)"
  "line_inv swd \<Longrightarrow> line_inv (swd\<lparr>en_wait_retries := w\<rparr>)"
  "line_inv swd \<Longrightarrow> line_inv (swd\<lparr>en_idle_cycles := i\<rparr>)"
  "line_inv swd \<Longrightarrow> line_inv (swd\<lparr>en_hw := hw_delay_us (monitored_hw hw) n (en_hw swd)\<rparr>)"
  by (auto simp: line_inv_def monitored_hw_def)

lemma line_inv_if [line_rules]:
  "(b \<Longrightarrow> line_inv x) \<Longrightarrow> (\<not> b \<Longrightarrow> line_inv y) \<Longrightarrow> line_inv (if b then x else y)"
  by simp

lemma keeps_write_bits [line_rules]:
  "line_inv swd \<Longrightarrow> keeps_line (write_bits (monitored_hw hw) b n swd)"
  by (auto simp: keeps_line_def write_bits_def Let_def hw_call_def monitored_hw_def through_def line_inv_def
      split: prod.splits)

lemma keeps_read_bits [line_rules]:
  "line_inv swd \<Longrightarrow> keeps_line (read_bits (monitored_hw hw) n v swd)"
  by (auto simp: keeps_line_def read_bits_def Let_def monitored_hw_def through_def line_inv_def
      split: prod.splits)

lemma keeps_turnaround [line_rules]:
  "line_inv swd \<Longrightarrow> keeps_line (turnaround (monitored_hw hw) h swd)"
  unfolding turnaround_def by (intro line_rules)

lemma keeps_configuration:
  assumes "line_inv swd"
  shows "keeps_line (airdap_swd_set_clock (monitored_hw hw) f swd)" (is ?clock)
    and "keeps_line (airdap_swd_init (monitored_hw hw) f swd)" (is ?init)
    and "keeps_line (airdap_swd_configure_bus n dp swd)" (is ?bus)
    and "keeps_line (airdap_swd_set_io_state (monitored_hw hw) h swd)" (is ?io)
    and "keeps_line (initialize_spi_bus (monitored_hw hw) f swd)" (is ?spi)
proof -
  have spi: "keeps_line (initialize_spi_bus (monitored_hw hw) f swd)" if "line_inv swd" for swd
    unfolding initialize_spi_bus_def by (intro line_rules that)
  show ?clock unfolding airdap_swd_set_clock_def Let_def by (intro line_rules assms)
  then show ?init unfolding airdap_swd_init_def by (intro line_rules assms spi)
  have "1 \<le> n" if "\<not> n < 1" using that by (simp only: not_less)
  then show ?bus using assms by (auto simp: airdap_swd_configure_bus_def keeps_line_def line_inv_def)
  show ?io unfolding airdap_swd_set_io_state_def by (intro line_rules assms)
  show ?spi by (rule spi [OF assms])
qed

lemma keeps_get_level [line_rules]:
  "line_inv swd \<Longrightarrow> hw_gpio_get_level (monitored_hw hw) p (en_hw swd) = (v, h) \<Longrightarrow> line_inv (swd\<lparr>en_hw := h\<rparr>)"
  by (auto simp: line_inv_def monitored_hw_def through_def split: prod.splits)

lemma keeps_sample [line_rules]:
  assumes "line_inv swd"
  shows "keeps_line (drive_and_sample (monitored_hw hw) wait_us pins swd)"
proof -
  have levels: "keeps_line (case hw_gpio_get_level (monitored_hw hw) PIN_TARGET_SWCLK (en_hw swd) of (clk, h) \<Rightarrow>
      case hw_gpio_get_level (monitored_hw hw) PIN_TARGET_SWDIO h of (dio, h) \<Rightarrow> (f clk dio, swd\<lparr>en_hw := h\<rparr>))"
    if "line_inv swd" for swd and f :: "int \<Rightarrow> int \<Rightarrow> esp_err \<times> u8"
    using that by (auto simp: keeps_line_def line_inv_def monitored_hw_def through_def split: prod.splits)
  show ?thesis
    unfolding drive_and_sample_def Let_def
    by (intro line_rules assms levels) simp_all
qed

lemma keeps_drive_pins:
  assumes "line_inv swd"
  shows "keeps_line (airdap_swd_drive_pins (monitored_hw hw) value select wait_us pins swd)"
  unfolding airdap_swd_drive_pins_def Let_def
  by (intro line_rules assms keeps_configuration(5))

declare write_sequence_loop.simps [simp del] read_sequence_loop.simps [simp del]

lemma keeps_write_loop:
  "line_inv swd \<Longrightarrow> write_sequence_loop (monitored_hw hw) data n k swd = Some r \<Longrightarrow> keeps_line r"
proof (induction "n - k" arbitrary: k swd rule: less_induct)
  case less
  show ?case
  proof (cases "k < n")
    case True
    obtain e swd1 where w: "write_bits (monitored_hw hw)
        (u64_of_bytes (the (rd_bytes data (k div 8) ((chunk_bits n k + 7) div 8)))) (chunk_bits n k) swd = (e, swd1)"
      by fastforce
    have inv: "line_inv swd1" using keeps_write_bits [OF less.prems(1), of hw] w by (metis keeps_snd snd_conv)
    have "n - (k + chunk_bits n k) < n - k" using True by (auto simp: chunk_bits_def)
    then show ?thesis
      using less.hyps [of "k + chunk_bits n k" swd1] less.prems(2) True w inv
        keeps_write_bits [OF less.prems(1), of hw]
      by (auto simp: write_sequence_loop.simps [of _ _ n k] keeps_line_def split: if_splits option.splits)
  qed (use less.prems in \<open>auto simp: write_sequence_loop.simps [of _ _ n k] keeps_line_def\<close>)
qed

lemma keeps_read_loop:
  "line_inv swd \<Longrightarrow> read_sequence_loop (monitored_hw hw) data n k swd = Some r \<Longrightarrow> keeps_line r"
proof (induction "n - k" arbitrary: k swd data rule: less_induct)
  case less
  show ?case
  proof (cases "k < n")
    case True
    obtain e v swd1 where r: "read_bits (monitored_hw hw) (chunk_bits n k) 0 swd = ((e, v), swd1)"
      by (metis prod.collapse)
    have inv: "line_inv swd1" using keeps_read_bits [OF less.prems(1), of hw] r by (metis keeps_snd snd_conv)
    have "n - (k + chunk_bits n k) < n - k" using True by (auto simp: chunk_bits_def)
    then show ?thesis
      using less.hyps [of "k + chunk_bits n k" swd1] less.prems(2) True r inv
      by (auto simp: read_sequence_loop.simps [of _ _ n k] keeps_line_def split: if_splits option.splits)
  qed (use less.prems in \<open>auto simp: read_sequence_loop.simps [of _ _ n k] keeps_line_def\<close>)
qed

lemma keeps_sequences:
  assumes "line_inv swd"
  shows "airdap_swd_write_sequence (monitored_hw hw) data n swd = Some r \<Longrightarrow> keeps_line r"
    and "airdap_swd_read_sequence (monitored_hw hw) data n swd = Some r' \<Longrightarrow> keeps_line r'"
proof -
  obtain e1 swd1 where h: "airdap_swd_set_io_state (monitored_hw hw) True swd = (e1, swd1)" by fastforce
  obtain e2 swd2 where l: "airdap_swd_set_io_state (monitored_hw hw) False swd = (e2, swd2)" by fastforce
  have inv: "line_inv swd1" "line_inv swd2"
    using keeps_configuration(4) [OF assms, of hw True] keeps_configuration(4) [OF assms, of hw False] h l
    by (simp_all add: keeps_line_def)
  show "airdap_swd_write_sequence (monitored_hw hw) data n swd = Some r \<Longrightarrow> keeps_line r"
    unfolding airdap_swd_write_sequence_def h
    using assms inv keeps_write_loop [of swd1 hw "the data" n 0 r]
    by (auto simp: keeps_line_def split: if_splits)
  show "airdap_swd_read_sequence (monitored_hw hw) data n swd = Some r' \<Longrightarrow> keeps_line r'"
    using assms l inv keeps_read_loop [of swd2 hw _ n 0]
    by (fastforce simp: airdap_swd_read_sequence_def keeps_line_def bind_eq_Some_conv split: if_splits)
qed

section \<open>Transfers over the engine\<close>

text \<open>The engine's callbacks are a line in the sense of the packet protocol.\<close>

interpretation engine_line:
  swd_bus "protocol_io (monitored_hw hw) swd0" en_host_output line_inv "\<lambda>_. True" for hw :: "'h swd_hw" and swd0
proof
  fix c c' :: "'h line_monitor swd_engine" and e h
  assume "line_inv c" "the (io_set_host_output (protocol_io (monitored_hw hw) swd0)) h c = (e, c')"
  then show "line_inv c' \<and> (if e = ESP_OK then en_host_output c' = h else True)"
    using keeps_set_host [of c hw h] by (auto simp: protocol_io_def keeps_line_def set_host_output_def split: prod.splits)
next
  fix c c' :: "'h line_monitor swd_engine" and e n and bits :: u64
  assume "line_inv c" "en_host_output c" "the (io_write_bits (protocol_io (monitored_hw hw) swd0)) bits n c = (e, c')"
  then show "line_inv c' \<and> en_host_output c'"
    using keeps_write_bits [of c hw bits n]
    by (auto simp: protocol_io_def keeps_line_def write_bits_def Let_def hw_call_def split: prod.splits if_splits)
next
  fix c c' :: "'h line_monitor swd_engine" and e n and v v' :: u64
  assume "line_inv c" "\<not> en_host_output c" "the (io_read_bits (protocol_io (monitored_hw hw) swd0)) n v c = ((e, v'), c')"
  then show "line_inv c' \<and> \<not> en_host_output c'"
    using keeps_read_bits [of c hw n v]
    by (auto simp: protocol_io_def keeps_line_def read_bits_def Let_def split: prod.splits if_splits)
next
  fix c c' :: "'h line_monitor swd_engine" and e h
  assume a: "line_inv c" "en_host_output c \<noteq> h" "the (io_turnaround (protocol_io (monitored_hw hw) swd0)) h c = (e, c')"
  have rb: "en_host_output swd1 = en_host_output swd"
    if "read_bits (monitored_hw hw) n v swd = ((e1, v1), swd1)" for n v swd e1 v1 swd1
    using that by (auto simp: read_bits_def Let_def split: prod.splits if_splits)
  have sh: "en_host_output swd1 = h1" if "set_host_output (monitored_hw hw) h1 swd = (ESP_OK, swd1)" for h1 swd swd1
    using that by (auto simp: set_host_output_def split: prod.splits if_splits)
  have "line_inv c'" using keeps_turnaround [OF a(1), of hw h] a(3) by (simp add: protocol_io_def keeps_line_def)
  moreover have "e = ESP_OK \<Longrightarrow> en_host_output c' = h"
    using a(2,3) by (auto simp: protocol_io_def turnaround_def dest: sh rb split: prod.splits if_splits)
  ultimately show "line_inv c' \<and> (if e = ESP_OK then en_host_output c' = h else True)" by simp
qed

lemma engine_transfer_restored:
  assumes "line_inv swd" "airdap_swd_transfer (monitored_hw hw) request data ack swd = Some ((e, data', ack'), swd')"
  shows "line_inv swd' \<and> (e = ESP_OK \<longrightarrow> en_host_output swd')"
proof (cases "en_initialized swd")
  case False
  then show ?thesis using assms by (auto simp: airdap_swd_transfer_def)
next
  case True
  obtain e1 swd1 where d: "(if \<not> en_host_output swd then set_host_output (monitored_hw hw) True swd else (ESP_OK, swd)) = (e1, swd1)"
    by fastforce
  have inv: "line_inv swd1" using d keeps_set_host [OF assms(1), of hw True] assms(1)
    by (auto simp: keeps_line_def split: if_splits)
  have host: "e1 = ESP_OK \<Longrightarrow> en_host_output swd1"
    using d by (auto simp: set_host_output_def split: if_splits prod.splits)
  show ?thesis
  proof (cases "e1 = ESP_OK")
    case ok: True
    then have "airdap_swd_protocol_transfer (Some (protocol_io (monitored_hw hw) swd1)) request data
        (en_wait_retries swd1) ack swd1 = Some ((e, data', ack'), swd')"
      using assms(2) d True by (auto simp: airdap_swd_transfer_def split: if_splits)
    from engine_line.transfer_restored [OF inv host [OF ok] this] show ?thesis
      by (auto simp: engine_line.restored_def)
  next
    case False
    then show ?thesis using assms(2) d True inv by (auto simp: airdap_swd_transfer_def split: if_splits)
  qed
qed

lemma engine_connect_keeps:
  assumes "line_inv swd" "airdap_swd_connect (monitored_hw hw) idcode swd = Some ((e, idcode'), swd')"
  shows "line_inv swd'"
proof (cases "en_initialized swd \<and> idcode \<noteq> None")
  case False
  then show ?thesis using assms
    by (auto simp: airdap_swd_connect_def airdap_swd_protocol_connect_def split: if_splits)
next
  case True
  let ?io = "protocol_io (monitored_hw hw) swd"
  have valid: "io_is_valid (Some ?io)" by (simp add: io_is_valid_def protocol_io_def)
  obtain e1 swd1 where r: "connect_line_reset ?io swd = (e1, swd1)" by fastforce
  note reset = engine_line.connect_reset_restored [OF assms(1) r]
  show ?thesis
  proof (cases "e1 = ESP_OK")
    case False
    then show ?thesis using assms(2) True valid r reset
      by (auto simp: airdap_swd_connect_def airdap_swd_protocol_connect_def split: if_splits)
  next
    case ok: True
    then obtain e2 d a swd2 where t: "airdap_swd_protocol_transfer (Some ?io) (Some connect_request) idcode 5 (Some 0) swd1 =
        Some ((e2, d, a), swd2)" and "swd' = swd2"
      using assms(2) True valid r
      by (auto simp: airdap_swd_connect_def airdap_swd_protocol_connect_def bind_eq_Some_conv split: if_splits)
    then show ?thesis using engine_line.transfer_restored [OF _ _ t] reset ok by (auto simp: engine_line.restored_def)
  qed
qed

lemma engine_read_ap_keeps:
  assumes "line_inv swd" "airdap_swd_read_ap (monitored_hw hw) address data ack swd = Some ((e, data', ack'), swd')"
  shows "line_inv swd'"
proof -
  obtain e1 d1 a1 swd1 where t: "airdap_swd_transfer (monitored_hw hw)
      (Some \<lparr>rq_port = 1, rq_direction = 1, rq_address = address\<rparr>) (Some 0) ack swd = Some ((e1, d1, a1), swd1)"
    using assms(2) by (auto simp: airdap_swd_read_ap_def bind_eq_Some_conv)
  then have "line_inv swd1" using engine_transfer_restored [OF assms(1)] by blast
  then show ?thesis
    using assms(2) t engine_transfer_restored [of swd1 hw]
    by (auto simp: airdap_swd_read_ap_def airdap_swd_read_dp_def split: if_splits)
qed

text \<open>Every function of the engine's interface, with the arguments a caller chooses.\<close>

datatype engine_call =
    Swd_init u32
  | Swd_set_clock u32
  | Swd_set_wait_retries u32
  | Swd_configure_transfer u8 u32
  | Swd_configure_bus u8 bool
  | Swd_set_io_state bool
  | Swd_write_sequence "bytes option" nat
  | Swd_read_sequence "bytes option" nat
  | Swd_drive_pins u8 u8 u32 "u8 option"
  | Swd_connect "u32 option"
  | Swd_transfer "airdap_swd_request option" "u32 option" "u32 option"
  | Swd_read_ap u8 "u32 option" "u32 option"

fun run_call :: "'h swd_hw \<Rightarrow> engine_call \<Rightarrow> 'h swd_engine \<Rightarrow> 'h swd_engine option" where
  "run_call hw (Swd_init f) swd = Some (snd (airdap_swd_init hw f swd))"
| "run_call hw (Swd_set_clock f) swd = Some (snd (airdap_swd_set_clock hw f swd))"
| "run_call hw (Swd_set_wait_retries w) swd = Some (airdap_swd_set_wait_retries w swd)"
| "run_call hw (Swd_configure_transfer i w) swd = Some (snd (airdap_swd_configure_transfer i w swd))"
| "run_call hw (Swd_configure_bus t d) swd = Some (snd (airdap_swd_configure_bus t d swd))"
| "run_call hw (Swd_set_io_state h) swd = Some (snd (airdap_swd_set_io_state hw h swd))"
| "run_call hw (Swd_write_sequence d n) swd = map_option snd (airdap_swd_write_sequence hw d n swd)"
| "run_call hw (Swd_read_sequence d n) swd = map_option snd (airdap_swd_read_sequence hw d n swd)"
| "run_call hw (Swd_drive_pins v s w p) swd = Some (snd (airdap_swd_drive_pins hw v s w p swd))"
| "run_call hw (Swd_connect i) swd = map_option snd (airdap_swd_connect hw i swd)"
| "run_call hw (Swd_transfer r d a) swd = map_option snd (airdap_swd_transfer hw r d a swd)"
| "run_call hw (Swd_read_ap r d a) swd = map_option snd (airdap_swd_read_ap hw r d a swd)"

inductive engine_reachable :: "'h swd_hw \<Rightarrow> 'h \<Rightarrow> 'h swd_engine \<Rightarrow> bool" for hw h where
  boot: "engine_reachable hw h (swd_engine_initial h)"
| call: "engine_reachable hw h swd \<Longrightarrow> run_call hw c swd = Some swd' \<Longrightarrow> engine_reachable hw h swd'"

lemma run_call_keeps:
  assumes inv: "line_inv swd" and step: "run_call (monitored_hw hw) c swd = Some swd'"
  shows "line_inv swd'"
proof -
  have seq: "airdap_swd_write_sequence (monitored_hw hw) d n swd = Some (e, s) \<Longrightarrow> line_inv s"
    "airdap_swd_read_sequence (monitored_hw hw) d n swd = Some (e', s) \<Longrightarrow> line_inv s" for d n e e' s
    using keeps_sequences [OF inv, of hw d n] by (fastforce simp: keeps_line_def)+
  note keeps = keeps_configuration [OF inv, THEN keeps_snd] keeps_drive_pins [OF inv, THEN keeps_snd]
    seq engine_connect_keeps [OF inv] engine_read_ap_keeps [OF inv]
    engine_transfer_restored [OF inv, THEN conjunct1] line_inv_fields(5,6) [OF inv]
  show ?thesis
    using step by (cases c)
      (auto simp: airdap_swd_set_wait_retries_def airdap_swd_configure_transfer_def intro: keeps
        line_inv_fields(5,6))
qed

text \<open>C32. On any hardware and after any sequence of calls to the engine's interface, the engine's notion
  of the direction agrees with the level it last set on the direction pin, and no SPI transmission
  ever started while the pin pointed at the host, no reception while it pointed at the target, and
  no transaction was empty or longer than 64 bits.\<close>

theorem engine_direction_safe:
  assumes "engine_reachable (monitored_hw hw) \<lparr>lm_hw = h, lm_dir = False, lm_ok = True\<rparr> swd"
  shows "lm_ok (en_hw swd) \<and> en_host_output swd = lm_dir (en_hw swd)"
proof -
  have "line_inv swd"
    using assms
  proof (induction rule: engine_reachable.induct)
    case boot
    then show ?case by (simp add: line_inv_def swd_engine_initial_def)
  next
    case (call swd c swd')
    then show ?case using run_call_keeps by blast
  qed
  then show ?thesis by (simp add: line_inv_def)
qed

text \<open>A hardware without faults: every call succeeds and receptions deliver ones.\<close>

definition ideal_hw :: "unit swd_hw" where
  "ideal_hw = \<lparr>hw_gpio_set_level = (\<lambda>p l h. (ESP_OK, h)), hw_gpio_get_level = (\<lambda>p h. (1, h)),
     hw_gpio_config = (\<lambda>h. (ESP_OK, h)), hw_gpio_reset_pin = (\<lambda>p h. (ESP_OK, h)),
     hw_spi_tx = (\<lambda>d b n h. (ESP_OK, h)), hw_spi_rx = (\<lambda>d b n h. ((ESP_OK, replicate 8 0xFF), h)),
     hw_bus_initialize = (\<lambda>h. (ESP_OK, h)), hw_bus_free = (\<lambda>h. (ESP_OK, h)),
     hw_add_device = (\<lambda>f d h. ((ESP_OK, Some 1), h)), hw_remove_device = (\<lambda>d h. (ESP_OK, h)),
     hw_delay_us = (\<lambda>n h. h)\<rparr>"

theorem engine_direction_safe_witness:
  "\<exists>swd. run_call (monitored_hw ideal_hw) (Swd_init 5000000)
      (swd_engine_initial \<lparr>lm_hw = (), lm_dir = False, lm_ok = True\<rparr>) = Some swd \<and> en_initialized swd \<and>
    lm_ok (en_hw swd) \<and> en_host_output swd = lm_dir (en_hw swd)"
proof -
  let ?h = "\<lparr>lm_hw = (), lm_dir = False, lm_ok = True\<rparr>"
  obtain swd where run: "run_call (monitored_hw ideal_hw) (Swd_init 5000000) (swd_engine_initial ?h) = Some swd"
    by simp
  then have "en_initialized swd"
    by (auto simp: airdap_swd_init_def clock_is_valid_def swd_engine_initial_def and_then_def set_host_output_def
        hw_call_def initialize_spi_bus_def add_spi_device_def monitored_hw_def through_def ideal_hw_def)
  moreover have "engine_reachable (monitored_hw ideal_hw) ?h swd"
    by (rule engine_reachable.call [OF engine_reachable.boot run])
  ultimately show ?thesis using engine_direction_safe [of ideal_hw "()" swd] run by blast
qed

section \<open>Sequences reach the wire bit by bit\<close>

definition bits_of :: "bytes \<Rightarrow> bool list" where
  "bits_of b = concat (map (\<lambda>x. map (bit x) [0..<8]) b)"

lemma bits_of_simps [simp]:
  "bits_of [] = []" "bits_of (x # b) = map (bit x) [0..<8] @ bits_of b"
  by (simp_all add: bits_of_def del: upt_conv_Cons)

lemma bits_of_length [simp]: "length (bits_of b) = 8 * length b"
  by (induction b) (simp_all del: upt_conv_Cons)

lemma bits_of_append: "bits_of (a @ b) = bits_of a @ bits_of b"
  by (induction a) simp_all

lemma bits_of_drop: "bits_of (drop m b) = drop (8 * m) (bits_of b)"
proof (cases "m \<le> length b")
  case True
  then have "bits_of b = bits_of (take m b) @ bits_of (drop m b)" by (simp flip: bits_of_append)
  then show ?thesis using True by simp
qed simp

lemma bits_of_take: "bits_of (take m b) = take (8 * m) (bits_of b)"
proof (cases "m \<le> length b")
  case True
  then have "bits_of b = bits_of (take m b) @ bits_of (drop m b)" by (simp flip: bits_of_append)
  then show ?thesis using True by (metis append_eq_conv_conj bits_of_length length_take min.absorb2)
qed simp

lemma bit_u64_of_bytes:
  "length b \<le> 8 \<Longrightarrow> bit (u64_of_bytes b) i \<longleftrightarrow> i div 8 < length b \<and> bit (b ! (i div 8)) (i mod 8)"
proof (induction b arbitrary: i)
  case Nil
  then show ?case by (simp add: u64_of_bytes_def)
next
  case (Cons x b)
  have cons: "u64_of_bytes (x # b) = ucast x OR push_bit 8 (u64_of_bytes b)" by (simp add: u64_of_bytes_def)
  show ?case
  proof (cases "i < 8")
    case True
    then show ?thesis by (simp add: cons bit_simps)
  next
    case False
    then obtain j where j: "i = j + 8" by (metis add.commute le_Suc_ex not_less)
    have "\<not> bit (ucast x :: u64) (j + 8)" by (auto simp: bit_simps dest: bit_imp_le_length)
    moreover have "j div 8 < length b \<Longrightarrow> j + 8 < 64" "(j + 8) div 8 = Suc (j div 8)" using Cons.prems by auto
    ultimately show ?thesis using Cons.IH [of j] Cons.prems
      by (auto simp: cons j bit_or_iff bit_push_bit_iff)
  qed
qed

lemma bytes_u64_roundtrip:
  assumes "length b \<le> 8"
  shows "take (length b) (bytes_of_u64 (u64_of_bytes b)) = b"
proof (rule nth_equalityI)
  show "length (take (length b) (bytes_of_u64 (u64_of_bytes b))) = length b"
    using assms by (simp add: bytes_of_u64_def)
next
  fix j assume "j < length (take (length b) (bytes_of_u64 (u64_of_bytes b)))"
  then have j: "j < length b" "j < 8" using assms by (simp_all add: bytes_of_u64_def)
  have "ucast (drop_bit (8 * j) (u64_of_bytes b)) = b ! j"
  proof (rule bit_word_eqI)
    fix i assume "i < LENGTH(8)"
    then have "(8 * j + i) div 8 = j" "(8 * j + i) mod 8 = i" by simp_all
    then show "bit (ucast (drop_bit (8 * j) (u64_of_bytes b)) :: u8) i = bit (b ! j) i"
      using j bit_u64_of_bytes [OF assms, of "8 * j + i"] \<open>i < LENGTH(8)\<close> by (simp add: bit_simps)
  qed
  then show "take (length b) (bytes_of_u64 (u64_of_bytes b)) ! j = b ! j"
    using j by (simp add: bytes_of_u64_def)
qed

text \<open>A wire that records every bit that is sent, first bit first.\<close>

definition wire_hw :: "bool list swd_hw" where
  "wire_hw = \<lparr>hw_gpio_set_level = (\<lambda>p l h. (ESP_OK, h)), hw_gpio_get_level = (\<lambda>p h. (0, h)),
     hw_gpio_config = (\<lambda>h. (ESP_OK, h)), hw_gpio_reset_pin = (\<lambda>p h. (ESP_OK, h)),
     hw_spi_tx = (\<lambda>d b n h. (ESP_OK, h @ take n (bits_of b))), hw_spi_rx = (\<lambda>d b n h. ((ESP_OK, b), h)),
     hw_bus_initialize = (\<lambda>h. (ESP_OK, h)), hw_bus_free = (\<lambda>h. (ESP_OK, h)),
     hw_add_device = (\<lambda>f d h. ((ESP_OK, Some 1), h)), hw_remove_device = (\<lambda>d h. (ESP_OK, h)),
     hw_delay_us = (\<lambda>n h. h)\<rparr>"

lemma wire_write_bits:
  assumes "en_host_output swd" "0 < n" "n \<le> 64" "length b = (n + 7) div 8"
  shows "\<exists>tx. write_bits wire_hw (u64_of_bytes b) n swd =
    (ESP_OK, swd\<lparr>en_tx_buffer := tx, en_hw := en_hw swd @ take n (bits_of b)\<rparr>)"
proof -
  have "length b \<le> 8" using assms(3,4) by simp
  then have "take ((n + 7) div 8) (bytes_of_u64 (u64_of_bytes b)) = b"
    using bytes_u64_roundtrip assms(4) by metis
  moreover have "take n (bits_of (b @ replicate k 0)) = take n (bits_of b)" for k
    using assms(4) by (simp add: bits_of_append)
  ultimately show ?thesis
    using assms by (auto simp: write_bits_def Let_def hw_call_def wire_hw_def)
qed

lemma write_loop_bits:
  assumes "(n + 7) div 8 \<le> length data"
  shows "k \<le> n \<Longrightarrow> k mod 64 = 0 \<or> k = n \<Longrightarrow> en_host_output swd \<Longrightarrow>
    \<exists>swd'. write_sequence_loop wire_hw data n k swd = Some (ESP_OK, swd') \<and> en_host_output swd' \<and>
      en_hw swd' = en_hw swd @ take (n - k) (drop k (bits_of data))"
proof (induction "n - k" arbitrary: k swd rule: less_induct)
  case less
  show ?case
  proof (cases "k < n")
    case False
    then show ?thesis using less.prems by (simp add: write_sequence_loop.simps)
  next
    case True
    let ?c = "chunk_bits n k"
    have c: "0 < ?c" "?c \<le> 64" "k + ?c \<le> n" "(k + ?c) mod 64 = 0 \<or> k + ?c = n"
      using True less.prems(2) by (auto simp: chunk_bits_def)
    have k8: "8 * (k div 8) = k" using less.prems(2) True by presburger
    let ?b = "take ((?c + 7) div 8) (drop (k div 8) data)"
    have inb: "k div 8 + (?c + 7) div 8 \<le> length data" using assms c(3) k8 by linarith
    then have len: "length ?b = (?c + 7) div 8" by simp
    have bits: "take ?c (bits_of ?b) = take ?c (drop k (bits_of data))"
    proof -
      have "bits_of ?b = take (8 * ((?c + 7) div 8)) (drop k (bits_of data))"
        by (simp add: bits_of_take bits_of_drop k8)
      moreover have "?c \<le> 8 * ((?c + 7) div 8)" by presburger
      ultimately show ?thesis by (simp add: min_absorb1)
    qed
    obtain tx where w: "write_bits wire_hw (u64_of_bytes ?b) ?c swd =
        (ESP_OK, swd\<lparr>en_tx_buffer := tx, en_hw := en_hw swd @ take ?c (bits_of ?b)\<rparr>)"
      using wire_write_bits [OF less.prems(3) c(1,2) len] by blast
    have "n - (k + ?c) < n - k" using c True by simp
    from less.hyps [OF this c(3,4), of "swd\<lparr>en_tx_buffer := tx, en_hw := en_hw swd @ take ?c (bits_of ?b)\<rparr>"]
    obtain swd' where loop: "write_sequence_loop wire_hw data n (k + ?c)
        (swd\<lparr>en_tx_buffer := tx, en_hw := en_hw swd @ take ?c (bits_of ?b)\<rparr>) = Some (ESP_OK, swd')"
      and out: "en_host_output swd'"
        "en_hw swd' = (en_hw swd @ take ?c (bits_of ?b)) @ take (n - (k + ?c)) (drop (k + ?c) (bits_of data))"
      using less.prems(3) by auto
    have "take (n - k) (drop k (bits_of data)) =
        take ?c (drop k (bits_of data)) @ take (n - (k + ?c)) (drop (k + ?c) (bits_of data))"
      using c(3) take_add [of ?c "n - (k + ?c)" "drop k (bits_of data)"] by (simp add: add.commute)
    then show ?thesis
      using loop out w inb True bits by (simp add: write_sequence_loop.simps [of _ _ n k] rd_bytes_def)
  qed
qed

text \<open>An output sequence is sent exactly: for a buffer that holds the announced number of bits the
  engine reads nothing outside it, takes the line, and clocks out precisely those bits, least
  significant bit of each byte first, however it cuts them into SPI transactions.\<close>

theorem write_sequence_exact:
  assumes "en_initialized swd" "0 < n" "(n + 7) div 8 \<le> length data"
  shows "\<exists>swd'. airdap_swd_write_sequence wire_hw (Some data) n swd = Some (ESP_OK, swd') \<and>
    en_host_output swd' \<and> en_hw swd' = en_hw swd @ take n (bits_of data)"
proof -
  obtain swd1 where io: "airdap_swd_set_io_state wire_hw True swd = (ESP_OK, swd1)" "en_host_output swd1" "en_hw swd1 = en_hw swd"
  proof (cases "en_host_output swd")
    case True
    then show thesis using that [of swd] assms(1) by (simp add: airdap_swd_set_io_state_def)
  next
    case False
    then show thesis using that [of "swd\<lparr>en_host_output := True\<rparr>"] assms(1)
      by (simp add: airdap_swd_set_io_state_def set_host_output_def hw_call_def wire_hw_def)
  qed
  then show ?thesis
    using write_loop_bits [OF assms(3), of 0 swd1] assms by (auto simp: airdap_swd_write_sequence_def)
qed

theorem write_sequence_exact_witness:
  "\<exists>swd'. airdap_swd_write_sequence wire_hw (Some [0x9E, 0xE7]) 12 ((swd_engine_initial [])\<lparr>en_initialized := True\<rparr>) =
      Some (ESP_OK, swd') \<and> en_host_output swd' \<and>
    en_hw swd' = [False, True, True, True, True, False, False, True, True, True, True, False]"
proof -
  have "take 12 (bits_of [0x9E, 0xE7]) = [False, True, True, True, True, False, False, True, True, True, True, False]"
    by code_simp
  then show ?thesis
    using write_sequence_exact [of "(swd_engine_initial [])\<lparr>en_initialized := True\<rparr>" 12 "[0x9E, 0xE7]"]
    by (simp add: swd_engine_initial_def del: bits_of_simps)
qed

section \<open>A device handle that is lost\<close>

text \<open>
  When \<^verbatim>\<open>spi_bus_free\<close> fails, \<^verbatim>\<open>airdap_swd_drive_pins\<close> returns with the device handle already cleared but the
  engine still marked initialised, so the next transfer uses a NULL handle.
\<close>

definition no_free_hw :: "unit swd_hw" where
  "no_free_hw = ideal_hw\<lparr>hw_bus_free := (\<lambda>h. (ESP_ERR_INVALID_STATE, h))\<rparr>"

lemma drive_pins_lost_device:
  "\<exists>swd. engine_reachable no_free_hw () swd \<and> en_initialized swd \<and> en_spi swd = None"
proof -
  let ?s0 = "swd_engine_initial ()"
  obtain s1 where s1: "run_call no_free_hw (Swd_init 5000000) ?s0 = Some s1" by simp
  obtain s2 where s2: "run_call no_free_hw (Swd_drive_pins 0 1 0 (Some 0)) s1 = Some s2" by simp
  have i1: "en_initialized s1" 
    using s1 by (auto simp: airdap_swd_init_def clock_is_valid_def swd_engine_initial_def and_then_def set_host_output_def
        hw_call_def initialize_spi_bus_def add_spi_device_def no_free_hw_def ideal_hw_def)
  have "en_initialized s2 \<and> en_spi s2 = None"
    using s2 i1 by (auto simp: airdap_swd_drive_pins_def and_then_def set_host_output_def Let_def
        hw_call_def no_free_hw_def ideal_hw_def)
  then show ?thesis using engine_reachable.call [OF engine_reachable.call [OF engine_reachable.boot s1] s2] by blast
qed

end
