(* ===== verification/Stateful.thy ===== *)
theory Stateful
  imports AirDAP_Prelude "HOL-Library.State_Monad"
begin

text \<open>
  Code that threads the state of a component and of the platform below it through many calls is
  written in the state monad of the library. \<open>wp m Q s\<close> says that running \<open>m\<close> from \<open>s\<close> ends with a
  result and a state that satisfy \<open>Q\<close>; the rules \<open>wp_simps\<close> evaluate it along the program.
\<close>

named_theorems wp_simps "weakest preconditions of the state monad"

abbreviation (input) skip :: "('s, unit) state" where
  "skip \<equiv> State_Monad.return ()"

definition reads :: "('s \<Rightarrow> 'a) \<Rightarrow> ('s, 'a) state" where
  "reads f = State (\<lambda>s. (f s, s))"

definition updates :: "('s \<Rightarrow> 's) \<Rightarrow> ('s, unit) state" where
  "updates f = State (\<lambda>s. ((), f s))"

definition whenever :: "bool \<Rightarrow> ('s, unit) state \<Rightarrow> ('s, unit) state" where
  "whenever c m = (if c then m else skip)"

definition ignoring :: "('s, 'a) state \<Rightarrow> ('s, unit) state" where
  "ignoring m = State_Monad.bind m (\<lambda>_. skip)"

definition wp :: "('s, 'a) state \<Rightarrow> ('a \<Rightarrow> 's \<Rightarrow> bool) \<Rightarrow> 's \<Rightarrow> bool" where
  "wp m Q s \<longleftrightarrow> (case run_state m s of (r, s') \<Rightarrow> Q r s')"

lemma run_reads [simp]: "run_state (reads f) s = (f s, s)"
  by (simp add: reads_def)

lemma run_updates [simp]: "run_state (updates f) s = ((), f s)"
  by (simp add: updates_def)

lemma wp_basic [wp_simps]:
  "wp (State_Monad.return x) Q s = Q x s"
  "wp (reads f) R s = R (f s) s"
  "wp (updates g) U s = U () (g s)"
  by (simp_all add: wp_def)

lemma wp_return_eta [wp_simps]: "wp (State_Monad.return x) Q = Q x"
  by (simp add: fun_eq_iff wp_def)

lemma wp_bind [wp_simps]: "wp (State_Monad.bind m f) Q s = wp m (\<lambda>r. wp (f r) Q) s"
  by (simp add: wp_def split: prod.splits)

lemma wp_if [wp_simps]:
  "wp (if c then m else m') Q s = ((c \<longrightarrow> wp m Q s) \<and> (\<not> c \<longrightarrow> wp m' Q s))"
  by simp

lemma wp_whenever [wp_simps]: "wp (whenever c m) Q s = ((c \<longrightarrow> wp m Q s) \<and> (\<not> c \<longrightarrow> Q () s))"
  by (simp add: whenever_def wp_basic)

lemma wp_ignoring [wp_simps]: "wp (ignoring m) Q s = wp m (\<lambda>_. Q ()) s"
  by (simp add: ignoring_def wp_def split: prod.splits)

lemma wp_mono: "wp m Q s \<Longrightarrow> (\<And>r t. Q r t \<Longrightarrow> R r t) \<Longrightarrow> wp m R s"
  by (auto simp: wp_def split: prod.splits)

lemma wp_conj: "wp m (\<lambda>r t. Q r t \<and> R r t) s \<longleftrightarrow> wp m Q s \<and> wp m R s"
  by (auto simp: wp_def split: prod.splits)

lemma wpD: "wp m Q s \<Longrightarrow> run_state m s = (r, t) \<Longrightarrow> Q r t"
  by (simp add: wp_def)

lemma wpI: "(\<And>r t. run_state m s = (r, t) \<Longrightarrow> Q r t) \<Longrightarrow> wp m Q s"
  by (simp add: wp_def split: prod.splits)

end
