(* ===== verification/Ota_Manager.thy ===== *)
theory Ota_Manager
  imports Mode_State Stateful
begin

text \<open>
  The firmware update manager, \<^verbatim>\<open>firmware/components/ota_manager/ota_manager.c\<close>: one update session,
  guarded by a mutex, that a USB or an authenticated network client opens, fills with consecutive
  chunks, commits (validation, then selection of the boot partition) or aborts. The mode state and
  the DAP ownership are told so that no debug access runs during an update.

  The state is the C global \<^verbatim>\<open>session\<close> with whether the mutex exists; every call that leaves the
  component is a field of the record \<open>ota_env\<close>, a function on the state of the outside. For the
  calls into the mode state and the ownership arbiter the record is instantiated with their models
  in \<open>Ota_Firmware\<close>. A connection and a callback are addresses, with \<open>0\<close> for NULL.
\<close>

section \<open>Data\<close>

datatype airdap_ota_status =
    OTA_STATUS_OK | OTA_STATUS_INVALID_ARGUMENT | OTA_STATUS_INVALID_STATE
  | OTA_STATUS_INVALID_SIZE | OTA_STATUS_INVALID_OFFSET | OTA_STATUS_INCOMPLETE_IMAGE
  | OTA_STATUS_WRITE_FAILED | OTA_STATUS_VALIDATION_FAILED | OTA_STATUS_ACTIVATION_FAILED
  | OTA_STATUS_INTERNAL_ERROR | OTA_STATUS_UNAUTHENTICATED | OTA_STATUS_BUSY

datatype ota_session_state = OTA_SESSION_IDLE | OTA_SESSION_RECEIVING | OTA_SESSION_COMMITTED

datatype esp_ota_img_state =
    ESP_OTA_IMG_NEW | ESP_OTA_IMG_PENDING_VERIFY | ESP_OTA_IMG_VALID | ESP_OTA_IMG_INVALID
  | ESP_OTA_IMG_ABORTED | ESP_OTA_IMG_UNDEFINED

text \<open>The fields of \<^verbatim>\<open>esp_partition_t\<close> the component reads.\<close>

record esp_partition =
  part_address :: u32
  part_size :: nat

record ota_session =
  se_partition :: "esp_partition option"
  se_handle :: u32
  se_expected_size :: u32
  se_written_size :: u32
  se_state :: ota_session_state
  se_connection :: nat
  se_owner_session :: u32
  se_disconnected :: bool

record airdap_ota_client =
  cl_connection :: nat
  cl_session_id :: u32
  cl_authorize :: nat

record airdap_ota_info =
  info_max_image_size :: u32
  info_running_address :: u32
  info_update_address :: u32
  info_running_valid :: bool
  info_protocol_version :: u8
  info_flags :: u8
  info_running_version :: bytes

abbreviation (input) AIRDAP_OTA_VERSION_CAPACITY :: nat where "AIRDAP_OTA_VERSION_CAPACITY \<equiv> 32"
abbreviation (input) AIRDAP_OTA_PROTOCOL_VERSION :: u8 where "AIRDAP_OTA_PROTOCOL_VERSION \<equiv> 1"
abbreviation (input) AIRDAP_OTA_FLAG_ROLLBACK :: u8 where "AIRDAP_OTA_FLAG_ROLLBACK \<equiv> 1"

record 'h ota_env =
  oe_take_mutex :: "'h \<Rightarrow> bool \<times> 'h"
  oe_give_mutex :: "'h \<Rightarrow> unit \<times> 'h"
  oe_create_mutex :: "'h \<Rightarrow> bool \<times> 'h"
  oe_authorize :: "nat \<Rightarrow> nat \<Rightarrow> u32 \<Rightarrow> 'h \<Rightarrow> bool \<times> 'h"
  oe_mode_transition :: "airdap_mode_event \<Rightarrow> 'h \<Rightarrow> airdap_mode_state_result \<times> 'h"
  oe_mode_get :: "'h \<Rightarrow> (airdap_mode_state_result \<times> airdap_mode_snapshot option) \<times> 'h"
  oe_ownership_suspend :: "'h \<Rightarrow> airdap_dap_ownership_result \<times> 'h"
  oe_ownership_resume :: "'h \<Rightarrow> airdap_dap_ownership_result \<times> 'h"
  oe_uart_suspend :: "'h \<Rightarrow> esp_err \<times> 'h"
  oe_uart_resume :: "'h \<Rightarrow> esp_err \<times> 'h"
  oe_next_partition :: "'h \<Rightarrow> esp_partition option \<times> 'h"
  oe_running_partition :: "'h \<Rightarrow> esp_partition option \<times> 'h"
  oe_state_partition :: "esp_partition \<Rightarrow> 'h \<Rightarrow> (esp_err \<times> esp_ota_img_state) \<times> 'h"
  oe_mark_valid :: "'h \<Rightarrow> esp_err \<times> 'h"
  oe_firmware_version :: "'h \<Rightarrow> bytes option \<times> 'h"
  oe_begin :: "esp_partition \<Rightarrow> 'h \<Rightarrow> (esp_err \<times> u32) \<times> 'h"
  oe_write :: "u32 \<Rightarrow> bytes \<Rightarrow> 'h \<Rightarrow> esp_err \<times> 'h"
  oe_end :: "u32 \<Rightarrow> 'h \<Rightarrow> esp_err \<times> 'h"
  oe_abort :: "u32 \<Rightarrow> 'h \<Rightarrow> esp_err \<times> 'h"
  oe_set_boot_partition :: "esp_partition option \<Rightarrow> 'h \<Rightarrow> esp_err \<times> 'h"
  oe_restart :: "'h \<Rightarrow> unit \<times> 'h"

record 'h ota =
  ot_session :: ota_session
  ot_mutex :: bool
  ot_world :: 'h

definition zero_session :: ota_session where
  "zero_session = \<lparr>se_partition = None, se_handle = 0, se_expected_size = 0, se_written_size = 0,
     se_state = OTA_SESSION_IDLE, se_connection = 0, se_owner_session = 0, se_disconnected = False\<rparr>"

text \<open>A call that leaves the component.\<close>

definition ocall :: "('h \<Rightarrow> 'r \<times> 'h) \<Rightarrow> ('h ota, 'r) state" where
  "ocall f = State (\<lambda>s. case f (ot_world s) of (r, h) \<Rightarrow> (r, s\<lparr>ot_world := h\<rparr>))"

definition set_session :: "(ota_session \<Rightarrow> ota_session) \<Rightarrow> ('h ota, unit) state" where
  "set_session f = updates (\<lambda>s. s\<lparr>ot_session := f (ot_session s)\<rparr>)"

section \<open>Helpers\<close>

definition lock_session :: "'h ota_env \<Rightarrow> ('h ota, bool) state" where
  "lock_session E = do {
     created \<leftarrow> reads ot_mutex;
     if created then ocall (oe_take_mutex E) else State_Monad.return False }"

definition unlock_session :: "'h ota_env \<Rightarrow> ('h ota, unit) state" where
  "unlock_session E = ocall (oe_give_mutex E)"

definition authorized :: "'h ota_env \<Rightarrow> airdap_ota_client option \<Rightarrow> ('h ota, bool) state" where
  "authorized E client =
     (case client of None \<Rightarrow> State_Monad.return True
      | Some c \<Rightarrow>
          if cl_connection c \<noteq> 0 \<and> cl_session_id c \<noteq> 0 \<and> cl_authorize c \<noteq> 0
          then ocall (oe_authorize E (cl_authorize c) (cl_connection c) (cl_session_id c))
          else State_Monad.return False)"

text \<open>The owner a session records for a client.\<close>

definition client_connection :: "airdap_ota_client option \<Rightarrow> nat" where
  "client_connection client = (case client of None \<Rightarrow> 0 | Some c \<Rightarrow> cl_connection c)"

definition client_session :: "airdap_ota_client option \<Rightarrow> u32" where
  "client_session client = (case client of None \<Rightarrow> 0 | Some c \<Rightarrow> cl_session_id c)"

definition owns_session :: "airdap_ota_client option \<Rightarrow> ota_session \<Rightarrow> bool" where
  "owns_session client se \<longleftrightarrow>
     se_connection se = client_connection client \<and> se_owner_session se = client_session client"

definition reset_session :: "('h ota, unit) state" where
  "reset_session = set_session (\<lambda>_. zero_session)"

definition restore_idle_mode :: "'h ota_env \<Rightarrow> airdap_mode_event \<Rightarrow> ('h ota, bool) state" where
  "restore_idle_mode E event = do {
     mode_result \<leftarrow> ocall (oe_mode_transition E event);
     if mode_result \<noteq> MODE_OK then State_Monad.return False
     else do {
       ownership_result \<leftarrow> ocall (oe_ownership_resume E);
       if ownership_result = OWNERSHIP_OK
       then do { error \<leftarrow> ocall (oe_uart_resume E); State_Monad.return (error = ESP_OK) }
       else State_Monad.return False } }"

text \<open>\<^verbatim>\<open>return restore_idle_mode(event) ? status : AIRDAP_OTA_STATUS_INTERNAL_ERROR;\<close>\<close>

definition restored_status ::
  "'h ota_env \<Rightarrow> airdap_mode_event \<Rightarrow> airdap_ota_status \<Rightarrow> ('h ota, airdap_ota_status) state"
where
  "restored_status E event status = do {
     restored \<leftarrow> restore_idle_mode E event;
     State_Monad.return (if restored then status else OTA_STATUS_INTERNAL_ERROR) }"

section \<open>Operations under the mutex\<close>

definition initialize_locked :: "'h ota_env \<Rightarrow> ('h ota, esp_err) state" where
  "initialize_locked E = do {
     se \<leftarrow> reads ot_session;
     abort_error \<leftarrow> (if se_state se = OTA_SESSION_RECEIVING then ocall (oe_abort E (se_handle se))
                    else State_Monad.return ESP_OK);
     reset_session;
     mode_result \<leftarrow> ocall (oe_mode_transition E EVENT_OTA_RESET);
     if mode_result \<noteq> MODE_OK then State_Monad.return ESP_ERR_INVALID_STATE
     else do {
       ownership_result \<leftarrow> ocall (oe_ownership_resume E);
       if ownership_result \<noteq> OWNERSHIP_OK \<and> ownership_result \<noteq> OWNERSHIP_INVALID_STATE
       then State_Monad.return ESP_ERR_INVALID_STATE
       else do {
         error \<leftarrow> ocall (oe_uart_resume E);
         State_Monad.return (if error = ESP_OK then abort_error else ESP_FAIL) } } }"

definition debug_allowed_locked :: "'h ota_env \<Rightarrow> ('h ota, bool) state" where
  "debug_allowed_locked E = do {
     se \<leftarrow> reads ot_session;
     if se_state se \<noteq> OTA_SESSION_IDLE then State_Monad.return False
     else do {
       (mode_result, mode) \<leftarrow> ocall (oe_mode_get E);
       State_Monad.return (mode_result = MODE_OK \<and> map_option snap_ota mode = Some AIRDAP_OTA_IDLE) } }"

text \<open>
  The loop that measures the version, a C string: the list holds its bytes and ends where the
  terminator is.
\<close>

fun version_length_loop :: "nat \<Rightarrow> bytes \<Rightarrow> nat" where
  "version_length_loop 0 version = 0"
| "version_length_loop (Suc capacity) [] = 0"
| "version_length_loop (Suc capacity) (c # version) =
     (if c = 0 then 0 else Suc (version_length_loop capacity version))"

text \<open>\<open>info_present\<close>: \<^verbatim>\<open>info\<close> is non-NULL. The written structure is part of the result.\<close>

definition get_info_locked ::
  "'h ota_env \<Rightarrow> bool \<Rightarrow> ('h ota, airdap_ota_status \<times> airdap_ota_info option) state"
where
  "get_info_locked E info_present =
     (if \<not> info_present then State_Monad.return (OTA_STATUS_INVALID_ARGUMENT, None)
      else do {
        part \<leftarrow> ocall (oe_next_partition E);
        identity \<leftarrow> ocall (oe_firmware_version E);
        case (part, identity) of
          (Some p, Some firmware_version) \<Rightarrow>
            if part_size p > unat UINT32_MAX
            then State_Monad.return (OTA_STATUS_INTERNAL_ERROR, None)
            else do {
              running \<leftarrow> ocall (oe_running_partition E);
              case running of None \<Rightarrow> State_Monad.return (OTA_STATUS_INTERNAL_ERROR, None)
              | Some r \<Rightarrow> do {
                  (error, running_state) \<leftarrow> ocall (oe_state_partition E r);
                  if error \<noteq> ESP_OK then State_Monad.return (OTA_STATUS_INTERNAL_ERROR, None)
                  else let version_length =
                         version_length_loop AIRDAP_OTA_VERSION_CAPACITY firmware_version in
                    State_Monad.return (OTA_STATUS_OK, Some
                      \<lparr>info_max_image_size = of_nat (part_size p),
                       info_running_address = part_address r,
                       info_update_address = part_address p,
                       info_running_valid = (running_state = ESP_OTA_IMG_VALID),
                       info_protocol_version = AIRDAP_OTA_PROTOCOL_VERSION,
                       info_flags = AIRDAP_OTA_FLAG_ROLLBACK,
                       info_running_version = take version_length firmware_version @
                         replicate (AIRDAP_OTA_VERSION_CAPACITY + 1 - version_length) 0\<rparr>) } }
        | _ \<Rightarrow> State_Monad.return (OTA_STATUS_INTERNAL_ERROR, None) })"

text \<open>
  Begin after the arguments are checked and the debug port is suspended: the steps that can still
  fail and what has to be undone then.
\<close>

definition start_image ::
  "'h ota_env \<Rightarrow> airdap_ota_client option \<Rightarrow> esp_partition \<Rightarrow> u32 \<Rightarrow> ('h ota, airdap_ota_status) state"
where
  "start_image E client part image_size = do {
     (error, handle) \<leftarrow> ocall (oe_begin E part);
     if error \<noteq> ESP_OK
     then do {
       whenever (handle \<noteq> 0) (ignoring (ocall (oe_abort E handle)));
       ignoring (restore_idle_mode E EVENT_OTA_FAILED);
       State_Monad.return OTA_STATUS_INTERNAL_ERROR }
     else do {
       set_session (\<lambda>se. se\<lparr>se_partition := Some part, se_handle := handle,
         se_expected_size := image_size, se_written_size := 0,
         se_state := OTA_SESSION_RECEIVING,
         se_connection := client_connection client, se_owner_session := client_session client\<rparr>);
       State_Monad.return OTA_STATUS_OK } }"

definition open_session ::
  "'h ota_env \<Rightarrow> airdap_ota_client option \<Rightarrow> esp_partition \<Rightarrow> u32 \<Rightarrow> ('h ota, airdap_ota_status) state"
where
  "open_session E client part image_size = do {
     uart_error \<leftarrow> ocall (oe_uart_suspend E);
     if uart_error \<noteq> ESP_OK
     then do { ignoring (restore_idle_mode E EVENT_OTA_FAILED); State_Monad.return OTA_STATUS_BUSY }
     else do {
       allowed \<leftarrow> authorized E client;
       if \<not> allowed
       then do { ignoring (restore_idle_mode E EVENT_OTA_FAILED);
                 State_Monad.return OTA_STATUS_UNAUTHENTICATED }
       else start_image E client part image_size } }"

definition suspend_and_open ::
  "'h ota_env \<Rightarrow> airdap_ota_client option \<Rightarrow> esp_partition \<Rightarrow> u32 \<Rightarrow> ('h ota, airdap_ota_status) state"
where
  "suspend_and_open E client part image_size = do {
     ownership_result \<leftarrow> ocall (oe_ownership_suspend E);
     if ownership_result = OWNERSHIP_BUSY
     then do {
       mode_result \<leftarrow> ocall (oe_mode_transition E EVENT_OTA_FAILED);
       State_Monad.return (if mode_result = MODE_OK then OTA_STATUS_INVALID_STATE
                           else OTA_STATUS_INTERNAL_ERROR) }
     else if ownership_result \<noteq> OWNERSHIP_OK
     then do {
       mode_result \<leftarrow> ocall (oe_mode_transition E EVENT_OTA_FAILED);
       State_Monad.return OTA_STATUS_INTERNAL_ERROR }
     else open_session E client part image_size }"

definition begin_locked ::
  "'h ota_env \<Rightarrow> airdap_ota_client option \<Rightarrow> u32 \<Rightarrow> ('h ota, airdap_ota_status) state"
where
  "begin_locked E client image_size = do {
     se \<leftarrow> reads ot_session;
     if se_state se \<noteq> OTA_SESSION_IDLE then State_Monad.return OTA_STATUS_INVALID_STATE
     else do {
       part \<leftarrow> ocall (oe_next_partition E);
       case part of None \<Rightarrow> State_Monad.return OTA_STATUS_INTERNAL_ERROR
       | Some p \<Rightarrow>
           if part_size p > unat UINT32_MAX then State_Monad.return OTA_STATUS_INTERNAL_ERROR
           else if image_size = 0 \<or> unat image_size > part_size p
           then State_Monad.return OTA_STATUS_INVALID_SIZE
           else do {
             mode_result \<leftarrow> ocall (oe_mode_transition E EVENT_OTA_STARTED);
             if mode_result \<noteq> MODE_OK then State_Monad.return OTA_STATUS_INTERNAL_ERROR
             else suspend_and_open E client p image_size } } }"

text \<open>
  \<open>data\<close> is the chunk (\<^const>\<open>None\<close> for a NULL pointer) and its length the argument \<^verbatim>\<open>size\<close>;
  the second component of the result is the value written to \<^verbatim>\<open>next_offset\<close>.
\<close>

definition write_locked ::
  "'h ota_env \<Rightarrow> u32 \<Rightarrow> bytes option \<Rightarrow> bool \<Rightarrow> ('h ota, airdap_ota_status \<times> u32 option) state"
where
  "write_locked E offset data next_offset_present = do {
     se \<leftarrow> reads ot_session;
     if se_state se \<noteq> OTA_SESSION_RECEIVING then State_Monad.return (OTA_STATUS_INVALID_STATE, None)
     else case data of None \<Rightarrow> State_Monad.return (OTA_STATUS_INVALID_ARGUMENT, None)
     | Some d \<Rightarrow>
         if \<not> next_offset_present then State_Monad.return (OTA_STATUS_INVALID_ARGUMENT, None)
         else if offset \<noteq> se_written_size se
         then State_Monad.return (OTA_STATUS_INVALID_OFFSET, None)
         else if length d = 0 \<or> length d > unat (se_expected_size se - se_written_size se)
         then State_Monad.return (OTA_STATUS_INVALID_SIZE, None)
         else do {
           error \<leftarrow> ocall (oe_write E (se_handle se) d);
           if error \<noteq> ESP_OK
           then do {
             abort_error \<leftarrow> ocall (oe_abort E (se_handle se));
             if abort_error \<noteq> ESP_OK then State_Monad.return (OTA_STATUS_INTERNAL_ERROR, None)
             else do {
               reset_session;
               status \<leftarrow> restored_status E EVENT_OTA_FAILED OTA_STATUS_WRITE_FAILED;
               State_Monad.return (status, None) } }
           else do {
             set_session (\<lambda>se. se\<lparr>se_written_size := se_written_size se + of_nat (length d)\<rparr>);
             se \<leftarrow> reads ot_session;
             State_Monad.return (OTA_STATUS_OK, Some (se_written_size se)) } } }"

text \<open>Commit after \<^verbatim>\<open>esp_ota_end\<close> has accepted the image, and after the client is authorised again.\<close>

definition activate_image ::
  "'h ota_env \<Rightarrow> esp_partition option \<Rightarrow> ('h ota, airdap_ota_status) state"
where
  "activate_image E part = do {
     error \<leftarrow> ocall (oe_set_boot_partition E part);
     if error \<noteq> ESP_OK
     then do { reset_session; restored_status E EVENT_OTA_FAILED OTA_STATUS_ACTIVATION_FAILED }
     else do {
       set_session (\<lambda>se. se\<lparr>se_partition := part, se_handle := 0,
         se_expected_size := 0, se_written_size := 0, se_state := OTA_SESSION_COMMITTED\<rparr>);
       mode_result \<leftarrow> ocall (oe_mode_transition E EVENT_OTA_COMMITTED);
       State_Monad.return (if mode_result \<noteq> MODE_OK then OTA_STATUS_INTERNAL_ERROR
                           else OTA_STATUS_OK) } }"

definition finish_commit ::
  "'h ota_env \<Rightarrow> airdap_ota_client option \<Rightarrow> esp_partition option \<Rightarrow> ('h ota, airdap_ota_status) state"
where
  "finish_commit E client part = do {
     allowed \<leftarrow> authorized E client;
     if \<not> allowed
     then do { reset_session; ignoring (restore_idle_mode E EVENT_OTA_FAILED);
               State_Monad.return OTA_STATUS_UNAUTHENTICATED }
     else activate_image E part }"

definition commit_locked ::
  "'h ota_env \<Rightarrow> airdap_ota_client option \<Rightarrow> ('h ota, airdap_ota_status) state"
where
  "commit_locked E client = do {
     se \<leftarrow> reads ot_session;
     if se_state se \<noteq> OTA_SESSION_RECEIVING then State_Monad.return OTA_STATUS_INVALID_STATE
     else if se_written_size se \<noteq> se_expected_size se
     then State_Monad.return OTA_STATUS_INCOMPLETE_IMAGE
     else do {
       error \<leftarrow> ocall (oe_end E (se_handle se));
       if error \<noteq> ESP_OK
       then do { reset_session; restored_status E EVENT_OTA_FAILED OTA_STATUS_VALIDATION_FAILED }
       else finish_commit E client (se_partition se) } }"

definition abort_locked :: "'h ota_env \<Rightarrow> ('h ota, airdap_ota_status) state" where
  "abort_locked E = do {
     se \<leftarrow> reads ot_session;
     if se_state se = OTA_SESSION_IDLE then State_Monad.return OTA_STATUS_OK
     else if se_state se = OTA_SESSION_COMMITTED then State_Monad.return OTA_STATUS_INVALID_STATE
     else do {
       error \<leftarrow> ocall (oe_abort E (se_handle se));
       if error \<noteq> ESP_OK then State_Monad.return OTA_STATUS_INTERNAL_ERROR
       else do { reset_session; restored_status E EVENT_OTA_ABORTED OTA_STATUS_OK } } }"

text \<open>\<^verbatim>\<open>esp_restart\<close> does not return; the model records the call and continues.\<close>

definition reboot_locked :: "'h ota_env \<Rightarrow> ('h ota, airdap_ota_status) state" where
  "reboot_locked E = do {
     se \<leftarrow> reads ot_session;
     if se_state se \<noteq> OTA_SESSION_COMMITTED then State_Monad.return OTA_STATUS_INVALID_STATE
     else do { ignoring (ocall (oe_restart E)); State_Monad.return OTA_STATUS_OK } }"

definition airdap_ota_confirm_running_image :: "'h ota_env \<Rightarrow> ('h ota, esp_err) state" where
  "airdap_ota_confirm_running_image E = do {
     running \<leftarrow> ocall (oe_running_partition E);
     case running of None \<Rightarrow> State_Monad.return ESP_FAIL
     | Some r \<Rightarrow> do {
         (error, state) \<leftarrow> ocall (oe_state_partition E r);
         if error \<noteq> ESP_OK then State_Monad.return error
         else if state = ESP_OTA_IMG_PENDING_VERIFY then ocall (oe_mark_valid E)
         else State_Monad.return ESP_OK } }"

section \<open>The interface\<close>

text \<open>\<^verbatim>\<open>if (!lock_session()) return failed; result = body; unlock_session(); return result;\<close>\<close>

definition with_session :: "'h ota_env \<Rightarrow> 'r \<Rightarrow> ('h ota, 'r) state \<Rightarrow> ('h ota, 'r) state" where
  "with_session E failed body = do {
     locked \<leftarrow> lock_session E;
     if \<not> locked then State_Monad.return failed
     else do { result \<leftarrow> body; unlock_session E; State_Monad.return result } }"

definition airdap_ota_initialize :: "'h ota_env \<Rightarrow> ('h ota, esp_err) state" where
  "airdap_ota_initialize E = do {
     created \<leftarrow> reads ot_mutex;
     whenever (\<not> created) (do {
       created \<leftarrow> ocall (oe_create_mutex E);
       updates (\<lambda>s. s\<lparr>ot_mutex := created\<rparr>) });
     with_session E ESP_FAIL (initialize_locked E) }"

definition airdap_ota_debug_allowed :: "'h ota_env \<Rightarrow> ('h ota, bool) state" where
  "airdap_ota_debug_allowed E = with_session E False (debug_allowed_locked E)"

definition airdap_ota_get_info ::
  "'h ota_env \<Rightarrow> bool \<Rightarrow> ('h ota, airdap_ota_status \<times> airdap_ota_info option) state"
where
  "airdap_ota_get_info E info_present =
     with_session E (OTA_STATUS_INTERNAL_ERROR, None) (get_info_locked E info_present)"

definition airdap_ota_begin_for_client ::
  "'h ota_env \<Rightarrow> airdap_ota_client option \<Rightarrow> u32 \<Rightarrow> ('h ota, airdap_ota_status) state"
where
  "airdap_ota_begin_for_client E client image_size =
     with_session E OTA_STATUS_INTERNAL_ERROR (do {
       allowed \<leftarrow> authorized E client;
       se \<leftarrow> reads ot_session;
       if \<not> allowed then State_Monad.return OTA_STATUS_UNAUTHENTICATED
       else if se_state se \<noteq> OTA_SESSION_IDLE \<and> \<not> owns_session client se
       then State_Monad.return OTA_STATUS_BUSY
       else begin_locked E client image_size })"

definition airdap_ota_begin :: "'h ota_env \<Rightarrow> u32 \<Rightarrow> ('h ota, airdap_ota_status) state" where
  "airdap_ota_begin E image_size = airdap_ota_begin_for_client E None image_size"

definition airdap_ota_write_for_client ::
  "'h ota_env \<Rightarrow> airdap_ota_client option \<Rightarrow> u32 \<Rightarrow> bytes option \<Rightarrow> bool \<Rightarrow>
   ('h ota, airdap_ota_status \<times> u32 option) state"
where
  "airdap_ota_write_for_client E client offset data next_offset_present =
     with_session E (OTA_STATUS_INTERNAL_ERROR, None) (do {
       allowed \<leftarrow> authorized E client;
       se \<leftarrow> reads ot_session;
       if \<not> allowed then State_Monad.return (OTA_STATUS_UNAUTHENTICATED, None)
       else if se_state se \<noteq> OTA_SESSION_IDLE \<and> \<not> owns_session client se
       then State_Monad.return (OTA_STATUS_BUSY, None)
       else write_locked E offset data next_offset_present })"

definition airdap_ota_write ::
  "'h ota_env \<Rightarrow> u32 \<Rightarrow> bytes option \<Rightarrow> bool \<Rightarrow> ('h ota, airdap_ota_status \<times> u32 option) state"
where
  "airdap_ota_write E offset data next_offset_present =
     airdap_ota_write_for_client E None offset data next_offset_present"

definition airdap_ota_commit_for_client ::
  "'h ota_env \<Rightarrow> airdap_ota_client option \<Rightarrow> ('h ota, airdap_ota_status) state"
where
  "airdap_ota_commit_for_client E client =
     with_session E OTA_STATUS_INTERNAL_ERROR (do {
       allowed \<leftarrow> authorized E client;
       se \<leftarrow> reads ot_session;
       if \<not> allowed then State_Monad.return OTA_STATUS_UNAUTHENTICATED
       else if se_state se \<noteq> OTA_SESSION_IDLE \<and> \<not> owns_session client se
       then State_Monad.return OTA_STATUS_BUSY
       else commit_locked E client })"

definition airdap_ota_commit :: "'h ota_env \<Rightarrow> ('h ota, airdap_ota_status) state" where
  "airdap_ota_commit E = airdap_ota_commit_for_client E None"

definition airdap_ota_abort_for_client ::
  "'h ota_env \<Rightarrow> airdap_ota_client option \<Rightarrow> ('h ota, airdap_ota_status) state"
where
  "airdap_ota_abort_for_client E client =
     with_session E OTA_STATUS_INTERNAL_ERROR (do {
       allowed \<leftarrow> authorized E client;
       se \<leftarrow> reads ot_session;
       if \<not> allowed then State_Monad.return OTA_STATUS_UNAUTHENTICATED
       else if se_state se \<noteq> OTA_SESSION_IDLE \<and> \<not> owns_session client se \<and> \<not> se_disconnected se
       then State_Monad.return OTA_STATUS_BUSY
       else abort_locked E })"

definition airdap_ota_abort :: "'h ota_env \<Rightarrow> ('h ota, airdap_ota_status) state" where
  "airdap_ota_abort E = airdap_ota_abort_for_client E None"

definition airdap_ota_reboot_for_client ::
  "'h ota_env \<Rightarrow> airdap_ota_client option \<Rightarrow> ('h ota, airdap_ota_status) state"
where
  "airdap_ota_reboot_for_client E client =
     with_session E OTA_STATUS_INTERNAL_ERROR (do {
       allowed \<leftarrow> authorized E client;
       if \<not> allowed then State_Monad.return OTA_STATUS_UNAUTHENTICATED
       else reboot_locked E })"

definition airdap_ota_reboot :: "'h ota_env \<Rightarrow> ('h ota, airdap_ota_status) state" where
  "airdap_ota_reboot E = airdap_ota_reboot_for_client E None"

definition airdap_ota_disconnect_client ::
  "'h ota_env \<Rightarrow> airdap_ota_client option \<Rightarrow> ('h ota, airdap_ota_status) state"
where
  "airdap_ota_disconnect_client E client =
     with_session E OTA_STATUS_INTERNAL_ERROR (do {
       se \<leftarrow> reads ot_session;
       if se_state se = OTA_SESSION_RECEIVING \<and> owns_session client se
       then do { set_session (\<lambda>se. se\<lparr>se_disconnected := True\<rparr>); abort_locked E }
       else State_Monad.return OTA_STATUS_OK })"

definition airdap_ota_handle_disconnect :: "'h ota_env \<Rightarrow> ('h ota, unit) state" where
  "airdap_ota_handle_disconnect E = ignoring (airdap_ota_disconnect_client E None)"

definition airdap_ota_prepare_reboot ::
  "'h ota_env \<Rightarrow> airdap_ota_client option \<Rightarrow> ('h ota, airdap_ota_status) state"
where
  "airdap_ota_prepare_reboot E client =
     with_session E OTA_STATUS_INTERNAL_ERROR (do {
       allowed \<leftarrow> authorized E client;
       se \<leftarrow> reads ot_session;
       State_Monad.return (if \<not> allowed then OTA_STATUS_UNAUTHENTICATED
         else if se_state se = OTA_SESSION_COMMITTED then OTA_STATUS_OK
         else OTA_STATUS_INVALID_STATE) })"

end
