(* ===== verification/Ota_Session.thy ===== *)
theory Ota_Session
  imports Ota_Manager
begin

text \<open>
  What the update manager promises, for every behaviour of the platform below it: the session is a
  refinement of a small abstract update machine, only a complete and validated image of the current
  client becomes the boot image, and other clients cannot interfere. A monitor around the platform
  records the flash operations; it only observes.
\<close>

section \<open>Rules\<close>

lemma wp_ocall [wp_simps]:
  "wp (ocall f) Q s = (case f (ot_world s) of (r, h) \<Rightarrow> Q r (s\<lparr>ot_world := h\<rparr>))"
  by (simp add: wp_def ocall_def split: prod.splits)

lemma wp_set_session [wp_simps]:
  "wp (set_session f) Q s = Q () (s\<lparr>ot_session := f (ot_session s)\<rparr>)"
  by (simp add: set_session_def wp_simps)

lemma wp_reset_session [wp_simps]: "wp reset_session Q s = Q () (s\<lparr>ot_session := zero_session\<rparr>)"
  by (simp add: reset_session_def wp_simps)

section \<open>The flash monitor\<close>

text \<open>
  \<open>fm_open\<close> is the image being received: its partition, the handle and the bytes of the successful
  writes. \<open>fm_valid\<close> is an image that \<^verbatim>\<open>esp_ota_end\<close> has accepted and that has not been activated,
  \<open>fm_auth\<close> the last answer of an authorisation callback since then, \<open>fm_boot\<close> the image last selected
  for booting. \<open>fm_violation\<close> is raised by a write or an end on another handle than the open one, and by
  the activation of a partition that does not hold the validated image.
\<close>

record 'h flash_monitor =
  fm_open :: "(esp_partition \<times> u32 \<times> bytes) option"
  fm_valid :: "(esp_partition \<times> bytes) option"
  fm_auth :: "(nat \<times> u32 \<times> bool) option"
  fm_boot :: "(esp_partition \<times> bytes) option"
  fm_violation :: bool
  fm_inner :: 'h

definition inner :: "('h \<Rightarrow> 'r \<times> 'h) \<Rightarrow> 'h flash_monitor \<Rightarrow> 'r \<times> 'h flash_monitor" where
  "inner f m = (case f (fm_inner m) of (r, h) \<Rightarrow> (r, m\<lparr>fm_inner := h\<rparr>))"

definition note_begin ::
  "esp_partition \<Rightarrow> (esp_err \<times> u32) \<times> 'h flash_monitor \<Rightarrow> (esp_err \<times> u32) \<times> 'h flash_monitor"
where
  "note_begin p = (\<lambda>((error, handle), m).
     ((error, handle), if error = ESP_OK then m\<lparr>fm_open := Some (p, handle, [])\<rparr> else m))"

definition note_write ::
  "u32 \<Rightarrow> bytes \<Rightarrow> esp_err \<times> 'h flash_monitor \<Rightarrow> esp_err \<times> 'h flash_monitor"
where
  "note_write handle d = (\<lambda>(error, m).
     (error, case fm_open m of
        Some (p, h, img) \<Rightarrow>
          if h \<noteq> handle then m\<lparr>fm_violation := True\<rparr>
          else if error = ESP_OK then m\<lparr>fm_open := Some (p, h, img @ d)\<rparr> else m
      | None \<Rightarrow> m\<lparr>fm_violation := True\<rparr>))"

definition note_end :: "u32 \<Rightarrow> esp_err \<times> 'h flash_monitor \<Rightarrow> esp_err \<times> 'h flash_monitor" where
  "note_end handle = (\<lambda>(error, m).
     (error, case fm_open m of
        Some (p, h, img) \<Rightarrow>
          if h \<noteq> handle then m\<lparr>fm_violation := True\<rparr>
          else m\<lparr>fm_open := None, fm_valid := (if error = ESP_OK then Some (p, img) else None),
                 fm_auth := None\<rparr>
      | None \<Rightarrow> m\<lparr>fm_violation := True\<rparr>))"

definition note_boot ::
  "esp_partition option \<Rightarrow> esp_err \<times> 'h flash_monitor \<Rightarrow> esp_err \<times> 'h flash_monitor"
where
  "note_boot p = (\<lambda>(error, m).
     (error, if p = None \<or> map_option fst (fm_valid m) \<noteq> p then m\<lparr>fm_violation := True\<rparr>
             else if error = ESP_OK then m\<lparr>fm_boot := fm_valid m\<rparr> else m))"

definition note_auth ::
  "nat \<Rightarrow> u32 \<Rightarrow> bool \<times> 'h flash_monitor \<Rightarrow> bool \<times> 'h flash_monitor"
where
  "note_auth connection session_id = (\<lambda>(granted, m).
     (granted, m\<lparr>fm_auth := Some (connection, session_id, granted)\<rparr>))"

definition monitored_ota :: "'h ota_env \<Rightarrow> 'h flash_monitor ota_env" where
  "monitored_ota E = \<lparr>
     oe_take_mutex = inner (oe_take_mutex E),
     oe_give_mutex = inner (oe_give_mutex E),
     oe_create_mutex = inner (oe_create_mutex E),
     oe_authorize = (\<lambda>f c i m. note_auth c i (inner (oe_authorize E f c i) m)),
     oe_mode_transition = (\<lambda>e. inner (oe_mode_transition E e)),
     oe_mode_get = inner (oe_mode_get E),
     oe_ownership_suspend = inner (oe_ownership_suspend E),
     oe_ownership_resume = inner (oe_ownership_resume E),
     oe_uart_suspend = inner (oe_uart_suspend E),
     oe_uart_resume = inner (oe_uart_resume E),
     oe_next_partition = inner (oe_next_partition E),
     oe_running_partition = inner (oe_running_partition E),
     oe_state_partition = (\<lambda>p. inner (oe_state_partition E p)),
     oe_mark_valid = inner (oe_mark_valid E),
     oe_firmware_version = inner (oe_firmware_version E),
     oe_begin = (\<lambda>p m. note_begin p (inner (oe_begin E p) m)),
     oe_write = (\<lambda>h d m. note_write h d (inner (oe_write E h d) m)),
     oe_end = (\<lambda>h m. note_end h (inner (oe_end E h) m)),
     oe_abort = (\<lambda>h. inner (oe_abort E h)),
     oe_set_boot_partition = (\<lambda>p m. note_boot p (inner (oe_set_boot_partition E p) m)),
     oe_restart = inner (oe_restart E)\<rparr>"

lemma monitored_ota_fields [simp]:
  "oe_take_mutex (monitored_ota E) = inner (oe_take_mutex E)"
  "oe_give_mutex (monitored_ota E) = inner (oe_give_mutex E)"
  "oe_create_mutex (monitored_ota E) = inner (oe_create_mutex E)"
  "oe_authorize (monitored_ota E) f c i m = note_auth c i (inner (oe_authorize E f c i) m)"
  "oe_mode_transition (monitored_ota E) e = inner (oe_mode_transition E e)"
  "oe_mode_get (monitored_ota E) = inner (oe_mode_get E)"
  "oe_ownership_suspend (monitored_ota E) = inner (oe_ownership_suspend E)"
  "oe_ownership_resume (monitored_ota E) = inner (oe_ownership_resume E)"
  "oe_uart_suspend (monitored_ota E) = inner (oe_uart_suspend E)"
  "oe_uart_resume (monitored_ota E) = inner (oe_uart_resume E)"
  "oe_next_partition (monitored_ota E) = inner (oe_next_partition E)"
  "oe_running_partition (monitored_ota E) = inner (oe_running_partition E)"
  "oe_state_partition (monitored_ota E) p = inner (oe_state_partition E p)"
  "oe_mark_valid (monitored_ota E) = inner (oe_mark_valid E)"
  "oe_firmware_version (monitored_ota E) = inner (oe_firmware_version E)"
  "oe_begin (monitored_ota E) p m = note_begin p (inner (oe_begin E p) m)"
  "oe_write (monitored_ota E) h d m = note_write h d (inner (oe_write E h d) m)"
  "oe_end (monitored_ota E) h m = note_end h (inner (oe_end E h) m)"
  "oe_abort (monitored_ota E) h = inner (oe_abort E h)"
  "oe_set_boot_partition (monitored_ota E) b m = note_boot b (inner (oe_set_boot_partition E b) m)"
  "oe_restart (monitored_ota E) = inner (oe_restart E)"
  by (simp_all add: monitored_ota_def)

section \<open>The abstract update machine\<close>

datatype ota_call =
    Ota_initialize
  | Ota_begin "airdap_ota_client option" u32
  | Ota_write "airdap_ota_client option" u32 "bytes option" bool
  | Ota_commit "airdap_ota_client option"
  | Ota_abort "airdap_ota_client option"
  | Ota_reboot "airdap_ota_client option"
  | Ota_prepare_reboot "airdap_ota_client option"
  | Ota_disconnect "airdap_ota_client option"
  | Ota_debug_allowed
  | Ota_get_info bool

definition init_status :: "esp_err \<Rightarrow> airdap_ota_status" where
  "init_status e = (if e = ESP_OK then OTA_STATUS_OK else OTA_STATUS_INTERNAL_ERROR)"

definition as_status :: "bool \<Rightarrow> airdap_ota_status" where
  "as_status b = (if b then OTA_STATUS_OK else OTA_STATUS_BUSY)"

fun run_ota :: "'h ota_env \<Rightarrow> ota_call \<Rightarrow> ('h ota, airdap_ota_status) state" where
  "run_ota E Ota_initialize = State_Monad.bind (airdap_ota_initialize E) (\<lambda>e. State_Monad.return (init_status e))"
| "run_ota E (Ota_begin c n) = airdap_ota_begin_for_client E c n"
| "run_ota E (Ota_write c off d present) =
     State_Monad.bind (airdap_ota_write_for_client E c off d present) (\<lambda>r. State_Monad.return (fst r))"
| "run_ota E (Ota_commit c) = airdap_ota_commit_for_client E c"
| "run_ota E (Ota_abort c) = airdap_ota_abort_for_client E c"
| "run_ota E (Ota_reboot c) = airdap_ota_reboot_for_client E c"
| "run_ota E (Ota_prepare_reboot c) = airdap_ota_prepare_reboot E c"
| "run_ota E (Ota_disconnect c) = airdap_ota_disconnect_client E c"
| "run_ota E Ota_debug_allowed =
     State_Monad.bind (airdap_ota_debug_allowed E) (\<lambda>b. State_Monad.return (as_status b))"
| "run_ota E (Ota_get_info present) =
     State_Monad.bind (airdap_ota_get_info E present) (\<lambda>r. State_Monad.return (fst r))"

text \<open>
  The abstract states: no update, an update that a client has opened for an image of a size, with the
  bytes received so far, and an activated update.
\<close>

record update =
  up_partition :: esp_partition
  up_owner :: "nat \<times> u32"
  up_size :: nat
  up_image :: bytes
  up_abandoned :: bool

datatype ota_phase = Idle | Receiving update | Activated esp_partition bytes

definition owner_of :: "airdap_ota_client option \<Rightarrow> nat \<times> u32" where
  "owner_of client = (client_connection client, client_session client)"

inductive ota_spec :: "ota_phase \<Rightarrow> ota_call \<Rightarrow> airdap_ota_status \<Rightarrow> ota_phase \<Rightarrow> bool" where
  refused: "status \<noteq> OTA_STATUS_OK \<Longrightarrow> ota_spec ph c status ph"
| initialized: "ota_spec ph Ota_initialize status Idle"
| begun: "0 < n \<Longrightarrow> unat n \<le> part_size p \<Longrightarrow>
    ota_spec Idle (Ota_begin c n) OTA_STATUS_OK
      (Receiving \<lparr>up_partition = p, up_owner = owner_of c, up_size = unat n, up_image = [],
                  up_abandoned = False\<rparr>)"
| written: "up_owner u = owner_of c \<Longrightarrow> unat off = length (up_image u) \<Longrightarrow> d \<noteq> [] \<Longrightarrow>
    length (up_image u) + length d \<le> up_size u \<Longrightarrow>
    ota_spec (Receiving u) (Ota_write c off (Some d) True) OTA_STATUS_OK
      (Receiving (u\<lparr>up_image := up_image u @ d\<rparr>))"
| write_lost: "up_owner u = owner_of c \<Longrightarrow>
    status \<in> {OTA_STATUS_WRITE_FAILED, OTA_STATUS_INTERNAL_ERROR} \<Longrightarrow>
    ota_spec (Receiving u) (Ota_write c off d present) status Idle"
| committed: "up_owner u = owner_of c \<Longrightarrow> length (up_image u) = up_size u \<Longrightarrow>
    status \<in> {OTA_STATUS_OK, OTA_STATUS_INTERNAL_ERROR} \<Longrightarrow>
    ota_spec (Receiving u) (Ota_commit c) status (Activated (up_partition u) (up_image u))"
| commit_lost: "up_owner u = owner_of c \<Longrightarrow> length (up_image u) = up_size u \<Longrightarrow>
    status \<in> {OTA_STATUS_VALIDATION_FAILED, OTA_STATUS_UNAUTHENTICATED,
      OTA_STATUS_ACTIVATION_FAILED, OTA_STATUS_INTERNAL_ERROR} \<Longrightarrow>
    ota_spec (Receiving u) (Ota_commit c) status Idle"
| abort_idle: "ota_spec Idle (Ota_abort c) OTA_STATUS_OK Idle"
| aborted: "up_owner u = owner_of c \<or> up_abandoned u \<Longrightarrow>
    status \<in> {OTA_STATUS_OK, OTA_STATUS_INTERNAL_ERROR} \<Longrightarrow>
    ota_spec (Receiving u) (Ota_abort c) status Idle"
| disconnect_other: "(\<And>u. ph = Receiving u \<Longrightarrow> up_owner u \<noteq> owner_of c) \<Longrightarrow>
    ota_spec ph (Ota_disconnect c) OTA_STATUS_OK ph"
| disconnected: "up_owner u = owner_of c \<Longrightarrow> status \<in> {OTA_STATUS_OK, OTA_STATUS_INTERNAL_ERROR} \<Longrightarrow>
    ota_spec (Receiving u) (Ota_disconnect c) status Idle"
| abandoned: "up_owner u = owner_of c \<Longrightarrow>
    ota_spec (Receiving u) (Ota_disconnect c) OTA_STATUS_INTERNAL_ERROR
      (Receiving (u\<lparr>up_abandoned := True\<rparr>))"
| restarted: "c \<in> {Ota_reboot cl, Ota_prepare_reboot cl} \<Longrightarrow>
    ota_spec (Activated p img) c OTA_STATUS_OK (Activated p img)"
| debugging: "ota_spec Idle Ota_debug_allowed OTA_STATUS_OK Idle"
| info: "ota_spec ph (Ota_get_info present) OTA_STATUS_OK ph"

section \<open>Invariant and abstraction\<close>

definition ota_inv :: "'h flash_monitor ota \<Rightarrow> bool" where
  "ota_inv s \<longleftrightarrow> \<not> fm_violation (ot_world s) \<and>
     (case se_state (ot_session s) of
        OTA_SESSION_IDLE \<Rightarrow> ot_session s = zero_session
      | OTA_SESSION_RECEIVING \<Rightarrow> (\<exists>p img.
          se_partition (ot_session s) = Some p \<and>
          fm_open (ot_world s) = Some (p, se_handle (ot_session s), img) \<and>
          length img = unat (se_written_size (ot_session s)) \<and>
          se_written_size (ot_session s) \<le> se_expected_size (ot_session s) \<and>
          0 < se_expected_size (ot_session s) \<and>
          unat (se_expected_size (ot_session s)) \<le> part_size p)
      | OTA_SESSION_COMMITTED \<Rightarrow>
          fm_boot (ot_world s) \<noteq> None \<and>
          se_partition (ot_session s) = map_option fst (fm_boot (ot_world s)))"

definition ota_abs :: "'h flash_monitor ota \<Rightarrow> ota_phase" where
  "ota_abs s = (let se = ot_session s in
     case se_state se of
       OTA_SESSION_IDLE \<Rightarrow> Idle
     | OTA_SESSION_RECEIVING \<Rightarrow>
         (case the (fm_open (ot_world s)) of (p, handle, img) \<Rightarrow>
           Receiving \<lparr>up_partition = p, up_owner = (se_connection se, se_owner_session se),
             up_size = unat (se_expected_size se), up_image = img,
             up_abandoned = se_disconnected se\<rparr>)
     | OTA_SESSION_COMMITTED \<Rightarrow>
         (case the (fm_boot (ot_world s)) of (p, img) \<Rightarrow> Activated p img))"

text \<open>Two states that differ only in what the monitor does not describe.\<close>

definition same_update :: "'h flash_monitor ota \<Rightarrow> 'h flash_monitor ota \<Rightarrow> bool" where
  "same_update s t \<longleftrightarrow> ot_session t = ot_session s \<and> fm_open (ot_world t) = fm_open (ot_world s) \<and>
     fm_valid (ot_world t) = fm_valid (ot_world s) \<and>
     fm_boot (ot_world t) = fm_boot (ot_world s) \<and> fm_violation (ot_world t) = fm_violation (ot_world s)"

section \<open>Parts that leave the update alone\<close>

lemma same_update_refl [simp]: "same_update s s"
  by (simp add: same_update_def)

lemma same_update_trans: "same_update s t \<Longrightarrow> same_update t u \<Longrightarrow> same_update s u"
  by (simp add: same_update_def)

lemma same_update_ota:
  assumes "same_update s t"
  shows "ota_inv t = ota_inv s" "ota_abs t = ota_abs s"
  using assms
  by (simp_all add: same_update_def ota_inv_def ota_abs_def Let_def split: ota_session_state.split)

definition quiet :: "('h flash_monitor ota, 'a) state \<Rightarrow> bool" where
  "quiet m \<longleftrightarrow> (\<forall>s. wp m (\<lambda>_. same_update s) s)"

named_theorems quiet_rules "parts of the manager that leave the update alone"

lemma wp_quiet: "quiet m \<Longrightarrow> (\<And>r t. same_update s t \<Longrightarrow> Q r t) \<Longrightarrow> wp m Q s"
  unfolding quiet_def by (blast intro: wp_mono)

lemma quiet_basic [quiet_rules]:
  "quiet (State_Monad.return x)" "quiet (reads f)" "quiet (ocall (inner g))"
  by (simp_all add: quiet_def wp_simps inner_def same_update_def split: prod.splits)

lemma quiet_authorize [quiet_rules]: "quiet (ocall (\<lambda>m. note_auth c i (inner f m)))"
  by (simp add: quiet_def wp_simps inner_def note_auth_def same_update_def split: prod.splits)

lemma quiet_bind [quiet_rules]: "quiet m \<Longrightarrow> (\<And>x. quiet (f x)) \<Longrightarrow> quiet (State_Monad.bind m f)"
  unfolding quiet_def wp_bind by (blast intro: wp_mono same_update_trans)

lemma quiet_if [quiet_rules]: "quiet m \<Longrightarrow> quiet m' \<Longrightarrow> quiet (if c then m else m')"
  by simp

lemma quiet_ignoring [quiet_rules]: "quiet m \<Longrightarrow> quiet (ignoring m)"
  by (simp add: quiet_def wp_simps)

lemma quiet_whenever [quiet_rules]: "quiet m \<Longrightarrow> quiet (whenever c m)"
  by (simp add: whenever_def quiet_basic)

lemma quiet_case_option [quiet_rules]:
  "quiet n \<Longrightarrow> (\<And>x. quiet (f x)) \<Longrightarrow> quiet (case e of None \<Rightarrow> n | Some x \<Rightarrow> f x)"
  by (cases e) simp_all

lemma quiet_case_prod [quiet_rules]: "(\<And>a b. quiet (f a b)) \<Longrightarrow> quiet (case e of (a, b) \<Rightarrow> f a b)"
  by (cases e) simp

lemma quiet_parts [quiet_rules]:
  "quiet (lock_session (monitored_ota E))"
  "quiet (unlock_session (monitored_ota E))"
  "quiet (authorized (monitored_ota E) client)"
  "quiet (restore_idle_mode (monitored_ota E) event)"
  "quiet (debug_allowed_locked (monitored_ota E))"
  "quiet (get_info_locked (monitored_ota E) present)"
  "quiet (reboot_locked (monitored_ota E))"
  unfolding lock_session_def unlock_session_def authorized_def restore_idle_mode_def
    debug_allowed_locked_def get_info_locked_def reboot_locked_def Let_def monitored_ota_fields
  by (intro quiet_rules)+

lemma quiet_restored_status [quiet_rules]: "quiet (restored_status (monitored_ota E) event status)"
  unfolding restored_status_def by (intro quiet_rules)

section \<open>Each operation implements its abstract step\<close>

definition implements ::
  "ota_call \<Rightarrow> ota_phase \<Rightarrow> airdap_ota_status \<Rightarrow> 'h flash_monitor ota \<Rightarrow> bool"
where
  "implements c ph r t \<longleftrightarrow> ota_inv t \<and> ota_spec ph c r (ota_abs t)"

lemma implements_same: "implements c ph r t \<Longrightarrow> same_update t u \<Longrightarrow> implements c ph r u"
  by (simp add: implements_def same_update_ota)

lemma implements_refused:
  "ota_inv s \<Longrightarrow> same_update s t \<Longrightarrow> r \<noteq> OTA_STATUS_OK \<Longrightarrow> implements c (ota_abs s) r t"
  by (simp add: implements_def same_update_ota ota_spec.refused)

lemma with_session_implements:
  assumes "ota_inv s" "get failed \<noteq> OTA_STATUS_OK"
    and "\<And>t. same_update s t \<Longrightarrow> wp body (\<lambda>r. implements c (ota_abs s) (get r)) t"
  shows "wp (with_session (monitored_ota E) failed body) (\<lambda>r. implements c (ota_abs s) (get r)) s"
  unfolding with_session_def wp_simps
proof (rule wp_quiet [OF quiet_parts(1)], intro conjI impI)
  fix locked t assume st: "same_update s t"
  show "implements c (ota_abs s) (get failed) t"
    using implements_refused [OF assms(1) st assms(2)] .
  show "wp body (\<lambda>result. wp (unlock_session (monitored_ota E))
      (\<lambda>_. implements c (ota_abs s) (get result))) t"
    by (rule wp_mono [OF assms(3) [OF st]]) (blast intro: wp_quiet quiet_parts implements_same)
qed

text \<open>The states in which the next abstract phase is evident.\<close>

lemma receiving_cases:
  assumes "ota_inv s" "se_state (ot_session s) = OTA_SESSION_RECEIVING"
  obtains p img where "se_partition (ot_session s) = Some p"
    "fm_open (ot_world s) = Some (p, se_handle (ot_session s), img)"
    "length img = unat (se_written_size (ot_session s))"
    "se_written_size (ot_session s) \<le> se_expected_size (ot_session s)"
    "0 < se_expected_size (ot_session s)" "unat (se_expected_size (ot_session s)) \<le> part_size p"
    "ota_abs s = Receiving \<lparr>up_partition = p,
       up_owner = (se_connection (ot_session s), se_owner_session (ot_session s)),
       up_size = unat (se_expected_size (ot_session s)), up_image = img,
       up_abandoned = se_disconnected (ot_session s)\<rparr>"
  using assms by (auto simp: ota_inv_def ota_abs_def Let_def)

lemma idle_abs: "se_state (ot_session s) = OTA_SESSION_IDLE \<Longrightarrow> ota_abs s = Idle"
  by (simp add: ota_abs_def)

lemma not_receiving_abs:
  "se_state (ot_session s) \<noteq> OTA_SESSION_RECEIVING \<Longrightarrow> ota_abs s \<noteq> Receiving u"
  by (cases "se_state (ot_session s)") (simp_all add: ota_abs_def Let_def split: prod.splits)

lemma receiving_abs:
  assumes "ota_inv s" "ota_abs s = Receiving u"
  shows "se_state (ot_session s) = OTA_SESSION_RECEIVING"
    "up_owner u = (se_connection (ot_session s), se_owner_session (ot_session s))"
    "up_abandoned u = se_disconnected (ot_session s)"
proof -
  show "se_state (ot_session s) = OTA_SESSION_RECEIVING"
    using assms(2) not_receiving_abs by blast
  then show "up_owner u = (se_connection (ot_session s), se_owner_session (ot_session s))"
    "up_abandoned u = se_disconnected (ot_session s)"
    using assms by (auto elim!: receiving_cases)
qed

lemma owns_session_iff:
  "owns_session client se \<longleftrightarrow> (se_connection se, se_owner_session se) = owner_of client"
  by (auto simp: owns_session_def owner_of_def)

lemma reset_idle:
  assumes "\<not> fm_violation (ot_world t)"
  shows "ota_inv (t\<lparr>ot_session := zero_session\<rparr>)" "ota_abs (t\<lparr>ot_session := zero_session\<rparr>) = Idle"
  using assms by (simp_all add: ota_inv_def ota_abs_def zero_session_def)

lemma reset_implements:
  assumes "\<not> fm_violation (ot_world t)" "\<And>r. r \<in> {status, OTA_STATUS_INTERNAL_ERROR} \<Longrightarrow> ota_spec ph c r Idle"
  shows "wp (restored_status (monitored_ota E) event status) (implements c ph)
           (t\<lparr>ot_session := zero_session\<rparr>)"
  unfolding restored_status_def wp_simps
  by (rule wp_quiet [OF quiet_parts(4)])
     (use assms in \<open>auto simp: implements_def same_update_ota reset_idle\<close>)

lemma inv_no_violation: "ota_inv s \<Longrightarrow> \<not> fm_violation (ot_world s)"
  by (simp add: ota_inv_def)

lemma abort_implements:
  assumes inv: "ota_inv s"
    and idle: "ota_abs s = Idle \<Longrightarrow> ota_spec ph c OTA_STATUS_OK Idle"
    and stuck: "(\<And>u. ota_abs s \<noteq> Receiving u) \<Longrightarrow> ota_spec ph c OTA_STATUS_INVALID_STATE (ota_abs s)"
    and keep: "ota_spec ph c OTA_STATUS_INTERNAL_ERROR (ota_abs s)"
    and drop: "\<And>r u. ota_abs s = Receiving u \<Longrightarrow> r \<in> {OTA_STATUS_OK, OTA_STATUS_INTERNAL_ERROR} \<Longrightarrow>
      ota_spec ph c r Idle"
  shows "wp (abort_locked (monitored_ota E)) (implements c ph) s"
proof (cases "se_state (ot_session s)")
  case OTA_SESSION_IDLE
  then show ?thesis using inv idle
    by (simp add: abort_locked_def wp_simps implements_def idle_abs)
next
  case OTA_SESSION_COMMITTED
  then show ?thesis using inv stuck not_receiving_abs [of s]
    by (simp add: abort_locked_def wp_simps implements_def)
next
  case OTA_SESSION_RECEIVING
  then obtain u where u: "ota_abs s = Receiving u" by (rule receiving_cases [OF inv]) blast
  show ?thesis unfolding abort_locked_def wp_simps OTA_SESSION_RECEIVING monitored_ota_fields
  proof (simp add: wp_simps inner_def split: prod.split, intro allI impI conjI)
    fix error h assume "oe_abort E (se_handle (ot_session s)) (fm_inner (ot_world s)) = (error, h)"
    let ?t = "s\<lparr>ot_world := ot_world s\<lparr>fm_inner := h\<rparr>\<rparr>"
    have same: "same_update s ?t" by (simp add: same_update_def)
    show "implements c ph OTA_STATUS_INTERNAL_ERROR ?t"
      using inv keep by (simp add: implements_def same_update_ota [OF same])
    show "wp (restored_status (monitored_ota E) EVENT_OTA_ABORTED OTA_STATUS_OK) (implements c ph)
      (?t\<lparr>ot_session := zero_session\<rparr>)"
      by (rule reset_implements) (use inv_no_violation [OF inv] drop [OF u] in auto)
  qed
qed

lemma u32_advance:
  fixes w e :: u32
  assumes "w \<le> e" "n \<le> unat (e - w)"
  shows "unat (w + of_nat n) = unat w + n" "w + of_nat n \<le> e" "unat w + n \<le> unat e"
proof -
  have le: "unat w \<le> unat e" using assms(1) by (simp add: word_le_nat_alt)
  then have n: "unat w + n \<le> unat e" using assms by (simp add: unat_sub)
  then have "unat w + n < 2 ^ 32" using unat_u32_less [of e] by simp
  then show "unat (w + of_nat n) = unat w + n" by (simp add: unat_word_ariths unat_of_nat)
  then show "w + of_nat n \<le> e" using n by (simp add: word_le_nat_alt)
  show "unat w + n \<le> unat e" by (rule n)
qed

lemma write_implements:
  assumes inv: "ota_inv s" and own: "se_state (ot_session s) \<noteq> OTA_SESSION_IDLE \<Longrightarrow> owns_session client (ot_session s)"
  shows "wp (write_locked (monitored_ota E) off data present)
    (\<lambda>r. implements (Ota_write client off data present) (ota_abs s) (fst r)) s"
proof (cases "se_state (ot_session s) = OTA_SESSION_RECEIVING")
  case False
  then show ?thesis using implements_refused [OF inv same_update_refl]
    by (simp add: write_locked_def wp_simps)
next
  case True
  then obtain p img where ses: "se_partition (ot_session s) = Some p"
    "fm_open (ot_world s) = Some (p, se_handle (ot_session s), img)"
    "length img = unat (se_written_size (ot_session s))"
    "se_written_size (ot_session s) \<le> se_expected_size (ot_session s)"
    "0 < se_expected_size (ot_session s)" "unat (se_expected_size (ot_session s)) \<le> part_size p"
    and abs: "ota_abs s = Receiving \<lparr>up_partition = p,
       up_owner = (se_connection (ot_session s), se_owner_session (ot_session s)),
       up_size = unat (se_expected_size (ot_session s)), up_image = img,
       up_abandoned = se_disconnected (ot_session s)\<rparr>"
    by (rule receiving_cases [OF inv])
  show ?thesis
  proof (cases "data = None \<or> \<not> present \<or> off \<noteq> se_written_size (ot_session s) \<or> the data = [] \<or>
      length (the data) > unat (se_expected_size (ot_session s) - se_written_size (ot_session s))")
    case True
    then show ?thesis using \<open>se_state _ = _\<close> implements_refused [OF inv same_update_refl]
      by (auto simp: write_locked_def wp_simps split: option.split)
  next
    case False
    then obtain d where d: "data = Some d" "present" "off = se_written_size (ot_session s)" "d \<noteq> []"
      "length d \<le> unat (se_expected_size (ot_session s) - se_written_size (ot_session s))" by auto
    have own': "owns_session client (ot_session s)" using own True by simp
    note advance = u32_advance [OF ses(4) d(5)]
    let ?c = "Ota_write client off data present"
    have failed: "implements ?c (ota_abs s) OTA_STATUS_INTERNAL_ERROR
        (s\<lparr>ot_world := ot_world s\<lparr>fm_inner := h\<rparr>\<rparr>)" for h
      by (rule implements_refused [OF inv]) (simp_all add: same_update_def)
    have lost: "wp (restored_status (monitored_ota E) EVENT_OTA_FAILED OTA_STATUS_WRITE_FAILED)
        (implements ?c (ota_abs s)) (s\<lparr>ot_world := ot_world s\<lparr>fm_inner := h\<rparr>, ot_session := zero_session\<rparr>)"
      for h by (rule reset_implements)
        (use inv_no_violation [OF inv] own' in \<open>auto simp: abs owns_session_iff intro: ota_spec.write_lost\<close>)
    have accepted: "implements ?c (ota_abs s) OTA_STATUS_OK (s\<lparr>ot_world := ot_world s\<lparr>fm_inner := h,
        fm_open := Some (p, se_handle (ot_session s), img @ d)\<rparr>,
        ot_session := ot_session s\<lparr>se_written_size := off + of_nat (length d)\<rparr>\<rparr>)" (is "implements _ _ _ ?t") for h
    proof -
      have "ota_inv ?t"
        using True d ses advance inv_no_violation [OF inv] by (simp add: ota_inv_def)
      moreover have "ota_abs ?t = Receiving \<lparr>up_partition = p,
          up_owner = (se_connection (ot_session s), se_owner_session (ot_session s)),
          up_size = unat (se_expected_size (ot_session s)), up_image = img @ d,
          up_abandoned = se_disconnected (ot_session s)\<rparr>"
        using True by (simp add: ota_abs_def Let_def)
      ultimately show ?thesis
        unfolding implements_def abs using d ses advance own'
        by (auto simp: owns_session_iff intro!: ota_spec.written [where u = "\<lparr>up_partition = p, up_owner = _,
          up_size = _, up_image = img, up_abandoned = _\<rparr>", simplified])
    qed
    show ?thesis
      using True d ses failed lost accepted
      by (simp add: write_locked_def wp_simps note_write_def inner_def split: prod.split)
  qed
qed

text \<open>After a successful validation: what is left is to authorise the client and to activate.\<close>

definition validated :: "esp_partition \<Rightarrow> bytes \<Rightarrow> 'h flash_monitor ota \<Rightarrow> bool" where
  "validated p img s \<longleftrightarrow> se_state (ot_session s) = OTA_SESSION_RECEIVING \<and>
     se_partition (ot_session s) = Some p \<and> fm_valid (ot_world s) = Some (p, img) \<and>
     \<not> fm_violation (ot_world s)"

lemma activate_implements:
  assumes st: "validated p img s"
    and lost: "\<And>r. r \<in> {OTA_STATUS_ACTIVATION_FAILED, OTA_STATUS_INTERNAL_ERROR} \<Longrightarrow> ota_spec ph c r Idle"
    and ok: "\<And>r. r \<in> {OTA_STATUS_OK, OTA_STATUS_INTERNAL_ERROR} \<Longrightarrow> ota_spec ph c r (Activated p img)"
  shows "wp (activate_image (monitored_ota E) (Some p)) (implements c ph) s"
proof -
  have failed: "wp (restored_status (monitored_ota E) EVENT_OTA_FAILED OTA_STATUS_ACTIVATION_FAILED)
      (implements c ph) (s\<lparr>ot_world := ot_world s\<lparr>fm_inner := h\<rparr>, ot_session := zero_session\<rparr>)" for h
    by (rule reset_implements) (use st lost in \<open>auto simp: validated_def\<close>)
  have active: "implements c ph r (s\<lparr>
      ot_session := ot_session s\<lparr>se_partition := Some p, se_handle := 0, se_expected_size := 0,
        se_written_size := 0, se_state := OTA_SESSION_COMMITTED\<rparr>,
      ot_world := ot_world s\<lparr>fm_boot := Some (p, img), fm_inner := h\<rparr>\<rparr>)"
    if "r \<in> {OTA_STATUS_OK, OTA_STATUS_INTERNAL_ERROR}" for r h
    using st ok [OF that] by (simp add: implements_def ota_inv_def ota_abs_def validated_def)
  obtain error h where boot: "oe_set_boot_partition E (Some p) (fm_inner (ot_world s)) = (error, h)"
    by fastforce
  obtain mode h' where mode: "oe_mode_transition E EVENT_OTA_COMMITTED h = (mode, h')"
    by fastforce
  show ?thesis using st failed active
    by (simp add: activate_image_def validated_def wp_simps note_boot_def inner_def boot mode)
qed

lemma finish_commit_implements:
  assumes st: "validated p img s"
    and lost: "\<And>r. r \<in> {OTA_STATUS_UNAUTHENTICATED, OTA_STATUS_ACTIVATION_FAILED,
      OTA_STATUS_INTERNAL_ERROR} \<Longrightarrow> ota_spec ph c r Idle"
    and ok: "\<And>r. r \<in> {OTA_STATUS_OK, OTA_STATUS_INTERNAL_ERROR} \<Longrightarrow> ota_spec ph c r (Activated p img)"
  shows "wp (finish_commit (monitored_ota E) client (Some p)) (implements c ph) s"
  unfolding finish_commit_def wp_simps
proof (rule wp_quiet [OF quiet_parts(3)], intro conjI impI)
  fix allowed t assume same: "same_update s t"
  then have t: "validated p img t" using st by (simp add: validated_def same_update_def)
  show "wp (activate_image (monitored_ota E) (Some p)) (implements c ph) t"
    by (rule activate_implements [OF t]) (simp_all add: lost ok)
  show "wp (restore_idle_mode (monitored_ota E) EVENT_OTA_FAILED)
      (\<lambda>_. implements c ph OTA_STATUS_UNAUTHENTICATED) (t\<lparr>ot_session := zero_session\<rparr>)"
    by (rule wp_quiet [OF quiet_parts(4)])
       (use t lost in \<open>simp add: implements_def same_update_ota reset_idle validated_def\<close>)
qed

lemma commit_implements:
  assumes inv: "ota_inv s" and own: "se_state (ot_session s) \<noteq> OTA_SESSION_IDLE \<Longrightarrow> owns_session client (ot_session s)"
  shows "wp (commit_locked (monitored_ota E) client) (implements (Ota_commit client) (ota_abs s)) s"
proof (cases "se_state (ot_session s) = OTA_SESSION_RECEIVING \<and>
    se_written_size (ot_session s) = se_expected_size (ot_session s)")
  case False
  then show ?thesis using implements_refused [OF inv same_update_refl]
    by (auto simp: commit_locked_def wp_simps)
next
  case True
  then obtain p img where ses: "se_partition (ot_session s) = Some p"
    "fm_open (ot_world s) = Some (p, se_handle (ot_session s), img)"
    "length img = unat (se_written_size (ot_session s))"
    and abs: "ota_abs s = Receiving \<lparr>up_partition = p,
       up_owner = (se_connection (ot_session s), se_owner_session (ot_session s)),
       up_size = unat (se_expected_size (ot_session s)), up_image = img,
       up_abandoned = se_disconnected (ot_session s)\<rparr>"
    using receiving_cases [OF inv] by (metis (no_types))
  let ?c = "Ota_commit client" and ?ph = "ota_abs s"
  have owner: "(se_connection (ot_session s), se_owner_session (ot_session s)) = owner_of client"
    using own True by (simp add: owns_session_iff)
  have lost: "ota_spec ?ph ?c r Idle"
    if "r \<in> {OTA_STATUS_VALIDATION_FAILED, OTA_STATUS_UNAUTHENTICATED,
      OTA_STATUS_ACTIVATION_FAILED, OTA_STATUS_INTERNAL_ERROR}" for r
    unfolding abs by (rule ota_spec.commit_lost) (use that ses True owner in simp_all)
  have ok: "ota_spec ?ph ?c r (Activated p img)"
    if "r \<in> {OTA_STATUS_OK, OTA_STATUS_INTERNAL_ERROR}" for r
    unfolding abs using that ses True owner ota_spec.committed [of "\<lparr>up_partition = p,
      up_owner = owner_of client, up_size = length img, up_image = img,
      up_abandoned = se_disconnected (ot_session s)\<rparr>" client r] by simp
  obtain error h where last: "oe_end E (se_handle (ot_session s)) (fm_inner (ot_world s)) = (error, h)"
    by fastforce
  show ?thesis
  proof (cases "error = ESP_OK")
    case ok_end: True
    show ?thesis
      using True ses last ok_end inv_no_violation [OF inv]
      by (simp add: commit_locked_def wp_simps note_end_def inner_def)
        (rule finish_commit_implements [where img = img]; simp add: validated_def lost ok)
  next
    case False
    have "wp (restored_status (monitored_ota E) EVENT_OTA_FAILED OTA_STATUS_VALIDATION_FAILED)
      (implements ?c ?ph) ((s\<lparr>ot_world := ot_world s\<lparr>fm_inner := h, fm_open := None,
          fm_valid := None, fm_auth := None\<rparr>\<rparr>)\<lparr>ot_session := zero_session\<rparr>)"
      by (rule reset_implements) (use inv_no_violation [OF inv] lost in auto)
    then show ?thesis using False True last ses
      by (simp add: commit_locked_def wp_simps note_end_def inner_def)
  qed
qed

lemma idle_session: "ota_inv s \<Longrightarrow> se_state (ot_session s) = OTA_SESSION_IDLE \<Longrightarrow> ot_session s = zero_session"
  by (simp add: ota_inv_def)

lemma undo_implements:
  assumes "ota_inv s" "same_update s t" "r \<noteq> OTA_STATUS_OK"
  shows "wp (restore_idle_mode (monitored_ota E) event) (\<lambda>_. implements c (ota_abs s) r) t"
  by (rule wp_quiet [OF quiet_parts(4)]) (use assms implements_refused same_update_trans in blast)

lemma start_implements:
  assumes inv: "ota_inv s" and idle: "se_state (ot_session s) = OTA_SESSION_IDLE"
    and n: "0 < n" "unat n \<le> part_size p"
  shows "wp (start_image (monitored_ota E) client p n) (implements (Ota_begin client n) (ota_abs s)) s"
proof (cases "oe_begin E p (fm_inner (ot_world s))")
  case (Pair r h)
  obtain error handle where r: "r = (error, handle)" by fastforce
  obtain e h' where ab: "oe_abort E handle h = (e, h')" by fastforce
  have fresh: "\<not> se_disconnected (ot_session s)" "\<not> fm_violation (ot_world s)" "ota_abs s = Idle"
    using idle_session [OF inv idle] inv_no_violation [OF inv] idle_abs [OF idle]
    by (simp_all add: zero_session_def)
  show ?thesis
  proof (cases "error = ESP_OK")
    case True
    then show ?thesis using Pair r n fresh
      by (auto simp: start_image_def wp_simps inner_def note_begin_def implements_def ota_inv_def
          ota_abs_def Let_def owner_of_def [symmetric] intro!: ota_spec.begun)
  next
    case False
    have "wp (restore_idle_mode (monitored_ota E) EVENT_OTA_FAILED)
        (\<lambda>_. implements (Ota_begin client n) (ota_abs s) OTA_STATUS_INTERNAL_ERROR)
        (s\<lparr>ot_world := ot_world s\<lparr>fm_inner := x\<rparr>\<rparr>)" for x
      by (rule undo_implements [OF inv]) (simp_all add: same_update_def)
    then show ?thesis using False Pair r ab
      by (simp add: start_image_def wp_simps inner_def note_begin_def)
  qed
qed

lemma open_implements:
  assumes inv: "ota_inv s" and idle: "se_state (ot_session s) = OTA_SESSION_IDLE"
    and n: "0 < n" "unat n \<le> part_size p"
  shows "wp (open_session (monitored_ota E) client p n) (implements (Ota_begin client n) (ota_abs s)) s"
  unfolding open_session_def wp_bind monitored_ota_fields
proof (rule wp_quiet [OF quiet_basic(3)], simp only: wp_simps, intro conjI impI)
  fix uart_error t assume st: "same_update s t"
  show "wp (restore_idle_mode (monitored_ota E) EVENT_OTA_FAILED)
      (\<lambda>_. implements (Ota_begin client n) (ota_abs s) OTA_STATUS_BUSY) t"
    by (rule undo_implements [OF inv st]) simp
  show "wp (authorized (monitored_ota E) client) (\<lambda>allowed.
      wp (if \<not> allowed then do { ignoring (restore_idle_mode (monitored_ota E) EVENT_OTA_FAILED);
                               State_Monad.return OTA_STATUS_UNAUTHENTICATED }
          else start_image (monitored_ota E) client p n)
        (implements (Ota_begin client n) (ota_abs s))) t"
  proof (rule wp_quiet [OF quiet_parts(3)], simp only: wp_simps, intro conjI impI)
    fix allowed u assume "same_update t u"
    then have su: "same_update s u" using st same_update_trans by blast
    show "wp (restore_idle_mode (monitored_ota E) EVENT_OTA_FAILED)
        (\<lambda>_. implements (Ota_begin client n) (ota_abs s) OTA_STATUS_UNAUTHENTICATED) u"
      by (rule undo_implements [OF inv su]) simp
    show "wp (start_image (monitored_ota E) client p n)
        (implements (Ota_begin client n) (ota_abs s)) u"
      using start_implements [of u n p E client] inv idle n su
      by (simp add: same_update_ota) (simp add: same_update_def)
  qed
qed

lemma wp_inner: "(\<And>r t. same_update s t \<Longrightarrow> Q r t) \<Longrightarrow> wp (ocall (inner f)) Q s"
  by (rule wp_quiet [OF quiet_basic(3)])

lemma suspend_implements:
  assumes inv: "ota_inv s" and idle: "se_state (ot_session s) = OTA_SESSION_IDLE"
    and n: "0 < n" "unat n \<le> part_size p"
  shows "wp (suspend_and_open (monitored_ota E) client p n)
    (implements (Ota_begin client n) (ota_abs s)) s"
  unfolding suspend_and_open_def wp_bind monitored_ota_fields
proof (rule wp_inner)
  let ?G = "implements (Ota_begin client n) (ota_abs s)"
  fix r u assume u: "same_update s u"
  have undo: "wp (ocall (inner (oe_mode_transition E EVENT_OTA_FAILED))) (\<lambda>x. ?G (f x)) u"
    if "\<And>x. f x \<noteq> OTA_STATUS_OK" for f
    by (rule wp_inner) (use implements_refused [OF inv] that u same_update_trans in blast)
  have "wp (open_session (monitored_ota E) client p n) ?G u"
    using open_implements [of u n p E client] idle inv u n
    by (simp add: same_update_ota) (simp add: same_update_def)
  then show "wp (if r = OWNERSHIP_BUSY
      then do {
        mode_result \<leftarrow> ocall (inner (oe_mode_transition E EVENT_OTA_FAILED));
        State_Monad.return (if mode_result = MODE_OK then OTA_STATUS_INVALID_STATE
                            else OTA_STATUS_INTERNAL_ERROR) }
      else if r \<noteq> OWNERSHIP_OK
      then do {
        mode_result \<leftarrow> ocall (inner (oe_mode_transition E EVENT_OTA_FAILED));
        State_Monad.return OTA_STATUS_INTERNAL_ERROR }
      else open_session (monitored_ota E) client p n) ?G u"
    by (simp add: wp_bind wp_return_eta undo)
qed

lemma begin_implements:
  assumes inv: "ota_inv s"
  shows "wp (begin_locked (monitored_ota E) client n) (implements (Ota_begin client n) (ota_abs s)) s"
proof (cases "se_state (ot_session s) = OTA_SESSION_IDLE")
  case False
  then show ?thesis using implements_refused [OF inv same_update_refl]
    by (simp add: begin_locked_def wp_simps)
next
  case True
  let ?G = "implements (Ota_begin client n) (ota_abs s)"
  have fail: "?G r t" if "same_update s t" "r \<noteq> OTA_STATUS_OK" for r t
    by (rule implements_refused [OF inv that])
  have started: "wp (ocall (inner (oe_mode_transition E EVENT_OTA_STARTED))) (\<lambda>mode_result.
      wp (if mode_result \<noteq> MODE_OK then State_Monad.return OTA_STATUS_INTERNAL_ERROR
          else suspend_and_open (monitored_ota E) client p n) ?G) t"
    if t: "same_update s t" and n: "0 < n" "unat n \<le> part_size p" for t p
  proof (rule wp_inner, unfold wp_if wp_basic, intro conjI impI)
    fix r u assume "same_update t u"
    then have u: "same_update s u" by (rule same_update_trans [OF t])
    then show "?G OTA_STATUS_INTERNAL_ERROR u" by (rule fail) simp
    show "wp (suspend_and_open (monitored_ota E) client p n) ?G u"
      using suspend_implements [of u n p E client] True inv u n
      by (simp add: same_update_ota) (simp add: same_update_def)
  qed
  have next_part: "wp (ocall (inner (oe_next_partition E))) (\<lambda>part t. wp (case part of
        None \<Rightarrow> State_Monad.return OTA_STATUS_INTERNAL_ERROR
      | Some p \<Rightarrow>
          if part_size p > unat UINT32_MAX then State_Monad.return OTA_STATUS_INTERNAL_ERROR
          else if n = 0 \<or> unat n > part_size p then State_Monad.return OTA_STATUS_INVALID_SIZE
          else do {
            mode_result \<leftarrow> ocall (oe_mode_transition (monitored_ota E) EVENT_OTA_STARTED);
            if mode_result \<noteq> MODE_OK then State_Monad.return OTA_STATUS_INTERNAL_ERROR
            else suspend_and_open (monitored_ota E) client p n }) ?G t) s"
    by (rule wp_inner) (simp add: wp_basic wp_bind wp_if fail started word_neq_0_conv split: option.split)
  show ?thesis unfolding begin_locked_def wp_bind
    using True next_part by (simp add: wp_basic wp_bind monitored_ota_fields)
qed

section \<open>The interface\<close>

text \<open>The frame the client operations share: lock, authorise, check the owner, act, unlock.\<close>

lemma client_call_implements:
  assumes inv: "ota_inv s" and refused: "res failed \<noteq> OTA_STATUS_OK" "res unauth \<noteq> OTA_STATUS_OK"
      "res busy \<noteq> OTA_STATUS_OK"
    and body: "\<And>t. same_update s t \<Longrightarrow> \<not> foreign (ot_session t) \<Longrightarrow>
      wp body (\<lambda>r. implements c (ota_abs s) (res r)) t"
  shows "wp (with_session (monitored_ota E) failed (do {
      allowed \<leftarrow> authorized (monitored_ota E) client;
      se \<leftarrow> reads ot_session;
      if \<not> allowed then State_Monad.return unauth
      else if foreign se then State_Monad.return busy else body }))
    (\<lambda>r. implements c (ota_abs s) (res r)) s"
proof (rule with_session_implements [where get = res, OF inv refused(1)], unfold wp_bind wp_basic, rule wp_quiet [OF quiet_parts(3)])
  fix t allowed u assume "same_update s t" "same_update t u"
  then have su: "same_update s u" by (rule same_update_trans)
  then show "wp (if \<not> allowed then State_Monad.return unauth
      else if foreign (ot_session u) then State_Monad.return busy else body)
      (\<lambda>r. implements c (ota_abs s) (res r)) u"
    using body [OF su] implements_refused [OF inv su] refused by (simp add: wp_basic)
qed

lemma quiet_call_implements:
  assumes inv: "ota_inv s" and "res failed \<noteq> OTA_STATUS_OK"
    and "quiet body" and ok: "\<And>t. same_update s t \<Longrightarrow> wp body (\<lambda>r _. res r = OTA_STATUS_OK \<longrightarrow>
      ota_spec (ota_abs s) c OTA_STATUS_OK (ota_abs s)) t"
  shows "wp (with_session (monitored_ota E) failed body) (\<lambda>r. implements c (ota_abs s) (res r)) s"
proof (rule with_session_implements [where get = res, OF assms(1,2)])
  fix t assume st: "same_update s t"
  have "wp body (\<lambda>_. same_update t) t" using \<open>quiet body\<close> by (simp add: quiet_def)
  with ok [OF st] have "wp body (\<lambda>r u. (res r = OTA_STATUS_OK \<longrightarrow>
      ota_spec (ota_abs s) c OTA_STATUS_OK (ota_abs s)) \<and> same_update t u) t"
    by (simp add: wp_conj)
  then show "wp body (\<lambda>r. implements c (ota_abs s) (res r)) t"
  proof (rule wp_mono)
    fix r u
    assume u: "(res r = OTA_STATUS_OK \<longrightarrow> ota_spec (ota_abs s) c OTA_STATUS_OK (ota_abs s)) \<and> same_update t u"
    then have su: "same_update s u" using st same_update_trans by blast
    from u inv show "implements c (ota_abs s) (res r) u"
      by (cases "res r = OTA_STATUS_OK") (simp_all add: implements_def same_update_ota [OF su] ota_spec.refused)
  qed
qed

lemma initialize_locked_implements:
  assumes inv: "ota_inv s"
  shows "wp (initialize_locked (monitored_ota E)) (\<lambda>e. implements Ota_initialize ph (init_status e)) s"
proof -
  have ok: "implements Ota_initialize ph r u"
    if "same_update s t" "same_update (t\<lparr>ot_session := zero_session\<rparr>) u" for r t u
  proof -
    have "\<not> fm_violation (ot_world t)"
      using that(1) inv_no_violation [OF inv] by (simp add: same_update_def)
    then show ?thesis
      by (simp add: implements_def same_update_ota [OF that(2)] reset_idle ota_spec.initialized)
  qed
  have "wp (do {
      mode_result \<leftarrow> ocall (oe_mode_transition (monitored_ota E) EVENT_OTA_RESET);
      if mode_result \<noteq> MODE_OK then State_Monad.return ESP_ERR_INVALID_STATE
      else do {
        ownership_result \<leftarrow> ocall (oe_ownership_resume (monitored_ota E));
        if ownership_result \<noteq> OWNERSHIP_OK \<and> ownership_result \<noteq> OWNERSHIP_INVALID_STATE
        then State_Monad.return ESP_ERR_INVALID_STATE
        else do {
          error \<leftarrow> ocall (oe_uart_resume (monitored_ota E));
          State_Monad.return (if error = ESP_OK then abort_error else ESP_FAIL) } } })
      (\<lambda>e. implements Ota_initialize ph (init_status e)) (t\<lparr>ot_session := zero_session\<rparr>)"
    if "same_update s t" for abort_error t
    by (rule wp_quiet [OF _ ok [OF that]]) (unfold monitored_ota_fields, intro quiet_rules)
  moreover have "quiet (if c then ocall (oe_abort (monitored_ota E) h) else State_Monad.return ESP_OK)" for c h
    unfolding monitored_ota_fields by (intro quiet_rules)
  ultimately show ?thesis
    unfolding initialize_locked_def wp_bind wp_basic wp_reset_session
    by (blast intro: wp_quiet)
qed

lemma initialize_implements:
  assumes inv: "ota_inv s"
  shows "wp (airdap_ota_initialize (monitored_ota E))
    (\<lambda>e. implements Ota_initialize (ota_abs s) (init_status e)) s"
proof -
  have locked: "wp (with_session (monitored_ota E) ESP_FAIL (initialize_locked (monitored_ota E)))
      (\<lambda>e. implements Ota_initialize (ota_abs s) (init_status e)) t" if st: "same_update s t" for t
    unfolding same_update_ota(2) [OF st, symmetric]
  proof (rule with_session_implements [where get = init_status])
    show "ota_inv t" using inv same_update_ota(1) [OF st] by simp
    fix u assume "same_update t u"
    then have "ota_inv u" using \<open>ota_inv t\<close> same_update_ota(1) by blast
    then show "wp (initialize_locked (monitored_ota E))
      (\<lambda>e. implements Ota_initialize (ota_abs t) (init_status e)) u" by (rule initialize_locked_implements)
  qed (simp add: init_status_def)
  show ?thesis
    unfolding airdap_ota_initialize_def wp_bind wp_basic wp_whenever monitored_ota_fields
    by (intro conjI impI wp_inner locked) (simp_all add: same_update_def)
qed

lemma foreign_owner: "\<not> (se_state se \<noteq> OTA_SESSION_IDLE \<and> \<not> owns_session client se) \<Longrightarrow>
  se_state se \<noteq> OTA_SESSION_IDLE \<Longrightarrow> owns_session client se"
  by blast

text \<open>The step of each operation from a state that differs from \<open>s\<close> only outside the update.\<close>

lemma locked_implements:
  assumes "ota_inv s" "same_update s t"
  shows "wp (begin_locked (monitored_ota E) client n) (implements (Ota_begin client n) (ota_abs s)) t"
    and "(se_state (ot_session t) \<noteq> OTA_SESSION_IDLE \<Longrightarrow> owns_session client (ot_session t)) \<Longrightarrow>
      wp (write_locked (monitored_ota E) off data present)
        (\<lambda>r. implements (Ota_write client off data present) (ota_abs s) (fst r)) t"
    and "(se_state (ot_session t) \<noteq> OTA_SESSION_IDLE \<Longrightarrow> owns_session client (ot_session t)) \<Longrightarrow>
      wp (commit_locked (monitored_ota E) client) (implements (Ota_commit client) (ota_abs s)) t"
  using begin_implements [of t E client n] write_implements [of t client E off data present]
    commit_implements [of t client E] assms(1) same_update_ota [OF assms(2)] by simp_all

lemma abort_client_implements:
  assumes inv: "ota_inv s" and st: "same_update s t"
    and own: "se_state (ot_session t) \<noteq> OTA_SESSION_IDLE \<Longrightarrow>
      owns_session client (ot_session t) \<or> se_disconnected (ot_session t)"
  shows "wp (abort_locked (monitored_ota E)) (implements (Ota_abort client) (ota_abs s)) t"
proof (rule abort_implements)
  show inv_t: "ota_inv t" using inv same_update_ota(1) [OF st] by simp
  show "ota_spec (ota_abs s) (Ota_abort client) OTA_STATUS_OK Idle" if "ota_abs t = Idle"
    using that same_update_ota(2) [OF st] by (simp add: ota_spec.abort_idle)
  show "ota_spec (ota_abs s) (Ota_abort client) OTA_STATUS_INVALID_STATE (ota_abs t)"
    "ota_spec (ota_abs s) (Ota_abort client) OTA_STATUS_INTERNAL_ERROR (ota_abs t)"
    using same_update_ota(2) [OF st] by (simp_all add: ota_spec.refused)
  show "ota_spec (ota_abs s) (Ota_abort client) r Idle"
    if u: "ota_abs t = Receiving u" and r: "r \<in> {OTA_STATUS_OK, OTA_STATUS_INTERNAL_ERROR}" for r u
  proof -
    have "up_owner u = owner_of client \<or> up_abandoned u"
      using own receiving_abs [OF inv_t u] by (simp add: owns_session_iff)
    then show ?thesis using u r same_update_ota(2) [OF st] by (simp add: ota_spec.aborted)
  qed
qed

lemma disconnect_implements:
  assumes inv: "ota_inv s" and st: "same_update s t"
  shows "wp (do {
      se \<leftarrow> reads ot_session;
      if se_state se = OTA_SESSION_RECEIVING \<and> owns_session client se
      then do { set_session (\<lambda>se. se\<lparr>se_disconnected := True\<rparr>); abort_locked (monitored_ota E) }
      else State_Monad.return OTA_STATUS_OK }) (implements (Ota_disconnect client) (ota_abs s)) t"
proof (cases "se_state (ot_session t) = OTA_SESSION_RECEIVING \<and> owns_session client (ot_session t)")
  case False
  have inv_t: "ota_inv t" using inv same_update_ota(1) [OF st] by simp
  have "up_owner u \<noteq> owner_of client" if "ota_abs t = Receiving u" for u
    using receiving_abs [OF inv_t that] False by (simp add: owns_session_iff)
  then have "ota_spec (ota_abs t) (Ota_disconnect client) OTA_STATUS_OK (ota_abs t)"
    by (rule ota_spec.disconnect_other)
  then show ?thesis using False inv_t same_update_ota(2) [OF st]
    by (auto simp: wp_simps implements_def)
next
  case True
  let ?t = "t\<lparr>ot_session := ot_session t\<lparr>se_disconnected := True\<rparr>\<rparr>"
  have inv_t: "ota_inv t" using inv same_update_ota(1) [OF st] by simp
  then obtain u where u: "ota_abs t = Receiving u" "up_owner u = owner_of client"
    using True by (auto simp: owns_session_iff elim: receiving_cases [OF inv_t])
  have t': "ota_inv ?t" "ota_abs ?t = Receiving (u\<lparr>up_abandoned := True\<rparr>)"
    using True inv_t u(1) by (auto simp: ota_inv_def ota_abs_def Let_def split: prod.splits)
  have "wp (abort_locked (monitored_ota E)) (implements (Ota_disconnect client) (ota_abs t)) ?t"
    by (rule abort_implements [OF t'(1)])
      (use t' u in \<open>auto intro: ota_spec.disconnected ota_spec.abandoned\<close>)
  then show ?thesis using True same_update_ota(2) [OF st] by (simp add: wp_simps)
qed

lemma committed_abs:
  assumes "ota_inv s" "same_update s t" "se_state (ot_session t) = OTA_SESSION_COMMITTED"
  obtains p img where "ota_abs s = Activated p img"
  using assms by (auto simp: ota_inv_def ota_abs_def same_update_def)

lemma restart_implements:
  assumes inv: "ota_inv s" and c: "c \<in> {Ota_reboot client, Ota_prepare_reboot client}"
    and st: "same_update s t" "se_state (ot_session t) = OTA_SESSION_COMMITTED"
  shows "ota_spec (ota_abs s) c OTA_STATUS_OK (ota_abs s)"
  using committed_abs [OF inv st] c by (metis ota_spec.restarted)

lemma idle_abs_same: "same_update s t \<Longrightarrow> se_state (ot_session t) = OTA_SESSION_IDLE \<Longrightarrow> ota_abs s = Idle"
  by (simp add: same_update_def idle_abs)

lemma query_implements:
  assumes inv: "ota_inv s"
  shows "wp (airdap_ota_reboot_for_client (monitored_ota E) client)
      (implements (Ota_reboot client) (ota_abs s)) s"
    and "wp (airdap_ota_prepare_reboot (monitored_ota E) client)
      (implements (Ota_prepare_reboot client) (ota_abs s)) s"
    and "wp (airdap_ota_debug_allowed (monitored_ota E))
      (\<lambda>b. implements Ota_debug_allowed (ota_abs s) (as_status b)) s"
    and "wp (airdap_ota_get_info (monitored_ota E) present)
      (\<lambda>r. implements (Ota_get_info present) (ota_abs s) (fst r)) s"
  unfolding airdap_ota_reboot_for_client_def airdap_ota_prepare_reboot_def
    airdap_ota_debug_allowed_def airdap_ota_get_info_def
proof -
  show "wp (with_session (monitored_ota E) OTA_STATUS_INTERNAL_ERROR (do {
      allowed \<leftarrow> authorized (monitored_ota E) client;
      if \<not> allowed then State_Monad.return OTA_STATUS_UNAUTHENTICATED
      else reboot_locked (monitored_ota E) })) (implements (Ota_reboot client) (ota_abs s)) s"
  proof (rule quiet_call_implements [where res = id, unfolded id_apply, OF inv])
    fix t assume st: "same_update s t"
    show "wp (do {
        allowed \<leftarrow> authorized (monitored_ota E) client;
        if \<not> allowed then State_Monad.return OTA_STATUS_UNAUTHENTICATED
        else reboot_locked (monitored_ota E) })
      (\<lambda>r _. r = OTA_STATUS_OK \<longrightarrow> ota_spec (ota_abs s) (Ota_reboot client) OTA_STATUS_OK (ota_abs s)) t"
      unfolding wp_bind reboot_locked_def
      by (rule wp_quiet [OF quiet_parts(3)])
        (use restart_implements [OF inv, of "Ota_reboot client" client] st same_update_trans
          in \<open>auto simp: wp_simps split: prod.split\<close>)
  qed (simp, intro quiet_rules)
  show "wp (with_session (monitored_ota E) OTA_STATUS_INTERNAL_ERROR (do {
      allowed \<leftarrow> authorized (monitored_ota E) client;
      se \<leftarrow> reads ot_session;
      State_Monad.return (if \<not> allowed then OTA_STATUS_UNAUTHENTICATED
         else if se_state se = OTA_SESSION_COMMITTED then OTA_STATUS_OK
         else OTA_STATUS_INVALID_STATE) })) (implements (Ota_prepare_reboot client) (ota_abs s)) s"
  proof (rule quiet_call_implements [where res = id, unfolded id_apply, OF inv])
    fix t assume st: "same_update s t"
    show "wp (do {
        allowed \<leftarrow> authorized (monitored_ota E) client;
        se \<leftarrow> reads ot_session;
        State_Monad.return (if \<not> allowed then OTA_STATUS_UNAUTHENTICATED
           else if se_state se = OTA_SESSION_COMMITTED then OTA_STATUS_OK
           else OTA_STATUS_INVALID_STATE) })
      (\<lambda>r _. r = OTA_STATUS_OK \<longrightarrow> ota_spec (ota_abs s) (Ota_prepare_reboot client) OTA_STATUS_OK (ota_abs s)) t"
      unfolding wp_bind wp_basic
      by (rule wp_quiet [OF quiet_parts(3)])
        (use restart_implements [OF inv, of "Ota_prepare_reboot client" client] st same_update_trans
          in \<open>auto simp: wp_simps\<close>)
  qed (simp, intro quiet_rules)
  show "wp (with_session (monitored_ota E) False (debug_allowed_locked (monitored_ota E)))
      (\<lambda>b. implements Ota_debug_allowed (ota_abs s) (as_status b)) s"
  proof (rule quiet_call_implements [where res = as_status, OF inv])
    fix t assume st: "same_update s t"
    show "wp (debug_allowed_locked (monitored_ota E)) (\<lambda>r _. as_status r = OTA_STATUS_OK \<longrightarrow>
        ota_spec (ota_abs s) Ota_debug_allowed OTA_STATUS_OK (ota_abs s)) t"
      using idle_abs_same [OF st] ota_spec.debugging
      by (auto simp: debug_allowed_locked_def wp_simps as_status_def split: prod.split)
  qed (simp add: as_status_def, rule quiet_parts)
  show "wp (with_session (monitored_ota E) (OTA_STATUS_INTERNAL_ERROR, None)
      (get_info_locked (monitored_ota E) present))
      (\<lambda>r. implements (Ota_get_info present) (ota_abs s) (fst r)) s"
    by (rule quiet_call_implements [where res = fst, OF inv])
      (simp, rule quiet_parts, rule wp_quiet [OF quiet_parts(6)], simp add: ota_spec.info)
qed

lemma run_ota_implements:
  assumes inv: "ota_inv s"
  shows "wp (run_ota (monitored_ota E) c) (implements c (ota_abs s)) s"
proof (cases c)
  case Ota_initialize
  then show ?thesis using initialize_implements [OF inv] by (simp add: wp_simps)
next
  case (Ota_begin client n)
  show ?thesis unfolding Ota_begin run_ota.simps airdap_ota_begin_for_client_def
    by (rule client_call_implements [where res = id, unfolded id_apply, OF inv])
       (simp_all add: locked_implements [OF inv])
next
  case (Ota_write client off data present)
  show ?thesis unfolding Ota_write run_ota.simps airdap_ota_write_for_client_def wp_bind wp_return_eta
    by (rule client_call_implements [where res = fst, OF inv])
       (auto intro: locked_implements [OF inv] foreign_owner)
next
  case (Ota_commit client)
  show ?thesis unfolding Ota_commit run_ota.simps airdap_ota_commit_for_client_def
    by (rule client_call_implements [where res = id, unfolded id_apply, OF inv])
       (auto intro: locked_implements [OF inv] foreign_owner)
next
  case (Ota_abort client)
  show ?thesis unfolding Ota_abort run_ota.simps airdap_ota_abort_for_client_def
    by (rule client_call_implements [where res = id, unfolded id_apply, OF inv])
       (auto intro!: abort_client_implements [OF inv])
next
  case (Ota_disconnect client)
  show ?thesis unfolding Ota_disconnect run_ota.simps airdap_ota_disconnect_client_def
    by (rule with_session_implements [where get = id, unfolded id_apply, OF inv])
       (simp_all add: disconnect_implements [OF inv])
qed (simp_all add: wp_bind wp_return_eta query_implements [OF inv])

section \<open>Executions\<close>

text \<open>
  The calls an execution made, oldest first, with their results, from a freshly started device.
\<close>

definition ota_initial :: "'h \<Rightarrow> 'h flash_monitor ota" where
  "ota_initial h = \<lparr>ot_session = zero_session, ot_mutex = False,
     ot_world = \<lparr>fm_open = None, fm_valid = None, fm_auth = None, fm_boot = None,
       fm_violation = False, fm_inner = h\<rparr>\<rparr>"

inductive ota_exec ::
  "'h ota_env \<Rightarrow> (ota_call \<times> airdap_ota_status) list \<Rightarrow> 'h flash_monitor ota \<Rightarrow> bool" for E
where
  start: "ota_exec E [] (ota_initial h)"
| call: "ota_exec E tr s \<Longrightarrow> run_state (run_ota (monitored_ota E) c) s = (r, t) \<Longrightarrow>
    ota_exec E (tr @ [(c, r)]) t"

lemma ota_initial_inv: "ota_inv (ota_initial h)" "ota_abs (ota_initial h) = Idle"
  by (simp_all add: ota_inv_def ota_abs_def ota_initial_def zero_session_def)

lemma run_ota_step:
  assumes "ota_inv s" "run_state (run_ota (monitored_ota E) c) s = (r, t)"
  shows "ota_inv t" "ota_spec (ota_abs s) c r (ota_abs t)"
  using wpD [OF run_ota_implements [OF assms(1)] assms(2)] by (simp_all add: implements_def)

lemma ota_exec_inv: "ota_exec E tr s \<Longrightarrow> ota_inv s"
  by (induction rule: ota_exec.induct) (simp_all add: ota_initial_inv run_ota_step)

lemma ota_exec_spec:
  "ota_exec E tr s \<Longrightarrow> run_state (run_ota (monitored_ota E) c) s = (r, t) \<Longrightarrow>
   ota_spec (ota_abs s) c r (ota_abs t)"
  by (rule run_ota_step(2) [OF ota_exec_inv])

text \<open>The chunks acknowledged since the last acknowledged begin, and the size that begin announced.\<close>

fun note_call :: "ota_call \<times> airdap_ota_status \<Rightarrow> nat \<times> bytes \<Rightarrow> nat \<times> bytes" where
  "note_call (Ota_begin c n, OTA_STATUS_OK) _ = (unat n, [])"
| "note_call (Ota_write c off (Some d) present, OTA_STATUS_OK) (n, img) = (n, img @ d)"
| "note_call _ x = x"

definition acknowledged :: "(ota_call \<times> airdap_ota_status) list \<Rightarrow> nat \<times> bytes" where
  "acknowledged tr = fold note_call tr (0, [])"

lemma note_call_failed: "r \<noteq> OTA_STATUS_OK \<Longrightarrow> note_call (c, r) x = x"
  by (cases "((c, r), x)" rule: note_call.cases) auto

inductive_cases ota_spec_beginE: "ota_spec ph (Ota_begin c n) OTA_STATUS_OK ph'"
inductive_cases ota_spec_writeE: "ota_spec ph (Ota_write c off d present) OTA_STATUS_OK ph'"

definition image_agrees :: "ota_phase \<Rightarrow> nat \<times> bytes \<Rightarrow> bool" where
  "image_agrees ph ack = (case ph of Idle \<Rightarrow> True
     | Receiving u \<Rightarrow> ack = (up_size u, up_image u)
     | Activated p img \<Rightarrow> ack = (length img, img))"

lemma ota_spec_agrees:
  assumes "ota_spec ph c r ph'" "image_agrees ph ack"
  shows "image_agrees ph' (note_call (c, r) ack)"
  using assms
proof (induction rule: ota_spec.induct)
  case (refused status ph c)
  then show ?case by (simp add: note_call_failed)
next
  case (committed u c status)
  then show ?case by (cases ack) (auto simp: image_agrees_def)
next
  case (restarted c cl p img)
  then show ?case by (cases ack) (auto simp: image_agrees_def)
qed (auto simp: image_agrees_def note_call_failed)

text \<open>C16. Update integrity. For every platform below the manager and every sequence of calls by
  any clients: when an image has been activated, it is exactly the concatenation of the chunks
  that were acknowledged since the last acknowledged begin, in order, and its length is the size
  that begin announced; while an update is being received, the same holds for what is in flash.\<close>

theorem ota_image_exact:
  assumes "ota_exec E tr s"
  shows "case ota_abs s of
      Idle \<Rightarrow> True
    | Receiving u \<Rightarrow> acknowledged tr = (up_size u, up_image u)
    | Activated p img \<Rightarrow> acknowledged tr = (length img, img)"
proof -
  have "image_agrees (ota_abs s) (acknowledged tr)"
    using assms
  proof (induction rule: ota_exec.induct)
    case (call tr s c r t)
    then show ?case using ota_spec_agrees [OF ota_exec_spec] by (simp add: acknowledged_def)
  qed (simp add: ota_initial_inv image_agrees_def)
  then show ?thesis by (simp add: image_agrees_def)
qed

text \<open>C18. The session behind the mutex refines the abstract update machine: every call, with the
  status it returns, is one of its steps.\<close>

theorem ota_call_refines:
  assumes "ota_exec E tr s" "run_state (run_ota (monitored_ota E) c) s = (r, t)"
  shows "ota_spec (ota_abs s) c r (ota_abs t)"
  by (rule ota_exec_spec [OF assms])

text \<open>C19. Boot safety and bounds of the session, in every reachable state: the platform never saw a
  write or an end on a handle that is not open, nor the activation of a partition that does not
  hold an image \<^verbatim>\<open>esp_ota_end\<close> has validated; and an open session has received no more than the
  announced size, which fits the partition.\<close>

theorem ota_boot_safe:
  assumes "ota_exec E tr s"
  shows "\<not> fm_violation (ot_world s) \<and>
    (se_state (ot_session s) = OTA_SESSION_RECEIVING \<longrightarrow>
      (\<exists>p. se_partition (ot_session s) = Some p \<and> 0 < se_expected_size (ot_session s) \<and>
        se_written_size (ot_session s) \<le> se_expected_size (ot_session s) \<and>
        unat (se_expected_size (ot_session s)) \<le> part_size p)) \<and>
    (se_state (ot_session s) = OTA_SESSION_COMMITTED \<longrightarrow>
      fm_boot (ot_world s) \<noteq> None \<and>
      se_partition (ot_session s) = map_option fst (fm_boot (ot_world s)))"
  using ota_exec_inv [OF assms] by (auto simp: ota_inv_def)

text \<open>C20. Exclusion: while a client has an update open and has not disconnected, a begin, write,
  commit or abort of any other client is refused, a disconnect of another client has no
  effect, and in all five cases the update is left as it is.\<close>

theorem ota_client_exclusion:
  assumes "ota_exec E tr s" "ota_abs s = Receiving u" "\<not> up_abandoned u" "up_owner u \<noteq> owner_of client"
    and "c \<in> {Ota_begin client n, Ota_write client off d present, Ota_commit client, Ota_abort client,
      Ota_disconnect client}"
    and "run_state (run_ota (monitored_ota E) c) s = (r, t)"
  shows "ota_abs t = ota_abs s \<and> (c \<noteq> Ota_disconnect client \<longrightarrow> r \<noteq> OTA_STATUS_OK)"
  using ota_exec_spec [OF assms(1,6)] assms(2-5) by (auto elim: ota_spec.cases)

section \<open>Authorisation\<close>

lemma activate_image_ok:
  "wp (activate_image (monitored_ota E) p)
     (\<lambda>r t. r = OTA_STATUS_OK \<longrightarrow> fm_auth (ot_world t) = fm_auth (ot_world s)) s"
proof -
  obtain error h where boot: "oe_set_boot_partition E p (fm_inner (ot_world s)) = (error, h)" by fastforce
  obtain mode h' where mode: "oe_mode_transition E EVENT_OTA_COMMITTED h = (mode, h')" by fastforce
  have "wp (restored_status (monitored_ota E) event OTA_STATUS_ACTIVATION_FAILED)
      (\<lambda>r t. r = OTA_STATUS_OK \<longrightarrow> Q t) x" for event Q x
    unfolding restored_status_def wp_simps by (rule wp_quiet [OF quiet_parts(4)]) simp
  then show ?thesis
    by (simp add: activate_image_def wp_simps note_boot_def inner_def boot mode)
qed

lemma finish_commit_authorised:
  "wp (finish_commit (monitored_ota E) (Some c) p) (\<lambda>r t. r = OTA_STATUS_OK \<longrightarrow>
     fm_auth (ot_world t) = Some (cl_connection c, cl_session_id c, True)) s"
proof -
  have refused: "wp (restore_idle_mode (monitored_ota E) event) (\<lambda>_ _. True) x" for event x
    by (rule wp_quiet [OF quiet_parts(4)]) simp
  obtain granted h where auth: "oe_authorize E (cl_authorize c) (cl_connection c) (cl_session_id c)
    (fm_inner (ot_world s)) = (granted, h)" by fastforce
  let ?t = "s\<lparr>ot_world := ot_world s\<lparr>fm_inner := h,
    fm_auth := Some (cl_connection c, cl_session_id c, granted)\<rparr>\<rparr>"
  have "wp (activate_image (monitored_ota E) p) (\<lambda>r t. r = OTA_STATUS_OK \<longrightarrow>
      fm_auth (ot_world t) = Some (cl_connection c, cl_session_id c, granted)) ?t"
    using activate_image_ok [of E p ?t] by simp
  then show ?thesis
    by (cases granted) (simp_all add: finish_commit_def authorized_def wp_simps inner_def note_auth_def
        auth refused)
qed

lemma commit_authorised:
  "wp (commit_locked (monitored_ota E) (Some c)) (\<lambda>r t. r = OTA_STATUS_OK \<longrightarrow>
     fm_auth (ot_world t) = Some (cl_connection c, cl_session_id c, True)) s"
proof -
  obtain error h where last: "oe_end E (se_handle (ot_session s)) (fm_inner (ot_world s)) = (error, h)"
    by fastforce
  have "wp (restored_status (monitored_ota E) event OTA_STATUS_VALIDATION_FAILED)
      (\<lambda>r t. r = OTA_STATUS_OK \<longrightarrow> Q t) x" for event Q x
    unfolding restored_status_def wp_simps by (rule wp_quiet [OF quiet_parts(4)]) simp
  then show ?thesis
    by (simp add: commit_locked_def wp_simps note_end_def inner_def last finish_commit_authorised)
qed

lemma unlock_keeps_auth:
  "wp (unlock_session (monitored_ota E)) (\<lambda>_ t. fm_auth (ot_world t) = fm_auth (ot_world s)) s"
  by (simp add: unlock_session_def wp_simps inner_def split: prod.split)

lemma with_session_result:
  assumes "\<not> Q failed" "\<And>t. same_update s t \<Longrightarrow> wp body (\<lambda>r u. Q r \<longrightarrow> R (fm_auth (ot_world u))) t"
  shows "wp (with_session (monitored_ota E) failed body) (\<lambda>r u. Q r \<longrightarrow> R (fm_auth (ot_world u))) s"
  unfolding with_session_def wp_simps
proof (rule wp_quiet [OF quiet_parts(1)], intro conjI impI)
  fix t assume st: "same_update s t"
  show "wp body (\<lambda>r. wp (unlock_session (monitored_ota E))
      (\<lambda>_ u. Q r \<longrightarrow> R (fm_auth (ot_world u)))) t"
    by (rule wp_mono [OF assms(2) [OF st]], rule wp_mono [OF unlock_keeps_auth]) simp
qed (use assms(1) in simp)

text \<open>A network client that is told its commit succeeded was authorised after the image had
  been validated, with its own connection and session, and owned the session.\<close>

theorem ota_commit_authorised:
  assumes "ota_exec E tr s"
    and "run_state (run_ota (monitored_ota E) (Ota_commit (Some c))) s = (OTA_STATUS_OK, t)"
  shows "fm_auth (ot_world t) = Some (cl_connection c, cl_session_id c, True) \<and>
    owns_session (Some c) (ot_session s)"
proof (rule conjI)
  have "wp (run_ota (monitored_ota E) (Ota_commit (Some c))) (\<lambda>r u. r = OTA_STATUS_OK \<longrightarrow>
      fm_auth (ot_world u) = Some (cl_connection c, cl_session_id c, True)) s"
    unfolding run_ota.simps airdap_ota_commit_for_client_def
    by (rule with_session_result) (simp, unfold wp_bind wp_basic, rule wp_quiet [OF quiet_parts(3)],
        simp add: wp_simps commit_authorised)
  then show "fm_auth (ot_world t) = Some (cl_connection c, cl_session_id c, True)"
    using wpD assms(2) by fastforce
  have "ota_spec (ota_abs s) (Ota_commit (Some c)) OTA_STATUS_OK (ota_abs t)"
    by (rule ota_exec_spec [OF assms])
  then obtain u where "ota_abs s = Receiving u" "up_owner u = owner_of (Some c)"
    by (auto elim: ota_spec.cases)
  then show "owns_session (Some c) (ot_session s)"
    using receiving_abs [OF ota_exec_inv [OF assms(1)]] by (simp add: owns_session_iff)
qed

section \<open>Instances\<close>

text \<open>A platform on which everything succeeds and the connection \<open>7\<close> is authorised.\<close>

definition bench_env :: "unit ota_env" where
  "bench_env = \<lparr>
     oe_take_mutex = Pair True, oe_give_mutex = Pair (), oe_create_mutex = Pair True,
     oe_authorize = (\<lambda>f c i. Pair (c = 7)),
     oe_mode_transition = (\<lambda>e. Pair MODE_OK),
     oe_mode_get = Pair (MODE_OK, None),
     oe_ownership_suspend = Pair OWNERSHIP_OK, oe_ownership_resume = Pair OWNERSHIP_OK,
     oe_uart_suspend = Pair ESP_OK, oe_uart_resume = Pair ESP_OK,
     oe_next_partition = Pair (Some \<lparr>part_address = 0x110000, part_size = 4\<rparr>),
     oe_running_partition = Pair None,
     oe_state_partition = (\<lambda>p. Pair (ESP_OK, ESP_OTA_IMG_VALID)),
     oe_mark_valid = Pair ESP_OK, oe_firmware_version = Pair None,
     oe_begin = (\<lambda>p. Pair (ESP_OK, 1)), oe_write = (\<lambda>h d. Pair ESP_OK), oe_end = (\<lambda>h. Pair ESP_OK),
     oe_abort = (\<lambda>h. Pair ESP_OK), oe_set_boot_partition = (\<lambda>p. Pair ESP_OK), oe_restart = Pair ()\<rparr>"

definition bench_client :: airdap_ota_client where
  "bench_client = \<lparr>cl_connection = 7, cl_session_id = 1, cl_authorize = 1\<rparr>"

definition bench_trace :: "(ota_call \<times> airdap_ota_status) list" where
  "bench_trace = [(Ota_initialize, OTA_STATUS_OK), (Ota_begin (Some bench_client) 3, OTA_STATUS_OK),
     (Ota_write (Some bench_client) 0 (Some [1, 2]) True, OTA_STATUS_OK),
     (Ota_write (Some bench_client) 2 (Some [3]) True, OTA_STATUS_OK)]"

definition bench_partition :: esp_partition where
  "bench_partition = \<lparr>part_address = 0x110000, part_size = 4\<rparr>"

definition bench_state :: "unit flash_monitor ota" where
  "bench_state = \<lparr>
     ot_session = \<lparr>se_partition = Some bench_partition, se_handle = 1, se_expected_size = 3,
       se_written_size = 3, se_state = OTA_SESSION_RECEIVING, se_connection = 7, se_owner_session = 1,
       se_disconnected = False\<rparr>,
     ot_mutex = True,
     ot_world = \<lparr>fm_open = Some (bench_partition, 1, [1, 2, 3]), fm_valid = None,
       fm_auth = Some (7, 1, True), fm_boot = None, fm_violation = False, fm_inner = ()\<rparr>\<rparr>"

definition bench_committed :: "unit flash_monitor ota" where
  "bench_committed = \<lparr>
     ot_session = \<lparr>se_partition = Some bench_partition, se_handle = 0, se_expected_size = 0,
       se_written_size = 0, se_state = OTA_SESSION_COMMITTED, se_connection = 7, se_owner_session = 1,
       se_disconnected = False\<rparr>,
     ot_mutex = True,
     ot_world = \<lparr>fm_open = None, fm_valid = Some (bench_partition, [1, 2, 3]),
       fm_auth = Some (7, 1, True), fm_boot = Some (bench_partition, [1, 2, 3]),
       fm_violation = False, fm_inner = ()\<rparr>\<rparr>"

text \<open>Running a list of calls.\<close>

primrec run_calls ::
  "'h ota_env \<Rightarrow> ota_call list \<Rightarrow> 'h ota \<Rightarrow> (ota_call \<times> airdap_ota_status) list \<times> 'h ota"
where
  "run_calls E [] s = ([], s)"
| "run_calls E (c # cs) s = (case run_state (run_ota E c) s of (r, t) \<Rightarrow>
     case run_calls E cs t of (tr, u) \<Rightarrow> ((c, r) # tr, u))"

lemma run_calls_exec:
  "ota_exec E tr s \<Longrightarrow> run_calls (monitored_ota E) cs s = (tr', t) \<Longrightarrow> ota_exec E (tr @ tr') t"
proof (induction cs arbitrary: tr s tr')
  case (Cons c cs)
  then obtain r u tr'' where "run_state (run_ota (monitored_ota E) c) s = (r, u)"
    "run_calls (monitored_ota E) cs u = (tr'', t)" "tr' = (c, r) # tr''"
    by (auto split: prod.splits)
  then show ?case using Cons.IH [of "tr @ [(c, r)]" u] Cons.prems by (auto intro: ota_exec.call)
qed simp

lemmas ota_eval = bench_env_def monitored_ota_def inner_def note_auth_def note_begin_def note_write_def
  note_end_def note_boot_def ocall_def set_session_def reset_session_def lock_session_def unlock_session_def
  authorized_def client_connection_def client_session_def owns_session_def restore_idle_mode_def
  initialize_locked_def start_image_def open_session_def suspend_and_open_def begin_locked_def
  write_locked_def activate_image_def finish_commit_def commit_locked_def with_session_def
  airdap_ota_initialize_def airdap_ota_begin_for_client_def airdap_ota_write_for_client_def
  airdap_ota_commit_for_client_def init_status_def whenever_def ignoring_def zero_session_def
  ota_initial_def bench_client_def UINT32_MAX_def bench_partition_def

lemma bench_exec: "ota_exec bench_env bench_trace bench_state"
proof -
  have "run_calls (monitored_ota bench_env) (map fst bench_trace) (ota_initial ()) = (bench_trace, bench_state)"
    by (simp add: bench_trace_def bench_state_def ota_eval)
  from run_calls_exec [OF ota_exec.start this] show ?thesis by simp
qed

lemma bench_commit:
  "run_state (run_ota (monitored_ota bench_env) (Ota_commit (Some bench_client))) bench_state =
     (OTA_STATUS_OK, bench_committed)"
  by (simp add: bench_state_def bench_committed_def ota_eval)

lemma bench_done: "ota_exec bench_env (bench_trace @ [(Ota_commit (Some bench_client), OTA_STATUS_OK)])
    bench_committed"
  by (rule ota_exec.call [OF bench_exec bench_commit])

lemma bench_abs:
  "ota_abs bench_committed = Activated bench_partition [1, 2, 3]"
  "ota_abs bench_state = Receiving \<lparr>up_partition = bench_partition, up_owner = (7, 1), up_size = 3,
     up_image = [1, 2, 3], up_abandoned = False\<rparr>"
  by (simp_all add: ota_abs_def bench_committed_def bench_state_def)

theorem ota_image_exact_witness:
  "ota_abs bench_committed = Activated bench_partition [1, 2, 3] \<and>
   acknowledged (bench_trace @ [(Ota_commit (Some bench_client), OTA_STATUS_OK)]) = (3, [1, 2, 3])"
  using ota_image_exact [OF bench_done] by (simp add: bench_abs)

theorem ota_call_refines_witness:
  "ota_spec (ota_abs bench_state) (Ota_commit (Some bench_client)) OTA_STATUS_OK (ota_abs bench_committed)"
  by (rule ota_call_refines [OF bench_exec bench_commit])

theorem ota_boot_safe_witness:
  "se_state (ot_session bench_committed) = OTA_SESSION_COMMITTED \<and>
   \<not> fm_violation (ot_world bench_committed) \<and> fm_boot (ot_world bench_committed) \<noteq> None"
  using ota_boot_safe [OF bench_done] by (simp add: bench_committed_def)

lemma bench_foreign:
  "run_state (run_ota (monitored_ota bench_env) (Ota_write None 3 (Some [9]) True)) bench_state =
     (OTA_STATUS_BUSY, bench_state)"
  by (simp add: bench_state_def ota_eval)

theorem ota_client_exclusion_witness:
  "ota_exec bench_env bench_trace bench_state \<and> owner_of None \<noteq> (7, 1) \<and>
   ota_abs (snd (run_state (run_ota (monitored_ota bench_env) (Ota_write None 3 (Some [9]) True)) bench_state)) =
     ota_abs bench_state"
proof -
  have owner: "owner_of None \<noteq> (7, 1)" by (simp add: owner_of_def client_connection_def)
  show ?thesis
    using ota_client_exclusion [OF bench_exec bench_abs(2) _ _ _ bench_foreign, where client = None] bench_exec owner
    by (simp add: bench_foreign del: run_ota.simps)
qed

theorem ota_commit_authorised_witness:
  "fm_auth (ot_world bench_committed) = Some (7, 1, True) \<and> owns_session (Some bench_client) (ot_session bench_state)"
  using ota_commit_authorised [OF bench_exec bench_commit] by (simp add: bench_client_def)

end
