(* ===== verification/Ota_Firmware.thy ===== *)
theory Ota_Firmware
  imports Ota_Session
begin

text \<open>
  The update manager together with the mode state and the ownership arbiter. A locale states what
  the manager relies on: a successful start of an update blocks debug access, a successful suspend
  takes the port away, and nothing else the manager calls during an update undoes this. It is
  interpreted on the models of \<^verbatim>\<open>mode_state.c\<close> and \<^verbatim>\<open>dap_ownership.c\<close>.
\<close>

definition keeps :: "('h \<Rightarrow> bool) \<Rightarrow> ('h \<Rightarrow> 'r \<times> 'h) \<Rightarrow> bool" where
  "keeps I f \<longleftrightarrow> (\<forall>h. I h \<longrightarrow> I (snd (f h)))"

text \<open>Parts of the manager that do not assign the session.\<close>

definition session_same :: "('h ota, 'a) state \<Rightarrow> bool" where
  "session_same m \<longleftrightarrow> (\<forall>s. wp m (\<lambda>_ t. ot_session t = ot_session s) s)"

named_theorems session_rules "parts of the manager that do not assign the session"

lemma session_basic [session_rules]:
  "session_same (State_Monad.return x)" "session_same (reads f)" "session_same (ocall g)"
  by (simp_all add: session_same_def wp_simps split: prod.splits)

lemma session_bind [session_rules]:
  "session_same m \<Longrightarrow> (\<And>x. session_same (f x)) \<Longrightarrow> session_same (State_Monad.bind m f)"
  unfolding session_same_def wp_bind
proof
  fix s :: "'a ota" assume m: "\<forall>s. wp m (\<lambda>_ t. ot_session t = ot_session s) s"
    and f: "\<And>x. \<forall>s. wp (f x) (\<lambda>_ t. ot_session t = ot_session s) s"
  show "wp m (\<lambda>r. wp (f r) (\<lambda>_ t. ot_session t = ot_session s)) s"
    by (rule wp_mono [OF m [rule_format]], rule wp_mono [OF f [rule_format]]) simp
qed

lemma session_if [session_rules]: "session_same m \<Longrightarrow> session_same m' \<Longrightarrow> session_same (if c then m else m')"
  by simp

lemma session_ignoring [session_rules]: "session_same m \<Longrightarrow> session_same (ignoring m)"
  unfolding ignoring_def by (intro session_rules)

lemma session_whenever [session_rules]: "session_same m \<Longrightarrow> session_same (whenever c m)"
  unfolding whenever_def by (intro session_rules)

lemma session_case_option [session_rules]:
  "session_same n \<Longrightarrow> (\<And>x. session_same (f x)) \<Longrightarrow> session_same (case e of None \<Rightarrow> n | Some x \<Rightarrow> f x)"
  by (cases e) simp_all

lemma session_case_prod [session_rules]:
  "(\<And>a b. session_same (f a b)) \<Longrightarrow> session_same (case e of (a, b) \<Rightarrow> f a b)"
  by (cases e) simp

lemma session_parts [session_rules]:
  "session_same (lock_session E)" "session_same (unlock_session E)" "session_same (authorized E client)"
  "session_same (restore_idle_mode E event)" "session_same (debug_allowed_locked E)"
  "session_same (get_info_locked E present)" "session_same (reboot_locked E)"
  unfolding lock_session_def unlock_session_def authorized_def restore_idle_mode_def
    debug_allowed_locked_def get_info_locked_def reboot_locked_def Let_def
  by (intro session_rules)+

lemma session_restored [session_rules]: "session_same (restored_status E event status)"
  unfolding restored_status_def by (intro session_rules)

section \<open>What the manager relies on\<close>

locale ota_platform =
  fixes E :: "'h ota_env" and updating suspended :: "'h \<Rightarrow> bool"
  assumes started: "oe_mode_transition E EVENT_OTA_STARTED h = (MODE_OK, h') \<Longrightarrow> updating h'"
    and suspend_updating: "keeps updating (oe_ownership_suspend E)"
    and suspend_ok: "oe_ownership_suspend E h = (OWNERSHIP_OK, h') \<Longrightarrow> suspended h'"
    and committed_keeps: "keeps (\<lambda>h. updating h \<and> suspended h) (oe_mode_transition E EVENT_OTA_COMMITTED)"
    and mutex_keeps: "keeps (\<lambda>h. updating h \<and> suspended h) (oe_take_mutex E)"
      "keeps (\<lambda>h. updating h \<and> suspended h) (oe_give_mutex E)"
      "keeps (\<lambda>h. updating h \<and> suspended h) (oe_create_mutex E)"
    and authorize_keeps: "keeps (\<lambda>h. updating h \<and> suspended h) (oe_authorize E f c i)"
    and uart_keeps: "keeps (\<lambda>h. updating h \<and> suspended h) (oe_uart_suspend E)"
    and query_keeps: "keeps (\<lambda>h. updating h \<and> suspended h) (oe_next_partition E)"
      "keeps (\<lambda>h. updating h \<and> suspended h) (oe_running_partition E)"
      "keeps (\<lambda>h. updating h \<and> suspended h) (oe_state_partition E p)"
      "keeps (\<lambda>h. updating h \<and> suspended h) (oe_firmware_version E)"
      "keeps (\<lambda>h. updating h \<and> suspended h) (oe_mode_get E)"
    and flash_keeps: "keeps (\<lambda>h. updating h \<and> suspended h) (oe_begin E p)"
      "keeps (\<lambda>h. updating h \<and> suspended h) (oe_write E handle d)"
      "keeps (\<lambda>h. updating h \<and> suspended h) (oe_end E handle)"
      "keeps (\<lambda>h. updating h \<and> suspended h) (oe_abort E handle)"
      "keeps (\<lambda>h. updating h \<and> suspended h) (oe_set_boot_partition E bp)"
      "keeps (\<lambda>h. updating h \<and> suspended h) (oe_restart E)"
begin

definition blocked :: "'h ota \<Rightarrow> bool" where
  "blocked s \<longleftrightarrow> updating (ot_world s) \<and> suspended (ot_world s)"

definition block_inv :: "'h ota \<Rightarrow> bool" where
  "block_inv s \<longleftrightarrow> (se_state (ot_session s) \<noteq> OTA_SESSION_IDLE \<longrightarrow> blocked s)"

definition stays :: "('h ota, 'a) state \<Rightarrow> bool" where
  "stays m \<longleftrightarrow> (\<forall>s. blocked s \<longrightarrow> wp m (\<lambda>_. blocked) s)"

lemma stays_call: "keeps (\<lambda>h. updating h \<and> suspended h) f \<Longrightarrow> stays (ocall f)"
  by (simp add: stays_def keeps_def blocked_def wp_simps split_beta)

lemma stays_basic: "stays (State_Monad.return x)" "stays (reads f)"
  by (simp_all add: stays_def wp_simps)

lemma stays_bind: "stays m \<Longrightarrow> (\<And>x. stays (f x)) \<Longrightarrow> stays (State_Monad.bind m f)"
  unfolding stays_def wp_bind by (blast intro: wp_mono)

lemma stays_ignoring: "stays m \<Longrightarrow> stays (ignoring m)"
  by (simp add: stays_def wp_simps)

lemma stays_if: "stays m \<Longrightarrow> stays m' \<Longrightarrow> stays (if c then m else m')"
  by simp

lemma stays_case_option:
  "stays n \<Longrightarrow> (\<And>x. stays (f x)) \<Longrightarrow> stays (case e of None \<Rightarrow> n | Some x \<Rightarrow> f x)"
  by (cases e) simp_all

lemma stays_case_prod: "(\<And>a b. stays (f a b)) \<Longrightarrow> stays (case e of (a, b) \<Rightarrow> f a b)"
  by (cases e) simp

lemmas stays_rules = stays_basic stays_bind stays_if stays_ignoring stays_case_option stays_case_prod
  stays_call mutex_keeps authorize_keeps uart_keeps query_keeps flash_keeps

lemma stays_parts:
  "stays (lock_session E)" "stays (unlock_session E)" "stays (authorized E client)"
  "stays (reboot_locked E)" "stays (debug_allowed_locked E)" "stays (get_info_locked E present)"
  unfolding lock_session_def unlock_session_def authorized_def reboot_locked_def debug_allowed_locked_def
    get_info_locked_def Let_def
  by (intro stays_rules)+

text \<open>A part that assigns no session keeps the invariant when it keeps the block.\<close>

lemma inv_of_stays:
  assumes "session_same m" "stays m" "block_inv s"
  shows "wp m (\<lambda>_. block_inv) s"
proof (cases "se_state (ot_session s) = OTA_SESSION_IDLE")
  case True
  then show ?thesis
    by (intro wp_mono [OF assms(1) [unfolded session_same_def, rule_format]]) (simp add: block_inv_def)
next
  case False
  then have "blocked s" using assms(3) by (simp add: block_inv_def)
  then show ?thesis
    by (intro wp_mono [OF assms(2) [unfolded stays_def, rule_format]]) (simp_all add: block_inv_def)
qed

lemma inv_after_reset:
  assumes "session_same m" shows "wp (State_Monad.bind reset_session (\<lambda>_. m)) (\<lambda>_. block_inv) s"
  unfolding wp_bind wp_reset_session
  by (rule wp_mono [OF assms [unfolded session_same_def, rule_format]])
     (simp add: block_inv_def zero_session_def)

lemma inv_when_idle:
  assumes "session_same m" "se_state (ot_session s) = OTA_SESSION_IDLE"
  shows "wp m (\<lambda>_. block_inv) s"
  by (rule wp_mono [OF assms(1) [unfolded session_same_def, rule_format]])
     (use assms(2) in \<open>simp add: block_inv_def\<close>)

lemma inv_step: "stays m \<Longrightarrow> blocked s \<Longrightarrow> (\<And>r t. blocked t \<Longrightarrow> wp (f r) (\<lambda>_. block_inv) t) \<Longrightarrow>
  wp (State_Monad.bind m f) (\<lambda>_. block_inv) s"
  unfolding wp_bind stays_def by (blast intro: wp_mono)

lemma inv_return: "blocked s \<Longrightarrow> wp (State_Monad.return x) (\<lambda>_. block_inv) s"
  by (simp add: wp_simps block_inv_def)

lemma activate_inv: "blocked s \<Longrightarrow> wp (activate_image E p) (\<lambda>_. block_inv) s"
  unfolding activate_image_def
proof (rule inv_step [OF stays_call [OF flash_keeps(5)]], assumption)
  fix error t assume t: "blocked t"
  let ?t = "t\<lparr>ot_session := ot_session t\<lparr>se_partition := p, se_handle := 0,
    se_expected_size := 0, se_written_size := 0, se_state := OTA_SESSION_COMMITTED\<rparr>\<rparr>"
  have "blocked ?t" using t by (simp add: blocked_def)
  then have "wp (ocall (oe_mode_transition E EVENT_OTA_COMMITTED)) (\<lambda>_. block_inv) ?t"
    by (intro wp_mono [OF stays_call [OF committed_keeps, unfolded stays_def, rule_format]])
       (simp_all add: block_inv_def)
  moreover have "wp (restored_status E EVENT_OTA_FAILED OTA_STATUS_ACTIVATION_FAILED) (\<lambda>_. block_inv)
      (t\<lparr>ot_session := zero_session\<rparr>)"
    by (intro inv_when_idle session_rules) (simp add: zero_session_def)
  ultimately show "wp (if error \<noteq> ESP_OK
      then do { reset_session; restored_status E EVENT_OTA_FAILED OTA_STATUS_ACTIVATION_FAILED }
      else do {
        set_session (\<lambda>se. se\<lparr>se_partition := p, se_handle := 0,
          se_expected_size := 0, se_written_size := 0, se_state := OTA_SESSION_COMMITTED\<rparr>);
        mode_result \<leftarrow> ocall (oe_mode_transition E EVENT_OTA_COMMITTED);
        State_Monad.return (if mode_result \<noteq> MODE_OK then OTA_STATUS_INTERNAL_ERROR
                            else OTA_STATUS_OK) }) (\<lambda>_. block_inv) t"
    by (simp add: wp_bind wp_basic wp_set_session wp_reset_session wp_return_eta)
qed

lemma not_idle_blocked: "block_inv s \<Longrightarrow> se_state (ot_session s) \<noteq> OTA_SESSION_IDLE \<Longrightarrow> blocked s"
  by (simp add: block_inv_def)

lemma commit_inv:
  assumes "block_inv s" shows "wp (commit_locked E client) (\<lambda>_. block_inv) s"
proof (cases "se_state (ot_session s) = OTA_SESSION_RECEIVING \<and>
    se_written_size (ot_session s) = se_expected_size (ot_session s)")
  case True
  then have b: "blocked s" using assms by (simp add: not_idle_blocked)
  have finish: "wp (finish_commit E client p) (\<lambda>_. block_inv) t" if "blocked t" for p t
    unfolding finish_commit_def
  proof (rule inv_step [OF stays_parts(3) that])
    fix allowed u assume "blocked u"
    then show "wp (if \<not> allowed
        then do { reset_session; ignoring (restore_idle_mode E EVENT_OTA_FAILED);
                  State_Monad.return OTA_STATUS_UNAUTHENTICATED }
        else activate_image E p) (\<lambda>_. block_inv) u"
      by (cases allowed) (simp_all add: activate_inv, intro inv_after_reset session_rules)
  qed
  have "wp (do {
      error \<leftarrow> ocall (oe_end E (se_handle (ot_session s)));
      if error \<noteq> ESP_OK
      then do { reset_session; restored_status E EVENT_OTA_FAILED OTA_STATUS_VALIDATION_FAILED }
      else finish_commit E client (se_partition (ot_session s)) }) (\<lambda>_. block_inv) s"
  proof (rule inv_step [OF stays_call [OF flash_keeps(3)] b])
    fix error t assume t: "blocked t"
    show "wp (if error \<noteq> ESP_OK
        then do { reset_session; restored_status E EVENT_OTA_FAILED OTA_STATUS_VALIDATION_FAILED }
        else finish_commit E client (se_partition (ot_session s))) (\<lambda>_. block_inv) t"
      by (cases "error = ESP_OK") (simp_all add: finish [OF t], intro inv_after_reset session_rules)
  qed
  then show ?thesis using True by (simp add: commit_locked_def wp_bind wp_basic)
next
  case False
  then show ?thesis using assms by (auto simp: commit_locked_def wp_bind wp_basic)
qed

lemma write_inv:
  assumes "block_inv s" shows "wp (write_locked E off data present) (\<lambda>_. block_inv) s"
proof (cases "se_state (ot_session s) = OTA_SESSION_RECEIVING")
  case True
  then have b: "blocked s" using assms by (simp add: not_idle_blocked)
  have abort: "wp (do {
        abort_error \<leftarrow> ocall (oe_abort E (se_handle (ot_session s)));
        if abort_error \<noteq> ESP_OK then State_Monad.return (OTA_STATUS_INTERNAL_ERROR, None)
        else do {
          reset_session;
          status \<leftarrow> restored_status E EVENT_OTA_FAILED OTA_STATUS_WRITE_FAILED;
          State_Monad.return (status, None) } }) (\<lambda>_. block_inv) t" if "blocked t" for t
  proof (rule inv_step [OF stays_call [OF flash_keeps(4)] that])
    fix e u assume u: "blocked u"
    show "wp (if e \<noteq> ESP_OK then State_Monad.return (OTA_STATUS_INTERNAL_ERROR, None)
        else do {
          reset_session;
          status \<leftarrow> restored_status E EVENT_OTA_FAILED OTA_STATUS_WRITE_FAILED;
          State_Monad.return (status, None) }) (\<lambda>_. block_inv) u"
      by (cases "e = ESP_OK") (simp_all add: inv_return [OF u], intro inv_after_reset session_rules)
  qed
  have accept: "wp (do {
        set_session (\<lambda>se. se\<lparr>se_written_size := se_written_size se + of_nat n\<rparr>);
        se \<leftarrow> reads ot_session;
        State_Monad.return (OTA_STATUS_OK, Some (se_written_size se)) }) (\<lambda>_. block_inv) t"
    if "blocked t" for t n
    using that by (simp add: wp_simps block_inv_def blocked_def)
  have step: "wp (do {
        error \<leftarrow> ocall (oe_write E (se_handle (ot_session s)) d);
        if error \<noteq> ESP_OK
        then do {
          abort_error \<leftarrow> ocall (oe_abort E (se_handle (ot_session s)));
          if abort_error \<noteq> ESP_OK then State_Monad.return (OTA_STATUS_INTERNAL_ERROR, None)
          else do {
            reset_session;
            status \<leftarrow> restored_status E EVENT_OTA_FAILED OTA_STATUS_WRITE_FAILED;
            State_Monad.return (status, None) } }
        else do {
          set_session (\<lambda>se. se\<lparr>se_written_size := se_written_size se + of_nat (length d)\<rparr>);
          se \<leftarrow> reads ot_session;
          State_Monad.return (OTA_STATUS_OK, Some (se_written_size se)) } }) (\<lambda>_. block_inv) s" for d
    by (rule inv_step [OF stays_call [OF flash_keeps(2)] b]) (simp add: abort accept)
  then show ?thesis using True assms
    by (auto simp: write_locked_def wp_bind wp_basic split: option.split)
next
  case False
  then show ?thesis using assms by (simp add: write_locked_def wp_simps)
qed

lemma abort_inv:
  assumes "block_inv s" shows "wp (abort_locked E) (\<lambda>_. block_inv) s"
proof (cases "se_state (ot_session s) = OTA_SESSION_RECEIVING")
  case True
  then have b: "blocked s" using assms by (simp add: not_idle_blocked)
  have "wp (do {
      error \<leftarrow> ocall (oe_abort E (se_handle (ot_session s)));
      if error \<noteq> ESP_OK then State_Monad.return OTA_STATUS_INTERNAL_ERROR
      else do { reset_session; restored_status E EVENT_OTA_ABORTED OTA_STATUS_OK } }) (\<lambda>_. block_inv) s"
  proof (rule inv_step [OF stays_call [OF flash_keeps(4)] b])
    fix e u assume u: "blocked u"
    show "wp (if e \<noteq> ESP_OK then State_Monad.return OTA_STATUS_INTERNAL_ERROR
        else do { reset_session; restored_status E EVENT_OTA_ABORTED OTA_STATUS_OK }) (\<lambda>_. block_inv) u"
      by (cases "e = ESP_OK") (simp_all add: inv_return [OF u], intro inv_after_reset session_rules)
  qed
  then show ?thesis using True by (simp add: abort_locked_def wp_bind wp_basic)
next
  case False
  then show ?thesis using assms by (cases "se_state (ot_session s)") (simp_all add: abort_locked_def wp_simps)
qed

text \<open>Opening a session: the port is blocked and the session is still idle.\<close>

lemma open_step:
  assumes "session_same m" "stays m" "blocked s" "se_state (ot_session s) = OTA_SESSION_IDLE"
    and "\<And>r t. blocked t \<Longrightarrow> se_state (ot_session t) = OTA_SESSION_IDLE \<Longrightarrow> wp (f r) (\<lambda>_. block_inv) t"
  shows "wp (State_Monad.bind m f) (\<lambda>_. block_inv) s"
  unfolding wp_bind
proof (rule wp_mono)
  show "wp m (\<lambda>_ t. ot_session t = ot_session s \<and> blocked t) s"
    using assms(1-3) by (simp add: wp_conj session_same_def stays_def)
qed (use assms(4,5) in simp)

lemma start_inv:
  assumes "blocked s" "se_state (ot_session s) = OTA_SESSION_IDLE"
  shows "wp (start_image E client p n) (\<lambda>_. block_inv) s"
  unfolding start_image_def
proof (rule open_step [OF session_basic(3) stays_call [OF flash_keeps(1)] assms])
  fix r :: "esp_err \<times> u32" and t assume t: "blocked t" "se_state (ot_session t) = OTA_SESSION_IDLE"
  obtain error handle where r: "r = (error, handle)" by fastforce
  show "wp (case r of (error, handle) \<Rightarrow>
      if error \<noteq> ESP_OK
      then do {
        whenever (handle \<noteq> 0) (ignoring (ocall (oe_abort E handle)));
        ignoring (restore_idle_mode E EVENT_OTA_FAILED);
        State_Monad.return OTA_STATUS_INTERNAL_ERROR }
      else do {
        set_session (\<lambda>se. se\<lparr>se_partition := Some p, se_handle := handle,
          se_expected_size := n, se_written_size := 0, se_state := OTA_SESSION_RECEIVING,
          se_connection := client_connection client, se_owner_session := client_session client\<rparr>);
        State_Monad.return OTA_STATUS_OK }) (\<lambda>_. block_inv) t"
  proof (cases "error = ESP_OK")
    case True
    then show ?thesis using r t by (simp add: wp_simps block_inv_def blocked_def)
  next
    case False
    then show ?thesis using r by (simp, intro inv_when_idle session_rules t)
  qed
qed

lemma open_inv:
  assumes "blocked s" "se_state (ot_session s) = OTA_SESSION_IDLE"
  shows "wp (open_session E client p n) (\<lambda>_. block_inv) s"
  unfolding open_session_def
proof (rule open_step [OF session_basic(3) stays_call [OF uart_keeps] assms])
  fix e t assume t: "blocked t" "se_state (ot_session t) = OTA_SESSION_IDLE"
  have "wp (do {
      allowed \<leftarrow> authorized E client;
      if \<not> allowed
      then do { ignoring (restore_idle_mode E EVENT_OTA_FAILED); State_Monad.return OTA_STATUS_UNAUTHENTICATED }
      else start_image E client p n }) (\<lambda>_. block_inv) t"
  proof (rule open_step [OF session_parts(3) stays_parts(3) t])
    fix allowed u assume u: "blocked u" "se_state (ot_session u) = OTA_SESSION_IDLE"
    show "wp (if \<not> allowed
        then do { ignoring (restore_idle_mode E EVENT_OTA_FAILED); State_Monad.return OTA_STATUS_UNAUTHENTICATED }
        else start_image E client p n) (\<lambda>_. block_inv) u"
      by (cases allowed) (simp_all add: start_inv [OF u], intro inv_when_idle session_rules u)
  qed
  moreover have "wp (do { ignoring (restore_idle_mode E EVENT_OTA_FAILED); State_Monad.return OTA_STATUS_BUSY })
      (\<lambda>_. block_inv) t"
    by (intro inv_when_idle session_rules t)
  ultimately show "wp (if e \<noteq> ESP_OK
      then do { ignoring (restore_idle_mode E EVENT_OTA_FAILED); State_Monad.return OTA_STATUS_BUSY }
      else do {
        allowed \<leftarrow> authorized E client;
        if \<not> allowed
        then do { ignoring (restore_idle_mode E EVENT_OTA_FAILED);
                  State_Monad.return OTA_STATUS_UNAUTHENTICATED }
        else start_image E client p n }) (\<lambda>_. block_inv) t"
    by simp
qed

lemma suspend_inv:
  assumes "updating (ot_world s)" "se_state (ot_session s) = OTA_SESSION_IDLE"
  shows "wp (suspend_and_open E client p n) (\<lambda>_. block_inv) s"
proof (cases "oe_ownership_suspend E (ot_world s)")
  case (Pair r h)
  let ?t = "s\<lparr>ot_world := h\<rparr>"
  have "updating h" using suspend_updating assms(1) Pair by (metis keeps_def snd_conv)
  then have ok: "r = OWNERSHIP_OK \<Longrightarrow> wp (open_session E client p n) (\<lambda>_. block_inv) ?t"
    using suspend_ok Pair assms(2) by (intro open_inv) (auto simp: blocked_def)
  have "wp (ocall (oe_mode_transition E EVENT_OTA_FAILED)) (\<lambda>_. block_inv) ?t"
    by (rule inv_when_idle [OF session_basic(3)]) (simp add: assms(2))
  then show ?thesis using ok
    by (simp add: suspend_and_open_def wp_bind wp_ocall [of "oe_ownership_suspend E"] Pair wp_if wp_return_eta)
qed

lemma begin_inv:
  assumes "block_inv s" shows "wp (begin_locked E client n) (\<lambda>_. block_inv) s"
proof (cases "se_state (ot_session s) = OTA_SESSION_IDLE")
  case False
  then show ?thesis using assms by (simp add: begin_locked_def wp_simps)
next
  case True
  obtain part h where part: "oe_next_partition E (ot_world s) = (part, h)" by fastforce
  obtain r h' where mode: "oe_mode_transition E EVENT_OTA_STARTED h = (r, h')" by fastforce
  have "wp (suspend_and_open E client p n) (\<lambda>_. block_inv) (s\<lparr>ot_world := h'\<rparr>)"
    if "r = MODE_OK" for p
    using that started mode True by (intro suspend_inv) auto
  then show ?thesis using True
    by (simp add: begin_locked_def wp_simps part mode block_inv_def split: option.split)
qed

lemma initialize_inv:
  assumes "block_inv s" shows "wp (initialize_locked E) (\<lambda>_. block_inv) s"
proof -
  have reset: "wp (do {
      reset_session;
      mode_result \<leftarrow> ocall (oe_mode_transition E EVENT_OTA_RESET);
      if mode_result \<noteq> MODE_OK then State_Monad.return ESP_ERR_INVALID_STATE
      else do {
        ownership_result \<leftarrow> ocall (oe_ownership_resume E);
        if ownership_result \<noteq> OWNERSHIP_OK \<and> ownership_result \<noteq> OWNERSHIP_INVALID_STATE
        then State_Monad.return ESP_ERR_INVALID_STATE
        else do {
          error \<leftarrow> ocall (oe_uart_resume E);
          State_Monad.return (if error = ESP_OK then abort_error else ESP_FAIL) } } }) (\<lambda>_. block_inv) t"
    for abort_error t by (intro inv_after_reset session_rules)
  show ?thesis
    unfolding initialize_locked_def wp_bind [of "reads _"] wp_basic
    by (subst wp_bind, rule wpI, rule reset)
qed

lemma with_session_inv:
  assumes "\<And>t. block_inv t \<Longrightarrow> wp body (\<lambda>_. block_inv) t" "block_inv s"
  shows "wp (with_session E failed body) (\<lambda>_. block_inv) s"
  unfolding with_session_def wp_bind [of "lock_session E"]
proof (rule wp_mono [OF inv_of_stays [OF session_parts(1) stays_parts(1) assms(2)]])
  fix locked t assume t: "block_inv t"
  have "wp body (\<lambda>r. wp (do { unlock_session E; State_Monad.return r }) (\<lambda>_. block_inv)) t"
    by (rule wp_mono [OF assms(1) [OF t]])
       (simp add: wp_bind wp_return_eta inv_of_stays [OF session_parts(2) stays_parts(2)])
  then show "wp (if \<not> locked then State_Monad.return failed
      else do { result \<leftarrow> body; unlock_session E; State_Monad.return result }) (\<lambda>_. block_inv) t"
    using t by (simp add: wp_bind wp_basic)
qed

lemma client_call_inv:
  assumes "\<And>t. block_inv t \<Longrightarrow> wp body (\<lambda>_. block_inv) t" "block_inv s"
  shows "wp (with_session E failed (do {
      allowed \<leftarrow> authorized E client;
      se \<leftarrow> reads ot_session;
      if \<not> allowed then State_Monad.return unauth
      else if foreign se then State_Monad.return busy else body })) (\<lambda>_. block_inv) s"
proof (rule with_session_inv [OF _ assms(2)])
  fix t assume "block_inv t"
  then show "wp (do {
      allowed \<leftarrow> authorized E client;
      se \<leftarrow> reads ot_session;
      if \<not> allowed then State_Monad.return unauth
      else if foreign se then State_Monad.return busy else body }) (\<lambda>_. block_inv) t"
    unfolding wp_bind wp_basic
    by (intro wp_mono [OF inv_of_stays [OF session_parts(3) stays_parts(3)]]) (simp_all add: wp_simps assms(1))
qed

lemma disconnect_inv:
  assumes "block_inv s"
  shows "wp (do {
      se \<leftarrow> reads ot_session;
      if se_state se = OTA_SESSION_RECEIVING \<and> owns_session client se
      then do { set_session (\<lambda>se. se\<lparr>se_disconnected := True\<rparr>); abort_locked E }
      else State_Monad.return OTA_STATUS_OK }) (\<lambda>_. block_inv) s"
  using assms abort_inv [of "s\<lparr>ot_session := ot_session s\<lparr>se_disconnected := True\<rparr>\<rparr>"]
  by (simp add: wp_simps block_inv_def blocked_def)

lemma quiet_call_inv:
  assumes "session_same body" "stays body" "block_inv s"
  shows "wp (with_session E failed body) (\<lambda>_. block_inv) s"
  by (rule with_session_inv [OF inv_of_stays [OF assms(1,2)] assms(3)])

lemma run_ota_inv:
  assumes "block_inv s" shows "wp (run_ota E c) (\<lambda>_. block_inv) s"
proof (cases c)
  case Ota_initialize
  have "wp (with_session E ESP_FAIL (initialize_locked E)) (\<lambda>_. block_inv) t" if "block_inv t" for t
    by (rule with_session_inv [OF initialize_inv that])
  moreover have "wp (ocall (oe_create_mutex E)) (\<lambda>r t. block_inv (t\<lparr>ot_mutex := r\<rparr>)) s"
    using inv_of_stays [OF session_basic(3) stays_call [OF mutex_keeps(3)] assms]
    by (rule wp_mono) (simp add: block_inv_def blocked_def)
  ultimately show ?thesis using assms
    unfolding Ota_initialize run_ota.simps airdap_ota_initialize_def wp_bind wp_basic wp_whenever wp_return_eta
    by (intro conjI impI) (erule wp_mono, assumption)+
next
  case (Ota_disconnect client)
  show ?thesis unfolding Ota_disconnect run_ota.simps airdap_ota_disconnect_client_def
    by (rule with_session_inv [OF disconnect_inv assms])
next
  case (Ota_reboot client)
  show ?thesis unfolding Ota_reboot run_ota.simps airdap_ota_reboot_for_client_def
    by (intro quiet_call_inv session_rules stays_rules stays_parts assms)
next
  case (Ota_prepare_reboot client)
  show ?thesis unfolding Ota_prepare_reboot run_ota.simps airdap_ota_prepare_reboot_def
    by (intro quiet_call_inv session_rules stays_rules stays_parts assms)
qed (simp_all add: wp_bind wp_return_eta airdap_ota_begin_for_client_def airdap_ota_write_for_client_def
  airdap_ota_commit_for_client_def airdap_ota_abort_for_client_def
  airdap_ota_debug_allowed_def airdap_ota_get_info_def client_call_inv begin_inv write_inv commit_inv
  abort_inv quiet_call_inv session_parts stays_parts assms)

end

section \<open>The firmware\<close>

text \<open>
  The platform of the manager with the mode state and the arbiter in place: the state is their
  atomic variables and the rest of the platform \<open>Q\<close>. A call runs to its end without interference,
  so one compare-exchange attempt is enough.
\<close>

definition beside :: "('k \<Rightarrow> 'r \<times> 'k) \<Rightarrow> shared \<times> 'k \<Rightarrow> 'r \<times> shared \<times> 'k" where
  "beside f = (\<lambda>(s, k). case f k of (r, k') \<Rightarrow> (r, (s, k')))"

definition running :: "'k env \<Rightarrow> 'r prog \<Rightarrow> shared \<times> 'k \<Rightarrow> 'r \<times> shared \<times> 'k" where
  "running P p = (\<lambda>(s, k). the (run P p s k))"

definition firmware_ota :: "'k env \<Rightarrow> 'k ota_env \<Rightarrow> (shared \<times> 'k) ota_env" where
  "firmware_ota P Q = \<lparr>
     oe_take_mutex = beside (oe_take_mutex Q),
     oe_give_mutex = beside (oe_give_mutex Q),
     oe_create_mutex = beside (oe_create_mutex Q),
     oe_authorize = (\<lambda>f c i. beside (oe_authorize Q f c i)),
     oe_mode_transition = (\<lambda>e. running P (airdap_mode_state_transition 1 e)),
     oe_mode_get = running P (airdap_mode_state_get True),
     oe_ownership_suspend = running P (airdap_dap_ownership_suspend 1),
     oe_ownership_resume = running P (airdap_dap_ownership_resume 1),
     oe_uart_suspend = beside (oe_uart_suspend Q),
     oe_uart_resume = beside (oe_uart_resume Q),
     oe_next_partition = beside (oe_next_partition Q),
     oe_running_partition = beside (oe_running_partition Q),
     oe_state_partition = (\<lambda>p. beside (oe_state_partition Q p)),
     oe_mark_valid = beside (oe_mark_valid Q),
     oe_firmware_version = beside (oe_firmware_version Q),
     oe_begin = (\<lambda>p. beside (oe_begin Q p)),
     oe_write = (\<lambda>h d. beside (oe_write Q h d)),
     oe_end = (\<lambda>h. beside (oe_end Q h)),
     oe_abort = (\<lambda>h. beside (oe_abort Q h)),
     oe_set_boot_partition = (\<lambda>p. beside (oe_set_boot_partition Q p)),
     oe_restart = beside (oe_restart Q)\<rparr>"

definition ota_busy :: "u32 \<Rightarrow> bool" where
  "ota_busy w \<longleftrightarrow> m_ota (mode_of w) \<noteq> 0"

definition port_suspended :: "u32 \<Rightarrow> bool" where
  "port_suspended w \<longleftrightarrow> control_state w = OWNERSHIP_STATE_SUSPENDED"

lemma next_control_ota:
  assumes "next_control w e = Inr v"
  shows "e = EVENT_OTA_STARTED \<Longrightarrow> ota_busy v"
    and "e \<notin> {EVENT_OTA_ABORTED, EVENT_OTA_FAILED, EVENT_OTA_RESET} \<Longrightarrow> ota_busy w \<Longrightarrow> ota_busy v"
proof -
  obtain m where m: "mode_event e (mode_of w) = Some m" "mode_of v = advance_epochs e (mode_of w) m"
    using next_control_mode [of w e] assms by (auto split: option.splits)
  then have ota: "m_ota (mode_of v) = m_ota m" by (simp add: advance_epochs_def)
  show "e = EVENT_OTA_STARTED \<Longrightarrow> ota_busy v" using m(1) ota by (auto simp: ota_busy_def split: if_splits)
  show "e \<notin> {EVENT_OTA_ABORTED, EVENT_OTA_FAILED, EVENT_OTA_RESET} \<Longrightarrow> ota_busy w \<Longrightarrow> ota_busy v"
    using m(1) ota by (cases e) (auto simp: ota_busy_def split: if_splits)
qed

lemma transition_run:
  assumes "e \<noteq> EVENT_USB_ATTACHED"
  shows "run P (airdap_mode_state_transition (Suc 0) e) s k = Some (
     if s Mode_control AND MODE_INITIALIZED = 0 then (MODE_INVALID_STATE, s, k)
     else case next_control (s Mode_control) e of
         Inl r \<Rightarrow> (r, s, k) | Inr v \<Rightarrow> (MODE_OK, s(Mode_control := v), k))"
  using assms by (simp add: airdap_mode_state_transition_def enter_preemption_def leave_preemption_def
      split: sum.split)

lemma next_control_not_ok: "next_control w e \<noteq> Inl MODE_OK"
  by (cases e) (auto simp: next_control_def event_effect_def Let_def split: if_splits sum.splits)

lemma suspend_run:
  "\<exists>r w k'. run P (airdap_dap_ownership_suspend (Suc 0)) s k = Some (r, s(Ownership_control := w), k') \<and>
     (r = OWNERSHIP_OK \<longrightarrow> port_suspended w)"
proof -
  have state: "control_state (make_control g OWNERSHIP_STATE_SUSPENDED) = OWNERSHIP_STATE_SUSPENDED" for g
    by (rule make_control_state) simp
  have same: "s = s(Ownership_control := s Ownership_control)" by simp
  show ?thesis
    by (cases "env_release_pins P k")
      (auto simp: airdap_dap_ownership_suspend_def Let_def release_pins_def port_suspended_def state
        intro: exI [of _ "s Ownership_control"])
qed

lemma mode_get_run: "snd (the (run P (airdap_mode_state_get True) s k)) = (s, k)"
  by (simp add: airdap_mode_state_get_def run_bindp current_run)

interpretation firmware: ota_platform "firmware_ota P Q"
  "\<lambda>(s, k). ota_busy (s Mode_control)" "\<lambda>(s, k). port_suspended (s Ownership_control)" for P Q
proof -
  have beside: "keeps (\<lambda>h. (case h of (s, k) \<Rightarrow> ota_busy (s Mode_control)) \<and>
      (case h of (s, k) \<Rightarrow> port_suspended (s Ownership_control))) (beside f)" for f :: "'a \<Rightarrow> 'r \<times> 'a"
    by (simp add: keeps_def beside_def split: prod.splits)
  show "ota_platform (firmware_ota P Q) (\<lambda>(s, k). ota_busy (s Mode_control))
      (\<lambda>(s, k). port_suspended (s Ownership_control))"
  proof
    fix h h' :: "shared \<times> 'a"
    show "case h' of (s, k) \<Rightarrow> ota_busy (s Mode_control)"
      if "oe_mode_transition (firmware_ota P Q) EVENT_OTA_STARTED h = (MODE_OK, h')"
      using that next_control_ota(1) next_control_not_ok
      by (auto simp: firmware_ota_def running_def transition_run split: prod.splits if_splits sum.splits)
    show "case h' of (s, k) \<Rightarrow> port_suspended (s Ownership_control)"
      if "oe_ownership_suspend (firmware_ota P Q) h = (OWNERSHIP_OK, h')"
      using that suspend_run [of P "fst h" "snd h"]
      by (auto simp: firmware_ota_def running_def split: prod.splits)
    show "keeps (\<lambda>(s, k). ota_busy (s Mode_control)) (oe_ownership_suspend (firmware_ota P Q))"
      unfolding keeps_def
    proof (intro allI impI)
      fix h :: "shared \<times> 'a" assume "case h of (s, k) \<Rightarrow> ota_busy (s Mode_control)"
      then show "case snd (oe_ownership_suspend (firmware_ota P Q) h) of (s, k) \<Rightarrow> ota_busy (s Mode_control)"
        using suspend_run [of P "fst h" "snd h"] by (auto simp: firmware_ota_def running_def split: prod.splits)
    qed
    show "keeps (\<lambda>h. (case h of (s, k) \<Rightarrow> ota_busy (s Mode_control)) \<and>
        (case h of (s, k) \<Rightarrow> port_suspended (s Ownership_control)))
        (oe_mode_transition (firmware_ota P Q) EVENT_OTA_COMMITTED)"
      using next_control_ota(2)
      by (auto simp: keeps_def firmware_ota_def running_def transition_run split: sum.split)
    show "keeps (\<lambda>h. (case h of (s, k) \<Rightarrow> ota_busy (s Mode_control)) \<and>
        (case h of (s, k) \<Rightarrow> port_suspended (s Ownership_control)))
        (oe_mode_get (firmware_ota P Q))"
      by (simp add: keeps_def firmware_ota_def running_def mode_get_run split: prod.split)
  qed (simp_all add: firmware_ota_def beside)
qed

section \<open>Other tasks during an update\<close>

text \<open>
  Tasks that attach and detach USB, move the Wi-Fi, provisioning and shell state, change the route,
  acquire, use and release the port, in any interleaving; only the manager sends update events and
  suspends or resumes the port.
\<close>

definition update_event :: "airdap_mode_event \<Rightarrow> bool" where
  "update_event e \<longleftrightarrow> e \<in> {EVENT_OTA_STARTED, EVENT_OTA_ABORTED, EVENT_OTA_FAILED, EVENT_OTA_COMMITTED,
     EVENT_OTA_RESET}"

inductive_set debug_clients :: "unit prog set" where
  finished: "Ret () \<in> debug_clients"
| transition: "\<not> update_event e \<Longrightarrow> (\<And>r. f r \<in> debug_clients) \<Longrightarrow>
    bindp (airdap_mode_state_transition n e) f \<in> debug_clients"
| get: "(\<And>r. f r \<in> debug_clients) \<Longrightarrow> bindp (airdap_mode_state_get b) f \<in> debug_clients"
| admission: "(\<And>r. f r \<in> debug_clients) \<Longrightarrow> bindp (airdap_mode_state_dap_admission ow a) f \<in> debug_clients"
| set_route: "(\<And>r. f r \<in> debug_clients) \<Longrightarrow> bindp (airdap_mode_state_set_dap_route n route) f \<in> debug_clients"
| acquire: "(\<And>r. f r \<in> debug_clients) \<Longrightarrow> bindp (airdap_mode_state_dap_acquire ow a b) f \<in> debug_clients"
| release: "(\<And>r. f r \<in> debug_clients) \<Longrightarrow> bindp (airdap_dap_ownership_release c) f \<in> debug_clients"
| revoke: "(\<And>r. f r \<in> debug_clients) \<Longrightarrow> bindp airdap_dap_ownership_revoke f \<in> debug_clients"
| dap_session: "(\<And>r. f r \<in> debug_clients) \<Longrightarrow> bus_session DAP_ALLOWED
    (airdap_mode_state_dap_operation_begin ow a c (Some zero_operation)) n f \<in> debug_clients"
| control_session: "(\<And>r. f r \<in> debug_clients) \<Longrightarrow> bus_session DAP_ALLOWED
    (airdap_mode_state_control_operation_begin a (Some zero_operation)) n f \<in> debug_clients"

abbreviation busy_writes :: "'a prog \<Rightarrow> bool" where
  "busy_writes p \<equiv> writes_ok Mode_control ota_busy p (\<lambda>_. True)"

abbreviation suspended_writes :: "'a prog \<Rightarrow> bool" where
  "suspended_writes p \<equiv> writes_ok Ownership_control port_suspended p (\<lambda>_. True)"

lemma busy_transition:
  assumes "\<not> update_event e" shows "busy_writes (airdap_mode_state_transition n e)"
proof -
  have e: "e \<notin> {EVENT_OTA_ABORTED, EVENT_OTA_FAILED, EVENT_OTA_RESET}"
    using assms by (auto simp: update_event_def)
  have "ota_busy c \<Longrightarrow> busy_writes (transition_loop n e c)" for c
  proof (induction n arbitrary: c)
    case (Suc n)
    then show ?case using next_control_ota(2) [OF _ e]
      by (auto simp: Let_def preemption_writes split: sum.split prod.split
          intro!: writes_ok_bindp [OF ownership_writes(6)])
  qed simp
  then show ?thesis by (simp add: airdap_mode_state_transition_def preemption_writes)
qed

lemma busy_route: "busy_writes (airdap_mode_state_set_dap_route n route)"
proof -
  have busy: "c AND MODE_OTA_MASK \<noteq> 0" if "ota_busy c" for c
    using that flag_as_field(4) [of c] by (auto simp: ota_busy_def mode_of_def)
  have "busy_writes (select_route n route)"
    using busy by (auto simp: select_route_def)
  then show ?thesis
    unfolding airdap_mode_state_set_dap_route_def
    by (auto simp: Let_def split: prod.split
        intro!: writes_ok_bindp [OF ownership_writes(8)] writes_ok_bindp [OF ownership_writes(9)]
          writes_ok_bindp [where R = "\<lambda>_. True"])
qed

lemma busy_begin:
  "busy_writes (airdap_mode_state_dap_acquire r a b)"
  "busy_writes (airdap_mode_state_control_operation_begin a op)"
  "busy_writes (airdap_mode_state_dap_operation_begin r a c op)"
  "busy_writes (airdap_mode_state_get g)"
  "busy_writes (airdap_mode_state_dap_admission ow a)"
  unfolding airdap_mode_state_control_operation_begin_def airdap_mode_state_dap_operation_begin_def
    airdap_mode_state_dap_acquire_def dap_acquire_def dap_acquire_admission_def airdap_mode_state_get_def
    airdap_mode_state_dap_admission_def
  by (auto simp: Let_def preemption_writes admission_writes split: prod.split
      intro!: writes_ok_bindp [OF admission_writes] writes_ok_bindp [where R = "\<lambda>_. True"])

lemma debug_clients_busy: "p \<in> debug_clients \<Longrightarrow> busy_writes p"
  by (induction rule: debug_clients.induct)
    (auto intro: writes_ok_bindp session_writes busy_transition busy_route busy_begin mode_ownership_writes)

lemma suspended_facts:
  assumes "port_suspended w"
  shows "control_state w = OWNERSHIP_STATE_SUSPENDED" "\<not> is_owner (control_state w)"
  using assms by (simp_all add: port_suspended_def is_owner_def)

lemma not_suspended_claim: "is_owner ow \<Longrightarrow> \<not> port_suspended (make_control g ow)"
  by (auto simp: port_suspended_def is_owner_iff control_simps)

lemma suspended_ownership:
  "suspended_writes airdap_dap_ownership_current"
  "suspended_writes (airdap_dap_ownership_acquire ow b)"
  "suspended_writes (airdap_dap_ownership_release c)"
  "suspended_writes airdap_dap_ownership_revoke"
  "suspended_writes (airdap_dap_ownership_revoke_owner ow)"
  "suspended_writes (airdap_dap_ownership_operation_begin c op)"
  "suspended_writes (airdap_dap_ownership_control_begin ow op)"
  "suspended_writes (airdap_dap_ownership_operation_end op)"
proof -
  show "suspended_writes airdap_dap_ownership_current"
    by (simp add: airdap_dap_ownership_current_def Let_def)
  show "suspended_writes (airdap_dap_ownership_acquire ow b)"
    by (auto simp: airdap_dap_ownership_acquire_def Let_def suspended_facts)
  show "suspended_writes airdap_dap_ownership_revoke"
    by (auto simp: airdap_dap_ownership_revoke_def Let_def suspended_facts is_owner_iff)
  show "suspended_writes (airdap_dap_ownership_revoke_owner ow)"
    by (auto simp: airdap_dap_ownership_revoke_owner_def Let_def suspended_facts is_owner_iff)
  show "suspended_writes (airdap_dap_ownership_control_begin ow op)"
    by (auto simp: airdap_dap_ownership_control_begin_def Let_def suspended_facts is_owner_iff split: option.split)
  show "suspended_writes (airdap_dap_ownership_operation_begin c op)"
    using not_suspended_claim by (auto simp: airdap_dap_ownership_operation_begin_def Let_def valid_claim_def
        split: option.split prod.split)
  show "suspended_writes (airdap_dap_ownership_operation_end op)"
    by (auto simp: airdap_dap_ownership_operation_end_def Let_def port_suspended_def control_and_not_active(1) [simplified]
        split: option.split)
  show "suspended_writes (airdap_dap_ownership_release c)"
    using not_suspended_claim by (auto simp: airdap_dap_ownership_release_def valid_claim_def release_pins_def
        split: option.split)
qed

lemma suspended_preemption:
  "suspended_writes (leave_preemption b p) = suspended_writes p"
  "suspended_writes (enter_preemption b p) = suspended_writes p"
  by (simp_all add: leave_preemption_def enter_preemption_def)

lemma suspended_admission: "suspended_writes (dap_admission_for_control c r a b)"
  unfolding dap_admission_for_control_def
  by (auto split: airdap_mode_dap_result.split intro!: writes_ok_bindp [OF suspended_ownership(1)])

lemma suspended_transition: "suspended_writes (airdap_mode_state_transition n e)"
proof -
  have "suspended_writes (transition_loop n e c)" for c
    by (induction n arbitrary: c)
      (auto simp: Let_def suspended_preemption split: sum.split intro!: writes_ok_bindp [OF suspended_ownership(5)])
  then show ?thesis by (simp add: airdap_mode_state_transition_def suspended_preemption)
qed

lemma suspended_route: "suspended_writes (airdap_mode_state_set_dap_route n route)"
proof -
  have "suspended_writes (store_route_loop n v c)" for n v c by (induction n arbitrary: c) auto
  then have "suspended_writes (select_route n route)"
    by (auto simp: select_route_def airdap_mode_storage_save_def Let_def split: prod.split)
  then show ?thesis
    unfolding airdap_mode_state_set_dap_route_def
    by (auto simp: Let_def split: prod.split intro!: writes_ok_bindp [OF suspended_ownership(7)]
        writes_ok_bindp [OF suspended_ownership(8)] writes_ok_bindp [where R = "\<lambda>_. True"])
qed

lemma suspended_begin:
  "suspended_writes (airdap_mode_state_dap_acquire r a b)"
  "suspended_writes (airdap_mode_state_control_operation_begin a op)"
  "suspended_writes (airdap_mode_state_dap_operation_begin r a c op)"
  "suspended_writes (airdap_mode_state_get g)"
  "suspended_writes (airdap_mode_state_dap_admission ow a)"
  unfolding airdap_mode_state_control_operation_begin_def airdap_mode_state_dap_operation_begin_def
    airdap_mode_state_dap_acquire_def dap_acquire_def dap_acquire_admission_def airdap_mode_state_get_def
    airdap_mode_state_dap_admission_def
  by (auto simp: Let_def suspended_preemption suspended_admission suspended_ownership split: prod.split
      intro!: writes_ok_bindp [OF suspended_admission] writes_ok_bindp [where R = "\<lambda>_. True"])

lemma suspended_session:
  assumes "suspended_writes b" "\<And>r. suspended_writes (f r)"
  shows "suspended_writes (bus_session ok b n f)"
proof -
  have accesses: "suspended_writes p \<Longrightarrow> suspended_writes (bus_accesses n p)" for p by (induction n) auto
  have "suspended_writes (bindp (airdap_dap_ownership_operation_end op) (\<lambda>_. f r))" for op r
    by (rule writes_ok_bindp [OF suspended_ownership(8)]) (rule assms(2))
  then show ?thesis unfolding bus_session_def
    by (intro writes_ok_bindp [OF assms(1)]) (auto simp: assms(2) accesses split: prod.split)
qed

lemma debug_clients_suspended: "p \<in> debug_clients \<Longrightarrow> suspended_writes p"
  by (induction rule: debug_clients.induct)
    (auto intro: writes_ok_bindp suspended_session suspended_transition suspended_route suspended_begin
      suspended_ownership)

lemma interference:
  assumes "sys_steps debug_clients (\<lambda>_. Ret (), s) (ts, s')"
  shows "ota_busy (s Mode_control) \<Longrightarrow> ota_busy (s' Mode_control)"
    and "port_suspended (s Ownership_control) \<Longrightarrow> port_suspended (s' Ownership_control)"
  using sys_steps_writes_ok [OF assms debug_clients_busy]
    sys_steps_writes_ok [OF assms debug_clients_suspended] by auto

section \<open>No debug access during an update\<close>

text \<open>
  Executions of the firmware: calls into the manager, and between them any interleaving of other
  tasks; the platform may change in any way meanwhile.
\<close>

inductive firmware_exec :: "'k env \<Rightarrow> 'k ota_env \<Rightarrow> (shared \<times> 'k) ota \<Rightarrow> bool" for P Q where
  boot: "firmware_exec P Q \<lparr>ot_session = zero_session, ot_mutex = False, ot_world = (sh, k)\<rparr>"
| call: "firmware_exec P Q s \<Longrightarrow> run_state (run_ota (firmware_ota P Q) c) s = (r, t) \<Longrightarrow> firmware_exec P Q t"
| others: "firmware_exec P Q s \<Longrightarrow> ot_world s = (sh, k) \<Longrightarrow>
    sys_steps debug_clients (\<lambda>_. Ret (), sh) (ts, sh') \<Longrightarrow>
    firmware_exec P Q (s\<lparr>ot_world := (sh', k')\<rparr>)"

lemma firmware_exec_inv: "firmware_exec P Q s \<Longrightarrow> firmware.block_inv s"
proof (induction rule: firmware_exec.induct)
  case (boot sh k)
  then show ?case by (simp add: firmware.block_inv_def zero_session_def)
next
  case (call s c r t)
  then show ?case using wpD [OF firmware.run_ota_inv] by blast
next
  case (others s sh k ts sh' k')
  then show ?case using interference [OF others.hyps(3)]
    by (simp add: firmware.block_inv_def firmware.blocked_def)
qed


text \<open>A device with a free port on which the bench client of \<open>Ota_Session\<close> has opened an update.\<close>

definition ready_shared :: shared where
  "ready_shared = (\<lambda>_. 0)(Mode_control := 0x81, Ownership_control := 0)"

definition idle_env :: "unit env" where
  "idle_env = \<lparr>env_line_reset = Pair True, env_release_pins = Pair True, env_bus = id,
     env_nvs_load = Pair (ESP_OK, ESP_OK, 0), env_nvs_save = (\<lambda>x. Pair (ESP_OK, ESP_OK, ESP_OK))\<rparr>"

definition updating_device :: "(shared \<times> unit) ota" where
  "updating_device = \<lparr>
     ot_session = \<lparr>se_partition = Some bench_partition, se_handle = 1, se_expected_size = 3,
       se_written_size = 0, se_state = OTA_SESSION_RECEIVING, se_connection = 7, se_owner_session = 1,
       se_disconnected = False\<rparr>,
     ot_mutex = True,
     ot_world = ((\<lambda>_. 0)(Mode_control := 0x2A1, Ownership_control := 6), ())\<rparr>"

lemma run_calls_firmware:
  "firmware_exec P Q s \<Longrightarrow> run_calls (firmware_ota P Q) cs s = (tr, t) \<Longrightarrow> firmware_exec P Q t"
  by (induction cs arbitrary: s tr) (auto split: prod.splits intro: firmware_exec.call)

lemma updating_device_exec: "firmware_exec idle_env bench_env updating_device"
proof (rule run_calls_firmware [OF firmware_exec.boot])
  show "run_calls (firmware_ota idle_env bench_env) [Ota_initialize, Ota_begin (Some bench_client) 3]
      \<lparr>ot_session = zero_session, ot_mutex = False, ot_world = (ready_shared, ())\<rparr> =
    ([(Ota_initialize, OTA_STATUS_OK), (Ota_begin (Some bench_client) 3, OTA_STATUS_OK)], updating_device)"
    by (simp add: updating_device_def ota_eval firmware_ota_def beside_def running_def ready_shared_def
        mode_defs airdap_dap_ownership_resume_def airdap_dap_ownership_suspend_def control_state_def
        control_active_def Let_def make_control_def control_generation_def)
qed


end
