(* ===== verification/Dap_Ota.thy ===== *)
theory Dap_Ota
  imports Dap_Protocol Ota_Session
begin

text \<open>
  The USB update commands, \<^verbatim>\<open>firmware/components/dap_protocol/dap_ota.c\<close>: CMSIS-DAP vendor commands
  \<^verbatim>\<open>0x80\<close> to \<^verbatim>\<open>0x85\<close> decoded into calls of the update manager, with the same bounded buffers as the
  command processor. The result is the response length, the response buffer and the state of the
  manager, or \<^const>\<open>None\<close> for an access outside a buffer.
\<close>

abbreviation (input) OTA_QUERY :: u8 where "OTA_QUERY \<equiv> 0x80"
abbreviation (input) OTA_BEGIN :: u8 where "OTA_BEGIN \<equiv> 0x81"
abbreviation (input) OTA_WRITE :: u8 where "OTA_WRITE \<equiv> 0x82"
abbreviation (input) OTA_COMMIT :: u8 where "OTA_COMMIT \<equiv> 0x83"
abbreviation (input) OTA_ABORT :: u8 where "OTA_ABORT \<equiv> 0x84"
abbreviation (input) OTA_REBOOT :: u8 where "OTA_REBOOT \<equiv> 0x85"
abbreviation (input) OTA_WRITE_HEADER_SIZE :: nat where "OTA_WRITE_HEADER_SIZE \<equiv> 7"
abbreviation (input) OTA_MAX_WRITE_SIZE :: nat where "OTA_MAX_WRITE_SIZE \<equiv> 496"

fun ota_status_code :: "airdap_ota_status \<Rightarrow> u8" where
  "ota_status_code OTA_STATUS_OK = 0"
| "ota_status_code OTA_STATUS_INVALID_ARGUMENT = 1"
| "ota_status_code OTA_STATUS_INVALID_STATE = 2"
| "ota_status_code OTA_STATUS_INVALID_SIZE = 3"
| "ota_status_code OTA_STATUS_INVALID_OFFSET = 4"
| "ota_status_code OTA_STATUS_INCOMPLETE_IMAGE = 5"
| "ota_status_code OTA_STATUS_WRITE_FAILED = 6"
| "ota_status_code OTA_STATUS_VALIDATION_FAILED = 7"
| "ota_status_code OTA_STATUS_ACTIVATION_FAILED = 8"
| "ota_status_code OTA_STATUS_INTERNAL_ERROR = 9"
| "ota_status_code OTA_STATUS_UNAUTHENTICATED = 10"
| "ota_status_code OTA_STATUS_BUSY = 11"

type_synonym 'h ota_result = "(nat \<times> bytes \<times> 'h ota) option"

definition ota_status_response ::
  "u8 \<Rightarrow> airdap_ota_status \<Rightarrow> bytes \<Rightarrow> nat \<Rightarrow> 'h ota \<Rightarrow> 'h ota_result"
where
  "ota_status_response command status response response_capacity s =
     (if response_capacity < 2 then Some (0, response, s)
      else do {
        response \<leftarrow> wr response 0 command;
        response \<leftarrow> wr response 1 (ota_status_code status);
        Some (2, response, s) })"

definition process_query :: "'h ota_env \<Rightarrow> bytes \<Rightarrow> nat \<Rightarrow> 'h ota \<Rightarrow> 'h ota_result" where
  "process_query E response response_capacity s =
     (case run_state (airdap_ota_get_info E True) s of ((status, info), s) \<Rightarrow>
        if status \<noteq> OTA_STATUS_OK
        then ota_status_response OTA_QUERY status response response_capacity s
        else let info = the info;
                 version_length = version_length_loop AIRDAP_OTA_VERSION_CAPACITY (info_running_version info);
                 response_length = 9 + version_length in
          if response_capacity < response_length then Some (0, response, s)
          else do {
            response \<leftarrow> wr response 0 OTA_QUERY;
            response \<leftarrow> wr response 1 (ota_status_code OTA_STATUS_OK);
            response \<leftarrow> wr response 2 (info_protocol_version info);
            response \<leftarrow> wr response 3 (info_flags info);
            response \<leftarrow> write_u32 response 4 (info_max_image_size info);
            response \<leftarrow> wr response 8 (of_nat version_length);
            response \<leftarrow> wr_bytes response 9 (info_running_version info) version_length;
            Some (response_length, response, s) })"

definition process_write ::
  "'h ota_env \<Rightarrow> bytes \<Rightarrow> nat \<Rightarrow> bytes \<Rightarrow> nat \<Rightarrow> 'h ota \<Rightarrow> 'h ota_result"
where
  "process_write E request request_length response response_capacity s =
     (if request_length < OTA_WRITE_HEADER_SIZE
      then ota_status_response OTA_WRITE OTA_STATUS_INVALID_ARGUMENT response response_capacity s
      else do {
        data_length16 \<leftarrow> read_u16 request 5;
        let data_length = unat data_length16;
        if data_length > OTA_MAX_WRITE_SIZE \<or> request_length \<noteq> OTA_WRITE_HEADER_SIZE + data_length
        then ota_status_response OTA_WRITE OTA_STATUS_INVALID_ARGUMENT response response_capacity s
        else do {
          offset \<leftarrow> read_u32 request 1;
          data \<leftarrow> rd_bytes request OTA_WRITE_HEADER_SIZE data_length;
          case run_state (airdap_ota_write E offset (Some data) True) s of ((status, next_offset), s) \<Rightarrow>
            do {
              (response_length, response, s) \<leftarrow>
                ota_status_response OTA_WRITE status response response_capacity s;
              if status \<noteq> OTA_STATUS_OK \<or> response_length = 0 then Some (response_length, response, s)
              else if response_capacity < 6 then Some (0, response, s)
              else do {
                response \<leftarrow> write_u32 response 2 (the next_offset);
                Some (6, response, s) } } } })"

text \<open>A command without arguments, its length checked, run on the manager.\<close>

definition plain_command ::
  "u8 \<Rightarrow> nat \<Rightarrow> ('h ota, airdap_ota_status) state \<Rightarrow> bytes \<Rightarrow> nat \<Rightarrow> 'h ota \<Rightarrow> 'h ota_result"
where
  "plain_command command request_length m response response_capacity s =
     (if request_length \<noteq> 1
      then ota_status_response command OTA_STATUS_INVALID_ARGUMENT response response_capacity s
      else case run_state m s of (status, s) \<Rightarrow>
        ota_status_response command status response response_capacity s)"

definition airdap_dap_ota_process ::
  "'h ota_env \<Rightarrow> bool \<Rightarrow> bytes option \<Rightarrow> nat \<Rightarrow> bytes option \<Rightarrow> nat \<Rightarrow> 'h ota \<Rightarrow>
   (nat \<times> bytes option \<times> 'h ota) option"
where
  "airdap_dap_ota_process E debug_connected request request_length response response_capacity s =
     (case (request, response) of
        (Some request, Some response) \<Rightarrow>
          if request_length = 0 then Some (0, Some response, s)
          else do {
            command \<leftarrow> rd request 0;
            (response_length, response, s) \<leftarrow>
              (if command < OTA_QUERY \<or> command > OTA_REBOOT then Some (0, response, s)
               else if command \<noteq> OTA_QUERY \<and> debug_connected
               then ota_status_response command OTA_STATUS_INVALID_STATE response response_capacity s
               else if command = OTA_QUERY then
                 (if request_length \<noteq> 1
                  then ota_status_response command OTA_STATUS_INVALID_ARGUMENT response response_capacity s
                  else process_query E response response_capacity s)
               else if command = OTA_BEGIN then
                 (if request_length \<noteq> 5
                  then ota_status_response command OTA_STATUS_INVALID_ARGUMENT response response_capacity s
                  else do {
                    image_size \<leftarrow> read_u32 request 1;
                    case run_state (airdap_ota_begin E image_size) s of (status, s) \<Rightarrow>
                      ota_status_response command status response response_capacity s })
               else if command = OTA_WRITE
               then process_write E request request_length response response_capacity s
               else if command = OTA_COMMIT
               then plain_command command request_length (airdap_ota_commit E) response response_capacity s
               else if command = OTA_ABORT
               then plain_command command request_length (airdap_ota_abort E) response response_capacity s
               else if command = OTA_REBOOT then
                 (if request_length \<noteq> 1
                  then ota_status_response command OTA_STATUS_INVALID_ARGUMENT response response_capacity s
                  else case run_state (airdap_ota_reboot E) s of (status, s) \<Rightarrow>
                    if status = OTA_STATUS_OK then Some (0, response, s)
                    else ota_status_response command status response response_capacity s)
               else Some (0, response, s));
            Some (response_length, Some response, s) }
      | _ \<Rightarrow> Some (0, response, s))"

section \<open>Properties\<close>

text \<open>The version in the information structure fits its field.\<close>

lemma version_length_le: "version_length_loop n v \<le> n"
  by (induction n v rule: version_length_loop.induct) auto

lemma version_length_le_length: "version_length_loop n v \<le> length v"
  by (induction n v rule: version_length_loop.induct) auto

definition info_ok :: "airdap_ota_status \<times> airdap_ota_info option \<Rightarrow> bool" where
  "info_ok r \<longleftrightarrow> (fst r = OTA_STATUS_OK \<longrightarrow>
     (\<exists>i. snd r = Some i \<and> length (info_running_version i) = 33))"

lemma version_fits: "version_length_loop 32 v \<le> 33"
  by (rule le_trans [OF version_length_le]) simp

lemma get_info_ok: "info_ok (fst (run_state (airdap_ota_get_info E True) s))"
  by (auto simp: info_ok_def airdap_ota_get_info_def with_session_def lock_session_def unlock_session_def
      get_info_locked_def ocall_def Let_def version_length_le_length version_fits
      split: prod.splits option.splits if_splits)

text \<open>A result that stays inside the response buffer.\<close>

definition answered :: "bytes \<Rightarrow> nat \<Rightarrow> nat \<times> bytes \<times> 'h ota \<Rightarrow> bool" where
  "answered response cap = (\<lambda>(n, r, t). n \<le> cap \<and> length r = length response)"

lemma answeredI [returns_rules]:
  "n \<le> cap \<Longrightarrow> length r = length response \<Longrightarrow> answered response cap (n, r, t)"
  by (simp add: answered_def)

lemma ota_status_response_safe [returns_rules]:
  "cap \<le> length response \<Longrightarrow> returns (answered response cap) (ota_status_response c st response cap s)"
  unfolding ota_status_response_def
  by (intro returns_rules) (auto simp: answered_def)

lemma process_query_safe [returns_rules]:
  assumes "cap \<le> length response"
  shows "returns (answered response cap) (process_query E response cap s)"
proof -
  obtain status info t where g: "run_state (airdap_ota_get_info E True) s = ((status, info), t)"
    by (metis surj_pair)
  show ?thesis
  proof (cases "status = OTA_STATUS_OK")
    case True
    then obtain i where i: "info = Some i" "length (info_running_version i) = 33"
      using get_info_ok [of E s] g by (auto simp: info_ok_def)
    have len: "version_length_loop 32 (info_running_version i) \<le> length (info_running_version i)"
      by (rule version_length_le_length)
    show ?thesis
      unfolding process_query_def g True i(1) Let_def prod.case option.sel
      by (simp, intro conjI impI returns_rules) (use assms len in \<open>auto simp: answered_def\<close>)
  next
    case False
    then show ?thesis using assms by (simp add: process_query_def g ota_status_response_safe)
  qed
qed

lemma process_write_safe [returns_rules]:
  assumes "cap \<le> length response" "n \<le> length request"
  shows "returns (answered response cap) (process_write E request n response cap s)"
proof -
  have respond: "returns (answered response cap) (do {
      (response_length, response, s) \<leftarrow> ota_status_response OTA_WRITE status response cap t;
      if status \<noteq> OTA_STATUS_OK \<or> response_length = 0 then Some (response_length, response, s)
      else if cap < 6 then Some (0, response, s)
      else do { response \<leftarrow> write_u32 response 2 v; Some (6, response, s) } })" for status t v
    by (rule returns_bind [OF ota_status_response_safe [OF assms(1)]])
      (use assms(1) in \<open>auto simp: answered_def mem_simps intro!: returns_rules\<close>)
  show ?thesis
    unfolding process_write_def Let_def
    by (intro returns_rules respond) (use assms in auto)
qed

lemma plain_command_safe [returns_rules]:
  "cap \<le> length response \<Longrightarrow> returns (answered response cap) (plain_command c n m response cap s)"
  unfolding plain_command_def by (intro returns_rules)

definition replied :: "bytes \<Rightarrow> nat \<Rightarrow> nat \<times> bytes option \<times> 'h ota \<Rightarrow> bool" where
  "replied response cap = (\<lambda>(len, out, t). len \<le> cap \<and> (\<exists>r. out = Some r \<and> length r = length response))"

lemma replied_answer:
  assumes "returns (answered response cap) m"
  shows "returns (replied response cap)
    (m \<bind> (\<lambda>(response_length, response, s). Some (response_length, Some response, s)))"
  by (rule returns_bind [OF assms]) (auto simp: answered_def replied_def returns_def)

lemma dap_ota_returns:
  assumes "n \<le> length request" "cap \<le> length response" "0 < n"
  shows "returns (replied response cap)
    (airdap_dap_ota_process E connected (Some request) n (Some response) cap s)"
proof -
  have first: "rd request 0 = Some (request ! 0)" using assms by (intro rd_Some) linarith
  have no_response: "answered response cap (0, response, s)" by (simp add: answered_def)
  show ?thesis
    unfolding airdap_dap_ota_process_def prod.case option.case first bind.bind_lunit
    by (rule returns_if, use assms in simp, rule replied_answer)
      (intro returns_rules no_response; use assms in \<open>simp add: answered_def\<close>)
qed

lemma dap_ota_connected:
  assumes "0 < n" "n \<le> length request" "request ! 0 \<noteq> OTA_QUERY"
  shows "airdap_dap_ota_process E True (Some request) n (Some response) cap s =
    (if request ! 0 < OTA_QUERY \<or> request ! 0 > OTA_REBOOT then Some (0, Some response, s)
     else do {
       (len, out, t) \<leftarrow> ota_status_response (request ! 0) OTA_STATUS_INVALID_STATE response cap s;
       Some (len, Some out, t) })"
proof -
  have "rd request 0 = Some (request ! 0)" using assms by (intro rd_Some) linarith
  then show ?thesis using assms by (simp add: airdap_dap_ota_process_def)
qed

text \<open>The update commands over USB: for buffers of the stated sizes the dispatcher never
  accesses memory outside the request and the response, returns a length within the response
  capacity, and while a debugger is connected it refuses every command but the query with the
  status INVALID_STATE, without touching the update session.\<close>

theorem dap_ota_process_safe:
  assumes "n \<le> length request" "cap \<le> length response" "0 < n"
  shows "\<exists>len out t. airdap_dap_ota_process E connected (Some request) n (Some response) cap s =
      Some (len, Some out, t) \<and> len \<le> cap \<and> length out = length response \<and>
      (connected \<and> request ! 0 \<noteq> OTA_QUERY \<longrightarrow> t = s \<and>
         (request ! 0 \<in> {OTA_BEGIN, OTA_WRITE, OTA_COMMIT, OTA_ABORT, OTA_REBOOT} \<and> 2 \<le> cap \<longrightarrow>
            len = 2 \<and> take 2 out = [request ! 0, ota_status_code OTA_STATUS_INVALID_STATE]))"
proof -
  obtain len out t where p: "airdap_dap_ota_process E connected (Some request) n (Some response) cap s =
      Some (len, Some out, t)" "len \<le> cap" "length out = length response"
    using dap_ota_returns [OF assms, of E connected s] by (auto simp: returns_def replied_def)
  have refused: "t = s \<and> (request ! 0 \<in> {OTA_BEGIN, OTA_WRITE, OTA_COMMIT, OTA_ABORT, OTA_REBOOT} \<and> 2 \<le> cap \<longrightarrow>
      len = 2 \<and> take 2 out = [request ! 0, ota_status_code OTA_STATUS_INVALID_STATE])"
    if c: "connected" and q: "request ! 0 \<noteq> OTA_QUERY"
  proof (cases "2 \<le> cap")
    case True
    then obtain a b rest where r: "response = a # b # rest"
      using assms(2) by (cases response; cases "tl response") auto
    show ?thesis using p(1) c dap_ota_connected [OF assms(3,1) q, of E response cap s] True
      by (auto simp: ota_status_response_def wr_def r take_Cons' split: if_splits)
  next
    case False
    then show ?thesis using p(1) c dap_ota_connected [OF assms(3,1) q, of E response cap s]
      by (auto simp: ota_status_response_def split: if_splits)
  qed
  show ?thesis using p refused by blast
qed

theorem dap_ota_process_safe_witness:
  "\<exists>out t. airdap_dap_ota_process (monitored_ota bench_env) True (Some [OTA_COMMIT]) 1
     (Some (replicate 8 0)) 8 (ota_initial ()) = Some (2, Some out, t) \<and> t = ota_initial () \<and>
   take 2 out = [OTA_COMMIT, 2]"
  using dap_ota_process_safe [of 1 "[OTA_COMMIT]" 8 "replicate 8 0" "monitored_ota bench_env" True "ota_initial ()"]
  by auto

end
