(* ===== verification/Nvs.thy ===== *)
theory Nvs
  imports Stateful
begin

text \<open>
  The interface of the platform's non-volatile storage (ESP-IDF NVS) and of a FreeRTOS mutex, as
  \<^verbatim>\<open>config_store.c\<close> and \<^verbatim>\<open>button_config.c\<close> call them. Each call is a function on the state of the
  platform, so an operation that uses it is modelled for every platform. \<open>nvs_laws\<close> states what the
  documentation of NVS promises, on a view of the platform: the values reads return, the values that
  survive a restart, and the namespaces of the open handles. \<open>memory_nvs\<close> is a platform that keeps
  the laws.
\<close>

datatype nvs_open_mode = NVS_READONLY | NVS_READWRITE | NVS_READWRITE_PURGE

text \<open>
  \<open>nv_get_blob\<close> takes the capacity of the output buffer (\<^const>\<open>None\<close> for a NULL buffer) and
  returns the bytes it wrote there and the size it reports.
\<close>

record 'h nvs_env =
  nv_flash_init :: "'h \<Rightarrow> esp_err \<times> 'h"
  nv_flash_erase :: "'h \<Rightarrow> esp_err \<times> 'h"
  nv_open :: "string \<Rightarrow> nvs_open_mode \<Rightarrow> 'h \<Rightarrow> (esp_err \<times> u32) \<times> 'h"
  nv_get_blob :: "u32 \<Rightarrow> string \<Rightarrow> nat option \<Rightarrow> 'h \<Rightarrow> (esp_err \<times> bytes \<times> nat) \<times> 'h"
  nv_set_blob :: "u32 \<Rightarrow> string \<Rightarrow> bytes \<Rightarrow> 'h \<Rightarrow> esp_err \<times> 'h"
  nv_commit :: "u32 \<Rightarrow> 'h \<Rightarrow> esp_err \<times> 'h"
  nv_close :: "u32 \<Rightarrow> 'h \<Rightarrow> unit \<times> 'h"
  nv_create_mutex :: "'h \<Rightarrow> bool \<times> 'h"
  nv_take_mutex :: "'h \<Rightarrow> bool \<times> 'h"
  nv_give_mutex :: "'h \<Rightarrow> unit \<times> 'h"

section \<open>What the documentation promises\<close>

type_synonym nvs_values = "string \<times> string \<rightharpoonup> bytes"

record nvs_view =
  vw_content :: nvs_values
  vw_durable :: nvs_values
  vw_handles :: "u32 \<rightharpoonup> string"

definition same_values :: "nvs_view \<Rightarrow> nvs_view \<Rightarrow> bool" where
  "same_values v w \<longleftrightarrow> vw_content w = vw_content v \<and> vw_durable w = vw_durable v"

text \<open>
  A successful write is what reads return; a successful commit makes the values of the handle's
  namespace durable. After a failed write or commit nothing is known of the stored values.
\<close>

definition nvs_laws :: "'h nvs_env \<Rightarrow> ('h \<Rightarrow> nvs_view) \<Rightarrow> bool" where
  "nvs_laws E v \<longleftrightarrow>
     (\<forall>ns m h r hn h'. nv_open E ns m h = ((r, hn), h') \<longrightarrow> same_values (v h) (v h') \<and>
        (r = ESP_OK \<longrightarrow> vw_handles (v h') hn = Some ns)) \<and>
     (\<forall>hn key b ns h h'. nv_set_blob E hn key b h = (ESP_OK, h') \<longrightarrow>
        vw_handles (v h) hn = Some ns \<longrightarrow>
        vw_handles (v h') hn = Some ns \<and> vw_content (v h') = (vw_content (v h))((ns, key) \<mapsto> b)) \<and>
     (\<forall>hn ns h h'. nv_commit E hn h = (ESP_OK, h') \<longrightarrow> vw_handles (v h) hn = Some ns \<longrightarrow>
        vw_content (v h') = vw_content (v h) \<and>
        (\<forall>key. vw_durable (v h') (ns, key) = vw_content (v h) (ns, key))) \<and>
     (\<forall>hn h h'. nv_close E hn h = ((), h') \<longrightarrow> same_values (v h) (v h')) \<and>
     (\<forall>hn key cap h r h'. nv_get_blob E hn key cap h = (r, h') \<longrightarrow>
        same_values (v h) (v h') \<and> vw_handles (v h') = vw_handles (v h)) \<and>
     (\<forall>h r h'. nv_take_mutex E h = (r, h') \<longrightarrow> same_values (v h) (v h')) \<and>
     (\<forall>h h'. nv_give_mutex E h = ((), h') \<longrightarrow> same_values (v h) (v h')) \<and>
     (\<forall>h r h'. nv_create_mutex E h = (r, h') \<longrightarrow> same_values (v h) (v h')) \<and>
     (\<forall>h h'. nv_flash_init E h = (ESP_OK, h') \<longrightarrow> same_values (v h) (v h'))"

text \<open>The platform works: it starts, opens the storage and returns the value that is stored, if any.\<close>

definition nvs_works :: "'h nvs_env \<Rightarrow> ('h \<Rightarrow> nvs_view) \<Rightarrow> bool" where
  "nvs_works E v \<longleftrightarrow>
     (\<forall>h. fst (nv_flash_init E h) = ESP_OK) \<and>
     (\<forall>ns m h. fst (fst (nv_open E ns m h)) = ESP_OK) \<and>
     (\<forall>hn key ns b h. vw_handles (v h) hn = Some ns \<longrightarrow> vw_content (v h) (ns, key) = Some b \<longrightarrow>
        (\<exists>data. fst (nv_get_blob E hn key None h) = (ESP_OK, data, length b)) \<and>
        (\<forall>n \<ge> length b. fst (nv_get_blob E hn key (Some n) h) = (ESP_OK, b, length b))) \<and>
     (\<forall>hn key ns cap h. vw_handles (v h) hn = Some ns \<longrightarrow> vw_content (v h) (ns, key) = None \<longrightarrow>
        (\<exists>n. fst (nv_get_blob E hn key cap h) = (ESP_ERR_NVS_NOT_FOUND, [], n))) \<and>
     (\<forall>h. fst (nv_create_mutex E h))"

lemma nvs_values_kept:
  assumes "nvs_laws E v"
  shows "nv_open E ns m h = ((r, hn), h') \<Longrightarrow> same_values (v h) (v h')"
    and "nv_close E hn h = (u, h') \<Longrightarrow> same_values (v h) (v h')"
    and "nv_get_blob E hn key cap h = (g, h') \<Longrightarrow> same_values (v h) (v h')"
    and "nv_get_blob E hn key cap h = (g, h') \<Longrightarrow> vw_handles (v h') = vw_handles (v h)"
    and "nv_take_mutex E h = (b, h') \<Longrightarrow> same_values (v h) (v h')"
    and "nv_give_mutex E h = (u, h') \<Longrightarrow> same_values (v h) (v h')"
    and "nv_create_mutex E h = (b, h') \<Longrightarrow> same_values (v h) (v h')"
    and "nv_flash_init E h = (ESP_OK, h') \<Longrightarrow> same_values (v h) (v h')"
  using assms by (cases g, simp_all add: nvs_laws_def)+

lemma nvs_open_handle:
  "nvs_laws E v \<Longrightarrow> nv_open E ns m h = ((ESP_OK, hn), h') \<Longrightarrow> vw_handles (v h') hn = Some ns"
  by (simp add: nvs_laws_def)

lemma nvs_set_blob:
  "nvs_laws E v \<Longrightarrow> nv_set_blob E hn key b h = (ESP_OK, h') \<Longrightarrow> vw_handles (v h) hn = Some ns \<Longrightarrow>
   vw_handles (v h') hn = Some ns \<and> vw_content (v h') = (vw_content (v h))((ns, key) \<mapsto> b)"
  by (simp add: nvs_laws_def)

lemma nvs_commit:
  "nvs_laws E v \<Longrightarrow> nv_commit E hn h = (ESP_OK, h') \<Longrightarrow> vw_handles (v h) hn = Some ns \<Longrightarrow>
   vw_content (v h') = vw_content (v h) \<and> vw_durable (v h') (ns, key) = vw_content (v h) (ns, key)"
  by (simp add: nvs_laws_def)

text \<open>A value is stored when reads return it and it survives a restart.\<close>

definition stored :: "nvs_view \<Rightarrow> string \<Rightarrow> string \<Rightarrow> bytes \<Rightarrow> bool" where
  "stored w ns key b \<longleftrightarrow> vw_content w (ns, key) = Some b \<and> vw_durable w (ns, key) = Some b"

lemma stored_same: "same_values v w \<Longrightarrow> stored w ns key b \<longleftrightarrow> stored v ns key b"
  by (simp add: same_values_def stored_def)

text \<open>The write sequence both components use makes the value durable.\<close>

lemma nvs_write_stores:
  assumes "nvs_laws E v" "nv_open E ns m h = ((ESP_OK, hn), h1)"
    and "nv_set_blob E hn key b h1 = (ESP_OK, h2)" "nv_commit E hn h2 = (ESP_OK, h3)"
  shows "stored (v h3) ns key b"
proof -
  note h1 = nvs_open_handle [OF assms(1,2)]
  note h2 = nvs_set_blob [OF assms(1,3) h1]
  show ?thesis
    using nvs_commit [OF assms(1,4), of ns key] h2 by (simp add: stored_def)
qed

section \<open>A platform that keeps the laws\<close>

definition memory_open :: "string \<Rightarrow> nvs_open_mode \<Rightarrow> nvs_view \<Rightarrow> (esp_err \<times> u32) \<times> nvs_view" where
  "memory_open ns m h = ((ESP_OK, 1), h\<lparr>vw_handles := (vw_handles h)(1 \<mapsto> ns)\<rparr>)"

definition memory_get_blob ::
    "u32 \<Rightarrow> string \<Rightarrow> nat option \<Rightarrow> nvs_view \<Rightarrow> (esp_err \<times> bytes \<times> nat) \<times> nvs_view" where
  "memory_get_blob hn key cap h =
     ((case vw_handles h hn of None \<Rightarrow> (ESP_FAIL, [], 0)
       | Some ns \<Rightarrow> (case vw_content h (ns, key) of None \<Rightarrow> (ESP_ERR_NVS_NOT_FOUND, [], 0)
         | Some b \<Rightarrow> (case cap of None \<Rightarrow> (ESP_OK, [], length b)
           | Some n \<Rightarrow> if n < length b then (ESP_ERR_INVALID_SIZE, [], length b)
                       else (ESP_OK, b, length b)))), h)"

definition memory_set_blob :: "u32 \<Rightarrow> string \<Rightarrow> bytes \<Rightarrow> nvs_view \<Rightarrow> esp_err \<times> nvs_view" where
  "memory_set_blob hn key b h =
     (case vw_handles h hn of None \<Rightarrow> (ESP_FAIL, h)
      | Some ns \<Rightarrow> (ESP_OK, h\<lparr>vw_content := (vw_content h)((ns, key) \<mapsto> b)\<rparr>))"

definition memory_commit :: "u32 \<Rightarrow> nvs_view \<Rightarrow> esp_err \<times> nvs_view" where
  "memory_commit hn h =
     (case vw_handles h hn of None \<Rightarrow> (ESP_FAIL, h) | Some ns \<Rightarrow> (ESP_OK, h\<lparr>vw_durable := vw_content h\<rparr>))"

definition memory_nvs :: "nvs_view nvs_env" where
  "memory_nvs = \<lparr>nv_flash_init = Pair ESP_OK,
     nv_flash_erase = (\<lambda>h. (ESP_OK, h\<lparr>vw_content := Map.empty, vw_durable := Map.empty\<rparr>)),
     nv_open = memory_open, nv_get_blob = memory_get_blob, nv_set_blob = memory_set_blob,
     nv_commit = memory_commit, nv_close = (\<lambda>hn. Pair ()), nv_create_mutex = Pair True,
     nv_take_mutex = Pair True, nv_give_mutex = Pair ()\<rparr>"

definition empty_nvs :: nvs_view where
  "empty_nvs = \<lparr>vw_content = Map.empty, vw_durable = Map.empty, vw_handles = Map.empty\<rparr>"

lemmas memory_nvs_eval = memory_nvs_def memory_open_def memory_get_blob_def memory_set_blob_def
  memory_commit_def empty_nvs_def

lemma memory_nvs_laws: "nvs_laws memory_nvs id"
  unfolding nvs_laws_def memory_nvs_eval same_values_def
  by (auto split: option.splits if_splits)

lemma memory_nvs_works: "nvs_works memory_nvs id"
  unfolding nvs_works_def memory_nvs_eval by (auto split: option.splits)

end
