(* ===== verification/Config_Store.thy ===== *)
theory Config_Store
  imports Nvs
begin

text \<open>
  The device configuration, \<^verbatim>\<open>firmware/components/config_store/config_store.c\<close>: one record (name,
  provisioning flag and three blobs) that lives in RAM and is written through to the non-volatile
  storage (NVS) of the platform through the interface of theory \<open>Nvs\<close>.

  The record in memory and the blob in NVS are related by the layout of the C structure
  (\<open>record_bytes\<close>, little endian, no padding). A C string is the list of bytes at its address, with
  zeros after it.
\<close>

section \<open>Data\<close>

abbreviation (input) AIRDAP_CONFIG_STORE_RECORD_MAGIC :: u32 where
  "AIRDAP_CONFIG_STORE_RECORD_MAGIC \<equiv> 0x43464441"
abbreviation (input) AIRDAP_CONFIG_SCHEMA_VERSION :: u32 where "AIRDAP_CONFIG_SCHEMA_VERSION \<equiv> 1"
abbreviation (input) AIRDAP_CONFIG_SLOT_WIFI_CREDENTIALS :: int where
  "AIRDAP_CONFIG_SLOT_WIFI_CREDENTIALS \<equiv> 0"

definition AIRDAP_CONFIG_FRIENDLY_NAME_SIZE :: nat where "AIRDAP_CONFIG_FRIENDLY_NAME_SIZE = 33"
definition AIRDAP_CONFIG_BLOB_MAX_SIZE :: nat where "AIRDAP_CONFIG_BLOB_MAX_SIZE = 1024"
definition AIRDAP_CONFIG_SLOT_COUNT :: nat where "AIRDAP_CONFIG_SLOT_COUNT = 3"

definition AIRDAP_CONFIG_CLEAR_FRIENDLY_NAME :: u32 where "AIRDAP_CONFIG_CLEAR_FRIENDLY_NAME = 1"
definition AIRDAP_CONFIG_CLEAR_WIFI_CREDENTIALS :: u32 where
  "AIRDAP_CONFIG_CLEAR_WIFI_CREDENTIALS = 2"
definition AIRDAP_CONFIG_CLEAR_PAIRING_RECORD :: u32 where "AIRDAP_CONFIG_CLEAR_PAIRING_RECORD = 4"
definition AIRDAP_CONFIG_CLEAR_AUTH_MATERIAL :: u32 where "AIRDAP_CONFIG_CLEAR_AUTH_MATERIAL = 8"
definition AIRDAP_CONFIG_CLEAR_NETWORK :: u32 where
  "AIRDAP_CONFIG_CLEAR_NETWORK = AIRDAP_CONFIG_CLEAR_WIFI_CREDENTIALS OR
     AIRDAP_CONFIG_CLEAR_PAIRING_RECORD OR AIRDAP_CONFIG_CLEAR_AUTH_MATERIAL"
definition AIRDAP_CONFIG_CLEAR_ALL :: u32 where
  "AIRDAP_CONFIG_CLEAR_ALL = AIRDAP_CONFIG_CLEAR_FRIENDLY_NAME OR AIRDAP_CONFIG_CLEAR_NETWORK"

record airdap_config_store_blob =
  bl_length :: u32
  bl_data :: bytes

record airdap_config_store_record =
  cr_magic :: u32
  cr_schema_version :: u32
  cr_record_size :: u32
  cr_friendly_name :: bytes
  cr_provisioned :: u8
  cr_reserved :: bytes
  cr_slots :: "airdap_config_store_blob list"

record airdap_config_status =
  cst_schema_version :: u32
  cst_provisioned :: bool

record 'h config_store =
  cs_current :: airdap_config_store_record
  cs_candidate :: airdap_config_store_record
  cs_mutex :: bool
  cs_initialized :: bool
  cs_world :: 'h

text \<open>\<^verbatim>\<open>memset\<close> of a whole structure.\<close>

definition zero_blob :: airdap_config_store_blob where
  "zero_blob = \<lparr>bl_length = 0, bl_data = replicate AIRDAP_CONFIG_BLOB_MAX_SIZE 0\<rparr>"

definition zero_record :: airdap_config_store_record where
  "zero_record = \<lparr>cr_magic = 0, cr_schema_version = 0, cr_record_size = 0,
     cr_friendly_name = replicate AIRDAP_CONFIG_FRIENDLY_NAME_SIZE 0, cr_provisioned = 0,
     cr_reserved = replicate 2 0, cr_slots = replicate AIRDAP_CONFIG_SLOT_COUNT zero_blob\<rparr>"

section \<open>The layout of the record\<close>

definition u32_bytes :: "u32 \<Rightarrow> bytes" where
  "u32_bytes v = [byte0 v, byte1 v, byte2 v, byte3 v]"

definition u32_at :: "bytes \<Rightarrow> nat \<Rightarrow> u32" where
  "u32_at bs i = be32 (bs ! (i + 3)) (bs ! (i + 2)) (bs ! (i + 1)) (bs ! i)"

definition blob_bytes :: "airdap_config_store_blob \<Rightarrow> bytes" where
  "blob_bytes b = u32_bytes (bl_length b) @ bl_data b"

definition blob_at :: "bytes \<Rightarrow> nat \<Rightarrow> airdap_config_store_blob" where
  "blob_at bs i = \<lparr>bl_length = u32_at bs i, bl_data = take AIRDAP_CONFIG_BLOB_MAX_SIZE (drop (i + 4) bs)\<rparr>"

definition record_bytes :: "airdap_config_store_record \<Rightarrow> bytes" where
  "record_bytes r = u32_bytes (cr_magic r) @ u32_bytes (cr_schema_version r) @
     u32_bytes (cr_record_size r) @ cr_friendly_name r @ [cr_provisioned r] @ cr_reserved r @
     concat (map blob_bytes (cr_slots r))"

definition record_at :: "bytes \<Rightarrow> airdap_config_store_record" where
  "record_at bs = \<lparr>cr_magic = u32_at bs 0, cr_schema_version = u32_at bs 4,
     cr_record_size = u32_at bs 8,
     cr_friendly_name = take AIRDAP_CONFIG_FRIENDLY_NAME_SIZE (drop 12 bs),
     cr_provisioned = bs ! 45, cr_reserved = take 2 (drop 46 bs),
     cr_slots = [blob_at bs 48, blob_at bs 1076, blob_at bs 2104]\<rparr>"

definition sizeof_record :: nat where
  "sizeof_record = 3132"

text \<open>The arrays of the structure have the sizes the C type gives them.\<close>

definition record_shape :: "airdap_config_store_record \<Rightarrow> bool" where
  "record_shape r \<longleftrightarrow> length (cr_friendly_name r) = AIRDAP_CONFIG_FRIENDLY_NAME_SIZE \<and>
     length (cr_reserved r) = 2 \<and> length (cr_slots r) = AIRDAP_CONFIG_SLOT_COUNT \<and>
     (\<forall>b \<in> set (cr_slots r). length (bl_data b) = AIRDAP_CONFIG_BLOB_MAX_SIZE)"

lemmas config_sizes = AIRDAP_CONFIG_FRIENDLY_NAME_SIZE_def AIRDAP_CONFIG_BLOB_MAX_SIZE_def
  AIRDAP_CONFIG_SLOT_COUNT_def sizeof_record_def

section \<open>Helpers\<close>

definition c_string :: "bytes \<Rightarrow> bytes" where
  "c_string s = takeWhile (\<lambda>c. c \<noteq> 0) s"

definition make_default_record :: airdap_config_store_record where
  "make_default_record = zero_record\<lparr>cr_magic := AIRDAP_CONFIG_STORE_RECORD_MAGIC,
     cr_schema_version := AIRDAP_CONFIG_SCHEMA_VERSION,
     cr_record_size := of_nat sizeof_record\<rparr>"

definition validate_record :: "airdap_config_store_record \<Rightarrow> esp_err" where
  "validate_record r =
     (if cr_magic r \<noteq> AIRDAP_CONFIG_STORE_RECORD_MAGIC then ESP_ERR_INVALID_RESPONSE
      else if cr_schema_version r \<noteq> AIRDAP_CONFIG_SCHEMA_VERSION then ESP_ERR_INVALID_VERSION
      else if cr_record_size r \<noteq> of_nat sizeof_record then ESP_ERR_INVALID_SIZE
      else if cr_provisioned r > 1 \<or> 0 \<notin> set (cr_friendly_name r) then ESP_ERR_INVALID_RESPONSE
      else if list_ex (\<lambda>b. unat (bl_length b) > AIRDAP_CONFIG_BLOB_MAX_SIZE) (cr_slots r)
      then ESP_ERR_INVALID_SIZE
      else ESP_OK)"

definition ncall :: "('h \<Rightarrow> 'r \<times> 'h) \<Rightarrow> ('h config_store, 'r) state" where
  "ncall f = State (\<lambda>s. case f (cs_world s) of (r, h) \<Rightarrow> (r, s\<lparr>cs_world := h\<rparr>))"

definition set_current :: "airdap_config_store_record \<Rightarrow> ('h config_store, unit) state" where
  "set_current r = updates (\<lambda>s. s\<lparr>cs_current := r\<rparr>)"

definition set_candidate :: "airdap_config_store_record \<Rightarrow> ('h config_store, unit) state" where
  "set_candidate r = updates (\<lambda>s. s\<lparr>cs_candidate := r\<rparr>)"

definition clear_candidate_record :: "('h config_store, unit) state" where
  "clear_candidate_record = set_candidate zero_record"

definition persist_record ::
    "'h nvs_env \<Rightarrow> u32 \<Rightarrow> airdap_config_store_record \<Rightarrow> ('h config_store, esp_err) state" where
  "persist_record E handle r = do {
     error \<leftarrow> ncall (nv_set_blob E handle ''config'' (record_bytes r));
     if error \<noteq> ESP_OK then State_Monad.return error
     else ncall (nv_commit E handle) }"

text \<open>The bytes \<^verbatim>\<open>nvs_get_blob\<close> wrote into the record, over what it held.\<close>

definition overlay :: "bytes \<Rightarrow> airdap_config_store_record \<Rightarrow> airdap_config_store_record" where
  "overlay data r =
     record_at (take sizeof_record data @ drop (length (take sizeof_record data)) (record_bytes r))"

definition load_stored ::
    "'h nvs_env \<Rightarrow> u32 \<Rightarrow> airdap_config_store_record \<Rightarrow>
     ('h config_store, esp_err \<times> airdap_config_store_record) state" where
  "load_stored E handle r = do {
     (error, ignored, stored_size) \<leftarrow> ncall (nv_get_blob E handle ''config'' None);
     if error = ESP_ERR_NVS_NOT_FOUND then do {
       error \<leftarrow> persist_record E handle make_default_record;
       State_Monad.return (error, make_default_record) }
     else if error = ESP_OK \<and> stored_size \<noteq> sizeof_record then
       State_Monad.return (ESP_ERR_INVALID_SIZE, r)
     else if error = ESP_OK then do {
       (error, data, stored_size) \<leftarrow> ncall (nv_get_blob E handle ''config'' (Some sizeof_record));
       let r = overlay data r;
       State_Monad.return
         (if error = ESP_OK \<and> stored_size \<noteq> sizeof_record then ESP_ERR_INVALID_SIZE
          else if error = ESP_OK then validate_record r
          else error, r) }
     else State_Monad.return (error, r) }"

definition airdap_config_store_load_record ::
    "'h nvs_env \<Rightarrow> airdap_config_store_record \<Rightarrow>
     ('h config_store, esp_err \<times> airdap_config_store_record) state" where
  "airdap_config_store_load_record E r = do {
     (error, handle) \<leftarrow> ncall (nv_open E ''airdap'' NVS_READWRITE_PURGE);
     if error \<noteq> ESP_OK then State_Monad.return (error, r)
     else do {
       result \<leftarrow> load_stored E handle r;
       ncall (nv_close E handle);
       State_Monad.return result } }"

definition initialize_nvs :: "'h nvs_env \<Rightarrow> ('h config_store, esp_err) state" where
  "initialize_nvs E = do {
     error \<leftarrow> ncall (nv_flash_init E);
     if error \<noteq> ESP_ERR_NVS_NO_FREE_PAGES \<and> error \<noteq> ESP_ERR_NVS_NEW_VERSION_FOUND
     then State_Monad.return error
     else do {
       error \<leftarrow> ncall (nv_flash_erase E);
       if error \<noteq> ESP_OK then State_Monad.return error
       else ncall (nv_flash_init E) } }"

definition airdap_config_store_init :: "'h nvs_env \<Rightarrow> ('h config_store, esp_err) state" where
  "airdap_config_store_init E = do {
     started \<leftarrow> reads cs_initialized;
     if started then State_Monad.return ESP_ERR_INVALID_STATE
     else do {
       error \<leftarrow> initialize_nvs E;
       if error \<noteq> ESP_OK then State_Monad.return error
       else do {
         r \<leftarrow> reads cs_current;
         (error, r) \<leftarrow> airdap_config_store_load_record E r;
         set_current r;
         if error \<noteq> ESP_OK then State_Monad.return error
         else do {
           created \<leftarrow> ncall (nv_create_mutex E);
           updates (\<lambda>s. s\<lparr>cs_mutex := created\<rparr>);
           if \<not> created then State_Monad.return ESP_ERR_NO_MEM
           else do {
             updates (\<lambda>s. s\<lparr>cs_initialized := True\<rparr>);
             State_Monad.return ESP_OK } } } } }"

definition lock_config_store :: "'h nvs_env \<Rightarrow> ('h config_store, esp_err) state" where
  "lock_config_store E = do {
     ready \<leftarrow> reads (\<lambda>s. cs_initialized s \<and> cs_mutex s);
     if \<not> ready then State_Monad.return ESP_ERR_INVALID_STATE
     else do {
       taken \<leftarrow> ncall (nv_take_mutex E);
       State_Monad.return (if taken then ESP_OK else ESP_FAIL) } }"

definition unlock_config_store :: "'h nvs_env \<Rightarrow> ('h config_store, unit) state" where
  "unlock_config_store E = ncall (nv_give_mutex E)"

definition update_record :: "'h nvs_env \<Rightarrow> ('h config_store, esp_err) state" where
  "update_record E = do {
     candidate \<leftarrow> reads cs_candidate;
     (error, handle) \<leftarrow> ncall (nv_open E ''airdap'' NVS_READWRITE_PURGE);
     if error \<noteq> ESP_OK then State_Monad.return error
     else do {
       error \<leftarrow> persist_record E handle candidate;
       ncall (nv_close E handle);
       whenever (error = ESP_OK) (set_current candidate);
       State_Monad.return error } }"

fun bounded_string_length :: "bytes \<Rightarrow> nat \<Rightarrow> nat" where
  "bounded_string_length value 0 = 0"
| "bounded_string_length [] (Suc limit) = 0"
| "bounded_string_length (c # cs) (Suc limit) =
     (if c = 0 then 0 else Suc (bounded_string_length cs limit))"

section \<open>Operations\<close>

text \<open>
  What every writer does once it holds the lock: fill the candidate record, store it, wipe it and
  unlock.
\<close>

definition publish_candidate ::
    "'h nvs_env \<Rightarrow> airdap_config_store_record \<Rightarrow> ('h config_store, esp_err) state" where
  "publish_candidate E candidate = do {
     set_candidate candidate;
     error \<leftarrow> update_record E;
     clear_candidate_record;
     unlock_config_store E;
     State_Monad.return error }"

definition unlock_with :: "'h nvs_env \<Rightarrow> 'r \<Rightarrow> ('h config_store, 'r) state" where
  "unlock_with E result = do { unlock_config_store E; State_Monad.return result }"

definition airdap_config_store_get_status ::
    "'h nvs_env \<Rightarrow> bool \<Rightarrow> ('h config_store, esp_err \<times> airdap_config_status option) state" where
  "airdap_config_store_get_status E status =
     (if \<not> status then State_Monad.return (ESP_ERR_INVALID_ARG, None)
      else do {
        error \<leftarrow> lock_config_store E;
        if error \<noteq> ESP_OK then State_Monad.return (error, None)
        else do {
          r \<leftarrow> reads cs_current;
          unlock_with E (ESP_OK, Some \<lparr>cst_schema_version = cr_schema_version r,
            cst_provisioned = cr_provisioned r \<noteq> 0\<rparr>) } })"

text \<open>\<open>friendly_name\<close> is the caller's buffer; the result holds what it contains afterwards.\<close>

definition airdap_config_store_get_friendly_name ::
    "'h nvs_env \<Rightarrow> bytes option \<Rightarrow> nat \<Rightarrow> ('h config_store, esp_err \<times> bytes option) state" where
  "airdap_config_store_get_friendly_name E friendly_name friendly_name_size =
     (case friendly_name of
        None \<Rightarrow> State_Monad.return (ESP_ERR_INVALID_ARG, None)
      | Some out \<Rightarrow>
          if friendly_name_size = 0 then State_Monad.return (ESP_ERR_INVALID_ARG, Some out)
          else do {
            error \<leftarrow> lock_config_store E;
            if error \<noteq> ESP_OK then State_Monad.return (error, Some out)
            else do {
              name \<leftarrow> reads (cr_friendly_name \<circ> cs_current);
              let required = length (c_string name) + 1;
              if friendly_name_size < required then unlock_with E (ESP_ERR_INVALID_SIZE, Some out)
              else unlock_with E (ESP_OK, wr_bytes out 0 name required) } })"

definition name_array :: "bytes \<Rightarrow> bytes" where
  "name_array name = name @ replicate (AIRDAP_CONFIG_FRIENDLY_NAME_SIZE - length name) 0"

definition airdap_config_store_set_friendly_name ::
    "'h nvs_env \<Rightarrow> bytes option \<Rightarrow> ('h config_store, esp_err) state" where
  "airdap_config_store_set_friendly_name E friendly_name =
     (case friendly_name of
        None \<Rightarrow> State_Monad.return ESP_ERR_INVALID_ARG
      | Some name \<Rightarrow>
          let len = bounded_string_length name AIRDAP_CONFIG_FRIENDLY_NAME_SIZE in
          if len \<ge> AIRDAP_CONFIG_FRIENDLY_NAME_SIZE then State_Monad.return ESP_ERR_INVALID_SIZE
          else do {
            error \<leftarrow> lock_config_store E;
            if error \<noteq> ESP_OK then State_Monad.return error
            else do {
              r \<leftarrow> reads cs_current;
              if c_string (cr_friendly_name r) = c_string name then unlock_with E ESP_OK
              else publish_candidate E (r\<lparr>cr_friendly_name := name_array (take len name)\<rparr>) } })"

definition airdap_config_store_set_provisioned ::
    "'h nvs_env \<Rightarrow> bool \<Rightarrow> ('h config_store, esp_err) state" where
  "airdap_config_store_set_provisioned E provisioned = do {
     error \<leftarrow> lock_config_store E;
     if error \<noteq> ESP_OK then State_Monad.return error
     else do {
       r \<leftarrow> reads cs_current;
       if (cr_provisioned r \<noteq> 0) = provisioned then unlock_with E ESP_OK
       else publish_candidate E (r\<lparr>cr_provisioned := if provisioned then 1 else 0\<rparr>) } }"

definition slot_is_valid :: "int \<Rightarrow> bool" where
  "slot_is_valid slot \<longleftrightarrow>
     slot \<ge> AIRDAP_CONFIG_SLOT_WIFI_CREDENTIALS \<and> slot < int AIRDAP_CONFIG_SLOT_COUNT"

text \<open>
  \<open>output\<close> is the caller's buffer and \<open>inout_size\<close> the size it passes (\<^const>\<open>None\<close> for NULL
  pointers); the result holds both as the call leaves them.
\<close>

definition airdap_config_store_get_blob ::
    "'h nvs_env \<Rightarrow> int \<Rightarrow> bytes option \<Rightarrow> nat option \<Rightarrow>
     ('h config_store, esp_err \<times> bytes option \<times> nat option) state" where
  "airdap_config_store_get_blob E slot output inout_size =
     (if \<not> slot_is_valid slot \<or> inout_size = None
      then State_Monad.return (ESP_ERR_INVALID_ARG, output, inout_size)
      else do {
        error \<leftarrow> lock_config_store E;
        if error \<noteq> ESP_OK then State_Monad.return (error, output, inout_size)
        else do {
          blob \<leftarrow> reads (\<lambda>s. cr_slots (cs_current s) ! nat slot);
          let len = unat (bl_length blob);
          if len = 0 then unlock_with E (ESP_ERR_NOT_FOUND, output, Some 0)
          else case output of
            None \<Rightarrow> unlock_with E (ESP_OK, None, Some len)
          | Some out \<Rightarrow>
              if the inout_size < len then unlock_with E (ESP_ERR_INVALID_SIZE, output, Some len)
              else unlock_with E (ESP_OK, wr_bytes out 0 (bl_data blob) len, Some len) } })"

definition filled_blob :: "bytes \<Rightarrow> nat \<Rightarrow> airdap_config_store_blob" where
  "filled_blob data data_size =
     \<lparr>bl_length = of_nat data_size,
      bl_data = take data_size data @ replicate (AIRDAP_CONFIG_BLOB_MAX_SIZE - data_size) 0\<rparr>"

definition same_blob :: "airdap_config_store_blob \<Rightarrow> bytes \<Rightarrow> nat \<Rightarrow> bool" where
  "same_blob blob data data_size \<longleftrightarrow>
     unat (bl_length blob) = data_size \<and> take data_size (bl_data blob) = take data_size data"

definition airdap_config_store_set_blob ::
    "'h nvs_env \<Rightarrow> int \<Rightarrow> bytes option \<Rightarrow> nat \<Rightarrow> ('h config_store, esp_err) state" where
  "airdap_config_store_set_blob E slot data data_size =
     (if \<not> slot_is_valid slot \<or> data = None \<or> data_size = 0
      then State_Monad.return ESP_ERR_INVALID_ARG
      else if data_size > AIRDAP_CONFIG_BLOB_MAX_SIZE then State_Monad.return ESP_ERR_INVALID_SIZE
      else do {
        error \<leftarrow> lock_config_store E;
        if error \<noteq> ESP_OK then State_Monad.return error
        else do {
          r \<leftarrow> reads cs_current;
          if same_blob (cr_slots r ! nat slot) (the data) data_size then unlock_with E ESP_OK
          else publish_candidate E
            (r\<lparr>cr_slots := (cr_slots r)[nat slot := filled_blob (the data) data_size]\<rparr>) } })"

definition airdap_config_store_commit_network_provisioning ::
    "'h nvs_env \<Rightarrow> bytes option \<Rightarrow> nat \<Rightarrow> ('h config_store, esp_err) state" where
  "airdap_config_store_commit_network_provisioning E data data_size =
     (if data = None \<or> data_size = 0 then State_Monad.return ESP_ERR_INVALID_ARG
      else if data_size > AIRDAP_CONFIG_BLOB_MAX_SIZE then State_Monad.return ESP_ERR_INVALID_SIZE
      else do {
        error \<leftarrow> lock_config_store E;
        if error \<noteq> ESP_OK then State_Monad.return error
        else do {
          r \<leftarrow> reads cs_current;
          if cr_provisioned r \<noteq> 0 \<and>
             same_blob (cr_slots r ! nat AIRDAP_CONFIG_SLOT_WIFI_CREDENTIALS) (the data) data_size
          then unlock_with E ESP_OK
          else publish_candidate E
            (r\<lparr>cr_slots := (cr_slots r)
                 [nat AIRDAP_CONFIG_SLOT_WIFI_CREDENTIALS := filled_blob (the data) data_size],
               cr_provisioned := 1\<rparr>) } })"

definition slot_clear_flag :: "nat \<Rightarrow> u32" where
  "slot_clear_flag slot =
     (if slot = 0 then AIRDAP_CONFIG_CLEAR_WIFI_CREDENTIALS
      else if slot = 1 then AIRDAP_CONFIG_CLEAR_PAIRING_RECORD
      else if slot = 2 then AIRDAP_CONFIG_CLEAR_AUTH_MATERIAL
      else 0)"

definition cleared_name :: "u32 \<Rightarrow> airdap_config_store_record \<Rightarrow> airdap_config_store_record" where
  "cleared_name flags r =
     (if flags AND AIRDAP_CONFIG_CLEAR_FRIENDLY_NAME \<noteq> 0
      then r\<lparr>cr_friendly_name := replicate AIRDAP_CONFIG_FRIENDLY_NAME_SIZE 0\<rparr> else r)"

definition cleared_slot ::
    "u32 \<Rightarrow> nat \<Rightarrow> airdap_config_store_record \<Rightarrow> airdap_config_store_record" where
  "cleared_slot flags slot r =
     (if flags AND slot_clear_flag slot \<noteq> 0
      then r\<lparr>cr_slots := (cr_slots r)[slot := zero_blob]\<rparr> else r)"

definition cleared_record :: "u32 \<Rightarrow> airdap_config_store_record \<Rightarrow> airdap_config_store_record" where
  "cleared_record flags r =
     (let candidate = fold (cleared_slot flags) [0..<AIRDAP_CONFIG_SLOT_COUNT] (cleared_name flags r)
      in if flags AND AIRDAP_CONFIG_CLEAR_NETWORK \<noteq> 0
         then candidate\<lparr>cr_provisioned := 0\<rparr> else candidate)"

definition airdap_config_store_clear :: "'h nvs_env \<Rightarrow> u32 \<Rightarrow> ('h config_store, esp_err) state" where
  "airdap_config_store_clear E flags =
     (if flags = 0 \<or> flags AND NOT AIRDAP_CONFIG_CLEAR_ALL \<noteq> 0
      then State_Monad.return ESP_ERR_INVALID_ARG
      else do {
        error \<leftarrow> lock_config_store E;
        if error \<noteq> ESP_OK then State_Monad.return error
        else do {
          r \<leftarrow> reads cs_current;
          let candidate = cleared_record flags r;
          if record_bytes candidate = record_bytes r then do {
            set_candidate candidate;
            clear_candidate_record;
            unlock_with E ESP_OK }
          else publish_candidate E candidate } })"

section \<open>The layout is a codec\<close>

lemma u32_at_shift: "length pre \<le> i \<Longrightarrow> u32_at (pre @ xs) i = u32_at xs (i - length pre)"
  by (simp add: u32_at_def nth_append Suc_diff_le)

lemma u32_at_append [simp]:
  "u32_at (u32_bytes v @ xs) 0 = v"
  "4 \<le> i \<Longrightarrow> u32_at (u32_bytes v @ xs) i = u32_at xs (i - 4)"
  using u32_at_shift [of "u32_bytes v" i xs]
  by (simp_all add: u32_at_def u32_bytes_def byte_simps numeral_eq_Suc)

lemma u32_bytes_at: "i + 4 \<le> length bs \<Longrightarrow> u32_bytes (u32_at bs i) = take 4 (drop i bs)"
  by (rule nth_equalityI)
    (auto simp: u32_bytes_def u32_at_def byte_simps less_Suc_eq numeral_eq_Suc)

lemma length_u32_bytes [simp]: "length (u32_bytes v) = 4"
  by (simp add: u32_bytes_def)

lemma blob_at_append:
  "length (bl_data b) = AIRDAP_CONFIG_BLOB_MAX_SIZE \<Longrightarrow> blob_at (blob_bytes b @ xs) 0 = b"
  by (simp add: blob_at_def blob_bytes_def)

lemma blob_at_shift: "length pre \<le> i \<Longrightarrow> blob_at (pre @ xs) i = blob_at xs (i - length pre)"
  by (simp add: blob_at_def u32_at_shift)

lemma blob_bytes_at:
  "i + 1028 \<le> length bs \<Longrightarrow> blob_bytes (blob_at bs i) = take 1028 (drop i bs)"
  using take_add [of 4 1024 "drop i bs"]
  by (simp add: blob_bytes_def blob_at_def u32_bytes_at config_sizes add.commute)

lemma length_blob_bytes:
  "length (bl_data b) = AIRDAP_CONFIG_BLOB_MAX_SIZE \<Longrightarrow> length (blob_bytes b) = 1028"
  by (simp add: blob_bytes_def config_sizes)

lemma record_shapeE:
  assumes "record_shape r"
  obtains a b c where "cr_slots r = [a, b, c]" "length (bl_data a) = AIRDAP_CONFIG_BLOB_MAX_SIZE"
    "length (bl_data b) = AIRDAP_CONFIG_BLOB_MAX_SIZE" "length (bl_data c) = AIRDAP_CONFIG_BLOB_MAX_SIZE"
    "length (cr_friendly_name r) = 33" "length (cr_reserved r) = 2"
proof -
  have "length (cr_slots r) = Suc (Suc (Suc 0))"
    using assms by (simp add: record_shape_def config_sizes)
  then obtain a b c where "cr_slots r = [a, b, c]"
    by (auto simp: length_Suc_conv)
  with assms show thesis
    using that by (simp add: record_shape_def AIRDAP_CONFIG_FRIENDLY_NAME_SIZE_def)
qed

lemma record_bytes_length: "record_shape r \<Longrightarrow> length (record_bytes r) = sizeof_record"
  by (erule record_shapeE) (simp add: record_bytes_def length_blob_bytes sizeof_record_def)

lemma record_at_bytes: "record_shape r \<Longrightarrow> record_at (record_bytes r) = r"
proof (erule record_shapeE)
  fix a b c
  assume slots: "cr_slots r = [a, b, c]" and ls: "length (bl_data a) = AIRDAP_CONFIG_BLOB_MAX_SIZE"
    "length (bl_data b) = AIRDAP_CONFIG_BLOB_MAX_SIZE" "length (bl_data c) = AIRDAP_CONFIG_BLOB_MAX_SIZE"
    "length (cr_friendly_name r) = 33" "length (cr_reserved r) = 2"
  have blobs: "blob_at (record_bytes r) 48 = a" "blob_at (record_bytes r) 1076 = b"
    "blob_at (record_bytes r) 2104 = c"
    using ls blob_at_append [of c "[]"]
    by (simp_all add: record_bytes_def slots blob_at_shift blob_at_append length_blob_bytes
      blob_at_shift [of "[cr_provisioned r]", simplified])
  have words: "u32_at (record_bytes r) 0 = cr_magic r" "u32_at (record_bytes r) 4 = cr_schema_version r"
    "u32_at (record_bytes r) 8 = cr_record_size r"
    by (simp_all add: record_bytes_def)
  have rest: "take 33 (drop 12 (record_bytes r)) = cr_friendly_name r"
    "record_bytes r ! 45 = cr_provisioned r" "take 2 (drop 46 (record_bytes r)) = cr_reserved r"
    using ls by (simp_all add: record_bytes_def nth_append)
  show ?thesis
    by (simp add: record_at_def blobs words rest slots config_sizes)
qed

lemma record_at_shape: "length bs = sizeof_record \<Longrightarrow> record_shape (record_at bs)"
  by (simp add: record_shape_def record_at_def blob_at_def config_sizes)

lemma take_then_drop: "j = i + n \<Longrightarrow> take n (drop i xs) @ drop j xs = drop i xs"
  by (metis append_take_drop_id drop_drop add.commute)

lemma record_bytes_at:
  assumes "length bs = sizeof_record" shows "record_bytes (record_at bs) = bs"
proof -
  have byte: "[bs ! 45] = take 1 (drop 45 bs)"
    using assms by (simp add: sizeof_record_def take_Suc_conv_app_nth hd_drop_conv_nth take_Suc)
  have tail: "take 1028 (drop 2104 bs) = drop 2104 bs"
    using assms by (simp add: sizeof_record_def)
  have "record_bytes (record_at bs) =
      take 4 (drop 0 bs) @ take 4 (drop 4 bs) @ take 4 (drop 8 bs) @ take 33 (drop 12 bs) @
      take 1 (drop 45 bs) @ take 2 (drop 46 bs) @ take 1028 (drop 48 bs) @ take 1028 (drop 1076 bs) @
      drop 2104 bs"
    using assms unfolding sizeof_record_def
    by (simp add: record_bytes_def record_at_def u32_bytes_at blob_bytes_at byte tail
      AIRDAP_CONFIG_FRIENDLY_NAME_SIZE_def)
  also have "\<dots> = bs"
    by (simp add: take_then_drop append_take_drop_id)
  finally show ?thesis .
qed

definition encode_record :: "airdap_config_store_record \<Rightarrow> bytes option" where
  "encode_record r = (if record_shape r then Some (record_bytes r) else None)"

definition decode_record :: "bytes \<Rightarrow> airdap_config_store_record option" where
  "decode_record bs = (if length bs = sizeof_record then Some (record_at bs) else None)"

interpretation record_codec: byte_codec encode_record decode_record
  by unfold_locales (auto simp: encode_record_def decode_record_def record_bytes_length
    record_at_bytes record_bytes_at record_at_shape split: if_splits)

lemma record_bytes_inject:
  "record_shape r \<Longrightarrow> record_shape r' \<Longrightarrow> record_bytes r = record_bytes r' \<longleftrightarrow> r = r'"
  using record_codec.enc_inject [of r _ r'] by (auto simp: encode_record_def)

section \<open>Strings\<close>

lemma bounded_string_length: "bounded_string_length s n = min n (length (c_string s))"
  by (induction s n rule: bounded_string_length.induct) (simp_all add: c_string_def)

lemma take_c_string: "take (length (c_string s)) s = c_string s"
  unfolding c_string_def by (metis takeWhile_eq_take)

lemma c_string_prefix: "0 \<in> set s \<Longrightarrow> length (c_string s) < length s"
  by (induction s) (auto simp: c_string_def)

lemma c_string_append_zeros: "0 \<notin> set s \<Longrightarrow> c_string (s @ replicate n 0) = s"
  unfolding c_string_def by (induction s) (auto simp: takeWhile_replicate)

lemma zero_notin_c_string: "0 \<notin> set (c_string s)"
  unfolding c_string_def by (auto dest: set_takeWhileD)

lemma c_string_zeros [simp]: "c_string (replicate n 0) = []"
  by (simp add: c_string_def takeWhile_replicate)

section \<open>What an operation does to the record\<close>

definition record_valid :: "airdap_config_store_record \<Rightarrow> bool" where
  "record_valid r \<longleftrightarrow> record_shape r \<and> validate_record r = ESP_OK"

lemma wp_ncall [wp_simps]:
  "wp (ncall f) Q s = (case f (cs_world s) of (r, h) \<Rightarrow> Q r (s\<lparr>cs_world := h\<rparr>))"
  by (simp add: ncall_def wp_def split: prod.splits)

lemma wp_set_record [wp_simps]:
  "wp (set_current c) Q s = Q () (s\<lparr>cs_current := c\<rparr>)"
  "wp (set_candidate c) R s = R () (s\<lparr>cs_candidate := c\<rparr>)"
  by (simp_all add: set_current_def set_candidate_def wp_simps)

text \<open>
  A step that leaves the record, the candidate and the flags alone, whatever the platform does.
\<close>

definition same_store :: "'h config_store \<Rightarrow> 'h config_store \<Rightarrow> bool" where
  "same_store s t \<longleftrightarrow> cs_current t = cs_current s \<and> cs_candidate t = cs_candidate s \<and>
     cs_mutex t = cs_mutex s \<and> cs_initialized t = cs_initialized s"

lemma persist_record_same: "wp (persist_record E handle r) (\<lambda>_. same_store s) s"
  by (simp add: persist_record_def wp_simps same_store_def split: prod.splits)

lemma publish_candidate_wp:
  "wp (publish_candidate E c)
     (\<lambda>r t. cs_current t = (if r = ESP_OK then c else cs_current s) \<and>
       cs_candidate t = zero_record \<and> cs_initialized t = cs_initialized s \<and> cs_mutex t = cs_mutex s) s"
  by (simp add: publish_candidate_def update_record_def persist_record_def clear_candidate_record_def
    unlock_config_store_def wp_simps split: prod.splits)

text \<open>
  The shape every writer has: checks of the arguments, the lock, a test whether anything changes,
  and the publication of a new record.
\<close>

definition locked_write ::
    "'h nvs_env \<Rightarrow> (airdap_config_store_record \<Rightarrow> bool) \<Rightarrow>
     (airdap_config_store_record \<Rightarrow> airdap_config_store_record) \<Rightarrow> ('h config_store, esp_err) state" where
  "locked_write E unchanged change = do {
     error \<leftarrow> lock_config_store E;
     if error \<noteq> ESP_OK then State_Monad.return error
     else do {
       r \<leftarrow> reads cs_current;
       if unchanged r then unlock_with E ESP_OK
       else publish_candidate E (change r) } }"

lemma locked_write_wp:
  "wp (locked_write E unchanged change)
     (\<lambda>r t. cs_current t = (if r = ESP_OK \<and> \<not> unchanged (cs_current s)
                             then change (cs_current s) else cs_current s) \<and>
       (cs_candidate s = zero_record \<longrightarrow> cs_candidate t = zero_record) \<and>
       cs_initialized t = cs_initialized s \<and> cs_mutex t = cs_mutex s) s"
  using wp_mono [OF publish_candidate_wp [of E "change (cs_current s)" "s\<lparr>cs_world := h\<rparr>" for h]]
  by (auto simp: locked_write_def lock_config_store_def unlock_with_def unlock_config_store_def
    wp_simps split: prod.splits)

lemma set_friendly_name_locked:
  "airdap_config_store_set_friendly_name E (Some name) =
     (if length (c_string name) \<ge> AIRDAP_CONFIG_FRIENDLY_NAME_SIZE
      then State_Monad.return ESP_ERR_INVALID_SIZE
      else locked_write E (\<lambda>r. c_string (cr_friendly_name r) = c_string name)
        (\<lambda>r. r\<lparr>cr_friendly_name := name_array (c_string name)\<rparr>))"
  by (simp add: airdap_config_store_set_friendly_name_def locked_write_def bounded_string_length
    take_c_string Let_def min_def cong: if_cong)

lemma set_provisioned_locked:
  "airdap_config_store_set_provisioned E provisioned =
     locked_write E (\<lambda>r. (cr_provisioned r \<noteq> 0) = provisioned)
       (\<lambda>r. r\<lparr>cr_provisioned := if provisioned then 1 else 0\<rparr>)"
  by (simp only: airdap_config_store_set_provisioned_def locked_write_def)

lemma set_blob_locked:
  "airdap_config_store_set_blob E slot data n =
     (if \<not> slot_is_valid slot \<or> data = None \<or> n = 0 then State_Monad.return ESP_ERR_INVALID_ARG
      else if n > AIRDAP_CONFIG_BLOB_MAX_SIZE then State_Monad.return ESP_ERR_INVALID_SIZE
      else locked_write E (\<lambda>r. same_blob (cr_slots r ! nat slot) (the data) n)
        (\<lambda>r. r\<lparr>cr_slots := (cr_slots r)[nat slot := filled_blob (the data) n]\<rparr>))"
  by (simp only: airdap_config_store_set_blob_def locked_write_def)

lemma commit_provisioning_locked:
  "airdap_config_store_commit_network_provisioning E data n =
     (if data = None \<or> n = 0 then State_Monad.return ESP_ERR_INVALID_ARG
      else if n > AIRDAP_CONFIG_BLOB_MAX_SIZE then State_Monad.return ESP_ERR_INVALID_SIZE
      else locked_write E
        (\<lambda>r. cr_provisioned r \<noteq> 0 \<and> same_blob (cr_slots r ! nat 0) (the data) n)
        (\<lambda>r. r\<lparr>cr_slots := (cr_slots r)[nat 0 := filled_blob (the data) n], cr_provisioned := 1\<rparr>))"
  by (simp only: airdap_config_store_commit_network_provisioning_def locked_write_def)

lemma clear_wp:
  assumes "flags \<noteq> 0" "flags AND NOT AIRDAP_CONFIG_CLEAR_ALL = 0"
  shows "wp (airdap_config_store_clear E flags)
     (\<lambda>r t. cs_current t = (if r = ESP_OK \<and>
                               record_bytes (cleared_record flags (cs_current s)) \<noteq> record_bytes (cs_current s)
                             then cleared_record flags (cs_current s) else cs_current s) \<and>
       (cs_candidate s = zero_record \<longrightarrow> cs_candidate t = zero_record) \<and>
       cs_initialized t = cs_initialized s \<and> cs_mutex t = cs_mutex s) s"
  using assms wp_mono [OF publish_candidate_wp
      [of E "cleared_record flags (cs_current s)" "s\<lparr>cs_world := h\<rparr>" for h]]
  by (auto simp: airdap_config_store_clear_def lock_config_store_def unlock_with_def
    unlock_config_store_def clear_candidate_record_def Let_def wp_simps split: prod.splits)

section \<open>The abstract configuration\<close>

text \<open>What a client sees of the record: the name, the flag and the contents of the slots.\<close>

record config_spec =
  sp_name :: bytes
  sp_provisioned :: bool
  sp_blob :: "nat \<Rightarrow> bytes"

definition blob_contents :: "airdap_config_store_blob \<Rightarrow> bytes" where
  "blob_contents b = take (unat (bl_length b)) (bl_data b)"

definition spec_of :: "airdap_config_store_record \<Rightarrow> config_spec" where
  "spec_of r = \<lparr>sp_name = c_string (cr_friendly_name r), sp_provisioned = cr_provisioned r \<noteq> 0,
     sp_blob = (\<lambda>i. if i < AIRDAP_CONFIG_SLOT_COUNT then blob_contents (cr_slots r ! i) else [])\<rparr>"

datatype config_call =
    Set_friendly_name "bytes option"
  | Set_provisioned bool
  | Set_blob int "bytes option" nat
  | Commit_provisioning "bytes option" nat
  | Clear u32

fun config_exec :: "'h nvs_env \<Rightarrow> config_call \<Rightarrow> ('h config_store, esp_err) state" where
  "config_exec E (Set_friendly_name name) = airdap_config_store_set_friendly_name E name"
| "config_exec E (Set_provisioned provisioned) = airdap_config_store_set_provisioned E provisioned"
| "config_exec E (Set_blob slot data n) = airdap_config_store_set_blob E slot data n"
| "config_exec E (Commit_provisioning data n) =
     airdap_config_store_commit_network_provisioning E data n"
| "config_exec E (Clear flags) = airdap_config_store_clear E flags"

fun spec_refuses :: "config_call \<Rightarrow> esp_err option" where
  "spec_refuses (Set_friendly_name None) = Some ESP_ERR_INVALID_ARG"
| "spec_refuses (Set_friendly_name (Some name)) =
     (if length (c_string name) > 32 then Some ESP_ERR_INVALID_SIZE else None)"
| "spec_refuses (Set_provisioned _) = None"
| "spec_refuses (Set_blob slot data n) =
     (if slot < 0 \<or> slot > 2 \<or> data = None \<or> n = 0 then Some ESP_ERR_INVALID_ARG
      else if n > 1024 then Some ESP_ERR_INVALID_SIZE else None)"
| "spec_refuses (Commit_provisioning data n) =
     (if data = None \<or> n = 0 then Some ESP_ERR_INVALID_ARG
      else if n > 1024 then Some ESP_ERR_INVALID_SIZE else None)"
| "spec_refuses (Clear flags) =
     (if flags = 0 \<or> flags AND NOT 15 \<noteq> 0 then Some ESP_ERR_INVALID_ARG else None)"

fun spec_step :: "config_call \<Rightarrow> config_spec \<Rightarrow> config_spec" where
  "spec_step (Set_friendly_name name) c = c\<lparr>sp_name := c_string (the name)\<rparr>"
| "spec_step (Set_provisioned provisioned) c = c\<lparr>sp_provisioned := provisioned\<rparr>"
| "spec_step (Set_blob slot data n) c =
     c\<lparr>sp_blob := (sp_blob c)(nat slot := take n (the data))\<rparr>"
| "spec_step (Commit_provisioning data n) c =
     c\<lparr>sp_provisioned := True, sp_blob := (sp_blob c)(0 := take n (the data))\<rparr>"
| "spec_step (Clear flags) c =
     \<lparr>sp_name = (if bit flags 0 then [] else sp_name c),
      sp_provisioned = (sp_provisioned c \<and> \<not> bit flags 1 \<and> \<not> bit flags 2 \<and> \<not> bit flags 3),
      sp_blob = (\<lambda>i. if i < 3 \<and> bit flags (Suc i) then [] else sp_blob c i)\<rparr>"

text \<open>The caller's promise on a pointer and a size: that many bytes are readable.\<close>

fun call_readable :: "config_call \<Rightarrow> bool" where
  "call_readable (Set_blob slot data n) \<longleftrightarrow> (data \<noteq> None \<longrightarrow> n \<le> length (the data))"
| "call_readable (Commit_provisioning data n) \<longleftrightarrow> (data \<noteq> None \<longrightarrow> n \<le> length (the data))"
| "call_readable _ \<longleftrightarrow> True"

lemma validate_OK: "validate_record r = ESP_OK \<longleftrightarrow>
    cr_magic r = AIRDAP_CONFIG_STORE_RECORD_MAGIC \<and> cr_schema_version r = AIRDAP_CONFIG_SCHEMA_VERSION \<and>
    cr_record_size r = of_nat sizeof_record \<and> cr_provisioned r \<le> 1 \<and> 0 \<in> set (cr_friendly_name r) \<and>
    (\<forall>b \<in> set (cr_slots r). unat (bl_length b) \<le> AIRDAP_CONFIG_BLOB_MAX_SIZE)"
  unfolding validate_record_def list_ex_iff by (auto simp: not_less not_le) (use not_le in blast)?

lemmas record_valid_simps = record_valid_def record_shape_def validate_OK

lemma default_record_valid: "record_valid make_default_record"
  by (simp add: record_valid_simps make_default_record_def zero_record_def zero_blob_def config_sizes)

lemma set_name_valid:
  "record_valid r \<Longrightarrow> length (c_string name) < AIRDAP_CONFIG_FRIENDLY_NAME_SIZE \<Longrightarrow>
   record_valid (r\<lparr>cr_friendly_name := name_array (c_string name)\<rparr>)"
  by (auto simp: record_valid_simps name_array_def set_replicate_conv_if)

lemma set_name_spec:
  "spec_of (r\<lparr>cr_friendly_name := name_array (c_string name)\<rparr>) =
   (spec_of r)\<lparr>sp_name := c_string name\<rparr>"
  by (simp add: spec_of_def name_array_def c_string_append_zeros zero_notin_c_string cong: if_cong)

lemma set_provisioned_valid:
  "record_valid r \<Longrightarrow> v \<le> 1 \<Longrightarrow> record_valid (r\<lparr>cr_provisioned := v\<rparr>)"
  by (simp add: record_valid_simps)

lemma set_slot_valid:
  "record_valid r \<Longrightarrow> length (bl_data b) = AIRDAP_CONFIG_BLOB_MAX_SIZE \<Longrightarrow>
   unat (bl_length b) \<le> AIRDAP_CONFIG_BLOB_MAX_SIZE \<Longrightarrow>
   record_valid (r\<lparr>cr_slots := (cr_slots r)[i := b]\<rparr>)"
  by (auto simp: record_valid_simps dest!: set_update_subset_insert [THEN subsetD])

lemma set_slot_spec:
  "record_valid r \<Longrightarrow> i < AIRDAP_CONFIG_SLOT_COUNT \<Longrightarrow>
   spec_of (r\<lparr>cr_slots := (cr_slots r)[i := b]\<rparr>) =
   (spec_of r)\<lparr>sp_blob := (sp_blob (spec_of r))(i := blob_contents b)\<rparr>"
  by (auto simp: spec_of_def record_valid_simps fun_eq_iff)

lemma filled_blob_length:
  "n \<le> length data \<Longrightarrow> n \<le> AIRDAP_CONFIG_BLOB_MAX_SIZE \<Longrightarrow>
   length (bl_data (filled_blob data n)) = AIRDAP_CONFIG_BLOB_MAX_SIZE \<and>
   unat (bl_length (filled_blob data n)) = n \<and> blob_contents (filled_blob data n) = take n data"
  by (simp add: filled_blob_def blob_contents_def config_sizes unat_of_nat take_bit_nat_eq_self)

lemma zero_blob_length:
  "length (bl_data zero_blob) = AIRDAP_CONFIG_BLOB_MAX_SIZE" "bl_length zero_blob = 0"
  "blob_contents zero_blob = []"
  by (simp_all add: zero_blob_def blob_contents_def)

lemma same_blob_contents: "same_blob b data n \<Longrightarrow> blob_contents b = take n data"
  by (auto simp: same_blob_def blob_contents_def)

lemma flag_bit: "v = push_bit k 1 \<Longrightarrow> flags AND v = 0 \<longleftrightarrow> \<not> bit (flags :: u32) k"
  by (metis bit_iff_and_push_bit_not_eq_0)

lemma or_zero_iff: "(a :: u32) OR b = 0 \<longleftrightarrow> a = 0 \<and> b = 0"
  by (auto simp: bit_eq_iff bit_or_iff)

lemma clear_flag_masks:
  "AIRDAP_CONFIG_CLEAR_FRIENDLY_NAME = push_bit 0 1"
  "AIRDAP_CONFIG_CLEAR_WIFI_CREDENTIALS = push_bit 1 1"
  "AIRDAP_CONFIG_CLEAR_PAIRING_RECORD = push_bit 2 1"
  "AIRDAP_CONFIG_CLEAR_AUTH_MATERIAL = push_bit 3 1"
  by (simp_all add: AIRDAP_CONFIG_CLEAR_FRIENDLY_NAME_def AIRDAP_CONFIG_CLEAR_WIFI_CREDENTIALS_def
    AIRDAP_CONFIG_CLEAR_PAIRING_RECORD_def AIRDAP_CONFIG_CLEAR_AUTH_MATERIAL_def)

lemma clear_flag_bits:
  "flags AND AIRDAP_CONFIG_CLEAR_FRIENDLY_NAME = 0 \<longleftrightarrow> \<not> bit flags 0"
  "flags AND slot_clear_flag i = 0 \<longleftrightarrow> \<not> (i < 3 \<and> bit flags (Suc i))"
  "flags AND AIRDAP_CONFIG_CLEAR_NETWORK = 0 \<longleftrightarrow> \<not> (bit flags 1 \<or> bit flags 2 \<or> bit flags 3)"
  using clear_flag_masks [THEN flag_bit, of flags]
  by (auto simp: slot_clear_flag_def AIRDAP_CONFIG_CLEAR_NETWORK_def bit.conj_disj_distrib or_zero_iff
    less_Suc_eq numeral_eq_Suc split: if_splits)

lemma clear_all_mask: "AIRDAP_CONFIG_CLEAR_ALL = 15"
  by (simp add: AIRDAP_CONFIG_CLEAR_ALL_def AIRDAP_CONFIG_CLEAR_NETWORK_def
    AIRDAP_CONFIG_CLEAR_FRIENDLY_NAME_def AIRDAP_CONFIG_CLEAR_WIFI_CREDENTIALS_def
    AIRDAP_CONFIG_CLEAR_PAIRING_RECORD_def AIRDAP_CONFIG_CLEAR_AUTH_MATERIAL_def)

lemma cleared_name_props:
  assumes "record_valid r"
  shows "record_valid (cleared_name flags r)"
    and "spec_of (cleared_name flags r) =
      (spec_of r)\<lparr>sp_name := if bit flags 0 then [] else sp_name (spec_of r)\<rparr>"
  using assms by (auto simp: cleared_name_def clear_flag_bits record_valid_simps spec_of_def config_sizes)

lemma cleared_slot_props:
  assumes "record_valid r"
  shows "record_valid (cleared_slot flags i r)"
    and "spec_of (cleared_slot flags i r) =
      (spec_of r)\<lparr>sp_blob := (sp_blob (spec_of r))(i := if i < 3 \<and> bit flags (Suc i) then [] else sp_blob (spec_of r) i)\<rparr>"
  using assms set_slot_valid [of r zero_blob i] set_slot_spec [of r i zero_blob]
  by (auto simp: cleared_slot_def clear_flag_bits zero_blob_length config_sizes)

lemma cleared_record_props:
  assumes "record_valid r"
  shows "record_valid (cleared_record flags r) \<and>
    spec_of (cleared_record flags r) = spec_step (Clear flags) (spec_of r)"
proof -
  define r1 where "r1 = cleared_name flags r"
  define r2 where "r2 = cleared_slot flags 0 r1"
  define r3 where "r3 = cleared_slot flags 1 r2"
  define r4 where "r4 = cleared_slot flags 2 r3"
  have valid: "record_valid r1" "record_valid r2" "record_valid r3" "record_valid r4"
    using assms by (simp_all add: r1_def r2_def r3_def r4_def cleared_name_props cleared_slot_props)
  have "cleared_record flags r =
      (if flags AND AIRDAP_CONFIG_CLEAR_NETWORK \<noteq> 0 then r4\<lparr>cr_provisioned := 0\<rparr> else r4)"
    by (simp add: cleared_record_def AIRDAP_CONFIG_SLOT_COUNT_def upt_rec numeral_eq_Suc
      r1_def r2_def r3_def r4_def)
  moreover have "spec_of (r4\<lparr>cr_provisioned := 0\<rparr>) = (spec_of r4)\<lparr>sp_provisioned := False\<rparr>"
    by (simp add: spec_of_def cong: if_cong)
  moreover have "spec_of r4 = (spec_of r)\<lparr>sp_name := if bit flags 0 then [] else sp_name (spec_of r),
      sp_blob := \<lambda>i. if i < 3 \<and> bit flags (Suc i) then [] else sp_blob (spec_of r) i\<rparr>"
    using cleared_slot_props(2) [OF valid(3), of flags 2] cleared_slot_props(2) [OF valid(2), of flags 1]
      cleared_slot_props(2) [OF valid(1), of flags 0] cleared_name_props(2) [OF assms, of flags]
    unfolding r4_def [symmetric] r3_def [symmetric] r2_def [symmetric] r1_def [symmetric]
    by (intro config_spec.equality) (auto simp: fun_eq_iff less_Suc_eq numeral_eq_Suc)
  ultimately show ?thesis
    using valid set_provisioned_valid [OF valid(4), of 0] by (auto simp: clear_flag_bits)
qed

text \<open>What a call promises, as one predicate on its result and the states around it.\<close>

definition call_outcome :: "config_call \<Rightarrow> 'h config_store \<Rightarrow> esp_err \<Rightarrow> 'h config_store \<Rightarrow> bool" where
  "call_outcome call s r t \<longleftrightarrow> record_valid (cs_current t) \<and>
     (if r = ESP_OK then spec_of (cs_current t) = spec_step call (spec_of (cs_current s))
      else cs_current t = cs_current s) \<and>
     (cs_candidate s = zero_record \<longrightarrow> cs_candidate t = zero_record)"

lemma locked_write_outcome:
  assumes "record_valid (cs_current s)"
    and "unchanged (cs_current s) \<Longrightarrow> spec_step call (spec_of (cs_current s)) = spec_of (cs_current s)"
    and "\<not> unchanged (cs_current s) \<Longrightarrow> record_valid (change (cs_current s)) \<and>
      spec_of (change (cs_current s)) = spec_step call (spec_of (cs_current s))"
  shows "wp (locked_write E unchanged change) (call_outcome call s) s"
  by (rule wp_mono [OF locked_write_wp]) (use assms in \<open>auto simp: call_outcome_def\<close>)

lemma slot_nat: "slot_is_valid slot \<longleftrightarrow> 0 \<le> slot \<and> nat slot < AIRDAP_CONFIG_SLOT_COUNT"
  by (auto simp: slot_is_valid_def)

lemma spec_blob [simp]:
  "i < AIRDAP_CONFIG_SLOT_COUNT \<Longrightarrow> sp_blob (spec_of r) i = blob_contents (cr_slots r ! i)"
  "sp_name (spec_of r) = c_string (cr_friendly_name r)"
  "sp_provisioned (spec_of r) = (cr_provisioned r \<noteq> 0)"
  by (simp_all add: spec_of_def)

lemma fill_slot_props:
  assumes "record_valid r" "i < AIRDAP_CONFIG_SLOT_COUNT" "n \<le> length data"
    and "n \<le> AIRDAP_CONFIG_BLOB_MAX_SIZE"
  shows "record_valid (r\<lparr>cr_slots := (cr_slots r)[i := filled_blob data n]\<rparr>)"
    and "spec_of (r\<lparr>cr_slots := (cr_slots r)[i := filled_blob data n]\<rparr>) =
      (spec_of r)\<lparr>sp_blob := (sp_blob (spec_of r))(i := take n data)\<rparr>"
  using filled_blob_length [OF assms(3,4)] set_slot_valid [OF assms(1)] set_slot_spec [OF assms(1,2)]
    assms(4) by simp_all

lemma same_slot_spec:
  "i < AIRDAP_CONFIG_SLOT_COUNT \<Longrightarrow> same_blob (cr_slots r ! i) data n \<Longrightarrow>
   (spec_of r)\<lparr>sp_blob := (sp_blob (spec_of r))(i := take n data)\<rparr> = spec_of r"
  by (intro config_spec.equality) (auto simp: same_blob_contents)

lemma set_blob_outcome:
  assumes "record_valid (cs_current s)" "slot_is_valid slot" "n \<le> length data" "n \<noteq> 0"
    "n \<le> AIRDAP_CONFIG_BLOB_MAX_SIZE"
  shows "wp (airdap_config_store_set_blob E slot (Some data) n)
    (call_outcome (Set_blob slot (Some data) n) s) s"
  using assms
  by (auto simp: set_blob_locked slot_nat intro!: locked_write_outcome
    dest: same_slot_spec fill_slot_props)

lemma commit_provisioning_outcome:
  assumes "record_valid (cs_current s)" "n \<le> length data" "n \<noteq> 0" "n \<le> AIRDAP_CONFIG_BLOB_MAX_SIZE"
  shows "wp (airdap_config_store_commit_network_provisioning E (Some data) n)
    (call_outcome (Commit_provisioning (Some data) n) s) s"
proof -
  let ?r = "cs_current s"
  let ?f = "?r\<lparr>cr_slots := (cr_slots ?r)[0 := filled_blob data n]\<rparr>"
  have slot: "0 < AIRDAP_CONFIG_SLOT_COUNT"
    by (simp add: AIRDAP_CONFIG_SLOT_COUNT_def)
  note fill = fill_slot_props [OF assms(1) slot assms(2,4)]
  have "spec_of (?f\<lparr>cr_provisioned := 1\<rparr>) = (spec_of ?f)\<lparr>sp_provisioned := True\<rparr>"
    by (simp add: spec_of_def cong: if_cong)
  moreover have "(spec_of ?r)\<lparr>sp_provisioned := True,
      sp_blob := (sp_blob (spec_of ?r))(0 := take n data)\<rparr> = spec_of ?r"
    if "cr_provisioned ?r \<noteq> 0" "same_blob (cr_slots ?r ! 0) data n"
    using that slot by (intro config_spec.equality) (auto simp: same_blob_contents)
  ultimately show ?thesis
    using assms fill set_provisioned_valid [OF fill(1), of 1]
    by (auto simp: commit_provisioning_locked intro!: locked_write_outcome)
qed

lemma set_name_outcome:
  assumes "record_valid (cs_current s)" "length (c_string name) \<le> 32"
  shows "wp (airdap_config_store_set_friendly_name E (Some name))
    (call_outcome (Set_friendly_name (Some name)) s) s"
proof -
  have "sp_name c = c_string name \<Longrightarrow> c\<lparr>sp_name := c_string name\<rparr> = c" for c :: config_spec
    by (intro config_spec.equality) simp_all
  then show ?thesis
    using assms by (auto simp: set_friendly_name_locked AIRDAP_CONFIG_FRIENDLY_NAME_SIZE_def
      set_name_spec intro!: locked_write_outcome set_name_valid)
qed

lemma set_provisioned_outcome:
  assumes "record_valid (cs_current s)"
  shows "wp (airdap_config_store_set_provisioned E p) (call_outcome (Set_provisioned p) s) s"
proof -
  have "sp_provisioned c = p \<Longrightarrow> c\<lparr>sp_provisioned := p\<rparr> = c" for c :: config_spec
    by (intro config_spec.equality) simp_all
  moreover have "spec_of (r\<lparr>cr_provisioned := v\<rparr>) = (spec_of r)\<lparr>sp_provisioned := v \<noteq> 0\<rparr>" for r v
    by (simp add: spec_of_def cong: if_cong)
  ultimately show ?thesis
    using assms by (auto simp: set_provisioned_locked intro!: locked_write_outcome set_provisioned_valid)
qed

lemma clear_outcome:
  assumes "record_valid (cs_current s)" "flags \<noteq> 0" "flags AND NOT 15 = 0"
  shows "wp (airdap_config_store_clear E flags) (call_outcome (Clear flags) s) s"
proof -
  let ?r = "cs_current s"
  note cleared = cleared_record_props [OF assms(1), of flags]
  have "record_bytes (cleared_record flags ?r) = record_bytes ?r \<longleftrightarrow> cleared_record flags ?r = ?r"
    using cleared assms(1) by (intro record_bytes_inject) (simp_all add: record_valid_def)
  then show ?thesis
    using assms cleared
    by (intro wp_mono [OF clear_wp]) (auto simp: call_outcome_def clear_all_mask split: if_splits)
qed

lemma config_exec_outcome:
  assumes "record_valid (cs_current s)" "call_readable call" "spec_refuses call = None"
  shows "wp (config_exec E call) (call_outcome call s) s"
proof (cases call)
  case (Set_friendly_name name)
  then show ?thesis
    using assms by (cases name) (auto intro: set_name_outcome split: if_splits)
next
  case (Set_blob slot data n)
  then show ?thesis
    using assms by (cases data) (auto simp: slot_is_valid_def config_sizes intro!: set_blob_outcome
      split: if_splits)
next
  case (Commit_provisioning data n)
  then show ?thesis
    using assms by (cases data) (auto simp: config_sizes intro!: commit_provisioning_outcome
      split: if_splits)
next
  case (Clear flags)
  then show ?thesis
    using assms by (auto intro!: clear_outcome split: if_splits)
qed (use assms in \<open>auto intro: set_provisioned_outcome\<close>)

lemma config_exec_refuses:
  "spec_refuses call = Some e \<Longrightarrow> run_state (config_exec E call) s = (e, s)"
  by (cases call rule: spec_refuses.cases)
    (auto simp: airdap_config_store_set_friendly_name_def set_friendly_name_locked set_blob_locked
      commit_provisioning_locked airdap_config_store_clear_def clear_all_mask slot_is_valid_def
      config_sizes bounded_string_length Let_def split: if_splits)

lemma spec_refuses_error: "spec_refuses call \<noteq> Some ESP_OK"
  by (cases call rule: spec_refuses.cases) simp_all

section \<open>Durability\<close>

definition in_sync :: "('h \<Rightarrow> nvs_view) \<Rightarrow> 'h config_store \<Rightarrow> bool" where
  "in_sync v s \<longleftrightarrow> stored (v (cs_world s)) ''airdap'' ''config'' (record_bytes (cs_current s))"

lemma persist_record_stores:
  assumes "nvs_laws E v" "nv_open E ''airdap'' m h = ((ESP_OK, hn), cs_world s)"
  shows "wp (persist_record E hn r)
    (\<lambda>e t. e = ESP_OK \<longrightarrow> stored (v (cs_world t)) ''airdap'' ''config'' (record_bytes r)) s"
  using nvs_write_stores [OF assms] by (simp add: persist_record_def wp_simps split: prod.splits)

lemma update_record_in_sync:
  assumes "nvs_laws E v"
  shows "wp (update_record E) (\<lambda>e t. e = ESP_OK \<longrightarrow> in_sync v t) s"
  using nvs_write_stores [OF assms] stored_same [OF nvs_values_kept(2) [OF assms]]
  by (simp add: update_record_def persist_record_def in_sync_def wp_simps split: prod.splits)

lemma in_sync_same:
  "same_values (v (cs_world s)) (v (cs_world t)) \<Longrightarrow> cs_current t = cs_current s \<Longrightarrow>
   in_sync v t \<longleftrightarrow> in_sync v s"
  by (simp add: in_sync_def stored_same)

lemma publish_candidate_in_sync:
  assumes "nvs_laws E v"
  shows "wp (publish_candidate E c) (\<lambda>e t. e = ESP_OK \<longrightarrow> in_sync v t) s"
  unfolding publish_candidate_def clear_candidate_record_def unlock_config_store_def wp_simps
  by (rule wp_mono [OF update_record_in_sync [OF assms]])
    (auto simp: in_sync_def stored_same [OF nvs_values_kept(6) [OF assms]] split: prod.splits)

lemma lock_config_store_in_sync:
  assumes "nvs_laws E v"
  shows "wp (lock_config_store E) (\<lambda>e t. in_sync v t = in_sync v s \<and> cs_current t = cs_current s) s"
  using stored_same [OF nvs_values_kept(5) [OF assms]]
  by (auto simp: lock_config_store_def in_sync_def wp_simps split: prod.splits)

lemma unlock_with_in_sync:
  assumes "nvs_laws E v"
  shows "wp (unlock_with E r) (\<lambda>e t. in_sync v t = in_sync v s) s"
  using stored_same [OF nvs_values_kept(6) [OF assms]]
  by (auto simp: unlock_with_def unlock_config_store_def in_sync_def wp_simps split: prod.splits)

lemma locked_write_in_sync:
  assumes "nvs_laws E v" "in_sync v s"
  shows "wp (locked_write E unchanged change) (\<lambda>e t. e = ESP_OK \<longrightarrow> in_sync v t) s"
  unfolding locked_write_def wp_simps
  by (rule wp_mono [OF lock_config_store_in_sync [OF assms(1)]])
    (use assms(2) in \<open>auto intro: publish_candidate_in_sync [OF assms(1)]
      wp_mono [OF unlock_with_in_sync [OF assms(1)]]\<close>)

lemma clear_in_sync:
  assumes "nvs_laws E v" "in_sync v s"
  shows "wp (airdap_config_store_clear E flags) (\<lambda>e t. e = ESP_OK \<longrightarrow> in_sync v t) s"
proof -
  have wiped: "in_sync v (t\<lparr>cs_candidate := c\<rparr>) = in_sync v t" for t c
    by (simp add: in_sync_def)
  show ?thesis
    unfolding airdap_config_store_clear_def clear_candidate_record_def wp_simps Let_def
    by (intro conjI impI, simp, rule wp_mono [OF lock_config_store_in_sync [OF assms(1)]])
      (use assms(2) in \<open>auto intro: publish_candidate_in_sync [OF assms(1)]
        wp_mono [OF unlock_with_in_sync [OF assms(1)]] simp: wiped\<close>)
qed

lemma config_exec_in_sync:
  assumes "nvs_laws E v" "in_sync v s"
  shows "wp (config_exec E call) (\<lambda>e t. e = ESP_OK \<longrightarrow> in_sync v t) s"
  using assms clear_in_sync [OF assms] locked_write_in_sync [OF assms]
  by (cases call rule: spec_refuses.cases)
    (auto simp: airdap_config_store_set_friendly_name_def [of _ None] set_friendly_name_locked
      set_provisioned_locked set_blob_locked commit_provisioning_locked wp_simps)

text \<open>The store as a restart leaves it: the static variables are zero.\<close>

definition boot :: "'h \<Rightarrow> 'h config_store" where
  "boot h = \<lparr>cs_current = zero_record, cs_candidate = zero_record, cs_mutex = False,
     cs_initialized = False, cs_world = h\<rparr>"

lemma zero_record_shape: "record_shape zero_record"
  by (simp add: record_shape_def zero_record_def zero_blob_def)

lemma overlay_record: "record_shape r \<Longrightarrow> record_shape old \<Longrightarrow> overlay (record_bytes r) old = r"
  by (simp add: overlay_def record_bytes_length record_at_bytes)

lemma load_stored_reads:
  assumes "nvs_laws E v" "nvs_works E v" "record_valid r" "record_shape old"
    and handle: "vw_handles (v (cs_world s)) hn = Some ''airdap''"
    and st: "stored (v (cs_world s)) ''airdap'' ''config'' (record_bytes r)"
  shows "wp (load_stored E hn old)
    (\<lambda>res t. res = (ESP_OK, r) \<and> same_store s t \<and> same_values (v (cs_world s)) (v (cs_world t))) s"
proof -
  have len: "length (record_bytes r) = sizeof_record"
    using assms(3) by (simp add: record_valid_def record_bytes_length)
  obtain data h1 where g1: "nv_get_blob E hn ''config'' None (cs_world s) = ((ESP_OK, data, sizeof_record), h1)"
    using assms(2) handle st len unfolding nvs_works_def stored_def by (metis prod.collapse)
  note k1 = nvs_values_kept(3,4) [OF assms(1) g1]
  obtain h2 where g2: "nv_get_blob E hn ''config'' (Some sizeof_record) h1 =
      ((ESP_OK, record_bytes r, sizeof_record), h2)"
    using assms(2) handle st len k1 unfolding nvs_works_def stored_def same_values_def
    by (metis order_refl prod.collapse)
  note k2 = nvs_values_kept(3) [OF assms(1) g2]
  show ?thesis
    using g1 g2 k1 k2 assms(3,4)
    by (simp add: load_stored_def wp_simps Let_def record_valid_def overlay_record same_store_def
      same_values_def)
qed

lemma init_restores:
  assumes "nvs_laws E v" "nvs_works E v" "record_valid r"
    and st: "stored (v h) ''airdap'' ''config'' (record_bytes r)"
  shows "wp (airdap_config_store_init E)
    (\<lambda>e u. e = ESP_OK \<and> cs_current u = r \<and> cs_candidate u = zero_record \<and> cs_initialized u \<and>
      cs_mutex u \<and> in_sync v u) (boot h)"
proof -
  obtain h1 where g1: "nv_flash_init E h = (ESP_OK, h1)"
    using assms(2) unfolding nvs_works_def by (metis prod.collapse)
  obtain hn h2 where g2: "nv_open E ''airdap'' NVS_READWRITE_PURGE h1 = ((ESP_OK, hn), h2)"
    using assms(2) unfolding nvs_works_def by (metis prod.collapse)
  have st2: "stored (v h2) ''airdap'' ''config'' (record_bytes r)"
    using st nvs_values_kept(1) [OF assms(1) g2] nvs_values_kept(8) [OF assms(1) g1]
    by (simp add: stored_same)
  let ?s = "(boot h)\<lparr>cs_world := h2\<rparr>"
  have load: "wp (load_stored E hn zero_record) (\<lambda>res t. res = (ESP_OK, r) \<and> same_store ?s t \<and>
      same_values (v h2) (v (cs_world t))) ?s"
    using load_stored_reads [OF assms(1-3) zero_record_shape, of ?s hn] st2
      nvs_open_handle [OF assms(1) g2] by simp
  have rest: "wp (ncall (nv_close E hn)) (\<lambda>_ t. cs_candidate t = zero_record \<and>
      stored (v (cs_world t)) ''airdap'' ''config'' (record_bytes r)) t"
    if "same_store ?s t" "same_values (v h2) (v (cs_world t))" for t
    using that(1) st2 stored_same [OF that(2)] stored_same [OF nvs_values_kept(2) [OF assms(1)]]
    by (simp add: wp_simps boot_def same_store_def split: prod.splits)
  have created: "b" if "nv_create_mutex E h = (b, h')" for b h h'
    using assms(2) that by (metis fst_conv nvs_works_def)
  have "wp (airdap_config_store_load_record E zero_record) (\<lambda>res t. res = (ESP_OK, r) \<and>
      cs_candidate t = zero_record \<and>
      stored (v (cs_world t)) ''airdap'' ''config'' (record_bytes r)) ((boot h)\<lparr>cs_world := h1\<rparr>)"
    using g2 by (simp add: airdap_config_store_load_record_def wp_simps)
      (rule wp_mono [OF load], use rest in \<open>auto simp: wp_simps split: prod.splits\<close>)
  note loaded = wp_mono [OF this]
  show ?thesis
    using g1 by (simp add: airdap_config_store_init_def initialize_nvs_def wp_simps)
      (simp add: boot_def, rule loaded [unfolded boot_def, simplified],
       use created in \<open>auto simp: wp_simps in_sync_def
         stored_same [OF nvs_values_kept(7) [OF assms(1)]] split: prod.splits\<close>)
qed

text \<open>A sequence of calls that all succeed.\<close>

fun config_run :: "'h nvs_env \<Rightarrow> config_call list \<Rightarrow> 'h config_store \<Rightarrow> 'h config_store option" where
  "config_run E [] s = Some s"
| "config_run E (call # calls) s =
     (case run_state (config_exec E call) s of
        (r, t) \<Rightarrow> if r = ESP_OK then config_run E calls t else None)"

lemma config_run_in_sync:
  assumes "nvs_laws E v"
  shows "config_run E calls s = Some t \<Longrightarrow> in_sync v s \<Longrightarrow> record_valid (cs_current s) \<Longrightarrow>
    list_all call_readable calls \<Longrightarrow>
    in_sync v t \<and> record_valid (cs_current t) \<and>
    spec_of (cs_current t) = fold spec_step calls (spec_of (cs_current s))"
proof (induction calls arbitrary: s)
  case (Cons call calls)
  from Cons.prems(1) obtain u where u: "run_state (config_exec E call) s = (ESP_OK, u)"
    "config_run E calls u = Some t"
    by (auto split: prod.splits if_splits)
  have none: "spec_refuses call = None"
    using u(1) config_exec_refuses [of call _ E s] spec_refuses_error [of call]
    by (cases "spec_refuses call") auto
  have "call_outcome call s ESP_OK u"
    using wpD [OF config_exec_outcome [of s call E] u(1)] Cons.prems none by simp
  moreover have "in_sync v u"
    using wpD [OF config_exec_in_sync [OF assms Cons.prems(2)] u(1)] by simp
  ultimately show ?case
    using Cons.IH [OF u(2)] Cons.prems(4) by (simp add: call_outcome_def)
qed simp

section \<open>A store on the sample platform\<close>

definition sample_store :: "airdap_config_store_record \<Rightarrow> nvs_view config_store" where
  "sample_store r = \<lparr>cs_current = r, cs_candidate = zero_record, cs_mutex = True,
     cs_initialized = True,
     cs_world = \<lparr>vw_content = [(''airdap'', ''config'') \<mapsto> record_bytes r],
       vw_durable = [(''airdap'', ''config'') \<mapsto> record_bytes r], vw_handles = [1 \<mapsto> ''airdap'']\<rparr>\<rparr>"

definition provisioned_record :: airdap_config_store_record where
  "provisioned_record = make_default_record\<lparr>cr_provisioned := 1\<rparr>"

lemmas config_eval = run_state_bind lock_config_store_def unlock_config_store_def unlock_with_def
  publish_candidate_def update_record_def persist_record_def clear_candidate_record_def
  set_candidate_def set_current_def ncall_def whenever_def memory_nvs_eval

lemma default_not_provisioned: "cr_provisioned make_default_record = 0"
  by (simp add: make_default_record_def zero_record_def)

lemma sample_store_sync: "in_sync id (sample_store r)"
  by (simp add: in_sync_def sample_store_def stored_def)

lemma sample_provision:
  "run_state (config_exec memory_nvs (Set_provisioned True)) (sample_store make_default_record) =
     (ESP_OK, sample_store provisioned_record)"
  by (simp add: set_provisioned_locked locked_write_def sample_store_def config_eval
    default_not_provisioned provisioned_record_def)

lemma sample_record_valid: "record_valid provisioned_record"
  unfolding provisioned_record_def by (rule set_provisioned_valid [OF default_record_valid]) simp

section \<open>Properties\<close>

text \<open>C37. Every writer of the configuration store refines its abstract specification: from a valid
  record, a call with bad arguments returns the specified error and changes nothing; any other call
  leaves a valid record that is the specified new configuration when it returns ESP_OK and is
  unchanged, byte for byte, when it returns an error, for every behaviour of the storage and
  the mutex below. The candidate copy (which holds credentials) is wiped again in each case.\<close>

theorem config_call_refines:
  assumes "record_valid (cs_current s)" "call_readable call" "cs_candidate s = zero_record"
    and "run_state (config_exec E call) s = (r, t)"
  shows "record_valid (cs_current t) \<and> cs_candidate t = zero_record \<and>
    (case spec_refuses call of
       Some e \<Rightarrow> r = e \<and> t = s
     | None \<Rightarrow> if r = ESP_OK then spec_of (cs_current t) = spec_step call (spec_of (cs_current s))
               else cs_current t = cs_current s)"
proof (cases "spec_refuses call")
  case None
  with assms show ?thesis
    using wpD [OF config_exec_outcome [OF assms(1,2) None, of E] assms(4)]
    by (simp add: call_outcome_def)
next
  case (Some e)
  then show ?thesis
    using assms config_exec_refuses [OF Some, of E s] by simp
qed

theorem config_call_refines_witness:
  "record_valid (cs_current (sample_store provisioned_record)) \<and>
   spec_of (cs_current (sample_store provisioned_record)) =
     spec_step (Set_provisioned True) (spec_of (cs_current (sample_store make_default_record)))"
  using config_call_refines [OF _ _ _ sample_provision] default_record_valid
  by (simp add: sample_store_def)

text \<open>C38. A configuration that was set survives a restart: on a storage that keeps what its
  documentation promises, after any sequence of successful calls, restarting the device (static
  variables zero, readable storage equal to the durable one) and initialising the store again
  succeeds and yields the same record, which is the specified effect of the calls.\<close>

theorem config_survives_restart:
  assumes "nvs_laws E v" "nvs_works E v" "record_valid (cs_current s)" "in_sync v s"
    and "list_all call_readable calls" "config_run E calls s = Some t"
    and "vw_content (v h) = vw_durable (v (cs_world t))" "vw_durable (v h) = vw_durable (v (cs_world t))"
  shows "\<exists>u. run_state (airdap_config_store_init E) (boot h) = (ESP_OK, u) \<and>
    cs_current u = cs_current t \<and> in_sync v u \<and>
    spec_of (cs_current u) = fold spec_step calls (spec_of (cs_current s))"
proof -
  note run = config_run_in_sync [OF assms(1,6,4,3,5)]
  then have "stored (v h) ''airdap'' ''config'' (record_bytes (cs_current t))"
    using assms(7,8) by (simp add: in_sync_def stored_def)
  from init_restores [OF assms(1,2) _ this] run show ?thesis
    by (auto simp: wp_def split: prod.splits)
qed

theorem config_survives_restart_witness:
  "\<exists>u. run_state (airdap_config_store_init memory_nvs) (boot (cs_world (sample_store provisioned_record))) =
     (ESP_OK, u) \<and> cs_current u = provisioned_record \<and> in_sync id u \<and> sp_provisioned (spec_of (cs_current u))"
  using config_survives_restart [OF memory_nvs_laws memory_nvs_works, of "sample_store make_default_record"
      "[Set_provisioned True]" "sample_store provisioned_record" "cs_world (sample_store provisioned_record)"]
    sample_provision sample_store_sync [of make_default_record] default_record_valid
  by (auto simp: sample_store_def provisioned_record_def)

text \<open>A blob that was stored is read back: after a successful set of a slot, a get of that
  slot with a large enough buffer returns ESP_OK, the stored length and the stored bytes, and
  writes nothing else of the buffer; with a smaller buffer it reports the length that is needed and
  writes nothing.\<close>

theorem config_blob_readback:
  assumes "record_valid (cs_current s)" "n \<le> length data"
    and "run_state (airdap_config_store_set_blob E slot (Some data) n) s = (ESP_OK, t)"
    and "cs_initialized t" "cs_mutex t" "fst (nv_take_mutex E (cs_world t))" "cap \<le> length out"
  shows "fst (run_state (airdap_config_store_get_blob E slot (Some out) (Some cap)) t) =
    (if cap < n then (ESP_ERR_INVALID_SIZE, Some out, Some n)
     else (ESP_OK, Some (take n data @ drop n out), Some n))"
proof -
  have args: "slot_is_valid slot" "n \<noteq> 0" "n \<le> AIRDAP_CONFIG_BLOB_MAX_SIZE"
    using assms(3) by (auto simp: set_blob_locked split: if_splits)
  let ?b = "cr_slots (cs_current t) ! nat slot"
  have outcome: "call_outcome (Set_blob slot (Some data) n) s ESP_OK t"
    using wpD [OF set_blob_outcome [OF assms(1) args(1) assms(2) args(2,3)] assms(3)] .
  then have valid: "record_valid (cs_current t)"
    and spec: "spec_of (cs_current t) = spec_step (Set_blob slot (Some data) n) (spec_of (cs_current s))"
    by (simp_all add: call_outcome_def)
  have slot: "nat slot < AIRDAP_CONFIG_SLOT_COUNT"
    using args(1) by (simp add: slot_nat)
  have contents: "blob_contents ?b = take n data"
    using slot arg_cong [OF spec, of "\<lambda>c. sp_blob c (nat slot)"] by simp
  have "?b \<in> set (cr_slots (cs_current t))"
    using slot valid by (simp add: record_valid_simps)
  then have size: "length (bl_data ?b) = AIRDAP_CONFIG_BLOB_MAX_SIZE"
    "unat (bl_length ?b) \<le> AIRDAP_CONFIG_BLOB_MAX_SIZE"
    using valid by (simp_all add: record_valid_simps)
  have "length (blob_contents ?b) = n"
    using assms(2) by (simp add: contents)
  with size have len: "unat (bl_length ?b) = n"
    by (simp add: blob_contents_def)
  with contents have data: "take n (bl_data ?b) = take n data"
    by (simp add: blob_contents_def)
  obtain h where "nv_take_mutex E (cs_world t) = (True, h)"
    using assms(6) by (metis prod.collapse)
  then show ?thesis
    using args assms(4,5,7) len data size
    by (auto simp: airdap_config_store_get_blob_def config_eval wr_bytes_def split: prod.splits)
qed

definition sample_blob_store :: "nvs_view config_store" where
  "sample_blob_store = snd (run_state (config_exec memory_nvs (Set_blob 1 (Some [5, 6]) 2))
     (sample_store make_default_record))"

lemma sample_set_blob:
  "run_state (airdap_config_store_set_blob memory_nvs 1 (Some [5, 6]) 2)
     (sample_store make_default_record) = (ESP_OK, sample_blob_store) \<and>
   cs_initialized sample_blob_store \<and> cs_mutex sample_blob_store"
proof -
  have "\<not> same_blob (cr_slots make_default_record ! 1) [5, 6] 2"
    by (simp add: make_default_record_def zero_record_def zero_blob_def same_blob_def config_sizes)
  then show ?thesis
    by (simp add: sample_blob_store_def set_blob_locked locked_write_def sample_store_def config_eval
      slot_is_valid_def config_sizes)
qed

theorem config_blob_readback_witness:
  "fst (run_state (airdap_config_store_get_blob memory_nvs 1 (Some [0, 0, 9]) (Some 3)) sample_blob_store) =
     (ESP_OK, Some [5, 6, 9], Some 2)"
  using config_blob_readback [of "sample_store make_default_record" 2 "[5, 6]" memory_nvs 1
      sample_blob_store 3 "[0, 0, 9]"] sample_set_blob default_record_valid
  by (simp add: sample_store_def memory_nvs_def)

section \<open>A success that is not durable\<close>

text \<open>
  When a commit reports a failure after the value has reached the flash, the record in RAM keeps the
  old value. A later call that asks for that old value finds nothing to change, writes nothing and
  returns ESP_OK, although the flash holds the other value.
\<close>

definition failing_commit :: "nvs_view nvs_env" where
  "failing_commit = memory_nvs\<lparr>nv_commit := (\<lambda>hn h. (ESP_FAIL, h\<lparr>vw_durable := vw_content h\<rparr>))\<rparr>"

lemma config_success_not_durable:
  defines "s \<equiv> sample_store make_default_record"
  defines "t \<equiv> snd (run_state (config_exec failing_commit (Set_provisioned True)) s)"
  shows "nvs_laws failing_commit id \<and> in_sync id s \<and>
    fst (run_state (config_exec failing_commit (Set_provisioned False)) t) = ESP_OK \<and>
    vw_durable (cs_world (snd (run_state (config_exec failing_commit (Set_provisioned False)) t)))
      (''airdap'', ''config'') = Some (record_bytes provisioned_record)"
proof (intro conjI)
  show "nvs_laws failing_commit id"
    unfolding nvs_laws_def failing_commit_def memory_nvs_eval same_values_def
    by (auto split: option.splits if_splits)
  show "in_sync id s"
    by (simp add: s_def sample_store_sync)
qed (simp_all add: s_def t_def failing_commit_def set_provisioned_locked
    locked_write_def sample_store_def config_eval default_not_provisioned provisioned_record_def)

end
