(* ===== verification/Button_Config.thy ===== *)
theory Button_Config
  imports Nvs
begin

text \<open>
  The button bindings, \<^verbatim>\<open>firmware/components/button_config/button_config.c\<close>: one command for each of
  five gestures, packed four bits each into one atomic word that the button task reads without a
  lock, and written through to NVS under a mutex. Old records are migrated when they are loaded.
\<close>

section \<open>Data\<close>

definition AIRDAP_BUTTON_GESTURE_COUNT :: nat where "AIRDAP_BUTTON_GESTURE_COUNT = 5"
definition AIRDAP_BUTTON_COMMAND_COUNT :: nat where "AIRDAP_BUTTON_COMMAND_COUNT = 13"

abbreviation (input) AIRDAP_BUTTON_GESTURE_DOUBLE :: nat where "AIRDAP_BUTTON_GESTURE_DOUBLE \<equiv> 1"
abbreviation (input) AIRDAP_BUTTON_COMMAND_NONE :: u8 where "AIRDAP_BUTTON_COMMAND_NONE \<equiv> 0"
abbreviation (input) AIRDAP_BUTTON_COMMAND_DAP_TOGGLE :: u8 where "AIRDAP_BUTTON_COMMAND_DAP_TOGGLE \<equiv> 1"
abbreviation (input) AIRDAP_BUTTON_COMMAND_PROVISIONING :: u8 where
  "AIRDAP_BUTTON_COMMAND_PROVISIONING \<equiv> 2"
abbreviation (input) AIRDAP_BUTTON_COMMAND_CLEAR_NETWORK_RESTART :: u8 where
  "AIRDAP_BUTTON_COMMAND_CLEAR_NETWORK_RESTART \<equiv> 3"
abbreviation (input) AIRDAP_BUTTON_COMMAND_DAP_NETWORK_AUTO_TOGGLE :: u8 where
  "AIRDAP_BUTTON_COMMAND_DAP_NETWORK_AUTO_TOGGLE \<equiv> 12"
abbreviation (input) RECORD_VERSION :: u8 where "RECORD_VERSION \<equiv> 2"

definition RECORD_SIZE :: nat where "RECORD_SIZE = 1 + AIRDAP_BUTTON_GESTURE_COUNT"
definition INITIALIZED :: u32 where "INITIALIZED = push_bit 31 1"

definition default_commands :: bytes where
  "default_commands = [AIRDAP_BUTTON_COMMAND_NONE, AIRDAP_BUTTON_COMMAND_DAP_NETWORK_AUTO_TOGGLE,
     AIRDAP_BUTTON_COMMAND_PROVISIONING, AIRDAP_BUTTON_COMMAND_NONE,
     AIRDAP_BUTTON_COMMAND_CLEAR_NETWORK_RESTART]"

definition command_names :: "string list" where
  "command_names = [''none'', ''dap-toggle'', ''provisioning'', ''clear-network-restart'',
     ''dap-usb'', ''dap-network'', ''dap-auto'', ''restart'', ''target-reset'', ''wifi-toggle'',
     ''target-power-toggle'', ''target-power-cycle'', ''dap-network-auto-toggle'']"

definition gesture_names :: "string list" where
  "gesture_names = [''single'', ''double'', ''hold2'', ''hold6'', ''hold10'']"

record 'h button_config =
  bc_bindings :: u32
  bc_storage_ready :: bool
  bc_mutex :: bool
  bc_world :: 'h

section \<open>Operations\<close>

definition airdap_button_command_name :: "int \<Rightarrow> string option" where
  "airdap_button_command_name command =
     (if command \<ge> 0 \<and> command < int AIRDAP_BUTTON_COMMAND_COUNT
      then Some (command_names ! nat command) else None)"

definition airdap_button_gesture_name :: "int \<Rightarrow> string option" where
  "airdap_button_gesture_name gesture =
     (if gesture \<ge> 0 \<and> gesture < int AIRDAP_BUTTON_GESTURE_COUNT
      then Some (gesture_names ! nat gesture) else None)"

definition pack :: "bytes \<Rightarrow> u32" where
  "pack commands = fold (\<lambda>i word. word OR push_bit (4 * i) (ucast (commands ! i)))
     [0..<AIRDAP_BUTTON_GESTURE_COUNT] INITIALIZED"

text \<open>The loop of \<^verbatim>\<open>airdap_button_config_get\<close> on the loaded word.\<close>

definition unpack :: "u32 \<Rightarrow> bytes" where
  "unpack word = map (\<lambda>i. ucast (drop_bit (4 * i) word AND 0xF)) [0..<AIRDAP_BUTTON_GESTURE_COUNT]"

definition airdap_button_config_get ::
    "bool \<Rightarrow> ('h button_config, esp_err \<times> bytes option) state" where
  "airdap_button_config_get commands =
     (if \<not> commands then State_Monad.return (ESP_ERR_INVALID_ARG, None)
      else do {
        word \<leftarrow> reads bc_bindings;
        State_Monad.return
          (if word AND INITIALIZED = 0 then (ESP_ERR_INVALID_STATE, None)
           else (ESP_OK, Some (unpack word))) })"

definition bcall :: "('h \<Rightarrow> 'r \<times> 'h) \<Rightarrow> ('h button_config, 'r) state" where
  "bcall f = State (\<lambda>s. case f (bc_world s) of (r, h) \<Rightarrow> (r, s\<lparr>bc_world := h\<rparr>))"

definition set_bindings :: "u32 \<Rightarrow> ('h button_config, unit) state" where
  "set_bindings word = updates (\<lambda>s. s\<lparr>bc_bindings := word\<rparr>)"

definition initialization_result :: "esp_err \<Rightarrow> ('h button_config, esp_err) state" where
  "initialization_result error = do {
     updates (\<lambda>s. s\<lparr>bc_storage_ready := True\<rparr>);
     State_Monad.return error }"

text \<open>Writing a record and committing it, on an open handle.\<close>

definition write_bindings :: "'h nvs_env \<Rightarrow> u32 \<Rightarrow> bytes \<Rightarrow> ('h button_config, esp_err) state" where
  "write_bindings E handle bindings_record = do {
     error \<leftarrow> bcall (nv_set_blob E handle ''bindings'' bindings_record);
     if error = ESP_OK then bcall (nv_commit E handle) else State_Monad.return error }"

text \<open>The checks of \<^verbatim>\<open>airdap_button_config_init\<close> on what \<^verbatim>\<open>nvs_get_blob\<close> left in the record.\<close>

definition checked_record :: "esp_err \<Rightarrow> bytes \<Rightarrow> nat \<Rightarrow> esp_err \<times> bytes" where
  "checked_record error data stored_size =
     (let filled = take RECORD_SIZE (data @ drop (length data) (RECORD_VERSION # replicate AIRDAP_BUTTON_GESTURE_COUNT 0));
          (error, filled) =
            (if error = ESP_ERR_NVS_NOT_FOUND then (ESP_OK, hd filled # default_commands)
             else if error = ESP_OK then
               (if stored_size \<noteq> RECORD_SIZE then ESP_ERR_INVALID_SIZE
                else if filled ! 0 \<noteq> 1 \<and> filled ! 0 \<noteq> RECORD_VERSION then ESP_ERR_INVALID_VERSION
                else ESP_OK, filled)
             else (error, filled))
      in (if error = ESP_OK \<and> list_ex (\<lambda>c. unat c \<ge> AIRDAP_BUTTON_COMMAND_COUNT) (tl filled)
          then ESP_ERR_INVALID_ARG else error, filled))"

definition migrated :: "bytes \<Rightarrow> bytes" where
  "migrated r =
     (let r = (if r ! (1 + AIRDAP_BUTTON_GESTURE_DOUBLE) = AIRDAP_BUTTON_COMMAND_DAP_TOGGLE
               then r[1 + AIRDAP_BUTTON_GESTURE_DOUBLE := AIRDAP_BUTTON_COMMAND_DAP_NETWORK_AUTO_TOGGLE]
               else r)
      in r[0 := RECORD_VERSION])"

definition load_bindings ::
    "'h nvs_env \<Rightarrow> u32 \<Rightarrow> ('h button_config, esp_err \<times> bytes) state" where
  "load_bindings E handle = do {
     (error, data, stored_size) \<leftarrow> bcall (nv_get_blob E handle ''bindings'' (Some RECORD_SIZE));
     let (error, r) = checked_record error data stored_size;
     if error = ESP_OK \<and> r ! 0 = 1 then do {
       let r = migrated r;
       error \<leftarrow> write_bindings E handle r;
       State_Monad.return (error, r) }
     else State_Monad.return (error, r) }"

definition airdap_button_config_init :: "'h nvs_env \<Rightarrow> ('h button_config, esp_err) state" where
  "airdap_button_config_init E = do {
     word \<leftarrow> reads bc_bindings;
     if word AND INITIALIZED \<noteq> 0 then State_Monad.return ESP_ERR_INVALID_STATE
     else do {
       have_mutex \<leftarrow> reads bc_mutex;
       whenever (\<not> have_mutex) (do {
         created \<leftarrow> bcall (nv_create_mutex E);
         updates (\<lambda>s. s\<lparr>bc_mutex := created\<rparr>) });
       have_mutex \<leftarrow> reads bc_mutex;
       if \<not> have_mutex then State_Monad.return ESP_ERR_NO_MEM
       else do {
         (error, handle) \<leftarrow> bcall (nv_open E ''airdap_btn'' NVS_READWRITE);
         if error \<noteq> ESP_OK then initialization_result error
         else do {
           (error, r) \<leftarrow> load_bindings E handle;
           bcall (nv_close E handle);
           if error \<noteq> ESP_OK then initialization_result error
           else do {
             set_bindings (pack (tl r));
             initialization_result ESP_OK } } } } }"

text \<open>Storing new bindings, then publishing them.\<close>

definition store_bindings :: "'h nvs_env \<Rightarrow> bytes \<Rightarrow> ('h button_config, esp_err) state" where
  "store_bindings E commands = do {
     (error, handle) \<leftarrow> bcall (nv_open E ''airdap_btn'' NVS_READWRITE);
     error \<leftarrow> (if error = ESP_OK then do {
         error \<leftarrow> write_bindings E handle (RECORD_VERSION # commands);
         bcall (nv_close E handle);
         State_Monad.return error }
       else State_Monad.return error);
     whenever (error = ESP_OK) (set_bindings (pack commands));
     State_Monad.return error }"

definition change_bindings :: "'h nvs_env \<Rightarrow> bytes \<Rightarrow> ('h button_config, esp_err) state" where
  "change_bindings E commands = do {
     word \<leftarrow> reads bc_bindings;
     if pack commands \<noteq> word then store_bindings E commands
     else State_Monad.return ESP_OK }"

definition button_update :: "'h nvs_env \<Rightarrow> int \<Rightarrow> u8 \<Rightarrow> ('h button_config, esp_err) state" where
  "button_update E gesture command = do {
     (ready, word) \<leftarrow> reads (\<lambda>s. (bc_storage_ready s, bc_bindings s));
     if \<not> ready \<or> gesture \<ge> 0 \<and> word AND INITIALIZED = 0
     then State_Monad.return ESP_ERR_INVALID_STATE
     else do {
       taken \<leftarrow> bcall (nv_take_mutex E);
       if \<not> taken then State_Monad.return ESP_FAIL
       else do {
         (error, commands) \<leftarrow> (if gesture < 0 then State_Monad.return (ESP_OK, Some default_commands)
                              else airdap_button_config_get True);
         error \<leftarrow> (if error = ESP_OK
           then change_bindings E (if gesture < 0 then default_commands
                                   else (the commands)[nat gesture := command])
           else State_Monad.return error);
         bcall (nv_give_mutex E);
         State_Monad.return error } } }"

definition airdap_button_config_set :: "'h nvs_env \<Rightarrow> int \<Rightarrow> int \<Rightarrow> ('h button_config, esp_err) state" where
  "airdap_button_config_set E gesture command =
     (if airdap_button_gesture_name gesture = None \<or> airdap_button_command_name command = None
      then State_Monad.return ESP_ERR_INVALID_ARG
      else button_update E gesture (of_int command))"

definition airdap_button_config_defaults :: "'h nvs_env \<Rightarrow> ('h button_config, esp_err) state" where
  "airdap_button_config_defaults E = button_update E (- 1) AIRDAP_BUTTON_COMMAND_NONE"

section \<open>The packed word\<close>

definition commands_ok :: "bytes \<Rightarrow> bool" where
  "commands_ok cs \<longleftrightarrow> length cs = AIRDAP_BUTTON_GESTURE_COUNT \<and>
     (\<forall>c \<in> set cs. unat c < AIRDAP_BUTTON_COMMAND_COUNT)"

lemmas button_sizes = AIRDAP_BUTTON_GESTURE_COUNT_def AIRDAP_BUTTON_COMMAND_COUNT_def RECORD_SIZE_def

lemma bit_pack_fold:
  "bit (fold (\<lambda>i word. word OR push_bit (4 * i) (ucast (commands ! i))) xs (w :: u32)) m \<longleftrightarrow>
   bit w m \<or> m < 32 \<and> (\<exists>i \<in> set xs. 4 * i \<le> m \<and> bit ((commands ! i) :: u8) (m - 4 * i))"
  by (induction xs arbitrary: w) (auto simp: bit_simps)

lemma bit_INITIALIZED: "bit INITIALIZED n \<longleftrightarrow> n = 31"
  by (rule bit_of_flag) (simp_all add: INITIALIZED_def)

lemma bit_pack:
  "bit (pack cs) m \<longleftrightarrow> m = 31 \<or> m < 32 \<and> (\<exists>i < AIRDAP_BUTTON_GESTURE_COUNT. 4 * i \<le> m \<and> bit (cs ! i) (m - 4 * i))"
  unfolding pack_def bit_pack_fold bit_INITIALIZED by auto

lemma pack_initialized: "pack cs AND INITIALIZED \<noteq> 0"
  unfolding INITIALIZED_def bit_iff_and_push_bit_not_eq_0 [symmetric] by (simp add: bit_pack)

lemma small_bits:
  assumes "unat (c :: u8) < AIRDAP_BUTTON_COMMAND_COUNT" "bit c n" shows "n < 4"
proof -
  have "take_bit 4 (unat c) = unat c"
    using assms(1) by (simp add: take_bit_nat_eq_self button_sizes)
  moreover have "bit (unat c) n"
    using assms(2) by (simp add: bit_unsigned_iff)
  ultimately show ?thesis
    by (metis bit_take_bit_iff)
qed

lemma unpack_pack:
  assumes "commands_ok cs" shows "unpack (pack cs) = cs"
proof (rule nth_equalityI)
  show "length (unpack (pack cs)) = length cs"
    using assms by (simp add: unpack_def commands_ok_def)
  fix i assume "i < length (unpack (pack cs))"
  then have i: "i < AIRDAP_BUTTON_GESTURE_COUNT"
    by (simp add: unpack_def)
  have small: "bit (cs ! j) n \<Longrightarrow> n < 4" if "j < AIRDAP_BUTTON_GESTURE_COUNT" for j n
    using assms that by (intro small_bits) (auto simp: commands_ok_def)
  have only: "j = i" if "j < AIRDAP_BUTTON_GESTURE_COUNT" "4 * j \<le> 4 * i + n" "n < 4"
    "bit (cs ! j) (4 * i + n - 4 * j)" for j n
    using small [OF that(1,4)] that(2,3) by linarith
  have mask: "(0xF :: u32) = mask 4"
    by (simp add: mask_eq_exp_minus_1)
  have "bit (ucast (drop_bit (4 * i) (pack cs) AND 0xF) :: u8) n = bit (cs ! i) n" if "n < 8" for n
  proof (cases "n < 4")
    case True
    then have "4 * i + n < 31"
      using i by (simp add: button_sizes)
    moreover have "(\<exists>j < AIRDAP_BUTTON_GESTURE_COUNT. 4 * j \<le> 4 * i + n \<and> bit (cs ! j) (4 * i + n - 4 * j)) \<longleftrightarrow>
        bit (cs ! i) n"
      using True only [of _ n] i by (auto intro!: exI [of _ i] dest: only)
    ultimately show ?thesis
      unfolding mask using True by (simp add: bit_simps bit_pack)
  next
    case False
    then show ?thesis
      unfolding mask using small [OF i, of n] by (auto simp: bit_simps)
  qed
  then have "ucast (drop_bit (4 * i) (pack cs) AND 0xF) = cs ! i"
    by (intro bit_word_eqI) simp
  then show "unpack (pack cs) ! i = cs ! i"
    using i by (simp add: unpack_def)
qed

section \<open>What an operation does to the bindings\<close>

lemma wp_bcall [wp_simps]:
  "wp (bcall f) Q s = (case f (bc_world s) of (r, h) \<Rightarrow> Q r (s\<lparr>bc_world := h\<rparr>))"
  by (simp add: bcall_def wp_def split: prod.splits)

lemma wp_set_bindings [wp_simps]: "wp (set_bindings w) Q s = Q () (s\<lparr>bc_bindings := w\<rparr>)"
  by (simp add: set_bindings_def wp_simps)

lemma wp_button_get [wp_simps]:
  "wp (airdap_button_config_get True) Q s =
     Q (if bc_bindings s AND INITIALIZED = 0 then (ESP_ERR_INVALID_STATE, None)
        else (ESP_OK, Some (unpack (bc_bindings s)))) s"
  by (simp add: airdap_button_config_get_def wp_simps)

lemma defaults_ok: "commands_ok default_commands"
  by (simp add: commands_ok_def default_commands_def button_sizes)

text \<open>The word is empty, or it packs one real command for each gesture.\<close>

definition bindings_ok :: "u32 \<Rightarrow> bool" where
  "bindings_ok word \<longleftrightarrow> word = 0 \<or> (\<exists>cs. commands_ok cs \<and> word = pack cs)"

lemma bindings_unpack:
  assumes "bindings_ok word" "word AND INITIALIZED \<noteq> 0"
  shows "commands_ok (unpack word) \<and> pack (unpack word) = word"
  using assms unpack_pack unfolding bindings_ok_def by fastforce

lemma store_bindings_wp:
  "wp (store_bindings E cs)
     (\<lambda>r t. bc_bindings t = (if r = ESP_OK then pack cs else bc_bindings s) \<and>
       bc_storage_ready t = bc_storage_ready s \<and> bc_mutex t = bc_mutex s) s"
  by (auto simp: store_bindings_def write_bindings_def wp_simps split: prod.splits)

text \<open>What a change of the bindings amounts to: the new commands, or the reason it is refused.\<close>

definition update_target :: "int \<Rightarrow> u8 \<Rightarrow> u32 \<Rightarrow> bytes" where
  "update_target gesture command word =
     (if gesture < 0 then default_commands else (unpack word)[nat gesture := command])"

lemma button_update_wp:
  "wp (button_update E gesture command)
     (\<lambda>r t. bc_bindings t = (if r = ESP_OK then pack (update_target gesture command (bc_bindings s))
                              else bc_bindings s) \<and>
       (r = ESP_OK \<longrightarrow> bc_storage_ready s \<and> (gesture < 0 \<or> bc_bindings s AND INITIALIZED \<noteq> 0)) \<and>
       bc_storage_ready t = bc_storage_ready s \<and> bc_mutex t = bc_mutex s) s"
  using wp_mono [OF store_bindings_wp [of E _ "s\<lparr>bc_world := h\<rparr>" for h]]
  by (auto simp: button_update_def change_bindings_def update_target_def wp_simps split: prod.splits)

lemma names_arguments:
  "airdap_button_gesture_name gesture \<noteq> None \<longleftrightarrow> 0 \<le> gesture \<and> gesture < 5"
  "airdap_button_command_name command \<noteq> None \<longleftrightarrow> 0 \<le> command \<and> command < 13"
  by (simp_all add: airdap_button_gesture_name_def airdap_button_command_name_def button_sizes)

lemma command_byte:
  assumes "0 \<le> c" "c < 13" shows "unat (of_int c :: u8) < AIRDAP_BUTTON_COMMAND_COUNT"
proof -
  obtain n where n: "c = int n"
    using assms(1) by (rule nonneg_int_cases)
  then have "unat (of_nat n :: u8) = n"
    using assms(2) by (simp add: unat_of_nat take_bit_nat_eq_self)
  then show ?thesis
    using n assms(2) by (simp add: button_sizes)
qed

lemma update_target_ok:
  assumes "bindings_ok word" "gesture < 0 \<or> word AND INITIALIZED \<noteq> 0" "unat command < AIRDAP_BUTTON_COMMAND_COUNT"
  shows "commands_ok (update_target gesture command word)"
proof (cases "gesture < 0")
  case True
  then show ?thesis by (simp add: update_target_def defaults_ok)
next
  case False
  then have "commands_ok (unpack word)"
    using bindings_unpack [OF assms(1)] assms(2) by blast
  with False assms(3) show ?thesis
    by (auto simp: commands_ok_def update_target_def dest!: set_update_subset_insert [THEN subsetD])
qed

lemma button_update_ok:
  assumes "bindings_ok (bc_bindings s)" "unat command < AIRDAP_BUTTON_COMMAND_COUNT"
  shows "wp (button_update E gesture command)
    (\<lambda>r t. bindings_ok (bc_bindings t) \<and>
      (if r = ESP_OK
       then bc_bindings t AND INITIALIZED \<noteq> 0 \<and>
         unpack (bc_bindings t) = update_target gesture command (bc_bindings s)
       else bc_bindings t = bc_bindings s)) s"
  by (rule wp_mono [OF button_update_wp])
    (use assms update_target_ok [OF assms(1) _ assms(2), of gesture] unpack_pack pack_initialized in
      \<open>auto simp: bindings_ok_def\<close>)

section \<open>Durability\<close>

text \<open>
  NVS holds the record of the bindings in RAM, or no record while the bindings are the defaults.
\<close>

definition bindings_stored :: "nvs_view \<Rightarrow> u32 \<Rightarrow> bool" where
  "bindings_stored w word \<longleftrightarrow>
     (\<exists>cs. commands_ok cs \<and> word = pack cs \<and> stored w ''airdap_btn'' ''bindings'' (RECORD_VERSION # cs)) \<or>
     word = pack default_commands \<and> vw_content w (''airdap_btn'', ''bindings'') = None \<and>
     vw_durable w (''airdap_btn'', ''bindings'') = None"

lemma bindings_stored_same: "same_values v w \<Longrightarrow> bindings_stored w = bindings_stored v"
  by (simp add: fun_eq_iff bindings_stored_def same_values_def stored_def)

lemma store_bindings_stored:
  assumes "nvs_laws E v" "commands_ok cs"
  shows "wp (store_bindings E cs)
    (\<lambda>r t. r = ESP_OK \<longrightarrow> bindings_stored (v (bc_world t)) (bc_bindings t)) s"
proof -
  have "bindings_stored (v h3) (pack cs)" if "stored (v h3) ''airdap_btn'' ''bindings'' (RECORD_VERSION # cs)" for h3
    using that assms(2) by (auto simp: bindings_stored_def)
  then show ?thesis
    using nvs_write_stores [OF assms(1)] bindings_stored_same [OF nvs_values_kept(2) [OF assms(1)]]
    by (simp add: store_bindings_def write_bindings_def wp_simps split: prod.splits)
qed

lemma change_bindings_stored:
  assumes "nvs_laws E v" "commands_ok cs" "bindings_stored (v (bc_world s)) (bc_bindings s)"
  shows "wp (change_bindings E cs)
    (\<lambda>r t. r = ESP_OK \<longrightarrow> bindings_stored (v (bc_world t)) (bc_bindings t)) s"
  using store_bindings_stored [OF assms(1,2)] assms(3) by (simp add: change_bindings_def wp_simps)

lemma button_update_stored:
  assumes "nvs_laws E v" "bindings_ok (bc_bindings s)" "unat command < AIRDAP_BUTTON_COMMAND_COUNT"
    and "bindings_stored (v (bc_world s)) (bc_bindings s)"
  shows "wp (button_update E gesture command)
    (\<lambda>r t. r = ESP_OK \<longrightarrow> bindings_stored (v (bc_world t)) (bc_bindings t)) s"
proof -
  have change: "wp (change_bindings E (update_target gesture command (bc_bindings s)))
      (\<lambda>r. wp (do { bcall (nv_give_mutex E); State_Monad.return r })
        (\<lambda>r t. r = ESP_OK \<longrightarrow> bindings_stored (v (bc_world t)) (bc_bindings t)))
      (s\<lparr>bc_world := h\<rparr>)"
    if "gesture < 0 \<or> bc_bindings s AND INITIALIZED \<noteq> 0" "nv_take_mutex E (bc_world s) = (b, h)" for b h
    by (rule wp_mono [OF change_bindings_stored [OF assms(1) update_target_ok [OF assms(2) that(1) assms(3)]]])
      (use assms(4) bindings_stored_same [OF nvs_values_kept(5) [OF assms(1) that(2)]]
        bindings_stored_same [OF nvs_values_kept(6) [OF assms(1)]] in \<open>auto simp: wp_simps split: prod.splits\<close>)
  show ?thesis
    using change by (cases "gesture < 0") (auto simp: button_update_def update_target_def wp_simps split: prod.splits)
qed

text \<open>The component as a restart leaves it.\<close>

definition button_boot :: "'h \<Rightarrow> 'h button_config" where
  "button_boot h = \<lparr>bc_bindings = 0, bc_storage_ready = False, bc_mutex = False, bc_world = h\<rparr>"

lemma checked_stored:
  assumes "commands_ok cs" "version = 1 \<or> version = RECORD_VERSION"
  shows "checked_record ESP_OK (version # cs) RECORD_SIZE = (ESP_OK, version # cs)"
  using assms by (auto simp: checked_record_def commands_ok_def list_ex_iff button_sizes Let_def)

lemma checked_missing:
  "checked_record ESP_ERR_NVS_NOT_FOUND [] n = (ESP_OK, RECORD_VERSION # default_commands)"
  by (simp add: checked_record_def default_commands_def button_sizes Let_def)

lemma init_loads:
  assumes "nvs_laws E v" "nvs_works E v" "commands_ok cs"
    and st: "stored (v h) ''airdap_btn'' ''bindings'' (RECORD_VERSION # cs)"
  shows "wp (airdap_button_config_init E) (\<lambda>e u. e = ESP_OK \<and> bc_bindings u = pack cs) (button_boot h)"
proof -
  obtain h1 where g1: "nv_create_mutex E h = (True, h1)"
    using assms(2) unfolding nvs_works_def by (metis (full_types) prod.collapse)
  obtain hn h2 where g2: "nv_open E ''airdap_btn'' NVS_READWRITE h1 = ((ESP_OK, hn), h2)"
    using assms(2) unfolding nvs_works_def by (metis prod.collapse)
  have st2: "stored (v h2) ''airdap_btn'' ''bindings'' (RECORD_VERSION # cs)"
    using st nvs_values_kept(1) [OF assms(1) g2] nvs_values_kept(7) [OF assms(1) g1]
    by (simp add: stored_same)
  have len: "length (RECORD_VERSION # cs) = RECORD_SIZE"
    using assms(3) by (simp add: commands_ok_def RECORD_SIZE_def)
  obtain h3 where g3: "nv_get_blob E hn ''bindings'' (Some RECORD_SIZE) h2 =
      ((ESP_OK, RECORD_VERSION # cs, RECORD_SIZE), h3)"
    using assms(2) nvs_open_handle [OF assms(1) g2] st2 len unfolding nvs_works_def stored_def
    by (metis order_refl prod.collapse)
  show ?thesis
    using g1 g2 g3 checked_stored [OF assms(3), of RECORD_VERSION]
    by (simp add: airdap_button_config_init_def load_bindings_def initialization_result_def
      button_boot_def wp_simps split: prod.splits)
qed

lemma init_defaults:
  assumes "nvs_laws E v" "nvs_works E v" and none: "vw_content (v h) (''airdap_btn'', ''bindings'') = None"
  shows "wp (airdap_button_config_init E) (\<lambda>e u. e = ESP_OK \<and> bc_bindings u = pack default_commands)
    (button_boot h)"
proof -
  obtain h1 where g1: "nv_create_mutex E h = (True, h1)"
    using assms(2) unfolding nvs_works_def by (metis (full_types) prod.collapse)
  obtain hn h2 where g2: "nv_open E ''airdap_btn'' NVS_READWRITE h1 = ((ESP_OK, hn), h2)"
    using assms(2) unfolding nvs_works_def by (metis prod.collapse)
  have "vw_content (v h2) (''airdap_btn'', ''bindings'') = None"
    using none nvs_values_kept(1) [OF assms(1) g2] nvs_values_kept(7) [OF assms(1) g1]
    by (simp add: same_values_def)
  then obtain n h3 where g3: "nv_get_blob E hn ''bindings'' (Some RECORD_SIZE) h2 =
      ((ESP_ERR_NVS_NOT_FOUND, [], n), h3)"
    using assms(2) nvs_open_handle [OF assms(1) g2] unfolding nvs_works_def by (metis prod.collapse)
  show ?thesis
    using g1 g2 g3 checked_missing
    by (simp add: airdap_button_config_init_def load_bindings_def initialization_result_def
      button_boot_def wp_simps split: prod.splits)
qed

lemma init_restores_bindings:
  assumes "nvs_laws E v" "nvs_works E v" "bindings_stored w word"
    and "vw_content (v h) = vw_durable w" "vw_durable (v h) = vw_durable w"
  shows "wp (airdap_button_config_init E) (\<lambda>e u. e = ESP_OK \<and> bc_bindings u = word) (button_boot h)"
  using assms init_loads [OF assms(1,2), of _ h] init_defaults [OF assms(1,2), of h]
  by (auto simp: bindings_stored_def stored_def)

text \<open>
  A version 1 record is migrated once: the legacy toggle on the double press is replaced, every other
  binding is kept, and the record is rewritten as version 2.
\<close>

definition migrated_commands :: "bytes \<Rightarrow> bytes" where
  "migrated_commands cs =
     (if cs ! 1 = AIRDAP_BUTTON_COMMAND_DAP_TOGGLE
      then cs[1 := AIRDAP_BUTTON_COMMAND_DAP_NETWORK_AUTO_TOGGLE] else cs)"

lemma migrated_commands_ok:
  assumes "commands_ok cs" shows "commands_ok (migrated_commands cs)"
  using assms by (auto simp: commands_ok_def migrated_commands_def button_sizes
    dest!: set_update_subset_insert [THEN subsetD])

lemma init_migrates:
  assumes "nvs_laws E v" "nvs_works E v" "commands_ok cs"
    and st: "stored (v h) ''airdap_btn'' ''bindings'' (1 # cs)"
  shows "wp (airdap_button_config_init E) (\<lambda>e u. e = ESP_OK \<longrightarrow>
      bc_bindings u = pack (migrated_commands cs) \<and> bindings_stored (v (bc_world u)) (bc_bindings u))
    (button_boot h)"
proof -
  obtain h1 where g1: "nv_create_mutex E h = (True, h1)"
    using assms(2) unfolding nvs_works_def by (metis (full_types) prod.collapse)
  obtain hn h2 where g2: "nv_open E ''airdap_btn'' NVS_READWRITE h1 = ((ESP_OK, hn), h2)"
    using assms(2) unfolding nvs_works_def by (metis prod.collapse)
  have st2: "stored (v h2) ''airdap_btn'' ''bindings'' (1 # cs)"
    using st nvs_values_kept(1) [OF assms(1) g2] nvs_values_kept(7) [OF assms(1) g1]
    by (simp add: stored_same)
  have len: "length (1 # cs) = RECORD_SIZE"
    using assms(3) by (simp add: commands_ok_def RECORD_SIZE_def)
  obtain h3 where g3: "nv_get_blob E hn ''bindings'' (Some RECORD_SIZE) h2 = ((ESP_OK, 1 # cs, RECORD_SIZE), h3)"
    using assms(2) nvs_open_handle [OF assms(1) g2] st2 len unfolding nvs_works_def stored_def
    by (metis order_refl prod.collapse)
  have hn: "vw_handles (v h3) hn = Some ''airdap_btn''"
    using nvs_open_handle [OF assms(1) g2] nvs_values_kept(4) [OF assms(1) g3] by simp
  have mig: "migrated (1 # cs) = RECORD_VERSION # migrated_commands cs"
    by (simp add: migrated_def migrated_commands_def Let_def)
  have stores: "bindings_stored (v h6) (pack (migrated_commands cs))"
    if "nv_set_blob E hn ''bindings'' (RECORD_VERSION # migrated_commands cs) h3 = (ESP_OK, h4)"
      "nv_commit E hn h4 = (ESP_OK, h5)" "nv_close E hn h5 = (u, h6)" for h4 h5 h6 u
  proof -
    have "stored (v h5) ''airdap_btn'' ''bindings'' (RECORD_VERSION # migrated_commands cs)"
      using nvs_set_blob [OF assms(1) that(1) hn] nvs_commit [OF assms(1) that(2)]
      by (simp add: stored_def)
    then show ?thesis
      using migrated_commands_ok [OF assms(3)] bindings_stored_same [OF nvs_values_kept(2) [OF assms(1) that(3)]]
      by (auto simp: bindings_stored_def)
  qed
  show ?thesis
    using g1 g2 g3 checked_stored [OF assms(3), of 1] stores mig
    by (simp add: airdap_button_config_init_def load_bindings_def write_bindings_def
      initialization_result_def button_boot_def wp_simps Let_def split: prod.splits)
qed

section \<open>Bindings on the sample platform\<close>

definition sample_buttons :: "bytes \<Rightarrow> nvs_view button_config" where
  "sample_buttons cs = \<lparr>bc_bindings = pack cs, bc_storage_ready = True, bc_mutex = True,
     bc_world = \<lparr>vw_content = [(''airdap_btn'', ''bindings'') \<mapsto> RECORD_VERSION # cs],
       vw_durable = [(''airdap_btn'', ''bindings'') \<mapsto> RECORD_VERSION # cs],
       vw_handles = [1 \<mapsto> ''airdap_btn'']\<rparr>\<rparr>"

text \<open>The double press bound to the legacy toggle.\<close>

definition legacy_commands :: bytes where
  "legacy_commands = default_commands[1 := AIRDAP_BUTTON_COMMAND_DAP_TOGGLE]"

lemma legacy_ok: "commands_ok legacy_commands"
  by (simp add: legacy_commands_def commands_ok_def default_commands_def button_sizes)

lemmas button_eval = run_state_bind button_update_def change_bindings_def store_bindings_def
  write_bindings_def airdap_button_config_get_def set_bindings_def bcall_def whenever_def
  memory_nvs_eval

lemma sample_set:
  "run_state (airdap_button_config_set memory_nvs 1 1) (sample_buttons default_commands) =
     (ESP_OK, sample_buttons legacy_commands)"
proof -
  have "pack legacy_commands \<noteq> pack default_commands"
    using unpack_pack [OF legacy_ok] unpack_pack [OF defaults_ok]
    by (auto simp: legacy_commands_def default_commands_def)
  then have "pack (default_commands[Suc 0 := 1]) \<noteq> pack default_commands"
    by (simp add: legacy_commands_def)
  then show ?thesis
    using names_arguments(1) [of 1] names_arguments(2) [of 1]
    by (simp add: airdap_button_config_set_def button_eval sample_buttons_def pack_initialized
      unpack_pack [OF defaults_ok] legacy_commands_def)
qed

section \<open>Properties\<close>

text \<open>Binding a gesture does what it says or nothing: from a word that is empty or packs real
  commands, a call with a gesture or a command out of range is refused without an effect; otherwise,
  when it returns ESP_OK the unpacked bindings are the old ones with that gesture replaced, and when
  it returns an error the word is unchanged. The word always packs real commands, so a lookup in the
  command table by a bound command stays inside the table.\<close>

theorem button_set_refines:
  assumes "bindings_ok (bc_bindings s)" "run_state (airdap_button_config_set E gesture command) s = (r, t)"
  shows "bindings_ok (bc_bindings t) \<and>
    (if gesture \<notin> {0..<5} \<or> command \<notin> {0..<13} then r = ESP_ERR_INVALID_ARG \<and> t = s
     else if r = ESP_OK
     then unpack (bc_bindings t) = (unpack (bc_bindings s))[nat gesture := of_int command]
     else bc_bindings t = bc_bindings s)"
proof (cases "gesture \<in> {0..<5} \<and> command \<in> {0..<13}")
  case True
  then have "unat (of_int command :: u8) < AIRDAP_BUTTON_COMMAND_COUNT"
    by (simp add: command_byte)
  from button_update_ok [OF assms(1) this, of E gesture] True show ?thesis
    using assms(2) names_arguments [of gesture] names_arguments(2) [of command]
    by (auto simp: airdap_button_config_set_def update_target_def wp_def split: if_splits)
next
  case False
  then show ?thesis
    using assms names_arguments [of gesture] names_arguments(2) [of command]
    by (auto simp: airdap_button_config_set_def)
qed

theorem button_set_refines_witness:
  "unpack (bc_bindings (sample_buttons legacy_commands)) =
     (unpack (bc_bindings (sample_buttons default_commands)))[1 := 1]"
proof -
  have "bindings_ok (bc_bindings (sample_buttons default_commands))"
    using defaults_ok by (auto simp: bindings_ok_def sample_buttons_def)
  from button_set_refines [OF this sample_set] show ?thesis
    by simp
qed

text \<open>Button bindings survive a restart: on a storage that keeps its documented laws, after a
  successful set or reset to the defaults, initialising the component again after a restart succeeds
  and yields the same bindings. A binding of the double press to the legacy toggle, which the
  migration of version 1 records replaces, is among them: it is not migrated away.\<close>

theorem button_bindings_survive_restart:
  assumes "nvs_laws E v" "nvs_works E v" "bindings_ok (bc_bindings s)"
    and "bindings_stored (v (bc_world s)) (bc_bindings s)"
    and "run_state (if reset then airdap_button_config_defaults E
                    else airdap_button_config_set E gesture command) s = (ESP_OK, t)"
    and "vw_content (v h) = vw_durable (v (bc_world t))" "vw_durable (v h) = vw_durable (v (bc_world t))"
  shows "\<exists>u. run_state (airdap_button_config_init E) (button_boot h) = (ESP_OK, u) \<and>
    bc_bindings u = bc_bindings t"
proof -
  have updated: "bindings_stored (v (bc_world t)) (bc_bindings t)"
    if "unat c < AIRDAP_BUTTON_COMMAND_COUNT" "run_state (button_update E g c) s = (ESP_OK, t)" for g c
    using wpD [OF button_update_stored [OF assms(1,3) that(1) assms(4)] that(2)] by simp
  have "bindings_stored (v (bc_world t)) (bc_bindings t)"
  proof (cases reset)
    case True
    then show ?thesis
      using assms(5) updated [of 0 "- 1"] by (simp add: airdap_button_config_defaults_def button_sizes)
  next
    case False
    then show ?thesis
      using assms(5) updated [of "of_int command" gesture] command_byte [of command]
        names_arguments(2) [of command]
      by (auto simp: airdap_button_config_set_def split: if_splits)
  qed
  from init_restores_bindings [OF assms(1,2) this assms(6,7)] show ?thesis
    by (auto simp: wp_def split: prod.splits)
qed

theorem button_bindings_survive_restart_witness:
  "\<exists>u. run_state (airdap_button_config_init memory_nvs)
     (button_boot (bc_world (sample_buttons legacy_commands))) = (ESP_OK, u) \<and>
   unpack (bc_bindings u) = [0, 1, 2, 0, 3]"
proof -
  have ok: "bindings_ok (bc_bindings (sample_buttons default_commands))"
    using defaults_ok by (auto simp: bindings_ok_def sample_buttons_def)
  have st: "bindings_stored (id (bc_world (sample_buttons default_commands)))
      (bc_bindings (sample_buttons default_commands))"
    using defaults_ok by (auto simp: bindings_stored_def sample_buttons_def stored_def)
  have "unpack (bc_bindings (sample_buttons legacy_commands)) = [0, 1, 2, 0, 3]"
    using unpack_pack [OF legacy_ok]
    by (simp add: sample_buttons_def legacy_commands_def default_commands_def)
  with button_bindings_survive_restart [OF memory_nvs_laws memory_nvs_works ok st, of False 1 1
      "sample_buttons legacy_commands" "bc_world (sample_buttons legacy_commands)"] sample_set
  show ?thesis
    by (auto simp: sample_buttons_def)
qed

end
