(* ===== verification/Interleaving.thy ===== *)
theory Interleaving
  imports Stateful
begin

text \<open>
  Tasks that share a state and block on mutexes. A task is a tree of atomic actions: an action is
  not enabled (\<^const>\<open>None\<close>, a mutex that is taken) or changes the state and continues. \<open>system_step\<close>
  interleaves any number of tasks, with new tasks starting and the environment moving at any time.

  Invariants of a system are proved by rely and guarantee: \<open>safe\<close> says that a task keeps the
  invariant and its own guarantee at every action, when what it knows between two actions is stable
  under the guarantees of the other tasks, and that it returns in an idle state.
\<close>

section \<open>Tasks\<close>

datatype ('s, 'a) task = Done 'a | Act "'s \<Rightarrow> (('s, 'a) task \<times> 's) option"

definition atomic :: "('s, 'b) state \<Rightarrow> ('b \<Rightarrow> ('s, 'a) task) \<Rightarrow> ('s, 'a) task" where
  "atomic m k = Act (\<lambda>s. case run_state m s of (b, s') \<Rightarrow> Some (k b, s'))"

text \<open>
  A system: task \<open>i\<close> may start a program of \<open>starts i s\<close> when it is idle, and \<open>env\<close> is what the
  rest of the world may do to the state.
\<close>

inductive system_step ::
    "(nat \<Rightarrow> 's \<Rightarrow> ('s, unit) task set) \<Rightarrow> ('s \<Rightarrow> 's \<Rightarrow> bool) \<Rightarrow>
     (nat \<Rightarrow> ('s, unit) task) \<times> 's \<Rightarrow> (nat \<Rightarrow> ('s, unit) task) \<times> 's \<Rightarrow> bool"
  for starts env where
  act: "ts i = Act f \<Longrightarrow> f s = Some (t, s') \<Longrightarrow> system_step starts env (ts, s) (ts(i := t), s')"
| start: "ts i = Done () \<Longrightarrow> t \<in> starts i s \<Longrightarrow> system_step starts env (ts, s) (ts(i := t), s)"
| world: "env s s' \<Longrightarrow> system_step starts env (ts, s) (ts, s')"

inductive system_steps ::
    "(nat \<Rightarrow> 's \<Rightarrow> ('s, unit) task set) \<Rightarrow> ('s \<Rightarrow> 's \<Rightarrow> bool) \<Rightarrow>
     (nat \<Rightarrow> ('s, unit) task) \<times> 's \<Rightarrow> (nat \<Rightarrow> ('s, unit) task) \<times> 's \<Rightarrow> bool"
  for starts env where
  refl: "system_steps starts env c c"
| step: "system_steps starts env c c' \<Longrightarrow> system_step starts env c' c'' \<Longrightarrow> system_steps starts env c c''"

inductive_cases system_stepE: "system_step starts env (ts, s) c"

lemma system_steps_trans:
  "system_steps starts env b c \<Longrightarrow> system_steps starts env a b \<Longrightarrow> system_steps starts env a c"
  by (induction rule: system_steps.induct) (auto intro: system_steps.step)

text \<open>Running a task alone, at most \<open>n\<close> actions.\<close>

fun run_task :: "nat \<Rightarrow> ('s, 'a) task \<Rightarrow> 's \<Rightarrow> ('s, 'a) task \<times> 's" where
  "run_task n (Done a) s = (Done a, s)"
| "run_task 0 (Act f) s = (Act f, s)"
| "run_task (Suc n) (Act f) s =
     (case f s of None \<Rightarrow> (Act f, s) | Some (t, s') \<Rightarrow> run_task n t s')"

lemma run_task_steps:
  "run_task n t s = (t', s') \<Longrightarrow> system_steps starts env (ts(i := t), s) (ts(i := t'), s')"
proof (induction n t s arbitrary: t' s' rule: run_task.induct)
  case (3 n f s)
  show ?case
  proof (cases "f s")
    case None
    with 3 show ?thesis by (auto intro: system_steps.refl)
  next
    case (Some r)
    obtain u v where r: "r = (u, v)" by (cases r)
    have "system_step starts env (ts(i := Act f), s) (ts(i := u), v)"
      using system_step.act [of "ts(i := Act f)" i f s u v starts env] Some r by simp
    moreover have "system_steps starts env (ts(i := u), v) (ts(i := t'), s')"
      using "3.IH" [OF Some r [symmetric]] "3.prems" Some r by (simp add: fun_upd_def)
    ultimately show ?thesis
      by (meson system_steps_trans system_steps.refl system_steps.step)
  qed
qed (auto intro: system_steps.refl)

lemma run_task_numeral:
  "run_task (numeral n) (Act f) s =
     (case f s of None \<Rightarrow> (Act f, s) | Some (t, s') \<Rightarrow> run_task (pred_numeral n) t s')"
  by (simp add: numeral_eq_Suc)

lemma continue_run:
  assumes "run_task n (ts i) s = (t', s')"
  shows "system_steps starts env (ts, s) (ts(i := t'), s')"
  using run_task_steps [OF assms, of starts env ts i] by simp

lemma start_run:
  assumes "ts i = Done ()" "t \<in> starts i s" "run_task n t s = (t', s')"
  shows "system_steps starts env (ts, s) (ts(i := t'), s')"
proof -
  have "system_steps starts env (ts, s) (ts(i := t), s)"
    using system_steps.step [OF system_steps.refl system_step.start [of ts i t starts s env]] assms(1,2) by simp
  from system_steps_trans [OF run_task_steps [OF assms(3)] this] show ?thesis .
qed

text \<open>A list of programs, each run to its end at a task of its own, and all of them in one task.\<close>

lemma tasks_run:
  assumes "\<And>t i s. t \<in> set tasks \<Longrightarrow> t \<in> starts i s" "\<And>j. k \<le> j \<Longrightarrow> ts j = Done ()"
  shows "\<exists>ts'. system_steps starts env (ts, s) (ts', fold (\<lambda>t s. snd (run_task n t s)) tasks s)"
  using assms
proof (induction tasks arbitrary: ts s k)
  case Nil
  then show ?case by (auto intro: system_steps.refl)
next
  case (Cons t tasks)
  obtain t' s' where run: "run_task n t s = (t', s')" by fastforce
  have "system_step starts env (ts, s) (ts(k := t), s)"
    using Cons.prems by (intro system_step.start) auto
  moreover have "system_steps starts env (ts(k := t), s) (ts(k := t'), s')"
    by (rule run_task_steps [OF run])
  ultimately have "system_steps starts env (ts, s) (ts(k := t'), s')"
    by (meson system_steps_trans system_steps.refl system_steps.step)
  moreover have "\<exists>ts'. system_steps starts env (ts(k := t'), s')
      (ts', fold (\<lambda>t s. snd (run_task n t s)) tasks s')"
    by (rule Cons.IH [of "Suc k"]) (use Cons.prems in auto)
  ultimately show ?case
    using run by (auto intro: system_steps_trans)
qed

fun run_all :: "nat \<Rightarrow> ('s, unit) task list \<Rightarrow> 's \<Rightarrow> 's option" where
  "run_all n [] s = Some s"
| "run_all n (t # tasks) s =
     (case run_task n t s of (Done _, s') \<Rightarrow> run_all n tasks s' | _ \<Rightarrow> None)"

lemma run_all_steps:
  assumes "\<And>t s. t \<in> set tasks \<Longrightarrow> t \<in> starts i s" "run_all n tasks s = Some s'"
  shows "system_steps starts env ((\<lambda>_. Done ()), s) ((\<lambda>_. Done ()), s')"
  using assms
proof (induction tasks arbitrary: s)
  case Nil
  then show ?case by (auto intro: system_steps.refl)
next
  case (Cons t tasks)
  obtain u where run: "run_task n t s = (Done (), u)" and rest: "run_all n tasks u = Some s'"
    using Cons.prems(2) by (auto split: prod.splits task.splits)
  have "system_step starts env ((\<lambda>_. Done ()), s) ((\<lambda>_. Done ())(i := t), s)"
    using Cons.prems by (intro system_step.start) auto
  note started = system_steps.step [OF system_steps.refl this]
  have "system_steps starts env ((\<lambda>_. Done ())(i := t), s) ((\<lambda>_. Done ())(i := Done ()), u)"
    by (rule run_task_steps [OF run])
  from system_steps_trans [OF this started]
  have "system_steps starts env ((\<lambda>_. Done ()), s) ((\<lambda>_. Done ()), u)"
    by (simp add: fun_upd_def)
  moreover have "system_steps starts env ((\<lambda>_. Done ()), u) ((\<lambda>_. Done ()), s')"
    using Cons rest by simp
  ultimately show ?case
    by (blast intro: system_steps_trans)
qed

section \<open>Histories\<close>

text \<open>
  A history lists what happened, newest first: each event satisfies \<open>P\<close> with the events before it.
\<close>

fun history_sound :: "('e \<Rightarrow> 'e list \<Rightarrow> bool) \<Rightarrow> 'e list \<Rightarrow> bool" where
  "history_sound P [] = True"
| "history_sound P (e # es) = (P e es \<and> history_sound P es)"

lemma history_soundD: "history_sound P (es @ e # es') \<Longrightarrow> P e es'"
  by (induction es) auto

section \<open>Rely and guarantee\<close>

definition stable ::
    "('s \<Rightarrow> bool) \<Rightarrow> (nat \<Rightarrow> 's \<Rightarrow> 's \<Rightarrow> bool) \<Rightarrow> ('s \<Rightarrow> 's \<Rightarrow> bool) \<Rightarrow> nat \<Rightarrow> ('s \<Rightarrow> bool) \<Rightarrow> bool" where
  "stable I G env i P \<longleftrightarrow>
     (\<forall>s s'. I s \<and> I s' \<and> P s \<and> (env s s' \<or> (\<exists>j. j \<noteq> i \<and> G j s s')) \<longrightarrow> P s')"

inductive safe ::
    "('s \<Rightarrow> bool) \<Rightarrow> (nat \<Rightarrow> 's \<Rightarrow> 's \<Rightarrow> bool) \<Rightarrow> ('s \<Rightarrow> 's \<Rightarrow> bool) \<Rightarrow> (nat \<Rightarrow> 's \<Rightarrow> bool) \<Rightarrow> nat \<Rightarrow>
     ('s \<Rightarrow> bool) \<Rightarrow> ('s, 'a) task \<Rightarrow> bool"
  for I G env idle i where
  finished: "stable I G env i P \<Longrightarrow> (\<And>s. P s \<Longrightarrow> idle i s) \<Longrightarrow> safe I G env idle i P (Done a)"
| action: "stable I G env i P \<Longrightarrow>
    (\<And>s t s'. I s \<Longrightarrow> P s \<Longrightarrow> f s = Some (t, s') \<Longrightarrow>
       I s' \<and> G i s s' \<and> (\<exists>Q. Q s' \<and> safe I G env idle i Q t)) \<Longrightarrow>
    safe I G env idle i P (Act f)"

inductive_cases safe_ActE: "safe I G env idle i P (Act f)"
inductive_cases safe_DoneE: "safe I G env idle i P (Done a)"

lemma safe_stable: "safe I G env idle i P t \<Longrightarrow> stable I G env i P"
  by (erule safe.cases) auto

lemma safe_weaken:
  assumes "safe I G env idle i P t" "stable I G env i Q" "\<And>s. Q s \<Longrightarrow> P s"
  shows "safe I G env idle i Q t"
  using assms(1)
proof (cases rule: safe.cases)
  case (finished a)
  with assms(2,3) show ?thesis by (auto intro: safe.finished)
next
  case (action f)
  show ?thesis
    unfolding action(1) by (rule safe.action [OF assms(2)]) (use action(3) assms(3) in blast)
qed

lemma safe_atomic:
  assumes "stable I G env i P"
    and "\<And>s. I s \<Longrightarrow> P s \<Longrightarrow> wp m (\<lambda>b s'. I s' \<and> G i s s' \<and> Q b s') s"
    and "\<And>b. safe I G env idle i (Q b) (k b)"
  shows "safe I G env idle i P (atomic m k)"
  unfolding atomic_def
proof (rule safe.action [OF assms(1)])
  fix s t s' assume "I s" "P s" "(case run_state m s of (b, s') \<Rightarrow> Some (k b, s')) = Some (t, s')"
  then show "I s' \<and> G i s s' \<and> (\<exists>Q. Q s' \<and> safe I G env idle i Q t)"
    using assms(2) [of s] assms(3) by (fastforce simp: wp_def split: prod.splits)
qed

locale rely_guarantee =
  fixes I :: "'s \<Rightarrow> bool"
    and G :: "nat \<Rightarrow> 's \<Rightarrow> 's \<Rightarrow> bool"
    and env :: "'s \<Rightarrow> 's \<Rightarrow> bool"
    and idle :: "nat \<Rightarrow> 's \<Rightarrow> bool"
    and starts :: "nat \<Rightarrow> 's \<Rightarrow> ('s, unit) task set"
  assumes starts_safe: "t \<in> starts i s \<Longrightarrow> safe I G env idle i (idle i) t"
    and idle_stable: "stable I G env i (idle i)"
    and env_keeps: "I s \<Longrightarrow> env s s' \<Longrightarrow> I s'"
begin

definition knows :: "nat \<Rightarrow> ('s, unit) task \<Rightarrow> 's \<Rightarrow> bool" where
  "knows i t s \<longleftrightarrow> (\<exists>P. P s \<and> safe I G env idle i P t)"

lemma knows_stable:
  assumes "knows i t s" "I s" "I s'" "env s s' \<or> (\<exists>j. j \<noteq> i \<and> G j s s')"
  shows "knows i t s'"
  using assms unfolding knows_def by (metis safe_stable stable_def)

lemma step_keeps:
  assumes "system_step starts env (ts, s) (ts', s')" "I s" "\<forall>i. knows i (ts i) s"
  shows "I s' \<and> (\<forall>i. knows i (ts' i) s')"
  using assms(1)
proof (cases rule: system_step.cases)
  case (act i f t)
  obtain P where "P s" "safe I G env idle i P (Act f)"
    using assms(3) act(2) by (metis knows_def)
  then have new: "I s'" "G i s s'" "knows i t s'"
    using assms(2) act(3) by (auto simp: knows_def elim!: safe_ActE)
  have "knows j (ts j) s'" if "j \<noteq> i" for j
    by (rule knows_stable [OF _ assms(2) new(1)]) (use assms(3) new(2) that in auto)
  with new show ?thesis
    by (simp add: act(1))
next
  case (start i t)
  have "idle i s"
    using assms(3) start by (metis knows_def safe_DoneE)
  then have "knows i t s'"
    using start starts_safe by (auto simp: knows_def)
  with start assms(2,3) show ?thesis
    by auto
next
  case world
  then show ?thesis
    using assms(2,3) env_keeps knows_stable [OF _ assms(2)] by blast
qed

lemma reachable_invariant:
  assumes "system_steps starts env ((\<lambda>_. Done ()), s) c" "I s" "\<And>i. idle i s"
  shows "I (snd c)"
proof -
  have "I (snd c) \<and> (\<forall>i. knows i (fst c i) (snd c))"
    using assms
  proof (induction "((\<lambda>_. Done ()) :: nat \<Rightarrow> ('s, unit) task, s)" c rule: system_steps.induct)
    case refl
    then show ?case
      using idle_stable by (auto simp: knows_def intro: safe.finished)
  next
    case (step c' c'')
    then show ?case
      using step_keeps [of "fst c'" "snd c'" "fst c''" "snd c''"] by simp
  qed
  then show ?thesis ..
qed

end

end
