(* ===== verification/Dap_Service.thy ===== *)
theory Dap_Service
  imports Interleaving Dap_Protocol Dap_Ownership
begin

text \<open>
  The debug service, \<^verbatim>\<open>firmware/components/dap_service/dap_service.c\<close>: transports (USB, network)
  open one session each and submit requests to a queue; one worker task runs them on the DAP
  processors and hands the responses back, unless the session is gone by then.

  The functions run in several tasks. Each access to an atomic variable, each queue operation, each
  take or give of a session mutex and each call that leaves the component is one action of a task
  of theory \<open>Interleaving\<close>; task \<open>0\<close> is the worker. A function takes its continuation as the last
  argument. The record \<open>service_env\<close> holds the calls that leave the component, functions on the
  state of the outside. \<open>sv_trace\<close> is a history of what happened, newest first: the code
  neither has nor reads it, and the properties are about it.
\<close>

section \<open>Data\<close>

abbreviation (input) AIRDAP_DAP_TRANSPORT_USB :: nat where "AIRDAP_DAP_TRANSPORT_USB \<equiv> 0"
abbreviation (input) AIRDAP_DAP_TRANSPORT_NETWORK :: nat where "AIRDAP_DAP_TRANSPORT_NETWORK \<equiv> 1"
abbreviation (input) AIRDAP_DAP_TRANSPORT_COUNT :: nat where "AIRDAP_DAP_TRANSPORT_COUNT \<equiv> 2"
abbreviation (input) DAP_QUEUE_DEPTH :: nat where "DAP_QUEUE_DEPTH \<equiv> 4"
abbreviation (input) AIRDAP_DAP_SERVICE_REQUEST_TIMEOUT_US :: int where
  "AIRDAP_DAP_SERVICE_REQUEST_TIMEOUT_US \<equiv> 1000000"

datatype airdap_dap_service_result =
    SERVICE_OK | SERVICE_INVALID_ARGUMENT | SERVICE_INVALID_STATE | SERVICE_BUSY
  | SERVICE_STALE_SESSION | SERVICE_QUEUE_FULL | SERVICE_UNAUTHENTICATED

record dap_work_item =
  wi_transport :: nat
  wi_session :: u32
  wi_response_token :: nat
  wi_response_callback :: nat
  wi_response_context :: nat
  wi_queued_at_us :: int
  wi_request_length :: nat
  wi_request :: bytes

record dap_service_stats =
  st_requests_accepted :: u32
  st_requests_processed :: u32
  st_responses_delivered :: u32
  st_queue_full :: u32
  st_timed_out :: u32
  st_stale_requests :: u32
  st_stale_responses :: u32
  st_delivery_failures :: u32

text \<open>The history: what each action of interest did.\<close>

datatype service_event =
    Drawn nat u32
  | Opened nat u32 bool
  | Closing nat u32
  | Requested nat
  | Submitted dap_work_item
  | Received dap_work_item
  | Taken u32
  | Processor_closed nat
  | Processed nat u32
  | Responded nat u32

record 'h dap_service =
  sv_queue :: "dap_work_item list"
  sv_queue_created :: bool
  sv_initialization_started :: bool
  sv_initialized :: bool
  sv_worker :: bool
  sv_next_session :: u32
  sv_live_sessions :: "nat \<Rightarrow> u32"
  sv_pending_disconnects :: u32
  sv_mutex_holder :: "nat \<Rightarrow> nat option"
  sv_stats :: dap_service_stats
  sv_world :: 'h
  sv_trace :: "service_event list"

text \<open>
  Calls that leave the component: the processor (which returns a length and the response buffer),
  its reset, the timer, the response callback of a transport, and the FreeRTOS and DAP set-up.
\<close>

record 'h service_env =
  se_process :: "u32 \<Rightarrow> bytes \<Rightarrow> nat \<Rightarrow> nat \<Rightarrow> 'h \<Rightarrow> (nat \<times> bytes) \<times> 'h"
  se_session_closed :: "u32 \<Rightarrow> 'h \<Rightarrow> unit \<times> 'h"
  se_get_time :: "'h \<Rightarrow> int \<times> 'h"
  se_respond :: "nat \<Rightarrow> nat \<Rightarrow> nat \<Rightarrow> u32 \<Rightarrow> nat \<Rightarrow> bytes \<Rightarrow> nat \<Rightarrow> 'h \<Rightarrow> bool \<times> 'h"
  se_take_mutex :: "'h \<Rightarrow> bool \<times> 'h"
  se_create_queue :: "'h \<Rightarrow> bool \<times> 'h"
  se_create_mutex :: "'h \<Rightarrow> bool \<times> 'h"
  se_dap_init :: "string \<Rightarrow> string \<Rightarrow> 'h \<Rightarrow> esp_err \<times> 'h"
  se_create_task :: "'h \<Rightarrow> bool \<times> 'h"

type_synonym ('h, 'a) service_task = "('h dap_service, 'a) task"

section \<open>Actions\<close>

definition scall :: "('h \<Rightarrow> 'r \<times> 'h) \<Rightarrow> ('h dap_service, 'r) state" where
  "scall f = State (\<lambda>s. case f (sv_world s) of (r, h) \<Rightarrow> (r, s\<lparr>sv_world := h\<rparr>))"

definition note_event :: "service_event \<Rightarrow> ('h dap_service, unit) state" where
  "note_event e = updates (\<lambda>s. s\<lparr>sv_trace := e # sv_trace s\<rparr>)"

text \<open>\<^verbatim>\<open>atomic_fetch_add(&service_stats.x, 1U)\<close>, given the update of the counter.\<close>

definition count ::
    "((u32 \<Rightarrow> u32) \<Rightarrow> dap_service_stats \<Rightarrow> dap_service_stats) \<Rightarrow> ('h dap_service, unit) state" where
  "count counter = updates (\<lambda>s. s\<lparr>sv_stats := counter (\<lambda>n. n + 1) (sv_stats s)\<rparr>)"

definition valid_transport :: "nat \<Rightarrow> bool" where
  "valid_transport transport \<longleftrightarrow> transport < AIRDAP_DAP_TRANSPORT_COUNT"

definition transport_owner :: "nat \<Rightarrow> u32" where
  "transport_owner transport =
     (if transport = AIRDAP_DAP_TRANSPORT_USB then AIRDAP_DAP_OWNER_USB
      else if transport = AIRDAP_DAP_TRANSPORT_NETWORK then AIRDAP_DAP_OWNER_NETWORK
      else AIRDAP_DAP_OWNER_NONE)"

definition session_is_live :: "nat \<Rightarrow> u32 \<Rightarrow> ('h dap_service, bool) state" where
  "session_is_live transport session = reads (\<lambda>s.
     valid_transport transport \<and> session \<noteq> 0 \<and> sv_live_sessions s transport = session)"

text \<open>The mutex is free and is taken by task \<open>i\<close>, or the take fails, or the task waits.\<close>

definition session_lock ::
    "'h service_env \<Rightarrow> nat \<Rightarrow> nat \<Rightarrow> (bool \<Rightarrow> ('h, 'a) service_task) \<Rightarrow> ('h, 'a) service_task" where
  "session_lock E i transport k = Act (\<lambda>s. case se_take_mutex E (sv_world s) of (taken, h) \<Rightarrow>
     if \<not> taken then Some (k False, s\<lparr>sv_world := h\<rparr>)
     else if sv_mutex_holder s transport = None
     then Some (k True, s\<lparr>sv_world := h,
                  sv_mutex_holder := (sv_mutex_holder s)(transport := Some i)\<rparr>)
     else None)"

definition session_unlock :: "nat \<Rightarrow> ('h, 'a) service_task \<Rightarrow> ('h, 'a) service_task" where
  "session_unlock transport k = atomic (updates (\<lambda>s.
     s\<lparr>sv_mutex_holder := (sv_mutex_holder s)(transport := None)\<rparr>)) (\<lambda>_. k)"

definition request_disconnect :: "nat \<Rightarrow> ('h dap_service, unit) state" where
  "request_disconnect transport = do {
     updates (\<lambda>s. s\<lparr>sv_pending_disconnects := sv_pending_disconnects s OR push_bit transport 1\<rparr>);
     note_event (Requested transport) }"

definition exchange_pending :: "('h dap_service, u32) state" where
  "exchange_pending = do {
     pending \<leftarrow> reads sv_pending_disconnects;
     updates (\<lambda>s. s\<lparr>sv_pending_disconnects := 0\<rparr>);
     note_event (Taken pending);
     State_Monad.return pending }"

definition close_processor :: "'h service_env \<Rightarrow> nat \<Rightarrow> ('h dap_service, unit) state" where
  "close_processor E transport = do {
     scall (se_session_closed E (transport_owner transport));
     note_event (Processor_closed transport) }"

definition receive_item :: "('h dap_service, dap_work_item option) state" where
  "receive_item = do {
     queue \<leftarrow> reads sv_queue;
     case queue of [] \<Rightarrow> State_Monad.return None
     | item # items \<Rightarrow> do {
         updates (\<lambda>s. s\<lparr>sv_queue := items\<rparr>);
         note_event (Received item);
         State_Monad.return (Some item) } }"

definition send_item :: "dap_work_item \<Rightarrow> ('h dap_service, bool) state" where
  "send_item item = do {
     queue \<leftarrow> reads sv_queue;
     if length queue \<ge> DAP_QUEUE_DEPTH then State_Monad.return False
     else do {
       updates (\<lambda>s. s\<lparr>sv_queue := sv_queue s @ [item]\<rparr>);
       note_event (Submitted item);
       State_Monad.return True } }"

definition process_item ::
    "'h service_env \<Rightarrow> dap_work_item \<Rightarrow> ('h dap_service, nat \<times> bytes) state" where
  "process_item E item = do {
     result \<leftarrow> scall (se_process E (transport_owner (wi_transport item)) (wi_request item)
       (wi_request_length item) AIRDAP_DAP_PACKET_SIZE);
     note_event (Processed (wi_transport item) (wi_session item));
     State_Monad.return result }"

definition respond_item ::
    "'h service_env \<Rightarrow> dap_work_item \<Rightarrow> bytes \<Rightarrow> nat \<Rightarrow> ('h dap_service, bool) state" where
  "respond_item E item response response_length = do {
     delivered \<leftarrow> scall (se_respond E (wi_response_callback item) (wi_response_context item)
       (wi_transport item) (wi_session item) (wi_response_token item) response response_length);
     note_event (Responded (wi_transport item) (wi_session item));
     State_Monad.return delivered }"

section \<open>The worker\<close>

fun close_pending ::
    "'h service_env \<Rightarrow> u32 \<Rightarrow> nat list \<Rightarrow> ('h, 'a) service_task \<Rightarrow> ('h, 'a) service_task" where
  "close_pending E pending [] k = k"
| "close_pending E pending (transport # transports) k =
     (if pending AND push_bit transport 1 \<noteq> 0
      then atomic (close_processor E transport) (\<lambda>_. close_pending E pending transports k)
      else close_pending E pending transports k)"

definition process_pending_disconnects ::
    "'h service_env \<Rightarrow> (bool \<Rightarrow> ('h, 'a) service_task) \<Rightarrow> ('h, 'a) service_task" where
  "process_pending_disconnects E k = atomic exchange_pending (\<lambda>pending.
     if pending = 0 then k False
     else close_pending E pending [AIRDAP_DAP_TRANSPORT_USB..<AIRDAP_DAP_TRANSPORT_COUNT] (k True))"

definition request_timed_out :: "dap_work_item \<Rightarrow> int \<Rightarrow> bool" where
  "request_timed_out item now_us \<longleftrightarrow> now_us \<ge> wi_queued_at_us item \<and>
     now_us - wi_queued_at_us item \<ge> AIRDAP_DAP_SERVICE_REQUEST_TIMEOUT_US"

definition deliver_response ::
    "'h service_env \<Rightarrow> nat \<Rightarrow> dap_work_item \<Rightarrow> bytes \<Rightarrow> nat \<Rightarrow> ('h, 'a) service_task \<Rightarrow>
     ('h, 'a) service_task" where
  "deliver_response E i item response response_length k =
     session_lock E i (wi_transport item) (\<lambda>taken.
       if \<not> taken then atomic (count st_delivery_failures_update) (\<lambda>_. k)
       else atomic (session_is_live (wi_transport item) (wi_session item)) (\<lambda>live.
         if \<not> live then atomic (count st_stale_responses_update) (\<lambda>_.
           session_unlock (wi_transport item) k)
         else atomic (respond_item E item response response_length) (\<lambda>delivered.
           session_unlock (wi_transport item)
             (if \<not> delivered then atomic (count st_delivery_failures_update) (\<lambda>_. k)
              else atomic (count st_responses_delivered_update) (\<lambda>_. k)))))"

definition run_item ::
    "'h service_env \<Rightarrow> nat \<Rightarrow> dap_work_item \<Rightarrow> ('h, 'a) service_task \<Rightarrow> ('h, 'a) service_task" where
  "run_item E i item k =
     atomic (process_item E item) (\<lambda>(response_length, response).
       atomic (count st_requests_processed_update) (\<lambda>_.
         if response_length = 0 then k
         else if response_length > AIRDAP_DAP_PACKET_SIZE
         then atomic (count st_delivery_failures_update) (\<lambda>_. k)
         else atomic (scall (se_get_time E)) (\<lambda>now.
           if request_timed_out item now then atomic (count st_timed_out_update) (\<lambda>_. k)
           else deliver_response E i item response response_length k)))"

definition airdap_dap_service_process_next ::
    "'h service_env \<Rightarrow> nat \<Rightarrow> (bool \<Rightarrow> ('h, 'a) service_task) \<Rightarrow> ('h, 'a) service_task" where
  "airdap_dap_service_process_next E i k =
     process_pending_disconnects E (\<lambda>did_work.
       atomic receive_item (\<lambda>received. case received of
         None \<Rightarrow> k did_work
       | Some item \<Rightarrow>
           process_pending_disconnects E (\<lambda>_.
             atomic (session_is_live (wi_transport item) (wi_session item)) (\<lambda>live.
               if \<not> live then atomic (count st_stale_requests_update) (\<lambda>_. k True)
               else atomic (scall (se_get_time E)) (\<lambda>now.
                 if request_timed_out item now then atomic (count st_timed_out_update) (\<lambda>_. k True)
                 else run_item E i item (k True))))))"

section \<open>The clients\<close>

fun create_mutexes ::
    "'h service_env \<Rightarrow> nat list \<Rightarrow> (bool \<Rightarrow> ('h, 'a) service_task) \<Rightarrow> ('h, 'a) service_task" where
  "create_mutexes E [] k = k True"
| "create_mutexes E (transport # transports) k =
     atomic (scall (se_create_mutex E)) (\<lambda>created.
       if \<not> created then k False else create_mutexes E transports k)"

definition airdap_dap_service_init ::
    "'h service_env \<Rightarrow> string option \<Rightarrow> string option \<Rightarrow> (esp_err \<Rightarrow> ('h, 'a) service_task) \<Rightarrow>
     ('h, 'a) service_task" where
  "airdap_dap_service_init E serial_number firmware_version k =
     (if serial_number = None \<or> firmware_version = None then k ESP_ERR_INVALID_ARG
      else atomic (do {
          started \<leftarrow> reads sv_initialization_started;
          updates (\<lambda>s. s\<lparr>sv_initialization_started := True\<rparr>);
          State_Monad.return started }) (\<lambda>started.
        if started then k ESP_ERR_INVALID_STATE
        else atomic (do {
            created \<leftarrow> scall (se_create_queue E);
            updates (\<lambda>s. s\<lparr>sv_queue_created := created\<rparr>);
            State_Monad.return created }) (\<lambda>created.
          if \<not> created then k ESP_ERR_NO_MEM
          else create_mutexes E [AIRDAP_DAP_TRANSPORT_USB..<AIRDAP_DAP_TRANSPORT_COUNT] (\<lambda>created.
            if \<not> created then k ESP_ERR_NO_MEM
            else atomic (scall (se_dap_init E (the serial_number) (the firmware_version))) (\<lambda>error.
              if error \<noteq> ESP_OK then k error
              else atomic (do {
                  created \<leftarrow> scall (se_create_task E);
                  updates (\<lambda>s. s\<lparr>sv_worker := created\<rparr>);
                  State_Monad.return created }) (\<lambda>created.
                if \<not> created then k ESP_ERR_NO_MEM
                else atomic (updates (\<lambda>s. s\<lparr>sv_initialized := True\<rparr>)) (\<lambda>_. k ESP_OK)))))))"

text \<open>The draw of a session id, \<^verbatim>\<open>atomic_fetch_add(&next_session, 1U)\<close>, by task \<open>i\<close>.\<close>

definition draw_session :: "nat \<Rightarrow> ('h dap_service, u32) state" where
  "draw_session i = do {
     session \<leftarrow> reads sv_next_session;
     updates (\<lambda>s. s\<lparr>sv_next_session := session + 1\<rparr>);
     note_event (Drawn i session);
     State_Monad.return session }"

text \<open>
  The loop that skips the id 0. The counter moves at each draw, so the loop is left after two draws
  unless other tasks draw all other ids in between; a task for which that happens does not go on in
  the model.
\<close>

definition fresh_session :: "nat \<Rightarrow> (u32 \<Rightarrow> ('h, 'a) service_task) \<Rightarrow> ('h, 'a) service_task" where
  "fresh_session i k = atomic (draw_session i) (\<lambda>session.
     if session = 0 then atomic (draw_session i) (\<lambda>session.
       if session = 0 then Act (\<lambda>_. None) else k session)
     else k session)"

definition publish_session :: "nat \<Rightarrow> u32 \<Rightarrow> bool \<Rightarrow> ('h dap_service, unit) state" where
  "publish_session transport session authenticated = do {
     updates (\<lambda>s. s\<lparr>sv_live_sessions := (sv_live_sessions s)(transport := session)\<rparr>);
     note_event (Opened transport session authenticated) }"

definition airdap_dap_service_session_open ::
    "'h service_env \<Rightarrow> nat \<Rightarrow> nat \<Rightarrow> bool \<Rightarrow> bool \<Rightarrow>
     (airdap_dap_service_result \<times> u32 option \<Rightarrow> ('h, 'a) service_task) \<Rightarrow> ('h, 'a) service_task" where
  "airdap_dap_service_session_open E i transport authenticated session_pointer k =
     (if \<not> valid_transport transport \<or> \<not> session_pointer then k (SERVICE_INVALID_ARGUMENT, None)
      else atomic (reads sv_initialized) (\<lambda>initialized.
        if \<not> initialized then k (SERVICE_INVALID_STATE, None)
        else if transport = AIRDAP_DAP_TRANSPORT_NETWORK \<and> \<not> authenticated
        then k (SERVICE_UNAUTHENTICATED, None)
        else session_lock E i transport (\<lambda>taken.
          if \<not> taken then k (SERVICE_INVALID_STATE, None)
          else atomic (reads (\<lambda>s. sv_live_sessions s transport)) (\<lambda>live.
            if live \<noteq> 0 then session_unlock transport (k (SERVICE_BUSY, None))
            else fresh_session i (\<lambda>session.
              atomic (publish_session transport session authenticated) (\<lambda>_.
                session_unlock transport (k (SERVICE_OK, Some session))))))))"

definition retire_session :: "nat \<Rightarrow> ('h dap_service, unit) state" where
  "retire_session transport = do {
     session \<leftarrow> reads (\<lambda>s. sv_live_sessions s transport);
     updates (\<lambda>s. s\<lparr>sv_live_sessions := (sv_live_sessions s)(transport := 0)\<rparr>);
     note_event (Closing transport session) }"

text \<open>What close, reset and submit share: the argument and state checks, the lock and the session check.\<close>

definition with_live_session ::
    "'h service_env \<Rightarrow> nat \<Rightarrow> nat \<Rightarrow> u32 \<Rightarrow> (airdap_dap_service_result \<Rightarrow> ('h, 'a) service_task) \<Rightarrow>
     ('h, 'a) service_task \<Rightarrow> ('h, 'a) service_task" where
  "with_live_session E i transport session k body =
     atomic (reads sv_initialized) (\<lambda>initialized.
       if \<not> initialized then k SERVICE_INVALID_STATE
       else session_lock E i transport (\<lambda>taken.
         if \<not> taken then k SERVICE_INVALID_STATE
         else atomic (session_is_live transport session) (\<lambda>live.
           if \<not> live then session_unlock transport (k SERVICE_STALE_SESSION)
           else body)))"

definition airdap_dap_service_session_close ::
    "'h service_env \<Rightarrow> nat \<Rightarrow> nat \<Rightarrow> u32 \<Rightarrow> (airdap_dap_service_result \<Rightarrow> ('h, 'a) service_task) \<Rightarrow>
     ('h, 'a) service_task" where
  "airdap_dap_service_session_close E i transport session k =
     (if \<not> valid_transport transport \<or> session = 0 then k SERVICE_INVALID_ARGUMENT
      else with_live_session E i transport session k
        (atomic (retire_session transport) (\<lambda>_.
           atomic (request_disconnect transport) (\<lambda>_.
             session_unlock transport (k SERVICE_OK)))))"

definition airdap_dap_service_session_reset ::
    "'h service_env \<Rightarrow> nat \<Rightarrow> nat \<Rightarrow> u32 \<Rightarrow> (airdap_dap_service_result \<Rightarrow> ('h, 'a) service_task) \<Rightarrow>
     ('h, 'a) service_task" where
  "airdap_dap_service_session_reset E i transport session k =
     (if \<not> valid_transport transport \<or> session = 0 then k SERVICE_INVALID_ARGUMENT
      else with_live_session E i transport session k
        (atomic (request_disconnect transport) (\<lambda>_.
           session_unlock transport (k SERVICE_OK))))"

definition airdap_dap_service_submit ::
    "'h service_env \<Rightarrow> nat \<Rightarrow> nat \<Rightarrow> u32 \<Rightarrow> bytes option \<Rightarrow> nat \<Rightarrow> nat \<Rightarrow> nat \<Rightarrow> nat \<Rightarrow>
     (airdap_dap_service_result \<Rightarrow> ('h, 'a) service_task) \<Rightarrow> ('h, 'a) service_task" where
  "airdap_dap_service_submit E i transport session request request_length token callback context_pointer k =
     (if \<not> valid_transport transport \<or> session = 0 \<or> request = None \<or> request_length = 0 \<or>
         request_length > AIRDAP_DAP_PACKET_SIZE \<or> callback = 0
      then k SERVICE_INVALID_ARGUMENT
      else with_live_session E i transport session k
        (atomic (scall (se_get_time E)) (\<lambda>now.
           atomic (send_item \<lparr>wi_transport = transport, wi_session = session, wi_response_token = token,
               wi_response_callback = callback, wi_response_context = context_pointer,
               wi_queued_at_us = now, wi_request_length = request_length,
               wi_request = take request_length (the request)\<rparr>) (\<lambda>sent.
             if \<not> sent then atomic (count st_queue_full_update) (\<lambda>_.
               session_unlock transport (k SERVICE_QUEUE_FULL))
             else atomic (count st_requests_accepted_update) (\<lambda>_.
               session_unlock transport (k SERVICE_OK))))))"

text \<open>Each counter is loaded on its own.\<close>

definition airdap_dap_service_get_stats ::
    "(dap_service_stats \<Rightarrow> ('h, 'a) service_task) \<Rightarrow> ('h, 'a) service_task" where
  "airdap_dap_service_get_stats k =
     atomic (reads (st_requests_accepted \<circ> sv_stats)) (\<lambda>accepted.
     atomic (reads (st_requests_processed \<circ> sv_stats)) (\<lambda>processed.
     atomic (reads (st_responses_delivered \<circ> sv_stats)) (\<lambda>delivered.
     atomic (reads (st_queue_full \<circ> sv_stats)) (\<lambda>full.
     atomic (reads (st_timed_out \<circ> sv_stats)) (\<lambda>timed_out.
     atomic (reads (st_stale_requests \<circ> sv_stats)) (\<lambda>stale_requests.
     atomic (reads (st_stale_responses \<circ> sv_stats)) (\<lambda>stale_responses.
     atomic (reads (st_delivery_failures \<circ> sv_stats)) (\<lambda>failures.
       k \<lparr>st_requests_accepted = accepted, st_requests_processed = processed,
          st_responses_delivered = delivered, st_queue_full = full, st_timed_out = timed_out,
          st_stale_requests = stale_requests, st_stale_responses = stale_responses,
          st_delivery_failures = failures\<rparr>))))))))"

section \<open>The system\<close>

text \<open>
  Task 0 is the worker once it has been created; any other task may call any function of the
  component with any arguments. The outside moves freely.
\<close>

definition service_starts ::
    "'h service_env \<Rightarrow> nat \<Rightarrow> 'h dap_service \<Rightarrow> ('h, unit) service_task set" where
  "service_starts E i s =
     (if i = 0 then (if sv_worker s then {airdap_dap_service_process_next E 0 (\<lambda>_. Done ())} else {})
      else {t. (\<exists>serial version. t = airdap_dap_service_init E serial version (\<lambda>_. Done ())) \<or>
        (\<exists>tr authenticated p. t = airdap_dap_service_session_open E i tr authenticated p (\<lambda>_. Done ())) \<or>
        (\<exists>tr session. t = airdap_dap_service_session_close E i tr session (\<lambda>_. Done ())) \<or>
        (\<exists>tr session. t = airdap_dap_service_session_reset E i tr session (\<lambda>_. Done ())) \<or>
        (\<exists>tr session request n token callback ctx.
           t = airdap_dap_service_submit E i tr session request n token callback ctx (\<lambda>_. Done ())) \<or>
        t = airdap_dap_service_get_stats (\<lambda>_. Done ())})"

definition service_world :: "'h dap_service \<Rightarrow> 'h dap_service \<Rightarrow> bool" where
  "service_world s s' \<longleftrightarrow> (\<exists>h. s' = s\<lparr>sv_world := h\<rparr>)"

definition zero_stats :: dap_service_stats where
  "zero_stats = \<lparr>st_requests_accepted = 0, st_requests_processed = 0, st_responses_delivered = 0,
     st_queue_full = 0, st_timed_out = 0, st_stale_requests = 0, st_stale_responses = 0,
     st_delivery_failures = 0\<rparr>"

definition service_reset :: "'h \<Rightarrow> 'h dap_service" where
  "service_reset h = \<lparr>sv_queue = [], sv_queue_created = False, sv_initialization_started = False,
     sv_initialized = False, sv_worker = False, sv_next_session = 1, sv_live_sessions = (\<lambda>_. 0),
     sv_pending_disconnects = 0, sv_mutex_holder = (\<lambda>_. None), sv_stats = zero_stats, sv_world = h,
     sv_trace = []\<rparr>"

end
