(* ===== verification/Dap_Sessions.thy ===== *)
theory Dap_Sessions
  imports Dap_Service
begin

text \<open>
  What the debug service of theory \<open>Dap_Service\<close> promises, on the history of any interleaving of its
  worker and its clients: sessions are isolated from each other, responses go only to open sessions,
  and requests are neither lost nor reordered. The proof is by rely and guarantee: an invariant of
  the shared state, what each task guarantees to the others, and assertions between the actions of
  each function.
\<close>

section \<open>Reading a history\<close>

text \<open>The session a transport has open.\<close>

fun live_of :: "service_event list \<Rightarrow> nat \<Rightarrow> u32" where
  "live_of [] tr = 0"
| "live_of (Opened tr' session a # es) tr = (if tr' = tr then session else live_of es tr)"
| "live_of (Closing tr' session # es) tr = (if tr' = tr then 0 else live_of es tr)"
| "live_of (_ # es) tr = live_of es tr"

text \<open>The session whose requests the processor of a transport has run since it was last closed.\<close>

fun runner :: "service_event list \<Rightarrow> nat \<Rightarrow> u32 option" where
  "runner [] tr = None"
| "runner (Processed tr' session # es) tr = (if tr' = tr then Some session else runner es tr)"
| "runner (Processor_closed tr' # es) tr = (if tr' = tr then None else runner es tr)"
| "runner (_ # es) tr = runner es tr"

text \<open>A disconnect the worker has taken and not yet carried out.\<close>

fun underway :: "service_event list \<Rightarrow> nat \<Rightarrow> bool" where
  "underway [] tr = False"
| "underway (Taken w # es) tr = (bit w tr \<or> underway es tr)"
| "underway (Processor_closed tr' # es) tr = (tr' \<noteq> tr \<and> underway es tr)"
| "underway (_ # es) tr = underway es tr"

text \<open>A session that is closed while its disconnect has not been requested yet.\<close>

fun unrequested :: "service_event list \<Rightarrow> nat \<Rightarrow> bool" where
  "unrequested [] tr = False"
| "unrequested (Closing tr' session # es) tr = (tr' = tr \<or> unrequested es tr)"
| "unrequested (Requested tr' # es) tr = (tr' \<noteq> tr \<and> unrequested es tr)"
| "unrequested (_ # es) tr = unrequested es tr"

fun draws :: "service_event list \<Rightarrow> nat" where
  "draws [] = 0"
| "draws (Drawn i session # es) = Suc (draws es)"
| "draws (_ # es) = draws es"

fun submitted :: "service_event list \<Rightarrow> dap_work_item list" where
  "submitted [] = []"
| "submitted (Submitted item # es) = submitted es @ [item]"
| "submitted (_ # es) = submitted es"

fun received :: "service_event list \<Rightarrow> dap_work_item list" where
  "received [] = []"
| "received (Received item # es) = received es @ [item]"
| "received (_ # es) = received es"

text \<open>
  What the service promises, event by event: a session is opened only when its transport has none,
  with a new id, and on the network only when it was authenticated; a request runs only for a session
  that was opened, on a processor that has seen no request of another session since it was closed;
  a response goes out only while its session is open, after a request of it has run.
\<close>

fun event_ok :: "service_event list \<Rightarrow> service_event \<Rightarrow> bool" where
  "event_ok es (Opened tr session authenticated) \<longleftrightarrow> live_of es tr = 0 \<and> session \<noteq> 0 \<and>
     (\<forall>tr' a. Opened tr' session a \<notin> set es) \<and> (tr = AIRDAP_DAP_TRANSPORT_NETWORK \<longrightarrow> authenticated)"
| "event_ok es (Processed tr session) \<longleftrightarrow>
     (\<exists>a. Opened tr session a \<in> set es) \<and> (runner es tr = None \<or> runner es tr = Some session)"
| "event_ok es (Responded tr session) \<longleftrightarrow>
     session \<noteq> 0 \<and> live_of es tr = session \<and> Processed tr session \<in> set es"
| "event_ok es _ \<longleftrightarrow> True"

fun trace_ok :: "service_event list \<Rightarrow> bool" where
  "trace_ok [] \<longleftrightarrow> True"
| "trace_ok (e # es) \<longleftrightarrow> event_ok es e \<and> trace_ok es"

section \<open>The invariant\<close>

text \<open>
  Session ids are 32 bits wide. The invariant is about executions that have drawn fewer than
  \<open>2 ^ 32 - 1\<close> of them, so that no id is drawn twice.
\<close>

definition bounded :: "'h dap_service \<Rightarrow> bool" where
  "bounded s \<longleftrightarrow> draws (sv_trace s) < 2 ^ 32 - 1"

definition ids_ok :: "'h dap_service \<Rightarrow> bool" where
  "ids_ok s \<longleftrightarrow> sv_next_session s = of_nat (Suc (draws (sv_trace s))) \<and>
     (\<forall>j session. Drawn j session \<in> set (sv_trace s) \<longrightarrow>
        session \<noteq> 0 \<and> unat session \<le> draws (sv_trace s)) \<and>
     (\<forall>j j' session. Drawn j session \<in> set (sv_trace s) \<longrightarrow> Drawn j' session \<in> set (sv_trace s) \<longrightarrow> j = j')"

definition sessions_ok :: "'h dap_service \<Rightarrow> bool" where
  "sessions_ok s \<longleftrightarrow> (\<forall>tr. sv_live_sessions s tr = live_of (sv_trace s) tr) \<and>
     (\<forall>tr session a. Opened tr session a \<in> set (sv_trace s) \<longrightarrow>
        (\<exists>j. Drawn j session \<in> set (sv_trace s)) \<and>
        (sv_live_sessions s tr \<noteq> session \<longrightarrow> Closing tr session \<in> set (sv_trace s))) \<and>
     (\<forall>tr session. Closing tr session \<in> set (sv_trace s) \<longrightarrow>
        (\<exists>a. Opened tr session a \<in> set (sv_trace s))) \<and>
     (\<forall>tr. sv_live_sessions s tr \<noteq> 0 \<longrightarrow>
        (\<exists>a. Opened tr (sv_live_sessions s tr) a \<in> set (sv_trace s)) \<and>
        Closing tr (sv_live_sessions s tr) \<notin> set (sv_trace s))"

definition owed :: "'h dap_service \<Rightarrow> nat \<Rightarrow> bool" where
  "owed s tr \<longleftrightarrow> bit (sv_pending_disconnects s) tr \<or> unrequested (sv_trace s) tr"

definition disconnects_ok :: "'h dap_service \<Rightarrow> bool" where
  "disconnects_ok s \<longleftrightarrow>
     (\<forall>tr. unrequested (sv_trace s) tr \<longrightarrow> sv_mutex_holder s tr \<noteq> None \<and> sv_live_sessions s tr = 0) \<and>
     (\<forall>tr session. runner (sv_trace s) tr = Some session \<longrightarrow> session \<noteq> 0) \<and>
     (\<forall>tr session. tr < 2 \<longrightarrow> runner (sv_trace s) tr = Some session \<longrightarrow>
        sv_live_sessions s tr \<noteq> session \<longrightarrow> owed s tr \<or> underway (sv_trace s) tr)"

definition item_opened :: "dap_work_item \<Rightarrow> 'h dap_service \<Rightarrow> bool" where
  "item_opened item s \<longleftrightarrow> wi_transport item < 2 \<and>
     (\<exists>a. Opened (wi_transport item) (wi_session item) a \<in> set (sv_trace s))"

definition queue_ok :: "'h dap_service \<Rightarrow> bool" where
  "queue_ok s \<longleftrightarrow> length (sv_queue s) \<le> DAP_QUEUE_DEPTH \<and> (\<forall>item \<in> set (sv_queue s). item_opened item s) \<and>
     submitted (sv_trace s) = received (sv_trace s) @ sv_queue s"

definition core :: "'h dap_service \<Rightarrow> bool" where
  "core s \<longleftrightarrow> ids_ok s \<and> sessions_ok s \<and> disconnects_ok s \<and> queue_ok s \<and> trace_ok (sv_trace s)"

definition service_inv :: "'h dap_service \<Rightarrow> bool" where
  "service_inv s \<longleftrightarrow> (bounded s \<longrightarrow> core s)"

text \<open>What a task guarantees to the others: mutexes held by them protect their sessions, only the
  worker moves the processors, a request for a disconnect is not lost, and a session is opened with an
  id the task itself drew.\<close>

definition grows :: "'h dap_service \<Rightarrow> 'h dap_service \<Rightarrow> bool" where
  "grows s s' \<longleftrightarrow> (\<exists>es. sv_trace s' = es @ sv_trace s)"

definition respectful :: "nat \<Rightarrow> 'h dap_service \<Rightarrow> 'h dap_service \<Rightarrow> bool" where
  "respectful i s s' \<longleftrightarrow>
     (\<forall>tr j. j \<noteq> i \<longrightarrow> sv_mutex_holder s tr = Some j \<longrightarrow> sv_mutex_holder s' tr = Some j \<and>
        sv_live_sessions s' tr = sv_live_sessions s tr \<and>
        unrequested (sv_trace s') tr = unrequested (sv_trace s) tr) \<and>
     (i \<noteq> 0 \<longrightarrow> (\<forall>tr. runner (sv_trace s') tr = runner (sv_trace s) tr \<and>
        underway (sv_trace s') tr = underway (sv_trace s) tr)) \<and>
     (i \<noteq> 0 \<longrightarrow> (\<forall>tr session. tr < 2 \<longrightarrow> session \<noteq> 0 \<longrightarrow> sv_live_sessions s tr = session \<or> owed s tr \<longrightarrow>
        sv_live_sessions s' tr = session \<or> owed s' tr)) \<and>
     (\<forall>tr session a. Opened tr session a \<in> set (sv_trace s') \<longrightarrow>
        Opened tr session a \<in> set (sv_trace s) \<or> Drawn i session \<in> set (sv_trace s))"

definition service_guar :: "nat \<Rightarrow> 'h dap_service \<Rightarrow> 'h dap_service \<Rightarrow> bool" where
  "service_guar i s s' \<longleftrightarrow> grows s s' \<and> (bounded s' \<longrightarrow> respectful i s s')"

definition none_underway :: "'h dap_service \<Rightarrow> bool" where
  "none_underway s \<longleftrightarrow> (\<forall>tr < 2. \<not> underway (sv_trace s) tr)"

definition service_idle :: "nat \<Rightarrow> 'h dap_service \<Rightarrow> bool" where
  "service_idle i s \<longleftrightarrow> (bounded s \<longrightarrow> i = 0 \<longrightarrow> none_underway s)"

section \<open>Rules for actions\<close>

definition asr :: "('h dap_service \<Rightarrow> bool) \<Rightarrow> 'h dap_service \<Rightarrow> bool" where
  "asr P s \<longleftrightarrow> (bounded s \<longrightarrow> P s)"

definition stab :: "nat \<Rightarrow> ('h dap_service \<Rightarrow> bool) \<Rightarrow> bool" where
  "stab i P \<longleftrightarrow> (\<forall>s s' j. core s \<longrightarrow> core s' \<longrightarrow> grows s s' \<longrightarrow> j \<noteq> i \<longrightarrow> respectful j s s' \<longrightarrow> P s \<longrightarrow> P s')"

definition svc_safe :: "nat \<Rightarrow> ('h dap_service \<Rightarrow> bool) \<Rightarrow> ('h, 'a) service_task \<Rightarrow> bool" where
  "svc_safe i P t \<longleftrightarrow> safe service_inv service_guar service_world service_idle i (asr P) t"

text \<open>The part of the state the invariant is about.\<close>

definition same_core :: "'h dap_service \<Rightarrow> 'h dap_service \<Rightarrow> bool" where
  "same_core s s' \<longleftrightarrow> sv_queue s' = sv_queue s \<and> sv_next_session s' = sv_next_session s \<and>
     sv_live_sessions s' = sv_live_sessions s \<and> sv_pending_disconnects s' = sv_pending_disconnects s \<and>
     sv_mutex_holder s' = sv_mutex_holder s \<and> sv_trace s' = sv_trace s"

lemmas core_defs = core_def ids_ok_def sessions_ok_def disconnects_ok_def queue_ok_def owed_def
  item_opened_def

lemma core_same: "same_core s s' \<Longrightarrow> core s' = core s"
  by (simp add: same_core_def core_defs)

lemma respectful_same: "same_core s s' \<Longrightarrow> respectful i s s'"
  by (simp add: same_core_def respectful_def owed_def)

lemma grows_same: "same_core s s' \<Longrightarrow> grows s s'"
  by (simp add: same_core_def grows_def)

lemma draws_append: "draws (es @ es') = draws es + draws es'"
  by (induction es rule: draws.induct) simp_all

lemma bounded_grows: "grows s s' \<Longrightarrow> bounded s' \<Longrightarrow> bounded s"
  by (auto simp: grows_def bounded_def draws_append)

lemma stab_stable:
  assumes "stab i P" shows "stable service_inv service_guar service_world i (asr P)"
  unfolding stable_def
proof (intro allI impI, elim conjE)
  fix s s' :: "'a dap_service"
  assume inv: "service_inv s" "service_inv s'" and P: "asr P s"
    and move: "service_world s s' \<or> (\<exists>j. j \<noteq> i \<and> service_guar j s s')"
  show "asr P s'"
    unfolding asr_def
  proof
    assume b: "bounded s'"
    from move obtain j where j: "j \<noteq> i" "grows s s'" "respectful j s s'"
    proof
      assume "service_world s s'"
      then have "same_core s s'"
        by (auto simp: service_world_def same_core_def)
      then show ?thesis
        by (intro that [of "Suc i"]) (simp_all add: respectful_same grows_same)
    qed (auto simp: service_guar_def b)
    have "bounded s"
      using bounded_grows [OF j(2) b] .
    then show "P s'"
      using assms inv P j b unfolding stab_def service_inv_def asr_def by blast
  qed
qed

lemma svc_done:
  "stab i P \<Longrightarrow> (i = 0 \<Longrightarrow> \<forall>s. P s \<longrightarrow> none_underway s) \<Longrightarrow> svc_safe i P (Done a)"
  unfolding svc_safe_def by (rule safe.finished) (auto simp: stab_stable asr_def service_idle_def)

lemma svc_atomic:
  assumes "stab i P" "\<And>s. wp m (\<lambda>_ s'. grows s s') s"
    and "\<And>s. core s \<Longrightarrow> P s \<Longrightarrow> wp m (\<lambda>b s'. bounded s' \<longrightarrow> core s' \<and> respectful i s s' \<and> Q b s') s"
    and "\<And>b. svc_safe i (Q b) (k b)"
  shows "svc_safe i P (atomic m k)"
  unfolding svc_safe_def
proof (rule safe_atomic [OF stab_stable [OF assms(1)]])
  fix s assume "service_inv s" "asr P s"
  then have "wp m (\<lambda>b s'. grows s s' \<and> (bounded s \<longrightarrow> bounded s' \<longrightarrow> core s' \<and> respectful i s s' \<and> Q b s')) s"
    using assms(2) [of s] assms(3) [of s]
    by (cases "bounded s") (auto simp: service_inv_def asr_def wp_conj elim: wp_mono)
  then show "wp m (\<lambda>b s'. service_inv s' \<and> service_guar i s s' \<and> asr (Q b) s') s"
    by (rule wp_mono) (auto simp: service_inv_def service_guar_def asr_def dest: bounded_grows)
qed (use assms(4) in \<open>simp add: svc_safe_def\<close>)

text \<open>An action outside the part of the state the invariant is about.\<close>

lemma svc_quiet:
  assumes "stab i P" "\<And>s. wp m (\<lambda>b s'. same_core s s' \<and> (P s \<longrightarrow> Q b s')) s"
    and "\<And>b. svc_safe i (Q b) (k b)"
  shows "svc_safe i P (atomic m k)"
  by (rule svc_atomic [OF assms(1) wp_mono [OF assms(2)] wp_mono [OF assms(2)] assms(3)])
    (auto simp: core_same respectful_same grows_same)

text \<open>Assertions do not look at the part of the state that is outside the invariant.\<close>

definition about_core :: "('h dap_service \<Rightarrow> bool) \<Rightarrow> bool" where
  "about_core P \<longleftrightarrow> (\<forall>s s'. same_core s s' \<longrightarrow> P s' = P s)"

lemma same_core_world [simp]: "same_core s (s\<lparr>sv_world := h\<rparr>)"
  by (simp add: same_core_def)

lemma about_world: "about_core P \<Longrightarrow> P (s\<lparr>sv_world := h\<rparr>) = P s"
  by (simp add: about_core_def)

lemma core_world [simp]: "core (s\<lparr>sv_world := h\<rparr>) = core s"
  by (rule core_same) simp

lemma svc_call:
  assumes "stab i P" "about_core P" "\<And>b. svc_safe i P (k b)"
  shows "svc_safe i P (atomic (scall f) k)"
proof (rule svc_quiet [OF assms(1) _ assms(3)])
  fix s :: "'a dap_service"
  show "wp (scall f) (\<lambda>b s'. same_core s s' \<and> (P s \<longrightarrow> P s')) s"
    by (simp add: scall_def wp_def about_world [OF assms(2)] split: prod.splits)
qed

lemma svc_count:
  assumes "stab i P" "about_core P" "svc_safe i P k"
  shows "svc_safe i P (atomic (count c) (\<lambda>_. k))"
proof (rule svc_quiet [OF assms(1) _ assms(3)])
  fix s :: "'a dap_service"
  have "same_core s (s\<lparr>sv_stats := x\<rparr>)" for x
    by (simp add: same_core_def)
  then show "wp (count c) (\<lambda>b s'. same_core s s' \<and> (P s \<longrightarrow> P s')) s"
    using assms(2) by (auto simp: count_def wp_simps about_core_def)
qed

lemma svc_read:
  assumes "stab i P" "\<And>b s. P s \<Longrightarrow> b = f s \<Longrightarrow> Q b s" "\<And>b. svc_safe i (Q b) (k b)"
  shows "svc_safe i P (atomic (reads f) k)"
  by (rule svc_quiet [OF assms(1) _ assms(3)]) (use assms(2) in \<open>simp add: wp_simps same_core_def\<close>)

section \<open>Mutexes\<close>

definition locked :: "nat \<Rightarrow> nat \<Rightarrow> 'h dap_service \<Rightarrow> bool" where
  "locked i tr s \<longleftrightarrow> sv_mutex_holder s tr = Some i \<and> \<not> unrequested (sv_trace s) tr"

lemma core_holder:
  "core s \<Longrightarrow> (\<And>tr. sv_mutex_holder s tr \<noteq> None \<Longrightarrow> unrequested (sv_trace s) tr \<Longrightarrow> holders tr \<noteq> None) \<Longrightarrow>
   core (s\<lparr>sv_mutex_holder := holders\<rparr>)"
  by (auto simp: core_defs)

lemma svc_lock:
  assumes "stab i P" "about_core P"
    and holders: "\<And>s f. P s \<Longrightarrow> P (s\<lparr>sv_mutex_holder := f\<rparr>)"
    and yes: "svc_safe i (\<lambda>s. P s \<and> locked i tr s) (k True)" and no: "svc_safe i P (k False)"
  shows "svc_safe i P (session_lock E i tr k)"
  unfolding svc_safe_def session_lock_def
proof (rule safe.action [OF stab_stable [OF assms(1)]])
  fix s t s'
  assume inv: "service_inv s" "asr P s" and act: "(case se_take_mutex E (sv_world s) of (taken, h) \<Rightarrow>
     if \<not> taken then Some (k False, s\<lparr>sv_world := h\<rparr>)
     else if sv_mutex_holder s tr = None
     then Some (k True, s\<lparr>sv_world := h, sv_mutex_holder := (sv_mutex_holder s)(tr := Some i)\<rparr>)
     else None) = Some (t, s')"
  obtain b h where bh: "se_take_mutex E (sv_world s) = (b, h)"
    by fastforce
  let ?Q = "if b then \<lambda>s. P s \<and> locked i tr s else P"
  have t: "t = k b" and s': "s' = (if b then s\<lparr>sv_world := h, sv_mutex_holder := (sv_mutex_holder s)(tr := Some i)\<rparr>
      else s\<lparr>sv_world := h\<rparr>)" and free: "b \<longrightarrow> sv_mutex_holder s tr = None"
    using act bh by (auto split: if_splits)
  have core: "core s' \<and> respectful i s s' \<and> ?Q s'" if "core s" "P s"
  proof (cases b)
    case True
    then have "\<not> unrequested (sv_trace s) tr"
      using that(1) free by (auto simp: core_def disconnects_ok_def)
    then have "locked i tr s'"
      using True by (simp add: s' locked_def)
    moreover have "P s'"
      using True that(2) holders [of "s\<lparr>sv_world := h\<rparr>"] by (simp add: s' about_world [OF assms(2)])
    moreover have "core s'"
      using True that(1) core_holder [of "s\<lparr>sv_world := h\<rparr>"] by (simp add: s')
    moreover have "respectful i s s'"
      using True free by (auto simp: s' respectful_def owed_def)
    ultimately show ?thesis
      using True by simp
  next
    case False
    then show ?thesis
      using that respectful_same [OF same_core_world, of i s h] by (simp add: s' about_world [OF assms(2)])
  qed
  have "grows s s'" "bounded s' = bounded s"
    by (simp_all add: s' grows_def bounded_def)
  then have "service_inv s' \<and> service_guar i s s' \<and> asr ?Q s'"
    using core inv by (auto simp: service_inv_def service_guar_def asr_def)
  moreover have "safe service_inv service_guar service_world service_idle i (asr ?Q) t"
    using yes no by (simp add: t svc_safe_def)
  ultimately show "service_inv s' \<and> service_guar i s s' \<and>
      (\<exists>Q. Q s' \<and> safe service_inv service_guar service_world service_idle i Q t)"
    by blast
qed

lemma svc_unlock:
  assumes "stab i P" "\<And>s. P s \<Longrightarrow> locked i tr s"
    and "\<And>s f. P s \<Longrightarrow> Q (s\<lparr>sv_mutex_holder := f\<rparr>)" "svc_safe i Q k"
  shows "svc_safe i P (session_unlock tr k)"
  unfolding session_unlock_def
  by (rule svc_atomic [OF assms(1) _ _ assms(4)])
    (auto simp: wp_simps grows_def assms(3) locked_def respectful_def owed_def intro!: core_holder
      dest: assms(2))

section \<open>Actions keep the invariant\<close>

definition after :: "'h dap_service \<Rightarrow> service_event \<Rightarrow> 'h dap_service" where
  "after s e = s\<lparr>sv_trace := e # sv_trace s\<rparr>"

lemma after_simps [simp]:
  "sv_trace (after s e) = e # sv_trace s" "sv_queue (after s e) = sv_queue s"
  "sv_next_session (after s e) = sv_next_session s" "sv_live_sessions (after s e) = sv_live_sessions s"
  "sv_pending_disconnects (after s e) = sv_pending_disconnects s"
  "sv_mutex_holder (after s e) = sv_mutex_holder s"
  by (simp_all add: after_def)

lemma wp_note_event [wp_simps]: "wp (note_event e) Q s = Q () (after s e)"
  by (simp add: note_event_def after_def wp_simps)

lemma bit_flag: "bit (2 ^ tr :: u32) n \<longleftrightarrow> tr < 32 \<and> n = tr"
  by (auto simp: bit_exp_iff)

text \<open>Closing a session and asking for the disconnect.\<close>

lemma retire_core:
  assumes "core s" "locked i tr s" "sv_live_sessions s tr = session" "session \<noteq> 0"
  defines "s' \<equiv> after (s\<lparr>sv_live_sessions := (sv_live_sessions s)(tr := 0)\<rparr>) (Closing tr session)"
  shows "core s'"
proof -
  have "ids_ok s'" "trace_ok (sv_trace s')" "queue_ok s'"
    using assms(1) by (simp_all add: s'_def core_def ids_ok_def queue_ok_def item_opened_def)
  moreover have "sessions_ok s'"
    using assms(1,3,4) unfolding core_def sessions_ok_def s'_def by (auto; blast)
  moreover have "disconnects_ok s'"
    using assms(1-4) unfolding core_def disconnects_ok_def s'_def locked_def owed_def by auto
  ultimately show ?thesis
    by (simp add: core_def)
qed

lemma retire_respectful:
  assumes "locked i tr s"
  shows "respectful i s (after (s\<lparr>sv_live_sessions := (sv_live_sessions s)(tr := 0)\<rparr>) (Closing tr session))"
  using assms by (auto simp: respectful_def locked_def owed_def)

lemma request_core:
  assumes "core s" "tr < 2"
  defines "s' \<equiv> after (s\<lparr>sv_pending_disconnects := sv_pending_disconnects s OR push_bit tr 1\<rparr>) (Requested tr)"
  shows "core s'"
proof -
  have "ids_ok s'" "trace_ok (sv_trace s')" "queue_ok s'"
    using assms(1) by (simp_all add: s'_def core_def ids_ok_def queue_ok_def item_opened_def)
  moreover have "sessions_ok s'"
    using assms(1) unfolding core_def sessions_ok_def s'_def by auto
  moreover have "disconnects_ok s'"
    using assms(1,2) unfolding core_def disconnects_ok_def s'_def owed_def
    by (auto simp: bit_or_iff bit_flag)
  ultimately show ?thesis
    by (simp add: core_def)
qed

lemma request_respectful:
  assumes "sv_mutex_holder s tr = Some i" "tr < 2"
  shows "respectful i s
    (after (s\<lparr>sv_pending_disconnects := sv_pending_disconnects s OR push_bit tr 1\<rparr>) (Requested tr))"
  using assms by (auto simp: respectful_def owed_def bit_or_iff bit_flag)

text \<open>Drawing an id.\<close>

lemma next_id:
  assumes "core s" "draws (sv_trace s) < 2 ^ 32 - 2"
  shows "unat (sv_next_session s) = Suc (draws (sv_trace s))" "sv_next_session s \<noteq> 0"
proof -
  have "Suc (draws (sv_trace s)) < 2 ^ 32"
    using assms(2) by simp
  then show *: "unat (sv_next_session s) = Suc (draws (sv_trace s))"
    using assms(1) by (simp add: core_def ids_ok_def unat_of_nat take_bit_nat_eq_self del: of_nat_Suc)
  show "sv_next_session s \<noteq> 0"
    using * by auto
qed

lemma drawn_small: "core s \<Longrightarrow> Drawn j session \<in> set (sv_trace s) \<Longrightarrow> unat session \<le> draws (sv_trace s)"
  by (auto simp: core_def ids_ok_def)

lemma draw_core:
  fixes s :: "'h dap_service" and i :: nat
  assumes "core s"
  defines "s' \<equiv> after (s\<lparr>sv_next_session := sv_next_session s + 1\<rparr>) (Drawn i (sv_next_session s))"
  assumes "bounded s'"
  shows "core s'"
    and "(\<forall>tr a. Opened tr (sv_next_session s) a \<notin> set (sv_trace s))" "sv_next_session s \<noteq> 0"
proof -
  have small: "draws (sv_trace s) < 2 ^ 32 - 2"
    using assms(3) by (simp add: s'_def bounded_def)
  note fresh = next_id [OF assms(1) small] drawn_small [OF assms(1)]
  have new: "Drawn j (sv_next_session s) \<notin> set (sv_trace s)" for j
    using fresh(1) fresh(3) [of j "sv_next_session s"] by auto
  have "ids_ok s'"
    using assms(1) fresh new unfolding s'_def core_def ids_ok_def by (auto simp: le_Suc_eq)
  moreover have "sessions_ok s'"
    using assms(1) unfolding core_def sessions_ok_def s'_def by (auto; blast)
  moreover have "trace_ok (sv_trace s')" "queue_ok s'" "disconnects_ok s'"
    using assms(1) by (simp_all add: s'_def core_def queue_ok_def item_opened_def disconnects_ok_def owed_def)
  ultimately show "core s'"
    by (simp add: core_def)
  show "\<forall>tr a. Opened tr (sv_next_session s) a \<notin> set (sv_trace s)"
    using assms(1) new unfolding core_def sessions_ok_def by blast
  show "sv_next_session s \<noteq> 0"
    by (rule fresh)
qed

lemma draw_respectful: "respectful i s (after (s\<lparr>sv_next_session := n\<rparr>) (Drawn j session))"
  by (simp add: respectful_def owed_def)

text \<open>Publishing a session.\<close>

lemma publish_core:
  assumes "core s" "locked i tr s" "sv_live_sessions s tr = 0" "session \<noteq> 0"
    and "Drawn i session \<in> set (sv_trace s)" "\<forall>tr a. Opened tr session a \<notin> set (sv_trace s)"
    and "tr = AIRDAP_DAP_TRANSPORT_NETWORK \<longrightarrow> authenticated"
  defines "s' \<equiv> after (s\<lparr>sv_live_sessions := (sv_live_sessions s)(tr := session)\<rparr>) (Opened tr session authenticated)"
  shows "core s'"
proof -
  have "ids_ok s'"
    using assms(1) by (simp add: s'_def core_def ids_ok_def)
  moreover have "trace_ok (sv_trace s')"
    using assms(1,3-7) by (simp add: s'_def core_def sessions_ok_def)
  moreover have "queue_ok s'"
    using assms(1) unfolding s'_def core_def queue_ok_def item_opened_def by auto
  moreover have "sessions_ok s'"
  proof -
    have live: "sv_live_sessions s tr' = live_of (sv_trace s) tr'" for tr'
      using assms(1) unfolding core_def sessions_ok_def by blast
    have opened: "(\<exists>j. Drawn j session' \<in> set (sv_trace s)) \<and> session' \<noteq> 0 \<and>
        (sv_live_sessions s tr' \<noteq> session' \<longrightarrow> Closing tr' session' \<in> set (sv_trace s))"
      if "Opened tr' session' a \<in> set (sv_trace s)" for tr' session' a
      using assms(1) that unfolding core_def ids_ok_def sessions_ok_def by blast
    have closed: "\<exists>a. Opened tr' session' a \<in> set (sv_trace s)"
      if "Closing tr' session' \<in> set (sv_trace s)" for tr' session'
      using assms(1) that unfolding core_def sessions_ok_def by blast
    have alive: "(\<exists>a. Opened tr' (sv_live_sessions s tr') a \<in> set (sv_trace s)) \<and>
        Closing tr' (sv_live_sessions s tr') \<notin> set (sv_trace s)"
      if "sv_live_sessions s tr' \<noteq> 0" for tr'
      using assms(1) that unfolding core_def sessions_ok_def by blast
    have new: "Closing tr session \<notin> set (sv_trace s)"
      using closed assms(6) by blast
    have "\<forall>tr'. sv_live_sessions s' tr' = live_of (sv_trace s') tr'"
      by (simp add: s'_def live)
    moreover have "\<forall>tr' session' a. Opened tr' session' a \<in> set (sv_trace s') \<longrightarrow>
        (\<exists>j. Drawn j session' \<in> set (sv_trace s')) \<and>
        (sv_live_sessions s' tr' \<noteq> session' \<longrightarrow> Closing tr' session' \<in> set (sv_trace s'))"
      using opened assms(3,5) by (auto simp: s'_def)
    moreover have "\<forall>tr' session'. Closing tr' session' \<in> set (sv_trace s') \<longrightarrow>
        (\<exists>a. Opened tr' session' a \<in> set (sv_trace s'))"
      using closed by (auto simp: s'_def)
    moreover have "\<forall>tr'. sv_live_sessions s' tr' \<noteq> 0 \<longrightarrow>
        (\<exists>a. Opened tr' (sv_live_sessions s' tr') a \<in> set (sv_trace s')) \<and>
        Closing tr' (sv_live_sessions s' tr') \<notin> set (sv_trace s')"
      using alive new by (auto simp: s'_def)
    ultimately show ?thesis
      unfolding sessions_ok_def by blast
  qed
  moreover have "disconnects_ok s'"
    using assms(1-4) unfolding core_def disconnects_ok_def s'_def locked_def owed_def by auto
  ultimately show ?thesis
    by (simp add: core_def)
qed

lemma publish_respectful:
  assumes "locked i tr s" "sv_live_sessions s tr = 0" "Drawn i session \<in> set (sv_trace s)"
  shows "respectful i s
    (after (s\<lparr>sv_live_sessions := (sv_live_sessions s)(tr := session)\<rparr>) (Opened tr session a))"
  using assms by (auto simp: respectful_def locked_def owed_def)

text \<open>The worker takes the requests for disconnects and carries them out.\<close>

lemma exchange_core:
  assumes "core s"
  shows "core (after (s\<lparr>sv_pending_disconnects := 0\<rparr>) (Taken (sv_pending_disconnects s)))" (is "core ?s'")
proof -
  have "ids_ok ?s'" "trace_ok (sv_trace ?s')" "queue_ok ?s'"
    using assms by (simp_all add: core_def ids_ok_def queue_ok_def item_opened_def)
  moreover have "sessions_ok ?s'"
    using assms unfolding core_def sessions_ok_def by auto
  moreover have "disconnects_ok ?s'"
    using assms unfolding core_def disconnects_ok_def owed_def by auto
  ultimately show ?thesis
    by (simp add: core_def)
qed

lemma exchange_respectful:
  "respectful 0 s (after (s\<lparr>sv_pending_disconnects := 0\<rparr>) (Taken w))"
  by (simp add: respectful_def)

lemma close_core:
  assumes "core s" shows "core (after (s\<lparr>sv_world := h\<rparr>) (Processor_closed tr))" (is "core ?s'")
proof -
  have "ids_ok ?s'" "trace_ok (sv_trace ?s')" "queue_ok ?s'"
    using assms by (simp_all add: core_def ids_ok_def queue_ok_def item_opened_def)
  moreover have "sessions_ok ?s'"
    using assms unfolding core_def sessions_ok_def by auto
  moreover have "disconnects_ok ?s'"
    using assms unfolding core_def disconnects_ok_def owed_def by auto
  ultimately show ?thesis
    by (simp add: core_def)
qed

lemma close_respectful: "respectful 0 s (after (s\<lparr>sv_world := h\<rparr>) (Processor_closed tr))"
  by (simp add: respectful_def)

text \<open>The queue.\<close>

lemma receive_core:
  assumes "core s" "sv_queue s = item # items"
  defines "s' \<equiv> after (s\<lparr>sv_queue := items\<rparr>) (Received item)"
  shows "core s'" and "item_opened item s'"
proof -
  have "ids_ok s'" "trace_ok (sv_trace s')"
    using assms(1) by (simp_all add: s'_def core_def ids_ok_def)
  moreover have "queue_ok s'"
    using assms(1,2) by (auto simp: s'_def core_def queue_ok_def item_opened_def)
  moreover have "sessions_ok s'"
    using assms(1) unfolding core_def sessions_ok_def s'_def by auto
  moreover have "disconnects_ok s'"
    using assms(1) unfolding core_def disconnects_ok_def owed_def s'_def by auto
  ultimately show "core s'"
    by (simp add: core_def)
  show "item_opened item s'"
    using assms(1,2) by (auto simp: s'_def core_def queue_ok_def item_opened_def)
qed

lemma send_core:
  assumes "core s" "wi_transport item < 2" "sv_live_sessions s (wi_transport item) = wi_session item"
    "wi_session item \<noteq> 0" "length (sv_queue s) < DAP_QUEUE_DEPTH"
  shows "core (after (s\<lparr>sv_queue := sv_queue s @ [item]\<rparr>) (Submitted item))" (is "core ?s'")
proof -
  have opened: "item_opened item s"
    using assms(1-4) unfolding core_def sessions_ok_def item_opened_def by metis
  have "ids_ok ?s'" "trace_ok (sv_trace ?s')"
    using assms(1) by (simp_all add: core_def ids_ok_def)
  moreover have "queue_ok ?s'"
    using assms(1,5) opened by (auto simp: core_def queue_ok_def item_opened_def)
  moreover have "sessions_ok ?s'"
    using assms(1) unfolding core_def sessions_ok_def by auto
  moreover have "disconnects_ok ?s'"
    using assms(1) unfolding core_def disconnects_ok_def owed_def by auto
  ultimately show ?thesis
    by (simp add: core_def)
qed

lemma queue_respectful:
  "respectful i s (after (s\<lparr>sv_queue := q\<rparr>) (Received item))"
  "respectful i s (after (s\<lparr>sv_queue := q\<rparr>) (Submitted item))"
  by (simp_all add: respectful_def owed_def)

text \<open>Running a request and handing out its response.\<close>

definition runnable :: "dap_work_item \<Rightarrow> 'h dap_service \<Rightarrow> bool" where
  "runnable item s \<longleftrightarrow> item_opened item s \<and>
     runner (sv_trace s) (wi_transport item) \<in> {None, Some (wi_session item)} \<and>
     (sv_live_sessions s (wi_transport item) = wi_session item \<or> owed s (wi_transport item))"

lemma process_core:
  assumes "core s" "runnable item s"
  shows "core (after (s\<lparr>sv_world := h\<rparr>) (Processed (wi_transport item) (wi_session item)))" (is "core ?s'")
proof -
  have "ids_ok ?s'" "queue_ok ?s'"
    using assms(1) by (simp_all add: core_def ids_ok_def queue_ok_def item_opened_def)
  moreover have "trace_ok (sv_trace ?s')"
    using assms by (auto simp: core_def runnable_def item_opened_def)
  moreover have "sessions_ok ?s'"
    using assms(1) unfolding core_def sessions_ok_def by auto
  moreover have "wi_session item \<noteq> 0"
    using assms unfolding core_def ids_ok_def sessions_ok_def runnable_def item_opened_def by metis
  then have "disconnects_ok ?s'"
    using assms unfolding core_def disconnects_ok_def owed_def runnable_def by auto
  ultimately show ?thesis
    by (simp add: core_def)
qed

lemma respond_core:
  assumes "core s" "sv_live_sessions s tr = session" "session \<noteq> 0" "Processed tr session \<in> set (sv_trace s)"
  shows "core (after (s\<lparr>sv_world := h\<rparr>) (Responded tr session))" (is "core ?s'")
proof -
  have "ids_ok ?s'" "queue_ok ?s'"
    using assms(1) by (simp_all add: core_def ids_ok_def queue_ok_def item_opened_def)
  moreover have "trace_ok (sv_trace ?s')"
    using assms by (auto simp: core_def sessions_ok_def)
  moreover have "sessions_ok ?s'"
    using assms(1) unfolding core_def sessions_ok_def by auto
  moreover have "disconnects_ok ?s'"
    using assms unfolding core_def disconnects_ok_def owed_def by auto
  ultimately show ?thesis
    by (simp add: core_def)
qed

lemma worker_respectful:
  "respectful 0 s (after (s\<lparr>sv_world := h\<rparr>) (Processed tr session))"
  "respectful 0 s (after (s\<lparr>sv_world := h\<rparr>) (Responded tr session))"
  by (simp_all add: respectful_def)

section \<open>Assertions\<close>

lemma wp_scall [wp_simps]:
  "wp (scall f) Q s = (case f (sv_world s) of (r, h) \<Rightarrow> Q r (s\<lparr>sv_world := h\<rparr>))"
  by (simp add: scall_def wp_def split: prod.splits)

text \<open>What a task knows while it holds the mutex of a transport.\<close>

definition holds_live :: "nat \<Rightarrow> nat \<Rightarrow> u32 \<Rightarrow> 'h dap_service \<Rightarrow> bool" where
  "holds_live i tr session s \<longleftrightarrow> locked i tr s \<and> sv_live_sessions s tr = session"

definition holds_drawn :: "nat \<Rightarrow> nat \<Rightarrow> u32 \<Rightarrow> 'h dap_service \<Rightarrow> bool" where
  "holds_drawn i tr session s \<longleftrightarrow> holds_live i tr 0 s \<and> session \<noteq> 0 \<and>
     Drawn i session \<in> set (sv_trace s) \<and> (\<forall>tr a. Opened tr session a \<notin> set (sv_trace s))"

definition holds :: "nat \<Rightarrow> nat \<Rightarrow> 'h dap_service \<Rightarrow> bool" where
  "holds i tr s \<longleftrightarrow> sv_mutex_holder s tr = Some i"

lemma respectful_held:
  "respectful j s s' \<Longrightarrow> j \<noteq> i \<Longrightarrow> sv_mutex_holder s tr = Some i \<Longrightarrow>
   sv_mutex_holder s' tr = Some i \<and> sv_live_sessions s' tr = sv_live_sessions s tr \<and>
   unrequested (sv_trace s') tr = unrequested (sv_trace s) tr"
proof -
  assume a: "j \<noteq> i" "sv_mutex_holder s tr = Some i"
  assume "respectful j s s'"
  then have "\<forall>tr k. k \<noteq> j \<longrightarrow> sv_mutex_holder s tr = Some k \<longrightarrow> sv_mutex_holder s' tr = Some k \<and>
      sv_live_sessions s' tr = sv_live_sessions s tr \<and>
      unrequested (sv_trace s') tr = unrequested (sv_trace s) tr"
    unfolding respectful_def by (rule conjunct1)
  then show ?thesis
    using a by metis
qed

lemma stab_locks:
  "stab i (\<lambda>_. True)" "stab i (holds i tr)" "stab i (locked i tr)" "stab i (holds_live i tr session)"
  using respectful_held unfolding stab_def locked_def holds_def holds_live_def by blast+

lemma grows_mem: "grows s s' \<Longrightarrow> e \<in> set (sv_trace s) \<Longrightarrow> e \<in> set (sv_trace s')"
  by (auto simp: grows_def)

lemma stab_drawn: "stab i (holds_drawn i tr session)"
  unfolding stab_def
proof (intro allI impI)
  fix s s' :: "'a dap_service" and j
  assume a: "core s" "core s'" "grows s s'" "j \<noteq> i" "respectful j s s'" "holds_drawn i tr session s"
  have "holds_live i tr 0 s'"
    using stab_locks(4) [of i tr 0] a unfolding stab_def holds_drawn_def by blast
  moreover have "Drawn i session \<in> set (sv_trace s')"
    using a(3,6) grows_mem unfolding holds_drawn_def by blast
  moreover have "Drawn j session \<notin> set (sv_trace s)"
    using a(1,4,6) unfolding holds_drawn_def core_def ids_ok_def by blast
  then have "\<forall>tr a. Opened tr session a \<notin> set (sv_trace s')"
    using a(5,6) unfolding holds_drawn_def respectful_def by blast
  ultimately show "holds_drawn i tr session s'"
    using a(6) by (simp add: holds_drawn_def)
qed

lemma stab_conj: "stab i P \<Longrightarrow> stab i Q \<Longrightarrow> stab i (\<lambda>s. P s \<and> Q s)"
  unfolding stab_def by blast

section \<open>The clients are safe\<close>

lemma svc_stuck: "stab i P \<Longrightarrow> svc_safe i P (Act (\<lambda>_. None))"
  unfolding svc_safe_def by (rule safe.action) (simp_all add: stab_stable)

lemma about_core_True [simp]: "about_core (\<lambda>_. True)"
  by (simp add: about_core_def)

lemma svc_set:
  assumes "stab i P" "\<And>s. same_core s (f s)" "\<And>s. P s \<Longrightarrow> Q (f s)" "svc_safe i Q k"
  shows "svc_safe i P (atomic (updates f) (\<lambda>_. k))"
  by (rule svc_quiet [OF assms(1) _ assms(4)]) (simp add: wp_simps assms(2,3))

lemma svc_session_is_live:
  assumes "svc_safe i (holds_live i tr session) yes" "svc_safe i (locked i tr) no"
  shows "svc_safe i (locked i tr)
    (atomic (session_is_live tr session) (\<lambda>live. if \<not> live then no else yes))"
  unfolding session_is_live_def
  by (rule svc_read [where Q = "\<lambda>live. if live then holds_live i tr session else locked i tr"])
    (use assms in \<open>auto simp: stab_locks holds_live_def split: if_splits\<close>)

lemma svc_unlock_any:
  assumes "svc_safe i (\<lambda>_. True) k" shows "svc_safe i (locked i tr) (session_unlock tr k)"
  by (rule svc_unlock [OF stab_locks(3) _ _ assms]) simp_all

lemma svc_lock_any:
  assumes "svc_safe i (locked i tr) (k True)" "svc_safe i (\<lambda>_. True) (k False)"
  shows "svc_safe i (\<lambda>_. True) (session_lock E i tr k)"
  by (rule svc_lock [OF stab_locks(1)]) (use assms in simp_all)

lemma with_live_session_safe:
  assumes "\<And>r. svc_safe i (\<lambda>_. True) (k r)" "svc_safe i (holds_live i tr session) body"
  shows "svc_safe i (\<lambda>_. True) (with_live_session E i tr session k body)"
  unfolding with_live_session_def
  by (rule svc_read [OF stab_locks(1), where Q = "\<lambda>_ _. True"])
    (use assms in \<open>auto intro!: svc_lock_any svc_session_is_live svc_unlock_any\<close>)

lemma request_disconnect_safe:
  assumes "tr < 2" "svc_safe i (locked i tr) k"
  shows "svc_safe i (holds i tr) (atomic (request_disconnect tr) (\<lambda>_. k))"
  by (rule svc_atomic [OF stab_locks(2), where Q = "\<lambda>_. locked i tr"])
    (use assms request_core request_respectful in \<open>auto simp: request_disconnect_def wp_simps grows_def
      holds_def locked_def\<close>)

lemma retire_session_safe:
  assumes "session \<noteq> 0" "svc_safe i (holds i tr) k"
  shows "svc_safe i (holds_live i tr session) (atomic (retire_session tr) (\<lambda>_. k))"
proof (rule svc_atomic [OF stab_locks(4), where Q = "\<lambda>_. holds i tr"])
  fix s :: "'a dap_service" assume "core s" "holds_live i tr session s"
  then show "wp (retire_session tr) (\<lambda>_ s'. bounded s' \<longrightarrow> core s' \<and> respectful i s s' \<and> holds i tr s') s"
    using retire_core [of s i tr session] retire_respectful [of i tr s session] assms(1)
    by (auto simp: retire_session_def wp_simps holds_live_def) (simp add: holds_def locked_def)
qed (simp_all add: retire_session_def wp_simps grows_def assms(2))

lemma svc_weaken:
  assumes "svc_safe i P t" "stab i Q" "\<And>s. Q s \<Longrightarrow> P s"
  shows "svc_safe i Q t"
  using assms(1) stab_stable [OF assms(2)] assms(3) unfolding svc_safe_def
  by (cases t) (auto simp: asr_def elim!: safe_ActE safe_DoneE intro!: safe.intros)

lemma session_close_safe:
  assumes "\<And>r. svc_safe i (\<lambda>_. True) (k r)"
  shows "svc_safe i (\<lambda>_. True) (airdap_dap_service_session_close E i tr session k)"
  unfolding airdap_dap_service_session_close_def valid_transport_def
  using assms by (auto intro!: with_live_session_safe retire_session_safe request_disconnect_safe svc_unlock_any)

lemma session_reset_safe:
  assumes "\<And>r. svc_safe i (\<lambda>_. True) (k r)"
  shows "svc_safe i (\<lambda>_. True) (airdap_dap_service_session_reset E i tr session k)"
proof -
  have "svc_safe i (holds_live i tr session)
      (atomic (request_disconnect tr) (\<lambda>_. session_unlock tr (k SERVICE_OK)))" if "tr < 2"
    by (rule svc_weaken [OF request_disconnect_safe [OF that svc_unlock_any [OF assms]] stab_locks(4)])
      (simp add: holds_def holds_live_def locked_def)
  then show ?thesis
    unfolding airdap_dap_service_session_reset_def valid_transport_def
    using assms by (auto intro!: with_live_session_safe)
qed

lemma about_core_locks [simp]:
  "about_core (locked i tr)" "about_core (holds_live i tr session)"
  by (simp_all add: about_core_def same_core_def locked_def holds_live_def)

lemma send_item_safe:
  assumes "wi_transport item = tr" "wi_session item = session" "tr < 2" "session \<noteq> 0"
    "\<And>sent. svc_safe i (holds_live i tr session) (k sent)"
  shows "svc_safe i (holds_live i tr session) (atomic (send_item item) k)"
proof (rule svc_atomic [OF stab_locks(4) _ _ assms(5)])
  fix s :: "'a dap_service" assume s: "core s" "holds_live i tr session s"
  have "respectful i s s"
    by (rule respectful_same) (simp add: same_core_def)
  moreover have "holds_live i tr session (after (s\<lparr>sv_queue := q\<rparr>) (Submitted item))" for q
    using s(2) by (simp add: holds_live_def locked_def)
  ultimately show "wp (send_item item) (\<lambda>_ s'. bounded s' \<longrightarrow> core s' \<and> respectful i s s' \<and> holds_live i tr session s') s"
    using s send_core [of s item] assms(1-4)
    by (auto simp: send_item_def wp_simps queue_respectful holds_live_def)
qed (simp add: send_item_def wp_simps grows_def)

lemma submit_safe:
  assumes "\<And>r. svc_safe i (\<lambda>_. True) (k r)"
  shows "svc_safe i (\<lambda>_. True) (airdap_dap_service_submit E i tr session request n token callback ctx k)"
proof -
  have unlock: "svc_safe i (holds_live i tr session) (session_unlock tr (k r))" for r
    by (rule svc_weaken [OF svc_unlock_any [OF assms] stab_locks(4)]) (simp add: holds_live_def)
  show ?thesis
    unfolding airdap_dap_service_submit_def valid_transport_def
    using assms unlock by (auto intro!: with_live_session_safe svc_call send_item_safe svc_count stab_locks)
qed

lemma draw_session_safe:
  assumes "svc_safe i (holds_live i tr 0) no" "\<And>session. svc_safe i (holds_drawn i tr session) (k session)"
  shows "svc_safe i (holds_live i tr 0)
    (atomic (draw_session i) (\<lambda>session. if session = 0 then no else k session))"
proof (rule svc_atomic [OF stab_locks(4), where
        Q = "\<lambda>session. if session = 0 then holds_live i tr 0 else holds_drawn i tr session"])
  fix s :: "'a dap_service" assume s: "core s" "holds_live i tr 0 s"
  let ?n = "sv_next_session s"
  let ?s' = "after (s\<lparr>sv_next_session := ?n + 1\<rparr>) (Drawn i ?n)"
  have "core ?s' \<and> respectful i s ?s' \<and> ?n \<noteq> 0 \<and> holds_drawn i tr ?n ?s'" if "bounded ?s'"
    using draw_core [OF s(1) that] s(2)
    by (simp add: draw_respectful holds_drawn_def holds_live_def locked_def)
  then show "wp (draw_session i) (\<lambda>session s'. bounded s' \<longrightarrow> core s' \<and> respectful i s s' \<and>
      (if session = 0 then holds_live i tr 0 else holds_drawn i tr session) s') s"
    by (simp add: draw_session_def wp_simps)
qed (use assms in \<open>auto simp: draw_session_def wp_simps grows_def\<close>)

lemma publish_session_safe:
  assumes "tr = AIRDAP_DAP_TRANSPORT_NETWORK \<longrightarrow> authenticated" "svc_safe i (locked i tr) k"
  shows "svc_safe i (holds_drawn i tr session) (atomic (publish_session tr session authenticated) (\<lambda>_. k))"
proof (rule svc_atomic [OF stab_drawn _ _ assms(2)])
  fix s :: "'a dap_service" assume s: "core s" "holds_drawn i tr session s"
  let ?s' = "after (s\<lparr>sv_live_sessions := (sv_live_sessions s)(tr := session)\<rparr>) (Opened tr session authenticated)"
  have "core ?s'" "respectful i s ?s'"
    using s assms(1) publish_core [of s i tr session authenticated] publish_respectful [of i tr s session]
    by (simp_all add: holds_drawn_def holds_live_def)
  moreover have "locked i tr ?s'"
    using s(2) by (simp add: holds_drawn_def holds_live_def locked_def)
  ultimately show "wp (publish_session tr session authenticated)
      (\<lambda>_ s'. bounded s' \<longrightarrow> core s' \<and> respectful i s s' \<and> locked i tr s') s"
    by (simp add: publish_session_def wp_simps)
qed (simp add: publish_session_def wp_simps grows_def)

lemma fresh_session_safe:
  assumes "\<And>session. svc_safe i (holds_drawn i tr session) (k session)"
  shows "svc_safe i (holds_live i tr 0) (fresh_session i k)"
  unfolding fresh_session_def
  by (intro draw_session_safe assms svc_stuck stab_locks)

lemma session_open_safe:
  assumes "\<And>r. svc_safe i (\<lambda>_. True) (k r)"
  shows "svc_safe i (\<lambda>_. True) (airdap_dap_service_session_open E i tr authenticated p k)"
proof -
  have opened: "svc_safe i (locked i tr) (atomic (reads (\<lambda>s. sv_live_sessions s tr)) (\<lambda>live.
      if live \<noteq> 0 then session_unlock tr (k (SERVICE_BUSY, None))
      else fresh_session i (\<lambda>session. atomic (publish_session tr session authenticated) (\<lambda>_.
        session_unlock tr (k (SERVICE_OK, Some session))))))"
    if "tr = AIRDAP_DAP_TRANSPORT_NETWORK \<longrightarrow> authenticated"
    by (rule svc_read [where Q = "\<lambda>live. if live = 0 then holds_live i tr 0 else locked i tr"])
      (use assms that in \<open>auto simp: stab_locks holds_live_def split: if_splits
        intro!: svc_unlock_any fresh_session_safe publish_session_safe\<close>)
  show ?thesis
    unfolding airdap_dap_service_session_open_def
    by (auto intro!: assms svc_read [OF stab_locks(1), where Q = "\<lambda>_ _. True"] svc_lock_any opened)
qed

lemma get_stats_safe:
  assumes "\<And>r. svc_safe i (\<lambda>_. True) (k r)"
  shows "svc_safe i (\<lambda>_. True) (airdap_dap_service_get_stats k)"
  unfolding airdap_dap_service_get_stats_def
  by (intro svc_read [OF stab_locks(1), where Q = "\<lambda>_ _. True"] assms TrueI)

lemma create_mutexes_safe:
  assumes "\<And>r. svc_safe i (\<lambda>_. True) (k r)"
  shows "svc_safe i (\<lambda>_. True) (create_mutexes E trs k)"
  by (induction trs) (auto intro!: assms svc_call stab_locks)

lemma init_safe:
  assumes "\<And>r. svc_safe i (\<lambda>_. True) (k r)"
  shows "svc_safe i (\<lambda>_. True) (airdap_dap_service_init E serial version k)"
  unfolding airdap_dap_service_init_def
  by (auto intro!: assms svc_call create_mutexes_safe stab_locks
      svc_quiet [where P = "\<lambda>_. True" and Q = "\<lambda>_ _. True"] simp: wp_simps same_core_def split: prod.splits)

section \<open>The worker is safe\<close>

definition item_ready :: "dap_work_item option \<Rightarrow> 'h dap_service \<Rightarrow> bool" where
  "item_ready io s \<longleftrightarrow> none_underway s \<and> (\<forall>item. io = Some item \<longrightarrow> item_opened item s)"

text \<open>
  The request in hand is on a clean processor, or its session has been closed, or a disconnect that is
  still to be carried out will clean the processor.
\<close>

definition cleaning :: "dap_work_item option \<Rightarrow> u32 \<Rightarrow> nat list \<Rightarrow> 'h dap_service \<Rightarrow> bool" where
  "cleaning io pending rest s \<longleftrightarrow>
     (\<forall>tr < 2. underway (sv_trace s) tr \<longrightarrow> bit pending tr \<and> tr \<in> set rest) \<and>
     (\<forall>item. io = Some item \<longrightarrow> item_opened item s \<and>
        (runner (sv_trace s) (wi_transport item) \<in> {None, Some (wi_session item)} \<or>
         Closing (wi_transport item) (wi_session item) \<in> set (sv_trace s) \<or>
         bit pending (wi_transport item) \<and> wi_transport item \<in> set rest))"

definition item_run :: "dap_work_item \<Rightarrow> 'h dap_service \<Rightarrow> bool" where
  "item_run item s \<longleftrightarrow> none_underway s \<and>
     Processed (wi_transport item) (wi_session item) \<in> set (sv_trace s)"

lemma respectful_worker:
  assumes "respectful j s s'" "j \<noteq> 0"
  shows "runner (sv_trace s') tr = runner (sv_trace s) tr" "underway (sv_trace s') tr = underway (sv_trace s) tr"
    and "tr < 2 \<Longrightarrow> session \<noteq> 0 \<Longrightarrow> sv_live_sessions s tr = session \<or> owed s tr \<Longrightarrow>
      sv_live_sessions s' tr = session \<or> owed s' tr"
proof -
  note others = assms(1) [unfolded respectful_def, THEN conjunct2]
  note same = others [THEN conjunct1, rule_format, OF assms(2)]
  show "runner (sv_trace s') tr = runner (sv_trace s) tr" "underway (sv_trace s') tr = underway (sv_trace s) tr"
    using same by simp_all
  show "sv_live_sessions s' tr = session \<or> owed s' tr"
    if "tr < 2" "session \<noteq> 0" "sv_live_sessions s tr = session \<or> owed s tr"
    by (rule others [THEN conjunct2, THEN conjunct1, rule_format, OF assms(2) that])
qed

lemma item_opened_grows: "grows s s' \<Longrightarrow> item_opened item s \<Longrightarrow> item_opened item s'"
  unfolding item_opened_def by (blast intro: grows_mem)

lemma item_session_nonzero: "core s \<Longrightarrow> item_opened item s \<Longrightarrow> wi_session item \<noteq> 0"
  unfolding core_def ids_ok_def sessions_ok_def item_opened_def by metis

lemma stab_worker:
  "stab 0 (none_underway :: 'a dap_service \<Rightarrow> bool)" "stab 0 (item_ready io :: 'a dap_service \<Rightarrow> bool)"
  "stab 0 (cleaning io pending rest :: 'a dap_service \<Rightarrow> bool)" "stab 0 (item_run item :: 'a dap_service \<Rightarrow> bool)"
proof -
  have same: "runner (sv_trace s') = runner (sv_trace s) \<and> underway (sv_trace s') = underway (sv_trace s)"
    if "respectful j s s'" "j \<noteq> 0" for j and s s' :: "'a dap_service"
    by (simp add: fun_eq_iff respectful_worker [OF that])
  have none: "none_underway s'" if "respectful j s s'" "j \<noteq> 0" "none_underway s"
    for j and s s' :: "'a dap_service"
    using same [OF that(1,2)] that(3) by (simp add: none_underway_def)
  show "stab 0 (none_underway :: 'a dap_service \<Rightarrow> bool)"
    using none by (simp add: stab_def)
  show "stab 0 (item_ready io :: 'a dap_service \<Rightarrow> bool)"
    using none item_opened_grows unfolding stab_def item_ready_def by metis
  show "stab 0 (item_run item :: 'a dap_service \<Rightarrow> bool)"
    using none grows_mem unfolding stab_def item_run_def by metis
  show "stab 0 (cleaning io pending rest :: 'a dap_service \<Rightarrow> bool)"
    unfolding stab_def
  proof (intro allI impI)
    fix s s' :: "'a dap_service" and j :: nat
    assume a: "grows s s'" "j \<noteq> 0" "respectful j s s'" "cleaning io pending rest s"
    show "cleaning io pending rest s'"
      using a(4) item_opened_grows [OF a(1)] grows_mem [OF a(1)] same [OF a(3,2)]
      unfolding cleaning_def by metis
  qed
qed

lemma stab_runnable: "stab 0 (\<lambda>s. none_underway s \<and> runnable item s)"
  unfolding stab_def
proof (intro allI impI, elim conjE)
  fix s s' :: "'a dap_service" and j
  assume a: "core s" "grows s s'" "j \<noteq> 0" "respectful j s s'" "none_underway s" "runnable item s"
  have opened: "item_opened item s" "wi_session item \<noteq> 0"
    using a(1,6) item_session_nonzero by (auto simp: runnable_def)
  have "sv_live_sessions s' (wi_transport item) = wi_session item \<or> owed s' (wi_transport item)"
    using respectful_worker(3) [OF a(4,3), of "wi_transport item" "wi_session item"] a(6) opened
    by (auto simp: runnable_def item_opened_def)
  then show "none_underway s' \<and> runnable item s'"
    using a(5,6) item_opened_grows [OF a(2) opened(1)]
    by (simp add: runnable_def none_underway_def respectful_worker [OF a(4,3)])
qed

lemma about_core_worker [simp]:
  "about_core none_underway" "about_core (item_run item)" "about_core (\<lambda>s. none_underway s \<and> runnable item s)"
  by (simp_all add: about_core_def same_core_def none_underway_def item_run_def runnable_def
    item_opened_def owed_def)

lemma svc_read_core:
  assumes "stab i P" "\<And>b s. core s \<Longrightarrow> P s \<Longrightarrow> b = f s \<Longrightarrow> Q b s" "\<And>b. svc_safe i (Q b) (k b)"
  shows "svc_safe i P (atomic (reads f) k)"
proof (rule svc_atomic [OF assms(1) _ _ assms(3)])
  fix s :: "'a dap_service"
  have "respectful i s s"
    by (rule respectful_same) (simp add: same_core_def)
  then show "wp (reads f) (\<lambda>b s'. bounded s' \<longrightarrow> core s' \<and> respectful i s s' \<and> Q b s') s" if "core s" "P s"
    using that assms(2) by (simp add: wp_simps)
qed (simp add: wp_simps grows_def)

lemma exchange_cleaning:
  assumes "core s" "item_ready io s"
  shows "cleaning io (sv_pending_disconnects s) [0..<2]
    (after (s\<lparr>sv_pending_disconnects := 0\<rparr>) (Taken (sv_pending_disconnects s)))"
proof -
  have "runner (sv_trace s) tr \<in> {None, Some session} \<or> Closing tr session \<in> set (sv_trace s) \<or>
      bit (sv_pending_disconnects s) tr"
    if item: "tr < 2" "Opened tr session a \<in> set (sv_trace s)" for tr session a
  proof (cases "runner (sv_trace s) tr")
    case (Some session')
    have "session \<noteq> 0"
      using assms(1) item(2) unfolding core_def ids_ok_def sessions_ok_def by metis
    have "\<not> underway (sv_trace s) tr"
      using assms(2) item(1) by (simp add: item_ready_def none_underway_def)
    moreover have "Closing tr session \<in> set (sv_trace s)" if "sv_live_sessions s tr \<noteq> session"
      using assms(1) item(2) that unfolding core_def sessions_ok_def by blast
    moreover have "bit (sv_pending_disconnects s) tr \<or> sv_live_sessions s tr = 0"
      if "sv_live_sessions s tr \<noteq> session'"
      using assms(1) Some that item(1) \<open>\<not> underway (sv_trace s) tr\<close>
      unfolding core_def disconnects_ok_def owed_def by blast
    ultimately show ?thesis
      using Some \<open>session \<noteq> 0\<close> by (cases "sv_live_sessions s tr = session'") auto
  qed simp
  with assms(2) show ?thesis
    by (fastforce simp: cleaning_def item_ready_def none_underway_def item_opened_def)
qed

lemma close_cleaning:
  assumes "cleaning io pending (tr # rest) s"
  shows "cleaning io pending rest (after (s\<lparr>sv_world := h\<rparr>) (Processor_closed tr))"
  using assms by (auto simp: cleaning_def item_opened_def)

lemma close_pending_safe:
  assumes "svc_safe 0 (cleaning io pending []) k"
  shows "svc_safe 0 (cleaning io pending trs) (close_pending E pending trs k)"
proof (induction trs)
  case (Cons tr trs)
  show ?case
  proof (cases "bit pending tr")
    case True
    have "svc_safe 0 (cleaning io pending (tr # trs))
        (atomic (close_processor E tr) (\<lambda>_. close_pending E pending trs k))"
      by (rule svc_atomic [OF stab_worker(3) _ _ Cons])
        (auto simp: close_processor_def wp_simps grows_def close_core close_respectful close_cleaning
          split: prod.splits)
    with True show ?thesis
      by (simp add: bit_iff_and_push_bit_not_eq_0)
  next
    case False
    then have "cleaning io pending (tr # trs) = (cleaning io pending trs :: 'a dap_service \<Rightarrow> bool)"
      by (auto simp: cleaning_def fun_eq_iff)
    with False Cons show ?thesis
      by (simp add: bit_iff_and_push_bit_not_eq_0)
  qed
qed (simp add: assms)

definition item_clean :: "dap_work_item option \<Rightarrow> 'h dap_service \<Rightarrow> bool" where
  "item_clean io s \<longleftrightarrow> cleaning io 0 [] s"

lemma cleaning_done: "cleaning io pending [] = item_clean io"
  by (auto simp: fun_eq_iff item_clean_def cleaning_def)

lemma process_pending_disconnects_safe:
  assumes "\<And>b. svc_safe 0 (item_clean io) (k b)"
  shows "svc_safe 0 (item_ready io) (process_pending_disconnects E k)"
  unfolding process_pending_disconnects_def
proof (rule svc_atomic [OF stab_worker(2), where Q = "\<lambda>pending. cleaning io pending [0..<2]"])
  fix s :: "'a dap_service" assume "core s" "item_ready io s"
  then show "wp exchange_pending (\<lambda>b s'. bounded s' \<longrightarrow> core s' \<and> respectful 0 s s' \<and> cleaning io b [0..<2] s') s"
    by (simp add: exchange_pending_def wp_simps exchange_core exchange_respectful exchange_cleaning)
next
  fix pending :: u32
  have "cleaning io 0 [0..<2] = (item_clean io :: 'a dap_service \<Rightarrow> bool)"
    by (auto simp: fun_eq_iff item_clean_def cleaning_def)
  then show "svc_safe 0 (cleaning io pending [0..<2])
      (if pending = 0 then k False else close_pending E pending [0..<2] (k True))"
    using assms by (auto intro!: close_pending_safe simp: cleaning_done)
qed (simp add: exchange_pending_def wp_simps grows_def)

lemma item_run_none: "item_run item s \<Longrightarrow> none_underway s"
  by (simp add: item_run_def)

lemma svc_finish:
  assumes "svc_safe 0 none_underway k" shows "svc_safe 0 (item_run item) k"
  by (rule svc_weaken [OF assms stab_worker(4) item_run_none])

lemma respond_item_safe:
  assumes "\<And>b. svc_safe 0 (\<lambda>s. item_run item s \<and> locked 0 (wi_transport item) s) (k b)"
  shows "svc_safe 0 (\<lambda>s. item_run item s \<and> wi_session item \<noteq> 0 \<and>
      holds_live 0 (wi_transport item) (wi_session item) s) (atomic (respond_item E item response n) k)"
proof (rule svc_atomic [OF _ _ _ assms])
  show "stab 0 (\<lambda>s. item_run item s \<and> wi_session item \<noteq> 0 \<and>
      holds_live 0 (wi_transport item) (wi_session item) (s :: 'a dap_service))"
    using stab_conj [OF stab_worker(4) [of item] stab_locks(4) [of 0 "wi_transport item" "wi_session item"]]
    unfolding stab_def by metis
next
  fix s :: "'a dap_service"
  assume s: "core s" "item_run item s \<and> wi_session item \<noteq> 0 \<and> holds_live 0 (wi_transport item) (wi_session item) s"
  let ?s' = "\<lambda>h. after (s\<lparr>sv_world := h\<rparr>) (Responded (wi_transport item) (wi_session item))"
  have "core (?s' h) \<and> item_run item (?s' h) \<and> locked 0 (wi_transport item) (?s' h)" for h
    using s respond_core [of s "wi_transport item" "wi_session item" h]
    by (auto simp: item_run_def none_underway_def holds_live_def locked_def)
  then show "wp (respond_item E item response n) (\<lambda>b s'. bounded s' \<longrightarrow> core s' \<and> respectful 0 s s' \<and>
      item_run item s' \<and> locked 0 (wi_transport item) s') s"
    by (simp add: respond_item_def wp_simps worker_respectful split: prod.splits)
qed (simp add: respond_item_def wp_simps grows_def split: prod.splits)

lemma unlock_item_safe:
  assumes "svc_safe 0 (item_run item) k"
  shows "svc_safe 0 (\<lambda>s. item_run item s \<and> locked 0 tr s) (session_unlock tr k)"
  by (rule svc_unlock [OF stab_conj [OF stab_worker(4) stab_locks(3)] _ _ assms])
    (simp_all add: item_run_def none_underway_def)

lemma deliver_response_safe:
  assumes "svc_safe 0 none_underway k"
  shows "svc_safe 0 (item_run item) (deliver_response E 0 item response n k)"
proof -
  let ?tr = "wi_transport item" and ?session = "wi_session item"
  note finish = svc_finish [OF assms, of item]
  note counted = svc_count [OF stab_worker(4) about_core_worker(2) finish]
  have both: "stab 0 (\<lambda>s. item_run item s \<and> locked 0 ?tr (s :: 'a dap_service))"
    by (rule stab_conj [OF stab_worker(4) stab_locks(3)])
  have about: "about_core (\<lambda>s. item_run item s \<and> locked 0 ?tr (s :: 'a dap_service))"
    by (simp add: about_core_def same_core_def item_run_def none_underway_def locked_def)
  have check: "svc_safe 0 (\<lambda>s. item_run item s \<and> locked 0 ?tr s)
      (atomic (session_is_live ?tr ?session) (\<lambda>live.
         if \<not> live then atomic (count st_stale_responses_update) (\<lambda>_. session_unlock ?tr k)
         else atomic (respond_item E item response n) (\<lambda>delivered. session_unlock ?tr
           (if \<not> delivered then atomic (count st_delivery_failures_update) (\<lambda>_. k)
            else atomic (count st_responses_delivered_update) (\<lambda>_. k)))))"
    unfolding session_is_live_def
  proof (rule svc_read [OF both, where Q = "\<lambda>live s. if live
      then item_run item s \<and> ?session \<noteq> 0 \<and> holds_live 0 ?tr ?session s
      else item_run item s \<and> locked 0 ?tr s"])
    fix live
    show "svc_safe 0 (\<lambda>s. if live then item_run item s \<and> ?session \<noteq> 0 \<and> holds_live 0 ?tr ?session s
        else item_run item s \<and> locked 0 ?tr s)
      (if \<not> live then atomic (count st_stale_responses_update) (\<lambda>_. session_unlock ?tr k)
       else atomic (respond_item E item response n) (\<lambda>delivered. session_unlock ?tr
         (if \<not> delivered then atomic (count st_delivery_failures_update) (\<lambda>_. k)
          else atomic (count st_responses_delivered_update) (\<lambda>_. k))))"
      using counted finish
      by (cases live) (auto intro!: respond_item_safe unlock_item_safe svc_count [OF both about])
  qed (simp add: holds_live_def)
  show ?thesis
    unfolding deliver_response_def
    by (rule svc_lock [OF stab_worker(4) about_core_worker(2)])
      (use check counted in \<open>simp_all add: item_run_def none_underway_def\<close>)
qed

lemma run_item_safe:
  assumes "svc_safe 0 none_underway k"
  shows "svc_safe 0 (\<lambda>s. none_underway s \<and> runnable item s) (run_item E 0 item k)"
  unfolding run_item_def
proof (rule svc_atomic [OF stab_runnable, where Q = "\<lambda>_. item_run item"])
  fix s :: "'a dap_service"
  assume s: "core s" "none_underway s \<and> runnable item s"
  have "item_run item (after (s\<lparr>sv_world := h\<rparr>) (Processed (wi_transport item) (wi_session item)))" for h
    using s(2) by (simp add: item_run_def none_underway_def)
  then show "wp (process_item E item) (\<lambda>b s'. bounded s' \<longrightarrow> core s' \<and> respectful 0 s s' \<and> item_run item s') s"
    using s by (simp add: process_item_def wp_simps worker_respectful process_core split: prod.splits)
next
  fix result :: "nat \<times> bytes"
  note finish = svc_finish [OF assms, of item] and about = about_core_worker(2) [of item]
  show "svc_safe 0 (item_run item) ((\<lambda>(response_length, response).
      atomic (count st_requests_processed_update) (\<lambda>_.
        if response_length = 0 then k
        else if response_length > AIRDAP_DAP_PACKET_SIZE
        then atomic (count st_delivery_failures_update) (\<lambda>_. k)
        else atomic (scall (se_get_time E)) (\<lambda>now.
          if request_timed_out item now then atomic (count st_timed_out_update) (\<lambda>_. k)
          else deliver_response E 0 item response response_length k))) result)"
    using finish about
    by (auto split: prod.splits intro!: svc_count svc_call stab_worker deliver_response_safe assms)
qed (simp add: process_item_def wp_simps grows_def split: prod.splits)

lemma item_check_safe:
  assumes "svc_safe 0 none_underway no" "svc_safe 0 (\<lambda>s. none_underway s \<and> runnable item s) yes"
  shows "svc_safe 0 (item_clean (Some item)) (atomic (session_is_live (wi_transport item) (wi_session item))
    (\<lambda>live. if \<not> live then no else yes))"
proof -
  have stab: "stab 0 (item_clean (Some item) :: 'a dap_service \<Rightarrow> bool)"
    using stab_worker(3) by (simp add: item_clean_def [abs_def])
  show ?thesis
    unfolding session_is_live_def
  proof (rule svc_read_core [OF stab, where
        Q = "\<lambda>live s. none_underway s \<and> (live \<longrightarrow> runnable item s)"])
    fix live and s :: "'a dap_service"
    assume s: "core s" "item_clean (Some item) s"
      and live: "live = (valid_transport (wi_transport item) \<and> wi_session item \<noteq> 0 \<and>
        sv_live_sessions s (wi_transport item) = wi_session item)"
    have "Closing (wi_transport item) (wi_session item) \<notin> set (sv_trace s)" if live
      using s(1) that live unfolding core_def sessions_ok_def by metis
    then show "none_underway s \<and> (live \<longrightarrow> runnable item s)"
      using s(2) live by (auto simp: item_clean_def cleaning_def none_underway_def runnable_def)
  next
    fix live
    show "svc_safe 0 (\<lambda>s. none_underway s \<and> (live \<longrightarrow> runnable item s)) (if \<not> live then no else yes)"
      using assms by (cases live) simp_all
  qed
qed

lemma process_next_safe:
  assumes "\<And>r. svc_safe 0 none_underway (k r)"
  shows "svc_safe 0 none_underway (airdap_dap_service_process_next E 0 k)"
proof -
  have clean: "item_clean None = none_underway" and ready: "item_ready None = none_underway"
    by (auto simp: fun_eq_iff item_clean_def cleaning_def item_ready_def none_underway_def)
  have item: "svc_safe 0 (item_ready (Some item)) (process_pending_disconnects E (\<lambda>_.
      atomic (session_is_live (wi_transport item) (wi_session item)) (\<lambda>live.
        if \<not> live then atomic (count st_stale_requests_update) (\<lambda>_. k True)
        else atomic (scall (se_get_time E)) (\<lambda>now.
          if request_timed_out item now then atomic (count st_timed_out_update) (\<lambda>_. k True)
          else run_item E 0 item (k True)))))" for item
    by (intro process_pending_disconnects_safe item_check_safe svc_count svc_call stab_worker stab_runnable
        about_core_worker assms)
      (auto intro!: run_item_safe assms svc_count stab_runnable about_core_worker svc_weaken [OF assms stab_runnable])
  show ?thesis
    unfolding airdap_dap_service_process_next_def ready [symmetric]
  proof (intro process_pending_disconnects_safe, unfold clean,
      rule svc_atomic [OF stab_worker(1), where Q = item_ready])
    fix s :: "'a dap_service"
    assume s: "core s" "none_underway s"
    have "respectful 0 s s"
      by (rule respectful_same) (simp add: same_core_def)
    then show "wp receive_item (\<lambda>b s'. bounded s' \<longrightarrow> core s' \<and> respectful 0 s s' \<and> item_ready b s') s"
      using s receive_core [OF s(1)] queue_respectful
      by (auto simp: receive_item_def wp_simps item_ready_def none_underway_def split: list.splits)
  next
    fix did_work :: bool and received :: "dap_work_item option"
    show "svc_safe 0 (item_ready received) (case received of None \<Rightarrow> k did_work
      | Some item \<Rightarrow> process_pending_disconnects E (\<lambda>_.
          atomic (session_is_live (wi_transport item) (wi_session item)) (\<lambda>live.
            if \<not> live then atomic (count st_stale_requests_update) (\<lambda>_. k True)
            else atomic (scall (se_get_time E)) (\<lambda>now.
              if request_timed_out item now then atomic (count st_timed_out_update) (\<lambda>_. k True)
              else run_item E 0 item (k True)))))"
      using item assms by (cases received) (simp_all add: ready)
  qed (auto simp: receive_item_def wp_simps grows_def split: list.splits)
qed

section \<open>The system keeps the invariant\<close>

lemma idle_asr: "service_idle i = asr (if i = 0 then none_underway else (\<lambda>_. True))"
  by (auto simp: fun_eq_iff service_idle_def asr_def)

lemma starts_safe:
  assumes "t \<in> service_starts E i s"
  shows "safe service_inv service_guar service_world service_idle i (service_idle i) t"
proof (cases "i = 0")
  case True
  have "svc_safe 0 none_underway (Done () :: ('a, unit) service_task)"
    by (rule svc_done [OF stab_worker(1)]) simp
  then show ?thesis
    using assms True process_next_safe [of "\<lambda>_. Done ()" E]
    by (auto simp: service_starts_def idle_asr svc_safe_def split: if_splits)
next
  case False
  have "svc_safe i (\<lambda>_. True) (Done () :: ('a, unit) service_task)"
    by (rule svc_done [OF stab_locks(1)]) (simp add: False)
  then have "svc_safe i (\<lambda>_. True) t"
    using assms False
    by (auto simp: service_starts_def intro!: init_safe session_open_safe session_close_safe
        session_reset_safe submit_safe get_stats_safe)
  with False show ?thesis
    by (simp add: svc_safe_def idle_asr)
qed

lemma idle_stable: "stable service_inv service_guar service_world i (service_idle i)"
  by (cases "i = 0") (simp_all add: idle_asr stab_stable stab_worker stab_locks)

lemma world_keeps: "service_inv s \<Longrightarrow> service_world s s' \<Longrightarrow> service_inv s'"
  by (auto simp: service_world_def service_inv_def bounded_def)

interpretation service: rely_guarantee service_inv service_guar service_world service_idle "service_starts E"
  for E :: "'h service_env"
  by unfold_locales (fact starts_safe idle_stable world_keeps)+

lemma reset_core: "core (service_reset h)"
  by (simp add: core_defs service_reset_def)

lemma reset_queue_idle: "service_idle i (service_reset h)"
  by (simp add: service_idle_def none_underway_def service_reset_def)

lemma service_reachable:
  assumes "system_steps (service_starts E) service_world ((\<lambda>_. Done ()), service_reset h) (ts, s)"
    and "draws (sv_trace s) < 2 ^ 32 - 1"
  shows "core s"
proof -
  have "service_inv (service_reset h)"
    by (simp add: service_inv_def reset_core)
  from service.reachable_invariant [OF assms(1) this reset_queue_idle] show ?thesis
    using assms(2) by (simp add: service_inv_def bounded_def)
qed

section \<open>A session on a sample device\<close>

definition sample_env :: "unit service_env" where
  "sample_env = \<lparr>se_process = (\<lambda>owner request n capacity. Pair (1, request)),
     se_session_closed = (\<lambda>owner. Pair ()), se_get_time = Pair 0,
     se_respond = (\<lambda>callback ctx tr session token response n. Pair True), se_take_mutex = Pair True,
     se_create_queue = Pair True, se_create_mutex = Pair True, se_dap_init = (\<lambda>serial version. Pair ESP_OK),
     se_create_task = Pair True\<rparr>"

text \<open>Tasks that run one after the other, each to its end.\<close>

fun run_calls :: "(nat \<times> (unit, unit) service_task) list \<Rightarrow> unit dap_service \<Rightarrow> unit dap_service" where
  "run_calls [] s = s"
| "run_calls ((i, t) # calls) s = run_calls calls (snd (run_task 60 t s))"

definition sample_requests :: "(nat \<times> (unit, unit) service_task) list" where
  "sample_requests =
     [(1, airdap_dap_service_init sample_env (Some ''1'') (Some ''2'') (\<lambda>_. Done ())),
      (1, airdap_dap_service_session_open sample_env 1 0 False True (\<lambda>_. Done ())),
      (1, airdap_dap_service_submit sample_env 1 0 1 (Some [2]) 1 0 1 0 (\<lambda>_. Done ())),
      (0, airdap_dap_service_process_next sample_env 0 (\<lambda>_. Done ())),
      (1, airdap_dap_service_session_close sample_env 1 0 1 (\<lambda>_. Done ())),
      (1, airdap_dap_service_session_open sample_env 1 0 False True (\<lambda>_. Done ())),
      (1, airdap_dap_service_submit sample_env 1 0 2 (Some [3]) 1 0 1 0 (\<lambda>_. Done ())),
      (0, airdap_dap_service_process_next sample_env 0 (\<lambda>_. Done ()))]"

definition sample_end :: "unit dap_service" where
  "sample_end = run_calls sample_requests (service_reset ())"

fun calls_run :: "(nat \<times> (unit, unit) service_task) list \<Rightarrow> unit dap_service \<Rightarrow> bool" where
  "calls_run [] s = True"
| "calls_run ((i, t) # calls) s =
     (case run_task 60 t s of (Done _, s') \<Rightarrow> (i \<noteq> 0 \<or> sv_worker s) \<and> calls_run calls s' | _ \<Rightarrow> False)"

lemma sample_runs: "calls_run sample_requests (service_reset ())"
  by code_simp

lemma sample_trace:
  "Processed 0 1 \<in> set (sv_trace sample_end) \<and> Processor_closed 0 \<in> set (sv_trace sample_end) \<and>
   Responded 0 2 \<in> set (sv_trace sample_end) \<and> draws (sv_trace sample_end) = 2 \<and>
   length (received (sv_trace sample_end)) = 2"
  by code_simp

lemma starts_intros:
  "i \<noteq> 0 \<Longrightarrow> airdap_dap_service_init E serial version (\<lambda>_. Done ()) \<in> service_starts E i s"
  "i \<noteq> 0 \<Longrightarrow> airdap_dap_service_session_open E i tr a p (\<lambda>_. Done ()) \<in> service_starts E i s"
  "i \<noteq> 0 \<Longrightarrow> airdap_dap_service_session_close E i tr session (\<lambda>_. Done ()) \<in> service_starts E i s"
  "i \<noteq> 0 \<Longrightarrow> airdap_dap_service_submit E i tr session request n token callback ctx (\<lambda>_. Done ()) \<in> service_starts E i s"
  "sv_worker s \<Longrightarrow> airdap_dap_service_process_next E 0 (\<lambda>_. Done ()) \<in> service_starts E 0 s"
  unfolding service_starts_def by (simp_all, blast+)

lemma calls_run_steps:
  assumes "calls_run calls s" "\<forall>(i, t) \<in> set calls. \<forall>s. (i \<noteq> 0 \<or> sv_worker s) \<longrightarrow> t \<in> service_starts sample_env i s"
  shows "system_steps (service_starts sample_env) service_world ((\<lambda>_. Done ()), s) ((\<lambda>_. Done ()), run_calls calls s)"
  using assms
proof (induction calls s rule: calls_run.induct)
  case (2 i t calls s)
  then obtain a s' where run: "run_task 60 t s = (Done a, s')" "calls_run calls s'" "i \<noteq> 0 \<or> sv_worker s"
    by (auto split: prod.splits task.splits)
  let ?idle = "\<lambda>_. Done () :: (unit, unit) service_task"
  have "system_step (service_starts sample_env) service_world (?idle, s) (?idle(i := t), s)"
    using "2.prems"(2) run(3) by (intro system_step.start) auto
  moreover have "system_steps (service_starts sample_env) service_world (?idle(i := t), s) (?idle(i := Done a), s')"
    by (rule run_task_steps [OF run(1)])
  moreover have "?idle(i := Done a) = ?idle"
    by (simp add: fun_eq_iff)
  moreover have "system_steps (service_starts sample_env) service_world (?idle, s') (?idle, run_calls calls s')"
    using "2.IH" [OF run(1) [symmetric] HOL.refl] run(2) "2.prems"(2) by simp
  ultimately show ?case
    using run(1) by (metis (no_types, lifting) run_calls.simps(2) snd_conv system_steps.refl system_steps.step
        system_steps_trans)
qed (simp add: system_steps.refl)

lemma sample_reachable:
  "system_steps (service_starts sample_env) service_world ((\<lambda>_. Done ()), service_reset ()) ((\<lambda>_. Done ()), sample_end)"
  unfolding sample_end_def
  by (rule calls_run_steps [OF sample_runs]) (simp add: sample_requests_def starts_intros)

section \<open>Properties\<close>

text \<open>C9. Debug sessions are isolated from each other, however the worker, the transports and the
  rest of the firmware interleave (for executions that draw fewer than 2^32 - 1 session ids): a
  session is opened only when its transport has none open, with an id never used before, and on the
  network only when the caller authenticated it; a request runs only for a session that was opened,
  on a processor that has run no request of another session since it was last closed; a response is
  handed to the transport only while its session is still open and after a request of it has run.\<close>

theorem dap_service_isolates_sessions:
  assumes "system_steps (service_starts E) service_world ((\<lambda>_. Done ()), service_reset h) (ts, s)"
    and "draws (sv_trace s) < 2 ^ 32 - 1"
  shows "trace_ok (sv_trace s)"
  using service_reachable [OF assms] by (simp add: core_def)

theorem dap_service_isolates_sessions_witness:
  "trace_ok (sv_trace sample_end) \<and> Processed 0 1 \<in> set (sv_trace sample_end) \<and>
   Responded 0 2 \<in> set (sv_trace sample_end)"
  using dap_service_isolates_sessions [OF sample_reachable] sample_trace by simp

text \<open>No accepted request is lost, duplicated or overtaken: in every interleaving the requests
  the service has accepted are those the worker has received, in the same order, followed by those
  still in the queue, and the queue holds at most four.\<close>

theorem dap_service_queue_fifo:
  assumes "system_steps (service_starts E) service_world ((\<lambda>_. Done ()), service_reset h) (ts, s)"
    and "draws (sv_trace s) < 2 ^ 32 - 1"
  shows "submitted (sv_trace s) = received (sv_trace s) @ sv_queue s \<and> length (sv_queue s) \<le> DAP_QUEUE_DEPTH"
  using service_reachable [OF assms] by (simp add: core_def queue_ok_def)

theorem dap_service_queue_fifo_witness:
  "submitted (sv_trace sample_end) = received (sv_trace sample_end) @ sv_queue sample_end \<and>
   length (received (sv_trace sample_end)) = 2"
  using dap_service_queue_fifo [OF sample_reachable] sample_trace by simp

end
