(* ===== verification/Network_Auth.thy ===== *)
theory Network_Auth
  imports Interleaving Config_Store
begin

text \<open>
  Network authentication, \<^verbatim>\<open>firmware/components/network_auth/network_auth.c\<close>: the stored pre-shared
  key, TLS handshakes with it, and the one owner session that authenticated connections share.

  The functions run in several tasks. All globals but \<open>initialized\<close> are accessed while the mutex is
  held, so a critical section is one action of a task of theory \<open>Interleaving\<close>, and so is each step
  outside of it; a function takes its continuation as the last argument. The record \<open>auth_env\<close>
  holds the calls that leave the component, functions on the state of the platform, which is also the
  platform of the configuration store of theory \<open>Config_Store\<close>. A connection is an object with a
  number of its own; it belongs to the task that accepted it. \<open>na_trace\<close> is a history, newest first:
  the code neither has nor reads it, and the properties are about it.
\<close>

section \<open>Data\<close>

abbreviation (input) AIRDAP_NETWORK_AUTH_PSK_SIZE :: nat where "AIRDAP_NETWORK_AUTH_PSK_SIZE \<equiv> 32"
abbreviation (input) AIRDAP_NETWORK_AUTH_FINGERPRINT_SIZE :: nat where
  "AIRDAP_NETWORK_AUTH_FINGERPRINT_SIZE \<equiv> 32"
abbreviation (input) AIRDAP_NETWORK_AUTH_SESSION_TOKEN_SIZE :: nat where
  "AIRDAP_NETWORK_AUTH_SESSION_TOKEN_SIZE \<equiv> 32"
abbreviation (input) AIRDAP_NETWORK_AUTH_PAIR_REQUEST_VERSION :: u8 where
  "AIRDAP_NETWORK_AUTH_PAIR_REQUEST_VERSION \<equiv> 1"
abbreviation (input) AIRDAP_NETWORK_AUTH_PAIR_REQUEST_SIZE :: nat where
  "AIRDAP_NETWORK_AUTH_PAIR_REQUEST_SIZE \<equiv> 33"
abbreviation (input) AIRDAP_NETWORK_AUTH_TLS_HANDSHAKE_TIMEOUT_MS :: int where
  "AIRDAP_NETWORK_AUTH_TLS_HANDSHAKE_TIMEOUT_MS \<equiv> 5000"
abbreviation (input) AIRDAP_NETWORK_AUTH_MAX_PENDING_HANDSHAKES :: u32 where
  "AIRDAP_NETWORK_AUTH_MAX_PENDING_HANDSHAKES \<equiv> 2"
abbreviation (input) AIRDAP_NETWORK_AUTH_SESSION_IDLE_TIMEOUT_US :: int where
  "AIRDAP_NETWORK_AUTH_SESSION_IDLE_TIMEOUT_US \<equiv> 60000000"
abbreviation (input) CREDENTIAL_RECORD_SIZE :: nat where "CREDENTIAL_RECORD_SIZE \<equiv> 44"
abbreviation (input) CREDENTIAL_RECORD_VERSION :: u8 where "CREDENTIAL_RECORD_VERSION \<equiv> 1"
abbreviation (input) CREDENTIAL_RECORD_GENERATION_OFFSET :: nat where
  "CREDENTIAL_RECORD_GENERATION_OFFSET \<equiv> 8"
abbreviation (input) CREDENTIAL_RECORD_PSK_OFFSET :: nat where "CREDENTIAL_RECORD_PSK_OFFSET \<equiv> 12"
abbreviation (input) PSK_IDENTITY_SIZE :: nat where "PSK_IDENTITY_SIZE \<equiv> 24"
abbreviation (input) AIRDAP_CONFIG_SLOT_AUTH_MATERIAL :: int where
  "AIRDAP_CONFIG_SLOT_AUTH_MATERIAL \<equiv> 2"

datatype airdap_network_auth_result =
    AUTH_OK | AUTH_INVALID_ARGUMENT | AUTH_INVALID_STATE | AUTH_UNSUPPORTED_VERSION
  | AUTH_NO_CREDENTIAL | AUTH_STORAGE_FAILED | AUTH_NO_MEMORY | AUTH_BUSY
  | AUTH_AUTHENTICATION_FAILED | AUTH_UNAUTHENTICATED | AUTH_EXPIRED | AUTH_REPLAY

record active_credential =
  ac_valid :: bool
  ac_generation :: u32
  ac_psk :: bytes
  ac_fingerprint :: bytes

record owner_session =
  ow_active :: bool
  ow_session_id :: u32
  ow_credential_generation :: u32
  ow_token :: bytes
  ow_credential_fingerprint :: bytes
  ow_last_activity_us :: int

text \<open>A handler stands for the function pointer and its context.\<close>

record pending_revoke =
  pv_handler :: "nat option"
  pv_session_id :: u32

record airdap_network_auth_connection =
  co_tls :: "nat option"
  co_psk_hint_key :: "bytes \<times> bytes"
  co_credential_generation :: u32
  co_psk :: bytes
  co_credential_fingerprint :: bytes
  co_psk_identity :: bytes
  co_tls_authenticated :: bool
  co_bound :: bool
  co_session_id :: u32

record airdap_network_auth_session_info =
  si_session_id :: u32
  si_credential_generation :: u32
  si_session_token :: bytes
  si_credential_fingerprint :: bytes

record airdap_network_auth_status =
  sa_credential_present :: bool
  sa_pending_handshakes :: u32
  sa_logical_owner_active :: bool
  sa_bound_connections :: u32

text \<open>The history. A time is the value the function read from the timer.\<close>

datatype auth_event =
    Pairing_window bool
  | Loaded bytes
  | Published bool bytes
  | Erased
  | Authenticated nat bytes
  | Opened_session nat u32 bytes int
  | Joined_session nat u32 bytes int
  | Validated nat u32 int
  | Ended_session u32
  | Revoked nat u32

record 'h network_auth =
  na_mutex :: bool
  na_initialized :: bool
  na_identity :: bytes
  na_credential :: active_credential
  na_owner :: owner_session
  na_pairing_window_active :: bool
  na_pending_handshakes :: u32
  na_bound_connections :: u32
  na_next_session_id :: u32
  na_revoke_handler :: "nat option"
  na_connections :: "nat \<Rightarrow> airdap_network_auth_connection option"
  na_allocated :: nat
  na_config :: "'h config_store"
  na_trace :: "auth_event list"

text \<open>
  What the platform answers: the result of a step of a TLS handshake, and of waiting for a socket
  (\<open>POLL_EVENTS True\<close> when an error or a hang-up is among the events).
\<close>

datatype tls_result = TLS_OK | TLS_WANT_READ | TLS_WANT_WRITE | TLS_ERROR int

datatype poll_result = POLL_TIMEOUT | POLL_INTERRUPTED | POLL_FAILED | POLL_EVENTS bool

datatype poll_event = POLLIN | POLLOUT

record 'h auth_env =
  ae_nvs :: "'h nvs_env"
  ae_device_id :: "'h \<Rightarrow> bytes option \<times> 'h"
  ae_crypto_init :: "'h \<Rightarrow> bool \<times> 'h"
  ae_hash_compute :: "bytes \<Rightarrow> 'h \<Rightarrow> bool \<times> 'h"
  ae_sha256 :: "bytes \<Rightarrow> bytes"
  ae_create_mutex :: "'h \<Rightarrow> bool \<times> 'h"
  ae_take_mutex :: "'h \<Rightarrow> bool \<times> 'h"
  ae_try_mutex :: "'h \<Rightarrow> bool \<times> 'h"
  ae_give_mutex :: "'h \<Rightarrow> unit \<times> 'h"
  ae_timer_create :: "'h \<Rightarrow> esp_err \<times> 'h"
  ae_timer_start_periodic :: "'h \<Rightarrow> esp_err \<times> 'h"
  ae_get_time :: "'h \<Rightarrow> int \<times> 'h"
  ae_fill_random :: "'h \<Rightarrow> (nat \<Rightarrow> u8) \<times> 'h"
  ae_calloc :: "'h \<Rightarrow> bool \<times> 'h"
  ae_nonblock_flag :: u32
  ae_get_flags :: "int \<Rightarrow> 'h \<Rightarrow> u32 option \<times> 'h"
  ae_set_flags :: "int \<Rightarrow> u32 \<Rightarrow> 'h \<Rightarrow> bool \<times> 'h"
  ae_poll :: "int \<Rightarrow> poll_event \<Rightarrow> int \<Rightarrow> 'h \<Rightarrow> poll_result \<times> 'h"
  ae_tls_init :: "'h \<Rightarrow> nat option \<times> 'h"
  ae_server_session_init :: "bytes \<times> bytes \<Rightarrow> int \<Rightarrow> nat \<Rightarrow> 'h \<Rightarrow> tls_result \<times> 'h"
  ae_server_session_continue :: "nat \<Rightarrow> 'h \<Rightarrow> tls_result \<times> 'h"
  ae_set_conn_state :: "nat \<Rightarrow> 'h \<Rightarrow> tls_result \<times> 'h"
  ae_server_session_delete :: "nat \<Rightarrow> 'h \<Rightarrow> unit \<times> 'h"
  ae_conn_read :: "nat \<Rightarrow> nat \<Rightarrow> 'h \<Rightarrow> (int \<times> bytes) \<times> 'h"
  ae_conn_write :: "nat \<Rightarrow> bytes \<Rightarrow> 'h \<Rightarrow> int \<times> 'h"
  ae_revoke :: "nat \<Rightarrow> u32 \<Rightarrow> 'h \<Rightarrow> unit \<times> 'h"

type_synonym ('h, 'a) auth_task = "('h network_auth, 'a) task"

section \<open>Calls and helpers\<close>

definition acall :: "('h \<Rightarrow> 'r \<times> 'h) \<Rightarrow> ('h network_auth, 'r) state" where
  "acall f = State (\<lambda>s. case f (cs_world (na_config s)) of (r, h) \<Rightarrow>
     (r, s\<lparr>na_config := (na_config s)\<lparr>cs_world := h\<rparr>\<rparr>))"

definition config_call :: "('h config_store, 'r) state \<Rightarrow> ('h network_auth, 'r) state" where
  "config_call m = State (\<lambda>s. case run_state m (na_config s) of (r, c) \<Rightarrow> (r, s\<lparr>na_config := c\<rparr>))"

definition note_auth :: "auth_event \<Rightarrow> ('h network_auth, unit) state" where
  "note_auth e = updates (\<lambda>s. s\<lparr>na_trace := e # na_trace s\<rparr>)"

text \<open>\<^verbatim>\<open>clear_bytes\<close> of a whole structure, and \<^verbatim>\<open>calloc\<close>.\<close>

definition no_credential :: active_credential where
  "no_credential = \<lparr>ac_valid = False, ac_generation = 0,
     ac_psk = replicate AIRDAP_NETWORK_AUTH_PSK_SIZE 0,
     ac_fingerprint = replicate AIRDAP_NETWORK_AUTH_FINGERPRINT_SIZE 0\<rparr>"

definition no_owner :: owner_session where
  "no_owner = \<lparr>ow_active = False, ow_session_id = 0, ow_credential_generation = 0,
     ow_token = replicate AIRDAP_NETWORK_AUTH_SESSION_TOKEN_SIZE 0,
     ow_credential_fingerprint = replicate AIRDAP_NETWORK_AUTH_FINGERPRINT_SIZE 0,
     ow_last_activity_us = 0\<rparr>"

definition no_connection :: airdap_network_auth_connection where
  "no_connection = \<lparr>co_tls = None, co_psk_hint_key = ([], []), co_credential_generation = 0,
     co_psk = replicate AIRDAP_NETWORK_AUTH_PSK_SIZE 0,
     co_credential_fingerprint = replicate AIRDAP_NETWORK_AUTH_FINGERPRINT_SIZE 0,
     co_psk_identity = replicate PSK_IDENTITY_SIZE 0, co_tls_authenticated = False,
     co_bound = False, co_session_id = 0\<rparr>"

definition no_revoke :: pending_revoke where
  "no_revoke = \<lparr>pv_handler = None, pv_session_id = 0\<rparr>"

definition lock_auth :: "'h auth_env \<Rightarrow> ('h network_auth, bool) state" where
  "lock_auth E = do {
     created \<leftarrow> reads na_mutex;
     if \<not> created then State_Monad.return False else acall (ae_take_mutex E) }"

definition try_lock_auth :: "'h auth_env \<Rightarrow> ('h network_auth, bool) state" where
  "try_lock_auth E = do {
     created \<leftarrow> reads na_mutex;
     if \<not> created then State_Monad.return False else acall (ae_try_mutex E) }"

definition unlock_auth :: "'h auth_env \<Rightarrow> ('h network_auth, unit) state" where
  "unlock_auth E = acall (ae_give_mutex E)"

text \<open>The loop over the bytes accumulates their differences.\<close>

fun difference :: "bytes \<Rightarrow> bytes \<Rightarrow> u8 \<Rightarrow> u8" where
  "difference (x # xs) (y # ys) d = difference xs ys (d OR (x XOR y))"
| "difference _ _ d = d"

definition constant_time_equal :: "bytes \<Rightarrow> bytes \<Rightarrow> nat \<Rightarrow> bool" where
  "constant_time_equal left right n \<longleftrightarrow> difference (take n left) (take n right) 0 = 0"

definition ascii :: "string \<Rightarrow> bytes" where
  "ascii text = map (\<lambda>c. of_nat (of_char c)) text"

definition fingerprint_label :: bytes where
  "fingerprint_label = ascii ''AirDAP network PSK v1''"

definition fingerprint_material :: "bytes \<Rightarrow> bytes \<Rightarrow> bytes" where
  "fingerprint_material identity psk =
     fingerprint_label @ c_string identity @ take AIRDAP_NETWORK_AUTH_PSK_SIZE psk"

text \<open>
  The hash may fail; when it succeeds the digest is a function of the message, as documented.
\<close>

definition calculate_fingerprint ::
    "'h auth_env \<Rightarrow> bytes \<Rightarrow> ('h network_auth, esp_err \<times> bytes) state" where
  "calculate_fingerprint E psk = do {
     identity \<leftarrow> reads na_identity;
     success \<leftarrow> acall (ae_hash_compute E (fingerprint_material identity psk));
     let digest = ae_sha256 E (fingerprint_material identity psk) in
     State_Monad.return
       (if success \<and> length digest = AIRDAP_NETWORK_AUTH_FINGERPRINT_SIZE then ESP_OK else ESP_FAIL,
        digest) }"

definition credential_magic :: bytes where
  "credential_magic = ascii ''ANET''"

definition encode_credential_record :: "active_credential \<Rightarrow> bytes" where
  "encode_credential_record credential =
     credential_magic @ [CREDENTIAL_RECORD_VERSION, 0] @
     [byte1 (of_nat CREDENTIAL_RECORD_SIZE :: u16), byte0 (of_nat CREDENTIAL_RECORD_SIZE :: u16)] @
     [byte3 (ac_generation credential), byte2 (ac_generation credential),
      byte1 (ac_generation credential), byte0 (ac_generation credential)] @ ac_psk credential"

definition decode_credential_record ::
    "'h auth_env \<Rightarrow> bytes \<Rightarrow> nat \<Rightarrow> active_credential \<Rightarrow>
     ('h network_auth, esp_err \<times> active_credential) state" where
  "decode_credential_record E input input_size credential =
     (if input_size \<noteq> CREDENTIAL_RECORD_SIZE \<or> be16 (input ! 6) (input ! 7) \<noteq> of_nat CREDENTIAL_RECORD_SIZE
      then State_Monad.return (ESP_ERR_INVALID_SIZE, credential)
      else if take 4 input \<noteq> credential_magic \<or> input ! 5 \<noteq> 0
      then State_Monad.return (ESP_ERR_INVALID_RESPONSE, credential)
      else if input ! 4 \<noteq> CREDENTIAL_RECORD_VERSION
      then State_Monad.return (ESP_ERR_INVALID_VERSION, credential)
      else
        let generation = be32 (input ! CREDENTIAL_RECORD_GENERATION_OFFSET) (input ! 9) (input ! 10)
              (input ! 11);
            psk = take AIRDAP_NETWORK_AUTH_PSK_SIZE (drop CREDENTIAL_RECORD_PSK_OFFSET input)
        in if generation = 0 then State_Monad.return (ESP_ERR_INVALID_RESPONSE, credential)
        else do {
          (error, fingerprint) \<leftarrow> calculate_fingerprint E psk;
          State_Monad.return
            (if error \<noteq> ESP_OK then (error, credential)
             else (ESP_OK, \<lparr>ac_valid = True, ac_generation = generation, ac_psk = psk,
                     ac_fingerprint = fingerprint\<rparr>)) })"

definition allocate_session_id :: "('h network_auth, u32) state" where
  "allocate_session_id = do {
     allocated \<leftarrow> reads na_next_session_id;
     updates (\<lambda>s. s\<lparr>na_next_session_id := allocated + 1\<rparr>);
     next_id \<leftarrow> reads na_next_session_id;
     whenever (next_id = 0) (updates (\<lambda>s. s\<lparr>na_next_session_id := 1\<rparr>));
     State_Monad.return allocated }"

definition invalidate_owner_locked :: "('h network_auth, pending_revoke) state" where
  "invalidate_owner_locked = do {
     owner \<leftarrow> reads na_owner;
     if \<not> ow_active owner then State_Monad.return no_revoke
     else do {
       handler \<leftarrow> reads na_revoke_handler;
       updates (\<lambda>s. s\<lparr>na_owner := no_owner\<rparr>);
       note_auth (Ended_session (ow_session_id owner));
       State_Monad.return \<lparr>pv_handler = handler, pv_session_id = ow_session_id owner\<rparr> } }"

definition call_handler :: "'h auth_env \<Rightarrow> nat \<Rightarrow> u32 \<Rightarrow> ('h network_auth, unit) state" where
  "call_handler E handler session_id = do {
     acall (ae_revoke E handler session_id);
     note_auth (Revoked handler session_id) }"

definition invoke_revoke ::
    "'h auth_env \<Rightarrow> pending_revoke \<Rightarrow> ('h, 'a) auth_task \<Rightarrow> ('h, 'a) auth_task" where
  "invoke_revoke E pending k =
     (case pv_handler pending of
        None \<Rightarrow> k
      | Some handler \<Rightarrow>
          if pv_session_id pending \<noteq> 0
          then atomic (call_handler E handler (pv_session_id pending)) (\<lambda>_. k) else k)"

definition owner_expired_at :: "int \<Rightarrow> owner_session \<Rightarrow> bool" where
  "owner_expired_at now_us owner \<longleftrightarrow> ow_active owner \<and> now_us \<ge> ow_last_activity_us owner \<and>
     now_us - ow_last_activity_us owner \<ge> AIRDAP_NETWORK_AUTH_SESSION_IDLE_TIMEOUT_US"

text \<open>\<^verbatim>\<open>if (owner_expired_at(now_us)) pending = invalidate_owner_locked()\<close>.\<close>

definition expire_owner :: "int \<Rightarrow> ('h network_auth, pending_revoke) state" where
  "expire_owner now_us = do {
     owner \<leftarrow> reads na_owner;
     if owner_expired_at now_us owner then invalidate_owner_locked
     else State_Monad.return no_revoke }"

definition expire_locked :: "'h auth_env \<Rightarrow> ('h network_auth, pending_revoke) state" where
  "expire_locked E = do {
     taken \<leftarrow> try_lock_auth E;
     if \<not> taken then State_Monad.return no_revoke
     else do {
       now_us \<leftarrow> acall (ae_get_time E);
       pending \<leftarrow> expire_owner now_us;
       unlock_auth E;
       State_Monad.return pending } }"

definition expiry_timer_callback :: "'h auth_env \<Rightarrow> ('h, 'a) auth_task \<Rightarrow> ('h, 'a) auth_task" where
  "expiry_timer_callback E k = atomic (expire_locked E) (\<lambda>pending. invoke_revoke E pending k)"

section \<open>Initialization and status\<close>

text \<open>\<^verbatim>\<open>snprintf\<close> into an array of 24 bytes: the text, truncated, and zeros.\<close>

definition identity_text :: "bytes \<Rightarrow> bytes" where
  "identity_text device_id = ascii ''AIRDAP:'' @ c_string device_id"

definition identity_array :: "bytes \<Rightarrow> bytes" where
  "identity_array text = take (PSK_IDENTITY_SIZE - 1) text @
     replicate (PSK_IDENTITY_SIZE - length (take (PSK_IDENTITY_SIZE - 1) text)) 0"

definition set_identity :: "bytes \<Rightarrow> ('h network_auth, unit) state" where
  "set_identity identity = updates (\<lambda>s. s\<lparr>na_identity := identity\<rparr>)"

definition clear_identity :: "('h network_auth, unit) state" where
  "clear_identity = set_identity (replicate PSK_IDENTITY_SIZE 0)"

definition load_credential :: "'h auth_env \<Rightarrow> ('h network_auth, esp_err) state" where
  "load_credential E = do {
     (load_error, data, data_size) \<leftarrow> config_call (airdap_config_store_get_blob (ae_nvs E)
        AIRDAP_CONFIG_SLOT_AUTH_MATERIAL (Some (replicate CREDENTIAL_RECORD_SIZE 0))
        (Some CREDENTIAL_RECORD_SIZE));
     if load_error = ESP_OK then do {
       credential \<leftarrow> reads na_credential;
       (decode_error, credential) \<leftarrow>
         decode_credential_record E (the data) (the data_size) credential;
       updates (\<lambda>s. s\<lparr>na_credential := credential\<rparr>);
       whenever (decode_error = ESP_OK) (note_auth (Loaded (ac_psk credential)));
       State_Monad.return decode_error }
     else State_Monad.return (if load_error \<noteq> ESP_ERR_NOT_FOUND then load_error else ESP_OK) }"

definition start_expiry :: "'h auth_env \<Rightarrow> ('h network_auth, esp_err) state" where
  "start_expiry E = do {
     error \<leftarrow> acall (ae_timer_create E);
     error \<leftarrow> (if error = ESP_OK then acall (ae_timer_start_periodic E) else State_Monad.return error);
     if error \<noteq> ESP_OK then do {
       updates (\<lambda>s. s\<lparr>na_credential := no_credential\<rparr>);
       clear_identity;
       State_Monad.return error }
     else do {
       updates (\<lambda>s. s\<lparr>na_initialized := True\<rparr>);
       State_Monad.return ESP_OK } }"

definition load_and_start :: "'h auth_env \<Rightarrow> ('h network_auth, esp_err) state" where
  "load_and_start E = do {
     success \<leftarrow> acall (ae_crypto_init E);
     if \<not> success then do { clear_identity; State_Monad.return ESP_FAIL }
     else do {
       error \<leftarrow> load_credential E;
       if error \<noteq> ESP_OK then do { clear_identity; State_Monad.return error }
       else do {
         created \<leftarrow> acall (ae_create_mutex E);
         updates (\<lambda>s. s\<lparr>na_mutex := created\<rparr>);
         if \<not> created then do {
           updates (\<lambda>s. s\<lparr>na_credential := no_credential\<rparr>);
           clear_identity;
           State_Monad.return ESP_ERR_NO_MEM }
         else start_expiry E } } }"

definition airdap_network_auth_init :: "'h auth_env \<Rightarrow> ('h network_auth, esp_err) state" where
  "airdap_network_auth_init E = do {
     started \<leftarrow> reads (\<lambda>s. na_initialized s \<or> na_mutex s);
     if started then State_Monad.return ESP_ERR_INVALID_STATE
     else do {
       device_id \<leftarrow> acall (ae_device_id E);
       case device_id of
         None \<Rightarrow> State_Monad.return ESP_ERR_INVALID_STATE
       | Some device_id \<Rightarrow> do {
           set_identity (identity_array (identity_text device_id));
           if length (identity_text device_id) \<ge> PSK_IDENTITY_SIZE
           then do { clear_identity; State_Monad.return ESP_ERR_INVALID_SIZE }
           else load_and_start E } } }"

definition status_locked ::
    "'h auth_env \<Rightarrow> ('h network_auth, esp_err \<times> airdap_network_auth_status option) state" where
  "status_locked E = do {
     taken \<leftarrow> lock_auth E;
     if \<not> taken then State_Monad.return (ESP_FAIL, None)
     else do {
       status \<leftarrow> reads (\<lambda>s. \<lparr>sa_credential_present = ac_valid (na_credential s),
         sa_pending_handshakes = na_pending_handshakes s,
         sa_logical_owner_active = ow_active (na_owner s),
         sa_bound_connections = na_bound_connections s\<rparr>);
       unlock_auth E;
       State_Monad.return (ESP_OK, Some status) } }"

definition airdap_network_auth_get_status ::
    "'h auth_env \<Rightarrow> bool \<Rightarrow> (esp_err \<times> airdap_network_auth_status option \<Rightarrow> ('h, 'a) auth_task) \<Rightarrow>
     ('h, 'a) auth_task" where
  "airdap_network_auth_get_status E status k =
     (if \<not> status then k (ESP_ERR_INVALID_ARG, None)
      else atomic (reads na_initialized) (\<lambda>initialized.
        if \<not> initialized then k (ESP_ERR_INVALID_STATE, None)
        else atomic (status_locked E) k))"

definition set_handler_locked :: "'h auth_env \<Rightarrow> nat \<Rightarrow> ('h network_auth, esp_err) state" where
  "set_handler_locked E handler = do {
     taken \<leftarrow> lock_auth E;
     if \<not> taken then State_Monad.return ESP_FAIL
     else do {
       present \<leftarrow> reads (\<lambda>s. na_revoke_handler s \<noteq> None);
       if present then do { unlock_auth E; State_Monad.return ESP_ERR_INVALID_STATE }
       else do {
         updates (\<lambda>s. s\<lparr>na_revoke_handler := Some handler\<rparr>);
         unlock_auth E;
         State_Monad.return ESP_OK } } }"

definition airdap_network_auth_set_revoke_handler ::
    "'h auth_env \<Rightarrow> nat option \<Rightarrow> (esp_err \<Rightarrow> ('h, 'a) auth_task) \<Rightarrow> ('h, 'a) auth_task" where
  "airdap_network_auth_set_revoke_handler E handler k =
     atomic (reads na_initialized) (\<lambda>initialized.
       if \<not> initialized \<or> handler = None then k ESP_ERR_INVALID_ARG
       else atomic (set_handler_locked E (the handler)) k)"

definition set_window :: "bool \<Rightarrow> ('h network_auth, unit) state" where
  "set_window active = do {
     updates (\<lambda>s. s\<lparr>na_pairing_window_active := active\<rparr>);
     note_auth (Pairing_window active) }"

definition set_window_locked :: "'h auth_env \<Rightarrow> bool \<Rightarrow> ('h network_auth, esp_err) state" where
  "set_window_locked E active = do {
     taken \<leftarrow> lock_auth E;
     if \<not> taken then State_Monad.return ESP_FAIL
     else do {
       set_window active;
       unlock_auth E;
       State_Monad.return ESP_OK } }"

definition airdap_network_auth_set_pairing_window_active ::
    "'h auth_env \<Rightarrow> bool \<Rightarrow> (esp_err \<Rightarrow> ('h, 'a) auth_task) \<Rightarrow> ('h, 'a) auth_task" where
  "airdap_network_auth_set_pairing_window_active E active k =
     atomic (reads na_initialized) (\<lambda>initialized.
       if \<not> initialized then k ESP_ERR_INVALID_STATE
       else atomic (set_window_locked E active) k)"

section \<open>Pairing\<close>

definition publish_credential ::
    "'h auth_env \<Rightarrow> bool \<Rightarrow> active_credential \<Rightarrow>
     ('h network_auth, airdap_network_auth_result \<times> bytes option \<times> pending_revoke) state" where
  "publish_credential E physical_usb candidate = do {
     pending \<leftarrow> invalidate_owner_locked;
     updates (\<lambda>s. s\<lparr>na_credential := candidate\<rparr>);
     note_auth (Published physical_usb (ac_psk candidate));
     unlock_auth E;
     State_Monad.return (AUTH_OK, Some (ac_fingerprint candidate), pending) }"

definition store_credential ::
    "'h auth_env \<Rightarrow> bool \<Rightarrow> active_credential \<Rightarrow>
     ('h network_auth, airdap_network_auth_result \<times> bytes option \<times> pending_revoke) state" where
  "store_credential E physical_usb candidate = do {
     store_error \<leftarrow> config_call (airdap_config_store_set_blob (ae_nvs E)
       AIRDAP_CONFIG_SLOT_AUTH_MATERIAL (Some (encode_credential_record candidate))
       CREDENTIAL_RECORD_SIZE);
     if store_error \<noteq> ESP_OK
     then do { unlock_auth E; State_Monad.return (AUTH_STORAGE_FAILED, None, no_revoke) }
     else publish_credential E physical_usb candidate }"

definition next_generation :: "active_credential \<Rightarrow> u32" where
  "next_generation credential =
     (let generation = (if ac_valid credential then ac_generation credential + 1 else 1)
      in if generation = 0 then 1 else generation)"

definition new_credential ::
    "'h auth_env \<Rightarrow> bytes \<Rightarrow> bool \<Rightarrow> active_credential \<Rightarrow>
     ('h network_auth, airdap_network_auth_result \<times> bytes option \<times> pending_revoke) state" where
  "new_credential E candidate_psk physical_usb active = do {
     (error, fingerprint) \<leftarrow> calculate_fingerprint E candidate_psk;
     if error \<noteq> ESP_OK
     then do { unlock_auth E; State_Monad.return (AUTH_INVALID_STATE, None, no_revoke) }
     else store_credential E physical_usb \<lparr>ac_valid = True,
       ac_generation = next_generation active, ac_psk = candidate_psk,
       ac_fingerprint = fingerprint\<rparr> }"

definition pair_locked ::
    "'h auth_env \<Rightarrow> bytes \<Rightarrow> bool \<Rightarrow>
     ('h network_auth, airdap_network_auth_result \<times> bytes option \<times> pending_revoke) state" where
  "pair_locked E candidate_psk physical_usb = do {
     taken \<leftarrow> lock_auth E;
     if \<not> taken then State_Monad.return (AUTH_INVALID_STATE, None, no_revoke)
     else do {
       window \<leftarrow> reads na_pairing_window_active;
       if \<not> physical_usb \<and> \<not> window
       then do { unlock_auth E; State_Monad.return (AUTH_INVALID_STATE, None, no_revoke) }
       else do {
         active \<leftarrow> reads na_credential;
         if ac_valid active \<and>
            constant_time_equal (ac_psk active) candidate_psk AIRDAP_NETWORK_AUTH_PSK_SIZE
         then do {
           unlock_auth E;
           State_Monad.return (AUTH_OK, Some (ac_fingerprint active), no_revoke) }
         else new_credential E candidate_psk physical_usb active } } }"

text \<open>\<open>request\<close> is the buffer the caller passes, with its size; the results are the status and the
  fingerprint written for the caller.\<close>

definition pair_credential ::
    "'h auth_env \<Rightarrow> bytes option \<Rightarrow> bool \<Rightarrow> bool \<Rightarrow>
     (airdap_network_auth_result \<times> bytes option \<Rightarrow> ('h, 'a) auth_task) \<Rightarrow> ('h, 'a) auth_task" where
  "pair_credential E request fingerprint physical_usb k =
     (case request of
        None \<Rightarrow> k (AUTH_INVALID_ARGUMENT, None)
      | Some request \<Rightarrow>
          if \<not> fingerprint \<or> length request \<noteq> AIRDAP_NETWORK_AUTH_PAIR_REQUEST_SIZE
          then k (AUTH_INVALID_ARGUMENT, None)
          else atomic (reads na_initialized) (\<lambda>initialized.
            if \<not> initialized then k (AUTH_INVALID_STATE, None)
            else if request ! 0 \<noteq> AIRDAP_NETWORK_AUTH_PAIR_REQUEST_VERSION
            then k (AUTH_UNSUPPORTED_VERSION, None)
            else atomic (pair_locked E (drop 1 request) physical_usb) (\<lambda>(result, digest, pending).
              invoke_revoke E pending (k (result, digest)))))"

definition airdap_network_auth_pair ::
    "'h auth_env \<Rightarrow> bytes option \<Rightarrow> bool \<Rightarrow>
     (airdap_network_auth_result \<times> bytes option \<Rightarrow> ('h, 'a) auth_task) \<Rightarrow> ('h, 'a) auth_task" where
  "airdap_network_auth_pair E request fingerprint k = pair_credential E request fingerprint False k"

definition airdap_network_auth_pair_usb ::
    "'h auth_env \<Rightarrow> bytes option \<Rightarrow> bool \<Rightarrow>
     (airdap_network_auth_result \<times> bytes option \<Rightarrow> ('h, 'a) auth_task) \<Rightarrow> ('h, 'a) auth_task" where
  "airdap_network_auth_pair_usb E request fingerprint k = pair_credential E request fingerprint True k"

section \<open>The TLS handshake\<close>

definition give_handshake_slot :: "('h network_auth, unit) state" where
  "give_handshake_slot = updates (\<lambda>s.
     if na_pending_handshakes s > 0
     then s\<lparr>na_pending_handshakes := na_pending_handshakes s - 1\<rparr> else s)"

definition release_handshake_slot :: "'h auth_env \<Rightarrow> ('h network_auth, unit) state" where
  "release_handshake_slot E = do {
     taken \<leftarrow> lock_auth E;
     if \<not> taken then skip else do { give_handshake_slot; unlock_auth E } }"

text \<open>
  The handshake on the socket, until the deadline. It changes only the platform. Running out of
  fuel is \<^const>\<open>None\<close>; \<open>TLS_ERROR (-1)\<close> is \<^verbatim>\<open>ESP_FAIL\<close>.
\<close>

fun handshake_loop ::
    "nat \<Rightarrow> 'h auth_env \<Rightarrow> int \<Rightarrow> nat \<Rightarrow> int \<Rightarrow> ('h network_auth, tls_result option) state" where
  "handshake_loop 0 E socket_fd tls deadline_us = State_Monad.return None"
| "handshake_loop (Suc fuel) E socket_fd tls deadline_us = do {
     now \<leftarrow> acall (ae_get_time E);
     if now \<ge> deadline_us then State_Monad.return (Some (TLS_ERROR (-1)))
     else do {
       result \<leftarrow> acall (ae_server_session_continue E tls);
       if result = TLS_OK then do {
         now \<leftarrow> acall (ae_get_time E);
         if now \<ge> deadline_us then State_Monad.return (Some (TLS_ERROR (-1)))
         else do {
           result \<leftarrow> acall (ae_set_conn_state E tls);
           State_Monad.return (Some result) } }
       else if result \<noteq> TLS_WANT_READ \<and> result \<noteq> TLS_WANT_WRITE
       then State_Monad.return (Some result)
       else do {
         now \<leftarrow> acall (ae_get_time E);
         if deadline_us - now \<le> 0 then State_Monad.return (Some (TLS_ERROR (-1)))
         else do {
           ready \<leftarrow> acall (ae_poll E socket_fd (if result = TLS_WANT_READ then POLLIN else POLLOUT)
             ((deadline_us - now + 999) div 1000));
           (case ready of
              POLL_TIMEOUT \<Rightarrow> State_Monad.return (Some (TLS_ERROR (-1)))
            | POLL_INTERRUPTED \<Rightarrow> handshake_loop fuel E socket_fd tls deadline_us
            | POLL_FAILED \<Rightarrow> State_Monad.return (Some (TLS_ERROR (-1)))
            | POLL_EVENTS broken \<Rightarrow>
                if broken then State_Monad.return (Some (TLS_ERROR (-1)))
                else handshake_loop fuel E socket_fd tls deadline_us) } } } }"

definition complete_tls_handshake ::
    "nat \<Rightarrow> 'h auth_env \<Rightarrow> bytes \<times> bytes \<Rightarrow> int \<Rightarrow> nat \<Rightarrow> int \<Rightarrow>
     ('h network_auth, tls_result option) state" where
  "complete_tls_handshake fuel E config socket_fd tls deadline_us = do {
     result \<leftarrow> acall (ae_server_session_init E config socket_fd tls);
     if result \<noteq> TLS_OK then State_Monad.return (Some result)
     else handshake_loop fuel E socket_fd tls deadline_us }"

text \<open>A handshake that succeeds with a key is noted for the connection it is for.\<close>

definition run_handshake ::
    "nat \<Rightarrow> 'h auth_env \<Rightarrow> nat \<Rightarrow> airdap_network_auth_connection \<Rightarrow> int \<Rightarrow> int \<Rightarrow>
     ('h network_auth, tls_result option) state" where
  "run_handshake fuel E c conn socket_fd deadline_us = do {
     result \<leftarrow> complete_tls_handshake fuel E (co_psk_hint_key conn) socket_fd (the (co_tls conn))
       deadline_us;
     whenever (result = Some TLS_OK) (note_auth (Authenticated c (fst (co_psk_hint_key conn))));
     State_Monad.return result }"

text \<open>The first critical section: a slot, the deadline, and the candidate's copy of the credential.\<close>

definition reserve_handshake ::
    "'h auth_env \<Rightarrow> ('h network_auth,
       airdap_network_auth_result + nat \<times> airdap_network_auth_connection \<times> int) state" where
  "reserve_handshake E = do {
     taken \<leftarrow> lock_auth E;
     if \<not> taken then State_Monad.return (Inl AUTH_INVALID_STATE)
     else do {
       credential \<leftarrow> reads na_credential;
       if \<not> ac_valid credential
       then do { unlock_auth E; State_Monad.return (Inl AUTH_NO_CREDENTIAL) }
       else do {
         pending \<leftarrow> reads na_pending_handshakes;
         if pending \<ge> AIRDAP_NETWORK_AUTH_MAX_PENDING_HANDSHAKES
         then do { unlock_auth E; State_Monad.return (Inl AUTH_BUSY) }
         else do {
           updates (\<lambda>s. s\<lparr>na_pending_handshakes := pending + 1\<rparr>);
           now \<leftarrow> acall (ae_get_time E);
           identity \<leftarrow> reads na_identity;
           c \<leftarrow> reads na_allocated;
           updates (\<lambda>s. s\<lparr>na_allocated := c + 1\<rparr>);
           unlock_auth E;
           State_Monad.return (Inr (c, no_connection\<lparr>
               co_credential_generation := ac_generation credential,
               co_psk := ac_psk credential,
               co_credential_fingerprint := ac_fingerprint credential,
               co_psk_identity := identity\<rparr>,
             now + AIRDAP_NETWORK_AUTH_TLS_HANDSHAKE_TIMEOUT_MS * 1000)) } } } }"

definition connection_current :: "active_credential \<Rightarrow> airdap_network_auth_connection \<Rightarrow> bool" where
  "connection_current credential conn \<longleftrightarrow> ac_valid credential \<and>
     ac_generation credential = co_credential_generation conn \<and>
     constant_time_equal (ac_fingerprint credential) (co_credential_fingerprint conn)
       AIRDAP_NETWORK_AUTH_FINGERPRINT_SIZE"

text \<open>The second critical section, \<^const>\<open>None\<close> when the mutex is not obtained.\<close>

definition finish_handshake ::
    "'h auth_env \<Rightarrow> airdap_network_auth_connection \<Rightarrow> ('h network_auth, bool option) state" where
  "finish_handshake E conn = do {
     taken \<leftarrow> lock_auth E;
     if \<not> taken then State_Monad.return None
     else do {
       give_handshake_slot;
       credential \<leftarrow> reads na_credential;
       unlock_auth E;
       State_Monad.return (Some (connection_current credential conn)) } }"

definition delete_tls :: "'h auth_env \<Rightarrow> airdap_network_auth_connection \<Rightarrow> ('h network_auth, unit) state" where
  "delete_tls E conn =
     (case co_tls conn of None \<Rightarrow> skip | Some tls \<Rightarrow> acall (ae_server_session_delete E tls))"

definition conclude_accept ::
    "'h auth_env \<Rightarrow> nat \<Rightarrow> airdap_network_auth_connection \<Rightarrow> tls_result \<Rightarrow> bool \<Rightarrow>
     (airdap_network_auth_result \<times> nat option \<Rightarrow> ('h, 'a) auth_task) \<Rightarrow> ('h, 'a) auth_task" where
  "conclude_accept E c conn handshake_error socket_mode_restored k =
     atomic (finish_handshake E conn) (\<lambda>still_current. case still_current of
       None \<Rightarrow> atomic (release_handshake_slot E) (\<lambda>_.
         atomic (delete_tls E conn) (\<lambda>_. k (AUTH_INVALID_STATE, None)))
     | Some still_current \<Rightarrow>
         if handshake_error \<noteq> TLS_OK \<or> \<not> socket_mode_restored \<or> \<not> still_current
         then atomic (delete_tls E conn) (\<lambda>_.
           k (if handshake_error \<noteq> TLS_OK then AUTH_AUTHENTICATION_FAILED
              else if \<not> socket_mode_restored then AUTH_INVALID_STATE else AUTH_EXPIRED, None))
         else atomic (updates (\<lambda>s. s\<lparr>na_connections :=
             (na_connections s)(c \<mapsto> conn\<lparr>co_tls_authenticated := True\<rparr>)\<rparr>)) (\<lambda>_.
           k (AUTH_OK, Some c)))"

text \<open>The handshake with the socket switched to non-blocking for its duration.\<close>

definition shake_hands ::
    "nat \<Rightarrow> 'h auth_env \<Rightarrow> nat \<Rightarrow> airdap_network_auth_connection \<Rightarrow> int \<Rightarrow> int \<Rightarrow> u32 \<Rightarrow>
     (airdap_network_auth_result \<times> nat option \<Rightarrow> ('h, 'a) auth_task) \<Rightarrow> ('h, 'a) auth_task" where
  "shake_hands fuel E c conn socket_fd deadline_us socket_flags k =
     (let restore_socket_flags = socket_flags AND ae_nonblock_flag E = 0;
          conn = conn\<lparr>co_psk_hint_key := (co_psk conn, co_psk_identity conn)\<rparr>
      in atomic (acall (ae_tls_init E)) (\<lambda>tls. case tls of
        None \<Rightarrow> atomic (whenever restore_socket_flags
              (ignoring (acall (ae_set_flags E socket_fd socket_flags)))) (\<lambda>_.
            atomic (release_handshake_slot E) (\<lambda>_. k (AUTH_NO_MEMORY, None)))
      | Some tls \<Rightarrow> let conn = conn\<lparr>co_tls := Some tls\<rparr> in
          atomic (run_handshake fuel E c conn socket_fd deadline_us) (\<lambda>result. case result of
            None \<Rightarrow> Act (\<lambda>_. None)
          | Some handshake_error \<Rightarrow>
              atomic (if restore_socket_flags then acall (ae_set_flags E socket_fd socket_flags)
                      else State_Monad.return True) (\<lambda>socket_mode_restored.
                conclude_accept E c conn handshake_error socket_mode_restored k))))"

definition airdap_network_auth_tls_accept ::
    "nat \<Rightarrow> 'h auth_env \<Rightarrow> int \<Rightarrow> bool \<Rightarrow>
     (airdap_network_auth_result \<times> nat option \<Rightarrow> ('h, 'a) auth_task) \<Rightarrow> ('h, 'a) auth_task" where
  "airdap_network_auth_tls_accept fuel E socket_fd connection_pointer k =
     (if \<not> connection_pointer \<or> socket_fd < 0 then k (AUTH_INVALID_ARGUMENT, None)
      else atomic (reads na_initialized) (\<lambda>initialized.
        if \<not> initialized then k (AUTH_INVALID_STATE, None)
        else atomic (acall (ae_calloc E)) (\<lambda>allocated.
          if \<not> allocated then k (AUTH_NO_MEMORY, None)
          else atomic (reserve_handshake E) (\<lambda>reserved. case reserved of
            Inl result \<Rightarrow> k (result, None)
          | Inr (c, conn, deadline_us) \<Rightarrow>
              atomic (acall (ae_get_flags E socket_fd)) (\<lambda>flags. case flags of
                None \<Rightarrow> atomic (release_handshake_slot E) (\<lambda>_. k (AUTH_INVALID_ARGUMENT, None))
              | Some socket_flags \<Rightarrow>
                  atomic (if socket_flags AND ae_nonblock_flag E = 0
                          then acall (ae_set_flags E socket_fd (socket_flags OR ae_nonblock_flag E))
                          else State_Monad.return True) (\<lambda>ready.
                    if \<not> ready then atomic (release_handshake_slot E) (\<lambda>_. k (AUTH_INVALID_STATE, None))
                    else shake_hands fuel E c conn socket_fd deadline_us socket_flags k))))))"

section \<open>Connections and the owner session\<close>

text \<open>
  The fields of a connection, as the function finds them: they are changed only by calls of the task
  the connection belongs to. A task that passes a connection it has closed does not go on.
\<close>

definition with_connection ::
    "nat \<Rightarrow> (airdap_network_auth_connection \<Rightarrow> ('h, 'a) auth_task) \<Rightarrow> ('h, 'a) auth_task" where
  "with_connection c f = Act (\<lambda>s.
     case na_connections s c of None \<Rightarrow> None | Some conn \<Rightarrow> Some (f conn, s))"

definition airdap_network_auth_tls_read ::
    "'h auth_env \<Rightarrow> nat option \<Rightarrow> nat \<Rightarrow> (int \<times> bytes \<Rightarrow> ('h, 'a) auth_task) \<Rightarrow> ('h, 'a) auth_task" where
  "airdap_network_auth_tls_read E connection len k =
     (case connection of
        None \<Rightarrow> k (-1, [])
      | Some c \<Rightarrow> with_connection c (\<lambda>conn. case co_tls conn of
          None \<Rightarrow> k (-1, [])
        | Some tls \<Rightarrow> if len = 0 then k (-1, []) else atomic (acall (ae_conn_read E tls len)) k))"

definition airdap_network_auth_tls_write ::
    "'h auth_env \<Rightarrow> nat option \<Rightarrow> bytes option \<Rightarrow> (int \<Rightarrow> ('h, 'a) auth_task) \<Rightarrow> ('h, 'a) auth_task" where
  "airdap_network_auth_tls_write E connection buffer k =
     (case connection of
        None \<Rightarrow> k (-1)
      | Some c \<Rightarrow> with_connection c (\<lambda>conn. case co_tls conn of
          None \<Rightarrow> k (-1)
        | Some tls \<Rightarrow> (case buffer of
            None \<Rightarrow> k (-1)
          | Some data \<Rightarrow> if data = [] then k (-1) else atomic (acall (ae_conn_write E tls data)) k)))"

definition copy_session_info :: "owner_session \<Rightarrow> airdap_network_auth_session_info" where
  "copy_session_info owner = \<lparr>si_session_id = ow_session_id owner,
     si_credential_generation = ow_credential_generation owner, si_session_token = ow_token owner,
     si_credential_fingerprint = ow_credential_fingerprint owner\<rparr>"

definition open_owner ::
    "'h auth_env \<Rightarrow> airdap_network_auth_connection \<Rightarrow> ('h network_auth, unit) state" where
  "open_owner E conn = do {
     session_id \<leftarrow> allocate_session_id;
     random \<leftarrow> acall (ae_fill_random E);
     updates (\<lambda>s. s\<lparr>na_owner := (na_owner s)\<lparr>ow_active := True, ow_session_id := session_id,
       ow_credential_generation := co_credential_generation conn,
       ow_token := map random [0..<AIRDAP_NETWORK_AUTH_SESSION_TOKEN_SIZE],
       ow_credential_fingerprint := co_credential_fingerprint conn\<rparr>\<rparr>) }"

definition record_binding ::
    "nat \<Rightarrow> airdap_network_auth_connection \<Rightarrow> int \<Rightarrow>
     ('h network_auth, airdap_network_auth_session_info) state" where
  "record_binding c conn now_us = do {
     updates (\<lambda>s. s\<lparr>na_owner := (na_owner s)\<lparr>ow_last_activity_us := now_us\<rparr>\<rparr>);
     owner \<leftarrow> reads na_owner;
     updates (\<lambda>s. s\<lparr>na_connections := (na_connections s)(c \<mapsto>
         conn\<lparr>co_bound := True, co_session_id := ow_session_id owner\<rparr>),
       na_bound_connections := na_bound_connections s + 1\<rparr>);
     State_Monad.return (copy_session_info owner) }"

definition bind_new ::
    "'h auth_env \<Rightarrow> nat \<Rightarrow> airdap_network_auth_connection \<Rightarrow> int \<Rightarrow>
     ('h network_auth, airdap_network_auth_session_info) state" where
  "bind_new E c conn now_us = do {
     open_owner E conn;
     session_info \<leftarrow> record_binding c conn now_us;
     note_auth (Opened_session c (si_session_id session_info) (si_session_token session_info) now_us);
     State_Monad.return session_info }"

definition bind_joining ::
    "nat \<Rightarrow> airdap_network_auth_connection \<Rightarrow> bytes \<Rightarrow> int \<Rightarrow>
     ('h network_auth, airdap_network_auth_session_info) state" where
  "bind_joining c conn owner_token now_us = do {
     session_info \<leftarrow> record_binding c conn now_us;
     note_auth (Joined_session c (si_session_id session_info) owner_token now_us);
     State_Monad.return session_info }"

definition bind_current ::
    "'h auth_env \<Rightarrow> nat \<Rightarrow> airdap_network_auth_connection \<Rightarrow> bytes option \<Rightarrow> int \<Rightarrow>
     ('h network_auth, airdap_network_auth_result \<times> airdap_network_auth_session_info option) state" where
  "bind_current E c conn owner_token now_us = do {
     owner \<leftarrow> reads na_owner;
     if ow_active owner
     then (case owner_token of
         None \<Rightarrow> State_Monad.return (AUTH_BUSY, None)
       | Some token \<Rightarrow>
           if \<not> constant_time_equal (ow_token owner) token AIRDAP_NETWORK_AUTH_SESSION_TOKEN_SIZE
           then State_Monad.return (AUTH_BUSY, None)
           else do {
             session_info \<leftarrow> bind_joining c conn token now_us;
             State_Monad.return (AUTH_OK, Some session_info) })
     else if owner_token \<noteq> None then State_Monad.return (AUTH_EXPIRED, None)
     else do {
       session_info \<leftarrow> bind_new E c conn now_us;
       State_Monad.return (AUTH_OK, Some session_info) } }"

definition bind_at ::
    "'h auth_env \<Rightarrow> nat \<Rightarrow> airdap_network_auth_connection \<Rightarrow> bytes option \<Rightarrow> int \<Rightarrow>
     ('h network_auth, (airdap_network_auth_result \<times> airdap_network_auth_session_info option) \<times>
       pending_revoke) state" where
  "bind_at E c conn owner_token now_us = do {
     pending \<leftarrow> expire_owner now_us;
     credential \<leftarrow> reads na_credential;
     if \<not> connection_current credential conn
     then do { unlock_auth E; State_Monad.return ((AUTH_EXPIRED, None), pending) }
     else do {
       result \<leftarrow> bind_current E c conn owner_token now_us;
       unlock_auth E;
       State_Monad.return (result, pending) } }"

definition bind_locked ::
    "'h auth_env \<Rightarrow> nat \<Rightarrow> airdap_network_auth_connection \<Rightarrow> bytes option \<Rightarrow>
     ('h network_auth, (airdap_network_auth_result \<times> airdap_network_auth_session_info option) \<times>
       pending_revoke) state" where
  "bind_locked E c conn owner_token = do {
     taken \<leftarrow> lock_auth E;
     if \<not> taken then State_Monad.return ((AUTH_INVALID_STATE, None), no_revoke)
     else do {
       now_us \<leftarrow> acall (ae_get_time E);
       bind_at E c conn owner_token now_us } }"

text \<open>A token buffer shorter than its size would be read past its end: the task does not go on.\<close>

definition airdap_network_auth_session_bind ::
    "'h auth_env \<Rightarrow> nat option \<Rightarrow> bytes option \<Rightarrow> nat \<Rightarrow> bool \<Rightarrow>
     (airdap_network_auth_result \<times> airdap_network_auth_session_info option \<Rightarrow> ('h, 'a) auth_task) \<Rightarrow>
     ('h, 'a) auth_task" where
  "airdap_network_auth_session_bind E connection owner_token owner_token_size session_info k =
     (if connection = None \<or> \<not> session_info \<or> (owner_token = None) \<noteq> (owner_token_size = 0) \<or>
         owner_token \<noteq> None \<and> owner_token_size \<noteq> AIRDAP_NETWORK_AUTH_SESSION_TOKEN_SIZE
      then k (AUTH_INVALID_ARGUMENT, None)
      else if owner_token \<noteq> None \<and> length (the owner_token) < owner_token_size then Act (\<lambda>_. None)
      else with_connection (the connection) (\<lambda>conn.
        if \<not> co_tls_authenticated conn then k (AUTH_UNAUTHENTICATED, None)
        else if co_bound conn then k (AUTH_REPLAY, None)
        else atomic (bind_locked E (the connection) conn (map_option (take owner_token_size) owner_token))
          (\<lambda>(result, pending). invoke_revoke E pending (k result))))"

definition connection_valid :: "owner_session \<Rightarrow> airdap_network_auth_connection \<Rightarrow> u32 \<Rightarrow> bool" where
  "connection_valid owner conn session_id \<longleftrightarrow> ow_active owner \<and> session_id = co_session_id conn \<and>
     session_id = ow_session_id owner \<and>
     co_credential_generation conn = ow_credential_generation owner \<and>
     constant_time_equal (co_credential_fingerprint conn) (ow_credential_fingerprint owner)
       AIRDAP_NETWORK_AUTH_FINGERPRINT_SIZE"

definition validate_at ::
    "'h auth_env \<Rightarrow> nat \<Rightarrow> airdap_network_auth_connection \<Rightarrow> u32 \<Rightarrow> int \<Rightarrow>
     ('h network_auth, airdap_network_auth_result \<times> pending_revoke) state" where
  "validate_at E c conn session_id now_us = do {
     pending \<leftarrow> expire_owner now_us;
     owner \<leftarrow> reads na_owner;
     whenever (connection_valid owner conn session_id) (do {
       updates (\<lambda>s. s\<lparr>na_owner := owner\<lparr>ow_last_activity_us := now_us\<rparr>\<rparr>);
       note_auth (Validated c session_id now_us) });
     unlock_auth E;
     State_Monad.return
       (if connection_valid owner conn session_id then AUTH_OK else AUTH_EXPIRED, pending) }"

definition validate_locked ::
    "'h auth_env \<Rightarrow> nat \<Rightarrow> airdap_network_auth_connection \<Rightarrow> u32 \<Rightarrow>
     ('h network_auth, airdap_network_auth_result \<times> pending_revoke) state" where
  "validate_locked E c conn session_id = do {
     taken \<leftarrow> lock_auth E;
     if \<not> taken then State_Monad.return (AUTH_INVALID_STATE, no_revoke)
     else do {
       now_us \<leftarrow> acall (ae_get_time E);
       validate_at E c conn session_id now_us } }"

definition airdap_network_auth_session_validate ::
    "'h auth_env \<Rightarrow> nat option \<Rightarrow> u32 \<Rightarrow> (airdap_network_auth_result \<Rightarrow> ('h, 'a) auth_task) \<Rightarrow>
     ('h, 'a) auth_task" where
  "airdap_network_auth_session_validate E connection session_id k =
     (if connection = None \<or> session_id = 0 then k AUTH_INVALID_ARGUMENT
      else with_connection (the connection) (\<lambda>conn.
        if \<not> co_tls_authenticated conn \<or> \<not> co_bound conn then k AUTH_UNAUTHENTICATED
        else atomic (validate_locked E (the connection) conn session_id)
          (\<lambda>(result, pending). invoke_revoke E pending (k result))))"

definition close_locked ::
    "'h auth_env \<Rightarrow> airdap_network_auth_connection \<Rightarrow> ('h network_auth, pending_revoke) state" where
  "close_locked E conn = do {
     initialized \<leftarrow> reads na_initialized;
     if \<not> (initialized \<and> co_bound conn) then State_Monad.return no_revoke
     else do {
       taken \<leftarrow> lock_auth E;
       if \<not> taken then State_Monad.return no_revoke
       else do {
         updates (\<lambda>s. if na_bound_connections s > 0
           then s\<lparr>na_bound_connections := na_bound_connections s - 1\<rparr> else s);
         owner \<leftarrow> reads na_owner;
         pending \<leftarrow> (if ow_active owner \<and> ow_session_id owner = co_session_id conn
                    then invalidate_owner_locked else State_Monad.return no_revoke);
         unlock_auth E;
         State_Monad.return pending } } }"

definition destroy_connection ::
    "'h auth_env \<Rightarrow> nat \<Rightarrow> airdap_network_auth_connection \<Rightarrow> ('h network_auth, unit) state" where
  "destroy_connection E c conn = do {
     delete_tls E conn;
     updates (\<lambda>s. s\<lparr>na_connections := (na_connections s)(c := None)\<rparr>) }"

definition airdap_network_auth_connection_close ::
    "'h auth_env \<Rightarrow> nat option \<Rightarrow> ('h, 'a) auth_task \<Rightarrow> ('h, 'a) auth_task" where
  "airdap_network_auth_connection_close E connection k =
     (case connection of
        None \<Rightarrow> k
      | Some c \<Rightarrow> with_connection c (\<lambda>conn.
          atomic (close_locked E conn) (\<lambda>pending.
            atomic (destroy_connection E c conn) (\<lambda>_. invoke_revoke E pending k))))"

definition clear_locked :: "'h auth_env \<Rightarrow> ('h network_auth, esp_err \<times> pending_revoke) state" where
  "clear_locked E = do {
     taken \<leftarrow> lock_auth E;
     if \<not> taken then State_Monad.return (ESP_FAIL, no_revoke)
     else do {
       set_window False;
       error \<leftarrow> config_call (airdap_config_store_clear (ae_nvs E) AIRDAP_CONFIG_CLEAR_NETWORK);
       if error \<noteq> ESP_OK then do { unlock_auth E; State_Monad.return (error, no_revoke) }
       else do {
         pending \<leftarrow> invalidate_owner_locked;
         updates (\<lambda>s. s\<lparr>na_credential := no_credential\<rparr>);
         note_auth Erased;
         unlock_auth E;
         State_Monad.return (ESP_OK, pending) } } }"

definition airdap_network_auth_clear_network_configuration ::
    "'h auth_env \<Rightarrow> (esp_err \<Rightarrow> ('h, 'a) auth_task) \<Rightarrow> ('h, 'a) auth_task" where
  "airdap_network_auth_clear_network_configuration E k =
     atomic (reads na_initialized) (\<lambda>initialized.
       if \<not> initialized then k ESP_ERR_INVALID_STATE
       else atomic (clear_locked E) (\<lambda>(error, pending). invoke_revoke E pending (k error)))"

section \<open>The system\<close>

text \<open>Any task may call any function of the component, with any arguments.\<close>

definition auth_starts ::
    "nat \<Rightarrow> 'h auth_env \<Rightarrow> nat \<Rightarrow> 'h network_auth \<Rightarrow> ('h, unit) auth_task set" where
  "auth_starts fuel E i s =
     {t. t = expiry_timer_callback E (Done ()) \<or>
       (\<exists>p. t = airdap_network_auth_get_status E p (\<lambda>_. Done ())) \<or>
       (\<exists>handler. t = airdap_network_auth_set_revoke_handler E handler (\<lambda>_. Done ())) \<or>
       (\<exists>active. t = airdap_network_auth_set_pairing_window_active E active (\<lambda>_. Done ())) \<or>
       (\<exists>request p. t = airdap_network_auth_pair E request p (\<lambda>_. Done ())) \<or>
       (\<exists>request p. t = airdap_network_auth_pair_usb E request p (\<lambda>_. Done ())) \<or>
       (\<exists>fd p. t = airdap_network_auth_tls_accept fuel E fd p (\<lambda>_. Done ())) \<or>
       (\<exists>c n. t = airdap_network_auth_tls_read E c n (\<lambda>_. Done ())) \<or>
       (\<exists>c b. t = airdap_network_auth_tls_write E c b (\<lambda>_. Done ())) \<or>
       (\<exists>c token n p. t = airdap_network_auth_session_bind E c token n p (\<lambda>_. Done ())) \<or>
       (\<exists>c sid. t = airdap_network_auth_session_validate E c sid (\<lambda>_. Done ())) \<or>
       (\<exists>c. t = airdap_network_auth_connection_close E c (Done ())) \<or>
       t = airdap_network_auth_clear_network_configuration E (\<lambda>_. Done ())}"

text \<open>The rest of the firmware and the platform change the stored configuration and the platform.\<close>

definition auth_world :: "'h network_auth \<Rightarrow> 'h network_auth \<Rightarrow> bool" where
  "auth_world s s' \<longleftrightarrow> (\<exists>config. s' = s\<lparr>na_config := config\<rparr>)"

text \<open>The state before \<^verbatim>\<open>airdap_network_auth_init\<close>, on a configuration store.\<close>

definition auth_boot :: "'h config_store \<Rightarrow> 'h network_auth" where
  "auth_boot config = \<lparr>na_mutex = False, na_initialized = False,
     na_identity = replicate PSK_IDENTITY_SIZE 0, na_credential = no_credential,
     na_owner = no_owner, na_pairing_window_active = False, na_pending_handshakes = 0,
     na_bound_connections = 0, na_next_session_id = 1, na_revoke_handler = None,
     na_connections = (\<lambda>_. None), na_allocated = 0, na_config = config, na_trace = []\<rparr>"

end
