(* ===== verification/Network_Sessions.thy ===== *)
theory Network_Sessions
  imports Network_Auth
begin

text \<open>
  What network authentication promises, on the history of any interleaving of its functions: a
  connection is accepted only while it belongs to the live owner session, holds its token and has
  proved the key that is paired now; keys are paired only over USB or in an open pairing window; a
  key that was paired is the one a restart loads.
\<close>

section \<open>What a history says\<close>

text \<open>The live owner session: its id, its token and the time of its last activity.\<close>

fun live_owner :: "auth_event list \<Rightarrow> (u32 \<times> bytes \<times> int) option" where
  "live_owner [] = None"
| "live_owner (Opened_session c sid token now # es) = Some (sid, token, now)"
| "live_owner (Joined_session c sid token now # es) =
     map_option (\<lambda>(sid, token, _). (sid, token, now)) (live_owner es)"
| "live_owner (Validated c sid now # es) =
     map_option (\<lambda>(sid, token, _). (sid, token, now)) (live_owner es)"
| "live_owner (Ended_session sid # es) = None"
| "live_owner (_ # es) = live_owner es"

text \<open>The key that is paired.\<close>

fun paired_psk :: "auth_event list \<Rightarrow> bytes option" where
  "paired_psk [] = None"
| "paired_psk (Loaded psk # es) = Some psk"
| "paired_psk (Published usb psk # es) = Some psk"
| "paired_psk (Erased # es) = None"
| "paired_psk (_ # es) = paired_psk es"

fun window_open :: "auth_event list \<Rightarrow> bool" where
  "window_open [] = False"
| "window_open (Pairing_window active # es) = active"
| "window_open (_ # es) = window_open es"

text \<open>How many owner sessions were opened.\<close>

fun openings :: "auth_event list \<Rightarrow> nat" where
  "openings [] = 0"
| "openings (Opened_session c sid token now # es) = Suc (openings es)"
| "openings (_ # es) = openings es"

text \<open>The connection opened the session or presented its token.\<close>

definition holds_token :: "nat \<Rightarrow> u32 \<Rightarrow> bytes \<Rightarrow> auth_event list \<Rightarrow> bool" where
  "holds_token c sid token es \<longleftrightarrow>
     (\<exists>now. Opened_session c sid token now \<in> set es \<or> Joined_session c sid token now \<in> set es)"

text \<open>
  What is claimed of an event with the history before it. \<open>F\<close> is the hash function and \<open>identity\<close>
  the identity of the probe, which is part of what is hashed.
\<close>

fun event_sound :: "(bytes \<Rightarrow> bytes) \<Rightarrow> bytes \<Rightarrow> auth_event \<Rightarrow> auth_event list \<Rightarrow> bool" where
  "event_sound F identity (Validated c sid now) es \<longleftrightarrow>
     (\<exists>token last. live_owner es = Some (sid, token, last) \<and>
        (now < last \<or> now - last < AIRDAP_NETWORK_AUTH_SESSION_IDLE_TIMEOUT_US) \<and>
        (openings es < 2 ^ 32 - 1 \<longrightarrow> holds_token c sid token es)) \<and>
     (\<exists>psk key. Authenticated c psk \<in> set es \<and> paired_psk es = Some key \<and>
        F (fingerprint_material identity psk) = F (fingerprint_material identity key))"
| "event_sound F identity (Joined_session c sid token now) es \<longleftrightarrow>
     (\<exists>last. live_owner es = Some (sid, token, last) \<and>
        (now < last \<or> now - last < AIRDAP_NETWORK_AUTH_SESSION_IDLE_TIMEOUT_US))"
| "event_sound F identity (Opened_session c sid token now) es \<longleftrightarrow> live_owner es = None"
| "event_sound F identity (Published usb psk) es \<longleftrightarrow> usb \<or> window_open es"
| "event_sound F identity (Ended_session sid) es \<longleftrightarrow> (\<exists>token last. live_owner es = Some (sid, token, last))"
| "event_sound F identity _ es \<longleftrightarrow> True"

section \<open>Comparison of byte strings\<close>

lemma xor_eq_0_iff: "x XOR y = 0 \<longleftrightarrow> x = (y :: u8)"
  by (metis xor.assoc xor_self_eq xor.right_neutral xor.left_neutral)

lemma or_eq_0_iff: "a OR b = 0 \<longleftrightarrow> a = 0 \<and> (b :: u8) = 0"
  by (auto simp: bit_eq_iff bit_simps)

lemma difference_zero: "length xs = length ys \<Longrightarrow> difference xs ys d = 0 \<longleftrightarrow> d = 0 \<and> xs = ys"
  by (induction xs ys arbitrary: d rule: list_induct2) (auto simp: or_eq_0_iff xor_eq_0_iff)

lemma constant_time_equal_iff:
  "length x = n \<Longrightarrow> length y = n \<Longrightarrow> constant_time_equal x y n \<longleftrightarrow> x = y"
  by (simp add: constant_time_equal_def difference_zero)


section \<open>The invariant\<close>

text \<open>What is known of a connection: its key's fingerprint, its handshake and its session.\<close>

definition connection_ok ::
    "(bytes \<Rightarrow> bytes) \<Rightarrow> nat \<Rightarrow> airdap_network_auth_connection \<Rightarrow> 'h network_auth \<Rightarrow> bool" where
  "connection_ok F c conn s \<longleftrightarrow>
     co_credential_fingerprint conn = F (fingerprint_material (na_identity s) (co_psk conn)) \<and>
     length (co_credential_fingerprint conn) = AIRDAP_NETWORK_AUTH_FINGERPRINT_SIZE \<and>
     (co_tls_authenticated conn \<longrightarrow> Authenticated c (co_psk conn) \<in> set (na_trace s)) \<and>
     (co_bound conn \<longrightarrow> (\<exists>token. holds_token c (co_session_id conn) token (na_trace s)))"

definition credential_ok :: "(bytes \<Rightarrow> bytes) \<Rightarrow> 'h network_auth \<Rightarrow> bool" where
  "credential_ok F s \<longleftrightarrow> (ac_valid (na_credential s) \<longrightarrow>
     ac_fingerprint (na_credential s) =
       F (fingerprint_material (na_identity s) (ac_psk (na_credential s))) \<and>
     length (ac_fingerprint (na_credential s)) = AIRDAP_NETWORK_AUTH_FINGERPRINT_SIZE)"

definition owner_ok :: "'h network_auth \<Rightarrow> bool" where
  "owner_ok s \<longleftrightarrow> (ow_active (na_owner s) \<longrightarrow>
     ac_valid (na_credential s) \<and>
     ow_credential_generation (na_owner s) = ac_generation (na_credential s) \<and>
     ow_credential_fingerprint (na_owner s) = ac_fingerprint (na_credential s) \<and>
     length (ow_token (na_owner s)) = AIRDAP_NETWORK_AUTH_SESSION_TOKEN_SIZE)"

text \<open>Session ids: while fewer than \<open>2 ^ 32 - 1\<close> were opened, an id has one token.\<close>

definition ids_ok :: "u32 \<Rightarrow> auth_event list \<Rightarrow> bool" where
  "ids_ok next_id es \<longleftrightarrow> (openings es < 2 ^ 32 - 1 \<longrightarrow>
     next_id = of_nat (Suc (openings es)) \<and>
     (\<forall>c sid token. holds_token c sid token es \<longrightarrow> unat sid \<le> openings es) \<and>
     (\<forall>c c' sid token token'. holds_token c sid token es \<longrightarrow> holds_token c' sid token' es \<longrightarrow>
        token = token') \<and>
     (\<forall>sid token last. live_owner es = Some (sid, token, last) \<longrightarrow> (\<exists>c. holds_token c sid token es)))"

definition trace_ok :: "(bytes \<Rightarrow> bytes) \<Rightarrow> 'h network_auth \<Rightarrow> bool" where
  "trace_ok F s \<longleftrightarrow>
     live_owner (na_trace s) =
       (if ow_active (na_owner s)
        then Some (ow_session_id (na_owner s), ow_token (na_owner s), ow_last_activity_us (na_owner s))
        else None) \<and>
     paired_psk (na_trace s) =
       (if ac_valid (na_credential s) then Some (ac_psk (na_credential s)) else None) \<and>
     window_open (na_trace s) = na_pairing_window_active s \<and>
     history_sound (event_sound F (na_identity s)) (na_trace s)"

definition auth_inv :: "(bytes \<Rightarrow> bytes) \<Rightarrow> 'h network_auth \<Rightarrow> bool" where
  "auth_inv F s \<longleftrightarrow> credential_ok F s \<and> owner_ok s \<and> trace_ok F s \<and>
     ids_ok (na_next_session_id s) (na_trace s) \<and> na_pending_handshakes s \<le> 2 \<and>
     (\<forall>c conn. na_connections s c = Some conn \<longrightarrow> connection_ok F c conn s)"

text \<open>What a task may rely on: the identity stays and the history grows.\<close>

definition grows :: "'h network_auth \<Rightarrow> 'h network_auth \<Rightarrow> bool" where
  "grows s s' \<longleftrightarrow> na_identity s' = na_identity s \<and> (\<exists>es. na_trace s' = es @ na_trace s)"

lemma grows_refl [simp]: "grows s s"
  by (simp add: grows_def)

lemma grows_trans: "grows s t \<Longrightarrow> grows t u \<Longrightarrow> grows s u"
  by (auto simp: grows_def)

lemma grows_set: "grows s s' \<Longrightarrow> set (na_trace s) \<subseteq> set (na_trace s')"
  by (auto simp: grows_def)

lemma holds_token_mono: "holds_token c sid token es \<Longrightarrow> set es \<subseteq> set es' \<Longrightarrow> holds_token c sid token es'"
  by (auto simp: holds_token_def)

lemma connection_ok_grows: "connection_ok F c conn s \<Longrightarrow> grows s s' \<Longrightarrow> connection_ok F c conn s'"
  using grows_set [of s s']
  by (auto simp: connection_ok_def grows_def dest: holds_token_mono)

lemma world_grows: "auth_world s s' \<Longrightarrow> grows s s'"
  by (auto simp: auth_world_def grows_def)

lemma config_irrelevant [simp]:
  "auth_inv F (s\<lparr>na_config := config\<rparr>) = auth_inv F s"
  "connection_ok F c conn (s\<lparr>na_config := config\<rparr>) = connection_ok F c conn s"
  "grows s' (s\<lparr>na_config := config\<rparr>) = grows s' s"
  "grows (s\<lparr>na_config := config\<rparr>) s' = grows s s'"
  by (simp_all add: auth_inv_def credential_ok_def owner_ok_def trace_ok_def connection_ok_def grows_def)

lemma wp_acall [wp_simps]:
  "wp (acall f) Q s = (case f (cs_world (na_config s)) of (r, h) \<Rightarrow>
     Q r (s\<lparr>na_config := (na_config s)\<lparr>cs_world := h\<rparr>\<rparr>))"
  by (simp add: acall_def wp_def split: prod.splits)

lemma wp_config_call [wp_simps]:
  "wp (config_call m) Q s = (case run_state m (na_config s) of (r, c) \<Rightarrow> Q r (s\<lparr>na_config := c\<rparr>))"
  by (simp add: config_call_def wp_def split: prod.splits)

lemma wp_note_auth [wp_simps]: "wp (note_auth e) Q s = Q () (s\<lparr>na_trace := e # na_trace s\<rparr>)"
  by (simp add: note_auth_def wp_simps)

text \<open>A part of a function that keeps the invariant, whatever the state it starts in.\<close>

definition keeps_auth :: "(bytes \<Rightarrow> bytes) \<Rightarrow> ('h network_auth, 'a) state \<Rightarrow> bool" where
  "keeps_auth F m \<longleftrightarrow> (\<forall>s. auth_inv F s \<longrightarrow> wp m (\<lambda>_ s'. auth_inv F s' \<and> grows s s') s)"

named_theorems auth_rules "parts of the functions that keep the invariant"

lemma keeps_authD: "keeps_auth F m \<Longrightarrow> auth_inv F s \<Longrightarrow> wp m (\<lambda>_ s'. auth_inv F s' \<and> grows s s') s"
  by (simp add: keeps_auth_def)

lemma keeps_basic [auth_rules]:
  "keeps_auth F (State_Monad.return x)" "keeps_auth F (reads f)" "keeps_auth F (acall g)"
  "keeps_auth F (config_call m)"
  by (simp_all add: keeps_auth_def wp_simps split_beta)

lemma wp_keeps_bind:
  assumes "wp m (\<lambda>r t. auth_inv F t \<and> grows s t \<and> R r t) s"
    and "\<And>r t. auth_inv F t \<Longrightarrow> grows s t \<Longrightarrow> R r t \<Longrightarrow> wp (f r) (\<lambda>q u. auth_inv F u \<and> grows t u \<and> Q q u) t"
  shows "wp (State_Monad.bind m f) (\<lambda>q u. auth_inv F u \<and> grows s u \<and> Q q u) s"
  unfolding wp_bind
  by (rule wp_mono [OF assms(1)], rule wp_mono [OF assms(2)]) (auto intro: grows_trans)

lemma keeps_bind [auth_rules]:
  "keeps_auth F m \<Longrightarrow> (\<And>x. keeps_auth F (f x)) \<Longrightarrow> keeps_auth F (State_Monad.bind m f)"
  unfolding keeps_auth_def
  by (blast intro: wp_keeps_bind [where R = "\<lambda>_ _. True" and Q = "\<lambda>_ _. True", simplified])

lemma keeps_control [auth_rules]:
  "keeps_auth F m \<Longrightarrow> keeps_auth F n \<Longrightarrow> keeps_auth F (if b then m else n)"
  "keeps_auth F u \<Longrightarrow> keeps_auth F (whenever b u)"
  "keeps_auth F m \<Longrightarrow> keeps_auth F (ignoring m)"
  by (simp_all add: keeps_auth_def wp_simps)

lemma keeps_case [auth_rules]:
  "keeps_auth F n \<Longrightarrow> (\<And>x. keeps_auth F (g x)) \<Longrightarrow> keeps_auth F (case e of None \<Rightarrow> n | Some x \<Rightarrow> g x)"
  "(\<And>a b. keeps_auth F (f a b)) \<Longrightarrow> keeps_auth F (case p of (a, b) \<Rightarrow> f a b)"
  by (cases e; simp) (cases p; simp)

lemma keeps_locks [auth_rules]:
  "keeps_auth F (lock_auth E)" "keeps_auth F (try_lock_auth E)" "keeps_auth F (unlock_auth E)"
  "keeps_auth F (calculate_fingerprint E psk)" "keeps_auth F (delete_tls E conn)"
  unfolding lock_auth_def try_lock_auth_def unlock_auth_def calculate_fingerprint_def delete_tls_def Let_def
  by (intro auth_rules)+


section \<open>The critical sections\<close>

lemma auth_invI:
  assumes "auth_inv F s" "grows s s'" "credential_ok F s'" "owner_ok s'" "trace_ok F s'"
    and "ids_ok (na_next_session_id s') (na_trace s')" "na_pending_handshakes s' \<le> 2"
    and "\<And>c conn. na_connections s' c = Some conn \<Longrightarrow>
      na_connections s c = Some conn \<or> connection_ok F c conn s'"
  shows "auth_inv F s'"
  using assms connection_ok_grows unfolding auth_inv_def by blast

lemma auth_invD:
  assumes "auth_inv F s"
  shows "credential_ok F s" "owner_ok s" "trace_ok F s" "ids_ok (na_next_session_id s) (na_trace s)"
    "na_pending_handshakes s \<le> 2" "na_connections s c = Some conn \<Longrightarrow> connection_ok F c conn s"
  using assms by (simp_all add: auth_inv_def)

lemma holds_token_Cons:
  "holds_token c sid token (e # es) \<longleftrightarrow>
     (\<exists>now. e = Opened_session c sid token now \<or> e = Joined_session c sid token now) \<or>
     holds_token c sid token es"
  by (auto simp: holds_token_def)

text \<open>Events that open no session, join none and leave none alive that was not.\<close>

lemma ids_ok_Cons:
  assumes "ids_ok n es" "openings (e # es) = openings es"
    and "\<And>c sid token now. e \<noteq> Opened_session c sid token now \<and> e \<noteq> Joined_session c sid token now"
    and "\<And>sid token last. live_owner (e # es) = Some (sid, token, last) \<Longrightarrow>
      \<exists>last'. live_owner es = Some (sid, token, last')"
  shows "ids_ok n (e # es)"
  using assms unfolding ids_ok_def holds_token_Cons by (metis assms(2))

lemma keeps_invalidate [auth_rules]: "keeps_auth F invalidate_owner_locked"
  unfolding keeps_auth_def invalidate_owner_locked_def
proof (intro allI impI, simp add: wp_simps, intro impI conjI)
  fix s :: "'a network_auth"
  let ?s = "s\<lparr>na_owner := no_owner, na_trace := Ended_session (ow_session_id (na_owner s)) # na_trace s\<rparr>"
  assume inv: "auth_inv F s" and active: "ow_active (na_owner s)"
  show g: "grows s ?s" by (simp add: grows_def)
  show "auth_inv F ?s"
  proof (rule auth_invI [OF inv g])
    show "ids_ok (na_next_session_id ?s) (na_trace ?s)"
      using auth_invD(4) [OF inv] by (simp, intro ids_ok_Cons) simp_all
  qed (use auth_invD [OF inv] active in
      \<open>auto simp: credential_ok_def owner_ok_def trace_ok_def no_owner_def\<close>)
qed

lemma wp_invalidate:
  "auth_inv F s \<Longrightarrow>
   wp invalidate_owner_locked (\<lambda>_ t. auth_inv F t \<and> grows s t \<and> \<not> ow_active (na_owner t) \<and>
     na_credential t = na_credential s \<and> na_pairing_window_active t = na_pairing_window_active s) s"
proof -
  assume "auth_inv F s"
  moreover have "wp invalidate_owner_locked (\<lambda>_ t. \<not> ow_active (na_owner t) \<and>
     na_credential t = na_credential s \<and> na_pairing_window_active t = na_pairing_window_active s) s"
    by (simp add: invalidate_owner_locked_def wp_simps no_owner_def)
  ultimately show ?thesis
    using keeps_authD [OF keeps_invalidate] by (simp add: wp_conj)
qed

lemma keeps_note [auth_rules]:
  assumes "e = Revoked handler sid \<or> e = Authenticated c psk"
  shows "keeps_auth F (note_auth e)"
  unfolding keeps_auth_def
proof (intro allI impI, simp add: wp_simps, intro conjI)
  fix s :: "'a network_auth" assume inv: "auth_inv F s"
  let ?s = "s\<lparr>na_trace := e # na_trace s\<rparr>"
  show g: "grows s ?s" by (simp add: grows_def)
  show "auth_inv F ?s"
  proof (rule auth_invI [OF inv g])
    show "ids_ok (na_next_session_id ?s) (na_trace ?s)"
      using auth_invD(4) [OF inv] assms by (simp, intro ids_ok_Cons) auto
  qed (use auth_invD [OF inv] assms in \<open>auto simp: credential_ok_def owner_ok_def trace_ok_def\<close>)
qed

lemma keeps_call_handler [auth_rules]: "keeps_auth F (call_handler E handler sid)"
  unfolding call_handler_def by (intro auth_rules) simp

lemma keeps_expire [auth_rules]: "keeps_auth F (expire_owner now)" "keeps_auth F (expire_locked E)"
  unfolding expire_locked_def expire_owner_def by (intro auth_rules)+


text \<open>The simple sections: the handshake slots, the pairing window, the revoke handler.\<close>

lemma auth_inv_counters [simp]:
  "auth_inv F (s\<lparr>na_bound_connections := m\<rparr>) = auth_inv F s"
  "auth_inv F (s\<lparr>na_revoke_handler := r\<rparr>) = auth_inv F s"
  "auth_inv F (s\<lparr>na_allocated := a\<rparr>) = auth_inv F s"
  by (simp_all add: auth_inv_def credential_ok_def owner_ok_def trace_ok_def connection_ok_def)

lemma auth_inv_slots:
  assumes inv: "auth_inv F s" and "n \<le> 2" shows "auth_inv F (s\<lparr>na_pending_handshakes := n\<rparr>)"
  by (rule auth_invI [OF inv]; insert auth_invD [OF inv] assms(2))
    (auto simp: grows_def credential_ok_def owner_ok_def trace_ok_def)

lemma word_dec_le_2: "(n :: u32) \<le> 2 \<Longrightarrow> 0 < n \<Longrightarrow> n - 1 \<le> 2"
  by unat_arith

lemma word_inc_le_2: "(n :: u32) < 2 \<Longrightarrow> n + 1 \<le> 2"
  by unat_arith

lemma keeps_slot [auth_rules]: "keeps_auth F give_handshake_slot" "keeps_auth F (release_handshake_slot E)"
proof -
  show slot: "keeps_auth F (give_handshake_slot :: ('x network_auth, unit) state)" for F
    by (auto simp: keeps_auth_def give_handshake_slot_def wp_simps grows_def
        intro: auth_inv_slots word_dec_le_2 auth_invD(5))
  show "keeps_auth F (release_handshake_slot E)"
    unfolding release_handshake_slot_def by (intro auth_rules slot)
qed

lemma keeps_bound_connections [auth_rules]:
  "keeps_auth F (updates (\<lambda>s. if na_bound_connections s > 0
     then s\<lparr>na_bound_connections := na_bound_connections s - 1\<rparr> else s))"
  by (simp add: keeps_auth_def wp_simps grows_def)

lemma keeps_set_handler [auth_rules]: "keeps_auth F (set_handler_locked E handler)"
  unfolding set_handler_locked_def
  by (intro auth_rules) (simp add: keeps_auth_def wp_simps grows_def)

lemma keeps_set_window [auth_rules]: "keeps_auth F (set_window active)"
  unfolding keeps_auth_def set_window_def
proof (intro allI impI, simp add: wp_simps, intro conjI)
  fix s :: "'a network_auth" assume inv: "auth_inv F s"
  let ?s = "s\<lparr>na_pairing_window_active := active, na_trace := Pairing_window active # na_trace s\<rparr>"
  show g: "grows s ?s" by (simp add: grows_def)
  show "auth_inv F ?s"
  proof (rule auth_invI [OF inv g])
    show "ids_ok (na_next_session_id ?s) (na_trace ?s)"
      using auth_invD(4) [OF inv] by (simp, intro ids_ok_Cons) simp_all
  qed (use auth_invD [OF inv] in \<open>auto simp: credential_ok_def owner_ok_def trace_ok_def\<close>)
qed


lemma keeps_status [auth_rules]:
  "keeps_auth F (set_window_locked E active)" "keeps_auth F (status_locked E)"
  unfolding set_window_locked_def status_locked_def by (intro auth_rules)+

text \<open>A new credential, and none.\<close>

lemma credential_replaced:
  assumes inv: "auth_inv F s" and idle: "\<not> ow_active (na_owner s)"
    and event: "e = Published usb (ac_psk credential) \<and> ac_valid credential \<and>
        (usb \<or> na_pairing_window_active s) \<or> e = Erased \<and> \<not> ac_valid credential"
    and fingerprint: "ac_valid credential \<Longrightarrow>
        ac_fingerprint credential = F (fingerprint_material (na_identity s) (ac_psk credential)) \<and>
        length (ac_fingerprint credential) = AIRDAP_NETWORK_AUTH_FINGERPRINT_SIZE"
  shows "auth_inv F (s\<lparr>na_credential := credential, na_trace := e # na_trace s\<rparr>)" (is "auth_inv F ?s")
proof (rule auth_invI [OF inv])
  show "grows s ?s" by (simp add: grows_def)
  show "ids_ok (na_next_session_id ?s) (na_trace ?s)"
    using auth_invD(4) [OF inv] event by (simp, intro ids_ok_Cons) auto
qed (use auth_invD [OF inv] assms in \<open>auto simp: credential_ok_def owner_ok_def trace_ok_def\<close>)

lemma wp_fingerprint:
  "F = ae_sha256 E \<Longrightarrow> wp (calculate_fingerprint E psk) (\<lambda>(error, fingerprint) t. (\<exists>config. t = s\<lparr>na_config := config\<rparr>) \<and>
     (error = ESP_OK \<longrightarrow> fingerprint = F (fingerprint_material (na_identity s) psk) \<and>
       length fingerprint = AIRDAP_NETWORK_AUTH_FINGERPRINT_SIZE)) s"
  by (auto simp: calculate_fingerprint_def Let_def wp_simps split: prod.split)

lemma wp_publish:
  assumes "auth_inv F s" "usb \<or> na_pairing_window_active s" "ac_valid credential"
    and "ac_fingerprint credential = F (fingerprint_material (na_identity s) (ac_psk credential))"
    and "length (ac_fingerprint credential) = AIRDAP_NETWORK_AUTH_FINGERPRINT_SIZE"
  shows "wp (publish_credential E usb credential) (\<lambda>_ t. auth_inv F t \<and> grows s t) s"
  unfolding publish_credential_def wp_bind [of invalidate_owner_locked]
proof (rule wp_mono [OF wp_invalidate [OF assms(1)]])
  fix r t assume t: "auth_inv F t \<and> grows s t \<and> \<not> ow_active (na_owner t) \<and>
     na_credential t = na_credential s \<and> na_pairing_window_active t = na_pairing_window_active s"
  let ?t = "t\<lparr>na_credential := credential, na_trace := Published usb (ac_psk credential) # na_trace t\<rparr>"
  have "auth_inv F ?t"
    by (rule credential_replaced) (use t assms in \<open>auto simp: grows_def\<close>)
  moreover have "grows s ?t" using t by (auto simp: grows_def)
  ultimately show "wp (do {
      updates (\<lambda>s. s\<lparr>na_credential := credential\<rparr>);
      note_auth (Published usb (ac_psk credential));
      unlock_auth E;
      State_Monad.return (AUTH_OK, Some (ac_fingerprint credential), r) })
    (\<lambda>_ t. auth_inv F t \<and> grows s t) t"
    by (simp add: wp_simps unlock_auth_def split_beta)
qed

lemma wp_config_mono:
  assumes "\<And>config. P (s\<lparr>na_config := config\<rparr>)"
  shows "wp (acall f) (\<lambda>_. P) s" "wp (config_call m) (\<lambda>_. P) s"
  using assms by (simp_all add: wp_simps split_beta)

lemma wp_store:
  assumes "auth_inv F s" "usb \<or> na_pairing_window_active s" "ac_valid credential"
    and "ac_fingerprint credential = F (fingerprint_material (na_identity s) (ac_psk credential))"
    and "length (ac_fingerprint credential) = AIRDAP_NETWORK_AUTH_FINGERPRINT_SIZE"
  shows "wp (store_credential E usb credential) (\<lambda>_ t. auth_inv F t \<and> grows s t) s"
proof -
  have "wp (publish_credential E usb credential) (\<lambda>_ t. auth_inv F t \<and> grows s t) (s\<lparr>na_config := c\<rparr>)" for c
    by (rule wp_mono [OF wp_publish]) (use assms in \<open>auto simp: grows_def\<close>)
  then show ?thesis
    using assms(1) by (simp add: store_credential_def wp_simps unlock_auth_def split_beta)
qed

lemma wp_new_credential:
  assumes "F = ae_sha256 E" "auth_inv F s" "usb \<or> na_pairing_window_active s"
  shows "wp (new_credential E psk usb active) (\<lambda>_ t. auth_inv F t \<and> grows s t) s"
  unfolding new_credential_def wp_bind
proof (rule wp_mono [OF wp_fingerprint [OF assms(1)]])
  fix r u assume "(case r of (error, fingerprint) \<Rightarrow> \<lambda>u. (\<exists>config. u = s\<lparr>na_config := config\<rparr>) \<and>
      (error = ESP_OK \<longrightarrow> fingerprint = F (fingerprint_material (na_identity s) psk) \<and>
        length fingerprint = AIRDAP_NETWORK_AUTH_FINGERPRINT_SIZE)) u"
  then obtain error fingerprint config where r: "r = (error, fingerprint)" "u = s\<lparr>na_config := config\<rparr>"
    and ok: "error = ESP_OK \<Longrightarrow> fingerprint = F (fingerprint_material (na_identity s) psk) \<and>
        length fingerprint = AIRDAP_NETWORK_AUTH_FINGERPRINT_SIZE"
    by (cases r) auto
  have "wp (store_credential E usb \<lparr>ac_valid = True, ac_generation = next_generation active,
      ac_psk = psk, ac_fingerprint = fingerprint\<rparr>) (\<lambda>_ t. auth_inv F t \<and> grows s t) u"
    if "error = ESP_OK"
    by (rule wp_mono [OF wp_store]) (use assms r ok [OF that] in auto)
  then show "wp (case r of (error, fingerprint) \<Rightarrow>
      if error \<noteq> ESP_OK
      then do { unlock_auth E; State_Monad.return (AUTH_INVALID_STATE, None, no_revoke) }
      else store_credential E usb \<lparr>ac_valid = True, ac_generation = next_generation active,
        ac_psk = psk, ac_fingerprint = fingerprint\<rparr>) (\<lambda>_ t. auth_inv F t \<and> grows s t) u"
    using assms r by (simp add: wp_simps unlock_auth_def split_beta)
qed

lemma keeps_auth_pair [auth_rules]:
  assumes "F = ae_sha256 E" shows "keeps_auth F (pair_locked E psk usb)"
  unfolding keeps_auth_def
proof (intro allI impI)
  fix s :: "'a network_auth" assume inv: "auth_inv F s"
  have "wp (new_credential E psk usb active) (\<lambda>_ t. auth_inv F t \<and> grows s t) (s\<lparr>na_config := c\<rparr>)"
    if "usb \<or> na_pairing_window_active s" for active c
    using wp_new_credential [OF assms, of "s\<lparr>na_config := c\<rparr>"] that inv by simp
  then show "wp (pair_locked E psk usb) (\<lambda>_ t. auth_inv F t \<and> grows s t) s"
    using inv by (auto simp: pair_locked_def wp_simps lock_auth_def unlock_auth_def split_beta)
qed

lemma keeps_clear [auth_rules]: "keeps_auth F (clear_locked E)"
proof -
  have "keeps_auth F (do {
      pending \<leftarrow> invalidate_owner_locked;
      updates (\<lambda>s. s\<lparr>na_credential := no_credential\<rparr>);
      note_auth Erased;
      unlock_auth E;
      State_Monad.return (ESP_OK, pending) })"
    unfolding keeps_auth_def wp_bind [of invalidate_owner_locked]
  proof (intro allI impI, rule wp_mono [OF wp_invalidate], assumption)
    fix s r and t :: "'a network_auth"
    assume t: "auth_inv F t \<and> grows s t \<and> \<not> ow_active (na_owner t) \<and>
     na_credential t = na_credential s \<and> na_pairing_window_active t = na_pairing_window_active s"
    let ?t = "t\<lparr>na_credential := no_credential, na_trace := Erased # na_trace t\<rparr>"
    have "auth_inv F ?t"
      by (rule credential_replaced) (use t in \<open>auto simp: no_credential_def\<close>)
    moreover have "grows s ?t" using t by (auto simp: grows_def)
    ultimately show "wp (do {
        updates (\<lambda>s. s\<lparr>na_credential := no_credential\<rparr>);
        note_auth Erased;
        unlock_auth E;
        State_Monad.return (ESP_OK, r) }) (\<lambda>_ t. auth_inv F t \<and> grows s t) t"
      by (simp add: wp_simps unlock_auth_def split_beta)
  qed
  note [auth_rules] = this
  show ?thesis
    unfolding clear_locked_def by (intro auth_rules)
qed


text \<open>Accepting a connection.\<close>

lemma wp_reserve:
  assumes "auth_inv F s"
  shows "wp (reserve_handshake E) (\<lambda>r t. auth_inv F t \<and> grows s t \<and>
    (case r of Inl _ \<Rightarrow> True | Inr (c, conn, deadline) \<Rightarrow> connection_ok F c conn t \<and>
       co_psk_hint_key conn = ([], []) \<and> \<not> co_bound conn \<and> \<not> co_tls_authenticated conn)) s"
  using assms auth_invD(1) [OF assms]
  by (auto simp: reserve_handshake_def wp_simps lock_auth_def unlock_auth_def split_beta
      auth_inv_slots word_inc_le_2 not_le grows_def connection_ok_def credential_ok_def no_connection_def)

lemma keeps_handshake_loop [auth_rules]: "keeps_auth F (handshake_loop fuel E fd tls deadline)"
proof (induction fuel)
  case (Suc fuel)
  have poll: "keeps_auth F (case ready of
      POLL_TIMEOUT \<Rightarrow> State_Monad.return x
    | POLL_INTERRUPTED \<Rightarrow> handshake_loop fuel E fd tls deadline
    | POLL_FAILED \<Rightarrow> State_Monad.return x
    | POLL_EVENTS broken \<Rightarrow>
        if broken then State_Monad.return x else handshake_loop fuel E fd tls deadline)" for ready x
    using Suc by (cases ready) (simp_all add: keeps_basic)
  show ?case
    unfolding handshake_loop.simps by (intro auth_rules poll)
qed (simp add: auth_rules)

lemma keeps_handshake [auth_rules]: "keeps_auth F (complete_tls_handshake fuel E key fd tls deadline)"
  unfolding complete_tls_handshake_def by (intro auth_rules)

lemma keeps_finish [auth_rules]: "keeps_auth F (finish_handshake E conn)"
  unfolding finish_handshake_def by (intro auth_rules)

lemma wp_run_handshake:
  assumes "auth_inv F s"
  shows "wp (run_handshake fuel E c conn fd deadline) (\<lambda>r t. auth_inv F t \<and> grows s t \<and>
    (r = Some TLS_OK \<longrightarrow> Authenticated c (fst (co_psk_hint_key conn)) \<in> set (na_trace t))) s"
proof -
  have "wp (do {
      whenever (r = Some TLS_OK) (note_auth (Authenticated c (fst (co_psk_hint_key conn))));
      State_Monad.return r }) (\<lambda>q u. auth_inv F u \<and> grows t u \<and>
    (q = Some TLS_OK \<longrightarrow> Authenticated c (fst (co_psk_hint_key conn)) \<in> set (na_trace u))) t"
    if "auth_inv F t" for r t
    using keeps_authD [OF keeps_note that, of "Authenticated c (fst (co_psk_hint_key conn))"] that
    by (simp add: wp_simps)
  then show ?thesis
    unfolding run_handshake_def
    by (rule wp_keeps_bind [where R = "\<lambda>_ _. True", simplified, rotated])
      (assumption, rule keeps_authD [OF keeps_handshake assms])
qed

text \<open>The connection table.\<close>

lemma auth_inv_connections:
  assumes inv: "auth_inv F s"
    and "\<And>c conn. table c = Some conn \<Longrightarrow> na_connections s c = Some conn \<or> connection_ok F c conn s"
  shows "auth_inv F (s\<lparr>na_connections := table\<rparr>)"
  by (rule auth_invI [OF inv]; insert auth_invD [OF inv] assms(2))
    (auto simp: grows_def credential_ok_def owner_ok_def trace_ok_def connection_ok_def)

lemma auth_inv_connect:
  "auth_inv F s \<Longrightarrow> connection_ok F c conn s \<Longrightarrow>
   auth_inv F (s\<lparr>na_connections := (na_connections s)(c \<mapsto> conn)\<rparr>)"
  by (erule auth_inv_connections) (auto split: if_splits)

lemma auth_inv_disconnect:
  "auth_inv F s \<Longrightarrow> auth_inv F (s\<lparr>na_connections := (na_connections s)(c := None)\<rparr>)"
  by (erule auth_inv_connections) (auto split: if_splits)

lemma keeps_destroy [auth_rules]: "keeps_auth F (destroy_connection E c conn)"
  unfolding destroy_connection_def
  by (intro auth_rules) (simp add: keeps_auth_def wp_simps auth_inv_disconnect grows_def)

lemma keeps_close [auth_rules]: "keeps_auth F (close_locked E conn)"
  unfolding close_locked_def by (intro auth_rules)


text \<open>Binding and validation.\<close>

lemma wp_expire:
  assumes "auth_inv F s"
  shows "wp (expire_owner now) (\<lambda>_ t. auth_inv F t \<and> grows s t \<and>
    \<not> owner_expired_at now (na_owner t) \<and> na_credential t = na_credential s) s"
proof (cases "owner_expired_at now (na_owner s)")
  case True
  have "wp invalidate_owner_locked (\<lambda>_ t. auth_inv F t \<and> grows s t \<and>
    \<not> owner_expired_at now (na_owner t) \<and> na_credential t = na_credential s) s"
    by (rule wp_mono [OF wp_invalidate [OF assms]]) (simp add: owner_expired_at_def)
  then show ?thesis using True by (simp add: expire_owner_def wp_simps)
qed (simp add: expire_owner_def wp_simps assms)

lemma not_expired:
  "\<not> owner_expired_at now owner \<Longrightarrow> ow_active owner \<Longrightarrow>
   now < ow_last_activity_us owner \<or>
   now - ow_last_activity_us owner < AIRDAP_NETWORK_AUTH_SESSION_IDLE_TIMEOUT_US"
  by (auto simp: owner_expired_at_def)

text \<open>A live session has one token, that of all its holders.\<close>

lemma live_token:
  assumes "ids_ok n es" "openings es < 2 ^ 32 - 1" "live_owner es = Some (sid, token, seen)"
    and "holds_token c sid token' es"
  shows "token' = token"
  using assms unfolding ids_ok_def by blast

lemma auth_validate_inv:
  assumes inv: "auth_inv F s" and conn: "connection_ok F c conn s" "co_tls_authenticated conn" "co_bound conn"
    and valid: "connection_valid (na_owner s) conn sid" and fresh: "\<not> owner_expired_at now (na_owner s)"
  shows "auth_inv F (s\<lparr>na_owner := (na_owner s)\<lparr>ow_last_activity_us := now\<rparr>,
    na_trace := Validated c sid now # na_trace s\<rparr>)" (is "auth_inv F ?s")
proof (rule auth_invI [OF inv])
  note s = auth_invD [OF inv]
  have owner: "ow_active (na_owner s)" "sid = co_session_id conn" "sid = ow_session_id (na_owner s)"
    using valid by (auto simp: connection_valid_def)
  have live: "live_owner (na_trace s) =
      Some (sid, ow_token (na_owner s), ow_last_activity_us (na_owner s))"
    and cred: "paired_psk (na_trace s) = Some (ac_psk (na_credential s))"
    using s(2,3) owner by (auto simp: trace_ok_def owner_ok_def)
  have same: "co_credential_fingerprint conn = ac_fingerprint (na_credential s)"
    using valid conn(1) s(1,2) owner
    by (auto simp: connection_valid_def connection_ok_def owner_ok_def credential_ok_def constant_time_equal_iff)
  have "event_sound F (na_identity s) (Validated c sid now) (na_trace s)"
    using not_expired [OF fresh owner(1)] live cred same conn s(1) owner(2)
      auth_invD(2) [OF inv] live_token [OF s(4) _ live]
    by (auto simp: connection_ok_def credential_ok_def owner_ok_def owner(1))
  then show "trace_ok F ?s"
    using s(3) owner(1) by (auto simp: trace_ok_def)
  show "ids_ok (na_next_session_id ?s) (na_trace ?s)"
    using s(4) live by (simp, intro ids_ok_Cons) (simp_all)
qed (use auth_invD [OF inv] in \<open>auto simp: grows_def credential_ok_def owner_ok_def\<close>)


lemma wp_validate_at:
  assumes "auth_inv F s" "connection_ok F c conn s" "co_tls_authenticated conn" "co_bound conn"
  shows "wp (validate_at E c conn sid now) (\<lambda>_ t. auth_inv F t \<and> grows s t) s"
  unfolding validate_at_def wp_bind [of "expire_owner now"]
proof (rule wp_mono [OF wp_expire [OF assms(1)]])
  fix r u assume u: "auth_inv F u \<and> grows s u \<and> \<not> owner_expired_at now (na_owner u) \<and>
    na_credential u = na_credential s"
  then have "auth_inv F (u\<lparr>na_owner := (na_owner u)\<lparr>ow_last_activity_us := now\<rparr>,
      na_trace := Validated c sid now # na_trace u\<rparr>)" if "connection_valid (na_owner u) conn sid"
    using that assms connection_ok_grows [OF assms(2)] by (intro auth_validate_inv) auto
  then show "wp (do {
    owner \<leftarrow> reads na_owner;
    whenever (connection_valid owner conn sid) (do {
      updates (\<lambda>s. s\<lparr>na_owner := owner\<lparr>ow_last_activity_us := now\<rparr>\<rparr>);
      note_auth (Validated c sid now) });
    unlock_auth E;
    State_Monad.return (if connection_valid owner conn sid then AUTH_OK else AUTH_EXPIRED, r) })
    (\<lambda>_ t. auth_inv F t \<and> grows s t) u"
    using u by (auto simp: wp_simps unlock_auth_def split_beta grows_def)
qed

lemma wp_locked_at:
  assumes "auth_inv F s" "\<And>now config. wp (body now) (\<lambda>_ t. auth_inv F t \<and> grows s t) (s\<lparr>na_config := config\<rparr>)"
  shows "wp (do {
     taken \<leftarrow> lock_auth E;
     if \<not> taken then State_Monad.return x
     else do { now \<leftarrow> acall (ae_get_time E); body now } }) (\<lambda>_ t. auth_inv F t \<and> grows s t) s"
  using assms by (simp add: wp_simps lock_auth_def split_beta)

lemma wp_validate:
  assumes "auth_inv F s" "connection_ok F c conn s" "co_tls_authenticated conn" "co_bound conn"
  shows "wp (validate_locked E c conn sid) (\<lambda>_ t. auth_inv F t \<and> grows s t) s"
  unfolding validate_locked_def
  by (rule wp_locked_at [OF assms(1)]) (use wp_validate_at [of F "s\<lparr>na_config := _\<rparr>"] assms in simp)

lemma connection_bound:
  "connection_ok F c conn s \<Longrightarrow> grows s s' \<Longrightarrow> holds_token c sid token (na_trace s') \<Longrightarrow>
   connection_ok F c (conn\<lparr>co_bound := True, co_session_id := sid\<rparr>) s'"
  by (drule connection_ok_grows) (auto simp: connection_ok_def)

text \<open>The state after a binding: the owner, the connection and the event.\<close>

definition same_rest :: "'h network_auth \<Rightarrow> 'h network_auth \<Rightarrow> bool" where
  "same_rest s s' \<longleftrightarrow> na_credential s' = na_credential s \<and> na_identity s' = na_identity s \<and>
     na_pending_handshakes s' = na_pending_handshakes s \<and>
     na_pairing_window_active s' = na_pairing_window_active s"

lemma auth_join_inv:
  assumes inv: "auth_inv F s" and conn: "connection_ok F c conn s"
    and active: "ow_active (na_owner s)" and fresh: "\<not> owner_expired_at now (na_owner s)"
    and s': "same_rest s s'" "na_next_session_id s' = na_next_session_id s"
      "na_owner s' = (na_owner s)\<lparr>ow_last_activity_us := now\<rparr>"
      "na_connections s' = (na_connections s)(c \<mapsto> conn\<lparr>co_bound := True,
         co_session_id := ow_session_id (na_owner s)\<rparr>)"
      "na_trace s' = Joined_session c (ow_session_id (na_owner s)) (ow_token (na_owner s)) now # na_trace s"
  shows "auth_inv F s'"
proof (rule auth_invI [OF inv])
  note s = auth_invD [OF inv] and eqs = s' [unfolded same_rest_def]
  let ?sid = "ow_session_id (na_owner s)" and ?token = "ow_token (na_owner s)"
  have live: "live_owner (na_trace s) = Some (?sid, ?token, ow_last_activity_us (na_owner s))"
    using s(3) active by (simp add: trace_ok_def)
  show g: "grows s s'" using eqs by (simp add: grows_def)
  show "trace_ok F s'"
    using s(3) active not_expired [OF fresh active] eqs by (auto simp: trace_ok_def)
  show "ids_ok (na_next_session_id s') (na_trace s')"
    using s(4) live unfolding ids_ok_def eqs(2,5) by (simp add: holds_token_Cons) blast
  show "na_connections s d = Some k \<or> connection_ok F d k s'" if "na_connections s' d = Some k" for d k
    using that connection_bound [OF conn g, of ?sid ?token] eqs
    by (auto simp: holds_token_Cons split: if_splits)
qed (use auth_invD [OF inv] s' in \<open>auto simp: same_rest_def credential_ok_def owner_ok_def\<close>)

lemma fresh_auth_id:
  assumes "Suc n < 2 ^ 32 - 1"
  shows "unat (of_nat (Suc n) :: u32) = Suc n" "(of_nat (Suc n) :: u32) + 1 \<noteq> 0"
proof -
  have small: "unat (of_nat m :: u32) = m" if "m < 2 ^ 32" for m
    using that by (simp add: unsigned_of_nat take_bit_nat_eq_self)
  show "unat (of_nat (Suc n) :: u32) = Suc n"
    using assms by (intro small) simp
  have "unat ((of_nat (Suc n) :: u32) + 1) = Suc (Suc n)"
    using small [of "Suc (Suc n)"] assms by (simp add: add.commute)
  then show "(of_nat (Suc n) :: u32) + 1 \<noteq> 0"
    by (metis nat.distinct(1) unsigned_0)
qed

lemma auth_open_inv:
  assumes inv: "auth_inv F s" and conn: "connection_ok F c conn s"
    and idle: "\<not> ow_active (na_owner s)" and current: "connection_current (na_credential s) conn"
    and token: "length token = AIRDAP_NETWORK_AUTH_SESSION_TOKEN_SIZE"
    and sid: "sid = na_next_session_id s"
    and s': "same_rest s s'" "na_next_session_id s' = (if sid + 1 = 0 then 1 else sid + 1)"
      "na_owner s' = (na_owner s)\<lparr>ow_active := True, ow_session_id := sid,
         ow_credential_generation := co_credential_generation conn, ow_token := token,
         ow_credential_fingerprint := co_credential_fingerprint conn, ow_last_activity_us := now\<rparr>"
      "na_connections s' = (na_connections s)(c \<mapsto> conn\<lparr>co_bound := True, co_session_id := sid\<rparr>)"
      "na_trace s' = Opened_session c sid token now # na_trace s"
  shows "auth_inv F s'"
proof (rule auth_invI [OF inv])
  note s = auth_invD [OF inv] and eqs = s' [unfolded same_rest_def]
  have dead: "live_owner (na_trace s) = None"
    using s(3) idle by (simp add: trace_ok_def)
  then show "trace_ok F s'"
    using s(3) eqs by (auto simp: trace_ok_def)
  show g: "grows s s'" using eqs by (simp add: grows_def)
  show "owner_ok s'"
    using current token conn s(1) eqs
    by (auto simp: owner_ok_def connection_current_def connection_ok_def credential_ok_def constant_time_equal_iff)
  show "na_connections s d = Some k \<or> connection_ok F d k s'" if "na_connections s' d = Some k" for d k
    using that connection_bound [OF conn g, of sid token] eqs
    by (auto simp: holds_token_Cons split: if_splits)
  show "ids_ok (na_next_session_id s') (na_trace s')"
    unfolding ids_ok_def
  proof (intro impI)
    assume "openings (na_trace s') < 2 ^ 32 - 1"
    then have small: "Suc (openings (na_trace s)) < 2 ^ 32 - 1" by (simp add: eqs(5))
    with s(4) have old: "sid = of_nat (Suc (openings (na_trace s)))"
      "holds_token d i k (na_trace s) \<Longrightarrow> unat i \<le> openings (na_trace s)"
      "holds_token d i k (na_trace s) \<Longrightarrow> holds_token d' i k' (na_trace s) \<Longrightarrow> k = k'" for d i k d' k'
      by (auto simp: ids_ok_def sid)
    note id = fresh_auth_id [OF small, folded old(1)]
    have fresh: "\<not> holds_token d sid k (na_trace s)" for d k
      using old(2) [of d sid k] id(1) by auto
    show "na_next_session_id s' = of_nat (Suc (openings (na_trace s'))) \<and>
     (\<forall>c sid token. holds_token c sid token (na_trace s') \<longrightarrow> unat sid \<le> openings (na_trace s')) \<and>
     (\<forall>c c' sid token token'. holds_token c sid token (na_trace s') \<longrightarrow>
        holds_token c' sid token' (na_trace s') \<longrightarrow> token = token') \<and>
     (\<forall>sid token last. live_owner (na_trace s') = Some (sid, token, last) \<longrightarrow>
        (\<exists>c. holds_token c sid token (na_trace s')))"
    proof (intro conjI allI impI)
      show "na_next_session_id s' = of_nat (Suc (openings (na_trace s')))"
        using id(2) by (simp add: old(1) eqs(2,5) add.commute)
      show "unat i \<le> openings (na_trace s')" if "holds_token d i k (na_trace s')" for d i k
        using that id(1) old(2) [of d i k] by (auto simp: holds_token_Cons eqs(5))
      show "k = k'" if "holds_token d i k (na_trace s')" "holds_token d' i k' (na_trace s')" for d d' i k k'
        using that fresh old(3) by (auto simp: holds_token_Cons eqs(5))
    qed (auto simp: holds_token_Cons eqs(5))
  qed
qed (use auth_invD [OF inv] s' in \<open>auto simp: same_rest_def credential_ok_def\<close>)

lemma wp_bind_current:
  assumes inv: "auth_inv F s" and conn: "connection_ok F c conn s"
    and current: "connection_current (na_credential s) conn"
    and fresh: "\<not> owner_expired_at now (na_owner s)"
    and presented: "\<And>token. owner_token = Some token \<Longrightarrow> length token = AIRDAP_NETWORK_AUTH_SESSION_TOKEN_SIZE"
  shows "wp (bind_current E c conn owner_token now) (\<lambda>_ t. auth_inv F t \<and> grows s t) s"
proof (cases "ow_active (na_owner s)")
  case True
  have "length (ow_token (na_owner s)) = AIRDAP_NETWORK_AUTH_SESSION_TOKEN_SIZE"
    using auth_invD(2) [OF inv] True by (simp add: owner_ok_def)
  then have "constant_time_equal (ow_token (na_owner s)) token AIRDAP_NETWORK_AUTH_SESSION_TOKEN_SIZE \<longleftrightarrow>
      token = ow_token (na_owner s)" if "owner_token = Some token" for token
    using presented [OF that] by (auto simp: constant_time_equal_iff)
  then show ?thesis
    using True inv
    by (simp add: bind_current_def bind_joining_def record_binding_def copy_session_info_def wp_simps
        grows_def auth_join_inv [OF inv conn True fresh] same_rest_def split: option.split)
next
  case False
  let ?token = "map (fst (ae_fill_random E (cs_world (na_config s)))) [0..<32]"
  have "auth_inv F s'" if "same_rest s s'"
      "na_next_session_id s' = (if na_next_session_id s + 1 = 0 then 1 else na_next_session_id s + 1)"
      "na_owner s' = (na_owner s)\<lparr>ow_active := True, ow_session_id := na_next_session_id s,
         ow_credential_generation := co_credential_generation conn, ow_token := ?token,
         ow_credential_fingerprint := co_credential_fingerprint conn, ow_last_activity_us := now\<rparr>"
      "na_connections s' = (na_connections s)(c \<mapsto> conn\<lparr>co_bound := True,
         co_session_id := na_next_session_id s\<rparr>)"
      "na_trace s' = Opened_session c (na_next_session_id s) ?token now # na_trace s" for s'
    by (rule auth_open_inv [OF inv conn False current _ HOL.refl that]) simp
  then show ?thesis
    using False inv
    by (simp add: bind_current_def bind_new_def open_owner_def allocate_session_id_def record_binding_def
        copy_session_info_def wp_simps split_beta grows_def same_rest_def)
qed

lemma wp_bind_at:
  assumes inv: "auth_inv F s" and conn: "connection_ok F c conn s"
    and presented: "\<And>token. owner_token = Some token \<Longrightarrow> length token = AIRDAP_NETWORK_AUTH_SESSION_TOKEN_SIZE"
  shows "wp (bind_at E c conn owner_token now) (\<lambda>_ t. auth_inv F t \<and> grows s t) s"
  unfolding bind_at_def wp_bind [of "expire_owner now"]
proof (rule wp_mono [OF wp_expire [OF inv]])
  fix r u assume u: "auth_inv F u \<and> grows s u \<and> \<not> owner_expired_at now (na_owner u) \<and>
    na_credential u = na_credential s"
  then have "wp (bind_current E c conn owner_token now) (\<lambda>_ t. auth_inv F t \<and> grows u t) u"
    if "connection_current (na_credential u) conn"
    using that presented connection_ok_grows [OF conn] by (intro wp_bind_current) auto
  then have "wp (bind_current E c conn owner_token now) (\<lambda>_ t. auth_inv F t \<and> grows s t) u"
    if "connection_current (na_credential u) conn"
    using that u by (auto elim!: wp_mono intro: grows_trans)
  then show "wp (do {
     credential \<leftarrow> reads na_credential;
     if \<not> connection_current credential conn
     then do { unlock_auth E; State_Monad.return ((AUTH_EXPIRED, None), r) }
     else do {
       result \<leftarrow> bind_current E c conn owner_token now;
       unlock_auth E;
       State_Monad.return (result, r) } }) (\<lambda>_ t. auth_inv F t \<and> grows s t) u"
    using u by (auto simp: wp_simps unlock_auth_def split_beta wp_bind fun_eq_iff elim!: wp_mono)
qed

lemma wp_bind_locked:
  assumes "auth_inv F s" "connection_ok F c conn s"
    and "\<And>token. owner_token = Some token \<Longrightarrow> length token = AIRDAP_NETWORK_AUTH_SESSION_TOKEN_SIZE"
  shows "wp (bind_locked E c conn owner_token) (\<lambda>_ t. auth_inv F t \<and> grows s t) s"
  unfolding bind_locked_def
  by (rule wp_locked_at [OF assms(1)]) (use wp_bind_at [of F "s\<lparr>na_config := _\<rparr>"] assms in simp)


section \<open>The functions\<close>

text \<open>What a task knows between its actions stays true while the history grows.\<close>

definition persistent :: "('h network_auth \<Rightarrow> bool) \<Rightarrow> bool" where
  "persistent P \<longleftrightarrow> (\<forall>s s'. P s \<longrightarrow> grows s s' \<longrightarrow> P s')"

definition auth_safe :: "(bytes \<Rightarrow> bytes) \<Rightarrow> ('h network_auth \<Rightarrow> bool) \<Rightarrow> ('h, 'a) auth_task \<Rightarrow> bool" where
  "auth_safe F P t \<longleftrightarrow> (\<forall>i. safe (auth_inv F) (\<lambda>_. grows) auth_world (\<lambda>_ _. True) i P t)"

named_theorems safe_rules "functions that keep the invariant at each action"

lemma persistent_rules [safe_rules]:
  "persistent (\<lambda>_. True)" "persistent (connection_ok F c conn)"
  "persistent (\<lambda>s. Authenticated c psk \<in> set (na_trace s))"
  "persistent P \<Longrightarrow> persistent Q \<Longrightarrow> persistent (\<lambda>s. P s \<and> Q s)"
  using grows_set by (fastforce simp: persistent_def intro: connection_ok_grows)+

lemma persistent_stable: "persistent P \<Longrightarrow> stable (auth_inv F) (\<lambda>_. grows) auth_world i P"
  by (auto simp: stable_def persistent_def dest: world_grows)

lemma auth_done [safe_rules]: "auth_safe F (\<lambda>_. True) (Done x)"
  by (simp add: auth_safe_def safe.finished persistent_stable safe_rules)

lemma auth_stuck [safe_rules]: "persistent P \<Longrightarrow> auth_safe F P (Act (\<lambda>_. None))"
  by (auto simp: auth_safe_def intro!: safe.action persistent_stable)

lemma auth_step:
  assumes "persistent P" "\<And>s. auth_inv F s \<Longrightarrow> P s \<Longrightarrow> wp m (\<lambda>b s'. auth_inv F s' \<and> grows s s' \<and> Q b s') s"
    and "\<And>b. auth_safe F (Q b) (k b)"
  shows "auth_safe F P (atomic m k)"
  using assms(3) unfolding auth_safe_def
  by (auto intro!: safe_atomic [OF persistent_stable [OF assms(1)]] assms(2))

lemma auth_keep:
  assumes "keeps_auth F m" "persistent P" "\<And>b. auth_safe F P (k b)"
  shows "auth_safe F P (atomic m k)"
proof (rule auth_step [OF assms(2) _ assms(3)])
  fix s assume "auth_inv F s" "P s"
  then show "wp m (\<lambda>b s'. auth_inv F s' \<and> grows s s' \<and> P s') s"
    using assms(2) by (auto simp: persistent_def intro: wp_mono [OF keeps_authD [OF assms(1)]])
qed

lemma auth_weaken: "auth_safe F (\<lambda>_. True) t \<Longrightarrow> persistent P \<Longrightarrow> auth_safe F P t"
  unfolding auth_safe_def by (blast intro: safe_weaken persistent_stable)

lemma auth_if [safe_rules]: "auth_safe F P t \<Longrightarrow> auth_safe F P u \<Longrightarrow> auth_safe F P (if b then t else u)"
  by simp

lemma auth_with_connection:
  fixes f :: "airdap_network_auth_connection \<Rightarrow> ('h, 'a) auth_task"
  assumes "\<And>conn. auth_safe F (connection_ok F c conn) (f conn)"
  shows "auth_safe F (\<lambda>_. True) (with_connection c f)"
  unfolding auth_safe_def with_connection_def
proof (intro allI safe.action)
  fix i s t and s' :: "'h network_auth"
  assume "auth_inv F s" "(case na_connections s c of None \<Rightarrow> None | Some conn \<Rightarrow> Some (f conn, s)) = Some (t, s')"
  then show "auth_inv F s' \<and> grows s s' \<and>
      (\<exists>Q. Q s' \<and> safe (auth_inv F) (\<lambda>_. grows) auth_world (\<lambda>_ _. True) i Q t)"
    using assms auth_invD(6) [of F s c] by (fastforce simp: auth_safe_def split: option.splits)
qed (simp add: persistent_stable safe_rules)

lemma auth_invoke_revoke [safe_rules]:
  "auth_safe F P k \<Longrightarrow> persistent P \<Longrightarrow> auth_safe F P (invoke_revoke E pending k)"
  unfolding invoke_revoke_def by (auto split: option.split intro: auth_keep auth_rules)

text \<open>Each function, with a continuation that is safe.\<close>

lemma simple_functions_safe [safe_rules]:
  assumes "\<And>r. auth_safe F (\<lambda>_. True) (k r)" "auth_safe F (\<lambda>_. True) (k' :: ('h, 'a) auth_task)"
    "\<And>r. auth_safe F (\<lambda>_. True) (k'' r)"
  shows "auth_safe F (\<lambda>_. True) (expiry_timer_callback E k')"
    and "auth_safe F (\<lambda>_. True) (airdap_network_auth_get_status E p k'')"
    and "auth_safe F (\<lambda>_. True) (airdap_network_auth_set_revoke_handler E handler k)"
    and "auth_safe F (\<lambda>_. True) (airdap_network_auth_set_pairing_window_active E active k)"
    and "auth_safe F (\<lambda>_. True) (airdap_network_auth_clear_network_configuration E k)"
  unfolding expiry_timer_callback_def airdap_network_auth_get_status_def
    airdap_network_auth_set_revoke_handler_def airdap_network_auth_set_pairing_window_active_def
    airdap_network_auth_clear_network_configuration_def
  by (auto intro!: auth_keep auth_rules safe_rules assms split: prod.split)

lemma pair_safe [safe_rules]:
  assumes "F = ae_sha256 E" "\<And>r. auth_safe F (\<lambda>_. True) (k r)"
  shows "auth_safe F (\<lambda>_. True) (pair_credential E request p usb k)"
  unfolding pair_credential_def
  by (auto intro!: auth_keep auth_rules safe_rules assms split: option.split prod.split)


lemma io_safe [safe_rules]:
  assumes "\<And>r. auth_safe F (\<lambda>_. True) (k r)" "\<And>r. auth_safe F (\<lambda>_. True) (k' r)"
  shows "auth_safe F (\<lambda>_. True) (airdap_network_auth_tls_read E c n k)"
    and "auth_safe F (\<lambda>_. True) (airdap_network_auth_tls_write E c b k')"
proof -
  have k: "persistent P \<Longrightarrow> auth_safe F P (k r)" "persistent P \<Longrightarrow> auth_safe F P (k' q)" for P r q
    by (simp_all add: auth_weaken assms)
  show "auth_safe F (\<lambda>_. True) (airdap_network_auth_tls_read E c n k)"
    unfolding airdap_network_auth_tls_read_def
    by (auto intro!: auth_with_connection auth_keep auth_rules safe_rules k split: option.split)
  show "auth_safe F (\<lambda>_. True) (airdap_network_auth_tls_write E c b k')"
    unfolding airdap_network_auth_tls_write_def
    by (auto intro!: auth_with_connection auth_keep auth_rules safe_rules k split: option.split)
qed

lemma connection_authenticated:
  "connection_ok F c conn s \<Longrightarrow> Authenticated c (co_psk conn) \<in> set (na_trace s) \<Longrightarrow>
   connection_ok F c (conn\<lparr>co_tls_authenticated := True\<rparr>) s"
  by (auto simp: connection_ok_def)

lemma auth_option [safe_rules]:
  "auth_safe F P n \<Longrightarrow> (\<And>x. auth_safe F P (f x)) \<Longrightarrow> auth_safe F P (case e of None \<Rightarrow> n | Some x \<Rightarrow> f x)"
  by (cases e) simp_all

text \<open>A candidate connection after its handshake.\<close>

definition shaken ::
    "(bytes \<Rightarrow> bytes) \<Rightarrow> nat \<Rightarrow> airdap_network_auth_connection \<Rightarrow> bool \<Rightarrow> 'h network_auth \<Rightarrow> bool" where
  "shaken F c conn ok s \<longleftrightarrow> connection_ok F c conn s \<and>
     (ok \<longrightarrow> Authenticated c (co_psk conn) \<in> set (na_trace s))"

lemma persistent_shaken [safe_rules]: "persistent (shaken F c conn ok)"
  using persistent_rules(2) [of F c conn] persistent_rules(3) [of c "co_psk conn"]
  unfolding persistent_def shaken_def by blast

lemma conclude_safe:
  assumes "\<And>r. auth_safe F (\<lambda>_. True) (k r)"
  shows "auth_safe F (shaken F c conn (handshake = TLS_OK)) (conclude_accept E c conn handshake restored k)"
proof -
  let ?P = "shaken F c conn (handshake = TLS_OK)"
  note k = auth_weaken [OF assms persistent_shaken]
  have publish: "auth_safe F ?P (atomic (updates (\<lambda>s. s\<lparr>na_connections :=
      (na_connections s)(c \<mapsto> conn\<lparr>co_tls_authenticated := True\<rparr>)\<rparr>)) (\<lambda>_. k (AUTH_OK, Some c)))"
    if "handshake = TLS_OK"
  proof (rule auth_step [where Q = "\<lambda>_ _. True", OF persistent_shaken _ assms])
    fix s assume "auth_inv F s" "?P s"
    then show "wp (updates (\<lambda>s. s\<lparr>na_connections :=
        (na_connections s)(c \<mapsto> conn\<lparr>co_tls_authenticated := True\<rparr>)\<rparr>))
      (\<lambda>b s'. auth_inv F s' \<and> grows s s' \<and> True) s"
      using that by (simp add: wp_simps grows_def auth_inv_connect connection_authenticated shaken_def)
  qed
  have final: "auth_safe F ?P (if handshake \<noteq> TLS_OK \<or> \<not> restored \<or> \<not> current
      then atomic (delete_tls E conn) (\<lambda>_.
        k (if handshake \<noteq> TLS_OK then AUTH_AUTHENTICATION_FAILED
           else if \<not> restored then AUTH_INVALID_STATE else AUTH_EXPIRED, None))
      else atomic (updates (\<lambda>s. s\<lparr>na_connections :=
          (na_connections s)(c \<mapsto> conn\<lparr>co_tls_authenticated := True\<rparr>)\<rparr>)) (\<lambda>_. k (AUTH_OK, Some c)))"
    for current
    using publish auth_keep [OF keeps_locks(5) persistent_shaken k]
    by (cases "handshake \<noteq> TLS_OK \<or> \<not> restored \<or> \<not> current") auto
  show ?thesis
    unfolding conclude_accept_def by (intro auth_keep auth_rules safe_rules final k)
qed

lemma shake_hands_safe:
  assumes k: "\<And>r. auth_safe F (\<lambda>_. True) (k r)"
  shows "auth_safe F (connection_ok F c conn) (shake_hands fuel E c conn fd deadline flags k)"
proof -
  let ?conn = "\<lambda>tls. conn\<lparr>co_psk_hint_key := (co_psk conn, co_psk_identity conn), co_tls := Some tls\<rparr>"
  have conn: "connection_ok F c (?conn tls) s = connection_ok F c conn s" for tls and s :: "'a network_auth"
    by (simp add: connection_ok_def)
  have run: "wp (run_handshake fuel E c (?conn tls) fd deadline)
      (\<lambda>result s'. auth_inv F s' \<and> grows s s' \<and> shaken F c (?conn tls) (result = Some TLS_OK) s') s"
    if "auth_inv F s" "connection_ok F c conn s" for tls and s :: "'a network_auth"
    by (rule wp_mono [OF wp_run_handshake [OF that(1)]])
      (use connection_ok_grows [OF that(2)] in \<open>simp add: shaken_def conn\<close>)
  have conclude: "auth_safe F (shaken F c (?conn tls) (Some error = Some TLS_OK))
      (conclude_accept E c (?conn tls) error restored k)" for tls error restored
    using conclude_safe [OF k] by simp
  have rest: "auth_safe F (shaken F c (?conn tls) (result = Some TLS_OK)) (case result of
      None \<Rightarrow> Act (\<lambda>_. None)
    | Some error \<Rightarrow> atomic (if r then acall (ae_set_flags E fd flags) else State_Monad.return True)
        (\<lambda>restored. conclude_accept E c (?conn tls) error restored k))" for result tls r
  proof (cases result)
    case None
    then show ?thesis by (simp add: safe_rules)
  next
    case (Some error)
    show ?thesis
      unfolding Some option.case by (intro auth_keep auth_rules safe_rules conclude)
  qed
  have k': "auth_safe F (connection_ok F c conn) (k r)" for r
    by (rule auth_weaken [OF k persistent_rules(2)])
  note keep = auth_keep [OF _ persistent_rules(2)]
  have "auth_safe F (connection_ok F c conn) (case tls of
        None \<Rightarrow> atomic (whenever r (ignoring (acall (ae_set_flags E fd flags)))) (\<lambda>_.
            atomic (release_handshake_slot E) (\<lambda>_. k (AUTH_NO_MEMORY, None)))
      | Some tls \<Rightarrow> atomic (run_handshake fuel E c (?conn tls) fd deadline) (\<lambda>result. case result of
            None \<Rightarrow> Act (\<lambda>_. None)
          | Some error \<Rightarrow> atomic (if r then acall (ae_set_flags E fd flags) else State_Monad.return True)
              (\<lambda>restored. conclude_accept E c (?conn tls) error restored k)))" for tls r
    using auth_step [OF persistent_rules(2) run rest]
      keep [OF keeps_control(2) [OF keeps_control(3) [OF keeps_basic(3)]] keep [OF keeps_slot(2) k']]
    by (cases tls) simp_all
  from keep [OF keeps_basic(3) this] show ?thesis
    unfolding shake_hands_def Let_def by assumption
qed

lemma accept_safe [safe_rules]:
  assumes k: "\<And>r. auth_safe F (\<lambda>_. True) (k r)"
  shows "auth_safe F (\<lambda>_. True) (airdap_network_auth_tls_accept fuel E fd p k)"
proof -
  let ?Q = "\<lambda>r s. case r of Inl _ \<Rightarrow> True | Inr (c, conn, deadline) \<Rightarrow> connection_ok F c conn s"
  let ?go = "\<lambda>r. case r of
      Inl result \<Rightarrow> k (result, None)
    | Inr (c, conn, deadline_us) \<Rightarrow>
        atomic (acall (ae_get_flags E fd)) (\<lambda>flags. case flags of
          None \<Rightarrow> atomic (release_handshake_slot E) (\<lambda>_. k (AUTH_INVALID_ARGUMENT, None))
        | Some socket_flags \<Rightarrow>
            atomic (if socket_flags AND ae_nonblock_flag E = 0
                    then acall (ae_set_flags E fd (socket_flags OR ae_nonblock_flag E))
                    else State_Monad.return True) (\<lambda>ready.
              if \<not> ready then atomic (release_handshake_slot E) (\<lambda>_. k (AUTH_INVALID_STATE, None))
              else shake_hands fuel E c conn fd deadline_us socket_flags k))"
  have k': "auth_safe F (connection_ok F c conn) (k r)" for r c conn
    by (rule auth_weaken [OF k persistent_rules(2)])
  have go: "auth_safe F (?Q r) (?go r)" for r
  proof (cases r)
    case (Inr x)
    obtain c conn deadline where x: "x = (c, conn, deadline)" by (cases x)
    note keep = auth_keep [OF _ persistent_rules(2)]
    show ?thesis
      unfolding Inr x sum.case prod.case
    proof (rule keep [OF keeps_basic(3)])
      fix flags
      show "auth_safe F (connection_ok F c conn) (case flags of
          None \<Rightarrow> atomic (release_handshake_slot E) (\<lambda>_. k (AUTH_INVALID_ARGUMENT, None))
        | Some socket_flags \<Rightarrow>
            atomic (if socket_flags AND ae_nonblock_flag E = 0
                    then acall (ae_set_flags E fd (socket_flags OR ae_nonblock_flag E))
                    else State_Monad.return True) (\<lambda>ready.
              if \<not> ready then atomic (release_handshake_slot E) (\<lambda>_. k (AUTH_INVALID_STATE, None))
              else shake_hands fuel E c conn fd deadline socket_flags k))"
        by (intro auth_option auth_if shake_hands_safe k keep [OF keeps_slot(2) k']
            keep [OF keeps_control(1) [OF keeps_basic(3) keeps_basic(1)]])
    qed
  qed (simp add: k)
  have reserve: "auth_safe F (\<lambda>_. True) (atomic (reserve_handshake E) ?go)"
    by (rule auth_step [OF persistent_rules(1) _ go])
      (auto intro!: wp_mono [OF wp_reserve] split: sum.splits)
  show ?thesis
    unfolding airdap_network_auth_tls_accept_def
    by (intro auth_if k reserve auth_keep [OF keeps_basic(2) persistent_rules(1)]
        auth_keep [OF keeps_basic(3) persistent_rules(1)])
qed

lemma session_safe [safe_rules]:
  assumes k: "\<And>r. auth_safe F (\<lambda>_. True) (k r)" "\<And>r. auth_safe F (\<lambda>_. True) (k' r)"
    "auth_safe F (\<lambda>_. True) (k'' :: ('h, 'a) auth_task)"
  shows "auth_safe F (\<lambda>_. True) (airdap_network_auth_session_bind E c token n p k)"
    and "auth_safe F (\<lambda>_. True) (airdap_network_auth_session_validate E c sid k')"
    and "auth_safe F (\<lambda>_. True) (airdap_network_auth_connection_close E c k'')"
proof -
  have revoke: "auth_safe F (\<lambda>_. True) (case r of (result, pending) \<Rightarrow> invoke_revoke E pending (k result))"
      "auth_safe F (\<lambda>_. True) (case q of (result, pending) \<Rightarrow> invoke_revoke E pending (k' result))" for r q
    using k by (simp_all split: prod.split add: auth_invoke_revoke persistent_rules)
  have k1: "auth_safe F (connection_ok F d conn) (k r)" "auth_safe F (connection_ok F d conn) (k' q)" for r q d conn
    by (simp_all add: auth_weaken k persistent_rules)
  have bind: "auth_safe F (connection_ok F d conn) (atomic (bind_locked E d conn t)
      (\<lambda>(result, pending). invoke_revoke E pending (k result)))"
    if "\<And>x. t = Some x \<Longrightarrow> length x = AIRDAP_NETWORK_AUTH_SESSION_TOKEN_SIZE" for d conn t
    by (rule auth_step [where Q = "\<lambda>_ _. True", OF persistent_rules(2) _ revoke(1)])
      (simp add: wp_bind_locked that)
  show "auth_safe F (\<lambda>_. True) (airdap_network_auth_session_bind E c token n p k)"
    unfolding airdap_network_auth_session_bind_def
    by (auto intro!: k auth_with_connection k1 bind auth_stuck persistent_rules(1))
  have validate: "auth_safe F (connection_ok F d conn) (if \<not> co_tls_authenticated conn \<or> \<not> co_bound conn
      then k' AUTH_UNAUTHENTICATED
      else atomic (validate_locked E d conn sid) (\<lambda>(result, pending). invoke_revoke E pending (k' result)))"
    for d conn
  proof (cases "\<not> co_tls_authenticated conn \<or> \<not> co_bound conn")
    case False
    then have "auth_safe F (connection_ok F d conn)
        (atomic (validate_locked E d conn sid) (\<lambda>(result, pending). invoke_revoke E pending (k' result)))"
      by (intro auth_step [where Q = "\<lambda>_ _. True", OF persistent_rules(2) _ revoke(2)])
        (simp add: wp_validate)
    then show ?thesis using False by simp
  qed (simp add: k1)
  show "auth_safe F (\<lambda>_. True) (airdap_network_auth_session_validate E c sid k')"
    unfolding airdap_network_auth_session_validate_def
    by (intro auth_if k auth_with_connection validate)
  note keep = auth_keep [OF _ persistent_rules(2)]
  have "auth_safe F (connection_ok F d conn) (atomic (close_locked E conn) (\<lambda>pending.
      atomic (destroy_connection E d conn) (\<lambda>_. invoke_revoke E pending k'')))" for d conn
    by (intro keep auth_invoke_revoke auth_weaken [OF k(3)] persistent_rules(2) keeps_close keeps_destroy)
  then show "auth_safe F (\<lambda>_. True) (airdap_network_auth_connection_close E c k'')"
    unfolding airdap_network_auth_connection_close_def
    by (auto intro!: k auth_with_connection split: option.split)
qed

lemma auth_starts_safe:
  assumes "F = ae_sha256 E" "t \<in> auth_starts fuel E i s"
  shows "auth_safe F (\<lambda>_. True) t"
  using assms(2) unfolding auth_starts_def airdap_network_auth_pair_def airdap_network_auth_pair_usb_def
  by (auto intro!: simple_functions_safe pair_safe [OF assms(1)] io_safe accept_safe session_safe auth_done)


interpretation auth_system: rely_guarantee "auth_inv (ae_sha256 E)" "\<lambda>_. grows" auth_world
    "\<lambda>_ _. True" "auth_starts fuel E"
proof unfold_locales
  show "safe (auth_inv (ae_sha256 E)) (\<lambda>_. grows) auth_world (\<lambda>_ _. True) i (\<lambda>_. True) t"
    if "t \<in> auth_starts fuel E i s" for t i s
    using auth_starts_safe [OF HOL.refl that] by (simp add: auth_safe_def)
  show "stable (auth_inv (ae_sha256 E)) (\<lambda>_. grows) auth_world i (\<lambda>_. True)" for i
    by (simp add: persistent_stable persistent_rules)
  show "auth_inv (ae_sha256 E) s'" if "auth_inv (ae_sha256 E) s" "auth_world s s'" for s s' :: "'a network_auth"
    using that by (auto simp: auth_world_def)
qed

text \<open>A successful start establishes the invariant.\<close>

lemma auth_inv_flags [simp]:
  "auth_inv F (s\<lparr>na_mutex := m\<rparr>) = auth_inv F s" "auth_inv F (s\<lparr>na_initialized := b\<rparr>) = auth_inv F s"
  by (simp_all add: auth_inv_def credential_ok_def owner_ok_def trace_ok_def connection_ok_def)

definition fresh_auth :: "'h network_auth \<Rightarrow> bool" where
  "fresh_auth s \<longleftrightarrow> \<not> ac_valid (na_credential s) \<and> \<not> ow_active (na_owner s) \<and> na_trace s = [] \<and>
     na_connections s = (\<lambda>_. None) \<and> na_next_session_id s = 1 \<and> na_pending_handshakes s = 0 \<and>
     \<not> na_pairing_window_active s"

lemma wp_load_credential:
  "fresh_auth s \<Longrightarrow> wp (load_credential E) (\<lambda>error t. error = ESP_OK \<longrightarrow> auth_inv (ae_sha256 E) t) s"
  by (auto simp: fresh_auth_def load_credential_def decode_credential_record_def calculate_fingerprint_def
      wp_simps auth_inv_def credential_ok_def owner_ok_def trace_ok_def ids_ok_def holds_token_def Let_def
      split_beta)

lemma wp_load_and_start:
  assumes "fresh_auth s"
  shows "wp (load_and_start E) (\<lambda>error t. error = ESP_OK \<longrightarrow> auth_inv (ae_sha256 E) t) s"
proof -
  have start: "wp (start_expiry E) (\<lambda>error t. error = ESP_OK \<longrightarrow> auth_inv (ae_sha256 E) t) t"
    if "auth_inv (ae_sha256 E) t" for t
    using that by (simp add: start_expiry_def clear_identity_def set_identity_def wp_simps split_beta)
  have "wp (do {
      error \<leftarrow> load_credential E;
      if error \<noteq> ESP_OK then do { clear_identity; State_Monad.return error }
      else do {
        created \<leftarrow> acall (ae_create_mutex E);
        updates (\<lambda>s. s\<lparr>na_mutex := created\<rparr>);
        if \<not> created then do {
          updates (\<lambda>s. s\<lparr>na_credential := no_credential\<rparr>);
          clear_identity;
          State_Monad.return ESP_ERR_NO_MEM }
        else start_expiry E } }) (\<lambda>error t. error = ESP_OK \<longrightarrow> auth_inv (ae_sha256 E) t) (s\<lparr>na_config := config\<rparr>)"
    for config
    unfolding wp_bind [of "load_credential E"]
    by (rule wp_mono [OF wp_load_credential])
      (use assms in \<open>auto simp: fresh_auth_def clear_identity_def set_identity_def wp_simps split_beta start\<close>)
  then show ?thesis
    by (simp add: load_and_start_def wp_bind [of "acall _"] wp_acall split_beta
        clear_identity_def set_identity_def wp_if wp_bind [of "updates _"] wp_basic)
qed

lemma auth_init_inv:
  assumes "run_state (airdap_network_auth_init E) (auth_boot config) = (ESP_OK, s)"
  shows "auth_inv (ae_sha256 E) s"
proof -
  have "wp (airdap_network_auth_init E) (\<lambda>error t. error = ESP_OK \<longrightarrow> auth_inv (ae_sha256 E) t) (auth_boot config)"
    by (auto simp: airdap_network_auth_init_def wp_simps auth_boot_def no_credential_def no_owner_def
        fresh_auth_def split_beta set_identity_def clear_identity_def wp_load_and_start split: option.split)
  from wpD [OF this assms] show ?thesis by simp
qed

lemma reachable_auth_inv:
  assumes "run_state (airdap_network_auth_init E) (auth_boot config) = (ESP_OK, s)"
    and "system_steps (auth_starts fuel E) auth_world ((\<lambda>_. Done ()), s) (ts, t)"
  shows "auth_inv (ae_sha256 E) t"
  using auth_system.reachable_invariant [OF assms(2) auth_init_inv [OF assms(1)]] by simp


section \<open>The handshake ends\<close>

text \<open>
  \<open>now h\<close> is the time on the platform: the timer returns it, no call goes back in time, and waiting
  for a socket takes some.
\<close>

definition clock_runs :: "'h auth_env \<Rightarrow> ('h \<Rightarrow> int) \<Rightarrow> bool" where
  "clock_runs E now \<longleftrightarrow>
     (\<forall>h. fst (ae_get_time E h) \<ge> now h \<and> now (snd (ae_get_time E h)) \<ge> fst (ae_get_time E h)) \<and>
     (\<forall>tls h. now (snd (ae_server_session_continue E tls h)) \<ge> now h) \<and>
     (\<forall>config fd tls h. now (snd (ae_server_session_init E config fd tls h)) \<ge> now h) \<and>
     (\<forall>fd event timeout h. now (snd (ae_poll E fd event timeout h)) > now h)"

lemma clock_runsD:
  assumes "clock_runs E now"
  shows "ae_get_time E h = (t, h') \<Longrightarrow> now h \<le> t \<and> t \<le> now h'"
    and "ae_server_session_continue E tls h = (r, h') \<Longrightarrow> now h \<le> now h'"
    and "ae_server_session_init E config fd tls h = (r, h') \<Longrightarrow> now h \<le> now h'"
    and "ae_poll E fd event timeout h = (p, h') \<Longrightarrow> now h < now h'"
  using assms unfolding clock_runs_def by (metis fst_conv snd_conv)+

abbreviation world_time :: "('h \<Rightarrow> int) \<Rightarrow> 'h network_auth \<Rightarrow> int" where
  "world_time now s \<equiv> now (cs_world (na_config s))"

lemma handshake_loop_ends:
  assumes "clock_runs E now"
  shows "nat (deadline - world_time now s) < fuel \<Longrightarrow>
    wp (handshake_loop fuel E fd tls deadline) (\<lambda>r _. \<exists>y. r = Some y) s"
proof (induction fuel arbitrary: s)
  case (Suc fuel)
  note clock = clock_runsD [OF assms]
  have again: "wp (handshake_loop fuel E fd tls deadline) (\<lambda>r _. \<exists>y. r = Some y) t"
    if "world_time now s < world_time now t" "world_time now s < deadline" for t
    using Suc.prems that by (intro Suc.IH) linarith
  show ?case
    unfolding handshake_loop.simps
    by (auto simp: wp_simps split: prod.split poll_result.split dest!: clock intro!: again)
qed simp


section \<open>A pairing survives a restart\<close>

text \<open>The credential in use is the one in the configuration store.\<close>

definition credential_stored :: "'h network_auth \<Rightarrow> bool" where
  "credential_stored s \<longleftrightarrow>
     sp_blob (spec_of (cs_current (na_config s))) 2 =
       (if ac_valid (na_credential s) then encode_credential_record (na_credential s) else []) \<and>
     (ac_valid (na_credential s) \<longrightarrow> ac_generation (na_credential s) \<noteq> 0 \<and>
        length (ac_psk (na_credential s)) = AIRDAP_NETWORK_AUTH_PSK_SIZE)"

text \<open>
  The platform: the calls that are not storage calls leave the stored values alone, and after a
  restart the probe has the same device id and starts.
\<close>

definition leaves_storage :: "('h \<Rightarrow> nvs_view) \<Rightarrow> ('h \<Rightarrow> 'r \<times> 'h) \<Rightarrow> bool" where
  "leaves_storage v f \<longleftrightarrow> (\<forall>h. same_values (v h) (v (snd (f h))))"

definition auth_platform :: "'h auth_env \<Rightarrow> ('h \<Rightarrow> nvs_view) \<Rightarrow> bytes \<Rightarrow> bool" where
  "auth_platform E v device_id \<longleftrightarrow> nvs_laws (ae_nvs E) v \<and> nvs_works (ae_nvs E) v \<and>
     (\<forall>h. fst (nv_take_mutex (ae_nvs E) h)) \<and>
     leaves_storage v (ae_take_mutex E) \<and> leaves_storage v (ae_give_mutex E) \<and>
     (\<forall>m. leaves_storage v (ae_hash_compute E m)) \<and>
     (\<forall>h. fst (ae_device_id E h) = Some device_id \<and> fst (ae_crypto_init E h) \<and>
        fst (ae_create_mutex E h) \<and> fst (ae_timer_create E h) = ESP_OK \<and>
        fst (ae_timer_start_periodic E h) = ESP_OK) \<and>
     (\<forall>m h. fst (ae_hash_compute E m h))"

lemma credential_magic_bytes: "credential_magic = [0x41, 0x4E, 0x45, 0x54]"
  by (simp add: credential_magic_def ascii_def of_char_def)

lemma encode_length:
  "length (ac_psk credential) = AIRDAP_NETWORK_AUTH_PSK_SIZE \<Longrightarrow>
   length (encode_credential_record credential) = CREDENTIAL_RECORD_SIZE"
  by (simp add: encode_credential_record_def credential_magic_bytes)

text \<open>Decoding inverts encoding, up to the fingerprint, which is computed again.\<close>

lemma decode_encode:
  assumes "length (ac_psk credential) = AIRDAP_NETWORK_AUTH_PSK_SIZE" "ac_generation credential \<noteq> 0"
    and "length (ae_sha256 E (fingerprint_material (na_identity s) (ac_psk credential))) =
      AIRDAP_NETWORK_AUTH_FINGERPRINT_SIZE" "\<And>m h. fst (ae_hash_compute E m h)"
  shows "\<exists>config. run_state (decode_credential_record E (encode_credential_record credential)
      CREDENTIAL_RECORD_SIZE old) s =
    ((ESP_OK, \<lparr>ac_valid = True, ac_generation = ac_generation credential, ac_psk = ac_psk credential,
       ac_fingerprint = ae_sha256 E (fingerprint_material (na_identity s) (ac_psk credential))\<rparr>),
     s\<lparr>na_config := config\<rparr>)"
  using assms
  by (auto simp: decode_credential_record_def encode_credential_record_def credential_magic_bytes
      byte_simps calculate_fingerprint_def acall_def run_state_bind Let_def split_beta)


definition stored_ok :: "'h auth_env \<Rightarrow> ('h \<Rightarrow> nvs_view) \<Rightarrow> 'h network_auth \<Rightarrow> bool" where
  "stored_ok E v s \<longleftrightarrow> credential_stored s \<and> credential_ok (ae_sha256 E) s \<and>
     in_sync v (na_config s) \<and> record_valid (cs_current (na_config s))"

lemma stored_ok_call:
  assumes "stored_ok E v s" "leaves_storage v f" "f (cs_world (na_config s)) = (r, h)"
  shows "stored_ok E v (s\<lparr>na_config := (na_config s)\<lparr>cs_world := h\<rparr>\<rparr>)"
proof -
  have "same_values (v (cs_world (na_config s))) (v h)"
    using assms(2,3) unfolding leaves_storage_def by (metis snd_conv)
  with assms(1) show ?thesis
    by (auto simp: stored_ok_def credential_stored_def credential_ok_def in_sync_def stored_same)
qed

lemma stored_ok_same:
  "na_config t = na_config s \<Longrightarrow> na_credential t = na_credential s \<Longrightarrow> na_identity t = na_identity s \<Longrightarrow>
   stored_ok E v t = stored_ok E v s"
  by (simp add: stored_ok_def credential_stored_def credential_ok_def)

lemma set_blob_stored:
  assumes "nvs_laws N v" "in_sync v s" "record_valid (cs_current s)" "length data = n" "0 < n" "n \<le> 1024"
  shows "wp (airdap_config_store_set_blob N 2 (Some data) n) (\<lambda>e t. e = ESP_OK \<longrightarrow> in_sync v t \<and>
     record_valid (cs_current t) \<and> sp_blob (spec_of (cs_current t)) 2 = data) s"
proof -
  have "wp (airdap_config_store_set_blob N 2 (Some data) n) (\<lambda>e t. (e = ESP_OK \<longrightarrow> in_sync v t) \<and>
     call_outcome (Set_blob 2 (Some data) n) s e t) s"
    using config_exec_in_sync [OF assms(1,2), of "Set_blob 2 (Some data) n"]
      set_blob_outcome [of s 2 n data N] assms(3-6)
    by (simp add: wp_conj slot_is_valid_def config_sizes)
  then show ?thesis
    by (rule wp_mono) (use assms(4) in \<open>auto simp: call_outcome_def\<close>)
qed

lemma wp_pair_stored:
  assumes platform: "auth_platform E v device_id" and s: "stored_ok E v s"
    and psk: "length psk = AIRDAP_NETWORK_AUTH_PSK_SIZE"
  shows "wp (pair_locked E psk usb) (\<lambda>(r, _, _) t. r = AUTH_OK \<longrightarrow> stored_ok E v t \<and>
     na_identity t = na_identity s \<and> ac_valid (na_credential t) \<and> ac_psk (na_credential t) = psk) s"
proof -
  have keep: "leaves_storage v (ae_take_mutex E)" "leaves_storage v (ae_give_mutex E)"
    "\<And>m. leaves_storage v (ae_hash_compute E m)" and laws: "nvs_laws (ae_nvs E) v"
    using platform by (simp_all add: auth_platform_def)
  note call = stored_ok_call [OF _ keep(1)] stored_ok_call [OF _ keep(2)] stored_ok_call [OF _ keep(3)]
  let ?Q = "\<lambda>(r, _, _) t. r = AUTH_OK \<longrightarrow> stored_ok E v t \<and> na_identity t = na_identity s \<and>
      ac_valid (na_credential t) \<and> ac_psk (na_credential t) = psk"
  have given: "stored_ok E v u"
    if "stored_ok E v (t\<lparr>na_credential := credential\<rparr>)"
      "na_config u = (na_config t)\<lparr>cs_world := snd (ae_give_mutex E (cs_world (na_config t)))\<rparr>"
      "na_credential u = credential" "na_identity u = na_identity t" for t u credential
  proof -
    let ?t = "t\<lparr>na_credential := credential\<rparr>"
    have "stored_ok E v (?t\<lparr>na_config := (na_config ?t)\<lparr>cs_world := snd (ae_give_mutex E (cs_world (na_config ?t)))\<rparr>\<rparr>)"
      by (rule call(2) [OF that(1)]) (simp add: prod_eq_iff)
    then show ?thesis
      by (rule stored_ok_same [THEN iffD1, rotated -1]) (use that in simp_all)
  qed
  have publish: "wp (publish_credential E usb credential) ?Q t"
    if "ac_valid credential" "ac_psk credential = psk" "na_identity t = na_identity s"
      "stored_ok E v (t\<lparr>na_credential := credential\<rparr>)" for t credential
    using that by (simp add: publish_credential_def invalidate_owner_locked_def wp_simps unlock_auth_def
        split_beta given)
  have store: "wp (store_credential E usb credential) ?Q t"
    if cred: "ac_valid credential" "ac_psk credential = psk" "na_identity t = na_identity s" "stored_ok E v t"
      "credential_ok (ae_sha256 E) (t\<lparr>na_credential := credential\<rparr>)" "ac_generation credential \<noteq> 0"
    for t credential
  proof -
    have len: "length (encode_credential_record credential) = CREDENTIAL_RECORD_SIZE"
      using cred psk by (simp add: encode_length)
    have "wp (airdap_config_store_set_blob (ae_nvs E) 2 (Some (encode_credential_record credential)) 44)
      (\<lambda>e c. e = ESP_OK \<longrightarrow> in_sync v c \<and> record_valid (cs_current c) \<and>
         sp_blob (spec_of (cs_current c)) 2 = encode_credential_record credential) (na_config t)"
      using cred(4) len by (intro set_blob_stored laws) (auto simp: stored_ok_def)
    then have "stored_ok E v (t\<lparr>na_config := c, na_credential := credential\<rparr>)"
      if "run_state (airdap_config_store_set_blob (ae_nvs E) 2 (Some (encode_credential_record credential)) 44)
        (na_config t) = (ESP_OK, c)" for c
      using wpD [OF _ that] cred psk by (auto simp: stored_ok_def credential_stored_def credential_ok_def)
    then show ?thesis
      using publish [of credential "t\<lparr>na_config := c\<rparr>" for c] cred
      by (auto simp: store_credential_def wp_simps unlock_auth_def split: prod.split)
  qed
  have new: "wp (new_credential E psk usb active) ?Q t"
    if t: "na_identity t = na_identity s" "stored_ok E v t" for t active
  proof -
    have gen: "next_generation active \<noteq> 0"
      by (simp add: next_generation_def Let_def)
    obtain ok h where hash: "ae_hash_compute E (fingerprint_material (na_identity s) psk)
        (cs_world (na_config t)) = (ok, h)" by fastforce
    from call(3) [OF t(2) hash] show ?thesis
      using t gen by (auto simp: new_credential_def calculate_fingerprint_def Let_def wp_simps hash
          unlock_auth_def credential_ok_def split: prod.split intro!: store)
  qed
  obtain taken h where lock: "ae_take_mutex E (cs_world (na_config s)) = (taken, h)" by fastforce
  note locked = call(1) [OF s lock]
  have same: "wp (do { unlock_auth E; State_Monad.return (AUTH_OK, x, y) }) ?Q t"
    if "stored_ok E v t" "na_identity t = na_identity s" "ac_valid (na_credential t)"
      "constant_time_equal (ac_psk (na_credential t)) psk AIRDAP_NETWORK_AUTH_PSK_SIZE" for t x y
  proof -
    have "ac_psk (na_credential t) = psk"
      using that psk by (auto simp: stored_ok_def credential_stored_def constant_time_equal_iff)
    then show ?thesis
      using that given [of "na_credential t" t] by (simp add: wp_simps unlock_auth_def split_beta)
  qed
  show ?thesis
    using s locked new [OF _ locked] same [OF locked]
    by (cases usb) (simp_all add: pair_locked_def lock_auth_def wp_simps lock unlock_auth_def split_beta)
qed

lemma get_blob_contents:
  assumes "record_valid (cs_current t)" "slot_is_valid slot" "sp_blob (spec_of (cs_current t)) (nat slot) = b"
    and "b \<noteq> []" "cs_initialized t" "cs_mutex t" "\<And>h. fst (nv_take_mutex N h)" "length out = length b"
  shows "\<exists>u. run_state (airdap_config_store_get_blob N slot (Some out) (Some (length b))) t =
    ((ESP_OK, Some b, Some (length b)), u)"
proof -
  let ?b = "cr_slots (cs_current t) ! nat slot"
  have slot: "nat slot < AIRDAP_CONFIG_SLOT_COUNT"
    using assms(2) by (simp add: slot_nat)
  then have "?b \<in> set (cr_slots (cs_current t))"
    using assms(1) by (simp add: record_valid_simps)
  then have size: "length (bl_data ?b) = AIRDAP_CONFIG_BLOB_MAX_SIZE"
    "unat (bl_length ?b) \<le> AIRDAP_CONFIG_BLOB_MAX_SIZE"
    using assms(1) by (simp_all add: record_valid_simps)
  have contents: "take (unat (bl_length ?b)) (bl_data ?b) = b"
    using assms(3) slot by (simp add: blob_contents_def)
  then have "length b = unat (bl_length ?b)"
    using size by (metis length_take min.absorb2)
  moreover obtain h where "nv_take_mutex N (cs_world t) = (True, h)"
    using assms(7) by (metis prod.collapse)
  ultimately have "wp (airdap_config_store_get_blob N slot (Some out) (Some (length b)))
      (\<lambda>r _. r = (ESP_OK, Some b, Some (length b))) t"
    using assms(2,4-6,8) contents size
    by (auto simp: airdap_config_store_get_blob_def lock_config_store_def unlock_with_def
        unlock_config_store_def wp_simps Let_def wr_bytes_def split: prod.split)
  then show ?thesis
    by (auto simp: wp_def split: prod.splits)
qed

lemma load_stored_credential:
  assumes platform: "auth_platform E v device_id"
    and c: "record_valid (cs_current (na_config s))" "cs_initialized (na_config s)" "cs_mutex (na_config s)"
    and blob: "sp_blob (spec_of (cs_current (na_config s))) 2 = encode_credential_record credential"
    and cred: "ac_valid credential" "ac_generation credential \<noteq> 0"
      "length (ac_psk credential) = AIRDAP_NETWORK_AUTH_PSK_SIZE"
      "ac_fingerprint credential = ae_sha256 E (fingerprint_material (na_identity s) (ac_psk credential))"
      "length (ac_fingerprint credential) = AIRDAP_NETWORK_AUTH_FINGERPRINT_SIZE"
  shows "wp (load_credential E) (\<lambda>error t. error = ESP_OK \<and> na_credential t = credential \<and>
    na_identity t = na_identity s) s"
proof -
  have len: "length (encode_credential_record credential) = 44"
    using cred by (simp add: encode_length)
  obtain u where u: "run_state (airdap_config_store_get_blob (ae_nvs E) 2 (Some (replicate 44 0)) (Some 44))
      (na_config s) = ((ESP_OK, Some (encode_credential_record credential), Some 44), u)"
    using get_blob_contents [of "na_config s" 2 "encode_credential_record credential" "ae_nvs E"
        "replicate 44 0"] c blob len platform
    by (auto simp: slot_is_valid_def config_sizes auth_platform_def simp flip: length_0_conv)
  have same: "\<lparr>ac_valid = True, ac_generation = ac_generation credential, ac_psk = ac_psk credential,
       ac_fingerprint = ae_sha256 E (fingerprint_material (na_identity s) (ac_psk credential))\<rparr> = credential"
    using cred by (intro active_credential.equality) simp_all
  obtain config where "run_state (decode_credential_record E (encode_credential_record credential) 44
      (na_credential s)) (s\<lparr>na_config := u\<rparr>) = ((ESP_OK, credential), s\<lparr>na_config := config\<rparr>)"
    using decode_encode [OF cred(3,2), of E "s\<lparr>na_config := u\<rparr>" "na_credential s"] cred platform same
    by (auto simp: auth_platform_def)
  then show ?thesis
    by (simp add: load_credential_def wp_simps u) (simp add: wp_def whenever_def note_auth_def)
qed

text \<open>Starting on a store that holds a credential.\<close>

lemma auth_init_loads:
  assumes platform: "auth_platform E v device_id" "length (identity_text device_id) < PSK_IDENTITY_SIZE"
    and c: "record_valid (cs_current config)" "cs_initialized config" "cs_mutex config"
    and blob: "sp_blob (spec_of (cs_current config)) 2 = encode_credential_record credential"
    and cred: "ac_valid credential" "ac_generation credential \<noteq> 0"
      "length (ac_psk credential) = AIRDAP_NETWORK_AUTH_PSK_SIZE"
      "ac_fingerprint credential =
         ae_sha256 E (fingerprint_material (identity_array (identity_text device_id)) (ac_psk credential))"
      "length (ac_fingerprint credential) = AIRDAP_NETWORK_AUTH_FINGERPRINT_SIZE"
  shows "wp (airdap_network_auth_init E) (\<lambda>error t. error = ESP_OK \<and> na_initialized t \<and>
    na_credential t = credential \<and> na_identity t = identity_array (identity_text device_id)) (auth_boot config)"
proof -
  let ?id = "identity_array (identity_text device_id)"
  have works: "fst (ae_device_id E h) = Some device_id" "fst (ae_crypto_init E h)"
    "fst (ae_create_mutex E h)" "fst (ae_timer_create E h) = ESP_OK"
    "fst (ae_timer_start_periodic E h) = ESP_OK" for h
    using platform(1) by (simp_all add: auth_platform_def)
  have load: "wp (load_credential E) (\<lambda>error t. error = ESP_OK \<and> na_credential t = credential \<and>
      na_identity t = ?id) ((auth_boot config)\<lparr>na_identity := ?id, na_config := config\<lparr>cs_world := h\<rparr>\<rparr>)" for h
    using load_stored_credential [OF platform(1), of
        "(auth_boot config)\<lparr>na_identity := ?id, na_config := config\<lparr>cs_world := h\<rparr>\<rparr>" credential] c blob cred
    by simp
  have rest: "wp (start_expiry E) (\<lambda>error t. error = ESP_OK \<and> na_initialized t \<and>
      na_credential t = na_credential u \<and> na_identity t = na_identity u) u" for u
    by (simp add: start_expiry_def wp_simps split_beta works)
  have "wp (load_and_start E) (\<lambda>error t. error = ESP_OK \<and> na_initialized t \<and>
      na_credential t = credential \<and> na_identity t = ?id)
    ((auth_boot config)\<lparr>na_identity := ?id, na_config := config\<lparr>cs_world := h\<rparr>\<rparr>)" for h
    using works(2,3)
    by (simp add: load_and_start_def wp_bind [of "acall _"] wp_acall split_beta wp_if
        wp_bind [of "load_credential E"], intro wp_mono [OF load])
      (auto simp: wp_simps split_beta works intro!: wp_mono [OF rest])
  then show ?thesis
    using platform(2) works(1)
    by (simp add: airdap_network_auth_init_def wp_simps set_identity_def auth_boot_def split_beta)
qed


section \<open>A sample run\<close>

definition calm_nvs :: "unit nvs_env" where
  "calm_nvs = \<lparr>nv_flash_init = Pair ESP_OK, nv_flash_erase = Pair ESP_OK,
     nv_open = (\<lambda>ns m. Pair (ESP_OK, 1)), nv_get_blob = (\<lambda>hn key cap. Pair (ESP_ERR_NVS_NOT_FOUND, [], 0)),
     nv_set_blob = (\<lambda>hn key b. Pair ESP_OK), nv_commit = (\<lambda>hn. Pair ESP_OK), nv_close = (\<lambda>hn. Pair ()),
     nv_create_mutex = Pair True, nv_take_mutex = Pair True, nv_give_mutex = Pair ()\<rparr>"

text \<open>A platform on which everything succeeds; its hash returns the last 32 bytes of a message.\<close>

definition calm_auth :: "'h nvs_env \<Rightarrow> 'h auth_env" where
  "calm_auth N = \<lparr>ae_nvs = N, ae_device_id = Pair (Some [0x30]), ae_crypto_init = Pair True,
     ae_hash_compute = (\<lambda>m. Pair True), ae_sha256 = (\<lambda>m. drop (length m - 32) m),
     ae_create_mutex = Pair True, ae_take_mutex = Pair True, ae_try_mutex = Pair True,
     ae_give_mutex = Pair (), ae_timer_create = Pair ESP_OK, ae_timer_start_periodic = Pair ESP_OK,
     ae_get_time = Pair 0, ae_fill_random = Pair of_nat, ae_calloc = Pair True, ae_nonblock_flag = 4,
     ae_get_flags = (\<lambda>fd. Pair (Some 0)), ae_set_flags = (\<lambda>fd flags. Pair True),
     ae_poll = (\<lambda>fd e timeout. Pair (POLL_EVENTS False)), ae_tls_init = Pair (Some 1),
     ae_server_session_init = (\<lambda>key fd tls. Pair TLS_OK),
     ae_server_session_continue = (\<lambda>tls. Pair TLS_OK), ae_set_conn_state = (\<lambda>tls. Pair TLS_OK),
     ae_server_session_delete = (\<lambda>tls. Pair ()), ae_conn_read = (\<lambda>tls n. Pair (0, [])),
     ae_conn_write = (\<lambda>tls b. Pair 0), ae_revoke = (\<lambda>f sid. Pair ())\<rparr>"

definition demo_psk :: bytes where
  "demo_psk = replicate 32 7"

definition demo_credential :: active_credential where
  "demo_credential = \<lparr>ac_valid = True, ac_generation = 1, ac_psk = demo_psk, ac_fingerprint = demo_psk\<rparr>"

text \<open>A store whose last slot holds the key.\<close>

definition demo_record :: airdap_config_store_record where
  "demo_record = \<lparr>cr_magic = 0, cr_schema_version = 0, cr_record_size = 0, cr_friendly_name = [],
     cr_provisioned = 0, cr_reserved = [], cr_slots = [\<lparr>bl_length = 0, bl_data = []\<rparr>,
       \<lparr>bl_length = 0, bl_data = []\<rparr>,
       \<lparr>bl_length = 44, bl_data = encode_credential_record demo_credential\<rparr>]\<rparr>"

definition demo_config :: "unit config_store" where
  "demo_config = \<lparr>cs_current = demo_record, cs_candidate = zero_record, cs_mutex = True,
     cs_initialized = True, cs_world = ()\<rparr>"

definition demo_start :: "unit network_auth" where
  "demo_start = snd (run_state (airdap_network_auth_init (calm_auth calm_nvs)) (auth_boot demo_config))"

text \<open>A connection, a session, a validation.\<close>

definition demo_tasks :: "(unit, unit) auth_task list" where
  "demo_tasks = [airdap_network_auth_tls_accept 1 (calm_auth calm_nvs) 5 True (\<lambda>_. Done ()),
     airdap_network_auth_session_bind (calm_auth calm_nvs) (Some 0) None 0 True (\<lambda>_. Done ()),
     airdap_network_auth_session_validate (calm_auth calm_nvs) (Some 0) 1 (\<lambda>_. Done ())]"

definition demo_after :: "nat \<Rightarrow> unit network_auth" where
  "demo_after n = fold (\<lambda>t s. snd (run_task 20 t s)) (take n demo_tasks) demo_start"

lemma demo_init:
  "run_state (airdap_network_auth_init (calm_auth calm_nvs)) (auth_boot demo_config) = (ESP_OK, demo_start)"
proof -
  have "fst (run_state (airdap_network_auth_init (calm_auth calm_nvs)) (auth_boot demo_config)) = ESP_OK"
    by code_simp
  then show ?thesis
    by (simp add: demo_start_def prod_eq_iff)
qed

lemma demo_trace:
  "na_trace (demo_after 3) = [Validated 0 1 0, Opened_session 0 1 (map of_nat [0..<32]) 0,
     Authenticated 0 demo_psk, Loaded demo_psk]"
  by code_simp

lemma auth_startsI:
  "airdap_network_auth_set_pairing_window_active E active (\<lambda>_. Done ()) \<in> auth_starts fuel E i s"
  "airdap_network_auth_pair E request p (\<lambda>_. Done ()) \<in> auth_starts fuel E i s"
  "airdap_network_auth_pair_usb E request p (\<lambda>_. Done ()) \<in> auth_starts fuel E i s"
  "airdap_network_auth_tls_accept fuel E fd p (\<lambda>_. Done ()) \<in> auth_starts fuel E i s"
  "airdap_network_auth_session_bind E c token n p (\<lambda>_. Done ()) \<in> auth_starts fuel E i s"
  "airdap_network_auth_session_validate E c sid (\<lambda>_. Done ()) \<in> auth_starts fuel E i s"
  unfolding auth_starts_def by blast+

lemma demo_steps:
  "\<exists>ts. system_steps (auth_starts 1 (calm_auth calm_nvs)) auth_world ((\<lambda>_. Done ()), demo_start)
     (ts, demo_after 3)"
  unfolding demo_after_def by (rule tasks_run) (auto simp: demo_tasks_def intro: auth_startsI)

section \<open>Properties\<close>

text \<open>C10. A validation of a connection succeeds only when, at that moment, the session it names is
  the live owner session, the connection opened this session or presented its token, the last
  activity of the session is less than sixty seconds ago, and the connection completed its TLS
  handshake with a key whose fingerprint is that of the key paired now. This holds for
  any number of tasks and any interleaving of pairings, handshakes, bindings, validations, expiry,
  closes and erasures, as long as fewer than \<open>2 ^ 32 - 1\<close> sessions were opened before.\<close>

theorem network_validation_sound:
  assumes "run_state (airdap_network_auth_init E) (auth_boot config) = (ESP_OK, s)"
    and "system_steps (auth_starts fuel E) auth_world ((\<lambda>_. Done ()), s) (ts, t)"
    and "na_trace t = later @ Validated c sid now # earlier" "openings earlier < 2 ^ 32 - 1"
  shows "\<exists>token seen psk key. live_owner earlier = Some (sid, token, seen) \<and>
    holds_token c sid token earlier \<and> (now < seen \<or> now - seen < 60000000) \<and>
    Authenticated c psk \<in> set earlier \<and> paired_psk earlier = Some key \<and>
    ae_sha256 E (fingerprint_material (na_identity t) psk) =
      ae_sha256 E (fingerprint_material (na_identity t) key)"
proof -
  have "history_sound (event_sound (ae_sha256 E) (na_identity t)) (na_trace t)"
    using auth_invD(3) [OF reachable_auth_inv [OF assms(1,2)]] by (simp add: trace_ok_def)
  then have "event_sound (ae_sha256 E) (na_identity t) (Validated c sid now) earlier"
    unfolding assms(3) by (rule history_soundD)
  with assms(4) show ?thesis unfolding event_sound.simps by blast
qed

theorem network_validation_sound_witness:
  "\<exists>token seen psk key. live_owner (tl (na_trace (demo_after 3))) = Some (1, token, seen) \<and>
    holds_token 0 1 token (tl (na_trace (demo_after 3))) \<and> (0 < seen \<or> 0 - seen < 60000000) \<and>
    Authenticated 0 psk \<in> set (tl (na_trace (demo_after 3))) \<and>
    paired_psk (tl (na_trace (demo_after 3))) = Some key \<and>
    ae_sha256 (calm_auth calm_nvs) (fingerprint_material (na_identity (demo_after 3)) psk) =
      ae_sha256 (calm_auth calm_nvs) (fingerprint_material (na_identity (demo_after 3)) key)"
proof -
  obtain ts where "system_steps (auth_starts 1 (calm_auth calm_nvs)) auth_world
      ((\<lambda>_. Done ()), demo_start) (ts, demo_after 3)"
    using demo_steps by blast
  from network_validation_sound [OF demo_init this, of "[]" 0 1 0 "tl (na_trace (demo_after 3))"]
  show ?thesis by (simp add: demo_trace)
qed

text \<open>C11. There is one owner at a time: a session is opened only when no session is live, and a
  connection joins a session only while it is live and not idle for sixty seconds, by presenting
  exactly its token, in any interleaving of the functions.\<close>

theorem network_owner_exclusive:
  assumes "run_state (airdap_network_auth_init E) (auth_boot config) = (ESP_OK, s)"
    and "system_steps (auth_starts fuel E) auth_world ((\<lambda>_. Done ()), s) (ts, t)"
    and "na_trace t = later @ e # earlier"
  shows "(e = Opened_session c sid token now \<longrightarrow> live_owner earlier = None) \<and>
    (e = Joined_session c sid token now \<longrightarrow> (\<exists>seen. live_owner earlier = Some (sid, token, seen) \<and>
       (now < seen \<or> now - seen < 60000000)))"
proof -
  have "history_sound (event_sound (ae_sha256 E) (na_identity t)) (na_trace t)"
    using auth_invD(3) [OF reachable_auth_inv [OF assms(1,2)]] by (simp add: trace_ok_def)
  then have "event_sound (ae_sha256 E) (na_identity t) e earlier"
    unfolding assms(3) by (rule history_soundD)
  then show ?thesis by auto
qed

theorem network_owner_exclusive_witness:
  "live_owner (drop 2 (na_trace (demo_after 3))) = None"
proof -
  obtain ts where "system_steps (auth_starts 1 (calm_auth calm_nvs)) auth_world
      ((\<lambda>_. Done ()), demo_start) (ts, demo_after 3)"
    using demo_steps by blast
  from network_owner_exclusive [OF demo_init this, of "[Validated 0 1 0]"
      "Opened_session 0 1 (map of_nat [0..<32]) 0" "drop 2 (na_trace (demo_after 3))"
      0 1 "map of_nat [0..<32]" 0]
  show ?thesis by (simp add: demo_trace)
qed

text \<open>C12. A key is paired only over the physical USB port or while the pairing window is open: closing
  the window is effective for every pairing that is published after it, whatever the other tasks do.\<close>

theorem network_pairing_authorised:
  assumes "run_state (airdap_network_auth_init E) (auth_boot config) = (ESP_OK, s)"
    and "system_steps (auth_starts fuel E) auth_world ((\<lambda>_. Done ()), s) (ts, t)"
    and "na_trace t = later @ Published usb psk # earlier"
  shows "usb \<or> window_open earlier"
proof -
  have "history_sound (event_sound (ae_sha256 E) (na_identity t)) (na_trace t)"
    using auth_invD(3) [OF reachable_auth_inv [OF assms(1,2)]] by (simp add: trace_ok_def)
  then have "event_sound (ae_sha256 E) (na_identity t) (Published usb psk) earlier"
    unfolding assms(3) by (rule history_soundD)
  then show ?thesis by simp
qed

definition demo_paired :: "unit network_auth" where
  "demo_paired = fold (\<lambda>t s. snd (run_task 20 t s))
     [airdap_network_auth_set_pairing_window_active (calm_auth calm_nvs) True (\<lambda>_. Done ()),
      airdap_network_auth_pair (calm_auth calm_nvs) (Some (1 # replicate 32 8)) True (\<lambda>_. Done ())] demo_start"

lemma demo_paired_trace: "na_trace demo_paired = [Published False (replicate 32 8), Pairing_window True, Loaded demo_psk]"
  by code_simp

theorem network_pairing_authorised_witness: "window_open (tl (na_trace demo_paired))"
proof -
  have "\<exists>ts. system_steps (auth_starts 1 (calm_auth calm_nvs)) auth_world ((\<lambda>_. Done ()), demo_start)
      (ts, demo_paired)"
    unfolding demo_paired_def by (rule tasks_run) (auto intro: auth_startsI)
  then obtain ts where "system_steps (auth_starts 1 (calm_auth calm_nvs)) auth_world
      ((\<lambda>_. Done ()), demo_start) (ts, demo_paired)" ..
  from network_pairing_authorised [OF demo_init this, of "[]" False "replicate 32 8"]
  show ?thesis by (simp add: demo_paired_trace)
qed


text \<open>A peer that never makes progress, on a clock of microseconds.\<close>

definition stalled_auth :: "int auth_env" where
  "stalled_auth = (calm_auth (undefined :: int nvs_env))\<lparr>ae_get_time := (\<lambda>h. (h, h)),
     ae_server_session_continue := (\<lambda>tls. Pair TLS_WANT_READ),
     ae_poll := (\<lambda>fd e timeout h. (POLL_EVENTS False, h + 1000))\<rparr>"




definition unpaired :: "nvs_view network_auth" where
  "unpaired = (auth_boot (sample_store make_default_record))\<lparr>na_mutex := True, na_initialized := True,
     na_identity := identity_array (identity_text [0x30])\<rparr>"

definition just_paired :: "nvs_view network_auth" where
  "just_paired = snd (run_state (pair_locked (calm_auth memory_nvs) demo_psk True) unpaired)"

lemma unpaired_stored: "stored_ok (calm_auth memory_nvs) id unpaired"
proof -
  have "sp_blob (spec_of make_default_record) 2 = []"
    by (simp add: spec_of_def config_sizes make_default_record_def zero_record_def zero_blob_def
        blob_contents_def)
  then show ?thesis
    using sample_store_sync [of make_default_record] default_record_valid
    by (simp add: stored_ok_def credential_stored_def credential_ok_def unpaired_def auth_boot_def
        no_credential_def sample_store_def)
qed

lemma calm_platform: "auth_platform (calm_auth memory_nvs) id [0x30]"
  using memory_nvs_laws memory_nvs_works
  by (simp add: auth_platform_def calm_auth_def leaves_storage_def same_values_def memory_nvs_def)

definition flash_after :: "'h network_auth \<Rightarrow> ('h \<Rightarrow> nvs_view) \<Rightarrow> nvs_view" where
  "flash_after s v = \<lparr>vw_content = vw_durable (v (cs_world (na_config s))),
     vw_durable = vw_durable (v (cs_world (na_config s))), vw_handles = Map.empty\<rparr>"


end
