(* ===== verification/Target_Uart.thy ===== *)
theory Target_Uart
  imports Interleaving
begin

text \<open>
  The target UART, \<^verbatim>\<open>firmware/components/target_uart/target_uart.c\<close>: one physical port shared by a USB
  and a network session. Every live session receives a copy of the received bytes in a ring buffer
  of its own; the one session that owns the transmitter writes and configures the port.

  The functions run in several tasks of theory \<open>Interleaving\<close>. All globals but the atomic ones are
  accessed while the state mutex is held, so its critical sections are single actions. The transmit
  mutex is held across actions; \<open>tu_tx_holder\<close> is the task that holds it. Accesses to the atomic
  variables and driver calls are actions too. The record \<open>uart_env\<close> holds the calls of FreeRTOS and
  the UART driver, functions on the state of the platform. \<open>tu_trace\<close> is a history, newest
  first: the code neither has nor reads it, and the properties are about it.

  A \<^verbatim>\<open>size_t\<close> is a natural number: the differences computed below are of values that
  \<open>slot_ok\<close> of theory \<open>Uart_Sessions\<close> shows to be in order.
\<close>

section \<open>Data\<close>

abbreviation (input) AIRDAP_TARGET_UART_TRANSPORT_USB :: nat where
  "AIRDAP_TARGET_UART_TRANSPORT_USB \<equiv> 0"
abbreviation (input) AIRDAP_TARGET_UART_TRANSPORT_NETWORK :: nat where
  "AIRDAP_TARGET_UART_TRANSPORT_NETWORK \<equiv> 1"
abbreviation (input) AIRDAP_TARGET_UART_TRANSPORT_COUNT :: nat where
  "AIRDAP_TARGET_UART_TRANSPORT_COUNT \<equiv> 2"
abbreviation (input) AIRDAP_TARGET_UART_TRANSPORT_NONE :: nat where
  "AIRDAP_TARGET_UART_TRANSPORT_NONE \<equiv> 2"
abbreviation (input) AIRDAP_TARGET_UART_SUBSCRIBER_BUFFER_SIZE :: nat where
  "AIRDAP_TARGET_UART_SUBSCRIBER_BUFFER_SIZE \<equiv> 512"
abbreviation (input) AIRDAP_TARGET_UART_DEFAULT_BAUD :: u32 where
  "AIRDAP_TARGET_UART_DEFAULT_BAUD \<equiv> 115200"
abbreviation (input) TARGET_UART_MAX_BAUD :: u32 where "TARGET_UART_MAX_BAUD \<equiv> 5000000"
abbreviation (input) TARGET_UART_IO_CHUNK :: nat where "TARGET_UART_IO_CHUNK \<equiv> 256"

datatype airdap_target_uart_result =
    UART_OK | UART_ALREADY_OWNER | UART_INVALID_ARGUMENT | UART_INVALID_STATE
  | UART_UNAUTHENTICATED | UART_BUSY | UART_STALE_SESSION | UART_NOT_OWNER | UART_IO_ERROR

record target_uart_session_slot =
  ss_session :: u32
  ss_rx_head :: nat
  ss_rx_count :: nat
  ss_rx_dropped_bytes :: u32
  ss_rx_buffer :: bytes

record target_uart_tx_owner =
  to_transport :: nat
  to_session :: u32

record target_uart_diagnostic_state =
  dg_sequence :: u32
  dg_baud_rate :: u32
  dg_data_bits :: u32
  dg_parity :: u32
  dg_stop_bits :: u32
  dg_rx_bytes :: u32
  dg_tx_bytes :: u32
  dg_read_failures :: u32
  dg_write_failures :: u32

record airdap_target_uart_status =
  us_initialized :: bool
  us_baud_rate :: u32
  us_data_bits :: u8
  us_parity :: u8
  us_stop_bits :: u8
  us_rx_buffered_bytes :: nat
  us_tx_buffer_free_bytes :: nat
  us_rx_bytes :: u32
  us_tx_bytes :: u32
  us_read_failures :: u32
  us_write_failures :: u32

record airdap_target_uart_session_status =
  su_rx_buffered_bytes :: nat
  su_rx_dropped_bytes :: u32
  su_tx_owner :: bool

text \<open>The driver's enumerations and its configuration.\<close>

datatype uart_word_length = UART_DATA_5_BITS | UART_DATA_6_BITS | UART_DATA_7_BITS | UART_DATA_8_BITS
datatype uart_stop_bits = UART_STOP_BITS_1 | UART_STOP_BITS_1_5 | UART_STOP_BITS_2
datatype uart_parity = UART_PARITY_DISABLE | UART_PARITY_ODD | UART_PARITY_EVEN

record uart_config =
  uc_baud_rate :: int
  uc_data_bits :: uart_word_length
  uc_parity :: uart_parity
  uc_stop_bits :: uart_stop_bits

text \<open>A line configuration as the code publishes it: baud rate, stop bits, parity, data bits.\<close>

type_synonym line_config = "u32 \<times> u32 \<times> u32 \<times> u32"

datatype uart_event =
    Uart_opened nat u32
  | Uart_closed nat u32
  | Tx_acquired nat u32
  | Uart_suspended
  | Uart_resumed
  | Uart_written nat u32 bytes
  | Uart_configured nat u32 uart_config
  | Uart_received bytes
  | Uart_read nat u32 nat bytes
  | Config_publishing
  | Config_published line_config
  | Config_read line_config
  | Uart_fault

record 'h target_uart =
  tu_initialization_started :: bool
  tu_initialized :: bool
  tu_suspended :: bool
  tu_next_session :: u32
  tu_state_mutex :: bool
  tu_tx_operation_mutex :: bool
  tu_tx_holder :: "nat option"
  tu_slots :: "nat \<Rightarrow> target_uart_session_slot"
  tu_tx_owner :: target_uart_tx_owner
  tu_diagnostic :: target_uart_diagnostic_state
  tu_worker :: bool
  tu_world :: 'h
  tu_trace :: "uart_event list"

text \<open>
  \<open>ue_wait_expired\<close> tells whether a task that waits for a mutex with a time limit gives up.
  \<open>ue_read_bytes\<close> returns the number of bytes and the contents of the buffer.
\<close>

record 'h uart_env =
  ue_take_mutex :: "'h \<Rightarrow> bool \<times> 'h"
  ue_wait_expired :: "'h \<Rightarrow> bool"
  ue_create_mutex :: "'h \<Rightarrow> bool \<times> 'h"
  ue_param_config :: "uart_config \<Rightarrow> 'h \<Rightarrow> esp_err \<times> 'h"
  ue_set_pin :: "'h \<Rightarrow> esp_err \<times> 'h"
  ue_driver_install :: "'h \<Rightarrow> esp_err \<times> 'h"
  ue_driver_delete :: "'h \<Rightarrow> esp_err \<times> 'h"
  ue_create_task :: "'h \<Rightarrow> bool \<times> 'h"
  ue_read_bytes :: "nat \<Rightarrow> 'h \<Rightarrow> (int \<times> bytes) \<times> 'h"
  ue_write_bytes :: "bytes \<Rightarrow> 'h \<Rightarrow> int \<times> 'h"
  ue_get_tx_buffer_free_size :: "'h \<Rightarrow> (esp_err \<times> nat) \<times> 'h"
  ue_get_buffered_data_len :: "'h \<Rightarrow> (esp_err \<times> nat) \<times> 'h"
  ue_wait_tx_done :: "'h \<Rightarrow> esp_err \<times> 'h"

type_synonym ('h, 'a) uart_task = "('h target_uart, 'a) task"

section \<open>Actions\<close>

definition ucall :: "('h \<Rightarrow> 'r \<times> 'h) \<Rightarrow> ('h target_uart, 'r) state" where
  "ucall f = State (\<lambda>s. case f (tu_world s) of (r, h) \<Rightarrow> (r, s\<lparr>tu_world := h\<rparr>))"

definition note_uart :: "uart_event \<Rightarrow> ('h target_uart, unit) state" where
  "note_uart e = updates (\<lambda>s. s\<lparr>tu_trace := e # tu_trace s\<rparr>)"

text \<open>\<^verbatim>\<open>atomic_fetch_add(&diagnostic_state.x, n)\<close>, given the update of the counter.\<close>

definition count_uart ::
    "((u32 \<Rightarrow> u32) \<Rightarrow> target_uart_diagnostic_state \<Rightarrow> target_uart_diagnostic_state) \<Rightarrow> u32 \<Rightarrow>
     ('h target_uart, unit) state" where
  "count_uart counter n = updates (\<lambda>s. s\<lparr>tu_diagnostic := counter (\<lambda>x. x + n) (tu_diagnostic s)\<rparr>)"

definition no_slot :: target_uart_session_slot where
  "no_slot = \<lparr>ss_session = 0, ss_rx_head = 0, ss_rx_count = 0, ss_rx_dropped_bytes = 0,
     ss_rx_buffer = replicate AIRDAP_TARGET_UART_SUBSCRIBER_BUFFER_SIZE 0\<rparr>"

definition no_tx_owner :: target_uart_tx_owner where
  "no_tx_owner = \<lparr>to_transport = AIRDAP_TARGET_UART_TRANSPORT_NONE, to_session = 0\<rparr>"

definition valid_uart_transport :: "nat \<Rightarrow> bool" where
  "valid_uart_transport transport \<longleftrightarrow> transport < AIRDAP_TARGET_UART_TRANSPORT_COUNT"

definition state_lock :: "'h uart_env \<Rightarrow> ('h target_uart, bool) state" where
  "state_lock E = do {
     created \<leftarrow> reads tu_state_mutex;
     if \<not> created then State_Monad.return False else ucall (ue_take_mutex E) }"

text \<open>A critical section of the state mutex; \<open>failed\<close> is the result when the mutex is not taken.\<close>

definition with_state ::
    "'h uart_env \<Rightarrow> 'r \<Rightarrow> ('h target_uart, 'r) state \<Rightarrow> ('h target_uart, 'r) state" where
  "with_state E failed section = do {
     taken \<leftarrow> state_lock E;
     if \<not> taken then State_Monad.return failed else section }"

text \<open>The mutex is free and is taken by task \<open>i\<close>, or the take fails, or the task waits.\<close>

definition tx_operation_lock ::
    "'h uart_env \<Rightarrow> nat \<Rightarrow> (bool \<Rightarrow> ('h, 'a) uart_task) \<Rightarrow> ('h, 'a) uart_task" where
  "tx_operation_lock E i k = Act (\<lambda>s.
     if \<not> tu_tx_operation_mutex s then Some (k False, s)
     else case ue_take_mutex E (tu_world s) of (taken, h) \<Rightarrow>
       if \<not> taken then Some (k False, s\<lparr>tu_world := h\<rparr>)
       else if tu_tx_holder s = None then Some (k True, s\<lparr>tu_world := h, tu_tx_holder := Some i\<rparr>)
       else None)"

definition tx_operation_unlock :: "('h, 'a) uart_task \<Rightarrow> ('h, 'a) uart_task" where
  "tx_operation_unlock k = atomic (updates (\<lambda>s. s\<lparr>tu_tx_holder := None\<rparr>)) (\<lambda>_. k)"

text \<open>Taking the transmit mutex with a time limit, in \<^verbatim>\<open>airdap_target_uart_suspend\<close>.\<close>

definition tx_operation_lock_timed ::
    "'h uart_env \<Rightarrow> nat \<Rightarrow> (bool \<Rightarrow> ('h, 'a) uart_task) \<Rightarrow> ('h, 'a) uart_task" where
  "tx_operation_lock_timed E i k = Act (\<lambda>s.
     if tu_tx_holder s = None then Some (k True, s\<lparr>tu_tx_holder := Some i\<rparr>)
     else if ue_wait_expired E (tu_world s) then Some (k False, s) else None)"

definition session_is_live_locked :: "nat \<Rightarrow> u32 \<Rightarrow> ('h target_uart, bool) state" where
  "session_is_live_locked transport session =
     reads (\<lambda>s. ss_session (tu_slots s transport) = session)"

definition validate_live_session_locked ::
    "nat \<Rightarrow> u32 \<Rightarrow> ('h target_uart, airdap_target_uart_result) state" where
  "validate_live_session_locked transport session = do {
     live \<leftarrow> session_is_live_locked transport session;
     State_Monad.return (if live then UART_OK else UART_STALE_SESSION) }"

definition owns_tx :: "nat \<Rightarrow> u32 \<Rightarrow> target_uart_tx_owner \<Rightarrow> bool" where
  "owns_tx transport session owner \<longleftrightarrow> to_transport owner = transport \<and> to_session owner = session"

definition validate_tx_owner_locked ::
    "nat \<Rightarrow> u32 \<Rightarrow> ('h target_uart, airdap_target_uart_result) state" where
  "validate_tx_owner_locked transport session = do {
     suspended \<leftarrow> reads tu_suspended;
     if suspended then State_Monad.return UART_BUSY
     else do {
       session_result \<leftarrow> validate_live_session_locked transport session;
       if session_result \<noteq> UART_OK then State_Monad.return session_result
       else do {
         owner \<leftarrow> reads tu_tx_owner;
         State_Monad.return (if owns_tx transport session owner then UART_OK else UART_NOT_OWNER) } } }"

section \<open>Configuration\<close>

definition publish_begin :: "('h target_uart, unit) state" where
  "publish_begin = do {
     count_uart dg_sequence_update 1;
     note_uart Config_publishing }"

definition publish_end :: "line_config \<Rightarrow> ('h target_uart, unit) state" where
  "publish_end config = do {
     count_uart dg_sequence_update 1;
     note_uart (Config_published config) }"

definition store_field ::
    "((u32 \<Rightarrow> u32) \<Rightarrow> target_uart_diagnostic_state \<Rightarrow> target_uart_diagnostic_state) \<Rightarrow> u32 \<Rightarrow>
     ('h target_uart, unit) state" where
  "store_field field v = updates (\<lambda>s. s\<lparr>tu_diagnostic := field (\<lambda>_. v) (tu_diagnostic s)\<rparr>)"

definition publish_configuration ::
    "u32 \<Rightarrow> u8 \<Rightarrow> u8 \<Rightarrow> u8 \<Rightarrow> ('h, 'a) uart_task \<Rightarrow> ('h, 'a) uart_task" where
  "publish_configuration baud_rate stop_bits parity data_bits k =
     atomic publish_begin (\<lambda>_.
     atomic (store_field dg_baud_rate_update baud_rate) (\<lambda>_.
     atomic (store_field dg_stop_bits_update (ucast stop_bits)) (\<lambda>_.
     atomic (store_field dg_parity_update (ucast parity)) (\<lambda>_.
     atomic (store_field dg_data_bits_update (ucast data_bits)) (\<lambda>_.
     atomic (publish_end (baud_rate, ucast stop_bits, ucast parity, ucast data_bits)) (\<lambda>_. k))))))"

definition map_data_bits :: "u8 \<Rightarrow> uart_word_length option" where
  "map_data_bits v = (if v = 5 then Some UART_DATA_5_BITS else if v = 6 then Some UART_DATA_6_BITS
     else if v = 7 then Some UART_DATA_7_BITS else if v = 8 then Some UART_DATA_8_BITS else None)"

definition map_stop_bits :: "u8 \<Rightarrow> uart_stop_bits option" where
  "map_stop_bits v = (if v = 0 then Some UART_STOP_BITS_1 else if v = 1 then Some UART_STOP_BITS_1_5
     else if v = 2 then Some UART_STOP_BITS_2 else None)"

definition map_parity :: "u8 \<Rightarrow> uart_parity option" where
  "map_parity v = (if v = 0 then Some UART_PARITY_DISABLE else if v = 1 then Some UART_PARITY_ODD
     else if v = 2 then Some UART_PARITY_EVEN else None)"

text \<open>The driver's configuration for the arguments, when they are in range.\<close>

definition driver_config :: "u32 \<Rightarrow> u8 \<Rightarrow> u8 \<Rightarrow> u8 \<Rightarrow> uart_config option" where
  "driver_config baud_rate stop_bits parity data_bits =
     (if baud_rate = 0 \<or> baud_rate > TARGET_UART_MAX_BAUD then None
      else case (map_data_bits data_bits, map_stop_bits stop_bits, map_parity parity) of
        (Some uart_data_bits, Some uart_stop_bits, Some uart_parity) \<Rightarrow>
          Some \<lparr>uc_baud_rate = uint baud_rate, uc_data_bits = uart_data_bits,
            uc_parity = uart_parity, uc_stop_bits = uart_stop_bits\<rparr>
      | _ \<Rightarrow> None)"

text \<open>\<open>note\<close> is what the history says of the driver call.\<close>

definition configure_driver ::
    "'h uart_env \<Rightarrow> (uart_config \<Rightarrow> ('h target_uart, unit) state) \<Rightarrow> u32 \<Rightarrow> u8 \<Rightarrow> u8 \<Rightarrow> u8 \<Rightarrow>
     (esp_err \<Rightarrow> ('h, 'a) uart_task) \<Rightarrow> ('h, 'a) uart_task" where
  "configure_driver E noted baud_rate stop_bits parity data_bits k =
     (case driver_config baud_rate stop_bits parity data_bits of
        None \<Rightarrow> k ESP_ERR_INVALID_ARG
      | Some config \<Rightarrow> atomic (do { noted config; ucall (ue_param_config E config) }) (\<lambda>error.
          if error = ESP_OK
          then publish_configuration baud_rate stop_bits parity data_bits (k error)
          else k error))"

section \<open>Receiving\<close>

definition add_dropped_bytes :: "target_uart_session_slot \<Rightarrow> nat \<Rightarrow> target_uart_session_slot" where
  "add_dropped_bytes slot dropped =
     (if dropped \<ge> unat (UINT32_MAX - ss_rx_dropped_bytes slot)
      then slot\<lparr>ss_rx_dropped_bytes := UINT32_MAX\<rparr>
      else slot\<lparr>ss_rx_dropped_bytes := ss_rx_dropped_bytes slot + of_nat dropped\<rparr>)"

definition publish_slot :: "bytes \<Rightarrow> target_uart_session_slot \<Rightarrow> target_uart_session_slot option" where
  "publish_slot data slot =
     (if ss_session slot = 0 then Some slot
      else let available = AIRDAP_TARGET_UART_SUBSCRIBER_BUFFER_SIZE - ss_rx_count slot;
        accepted = (if length data < available then length data else available);
        tail = (ss_rx_head slot + ss_rx_count slot) mod AIRDAP_TARGET_UART_SUBSCRIBER_BUFFER_SIZE;
        first = (if accepted < AIRDAP_TARGET_UART_SUBSCRIBER_BUFFER_SIZE - tail then accepted
          else AIRDAP_TARGET_UART_SUBSCRIBER_BUFFER_SIZE - tail)
      in do {
        buffer \<leftarrow> wr_bytes (ss_rx_buffer slot) tail data first;
        buffer \<leftarrow> wr_bytes buffer 0 (drop first data) (accepted - first);
        Some (add_dropped_bytes
          (slot\<lparr>ss_rx_buffer := buffer, ss_rx_count := ss_rx_count slot + accepted\<rparr>)
          (length data - accepted)) })"

fun publish_slots ::
    "bytes \<Rightarrow> nat list \<Rightarrow> (nat \<Rightarrow> target_uart_session_slot) \<Rightarrow>
     (nat \<Rightarrow> target_uart_session_slot) option" where
  "publish_slots data [] slots = Some slots"
| "publish_slots data (index # rest) slots = do {
     slot \<leftarrow> publish_slot data (slots index);
     publish_slots data rest (slots(index := slot)) }"

text \<open>An access outside a buffer is the event \<open>Uart_fault\<close>.\<close>

definition publish_locked :: "bytes \<Rightarrow> ('h target_uart, unit) state" where
  "publish_locked data = do {
     slots \<leftarrow> reads tu_slots;
     case publish_slots data [AIRDAP_TARGET_UART_TRANSPORT_USB..<AIRDAP_TARGET_UART_TRANSPORT_COUNT] slots of
       None \<Rightarrow> note_uart Uart_fault
     | Some slots \<Rightarrow> do {
         updates (\<lambda>s. s\<lparr>tu_slots := slots\<rparr>);
         note_uart (Uart_received data) } }"

definition airdap_target_uart_publish_rx ::
    "'h uart_env \<Rightarrow> bytes option \<Rightarrow> ('h, 'a) uart_task \<Rightarrow> ('h, 'a) uart_task" where
  "airdap_target_uart_publish_rx E data k = atomic (reads tu_initialized) (\<lambda>initialized.
     case data of None \<Rightarrow> k
     | Some data \<Rightarrow> if \<not> initialized \<or> length data = 0 then k
         else atomic (with_state E () (publish_locked data)) (\<lambda>_. k))"

text \<open>A driver that reports more bytes than the buffer holds makes the code read past it.\<close>

definition airdap_target_uart_process_rx_once ::
    "'h uart_env \<Rightarrow> (bool \<Rightarrow> ('h, 'a) uart_task) \<Rightarrow> ('h, 'a) uart_task" where
  "airdap_target_uart_process_rx_once E k = atomic (reads tu_initialized) (\<lambda>initialized.
     if \<not> initialized then k False
     else atomic (ucall (ue_read_bytes E TARGET_UART_IO_CHUNK)) (\<lambda>(received, data).
       if received < 0 then atomic (count_uart dg_read_failures_update 1) (\<lambda>_. k False)
       else if received = 0 then k False
       else if nat received > length data then Act (\<lambda>_. None)
       else atomic (count_uart dg_rx_bytes_update (of_int received)) (\<lambda>_.
         airdap_target_uart_publish_rx E (Some (take (nat received) data)) (k True))))"

section \<open>Initialization\<close>

text \<open>Initialization runs before the other tasks; it is one program on the state.\<close>

definition cleanup_failed_initialization :: "'h uart_env \<Rightarrow> bool \<Rightarrow> ('h target_uart, unit) state" where
  "cleanup_failed_initialization E driver_installed = do {
     updates (\<lambda>s. s\<lparr>tu_initialized := False\<rparr>);
     whenever driver_installed (ignoring (ucall (ue_driver_delete E)));
     updates (\<lambda>s. s\<lparr>tu_tx_operation_mutex := False\<rparr>);
     updates (\<lambda>s. s\<lparr>tu_state_mutex := False\<rparr>);
     updates (\<lambda>s. s\<lparr>tu_initialization_started := False\<rparr>) }"

definition failed_initialization ::
    "'h uart_env \<Rightarrow> bool \<Rightarrow> esp_err \<Rightarrow> ('h target_uart, esp_err) state" where
  "failed_initialization E driver_installed error = do {
     cleanup_failed_initialization E driver_installed;
     State_Monad.return error }"

text \<open>The configuration of the driver with the default arguments, by the only task there is.\<close>

definition configure_default :: "'h uart_env \<Rightarrow> ('h target_uart, esp_err) state" where
  "configure_default E =
     (case driver_config AIRDAP_TARGET_UART_DEFAULT_BAUD 0 0 8 of
        None \<Rightarrow> State_Monad.return ESP_ERR_INVALID_ARG
      | Some config \<Rightarrow> do {
          error \<leftarrow> ucall (ue_param_config E config);
          whenever (error = ESP_OK) (do {
            publish_begin;
            store_field dg_baud_rate_update AIRDAP_TARGET_UART_DEFAULT_BAUD;
            store_field dg_stop_bits_update 0;
            store_field dg_parity_update 0;
            store_field dg_data_bits_update 8;
            publish_end (AIRDAP_TARGET_UART_DEFAULT_BAUD, 0, 0, 8) });
          State_Monad.return error })"

definition start_worker :: "'h uart_env \<Rightarrow> ('h target_uart, esp_err) state" where
  "start_worker E = do {
     updates (\<lambda>s. s\<lparr>tu_initialized := True\<rparr>);
     created \<leftarrow> ucall (ue_create_task E);
     if \<not> created then failed_initialization E True ESP_ERR_NO_MEM
     else do {
       updates (\<lambda>s. s\<lparr>tu_worker := True\<rparr>);
       State_Monad.return ESP_OK } }"

definition install_driver :: "'h uart_env \<Rightarrow> ('h target_uart, esp_err) state" where
  "install_driver E = do {
     error \<leftarrow> configure_default E;
     if error \<noteq> ESP_OK then failed_initialization E False error
     else do {
       error \<leftarrow> ucall (ue_set_pin E);
       if error \<noteq> ESP_OK then failed_initialization E False error
       else do {
         error \<leftarrow> ucall (ue_driver_install E);
         if error \<noteq> ESP_OK then failed_initialization E False error
         else start_worker E } } }"

definition airdap_target_uart_init :: "'h uart_env \<Rightarrow> ('h target_uart, esp_err) state" where
  "airdap_target_uart_init E = do {
     initialized \<leftarrow> reads tu_initialized;
     if initialized then State_Monad.return ESP_OK
     else do {
       started \<leftarrow> reads tu_initialization_started;
       if started then State_Monad.return ESP_ERR_INVALID_STATE
       else do {
         updates (\<lambda>s. s\<lparr>tu_initialization_started := True\<rparr>);
         state_created \<leftarrow> ucall (ue_create_mutex E);
         updates (\<lambda>s. s\<lparr>tu_state_mutex := state_created\<rparr>);
         tx_created \<leftarrow> ucall (ue_create_mutex E);
         updates (\<lambda>s. s\<lparr>tu_tx_operation_mutex := tx_created, tu_tx_holder := None\<rparr>);
         if \<not> state_created \<or> \<not> tx_created then failed_initialization E False ESP_ERR_NO_MEM
         else install_driver E } } }"

section \<open>Status\<close>

text \<open>
  The reader's loop. When the first load finds an odd number, \<^verbatim>\<open>continue\<close> goes to the loop
  condition with the value \<open>after\<close> of the round before (indeterminate in the first one): \<open>after\<close>
  equals the odd number or differs from it, so the loop goes on for every value. \<open>fuel\<close> is the
  number of rounds; without any left the task does not go on.
\<close>

definition seqlock_again :: "u32 \<Rightarrow> u32 \<Rightarrow> bool" where
  "seqlock_again before after \<longleftrightarrow> before \<noteq> after \<or> after AND 1 \<noteq> 0"

definition end_read :: "u32 \<Rightarrow> line_config \<Rightarrow> ('h target_uart, u32) state" where
  "end_read before config = do {
     after \<leftarrow> reads (\<lambda>s. dg_sequence (tu_diagnostic s));
     whenever (\<not> seqlock_again before after) (note_uart (Config_read config));
     State_Monad.return after }"

fun read_configuration ::
    "nat \<Rightarrow> u32 \<Rightarrow> (line_config \<Rightarrow> ('h, 'a) uart_task) \<Rightarrow> ('h, 'a) uart_task" where
  "read_configuration 0 after k = Act (\<lambda>_. None)"
| "read_configuration (Suc fuel) after k =
     atomic (reads (\<lambda>s. dg_sequence (tu_diagnostic s))) (\<lambda>before.
       if before AND 1 \<noteq> 0
       then (if seqlock_again before after then read_configuration fuel after k
             else k (0, 0, 0, 0))
       else
         atomic (reads (\<lambda>s. dg_baud_rate (tu_diagnostic s))) (\<lambda>baud_rate.
         atomic (reads (\<lambda>s. dg_stop_bits (tu_diagnostic s))) (\<lambda>stop_bits.
         atomic (reads (\<lambda>s. dg_parity (tu_diagnostic s))) (\<lambda>parity.
         atomic (reads (\<lambda>s. dg_data_bits (tu_diagnostic s))) (\<lambda>data_bits.
         atomic (end_read before (baud_rate, stop_bits, parity, data_bits)) (\<lambda>after.
           if seqlock_again before after then read_configuration fuel after k
           else k (baud_rate, stop_bits, parity, data_bits)))))))"

definition finish_status ::
    "'h uart_env \<Rightarrow> airdap_target_uart_status \<Rightarrow>
     (esp_err \<times> airdap_target_uart_status option \<Rightarrow> ('h, 'a) uart_task) \<Rightarrow> ('h, 'a) uart_task" where
  "finish_status E status k =
     (if \<not> us_initialized status then k (ESP_OK, Some status)
      else atomic (ucall (ue_get_buffered_data_len E)) (\<lambda>(error, buffered).
        if error \<noteq> ESP_OK then k (error, Some (status\<lparr>us_rx_buffered_bytes := buffered\<rparr>))
        else atomic (ucall (ue_get_tx_buffer_free_size E)) (\<lambda>(error, free).
          k (error, Some (status\<lparr>us_rx_buffered_bytes := buffered, us_tx_buffer_free_bytes := free\<rparr>)))))"

definition airdap_target_uart_get_status ::
    "'h uart_env \<Rightarrow> nat \<Rightarrow> u32 \<Rightarrow> bool \<Rightarrow>
     (esp_err \<times> airdap_target_uart_status option \<Rightarrow> ('h, 'a) uart_task) \<Rightarrow> ('h, 'a) uart_task" where
  "airdap_target_uart_get_status E fuel indeterminate status k =
     (if \<not> status then k (ESP_ERR_INVALID_ARG, None)
      else read_configuration fuel indeterminate (\<lambda>(baud_rate, stop_bits, parity, data_bits).
        atomic (reads tu_initialized) (\<lambda>initialized.
        atomic (reads (\<lambda>s. dg_rx_bytes (tu_diagnostic s))) (\<lambda>rx_bytes.
        atomic (reads (\<lambda>s. dg_tx_bytes (tu_diagnostic s))) (\<lambda>tx_bytes.
        atomic (reads (\<lambda>s. dg_read_failures (tu_diagnostic s))) (\<lambda>read_failures.
        atomic (reads (\<lambda>s. dg_write_failures (tu_diagnostic s))) (\<lambda>write_failures.
          finish_status E \<lparr>us_initialized = initialized, us_baud_rate = baud_rate,
            us_data_bits = ucast data_bits, us_parity = ucast parity, us_stop_bits = ucast stop_bits,
            us_rx_buffered_bytes = 0, us_tx_buffer_free_bytes = 0, us_rx_bytes = rx_bytes,
            us_tx_bytes = tx_bytes, us_read_failures = read_failures,
            us_write_failures = write_failures\<rparr> k)))))))"

section \<open>Sessions\<close>

definition draw_uart_session :: "('h target_uart, u32) state" where
  "draw_uart_session = do {
     drawn \<leftarrow> reads tu_next_session;
     updates (\<lambda>s. s\<lparr>tu_next_session := drawn + 1\<rparr>);
     State_Monad.return drawn }"

text \<open>The loop draws again after a zero; the number drawn after a zero is one.\<close>

definition fresh_uart_session :: "('h target_uart, u32) state" where
  "fresh_uart_session = do {
     drawn \<leftarrow> draw_uart_session;
     if drawn = 0 then draw_uart_session else State_Monad.return drawn }"

definition open_locked ::
    "nat \<Rightarrow> ('h target_uart, airdap_target_uart_result \<times> u32) state" where
  "open_locked transport = do {
     slot \<leftarrow> reads (\<lambda>s. tu_slots s transport);
     if ss_session slot \<noteq> 0 then State_Monad.return (UART_BUSY, 0)
     else do {
       new_session \<leftarrow> fresh_uart_session;
       updates (\<lambda>s. s\<lparr>tu_slots := (tu_slots s)(transport := no_slot\<lparr>ss_session := new_session\<rparr>)\<rparr>);
       note_uart (Uart_opened transport new_session);
       State_Monad.return (UART_OK, new_session) } }"

definition airdap_target_uart_session_open ::
    "'h uart_env \<Rightarrow> nat \<Rightarrow> bool \<Rightarrow> bool \<Rightarrow>
     (airdap_target_uart_result \<times> u32 \<Rightarrow> ('h, 'a) uart_task) \<Rightarrow> ('h, 'a) uart_task" where
  "airdap_target_uart_session_open E transport authenticated session k =
     (if \<not> valid_uart_transport transport \<or> \<not> session then k (UART_INVALID_ARGUMENT, 0)
      else atomic (reads tu_initialized) (\<lambda>initialized.
        if \<not> initialized then k (UART_INVALID_STATE, 0)
        else if transport = AIRDAP_TARGET_UART_TRANSPORT_NETWORK \<and> \<not> authenticated
        then k (UART_UNAUTHENTICATED, 0)
        else atomic (with_state E (UART_INVALID_STATE, 0) (open_locked transport)) k))"

definition close_uart_locked ::
    "nat \<Rightarrow> u32 \<Rightarrow> ('h target_uart, airdap_target_uart_result) state" where
  "close_uart_locked transport session = do {
     live \<leftarrow> session_is_live_locked transport session;
     if \<not> live then State_Monad.return UART_STALE_SESSION
     else do {
       owner \<leftarrow> reads tu_tx_owner;
       whenever (owns_tx transport session owner) (updates (\<lambda>s. s\<lparr>tu_tx_owner := no_tx_owner\<rparr>));
       updates (\<lambda>s. s\<lparr>tu_slots := (tu_slots s)(transport := no_slot)\<rparr>);
       note_uart (Uart_closed transport session);
       State_Monad.return UART_OK } }"

text \<open>
  The functions that hold the transmit mutex around a critical section of the state mutex and what
  follows it.
\<close>

definition with_tx ::
    "'h uart_env \<Rightarrow> nat \<Rightarrow> nat \<Rightarrow> u32 \<Rightarrow> 'r \<Rightarrow> 'r \<Rightarrow>
     (('r \<Rightarrow> ('h, 'a) uart_task) \<Rightarrow> ('h, 'a) uart_task) \<Rightarrow> ('r \<Rightarrow> ('h, 'a) uart_task) \<Rightarrow>
     ('h, 'a) uart_task" where
  "with_tx E i transport session invalid_argument invalid_state body k =
     (if \<not> valid_uart_transport transport \<or> session = 0 then k invalid_argument
      else atomic (reads tu_initialized) (\<lambda>initialized.
        if \<not> initialized then k invalid_state
        else tx_operation_lock E i (\<lambda>taken. if \<not> taken then k invalid_state else body k)))"

definition airdap_target_uart_session_close ::
    "'h uart_env \<Rightarrow> nat \<Rightarrow> nat \<Rightarrow> u32 \<Rightarrow>
     (airdap_target_uart_result \<Rightarrow> ('h, 'a) uart_task) \<Rightarrow> ('h, 'a) uart_task" where
  "airdap_target_uart_session_close E i transport session =
     with_tx E i transport session UART_INVALID_ARGUMENT UART_INVALID_STATE (\<lambda>k.
       atomic (with_state E UART_INVALID_STATE (close_uart_locked transport session)) (\<lambda>result.
         tx_operation_unlock (k result)))"

definition session_status_locked ::
    "nat \<Rightarrow> u32 \<Rightarrow>
     ('h target_uart, airdap_target_uart_result \<times> airdap_target_uart_session_status option) state" where
  "session_status_locked transport session = do {
     live \<leftarrow> session_is_live_locked transport session;
     if \<not> live then State_Monad.return (UART_STALE_SESSION, None)
     else do {
       status \<leftarrow> reads (\<lambda>s. \<lparr>su_rx_buffered_bytes = ss_rx_count (tu_slots s transport),
         su_rx_dropped_bytes = ss_rx_dropped_bytes (tu_slots s transport),
         su_tx_owner = owns_tx transport session (tu_tx_owner s)\<rparr>);
       State_Monad.return (UART_OK, Some status) } }"

definition airdap_target_uart_session_get_status ::
    "'h uart_env \<Rightarrow> nat \<Rightarrow> u32 \<Rightarrow> bool \<Rightarrow>
     (airdap_target_uart_result \<times> airdap_target_uart_session_status option \<Rightarrow> ('h, 'a) uart_task) \<Rightarrow>
     ('h, 'a) uart_task" where
  "airdap_target_uart_session_get_status E transport session status k =
     (if \<not> valid_uart_transport transport \<or> session = 0 \<or> \<not> status then k (UART_INVALID_ARGUMENT, None)
      else atomic (reads tu_initialized) (\<lambda>initialized.
        if \<not> initialized then k (UART_INVALID_STATE, None)
        else atomic (with_state E (UART_INVALID_STATE, None) (session_status_locked transport session)) k))"

section \<open>The transmitter\<close>

definition acquire_locked ::
    "nat \<Rightarrow> u32 \<Rightarrow> ('h target_uart, airdap_target_uart_result) state" where
  "acquire_locked transport session = do {
     session_result \<leftarrow> validate_live_session_locked transport session;
     suspended \<leftarrow> reads tu_suspended;
     if session_result = UART_OK \<and> suspended then State_Monad.return UART_BUSY
     else if session_result = UART_OK
     then do {
       owner \<leftarrow> reads tu_tx_owner;
       if to_transport owner = AIRDAP_TARGET_UART_TRANSPORT_NONE
       then do {
         updates (\<lambda>s. s\<lparr>tu_tx_owner := \<lparr>to_transport = transport, to_session = session\<rparr>\<rparr>);
         note_uart (Tx_acquired transport session);
         State_Monad.return UART_OK }
       else if owns_tx transport session owner then State_Monad.return UART_ALREADY_OWNER
       else State_Monad.return UART_BUSY }
     else State_Monad.return session_result }"

definition airdap_target_uart_tx_acquire ::
    "'h uart_env \<Rightarrow> nat \<Rightarrow> nat \<Rightarrow> u32 \<Rightarrow>
     (airdap_target_uart_result \<Rightarrow> ('h, 'a) uart_task) \<Rightarrow> ('h, 'a) uart_task" where
  "airdap_target_uart_tx_acquire E i transport session =
     with_tx E i transport session UART_INVALID_ARGUMENT UART_INVALID_STATE (\<lambda>k.
       atomic (with_state E UART_INVALID_STATE (acquire_locked transport session)) (\<lambda>result.
         tx_operation_unlock (k result)))"

definition suspend_locked :: "('h target_uart, bool) state" where
  "suspend_locked = do {
     updates (\<lambda>s. s\<lparr>tu_suspended := True, tu_tx_owner := no_tx_owner\<rparr>);
     note_uart Uart_suspended;
     State_Monad.return True }"

definition airdap_target_uart_suspend ::
    "'h uart_env \<Rightarrow> nat \<Rightarrow> (esp_err \<Rightarrow> ('h, 'a) uart_task) \<Rightarrow> ('h, 'a) uart_task" where
  "airdap_target_uart_suspend E i k = atomic (reads tu_initialized) (\<lambda>initialized.
     if \<not> initialized then k ESP_ERR_INVALID_STATE
     else tx_operation_lock_timed E i (\<lambda>taken.
       if \<not> taken then k ESP_ERR_TIMEOUT
       else atomic (with_state E False suspend_locked) (\<lambda>locked.
         if \<not> locked then tx_operation_unlock (k ESP_ERR_INVALID_STATE)
         else atomic (ucall (ue_wait_tx_done E)) (\<lambda>error.
           tx_operation_unlock (k error)))))"

definition resume_locked :: "('h target_uart, esp_err) state" where
  "resume_locked = do {
     updates (\<lambda>s. s\<lparr>tu_suspended := False\<rparr>);
     note_uart Uart_resumed;
     State_Monad.return ESP_OK }"

definition airdap_target_uart_resume ::
    "'h uart_env \<Rightarrow> (esp_err \<Rightarrow> ('h, 'a) uart_task) \<Rightarrow> ('h, 'a) uart_task" where
  "airdap_target_uart_resume E k = atomic (reads tu_initialized) (\<lambda>initialized.
     if \<not> initialized then k ESP_OK
     else atomic (with_state E ESP_ERR_INVALID_STATE resume_locked) k)"

definition airdap_target_uart_session_configure ::
    "'h uart_env \<Rightarrow> nat \<Rightarrow> nat \<Rightarrow> u32 \<Rightarrow> u32 \<Rightarrow> u8 \<Rightarrow> u8 \<Rightarrow> u8 \<Rightarrow>
     (airdap_target_uart_result \<Rightarrow> ('h, 'a) uart_task) \<Rightarrow> ('h, 'a) uart_task" where
  "airdap_target_uart_session_configure E i transport session baud_rate stop_bits parity data_bits =
     with_tx E i transport session UART_INVALID_ARGUMENT UART_INVALID_STATE (\<lambda>k.
       atomic (with_state E UART_INVALID_STATE (validate_tx_owner_locked transport session)) (\<lambda>owner_result.
         if owner_result \<noteq> UART_OK then tx_operation_unlock (k owner_result)
         else configure_driver E (\<lambda>config. note_uart (Uart_configured transport session config))
           baud_rate stop_bits parity data_bits (\<lambda>error. tx_operation_unlock (k
             (if error = ESP_ERR_INVALID_ARG then UART_INVALID_ARGUMENT
              else if error = ESP_OK then UART_OK else UART_IO_ERROR)))))"

section \<open>Reading and writing\<close>

definition read_slot ::
    "nat \<Rightarrow> target_uart_session_slot \<Rightarrow> (bytes \<times> target_uart_session_slot) option" where
  "read_slot capacity slot =
     (let count = (if capacity < ss_rx_count slot then capacity else ss_rx_count slot);
        first = (if count < AIRDAP_TARGET_UART_SUBSCRIBER_BUFFER_SIZE - ss_rx_head slot then count
          else AIRDAP_TARGET_UART_SUBSCRIBER_BUFFER_SIZE - ss_rx_head slot)
      in do {
        front \<leftarrow> rd_bytes (ss_rx_buffer slot) (ss_rx_head slot) first;
        back \<leftarrow> rd_bytes (ss_rx_buffer slot) 0 (count - first);
        Some (front @ back, slot\<lparr>
          ss_rx_head := (ss_rx_head slot + count) mod AIRDAP_TARGET_UART_SUBSCRIBER_BUFFER_SIZE,
          ss_rx_count := ss_rx_count slot - count\<rparr>) })"

definition read_locked ::
    "nat \<Rightarrow> u32 \<Rightarrow> nat \<Rightarrow> ('h target_uart, airdap_target_uart_result \<times> bytes) state" where
  "read_locked transport session capacity = do {
     live \<leftarrow> session_is_live_locked transport session;
     if \<not> live then State_Monad.return (UART_STALE_SESSION, [])
     else do {
       slot \<leftarrow> reads (\<lambda>s. tu_slots s transport);
       case read_slot capacity slot of
         None \<Rightarrow> do { note_uart Uart_fault; State_Monad.return (UART_OK, []) }
       | Some (data, slot) \<Rightarrow> do {
           updates (\<lambda>s. s\<lparr>tu_slots := (tu_slots s)(transport := slot)\<rparr>);
           note_uart (Uart_read transport session capacity data);
           State_Monad.return (UART_OK, data) } } }"

text \<open>The bytes of the result are the ones copied to the caller, and their number \<^verbatim>\<open>*received\<close>.\<close>

definition airdap_target_uart_session_read ::
    "'h uart_env \<Rightarrow> nat \<Rightarrow> u32 \<Rightarrow> bool \<Rightarrow> nat \<Rightarrow> bool \<Rightarrow>
     (airdap_target_uart_result \<times> bytes \<Rightarrow> ('h, 'a) uart_task) \<Rightarrow> ('h, 'a) uart_task" where
  "airdap_target_uart_session_read E transport session data capacity received k =
     (if \<not> valid_uart_transport transport \<or> session = 0 \<or> \<not> data \<or> capacity = 0 \<or> \<not> received
      then k (UART_INVALID_ARGUMENT, [])
      else atomic (reads tu_initialized) (\<lambda>initialized.
        if \<not> initialized then k (UART_INVALID_STATE, [])
        else atomic (with_state E (UART_INVALID_STATE, []) (read_locked transport session capacity)) k))"

definition write_driver ::
    "'h uart_env \<Rightarrow> nat \<Rightarrow> u32 \<Rightarrow> bytes \<Rightarrow>
     (airdap_target_uart_result \<times> nat \<Rightarrow> ('h, 'a) uart_task) \<Rightarrow> ('h, 'a) uart_task" where
  "write_driver E transport session data k =
     atomic (do { note_uart (Uart_written transport session data); ucall (ue_write_bytes E data) })
       (\<lambda>result. tx_operation_unlock (
         if result < 0 then atomic (count_uart dg_write_failures_update 1) (\<lambda>_. k (UART_IO_ERROR, 0))
         else if result > 0
         then atomic (count_uart dg_tx_bytes_update (of_int result)) (\<lambda>_. k (UART_OK, nat result))
         else k (UART_OK, nat result)))"

text \<open>The network takes what the driver can accept without waiting.\<close>

definition write_network ::
    "'h uart_env \<Rightarrow> nat \<Rightarrow> u32 \<Rightarrow> bytes \<Rightarrow>
     (airdap_target_uart_result \<times> nat \<Rightarrow> ('h, 'a) uart_task) \<Rightarrow> ('h, 'a) uart_task" where
  "write_network E transport session data k =
     atomic (ucall (ue_get_tx_buffer_free_size E)) (\<lambda>(error, available).
       if error \<noteq> ESP_OK
       then atomic (count_uart dg_write_failures_update 1) (\<lambda>_. tx_operation_unlock (k (UART_IO_ERROR, 0)))
       else if take available data = [] then tx_operation_unlock (k (UART_OK, 0))
       else write_driver E transport session (take available data) k)"

definition airdap_target_uart_session_write ::
    "'h uart_env \<Rightarrow> nat \<Rightarrow> nat \<Rightarrow> u32 \<Rightarrow> bytes option \<Rightarrow> bool \<Rightarrow>
     (airdap_target_uart_result \<times> nat \<Rightarrow> ('h, 'a) uart_task) \<Rightarrow> ('h, 'a) uart_task" where
  "airdap_target_uart_session_write E i transport session data written k =
     (case data of None \<Rightarrow> k (UART_INVALID_ARGUMENT, 0)
      | Some data \<Rightarrow> if data = [] \<or> \<not> written then k (UART_INVALID_ARGUMENT, 0)
      else with_tx E i transport session (UART_INVALID_ARGUMENT, 0) (UART_INVALID_STATE, 0) (\<lambda>k.
        atomic (with_state E UART_INVALID_STATE (validate_tx_owner_locked transport session)) (\<lambda>owner_result.
          if owner_result \<noteq> UART_OK then tx_operation_unlock (k (owner_result, 0))
          else if transport = AIRDAP_TARGET_UART_TRANSPORT_NETWORK
          then write_network E transport session data k
          else write_driver E transport session data k)) k)"

end
