(* ===== verification/Uart_Sessions.thy ===== *)
theory Uart_Sessions
  imports Target_Uart
begin

text \<open>
  What the target UART promises, on the history of any interleaving of its functions: the port is
  written and configured only for the live session that owns the transmitter and never while
  it is suspended; a session reads the received bytes in order, each once, and what its buffer
  could not take is counted; a status shows one published configuration, never a mixture of two.
\<close>

section \<open>What a history says\<close>

fun live_uart :: "uart_event list \<Rightarrow> nat \<Rightarrow> u32" where
  "live_uart [] t = 0"
| "live_uart (Uart_opened t' n # es) t = (if t' = t then n else live_uart es t)"
| "live_uart (Uart_closed t' n # es) t = (if t' = t then 0 else live_uart es t)"
| "live_uart (_ # es) t = live_uart es t"

fun tx_owner_in :: "uart_event list \<Rightarrow> (nat \<times> u32) option" where
  "tx_owner_in [] = None"
| "tx_owner_in (Tx_acquired t n # es) = Some (t, n)"
| "tx_owner_in (Uart_suspended # es) = None"
| "tx_owner_in (Uart_closed t n # es) = (if tx_owner_in es = Some (t, n) then None else tx_owner_in es)"
| "tx_owner_in (_ # es) = tx_owner_in es"

fun suspended_in :: "uart_event list \<Rightarrow> bool" where
  "suspended_in [] = False"
| "suspended_in (Uart_suspended # es) = True"
| "suspended_in (Uart_resumed # es) = False"
| "suspended_in (_ # es) = suspended_in es"

text \<open>
  The abstract receiver of a session: a queue of at most 512 bytes and the number of bytes that
  did not fit.
\<close>

fun subscriber :: "uart_event list \<Rightarrow> nat \<Rightarrow> bytes \<times> nat" where
  "subscriber [] t = ([], 0)"
| "subscriber (Uart_opened t' n # es) t = (if t' = t then ([], 0) else subscriber es t)"
| "subscriber (Uart_closed t' n # es) t = (if t' = t then ([], 0) else subscriber es t)"
| "subscriber (Uart_received data # es) t =
     (if live_uart es t = 0 then subscriber es t
      else case subscriber es t of (queue, dropped) \<Rightarrow>
        (queue @ take (512 - length queue) data, dropped + (length data - (512 - length queue))))"
| "subscriber (Uart_read t' n capacity data # es) t =
     (if t' = t then case subscriber es t of (queue, dropped) \<Rightarrow> (drop (length data) queue, dropped)
      else subscriber es t)"
| "subscriber (_ # es) t = subscriber es t"

text \<open>The steps of publications, two for each, and the configuration published last.\<close>

fun publications :: "uart_event list \<Rightarrow> nat" where
  "publications [] = 0"
| "publications (Config_publishing # es) = Suc (publications es)"
| "publications (Config_published c # es) = Suc (publications es)"
| "publications (_ # es) = publications es"

fun last_published :: "uart_event list \<Rightarrow> line_config" where
  "last_published [] = (0, 0, 0, 0)"
| "last_published (Config_published c # es) = c"
| "last_published (_ # es) = last_published es"

text \<open>What is claimed of an event with the history before it.\<close>

definition may_transmit :: "nat \<Rightarrow> u32 \<Rightarrow> uart_event list \<Rightarrow> bool" where
  "may_transmit t n es \<longleftrightarrow> t < AIRDAP_TARGET_UART_TRANSPORT_COUNT \<and> n \<noteq> 0 \<and> live_uart es t = n \<and>
     tx_owner_in es = Some (t, n) \<and> \<not> suspended_in es"

fun uart_event_sound :: "uart_event \<Rightarrow> uart_event list \<Rightarrow> bool" where
  "uart_event_sound (Uart_written t n data) es \<longleftrightarrow> may_transmit t n es"
| "uart_event_sound (Uart_configured t n config) es \<longleftrightarrow> may_transmit t n es"
| "uart_event_sound (Tx_acquired t n) es \<longleftrightarrow>
     n \<noteq> 0 \<and> live_uart es t = n \<and> tx_owner_in es = None \<and> \<not> suspended_in es"
| "uart_event_sound (Uart_opened t n) es \<longleftrightarrow> n \<noteq> 0 \<and> live_uart es t = 0"
| "uart_event_sound (Uart_read t n capacity data) es \<longleftrightarrow>
     n \<noteq> 0 \<and> live_uart es t = n \<and> data = take capacity (fst (subscriber es t))"
| "uart_event_sound (Config_read c) es \<longleftrightarrow> (publications es < 2 ^ 32 \<longrightarrow> c = last_published es)"
| "uart_event_sound Uart_fault es \<longleftrightarrow> False"
| "uart_event_sound _ es \<longleftrightarrow> True"

section \<open>The ring buffer\<close>

text \<open>A ring buffer implements a queue of at most 512 bytes.\<close>

definition slot_ok :: "target_uart_session_slot \<Rightarrow> bool" where
  "slot_ok slot \<longleftrightarrow> ss_rx_head slot < 512 \<and> ss_rx_count slot \<le> 512 \<and> length (ss_rx_buffer slot) = 512"

definition slot_queue :: "target_uart_session_slot \<Rightarrow> bytes" where
  "slot_queue slot = map (\<lambda>k. ss_rx_buffer slot ! ((ss_rx_head slot + k) mod length (ss_rx_buffer slot)))
     [0..<ss_rx_count slot]"

lemma length_slot_queue [simp]: "length (slot_queue slot) = ss_rx_count slot"
  by (simp add: slot_queue_def)

lemma slot_queue_nth:
  "k < ss_rx_count slot \<Longrightarrow> slot_queue slot ! k =
     ss_rx_buffer slot ! ((ss_rx_head slot + k) mod length (ss_rx_buffer slot))"
  by (simp add: slot_queue_def)

lemma no_slot_ok [simp]: "slot_ok no_slot" "slot_ok (no_slot\<lparr>ss_session := n\<rparr>)"
  "slot_queue no_slot = []" "slot_queue (no_slot\<lparr>ss_session := n\<rparr>) = []"
  "ss_session no_slot = 0" "ss_rx_dropped_bytes no_slot = 0"
  "ss_rx_dropped_bytes (no_slot\<lparr>ss_session := n\<rparr>) = 0"
  by (simp_all add: no_slot_def slot_ok_def slot_queue_def)

text \<open>Positions in a ring of \<open>N\<close> bytes, and copying \<open>n\<close> bytes to \<open>tail\<close> in two parts.\<close>

lemma mod_wrap: "(a :: nat) < N \<Longrightarrow> k \<le> N \<Longrightarrow> (a + k) mod N = (if a + k < N then a + k else a + k - N)"
  by (auto simp: mod_if)

definition split_at :: "nat \<Rightarrow> nat \<Rightarrow> nat \<Rightarrow> nat" where
  "split_at N pos n = (if n < N - pos then n else N - pos)"

definition ring_write :: "bytes \<Rightarrow> nat \<Rightarrow> bytes \<Rightarrow> nat \<Rightarrow> bytes option" where
  "ring_write buffer tail data n = (let first = split_at (length buffer) tail n in do {
     buffer \<leftarrow> wr_bytes buffer tail data first;
     wr_bytes buffer 0 (drop first data) (n - first) })"

lemma ring_write_parts:
  assumes "tail < length buffer" "n \<le> length data" "n \<le> length buffer"
  shows "ring_write buffer tail data n = Some
    (if n < length buffer - tail then take tail buffer @ take n data @ drop (tail + n) buffer
     else take (n - (length buffer - tail)) (drop (length buffer - tail) data) @
       drop (n - (length buffer - tail)) (take tail buffer) @ take (length buffer - tail) data)"
  using assms by (auto simp: ring_write_def split_at_def wr_bytes_def Let_def)

lemma ring_write_nth:
  assumes "ring_write buffer tail data n = Some buffer'"
    and "tail < length buffer" "n \<le> length data" "n \<le> length buffer" "k < length buffer"
  shows "buffer' ! ((tail + k) mod length buffer) =
    (if k < n then data ! k else buffer ! ((tail + k) mod length buffer))"
  using assms(1,5) unfolding ring_write_parts [OF assms(2-4)] mod_wrap [OF assms(2) less_imp_le [OF assms(5)]]
  using assms(2-4) by (auto simp: nth_append split: if_splits)

lemma ring_write_length:
  assumes "ring_write buffer tail data n = Some buffer'"
    and "tail < length buffer" "n \<le> length data" "n \<le> length buffer"
  shows "length buffer' = length buffer"
  using assms(1) unfolding ring_write_parts [OF assms(2-4)] using assms(2-4) by (auto split: if_splits)


lemma ring_write_queue:
  assumes wrote: "ring_write buffer ((head + count) mod length buffer) data n = Some buffer'"
    and bounds: "head < length buffer" "count + n \<le> length buffer" "n \<le> length data"
  shows "map (\<lambda>k. buffer' ! ((head + k) mod length buffer)) [0..<count + n] =
    map (\<lambda>k. buffer ! ((head + k) mod length buffer)) [0..<count] @ take n data"
proof (rule nth_equalityI)
  let ?N = "length buffer"
  have tail: "(head + count) mod ?N < ?N" using bounds(1) by (intro mod_less_divisor) linarith
  fix k assume "k < length (map (\<lambda>k. buffer' ! ((head + k) mod ?N)) [0..<count + n])"
  then have k: "k < count + n" by simp
  show "map (\<lambda>k. buffer' ! ((head + k) mod ?N)) [0..<count + n] ! k =
    (map (\<lambda>k. buffer ! ((head + k) mod ?N)) [0..<count] @ take n data) ! k"
  proof (cases "k < count")
    case True
    have pos: "(head + count) mod ?N + (?N - count + k) = (head + count) mod ?N + (?N - count) + k" by simp
    have "((head + count) mod ?N + (?N - count + k)) mod ?N = (head + count + (?N - count + k)) mod ?N"
      by (simp add: mod_simps)
    also have "head + count + (?N - count + k) = head + k + ?N"
      using True bounds by simp
    finally have "((head + count) mod ?N + (?N - count + k)) mod ?N = (head + k) mod ?N" by simp
    moreover have "?N - count + k < ?N" "\<not> ?N - count + k < n" using True bounds by auto
    ultimately show ?thesis
      using ring_write_nth [OF wrote tail bounds(3) _ \<open>?N - count + k < ?N\<close>] True k bounds
      by (simp add: nth_append)
  next
    case False
    have "((head + count) mod ?N + (k - count)) mod ?N = (head + count + (k - count)) mod ?N"
      by (simp add: mod_simps)
    then have "((head + count) mod ?N + (k - count)) mod ?N = (head + k) mod ?N"
      using False by simp
    moreover have "k - count < ?N" "k - count < n" using False k bounds by linarith+
    ultimately show ?thesis
      using ring_write_nth [OF wrote tail bounds(3), of "k - count"] False k bounds
      by (simp add: nth_append)
  qed
qed (use assms in simp)

lemma publish_slot_ring:
  assumes "slot_ok slot" "ss_session slot \<noteq> 0"
  shows "publish_slot data slot = (let accepted = min (length data) (512 - ss_rx_count slot) in
    map_option (\<lambda>buffer. add_dropped_bytes
        (slot\<lparr>ss_rx_buffer := buffer, ss_rx_count := ss_rx_count slot + accepted\<rparr>) (length data - accepted))
      (ring_write (ss_rx_buffer slot) ((ss_rx_head slot + ss_rx_count slot) mod length (ss_rx_buffer slot))
        data accepted))"
proof -
  have accepted: "(if length data < n then length data else n) = min (length data) n" for n
    by (simp add: min_def)
  show ?thesis
    using assms by (simp add: publish_slot_def ring_write_def split_at_def slot_ok_def Let_def accepted
        map_conv_bind_option Option.bind_assoc comp_def)
qed

lemma add_dropped_fields [simp]:
  "ss_session (add_dropped_bytes slot d) = ss_session slot"
  "ss_rx_head (add_dropped_bytes slot d) = ss_rx_head slot"
  "ss_rx_count (add_dropped_bytes slot d) = ss_rx_count slot"
  "ss_rx_buffer (add_dropped_bytes slot d) = ss_rx_buffer slot"
  by (simp_all add: add_dropped_bytes_def)

lemma unat_UINT32_MAX: "unat UINT32_MAX = 4294967295"
  by (simp add: UINT32_MAX_def)

lemma add_dropped_saturates:
  assumes "unat (ss_rx_dropped_bytes slot) = min n 4294967295"
  shows "unat (ss_rx_dropped_bytes (add_dropped_bytes slot d)) = min (n + d) 4294967295"
proof -
  have diff: "unat (UINT32_MAX - ss_rx_dropped_bytes slot) = 4294967295 - unat (ss_rx_dropped_bytes slot)"
    using unat_u32_less [of "ss_rx_dropped_bytes slot"]
    by (subst unat_sub_if') (auto simp: unat_UINT32_MAX)
  show ?thesis
  proof (cases "d \<ge> unat (UINT32_MAX - ss_rx_dropped_bytes slot)")
    case True
    then show ?thesis
      using assms by (auto simp: add_dropped_bytes_def diff unat_UINT32_MAX min_def)
  next
    case False
    then have "unat (ss_rx_dropped_bytes slot) + d < 2 ^ 32" by (simp add: diff)
    then have "unat (ss_rx_dropped_bytes slot + of_nat d) = unat (ss_rx_dropped_bytes slot) + d"
      by (simp add: unat_word_ariths unat_of_nat take_bit_eq_mod)
    with False show ?thesis
      using assms by (simp add: add_dropped_bytes_def diff min_def split: if_splits)
  qed
qed

text \<open>A slot with the abstract receiver it implements.\<close>

definition slot_implements :: "target_uart_session_slot \<Rightarrow> bytes \<times> nat \<Rightarrow> bool" where
  "slot_implements slot q \<longleftrightarrow> slot_ok slot \<and> slot_queue slot = fst q \<and>
     unat (ss_rx_dropped_bytes slot) = min (snd q) 4294967295"

lemma publish_slot_implements:
  assumes "slot_implements slot (queue, dropped)" "ss_session slot \<noteq> 0"
  obtains slot' where "publish_slot data slot = Some slot'" "ss_session slot' = ss_session slot"
    "slot_implements slot'
      (queue @ take (512 - length queue) data, dropped + (length data - (512 - length queue)))"
proof -
  have ok: "slot_ok slot" "slot_queue slot = queue" "ss_rx_count slot = length queue"
    "unat (ss_rx_dropped_bytes slot) = min dropped 4294967295"
    using assms(1) by (auto simp: slot_implements_def)
  let ?accepted = "min (length data) (512 - ss_rx_count slot)"
  let ?tail = "(ss_rx_head slot + ss_rx_count slot) mod length (ss_rx_buffer slot)"
  have bounds: "?tail < length (ss_rx_buffer slot)" "?accepted \<le> length data"
    "?accepted \<le> length (ss_rx_buffer slot)" "ss_rx_head slot < length (ss_rx_buffer slot)"
    "ss_rx_count slot + ?accepted \<le> length (ss_rx_buffer slot)"
    using ok by (auto simp: slot_ok_def)
  obtain buffer where buffer: "ring_write (ss_rx_buffer slot) ?tail data ?accepted = Some buffer"
    using ring_write_parts [OF bounds(1-3)] by simp
  let ?slot = "slot\<lparr>ss_rx_buffer := buffer, ss_rx_count := ss_rx_count slot + ?accepted\<rparr>"
  have dropped: "length data - ?accepted = length data - (512 - length queue)"
    by (simp add: ok(3) min_def)
  have taken: "take ?accepted data = take (512 - length queue) data"
    by (simp add: ok(3) min_def)
  have length: "length buffer = length (ss_rx_buffer slot)"
    by (rule ring_write_length [OF buffer bounds(1-3)])
  have "slot_queue ?slot = queue @ take (512 - length queue) data"
    using ring_write_queue [OF buffer bounds(4,5,2)] length
    by (simp add: slot_queue_def ok(2) [symmetric] taken del: upt_Suc)
  moreover have "slot_ok ?slot"
    using bounds ok(1) length by (simp add: slot_ok_def)
  moreover have "unat (ss_rx_dropped_bytes ?slot) = min dropped 4294967295"
    using ok(4) by simp
  ultimately have "slot_implements (add_dropped_bytes ?slot (length data - ?accepted))
      (queue @ take (512 - length queue) data, dropped + (length data - (512 - length queue)))"
    unfolding slot_implements_def dropped
    by (simp add: add_dropped_saturates slot_ok_def slot_queue_def)
  then show thesis
    by (intro that [of "add_dropped_bytes ?slot (length data - ?accepted)"])
      (simp_all add: publish_slot_ring [OF ok(1) assms(2)] buffer Let_def)
qed


lemma read_slot_implements:
  assumes "slot_implements slot (queue, dropped)"
  obtains slot' where "read_slot capacity slot = Some (take capacity queue, slot')"
    "ss_session slot' = ss_session slot"
    "slot_implements slot' (drop (length (take capacity queue)) queue, dropped)"
proof -
  have ok: "slot_ok slot" "slot_queue slot = queue" "ss_rx_count slot = length queue"
    using assms by (auto simp: slot_implements_def)
  define N where "N = length (ss_rx_buffer slot)"
  have N: "512 = N" using ok(1) by (simp add: slot_ok_def N_def)
  let ?head = "ss_rx_head slot" and ?buffer = "ss_rx_buffer slot"
  define count where "count = min capacity (length queue)"
  have bounds: "?head < N" "count \<le> length queue" "length queue \<le> N"
    using ok by (auto simp: slot_ok_def N_def count_def)
  let ?first = "split_at N ?head count"
  let ?slot = "slot\<lparr>ss_rx_head := (?head + count) mod N, ss_rx_count := length queue - count\<rparr>"
  have "take ?first (drop ?head ?buffer) @ take (count - ?first) ?buffer = take count queue"
  proof (rule nth_equalityI)
    fix k assume "k < length (take ?first (drop ?head ?buffer) @ take (count - ?first) ?buffer)"
    then have k: "k < count" using bounds by (auto simp: split_at_def N_def split: if_splits)
    then have "queue ! k = ?buffer ! ((?head + k) mod N)"
      using slot_queue_nth [of k slot] ok bounds by (simp add: N_def)
    moreover have "(?head + k) mod N = (if ?head + k < N then ?head + k else ?head + k - N)"
      by (rule mod_wrap) (use k bounds in linarith)+
    ultimately show "(take ?first (drop ?head ?buffer) @ take (count - ?first) ?buffer) ! k = take count queue ! k"
      using k bounds by (auto simp: nth_append split_at_def N_def add.commute split: if_splits)
  qed (use bounds in \<open>auto simp: split_at_def N_def split: if_splits\<close>)
  moreover have "read_slot capacity slot =
      Some (take ?first (drop ?head ?buffer) @ take (count - ?first) ?buffer, ?slot)"
  proof -
    have count: "(if capacity < ss_rx_count slot then capacity else ss_rx_count slot) = count"
      by (simp add: count_def ok(3))
    have "?head + ?first \<le> N" "count - ?first \<le> N"
      using bounds by (auto simp: split_at_def)
    then show ?thesis
      unfolding read_slot_def count N split_at_def [symmetric]
      by (simp add: rd_bytes_def N_def [symmetric] ok(3) Let_def)
  qed
  moreover have "take count queue = take capacity queue"
    by (simp add: count_def min_def)
  moreover have "slot_implements ?slot (drop count queue, dropped)"
  proof -
    have "slot_queue ?slot ! k = drop count queue ! k" if "k < length queue - count" for k
    proof -
      have "((?head + count) mod N + k) mod N = (?head + (count + k)) mod N"
        by (simp add: mod_simps add.assoc)
      with that show ?thesis
        using slot_queue_nth [of "count + k" slot] ok bounds
        by (simp add: slot_queue_nth N_def [symmetric])
    qed
    then have "slot_queue ?slot = drop count queue"
      by (intro nth_equalityI) simp_all
    moreover have "slot_ok ?slot"
      using ok(1,3) bounds N N_def by (auto simp: slot_ok_def)
    ultimately show ?thesis
      using assms by (simp add: slot_implements_def)
  qed
  moreover have "length (take capacity queue) = count" by (simp add: count_def)
  ultimately show thesis
    by (intro that [of ?slot]) simp_all
qed


section \<open>The invariant\<close>

definition config_fields :: "target_uart_diagnostic_state \<Rightarrow> line_config" where
  "config_fields d = (dg_baud_rate d, dg_stop_bits d, dg_parity d, dg_data_bits d)"

definition owner_view :: "target_uart_tx_owner \<Rightarrow> (nat \<times> u32) option" where
  "owner_view owner = (if to_transport owner = AIRDAP_TARGET_UART_TRANSPORT_NONE then None
     else Some (to_transport owner, to_session owner))"

definition sessions_ok :: "'h target_uart \<Rightarrow> bool" where
  "sessions_ok s \<longleftrightarrow> (\<forall>t. ss_session (tu_slots s t) = live_uart (tu_trace s) t \<and>
     slot_implements (tu_slots s t) (subscriber (tu_trace s) t) \<and>
     (t \<ge> AIRDAP_TARGET_UART_TRANSPORT_COUNT \<longrightarrow> live_uart (tu_trace s) t = 0))"

definition transmitter_ok :: "'h target_uart \<Rightarrow> bool" where
  "transmitter_ok s \<longleftrightarrow> owner_view (tu_tx_owner s) = tx_owner_in (tu_trace s) \<and>
     (\<forall>t n. tx_owner_in (tu_trace s) = Some (t, n) \<longrightarrow>
        t < AIRDAP_TARGET_UART_TRANSPORT_COUNT \<and> n \<noteq> 0 \<and> live_uart (tu_trace s) t = n) \<and>
     tu_suspended s = suspended_in (tu_trace s)"

definition configuration_ok :: "'h target_uart \<Rightarrow> bool" where
  "configuration_ok s \<longleftrightarrow> dg_sequence (tu_diagnostic s) = of_nat (publications (tu_trace s)) \<and>
     (even (publications (tu_trace s)) \<longrightarrow> config_fields (tu_diagnostic s) = last_published (tu_trace s)) \<and>
     (odd (publications (tu_trace s)) \<longrightarrow> tu_tx_holder s \<noteq> None)"

definition uart_inv :: "'h target_uart \<Rightarrow> bool" where
  "uart_inv s \<longleftrightarrow> sessions_ok s \<and> transmitter_ok s \<and> configuration_ok s \<and>
     history_sound uart_event_sound (tu_trace s)"

text \<open>
  What a step of task \<open>j\<close> leaves alone: the transmit mutex in other hands, what it protects, and
  the configuration while none is being published.
\<close>

definition protected :: "'h target_uart \<Rightarrow> 'h target_uart \<Rightarrow> bool" where
  "protected s s' \<longleftrightarrow> tu_tx_owner s' = tu_tx_owner s \<and> (tu_suspended s' \<longrightarrow> tu_suspended s) \<and>
     (\<forall>t. ss_session (tu_slots s t) \<noteq> 0 \<longrightarrow> ss_session (tu_slots s' t) = ss_session (tu_slots s t)) \<and>
     publications (tu_trace s') = publications (tu_trace s) \<and>
     config_fields (tu_diagnostic s') = config_fields (tu_diagnostic s)"

definition uart_step :: "nat \<Rightarrow> 'h target_uart \<Rightarrow> 'h target_uart \<Rightarrow> bool" where
  "uart_step j s s' \<longleftrightarrow> publications (tu_trace s) \<le> publications (tu_trace s') \<and>
     (\<forall>i. i \<noteq> j \<longrightarrow> (tu_tx_holder s' = Some i) = (tu_tx_holder s = Some i) \<and>
        (tu_tx_holder s = Some i \<longrightarrow> protected s s')) \<and>
     (even (publications (tu_trace s)) \<and> publications (tu_trace s') = publications (tu_trace s) \<longrightarrow>
        config_fields (tu_diagnostic s') = config_fields (tu_diagnostic s))"

definition uart_world :: "'h target_uart \<Rightarrow> 'h target_uart \<Rightarrow> bool" where
  "uart_world s s' \<longleftrightarrow> (\<exists>h. s' = s\<lparr>tu_world := h\<rparr>)"

text \<open>A state but for the platform, the counters and the flags of the initialization.\<close>

definition quiet :: "'h target_uart \<Rightarrow> 'h target_uart \<Rightarrow> bool" where
  "quiet s s' \<longleftrightarrow> tu_suspended s' = tu_suspended s \<and> tu_tx_holder s' = tu_tx_holder s \<and>
     tu_slots s' = tu_slots s \<and> tu_tx_owner s' = tu_tx_owner s \<and>
     dg_sequence (tu_diagnostic s') = dg_sequence (tu_diagnostic s) \<and>
     config_fields (tu_diagnostic s') = config_fields (tu_diagnostic s) \<and> tu_trace s' = tu_trace s"

lemma quiet_refl [simp]: "quiet s s"
  by (simp add: quiet_def)

lemma quiet_world [simp]: "quiet s (s\<lparr>tu_world := h\<rparr>)"
  by (simp add: quiet_def)

lemma quiet_inv: "quiet s s' \<Longrightarrow> uart_inv s \<Longrightarrow> uart_inv s'"
  by (simp add: quiet_def uart_inv_def sessions_ok_def transmitter_ok_def configuration_ok_def)

lemma quiet_step: "quiet s s' \<Longrightarrow> uart_step j s s'"
  by (simp add: quiet_def uart_step_def protected_def)

lemma world_quiet: "uart_world s s' \<Longrightarrow> quiet s s'"
  by (auto simp: uart_world_def)

definition uart_idle :: "nat \<Rightarrow> 'h target_uart \<Rightarrow> bool" where
  "uart_idle i s \<longleftrightarrow> tu_tx_holder s \<noteq> Some i"

abbreviation uart_stable :: "nat \<Rightarrow> ('h target_uart \<Rightarrow> bool) \<Rightarrow> bool" where
  "uart_stable \<equiv> stable uart_inv uart_step uart_world"

abbreviation uart_safe :: "nat \<Rightarrow> ('h target_uart \<Rightarrow> bool) \<Rightarrow> ('h, 'a) uart_task \<Rightarrow> bool" where
  "uart_safe \<equiv> safe uart_inv uart_step uart_world uart_idle"

text \<open>Quiet steps keep whatever a task knows.\<close>

lemma quiet_known: "uart_stable i P \<Longrightarrow> quiet s s' \<Longrightarrow> uart_inv s \<Longrightarrow> P s \<Longrightarrow> P s'"
  unfolding stable_def by (metis quiet_inv quiet_step n_not_Suc_n)

lemma uart_stableI:
  assumes "\<And>s s' j. uart_inv s \<Longrightarrow> uart_inv s' \<Longrightarrow> P s \<Longrightarrow> j \<noteq> i \<Longrightarrow> uart_step j s s' \<Longrightarrow> P s'"
  shows "uart_stable i P"
  unfolding stable_def using assms by (metis world_quiet quiet_step n_not_Suc_n)

definition quiet_action :: "('h target_uart, 'r) state \<Rightarrow> bool" where
  "quiet_action m \<longleftrightarrow> (\<forall>s. wp m (\<lambda>_. quiet s) s)"

lemma wp_ucall [wp_simps]:
  "wp (ucall f) Q s = (case f (tu_world s) of (r, h) \<Rightarrow> Q r (s\<lparr>tu_world := h\<rparr>))"
  by (simp add: ucall_def wp_def split: prod.splits)

lemma wp_note_uart [wp_simps]: "wp (note_uart e) Q s = Q () (s\<lparr>tu_trace := e # tu_trace s\<rparr>)"
  by (simp add: note_uart_def wp_simps)

lemma quiet_actions [intro!]:
  "quiet_action (reads f)" "quiet_action (ucall g)"
  "quiet_action (count_uart dg_rx_bytes_update n)" "quiet_action (count_uart dg_tx_bytes_update n)"
  "quiet_action (count_uart dg_read_failures_update n)" "quiet_action (count_uart dg_write_failures_update n)"
  by (auto simp: quiet_action_def wp_simps count_uart_def quiet_def config_fields_def split: prod.splits)

lemma quiet_atomic:
  assumes "quiet_action m" "\<And>r. uart_safe i P (k r)"
  shows "uart_safe i P (atomic m k)"
proof (rule safe_atomic)
  show stable: "uart_stable i P" by (rule safe_stable [OF assms(2)])
  show "wp m (\<lambda>r s'. uart_inv s' \<and> uart_step i s s' \<and> P s') s" if "uart_inv s" "P s" for s
    using assms(1) that quiet_inv quiet_step quiet_known [OF stable]
    unfolding quiet_action_def by (blast intro: wp_mono)
qed (rule assms(2))

section \<open>What a task knows\<close>

definition holding :: "nat \<Rightarrow> 'h target_uart \<Rightarrow> bool" where
  "holding i s \<longleftrightarrow> tu_tx_holder s = Some i \<and> even (publications (tu_trace s))"

definition owning :: "nat \<Rightarrow> nat \<Rightarrow> u32 \<Rightarrow> 'h target_uart \<Rightarrow> bool" where
  "owning i t n s \<longleftrightarrow> holding i s \<and> \<not> tu_suspended s \<and> owns_tx t n (tu_tx_owner s) \<and>
     t < AIRDAP_TARGET_UART_TRANSPORT_COUNT \<and> n \<noteq> 0 \<and> ss_session (tu_slots s t) = n"

definition publishing :: "nat \<Rightarrow> (line_config \<Rightarrow> bool) \<Rightarrow> 'h target_uart \<Rightarrow> bool" where
  "publishing i R s \<longleftrightarrow> tu_tx_holder s = Some i \<and> odd (publications (tu_trace s)) \<and>
     R (config_fields (tu_diagnostic s))"

definition reading :: "nat \<Rightarrow> u32 \<Rightarrow> (line_config \<Rightarrow> bool) \<Rightarrow> 'h target_uart \<Rightarrow> bool" where
  "reading i before R s \<longleftrightarrow> uart_idle i s \<and> (\<exists>n. before = of_nat n \<and> even n \<and> n \<le> publications (tu_trace s) \<and>
     (publications (tu_trace s) = n \<longrightarrow> R (config_fields (tu_diagnostic s))))"

lemma step_other:
  assumes "uart_step j s s'" "j \<noteq> i"
  shows "tu_tx_holder s' = Some i \<longleftrightarrow> tu_tx_holder s = Some i" "tu_tx_holder s = Some i \<Longrightarrow> protected s s'"
    "publications (tu_trace s) \<le> publications (tu_trace s')"
    "even (publications (tu_trace s)) \<Longrightarrow> publications (tu_trace s') = publications (tu_trace s) \<Longrightarrow>
       config_fields (tu_diagnostic s') = config_fields (tu_diagnostic s)"
  using assms unfolding uart_step_def by (metis, metis, metis, metis)

lemma knowledge_stable [intro!]:
  "uart_stable i (uart_idle i)" "uart_stable i (holding i)" "uart_stable i (owning i t n)"
  "uart_stable i (publishing i R)"
proof (rule_tac [!] uart_stableI)
  fix s s' :: "'h target_uart" and j assume step: "j \<noteq> i" "uart_step j s s'"
  note other = step_other(1,2) [OF step(2,1)]
  show "uart_idle i s \<Longrightarrow> uart_idle i s'" "holding i s \<Longrightarrow> holding i s'"
    "owning i t n s \<Longrightarrow> owning i t n s'" "publishing i R s \<Longrightarrow> publishing i R s'"
    using other by (auto simp: uart_idle_def holding_def owning_def publishing_def protected_def)
qed

lemma reading_stable [intro!]: "uart_stable i (reading i before R)"
proof (rule uart_stableI)
  fix s s' :: "'h target_uart" and j assume *: "reading i before R s" "j \<noteq> i" "uart_step j s s'"
  from *(1) obtain n where n: "before = of_nat n" "even n" "n \<le> publications (tu_trace s)" "uart_idle i s"
    "publications (tu_trace s) = n \<Longrightarrow> R (config_fields (tu_diagnostic s))"
    unfolding reading_def by blast
  have "uart_idle i s'" "n \<le> publications (tu_trace s')"
    using step_other(1,3) [OF *(3,2)] n(3,4) by (auto simp: uart_idle_def)
  moreover have "R (config_fields (tu_diagnostic s'))" if "publications (tu_trace s') = n"
    using step_other(3,4) [OF *(3,2)] n that by auto
  ultimately show "reading i before R s'"
    unfolding reading_def using n(1,2) by blast
qed

section \<open>Critical sections\<close>

lemmas uart_inv_defs = uart_inv_def sessions_ok_def transmitter_ok_def configuration_ok_def
lemmas uart_step_defs = uart_step_def protected_def

lemma quiet_then_step: "quiet s t \<Longrightarrow> uart_step i t s' \<Longrightarrow> uart_step i s s'"
  by (simp add: quiet_def uart_step_defs)

text \<open>A critical section that keeps the invariant and turns \<open>P\<close> into \<open>Q\<close>.\<close>

definition section_ok ::
    "nat \<Rightarrow> ('h target_uart \<Rightarrow> bool) \<Rightarrow> ('h target_uart, 'r) state \<Rightarrow> ('r \<Rightarrow> 'h target_uart \<Rightarrow> bool) \<Rightarrow> bool" where
  "section_ok i P m Q \<longleftrightarrow>
     (\<forall>s. uart_inv s \<longrightarrow> P s \<longrightarrow> wp m (\<lambda>r s'. uart_inv s' \<and> uart_step i s s' \<and> Q r s') s)"

lemma section_okI:
  assumes "\<And>s. uart_inv s \<Longrightarrow> P s \<Longrightarrow> wp m (\<lambda>r s'. uart_inv s' \<and> uart_step i s s' \<and> Q r s') s"
  shows "section_ok i P m Q"
  using assms by (simp add: section_ok_def)

lemma section_atomic:
  assumes "section_ok i P m Q" "uart_stable i P" "\<And>r. uart_safe i (Q r) (k r)"
  shows "uart_safe i P (atomic m k)"
  by (rule safe_atomic [where Q = Q]) (use assms in \<open>simp_all add: section_ok_def\<close>)

lemma section_locked:
  assumes "section_ok i P m Q" "uart_stable i P" "\<And>s. P s \<Longrightarrow> Q failed s"
  shows "section_ok i P (with_state E failed m) Q"
proof (rule section_okI)
  fix s assume s: "uart_inv s" "P s"
  have world: "uart_inv (s\<lparr>tu_world := h\<rparr>)" "P (s\<lparr>tu_world := h\<rparr>)" for h
    by (rule quiet_inv [OF quiet_world s(1)], rule quiet_known [OF assms(2) quiet_world s])
  have "wp m (\<lambda>r s'. uart_inv s' \<and> uart_step i s s' \<and> Q r s') (s\<lparr>tu_world := h\<rparr>)" for h
    using assms(1) world [of h] quiet_then_step [OF quiet_world [of s h]]
    unfolding section_ok_def by (blast intro: wp_mono)
  then show "wp (with_state E failed m) (\<lambda>r s'. uart_inv s' \<and> uart_step i s s' \<and> Q r s') s"
    using s world assms(3)
    by (auto simp: with_state_def state_lock_def wp_simps quiet_step split: prod.splits)
qed

lemma no_slot_implements [simp]:
  "slot_implements no_slot ([], 0)" "slot_implements (no_slot\<lparr>ss_session := n\<rparr>) ([], 0)"
  by (simp_all add: slot_implements_def)

lemma fresh_nonzero: "wp fresh_uart_session (\<lambda>n s'. n \<noteq> 0 \<and> (\<exists>m. s' = s\<lparr>tu_next_session := m\<rparr>)) s"
  by (auto simp: fresh_uart_session_def draw_uart_session_def wp_simps)

lemma open_section:
  assumes "valid_uart_transport t"
  shows "section_ok i (uart_idle i) (open_locked t) (\<lambda>_. uart_idle i)"
proof (rule section_okI)
  fix s assume s: "uart_inv s" "uart_idle i s"
  show "wp (open_locked t) (\<lambda>_ s'. uart_inv s' \<and> uart_step i s s' \<and> uart_idle i s') s"
  proof (cases "ss_session (tu_slots s t) = 0")
    case True
    have "uart_inv s' \<and> uart_step i s s' \<and> uart_idle i s'"
      if "n \<noteq> 0" "s' = s\<lparr>tu_next_session := m, tu_slots := (tu_slots s)(t := no_slot\<lparr>ss_session := n\<rparr>),
        tu_trace := Uart_opened t n # tu_trace s\<rparr>" for n m s'
      using s True that assms
      by (auto simp: uart_inv_defs uart_step_defs uart_idle_def valid_uart_transport_def)
    then show ?thesis
      using True by (auto simp: open_locked_def wp_simps intro!: wp_mono [OF fresh_nonzero])
  next
    case False
    with s show ?thesis by (simp add: open_locked_def wp_simps quiet_step)
  qed
qed


lemma sessions_okD:
  assumes "sessions_ok s"
  shows "ss_session (tu_slots s t) = live_uart (tu_trace s) t"
    "slot_implements (tu_slots s t) (subscriber (tu_trace s) t)"
    "AIRDAP_TARGET_UART_TRANSPORT_COUNT \<le> t \<Longrightarrow> live_uart (tu_trace s) t = 0"
  using assms unfolding sessions_ok_def by blast+

lemma transmitter_okD:
  assumes "transmitter_ok s"
  shows "owner_view (tu_tx_owner s) = tx_owner_in (tu_trace s)" "tu_suspended s = suspended_in (tu_trace s)"
  using assms unfolding transmitter_ok_def by blast+

lemma owner_view_iff:
  "t < AIRDAP_TARGET_UART_TRANSPORT_COUNT \<Longrightarrow> owner_view owner = Some (t, n) \<longleftrightarrow> owns_tx t n owner"
  by (auto simp: owner_view_def owns_tx_def)

lemma owner_view_simps [simp]:
  "owner_view no_tx_owner = None"
  "t < AIRDAP_TARGET_UART_TRANSPORT_COUNT \<Longrightarrow> owner_view \<lparr>to_transport = t, to_session = n\<rparr> = Some (t, n)"
  by (simp_all add: owner_view_def no_tx_owner_def)

lemma close_section:
  assumes "valid_uart_transport t" "n \<noteq> 0"
  shows "section_ok i (holding i) (close_uart_locked t n) (\<lambda>_. holding i)"
proof (rule section_okI)
  fix s assume s: "uart_inv s" "holding i s"
  show "wp (close_uart_locked t n) (\<lambda>_ s'. uart_inv s' \<and> uart_step i s s' \<and> holding i s') s"
  proof (cases "ss_session (tu_slots s t) = n")
    case True
    have owner: "tx_owner_in (tu_trace s) = Some (t, n) \<longleftrightarrow> owns_tx t n (tu_tx_owner s)"
      using transmitter_okD(1) s(1) assms(1) owner_view_iff unfolding uart_inv_def valid_uart_transport_def by metis
    then show ?thesis
      using s True assms
      by (auto simp: close_uart_locked_def session_is_live_locked_def wp_simps uart_inv_defs uart_step_defs
          holding_def valid_uart_transport_def)
  next
    case False
    with s show ?thesis
      by (simp add: close_uart_locked_def session_is_live_locked_def wp_simps quiet_step)
  qed
qed

lemma acquire_section:
  assumes "valid_uart_transport t" "n \<noteq> 0"
  shows "section_ok i (holding i) (acquire_locked t n) (\<lambda>_. holding i)"
proof (rule section_okI)
  fix s assume s: "uart_inv s" "holding i s"
  let ?free = "ss_session (tu_slots s t) = n \<and> \<not> tu_suspended s \<and> to_transport (tu_tx_owner s) = 2"
  have "uart_inv (s\<lparr>tu_tx_owner := \<lparr>to_transport = t, to_session = n\<rparr>, tu_trace := Tx_acquired t n # tu_trace s\<rparr>)"
    if ?free
    using s that assms by (auto simp: uart_inv_defs owner_view_def valid_uart_transport_def)
  with s show "wp (acquire_locked t n) (\<lambda>_ s'. uart_inv s' \<and> uart_step i s s' \<and> holding i s') s"
    by (auto simp: acquire_locked_def validate_live_session_locked_def session_is_live_locked_def wp_simps
        uart_step_defs holding_def)
qed

lemma suspend_section: "section_ok i (holding i) suspend_locked (\<lambda>_. holding i)"
  by (rule section_okI)
    (auto simp: suspend_locked_def wp_simps uart_inv_defs uart_step_defs holding_def)

lemma resume_section: "section_ok i (uart_idle i) resume_locked (\<lambda>_. uart_idle i)"
  by (rule section_okI)
    (auto simp: resume_locked_def wp_simps uart_inv_defs uart_step_defs uart_idle_def)

lemma status_section: "section_ok i (uart_idle i) (session_status_locked t n) (\<lambda>_. uart_idle i)"
  by (rule section_okI)
    (auto simp: session_status_locked_def session_is_live_locked_def wp_simps quiet_step)

lemma validate_section:
  assumes "valid_uart_transport t" "n \<noteq> 0"
  shows "section_ok i (holding i) (validate_tx_owner_locked t n)
    (\<lambda>r. if r = UART_OK then owning i t n else holding i)"
  using assms by (intro section_okI)
    (auto simp: validate_tx_owner_locked_def validate_live_session_locked_def session_is_live_locked_def
      wp_simps quiet_step owning_def valid_uart_transport_def)

lemma read_section:
  assumes "valid_uart_transport t" "n \<noteq> 0"
  shows "section_ok i (uart_idle i) (read_locked t n capacity) (\<lambda>_. uart_idle i)"
proof (rule section_okI)
  fix s assume s: "uart_inv s" "uart_idle i s"
  show "wp (read_locked t n capacity) (\<lambda>_ s'. uart_inv s' \<and> uart_step i s s' \<and> uart_idle i s') s"
  proof (cases "ss_session (tu_slots s t) = n")
    case True
    obtain queue dropped where q: "subscriber (tu_trace s) t = (queue, dropped)" by (cases "subscriber (tu_trace s) t")
    then have "slot_implements (tu_slots s t) (queue, dropped)"
      using s(1) sessions_okD(2) [of s t] by (simp add: uart_inv_def)
    then obtain slot where slot: "read_slot capacity (tu_slots s t) = Some (take capacity queue, slot)"
      "ss_session slot = ss_session (tu_slots s t)"
      "slot_implements slot (drop (length (take capacity queue)) queue, dropped)"
      by (rule read_slot_implements)
    have "uart_inv s' \<and> uart_step i s s' \<and> uart_idle i s'"
      if "s' = s\<lparr>tu_slots := (tu_slots s)(t := slot),
        tu_trace := Uart_read t n capacity (take capacity queue) # tu_trace s\<rparr>" for s'
      using s slot(2,3) that True assms(2) q by (auto simp: uart_inv_defs uart_step_defs uart_idle_def)
    then show ?thesis
      using True slot(1) by (simp add: read_locked_def session_is_live_locked_def wp_simps)
  next
    case False
    with s show ?thesis
      by (simp add: read_locked_def session_is_live_locked_def wp_simps quiet_step)
  qed
qed

lemma publish_slots_all:
  assumes "\<And>t. t \<in> set ts \<Longrightarrow> publish_slot data (slots t) = Some (slots' t)" "distinct ts"
  shows "publish_slots data ts slots = Some (\<lambda>t. if t \<in> set ts then slots' t else slots t)"
  using assms
proof (induction ts arbitrary: slots)
  case (Cons t ts)
  then have "publish_slots data ts (slots(t := slots' t)) =
    Some (\<lambda>t'. if t' \<in> set ts then slots' t' else (slots(t := slots' t)) t')"
    by (intro Cons.IH) auto
  moreover have "(\<lambda>t'. if t' \<in> set ts then slots' t' else (slots(t := slots' t)) t') =
    (\<lambda>t'. if t' \<in> set (t # ts) then slots' t' else slots t')"
    by auto
  ultimately show ?case
    using Cons.prems(1) [of t] by simp
qed simp

lemma publish_slot_received:
  assumes "sessions_ok s"
  obtains slot where "publish_slot data (tu_slots s t) = Some slot" "ss_session slot = live_uart (tu_trace s) t"
    "slot_implements slot (subscriber (Uart_received data # tu_trace s) t)"
proof (cases "live_uart (tu_trace s) t = 0")
  case True
  with assms show thesis
    by (intro that [of "tu_slots s t"]) (simp_all add: sessions_ok_def publish_slot_def)
next
  case False
  obtain queue dropped where q: "subscriber (tu_trace s) t = (queue, dropped)" by (cases "subscriber (tu_trace s) t")
  have "slot_implements (tu_slots s t) (queue, dropped)" "ss_session (tu_slots s t) \<noteq> 0"
    using sessions_okD(1,2) [OF assms, of t] False q by simp_all
  then show thesis
    by (rule publish_slot_implements [of _ _ _ data])
      (use sessions_okD(1) [OF assms, of t] False q that in simp)
qed

lemma publish_section: "section_ok i (uart_idle i) (publish_locked data) (\<lambda>_. uart_idle i)"
proof (rule section_okI)
  fix s assume s: "uart_inv s" "uart_idle i s"
  then have "sessions_ok s" by (simp add: uart_inv_def)
  then obtain slots where slots: "\<And>t. publish_slot data (tu_slots s t) = Some (slots t)"
    "\<And>t. ss_session (slots t) = live_uart (tu_trace s) t"
    "\<And>t. slot_implements (slots t) (subscriber (Uart_received data # tu_trace s) t)"
    using publish_slot_received by metis
  let ?slots = "\<lambda>t. if t \<in> set [0..<2] then slots t else tu_slots s t"
  have result: "publish_slots data [0..<2] (tu_slots s) = Some ?slots"
    by (rule publish_slots_all) (simp_all add: slots)
  have "sessions_ok (s\<lparr>tu_slots := ?slots, tu_trace := Uart_received data # tu_trace s\<rparr>)"
    using sessions_okD [OF \<open>sessions_ok s\<close>] slots(2,3) by (simp add: sessions_ok_def del: subscriber.simps) simp
  then have "uart_inv s' \<and> uart_step i s s' \<and> uart_idle i s'"
    if "s' = s\<lparr>tu_slots := ?slots, tu_trace := Uart_received data # tu_trace s\<rparr>" for s'
    using s slots(2) that sessions_okD(1) [OF \<open>sessions_ok s\<close>]
    by (simp add: uart_inv_def transmitter_ok_def configuration_ok_def uart_step_defs uart_idle_def)
  then show "wp (publish_locked data) (\<lambda>_ s'. uart_inv s' \<and> uart_step i s s' \<and> uart_idle i s') s"
    unfolding publish_locked_def wp_simps result option.case by simp
qed

lemma transmit_section:
  assumes "e = Uart_written t n data \<or> e = Uart_configured t n config"
  shows "section_ok i (owning i t n) (do { note_uart e; ucall f } :: ('h target_uart, 'r) state)
    (\<lambda>_. owning i t n)"
proof (rule section_okI)
  fix s :: "'h target_uart" assume s: "uart_inv s" "owning i t n s"
  then have "may_transmit t n (tu_trace s)"
    using sessions_okD(1) [of s t] transmitter_okD [of s] owner_view_iff [of t "tu_tx_owner s" n]
    unfolding may_transmit_def uart_inv_def owning_def by simp
  then have "uart_inv s' \<and> uart_step i s s' \<and> owning i t n s'"
    if "s' = s\<lparr>tu_trace := e # tu_trace s, tu_world := h\<rparr>" for s' h
    using s that assms by (auto simp: uart_inv_defs uart_step_defs owning_def holding_def)
  then show "wp (do { note_uart e; ucall f } :: ('h target_uart, 'r) state)
      (\<lambda>_ s'. uart_inv s' \<and> uart_step i s s' \<and> owning i t n s') s"
    by (auto simp: wp_simps split: prod.splits)
qed


section \<open>The functions\<close>

named_theorems uart_rules "functions that keep the invariant at each action"

lemma uart_if [uart_rules]: "(b \<Longrightarrow> uart_safe i P t) \<Longrightarrow> (\<not> b \<Longrightarrow> uart_safe i P u) \<Longrightarrow> uart_safe i P (if b then t else u)"
  by simp

lemma uart_stuck [uart_rules]: "uart_stable i P \<Longrightarrow> uart_safe i P (Act (\<lambda>_. None))"
  by (auto intro: safe.action)

lemma uart_done [uart_rules]: "uart_safe i (uart_idle i) (Done x)"
  by (auto intro: safe.finished)

lemma holder_taken:
  assumes "uart_inv s" "tu_tx_holder s = None"
  shows "uart_inv (s\<lparr>tu_world := h, tu_tx_holder := Some i\<rparr>)"
    "uart_step i s (s\<lparr>tu_world := h, tu_tx_holder := Some i\<rparr>)"
    "holding i (s\<lparr>tu_world := h, tu_tx_holder := Some i\<rparr>)"
  using assms by (auto simp: uart_inv_defs uart_step_defs holding_def)

lemma tx_lock_safe:
  assumes "uart_safe i (holding i) (k True)" "uart_safe i (uart_idle i) (k False)"
  shows "uart_safe i (uart_idle i) (tx_operation_lock E i k)"
  unfolding tx_operation_lock_def
proof (rule safe.action)
  fix s t s'
  assume s: "uart_inv s" "uart_idle i s" "(if \<not> tu_tx_operation_mutex s then Some (k False, s)
     else case ue_take_mutex E (tu_world s) of (taken, h) \<Rightarrow>
       if \<not> taken then Some (k False, s\<lparr>tu_world := h\<rparr>)
       else if tu_tx_holder s = None then Some (k True, s\<lparr>tu_world := h, tu_tx_holder := Some i\<rparr>)
       else None) = Some (t, s')"
  then consider "t = k False" "quiet s s'"
    | h where "t = k True" "tu_tx_holder s = None" "s' = s\<lparr>tu_world := h, tu_tx_holder := Some i\<rparr>"
    by (cases "ue_take_mutex E (tu_world s)") (fastforce split: if_splits)
  then show "uart_inv s' \<and> uart_step i s s' \<and> (\<exists>Q. Q s' \<and> uart_safe i Q t)"
  proof cases
    case 1
    then show ?thesis
      using quiet_inv [OF 1(2) s(1)] quiet_step [OF 1(2)] quiet_known [OF knowledge_stable(1) 1(2) s(1,2)]
        assms(2) by blast
  next
    case (2 h)
    then show ?thesis
      using holder_taken [OF s(1) 2(2), where h = h and i = i] assms(1) by blast
  qed
qed auto

lemma tx_lock_timed_safe:
  assumes "uart_safe i (holding i) (k True)" "uart_safe i (uart_idle i) (k False)"
  shows "uart_safe i (uart_idle i) (tx_operation_lock_timed E i k)"
  unfolding tx_operation_lock_timed_def
proof (rule safe.action)
  fix s t s'
  assume s: "uart_inv s" "uart_idle i s" "(if tu_tx_holder s = None then Some (k True, s\<lparr>tu_tx_holder := Some i\<rparr>)
     else if ue_wait_expired E (tu_world s) then Some (k False, s) else None) = Some (t, s')"
  then consider "t = k False" "s' = s"
    | "t = k True" "tu_tx_holder s = None" "s' = s\<lparr>tu_world := tu_world s, tu_tx_holder := Some i\<rparr>"
    by (auto split: if_splits)
  then show "uart_inv s' \<and> uart_step i s s' \<and> (\<exists>Q. Q s' \<and> uart_safe i Q t)"
  proof cases
    case 1
    then show ?thesis
      using s assms(2) quiet_step quiet_refl by blast
  next
    case 2
    then show ?thesis
      using holder_taken [OF s(1) 2(2), where h = "tu_world s" and i = i] assms(1) by blast
  qed
qed auto

lemma tx_unlock_safe [uart_rules]:
  assumes "uart_safe i (uart_idle i) k"
  shows "uart_safe i (holding i) (tx_operation_unlock k)"
  unfolding tx_operation_unlock_def
  by (rule section_atomic [where Q = "\<lambda>_. uart_idle i"])
    (auto simp: section_ok_def wp_simps uart_inv_defs uart_step_defs holding_def uart_idle_def assms)

lemma owning_holding: "uart_safe i (holding i) k \<Longrightarrow> uart_safe i (owning i t n) k"
  by (erule safe_weaken) (auto simp: owning_def)

lemma with_tx_safe:
  assumes "\<And>r. uart_safe i (uart_idle i) (k r)"
    and "valid_uart_transport t \<Longrightarrow> n \<noteq> 0 \<Longrightarrow> uart_safe i (holding i) (body k)"
  shows "uart_safe i (uart_idle i) (with_tx E i t n a b body k)"
  unfolding with_tx_def using assms by (auto intro!: quiet_atomic tx_lock_safe)

lemma locked_safe:
  assumes "section_ok i P m (\<lambda>_. P)" "uart_stable i P" "\<And>r. uart_safe i P (k r)"
  shows "uart_safe i P (atomic (with_state E failed m) k)"
  by (rule section_atomic [OF section_locked [OF assms(1,2)] assms(2)]) (simp_all add: assms(3))

lemma close_safe [uart_rules]:
  assumes "\<And>r. uart_safe i (uart_idle i) (k r)"
  shows "uart_safe i (uart_idle i) (airdap_target_uart_session_close E i t n k)"
  unfolding airdap_target_uart_session_close_def
  by (intro with_tx_safe assms locked_safe close_section tx_unlock_safe) auto

lemma acquire_safe [uart_rules]:
  assumes "\<And>r. uart_safe i (uart_idle i) (k r)"
  shows "uart_safe i (uart_idle i) (airdap_target_uart_tx_acquire E i t n k)"
  unfolding airdap_target_uart_tx_acquire_def
  by (intro with_tx_safe assms locked_safe acquire_section tx_unlock_safe) auto

lemma open_safe [uart_rules]:
  assumes "\<And>r. uart_safe i (uart_idle i) (k r)"
  shows "uart_safe i (uart_idle i) (airdap_target_uart_session_open E t a p k)"
  unfolding airdap_target_uart_session_open_def
  by (intro uart_if quiet_atomic assms locked_safe open_section) auto

lemma session_status_safe [uart_rules]:
  assumes "\<And>r. uart_safe i (uart_idle i) (k r)"
  shows "uart_safe i (uart_idle i) (airdap_target_uart_session_get_status E t n p k)"
  unfolding airdap_target_uart_session_get_status_def
  by (intro uart_if quiet_atomic assms locked_safe status_section) auto

lemma read_safe [uart_rules]:
  assumes "\<And>r. uart_safe i (uart_idle i) (k r)"
  shows "uart_safe i (uart_idle i) (airdap_target_uart_session_read E t n p capacity q k)"
  unfolding airdap_target_uart_session_read_def
  by (intro uart_if quiet_atomic assms locked_safe read_section) auto

lemma resume_safe [uart_rules]:
  assumes "\<And>r. uart_safe i (uart_idle i) (k r)"
  shows "uart_safe i (uart_idle i) (airdap_target_uart_resume E k)"
  unfolding airdap_target_uart_resume_def
  by (intro uart_if quiet_atomic assms locked_safe resume_section) auto

lemma suspend_safe [uart_rules]:
  assumes "\<And>r. uart_safe i (uart_idle i) (k r)"
  shows "uart_safe i (uart_idle i) (airdap_target_uart_suspend E i k)"
  unfolding airdap_target_uart_suspend_def
  by (intro quiet_atomic uart_if tx_lock_timed_safe locked_safe suspend_section tx_unlock_safe assms)
    (auto simp: assms)

lemma publish_rx_safe [uart_rules]:
  assumes "uart_safe i (uart_idle i) k"
  shows "uart_safe i (uart_idle i) (airdap_target_uart_publish_rx E data k)"
  unfolding airdap_target_uart_publish_rx_def
  by (rule quiet_atomic) (auto intro!: locked_safe publish_section assms split: option.split)

lemma process_rx_safe [uart_rules]:
  assumes "\<And>r. uart_safe i (uart_idle i) (k r)"
  shows "uart_safe i (uart_idle i) (airdap_target_uart_process_rx_once E k)"
  unfolding airdap_target_uart_process_rx_once_def
  by (auto intro!: quiet_atomic uart_rules assms)

lemma write_driver_safe:
  assumes "\<And>r. uart_safe i (uart_idle i) (k r)"
  shows "uart_safe i (owning i t n) (write_driver E t n data k)"
  unfolding write_driver_def
  by (rule section_atomic [OF transmit_section])
    (auto intro!: owning_holding tx_unlock_safe quiet_atomic assms)

lemma write_safe [uart_rules]:
  assumes "\<And>r. uart_safe i (uart_idle i) (k r)"
  shows "uart_safe i (uart_idle i) (airdap_target_uart_session_write E i t n data p k)"
proof -
  have driver: "uart_safe i (owning i t n) (write_driver E t n d k)" for d
    by (rule write_driver_safe [OF assms])
  have unlock: "uart_safe i (owning i t n) (tx_operation_unlock (k r))" for r
    by (intro owning_holding tx_unlock_safe assms)
  have network: "uart_safe i (owning i t n) (write_network E t n d k)" for d
    unfolding write_network_def by (auto intro!: quiet_atomic driver unlock)
  have "uart_safe i (holding i) (atomic (with_state E UART_INVALID_STATE (validate_tx_owner_locked t n)) (\<lambda>owner_result.
      if owner_result \<noteq> UART_OK then tx_operation_unlock (k (owner_result, 0))
      else if t = AIRDAP_TARGET_UART_TRANSPORT_NETWORK then write_network E t n d k else write_driver E t n d k))"
    if "valid_uart_transport t" "n \<noteq> 0" for d
    by (rule section_atomic [OF section_locked [OF validate_section [OF that]]])
      (use network driver tx_unlock_safe [OF assms] in auto)
  then show ?thesis
    unfolding airdap_target_uart_session_write_def
    by (auto intro!: with_tx_safe assms split: option.split)
qed


text \<open>Publishing a configuration.\<close>

lemma publish_begin_section: "section_ok i (holding i) publish_begin (\<lambda>_. publishing i (\<lambda>_. True))"
  by (rule section_okI)
    (auto simp: publish_begin_def count_uart_def wp_simps uart_inv_defs uart_step_defs holding_def
      publishing_def config_fields_def)

lemma publish_end_section: "section_ok i (publishing i (\<lambda>c. c = config)) (publish_end config) (\<lambda>_. holding i)"
  by (rule section_okI)
    (auto simp: publish_end_def count_uart_def wp_simps uart_inv_defs uart_step_defs holding_def
      publishing_def config_fields_def)

lemma store_sections:
  "section_ok i (publishing i (\<lambda>_. True)) (store_field dg_baud_rate_update b) (\<lambda>_. publishing i (\<lambda>(b', _). b' = b))"
  "section_ok i (publishing i (\<lambda>(b', _). b' = b)) (store_field dg_stop_bits_update st)
     (\<lambda>_. publishing i (\<lambda>(b', st', _). b' = b \<and> st' = st))"
  "section_ok i (publishing i (\<lambda>(b', st', _). b' = b \<and> st' = st)) (store_field dg_parity_update p)
     (\<lambda>_. publishing i (\<lambda>(b', st', p', _). b' = b \<and> st' = st \<and> p' = p))"
  "section_ok i (publishing i (\<lambda>(b', st', p', _). b' = b \<and> st' = st \<and> p' = p)) (store_field dg_data_bits_update d)
     (\<lambda>_. publishing i (\<lambda>c. c = (b, st, p, d)))"
  by (rule section_okI; auto simp: store_field_def wp_simps uart_inv_defs uart_step_defs publishing_def
      config_fields_def)+

lemma publish_configuration_safe:
  assumes "uart_safe i (holding i) k"
  shows "uart_safe i (holding i) (publish_configuration b st p d k)"
  unfolding publish_configuration_def
  by (intro section_atomic [OF publish_begin_section] section_atomic [OF store_sections(1)]
      section_atomic [OF store_sections(2)] section_atomic [OF store_sections(3)]
      section_atomic [OF store_sections(4)] section_atomic [OF publish_end_section] assms) auto

lemma configure_safe [uart_rules]:
  assumes "\<And>r. uart_safe i (uart_idle i) (k r)"
  shows "uart_safe i (uart_idle i) (airdap_target_uart_session_configure E i t n b st p d k)"
proof -
  have unlock: "uart_safe i (holding i) (tx_operation_unlock (k r))" for r
    by (intro tx_unlock_safe assms)
  have "uart_safe i (owning i t n) (configure_driver E (\<lambda>config. note_uart (Uart_configured t n config)) b st p d
      (\<lambda>error. tx_operation_unlock (k (f error))))" for f
  proof (cases "driver_config b st p d")
    case None
    then show ?thesis by (simp add: configure_driver_def owning_holding unlock)
  next
    case (Some config)
    show ?thesis
      unfolding configure_driver_def Some option.case
      by (rule section_atomic [OF transmit_section])
        (auto intro!: owning_holding publish_configuration_safe unlock)
  qed
  then have "uart_safe i (holding i) (atomic (with_state E UART_INVALID_STATE (validate_tx_owner_locked t n)) (\<lambda>owner_result.
         if owner_result \<noteq> UART_OK then tx_operation_unlock (k owner_result)
         else configure_driver E (\<lambda>config. note_uart (Uart_configured t n config))
           b st p d (\<lambda>error. tx_operation_unlock (k
             (if error = ESP_ERR_INVALID_ARG then UART_INVALID_ARGUMENT
              else if error = ESP_OK then UART_OK else UART_IO_ERROR)))))"
    if "valid_uart_transport t" "n \<noteq> 0"
    using unlock by (intro section_atomic [OF section_locked [OF validate_section [OF that]]]) auto
  then show ?thesis
    unfolding airdap_target_uart_session_configure_def by (intro with_tx_safe assms)
qed

text \<open>Reading the configuration without a mutex.\<close>

lemma even_of_nat_u32: "(of_nat n :: u32) AND 1 = 0 \<longleftrightarrow> even n"
  by (simp add: and_one_eq mod_2_eq_odd)

lemma begin_read_section:
  "section_ok i (uart_idle i) (reads (\<lambda>s. dg_sequence (tu_diagnostic s)))
     (\<lambda>before. if before AND 1 = 0 then reading i before (\<lambda>_. True) else uart_idle i)"
  by (rule section_okI) (auto simp: wp_simps quiet_step reading_def uart_inv_defs even_of_nat_u32)

lemma field_sections:
  "section_ok i (reading i before R) (reads (\<lambda>s. dg_baud_rate (tu_diagnostic s)))
     (\<lambda>v. reading i before (\<lambda>c. R c \<and> fst c = v))"
  "section_ok i (reading i before R) (reads (\<lambda>s. dg_stop_bits (tu_diagnostic s)))
     (\<lambda>v. reading i before (\<lambda>c. R c \<and> fst (snd c) = v))"
  "section_ok i (reading i before R) (reads (\<lambda>s. dg_parity (tu_diagnostic s)))
     (\<lambda>v. reading i before (\<lambda>c. R c \<and> fst (snd (snd c)) = v))"
  "section_ok i (reading i before R) (reads (\<lambda>s. dg_data_bits (tu_diagnostic s)))
     (\<lambda>v. reading i before (\<lambda>c. R c \<and> snd (snd (snd c)) = v))"
  by (rule section_okI; auto simp: wp_simps quiet_step reading_def config_fields_def)+

lemma end_read_section:
  assumes "\<And>c. R c \<Longrightarrow> c = config"
  shows "section_ok i (reading i before R) (end_read before config) (\<lambda>_. uart_idle i)"
proof (rule section_okI)
  fix s :: "'h target_uart" assume s: "uart_inv s" "reading i before R s"
  from s(2) obtain n where n: "before = of_nat n" "even n" "n \<le> publications (tu_trace s)" "uart_idle i s"
    "publications (tu_trace s) = n \<Longrightarrow> R (config_fields (tu_diagnostic s))"
    unfolding reading_def by blast
  let ?p = "publications (tu_trace s)"
  have sound: "uart_event_sound (Config_read config) (tu_trace s)" if "before = dg_sequence (tu_diagnostic s)"
  proof (simp, intro impI)
    assume bound: "?p < 4294967296"
    have "(of_nat n :: u32) = of_nat ?p"
      using that n(1) s(1) by (simp add: uart_inv_defs)
    then have "n = ?p"
      using bound n(3) by (simp add: word_of_nat_eq_iff take_bit_eq_mod)
    then show "config = last_published (tu_trace s)"
      using n(2,5) s(1) assms by (auto simp: uart_inv_defs)
  qed
  have "uart_inv s' \<and> uart_step i s s' \<and> uart_idle i s'"
    if "before = dg_sequence (tu_diagnostic s)" "s' = s\<lparr>tu_trace := Config_read config # tu_trace s\<rparr>" for s'
    using s(1) n(4) sound [OF that(1)] that(2)
    by (auto simp: uart_inv_defs uart_step_defs uart_idle_def simp del: uart_event_sound.simps)
  then show "wp (end_read before config) (\<lambda>_ s'. uart_inv s' \<and> uart_step i s s' \<and> uart_idle i s') s"
    using s(1) n(4) by (auto simp: end_read_def seqlock_again_def wp_simps quiet_step)
qed

lemma read_configuration_safe:
  assumes "\<And>c. uart_safe i (uart_idle i) (k c)"
  shows "uart_safe i (uart_idle i) (read_configuration fuel after k)"
proof (induction fuel arbitrary: after)
  case 0
  show ?case by (auto intro: uart_stuck)
next
  case (Suc fuel)
  show ?case
    unfolding read_configuration.simps
  proof (rule section_atomic [OF begin_read_section])
    fix before
    show "uart_safe i (if before AND 1 = 0 then reading i before (\<lambda>_. True) else uart_idle i)
      (if before AND 1 \<noteq> 0
       then (if seqlock_again before after then read_configuration fuel after k else k (0, 0, 0, 0))
       else
         atomic (reads (\<lambda>s. dg_baud_rate (tu_diagnostic s))) (\<lambda>baud_rate.
         atomic (reads (\<lambda>s. dg_stop_bits (tu_diagnostic s))) (\<lambda>stop_bits.
         atomic (reads (\<lambda>s. dg_parity (tu_diagnostic s))) (\<lambda>parity.
         atomic (reads (\<lambda>s. dg_data_bits (tu_diagnostic s))) (\<lambda>data_bits.
         atomic (end_read before (baud_rate, stop_bits, parity, data_bits)) (\<lambda>after.
           if seqlock_again before after then read_configuration fuel after k
           else k (baud_rate, stop_bits, parity, data_bits)))))))"
    proof (cases "before AND 1 = 0")
      case True
      show ?thesis
        using True Suc.IH assms
        by (simp, intro section_atomic [OF field_sections(1)] section_atomic [OF field_sections(2)]
            section_atomic [OF field_sections(3)] section_atomic [OF field_sections(4)]
            section_atomic [OF end_read_section]) auto
    next
      case False
      then show ?thesis
        using Suc.IH assms by simp
    qed
  qed auto
qed

lemma get_status_safe [uart_rules]:
  assumes "\<And>r. uart_safe i (uart_idle i) (k r)"
  shows "uart_safe i (uart_idle i) (airdap_target_uart_get_status E fuel x p k)"
  unfolding airdap_target_uart_get_status_def finish_status_def
  by (auto intro!: read_configuration_safe quiet_atomic uart_rules assms split: prod.split)


section \<open>The system\<close>

text \<open>After the initialization any task may call any function, with any arguments.\<close>

definition uart_starts :: "'h uart_env \<Rightarrow> nat \<Rightarrow> 'h target_uart \<Rightarrow> ('h, unit) uart_task set" where
  "uart_starts E i s =
     {t. t = airdap_target_uart_process_rx_once E (\<lambda>_. Done ()) \<or>
       (\<exists>data. t = airdap_target_uart_publish_rx E data (Done ())) \<or>
       (\<exists>fuel x p. t = airdap_target_uart_get_status E fuel x p (\<lambda>_. Done ())) \<or>
       (\<exists>tr a p. t = airdap_target_uart_session_open E tr a p (\<lambda>_. Done ())) \<or>
       (\<exists>tr n. t = airdap_target_uart_session_close E i tr n (\<lambda>_. Done ())) \<or>
       (\<exists>tr n p. t = airdap_target_uart_session_get_status E tr n p (\<lambda>_. Done ())) \<or>
       (\<exists>tr n. t = airdap_target_uart_tx_acquire E i tr n (\<lambda>_. Done ())) \<or>
       t = airdap_target_uart_suspend E i (\<lambda>_. Done ()) \<or>
       t = airdap_target_uart_resume E (\<lambda>_. Done ()) \<or>
       (\<exists>tr n b st p d. t = airdap_target_uart_session_configure E i tr n b st p d (\<lambda>_. Done ())) \<or>
       (\<exists>tr n p capacity q. t = airdap_target_uart_session_read E tr n p capacity q (\<lambda>_. Done ())) \<or>
       (\<exists>tr n data p. t = airdap_target_uart_session_write E i tr n data p (\<lambda>_. Done ()))}"

text \<open>The state before \<^verbatim>\<open>airdap_target_uart_init\<close>.\<close>

definition uart_boot :: "'h \<Rightarrow> 'h target_uart" where
  "uart_boot h = \<lparr>tu_initialization_started = False, tu_initialized = False, tu_suspended = False,
     tu_next_session = 1, tu_state_mutex = False, tu_tx_operation_mutex = False, tu_tx_holder = None,
     tu_slots = (\<lambda>_. no_slot), tu_tx_owner = no_tx_owner,
     tu_diagnostic = \<lparr>dg_sequence = 0, dg_baud_rate = 0, dg_data_bits = 0, dg_parity = 0,
       dg_stop_bits = 0, dg_rx_bytes = 0, dg_tx_bytes = 0, dg_read_failures = 0, dg_write_failures = 0\<rparr>,
     tu_worker = False, tu_world = h, tu_trace = []\<rparr>"

lemma uart_starts_safe: "t \<in> uart_starts E i s \<Longrightarrow> uart_safe i (uart_idle i) t"
  unfolding uart_starts_def by (auto intro!: uart_rules)

interpretation uart_system: rely_guarantee uart_inv uart_step uart_world uart_idle "uart_starts E"
  by unfold_locales (auto intro: uart_starts_safe quiet_inv world_quiet)

definition uart_quiet_start :: "'h target_uart \<Rightarrow> bool" where
  "uart_quiet_start s \<longleftrightarrow> uart_inv s \<and> tu_tx_holder s = None"

lemma configure_default_inv:
  assumes "uart_quiet_start s" "publications (tu_trace s) = 0"
  shows "wp (configure_default E) (\<lambda>_ s'. uart_quiet_start s') s"
  using assms
  by (auto simp: uart_quiet_start_def configure_default_def publish_begin_def publish_end_def count_uart_def
      store_field_def wp_simps uart_inv_defs config_fields_def split: option.split prod.split)

lemma init_establishes:
  "wp (airdap_target_uart_init E) (\<lambda>error s'. error = ESP_OK \<longrightarrow> uart_quiet_start s') (uart_boot h)"
proof -
  let ?ok = "\<lambda>error s'. error = ESP_OK \<longrightarrow> uart_quiet_start s'"
  have flags: "uart_quiet_start (s\<lparr>tu_initialized := b\<rparr>) = uart_quiet_start s"
    "uart_quiet_start (s\<lparr>tu_worker := b\<rparr>) = uart_quiet_start s"
    "uart_quiet_start (s\<lparr>tu_world := w\<rparr>) = uart_quiet_start s" for s :: "'a target_uart" and b w
    by (simp_all add: uart_quiet_start_def uart_inv_defs)
  have failed: "error \<noteq> ESP_OK \<Longrightarrow> wp (failed_initialization E d error) ?ok s" for error d s
    by (simp add: failed_initialization_def cleanup_failed_initialization_def wp_simps split_beta)
  have worker: "uart_quiet_start s \<Longrightarrow> wp (start_worker E) ?ok s" for s
    by (auto simp: start_worker_def wp_simps flags failed split_beta)
  have install: "wp (install_driver E) ?ok s" if "uart_quiet_start s" "publications (tu_trace s) = 0" for s
    unfolding install_driver_def wp_bind [of "configure_default E"]
    by (rule wp_mono [OF configure_default_inv [OF that]])
      (auto simp: wp_simps failed worker flags split_beta)
  have boot: "uart_quiet_start (uart_boot h)"
    by (auto simp: uart_quiet_start_def uart_boot_def uart_inv_defs config_fields_def)
  then have "uart_quiet_start ((uart_boot h)\<lparr>tu_initialization_started := a, tu_world := w,
      tu_state_mutex := b, tu_tx_operation_mutex := c, tu_tx_holder := None\<rparr>)" for a b c w
    by (auto simp: uart_quiet_start_def uart_inv_defs)
  then show ?thesis
    by (auto simp: airdap_target_uart_init_def wp_simps failed split_beta uart_boot_def intro!: install)
qed

lemma reachable_uart_inv:
  assumes "run_state (airdap_target_uart_init E) (uart_boot h) = (ESP_OK, s)"
    and "system_steps (uart_starts E) uart_world ((\<lambda>_. Done ()), s) (ts, t)"
  shows "uart_inv t"
proof -
  have "uart_quiet_start s" using wpD [OF init_establishes assms(1)] by simp
  then show ?thesis
    using uart_system.reachable_invariant [OF assms(2)] by (simp add: uart_quiet_start_def uart_idle_def)
qed

lemma reachable_uart_event:
  assumes "run_state (airdap_target_uart_init E) (uart_boot h) = (ESP_OK, s)"
    and "system_steps (uart_starts E) uart_world ((\<lambda>_. Done ()), s) (ts, t)"
    and "tu_trace t = later @ e # earlier"
  shows "uart_event_sound e earlier"
  using reachable_uart_inv [OF assms(1,2)] history_soundD [of uart_event_sound later e earlier]
  by (simp add: uart_inv_def assms(3))

section \<open>A platform\<close>

text \<open>A driver that accepts everything, on which the target sends three bytes at a time.\<close>

definition calm_uart :: "unit uart_env" where
  "calm_uart = \<lparr>ue_take_mutex = Pair True, ue_wait_expired = (\<lambda>_. False), ue_create_mutex = Pair True,
     ue_param_config = (\<lambda>c. Pair ESP_OK), ue_set_pin = Pair ESP_OK, ue_driver_install = Pair ESP_OK,
     ue_driver_delete = Pair ESP_OK, ue_create_task = Pair True, ue_read_bytes = (\<lambda>n. Pair (3, [1, 2, 3])),
     ue_write_bytes = (\<lambda>d. Pair (int (length d))), ue_get_tx_buffer_free_size = Pair (ESP_OK, 1),
     ue_get_buffered_data_len = Pair (ESP_OK, 0), ue_wait_tx_done = Pair ESP_OK\<rparr>"

definition uart_demo_tasks :: "(unit, unit) uart_task list" where
  "uart_demo_tasks = [airdap_target_uart_session_open calm_uart 1 True True (\<lambda>_. Done ()),
     airdap_target_uart_tx_acquire calm_uart 0 1 1 (\<lambda>_. Done ()),
     airdap_target_uart_process_rx_once calm_uart (\<lambda>_. Done ()),
     airdap_target_uart_session_write calm_uart 0 1 1 (Some [7, 8]) True (\<lambda>_. Done ()),
     airdap_target_uart_session_read calm_uart 1 1 True 2 True (\<lambda>_. Done ()),
     airdap_target_uart_session_configure calm_uart 0 1 1 9600 0 0 8 (\<lambda>_. Done ()),
     airdap_target_uart_get_status calm_uart 1 0 True (\<lambda>_. Done ())]"

definition uart_demo_start :: "unit target_uart" where
  "uart_demo_start = snd (run_state (airdap_target_uart_init calm_uart) (uart_boot ()))"

definition uart_demo :: "unit target_uart" where
  "uart_demo = the (run_all 20 uart_demo_tasks uart_demo_start)"

definition demo_line :: uart_config where
  "demo_line = \<lparr>uc_baud_rate = 9600, uc_data_bits = UART_DATA_8_BITS, uc_parity = UART_PARITY_DISABLE,
     uc_stop_bits = UART_STOP_BITS_1\<rparr>"

lemma upt_two: "[0..<2] = [0, 1]"
  by (simp add: upt_rec)

lemmas uart_action_defs = state_lock_def with_state_def tx_operation_lock_def tx_operation_unlock_def
  session_is_live_locked_def validate_live_session_locked_def validate_tx_owner_locked_def owns_tx_def
  publish_begin_def publish_end_def store_field_def count_uart_def note_uart_def ucall_def
  valid_uart_transport_def no_tx_owner_def driver_config_def map_data_bits_def map_stop_bits_def map_parity_def

lemmas uart_init_defs = airdap_target_uart_init_def install_driver_def configure_default_def start_worker_def

lemmas uart_function_defs = airdap_target_uart_session_open_def open_locked_def fresh_uart_session_def
  draw_uart_session_def airdap_target_uart_tx_acquire_def acquire_locked_def with_tx_def
  airdap_target_uart_process_rx_once_def airdap_target_uart_publish_rx_def publish_locked_def
  airdap_target_uart_session_write_def write_network_def write_driver_def
  airdap_target_uart_session_read_def read_locked_def airdap_target_uart_session_configure_def
  configure_driver_def publish_configuration_def airdap_target_uart_get_status_def finish_status_def
  end_read_def seqlock_again_def

lemma uart_demo_init:
  "run_state (airdap_target_uart_init calm_uart) (uart_boot ()) = (ESP_OK, uart_demo_start)"
proof -
  have "fst (run_state (airdap_target_uart_init calm_uart) (uart_boot ())) = ESP_OK"
    by (simp add: uart_init_defs uart_action_defs calm_uart_def uart_boot_def whenever_def)
  then show ?thesis by (simp add: uart_demo_start_def prod_eq_iff)
qed

lemma uart_demo_result:
  "\<exists>s. run_all 20 uart_demo_tasks uart_demo_start = Some s \<and>
     tu_trace s = [Config_read (9600, 0, 0, 8), Config_published (9600, 0, 0, 8), Config_publishing,
       Uart_configured 1 1 demo_line, Uart_read 1 1 2 [1, 2], Uart_written 1 1 [7], Uart_received [1, 2, 3],
       Tx_acquired 1 1, Uart_opened 1 1, Config_published (115200, 0, 0, 8), Config_publishing]"
  by (simp add: uart_demo_tasks_def uart_demo_start_def uart_init_defs uart_action_defs uart_function_defs
      calm_uart_def uart_boot_def whenever_def atomic_def run_task_numeral publish_slot_def read_slot_def
      no_slot_def wr_bytes_def rd_bytes_def add_dropped_bytes_def Let_def demo_line_def UINT32_MAX_def
      upt_two)

lemma uart_demo_run: "run_all 20 uart_demo_tasks uart_demo_start = Some uart_demo"
  using uart_demo_result by (auto simp: uart_demo_def)

lemma uart_demo_trace:
  "tu_trace uart_demo = [Config_read (9600, 0, 0, 8), Config_published (9600, 0, 0, 8), Config_publishing,
     Uart_configured 1 1 demo_line, Uart_read 1 1 2 [1, 2], Uart_written 1 1 [7], Uart_received [1, 2, 3],
     Tx_acquired 1 1, Uart_opened 1 1, Config_published (115200, 0, 0, 8), Config_publishing]"
  using uart_demo_result by (auto simp: uart_demo_def)

lemma uart_demo_steps:
  "system_steps (uart_starts calm_uart) uart_world ((\<lambda>_. Done ()), uart_demo_start) ((\<lambda>_. Done ()), uart_demo)"
  by (rule run_all_steps [OF _ uart_demo_run, of _ 0])
    (fastforce simp: uart_demo_tasks_def uart_starts_def)

section \<open>Properties\<close>

text \<open>C13. The UART driver is written to, and configured for a client, only on behalf of a session that
  is live at that moment and owns the transmitter, and never while the UART is suspended. This holds
  for any number of tasks and any interleaving of opening, closing, acquiring, suspending, resuming,
  configuring and writing, although the check and the driver call are separate steps.\<close>

theorem uart_transmit_exclusive:
  assumes "run_state (airdap_target_uart_init E) (uart_boot h) = (ESP_OK, s)"
    and "system_steps (uart_starts E) uart_world ((\<lambda>_. Done ()), s) (ts, t)"
    and "tu_trace t = later @ e # earlier" "e = Uart_written tr n data \<or> e = Uart_configured tr n config"
  shows "n \<noteq> 0 \<and> live_uart earlier tr = n \<and> tx_owner_in earlier = Some (tr, n) \<and> \<not> suspended_in earlier"
  using reachable_uart_event [OF assms(1-3)] assms(4) by (auto simp: may_transmit_def)

theorem uart_transmit_exclusive_witness:
  "live_uart (drop 6 (tu_trace uart_demo)) 1 = 1 \<and> tx_owner_in (drop 6 (tu_trace uart_demo)) = Some (1, 1)"
  using uart_transmit_exclusive [OF uart_demo_init uart_demo_steps, of "take 5 (tu_trace uart_demo)"
    "Uart_written 1 1 [7]" "drop 6 (tu_trace uart_demo)" 1 1 "[7]"]
  by (simp add: uart_demo_trace)

text \<open>C14. The ring buffers implement bounded queues: in every reachable state the buffer of a session
  holds the queue that the history gives, where received bytes are appended in order as far as
  512 bytes allow and a read takes from the front; a read returns the first bytes of this queue, and the
  counter of dropped bytes is the number that did not fit, up to \<open>2 ^ 32 - 1\<close>. No access leaves a
  buffer.\<close>

theorem uart_receive_refines:
  assumes "run_state (airdap_target_uart_init E) (uart_boot h) = (ESP_OK, s)"
    and "system_steps (uart_starts E) uart_world ((\<lambda>_. Done ()), s) (ts, t)"
  shows "slot_queue (tu_slots t tr) = fst (subscriber (tu_trace t) tr) \<and>
    unat (ss_rx_dropped_bytes (tu_slots t tr)) = min (snd (subscriber (tu_trace t) tr)) 4294967295 \<and>
    Uart_fault \<notin> set (tu_trace t) \<and>
    (\<forall>later tr n capacity data earlier. tu_trace t = later @ Uart_read tr n capacity data # earlier \<longrightarrow>
       live_uart earlier tr = n \<and> data = take capacity (fst (subscriber earlier tr)))"
proof -
  have inv: "uart_inv t" by (rule reachable_uart_inv [OF assms])
  then have "slot_implements (tu_slots t tr) (subscriber (tu_trace t) tr)"
    using sessions_okD(2) by (auto simp: uart_inv_def)
  moreover have "Uart_fault \<notin> set (tu_trace t)"
    using reachable_uart_event [OF assms, of _ Uart_fault] by (auto dest!: split_list)
  moreover have "live_uart earlier tr = n \<and> data = take capacity (fst (subscriber earlier tr))"
    if "tu_trace t = later @ Uart_read tr n capacity data # earlier" for later tr n capacity data earlier
    using reachable_uart_event [OF assms that] by simp
  ultimately show ?thesis by (simp add: slot_implements_def)
qed

theorem uart_receive_refines_witness:
  "slot_queue (tu_slots uart_demo 1) = [3] \<and> ss_rx_dropped_bytes (tu_slots uart_demo 1) = 0"
  using uart_receive_refines [OF uart_demo_init uart_demo_steps, of 1]
  by (simp add: uart_demo_trace unat_eq_0)



end
