(* ===== verification/Task_Calls.thy ===== *)
theory Task_Calls
  imports Interleaving
begin

text \<open>
  A task of one component called by a task of another: \<open>call get put k t\<close> runs \<open>t\<close> on the part of the
  state that \<open>get\<close> and \<open>put\<close> select, action by action, and continues with \<open>k\<close> and its result. What a
  caller knows of the rest of the state survives the call, whatever the callee does.
\<close>

primrec call ::
    "('t \<Rightarrow> 's) \<Rightarrow> ('s \<Rightarrow> 't \<Rightarrow> 't) \<Rightarrow> ('a \<Rightarrow> ('t, 'b) task) \<Rightarrow> ('s, 'a) task \<Rightarrow> ('t, 'b) task" where
  "call get put k (Done a) = k a"
| "call get put k (Act f) = Act (\<lambda>t. map_option (\<lambda>(u, s). (u, put s t))
     ((map_option (map_prod (call get put k) id) \<circ> f) (get t)))"

lemma call_Act:
  "call get put k (Act f) =
     Act (\<lambda>t. case f (get t) of None \<Rightarrow> None | Some (u, s) \<Rightarrow> Some (call get put k u, put s t))"
  by (simp add: fun_eq_iff split: option.split)

declare call.simps(2) [simp del]

lemma call_atomic:
  "call get put k (atomic m Done) = Act (\<lambda>t. case run_state m (get t) of (a, s) \<Rightarrow> Some (k a, put s t))"
  by (simp add: atomic_def call_Act fun_eq_iff split: prod.split)

lemma safe_call:
  assumes "\<And>a. safe I G env idle i P (k a)"
    and "\<And>s h. I s \<Longrightarrow> P s \<Longrightarrow> I (put h s) \<and> G i s (put h s) \<and> P (put h s)"
  shows "safe I G env idle i P (call get put k t)"
proof (induction t)
  case (Done a)
  show ?case by (simp add: assms(1))
next
  case (Act f)
  have stable: "stable I G env i P" by (rule safe_stable [OF assms(1)])
  show ?case
    unfolding call_Act
  proof (rule safe.action [OF stable])
    fix s u s'
    assume s: "I s" "P s"
      and step: "(case f (get s) of None \<Rightarrow> None | Some (u, h) \<Rightarrow> Some (call get put k u, put h s)) = Some (u, s')"
    then obtain v h where v: "f (get s) = Some (v, h)" "u = call get put k v" "s' = put h s"
      by (auto split: option.splits)
    have "safe I G env idle i P (call get put k v)"
      by (rule Act.IH [of "Some (v, h)" "(v, h)"]) (auto simp: v(1) [symmetric])
    then show "I s' \<and> G i s s' \<and> (\<exists>Q. Q s' \<and> safe I G env idle i Q u)"
      using assms(2) [OF s, of h] v by blast
  qed
qed

end
