(* ===== verification/Network_Frames.thy ===== *)
theory Network_Frames
  imports Task_Calls Airdap_Frame Mode_State Network_Auth Dap_Service Ota_Manager Target_Uart
begin

text \<open>
  The framed TLS connections, first part of \<^verbatim>\<open>firmware/components/network_dap/network_dap.c\<close>: its data,
  and reading and writing frames.

  Connections are served by tasks of theory \<open>Interleaving\<close>; a connection is a slot of the array
  \<^verbatim>\<open>connections\<close>, and \<open>nd_task\<close> is the task that serves it. Critical sections of the registry mutex are
  single actions. The record \<open>net_env\<close> holds the functions of the other components and of the platform:
  each is a task on the state \<open>nd_world\<close> of everything outside, and the properties hold for all of
  them, so for the models of the other theories in particular. The frame and response buffers of a
  connection belong to its task and are passed along as values. \<open>nd_trace\<close> is a history for each
  connection, newest first: the code neither has nor reads it, and the properties are about it. The
  code does not have \<open>nd_task\<close> and \<open>nd_starter\<close> (the task that initialises the component) either;
  \<open>nd_spawned\<close> are the connections whose task was created and has not yet begun.

  A loop that may wait for ever has a fuel argument; a task without any left does not go on.
\<close>

section \<open>Data\<close>

abbreviation (input) AIRDAP_NETWORK_DAP_MAX_CONNECTIONS :: nat where
  "AIRDAP_NETWORK_DAP_MAX_CONNECTIONS \<equiv> 4"
abbreviation (input) LISTENER_POLL_MS :: int where "LISTENER_POLL_MS \<equiv> 100"
abbreviation (input) APPLICATION_IO_TIMEOUT_US :: int where "APPLICATION_IO_TIMEOUT_US \<equiv> 5000000"
abbreviation (input) RESPONSE_BUFFER_SIZE :: nat where "RESPONSE_BUFFER_SIZE \<equiv> 20 + 508"
abbreviation (input) REVOKE_QUEUE_DEPTH :: nat where "REVOKE_QUEUE_DEPTH \<equiv> 4"
abbreviation (input) INT64_MAX :: int where "INT64_MAX \<equiv> 0x7FFFFFFFFFFFFFFF"
abbreviation (input) INT_MAX :: int where "INT_MAX \<equiv> 0x7FFFFFFF"

datatype io_result = IO_OK | IO_CLOSED | IO_TIMEOUT | IO_FAILED

datatype frame_read_result =
    FRAME_READ_OK | FRAME_READ_CLOSED | FRAME_READ_TIMEOUT | FRAME_READ_DAP_PAYLOAD_TOO_LARGE
  | FRAME_READ_INVALID | FRAME_READ_FAILED

record dap_response_item =
  ri_token :: u32
  ri_response :: bytes

record network_connection =
  nc_allocated :: bool
  nc_registered :: bool
  nc_service_claimed :: bool
  nc_uart :: bool
  nc_socket_fd :: int
  nc_auth_connection :: "nat option"
  nc_response_queue :: "dap_response_item list option"
  nc_auth_session_id :: u32
  nc_dap_session :: u32
  nc_uart_session :: u32
  nc_pending_response_token :: u32
  nc_next_response_token :: u32

record airdap_network_dap_status =
  ns_listener_ready :: bool
  ns_allocated_connections :: nat
  ns_tls_connections :: nat
  ns_authenticated_connections :: nat
  ns_dap_sessions :: nat

text \<open>
  The fields of the device identity that a greeting carries. The firmware version is a C string:
  its bytes before the zero, or \<^const>\<open>None\<close> for NULL.
\<close>

record device_identity =
  di_uuid :: bytes
  di_capabilities :: u32
  di_device_id :: bytes
  di_firmware_version :: "bytes option"

text \<open>What happened on a connection.\<close>

datatype net_event =
    Net_started bool
  | Net_claimed
  | Net_released
  | Net_read bytes
  | Net_frame airdap_frame_header bytes
  | Net_accepted airdap_frame_header
  | Net_hello
  | Net_bound u32
  | Net_validated u32
  | Net_submitted u32 bytes
  | Net_answer u32 bytes
  | Net_board u8 bool
  | Net_uart u8
  | Net_ota u8
  | Net_sent airdap_frame_header bytes
  | Net_fault

record 'h network_dap =
  nd_registry_mutex :: bool
  nd_revoke_queue :: "u32 list option"
  nd_connections :: "nat \<Rightarrow> network_connection"
  nd_identity :: "device_identity option"
  nd_initialization_started :: bool
  nd_revoke_all :: bool
  nd_listener_ready :: bool
  nd_dap_claimed :: bool
  nd_uart_claimed :: bool
  nd_listener_socket :: int
  nd_uart_listener_socket :: int
  nd_spawned :: "nat set"
  nd_task :: "nat \<Rightarrow> nat option"
  nd_starter :: "nat option"
  nd_world :: 'h
  nd_trace :: "nat \<Rightarrow> net_event list"

text \<open>The outcome of \<^verbatim>\<open>poll\<close> on a socket: error flags, and the events asked for.\<close>

datatype net_poll = NPOLL_TIMEOUT | NPOLL_INTERRUPTED | NPOLL_FAILED | NPOLL_EVENTS bool bool

text \<open>
  A session of the update manager belongs to a client, the authenticated connection and its session.
\<close>

record 'h net_env =
  ne_want_read :: int
  ne_want_write :: int
  ne_get_time :: "('h, int) task"
  ne_poll :: "int \<Rightarrow> poll_event \<Rightarrow> int \<Rightarrow> ('h, net_poll) task"
  ne_poll_listeners :: "int \<Rightarrow> int \<Rightarrow> int \<Rightarrow> ('h, ((bool \<times> bool) \<times> (bool \<times> bool)) option) task"
  ne_accept :: "int \<Rightarrow> ('h, int option) task"
  ne_get_flags :: "int \<Rightarrow> ('h, bool option) task"
  ne_set_nonblocking :: "int \<Rightarrow> ('h, bool) task"
  ne_close :: "int \<Rightarrow> ('h, unit) task"
  ne_shutdown :: "int \<Rightarrow> 'h \<Rightarrow> 'h"
  ne_socket :: "('h, int) task"
  ne_reuse_address :: "int \<Rightarrow> ('h, bool) task"
  ne_bind_port :: "int \<Rightarrow> nat \<Rightarrow> ('h, bool) task"
  ne_listen :: "int \<Rightarrow> nat \<Rightarrow> ('h, bool) task"
  ne_create_queue :: "('h, bool) task"
  ne_create_mutex :: "('h, bool) task"
  ne_create_task :: "('h, bool) task"
  ne_take_mutex :: "'h \<Rightarrow> bool \<times> 'h"
  ne_wait_expired :: "'h \<Rightarrow> bool"
  ne_device_identity :: "('h, device_identity option) task"
  ne_network_data_enabled :: "('h, bool) task"
  ne_dap_admission :: "('h, airdap_mode_dap_result) task"
  ne_control_operation_begin :: "('h, airdap_mode_dap_result \<times> airdap_dap_ownership_operation) task"
  ne_operation_end :: "airdap_dap_ownership_operation \<Rightarrow> ('h, unit) task"
  ne_tls_accept :: "int \<Rightarrow> ('h, airdap_network_auth_result \<times> nat option) task"
  ne_tls_read :: "nat option \<Rightarrow> nat \<Rightarrow> ('h, int \<times> bytes) task"
  ne_tls_write :: "nat option \<Rightarrow> bytes \<Rightarrow> ('h, int) task"
  ne_session_bind :: "nat option \<Rightarrow> bytes option \<Rightarrow> nat \<Rightarrow>
     ('h, airdap_network_auth_result \<times> airdap_network_auth_session_info option) task"
  ne_session_validate :: "nat option \<Rightarrow> u32 \<Rightarrow> ('h, airdap_network_auth_result) task"
  ne_connection_close :: "nat \<Rightarrow> ('h, unit) task"
  ne_set_revoke_handler :: "('h, esp_err) task"
  ne_service_open :: "('h, airdap_dap_service_result \<times> u32) task"
  ne_service_close :: "u32 \<Rightarrow> ('h, airdap_dap_service_result) task"
  ne_service_submit :: "u32 \<Rightarrow> bytes \<Rightarrow> u32 \<Rightarrow> nat \<Rightarrow> ('h, airdap_dap_service_result) task"
  ne_uart_open :: "('h, airdap_target_uart_result \<times> u32) task"
  ne_uart_close :: "u32 \<Rightarrow> ('h, airdap_target_uart_result) task"
  ne_uart_session_status ::
     "u32 \<Rightarrow> ('h, airdap_target_uart_result \<times> airdap_target_uart_session_status option) task"
  ne_uart_status :: "('h, esp_err \<times> airdap_target_uart_status option) task"
  ne_uart_acquire :: "u32 \<Rightarrow> ('h, airdap_target_uart_result) task"
  ne_uart_configure :: "u32 \<Rightarrow> u32 \<Rightarrow> u8 \<Rightarrow> u8 \<Rightarrow> u8 \<Rightarrow> ('h, airdap_target_uart_result) task"
  ne_uart_write :: "u32 \<Rightarrow> bytes \<Rightarrow> ('h, airdap_target_uart_result \<times> nat) task"
  ne_uart_read :: "u32 \<Rightarrow> nat \<Rightarrow> ('h, airdap_target_uart_result \<times> bytes) task"
  ne_ota_get_info :: "('h, airdap_ota_status \<times> airdap_ota_info) task"
  ne_ota_begin :: "nat option \<Rightarrow> u32 \<Rightarrow> u32 \<Rightarrow> ('h, airdap_ota_status) task"
  ne_ota_write :: "nat option \<Rightarrow> u32 \<Rightarrow> u32 \<Rightarrow> bytes \<Rightarrow> ('h, airdap_ota_status \<times> u32) task"
  ne_ota_commit :: "nat option \<Rightarrow> u32 \<Rightarrow> ('h, airdap_ota_status) task"
  ne_ota_abort :: "nat option \<Rightarrow> u32 \<Rightarrow> ('h, airdap_ota_status) task"
  ne_ota_prepare_reboot :: "nat option \<Rightarrow> u32 \<Rightarrow> ('h, airdap_ota_status) task"
  ne_ota_reboot :: "nat option \<Rightarrow> u32 \<Rightarrow> ('h, airdap_ota_status) task"
  ne_ota_disconnect :: "nat option \<Rightarrow> u32 \<Rightarrow> ('h, airdap_ota_status) task"
  ne_reset_set :: "bool \<Rightarrow> ('h, esp_err) task"
  ne_power_set :: "bool \<Rightarrow> ('h, esp_err) task"
  ne_power_get :: "('h, esp_err \<times> bool) task"

type_synonym ('h, 'a) net_task = "('h network_dap, 'a) task"

section \<open>Actions\<close>

abbreviation (input) stuck :: "('s, 'a) task" where "stuck \<equiv> Act (\<lambda>_. None)"

text \<open>A call of another component or of the platform.\<close>

definition net_call :: "('h, 'r) task \<Rightarrow> ('r \<Rightarrow> ('h, 'a) net_task) \<Rightarrow> ('h, 'a) net_task" where
  "net_call t k = call nd_world (\<lambda>h s. s\<lparr>nd_world := h\<rparr>) k t"

definition net_note :: "nat \<Rightarrow> net_event \<Rightarrow> ('h network_dap, unit) state" where
  "net_note c e = updates (\<lambda>s. s\<lparr>nd_trace := (nd_trace s)(c := e # nd_trace s c)\<rparr>)"

definition noting :: "nat \<Rightarrow> net_event \<Rightarrow> ('h, 'a) net_task \<Rightarrow> ('h, 'a) net_task" where
  "noting c e k = atomic (net_note c e) (\<lambda>_. k)"

text \<open>An access outside a buffer.\<close>

definition net_fault :: "nat \<Rightarrow> ('h, 'a) net_task" where
  "net_fault c = noting c Net_fault stuck"

text \<open>The fields of a connection that its task reads.\<close>

definition with_conn ::
    "nat \<Rightarrow> (network_connection \<Rightarrow> ('h, 'a) net_task) \<Rightarrow> ('h, 'a) net_task" where
  "with_conn c f = atomic (reads (\<lambda>s. nd_connections s c)) f"

definition set_conn ::
    "nat \<Rightarrow> (network_connection \<Rightarrow> network_connection) \<Rightarrow> ('h network_dap, unit) state" where
  "set_conn c f = updates (\<lambda>s. s\<lparr>nd_connections := (nd_connections s)(c := f (nd_connections s c))\<rparr>)"

definition registry_lock :: "'h net_env \<Rightarrow> ('h network_dap, bool) state" where
  "registry_lock E = do {
     created \<leftarrow> reads nd_registry_mutex;
     if \<not> created then State_Monad.return False
     else State (\<lambda>s. case ne_take_mutex E (nd_world s) of (taken, h) \<Rightarrow> (taken, s\<lparr>nd_world := h\<rparr>)) }"

text \<open>A critical section of the registry mutex; \<open>failed\<close> is the result when it is not taken.\<close>

definition with_registry ::
    "'h net_env \<Rightarrow> 'r \<Rightarrow> ('h network_dap, 'r) state \<Rightarrow> ('h network_dap, 'r) state" where
  "with_registry E failed section = do {
     taken \<leftarrow> registry_lock E;
     if \<not> taken then State_Monad.return failed else section }"

section \<open>Sockets\<close>

definition make_nonblocking ::
    "'h net_env \<Rightarrow> int \<Rightarrow> (bool \<Rightarrow> ('h, 'a) net_task) \<Rightarrow> ('h, 'a) net_task" where
  "make_nonblocking E socket_fd k = net_call (ne_get_flags E socket_fd) (\<lambda>flags. case flags of
       None \<Rightarrow> k False
     | Some nonblocking \<Rightarrow> if nonblocking then k True else net_call (ne_set_nonblocking E socket_fd) k)"

definition poll_timeout_ms ::
    "'h net_env \<Rightarrow> int \<Rightarrow> (int \<Rightarrow> ('h, 'a) net_task) \<Rightarrow> ('h, 'a) net_task" where
  "poll_timeout_ms E deadline_us k =
     (if deadline_us = INT64_MAX then k LISTENER_POLL_MS
      else net_call (ne_get_time E) (\<lambda>now.
        let remaining_us = deadline_us - now in
        if remaining_us \<le> 0 then k 0
        else let rounded_ms = (remaining_us + 999) div 1000 in
          k (if rounded_ms > INT_MAX then INT_MAX else rounded_ms)))"

fun wait_for_socket ::
    "nat \<Rightarrow> 'h net_env \<Rightarrow> int \<Rightarrow> poll_event \<Rightarrow> int \<Rightarrow> (io_result \<Rightarrow> ('h, 'a) net_task) \<Rightarrow>
     ('h, 'a) net_task" where
  "wait_for_socket 0 E socket_fd events deadline_us k = stuck"
| "wait_for_socket (Suc fuel) E socket_fd events deadline_us k =
     poll_timeout_ms E deadline_us (\<lambda>timeout_ms.
       if deadline_us \<noteq> INT64_MAX \<and> timeout_ms = 0 then k IO_TIMEOUT
       else net_call (ne_poll E socket_fd events timeout_ms) (\<lambda>ready. case ready of
           NPOLL_TIMEOUT \<Rightarrow>
             if deadline_us = INT64_MAX then wait_for_socket fuel E socket_fd events deadline_us k
             else k IO_TIMEOUT
         | NPOLL_INTERRUPTED \<Rightarrow> wait_for_socket fuel E socket_fd events deadline_us k
         | NPOLL_FAILED \<Rightarrow> k IO_FAILED
         | NPOLL_EVENTS broken wanted \<Rightarrow>
             if broken then k IO_CLOSED
             else if wanted then k IO_OK
             else wait_for_socket fuel E socket_fd events deadline_us k))"

text \<open>
  \<open>got\<close> are the bytes read so far. A read that returns more bytes than it was given room for
  would overrun the buffer: the task does not go on.
\<close>

fun tls_read_exact ::
    "nat \<Rightarrow> 'h net_env \<Rightarrow> nat \<Rightarrow> nat option \<Rightarrow> int \<Rightarrow> nat \<Rightarrow> int \<Rightarrow> bytes \<Rightarrow>
     (io_result \<times> bytes \<Rightarrow> ('h, 'a) net_task) \<Rightarrow> ('h, 'a) net_task" where
  "tls_read_exact 0 E c auth socket_fd output_size deadline_us got k = stuck"
| "tls_read_exact (Suc fuel) E c auth socket_fd output_size deadline_us got k =
     (if length got \<ge> output_size then k (IO_OK, got)
      else net_call (ne_tls_read E auth (output_size - length got)) (\<lambda>(received, data).
        if received > 0
        then (if nat received \<noteq> length data \<or> length data > output_size - length got then stuck
              else noting c (Net_read data)
                (tls_read_exact fuel E c auth socket_fd output_size deadline_us (got @ data) k))
        else if received = 0 then k (IO_CLOSED, got)
        else if received \<noteq> ne_want_read E \<and> received \<noteq> ne_want_write E then k (IO_FAILED, got)
        else wait_for_socket fuel E socket_fd (if received = ne_want_read E then POLLIN else POLLOUT) deadline_us
          (\<lambda>wait_result. if wait_result \<noteq> IO_OK then k (wait_result, got)
             else tls_read_exact fuel E c auth socket_fd output_size deadline_us got k)))"

fun tls_write_all ::
    "nat \<Rightarrow> 'h net_env \<Rightarrow> nat option \<Rightarrow> int \<Rightarrow> int \<Rightarrow> bytes \<Rightarrow>
     (io_result \<Rightarrow> ('h, 'a) net_task) \<Rightarrow> ('h, 'a) net_task" where
  "tls_write_all 0 E auth socket_fd deadline_us input k = stuck"
| "tls_write_all (Suc fuel) E auth socket_fd deadline_us input k =
     (let write = net_call (ne_tls_write E auth input) (\<lambda>written.
        if written > 0
        then tls_write_all fuel E auth socket_fd deadline_us (drop (nat written) input) k
        else if written = 0 then k IO_CLOSED
        else if written \<noteq> ne_want_write E \<and> written \<noteq> ne_want_read E then k IO_FAILED
        else wait_for_socket fuel E socket_fd (if written = ne_want_write E then POLLOUT else POLLIN) deadline_us
          (\<lambda>wait_result. if wait_result \<noteq> IO_OK then k wait_result
             else tls_write_all fuel E auth socket_fd deadline_us input k))
      in if input = [] then k IO_OK
         else if deadline_us \<noteq> INT64_MAX
         then net_call (ne_get_time E) (\<lambda>now. if now \<ge> deadline_us then k IO_TIMEOUT else write)
         else write)"

section \<open>Frames\<close>

definition frame_result :: "io_result \<Rightarrow> frame_read_result" where
  "frame_result r = (if r = IO_CLOSED then FRAME_READ_CLOSED
     else if r = IO_TIMEOUT then FRAME_READ_TIMEOUT else FRAME_READ_FAILED)"

text \<open>
  What the header alone decides: the result, or the size of the payload to read. \<^const>\<open>None\<close> is an
  access outside the buffer.
\<close>

datatype header_verdict = Verdict frame_read_result airdap_frame_header | Payload nat

definition judge_too_large :: "bytes \<Rightarrow> header_verdict option" where
  "judge_too_large header = do {
     length_high \<leftarrow> rd header 16;
     length_low \<leftarrow> rd header 17;
     zeroed \<leftarrow> wr header 16 0;
     zeroed \<leftarrow> wr zeroed 17 0;
     (status, outs) \<leftarrow> airdap_frame_decode (Some zeroed) AIRDAP_FRAME_HEADER_SIZE True;
     out \<leftarrow> outs;
     Some (if status = FRAME_DECODE_OK \<and> fh_type (out_header out) = AIRDAP_FRAME_TYPE_DAP_REQUEST
       then Verdict FRAME_READ_DAP_PAYLOAD_TOO_LARGE
         ((out_header out)\<lparr>fh_payload_length := be16 length_high length_low\<rparr>)
       else Verdict FRAME_READ_INVALID (out_header out)) }"

definition judge_header :: "bytes \<Rightarrow> header_verdict option" where
  "judge_header header = do {
     (status, outs) \<leftarrow> airdap_frame_decode (Some header) AIRDAP_FRAME_HEADER_SIZE True;
     out \<leftarrow> outs;
     if status = FRAME_DECODE_INVALID_FRAME
     then (if out_error_code out = FRAME_ERROR_PAYLOAD_TOO_LARGE then judge_too_large header
           else Some (Verdict FRAME_READ_INVALID (out_header out)))
     else if status = FRAME_DECODE_OK then Some (Verdict FRAME_READ_OK (out_header out))
     else if out_error_code out \<noteq> FRAME_ERROR_TRUNCATED then Some (Verdict FRAME_READ_INVALID (out_header out))
     else do {
       length_high \<leftarrow> rd header 16;
       length_low \<leftarrow> rd header 17;
       let payload_length = unat (be16 length_high length_low) in
       Some (if payload_length = 0 \<or> payload_length > unat AIRDAP_FRAME_MAX_PAYLOAD_SIZE
         then Verdict FRAME_READ_INVALID (out_header out) else Payload payload_length) } }"

definition judge_frame :: "bytes \<Rightarrow> (frame_read_result \<times> airdap_frame_header) option" where
  "judge_frame frame = do {
     (status, outs) \<leftarrow> airdap_frame_decode (Some frame) (length frame) True;
     out \<leftarrow> outs;
     Some (if status = FRAME_DECODE_OK then FRAME_READ_OK else FRAME_READ_INVALID, out_header out) }"

definition read_payload ::
    "nat \<Rightarrow> 'h net_env \<Rightarrow> nat \<Rightarrow> network_connection \<Rightarrow> int \<Rightarrow> bytes \<Rightarrow> nat \<Rightarrow>
     (frame_read_result \<times> airdap_frame_header \<times> bytes \<Rightarrow> ('h, 'a) net_task) \<Rightarrow> ('h, 'a) net_task" where
  "read_payload fuel E c conn deadline_us header payload_length k =
     tls_read_exact fuel E c (nc_auth_connection conn) (nc_socket_fd conn) payload_length deadline_us []
       (\<lambda>(payload_result, payload).
         if payload_result \<noteq> IO_OK then k (frame_result payload_result, zero_header, [])
         else case judge_frame (header @ payload) of None \<Rightarrow> net_fault c
         | Some (result, request) \<Rightarrow> k (result, request, payload))"

definition read_frame ::
    "nat \<Rightarrow> 'h net_env \<Rightarrow> nat \<Rightarrow> int \<Rightarrow>
     (frame_read_result \<times> airdap_frame_header \<times> bytes \<Rightarrow> ('h, 'a) net_task) \<Rightarrow> ('h, 'a) net_task" where
  "read_frame fuel E c deadline_us k = with_conn c (\<lambda>conn.
     tls_read_exact fuel E c (nc_auth_connection conn) (nc_socket_fd conn) AIRDAP_FRAME_HEADER_SIZE deadline_us []
       (\<lambda>(header_result, header).
         if header_result \<noteq> IO_OK then k (frame_result header_result, zero_header, [])
         else case judge_header header of None \<Rightarrow> net_fault c
         | Some (Verdict result request) \<Rightarrow> k (result, request, [])
         | Some (Payload n) \<Rightarrow> read_payload fuel E c conn deadline_us header n k))"

text \<open>The bytes of a response; the first \<^const>\<open>None\<close> is an access outside a buffer.\<close>

definition response_header :: "airdap_frame_header \<Rightarrow> u8 \<Rightarrow> nat \<Rightarrow> airdap_frame_header" where
  "response_header request response_type payload_length =
     request\<lparr>fh_type := response_type, fh_payload_length := of_nat payload_length\<rparr>"

definition encode_response :: "airdap_frame_header \<Rightarrow> bytes option \<Rightarrow> bytes option option" where
  "encode_response response payload = do {
     (error, size, out) \<leftarrow> airdap_frame_encode (Some response) payload
       (Some (replicate RESPONSE_BUFFER_SIZE 0)) RESPONSE_BUFFER_SIZE True;
     if error \<noteq> FRAME_ERROR_NONE then Some None
     else do { size \<leftarrow> size; out \<leftarrow> out; Some (Some (take size out)) } }"

definition send_frame ::
    "nat \<Rightarrow> 'h net_env \<Rightarrow> nat \<Rightarrow> airdap_frame_header \<Rightarrow> u8 \<Rightarrow> bytes option \<Rightarrow>
     (bool \<Rightarrow> ('h, 'a) net_task) \<Rightarrow> ('h, 'a) net_task" where
  "send_frame fuel E c request response_type payload k =
     (let payload_length = (case payload of None \<Rightarrow> 0 | Some p \<Rightarrow> length p);
        response = response_header request response_type payload_length
      in if payload_length > 65535 then k False
      else case encode_response response payload of
        None \<Rightarrow> net_fault c
      | Some None \<Rightarrow> k False
      | Some (Some encoded) \<Rightarrow> with_conn c (\<lambda>conn.
          noting c (Net_sent response (case payload of None \<Rightarrow> [] | Some p \<Rightarrow> p))
            (net_call (ne_get_time E) (\<lambda>now.
              tls_write_all fuel E (nc_auth_connection conn) (nc_socket_fd conn)
                (now + APPLICATION_IO_TIMEOUT_US) encoded (\<lambda>result. k (result = IO_OK))))))"

definition send_error ::
    "nat \<Rightarrow> 'h net_env \<Rightarrow> nat \<Rightarrow> airdap_frame_header \<Rightarrow> airdap_frame_error_code \<Rightarrow>
     (bool \<Rightarrow> ('h, 'a) net_task) \<Rightarrow> ('h, 'a) net_task" where
  "send_error fuel E c request error_code k =
     (case airdap_frame_error_code_encode error_code (Some (replicate AIRDAP_FRAME_ERROR_CODE_SIZE 0))
         AIRDAP_FRAME_ERROR_CODE_SIZE of
        None \<Rightarrow> net_fault c
      | Some (encoded, payload) \<Rightarrow> if \<not> encoded then k False
          else send_frame fuel E c request AIRDAP_FRAME_TYPE_ERROR payload k)"

end
