(* ===== verification/Network_Dispatch.thy ===== *)
theory Network_Dispatch
  imports Network_Frames Dap_Ota
begin

text \<open>
  The three services behind a control request:
  \<^verbatim>\<open>firmware/components/network_control/network_control.c\<close> (reset and power of the target),
  \<^verbatim>\<open>network_ota/network_ota.c\<close> (updates) and \<^verbatim>\<open>network_uart/network_uart.c\<close> (the target UART). Each
  validates the authenticated session before it acts. The first argument \<open>c\<close> of a dispatcher is
  the connection its history is about; its results are the error code and the response, of the size
  the code stores in \<^verbatim>\<open>*response_size\<close>.
\<close>

section \<open>Validation\<close>

definition session_validate ::
    "'h net_env \<Rightarrow> nat \<Rightarrow> nat option \<Rightarrow> u32 \<Rightarrow> (airdap_network_auth_result \<Rightarrow> ('h, 'a) net_task) \<Rightarrow>
     ('h, 'a) net_task" where
  "session_validate E c auth session_id k = net_call (ne_session_validate E auth session_id) (\<lambda>result.
     if result = AUTH_OK then noting c (Net_validated session_id) (k result) else k result)"

definition net_validate ::
    "'h net_env \<Rightarrow> nat \<Rightarrow> nat option \<Rightarrow> u32 \<Rightarrow> (bool \<Rightarrow> ('h, 'a) net_task) \<Rightarrow> ('h, 'a) net_task" where
  "net_validate E c auth session_id k = session_validate E c auth session_id (\<lambda>result. k (result = AUTH_OK))"

text \<open>\<^verbatim>\<open>connection == NULL || session_id == 0U || validate(...) != OK\<close>, negated.\<close>

definition authorize ::
    "'h net_env \<Rightarrow> nat \<Rightarrow> nat option \<Rightarrow> u32 \<Rightarrow> (bool \<Rightarrow> ('h, 'a) net_task) \<Rightarrow> ('h, 'a) net_task" where
  "authorize E c auth session_id k =
     (if auth = None \<or> session_id = 0 then k False else net_validate E c auth session_id k)"

definition u32_be_bytes :: "u32 \<Rightarrow> bytes" where
  "u32_be_bytes v = [byte3 v, byte2 v, byte1 v, byte0 v]"

definition u16_be_bytes :: "nat \<Rightarrow> bytes" where
  "u16_be_bytes n = [byte1 (of_nat n :: u32), byte0 (of_nat n :: u32)]"

definition u32_be_at :: "bytes \<Rightarrow> nat \<Rightarrow> u32" where
  "u32_be_at b i = be32 (b ! i) (b ! (i + 1)) (b ! (i + 2)) (b ! (i + 3))"

section \<open>Reset and power\<close>

abbreviation (input) AIRDAP_CONTROL_RESET_SET :: u8 where "AIRDAP_CONTROL_RESET_SET \<equiv> 0x20"
abbreviation (input) AIRDAP_CONTROL_POWER_SET :: u8 where "AIRDAP_CONTROL_POWER_SET \<equiv> 0x21"
abbreviation (input) AIRDAP_CONTROL_POWER_GET :: u8 where "AIRDAP_CONTROL_POWER_GET \<equiv> 0x22"

definition control_required_size :: "u8 \<Rightarrow> nat option" where
  "control_required_size opcode =
     (if opcode = AIRDAP_CONTROL_RESET_SET \<or> opcode = AIRDAP_CONTROL_POWER_SET then Some 2
      else if opcode = AIRDAP_CONTROL_POWER_GET then Some 1 else None)"

definition control_operate ::
    "'h net_env \<Rightarrow> nat \<Rightarrow> u8 \<Rightarrow> bool \<Rightarrow> (esp_err \<times> bool \<Rightarrow> ('h, 'a) net_task) \<Rightarrow> ('h, 'a) net_task" where
  "control_operate E c opcode v k = noting c (Net_board opcode v)
     (if opcode = AIRDAP_CONTROL_RESET_SET then net_call (ne_reset_set E v) (\<lambda>error. k (error, v))
      else if opcode = AIRDAP_CONTROL_POWER_SET then net_call (ne_power_set E v) (\<lambda>error. k (error, v))
      else net_call (ne_power_get E) k)"

text \<open>With the debug port reserved: power permission only changes while nobody drives the pins.\<close>

definition control_reserved ::
    "'h net_env \<Rightarrow> nat \<Rightarrow> nat option \<Rightarrow> u32 \<Rightarrow> u8 \<Rightarrow> bool \<Rightarrow> airdap_dap_ownership_operation \<Rightarrow>
     (airdap_frame_error_code \<times> bytes \<Rightarrow> ('h, 'a) net_task) \<Rightarrow> ('h, 'a) net_task" where
  "control_reserved E c auth session_id opcode v operation k =
     (let finish = (\<lambda>r. net_call (ne_operation_end E operation) (\<lambda>_. k r)) in
      if opcode = AIRDAP_CONTROL_POWER_SET \<and> op_owner operation \<noteq> AIRDAP_DAP_OWNER_NONE
      then finish (FRAME_ERROR_BUSY, [])
      else net_validate E c auth session_id (\<lambda>valid.
        if \<not> valid then finish (FRAME_ERROR_UNAUTHENTICATED, [])
        else control_operate E c opcode v (\<lambda>(error, v).
          finish (if error = ESP_OK then (FRAME_ERROR_NONE, [opcode, if v then 1 else 0])
                  else (FRAME_ERROR_INTERNAL, [])))))"

definition airdap_network_control_dispatch ::
    "'h net_env \<Rightarrow> nat \<Rightarrow> nat option \<Rightarrow> u32 \<Rightarrow> bytes option \<Rightarrow> nat \<Rightarrow> bool \<Rightarrow> bool \<Rightarrow>
     (airdap_frame_error_code \<times> bytes \<Rightarrow> ('h, 'a) net_task) \<Rightarrow> ('h, 'a) net_task" where
  "airdap_network_control_dispatch E c auth session_id payload payload_length response response_size k =
     (if \<not> response_size \<or> \<not> response then k (FRAME_ERROR_INTERNAL, [])
      else authorize E c auth session_id (\<lambda>valid.
        if \<not> valid then k (FRAME_ERROR_UNAUTHENTICATED, [])
        else if payload_length = 0 then k (FRAME_ERROR_TRUNCATED, [])
        else case payload of None \<Rightarrow> k (FRAME_ERROR_INVALID_ARGUMENT, [])
        | Some data \<Rightarrow> (case control_required_size (data ! 0) of
            None \<Rightarrow> k (FRAME_ERROR_UNSUPPORTED_TYPE, [])
          | Some required_size \<Rightarrow>
              if payload_length < required_size then k (FRAME_ERROR_TRUNCATED, [])
              else if payload_length \<noteq> required_size \<or> (required_size = 2 \<and> data ! 1 > 1)
              then k (FRAME_ERROR_INVALID_ARGUMENT, [])
              else net_call (ne_control_operation_begin E) (\<lambda>(admission, operation).
                if admission \<noteq> DAP_ALLOWED
                then k (if admission = DAP_BUSY \<or> admission = DAP_OFFLINE then FRAME_ERROR_BUSY
                        else FRAME_ERROR_INTERNAL, [])
                else control_reserved E c auth session_id (data ! 0) (required_size = 2 \<and> data ! 1 \<noteq> 0)
                  operation k))))"

section \<open>Updates\<close>

abbreviation (input) AIRDAP_CONTROL_OTA_QUERY :: u8 where "AIRDAP_CONTROL_OTA_QUERY \<equiv> 0x30"
abbreviation (input) AIRDAP_CONTROL_OTA_BEGIN :: u8 where "AIRDAP_CONTROL_OTA_BEGIN \<equiv> 0x31"
abbreviation (input) AIRDAP_CONTROL_OTA_WRITE :: u8 where "AIRDAP_CONTROL_OTA_WRITE \<equiv> 0x32"
abbreviation (input) AIRDAP_CONTROL_OTA_COMMIT :: u8 where "AIRDAP_CONTROL_OTA_COMMIT \<equiv> 0x33"
abbreviation (input) AIRDAP_CONTROL_OTA_ABORT :: u8 where "AIRDAP_CONTROL_OTA_ABORT \<equiv> 0x34"
abbreviation (input) AIRDAP_CONTROL_OTA_REBOOT :: u8 where "AIRDAP_CONTROL_OTA_REBOOT \<equiv> 0x35"
abbreviation (input) AIRDAP_NETWORK_OTA_MAX_RESPONSE :: nat where "AIRDAP_NETWORK_OTA_MAX_RESPONSE \<equiv> 49"
abbreviation (input) AIRDAP_NETWORK_OTA_MAX_DATA :: nat where "AIRDAP_NETWORK_OTA_MAX_DATA \<equiv> 4091"

definition ota_reply :: "u8 \<Rightarrow> airdap_ota_status \<Rightarrow> bytes \<Rightarrow> airdap_frame_error_code \<times> bytes" where
  "ota_reply opcode status body =
     (if status = OTA_STATUS_UNAUTHENTICATED then (FRAME_ERROR_UNAUTHENTICATED, [])
      else if status = OTA_STATUS_BUSY then (FRAME_ERROR_BUSY, [])
      else (FRAME_ERROR_NONE,
        opcode # ota_status_code status # (if status = OTA_STATUS_OK then body else [])))"

text \<open>
  A version without its terminating zero, or too long for the response, would leave a buffer: the
  task does not go on.
\<close>

definition ota_query_body :: "airdap_ota_info \<Rightarrow> nat \<Rightarrow> bytes option" where
  "ota_query_body info response_capacity =
     (let version = takeWhile (\<lambda>b. b \<noteq> 0) (info_running_version info) in
      if 0 \<notin> set (info_running_version info) \<or> 17 + length version > response_capacity then None
      else Some (info_protocol_version info # info_flags info # u32_be_bytes (info_max_image_size info) @
        u32_be_bytes (info_running_address info) @ u32_be_bytes (info_update_address info) @
        [if info_running_valid info then 1 else 0] @ version))"

definition ota_perform ::
    "'h net_env \<Rightarrow> nat \<Rightarrow> nat option \<Rightarrow> u32 \<Rightarrow> bytes \<Rightarrow> nat \<Rightarrow>
     (airdap_frame_error_code \<times> bytes \<Rightarrow> ('h, 'a) net_task) \<Rightarrow> ('h, 'a) net_task" where
  "ota_perform E c auth session_id request response_capacity k =
     (let opcode = request ! 0 in noting c (Net_ota opcode)
       (if opcode = AIRDAP_CONTROL_OTA_QUERY
        then net_call (ne_ota_get_info E) (\<lambda>(status, info).
          if status \<noteq> OTA_STATUS_OK then k (ota_reply opcode status [])
          else case ota_query_body info response_capacity of None \<Rightarrow> stuck
          | Some body \<Rightarrow> k (ota_reply opcode status body))
        else if opcode = AIRDAP_CONTROL_OTA_BEGIN
        then net_call (ne_ota_begin E auth session_id (u32_be_at request 1)) (\<lambda>status. k (ota_reply opcode status []))
        else if opcode = AIRDAP_CONTROL_OTA_WRITE
        then net_call (ne_ota_write E auth session_id (u32_be_at request 1) (drop 5 request))
          (\<lambda>(status, next_offset). k (ota_reply opcode status (u32_be_bytes next_offset)))
        else if opcode = AIRDAP_CONTROL_OTA_COMMIT
        then net_call (ne_ota_commit E auth session_id) (\<lambda>status. k (ota_reply opcode status []))
        else if opcode = AIRDAP_CONTROL_OTA_ABORT
        then net_call (ne_ota_abort E auth session_id) (\<lambda>status. k (ota_reply opcode status []))
        else net_call (ne_ota_prepare_reboot E auth session_id) (\<lambda>status. k (ota_reply opcode status []))))"

definition ota_minimum :: "u8 \<Rightarrow> nat" where
  "ota_minimum opcode = (if opcode = AIRDAP_CONTROL_OTA_WRITE then 6
     else if opcode = AIRDAP_CONTROL_OTA_BEGIN then 5 else 1)"

text \<open>\<open>request\<close> holds the \<^verbatim>\<open>request_size\<close> bytes, or is NULL.\<close>

definition airdap_network_ota_dispatch ::
    "'h net_env \<Rightarrow> nat \<Rightarrow> nat option \<Rightarrow> u32 \<Rightarrow> bytes option \<Rightarrow> nat \<Rightarrow> bool \<Rightarrow> nat \<Rightarrow> bool \<Rightarrow>
     (airdap_frame_error_code \<times> bytes \<Rightarrow> ('h, 'a) net_task) \<Rightarrow> ('h, 'a) net_task" where
  "airdap_network_ota_dispatch E c auth session_id request request_size response response_capacity response_size k =
     (if \<not> response_size then k (FRAME_ERROR_INTERNAL, [])
      else authorize E c auth session_id (\<lambda>valid.
        if \<not> valid then k (FRAME_ERROR_UNAUTHENTICATED, [])
        else if \<not> response \<or> response_capacity < AIRDAP_NETWORK_OTA_MAX_RESPONSE
        then k (FRAME_ERROR_INTERNAL, [])
        else if request_size = 0 then k (FRAME_ERROR_TRUNCATED, [])
        else case request of None \<Rightarrow> k (FRAME_ERROR_INVALID_ARGUMENT, [])
        | Some data \<Rightarrow>
            let opcode = data ! 0 in
            if opcode < AIRDAP_CONTROL_OTA_QUERY \<or> opcode > AIRDAP_CONTROL_OTA_REBOOT
            then k (FRAME_ERROR_UNSUPPORTED_TYPE, [])
            else if request_size < ota_minimum opcode then k (FRAME_ERROR_TRUNCATED, [])
            else if (opcode \<noteq> AIRDAP_CONTROL_OTA_WRITE \<and> request_size \<noteq> ota_minimum opcode) \<or>
               request_size > 5 + AIRDAP_NETWORK_OTA_MAX_DATA
            then k (FRAME_ERROR_INVALID_ARGUMENT, [])
            else ota_perform E c auth session_id data response_capacity k))"

definition airdap_network_ota_disconnect ::
    "'h net_env \<Rightarrow> nat option \<Rightarrow> u32 \<Rightarrow> ('h, 'a) net_task \<Rightarrow> ('h, 'a) net_task" where
  "airdap_network_ota_disconnect E auth session_id k =
     (if auth = None \<or> session_id = 0 then k
      else net_call (ne_ota_disconnect E auth session_id) (\<lambda>_. k))"

definition airdap_network_ota_reboot ::
    "'h net_env \<Rightarrow> nat option \<Rightarrow> u32 \<Rightarrow> ('h, 'a) net_task \<Rightarrow> ('h, 'a) net_task" where
  "airdap_network_ota_reboot E auth session_id k = net_call (ne_ota_reboot E auth session_id) (\<lambda>_. k)"

section \<open>The target UART\<close>

abbreviation (input) AIRDAP_NETWORK_UART_STATUS :: u8 where "AIRDAP_NETWORK_UART_STATUS \<equiv> 0x10"
abbreviation (input) AIRDAP_NETWORK_UART_ACQUIRE_TX :: u8 where "AIRDAP_NETWORK_UART_ACQUIRE_TX \<equiv> 0x11"
abbreviation (input) AIRDAP_NETWORK_UART_CONFIGURE :: u8 where "AIRDAP_NETWORK_UART_CONFIGURE \<equiv> 0x12"
abbreviation (input) AIRDAP_NETWORK_UART_WRITE :: u8 where "AIRDAP_NETWORK_UART_WRITE \<equiv> 0x13"
abbreviation (input) AIRDAP_NETWORK_UART_READ :: u8 where "AIRDAP_NETWORK_UART_READ \<equiv> 0x14"
abbreviation (input) AIRDAP_NETWORK_UART_MAX_DATA :: nat where "AIRDAP_NETWORK_UART_MAX_DATA \<equiv> 256"
abbreviation (input) AIRDAP_NETWORK_UART_MAX_RESPONSE :: nat where "AIRDAP_NETWORK_UART_MAX_RESPONSE \<equiv> 261"

fun airdap_network_uart_error_code :: "airdap_target_uart_result \<Rightarrow> airdap_frame_error_code" where
  "airdap_network_uart_error_code UART_OK = FRAME_ERROR_NONE"
| "airdap_network_uart_error_code UART_ALREADY_OWNER = FRAME_ERROR_NONE"
| "airdap_network_uart_error_code UART_BUSY = FRAME_ERROR_BUSY"
| "airdap_network_uart_error_code UART_NOT_OWNER = FRAME_ERROR_BUSY"
| "airdap_network_uart_error_code UART_INVALID_ARGUMENT = FRAME_ERROR_INVALID_ARGUMENT"
| "airdap_network_uart_error_code UART_UNAUTHENTICATED = FRAME_ERROR_UNAUTHENTICATED"
| "airdap_network_uart_error_code UART_STALE_SESSION = FRAME_ERROR_UNAUTHENTICATED"
| "airdap_network_uart_error_code _ = FRAME_ERROR_INTERNAL"

definition uart_reply :: "airdap_target_uart_result \<Rightarrow> bytes \<Rightarrow> airdap_frame_error_code \<times> bytes" where
  "uart_reply result response =
     (let error = airdap_network_uart_error_code result in
      (error, if error = FRAME_ERROR_NONE then response else []))"

text \<open>The status of a call that succeeds is filled in.\<close>

definition uart_status_request ::
    "'h net_env \<Rightarrow> u32 \<Rightarrow> u8 \<Rightarrow> (airdap_frame_error_code \<times> bytes \<Rightarrow> ('h, 'a) net_task) \<Rightarrow> ('h, 'a) net_task" where
  "uart_status_request E uart_session opcode k =
     net_call (ne_uart_session_status E uart_session) (\<lambda>(result, session_status).
       if result \<noteq> UART_OK then k (uart_reply result [opcode])
       else net_call (ne_uart_status E) (\<lambda>(error, status).
         if error \<noteq> ESP_OK then k (FRAME_ERROR_INTERNAL, [])
         else case (session_status, status) of
           (Some session_status, Some status) \<Rightarrow>
             k (uart_reply result ([opcode] @ u32_be_bytes (us_baud_rate status) @
               [us_stop_bits status, us_parity status, us_data_bits status,
                if su_tx_owner session_status then 1 else 0] @
               u16_be_bytes (su_rx_buffered_bytes session_status) @
               u32_be_bytes (su_rx_dropped_bytes session_status)))
         | _ \<Rightarrow> stuck))"

text \<open>A read that returns more bytes than the capacity would overrun the response.\<close>

definition uart_read_request ::
    "'h net_env \<Rightarrow> nat \<Rightarrow> u32 \<Rightarrow> u8 \<Rightarrow> nat \<Rightarrow> (airdap_frame_error_code \<times> bytes \<Rightarrow> ('h, 'a) net_task) \<Rightarrow>
     ('h, 'a) net_task" where
  "uart_read_request E c uart_session opcode capacity k =
     net_call (ne_uart_read E uart_session capacity) (\<lambda>(result, data).
       if length data > capacity then stuck
       else if result \<noteq> UART_OK then k (uart_reply result [opcode])
       else net_call (ne_uart_session_status E uart_session) (\<lambda>(result, status).
         if result \<noteq> UART_OK then k (uart_reply result [opcode])
         else case status of
           Some status \<Rightarrow> k (uart_reply result ([opcode] @ u32_be_bytes (su_rx_dropped_bytes status) @ data))
         | None \<Rightarrow> stuck))"

definition uart_perform ::
    "'h net_env \<Rightarrow> nat \<Rightarrow> u32 \<Rightarrow> bytes \<Rightarrow> nat \<Rightarrow>
     (airdap_frame_error_code \<times> bytes \<Rightarrow> ('h, 'a) net_task) \<Rightarrow> ('h, 'a) net_task" where
  "uart_perform E c uart_session request request_size k =
     (let opcode = request ! 0; invalid = k (FRAME_ERROR_INVALID_ARGUMENT, []) in
      if opcode = AIRDAP_NETWORK_UART_STATUS
      then (if request_size \<noteq> 1 then invalid
            else noting c (Net_uart opcode) (uart_status_request E uart_session opcode k))
      else if opcode = AIRDAP_NETWORK_UART_ACQUIRE_TX
      then (if request_size \<noteq> 1 then invalid
            else noting c (Net_uart opcode) (net_call (ne_uart_acquire E uart_session)
              (\<lambda>result. k (uart_reply result [opcode]))))
      else if opcode = AIRDAP_NETWORK_UART_CONFIGURE
      then (if request_size \<noteq> 8 then invalid
            else noting c (Net_uart opcode) (net_call (ne_uart_configure E uart_session (u32_be_at request 1)
              (request ! 5) (request ! 6) (request ! 7)) (\<lambda>result. k (uart_reply result [opcode]))))
      else if opcode = AIRDAP_NETWORK_UART_WRITE
      then (if request_size < 2 \<or> request_size > 1 + AIRDAP_NETWORK_UART_MAX_DATA then invalid
            else noting c (Net_uart opcode) (net_call (ne_uart_write E uart_session (take (request_size - 1) (drop 1 request)))
              (\<lambda>(result, count). k (uart_reply result ([opcode] @ u16_be_bytes count)))))
      else if opcode = AIRDAP_NETWORK_UART_READ
      then (if request_size \<noteq> 3 then invalid
            else let capacity = unat (be16 (request ! 1) (request ! 2)) in
              if capacity = 0 \<or> capacity > AIRDAP_NETWORK_UART_MAX_DATA then invalid
              else noting c (Net_uart opcode) (uart_read_request E c uart_session opcode capacity k))
      else k (FRAME_ERROR_UNSUPPORTED_TYPE, []))"

definition airdap_network_uart_dispatch ::
    "'h net_env \<Rightarrow> nat \<Rightarrow> nat option \<Rightarrow> u32 \<Rightarrow> u32 \<Rightarrow> bytes option \<Rightarrow> nat \<Rightarrow> bool \<Rightarrow> nat \<Rightarrow> bool \<Rightarrow>
     (airdap_frame_error_code \<times> bytes \<Rightarrow> ('h, 'a) net_task) \<Rightarrow> ('h, 'a) net_task" where
  "airdap_network_uart_dispatch E c auth auth_session uart_session request request_size response
       response_capacity response_size k =
     (if \<not> response_size then k (FRAME_ERROR_INTERNAL, [])
      else if uart_session = 0 then k (FRAME_ERROR_UNAUTHENTICATED, [])
      else authorize E c auth auth_session (\<lambda>valid.
        if \<not> valid then k (FRAME_ERROR_UNAUTHENTICATED, [])
        else if \<not> response \<or> response_capacity < AIRDAP_NETWORK_UART_MAX_RESPONSE
        then k (FRAME_ERROR_INTERNAL, [])
        else case request of None \<Rightarrow> k (FRAME_ERROR_INVALID_ARGUMENT, [])
        | Some data \<Rightarrow> if request_size = 0 then k (FRAME_ERROR_INVALID_ARGUMENT, [])
            else uart_perform E c uart_session data request_size k))"

end
