(* ===== verification/Network_Dap.thy ===== *)
theory Network_Dap
  imports Network_Dispatch
begin

text \<open>
  The framed TLS connections, second part of \<^verbatim>\<open>firmware/components/network_dap/network_dap.c\<close>: the
  registry of connections, sessions and their revocation, requests, and the tasks. \<open>i\<close> is the task
  that runs a function, where the function takes or hands over a connection.
\<close>

section \<open>Status\<close>

definition count_connections :: "(network_connection \<Rightarrow> bool) \<Rightarrow> (nat \<Rightarrow> network_connection) \<Rightarrow> nat" where
  "count_connections P connections =
     length (filter (\<lambda>c. nc_allocated (connections c) \<and> \<not> nc_uart (connections c) \<and> P (connections c))
       [0..<AIRDAP_NETWORK_DAP_MAX_CONNECTIONS])"

definition connection_status :: "(nat \<Rightarrow> network_connection) \<Rightarrow> airdap_network_dap_status" where
  "connection_status connections = \<lparr>ns_listener_ready = True,
     ns_allocated_connections = count_connections (\<lambda>_. True) connections,
     ns_tls_connections = count_connections (\<lambda>conn. nc_auth_connection conn \<noteq> None) connections,
     ns_authenticated_connections = count_connections (\<lambda>conn. nc_auth_session_id conn \<noteq> 0) connections,
     ns_dap_sessions = count_connections (\<lambda>conn. nc_dap_session conn \<noteq> 0) connections\<rparr>"

definition zero_status :: airdap_network_dap_status where
  "zero_status = \<lparr>ns_listener_ready = False, ns_allocated_connections = 0, ns_tls_connections = 0,
     ns_authenticated_connections = 0, ns_dap_sessions = 0\<rparr>"

text \<open>\<open>status\<close> says whether the caller's pointer is non-NULL; the second result is what it holds then.\<close>

definition airdap_network_dap_get_status ::
    "'h net_env \<Rightarrow> bool \<Rightarrow> (esp_err \<times> airdap_network_dap_status \<Rightarrow> ('h, 'a) net_task) \<Rightarrow> ('h, 'a) net_task" where
  "airdap_network_dap_get_status E status k =
     (if \<not> status then k (ESP_ERR_INVALID_ARG, zero_status)
      else atomic (reads nd_listener_ready) (\<lambda>ready.
        if \<not> ready then k (ESP_OK, zero_status)
        else atomic (with_registry E (ESP_FAIL, zero_status)
          (reads (\<lambda>s. (ESP_OK, connection_status (nd_connections s))))) k))"

section \<open>The registry\<close>

definition fresh_connection :: "int \<Rightarrow> bool \<Rightarrow> network_connection" where
  "fresh_connection socket_fd uart = \<lparr>nc_allocated = True, nc_registered = True,
     nc_service_claimed = False, nc_uart = uart, nc_socket_fd = socket_fd, nc_auth_connection = None,
     nc_response_queue = (if uart then None else Some []), nc_auth_session_id = 0, nc_dap_session = 0,
     nc_uart_session = 0, nc_pending_response_token = 0, nc_next_response_token = 1\<rparr>"

definition free_connection :: "'h network_dap \<Rightarrow> nat option" where
  "free_connection s =
     find (\<lambda>c. \<not> nc_allocated (nd_connections s c)) [0..<AIRDAP_NETWORK_DAP_MAX_CONNECTIONS]"

definition register_connection :: "nat \<Rightarrow> int \<Rightarrow> bool \<Rightarrow> ('h network_dap, nat option) state" where
  "register_connection i socket_fd uart = do {
     selected \<leftarrow> reads free_connection;
     case selected of
       None \<Rightarrow> State_Monad.return None
     | Some c \<Rightarrow> do {
         set_conn c (\<lambda>_. fresh_connection socket_fd uart);
         updates (\<lambda>s. s\<lparr>nd_task := (nd_task s)(c := Some i)\<rparr>);
         net_note c (Net_started uart);
         State_Monad.return (Some c) } }"

definition allocate_connection ::
    "'h net_env \<Rightarrow> nat \<Rightarrow> int \<Rightarrow> bool \<Rightarrow> (nat option \<Rightarrow> ('h, 'a) net_task) \<Rightarrow> ('h, 'a) net_task" where
  "allocate_connection E i socket_fd uart k =
     (let register = atomic (with_registry E None (register_connection i socket_fd uart)) k in
      if uart
      then net_call (ne_network_data_enabled E) (\<lambda>enabled. if \<not> enabled then k None else register)
      else net_call (ne_create_queue E) (\<lambda>created. if \<not> created then k None else register))"

definition service_claimed_flag :: "bool \<Rightarrow> 'h network_dap \<Rightarrow> bool" where
  "service_claimed_flag uart s = (if uart then nd_uart_claimed s else nd_dap_claimed s)"

definition set_claimed_flag :: "bool \<Rightarrow> bool \<Rightarrow> ('h network_dap, unit) state" where
  "set_claimed_flag uart v = updates (\<lambda>s. if uart then s\<lparr>nd_uart_claimed := v\<rparr> else s\<lparr>nd_dap_claimed := v\<rparr>)"

definition claim_service_connection :: "'h net_env \<Rightarrow> nat \<Rightarrow> ('h network_dap, bool) state" where
  "claim_service_connection E c = with_registry E False (do {
     uart \<leftarrow> reads (\<lambda>s. nc_uart (nd_connections s c));
     claimed \<leftarrow> reads (service_claimed_flag uart);
     if claimed then State_Monad.return False
     else do {
       set_claimed_flag uart True;
       set_conn c (\<lambda>conn. conn\<lparr>nc_service_claimed := True\<rparr>);
       net_note c Net_claimed;
       State_Monad.return True } })"

definition unregister_connection :: "'h net_env \<Rightarrow> nat \<Rightarrow> ('h network_dap, unit) state" where
  "unregister_connection E c = with_registry E ()
     (set_conn c (\<lambda>conn. conn\<lparr>nc_registered := False, nc_auth_session_id := 0\<rparr>))"

definition take_dap_session :: "'h net_env \<Rightarrow> nat \<Rightarrow> ('h network_dap, u32) state" where
  "take_dap_session E c = with_registry E 0 (do {
     dap_session \<leftarrow> reads (\<lambda>s. nc_dap_session (nd_connections s c));
     set_conn c (\<lambda>conn. conn\<lparr>nc_dap_session := 0\<rparr>);
     State_Monad.return dap_session })"

definition take_uart_session :: "nat \<Rightarrow> ('h network_dap, u32) state" where
  "take_uart_session c = do {
     uart_session \<leftarrow> reads (\<lambda>s. nc_uart_session (nd_connections s c));
     set_conn c (\<lambda>conn. conn\<lparr>nc_uart_session := 0\<rparr>);
     State_Monad.return uart_session }"

definition release_claim ::
    "'h net_env \<Rightarrow> nat \<Rightarrow> ('h, 'a) net_task \<Rightarrow> ('h, 'a) net_task" where
  "release_claim E c k = with_conn c (\<lambda>conn.
     if \<not> nc_service_claimed conn then k
     else atomic (with_registry E () (do {
         set_claimed_flag (nc_uart conn) False;
         set_conn c (\<lambda>conn. conn\<lparr>nc_service_claimed := False\<rparr>);
         net_note c Net_released })) (\<lambda>_. k))"

definition take_auth_connection :: "'h net_env \<Rightarrow> nat \<Rightarrow> ('h network_dap, nat option) state" where
  "take_auth_connection E c = with_registry E None (do {
     auth \<leftarrow> reads (\<lambda>s. nc_auth_connection (nd_connections s c));
     set_conn c (\<lambda>conn. conn\<lparr>nc_auth_connection := None\<rparr>);
     State_Monad.return auth })"

text \<open>The slot is free again, and no task serves it.\<close>

definition free_slot :: "'h net_env \<Rightarrow> nat \<Rightarrow> ('h network_dap, unit) state" where
  "free_slot E c = do {
     with_registry E () (set_conn c (\<lambda>conn. conn\<lparr>nc_socket_fd := -1, nc_allocated := False\<rparr>));
     updates (\<lambda>s. s\<lparr>nd_task := (nd_task s)(c := None)\<rparr>) }"

definition calling_if :: "bool \<Rightarrow> ('h, 'r) task \<Rightarrow> ('h, 'a) net_task \<Rightarrow> ('h, 'a) net_task" where
  "calling_if b t k = (if b then net_call t (\<lambda>_. k) else k)"

definition release_connection ::
    "'h net_env \<Rightarrow> nat \<Rightarrow> ('h, 'a) net_task \<Rightarrow> ('h, 'a) net_task" where
  "release_connection E c k = with_conn c (\<lambda>conn.
     atomic (unregister_connection E c) (\<lambda>_.
     airdap_network_ota_disconnect E (nc_auth_connection conn) (nc_auth_session_id conn)
     (atomic (set_conn c (\<lambda>conn. conn\<lparr>nc_pending_response_token := 0\<rparr>)) (\<lambda>_.
     atomic (take_dap_session E c) (\<lambda>dap_session.
     calling_if (dap_session \<noteq> 0) (ne_service_close E dap_session)
     (atomic (take_uart_session c) (\<lambda>uart_session.
     calling_if (uart_session \<noteq> 0) (ne_uart_close E uart_session)
     (release_claim E c (
     atomic (take_auth_connection E c) (\<lambda>auth.
     calling_if (auth \<noteq> None) (ne_connection_close E (the auth))
     (atomic (set_conn c (\<lambda>conn. conn\<lparr>nc_response_queue := None\<rparr>)) (\<lambda>_.
     net_call (ne_close E (nc_socket_fd conn)) (\<lambda>_.
     atomic (free_slot E c) (\<lambda>_. k))))))))))))))"

section \<open>Revocation\<close>

text \<open>The callback of the authentication component, in any task.\<close>

definition revoke_session :: "u32 \<Rightarrow> ('h, 'a) net_task \<Rightarrow> ('h, 'a) net_task" where
  "revoke_session session_id k =
     (if session_id = 0 then k
      else atomic (do {
          queue \<leftarrow> reads nd_revoke_queue;
          case queue of
            None \<Rightarrow> State_Monad.return False
          | Some q \<Rightarrow> if length q \<ge> REVOKE_QUEUE_DEPTH then State_Monad.return False
              else do { updates (\<lambda>s. s\<lparr>nd_revoke_queue := Some (q @ [session_id])\<rparr>); State_Monad.return True } })
        (\<lambda>sent. if sent then k
           else atomic (updates (\<lambda>s. s\<lparr>nd_revoke_all := True\<rparr>)) (\<lambda>_. k)))"

definition shutdown_connection :: "'h net_env \<Rightarrow> network_connection \<Rightarrow> ('h network_dap, unit) state" where
  "shutdown_connection E conn = updates (\<lambda>s. s\<lparr>nd_world := ne_shutdown E (nc_socket_fd conn) (nd_world s)\<rparr>)"

text \<open>The sessions to close, of the UART and of the debug service.\<close>

primrec shutdown_matching ::
    "'h net_env \<Rightarrow> (network_connection \<Rightarrow> bool) \<Rightarrow> nat list \<Rightarrow> ('h network_dap, u32 list \<times> u32 list) state" where
  "shutdown_matching E P [] = State_Monad.return ([], [])"
| "shutdown_matching E P (c # cs) = do {
     conn \<leftarrow> reads (\<lambda>s. nd_connections s c);
     if \<not> P conn then shutdown_matching E P cs
     else do {
       shutdown_connection E conn;
       (uarts, daps) \<leftarrow> shutdown_matching E P cs;
       State_Monad.return
         ((if nc_uart_session conn \<noteq> 0 then nc_uart_session conn # uarts else uarts),
          (if nc_dap_session conn \<noteq> 0 then nc_dap_session conn # daps else daps)) } }"

definition revoked_connection :: "u32 \<Rightarrow> bool \<Rightarrow> network_connection \<Rightarrow> bool" where
  "revoked_connection session_id all_sessions conn \<longleftrightarrow>
     nc_allocated conn \<and> nc_registered conn \<and> nc_auth_session_id conn \<noteq> 0 \<and>
     (all_sessions \<or> nc_auth_session_id conn = session_id)"

primrec close_uart_sessions :: "'h net_env \<Rightarrow> u32 list \<Rightarrow> ('h, 'a) net_task \<Rightarrow> ('h, 'a) net_task" where
  "close_uart_sessions E [] k = k"
| "close_uart_sessions E (u # us) k = net_call (ne_uart_close E u) (\<lambda>_. close_uart_sessions E us k)"

primrec close_dap_sessions :: "'h net_env \<Rightarrow> u32 list \<Rightarrow> ('h, 'a) net_task \<Rightarrow> ('h, 'a) net_task" where
  "close_dap_sessions E [] k = k"
| "close_dap_sessions E (d # ds) k = net_call (ne_service_close E d) (\<lambda>_. close_dap_sessions E ds k)"

definition process_revoked_session ::
    "'h net_env \<Rightarrow> u32 \<Rightarrow> bool \<Rightarrow> ('h, 'a) net_task \<Rightarrow> ('h, 'a) net_task" where
  "process_revoked_session E session_id all_sessions k =
     atomic (with_registry E None (do {
         sessions \<leftarrow> shutdown_matching E (revoked_connection session_id all_sessions)
           [0..<AIRDAP_NETWORK_DAP_MAX_CONNECTIONS];
         State_Monad.return (Some sessions) }))
       (\<lambda>sessions. case sessions of
          None \<Rightarrow> atomic (updates (\<lambda>s. s\<lparr>nd_revoke_all := True\<rparr>)) (\<lambda>_. k)
        | Some (uarts, daps) \<Rightarrow> close_uart_sessions E uarts (close_dap_sessions E daps k))"

definition receive_revocation :: "('h network_dap, u32 option) state" where
  "receive_revocation = do {
     queue \<leftarrow> reads nd_revoke_queue;
     case queue of
       Some (session_id # rest) \<Rightarrow> do {
         updates (\<lambda>s. s\<lparr>nd_revoke_queue := Some rest\<rparr>);
         State_Monad.return (Some session_id) }
     | _ \<Rightarrow> State_Monad.return None }"

fun process_queue :: "nat \<Rightarrow> 'h net_env \<Rightarrow> ('h, 'a) net_task \<Rightarrow> ('h, 'a) net_task" where
  "process_queue 0 E k = stuck"
| "process_queue (Suc fuel) E k = atomic receive_revocation (\<lambda>received. case received of
       None \<Rightarrow> k
     | Some session_id \<Rightarrow> process_revoked_session E session_id False (process_queue fuel E k))"

definition exchange_revoke_all :: "('h network_dap, bool) state" where
  "exchange_revoke_all = do {
     all \<leftarrow> reads nd_revoke_all;
     updates (\<lambda>s. s\<lparr>nd_revoke_all := False\<rparr>);
     State_Monad.return all }"

definition airdap_network_dap_process_revocations ::
    "nat \<Rightarrow> 'h net_env \<Rightarrow> ('h, 'a) net_task \<Rightarrow> ('h, 'a) net_task" where
  "airdap_network_dap_process_revocations fuel E k = atomic exchange_revoke_all (\<lambda>all.
     if all then process_revoked_session E 0 True (process_queue fuel E k) else process_queue fuel E k)"

section \<open>Responses of the debug service\<close>

text \<open>
  The callback of the debug service, in any task. The service makes no call for a session that is
  closed, and so none with a queue that is gone.
\<close>

definition queue_response ::
    "nat \<Rightarrow> dap_response_item \<Rightarrow> (bool \<Rightarrow> ('h, 'a) net_task) \<Rightarrow> ('h, 'a) net_task" where
  "queue_response c item k = Act (\<lambda>s. case nc_response_queue (nd_connections s c) of
       None \<Rightarrow> None
     | Some [] \<Rightarrow> Some (k True, s\<lparr>nd_connections := (nd_connections s)
         (c := (nd_connections s c)\<lparr>nc_response_queue := Some [item]\<rparr>)\<rparr>)
     | Some _ \<Rightarrow> Some (k False, s))"

definition queue_dap_response ::
    "nat option \<Rightarrow> nat \<Rightarrow> u32 \<Rightarrow> u32 \<Rightarrow> bytes option \<Rightarrow> nat \<Rightarrow> (bool \<Rightarrow> ('h, 'a) net_task) \<Rightarrow>
     ('h, 'a) net_task" where
  "queue_dap_response connection transport session token response response_length k =
     (case connection of None \<Rightarrow> k False
      | Some c \<Rightarrow>
          if transport \<noteq> AIRDAP_DAP_TRANSPORT_NETWORK then k False
          else atomic (reads (\<lambda>s. nc_dap_session (nd_connections s c))) (\<lambda>dap_session.
            if session \<noteq> dap_session \<or> token = 0 then k False
            else atomic (reads (\<lambda>s. nc_pending_response_token (nd_connections s c))) (\<lambda>pending.
              if token \<noteq> pending then k False
              else case response of None \<Rightarrow> k False
              | Some r \<Rightarrow>
                  if response_length = 0 \<or> response_length > unat AIRDAP_FRAME_DAP_REQUEST_MAX_PAYLOAD_SIZE
                  then k False
                  else queue_response c \<lparr>ri_token = token, ri_response = take response_length r\<rparr> k)))"

fun auth_error_code :: "airdap_network_auth_result \<Rightarrow> airdap_frame_error_code" where
  "auth_error_code AUTH_BUSY = FRAME_ERROR_BUSY"
| "auth_error_code AUTH_NO_CREDENTIAL = FRAME_ERROR_UNAUTHENTICATED"
| "auth_error_code AUTH_AUTHENTICATION_FAILED = FRAME_ERROR_UNAUTHENTICATED"
| "auth_error_code AUTH_UNAUTHENTICATED = FRAME_ERROR_UNAUTHENTICATED"
| "auth_error_code AUTH_EXPIRED = FRAME_ERROR_UNAUTHENTICATED"
| "auth_error_code AUTH_REPLAY = FRAME_ERROR_UNAUTHENTICATED"
| "auth_error_code _ = FRAME_ERROR_INTERNAL"

fun dap_service_error_code :: "airdap_dap_service_result \<Rightarrow> airdap_frame_error_code" where
  "dap_service_error_code SERVICE_BUSY = FRAME_ERROR_BUSY"
| "dap_service_error_code SERVICE_QUEUE_FULL = FRAME_ERROR_BUSY"
| "dap_service_error_code SERVICE_STALE_SESSION = FRAME_ERROR_UNAUTHENTICATED"
| "dap_service_error_code SERVICE_UNAUTHENTICATED = FRAME_ERROR_UNAUTHENTICATED"
| "dap_service_error_code _ = FRAME_ERROR_INTERNAL"

end
