(* ===== verification/Network_Server.thy ===== *)
theory Network_Server
  imports Network_Dap
begin

text \<open>
  The framed TLS connections, last part of \<^verbatim>\<open>firmware/components/network_dap/network_dap.c\<close>: the
  requests of a connection, its loop, and the tasks that serve sockets.
\<close>

abbreviation (input) DAP_CONNECT_COMMAND :: u8 where "DAP_CONNECT_COMMAND \<equiv> 0x02"
abbreviation (input) AIRDAP_USB_OTA_FIRST_COMMAND :: u8 where "AIRDAP_USB_OTA_FIRST_COMMAND \<equiv> 0x80"
abbreviation (input) AIRDAP_USB_OTA_LAST_COMMAND :: u8 where "AIRDAP_USB_OTA_LAST_COMMAND \<equiv> 0x85"
abbreviation (input) AIRDAP_NETWORK_DAP_PORT :: nat where "AIRDAP_NETWORK_DAP_PORT \<equiv> 3260"
abbreviation (input) AIRDAP_NETWORK_UART_PORT :: nat where "AIRDAP_NETWORK_UART_PORT \<equiv> 3261"

section \<open>Greeting\<close>

definition hello_payload :: "device_identity \<Rightarrow> bytes \<Rightarrow> bytes" where
  "hello_payload identity version = take 16 (di_uuid identity) @ u32_be_bytes (di_capabilities identity) @
     take 16 (di_device_id identity) @ version"

definition identity_version :: "device_identity option \<Rightarrow> (device_identity \<times> bytes) option" where
  "identity_version identity = do {
     identity \<leftarrow> identity;
     version \<leftarrow> di_firmware_version identity;
     Some (identity, version) }"

definition send_hello ::
    "nat \<Rightarrow> 'h net_env \<Rightarrow> nat \<Rightarrow> airdap_frame_header \<Rightarrow> (bool \<Rightarrow> ('h, 'a) net_task) \<Rightarrow> ('h, 'a) net_task" where
  "send_hello fuel E c request k = atomic (reads nd_identity) (\<lambda>identity. case identity_version identity of
       None \<Rightarrow> net_fault c
     | Some (identity, version) \<Rightarrow>
         if length version = 0 \<or> length version > 31
         then send_error fuel E c request FRAME_ERROR_INTERNAL k
         else send_frame fuel E c request AIRDAP_FRAME_TYPE_HELLO (Some (hello_payload identity version)) k)"

section \<open>Binding a session\<close>

definition zero_session_info :: airdap_network_auth_session_info where
  "zero_session_info = \<lparr>si_session_id = 0, si_credential_generation = 0,
     si_session_token = replicate AIRDAP_NETWORK_AUTH_SESSION_TOKEN_SIZE 0, si_credential_fingerprint = []\<rparr>"

text \<open>An error that ends the connection.\<close>

definition reject ::
    "nat \<Rightarrow> 'h net_env \<Rightarrow> nat \<Rightarrow> airdap_frame_header \<Rightarrow> airdap_frame_error_code \<Rightarrow>
     (bool \<Rightarrow> ('h, 'a) net_task) \<Rightarrow> ('h, 'a) net_task" where
  "reject fuel E c request error k = send_error fuel E c request error (\<lambda>_. k False)"

definition store_auth_session :: "'h net_env \<Rightarrow> nat \<Rightarrow> u32 \<Rightarrow> ('h network_dap, bool) state" where
  "store_auth_session E c session_id = with_registry E False (do {
     set_conn c (\<lambda>conn. conn\<lparr>nc_auth_session_id := session_id\<rparr>);
     net_note c (Net_bound session_id);
     State_Monad.return True })"

definition store_dap_session :: "'h net_env \<Rightarrow> nat \<Rightarrow> u32 \<Rightarrow> ('h network_dap, bool) state" where
  "store_dap_session E c session = with_registry E False (do {
     set_conn c (\<lambda>conn. conn\<lparr>nc_dap_session := session\<rparr>);
     State_Monad.return True })"

definition open_uart ::
    "nat \<Rightarrow> 'h net_env \<Rightarrow> nat \<Rightarrow> airdap_frame_header \<Rightarrow> nat option \<Rightarrow> u32 \<Rightarrow>
     (bool \<Rightarrow> ('h, 'a) net_task) \<Rightarrow> ('h, 'a) net_task" where
  "open_uart fuel E c request auth session_id k =
     net_call (ne_network_data_enabled E) (\<lambda>enabled.
       if \<not> enabled then k False
       else net_call (ne_uart_open E) (\<lambda>(result, uart_session).
         if result \<noteq> UART_OK then reject fuel E c request (airdap_network_uart_error_code result) k
         else atomic (set_conn c (\<lambda>conn. conn\<lparr>nc_uart_session := uart_session\<rparr>)) (\<lambda>_.
           net_validate E c auth session_id (\<lambda>valid.
             if \<not> valid then reject fuel E c request FRAME_ERROR_UNAUTHENTICATED k else k True))))"

definition open_dap ::
    "nat \<Rightarrow> 'h net_env \<Rightarrow> nat \<Rightarrow> airdap_frame_header \<Rightarrow>
     (bool \<Rightarrow> ('h, 'a) net_task) \<Rightarrow> ('h, 'a) net_task" where
  "open_dap fuel E c request k = net_call (ne_service_open E) (\<lambda>(result, dap_session).
     if result \<noteq> SERVICE_OK then reject fuel E c request (dap_service_error_code result) k
     else atomic (store_dap_session E c dap_session) (\<lambda>stored.
       if \<not> stored
       then net_call (ne_service_close E dap_session) (\<lambda>_. reject fuel E c request FRAME_ERROR_INTERNAL k)
       else k True))"

definition auth_response :: "airdap_network_auth_session_info \<Rightarrow> bytes" where
  "auth_response info = u32_be_bytes (si_session_id info) @
     take AIRDAP_NETWORK_AUTH_SESSION_TOKEN_SIZE (si_session_token info)"

definition publish_auth_session ::
    "nat \<Rightarrow> 'h net_env \<Rightarrow> nat \<Rightarrow> airdap_frame_header \<Rightarrow> network_connection \<Rightarrow>
     airdap_network_auth_session_info \<Rightarrow> (bool \<Rightarrow> ('h, 'a) net_task) \<Rightarrow> ('h, 'a) net_task" where
  "publish_auth_session fuel E c request conn info k =
     (let answer = (\<lambda>opened. if \<not> opened then k False
        else send_frame fuel E c request AIRDAP_FRAME_TYPE_AUTH (Some (auth_response info)) k) in
      session_validate E c (nc_auth_connection conn) (si_session_id info) (\<lambda>result.
        if result \<noteq> AUTH_OK then reject fuel E c request (auth_error_code result) k
        else if nc_uart conn
        then open_uart fuel E c request (nc_auth_connection conn) (si_session_id info) answer
        else open_dap fuel E c request answer))"

definition bind_session ::
    "nat \<Rightarrow> 'h net_env \<Rightarrow> nat \<Rightarrow> airdap_frame_header \<Rightarrow> bytes \<Rightarrow>
     (bool \<Rightarrow> ('h, 'a) net_task) \<Rightarrow> ('h, 'a) net_task" where
  "bind_session fuel E c request payload k =
     (let payload_length = unat (fh_payload_length request) in
      if payload_length \<noteq> 0 \<and> payload_length \<noteq> AIRDAP_NETWORK_AUTH_SESSION_TOKEN_SIZE
      then reject fuel E c request FRAME_ERROR_UNSUPPORTED_TYPE k
      else atomic (claim_service_connection E c) (\<lambda>claimed.
        if \<not> claimed then reject fuel E c request FRAME_ERROR_BUSY k
        else with_conn c (\<lambda>conn.
          net_call (ne_session_bind E (nc_auth_connection conn)
              (if payload_length = 0 then None else Some payload) payload_length) (\<lambda>(result, info).
            if result \<noteq> AUTH_OK then reject fuel E c request (auth_error_code result) k
            else let info = (case info of None \<Rightarrow> zero_session_info | Some info \<Rightarrow> info) in
              atomic (store_auth_session E c (si_session_id info)) (\<lambda>stored.
                if \<not> stored then reject fuel E c request FRAME_ERROR_INTERNAL k
                else publish_auth_session fuel E c request conn info k)))))"

definition validate_bound_session ::
    "'h net_env \<Rightarrow> nat \<Rightarrow> (bool \<Rightarrow> ('h, 'a) net_task) \<Rightarrow> ('h, 'a) net_task" where
  "validate_bound_session E c k = with_conn c (\<lambda>conn.
     let validate = (if nc_auth_session_id conn = 0 then k False
       else net_validate E c (nc_auth_connection conn) (nc_auth_session_id conn) k) in
     if nc_uart conn
     then net_call (ne_network_data_enabled E) (\<lambda>enabled. if \<not> enabled then k False else validate)
     else validate)"

section \<open>Debug requests\<close>

definition admission_error :: "airdap_mode_dap_result \<Rightarrow> airdap_frame_error_code" where
  "admission_error admission =
     (if admission = DAP_UNAUTHENTICATED then FRAME_ERROR_UNAUTHENTICATED
      else if admission = DAP_BUSY \<or> admission = DAP_OFFLINE then FRAME_ERROR_BUSY
      else FRAME_ERROR_INTERNAL)"

text \<open>Tokens wrap around and skip zero.\<close>

definition next_token :: "nat \<Rightarrow> ('h network_dap, u32) state" where
  "next_token c = do {
     next \<leftarrow> reads (\<lambda>s. nc_next_response_token (nd_connections s c));
     let token = (if next = 0 then next + 1 else next);
     set_conn c (\<lambda>conn. conn\<lparr>nc_next_response_token := token + 1\<rparr>);
     State_Monad.return token }"

text \<open>
  \<^verbatim>\<open>xQueueReceive\<close> with a time limit: \<open>ne_wait_expired\<close> tells whether the wait ends without an item.
\<close>

definition receive_response ::
    "'h net_env \<Rightarrow> nat \<Rightarrow> (dap_response_item option \<Rightarrow> ('h, 'a) net_task) \<Rightarrow> ('h, 'a) net_task" where
  "receive_response E c k = Act (\<lambda>s. case nc_response_queue (nd_connections s c) of
       None \<Rightarrow> None
     | Some [] \<Rightarrow> if ne_wait_expired E (nd_world s) then Some (k None, s) else None
     | Some (item # items) \<Rightarrow> Some (k (Some item), s\<lparr>nd_connections := (nd_connections s)
         (c := (nd_connections s c)\<lparr>nc_response_queue := Some items\<rparr>)\<rparr>))"

fun await_response ::
    "nat \<Rightarrow> 'h net_env \<Rightarrow> nat \<Rightarrow> u32 \<Rightarrow> (bytes option \<Rightarrow> ('h, 'a) net_task) \<Rightarrow> ('h, 'a) net_task" where
  "await_response 0 E c token k = stuck"
| "await_response (Suc fuel) E c token k = receive_response E c (\<lambda>received. case received of
       None \<Rightarrow> k None
     | Some item \<Rightarrow>
         if ri_token item = token
         then noting c (Net_answer (ri_token item) (ri_response item)) (k (Some (ri_response item)))
         else await_response fuel E c token k)"

definition set_pending :: "nat \<Rightarrow> u32 \<Rightarrow> ('h network_dap, unit) state" where
  "set_pending c token = set_conn c (\<lambda>conn. conn\<lparr>nc_pending_response_token := token\<rparr>)"

definition deliver_dap_response ::
    "nat \<Rightarrow> 'h net_env \<Rightarrow> nat \<Rightarrow> airdap_frame_header \<Rightarrow> bytes \<Rightarrow>
     (bool \<Rightarrow> ('h, 'a) net_task) \<Rightarrow> ('h, 'a) net_task" where
  "deliver_dap_response fuel E c request response k = validate_bound_session E c (\<lambda>valid.
     if \<not> valid then reject fuel E c request FRAME_ERROR_UNAUTHENTICATED k
     else net_call (ne_network_data_enabled E) (\<lambda>enabled.
       if \<not> enabled then send_error fuel E c request FRAME_ERROR_BUSY k
       else send_frame fuel E c request AIRDAP_FRAME_TYPE_DAP_RESPONSE (Some response) k))"

definition submit_request ::
    "nat \<Rightarrow> 'h net_env \<Rightarrow> nat \<Rightarrow> airdap_frame_header \<Rightarrow> bytes \<Rightarrow>
     (bool \<Rightarrow> ('h, 'a) net_task) \<Rightarrow> ('h, 'a) net_task" where
  "submit_request fuel E c request payload k = atomic (next_token c) (\<lambda>token.
     atomic (set_pending c token) (\<lambda>_.
     with_conn c (\<lambda>conn. noting c (Net_submitted token payload)
     (net_call (ne_service_submit E (nc_dap_session conn) payload token c) (\<lambda>result.
       if result \<noteq> SERVICE_OK
       then atomic (set_pending c 0) (\<lambda>_. send_error fuel E c request (dap_service_error_code result) k)
       else await_response fuel E c token (\<lambda>response. atomic (set_pending c 0) (\<lambda>_. case response of
           None \<Rightarrow> send_error fuel E c request FRAME_ERROR_TIMEOUT k
         | Some response \<Rightarrow> deliver_dap_response fuel E c request response k)))))))"

definition send_dap_response ::
    "nat \<Rightarrow> 'h net_env \<Rightarrow> nat \<Rightarrow> airdap_frame_header \<Rightarrow> bytes \<Rightarrow>
     (bool \<Rightarrow> ('h, 'a) net_task) \<Rightarrow> ('h, 'a) net_task" where
  "send_dap_response fuel E c request payload k =
     (let command = payload ! 0 in
      net_call (ne_network_data_enabled E) (\<lambda>enabled.
        if \<not> enabled then send_error fuel E c request FRAME_ERROR_BUSY k
        else if fh_payload_length request = 0 then send_error fuel E c request FRAME_ERROR_TRUNCATED k
        else if command \<ge> AIRDAP_USB_OTA_FIRST_COMMAND \<and> command \<le> AIRDAP_USB_OTA_LAST_COMMAND
        then send_error fuel E c request FRAME_ERROR_UNSUPPORTED_TYPE k
        else validate_bound_session E c (\<lambda>valid.
          if \<not> valid then reject fuel E c request FRAME_ERROR_UNAUTHENTICATED k
          else if command = DAP_CONNECT_COMMAND
          then net_call (ne_dap_admission E) (\<lambda>admission.
            if admission \<noteq> DAP_ALLOWED then send_error fuel E c request (admission_error admission) k
            else submit_request fuel E c request payload k)
          else submit_request fuel E c request payload k)))"

section \<open>The loop of a connection\<close>

text \<open>
  The flags \<^verbatim>\<open>hello_complete\<close> and \<^verbatim>\<open>authenticated\<close>. A handler ends with the flags for the next request,
  or \<^const>\<open>None\<close> to close the connection.
\<close>

type_synonym net_flags = "bool \<times> bool"

definition on_success :: "net_flags \<Rightarrow> (net_flags option \<Rightarrow> 'b) \<Rightarrow> bool \<Rightarrow> 'b" where
  "on_success flags k ok = k (if ok then Some flags else None)"

definition control_dispatch ::
    "'h net_env \<Rightarrow> nat \<Rightarrow> network_connection \<Rightarrow> bool \<Rightarrow> airdap_frame_header \<Rightarrow> bytes \<Rightarrow>
     (airdap_frame_error_code \<times> bytes \<Rightarrow> ('h, 'a) net_task) \<Rightarrow> ('h, 'a) net_task" where
  "control_dispatch E c conn ota request payload k =
     (let payload_length = unat (fh_payload_length request) in
      if ota then airdap_network_ota_dispatch E c (nc_auth_connection conn) (nc_auth_session_id conn)
        (Some payload) payload_length True AIRDAP_NETWORK_UART_MAX_RESPONSE True k
      else if nc_uart conn
      then airdap_network_uart_dispatch E c (nc_auth_connection conn) (nc_auth_session_id conn)
        (nc_uart_session conn) (Some payload) payload_length True AIRDAP_NETWORK_UART_MAX_RESPONSE True k
      else airdap_network_control_dispatch E c (nc_auth_connection conn) (nc_auth_session_id conn)
        (Some payload) payload_length True True k)"

definition is_ota_request :: "network_connection \<Rightarrow> airdap_frame_header \<Rightarrow> bytes \<Rightarrow> bool" where
  "is_ota_request conn request payload \<longleftrightarrow> \<not> nc_uart conn \<and> fh_payload_length request > 0 \<and>
     payload ! 0 \<ge> AIRDAP_CONTROL_OTA_QUERY \<and> payload ! 0 \<le> AIRDAP_CONTROL_OTA_REBOOT"

definition finish_control ::
    "'h net_env \<Rightarrow> network_connection \<Rightarrow> bool \<Rightarrow> bytes \<Rightarrow> airdap_frame_error_code \<Rightarrow> bytes \<Rightarrow> net_flags \<Rightarrow>
     (net_flags option \<Rightarrow> ('h, 'a) net_task) \<Rightarrow> ('h, 'a) net_task" where
  "finish_control E conn ota payload error response flags k =
     (if ota \<and> payload ! 0 = AIRDAP_CONTROL_OTA_REBOOT \<and> error = FRAME_ERROR_NONE \<and>
        length response = 2 \<and> response ! 1 = 0
      then airdap_network_ota_reboot E (nc_auth_connection conn) (nc_auth_session_id conn) (k None)
      else k (Some flags))"

definition handle_control ::
    "nat \<Rightarrow> 'h net_env \<Rightarrow> nat \<Rightarrow> net_flags \<Rightarrow> airdap_frame_header \<Rightarrow> bytes \<Rightarrow>
     (net_flags option \<Rightarrow> ('h, 'a) net_task) \<Rightarrow> ('h, 'a) net_task" where
  "handle_control fuel E c flags request payload k = with_conn c (\<lambda>conn.
     if \<not> snd flags \<and> \<not> nc_uart conn
     then send_error fuel E c request FRAME_ERROR_UNAUTHENTICATED (on_success flags k)
     else let ota = is_ota_request conn request payload in
       control_dispatch E c conn ota request payload (\<lambda>(error, response).
         if error \<noteq> FRAME_ERROR_NONE
         then send_error fuel E c request error (\<lambda>sent.
           if \<not> sent \<or> error = FRAME_ERROR_UNAUTHENTICATED then k None
           else finish_control E conn ota payload error response flags k)
         else validate_bound_session E c (\<lambda>valid. if \<not> valid then k None
           else send_frame fuel E c request AIRDAP_FRAME_TYPE_CONTROL_RESPONSE (Some response) (\<lambda>sent.
             if \<not> sent then k None
             else finish_control E conn ota payload error response flags k))))"

definition handle_hello ::
    "nat \<Rightarrow> 'h net_env \<Rightarrow> nat \<Rightarrow> net_flags \<Rightarrow> airdap_frame_header \<Rightarrow>
     (net_flags option \<Rightarrow> ('h, 'a) net_task) \<Rightarrow> ('h, 'a) net_task" where
  "handle_hello fuel E c flags request k =
     (if fh_payload_length request \<noteq> 0
      then send_error fuel E c request FRAME_ERROR_UNSUPPORTED_TYPE (on_success flags k)
      else send_hello fuel E c request (\<lambda>sent. if \<not> sent then k None
        else noting c Net_hello (k (Some (True, snd flags)))))"

definition handle_auth ::
    "nat \<Rightarrow> 'h net_env \<Rightarrow> nat \<Rightarrow> net_flags \<Rightarrow> airdap_frame_header \<Rightarrow> bytes \<Rightarrow>
     (net_flags option \<Rightarrow> ('h, 'a) net_task) \<Rightarrow> ('h, 'a) net_task" where
  "handle_auth fuel E c flags request payload k =
     (if \<not> fst flags \<or> snd flags
      then send_error fuel E c request FRAME_ERROR_UNAUTHENTICATED (on_success flags k)
      else bind_session fuel E c request payload (on_success (fst flags, True) k))"

definition handle_dap ::
    "nat \<Rightarrow> 'h net_env \<Rightarrow> nat \<Rightarrow> net_flags \<Rightarrow> airdap_frame_header \<Rightarrow> bytes \<Rightarrow>
     (net_flags option \<Rightarrow> ('h, 'a) net_task) \<Rightarrow> ('h, 'a) net_task" where
  "handle_dap fuel E c flags request payload k = with_conn c (\<lambda>conn.
     if nc_uart conn then send_error fuel E c request FRAME_ERROR_UNSUPPORTED_TYPE (on_success flags k)
     else if \<not> snd flags
     then send_error fuel E c request FRAME_ERROR_UNAUTHENTICATED (on_success flags k)
     else send_dap_response fuel E c request payload (on_success flags k))"

definition handle_keepalive ::
    "nat \<Rightarrow> 'h net_env \<Rightarrow> nat \<Rightarrow> net_flags \<Rightarrow> airdap_frame_header \<Rightarrow>
     (net_flags option \<Rightarrow> ('h, 'a) net_task) \<Rightarrow> ('h, 'a) net_task" where
  "handle_keepalive fuel E c flags request k =
     (let unauthenticated = send_error fuel E c request FRAME_ERROR_UNAUTHENTICATED (on_success flags k) in
      if \<not> snd flags \<or> fh_payload_length request \<noteq> 0 then unauthenticated
      else validate_bound_session E c (\<lambda>valid. if \<not> valid then unauthenticated
        else send_frame fuel E c request AIRDAP_FRAME_TYPE_KEEPALIVE None (on_success flags k)))"

definition handle_request ::
    "nat \<Rightarrow> 'h net_env \<Rightarrow> nat \<Rightarrow> net_flags \<Rightarrow> airdap_frame_header \<Rightarrow> bytes \<Rightarrow>
     (net_flags option \<Rightarrow> ('h, 'a) net_task) \<Rightarrow> ('h, 'a) net_task" where
  "handle_request fuel E c flags request payload k =
     (if \<not> fst flags \<and> fh_type request \<noteq> AIRDAP_FRAME_TYPE_HELLO
      then send_error fuel E c request FRAME_ERROR_UNAUTHENTICATED (\<lambda>_. k None)
      else if fh_type request = AIRDAP_FRAME_TYPE_HELLO then handle_hello fuel E c flags request k
      else if fh_type request = AIRDAP_FRAME_TYPE_AUTH then handle_auth fuel E c flags request payload k
      else if fh_type request = AIRDAP_FRAME_TYPE_DAP_REQUEST then handle_dap fuel E c flags request payload k
      else if fh_type request = AIRDAP_FRAME_TYPE_CONTROL_REQUEST then handle_control fuel E c flags request payload k
      else if fh_type request = AIRDAP_FRAME_TYPE_KEEPALIVE then handle_keepalive fuel E c flags request k
      else send_error fuel E c request FRAME_ERROR_UNSUPPORTED_TYPE (on_success flags k))"

definition init_validator ::
    "airdap_frame_sequence_validator option \<Rightarrow> airdap_frame_header \<Rightarrow> airdap_frame_sequence_validator option" where
  "init_validator validator request = (case validator of
       Some v \<Rightarrow> Some v
     | None \<Rightarrow> (case airdap_frame_sequence_validator_init (Some zero_validator) (fh_session_id request) of
         (error, v) \<Rightarrow> if error \<noteq> FRAME_ERROR_NONE then None else v))"

text \<open>A frame that was read: the sequence check, then its request.\<close>

definition check_sequence ::
    "nat \<Rightarrow> 'h net_env \<Rightarrow> nat \<Rightarrow> net_flags \<Rightarrow> airdap_frame_sequence_validator \<Rightarrow> airdap_frame_header \<Rightarrow> bytes \<Rightarrow>
     (airdap_frame_sequence_validator \<Rightarrow> net_flags option \<Rightarrow> ('h, 'a) net_task) \<Rightarrow> ('h, 'a) net_task" where
  "check_sequence fuel E c flags v request payload k =
     (case airdap_frame_validate_request_sequence (Some v) (Some request) of
        (error, v') \<Rightarrow> let v' = (case v' of None \<Rightarrow> v | Some v' \<Rightarrow> v') in
          if error \<noteq> FRAME_ERROR_NONE then send_error fuel E c request error (on_success flags (k v'))
          else noting c (Net_accepted request) (handle_request fuel E c flags request payload (k v')))"

text \<open>\<open>validator\<close> is \<^const>\<open>None\<close> until it is initialised.\<close>

fun connection_loop ::
    "nat \<Rightarrow> 'h net_env \<Rightarrow> nat \<Rightarrow> int \<Rightarrow> net_flags \<Rightarrow> airdap_frame_sequence_validator option \<Rightarrow>
     ('h, 'a) net_task \<Rightarrow> ('h, 'a) net_task" where
  "connection_loop 0 E c deadline flags validator k = stuck"
| "connection_loop (Suc fuel) E c deadline flags validator k =
     read_frame fuel E c (if snd flags then INT64_MAX else deadline) (\<lambda>(read_result, request, payload).
       if read_result = FRAME_READ_DAP_PAYLOAD_TOO_LARGE
       then send_error fuel E c request FRAME_ERROR_PAYLOAD_TOO_LARGE (\<lambda>_. k)
       else with_conn c (\<lambda>conn.
         let serve = (if read_result \<noteq> FRAME_READ_OK then k
           else noting c (Net_frame request payload) (case init_validator validator request of
               None \<Rightarrow> k
             | Some v \<Rightarrow> check_sequence fuel E c flags v request payload (\<lambda>v next. case next of
                 None \<Rightarrow> k
               | Some flags \<Rightarrow> connection_loop fuel E c deadline flags (Some v) k)))
         in if nc_uart conn
            then net_call (ne_network_data_enabled E) (\<lambda>enabled. if \<not> enabled then k else serve)
            else serve))"

definition store_auth_connection :: "'h net_env \<Rightarrow> nat \<Rightarrow> nat option \<Rightarrow> ('h network_dap, bool) state" where
  "store_auth_connection E c auth = with_registry E False (do {
     set_conn c (\<lambda>conn. conn\<lparr>nc_auth_connection := auth\<rparr>);
     State_Monad.return True })"

definition run_connection ::
    "nat \<Rightarrow> 'h net_env \<Rightarrow> nat \<Rightarrow> ('h, 'a) net_task \<Rightarrow> ('h, 'a) net_task" where
  "run_connection fuel E c k = with_conn c (\<lambda>conn.
     let serve = make_nonblocking E (nc_socket_fd conn) (\<lambda>ok. if \<not> ok then k
       else net_call (ne_tls_accept E (nc_socket_fd conn)) (\<lambda>(result, auth).
         if result \<noteq> AUTH_OK then k
         else atomic (store_auth_connection E c auth) (\<lambda>stored.
           if \<not> stored then calling_if (auth \<noteq> None) (ne_connection_close E (the auth)) k
           else net_call (ne_get_time E) (\<lambda>now.
             connection_loop fuel E c (now + APPLICATION_IO_TIMEOUT_US) (False, False) None k))))
     in if nc_uart conn
        then net_call (ne_network_data_enabled E) (\<lambda>enabled. if \<not> enabled then k else serve)
        else serve)"

section \<open>Tasks\<close>

definition handle_socket ::
    "nat \<Rightarrow> 'h net_env \<Rightarrow> nat \<Rightarrow> int \<Rightarrow> bool \<Rightarrow> ('h, 'a) net_task \<Rightarrow> ('h, 'a) net_task" where
  "handle_socket fuel E i socket_fd uart k = allocate_connection E i socket_fd uart (\<lambda>connection.
     case connection of
       None \<Rightarrow> net_call (ne_close E socket_fd) (\<lambda>_. k)
     | Some c \<Rightarrow> run_connection fuel E c (release_connection E c k))"

definition airdap_network_dap_handle_socket ::
    "nat \<Rightarrow> 'h net_env \<Rightarrow> nat \<Rightarrow> int \<Rightarrow> ('h, unit) net_task" where
  "airdap_network_dap_handle_socket fuel E i socket_fd = handle_socket fuel E i socket_fd False (Done ())"

definition airdap_network_uart_handle_socket ::
    "nat \<Rightarrow> 'h net_env \<Rightarrow> nat \<Rightarrow> int \<Rightarrow> ('h, unit) net_task" where
  "airdap_network_uart_handle_socket fuel E i socket_fd = handle_socket fuel E i socket_fd True (Done ())"

text \<open>The task of a connection begins when the listener has created it.\<close>

definition connection_task :: "nat \<Rightarrow> 'h net_env \<Rightarrow> nat \<Rightarrow> nat \<Rightarrow> ('h, unit) net_task" where
  "connection_task fuel E i c = Act (\<lambda>s. if c \<notin> nd_spawned s then None
     else Some (run_connection fuel E c (release_connection E c (Done ())),
       s\<lparr>nd_spawned := nd_spawned s - {c}, nd_task := (nd_task s)(c := Some i)\<rparr>))"

definition create_listener ::
    "'h net_env \<Rightarrow> nat \<Rightarrow> (int \<Rightarrow> ('h, 'a) net_task) \<Rightarrow> ('h, 'a) net_task" where
  "create_listener E port k = net_call (ne_socket E) (\<lambda>fd. if fd < 0 then k (-1)
     else let failed = net_call (ne_close E fd) (\<lambda>_. k (-1)) in
       net_call (ne_reuse_address E fd) (\<lambda>ok. if \<not> ok then failed
       else make_nonblocking E fd (\<lambda>ok. if \<not> ok then failed
       else net_call (ne_bind_port E fd port) (\<lambda>ok. if \<not> ok then failed
       else net_call (ne_listen E fd AIRDAP_NETWORK_DAP_MAX_CONNECTIONS) (\<lambda>ok. if \<not> ok then failed
       else k fd)))))"

definition set_uart_listener :: "int \<Rightarrow> ('h network_dap, unit) state" where
  "set_uart_listener fd = updates (\<lambda>s. s\<lparr>nd_uart_listener_socket := fd\<rparr>)"

definition set_listener :: "int \<Rightarrow> ('h network_dap, unit) state" where
  "set_listener fd = updates (\<lambda>s. s\<lparr>nd_listener_socket := fd\<rparr>)"

definition close_uart_listener :: "'h net_env \<Rightarrow> ('h, 'a) net_task \<Rightarrow> ('h, 'a) net_task" where
  "close_uart_listener E k = atomic (reads nd_uart_listener_socket) (\<lambda>fd.
     if fd \<ge> 0 then net_call (ne_close E fd) (\<lambda>_. atomic (set_uart_listener (-1)) (\<lambda>_. k)) else k)"

definition uart_connection :: "network_connection \<Rightarrow> bool" where
  "uart_connection conn \<longleftrightarrow> nc_allocated conn \<and> nc_registered conn \<and> nc_uart conn"

definition airdap_network_dap_reconcile_mode ::
    "'h net_env \<Rightarrow> ('h, 'a) net_task \<Rightarrow> ('h, 'a) net_task" where
  "airdap_network_dap_reconcile_mode E k = net_call (ne_network_data_enabled E) (\<lambda>enabled.
     if enabled
     then atomic (reads nd_uart_listener_socket) (\<lambda>fd.
       if fd < 0 then create_listener E AIRDAP_NETWORK_UART_PORT (\<lambda>fd. atomic (set_uart_listener fd) (\<lambda>_. k)) else k)
     else close_uart_listener E
       (atomic (with_registry E ([], []) (shutdown_matching E uart_connection [0..<AIRDAP_NETWORK_DAP_MAX_CONNECTIONS]))
         (\<lambda>(uarts, _). close_uart_sessions E uarts k)))"

definition spawn_connection :: "nat \<Rightarrow> ('h network_dap, unit) state" where
  "spawn_connection c = updates (\<lambda>s.
     s\<lparr>nd_spawned := insert c (nd_spawned s), nd_task := (nd_task s)(c := None)\<rparr>)"

text \<open>One listening socket after \<^verbatim>\<open>poll\<close>: whether it is broken, and whether a client waits.\<close>

definition accept_connection ::
    "'h net_env \<Rightarrow> nat \<Rightarrow> int \<Rightarrow> bool \<Rightarrow> bool \<times> bool \<Rightarrow> ('h, 'a) net_task \<Rightarrow> ('h, 'a) net_task" where
  "accept_connection E i fd uart events k =
     (if fst events \<or> \<not> snd events then k
      else net_call (ne_accept E fd) (\<lambda>accepted. case accepted of
          None \<Rightarrow> k
        | Some socket_fd \<Rightarrow> allocate_connection E i socket_fd uart (\<lambda>connection. case connection of
            None \<Rightarrow> net_call (ne_close E socket_fd) (\<lambda>_. k)
          | Some c \<Rightarrow> net_call (ne_create_task E) (\<lambda>created.
              if \<not> created then release_connection E c k
              else atomic (spawn_connection c) (\<lambda>_. k)))))"

definition listener_sockets :: "'h network_dap \<Rightarrow> int \<times> int" where
  "listener_sockets s = (nd_listener_socket s, nd_uart_listener_socket s)"

definition listener_pass ::
    "nat \<Rightarrow> 'h net_env \<Rightarrow> nat \<Rightarrow> ('h, 'a) net_task \<Rightarrow> ('h, 'a) net_task" where
  "listener_pass fuel E i k = airdap_network_dap_process_revocations fuel E
     (airdap_network_dap_reconcile_mode E
       (atomic (reads listener_sockets) (\<lambda>(fd, uart_fd).
         net_call (ne_poll_listeners E fd uart_fd LISTENER_POLL_MS) (\<lambda>ready. case ready of
             None \<Rightarrow> k
           | Some (events, uart_events) \<Rightarrow> accept_connection E i fd False events
               (accept_connection E i uart_fd True uart_events k)))))"

fun listener_task :: "nat \<Rightarrow> 'h net_env \<Rightarrow> nat \<Rightarrow> ('h, unit) net_task" where
  "listener_task 0 E i = Done ()"
| "listener_task (Suc fuel) E i = listener_pass fuel E i (listener_task fuel E i)"

section \<open>Start\<close>

definition begin_start :: "nat \<Rightarrow> ('h network_dap, bool) state" where
  "begin_start i = do {
     started \<leftarrow> reads nd_initialization_started;
     if started then State_Monad.return True
     else do {
       updates (\<lambda>s. s\<lparr>nd_initialization_started := True, nd_starter := Some i\<rparr>);
       State_Monad.return False } }"

definition close_listeners :: "'h net_env \<Rightarrow> ('h, 'a) net_task \<Rightarrow> ('h, 'a) net_task" where
  "close_listeners E k = atomic (reads nd_listener_socket) (\<lambda>fd.
     net_call (ne_close E fd) (\<lambda>_. atomic (set_listener (-1)) (\<lambda>_. close_uart_listener E
       (atomic (set_uart_listener (-1)) (\<lambda>_. k)))))"

definition start_listening ::
    "'h net_env \<Rightarrow> (esp_err \<Rightarrow> ('h, 'a) net_task) \<Rightarrow> ('h, 'a) net_task" where
  "start_listening E k = net_call (ne_set_revoke_handler E) (\<lambda>revoke_error.
     if revoke_error \<noteq> ESP_OK then close_listeners E (k revoke_error)
     else net_call (ne_create_task E) (\<lambda>created.
       if \<not> created then close_listeners E (k ESP_ERR_NO_MEM)
       else atomic (updates (\<lambda>s. s\<lparr>nd_listener_ready := True\<rparr>)) (\<lambda>_. k ESP_OK)))"

definition open_listeners ::
    "'h net_env \<Rightarrow> (esp_err \<Rightarrow> ('h, 'a) net_task) \<Rightarrow> ('h, 'a) net_task" where
  "open_listeners E k = create_listener E AIRDAP_NETWORK_DAP_PORT (\<lambda>fd.
     atomic (set_listener fd) (\<lambda>_. if fd < 0 then k ESP_FAIL
     else net_call (ne_network_data_enabled E) (\<lambda>enable_uart.
       if \<not> enable_uart then atomic (set_uart_listener (-1)) (\<lambda>_. start_listening E k)
       else create_listener E AIRDAP_NETWORK_UART_PORT (\<lambda>uart_fd.
         atomic (set_uart_listener uart_fd) (\<lambda>_. if uart_fd < 0
           then net_call (ne_close E fd) (\<lambda>_. atomic (set_listener (-1)) (\<lambda>_. k ESP_FAIL))
           else start_listening E k)))))"

definition create_revoke_queue ::
    "'h net_env \<Rightarrow> (esp_err \<Rightarrow> ('h, 'a) net_task) \<Rightarrow> ('h, 'a) net_task" where
  "create_revoke_queue E k = net_call (ne_create_queue E) (\<lambda>created.
     atomic (updates (\<lambda>s. s\<lparr>nd_revoke_queue := (if created then Some [] else None)\<rparr>)) (\<lambda>_.
       if \<not> created then k ESP_ERR_NO_MEM else open_listeners E k))"

definition create_registry ::
    "'h net_env \<Rightarrow> (esp_err \<Rightarrow> ('h, 'a) net_task) \<Rightarrow> ('h, 'a) net_task" where
  "create_registry E k = net_call (ne_create_mutex E) (\<lambda>created.
     atomic (updates (\<lambda>s. s\<lparr>nd_registry_mutex := created\<rparr>)) (\<lambda>_.
       if \<not> created then k ESP_ERR_NO_MEM else create_revoke_queue E k))"

definition airdap_network_dap_start ::
    "'h net_env \<Rightarrow> nat \<Rightarrow> (esp_err \<Rightarrow> ('h, 'a) net_task) \<Rightarrow> ('h, 'a) net_task" where
  "airdap_network_dap_start E i k = atomic (begin_start i) (\<lambda>started.
     if started then k ESP_ERR_INVALID_STATE
     else net_call (ne_device_identity E) (\<lambda>identity.
       atomic (updates (\<lambda>s. s\<lparr>nd_identity := identity\<rparr>)) (\<lambda>_.
         if identity_version identity = None then k ESP_ERR_INVALID_STATE else create_registry E k)))"

end
