(* ===== verification/Network_Rules.thy ===== *)
theory Network_Rules
  imports Network_Server
begin

text \<open>
  What the connections of \<open>Network_Server\<close> do, for every interleaving of their tasks and every
  behaviour of the components and the platform below. A connection is written only by the task that
  serves it (its response queue apart), so a task knows its connection and its history exactly
  between two actions (\<open>serving\<close>), and each function is followed along its branches.
\<close>

section \<open>Histories\<close>

definition started :: "net_event \<Rightarrow> bool" where
  "started e = (case e of Net_started _ \<Rightarrow> True | _ \<Rightarrow> False)"

definition is_frame :: "net_event \<Rightarrow> bool" where
  "is_frame e = (case e of Net_frame _ _ \<Rightarrow> True | _ \<Rightarrow> False)"

text \<open>The events since the connection started, and since its last frame.\<close>

definition this_connection :: "net_event list \<Rightarrow> net_event list" where
  "this_connection es = takeWhile (\<lambda>e. \<not> started e) es"

definition this_request :: "net_event list \<Rightarrow> net_event list" where
  "this_request es = takeWhile (\<lambda>e. \<not> started e \<and> \<not> is_frame e) es"

fun connection_kind :: "net_event list \<Rightarrow> bool option" where
  "connection_kind [] = None"
| "connection_kind (e # es) = (case e of Net_started uart \<Rightarrow> Some uart | _ \<Rightarrow> connection_kind es)"

fun request_frame :: "net_event list \<Rightarrow> (airdap_frame_header \<times> bytes) option" where
  "request_frame [] = None"
| "request_frame (e # es) = (case e of Net_started _ \<Rightarrow> None | Net_frame h p \<Rightarrow> Some (h, p) | _ \<Rightarrow> request_frame es)"

fun bytes_read :: "net_event list \<Rightarrow> bytes" where
  "bytes_read [] = []"
| "bytes_read (e # es) = (case e of Net_started _ \<Rightarrow> [] | Net_frame _ _ \<Rightarrow> []
     | Net_read b \<Rightarrow> bytes_read es @ b | _ \<Rightarrow> bytes_read es)"

text \<open>Whether the connection holds the service, and the requests accepted, newest first.\<close>

fun holds_claim :: "net_event list \<Rightarrow> bool" where
  "holds_claim [] = False"
| "holds_claim (e # es) = (case e of Net_started _ \<Rightarrow> False | Net_claimed \<Rightarrow> True | Net_released \<Rightarrow> False
     | _ \<Rightarrow> holds_claim es)"

fun accepted_requests :: "net_event list \<Rightarrow> airdap_frame_header list" where
  "accepted_requests [] = []"
| "accepted_requests (e # es) = (case e of Net_started _ \<Rightarrow> [] | Net_accepted h \<Rightarrow> h # accepted_requests es
     | _ \<Rightarrow> accepted_requests es)"

lemmas history_simps = started_def is_frame_def this_connection_def this_request_def
  connection_kind.simps(2) request_frame.simps(2) bytes_read.simps(2) holds_claim.simps(2)
  accepted_requests.simps(2)

declare connection_kind.simps(2) [simp del] request_frame.simps(2) [simp del] bytes_read.simps(2) [simp del]
  holds_claim.simps(2) [simp del] accepted_requests.simps(2) [simp del]

text \<open>The request that is served has the type and payload given and passed every check.\<close>

definition session_valid :: "net_event list \<Rightarrow> bool" where
  "session_valid es \<longleftrightarrow> Net_hello \<in> set (this_connection es) \<and> holds_claim es \<and>
     (\<exists>session_id. session_id \<noteq> 0 \<and> Net_bound session_id \<in> set (this_connection es) \<and>
        Net_validated session_id \<in> set (this_request es))"

definition request_admitted :: "bool \<Rightarrow> u8 \<Rightarrow> bytes \<Rightarrow> net_event list \<Rightarrow> bool" where
  "request_admitted uart type p es \<longleftrightarrow> connection_kind es = Some uart \<and> session_valid es \<and>
     (\<exists>h. request_frame es = Some (h, p) \<and> fh_type h = type \<and> Net_accepted h \<in> set (this_request es))"

definition response_matches :: "airdap_frame_header \<Rightarrow> bytes \<Rightarrow> net_event list \<Rightarrow> bool" where
  "response_matches h p es \<longleftrightarrow>
     (fh_type h \<noteq> AIRDAP_FRAME_TYPE_ERROR \<longrightarrow>
        (\<exists>r q. request_frame es = Some (r, q) \<and> Net_accepted r \<in> set (this_request es) \<and>
           fh_type h = expected_response_type (fh_type r) \<and> h = response_header r (fh_type h) (length p))) \<and>
     (fh_type h \<in> {AIRDAP_FRAME_TYPE_DAP_RESPONSE, AIRDAP_FRAME_TYPE_CONTROL_RESPONSE, AIRDAP_FRAME_TYPE_KEEPALIVE} \<longrightarrow>
        session_valid es) \<and>
     (fh_type h = AIRDAP_FRAME_TYPE_DAP_RESPONSE \<longrightarrow>
        (\<exists>token q sid. Net_answer token p \<in> set (this_request es) \<and> Net_submitted token q \<in> set (this_request es) \<and>
           Net_validated sid \<in> set (takeWhile (\<lambda>e. e \<noteq> Net_answer token p) es)))"

definition next_request :: "airdap_frame_header \<Rightarrow> airdap_frame_header list \<Rightarrow> bool" where
  "next_request h hs = (case hs of
       [] \<Rightarrow> fh_sequence h = AIRDAP_FRAME_INITIAL_SEQUENCE
     | h' # _ \<Rightarrow> fh_session_id h = fh_session_id h' \<and> fh_sequence h = airdap_frame_next_sequence (fh_sequence h'))"

definition net_event_sound :: "net_event \<Rightarrow> net_event list \<Rightarrow> bool" where
  "net_event_sound e es = (case e of
       Net_frame h p \<Rightarrow> wire_to_frame (bytes_read es) = Some (h, p)
     | Net_accepted h \<Rightarrow> (\<exists>p. request_frame es = Some (h, p)) \<and> next_request h (accepted_requests es)
     | Net_hello \<Rightarrow> (\<exists>h. request_frame es = Some (h, []) \<and> fh_type h = AIRDAP_FRAME_TYPE_HELLO)
     | Net_bound _ \<Rightarrow> Net_hello \<in> set (this_connection es) \<and> holds_claim es \<and>
         (\<exists>h p. request_frame es = Some (h, p) \<and> fh_type h = AIRDAP_FRAME_TYPE_AUTH) \<and>
         (\<forall>session_id. Net_bound session_id \<notin> set (this_connection es))
     | Net_submitted token p \<Rightarrow> token \<noteq> 0 \<and> request_admitted False AIRDAP_FRAME_TYPE_DAP_REQUEST p es \<and> p \<noteq> [] \<and>
         \<not> (0x80 \<le> p ! 0 \<and> p ! 0 \<le> 0x85) \<and>
         (\<forall>token q. Net_submitted token q \<notin> set (this_request es))
     | Net_answer token p \<Rightarrow> (\<exists>q. Net_submitted token q \<in> set (this_request es)) \<and> length p \<le> 508
     | Net_board opcode v \<Rightarrow>
         (\<exists>p. request_admitted False AIRDAP_FRAME_TYPE_CONTROL_REQUEST p es \<and> p \<noteq> [] \<and> p ! 0 = opcode)
     | Net_uart opcode \<Rightarrow>
         (\<exists>p. request_admitted True AIRDAP_FRAME_TYPE_CONTROL_REQUEST p es \<and> p \<noteq> [] \<and> p ! 0 = opcode)
     | Net_ota opcode \<Rightarrow>
         (\<exists>p. request_admitted False AIRDAP_FRAME_TYPE_CONTROL_REQUEST p es \<and> p \<noteq> [] \<and> p ! 0 = opcode)
     | Net_sent h p \<Rightarrow> response_matches h p es
     | Net_fault \<Rightarrow> False
     | _ \<Rightarrow> True)"

section \<open>Invariant and guarantee\<close>

definition conn_core :: "network_connection \<Rightarrow> network_connection" where
  "conn_core conn = conn\<lparr>nc_response_queue := None\<rparr>"

definition queue_ok :: "network_connection \<Rightarrow> bool" where
  "queue_ok conn \<longleftrightarrow> (\<forall>items item. nc_response_queue conn = Some items \<longrightarrow> item \<in> set items \<longrightarrow>
     length (ri_response item) \<le> 508)"

definition fresh_slot :: "network_connection \<Rightarrow> net_event list \<Rightarrow> bool" where
  "fresh_slot conn es \<longleftrightarrow> (\<exists>socket_fd uart es'. conn = conn_core (fresh_connection socket_fd uart) \<and>
     es = Net_started uart # es')"

definition claims_ok :: "'h network_dap \<Rightarrow> bool" where
  "claims_ok s \<longleftrightarrow> (\<forall>c. nc_service_claimed (nd_connections s c) \<longrightarrow>
       service_claimed_flag (nc_uart (nd_connections s c)) s) \<and>
     (\<forall>c c'. nc_service_claimed (nd_connections s c) \<and> nc_service_claimed (nd_connections s c') \<and>
       nc_uart (nd_connections s c) = nc_uart (nd_connections s c') \<longrightarrow> c = c')"

definition slot_ok :: "'h network_dap \<Rightarrow> nat \<Rightarrow> bool" where
  "slot_ok s c \<longleftrightarrow> (nd_task s c \<noteq> None \<longrightarrow> nc_allocated (nd_connections s c) \<and> c \<notin> nd_spawned s) \<and>
     (c \<in> nd_spawned s \<longrightarrow> fresh_slot (conn_core (nd_connections s c)) (nd_trace s c)) \<and>
     (nc_allocated (nd_connections s c) \<longrightarrow> nd_registry_mutex s) \<and>
     history_sound net_event_sound (nd_trace s c) \<and>
     nc_service_claimed (nd_connections s c) = holds_claim (nd_trace s c) \<and>
     queue_ok (nd_connections s c)"

definition start_ok :: "'h network_dap \<Rightarrow> bool" where
  "start_ok s \<longleftrightarrow> (nd_registry_mutex s \<longrightarrow> identity_version (nd_identity s) \<noteq> None) \<and>
     (nd_starter s = None \<longrightarrow> \<not> nd_registry_mutex s) \<and>
     (nd_starter s = None \<longleftrightarrow> \<not> nd_initialization_started s)"

definition net_ok :: "'h network_dap \<Rightarrow> bool" where
  "net_ok s \<longleftrightarrow> (\<forall>c. slot_ok s c) \<and> claims_ok s \<and> start_ok s"

definition net_step :: "nat \<Rightarrow> 'h network_dap \<Rightarrow> 'h network_dap \<Rightarrow> bool" where
  "net_step i s s' \<longleftrightarrow>
     (\<forall>c. nd_task s c \<noteq> None \<and> nd_task s c \<noteq> Some i \<longrightarrow> nd_task s' c = nd_task s c \<and>
        conn_core (nd_connections s' c) = conn_core (nd_connections s c) \<and> nd_trace s' c = nd_trace s c) \<and>
     (\<forall>c. nd_task s' c = Some i \<or> nd_task s' c = None \<or> nd_task s' c = nd_task s c) \<and>
     (nd_starter s \<noteq> None \<and> nd_starter s \<noteq> Some i \<longrightarrow> nd_starter s' = nd_starter s \<and>
        nd_identity s' = nd_identity s \<and> nd_registry_mutex s' = nd_registry_mutex s)"

definition net_idle :: "nat \<Rightarrow> 'h network_dap \<Rightarrow> bool" where
  "net_idle i s \<longleftrightarrow> (\<forall>c. nd_task s c \<noteq> Some i)"

definition world_step :: "'h network_dap \<Rightarrow> 'h network_dap \<Rightarrow> bool" where
  "world_step s s' \<longleftrightarrow> (\<exists>h. s' = s\<lparr>nd_world := h\<rparr>)"

abbreviation net_safe :: "nat \<Rightarrow> ('h network_dap \<Rightarrow> bool) \<Rightarrow> ('h network_dap, 'a) task \<Rightarrow> bool" where
  "net_safe \<equiv> safe net_ok net_step world_step net_idle"

definition serving :: "nat \<Rightarrow> nat \<Rightarrow> network_connection \<Rightarrow> net_event list \<Rightarrow> 'h network_dap \<Rightarrow> bool" where
  "serving i c x es s \<longleftrightarrow> (\<forall>d. nd_task s d = Some i \<longleftrightarrow> d = c) \<and> conn_core (nd_connections s c) = x \<and>
     nd_trace s c = es"

lemma world_simps [simp]:
  "slot_ok (s\<lparr>nd_world := h\<rparr>) c = slot_ok s c" "claims_ok (s\<lparr>nd_world := h\<rparr>) = claims_ok s"
  "start_ok (s\<lparr>nd_world := h\<rparr>) = start_ok s" "net_ok (s\<lparr>nd_world := h\<rparr>) = net_ok s"
  "net_step i s (t\<lparr>nd_world := h\<rparr>) = net_step i s t" "net_step i (s\<lparr>nd_world := h\<rparr>) t = net_step i s t"
  "net_idle i (s\<lparr>nd_world := h\<rparr>) = net_idle i s"
  "serving i c x es (s\<lparr>nd_world := h\<rparr>) = serving i c x es s"
  by (simp_all add: slot_ok_def claims_ok_def service_claimed_flag_def start_ok_def net_ok_def net_step_def
      net_idle_def serving_def)

lemma net_step_refl [simp]: "net_step i s s"
  by (simp add: net_step_def)

lemma net_step_keeps:
  assumes "net_step j s s'" "j \<noteq> i" "nd_task s c = Some i"
  shows "nd_task s' c = Some i" "conn_core (nd_connections s' c) = conn_core (nd_connections s c)"
    "nd_trace s' c = nd_trace s c"
  using assms by (auto simp: net_step_def)

lemma net_step_new: "net_step j s s' \<Longrightarrow> j \<noteq> i \<Longrightarrow> nd_task s' c = Some i \<Longrightarrow> nd_task s c = Some i"
  unfolding net_step_def by (elim conjE allE [of _ c]) auto

lemma stableI:
  assumes "\<And>s h. P s \<Longrightarrow> P (s\<lparr>nd_world := h\<rparr>)" "\<And>j s s'. net_ok s \<Longrightarrow> P s \<Longrightarrow> j \<noteq> i \<Longrightarrow> net_step j s s' \<Longrightarrow> P s'"
  shows "stable net_ok net_step world_step i P"
  unfolding stable_def
proof (intro allI impI, elim conjE disjE exE)
  fix s s' :: "'a network_dap" assume "P s" "world_step s s'"
  then show "P s'" using assms(1) by (auto simp: world_step_def)
next
  fix s s' :: "'a network_dap" and j assume "net_ok s" "P s" "j \<noteq> i" "net_step j s s'"
  then show "P s'" by (rule assms(2))
qed

lemma stable_serving [simp]: "stable net_ok net_step world_step i (serving i c x es)"
proof (rule stableI)
  fix s s' :: "'h network_dap" and j
  assume s: "serving i c x es s" "j \<noteq> i" "net_step j s s'"
  then have "nd_task s c = Some i" by (simp add: serving_def)
  note keeps = net_step_keeps [OF s(3,2) this]
  have "d = c" if "nd_task s' d = Some i" for d
    using net_step_new [OF s(3,2) that] s(1) by (simp add: serving_def)
  then show "serving i c x es s'"
    using s(1) keeps unfolding serving_def by metis
qed simp

lemma stable_idle [simp]: "stable net_ok net_step world_step i (net_idle i)"
proof (rule stableI)
  fix s s' :: "'h network_dap" and j
  assume s: "net_idle i s" "j \<noteq> i" "net_step j s s'"
  show "net_idle i s'"
    using net_step_new [OF s(3,2)] s(1) by (auto simp: net_idle_def)
qed simp

lemma safe_stuck: "stable net_ok net_step world_step i P \<Longrightarrow> net_safe i P stuck"
  by (rule safe.action) auto

lemma safe_net_call:
  assumes "\<And>a. net_safe i P (k a)" "\<And>s h. P s \<Longrightarrow> P (s\<lparr>nd_world := h\<rparr>)"
  shows "net_safe i P (net_call t k)"
  unfolding net_call_def by (rule safe_call [OF assms(1)]) (simp add: assms(2))

text \<open>A change of the connection that the task serves.\<close>

lemma own_update:
  assumes "net_ok s" "serving i c x es s" "nc_allocated y = nc_allocated x" "nc_uart y = nc_uart x"
    "nc_service_claimed y = nc_service_claimed x" "queue_ok y"
    "history_sound net_event_sound es'" "holds_claim es' = holds_claim es"
  defines "s' \<equiv> s\<lparr>nd_connections := (nd_connections s)(c := y), nd_trace := (nd_trace s)(c := es')\<rparr>"
  shows "net_ok s' \<and> net_step i s s' \<and> serving i c (conn_core y) es' s'"
proof -
  have x: "nc_allocated x = nc_allocated (nd_connections s c)" "nc_uart x = nc_uart (nd_connections s c)"
      "nc_service_claimed x = nc_service_claimed (nd_connections s c)" and es: "nd_trace s c = es"
      and own: "nd_task s d = Some i \<longleftrightarrow> d = c" for d
    using assms(2) by (auto simp: serving_def conn_core_def)
  have "slot_ok s c" using assms(1) by (simp add: net_ok_def)
  then have "slot_ok s' c"
    using assms(3-8) x es own [of c] by (simp add: slot_ok_def s'_def)
  moreover have "slot_ok s' d" if "d \<noteq> c" for d
    using assms(1) that by (simp add: net_ok_def slot_ok_def s'_def)
  moreover have "claims_ok s'"
  proof -
    have "nc_service_claimed (nd_connections s' d) = nc_service_claimed (nd_connections s d)"
      "nc_uart (nd_connections s' d) = nc_uart (nd_connections s d)" for d
      by (simp_all add: s'_def assms(4,5) x)
    moreover have "service_claimed_flag u s' = service_claimed_flag u s" for u
      by (simp add: s'_def service_claimed_flag_def)
    ultimately show ?thesis
      using assms(1) unfolding net_ok_def claims_ok_def by presburger
  qed
  moreover have "start_ok s'"
    using assms(1) by (simp add: net_ok_def start_ok_def s'_def)
  ultimately have "net_ok s'" unfolding net_ok_def by metis
  then show ?thesis
    using own by (auto simp: net_step_def serving_def s'_def)
qed

section \<open>Rules for the actions\<close>

lemma safe_atomic_ex:
  assumes "stable net_ok net_step world_step i P"
    and "\<And>s. net_ok s \<Longrightarrow> P s \<Longrightarrow>
      wp m (\<lambda>b s'. net_ok s' \<and> net_step i s s' \<and> (\<exists>Q. Q s' \<and> net_safe i Q (k b))) s"
  shows "net_safe i P (atomic m k)"
  unfolding atomic_def
proof (rule safe.action [OF assms(1)])
  fix s t s' assume "net_ok s" "P s" "(case run_state m s of (b, s') \<Rightarrow> Some (k b, s')) = Some (t, s')"
  then show "net_ok s' \<and> net_step i s s' \<and> (\<exists>Q. Q s' \<and> net_safe i Q t)"
    using assms(2) [of s] by (auto simp: wp_def split: prod.splits)
qed

lemma safe_reads:
  assumes "stable net_ok net_step world_step i P" "\<And>s. net_ok s \<Longrightarrow> P s \<Longrightarrow> net_safe i P (k (f s))"
  shows "net_safe i P (atomic (reads f) k)"
  by (rule safe_atomic_ex [OF assms(1)]) (use assms(2) in \<open>auto simp: wp_simps\<close>)

lemma safe_update:
  assumes "stable net_ok net_step world_step i P"
    and "\<And>s. net_ok s \<Longrightarrow> P s \<Longrightarrow> net_ok (f s) \<and> net_step i s (f s) \<and> Q (f s)"
    and "net_safe i Q (k ())"
  shows "net_safe i P (atomic (updates f) k)"
proof (rule safe_atomic_ex [OF assms(1)])
  fix s assume "net_ok s" "P s"
  from assms(2) [OF this] assms(3)
  show "wp (updates f) (\<lambda>b s'. net_ok s' \<and> net_step i s s' \<and> (\<exists>Q. Q s' \<and> net_safe i Q (k b))) s"
    by (simp add: wp_simps) blast
qed

lemma safe_section:
  assumes "stable net_ok net_step world_step i P" "\<And>s h. P s \<Longrightarrow> P (s\<lparr>nd_world := h\<rparr>)"
    and "net_safe i P (k failed)"
    and "\<And>s. net_ok s \<Longrightarrow> P s \<Longrightarrow> nd_registry_mutex s \<Longrightarrow>
      wp m (\<lambda>b s'. net_ok s' \<and> net_step i s s' \<and> (\<exists>Q. Q s' \<and> net_safe i Q (k b))) s"
  shows "net_safe i P (atomic (with_registry E failed m) k)"
proof (rule safe_atomic_ex [OF assms(1)])
  fix s :: "'a network_dap" assume s: "net_ok s" "P s"
  let ?Q = "\<lambda>b s'. net_ok s' \<and> net_step i s s' \<and> (\<exists>Q. Q s' \<and> net_safe i Q (k b))"
  obtain taken h where t: "ne_take_mutex E (nd_world s) = (taken, h)" by fastforce
  have failed: "?Q failed (s\<lparr>nd_world := h\<rparr>)" for h
    using s assms(2,3) by auto
  have failed0: "?Q failed s"
    using s assms(3) by auto
  have "wp m ?Q (s\<lparr>nd_world := h\<rparr>)" if "nd_registry_mutex s"
    using assms(4) [of "s\<lparr>nd_world := h\<rparr>"] s assms(2) that by simp
  then show "wp (with_registry E failed m) ?Q s"
    using failed failed0 t
    by (auto simp: with_registry_def registry_lock_def wp_def split: prod.splits)
qed

lemma safe_own_section:
  assumes "net_safe i (serving i c x es) (k failed)"
    and "\<And>s. net_ok s \<Longrightarrow> serving i c x es s \<Longrightarrow> nd_registry_mutex s \<Longrightarrow>
      wp m (\<lambda>b s'. net_ok s' \<and> net_step i s s' \<and> (\<exists>Q. Q s' \<and> net_safe i Q (k b))) s"
  shows "net_safe i (serving i c x es) (atomic (with_registry E failed m) k)"
  by (rule safe_section [where P = "serving i c x es"]) (simp, simp, rule assms(1), rule assms(2))

lemma conn_core_back: "conn_core conn = x \<Longrightarrow> conn = x\<lparr>nc_response_queue := nc_response_queue conn\<rparr>"
  by (auto simp: conn_core_def)

lemma serving_conn: "serving i c x es s \<Longrightarrow> \<exists>q. nd_connections s c = x\<lparr>nc_response_queue := q\<rparr>"
  using conn_core_back by (auto simp: serving_def)

lemma serving_history: "net_ok s \<Longrightarrow> serving i c x es s \<Longrightarrow> history_sound net_event_sound es"
  by (auto simp: net_ok_def slot_ok_def serving_def)

lemma serving_queue: "net_ok s \<Longrightarrow> queue_ok (nd_connections s c)"
  by (auto simp: net_ok_def slot_ok_def)

lemma serving_core: "serving i c x es s \<Longrightarrow> nc_response_queue x = None"
  by (auto simp: serving_def conn_core_def)

lemma safe_with_conn:
  assumes "\<And>q. net_safe i (serving i c x es) (f (x\<lparr>nc_response_queue := q\<rparr>))"
  shows "net_safe i (serving i c x es) (with_conn c f)"
  unfolding with_conn_def
  by (rule safe_reads [OF stable_serving]) (use assms serving_conn in fastforce)

text \<open>The claim of a connection is settled in the registry; no other event changes it.\<close>

definition keeps_claim :: "net_event \<Rightarrow> bool" where
  "keeps_claim e \<longleftrightarrow> \<not> started e \<and> e \<noteq> Net_claimed \<and> e \<noteq> Net_released"

lemma holds_claim_Cons: "keeps_claim e \<Longrightarrow> holds_claim (e # es) = holds_claim es"
  by (cases e) (auto simp: keeps_claim_def history_simps)

lemma own_change:
  assumes "net_ok s" "serving i c x es s" "nc_allocated y = nc_allocated x" "nc_uart y = nc_uart x"
    "nc_service_claimed y = nc_service_claimed x" "queue_ok y" "conn_core y = z"
  shows "net_ok (s\<lparr>nd_connections := (nd_connections s)(c := y)\<rparr>) \<and>
    net_step i s (s\<lparr>nd_connections := (nd_connections s)(c := y)\<rparr>) \<and>
    serving i c z es (s\<lparr>nd_connections := (nd_connections s)(c := y)\<rparr>)"
proof -
  have "nd_trace s c = es" using assms(2) by (simp add: serving_def)
  then have "(nd_trace s)(c := es) = nd_trace s" by auto
  with own_update [OF assms(1-6) serving_history [OF assms(1,2)] HOL.refl] assms(7) show ?thesis by simp
qed

lemma own_note:
  assumes "net_ok s" "serving i c x es s" "net_event_sound e es" "keeps_claim e"
  shows "net_ok (s\<lparr>nd_trace := (nd_trace s)(c := e # nd_trace s c)\<rparr>) \<and>
    net_step i s (s\<lparr>nd_trace := (nd_trace s)(c := e # nd_trace s c)\<rparr>) \<and>
    serving i c x (e # es) (s\<lparr>nd_trace := (nd_trace s)(c := e # nd_trace s c)\<rparr>)"
proof -
  have x: "conn_core (nd_connections s c) = x" "nd_trace s c = es" using assms(2) by (auto simp: serving_def)
  have y: "nc_allocated (nd_connections s c) = nc_allocated x" "nc_uart (nd_connections s c) = nc_uart x"
    "nc_service_claimed (nd_connections s c) = nc_service_claimed x"
    unfolding x(1) [symmetric] by (simp_all add: conn_core_def)
  have "history_sound net_event_sound (e # es)"
    using serving_history [OF assms(1,2)] assms(3) by simp
  from own_update [OF assms(1,2) y serving_queue [OF assms(1)] this holds_claim_Cons [OF assms(4)]]
  show ?thesis unfolding x fun_upd_triv by simp
qed

lemma safe_noting:
  assumes "net_event_sound e es" "keeps_claim e" "net_safe i (serving i c x (e # es)) k"
  shows "net_safe i (serving i c x es) (noting c e k)"
  unfolding noting_def net_note_def
  by (rule safe_update [OF stable_serving own_note [OF _ _ assms(1,2)] assms(3)])

text \<open>
  A change of the fields of the connection that leaves its slot, its kind, its claim and its queue
  alone.
\<close>

definition plain_change :: "(network_connection \<Rightarrow> network_connection) \<Rightarrow> network_connection \<Rightarrow> bool" where
  "plain_change f x \<longleftrightarrow> nc_allocated (f x) = nc_allocated x \<and> nc_uart (f x) = nc_uart x \<and>
     nc_service_claimed (f x) = nc_service_claimed x \<and> nc_response_queue (f x) = nc_response_queue x \<and>
     (\<forall>q. f (x\<lparr>nc_response_queue := q\<rparr>) = (f x)\<lparr>nc_response_queue := q\<rparr>)"

lemma plain_changeD:
  assumes "plain_change f x" "serving i c x es s"
  shows "nc_allocated (f (nd_connections s c)) = nc_allocated x" "nc_uart (f (nd_connections s c)) = nc_uart x"
    "nc_service_claimed (f (nd_connections s c)) = nc_service_claimed x"
    "nc_response_queue (f (nd_connections s c)) = nc_response_queue (nd_connections s c)"
    "conn_core (f (nd_connections s c)) = f x"
proof -
  obtain q where q: "nd_connections s c = x\<lparr>nc_response_queue := q\<rparr>" using serving_conn [OF assms(2)] ..
  have f: "f (nd_connections s c) = (f x)\<lparr>nc_response_queue := q\<rparr>" and x: "nc_response_queue (f x) = None"
    using assms(1) serving_core [OF assms(2)] q by (simp_all add: plain_change_def)
  show "nc_allocated (f (nd_connections s c)) = nc_allocated x" "nc_uart (f (nd_connections s c)) = nc_uart x"
    "nc_service_claimed (f (nd_connections s c)) = nc_service_claimed x"
    "nc_response_queue (f (nd_connections s c)) = nc_response_queue (nd_connections s c)"
    using assms(1) q f by (simp_all add: plain_change_def)
  show "conn_core (f (nd_connections s c)) = f x"
    using f x by (cases "f x") (simp add: conn_core_def)
qed

lemma queue_ok_cong: "queue_ok y \<Longrightarrow> nc_response_queue z = nc_response_queue y \<Longrightarrow> queue_ok z"
  by (simp add: queue_ok_def)

lemma own_plain_change:
  assumes "net_ok s" "serving i c x es s" "plain_change f x"
  shows "net_ok (s\<lparr>nd_connections := (nd_connections s)(c := f (nd_connections s c))\<rparr>) \<and>
    net_step i s (s\<lparr>nd_connections := (nd_connections s)(c := f (nd_connections s c))\<rparr>) \<and>
    serving i c (f x) es (s\<lparr>nd_connections := (nd_connections s)(c := f (nd_connections s c))\<rparr>)"
proof -
  note f = plain_changeD [OF assms(3,2)]
  show ?thesis
    by (rule own_change [OF assms(1,2) f(1-3) queue_ok_cong [OF serving_queue [OF assms(1)] f(4)] f(5)])
qed

lemma own_change_note:
  assumes "net_ok s" "serving i c x es s" "plain_change f x" "net_event_sound e es" "keeps_claim e"
  shows "net_ok (s\<lparr>nd_connections := (nd_connections s)(c := f (nd_connections s c)),
      nd_trace := (nd_trace s)(c := e # nd_trace s c)\<rparr>) \<and>
    net_step i s (s\<lparr>nd_connections := (nd_connections s)(c := f (nd_connections s c)),
      nd_trace := (nd_trace s)(c := e # nd_trace s c)\<rparr>) \<and>
    serving i c (f x) (e # es) (s\<lparr>nd_connections := (nd_connections s)(c := f (nd_connections s c)),
      nd_trace := (nd_trace s)(c := e # nd_trace s c)\<rparr>)"
proof -
  note f = plain_changeD [OF assms(3,2)]
  have es: "nd_trace s c = es" using assms(2) by (simp add: serving_def)
  have "history_sound net_event_sound (e # es)"
    using serving_history [OF assms(1,2)] assms(4) by simp
  from own_update [OF assms(1,2) f(1-3) queue_ok_cong [OF serving_queue [OF assms(1)] f(4)] this
      holds_claim_Cons [OF assms(5)]]
  show ?thesis unfolding f(5) es .
qed

lemma safe_set_conn:
  assumes "plain_change f x" "net_safe i (serving i c (f x) es) (k ())"
  shows "net_safe i (serving i c x es) (atomic (set_conn c f) k)"
  unfolding set_conn_def
  by (rule safe_update [where Q = "serving i c (f x) es", OF stable_serving])
    (rule own_plain_change [OF _ _ assms(1)] assms(2); assumption?)+

lemma safe_store:
  fixes k :: "bool \<Rightarrow> ('h network_dap, 'a) task"
  assumes "plain_change f x" "net_safe i (serving i c x es) (k False)" "net_safe i (serving i c (f x) es) (k True)"
  shows "net_safe i (serving i c x es)
    (atomic (with_registry E False (do { set_conn c f; State_Monad.return True })) k)"
proof (rule safe_own_section, rule assms(2))
  fix s :: "'h network_dap" assume "net_ok s" "serving i c x es s"
  from own_plain_change [OF this assms(1)] assms(3)
  show "wp (do { set_conn c f; State_Monad.return True })
      (\<lambda>b s'. net_ok s' \<and> net_step i s s' \<and> (\<exists>Q. Q s' \<and> net_safe i Q (k b))) s"
    by (simp add: wp_simps set_conn_def) blast
qed

section \<open>Sockets\<close>

lemma safe_make_nonblocking:
  assumes "\<And>a. net_safe i P (k a)" "\<And>s h. P s \<Longrightarrow> P (s\<lparr>nd_world := h\<rparr>)"
  shows "net_safe i P (make_nonblocking E fd k)"
  unfolding make_nonblocking_def
  by (intro safe_net_call) (auto split: option.split intro!: safe_net_call assms)

lemma safe_poll_timeout_ms:
  assumes "\<And>a. net_safe i P (k a)" "\<And>s h. P s \<Longrightarrow> P (s\<lparr>nd_world := h\<rparr>)"
  shows "net_safe i P (poll_timeout_ms E deadline_us k)"
  unfolding poll_timeout_ms_def by (auto simp: Let_def intro!: safe_net_call assms)

lemma safe_wait_for_socket:
  assumes "\<And>a. net_safe i P (k a)" "\<And>s h. P s \<Longrightarrow> P (s\<lparr>nd_world := h\<rparr>)"
  shows "net_safe i P (wait_for_socket fuel E fd events deadline_us k)"
proof (induction fuel arbitrary: deadline_us)
  case 0
  show ?case using safe_stuck [OF safe_stable [OF assms(1)]] by simp
next
  case (Suc fuel)
  show ?case
    by (auto intro!: safe_poll_timeout_ms safe_net_call assms Suc split: net_poll.split)
qed

definition read_extends :: "bytes \<Rightarrow> net_event list \<Rightarrow> net_event list \<Rightarrow> bool" where
  "read_extends d es es' \<longleftrightarrow> (\<exists>ds. es' = map Net_read ds @ es \<and> concat (rev ds) = d)"

lemma read_extends_refl [simp]: "read_extends [] es es"
  by (auto simp: read_extends_def intro: exI [of _ "[]"])

lemma read_extends_trans:
  "read_extends d es es' \<Longrightarrow> read_extends d' es' es'' \<Longrightarrow> read_extends (d @ d') es es''"
  unfolding read_extends_def by (metis append.assoc concat_append map_append rev_append)

lemma safe_tls_read_exact:
  assumes "length got \<le> n"
    and "\<And>r d es'. read_extends d es es' \<Longrightarrow> (r = IO_OK \<Longrightarrow> length (got @ d) = n) \<Longrightarrow>
      net_safe i (serving i c x es') (k (r, got @ d))"
  shows "net_safe i (serving i c x es) (tls_read_exact fuel E c auth fd n deadline_us got k)"
  using assms
proof (induction fuel arbitrary: got es)
  case 0
  show ?case by (simp add: safe_stuck)
next
  case (Suc fuel)
  have stop: "net_safe i (serving i c x es) (k (r, got))" if "r = IO_OK \<Longrightarrow> length got = n" for r
    using Suc.prems(2) [of "[]" es r] that by simp
  have more: "net_safe i (serving i c x es)
      (noting c (Net_read data) (tls_read_exact fuel E c auth fd n deadline_us (got @ data) k))"
    if fits: "length data \<le> n - length got" for data
  proof (rule safe_noting)
    show "net_safe i (serving i c x (Net_read data # es))
        (tls_read_exact fuel E c auth fd n deadline_us (got @ data) k)"
    proof (rule Suc.IH)
      fix r d es' assume d: "read_extends d (Net_read data # es) es'" "r = IO_OK \<Longrightarrow> length ((got @ data) @ d) = n"
      have "read_extends data es (Net_read data # es)"
        unfolding read_extends_def by (rule exI [of _ "[data]"]) simp
      from Suc.prems(2) [OF read_extends_trans [OF this d(1)], of r] d(2)
      show "net_safe i (serving i c x es') (k (r, (got @ data) @ d))" by simp
    qed (use fits Suc.prems(1) in simp)
  qed (simp_all add: net_event_sound_def keeps_claim_def started_def)
  show ?case
    using Suc.prems(1)
    by (auto intro!: stop safe_net_call more safe_stuck safe_wait_for_socket Suc.IH Suc.prems)
qed

lemma safe_tls_write_all:
  assumes "\<And>a. net_safe i P (k a)" "\<And>s h. P s \<Longrightarrow> P (s\<lparr>nd_world := h\<rparr>)"
  shows "net_safe i P (tls_write_all fuel E auth fd deadline_us data k)"
proof (induction fuel arbitrary: data deadline_us)
  case 0
  show ?case using safe_stuck [OF safe_stable [OF assms(1)]] by simp
next
  case (Suc fuel)
  show ?case
    by (auto simp: Let_def intro!: safe_wait_for_socket safe_net_call assms Suc)
qed

end
