(* ===== verification/Network_Gate.thy ===== *)
theory Network_Gate
  imports Network_Rules
begin

text \<open>
  Safety of reading and sending frames, and of the three services behind a control request, given
  what a connection knows while it serves one (\<open>request_at\<close>): the frame was read and accepted, and the
  session number it keeps was bound on this connection.
\<close>

section \<open>Frames\<close>

text \<open>What the decoder makes of a header and \<open>n\<close> bytes after it.\<close>

definition decode_result :: "nat \<Rightarrow> airdap_frame_header \<Rightarrow> airdap_frame_decode_status \<times> frame_decode_out option" where
  "decode_result n h =
     (if \<not> header_ok h then (FRAME_DECODE_INVALID_FRAME, Some \<lparr>out_header = zero_header, out_payload = None,
        out_frame_size = 0, out_error_code = validate_header (Some h)\<rparr>)
      else if n < payload_size h then
        (FRAME_DECODE_NEED_MORE_DATA, Some \<lparr>out_header = zero_header, out_payload = None,
         out_frame_size = 0, out_error_code = FRAME_ERROR_TRUNCATED\<rparr>)
      else (FRAME_DECODE_OK, Some \<lparr>out_header = h, out_payload = Some 20,
         out_frame_size = 20 + payload_size h, out_error_code = FRAME_ERROR_NONE\<rparr>))"

lemma decode_20:
  assumes "length b = 20 + n"
  obtains h where "header_bytes h = take 20 b"
    "airdap_frame_decode (Some b) (20 + n) True = Some (decode_result n h)"
proof -
  obtain h where h: "read_header b = Some h" "header_bytes h = take 20 b"
    using read_header_Some [of b] assms by auto
  show thesis
    by (rule that [OF h(2)])
      (use airdap_frame_decode_enough [OF _ _ h(1), of "20 + n"] assms in \<open>simp add: decode_result_def\<close>)
qed

lemma header_bytes_payload:
  "payload_size h = unat (be16 (header_bytes h ! 16) (header_bytes h ! 17))"
  by (simp add: header_bytes_def byte_simps)

lemma judge_too_large_rejects:
  assumes "length header = 20"
  shows "\<exists>r h. judge_too_large header = Some (Verdict r h) \<and> r \<noteq> FRAME_READ_OK"
proof -
  obtain h where d: "airdap_frame_decode (Some (header[16 := 0, 17 := 0])) (20 + 0) True = Some (decode_result 0 h)"
    by (rule decode_20 [of "header[16 := 0, 17 := 0]" 0]) (simp_all add: assms)
  show ?thesis
    by (cases "fh_type h = AIRDAP_FRAME_TYPE_DAP_REQUEST")
      (use assms d in \<open>auto simp: judge_too_large_def rd_def wr_def decode_result_def split: if_splits\<close>)
qed

lemma judge_header_cases:
  assumes "length header = 20"
  obtains (rejected) r h where "judge_header header = Some (Verdict r h)" "r \<noteq> FRAME_READ_OK"
  | (complete) h where "judge_header header = Some (Verdict FRAME_READ_OK h)" "wire_to_frame header = Some (h, [])"
  | (payload) h where "judge_header header = Some (Payload (payload_size h))" "header_ok h" "header = header_bytes h"
proof -
  obtain h where h: "header_bytes h = take 20 header"
      "airdap_frame_decode (Some header) (20 + 0) True = Some (decode_result 0 h)"
    by (rule decode_20 [of header 0]) (simp_all add: assms)
  have eq: "header = header_bytes h" using h(1) assms by simp
  consider "\<not> header_ok h" | "header_ok h" "payload_size h = 0" | "header_ok h" "payload_size h > 0" by blast
  then show thesis
  proof cases
    case 1
    show thesis
    proof (cases "validate_header (Some h) = FRAME_ERROR_PAYLOAD_TOO_LARGE")
      case True
      then show thesis
        using rejected judge_too_large_rejects [OF assms] 1 h(2) by (auto simp: judge_header_def decode_result_def)
    next
      case False
      then show thesis
        using rejected 1 h(2) by (simp add: judge_header_def decode_result_def)
    qed
  next
    case 2
    then have "wire_to_frame header = Some (h, [])"
      using eq by (simp add: wire_to_frame_iff)
    then show thesis
      using complete 2 h(2) by (simp add: judge_header_def decode_result_def)
  next
    case 3
    have "payload_size h \<le> 4096"
      using 3(1) by (simp add: header_ok_def validate_header_None word_le_nat_alt)
    then have "judge_header header = Some (Payload (payload_size h))"
      using 3 h(2) assms header_bytes_payload [of h] eq by (simp add: judge_header_def decode_result_def rd_def)
    then show thesis
      using payload 3(1) eq by blast
  qed
qed

lemma judge_frame_complete:
  assumes "header_ok h" "length p = payload_size h"
  shows "judge_frame (header_bytes h @ p) = Some (FRAME_READ_OK, h)"
proof -
  have "length (header_bytes h @ p) = 20 + payload_size h" using assms(2) by simp
  then have "airdap_frame_decode (Some (header_bytes h @ p)) (length (header_bytes h @ p)) True =
      Some (decode_result (payload_size h) h)"
    using airdap_frame_decode_enough [of "20 + payload_size h" "header_bytes h @ p" h] read_header_bytes
    by (simp add: decode_result_def)
  then show ?thesis
    using assms(1) by (simp add: judge_frame_def decode_result_def)
qed

lemma safe_read_frame:
  assumes "\<And>r h p d es'. read_extends d es es' \<Longrightarrow> (r = FRAME_READ_OK \<Longrightarrow> wire_to_frame d = Some (h, p)) \<Longrightarrow>
      net_safe i (serving i c x es') (k (r, h, p))"
  shows "net_safe i (serving i c x es) (read_frame fuel E c deadline_us k)"
  unfolding read_frame_def
proof (rule safe_with_conn, rule safe_tls_read_exact, simp)
  fix q r d es'
  assume d: "read_extends d es es'" "r = IO_OK \<Longrightarrow> length ([] @ d) = 20"
  let ?conn = "x\<lparr>nc_response_queue := q\<rparr>"
  have failed: "net_safe i (serving i c x es'') (k (frame_result r, zero_header, []))"
    if "r \<noteq> IO_OK" "read_extends d' es es''" for r d' es''
    by (rule assms [OF that(2)]) (use that(1) in \<open>cases r; simp add: frame_result_def\<close>)
  have read: "net_safe i (serving i c x es') (read_payload fuel E c ?conn deadline_us d (payload_size h) k)"
    if "header_ok h" "d = header_bytes h" for h
    unfolding read_payload_def
  proof (rule safe_tls_read_exact, simp)
    fix r p es''
    assume p: "read_extends p es' es''" "r = IO_OK \<Longrightarrow> length ([] @ p) = payload_size h"
    have all: "read_extends (d @ p) es es''" by (rule read_extends_trans [OF d(1) p(1)])
    show "net_safe i (serving i c x es'') (case (r, [] @ p) of (payload_result, payload) \<Rightarrow>
        if payload_result \<noteq> IO_OK then k (frame_result payload_result, zero_header, [])
        else case judge_frame (d @ payload) of None \<Rightarrow> net_fault c
          | Some (result, request) \<Rightarrow> k (result, request, payload))"
    proof (cases "r = IO_OK")
      case True
      then have "wire_to_frame (d @ p) = Some (h, p)"
        using that p(2) by (simp add: wire_to_frame_iff)
      with assms [OF all] True that p(2) show ?thesis
        by (simp add: judge_frame_complete)
    next
      case False
      then show ?thesis using failed [OF _ all] by simp
    qed
  qed
  show "net_safe i (serving i c x es') (case (r, [] @ d) of (header_result, header) \<Rightarrow>
      if header_result \<noteq> IO_OK then k (frame_result header_result, zero_header, [])
      else case judge_header header of None \<Rightarrow> net_fault c
        | Some (Verdict result request) \<Rightarrow> k (result, request, [])
        | Some (Payload n) \<Rightarrow> read_payload fuel E c ?conn deadline_us header n k)"
  proof (cases "r = IO_OK")
    case True
    then have "length d = 20" using d(2) by simp
    then show ?thesis
    proof (cases rule: judge_header_cases)
      case (rejected r' h)
      then show ?thesis using True assms [OF d(1), of r' h "[]"] by simp
    next
      case (complete h)
      then show ?thesis using True assms [OF d(1)] by simp
    next
      case (payload h)
      with True read [of h] show ?thesis by simp
    qed
  next
    case False
    then show ?thesis using failed [OF _ d(1)] by simp
  qed
qed

lemma encode_response_total:
  assumes "fh_payload_length h = of_nat (case p of None \<Rightarrow> 0 | Some p \<Rightarrow> length p)"
    "(case p of None \<Rightarrow> 0 | Some p \<Rightarrow> length p) \<le> 65535"
  shows "\<exists>r. encode_response h p = Some r"
proof -
  have n: "payload_size h = (case p of None \<Rightarrow> 0 | Some p \<Rightarrow> length p)"
    using assms by (simp add: unat_of_nat take_bit_nat_eq_self)
  have "\<exists>out. write_header (replicate 528 0) h = Some out \<and> length out = 528"
    using write_header_bytes [of "replicate 528 0" h] by simp
  then obtain out where out: "write_header (replicate 528 0) h = Some out" "length out = 528" by blast
  show ?thesis
    using n out
    by (auto simp: encode_response_def airdap_frame_encode_def Let_def wr_bytes_def word_gt_0_no unat_eq_0
        split: option.splits)
qed

lemma safe_send_frame:
  assumes "response_matches (response_header request type (case p of None \<Rightarrow> 0 | Some p \<Rightarrow> length p))
      (case p of None \<Rightarrow> [] | Some p \<Rightarrow> p) es"
    and "net_safe i (serving i c x es) (k False)"
    and "\<And>h q ok. fh_type h = type \<Longrightarrow> net_safe i (serving i c x (Net_sent h q # es)) (k ok)"
  shows "net_safe i (serving i c x es) (send_frame fuel E c request type p k)"
proof -
  let ?n = "case p of None \<Rightarrow> 0 | Some p \<Rightarrow> length p" and ?q = "case p of None \<Rightarrow> [] | Some p \<Rightarrow> p"
  let ?h = "response_header request type ?n"
  have sent: "net_safe i (serving i c x es) (with_conn c (\<lambda>conn. noting c (Net_sent ?h ?q)
      (net_call (ne_get_time E) (\<lambda>now. tls_write_all fuel E (nc_auth_connection conn) (nc_socket_fd conn)
        (now + 5000000) encoded (\<lambda>result. k (result = IO_OK))))))" for encoded
    by (intro safe_with_conn safe_noting safe_net_call safe_tls_write_all assms(3))
      (use assms(1) in \<open>simp_all add: net_event_sound_def keeps_claim_def started_def response_header_def\<close>)
  show ?thesis
  proof (cases "?n \<le> 65535")
    case True
    then obtain r where r: "encode_response ?h p = Some r"
      using encode_response_total [of ?h p] by (auto simp: response_header_def)
    have "\<not> ?n > 65535" using True by simp
    then show ?thesis
      unfolding send_frame_def Let_def r using sent assms(2) by (cases r) simp_all
  next
    case False
    then show ?thesis using assms(2) by (simp add: send_frame_def Let_def)
  qed
qed

lemma error_response_matches: "response_matches (response_header request AIRDAP_FRAME_TYPE_ERROR n) p es"
  by (simp add: response_matches_def response_header_def)

lemma safe_send_error:
  assumes "\<And>es' ok. es' = es \<or> (\<exists>h p. es' = Net_sent h p # es) \<Longrightarrow> net_safe i (serving i c x es') (k ok)"
  shows "net_safe i (serving i c x es) (send_error fuel E c request error k)"
proof (cases "valid_error_code error")
  case True
  then show ?thesis
    unfolding send_error_def
    by (subst error_code_encode_eq)
      (auto intro!: safe_send_frame error_response_matches assms)
next
  case False
  then show ?thesis
    using assms by (simp add: send_error_def airdap_frame_error_code_encode_def)
qed

section \<open>What a connection knows\<close>

definition bound_ok :: "network_connection \<Rightarrow> net_event list \<Rightarrow> bool" where
  "bound_ok x es \<longleftrightarrow> (nc_auth_session_id x \<noteq> 0 \<longrightarrow>
     Net_bound (nc_auth_session_id x) \<in> set (this_connection es) \<and> Net_hello \<in> set (this_connection es) \<and>
     holds_claim es)"

definition validator_tracks :: "airdap_frame_sequence_validator option \<Rightarrow> airdap_frame_header list \<Rightarrow> bool" where
  "validator_tracks validator hs = (case validator of
       None \<Rightarrow> hs = []
     | Some v \<Rightarrow> (case hs of [] \<Rightarrow> sv_expected_sequence v = AIRDAP_FRAME_INITIAL_SEQUENCE
         | h # _ \<Rightarrow> sv_expected_sequence v = airdap_frame_next_sequence (fh_sequence h) \<and>
             fh_session_id h = sv_session_id v))"

definition loop_ok ::
    "network_connection \<Rightarrow> net_flags \<Rightarrow> airdap_frame_sequence_validator option \<Rightarrow> net_event list \<Rightarrow> bool" where
  "loop_ok x flags validator es \<longleftrightarrow> connection_kind es = Some (nc_uart x) \<and> bytes_read es = [] \<and>
     (fst flags \<longrightarrow> Net_hello \<in> set (this_connection es)) \<and>
     (\<not> snd flags \<longrightarrow> nc_auth_session_id x = 0 \<and> (\<forall>sid. Net_bound sid \<notin> set (this_connection es))) \<and>
     bound_ok x es \<and> validator_tracks validator (accepted_requests es)"

definition request_at ::
    "network_connection \<Rightarrow> net_flags \<Rightarrow> airdap_frame_sequence_validator \<Rightarrow> airdap_frame_header \<Rightarrow> bytes \<Rightarrow>
     net_event list \<Rightarrow> bool" where
  "request_at x flags v request payload es \<longleftrightarrow> loop_ok x flags (Some v) es \<and>
     request_frame es = Some (request, payload) \<and> Net_accepted request \<in> set (this_request es) \<and>
     length payload = payload_size request"

text \<open>The events of serving a request.\<close>

definition plain :: "net_event \<Rightarrow> bool" where
  "plain e = (case e of Net_sent _ _ \<Rightarrow> True | Net_validated _ \<Rightarrow> True | Net_submitted _ _ \<Rightarrow> True
     | Net_answer _ _ \<Rightarrow> True | Net_board _ _ \<Rightarrow> True | Net_uart _ \<Rightarrow> True | Net_ota _ \<Rightarrow> True
     | Net_hello \<Rightarrow> True | _ \<Rightarrow> False)"

lemma plain_Cons:
  assumes "plain e"
  shows "connection_kind (e # es) = connection_kind es" "bytes_read (e # es) = bytes_read es"
    "this_connection (e # es) = e # this_connection es" "this_request (e # es) = e # this_request es"
    "holds_claim (e # es) = holds_claim es" "accepted_requests (e # es) = accepted_requests es"
    "request_frame (e # es) = request_frame es" "Net_bound sid \<noteq> e" "Net_accepted h \<noteq> e" "keeps_claim e"
  using assms by (cases e; simp add: plain_def history_simps keeps_claim_def)+

lemma loop_ok_plain: "plain e \<Longrightarrow> loop_ok x flags v es \<Longrightarrow> loop_ok x flags v (e # es)"
  unfolding loop_ok_def bound_ok_def by (auto simp: plain_Cons)

lemma request_at_plain: "plain e \<Longrightarrow> request_at x flags v r p es \<Longrightarrow> request_at x flags v r p (e # es)"
  unfolding request_at_def by (auto simp: plain_Cons loop_ok_plain)

lemma session_valid_plain: "plain e \<Longrightarrow> session_valid es \<Longrightarrow> session_valid (e # es)"
  unfolding session_valid_def by (auto simp: plain_Cons)

lemma loop_ok_cong:
  "loop_ok x flags v es \<Longrightarrow> nc_uart y = nc_uart x \<Longrightarrow> nc_auth_session_id y = nc_auth_session_id x \<Longrightarrow>
   loop_ok y flags v es"
  by (simp add: loop_ok_def bound_ok_def)

lemma request_at_cong:
  "request_at x flags v r p es \<Longrightarrow> nc_uart y = nc_uart x \<Longrightarrow> nc_auth_session_id y = nc_auth_session_id x \<Longrightarrow>
   request_at y flags v r p es"
  unfolding request_at_def by (auto intro: loop_ok_cong)

lemma request_at_loop: "request_at x flags v r p es \<Longrightarrow> loop_ok x flags (Some v) es"
  by (simp add: request_at_def)

lemma plain_simps [simp]:
  "plain (Net_sent h p)" "plain (Net_validated sid)" "plain (Net_submitted t p)" "plain (Net_answer t p)"
  "plain (Net_board u b)" "plain (Net_uart u)" "plain (Net_ota u)" "plain Net_hello"
  by (simp_all add: plain_def)

lemma session_valid_now:
  assumes "request_at x flags v r p es" "nc_auth_session_id x \<noteq> 0"
  shows "session_valid (Net_validated (nc_auth_session_id x) # es)"
  using assms by (auto simp: session_valid_def request_at_def loop_ok_def bound_ok_def plain_Cons
      intro!: exI [of _ "nc_auth_session_id x"])

lemma request_admitted_at:
  "request_at x flags v r p es \<Longrightarrow> session_valid es \<Longrightarrow> request_admitted (nc_uart x) (fh_type r) p es"
  by (simp add: request_admitted_def request_at_def loop_ok_def)

section \<open>Validation and replies\<close>

lemma safe_request_error:
  assumes "request_at x flags v r p es"
    and "\<And>es' ok. request_at x flags v r p es' \<Longrightarrow> net_safe i (serving i c x es') (k ok)"
  shows "net_safe i (serving i c x es) (send_error fuel E c request error k)"
proof (rule safe_send_error)
  fix es' ok assume "es' = es \<or> (\<exists>h q. es' = Net_sent h q # es)"
  then have "request_at x flags v r p es'"
    using assms(1) request_at_plain [OF _ assms(1)] by auto
  then show "net_safe i (serving i c x es') (k ok)" by (rule assms(2))
qed

lemma safe_session_validate:
  assumes "\<And>r. r \<noteq> AUTH_OK \<Longrightarrow> net_safe i (serving i c x es) (k r)"
    and "net_safe i (serving i c x (Net_validated sid # es)) (k AUTH_OK)"
  shows "net_safe i (serving i c x es) (session_validate E c auth sid k)"
  unfolding session_validate_def
proof (rule safe_net_call)
  fix result
  show "net_safe i (serving i c x es) (if result = AUTH_OK then noting c (Net_validated sid) (k result) else k result)"
    using assms by (auto intro!: safe_noting simp: net_event_sound_def plain_Cons)
qed simp

lemma safe_net_validate:
  assumes "net_safe i (serving i c x es) (k False)" "net_safe i (serving i c x (Net_validated sid # es)) (k True)"
  shows "net_safe i (serving i c x es) (net_validate E c auth sid k)"
  unfolding net_validate_def by (rule safe_session_validate) (use assms in simp_all)

lemma safe_authorize:
  assumes "request_at x flags v r p es"
    and "net_safe i (serving i c x es) (k False)"
    and "\<And>es'. request_at x flags v r p es' \<Longrightarrow> session_valid es' \<Longrightarrow> net_safe i (serving i c x es') (k True)"
  shows "net_safe i (serving i c x es) (authorize E c auth (nc_auth_session_id x) k)"
  unfolding authorize_def
  using assms request_at_plain [OF _ assms(1)] session_valid_now [OF assms(1)]
  by (auto intro!: safe_net_validate)

lemma safe_validate_bound_session:
  assumes "request_at x flags v r p es"
    and "net_safe i (serving i c x es) (k False)"
    and "\<And>sid. session_valid (Net_validated sid # es) \<Longrightarrow> net_safe i (serving i c x (Net_validated sid # es)) (k True)"
  shows "net_safe i (serving i c x es) (validate_bound_session E c k)"
  unfolding validate_bound_session_def
proof (rule safe_with_conn)
  fix q
  have "net_safe i (serving i c x es) (if nc_auth_session_id x = 0 then k False
      else net_validate E c (nc_auth_connection x) (nc_auth_session_id x) k)"
    using assms(2,3) session_valid_now [OF assms(1)] by (auto intro!: safe_net_validate)
  then show "net_safe i (serving i c x es) (let validate = (if nc_auth_session_id (x\<lparr>nc_response_queue := q\<rparr>) = 0 then k False
       else net_validate E c (nc_auth_connection (x\<lparr>nc_response_queue := q\<rparr>)) (nc_auth_session_id (x\<lparr>nc_response_queue := q\<rparr>)) k) in
     if nc_uart (x\<lparr>nc_response_queue := q\<rparr>)
     then net_call (ne_network_data_enabled E) (\<lambda>enabled. if \<not> enabled then k False else validate)
     else validate)"
    using assms(2) by (auto simp: Let_def intro!: safe_net_call)
qed

section \<open>The services behind a control request\<close>

text \<open>A request whose continuation is safe wherever its connection is between two requests.\<close>

definition replies_safely ::
    "nat \<Rightarrow> nat \<Rightarrow> network_connection \<Rightarrow> net_flags \<Rightarrow> airdap_frame_sequence_validator \<Rightarrow> airdap_frame_header \<Rightarrow>
     bytes \<Rightarrow> ('r \<Rightarrow> ('h network_dap, 'a) task) \<Rightarrow> bool" where
  "replies_safely i c x flags v request p k \<longleftrightarrow>
     (\<forall>r es. request_at x flags v request p es \<longrightarrow> net_safe i (serving i c x es) (k r))"

lemma replies_safelyD:
  "replies_safely i c x flags v request p k \<Longrightarrow> request_at x flags v request p es \<Longrightarrow>
   net_safe i (serving i c x es) (k r)"
  by (simp add: replies_safely_def)

lemma operation_sound:
  assumes "request_at x flags v request p es" "session_valid es" "p \<noteq> []"
    "fh_type request = AIRDAP_FRAME_TYPE_CONTROL_REQUEST"
  shows "\<not> nc_uart x \<Longrightarrow> net_event_sound (Net_board (p ! 0) b) es"
    "\<not> nc_uart x \<Longrightarrow> net_event_sound (Net_ota (p ! 0)) es"
    "nc_uart x \<Longrightarrow> net_event_sound (Net_uart (p ! 0)) es"
  using request_admitted_at [OF assms(1,2)] assms(3,4) by (auto simp: net_event_sound_def)

lemma safe_control_operate:
  assumes "request_at x flags v request p es" "session_valid es" "p \<noteq> []" "\<not> nc_uart x"
    "fh_type request = AIRDAP_FRAME_TYPE_CONTROL_REQUEST" "replies_safely i c x flags v request p k"
  shows "net_safe i (serving i c x es) (control_operate E c (p ! 0) b k)"
proof -
  have at: "request_at x flags v request p (Net_board u b # es)" for u
    by (rule request_at_plain [OF _ assms(1)]) simp
  show ?thesis
    unfolding control_operate_def
    by (rule safe_noting [OF operation_sound(1) [OF assms(1-3,5,4)]])
      (auto simp: plain_Cons intro!: safe_net_call replies_safelyD [OF assms(6) at])
qed

lemma safe_control_reserved:
  assumes "request_at x flags v request p es" "p \<noteq> []" "\<not> nc_uart x" "nc_auth_session_id x \<noteq> 0"
    "fh_type request = AIRDAP_FRAME_TYPE_CONTROL_REQUEST" "replies_safely i c x flags v request p k"
  shows "net_safe i (serving i c x es) (control_reserved E c auth (nc_auth_session_id x) (p ! 0) b operation k)"
proof -
  have finish: "replies_safely i c x flags v request p (\<lambda>r. net_call (ne_operation_end E operation) (\<lambda>_. k (f r)))"
    for f :: "'r \<Rightarrow> airdap_frame_error_code \<times> bytes"
    unfolding replies_safely_def by (auto intro!: safe_net_call replies_safelyD [OF assms(6)])
  have ended: "net_safe i (serving i c x es) (net_call (ne_operation_end E operation) (\<lambda>_. k r))" for r
    by (intro safe_net_call replies_safelyD [OF assms(6,1)]) simp
  have at: "request_at x flags v request p (Net_validated (nc_auth_session_id x) # es)"
    by (rule request_at_plain [OF _ assms(1)]) simp
  show ?thesis
    unfolding control_reserved_def Let_def
    by (auto intro!: safe_net_validate ended
        safe_control_operate [OF at session_valid_now [OF assms(1,4)] assms(2,3,5)] finish
        simp: case_prod_unfold)
qed

lemma safe_control_dispatch:
  assumes "request_at x flags v request p es" "\<not> nc_uart x"
    "fh_type request = AIRDAP_FRAME_TYPE_CONTROL_REQUEST" "replies_safely i c x flags v request p k"
  shows "net_safe i (serving i c x es) (airdap_network_control_dispatch E c auth (nc_auth_session_id x)
    (Some p) (payload_size request) response response_size k)"
proof -
  have n: "payload_size request = 0 \<longleftrightarrow> p = []"
    using assms(1) by (auto simp: request_at_def)
  have perform: "net_safe i (serving i c x es') (if \<not> True then k (FRAME_ERROR_UNAUTHENTICATED, [])
        else if payload_size request = 0 then k (FRAME_ERROR_TRUNCATED, [])
        else case Some p of None \<Rightarrow> k (FRAME_ERROR_INVALID_ARGUMENT, [])
        | Some data \<Rightarrow> (case control_required_size (data ! 0) of
            None \<Rightarrow> k (FRAME_ERROR_UNSUPPORTED_TYPE, [])
          | Some required_size \<Rightarrow>
              if payload_size request < required_size then k (FRAME_ERROR_TRUNCATED, [])
              else if payload_size request \<noteq> required_size \<or> (required_size = 2 \<and> data ! 1 > 1)
              then k (FRAME_ERROR_INVALID_ARGUMENT, [])
              else net_call (ne_control_operation_begin E) (\<lambda>(admission, operation).
                if admission \<noteq> DAP_ALLOWED
                then k (if admission = DAP_BUSY \<or> admission = DAP_OFFLINE then FRAME_ERROR_BUSY
                        else FRAME_ERROR_INTERNAL, [])
                else control_reserved E c auth (nc_auth_session_id x) (data ! 0) (required_size = 2 \<and> data ! 1 \<noteq> 0)
                  operation k)))"
    if at: "request_at x flags v request p es'" and sid: "nc_auth_session_id x \<noteq> 0" for es'
    using n by (auto split: option.split
        intro!: safe_net_call replies_safelyD [OF assms(4) at] safe_control_reserved [OF at _ assms(2) sid assms(3,4)])
  have at: "request_at x flags v request p (Net_validated (nc_auth_session_id x) # es)"
    by (rule request_at_plain [OF _ assms(1)]) simp
  show ?thesis
    unfolding airdap_network_control_dispatch_def authorize_def
    using perform [OF at] replies_safelyD [OF assms(4,1)] by (auto intro!: safe_net_validate)
qed

lemma safe_ota_perform:
  assumes "request_at x flags v request p es" "session_valid es" "p \<noteq> []" "\<not> nc_uart x"
    "fh_type request = AIRDAP_FRAME_TYPE_CONTROL_REQUEST" "replies_safely i c x flags v request p k"
  shows "net_safe i (serving i c x es) (ota_perform E c auth sid p capacity k)"
proof -
  have at: "request_at x flags v request p (Net_ota u # es)" for u
    by (rule request_at_plain [OF _ assms(1)]) simp
  show ?thesis
    unfolding ota_perform_def Let_def
    by (rule safe_noting [OF operation_sound(2) [OF assms(1-3,5,4)]])
      (auto simp: plain_Cons split: option.split
        intro!: safe_net_call safe_stuck replies_safelyD [OF assms(6) at])
qed

lemma safe_ota_dispatch:
  assumes "request_at x flags v request p es" "\<not> nc_uart x" "p \<noteq> []"
    "fh_type request = AIRDAP_FRAME_TYPE_CONTROL_REQUEST" "replies_safely i c x flags v request p k"
  shows "net_safe i (serving i c x es) (airdap_network_ota_dispatch E c auth (nc_auth_session_id x)
    (Some p) n response capacity response_size k)"
  unfolding airdap_network_ota_dispatch_def
  by (auto simp: Let_def intro!: safe_authorize [OF assms(1)] safe_ota_perform replies_safelyD [OF assms(5)] assms)

lemma safe_uart_status_request:
  assumes "request_at x flags v request p es" "replies_safely i c x flags v request p k"
  shows "net_safe i (serving i c x es) (uart_status_request E session opcode k)"
  unfolding uart_status_request_def
  by (auto split: option.split intro!: safe_net_call safe_stuck replies_safelyD [OF assms(2,1)])

lemma safe_uart_read_request:
  assumes "request_at x flags v request p es" "replies_safely i c x flags v request p k"
  shows "net_safe i (serving i c x es) (uart_read_request E c session opcode capacity k)"
  unfolding uart_read_request_def
  by (auto split: option.split intro!: safe_net_call safe_stuck replies_safelyD [OF assms(2,1)])

lemma safe_uart_perform:
  assumes "request_at x flags v request p es" "session_valid es" "p \<noteq> []" "nc_uart x"
    "fh_type request = AIRDAP_FRAME_TYPE_CONTROL_REQUEST" "replies_safely i c x flags v request p k"
  shows "net_safe i (serving i c x es) (uart_perform E c session p n k)"
proof -
  have at: "request_at x flags v request p (Net_uart (p ! 0) # es)"
    by (rule request_at_plain [OF _ assms(1)]) simp
  have note_safe: "net_safe i (serving i c x es) (noting c (Net_uart u) t)"
    if "p ! 0 = u" "net_safe i (serving i c x (Net_uart (p ! 0) # es)) t" for t u
    using that by (auto simp: plain_Cons intro!: safe_noting operation_sound(3) [OF assms(1-3,5,4), simplified])
  show ?thesis
    unfolding uart_perform_def Let_def
    by (auto intro!: note_safe safe_uart_status_request [OF at assms(6)] safe_uart_read_request [OF at assms(6)]
        safe_net_call replies_safelyD [OF assms(6) at] replies_safelyD [OF assms(6,1)])
qed

lemma safe_uart_dispatch:
  assumes "request_at x flags v request p es" "nc_uart x"
    "fh_type request = AIRDAP_FRAME_TYPE_CONTROL_REQUEST" "replies_safely i c x flags v request p k"
  shows "net_safe i (serving i c x es) (airdap_network_uart_dispatch E c auth (nc_auth_session_id x) session
    (Some p) (payload_size request) response capacity response_size k)"
proof -
  have n: "payload_size request = 0 \<longleftrightarrow> p = []"
    using assms(1) by (auto simp: request_at_def)
  show ?thesis
    unfolding airdap_network_uart_dispatch_def
    using n by (auto intro!: safe_authorize [OF assms(1)] safe_uart_perform replies_safelyD [OF assms(4)] assms)
qed

end
