(* ===== verification/Network_Loop.thy ===== *)
theory Network_Loop
  imports Network_Gate
begin

text \<open>
  Safety of binding a session, of debug requests, and of the loop of a connection, whose
  invariant \<open>loop_ok\<close> relates its flags and its sequence validator to the history.
\<close>

section \<open>Binding a session\<close>

lemma claim_update:
  assumes "net_ok s" "serving i c x es s" "\<not> service_claimed_flag (nc_uart x) s"
  defines "t \<equiv> (if nc_uart x then s\<lparr>nd_uart_claimed := True\<rparr> else s\<lparr>nd_dap_claimed := True\<rparr>)"
  defines "s' \<equiv> t\<lparr>nd_connections := (nd_connections s)(c := (nd_connections s c)\<lparr>nc_service_claimed := True\<rparr>),
    nd_trace := (nd_trace s)(c := Net_claimed # nd_trace s c)\<rparr>"
  shows "net_ok s' \<and> net_step i s s' \<and> serving i c (x\<lparr>nc_service_claimed := True\<rparr>) (Net_claimed # es) s'"
proof -
  have x: "conn_core (nd_connections s c) = x" "nd_trace s c = es" "\<And>d. nd_task s d = Some i \<longleftrightarrow> d = c"
    using assms(2) by (auto simp: serving_def)
  have u: "nc_uart x = nc_uart (nd_connections s c)" by (simp add: x(1) [symmetric] conn_core_def)
  have t: "nd_task t = nd_task s" "nd_spawned t = nd_spawned s" "nd_registry_mutex t = nd_registry_mutex s"
    "nd_identity t = nd_identity s" "nd_starter t = nd_starter s"
    "nd_initialization_started t = nd_initialization_started s"
    by (simp_all add: t_def)
  have "slot_ok s' d" for d
  proof (cases "d = c")
    case True
    have "slot_ok s c" using assms(1) by (simp add: net_ok_def)
    then show ?thesis
      using x(3) [of c] by (simp add: True slot_ok_def s'_def t queue_ok_def history_simps net_event_sound_def)
  next
    case False
    have "slot_ok s d" using assms(1) by (simp add: net_ok_def)
    then show ?thesis using False by (simp add: slot_ok_def s'_def t)
  qed
  moreover have "claims_ok s'"
  proof -
    have none: "\<not> nc_service_claimed (nd_connections s d)" if "nc_uart (nd_connections s d) = nc_uart x" for d
      using assms(1,3) that by (auto simp: net_ok_def claims_ok_def)
    have flag: "service_claimed_flag w s \<Longrightarrow> service_claimed_flag w s'" "service_claimed_flag (nc_uart x) s'" for w
      by (auto simp: service_claimed_flag_def s'_def t_def)
    have claimed: "nc_service_claimed (nd_connections s' d) \<longleftrightarrow> d = c \<or> nc_service_claimed (nd_connections s d)"
      and uart: "nc_uart (nd_connections s' d) = nc_uart (nd_connections s d)" for d
      by (auto simp: s'_def)
    have "claims_ok s" using assms(1) by (simp add: net_ok_def)
    then show ?thesis
      unfolding claims_ok_def claimed uart using flag none u by auto
  qed
  moreover have "start_ok s'"
    using assms(1) by (simp add: net_ok_def start_ok_def s'_def t)
  ultimately have "net_ok s'" by (simp add: net_ok_def)
  then show ?thesis
    using x by (auto simp: net_step_def serving_def s'_def t conn_core_def)
qed

lemma safe_claim:
  fixes k :: "bool \<Rightarrow> ('h network_dap, 'a) task"
  assumes "net_safe i (serving i c x es) (k False)"
    and "net_safe i (serving i c (x\<lparr>nc_service_claimed := True\<rparr>) (Net_claimed # es)) (k True)"
  shows "net_safe i (serving i c x es) (atomic (claim_service_connection E c) k)"
  unfolding claim_service_connection_def
proof (rule safe_own_section, rule assms(1))
  fix s :: "'h network_dap" assume s: "net_ok s" "serving i c x es s"
  have u: "nc_uart (nd_connections s c) = nc_uart x"
    using serving_conn [OF s(2)] by auto
  show "wp (do {
     uart \<leftarrow> reads (\<lambda>s. nc_uart (nd_connections s c));
     claimed \<leftarrow> reads (service_claimed_flag uart);
     if claimed then State_Monad.return False
     else do {
       set_claimed_flag uart True;
       set_conn c (\<lambda>conn. conn\<lparr>nc_service_claimed := True\<rparr>);
       net_note c Net_claimed;
       State_Monad.return True } })
     (\<lambda>b s'. net_ok s' \<and> net_step i s s' \<and> (\<exists>Q. Q s' \<and> net_safe i Q (k b))) s"
  proof (cases "service_claimed_flag (nc_uart x) s")
    case True
    then show ?thesis using s assms(1) u by (auto simp: wp_simps)
  next
    case False
    from claim_update [OF s False] assms(2) False show ?thesis
      by (cases "nc_uart x")
        (simp add: wp_simps u set_claimed_flag_def set_conn_def net_note_def, blast)+
  qed
qed

lemma safe_reject:
  assumes "\<And>x es. net_safe i (serving i c x es) (k False)"
  shows "net_safe i (serving i c x es) (reject fuel E c request error k)"
  unfolding reject_def by (rule safe_send_error) (rule assms)

lemma safe_store_auth_session:
  fixes k :: "bool \<Rightarrow> ('h network_dap, 'a) task"
  assumes "net_event_sound (Net_bound sid) es" "net_safe i (serving i c x es) (k False)"
    and "net_safe i (serving i c (x\<lparr>nc_auth_session_id := sid\<rparr>) (Net_bound sid # es)) (k True)"
  shows "net_safe i (serving i c x es) (atomic (store_auth_session E c sid) k)"
  unfolding store_auth_session_def
proof (rule safe_own_section, rule assms(2))
  fix s :: "'h network_dap" assume s: "net_ok s" "serving i c x es s"
  have "plain_change (\<lambda>conn. conn\<lparr>nc_auth_session_id := sid\<rparr>) x" by (simp add: plain_change_def)
  from own_change_note [OF s this assms(1)] assms(3)
  show "wp (do { set_conn c (\<lambda>conn. conn\<lparr>nc_auth_session_id := sid\<rparr>); net_note c (Net_bound sid);
       State_Monad.return True })
     (\<lambda>b s'. net_ok s' \<and> net_step i s s' \<and> (\<exists>Q. Q s' \<and> net_safe i Q (k b))) s"
    by (simp add: wp_simps set_conn_def net_note_def keeps_claim_def started_def) blast
qed

text \<open>After \<^verbatim>\<open>bind_session\<close>: a failure ends the connection, success leaves it authenticated.\<close>

lemma response_at:
  assumes "request_at x flags v request p es"
    "type = expected_response_type (fh_type request)" "type \<in> {1, 2}"
  shows "response_matches (response_header request type (length q)) q es"
  using assms by (auto simp: response_matches_def response_header_def request_at_def)

lemma safe_publish_session:
  assumes "\<And>x es. net_safe i (serving i c x es) (k False)"
    and "\<And>ok x' es'. nc_uart x' = nc_uart x \<Longrightarrow> nc_auth_session_id x' = nc_auth_session_id x \<Longrightarrow>
      request_at x flags v request p es' \<Longrightarrow> net_safe i (serving i c x' es') (k ok)"
    and "request_at x flags v request p es" "fh_type request = AIRDAP_FRAME_TYPE_AUTH"
  shows "net_safe i (serving i c x es) (publish_auth_session fuel E c request (x\<lparr>nc_response_queue := q\<rparr>) info k)"
proof -
  let ?answer = "\<lambda>opened. if \<not> opened then k False
    else send_frame fuel E c request AIRDAP_FRAME_TYPE_AUTH (Some (auth_response info)) k"
  have answer: "net_safe i (serving i c y es') (?answer True)"
    if at: "request_at x flags v request p es'" and y: "nc_uart y = nc_uart x" "nc_auth_session_id y = nc_auth_session_id x"
    for es' y
  proof -
    have "response_matches (response_header request AIRDAP_FRAME_TYPE_AUTH (length (auth_response info)))
        (auth_response info) es'"
      by (rule response_at [OF at]) (simp_all add: assms(4) expected_response_type_def)
    then show ?thesis
      by (auto intro!: safe_send_frame assms(1) assms(2) [OF y] request_at_plain [OF _ at])
  qed
  have valid: "request_at x flags v request p (Net_validated sid # es')"
    if "request_at x flags v request p es'" for sid es'
    by (rule request_at_plain [OF _ that]) simp
  have uart: "net_safe i (serving i c x es') (open_uart fuel E c request auth sid ?answer)"
    if at: "request_at x flags v request p es'" for es' auth sid
    unfolding open_uart_def
    by (auto intro!: safe_net_call safe_reject assms(1) safe_net_validate answer [OF valid [OF at], simplified]
        safe_set_conn simp: plain_change_def)
  have dap: "net_safe i (serving i c x es') (open_dap fuel E c request ?answer)"
    if at: "request_at x flags v request p es'" for es'
    unfolding open_dap_def store_dap_session_def
    by (auto intro!: safe_net_call safe_reject assms(1) answer [OF at, simplified]
        safe_store simp: plain_change_def)
  show ?thesis
    unfolding publish_auth_session_def Let_def
    by (auto intro!: safe_session_validate safe_reject assms(1) uart [simplified] dap [simplified] valid assms(3))
qed

lemma safe_bind_session:
  assumes "\<And>x es. net_safe i (serving i c x es) (k False)"
    and "\<And>ok x es. loop_ok x (True, True) (Some v) es \<Longrightarrow> net_safe i (serving i c x es) (k ok)"
    and "request_at x (True, False) v request p es" "fh_type request = AIRDAP_FRAME_TYPE_AUTH"
  shows "net_safe i (serving i c x es) (bind_session fuel E c request p k)"
proof -
  let ?x = "x\<lparr>nc_service_claimed := True\<rparr>" and ?es = "Net_claimed # es"
  have claimed: "net_event_sound (Net_bound sid) ?es" for sid
    using assms(3,4) by (auto simp: net_event_sound_def request_at_def loop_ok_def history_simps)
  have at: "request_at (?x\<lparr>nc_auth_session_id := sid\<rparr>) (True, True) v request p (Net_bound sid # ?es)" for sid
    using assms(3) by (auto simp: request_at_def loop_ok_def bound_ok_def history_simps)
  have publish: "net_safe i (serving i c (?x\<lparr>nc_auth_session_id := sid\<rparr>) (Net_bound sid # ?es))
      (publish_auth_session fuel E c request (?x\<lparr>nc_response_queue := q\<rparr>) info k)" for sid q info
  proof -
    have eq: "publish_auth_session fuel E c request (?x\<lparr>nc_response_queue := q\<rparr>) info k =
        publish_auth_session fuel E c request (?x\<lparr>nc_auth_session_id := sid, nc_response_queue := q\<rparr>) info k"
      by (simp add: publish_auth_session_def Let_def cong: if_cong)
    show ?thesis
      unfolding eq
    proof (rule safe_publish_session)
      fix ok es' and y :: network_connection
      assume y: "nc_uart y = nc_uart (?x\<lparr>nc_auth_session_id := sid\<rparr>)"
        "nc_auth_session_id y = nc_auth_session_id (?x\<lparr>nc_auth_session_id := sid\<rparr>)"
        and at: "request_at (?x\<lparr>nc_auth_session_id := sid\<rparr>) (True, True) v request p es'"
      show "net_safe i (serving i c y es') (k ok)"
        by (rule assms(2) [OF loop_ok_cong [OF request_at_loop [OF at] y]])
    qed (rule assms(1) at assms(4))+
  qed
  show ?thesis
    unfolding bind_session_def Let_def
    by (auto intro!: safe_reject safe_claim safe_with_conn safe_net_call safe_store_auth_session assms(1) claimed
        publish)
qed

section \<open>Debug requests\<close>

lemma safe_next_token:
  fixes k :: "u32 \<Rightarrow> ('h network_dap, 'a) task"
  assumes "\<And>token n. token \<noteq> 0 \<Longrightarrow> net_safe i (serving i c (x\<lparr>nc_next_response_token := n\<rparr>) es) (k token)"
  shows "net_safe i (serving i c x es) (atomic (next_token c) k)"
proof (rule safe_atomic_ex [OF stable_serving])
  fix s :: "'h network_dap" assume s: "net_ok s" "serving i c x es s"
  let ?n = "nc_next_response_token (nd_connections s c)"
  let ?token = "if ?n = 0 then ?n + 1 else ?n"
  have "plain_change (\<lambda>conn. conn\<lparr>nc_next_response_token := ?token + 1\<rparr>) x" by (simp add: plain_change_def)
  from own_plain_change [OF s this] assms [of ?token "?token + 1"]
  show "wp (next_token c) (\<lambda>b s'. net_ok s' \<and> net_step i s s' \<and> (\<exists>Q. Q s' \<and> net_safe i Q (k b))) s"
    by (auto simp: next_token_def wp_simps set_conn_def Let_def)
qed

lemma safe_set_pending:
  assumes "net_safe i (serving i c (x\<lparr>nc_pending_response_token := token\<rparr>) es) (k ())"
  shows "net_safe i (serving i c x es) (atomic (set_pending c token) k)"
  unfolding set_pending_def by (rule safe_set_conn) (simp_all add: plain_change_def assms)

lemma safe_receive_response:
  fixes k :: "dap_response_item option \<Rightarrow> ('h network_dap, 'a) task"
  assumes "net_safe i (serving i c x es) (k None)"
    and "\<And>item. length (ri_response item) \<le> 508 \<Longrightarrow> net_safe i (serving i c x es) (k (Some item))"
  shows "net_safe i (serving i c x es) (receive_response E c k)"
  unfolding receive_response_def
proof (rule safe.action [OF stable_serving])
  fix s t and s' :: "'h network_dap"
  assume s: "net_ok s" "serving i c x es s"
    and step: "(case nc_response_queue (nd_connections s c) of
       None \<Rightarrow> None
     | Some [] \<Rightarrow> if ne_wait_expired E (nd_world s) then Some (k None, s) else None
     | Some (item # items) \<Rightarrow> Some (k (Some item), s\<lparr>nd_connections := (nd_connections s)
         (c := (nd_connections s c)\<lparr>nc_response_queue := Some items\<rparr>)\<rparr>)) = Some (t, s')"
  show "net_ok s' \<and> net_step i s s' \<and> (\<exists>Q. Q s' \<and> net_safe i Q t)"
  proof (cases "nc_response_queue (nd_connections s c)")
    case None
    with step show ?thesis by simp
  next
    case (Some items)
    show ?thesis
    proof (cases items)
      case Nil
      with step Some s assms(1) show ?thesis by (auto split: if_splits)
    next
      case (Cons item rest)
      let ?y = "(nd_connections s c)\<lparr>nc_response_queue := Some rest\<rparr>"
      have x: "conn_core (nd_connections s c) = x" using s(2) by (simp add: serving_def)
      have ok: "queue_ok ?y" "length (ri_response item) \<le> 508"
        using serving_queue [OF s(1), of c] Some Cons by (auto simp: queue_ok_def)
      have "net_ok (s\<lparr>nd_connections := (nd_connections s)(c := ?y)\<rparr>) \<and>
          net_step i s (s\<lparr>nd_connections := (nd_connections s)(c := ?y)\<rparr>) \<and>
          serving i c x es (s\<lparr>nd_connections := (nd_connections s)(c := ?y)\<rparr>)"
        by (rule own_change [OF s _ _ _ ok(1)]) (simp_all add: x [symmetric] conn_core_def)
      with step Some Cons assms(2) [OF ok(2)] show ?thesis by auto
    qed
  qed
qed

lemma safe_await_response:
  assumes "Net_submitted token q \<in> set (this_request es)"
    and "net_safe i (serving i c x es) (k None)"
    and "\<And>r. net_safe i (serving i c x (Net_answer token r # es)) (k (Some r))"
  shows "net_safe i (serving i c x es) (await_response fuel E c token k)"
proof (induction fuel)
  case 0
  show ?case by (simp add: safe_stuck)
next
  case (Suc fuel)
  have "net_event_sound (Net_answer token r) es" if "length r \<le> 508" for r
    using assms(1) that by (auto simp: net_event_sound_def)
  then have answered: "net_safe i (serving i c x es)
      (if ri_token item = token
       then noting c (Net_answer (ri_token item) (ri_response item)) (k (Some (ri_response item)))
       else await_response fuel E c token k)" if "length (ri_response item) \<le> 508" for item
    using that Suc assms(3) by (auto simp: plain_Cons intro!: safe_noting)
  show ?case
    unfolding await_response.simps
    by (rule safe_receive_response; unfold option.case) (rule assms(2), erule answered)
qed

lemma safe_deliver_dap_response:
  assumes "\<And>x es. net_safe i (serving i c x es) (k False)"
    and "\<And>ok es. request_at x flags v request p es \<Longrightarrow> net_safe i (serving i c x es) (k ok)"
    and "request_at x flags v request p es" "fh_type request = AIRDAP_FRAME_TYPE_DAP_REQUEST"
    and "Net_answer token r \<in> set (this_request es)" "Net_submitted token q \<in> set (this_request es)"
  shows "net_safe i (serving i c x es) (deliver_dap_response fuel E c request r k)"
  unfolding deliver_dap_response_def
proof (rule safe_validate_bound_session [OF assms(3)])
  fix sid assume valid: "session_valid (Net_validated sid # es)"
  let ?es = "Net_validated sid # es"
  have at: "request_at x flags v request p ?es" by (rule request_at_plain [OF _ assms(3)]) simp
  have "response_matches (response_header request AIRDAP_FRAME_TYPE_DAP_RESPONSE (length r)) r ?es"
    using at valid assms(4-6)
    by (auto simp: response_matches_def response_header_def request_at_def expected_response_type_def plain_Cons)
  then show "net_safe i (serving i c x ?es) (if \<not> True then reject fuel E c request FRAME_ERROR_UNAUTHENTICATED k
     else net_call (ne_network_data_enabled E) (\<lambda>enabled.
       if \<not> enabled then send_error fuel E c request FRAME_ERROR_BUSY k
       else send_frame fuel E c request AIRDAP_FRAME_TYPE_DAP_RESPONSE (Some r) k))"
    by (auto intro!: safe_net_call safe_request_error [OF at] safe_send_frame assms(1,2) request_at_plain [OF _ at])
qed (simp add: safe_reject assms(1))

lemma safe_submit_request:
  assumes "\<And>x es. net_safe i (serving i c x es) (k False)"
    and "\<And>ok x es. request_at x flags v request p es \<Longrightarrow> net_safe i (serving i c x es) (k ok)"
    and "request_at x flags v request p es" "fh_type request = AIRDAP_FRAME_TYPE_DAP_REQUEST"
    and "\<And>token. token \<noteq> 0 \<Longrightarrow> net_event_sound (Net_submitted token p) es"
  shows "net_safe i (serving i c x es) (submit_request fuel E c request p k)"
proof -
  have at: "request_at (x\<lparr>nc_next_response_token := n, nc_pending_response_token := t\<rparr>) flags v request p es'"
    if "request_at x flags v request p es'" for n t es'
    by (rule request_at_cong [OF that]) simp_all
  have submitted: "request_at x flags v request p (Net_submitted token p # es)" for token
    by (rule request_at_plain [OF _ assms(3)]) simp
  have answered: "request_at x flags v request p (Net_answer token r # Net_submitted token p # es)" for token r
    by (rule request_at_plain [OF _ submitted]) simp
  have member: "Net_submitted token p \<in> set (this_request (Net_submitted token p # es))"
    "Net_submitted token p \<in> set (this_request (Net_answer token r # Net_submitted token p # es))"
    "Net_answer token r \<in> set (this_request (Net_answer token r # Net_submitted token p # es))" for token r
    by (simp_all add: plain_Cons)
  have pending: "net_safe i (serving i c (x\<lparr>nc_next_response_token := n, nc_pending_response_token := t\<rparr>) es')
      (atomic (set_pending c 0) k')"
    if "net_safe i (serving i c (x\<lparr>nc_next_response_token := n, nc_pending_response_token := 0\<rparr>) es') (k' ())"
    for n t es' and k' :: "unit \<Rightarrow> ('d network_dap, 'e) task"
    by (rule safe_set_pending) (use that in simp)
  show ?thesis
    unfolding submit_request_def
    by (auto simp: plain_Cons split: option.split
        intro!: safe_next_token safe_set_pending safe_with_conn safe_noting safe_net_call assms(5) pending
          safe_await_response [OF member(1)] safe_request_error [OF at [OF submitted]] assms(1,2)
          safe_deliver_dap_response [OF _ _ at [OF answered] assms(4) member(3,2)])
qed

lemma safe_send_dap_response:
  assumes "\<And>x es. net_safe i (serving i c x es) (k False)"
    and "\<And>ok x es. request_at x flags v request p es \<Longrightarrow> net_safe i (serving i c x es) (k ok)"
    and "request_at x flags v request p es" "fh_type request = AIRDAP_FRAME_TYPE_DAP_REQUEST" "\<not> nc_uart x"
    and "\<forall>token q. Net_submitted token q \<notin> set (this_request es)"
  shows "net_safe i (serving i c x es) (send_dap_response fuel E c request p k)"
proof -
  have n: "fh_payload_length request = 0 \<longleftrightarrow> p = []"
    using assms(3) by (auto simp: request_at_def unat_eq_0)
  have submit: "net_safe i (serving i c x (Net_validated sid # es)) (submit_request fuel E c request p k)"
    if "session_valid (Net_validated sid # es)" "p \<noteq> []" "\<not> (0x80 \<le> p ! 0 \<and> p ! 0 \<le> 0x85)" for sid
  proof (rule safe_submit_request; (intro assms(1,2,4); assumption)?)
    show at: "request_at x flags v request p (Net_validated sid # es)"
      by (rule request_at_plain [OF _ assms(3)]) simp
    show "net_event_sound (Net_submitted token p) (Net_validated sid # es)" if "token \<noteq> 0" for token
      using request_admitted_at [OF at] that \<open>session_valid _\<close> \<open>p \<noteq> []\<close> \<open>\<not> (0x80 \<le> p ! 0 \<and> p ! 0 \<le> 0x85)\<close> assms(4-6)
      by (auto simp: net_event_sound_def plain_Cons)
  qed
  have at: "request_at x flags v request p (Net_validated sid # es)" for sid
    by (rule request_at_plain [OF _ assms(3)]) simp
  show ?thesis
    unfolding send_dap_response_def Let_def n
    by (auto intro!: safe_net_call safe_reject assms(1,2) safe_request_error [OF assms(3)] safe_request_error [OF at]
        safe_validate_bound_session [OF assms(3)] submit)
qed

section \<open>The loop of a connection\<close>

text \<open>How a connection goes on after a request: closed, or with the next one.\<close>

definition goes_on ::
    "nat \<Rightarrow> nat \<Rightarrow> airdap_frame_sequence_validator \<Rightarrow> (net_flags option \<Rightarrow> ('h network_dap, 'a) task) \<Rightarrow> bool" where
  "goes_on i c v k \<longleftrightarrow> (\<forall>x es. net_safe i (serving i c x es) (k None)) \<and>
     (\<forall>x es flags. loop_ok x flags (Some v) es \<longrightarrow> net_safe i (serving i c x es) (k (Some flags)))"

lemma goes_onD:
  assumes "goes_on i c v k"
  shows "net_safe i (serving i c x es) (k None)"
    "loop_ok x flags (Some v) es \<Longrightarrow> net_safe i (serving i c x es) (k (Some flags))"
  using assms unfolding goes_on_def by blast+

lemma on_success_safe:
  assumes "goes_on i c v k" "request_at x flags v request p es"
  shows "net_safe i (serving i c x es) (on_success flags k ok)"
  using goes_onD [OF assms(1)] request_at_loop [OF assms(2)] by (simp add: on_success_def)

lemma on_success_False: "goes_on i c v k \<Longrightarrow> net_safe i (serving i c x es) (on_success flags k False)"
  by (simp add: on_success_def goes_onD)

lemma safe_request_failed:
  assumes "goes_on i c v k" "request_at x flags v request p es"
  shows "net_safe i (serving i c x es) (send_error fuel E c request' error (on_success flags k))"
  by (rule safe_request_error [OF assms(2) on_success_safe [OF assms(1)]])

lemma safe_finish_control:
  assumes "goes_on i c v k" "request_at x flags v request p es"
  shows "net_safe i (serving i c x es) (finish_control E conn ota p' error response flags k)"
  unfolding finish_control_def airdap_network_ota_reboot_def
  using goes_onD [OF assms(1)] request_at_loop [OF assms(2)] by (auto intro!: safe_net_call)

lemma safe_control_dispatching:
  assumes "request_at x flags v request p es" "fh_type request = AIRDAP_FRAME_TYPE_CONTROL_REQUEST"
    "replies_safely i c x flags v request p k"
  shows "net_safe i (serving i c x es) (control_dispatch E c (x\<lparr>nc_response_queue := q\<rparr>)
    (is_ota_request (x\<lparr>nc_response_queue := q\<rparr>) request p) request p k)"
proof -
  have "p \<noteq> []" if "fh_payload_length request > 0"
    using assms(1) that by (auto simp: request_at_def word_gt_0 unat_eq_0)
  then show ?thesis
    unfolding control_dispatch_def is_ota_request_def Let_def
    by (auto intro!: safe_ota_dispatch safe_uart_dispatch safe_control_dispatch assms)
qed

lemma safe_handle_control:
  assumes "goes_on i c v k" "request_at x flags v request p es"
    "fh_type request = AIRDAP_FRAME_TYPE_CONTROL_REQUEST"
  shows "net_safe i (serving i c x es) (handle_control fuel E c flags request p k)"
proof -
  have finish: "net_safe i (serving i c x es') (finish_control E conn ota p error response flags k)"
    if "request_at x flags v request p es'" for es' conn ota error response
    by (rule safe_finish_control [OF assms(1) that])
  have answer: "net_safe i (serving i c x (Net_validated sid # es'))
      (send_frame fuel E c request AIRDAP_FRAME_TYPE_CONTROL_RESPONSE (Some response) (\<lambda>sent.
        if \<not> sent then k None else finish_control E conn ota p error response flags k))"
    if "request_at x flags v request p es'" "session_valid (Net_validated sid # es')" for es' sid conn ota error response
  proof -
    have at: "request_at x flags v request p (Net_validated sid # es')"
      by (rule request_at_plain [OF _ that(1)]) simp
    have "response_matches (response_header request AIRDAP_FRAME_TYPE_CONTROL_RESPONSE (length response)) response
        (Net_validated sid # es')"
      using at that(2) assms(3)
      by (auto simp: response_matches_def response_header_def request_at_def expected_response_type_def)
    then show ?thesis
      by (auto intro!: safe_send_frame goes_onD(1) [OF assms(1)] finish request_at_plain [OF _ at])
  qed
  have "replies_safely i c x flags v request p (\<lambda>(error, response).
         if error \<noteq> FRAME_ERROR_NONE
         then send_error fuel E c request error (\<lambda>sent.
           if \<not> sent \<or> error = FRAME_ERROR_UNAUTHENTICATED then k None
           else finish_control E conn ota p error response flags k)
         else validate_bound_session E c (\<lambda>valid. if \<not> valid then k None
           else send_frame fuel E c request AIRDAP_FRAME_TYPE_CONTROL_RESPONSE (Some response) (\<lambda>sent.
             if \<not> sent then k None
             else finish_control E conn ota p error response flags k)))" for conn ota
    unfolding replies_safely_def
    by (auto intro!: safe_request_error safe_validate_bound_session goes_onD(1) [OF assms(1)] finish answer)
  then show ?thesis
    unfolding handle_control_def Let_def
    by (auto intro!: safe_with_conn safe_request_failed [OF assms(1,2)] safe_control_dispatching [OF assms(2,3)])
qed

lemma safe_handle_hello:
  assumes "goes_on i c v k" "request_at x flags v request p es" "fh_type request = AIRDAP_FRAME_TYPE_HELLO"
  shows "net_safe i (serving i c x es) (handle_hello fuel E c flags request k)"
proof -
  have n: "fh_payload_length request = 0 \<longleftrightarrow> p = []"
    using assms(2) by (auto simp: request_at_def unat_eq_0)
  have greeted: "net_safe i (serving i c x es')
      (if \<not> sent then k None else noting c Net_hello (k (Some (True, snd flags))))"
    if at: "request_at x flags v request p es'" and "p = []" for es' sent
  proof -
    have "loop_ok x (True, snd flags) (Some v) (Net_hello # es')"
      using loop_ok_plain [OF _ request_at_loop [OF at], of Net_hello] by (simp add: loop_ok_def history_simps)
    moreover have "net_event_sound Net_hello es'"
      using at that(2) assms(3) by (simp add: net_event_sound_def request_at_def)
    ultimately show ?thesis
      by (auto simp: plain_Cons intro!: safe_noting goes_onD [OF assms(1)])
  qed
  have send: "net_safe i (serving i c x es) (send_frame fuel E c request AIRDAP_FRAME_TYPE_HELLO (Some q)
      (\<lambda>sent. if \<not> sent then k None else noting c Net_hello (k (Some (True, snd flags)))))" if "p = []" for q
  proof (rule safe_send_frame)
    show "response_matches (response_header request 1 (case Some q of None \<Rightarrow> 0 | Some p \<Rightarrow> length p))
        (case Some q of None \<Rightarrow> [] | Some p \<Rightarrow> p) es"
      unfolding option.case by (rule response_at [OF assms(2)]) (simp_all add: assms(3) expected_response_type_def)
  qed (rule greeted that assms(2) request_at_plain [OF plain_simps(1)])+
  show ?thesis
  proof (cases "p = []")
    case True
    have "net_safe i (serving i c x es) (send_hello fuel E c request
        (\<lambda>sent. if \<not> sent then k None else noting c Net_hello (k (Some (True, snd flags)))))"
      unfolding send_hello_def
    proof (rule safe_reads [OF stable_serving])
      fix s assume s: "net_ok s" "serving i c x es s"
      then have "slot_ok s c" "start_ok s" "nd_task s c = Some i" by (simp_all add: net_ok_def serving_def)
      then have "identity_version (nd_identity s) \<noteq> None" by (auto simp: slot_ok_def start_ok_def)
      then show "net_safe i (serving i c x es) (case identity_version (nd_identity s) of
           None \<Rightarrow> net_fault c
         | Some (identity, version) \<Rightarrow>
             if length version = 0 \<or> length version > 31
             then send_error fuel E c request FRAME_ERROR_INTERNAL
               (\<lambda>sent. if \<not> sent then k None else noting c Net_hello (k (Some (True, snd flags))))
             else send_frame fuel E c request AIRDAP_FRAME_TYPE_HELLO (Some (hello_payload identity version))
               (\<lambda>sent. if \<not> sent then k None else noting c Net_hello (k (Some (True, snd flags)))))"
        by (auto split: option.split intro!: safe_request_error [OF assms(2)] greeted [OF _ True] send [OF True])
    qed
    then show ?thesis using n True by (simp add: handle_hello_def)
  next
    case False
    then show ?thesis using n safe_request_failed [OF assms(1,2)] by (simp add: handle_hello_def)
  qed
qed

lemma safe_handle_auth:
  assumes "goes_on i c v k" "request_at x flags v request p es" "fh_type request = AIRDAP_FRAME_TYPE_AUTH"
  shows "net_safe i (serving i c x es) (handle_auth fuel E c flags request p k)"
proof (cases "\<not> fst flags \<or> snd flags")
  case True
  then show ?thesis using safe_request_failed [OF assms(1,2)] by (simp add: handle_auth_def)
next
  case False
  then have flags: "flags = (True, False)" by (cases flags) auto
  have "net_safe i (serving i c x es) (bind_session fuel E c request p (on_success (True, True) k))"
    by (rule safe_bind_session [OF _ _ assms(2) [unfolded flags] assms(3)])
      (auto simp: on_success_def intro!: goes_onD [OF assms(1)])
  then show ?thesis by (simp add: handle_auth_def flags)
qed

lemma safe_handle_dap:
  assumes "goes_on i c v k" "request_at x flags v request p es" "fh_type request = AIRDAP_FRAME_TYPE_DAP_REQUEST"
    "\<forall>token q. Net_submitted token q \<notin> set (this_request es)"
  shows "net_safe i (serving i c x es) (handle_dap fuel E c flags request p k)"
  unfolding handle_dap_def
  by (auto intro!: safe_with_conn safe_request_failed [OF assms(1,2)] on_success_False [OF assms(1)]
      on_success_safe [OF assms(1)] safe_send_dap_response [OF _ _ assms(2,3) _ assms(4)])

lemma safe_handle_keepalive:
  assumes "goes_on i c v k" "request_at x flags v request p es" "fh_type request = AIRDAP_FRAME_TYPE_KEEPALIVE"
  shows "net_safe i (serving i c x es) (handle_keepalive fuel E c flags request k)"
proof -
  have alive: "net_safe i (serving i c x (Net_validated sid # es))
      (send_frame fuel E c request AIRDAP_FRAME_TYPE_KEEPALIVE None (on_success flags k))"
    if "session_valid (Net_validated sid # es)" for sid
  proof -
    have at: "request_at x flags v request p (Net_validated sid # es)"
      by (rule request_at_plain [OF _ assms(2)]) simp
    have "response_matches (response_header request AIRDAP_FRAME_TYPE_KEEPALIVE 0) [] (Net_validated sid # es)"
      using at that assms(3)
      by (auto simp: response_matches_def response_header_def request_at_def expected_response_type_def)
    then show ?thesis
      by (auto intro!: safe_send_frame on_success_safe [OF assms(1)] at request_at_plain [OF _ at])
  qed
  show ?thesis
    unfolding handle_keepalive_def Let_def
    by (auto intro!: safe_validate_bound_session [OF assms(2)] safe_request_failed [OF assms(1,2)] alive)
qed

lemma safe_handle_request:
  assumes "goes_on i c v k" "request_at x flags v request p es"
    "\<forall>token q. Net_submitted token q \<notin> set (this_request es)"
  shows "net_safe i (serving i c x es) (handle_request fuel E c flags request p k)"
  unfolding handle_request_def
  by (auto intro!: safe_send_error goes_onD(1) [OF assms(1)] safe_handle_hello [OF assms(1,2)]
      safe_handle_auth [OF assms(1,2)] safe_handle_dap [OF assms(1,2) _ assms(3)]
      safe_handle_control [OF assms(1,2)] safe_handle_keepalive [OF assms(1,2)]
      safe_request_failed [OF assms(1,2)])

text \<open>The sequence check: an accepted request is the next one of its session.\<close>

lemma validate_accepts:
  assumes "airdap_frame_validate_request_sequence (Some v) (Some request) = (FRAME_ERROR_NONE, w)"
  obtains v' where "w = Some v'" "fh_sequence request = sv_expected_sequence v"
    "sv_expected_sequence v' = airdap_frame_next_sequence (fh_sequence request)"
    "fh_session_id request = sv_session_id v'" "sv_session_id v' = sv_session_id v"
  using assms that by (auto simp: airdap_frame_validate_request_sequence_def split: if_splits)

lemma validate_rejects:
  assumes "airdap_frame_validate_request_sequence (Some v) (Some request) = (error, w)" "error \<noteq> FRAME_ERROR_NONE"
  shows "w = Some v"
  using assms by (auto simp: airdap_frame_validate_request_sequence_def split: if_splits)

lemma tracks_next:
  assumes "validator_tracks (Some v) hs" "fh_sequence h = sv_expected_sequence v" "fh_session_id h = sv_session_id v"
  shows "next_request h hs"
  using assms by (auto simp: validator_tracks_def next_request_def split: list.splits)

text \<open>A frame that was read, not yet checked.\<close>

definition frame_at ::
    "network_connection \<Rightarrow> net_flags \<Rightarrow> airdap_frame_sequence_validator \<Rightarrow> airdap_frame_header \<Rightarrow> bytes \<Rightarrow>
     net_event list \<Rightarrow> bool" where
  "frame_at x flags v request payload es \<longleftrightarrow> loop_ok x flags (Some v) es \<and>
     request_frame es = Some (request, payload) \<and> this_request es = [] \<and> length payload = payload_size request"

lemma safe_check_sequence:
  assumes "\<And>v. goes_on i c v (k v)" "frame_at x flags v request p es"
  shows "net_safe i (serving i c x es) (check_sequence fuel E c flags v request p k)"
proof -
  obtain error w where val: "airdap_frame_validate_request_sequence (Some v) (Some request) = (error, w)"
    by fastforce
  have loop: "loop_ok x flags (Some v) es" using assms(2) by (simp add: frame_at_def)
  show ?thesis
  proof (cases "error = FRAME_ERROR_NONE")
    case True
    then obtain v' where v': "w = Some v'" "fh_sequence request = sv_expected_sequence v"
        "sv_expected_sequence v' = airdap_frame_next_sequence (fh_sequence request)"
        "fh_session_id request = sv_session_id v'" "sv_session_id v' = sv_session_id v"
      using validate_accepts val by metis
    let ?es = "Net_accepted request # es"
    have tracks: "validator_tracks (Some v) (accepted_requests es)" using loop by (simp add: loop_ok_def)
    have sound: "net_event_sound (Net_accepted request) es"
      using assms(2) tracks_next [OF tracks v'(2)] v'(4,5) by (simp add: net_event_sound_def frame_at_def)
    have "validator_tracks (Some v') (request # accepted_requests es)"
      using v' by (simp add: validator_tracks_def)
    then have at: "request_at x flags v' request p ?es"
      using assms(2) by (auto simp: request_at_def frame_at_def loop_ok_def bound_ok_def history_simps)
    have "Net_submitted t q \<notin> set (this_request ?es)" for t q
      using assms(2) by (simp add: frame_at_def history_simps)
    then have "net_safe i (serving i c x ?es) (handle_request fuel E c flags request p (k v'))"
      by (intro safe_handle_request [OF assms(1) at]) blast
    then show ?thesis
      unfolding check_sequence_def val v'(1) using True sound
      by (auto simp: Let_def keeps_claim_def started_def intro!: safe_noting)
  next
    case False
    have "net_safe i (serving i c x es') (on_success flags (k v) ok)"
      if es': "es' = es \<or> (\<exists>h q. es' = Net_sent h q # es)" for es' ok
    proof -
      have "loop_ok x flags (Some v) es'"
        using es' loop loop_ok_plain [OF _ loop] by auto
      then show ?thesis using goes_onD [OF assms(1)] by (simp add: on_success_def)
    qed
    then show ?thesis
      unfolding check_sequence_def val validate_rejects [OF val False] using False
      by (auto simp: Let_def intro!: safe_send_error)
  qed
qed

lemma loop_ok_reads:
  assumes "read_extends d es es'" "loop_ok x flags v es"
  shows "bytes_read es' = d" "connection_kind es' = Some (nc_uart x)"
    "set (this_connection es') \<supseteq> set (this_connection es)" "holds_claim es' = holds_claim es"
    "accepted_requests es' = accepted_requests es"
    "Net_bound sid \<in> set (this_connection es') \<longleftrightarrow> Net_bound sid \<in> set (this_connection es)"
proof -
  obtain ds where ds: "es' = map Net_read ds @ es" "concat (rev ds) = d" using assms(1) by (auto simp: read_extends_def)
  have base: "bytes_read es = []" "connection_kind es = Some (nc_uart x)" using assms(2) by (auto simp: loop_ok_def)
  have "bytes_read (map Net_read ds @ es) = concat (rev ds)" by (induction ds) (simp_all add: base history_simps)
  then show "bytes_read es' = d" by (simp add: ds)
  show "connection_kind es' = Some (nc_uart x)" unfolding ds(1) by (induction ds) (simp_all add: base history_simps)
  show "set (this_connection es') \<supseteq> set (this_connection es)"
    unfolding ds(1) by (induction ds) (auto simp: history_simps)
  show "holds_claim es' = holds_claim es" unfolding ds(1) by (induction ds) (simp_all add: history_simps)
  show "accepted_requests es' = accepted_requests es"
    unfolding ds(1) by (induction ds) (simp_all add: history_simps)
  show "Net_bound sid \<in> set (this_connection es') \<longleftrightarrow> Net_bound sid \<in> set (this_connection es)"
    unfolding ds(1) by (induction ds) (simp_all add: history_simps)
qed

lemma frame_event:
  assumes "read_extends d es es'" "loop_ok x flags validator es" "wire_to_frame d = Some (h, p)"
    "init_validator validator h = Some v"
  shows "frame_at x flags v h p (Net_frame h p # es')"
proof -
  note rd = loop_ok_reads [OF assms(1,2)]
  have tracks: "validator_tracks (Some v) (accepted_requests es)"
    using assms(2,4)
    by (auto simp: loop_ok_def init_validator_def validator_tracks_def airdap_frame_sequence_validator_init_def
        split: option.splits if_splits)
  have "length p = payload_size h" using assms(3) by (simp add: wire_to_frame_iff)
  with rd tracks assms(2) show ?thesis
    by (auto simp: frame_at_def loop_ok_def bound_ok_def history_simps)
qed

lemma safe_connection_loop:
  assumes "\<And>x es. net_safe i (serving i c x es) k" "loop_ok x flags validator es"
  shows "net_safe i (serving i c x es) (connection_loop fuel E c deadline flags validator k)"
  using assms(2)
proof (induction fuel arbitrary: x flags validator es)
  case 0
  show ?case by (simp add: safe_stuck)
next
  case (Suc fuel)
  have next_safe: "goes_on i c v (\<lambda>next. case next of None \<Rightarrow> k
      | Some flags \<Rightarrow> connection_loop fuel E c deadline flags (Some v) k)" for v
    using assms(1) Suc.IH unfolding goes_on_def by simp
  show ?case
    unfolding connection_loop.simps
  proof (rule safe_read_frame)
    fix r h p d es' assume d: "read_extends d es es'" "r = FRAME_READ_OK \<Longrightarrow> wire_to_frame d = Some (h, p)"
    have serve: "net_safe i (serving i c x es') (if r \<noteq> FRAME_READ_OK then k
        else noting c (Net_frame h p) (case init_validator validator h of
            None \<Rightarrow> k
          | Some v \<Rightarrow> check_sequence fuel E c flags v h p (\<lambda>v next. case next of
              None \<Rightarrow> k
            | Some flags \<Rightarrow> connection_loop fuel E c deadline flags (Some v) k)))"
    proof (cases "r = FRAME_READ_OK")
      case True
      have "net_event_sound (Net_frame h p) es'"
        using d(2) True loop_ok_reads(1) [OF d(1) Suc.prems] by (simp add: net_event_sound_def)
      then show ?thesis
        using True frame_event [OF d(1) Suc.prems d(2)]
        by (auto simp: keeps_claim_def started_def split: option.split
            intro!: safe_noting assms(1) safe_check_sequence [OF next_safe])
    qed (simp add: assms(1))
    then show "net_safe i (serving i c x es') (case (r, h, p) of (read_result, request, payload) \<Rightarrow>
       if read_result = FRAME_READ_DAP_PAYLOAD_TOO_LARGE
       then send_error fuel E c request FRAME_ERROR_PAYLOAD_TOO_LARGE (\<lambda>_. k)
       else with_conn c (\<lambda>conn.
         let serve = (if read_result \<noteq> FRAME_READ_OK then k
           else noting c (Net_frame request payload) (case init_validator validator request of
               None \<Rightarrow> k
             | Some v \<Rightarrow> check_sequence fuel E c flags v request payload (\<lambda>v next. case next of
                 None \<Rightarrow> k
               | Some flags \<Rightarrow> connection_loop fuel E c deadline flags (Some v) k)))
         in if nc_uart conn
            then net_call (ne_network_data_enabled E) (\<lambda>enabled. if \<not> enabled then k else serve)
            else serve))"
      unfolding Let_def prod.case by (auto intro!: safe_send_error safe_with_conn safe_net_call assms(1))
  qed
qed

end
