(* ===== verification/Network_System.thy ===== *)
theory Network_System
  imports Network_Loop
begin

text \<open>
  The system of all tasks of \<open>Network_Server\<close>, and the properties of its histories.
\<close>

section \<open>Running and releasing a connection\<close>

lemma fresh_loop:
  assumes "fresh_slot x es"
  shows "loop_ok x (False, False) None es" "nc_response_queue x = None"
  using assms by (auto simp: fresh_slot_def loop_ok_def bound_ok_def validator_tracks_def fresh_connection_def
      conn_core_def history_simps)

lemma safe_run_connection:
  assumes "\<And>x es. net_safe i (serving i c x es) k" "loop_ok x (False, False) None es"
  shows "net_safe i (serving i c x es) (run_connection fuel E c k)"
proof -
  have loop: "net_safe i (serving i c (x\<lparr>nc_auth_connection := auth\<rparr>) es)
      (connection_loop fuel E c deadline (False, False) None k)" for auth deadline
    by (rule safe_connection_loop [OF assms(1) loop_ok_cong [OF assms(2)]]) simp_all
  show ?thesis
    unfolding run_connection_def Let_def store_auth_connection_def calling_if_def
    by (auto intro!: safe_with_conn safe_make_nonblocking safe_net_call safe_store assms(1) loop
        simp: plain_change_def)
qed

lemma release_claim_update:
  assumes "net_ok s" "serving i c x es s" "nc_service_claimed x"
  defines "t \<equiv> (if nc_uart x then s\<lparr>nd_uart_claimed := False\<rparr> else s\<lparr>nd_dap_claimed := False\<rparr>)"
  defines "s' \<equiv> t\<lparr>nd_connections := (nd_connections s)(c := (nd_connections s c)\<lparr>nc_service_claimed := False\<rparr>),
    nd_trace := (nd_trace s)(c := Net_released # nd_trace s c)\<rparr>"
  shows "net_ok s' \<and> net_step i s s' \<and> serving i c (x\<lparr>nc_service_claimed := False\<rparr>) (Net_released # es) s'"
proof -
  have x: "conn_core (nd_connections s c) = x" "nd_trace s c = es" "\<And>d. nd_task s d = Some i \<longleftrightarrow> d = c"
    using assms(2) by (auto simp: serving_def)
  have u: "nc_uart (nd_connections s c) = nc_uart x" "nc_service_claimed (nd_connections s c)"
    using assms(3) by (simp_all add: x(1) [symmetric] conn_core_def)
  have t: "nd_task t = nd_task s" "nd_spawned t = nd_spawned s" "nd_registry_mutex t = nd_registry_mutex s"
    "nd_identity t = nd_identity s" "nd_starter t = nd_starter s"
    "nd_initialization_started t = nd_initialization_started s"
    by (simp_all add: t_def)
  have "slot_ok s' d" for d
  proof (cases "d = c")
    case True
    have "slot_ok s c" using assms(1) by (simp add: net_ok_def)
    then show ?thesis
      using x(3) [of c] by (simp add: True slot_ok_def s'_def t queue_ok_def history_simps net_event_sound_def)
  next
    case False
    have "slot_ok s d" using assms(1) by (simp add: net_ok_def)
    then show ?thesis using False by (simp add: slot_ok_def s'_def t)
  qed
  moreover have "claims_ok s'"
  proof -
    have claims: "claims_ok s" using assms(1) by (simp add: net_ok_def)
    then have other: "nc_uart (nd_connections s d) \<noteq> nc_uart x"
      if "nc_service_claimed (nd_connections s d)" "d \<noteq> c" for d
      using that u unfolding claims_ok_def by metis
    have flag: "service_claimed_flag w s' = service_claimed_flag w s" if "w \<noteq> nc_uart x" for w
      using that by (auto simp: service_claimed_flag_def s'_def t_def)
    have claimed: "nc_service_claimed (nd_connections s' d) \<longleftrightarrow> d \<noteq> c \<and> nc_service_claimed (nd_connections s d)"
      and uart: "nc_uart (nd_connections s' d) = nc_uart (nd_connections s d)" for d
      by (auto simp: s'_def)
    show ?thesis
      using claims flag other unfolding claims_ok_def claimed uart by auto
  qed
  moreover have "start_ok s'"
    using assms(1) by (simp add: net_ok_def start_ok_def s'_def t)
  ultimately have "net_ok s'" by (simp add: net_ok_def)
  then show ?thesis
    using x by (auto simp: net_step_def serving_def s'_def t conn_core_def)
qed

lemma safe_release_claim:
  fixes k :: "('h network_dap, 'a) task"
  assumes "\<And>x es. net_safe i (serving i c x es) k"
  shows "net_safe i (serving i c x es) (release_claim E c k)"
proof -
  have "net_safe i (serving i c x es) (atomic (with_registry E () (do {
      set_claimed_flag (nc_uart x) False; set_conn c (\<lambda>conn. conn\<lparr>nc_service_claimed := False\<rparr>);
      net_note c Net_released })) (\<lambda>_. k))" if claimed: "nc_service_claimed x"
  proof (rule safe_own_section, rule assms)
    fix s :: "'h network_dap" assume "net_ok s" "serving i c x es s"
    note update = release_claim_update [OF this claimed]
    show "wp (do { set_claimed_flag (nc_uart x) False;
        set_conn c (\<lambda>conn. conn\<lparr>nc_service_claimed := False\<rparr>); net_note c Net_released })
        (\<lambda>b s'. net_ok s' \<and> net_step i s s' \<and> (\<exists>Q. Q s' \<and> net_safe i Q k)) s"
      by (cases "nc_uart x"; simp add: wp_simps set_claimed_flag_def set_conn_def net_note_def)
        (use update assms in \<open>simp; blast\<close>)+
  qed
  then show ?thesis
    unfolding release_claim_def by (auto intro!: safe_with_conn assms)
qed

lemma safe_plain_section:
  fixes k :: "'r \<Rightarrow> ('h network_dap, 'a) task"
  assumes "plain_change f x" "net_safe i (serving i c x es) (k failed)"
    "\<And>r. net_safe i (serving i c (f x) es) (k r)"
  shows "net_safe i (serving i c x es) (atomic (with_registry E failed (do {
    r \<leftarrow> reads g; set_conn c f; State_Monad.return r })) k)"
proof (rule safe_own_section, rule assms(2))
  fix s :: "'h network_dap" assume "net_ok s" "serving i c x es s"
  from own_plain_change [OF this assms(1)] assms(3)
  show "wp (do { r \<leftarrow> reads g; set_conn c f; State_Monad.return r })
      (\<lambda>b s'. net_ok s' \<and> net_step i s s' \<and> (\<exists>Q. Q s' \<and> net_safe i Q (k b))) s"
    by (simp add: wp_simps set_conn_def) blast
qed

lemma safe_unregister:
  fixes k :: "unit \<Rightarrow> ('h network_dap, 'a) task"
  assumes "\<And>x es. net_safe i (serving i c x es) (k ())"
  shows "net_safe i (serving i c x es) (atomic (unregister_connection E c) k)"
  unfolding unregister_connection_def
proof (rule safe_own_section, rule assms)
  fix s :: "'h network_dap" assume s: "net_ok s" "serving i c x es s"
  have "plain_change (\<lambda>conn. conn\<lparr>nc_registered := False, nc_auth_session_id := 0\<rparr>) x"
    by (simp add: plain_change_def)
  from own_plain_change [OF s this] assms
  show "wp (set_conn c (\<lambda>conn. conn\<lparr>nc_registered := False, nc_auth_session_id := 0\<rparr>))
      (\<lambda>b s'. net_ok s' \<and> net_step i s s' \<and> (\<exists>Q. Q s' \<and> net_safe i Q (k b))) s"
    by (simp add: wp_simps set_conn_def) blast
qed

lemma safe_take_uart_session:
  fixes k :: "u32 \<Rightarrow> ('h network_dap, 'a) task"
  assumes "\<And>x es r. net_safe i (serving i c x es) (k r)"
  shows "net_safe i (serving i c x es) (atomic (take_uart_session c) k)"
proof (rule safe_atomic_ex [OF stable_serving])
  fix s :: "'h network_dap" assume s: "net_ok s" "serving i c x es s"
  have "plain_change (\<lambda>conn. conn\<lparr>nc_uart_session := 0\<rparr>) x" by (simp add: plain_change_def)
  from own_plain_change [OF s this] assms
  show "wp (take_uart_session c) (\<lambda>b s'. net_ok s' \<and> net_step i s s' \<and> (\<exists>Q. Q s' \<and> net_safe i Q (k b))) s"
    unfolding take_uart_session_def by (simp add: wp_simps set_conn_def) blast
qed

lemma safe_drop_queue:
  assumes "net_safe i (serving i c x es) (k ())"
  shows "net_safe i (serving i c x es) (atomic (set_conn c (\<lambda>conn. conn\<lparr>nc_response_queue := None\<rparr>)) k)"
  unfolding set_conn_def
proof (rule safe_update [where Q = "serving i c x es"], rule stable_serving)
  fix s :: "'a network_dap" assume s: "net_ok s" "serving i c x es s"
  have x: "conn_core (nd_connections s c) = x" using s(2) by (simp add: serving_def)
  let ?s = "s\<lparr>nd_connections := (nd_connections s)(c := (nd_connections s c)\<lparr>nc_response_queue := None\<rparr>)\<rparr>"
  show "net_ok ?s \<and> net_step i s ?s \<and> serving i c x es ?s"
    by (rule own_change [OF s]) (simp_all add: x [symmetric] conn_core_def queue_ok_def)
qed (rule assms)

text \<open>The slot is handed back.\<close>

lemma free_update:
  assumes "net_ok s" "serving i c x es s" "nc_uart y = nc_uart (nd_connections s c)"
    "nc_service_claimed y = nc_service_claimed (nd_connections s c)" "queue_ok y"
    "nc_allocated y \<Longrightarrow> nc_allocated (nd_connections s c)"
  defines "s' \<equiv> s\<lparr>nd_connections := (nd_connections s)(c := y), nd_task := (nd_task s)(c := None)\<rparr>"
  shows "net_ok s' \<and> net_step i s s' \<and> net_idle i s'"
proof -
  have own: "nd_task s d = Some i \<longleftrightarrow> d = c" for d using assms(2) by (simp add: serving_def)
  have slots: "slot_ok s d" for d using assms(1) by (simp add: net_ok_def)
  have "slot_ok s' d" for d
    using slots [of d] own [of c] assms(4-6) by (cases "d = c") (auto simp: slot_ok_def s'_def)
  moreover have "claims_ok s'"
  proof -
    have "nc_service_claimed (nd_connections s' d) = nc_service_claimed (nd_connections s d)"
      "nc_uart (nd_connections s' d) = nc_uart (nd_connections s d)" for d
      by (simp_all add: s'_def assms(3,4))
    moreover have "service_claimed_flag u s' = service_claimed_flag u s" for u
      by (simp add: s'_def service_claimed_flag_def)
    ultimately show ?thesis
      using assms(1) unfolding net_ok_def claims_ok_def by presburger
  qed
  moreover have "start_ok s'" using assms(1) by (simp add: net_ok_def start_ok_def s'_def)
  ultimately have "net_ok s'" by (simp add: net_ok_def)
  then show ?thesis
    using own by (auto simp: net_step_def net_idle_def s'_def)
qed

lemma run_free_slot:
  assumes "ne_take_mutex E (nd_world s) = (taken, h)"
  shows "run_state (free_slot E c) s = ((),
    if \<not> nd_registry_mutex s then s\<lparr>nd_task := (nd_task s)(c := None)\<rparr>
    else if \<not> taken then s\<lparr>nd_world := h, nd_task := (nd_task s)(c := None)\<rparr>
    else s\<lparr>nd_world := h, nd_connections := (nd_connections s)
      (c := (nd_connections s c)\<lparr>nc_socket_fd := -1, nc_allocated := False\<rparr>),
      nd_task := (nd_task s)(c := None)\<rparr>)"
  using assms by (simp add: free_slot_def with_registry_def registry_lock_def set_conn_def)

lemma safe_free_slot:
  fixes k :: "unit \<Rightarrow> ('h network_dap, 'a) task"
  assumes "net_safe i (net_idle i) (k ())"
  shows "net_safe i (serving i c x es) (atomic (free_slot E c) k)"
proof (rule safe_atomic_ex [OF stable_serving])
  fix s :: "'h network_dap" assume s: "net_ok s" "serving i c x es s"
  let ?Q = "\<lambda>b s'. net_ok s' \<and> net_step i s s' \<and> (\<exists>Q. Q s' \<and> net_safe i Q (k b))"
  obtain taken h where t: "ne_take_mutex E (nd_world s) = (taken, h)" by fastforce
  have sh: "net_ok (s\<lparr>nd_world := g\<rparr>)" "serving i c x es (s\<lparr>nd_world := g\<rparr>)" for g using s by simp_all
  note queue = serving_queue [OF s(1), of c]
  have kept: "?Q () (u\<lparr>nd_task := (nd_task s)(c := None)\<rparr>)" if "u = s \<or> u = s\<lparr>nd_world := h\<rparr>" for u
  proof -
    have u: "net_ok u" "serving i c x es u" "nd_connections u = nd_connections s" "nd_task u = nd_task s"
      "net_step i s v \<longleftrightarrow> net_step i u v" for v
      using that sh s by auto
    have "queue_ok (nd_connections u c)" using queue u(3) by simp
    from free_update [OF u(1,2) HOL.refl HOL.refl this] assms u(4,5) show ?thesis
      by (auto simp: fun_upd_idem)
  qed
  have freed: "?Q () (s\<lparr>nd_world := h, nd_connections := (nd_connections s)
      (c := (nd_connections s c)\<lparr>nc_socket_fd := -1, nc_allocated := False\<rparr>),
      nd_task := (nd_task s)(c := None)\<rparr>)"
    using free_update [OF sh(1,2), of "(nd_connections s c)\<lparr>nc_socket_fd := -1, nc_allocated := False\<rparr>" h] queue assms
    by (auto simp: queue_ok_def)
  show "wp (free_slot E c) ?Q s"
    unfolding wp_def run_free_slot [OF t] prod.case
    using kept [of s] kept [of "s\<lparr>nd_world := h\<rparr>"] freed by presburger
qed

lemma safe_calling_if:
  assumes "net_safe i P k" "\<And>s h. P s \<Longrightarrow> P (s\<lparr>nd_world := h\<rparr>)"
  shows "net_safe i P (calling_if b t k)"
  unfolding calling_if_def by (auto intro!: safe_net_call assms)

lemma safe_ota_disconnect:
  assumes "net_safe i P k" "\<And>s h. P s \<Longrightarrow> P (s\<lparr>nd_world := h\<rparr>)"
  shows "net_safe i P (airdap_network_ota_disconnect E auth sid k)"
  unfolding airdap_network_ota_disconnect_def by (auto intro!: safe_net_call assms)

lemma safe_release_connection:
  assumes "net_safe i (net_idle i) k"
  shows "net_safe i (serving i c x es) (release_connection E c k)"
  unfolding release_connection_def take_dap_session_def take_auth_connection_def
  by (auto intro!: safe_with_conn safe_unregister safe_ota_disconnect safe_set_conn safe_plain_section safe_calling_if
      safe_take_uart_session safe_release_claim safe_drop_queue safe_net_call safe_free_slot assms
      simp: plain_change_def)

section \<open>Taking a connection\<close>

lemma fresh_allocated:
  assumes "fresh_slot (conn_core conn) es"
  shows "nc_allocated conn"
proof -
  obtain socket_fd uart where "conn_core conn = conn_core (fresh_connection socket_fd uart)"
    using assms by (auto simp: fresh_slot_def)
  then have "nc_allocated (conn_core conn) = nc_allocated (conn_core (fresh_connection socket_fd uart))" by simp
  then show ?thesis by (simp add: conn_core_def fresh_connection_def)
qed

lemma register_update:
  fixes socket_fd :: int and uart :: bool
  assumes "net_ok s" "net_idle i s" "nd_registry_mutex s" "\<not> nc_allocated (nd_connections s c)"
  defines "s' \<equiv> s\<lparr>nd_connections := (nd_connections s)(c := fresh_connection socket_fd uart),
    nd_task := (nd_task s)(c := Some i), nd_trace := (nd_trace s)(c := Net_started uart # nd_trace s c)\<rparr>"
  shows "net_ok s' \<and> net_step i s s' \<and>
    serving i c (conn_core (fresh_connection socket_fd uart)) (Net_started uart # nd_trace s c) s'"
proof -
  have slots: "slot_ok s d" for d using assms(1) by (simp add: net_ok_def)
  have free: "nd_task s c = None" "c \<notin> nd_spawned s"
    using slots [of c] assms(4) fresh_allocated by (auto simp: slot_ok_def)
  have "slot_ok s' d" for d
  proof (cases "d = c")
    case True
    then show ?thesis
      using slots [of c] assms(3) free
      by (auto simp: slot_ok_def s'_def fresh_connection_def net_event_sound_def queue_ok_def history_simps)
  next
    case False
    then show ?thesis using slots [of d] by (simp add: slot_ok_def s'_def)
  qed
  moreover have "claims_ok s'"
  proof -
    have claimed: "nc_service_claimed (nd_connections s' d) \<longleftrightarrow> d \<noteq> c \<and> nc_service_claimed (nd_connections s d)"
      and uart: "d \<noteq> c \<Longrightarrow> nc_uart (nd_connections s' d) = nc_uart (nd_connections s d)" for d
      by (auto simp: s'_def fresh_connection_def)
    have flag: "service_claimed_flag u s' = service_claimed_flag u s" for u
      by (simp add: s'_def service_claimed_flag_def)
    have "claims_ok s" using assms(1) by (simp add: net_ok_def)
    then show ?thesis
      unfolding claims_ok_def claimed flag using uart by auto
  qed
  moreover have "start_ok s'" using assms(1) by (simp add: net_ok_def start_ok_def s'_def)
  ultimately have "net_ok s'" by (simp add: net_ok_def)
  then show ?thesis
    using assms(2) free by (auto simp: net_step_def serving_def net_idle_def s'_def)
qed

lemma safe_register:
  fixes k :: "nat option \<Rightarrow> ('h network_dap, 'a) task"
  assumes "net_safe i (net_idle i) (k None)"
    and "\<And>c x es. fresh_slot x es \<Longrightarrow> net_safe i (serving i c x es) (k (Some c))"
  shows "net_safe i (net_idle i) (atomic (with_registry E None (register_connection i socket_fd uart)) k)"
proof (rule safe_section [where P = "net_idle i"], simp, simp, rule assms(1))
  fix s :: "'h network_dap" assume s: "net_ok s" "net_idle i s" "nd_registry_mutex s"
  let ?Q = "\<lambda>b s'. net_ok s' \<and> net_step i s s' \<and> (\<exists>Q. Q s' \<and> net_safe i Q (k b))"
  show "wp (register_connection i socket_fd uart) ?Q s"
  proof (cases "free_connection s")
    case None
    have "?Q None s"
      by (intro conjI exI [of _ "net_idle i"]) (simp_all add: s assms(1))
    then show ?thesis
      using None by (simp add: register_connection_def wp_simps)
  next
    case (Some c)
    then have "\<not> nc_allocated (nd_connections s c)"
      by (auto simp: free_connection_def find_Some_iff)
    note update = register_update [OF s this, where socket_fd = socket_fd and uart = uart]
    have "fresh_slot (conn_core (fresh_connection socket_fd uart)) (Net_started uart # nd_trace s c)"
      by (auto simp: fresh_slot_def)
    from assms(2) [OF this] update show ?thesis
      using Some by (simp add: register_connection_def wp_simps set_conn_def net_note_def) blast
  qed
qed

lemma safe_allocate_connection:
  assumes "net_safe i (net_idle i) (k None)"
    and "\<And>c x es. fresh_slot x es \<Longrightarrow> net_safe i (serving i c x es) (k (Some c))"
  shows "net_safe i (net_idle i) (allocate_connection E i socket_fd uart k)"
  unfolding allocate_connection_def Let_def by (auto intro!: safe_net_call safe_register assms)

lemma safe_handle_socket:
  assumes "net_safe i (net_idle i) k"
  shows "net_safe i (net_idle i) (handle_socket fuel E i socket_fd uart k)"
  unfolding handle_socket_def
  by (auto intro!: safe_allocate_connection safe_net_call assms safe_run_connection safe_release_connection
      dest: fresh_loop(1))

lemma spawn_update:
  assumes "net_ok s" "serving i c x es s" "fresh_slot x es"
  defines "s' \<equiv> s\<lparr>nd_spawned := insert c (nd_spawned s), nd_task := (nd_task s)(c := None)\<rparr>"
  shows "net_ok s' \<and> net_step i s s' \<and> net_idle i s'"
proof -
  have own: "nd_task s d = Some i \<longleftrightarrow> d = c" for d using assms(2) by (simp add: serving_def)
  have fresh: "fresh_slot (conn_core (nd_connections s c)) (nd_trace s c)" using assms(2,3) by (simp add: serving_def)
  have slots: "slot_ok s d" for d using assms(1) by (simp add: net_ok_def)
  have "slot_ok s' d" for d
    using slots [of d] fresh by (cases "d = c") (auto simp: slot_ok_def s'_def)
  moreover have "claims_ok s'" "start_ok s'"
    using assms(1) by (simp_all add: net_ok_def claims_ok_def start_ok_def s'_def service_claimed_flag_def)
  ultimately have "net_ok s'" by (simp add: net_ok_def)
  then show ?thesis using own by (auto simp: net_step_def net_idle_def s'_def)
qed

lemma take_update:
  assumes "net_ok s" "net_idle i s" "c \<in> nd_spawned s"
  defines "s' \<equiv> s\<lparr>nd_spawned := nd_spawned s - {c}, nd_task := (nd_task s)(c := Some i)\<rparr>"
  shows "net_ok s' \<and> net_step i s s' \<and> serving i c (conn_core (nd_connections s c)) (nd_trace s c) s' \<and>
    fresh_slot (conn_core (nd_connections s c)) (nd_trace s c)"
proof -
  have slots: "slot_ok s d" for d using assms(1) by (simp add: net_ok_def)
  have free: "nd_task s c = None" "fresh_slot (conn_core (nd_connections s c)) (nd_trace s c)"
    using slots [of c] assms(3) by (auto simp: slot_ok_def)
  have "nc_allocated (nd_connections s c)" by (rule fresh_allocated [OF free(2)])
  then have "slot_ok s' d" for d
    using slots [of d] by (cases "d = c") (auto simp: slot_ok_def s'_def)
  moreover have "claims_ok s'" "start_ok s'"
    using assms(1) by (simp_all add: net_ok_def claims_ok_def start_ok_def s'_def service_claimed_flag_def)
  ultimately have "net_ok s'" by (simp add: net_ok_def)
  then show ?thesis using assms(2) free by (auto simp: net_step_def net_idle_def serving_def s'_def)
qed

lemma safe_connection_task:
  fixes E :: "'h net_env"
  shows "net_safe i (net_idle i) (connection_task fuel E i c)"
  unfolding connection_task_def
proof (rule safe.action [OF stable_idle])
  fix t and s s' :: "'h network_dap"
  assume s: "net_ok s" "net_idle i s"
    and step: "(if c \<notin> nd_spawned s then None
      else Some (run_connection fuel E c (release_connection E c (Done ())),
        s\<lparr>nd_spawned := nd_spawned s - {c}, nd_task := (nd_task s)(c := Some i)\<rparr>)) = Some (t, s')"
  then have c: "c \<in> nd_spawned s" "t = run_connection fuel E c (release_connection E c (Done ()))"
    "s' = s\<lparr>nd_spawned := nd_spawned s - {c}, nd_task := (nd_task s)(c := Some i)\<rparr>"
    by (auto split: if_splits)
  note update = take_update [OF s c(1)]
  have "net_safe i (serving i c (conn_core (nd_connections s c)) (nd_trace s c)) t"
    unfolding c(2) using update
    by (intro safe_run_connection safe_release_connection safe.finished) (auto dest: fresh_loop(1))
  then show "net_ok s' \<and> net_step i s s' \<and> (\<exists>Q. Q s' \<and> net_safe i Q t)"
    using update c(3) by blast
qed

section \<open>The other tasks\<close>

text \<open>Fields that no property is about.\<close>

lemma other_fields [simp]:
  "net_ok (s\<lparr>nd_revoke_queue := q\<rparr>) = net_ok s" "net_ok (s\<lparr>nd_revoke_all := b\<rparr>) = net_ok s"
  "net_ok (s\<lparr>nd_listener_ready := b\<rparr>) = net_ok s" "net_ok (s\<lparr>nd_listener_socket := fd\<rparr>) = net_ok s"
  "net_ok (s\<lparr>nd_uart_listener_socket := fd\<rparr>) = net_ok s"
  by (simp_all add: net_ok_def slot_ok_def claims_ok_def start_ok_def service_claimed_flag_def)

lemma other_steps [simp]:
  "net_step i s (s\<lparr>nd_revoke_queue := q\<rparr>)" "net_step i s (s\<lparr>nd_revoke_all := b\<rparr>)"
  "net_step i s (s\<lparr>nd_listener_ready := b\<rparr>)" "net_step i s (s\<lparr>nd_listener_socket := fd\<rparr>)"
  "net_step i s (s\<lparr>nd_uart_listener_socket := fd\<rparr>)"
  by (simp_all add: net_step_def)

lemma other_idle [simp]:
  "net_idle i (s\<lparr>nd_revoke_queue := q\<rparr>) = net_idle i s" "net_idle i (s\<lparr>nd_revoke_all := b\<rparr>) = net_idle i s"
  "net_idle i (s\<lparr>nd_listener_ready := b\<rparr>) = net_idle i s"
  "net_idle i (s\<lparr>nd_listener_socket := fd\<rparr>) = net_idle i s"
  "net_idle i (s\<lparr>nd_uart_listener_socket := fd\<rparr>) = net_idle i s"
  by (simp_all add: net_idle_def)

definition idle_action :: "nat \<Rightarrow> ('h network_dap, 'r) state \<Rightarrow> bool" where
  "idle_action i m \<longleftrightarrow> (\<forall>s. net_ok s \<longrightarrow> net_idle i s \<longrightarrow>
     wp m (\<lambda>_ s'. net_ok s' \<and> net_step i s s' \<and> net_idle i s') s)"

lemma safe_idle_action:
  assumes "idle_action i m" "\<And>r. net_safe i (net_idle i) (k r)"
  shows "net_safe i (net_idle i) (atomic m k)"
proof (rule safe_atomic_ex [OF stable_idle])
  fix s :: "'a network_dap" assume "net_ok s" "net_idle i s"
  then have "wp m (\<lambda>_ s'. net_ok s' \<and> net_step i s s' \<and> net_idle i s') s"
    using assms(1) by (simp add: idle_action_def)
  then show "wp m (\<lambda>b s'. net_ok s' \<and> net_step i s s' \<and> (\<exists>Q. Q s' \<and> net_safe i Q (k b))) s"
    by (rule wp_mono) (use assms(2) in blast)
qed

lemma idle_reads [simp]: "idle_action i (reads f)"
  by (simp add: idle_action_def wp_simps)

lemma idle_updates:
  assumes "\<And>s. net_ok s \<Longrightarrow> net_idle i s \<Longrightarrow> net_ok (f s) \<and> net_step i s (f s) \<and> net_idle i (f s)"
  shows "idle_action i (updates f)"
  using assms by (simp add: idle_action_def wp_simps)

lemma idle_registry:
  assumes "idle_action i m"
  shows "idle_action i (with_registry E failed m)"
  unfolding idle_action_def
proof (intro allI impI)
  fix s :: "'a network_dap" assume s: "net_ok s" "net_idle i s"
  obtain taken h where t: "ne_take_mutex E (nd_world s) = (taken, h)" by fastforce
  have "wp m (\<lambda>_ s'. net_ok s' \<and> net_step i (s\<lparr>nd_world := h\<rparr>) s' \<and> net_idle i s') (s\<lparr>nd_world := h\<rparr>)"
    using assms s unfolding idle_action_def by (metis world_simps(4,7))
  then have "wp m (\<lambda>_ s'. net_ok s' \<and> net_step i s s' \<and> net_idle i s') (s\<lparr>nd_world := h\<rparr>)" by simp
  with s t show "wp (with_registry E failed m) (\<lambda>_ s'. net_ok s' \<and> net_step i s s' \<and> net_idle i s') s"
    by (simp add: with_registry_def registry_lock_def wp_def)
qed

lemma shutdown_matching_world:
  "\<exists>h. snd (run_state (shutdown_matching E P cs) s) = s\<lparr>nd_world := h\<rparr>"
proof (induction cs arbitrary: s)
  case Nil
  show ?case by (simp, rule exI [of _ "nd_world s"]) simp
next
  case (Cons c cs)
  have "\<exists>h. snd (run_state (shutdown_matching E P cs) (s\<lparr>nd_world := g\<rparr>)) = s\<lparr>nd_world := h\<rparr>" for g
    using Cons [of "s\<lparr>nd_world := g\<rparr>"] by simp
  from this [of "ne_shutdown E (nc_socket_fd (nd_connections s c)) (nd_world s)"] Cons [of s]
  show ?case
    by (auto simp: shutdown_connection_def split: prod.split)
qed

lemma idle_shutdown: "idle_action i (shutdown_matching E P cs)"
  unfolding idle_action_def wp_def
proof (intro allI impI)
  fix s :: "'a network_dap" assume "net_ok s" "net_idle i s"
  with shutdown_matching_world [of E P cs s]
  show "case run_state (shutdown_matching E P cs) s of (_, s') \<Rightarrow> net_ok s' \<and> net_step i s s' \<and> net_idle i s'"
    by (auto split: prod.split)
qed

lemma idle_bind_return:
  assumes "idle_action i m"
  shows "idle_action i (State_Monad.bind m (\<lambda>r. State_Monad.return (f r)))"
  using assms by (simp add: idle_action_def wp_simps)

lemma safe_idle_net_call: "(\<And>a. net_safe i (net_idle i) (k a)) \<Longrightarrow> net_safe i (net_idle i) (net_call t k)"
  by (rule safe_net_call) simp_all

lemma safe_get_status:
  assumes "\<And>r. net_safe i (net_idle i) (k r)"
  shows "net_safe i (net_idle i) (airdap_network_dap_get_status E status k)"
  unfolding airdap_network_dap_get_status_def
  by (auto intro!: safe_idle_action idle_registry assms)

lemma safe_revoke_session:
  assumes "net_safe i (net_idle i) k"
  shows "net_safe i (net_idle i) (revoke_session sid k)"
  unfolding revoke_session_def
  by (auto simp: idle_action_def wp_simps split: option.split intro!: safe_idle_action assms)

lemma safe_close_sessions:
  assumes "net_safe i (net_idle i) k"
  shows "net_safe i (net_idle i) (close_uart_sessions E us k)" "net_safe i (net_idle i) (close_dap_sessions E us k)"
  by (induction us) (auto intro!: safe_idle_net_call assms)

lemma safe_process_revoked_session:
  assumes "net_safe i (net_idle i) k"
  shows "net_safe i (net_idle i) (process_revoked_session E sid all k)"
  unfolding process_revoked_session_def
  by (auto split: option.split prod.split
      intro!: safe_idle_action idle_registry idle_bind_return idle_shutdown idle_updates safe_close_sessions assms)

lemma safe_process_queue:
  assumes "net_safe i (net_idle i) k"
  shows "net_safe i (net_idle i) (process_queue fuel E k)"
proof (induction fuel)
  case 0
  show ?case by (simp add: safe_stuck)
next
  case (Suc fuel)
  have "idle_action i receive_revocation"
    by (simp add: idle_action_def receive_revocation_def wp_simps split: option.split list.split)
  then show ?case
    by (auto split: option.split intro!: safe_idle_action safe_process_revoked_session Suc assms)
qed

lemma safe_process_revocations:
  assumes "net_safe i (net_idle i) k"
  shows "net_safe i (net_idle i) (airdap_network_dap_process_revocations fuel E k)"
  unfolding airdap_network_dap_process_revocations_def exchange_revoke_all_def
  by (auto simp: idle_action_def wp_simps
      intro!: safe_idle_action safe_process_revoked_session safe_process_queue assms)

lemma queue_update:
  fixes c :: nat
  assumes "net_ok s" "net_idle i s" "length (ri_response item) \<le> 508"
  defines "s' \<equiv> s\<lparr>nd_connections := (nd_connections s)(c := (nd_connections s c)\<lparr>nc_response_queue := Some [item]\<rparr>)\<rparr>"
  shows "net_ok s' \<and> net_step i s s' \<and> net_idle i s'"
proof -
  have core: "conn_core (nd_connections s' d) = conn_core (nd_connections s d)"
    and fields: "nc_allocated (nd_connections s' d) = nc_allocated (nd_connections s d)"
      "nc_uart (nd_connections s' d) = nc_uart (nd_connections s d)"
      "nc_service_claimed (nd_connections s' d) = nc_service_claimed (nd_connections s d)" for d
    by (simp_all add: s'_def conn_core_def)
  have rest: "nd_task s' = nd_task s" "nd_spawned s' = nd_spawned s" "nd_trace s' = nd_trace s"
    "nd_registry_mutex s' = nd_registry_mutex s" "start_ok s' = start_ok s" "service_claimed_flag u s' = service_claimed_flag u s"
    for u by (simp_all add: s'_def start_ok_def service_claimed_flag_def)
  have "queue_ok (nd_connections s' d)" if "queue_ok (nd_connections s d)" for d
    using that assms(3) by (auto simp: s'_def queue_ok_def)
  then have "slot_ok s' d" if "slot_ok s d" for d
    using that unfolding slot_ok_def core fields rest by blast
  moreover have "claims_ok s' = claims_ok s" unfolding claims_ok_def fields rest ..
  ultimately have "net_ok s'" using assms(1) rest by (simp add: net_ok_def)
  then show ?thesis
    using assms(2) by (simp add: net_step_def core rest net_idle_def) (simp add: s'_def)
qed

lemma safe_queue_response:
  fixes k :: "bool \<Rightarrow> ('h network_dap, 'a) task"
  assumes "\<And>r. net_safe i (net_idle i) (k r)" "length (ri_response item) \<le> 508"
  shows "net_safe i (net_idle i) (queue_response c item k)"
  unfolding queue_response_def
proof (rule safe.action [OF stable_idle])
  fix t and s s' :: "'h network_dap" assume s: "net_ok s" "net_idle i s"
    and step: "(case nc_response_queue (nd_connections s c) of
       None \<Rightarrow> None
     | Some [] \<Rightarrow> Some (k True, s\<lparr>nd_connections := (nd_connections s)
         (c := (nd_connections s c)\<lparr>nc_response_queue := Some [item]\<rparr>)\<rparr>)
     | Some (_ # _) \<Rightarrow> Some (k False, s)) = Some (t, s')"
  then have "net_ok s' \<and> net_step i s s' \<and> net_idle i s'" "\<exists>r. t = k r"
    using queue_update [OF s assms(2)] by (auto split: option.splits list.splits)
  then show "net_ok s' \<and> net_step i s s' \<and> (\<exists>Q. Q s' \<and> net_safe i Q t)"
    using assms(1) by blast
qed

lemma safe_queue_dap_response:
  assumes "\<And>r. net_safe i (net_idle i) (k r)"
  shows "net_safe i (net_idle i) (queue_dap_response connection transport session token response n k)"
proof -
  have "length (take n r) \<le> 508" if "\<not> n > 508" for r :: bytes
    using that by simp
  then show ?thesis
    unfolding queue_dap_response_def
    by (auto split: option.split intro!: safe_idle_action safe_queue_response assms simp del: length_take)
qed

section \<open>The listener and the start\<close>

lemma safe_create_listener:
  assumes "\<And>fd. net_safe i P (k fd)" "\<And>s h. P s \<Longrightarrow> P (s\<lparr>nd_world := h\<rparr>)"
  shows "net_safe i P (create_listener E port k)"
  unfolding create_listener_def Let_def by (auto intro!: safe_net_call safe_make_nonblocking assms)

lemma idle_listeners [simp]: "idle_action i (set_uart_listener fd)" "idle_action i (set_listener fd)"
  by (simp_all add: set_uart_listener_def set_listener_def idle_updates)

lemma safe_close_uart_listener:
  assumes "net_safe i (net_idle i) k"
  shows "net_safe i (net_idle i) (close_uart_listener E k)"
  unfolding close_uart_listener_def by (auto intro!: safe_idle_action safe_idle_net_call assms)

lemma safe_reconcile_mode:
  assumes "net_safe i (net_idle i) k"
  shows "net_safe i (net_idle i) (airdap_network_dap_reconcile_mode E k)"
  unfolding airdap_network_dap_reconcile_mode_def
  by (auto intro!: safe_idle_net_call safe_idle_action safe_create_listener safe_close_uart_listener idle_registry
      idle_shutdown safe_close_sessions assms)

lemma safe_spawn:
  assumes "net_safe i (net_idle i) (k ())" "fresh_slot x es"
  shows "net_safe i (serving i c x es) (atomic (spawn_connection c) k)"
  unfolding spawn_connection_def
  by (rule safe_update [where Q = "net_idle i"]) (simp, rule spawn_update, assumption+, rule assms(2), rule assms(1))

lemma safe_accept_connection:
  assumes "net_safe i (net_idle i) k"
  shows "net_safe i (net_idle i) (accept_connection E i fd uart events k)"
proof -
  have "net_safe i (serving i c x es) (net_call (ne_create_task E) (\<lambda>created.
      if \<not> created then release_connection E c k else atomic (spawn_connection c) (\<lambda>_. k)))"
    if "fresh_slot x es" for c x es
    by (auto intro!: safe_net_call safe_release_connection safe_spawn assms that)
  then show ?thesis
    unfolding accept_connection_def
    by (auto split: option.split intro!: safe_idle_net_call safe_allocate_connection assms)
qed

lemma safe_listener_pass:
  assumes "net_safe i (net_idle i) k"
  shows "net_safe i (net_idle i) (listener_pass fuel E i k)"
  unfolding listener_pass_def
  by (auto split: option.split prod.split
      intro!: safe_process_revocations safe_reconcile_mode safe_idle_action safe_idle_net_call safe_accept_connection assms)

lemma safe_listener_task: "net_safe i (net_idle i) (listener_task fuel E i)"
  by (induction fuel) (auto intro!: safe.finished safe_listener_pass)

lemma safe_close_listeners:
  assumes "net_safe i (net_idle i) k"
  shows "net_safe i (net_idle i) (close_listeners E k)"
  unfolding close_listeners_def by (auto intro!: safe_idle_action safe_idle_net_call safe_close_uart_listener assms)

lemma safe_open_listeners:
  assumes "\<And>r. net_safe i (net_idle i) (k r)"
  shows "net_safe i (net_idle i) (open_listeners E k)"
proof -
  have "net_safe i (net_idle i) (start_listening E k)"
    unfolding start_listening_def
    by (auto intro!: safe_idle_net_call safe_close_listeners safe_idle_action idle_updates assms)
  then show ?thesis
    unfolding open_listeners_def by (auto intro!: safe_create_listener safe_idle_action safe_idle_net_call assms)
qed

text \<open>The task that initialises the component, before the mutex exists.\<close>

definition starting :: "nat \<Rightarrow> device_identity option \<Rightarrow> 'h network_dap \<Rightarrow> bool" where
  "starting i identity s \<longleftrightarrow> net_idle i s \<and> nd_starter s = Some i \<and> \<not> nd_registry_mutex s \<and>
     (identity \<noteq> None \<longrightarrow> nd_identity s = identity)"

lemma starting_world [simp]: "starting i identity (s\<lparr>nd_world := h\<rparr>) = starting i identity s"
  by (simp add: starting_def)

lemma stable_starting [simp]: "stable net_ok net_step world_step i (starting i identity)"
proof (rule stableI)
  fix s s' :: "'h network_dap" and j
  assume s: "starting i identity s" "j \<noteq> i" "net_step j s s'"
  then have "net_idle i s'"
    using net_step_new [OF s(3,2)] by (auto simp: net_idle_def starting_def)
  with s show "starting i identity s'"
    by (auto simp: starting_def net_step_def)
qed simp

lemma idle_weaken: "net_safe i (net_idle i) t \<Longrightarrow> net_safe i (starting i identity) t"
  by (erule safe_weaken) (simp_all add: starting_def)

lemma safe_begin_start:
  fixes k :: "bool \<Rightarrow> ('h network_dap, 'a) task"
  assumes "net_safe i (net_idle i) (k True)" "net_safe i (starting i None) (k False)"
  shows "net_safe i (net_idle i) (atomic (begin_start i) k)"
proof (rule safe_atomic_ex [OF stable_idle])
  fix s :: "'h network_dap" assume s: "net_ok s" "net_idle i s"
  let ?s = "s\<lparr>nd_initialization_started := True, nd_starter := Some i\<rparr>"
  have "net_ok ?s \<and> net_step i s ?s \<and> starting i None ?s" if "\<not> nd_initialization_started s"
    using s that by (auto simp: net_ok_def slot_ok_def claims_ok_def start_ok_def service_claimed_flag_def net_step_def
        starting_def net_idle_def)
  then show "wp (begin_start i) (\<lambda>b s'. net_ok s' \<and> net_step i s s' \<and> (\<exists>Q. Q s' \<and> net_safe i Q (k b))) s"
    using s assms by (simp add: begin_start_def wp_simps) blast
qed

lemma safe_set_identity:
  assumes "net_safe i (starting i identity) (k ())"
  shows "net_safe i (starting i None) (atomic (updates (\<lambda>s. s\<lparr>nd_identity := identity\<rparr>)) k)"
proof (rule safe_update [OF stable_starting])
  fix s :: "'a network_dap" assume s: "net_ok s" "starting i None s"
  then show "net_ok (s\<lparr>nd_identity := identity\<rparr>) \<and> net_step i s (s\<lparr>nd_identity := identity\<rparr>) \<and>
      starting i identity (s\<lparr>nd_identity := identity\<rparr>)"
    by (auto simp: net_ok_def slot_ok_def claims_ok_def start_ok_def service_claimed_flag_def net_step_def
        starting_def net_idle_def)
qed (rule assms)

lemma safe_set_mutex:
  assumes "net_safe i (net_idle i) (k ())" "identity_version identity \<noteq> None"
  shows "net_safe i (starting i identity) (atomic (updates (\<lambda>s. s\<lparr>nd_registry_mutex := created\<rparr>)) k)"
proof (rule safe_update [OF stable_starting])
  fix s :: "'a network_dap" assume s: "net_ok s" "starting i identity s"
  have "identity \<noteq> None" using assms(2) by (cases identity) (auto simp: identity_version_def)
  then have "nd_identity s = identity" "\<not> nd_registry_mutex s" "nd_starter s = Some i"
    using s(2) by (auto simp: starting_def)
  with s assms(2) show "net_ok (s\<lparr>nd_registry_mutex := created\<rparr>) \<and> net_step i s (s\<lparr>nd_registry_mutex := created\<rparr>) \<and>
      net_idle i (s\<lparr>nd_registry_mutex := created\<rparr>)"
    by (auto simp: net_ok_def slot_ok_def claims_ok_def start_ok_def service_claimed_flag_def net_step_def
        starting_def net_idle_def)
qed (rule assms)

lemma safe_create_revoke_queue:
  assumes "\<And>r. net_safe i (net_idle i) (k r)"
  shows "net_safe i (net_idle i) (create_revoke_queue E k)"
  unfolding create_revoke_queue_def
  by (auto intro!: safe_idle_net_call safe_idle_action idle_updates safe_open_listeners assms)

lemma safe_create_registry:
  assumes "\<And>r. net_safe i (net_idle i) (k r)" "identity_version identity \<noteq> None"
  shows "net_safe i (starting i identity) (create_registry E k)"
  unfolding create_registry_def
proof (rule safe_net_call, rule safe_set_mutex)
  fix created
  show "net_safe i (net_idle i) (if \<not> created then k ESP_ERR_NO_MEM else create_revoke_queue E k)"
    using assms(1) safe_create_revoke_queue by auto
qed (simp_all add: assms(2))

lemma safe_start:
  assumes "\<And>r. net_safe i (net_idle i) (k r)"
  shows "net_safe i (net_idle i) (airdap_network_dap_start E i k)"
  unfolding airdap_network_dap_start_def
proof (rule safe_begin_start)
  have "net_safe i (starting i identity)
      (if identity_version identity = None then k ESP_ERR_INVALID_STATE else create_registry E k)" for identity
    using safe_create_registry [OF assms] idle_weaken [OF assms] by auto
  then show "net_safe i (starting i None) (if False then k ESP_ERR_INVALID_STATE
     else net_call (ne_device_identity E) (\<lambda>identity.
       atomic (updates (\<lambda>s. s\<lparr>nd_identity := identity\<rparr>)) (\<lambda>_.
         if identity_version identity = None then k ESP_ERR_INVALID_STATE else create_registry E k)))"
    unfolding if_False by (intro safe_net_call safe_set_identity) simp_all
qed (simp add: assms)

section \<open>The system\<close>

definition net_starts :: "'h net_env \<Rightarrow> nat \<Rightarrow> 'h network_dap \<Rightarrow> ('h, unit) net_task set" where
  "net_starts E i s =
     {airdap_network_dap_start E i (\<lambda>_. Done ())} \<union>
     {airdap_network_dap_get_status E status (\<lambda>_. Done ()) | status. True} \<union>
     {airdap_network_dap_handle_socket fuel E i socket_fd | fuel socket_fd. True} \<union>
     {airdap_network_uart_handle_socket fuel E i socket_fd | fuel socket_fd. True} \<union>
     {connection_task fuel E i c | fuel c. True} \<union>
     {listener_task fuel E i | fuel. True} \<union>
     {airdap_network_dap_process_revocations fuel E (Done ()) | fuel. True} \<union>
     {airdap_network_dap_reconcile_mode E (Done ())} \<union>
     {revoke_session session_id (Done ()) | session_id. True} \<union>
     {queue_dap_response connection transport session token response n (\<lambda>_. Done ()) |
        connection transport session token response n. True}"

lemma done_safe: "net_safe i (net_idle i) (Done ())"
  by (rule safe.finished) simp_all

lemma net_starts_safe:
  assumes "t \<in> net_starts E i s"
  shows "net_safe i (net_idle i) t"
  using assms
  unfolding net_starts_def airdap_network_dap_handle_socket_def airdap_network_uart_handle_socket_def
  by (auto intro!: safe_start safe_get_status safe_handle_socket safe_connection_task safe_listener_task
      safe_process_revocations safe_reconcile_mode safe_revoke_session safe_queue_dap_response done_safe)

interpretation net_system: rely_guarantee net_ok net_step world_step net_idle "net_starts E"
  by unfold_locales (auto intro: net_starts_safe simp: world_step_def)

text \<open>The state of the component when the device starts.\<close>

definition zero_connection :: network_connection where
  "zero_connection = \<lparr>nc_allocated = False, nc_registered = False, nc_service_claimed = False, nc_uart = False,
     nc_socket_fd = 0, nc_auth_connection = None, nc_response_queue = None, nc_auth_session_id = 0,
     nc_dap_session = 0, nc_uart_session = 0, nc_pending_response_token = 0, nc_next_response_token = 0\<rparr>"

definition net_boot :: "'h \<Rightarrow> 'h network_dap" where
  "net_boot h = \<lparr>nd_registry_mutex = False, nd_revoke_queue = None, nd_connections = (\<lambda>_. zero_connection),
     nd_identity = None, nd_initialization_started = False, nd_revoke_all = False, nd_listener_ready = False,
     nd_dap_claimed = False, nd_uart_claimed = False, nd_listener_socket = -1, nd_uart_listener_socket = -1,
     nd_spawned = {}, nd_task = (\<lambda>_. None), nd_starter = None, nd_world = h, nd_trace = (\<lambda>_. [])\<rparr>"

definition net_reachable :: "'h net_env \<Rightarrow> 'h \<Rightarrow> 'h network_dap \<Rightarrow> bool" where
  "net_reachable E h s \<longleftrightarrow> (\<exists>ts. system_steps (net_starts E) world_step ((\<lambda>_. Done ()), net_boot h) (ts, s))"

lemma net_boot_ok: "net_ok (net_boot h)" "net_idle i (net_boot h)"
  by (simp_all add: net_boot_def net_ok_def slot_ok_def claims_ok_def start_ok_def net_idle_def zero_connection_def
      queue_ok_def)

lemma net_reachable_ok:
  assumes "net_reachable E h s"
  shows "net_ok s"
  using assms net_system.reachable_invariant [OF _ net_boot_ok]
  unfolding net_reachable_def by fastforce

lemma net_event_reachable:
  assumes "net_reachable E h s" "nd_trace s c = es @ e # es'"
  shows "net_event_sound e es'"
proof -
  have "history_sound net_event_sound (nd_trace s c)"
    using net_reachable_ok [OF assms(1)] by (simp add: net_ok_def slot_ok_def)
  then show ?thesis using assms(2) history_soundD by metis
qed

end
