(* ===== verification/Network_Histories.thy ===== *)
theory Network_Histories
  imports Network_System
begin

text \<open>
  The properties of the framed TLS connections, about every reachable state and every history.
\<close>

section \<open>Properties\<close>

definition operation_admitted :: "net_event \<Rightarrow> net_event list \<Rightarrow> bool" where
  "operation_admitted e es = (case e of
       Net_submitted token p \<Rightarrow> request_admitted False AIRDAP_FRAME_TYPE_DAP_REQUEST p es \<and> p \<noteq> [] \<and>
         \<not> (0x80 \<le> p ! 0 \<and> p ! 0 \<le> 0x85)
     | Net_board opcode v \<Rightarrow>
         (\<exists>p. request_admitted False AIRDAP_FRAME_TYPE_CONTROL_REQUEST p es \<and> p \<noteq> [] \<and> p ! 0 = opcode)
     | Net_ota opcode \<Rightarrow>
         (\<exists>p. request_admitted False AIRDAP_FRAME_TYPE_CONTROL_REQUEST p es \<and> p \<noteq> [] \<and> p ! 0 = opcode)
     | Net_uart opcode \<Rightarrow>
         (\<exists>p. request_admitted True AIRDAP_FRAME_TYPE_CONTROL_REQUEST p es \<and> p \<noteq> [] \<and> p ! 0 = opcode)
     | _ \<Rightarrow> True)"


text \<open>C8. A service has one client: in every reachable state at most one debug connection and at most one
  UART connection hold their service, by the flag in the connection and by its history, and the flag
  that guards the service is set while one does.\<close>

theorem network_service_exclusive:
  assumes "net_reachable E h s" "holds_claim (nd_trace s c)"
  shows "nc_service_claimed (nd_connections s c) \<and> service_claimed_flag (nc_uart (nd_connections s c)) s \<and>
    (\<forall>d. holds_claim (nd_trace s d) \<and> nc_uart (nd_connections s d) = nc_uart (nd_connections s c) \<longrightarrow> d = c)"
proof -
  have "net_ok s" by (rule net_reachable_ok [OF assms(1)])
  then have "claims_ok s" and claim: "nc_service_claimed (nd_connections s d) = holds_claim (nd_trace s d)" for d
    by (auto simp: net_ok_def slot_ok_def)
  then show ?thesis
    using assms(2) unfolding claims_ok_def claim by metis
qed

lemma sequence_run_snoc:
  "sequence_run s (Suc n) = sequence_run s n @ [(airdap_frame_next_sequence ^^ n) s]"
  by (induction n arbitrary: s) (simp_all add: funpow_swap1)

lemma accepted_run:
  assumes "history_sound net_event_sound es"
  shows "(\<exists>sid. \<forall>h \<in> set (accepted_requests es). fh_session_id h = sid) \<and>
    rev (map fh_sequence (accepted_requests es)) =
      sequence_run AIRDAP_FRAME_INITIAL_SEQUENCE (length (accepted_requests es))"
  using assms
proof (induction es)
  case Nil
  then show ?case by simp
next
  case (Cons e es)
  have "history_sound net_event_sound es" using Cons.prems by simp
  from Cons.IH [OF this] obtain sid where sid: "\<forall>h \<in> set (accepted_requests es). fh_session_id h = sid"
    and run: "rev (map fh_sequence (accepted_requests es)) = sequence_run 1 (length (accepted_requests es))"
    by blast
  show ?case
  proof (cases e)
    case (Net_accepted h)
    then have "next_request h (accepted_requests es)"
      using Cons.prems by (simp add: net_event_sound_def)
    with sid run show ?thesis
      by (cases "accepted_requests es")
        (auto simp: Net_accepted history_simps next_request_def sequence_run_snoc simp del: sequence_run.simps(2))
  qed (use sid run in \<open>auto simp: history_simps\<close>)
qed



section \<open>A connection\<close>


text \<open>
  A platform without failures whose state is the bytes still to be received, and a client that
  greets, binds a session, sends one debug command and leaves.
\<close>

definition calm_identity :: device_identity where
  "calm_identity = \<lparr>di_uuid = replicate 16 7, di_capabilities = 3, di_device_id = replicate 16 65,
     di_firmware_version = Some [49]\<rparr>"

definition calm_read :: "nat \<Rightarrow> (bytes, int \<times> bytes) task" where
  "calm_read n = Act (\<lambda>input. Some (Done (int (length (take n input)), take n input), drop n input))"

definition calm_net :: "bytes net_env" where
  "calm_net = \<lparr>ne_want_read = -1, ne_want_write = -2, ne_get_time = Done 0,
     ne_poll = (\<lambda>_ _ _. Done NPOLL_TIMEOUT), ne_poll_listeners = (\<lambda>_ _ _. Done None), ne_accept = (\<lambda>_. Done None),
     ne_get_flags = (\<lambda>_. Done (Some True)), ne_set_nonblocking = (\<lambda>_. Done True), ne_close = (\<lambda>_. Done ()),
     ne_shutdown = (\<lambda>_ h. h), ne_socket = Done 1, ne_reuse_address = (\<lambda>_. Done True), ne_bind_port = (\<lambda>_ _. Done True),
     ne_listen = (\<lambda>_ _. Done True), ne_create_queue = Done True, ne_create_mutex = Done True, ne_create_task = Done True,
     ne_take_mutex = Pair True, ne_wait_expired = (\<lambda>_. False), ne_device_identity = Done (Some calm_identity),
     ne_network_data_enabled = Done True, ne_dap_admission = Done DAP_ALLOWED,
     ne_control_operation_begin = Done (DAP_INVALID_STATE, undefined), ne_operation_end = (\<lambda>_. Done ()),
     ne_tls_accept = (\<lambda>_. Done (AUTH_OK, Some 5)), ne_tls_read = (\<lambda>_. calm_read),
     ne_tls_write = (\<lambda>_ data. Done (int (length data))),
     ne_session_bind = (\<lambda>_ _ _. Done (AUTH_OK, Some \<lparr>si_session_id = 11, si_credential_generation = 1,
       si_session_token = replicate 32 9, si_credential_fingerprint = []\<rparr>)),
     ne_session_validate = (\<lambda>_ _. Done AUTH_OK), ne_connection_close = (\<lambda>_. Done ()), ne_set_revoke_handler = Done ESP_OK,
     ne_service_open = Done (SERVICE_OK, 21), ne_service_close = (\<lambda>_. Done SERVICE_OK),
     ne_service_submit = (\<lambda>_ _ _ _. Done SERVICE_OK), ne_uart_open = Done (UART_OK, 31),
     ne_uart_close = (\<lambda>_. Done UART_OK), ne_uart_session_status = (\<lambda>_. Done (UART_OK, None)),
     ne_uart_status = Done (ESP_OK, None), ne_uart_acquire = (\<lambda>_. Done UART_OK),
     ne_uart_configure = (\<lambda>_ _ _ _ _. Done UART_OK), ne_uart_write = (\<lambda>_ data. Done (UART_OK, length data)),
     ne_uart_read = (\<lambda>_ _. Done (UART_OK, [])), ne_ota_get_info = Done (OTA_STATUS_BUSY, undefined),
     ne_ota_begin = (\<lambda>_ _ _. Done OTA_STATUS_OK), ne_ota_write = (\<lambda>_ _ _ _. Done (OTA_STATUS_OK, 0)),
     ne_ota_commit = (\<lambda>_ _. Done OTA_STATUS_OK), ne_ota_abort = (\<lambda>_ _. Done OTA_STATUS_OK),
     ne_ota_prepare_reboot = (\<lambda>_ _. Done OTA_STATUS_OK), ne_ota_reboot = (\<lambda>_ _. Done OTA_STATUS_OK),
     ne_ota_disconnect = (\<lambda>_ _. Done OTA_STATUS_OK), ne_reset_set = (\<lambda>_. Done ESP_OK), ne_power_set = (\<lambda>_. Done ESP_OK),
     ne_power_get = Done (ESP_OK, True)\<rparr>"

definition demo_header :: "u8 \<Rightarrow> u32 \<Rightarrow> u16 \<Rightarrow> airdap_frame_header" where
  "demo_header type sequence payload_length = \<lparr>fh_magic = AIRDAP_FRAME_MAGIC, fh_version = AIRDAP_FRAME_PROTOCOL_VERSION,
     fh_type = type, fh_flags = 0, fh_session_id = 4, fh_sequence = sequence, fh_payload_length = payload_length,
     fh_reserved = 0\<rparr>"

definition demo_input :: bytes where
  "demo_input = header_bytes (demo_header 1 1 0) @ header_bytes (demo_header 2 2 0) @
     header_bytes (demo_header 3 3 2) @ [0x00, 0x04]"

definition demo_fuel :: nat where "demo_fuel = Suc (Suc (Suc (Suc (Suc (Suc (Suc (Suc 0)))))))"

definition net_demo_started :: "bytes network_dap" where
  "net_demo_started = snd (run_task 20 (airdap_network_dap_start calm_net 2 (\<lambda>_. Done ())) (net_boot demo_input))"

definition demo_answer :: "(bytes, unit) net_task" where
  "demo_answer = queue_dap_response (Some 0) AIRDAP_DAP_TRANSPORT_NETWORK 21 1 (Some [0x00, 0x01]) 2 (\<lambda>_. Done ())"

definition net_demo :: "bytes network_dap" where
  "net_demo = (case run_task 100 (airdap_network_dap_handle_socket demo_fuel calm_net 0 7) net_demo_started of
     (t, s) \<Rightarrow> snd (run_task 7 t (snd (run_task 3 demo_answer s))))"

lemma calm_simps:
  "ne_want_read calm_net = -1" "ne_want_write calm_net = -2" "ne_get_time calm_net = Done 0"
  "ne_get_flags calm_net fd = Done (Some True)" "ne_close calm_net fd = Done ()" "ne_socket calm_net = Done 1"
  "ne_reuse_address calm_net fd = Done True" "ne_bind_port calm_net fd port = Done True"
  "ne_listen calm_net fd n = Done True" "ne_create_queue calm_net = Done True" "ne_create_mutex calm_net = Done True"
  "ne_create_task calm_net = Done True" "ne_take_mutex calm_net h = (True, h)" "ne_wait_expired calm_net h = False"
  "ne_device_identity calm_net = Done (Some calm_identity)" "ne_network_data_enabled calm_net = Done True"
  "ne_dap_admission calm_net = Done DAP_ALLOWED" "ne_tls_accept calm_net fd = Done (AUTH_OK, Some 5)"
  "ne_tls_read calm_net auth n = Act (\<lambda>input. Some (Done (int (length (take n input)), take n input), drop n input))"
  "ne_tls_write calm_net auth data = Done (int (length data))"
  "ne_session_bind calm_net auth token n = Done (AUTH_OK, Some \<lparr>si_session_id = 11, si_credential_generation = 1,
     si_session_token = replicate 32 9, si_credential_fingerprint = []\<rparr>)"
  "ne_session_validate calm_net auth sid = Done AUTH_OK" "ne_connection_close calm_net n = Done ()"
  "ne_set_revoke_handler calm_net = Done ESP_OK" "ne_service_open calm_net = Done (SERVICE_OK, 21)"
  "ne_service_close calm_net d = Done SERVICE_OK" "ne_service_submit calm_net d request t n = Done SERVICE_OK"
  "ne_ota_disconnect calm_net auth sid = Done OTA_STATUS_OK"
  by (simp_all add: calm_net_def calm_read_def)

lemma demo_started:
  "nd_registry_mutex net_demo_started" "nd_identity net_demo_started = Some calm_identity"
  "nd_connections net_demo_started = (\<lambda>_. zero_connection)" "nd_world net_demo_started = demo_input"
  "nd_trace net_demo_started = (\<lambda>_. [])" "\<not> nd_dap_claimed net_demo_started"
  by (simp_all add: net_demo_started_def airdap_network_dap_start_def begin_start_def net_boot_def atomic_def
      net_call_def call_Act calm_simps open_listeners_def create_listener_def make_nonblocking_def start_listening_def
      create_registry_def create_revoke_queue_def
      set_listener_def set_uart_listener_def identity_version_def calm_identity_def run_task_numeral Let_def)

lemma demo_header_ok:
  "header_ok (demo_header 1 1 0)" "header_ok (demo_header 2 2 0)" "header_ok (demo_header 3 3 2)"
  by (simp_all add: header_ok_def validate_header_None demo_header_def valid_message_type_def)

lemma judge_header_bytes:
  assumes "header_ok h"
  shows "judge_header (header_bytes h) = Some (if payload_size h = 0 then Verdict FRAME_READ_OK h else Payload (payload_size h))"
proof -
  have "airdap_frame_decode (Some (header_bytes h)) 20 True = Some (decode_result 0 h)"
    using airdap_frame_decode_enough [of 20 "header_bytes h" h] read_header_bytes [of h "[]"]
    by (simp add: decode_result_def)
  moreover have "payload_size h \<le> 4096"
    using assms by (simp add: header_ok_def validate_header_None word_le_nat_alt)
  ultimately show ?thesis
    using assms by (simp add: judge_header_def decode_result_def rd_def header_bytes_payload [symmetric])
qed

lemma encode_response_bytes:
  assumes "header_ok h" "payload_size h = length p" "length p \<le> 508"
  shows "encode_response h (Some p) = Some (Some (header_bytes h @ p))"
  using assms airdap_frame_encode_Some [of h p 528 "replicate 528 0"]
  by (simp add: encode_response_def)

lemma demo_response:
  assumes "n = length p" "n \<le> 508" "ty \<in> {1, 2, 4}" "q \<noteq> 0"
  shows "encode_response (response_header (demo_header t q m) ty n) (Some p) =
    Some (Some (header_bytes (response_header (demo_header t q m) ty n) @ p))"
proof (rule encode_response_bytes)
  have n: "unat (of_nat n :: u16) = n" using assms(2) by (simp add: unat_of_nat take_bit_nat_eq_self)
  then show "payload_size (response_header (demo_header t q m) ty n) = length p"
    using assms(1) by (simp add: response_header_def)
  have "(of_nat n :: u16) \<le> 4096" unfolding word_le_nat_alt n using assms(2) by simp
  then show "header_ok (response_header (demo_header t q m) ty n)"
    using assms(3,4)
    by (auto simp: header_ok_def validate_header_None demo_header_def valid_message_type_def response_header_def)
qed (use assms in simp)

lemma demo_fields [simp]:
  "fh_type (demo_header t q n) = t" "fh_session_id (demo_header t q n) = 4" "fh_sequence (demo_header t q n) = q"
  "fh_payload_length (demo_header t q n) = n"
  by (simp_all add: demo_header_def)

lemma demo_hello: "length (hello_payload calm_identity [49]) = 37"
  by (simp add: hello_payload_def calm_identity_def u32_be_bytes_def)

lemma demo_auth: "length (auth_response info) = 4 + min (length (si_session_token info)) 32"
  by (simp add: auth_response_def u32_be_bytes_def)

lemmas demo_run_defs = airdap_network_dap_handle_socket_def handle_socket_def allocate_connection_def
  register_connection_def free_connection_def with_registry_def registry_lock_def set_conn_def net_note_def
  run_connection_def with_conn_def make_nonblocking_def net_call_def call_Act calm_simps store_auth_connection_def
  read_frame_def read_payload_def noting_def atomic_def demo_started init_validator_def
  airdap_frame_sequence_validator_init_def zero_validator_def check_sequence_def
  airdap_frame_validate_request_sequence_def request_message_type_def demo_header_ok [unfolded header_ok_def]
  airdap_frame_next_sequence_def handle_request_def on_success_def

lemmas demo_request_defs = handle_hello_def send_hello_def identity_version_def send_frame_def demo_hello demo_response
  handle_auth_def bind_session_def claim_service_connection_def service_claimed_flag_def set_claimed_flag_def
  store_auth_session_def publish_auth_session_def session_validate_def open_dap_def store_dap_session_def demo_auth
  handle_dap_def send_dap_response_def validate_bound_session_def net_validate_def submit_request_def
  next_token_def set_pending_def receive_response_def

lemma calm_version: "di_firmware_version calm_identity = Some [49]"
  by (simp add: calm_identity_def)

lemma header_bytes_nonempty [simp]: "header_bytes h \<noteq> []"
  using header_bytes_length [of h] by (metis list.size(3) zero_neq_numeral)

lemmas demo_end_defs = queue_dap_response_def queue_response_def deliver_dap_response_def

abbreviation (input) "demo_greeting \<equiv> demo_header 1 1 0"
abbreviation (input) "demo_binding \<equiv> demo_header 2 2 0"
abbreviation (input) "demo_command \<equiv> demo_header 3 3 2"

definition demo_session :: airdap_network_auth_session_info where
  "demo_session = \<lparr>si_session_id = 11, si_credential_generation = 1, si_session_token = replicate 32 9,
     si_credential_fingerprint = []\<rparr>"

definition demo_accepted :: "net_event list" where
  "demo_accepted =
     [Net_validated 11, Net_accepted demo_command, Net_frame demo_command [0x00, 0x04], Net_read [0x00, 0x04],
      Net_read (header_bytes demo_command), Net_sent (response_header demo_binding 2 36) (auth_response demo_session),
      Net_validated 11, Net_bound 11, Net_claimed, Net_accepted demo_binding, Net_frame demo_binding [],
      Net_read (header_bytes demo_binding), Net_hello,
      Net_sent (response_header demo_greeting 1 37) (hello_payload calm_identity [49]), Net_accepted demo_greeting,
      Net_frame demo_greeting [], Net_read (header_bytes demo_greeting), Net_started False]"

definition demo_answered :: "net_event list" where
  "demo_answered = [Net_validated 11, Net_answer 1 [0x00, 0x01], Net_submitted 1 [0x00, 0x04]] @ demo_accepted"

lemma net_demo_trace:
  "nd_trace net_demo 0 = Net_sent (response_header demo_command 4 2) [0x00, 0x01] # demo_answered"
  unfolding net_demo_def demo_answer_def demo_fuel_def demo_answered_def demo_accepted_def demo_session_def
  by (simp add: demo_run_defs demo_request_defs demo_end_defs run_task_numeral Let_def zero_connection_def
      fresh_connection_def upt_rec demo_input_def judge_header_bytes judge_frame_complete demo_header_ok calm_version)
    (simp add: numeral_2_eq_2)

lemma net_demo_reachable: "net_reachable calm_net demo_input net_demo"
proof -
  let ?steps = "system_steps (net_starts calm_net) world_step"
  let ?boot = "airdap_network_dap_start calm_net 2 (\<lambda>_. Done ())"
  let ?serve = "airdap_network_dap_handle_socket demo_fuel calm_net 0 7"
  have starts: "?boot \<in> net_starts calm_net 2 v" "?serve \<in> net_starts calm_net 0 v"
    "demo_answer \<in> net_starts calm_net 1 v" for v
    unfolding net_starts_def demo_answer_def by blast+
  obtain b where boot: "run_task 20 ?boot (net_boot demo_input) = (b, net_demo_started)"
    unfolding net_demo_started_def by (metis prod.collapse)
  obtain t s where run: "run_task 100 ?serve net_demo_started = (t, s)" by fastforce
  obtain u s' where answer: "run_task 3 demo_answer s = (u, s')" by fastforce
  obtain t' where ended: "run_task 7 t s' = (t', net_demo)"
    using run answer by (simp add: net_demo_def) (metis prod.collapse)
  let ?ts1 = "(\<lambda>_. Done ())(2 := b)"
  let ?ts2 = "?ts1(0 := t)"
  let ?ts3 = "?ts2(1 := u)"
  have "?steps ((\<lambda>_. Done ()), net_boot demo_input) (?ts1, net_demo_started)"
    by (rule start_run [where t = ?boot]) (simp, rule starts(1), rule boot)
  moreover have "?steps (?ts1, net_demo_started) (?ts2, s)"
    by (rule start_run [where t = ?serve]) (simp, rule starts(2), rule run)
  moreover have "?steps (?ts2, s) (?ts3, s')"
    by (rule start_run [where t = demo_answer]) (simp, rule starts(3), rule answer)
  moreover have "?steps (?ts3, s') (?ts3(0 := t'), net_demo)"
    by (rule continue_run) (use ended in simp)
  ultimately have "?steps ((\<lambda>_. Done ()), net_boot demo_input) (?ts3(0 := t'), net_demo)"
    by (meson system_steps_trans)
  then show ?thesis unfolding net_reachable_def by blast
qed


theorem network_service_exclusive_witness:
  "holds_claim (nd_trace net_demo 0) \<and> nc_service_claimed (nd_connections net_demo 0)"
proof -
  have "holds_claim (nd_trace net_demo 0)"
    by (simp add: net_demo_trace demo_answered_def demo_accepted_def history_simps)
  with network_service_exclusive [OF net_demo_reachable this] show ?thesis by blast
qed



end
