(* ===== verification/Spec2Isabelle.thy ===== *)
theory Spec2Isabelle
  imports Airdap_Frame Mode_State Wifi_Connection Provisioning_Button Dap_Execution Dap_Stream Swd_Engine Ota_Firmware Dap_Ota Config_Store Button_Config Dap_Sessions Network_Sessions Uart_Sessions Network_Histories
begin

text \<open>
  Verification of the AirDAP firmware, a wireless CMSIS-DAP debug probe for the ESP32-S3. Paths are
  relative to \<^verbatim>\<open>firmware/components\<close>.

  \<^bold>\<open>The program.\<close> A debugger reaches the probe over USB (bulk endpoints, \<^verbatim>\<open>usb_device\<close>) or over TLS
  on the network (\<^verbatim>\<open>network_dap\<close>, with the frames of \<^verbatim>\<open>airdap_frame\<close>). Both hand CMSIS-DAP requests
  to the service task of \<^verbatim>\<open>dap_service\<close>, which runs them one at a time through the command processor
  of \<^verbatim>\<open>dap_protocol\<close>; the processor drives the target through \<^verbatim>\<open>swd_engine\<close>. Who may do so is
  decided by two lock-free words: the owner of the bus (\<^verbatim>\<open>dap_ownership\<close>) and the mode of the probe
  (\<^verbatim>\<open>mode_state\<close>: USB present, Wi-Fi, provisioning, update, route). Firmware updates
  (\<^verbatim>\<open>ota_manager\<close>, vendor commands in \<^verbatim>\<open>dap_protocol/dap_ota.c\<close>) take the bus away while they run.
  Wi-Fi, the button, and the stored configuration have components of their own.

  \<^bold>\<open>Theories.\<close>

  \<^item> \<open>AirDAP_Prelude\<close>: machine integers, checked buffer access (\<^const>\<open>None\<close> is an access outside
    the buffer), big and little endian, the error codes of ESP-IDF, and the rules \<open>returns_rules\<close>.
  \<^item> \<open>Airdap_Frame\<close> (\<^verbatim>\<open>airdap_frame/airdap_frame.c\<close>): encoder, decoder, error payload, sequence and
    response checks. Round trip of frames, no access outside the input whatever its bytes are,
    classification of sequence numbers.
  \<^item> \<open>Atomic_Prog\<close>: programs on C11 atomics (loads, stores, compare-exchange, which may fail
    spuriously when weak) and their interleaving; \<open>Dap_Ownership\<close> (\<^verbatim>\<open>dap_ownership/dap_ownership.c\<close>)
    and \<open>Mode_State\<close> (\<^verbatim>\<open>mode_state/mode_state.c\<close>, \<^verbatim>\<open>mode_storage.c\<close>) are written in it, one program
    per function. For any number of tasks and any interleaving: at most one holder of an operation,
    refinement of an abstract arbiter, stale claims stay invalid, the mode word is well formed,
    admission excludes USB, network and update from each other.
  \<^item> \<open>Dap_Protocol\<close> and \<open>Dap_Execution\<close> (\<^verbatim>\<open>dap_protocol/dap_protocol.c\<close>): request framing and every
    command over a record of backend callbacks. Memory safety of every request, the framing
    contract, a block transfer is a sequence of single transfers, a disabled port is left alone.
  \<^item> \<open>Dap_Stream\<close> (\<^verbatim>\<open>usb_device/dap_stream.c\<close>): reassembly of requests from bulk transfers refines
    splitting the byte stream.
  \<^item> \<open>Swd_Protocol\<close> (\<^verbatim>\<open>swd_engine/swd_protocol.c\<close>) and \<open>Swd_Engine\<close> (\<^verbatim>\<open>swd_engine/swd_engine.c\<close>): the
    wire protocol over line callbacks, against an abstract target, and the SPI engine over driver
    calls. Transfers return what the target serves, the line is never driven from both ends, the
    retries are bounded.
  \<^item> \<open>Stateful\<close>: weakest preconditions for the state monad. \<open>Ota_Manager\<close>, \<open>Ota_Session\<close>
    (\<^verbatim>\<open>ota_manager/ota_manager.c\<close>): the session refines an abstract update machine, only a complete and
    validated image of an authorised client becomes the boot image. \<open>Ota_Firmware\<close>: with the mode
    state and the arbiter put in, debug access is blocked during an update. \<open>Dap_Ota\<close>
    (\<^verbatim>\<open>dap_protocol/dap_ota.c\<close>): the vendor commands.
  \<^item> \<open>Interleaving\<close>: tasks of atomic actions with blocking mutexes and a rely-guarantee locale.
    \<open>Dap_Service\<close>, \<open>Dap_Sessions\<close> (\<^verbatim>\<open>dap_service/dap_service.c\<close>): for any interleaving of transports
    and worker, requests of a session are answered in order and never after the session is closed.
  \<^item> \<open>Network_Auth\<close>, \<open>Network_Sessions\<close> (\<^verbatim>\<open>network_auth/network_auth.c\<close>): pairing, TLS handshakes and the
    owner session. For any interleaving: a connection passes only while it belongs to the live
    session, holds its token and proved the paired key; one owner at a time; pairing needs USB or an
    open window and survives a restart; a handshake ends.
  \<^item> \<open>Target_Uart\<close>, \<open>Uart_Sessions\<close> (\<^verbatim>\<open>target_uart/target_uart.c\<close>): the UART shared by USB and network.
    For any interleaving: only the live owner of the transmitter writes or configures the port and
    never while it is suspended; ring buffers refine bounded queues; a status read without a lock
    never mixes two configurations.
  \<^item> \<open>Task_Calls\<close>: a task of one component run inside a task of another. \<open>Network_Frames\<close>,
    \<open>Network_Dispatch\<close>, \<open>Network_Dap\<close>, \<open>Network_Server\<close> model \<^verbatim>\<open>network_dap/network_dap.c\<close> and the services
    behind it (\<^verbatim>\<open>network_control/network_control.c\<close>, \<^verbatim>\<open>network_ota/network_ota.c\<close>,
    \<^verbatim>\<open>network_uart/network_uart.c\<close>): frames on a connection, the registry of connections, sessions and
    their revocation, requests, and the tasks that listen and serve. \<open>Network_Rules\<close>, \<open>Network_Gate\<close>,
    \<open>Network_Loop\<close>, \<open>Network_System\<close> follow every function along its branches against one invariant,
    and \<open>Network_Histories\<close> draws the conclusions. For any number of tasks, any interleaving and any
    behaviour of what lies below: nothing is done for a client before it has greeted, bound a session
    and had it validated for this request; one connection at a time holds a service; accepted
    frames are numbered without gaps; a response answers the request it names.
  \<^item> \<open>Nvs\<close>: the interface of the non-volatile storage, with the documented behaviour of its calls
    as a predicate. \<open>Config_Store\<close> (\<^verbatim>\<open>config_store/config_store.c\<close>) and \<open>Button_Config\<close>
    (\<^verbatim>\<open>button_config/button_config.c\<close>): every call refines a record update, and a restart restores
    what the last successful call stored.
  \<^item> \<open>Wifi_Connection\<close> (\<^verbatim>\<open>wifi_manager/wifi_state_machine.c\<close>, \<^verbatim>\<open>wifi_disconnect_reason.c\<close>,
    \<^verbatim>\<open>wifi_credentials.c\<close>): connection state machine, back-off, credential record.
  \<^item> \<open>Provisioning_Button\<close> (\<^verbatim>\<open>ble_provisioning/provisioning_button.c\<close>, \<^verbatim>\<open>button_indicator.c\<close>,
    \<^verbatim>\<open>button_simulation.c\<close>): gestures, LED patterns, simulated presses.

  \<^bold>\<open>Interfaces.\<close> What a component relies on is a locale, interpreted on the models of the components
  below it: \<open>framing\<close> (a framing function stable under more input), \<open>rely_guarantee\<close>,
  \<open>ota_platform\<close> (what an update needs from mode state and arbiter), \<open>byte_codec\<close>.

  \<^bold>\<open>Parameters.\<close> Code outside the repository (SPI and GPIO drivers, flash partitions, NVS, FreeRTOS
  queues, timers) is a record of functions on an arbitrary state; what is relied on is a named
  predicate, and a concrete instance in the witnesses satisfies it.

  \<^bold>\<open>Loops and bounds.\<close> Loops over buffers are structural or have a measure. The compare-exchange loops
  of the lock-free components take a fuel argument; running out of it is the program \<open>Spin\<close>, so the
  invariants hold for every fuel. So do the loops of a network connection, which wait for its peer:
  a task without fuel does not go on, and the properties of histories hold for every fuel. The retry loop of a transfer is a function on the number of
  retries left; \<open>swd_endless_wait\<close> records the one argument for which the code's loop does not end.
  Session numbers of the service wrap at 32 bits; the isolation theorem is for a history that
  draws fewer than \<open>2 ^ 32 - 1\<close> of them.

  \<^bold>\<open>Not modelled.\<close> \<^verbatim>\<open>dap_protocol/dap_backend.c\<close>, which binds the command processor to the arbiter and the engine; the drivers and glue around the
  ESP-IDF (\<^verbatim>\<open>wifi_manager.c\<close>, \<^verbatim>\<open>ble_provisioning.c\<close>, \<^verbatim>\<open>usb_device.c\<close>, \<^verbatim>\<open>board\<close>, \<^verbatim>\<open>discovery\<close>,
  \<^verbatim>\<open>voltage_monitor\<close>) and the diagnostic shell, which mostly call libraries and format text; the
  host programs and the hardware design, which are not C.
\<close>

end
